(* ===== verification/Float64.thy ===== *)
theory Float64
  imports Complex_Main "HOL-Library.Log_Nat" "HOL-Library.Code_Target_Nat"
begin

text \<open>
  Go's \<open>float64\<close>: IEEE 754 binary64 with rounding to nearest, ties to even. A value is a finite
  rational, one of the two infinities or NaN; the two zeros are identified (the program never
  divides by a zero whose sign it relies on and never prints one). Every operation rounds the
  exact result once (\<open>fl\<close>), as the hardware does; comparisons with NaN are false. The
  lemmas show that rounding is monotone, odd and exact on the integers of at most 53 bits, so
  that order and sign facts survive the rounding of each operation.
\<close>

datatype float64 = Fin rat | PInf | NInf | NaN

subsection \<open>Rounding to binary64\<close>

definition pow2 :: "int \<Rightarrow> rat" where
  "pow2 k = (if 0 \<le> k then 2 ^ nat k else 1 / 2 ^ nat (- k))"

definition ilog2 :: "rat \<Rightarrow> int" where
  "ilog2 r = (let (p, q) = quotient_of r; e = bitlen p - bitlen q
              in if pow2 e \<le> r then e else e - 1)"

definition ulp_exp :: "rat \<Rightarrow> int" where
  "ulp_exp r = max (ilog2 r) (- 1022) - 52"

definition rhe :: "rat \<Rightarrow> int" where
  "rhe r = (let f = \<lfloor>r\<rfloor>; d = r - of_int f
            in if d < 1 / 2 then f else if 1 / 2 < d then f + 1
               else if even f then f else f + 1)"

definition rnd :: "rat \<Rightarrow> rat" where
  "rnd r = (if r = 0 then 0
            else let q = pow2 (ulp_exp \<bar>r\<bar>) in of_int (rhe (r / q)) * q)"

definition fl :: "rat \<Rightarrow> float64" where
  "fl r = (let x = rnd r in
     if 2 ^ 1024 \<le> x then PInf else if x \<le> - (2 ^ 1024) then NInf else Fin x)"

subsection \<open>Arithmetic and comparison\<close>

definition inf_of :: "rat \<Rightarrow> float64" where
  "inf_of s = (if 0 < s then PInf else if s < 0 then NInf else NaN)"

instantiation float64 :: "{zero, one, plus, uminus, minus, times, divide, inverse, abs, ord}"
begin

definition zero_float64 :: float64 where "0 = Fin 0"

definition one_float64 :: float64 where "1 = Fin 1"

fun plus_float64 :: "float64 \<Rightarrow> float64 \<Rightarrow> float64" where
  "Fin a + Fin b = fl (a + b)"
| "NaN + _ = NaN"
| "_ + NaN = NaN"
| "PInf + NInf = NaN"
| "NInf + PInf = NaN"
| "PInf + _ = PInf"
| "_ + PInf = PInf"
| "NInf + _ = NInf"
| "_ + NInf = NInf"

fun uminus_float64 :: "float64 \<Rightarrow> float64" where
  "- Fin a = Fin (- a)"
| "- PInf = NInf"
| "- NInf = PInf"
| "- NaN = NaN"

definition minus_float64 :: "float64 \<Rightarrow> float64 \<Rightarrow> float64" where
  "a - b = a + (- b :: float64)"

fun times_float64 :: "float64 \<Rightarrow> float64 \<Rightarrow> float64" where
  "Fin a * Fin b = fl (a * b)"
| "NaN * _ = NaN"
| "_ * NaN = NaN"
| "Fin a * PInf = inf_of a"
| "Fin a * NInf = inf_of (- a)"
| "PInf * Fin b = inf_of b"
| "NInf * Fin b = inf_of (- b)"
| "PInf * PInf = PInf"
| "NInf * NInf = PInf"
| "PInf * NInf = NInf"
| "NInf * PInf = NInf"

fun divide_float64 :: "float64 \<Rightarrow> float64 \<Rightarrow> float64" where
  "Fin a div Fin b = (if b = 0 then inf_of a else fl (a / b))"
| "NaN div _ = NaN"
| "_ div NaN = NaN"
| "Fin _ div _ = Fin 0"
| "PInf div Fin b = (if b < 0 then NInf else PInf)"
| "NInf div Fin b = (if b < 0 then PInf else NInf)"
| "_ div _ = NaN"

definition inverse_float64 :: "float64 \<Rightarrow> float64" where
  "inverse_float64 a = Fin 1 div a"

fun abs_float64 :: "float64 \<Rightarrow> float64" where
  "\<bar>Fin a\<bar> = Fin \<bar>a\<bar>"
| "\<bar>NaN\<bar> = NaN"
| "\<bar>(_ :: float64)\<bar> = PInf"

fun less_eq_float64 :: "float64 \<Rightarrow> float64 \<Rightarrow> bool" where
  "Fin a \<le> Fin b = (a \<le> b)"
| "NaN \<le> (_ :: float64) = False"
| "(_ :: float64) \<le> NaN = False"
| "NInf \<le> _ = True"
| "_ \<le> PInf = True"
| "(_ :: float64) \<le> _ = False"

fun less_float64 :: "float64 \<Rightarrow> float64 \<Rightarrow> bool" where
  "Fin a < Fin b = (a < b)"
| "NaN < (_ :: float64) = False"
| "(_ :: float64) < NaN = False"
| "PInf < _ = False"
| "_ < NInf = False"
| "NInf < _ = True"
| "_ < PInf = True"

instance ..

end

subsection \<open>Powers of two and the binary logarithm\<close>

lemma pow2_pos [simp]: "0 < pow2 k"
  by (simp add: pow2_def)

lemma pow2_nz [simp]: "pow2 k \<noteq> 0"
  by (simp add: pow2_def)

lemma pow2_powi: "pow2 k = 2 powi k"
  by (simp add: pow2_def power_int_def inverse_eq_divide power_one_over)

lemma pow2_add: "pow2 (a + b) = pow2 a * pow2 b"
  by (simp add: pow2_powi power_int_add)

lemma pow2_nat: "pow2 (int n) = 2 ^ n"
  by (simp add: pow2_def)

lemma pow2_int: "0 \<le> k \<Longrightarrow> pow2 k = of_int (2 ^ nat k)"
  by (simp add: pow2_def)

lemma pow2_mono: "a \<le> b \<Longrightarrow> pow2 a \<le> pow2 b"
  by (simp add: pow2_powi power_int_increasing)

lemma pow2_less_iff: "pow2 a < pow2 b \<longleftrightarrow> a < b"
proof
  assume "pow2 a < pow2 b"
  then show "a < b" using pow2_mono [of b a] by (cases "a < b") auto
next
  assume "a < b"
  then show "pow2 a < pow2 b" by (simp add: pow2_powi power_int_strict_increasing)
qed

lemma pow2_le_less: "pow2 a \<le> x \<Longrightarrow> x < pow2 b \<Longrightarrow> a < b"
  using pow2_less_iff [of a b] by linarith

lemma bitlen_pow2_bounds:
  assumes "0 < p"
  shows "pow2 (bitlen p - 1) \<le> of_int p" and "of_int p < pow2 (bitlen p)"
proof -
  from assms have b: "2 ^ nat (bitlen p - 1) \<le> p" "p < 2 ^ nat (bitlen p)"
    using bitlen_bounds by blast+
  from assms have "1 \<le> bitlen p" by (simp add: bitlen_alt_def)
  then have e: "pow2 (bitlen p - 1) = of_int (2 ^ nat (bitlen p - 1))"
    "pow2 (bitlen p) = of_int (2 ^ nat (bitlen p))"
    by (simp_all only: pow2_int)
  show "pow2 (bitlen p - 1) \<le> of_int p" unfolding e using b(1) by (rule of_int_le_iff [THEN iffD2])
  show "of_int p < pow2 (bitlen p)" unfolding e using b(2) by (rule of_int_less_iff [THEN iffD2])
qed

lemma ilog2_bounds:
  assumes "0 < r"
  shows "pow2 (ilog2 r) \<le> r" and "r < pow2 (ilog2 r + 1)"
proof -
  obtain p q where pq: "quotient_of r = (p, q)" by (cases "quotient_of r")
  have r: "r = of_int p / of_int q" and q: "0 < q"
    using quotient_of_div [OF pq] quotient_of_denom_pos [OF pq] by auto
  have p: "0 < p" using assms q by (simp add: r zero_less_divide_iff)
  let ?e = "bitlen p - bitlen q"
  have lo: "pow2 (?e - 1) \<le> r"
  proof -
    have "pow2 (?e - 1) * of_int q \<le> pow2 (?e - 1) * pow2 (bitlen q)"
      using bitlen_pow2_bounds(2) [OF q] by simp
    also have "\<dots> = pow2 (bitlen p - 1)" by (simp flip: pow2_add)
    also have "\<dots> \<le> of_int p" by (rule bitlen_pow2_bounds(1) [OF p])
    finally show ?thesis using q by (simp add: r pos_le_divide_eq)
  qed
  have hi: "r < pow2 (?e + 1)"
  proof -
    have "of_int p < pow2 (bitlen p)" by (rule bitlen_pow2_bounds(2) [OF p])
    also have "\<dots> = pow2 (?e + 1) * pow2 (bitlen q - 1)" by (simp flip: pow2_add)
    also have "\<dots> \<le> pow2 (?e + 1) * of_int q"
      using bitlen_pow2_bounds(1) [OF q] by simp
    finally show ?thesis using q by (simp add: r pos_divide_less_eq)
  qed
  have il: "ilog2 r = (if pow2 ?e \<le> r then ?e else ?e - 1)"
    by (simp add: ilog2_def pq)
  show "pow2 (ilog2 r) \<le> r" using lo il by auto
  show "r < pow2 (ilog2 r + 1)" using hi il by auto
qed

lemma ilog2_mono: "0 < x \<Longrightarrow> x \<le> y \<Longrightarrow> ilog2 x \<le> ilog2 y"
  using ilog2_bounds(1) [of x] ilog2_bounds(2) [of y] pow2_le_less [of "ilog2 x" x "ilog2 y + 1"]
  by linarith

lemma ulp_exp_mono: "0 < x \<Longrightarrow> x \<le> y \<Longrightarrow> ulp_exp x \<le> ulp_exp y"
  using ilog2_mono [of x y] by (simp add: ulp_exp_def)

subsection \<open>Rounding to an integer\<close>

lemma rhe_of_int [simp]: "rhe (of_int n) = n"
  by (simp add: rhe_def Let_def)

lemma rhe_0 [simp]: "rhe 0 = 0"
  using rhe_of_int [of 0] by simp

lemma rhe_ge_floor: "\<lfloor>r\<rfloor> \<le> rhe r" and rhe_le_floor: "rhe r \<le> \<lfloor>r\<rfloor> + 1"
  by (auto simp: rhe_def Let_def)

lemma rhe_mono: "x \<le> y \<Longrightarrow> rhe x \<le> rhe y"
proof (cases "\<lfloor>x\<rfloor> = \<lfloor>y\<rfloor>")
  case True
  assume "x \<le> y"
  with True show ?thesis by (auto simp: rhe_def Let_def)
next
  case False
  assume "x \<le> y"
  then have "\<lfloor>x\<rfloor> \<le> \<lfloor>y\<rfloor>" by (rule floor_mono)
  with False have "\<lfloor>x\<rfloor> + 1 \<le> \<lfloor>y\<rfloor>" by simp
  then show ?thesis using rhe_le_floor [of x] rhe_ge_floor [of y] by linarith
qed

lemma rhe_le_of_int: "x \<le> of_int n \<Longrightarrow> rhe x \<le> n"
  using rhe_mono [of x "of_int n"] by simp

lemma rhe_ge_of_int: "of_int n \<le> x \<Longrightarrow> n \<le> rhe x"
  using rhe_mono [of "of_int n" x] by simp

lemma rhe_minus: "rhe (- r) = - rhe r"
proof (cases "r = of_int \<lfloor>r\<rfloor>")
  case True
  then show ?thesis by (metis of_int_minus rhe_of_int)
next
  case False
  then have "\<lceil>r\<rceil> = \<lfloor>r\<rfloor> + 1" by (simp add: ceiling_altdef)
  then have f: "\<lfloor>- r\<rfloor> = - \<lfloor>r\<rfloor> - 1" by (simp add: floor_minus)
  have d: "- r - of_int \<lfloor>- r\<rfloor> = 1 - (r - of_int \<lfloor>r\<rfloor>)" by (simp add: f)
  show ?thesis unfolding rhe_def Let_def d unfolding f by auto
qed

subsection \<open>Monotonicity of rounding\<close>

lemma rnd_0 [simp]: "rnd 0 = 0"
  by (simp add: rnd_def)

lemma rnd_pos_eq: "0 < r \<Longrightarrow> rnd r = of_int (rhe (r / pow2 (ulp_exp r))) * pow2 (ulp_exp r)"
  by (simp add: rnd_def Let_def)

lemma rnd_minus: "rnd (- r) = - rnd r"
  by (simp add: rnd_def Let_def rhe_minus)

lemma rnd_nonneg: "0 \<le> r \<Longrightarrow> 0 \<le> rnd r"
proof (cases "r = 0")
  case False
  assume "0 \<le> r"
  with False have r: "0 < r" by simp
  have "0 \<le> r / pow2 (ulp_exp r)" using r pow2_pos [of "ulp_exp r"] by (intro divide_nonneg_pos) auto
  then have "0 \<le> rhe (r / pow2 (ulp_exp r))" by (intro rhe_ge_of_int) simp
  then show ?thesis unfolding rnd_pos_eq [OF r]
    by (intro mult_nonneg_nonneg) (simp_all add: less_imp_le)
qed simp

text \<open>A binade boundary is a multiple of the unit below it, so rounding cannot cross it.\<close>

lemma rnd_le_pow2:
  assumes "0 < x" "x \<le> pow2 k" "ulp_exp x \<le> k"
  shows "rnd x \<le> pow2 k"
proof -
  let ?q = "ulp_exp x"
  have e: "pow2 k = of_int (2 ^ nat (k - ?q)) * pow2 ?q"
    using pow2_add [of "k - ?q" ?q] pow2_int [of "k - ?q"] assms(3) by simp
  have "x / pow2 ?q \<le> of_int (2 ^ nat (k - ?q))"
    using assms(2) by (simp add: pos_divide_le_eq e del: of_int_power)
  then have "rhe (x / pow2 ?q) \<le> 2 ^ nat (k - ?q)" by (rule rhe_le_of_int)
  then have "of_int (rhe (x / pow2 ?q)) \<le> (of_int (2 ^ nat (k - ?q)) :: rat)"
    by (rule of_int_le_iff [THEN iffD2])
  then show ?thesis unfolding rnd_pos_eq [OF assms(1)] e
    by (rule mult_right_mono) (simp add: less_imp_le)
qed

lemma rnd_ge_pow2:
  assumes "0 < x" "pow2 k \<le> x" "ulp_exp x \<le> k"
  shows "pow2 k \<le> rnd x"
proof -
  let ?q = "ulp_exp x"
  have e: "pow2 k = of_int (2 ^ nat (k - ?q)) * pow2 ?q"
    using pow2_add [of "k - ?q" ?q] pow2_int [of "k - ?q"] assms(3) by simp
  have "of_int (2 ^ nat (k - ?q)) \<le> x / pow2 ?q"
    using assms(2) by (simp add: pos_le_divide_eq e del: of_int_power)
  then have "2 ^ nat (k - ?q) \<le> rhe (x / pow2 ?q)" by (rule rhe_ge_of_int)
  then have "(of_int (2 ^ nat (k - ?q)) :: rat) \<le> of_int (rhe (x / pow2 ?q))"
    by (rule of_int_le_iff [THEN iffD2])
  then show ?thesis unfolding rnd_pos_eq [OF assms(1)] e
    by (rule mult_right_mono) (simp add: less_imp_le)
qed

lemma rnd_mono_pos:
  assumes "0 < x" "x \<le> y"
  shows "rnd x \<le> rnd y"
proof (cases "ulp_exp x = ulp_exp y")
  case True
  have "x / pow2 (ulp_exp y) \<le> y / pow2 (ulp_exp y)"
    using assms by (intro divide_right_mono) (simp_all add: less_imp_le)
  then have "rhe (x / pow2 (ulp_exp y)) \<le> rhe (y / pow2 (ulp_exp y))" by (rule rhe_mono)
  then show ?thesis using assms True by (simp add: rnd_pos_eq)
next
  case False
  have y: "0 < y" using assms by simp
  have "ulp_exp x < ulp_exp y" using ulp_exp_mono [OF assms] False by simp
  then have l: "ilog2 x < ilog2 y" "- 1022 < ilog2 y" by (auto simp: ulp_exp_def)
  have "x < pow2 (ilog2 x + 1)" by (rule ilog2_bounds(2) [OF assms(1)])
  also have "\<dots> \<le> pow2 (ilog2 y)" using l by (intro pow2_mono) simp
  finally have "rnd x \<le> pow2 (ilog2 y)"
    using l by (intro rnd_le_pow2 [OF assms(1)]) (auto simp: ulp_exp_def)
  also have "\<dots> \<le> rnd y"
    using l by (intro rnd_ge_pow2 [OF y] ilog2_bounds(1) [OF y]) (simp add: ulp_exp_def)
  finally show ?thesis .
qed

lemma rnd_nonpos: "r \<le> 0 \<Longrightarrow> rnd r \<le> 0"
  using rnd_nonneg [of "- r"] by (simp add: rnd_minus)

lemma rnd_mono: "x \<le> y \<Longrightarrow> rnd x \<le> rnd y"
proof -
  assume le: "x \<le> y"
  consider "0 < x" | "x \<le> 0" "0 \<le> y" | "y < 0" by linarith
  then show ?thesis
  proof cases
    case 1 then show ?thesis using le by (rule rnd_mono_pos)
  next
    case 2 then show ?thesis using rnd_nonneg [of y] rnd_nonpos [of x] by linarith
  next
    case 3 then show ?thesis using rnd_mono_pos [of "- y" "- x"] le by (simp add: rnd_minus)
  qed
qed

text \<open>
  A value with a significand of at most 53 bits and an exponent from \<open>-1074\<close> on is exact; so
  are, in particular, the integers of at most 53 bits and every rounded value.
\<close>

lemma rnd_multiple:
  assumes "0 < x" "ulp_exp x \<le> e" "x = of_int n * pow2 e"
  shows "rnd x = x"
proof -
  let ?u = "ulp_exp x"
  have "pow2 e = of_int (2 ^ nat (e - ?u)) * pow2 ?u"
    using pow2_add [of "e - ?u" ?u] pow2_int [of "e - ?u"] assms(2) by simp
  then have x: "x = of_int (n * 2 ^ nat (e - ?u)) * pow2 ?u" using assms(3) by simp
  then have "x / pow2 ?u = of_int (n * 2 ^ nat (e - ?u))"
    by (metis nonzero_mult_div_cancel_right pow2_nz)
  then have "rhe (x / pow2 ?u) = n * 2 ^ nat (e - ?u)" by (metis rhe_of_int)
  then show ?thesis using rnd_pos_eq [OF assms(1)] x by simp
qed

lemma rnd_repr_less:
  assumes "0 < n" "n < 2 ^ 53" "- 1074 \<le> e"
  shows "rnd (of_int n * pow2 e) = of_int n * pow2 e"
proof (rule rnd_multiple [OF _ _ refl])
  let ?x = "of_int n * pow2 e"
  show x: "0 < ?x" using assms(1) by simp
  have "pow2 (ilog2 ?x) \<le> ?x" by (rule ilog2_bounds(1) [OF x])
  also have "?x < of_int (2 ^ 53) * pow2 e"
    using assms(2) by (intro mult_strict_right_mono of_int_less_iff [THEN iffD2]) simp_all
  also have "\<dots> = pow2 (53 + e)" using pow2_add [of 53 e] by (simp add: pow2_def)
  finally have "ilog2 ?x < 53 + e" by (simp add: pow2_less_iff)
  then show "ulp_exp ?x \<le> e" using assms(3) by (simp add: ulp_exp_def)
qed

lemma rnd_repr:
  assumes "0 < n" "n \<le> 2 ^ 53" "- 1074 \<le> e"
  shows "rnd (of_int n * pow2 e) = of_int n * pow2 e"
proof (cases "n = 2 ^ 53")
  case True
  then have "of_int n * pow2 e = of_int (2 ^ 52) * pow2 (e + 1)"
    using pow2_add [of e 1] by (simp add: pow2_def [of 1])
  then show ?thesis using rnd_repr_less [of "2 ^ 52" "e + 1"] assms(3) by simp
qed (use assms rnd_repr_less in simp)

lemma rnd_of_int_pos: "0 < n \<Longrightarrow> n \<le> 2 ^ 53 \<Longrightarrow> rnd (of_int n) = of_int n"
  using rnd_repr [of n 0] by (simp add: pow2_def)

lemma rnd_of_int: "\<bar>n\<bar> \<le> 2 ^ 53 \<Longrightarrow> rnd (of_int n) = of_int n"
proof -
  assume a: "\<bar>n\<bar> \<le> 2 ^ 53"
  consider "0 < n" | "n = 0" | "n < 0" by linarith
  then show ?thesis
  proof cases
    case 3 then show ?thesis using rnd_of_int_pos [of "- n"] a by (simp add: rnd_minus)
  qed (use a rnd_of_int_pos in auto)
qed

lemma rnd_idem_pos:
  assumes "0 < r"
  shows "rnd (rnd r) = rnd r"
proof -
  let ?u = "ulp_exp r"
  let ?n = "rhe (r / pow2 ?u)"
  have e: "rnd r = of_int ?n * pow2 ?u" by (rule rnd_pos_eq [OF assms])
  have "r < pow2 (ilog2 r + 1)" by (rule ilog2_bounds(2) [OF assms])
  also have "\<dots> \<le> pow2 (53 + ?u)" by (rule pow2_mono) (simp add: ulp_exp_def)
  also have "\<dots> = of_int (2 ^ 53) * pow2 ?u" by (simp add: pow2_add pow2_def [of 53])
  finally have "r / pow2 ?u \<le> of_int (2 ^ 53)"
    by (simp add: pos_divide_le_eq less_imp_le del: of_int_power)
  then have n: "?n \<le> 2 ^ 53" by (rule rhe_le_of_int)
  have "0 \<le> ?n" using assms pow2_pos [of ?u] by (intro rhe_ge_of_int) (simp add: less_imp_le)
  then consider "?n = 0" | "0 < ?n" by linarith
  then show ?thesis
  proof cases
    case 2 then show ?thesis using rnd_repr [OF 2 n, of ?u] unfolding e by (simp add: ulp_exp_def)
  qed (simp add: e)
qed

lemma rnd_idem [simp]: "rnd (rnd r) = rnd r"
proof -
  consider "0 < r" | "r = 0" | "r < 0" by linarith
  then show ?thesis
  proof cases
    case 3 then show ?thesis using rnd_idem_pos [of "- r"] by (simp add: rnd_minus)
  qed (simp_all add: rnd_idem_pos)
qed

subsection \<open>Evaluation on finite operands\<close>

lemma rnd_numeral [simp]: "numeral k \<le> (2 ^ 53 :: int) \<Longrightarrow> rnd (numeral k) = numeral k"
  using rnd_of_int [of "numeral k"] by simp

lemma rnd_1 [simp]: "rnd 1 = 1"
  using rnd_of_int [of 1] by simp

lemma fl_exact: "rnd r = r \<Longrightarrow> \<bar>r\<bar> < 2 ^ 1024 \<Longrightarrow> fl r = Fin r"
  by (auto simp: fl_def Let_def abs_less_iff)

lemma fl_of_int: "\<bar>n\<bar> \<le> 2 ^ 53 \<Longrightarrow> fl (of_int n) = Fin (of_int n)"
proof (rule fl_exact)
  assume a: "\<bar>n\<bar> \<le> 2 ^ 53"
  then show "rnd (of_int n) = of_int n" by (rule rnd_of_int)
  have "\<bar>of_int n :: rat\<bar> = of_int \<bar>n\<bar>" by simp
  also have "\<dots> \<le> of_int (2 ^ 53)" using a by (rule of_int_le_iff [THEN iffD2])
  also have "\<dots> < 2 ^ 1024" by simp
  finally show "\<bar>of_int n :: rat\<bar> < 2 ^ 1024" .
qed

lemma fl_0 [simp]: "fl 0 = Fin 0"
  using fl_of_int [of 0] by simp

lemma fl_1 [simp]: "fl 1 = Fin 1"
  using fl_of_int [of 1] by simp

lemma fl_numeral [simp]: "numeral k \<le> (2 ^ 53 :: int) \<Longrightarrow> fl (numeral k) = Fin (numeral k)"
  using fl_of_int [of "numeral k"] by simp

lemma fl_not_NaN [simp]: "fl r \<noteq> NaN"
  by (simp add: fl_def Let_def)

lemma fl_uminus: "fl (- r) = - fl r"
proof -
  have "\<not> (2 ^ 1024 \<le> rnd r \<and> rnd r \<le> - (2 ^ 1024 :: rat))"
  proof
    assume "2 ^ 1024 \<le> rnd r \<and> rnd r \<le> - (2 ^ 1024 :: rat)"
    then have "(2 ^ 1024 :: rat) \<le> - (2 ^ 1024)" by (blast intro: order_trans)
    then show False by simp
  qed
  then show ?thesis by (auto simp: fl_def Let_def rnd_minus)
qed

lemma zero_f64: "(0 :: float64) = Fin 0" and one_f64: "(1 :: float64) = Fin 1"
  by (simp_all add: zero_float64_def one_float64_def)

text \<open>
  For evaluation: a dyadic rational of small denominator whose numerator has at most 53 bits is
  exact, and a result of ordinary size needs no comparison with the overflow bounds.
\<close>

lemma fl_dyadic:
  assumes "quotient_of r = (p, q)" "\<bar>p\<bar> \<le> 2 ^ 53" "q = 2 ^ k" "k \<le> 6"
  shows "fl r = Fin r"
proof -
  have r: "r = of_int p * pow2 (- int k)"
    using quotient_of_div [OF assms(1)] by (simp add: assms(3) pow2_def)
  have pos: "rnd (of_int n * pow2 (- int k)) = of_int n * pow2 (- int k)" if "0 < n" "n \<le> 2 ^ 53" for n
    using that assms(4) by (intro rnd_repr) auto
  have e: "rnd r = r"
  proof (cases "p = 0")
    case False
    then consider "0 < p" | "0 < - p" by linarith
    then show ?thesis
    proof cases
      case 2
      then have "rnd (of_int (- p) * pow2 (- int k)) = of_int (- p) * pow2 (- int k)"
        using assms(2) by (intro pos) auto
      then have "rnd (- r) = - r" unfolding r by simp
      then show ?thesis using rnd_minus [of r] by simp
    qed (use pos assms(2) r in auto)
  qed (simp add: r)
  have "pow2 (- int k) \<le> 1" using pow2_mono [of "- int k" 0] by (simp add: pow2_def)
  then have "\<bar>r\<bar> \<le> \<bar>of_int p\<bar> * 1"
    unfolding r abs_mult by (intro mult_left_mono) (simp_all add: abs_of_pos)
  also have "\<dots> \<le> of_int (2 ^ 53)" using assms(2) by (simp flip: of_int_abs del: of_int_power)
  also have "\<dots> < 2 ^ 1024" by simp
  finally have "\<bar>r\<bar> < 2 ^ 1024" .
  then show ?thesis by (auto simp: fl_def Let_def e abs_less_iff)
qed

lemma fl_code [code]:
  "fl r = (let (p, q) = quotient_of r in
     if \<bar>p\<bar> \<le> 9007199254740992 \<and> (q = 1 \<or> q = 2 \<or> q = 4 \<or> q = 8 \<or> q = 16) then Fin r
     else let x = rnd r in
       if \<bar>x\<bar> \<le> 18446744073709551616 then Fin x
       else if 2 ^ 1024 \<le> x then PInf else if x \<le> - (2 ^ 1024) then NInf else Fin x)"
proof -
  obtain p q where pq: "quotient_of r = (p, q)" by (cases "quotient_of r")
  have "fl r = Fin r" if "\<bar>p\<bar> \<le> 9007199254740992" "q = 1 \<or> q = 2 \<or> q = 4 \<or> q = 8 \<or> q = 16"
    using fl_dyadic [OF pq, of 0] fl_dyadic [OF pq, of 1] fl_dyadic [OF pq, of 2] fl_dyadic [OF pq, of 3]
      fl_dyadic [OF pq, of 4] that by auto
  moreover have "\<bar>rnd r\<bar> \<le> 18446744073709551616 \<Longrightarrow> \<bar>rnd r\<bar> < 2 ^ 1024"
    by (rule le_less_trans [where y = 18446744073709551616]) simp_all
  ultimately show ?thesis by (auto simp: pq fl_def Let_def abs_less_iff)
qed

subsection \<open>The order\<close>

lemma f64_le_refl [simp]: "(x :: float64) \<le> x \<longleftrightarrow> x \<noteq> NaN"
  by (cases x) auto

lemma f64_less_irrefl [simp]: "\<not> (x :: float64) < x"
  by (cases x) auto

lemma f64_le_not_NaN: "(x :: float64) \<le> y \<Longrightarrow> x \<noteq> NaN \<and> y \<noteq> NaN"
  by (cases x; cases y) auto

lemma f64_less_not_NaN: "(x :: float64) < y \<Longrightarrow> x \<noteq> NaN \<and> y \<noteq> NaN"
  by (cases x; cases y) auto

lemma f64_le_NaN [simp]: "\<not> NaN \<le> y" "\<not> x \<le> NaN" "\<not> NaN < y" "\<not> x < NaN" for x y :: float64
  by (cases x; cases y; simp)+

lemma f64_le_PInf [simp]: "x \<le> PInf \<longleftrightarrow> x \<noteq> NaN" "NInf \<le> x \<longleftrightarrow> x \<noteq> NaN"
  by (cases x; simp)+

lemma f64_less_imp_le: "(x :: float64) < y \<Longrightarrow> x \<le> y"
  by (cases x; cases y) auto

lemma f64_less_iff: "(x :: float64) < y \<longleftrightarrow> x \<le> y \<and> \<not> y \<le> x"
  by (cases x; cases y) auto

lemma f64_le_trans: "(x :: float64) \<le> y \<Longrightarrow> y \<le> z \<Longrightarrow> x \<le> z"
  by (cases x; cases y; cases z) auto

lemma f64_less_le_trans: "(x :: float64) < y \<Longrightarrow> y \<le> z \<Longrightarrow> x < z"
  by (cases x; cases y; cases z) auto

lemma f64_le_less_trans: "(x :: float64) \<le> y \<Longrightarrow> y < z \<Longrightarrow> x < z"
  by (cases x; cases y; cases z) auto

lemma f64_not_less: "x \<noteq> NaN \<Longrightarrow> y \<noteq> NaN \<Longrightarrow> \<not> x < y \<longleftrightarrow> y \<le> (x :: float64)"
  by (cases x; cases y) auto

lemma f64_not_le: "x \<noteq> NaN \<Longrightarrow> y \<noteq> NaN \<Longrightarrow> \<not> x \<le> y \<longleftrightarrow> y < (x :: float64)"
  by (cases x; cases y) auto

lemma f64_antisym: "(x :: float64) \<le> y \<Longrightarrow> y \<le> x \<Longrightarrow> x = y"
  by (cases x; cases y) auto

lemma f64_linear: "x \<noteq> NaN \<Longrightarrow> y \<noteq> NaN \<Longrightarrow> x \<le> y \<or> y \<le> (x :: float64)"
  by (cases x; cases y) auto

lemma f64_zero_le_Fin [simp]: "(0 :: float64) \<le> Fin a \<longleftrightarrow> 0 \<le> a" "Fin a \<le> 0 \<longleftrightarrow> a \<le> 0"
  "(0 :: float64) < Fin a \<longleftrightarrow> 0 < a" "Fin a < 0 \<longleftrightarrow> a < 0"
  "(1 :: float64) \<le> Fin a \<longleftrightarrow> 1 \<le> a" "Fin a \<le> 1 \<longleftrightarrow> a \<le> 1"
  "(1 :: float64) < Fin a \<longleftrightarrow> 1 < a" "Fin a < 1 \<longleftrightarrow> a < 1"
  by (simp_all add: zero_f64 one_f64)

lemma fl_mono: "x \<le> y \<Longrightarrow> fl x \<le> fl y"
proof -
  assume "x \<le> y"
  then have m: "rnd x \<le> rnd y" by (rule rnd_mono)
  consider "2 ^ 1024 \<le> rnd y" | "rnd x \<le> - (2 ^ 1024)" "rnd y < 2 ^ 1024"
    | "rnd y < 2 ^ 1024" "- (2 ^ 1024) < rnd x" by linarith
  then show ?thesis
  proof cases
    case 1 then have "fl y = PInf" by (simp add: fl_def Let_def)
    then show ?thesis by simp
  next
    case 2
    have "rnd x < 2 ^ 1024" using m 2(2) by (rule le_less_trans)
    then have "fl x = NInf" using 2 by (simp add: fl_def Let_def not_le)
    then show ?thesis by simp
  next
    case 3
    then have "rnd x < 2 ^ 1024" "- (2 ^ 1024) < rnd y" using m by (auto intro: le_less_trans less_le_trans)
    then have "fl x = Fin (rnd x)" "fl y = Fin (rnd y)" using 3 by (simp_all add: fl_def Let_def not_le)
    then show ?thesis using m by simp
  qed
qed

lemma fl_nonneg: "0 \<le> r \<Longrightarrow> 0 \<le> fl r"
  using fl_mono [of 0 r] by (simp add: zero_f64)

lemma fl_nonpos: "r \<le> 0 \<Longrightarrow> fl r \<le> 0"
  using fl_mono [of r 0] by (simp add: zero_f64)

lemma fl_le_int: "r \<le> of_int n \<Longrightarrow> \<bar>n\<bar> \<le> 2 ^ 53 \<Longrightarrow> fl r \<le> Fin (of_int n)"
  using fl_mono [of r "of_int n"] by (simp add: fl_of_int)

lemma fl_ge_int: "of_int n \<le> r \<Longrightarrow> \<bar>n\<bar> \<le> 2 ^ 53 \<Longrightarrow> Fin (of_int n) \<le> fl r"
  using fl_mono [of "of_int n" r] by (simp add: fl_of_int)

lemma fl_le_one: "r \<le> 1 \<Longrightarrow> fl r \<le> 1"
  using fl_mono [of r 1] by (simp add: one_f64)

lemma fl_ge_one: "1 \<le> r \<Longrightarrow> 1 \<le> fl r"
  using fl_mono [of 1 r] by (simp add: one_f64)

subsection \<open>Order and sign of the operations\<close>

fun isfin :: "float64 \<Rightarrow> bool" where
  "isfin (Fin _) = True"
| "isfin _ = False"

lemma isfin_iff: "isfin x \<longleftrightarrow> (\<exists>r. x = Fin r)"
  by (cases x) auto

lemma isfin_not_NaN: "isfin x \<Longrightarrow> x \<noteq> NaN"
  by (cases x) auto

lemma isfin_01 [simp]: "isfin 0" "isfin 1"
  by (simp_all add: zero_f64 one_f64)

lemma f64_0_neq_NaN [simp]: "0 \<noteq> NaN" "1 \<noteq> NaN" "(0::float64) \<noteq> 1"
  by (simp_all add: zero_f64 one_f64)

lemma inf_of_NaN [simp]: "inf_of s = NaN \<longleftrightarrow> s = 0"
  by (auto simp: inf_of_def)

lemma f64_add_not_NaN: "isfin x \<Longrightarrow> isfin y \<Longrightarrow> x + y \<noteq> NaN"
  by (auto simp: isfin_iff)

lemma f64_mult_not_NaN: "isfin x \<Longrightarrow> isfin y \<Longrightarrow> x * y \<noteq> NaN"
  by (auto simp: isfin_iff)

lemmas Fin_fl_nonneg = fl_nonneg [unfolded zero_f64]

lemma f64_add_nonneg: "0 \<le> x \<Longrightarrow> 0 \<le> y \<Longrightarrow> 0 \<le> x + (y :: float64)"
  by (cases x; cases y) (auto simp: zero_f64 intro: Fin_fl_nonneg)

lemma f64_add_mono:
  "a \<le> b \<Longrightarrow> c \<le> d \<Longrightarrow> a + c \<noteq> NaN \<Longrightarrow> b + d \<noteq> NaN \<Longrightarrow> a + c \<le> b + (d :: float64)"
  by (cases a; cases b; cases c; cases d) (auto intro: fl_mono)

lemma f64_uminus_le [simp]: "- x \<le> - y \<longleftrightarrow> y \<le> (x :: float64)"
  by (cases x; cases y) auto

lemma f64_uminus_NaN [simp]: "- x = NaN \<longleftrightarrow> x = NaN"
  by (cases x) auto

lemma f64_minus_mono:
  "a \<le> b \<Longrightarrow> d \<le> c \<Longrightarrow> a - c \<noteq> NaN \<Longrightarrow> b - d \<noteq> NaN \<Longrightarrow> a - c \<le> b - (d :: float64)"
  by (simp add: minus_float64_def f64_add_mono)

lemma f64_mult_mono:
  assumes "0 \<le> a" "a \<le> b" "0 \<le> c" "c \<le> d" "a * c \<noteq> NaN" "b * d \<noteq> NaN"
  shows "a * c \<le> b * (d :: float64)"
  using assms
  by (cases a; cases b; cases c; cases d) (auto intro!: fl_mono mult_mono simp: inf_of_def zero_f64 split: if_splits)

lemma f64_mult_nonneg: "0 \<le> a \<Longrightarrow> 0 \<le> b \<Longrightarrow> a * b \<noteq> NaN \<Longrightarrow> 0 \<le> a * (b :: float64)"
  by (cases a; cases b) (auto simp: zero_f64 inf_of_def intro: Fin_fl_nonneg)

lemma f64_div_mono:
  "a \<le> b \<Longrightarrow> 0 < d \<Longrightarrow> a / d \<noteq> NaN \<Longrightarrow> b / d \<noteq> NaN \<Longrightarrow> a / d \<le> b / (d :: float64)"
  by (cases a; cases b; cases d) (auto intro!: fl_mono divide_right_mono simp: zero_f64 less_imp_le)

lemma f64_div_antimono:
  "0 \<le> a \<Longrightarrow> 0 < c \<Longrightarrow> c \<le> d \<Longrightarrow> a / c \<noteq> NaN \<Longrightarrow> a / d \<noteq> NaN \<Longrightarrow> a / d \<le> a / (c :: float64)"
  by (cases a; cases c; cases d)
    (auto intro!: fl_mono divide_left_mono Fin_fl_nonneg mult_pos_pos simp: zero_f64)

lemma f64_div_nonneg: "0 \<le> a \<Longrightarrow> 0 < b \<Longrightarrow> a / b \<noteq> NaN \<Longrightarrow> 0 \<le> a / (b :: float64)"
  by (cases a; cases b) (auto simp: zero_f64 intro: Fin_fl_nonneg)

lemma f64_div_not_NaN: "isfin a \<Longrightarrow> 0 < b \<Longrightarrow> a / b \<noteq> (NaN :: float64)"
  by (cases a; cases b) (auto simp: zero_f64)

lemma f64_div_le_one: "a \<le> b \<Longrightarrow> 0 < b \<Longrightarrow> isfin a \<Longrightarrow> a / b \<le> (1 :: float64)"
  by (cases a; cases b) (auto intro!: fl_le_one simp: divide_le_eq_1 zero_f64)

lemmas f64_mono = f64_add_mono f64_minus_mono f64_mult_mono f64_div_mono f64_div_antimono

subsection \<open>Representable values\<close>

fun f64_ok :: "float64 \<Rightarrow> bool" where
  "f64_ok (Fin r) = (fl r = Fin r)"
| "f64_ok _ = True"

lemma f64_ok_fl [simp]: "f64_ok (fl r)"
  by (auto simp: fl_def Let_def not_le)

lemma f64_ok_0 [simp]: "f64_ok 0" "f64_ok 1"
  by (simp_all add: zero_f64 one_f64)

lemma f64_ok_add [simp]: "f64_ok (x + y)"
  by (cases x; cases y) simp_all

lemma f64_ok_mult [simp]: "f64_ok (x * y)"
  by (cases x; cases y) (simp_all add: inf_of_def)

lemma f64_ok_divide [simp]: "f64_ok (x / y)"
  by (cases x; cases y) (simp_all add: inf_of_def)

lemma f64_uminus_uminus [simp]: "- (- x) = (x :: float64)"
  by (cases x) simp_all

lemma f64_ok_uminus [simp]: "f64_ok (- x) = f64_ok x"
proof (cases x)
  case (Fin r)
  have "(- fl r = - Fin r) = (fl r = Fin r)" by (metis f64_uminus_uminus)
  then show ?thesis using Fin by (simp add: fl_uminus)
qed simp_all

lemma f64_ok_minus [simp]: "f64_ok (x - y)"
  by (simp add: minus_float64_def)

text \<open>Adding a non-negative amount never lowers a representable value.\<close>

lemma f64_add_increasing: "0 \<le> y \<Longrightarrow> f64_ok x \<Longrightarrow> x \<noteq> NaN \<Longrightarrow> x + y \<noteq> NaN \<Longrightarrow> x \<le> x + y"
proof (cases x; cases y)
  fix r s assume a: "0 \<le> y" "f64_ok x" "x = Fin r" "y = Fin s"
  then have "fl r \<le> fl (r + s)" by (intro fl_mono) simp
  then show "x \<le> x + y" using a by simp
qed (auto simp: zero_f64)

lemma f64_add_0_right: "f64_ok x \<Longrightarrow> x + 0 = x"
  by (cases x) (simp_all add: zero_f64)

lemma f64_mult_1: "f64_ok x \<Longrightarrow> 1 * x = x" "f64_ok x \<Longrightarrow> x * 1 = x"
  by (cases x; simp add: one_f64 inf_of_def)+

lemma f64_div_1: "f64_ok x \<Longrightarrow> x / 1 = x"
  by (cases x) (simp_all add: one_f64)

subsection \<open>The functions of package math and the conversions\<close>

definition feq :: "float64 \<Rightarrow> float64 \<Rightarrow> bool" where
  "feq x y \<longleftrightarrow> x = y \<and> x \<noteq> NaN"

definition fmax :: "float64 \<Rightarrow> float64 \<Rightarrow> float64" where
  "fmax x y = (if x = PInf \<or> y = PInf then PInf
     else if x = NaN \<or> y = NaN then NaN else if y < x then x else y)"

definition fmin :: "float64 \<Rightarrow> float64 \<Rightarrow> float64" where
  "fmin x y = (if x = NInf \<or> y = NInf then NInf
     else if x = NaN \<or> y = NaN then NaN else if x < y then x else y)"

definition round_half_away :: "rat \<Rightarrow> int" where
  "round_half_away r = (if 0 \<le> r then \<lfloor>r + 1 / 2\<rfloor> else - \<lfloor>- r + 1 / 2\<rfloor>)"

fun fround :: "float64 \<Rightarrow> float64" where
  "fround (Fin r) = Fin (of_int (round_half_away r))"
| "fround x = x"

definition of_i :: "int \<Rightarrow> float64" where
  "of_i n = fl (of_int n)"

text \<open>Go's conversion to \<open>int\<close> truncates; out of range it is what amd64 gives, \<open>-2^63\<close>.\<close>

fun f2i :: "float64 \<Rightarrow> int" where
  "f2i (Fin r) = (let n = (if 0 \<le> r then \<lfloor>r\<rfloor> else - \<lfloor>- r\<rfloor>)
     in if - (2 ^ 63) \<le> n \<and> n < 2 ^ 63 then n else - (2 ^ 63))"
| "f2i _ = - (2 ^ 63)"

lemma of_i_eq: "\<bar>n\<bar> \<le> 2 ^ 53 \<Longrightarrow> of_i n = Fin (of_int n)"
  by (simp add: of_i_def fl_of_int)

lemma of_i_0 [simp]: "of_i 0 = 0"
  by (simp add: of_i_def zero_f64)

lemma of_i_1 [simp]: "of_i 1 = 1"
  by (simp add: of_i_def one_f64)

lemma of_i_mono: "m \<le> n \<Longrightarrow> of_i m \<le> of_i n"
  by (simp add: of_i_def fl_mono)

lemma of_i_nonneg: "0 \<le> n \<Longrightarrow> 0 \<le> of_i n"
  by (simp add: of_i_def fl_nonneg)

lemma of_i_ge_1: "1 \<le> n \<Longrightarrow> 1 \<le> of_i n"
  using of_i_mono [of 1 n] by simp

lemma of_i_not_NaN [simp]: "of_i n \<noteq> NaN"
  by (simp add: of_i_def)

lemma f64_less_0_1 [simp]: "(0 :: float64) < 1" "(0::float64) \<le> 1"
  by (simp_all add: zero_f64 one_f64)

lemma of_i_pos: "1 \<le> n \<Longrightarrow> 0 < of_i n"
  using f64_less_le_trans [OF f64_less_0_1(1) of_i_ge_1] by blast

lemma fmin_le: "x \<noteq> NaN \<Longrightarrow> y \<noteq> NaN \<Longrightarrow> fmin x y \<le> x \<and> fmin x y \<le> y"
  by (auto simp: fmin_def f64_not_less f64_less_imp_le)

lemma fmax_ge: "x \<noteq> NaN \<Longrightarrow> y \<noteq> NaN \<Longrightarrow> x \<le> fmax x y \<and> y \<le> fmax x y"
  by (auto simp: fmax_def f64_not_less f64_less_imp_le)

lemma fmin_cases: "x \<noteq> NaN \<Longrightarrow> y \<noteq> NaN \<Longrightarrow> fmin x y = x \<or> fmin x y = y"
  by (auto simp: fmin_def)

lemma fmax_cases: "x \<noteq> NaN \<Longrightarrow> y \<noteq> NaN \<Longrightarrow> fmax x y = x \<or> fmax x y = y"
  by (auto simp: fmax_def)

lemma fmin_mono: "x \<le> x' \<Longrightarrow> y \<le> y' \<Longrightarrow> fmin x y \<le> fmin x' y'"
  by (cases x; cases x'; cases y; cases y') (auto simp: fmin_def)

text \<open>\<open>clamp01\<close> of the detector packages.\<close>

definition clamp01 :: "float64 \<Rightarrow> float64" where
  "clamp01 v = (if v < 0 then 0 else if 1 < v then 1 else v)"

lemma clamp01_range: "v \<noteq> NaN \<Longrightarrow> 0 \<le> clamp01 v \<and> clamp01 v \<le> 1"
  by (auto simp: clamp01_def f64_not_less)

text \<open>The classical example: one tenth and two tenths do not add to three tenths.\<close>

lemma f64_tenths: "fl 0.1 + fl 0.2 = fl 0.30000000000000004" "fl 0.1 + fl 0.2 \<noteq> fl 0.3"
  by code_simp+

end
