(* ===== verification/Prelude.thy ===== *)
theory Prelude
  imports Float64 "HOL-Library.Signed_Division" "HOL-Library.Multiset"
    "HOL-Library.Char_ord" "HOL-Library.List_Lexorder"
begin

text \<open>
  What every component shares: Go's fixed-width conversions, \<open>time.Time\<close> and \<open>time.Duration\<close>
  (package time), \<open>sort.Float64s\<close>, the \<open>any\<close> values of a feature map, the collections of
  simplification rules the components add to, and list lemmas. A time is the number of
  nanoseconds since the Unix epoch, a duration a number of nanoseconds that fits an \<open>int64\<close>;
  \<open>Time.Sub\<close> saturates there, as Go's does.
\<close>

named_theorems wt_defs \<open>definitions unfolded when a component is evaluated on concrete input\<close>
named_theorems wt_inv \<open>preservation facts of component invariants\<close>

subsection \<open>Fixed-width integers\<close>

definition i32 :: "int \<Rightarrow> int" where
  "i32 n = (n + 2 ^ 31) mod 2 ^ 32 - 2 ^ 31"

definition i64 :: "int \<Rightarrow> int" where
  "i64 n = (n + 2 ^ 63) mod 2 ^ 64 - 2 ^ 63"

definition sat64 :: "int \<Rightarrow> int" where
  "sat64 n = (if n < - (2 ^ 63) then - (2 ^ 63) else if 2 ^ 63 - 1 < n then 2 ^ 63 - 1 else n)"

lemma i32_id: "- (2 ^ 31) \<le> n \<Longrightarrow> n < 2 ^ 31 \<Longrightarrow> i32 n = n"
  by (simp add: i32_def)

lemma i64_id: "- (2 ^ 63) \<le> n \<Longrightarrow> n < 2 ^ 63 \<Longrightarrow> i64 n = n"
  by (simp add: i64_def)

lemma i32_range: "- (2 ^ 31) \<le> i32 n \<and> i32 n < 2 ^ 31"
proof -
  have "0 \<le> (n + 2 ^ 31) mod 2 ^ 32" "(n + 2 ^ 31) mod 2 ^ 32 < (2 :: int) ^ 32" by simp_all
  then show ?thesis by (simp add: i32_def)
qed

lemma sat64_mono: "m \<le> n \<Longrightarrow> sat64 m \<le> sat64 n"
  by (auto simp: sat64_def)

lemma sat64_sign [simp]: "0 \<le> sat64 n \<longleftrightarrow> 0 \<le> n" "sat64 n < 0 \<longleftrightarrow> n < 0" "0 < sat64 n \<longleftrightarrow> 0 < n"
  by (auto simp: sat64_def)

lemma sat64_id: "- (2 ^ 63) \<le> n \<Longrightarrow> n < 2 ^ 63 \<Longrightarrow> sat64 n = n"
  by (simp add: sat64_def)

lemma sat64_less_imp: "sat64 a < b \<Longrightarrow> b < 2 ^ 63 \<Longrightarrow> a < b"
  by (auto simp: sat64_def split: if_splits)

lemma sat64_le_iff: "- (2 ^ 63) \<le> b \<Longrightarrow> b < 2 ^ 63 - 1 \<Longrightarrow> sat64 a \<le> b \<longleftrightarrow> a \<le> b"
  by (auto simp: sat64_def)

lemma sat64_less_iff: "- (2 ^ 63) < b \<Longrightarrow> b < 2 ^ 63 \<Longrightarrow> sat64 a < b \<longleftrightarrow> a < b"
  by (auto simp: sat64_def)

subsection \<open>Times and durations\<close>

type_synonym time = int
type_synonym duration = int

abbreviation Second :: duration where "Second \<equiv> 1000000000"
abbreviation Minute :: duration where "Minute \<equiv> 60000000000"
abbreviation Hour :: duration where "Hour \<equiv> 3600000000000"

text \<open>The zero \<open>time.Time\<close> is the first instant of the year 1, UTC.\<close>

definition zero_time :: time where
  "zero_time = - 62135596800 * Second"

definition IsZero :: "time \<Rightarrow> bool" where
  "IsZero t \<longleftrightarrow> t = zero_time"

definition t_sub :: "time \<Rightarrow> time \<Rightarrow> duration" where
  "t_sub t u = sat64 (t - u)"

definition Hours :: "duration \<Rightarrow> float64" where
  "Hours d = of_i (d sdiv Hour) + of_i (d smod Hour) / fl 3600000000000"

definition Minutes :: "duration \<Rightarrow> float64" where
  "Minutes d = of_i (d sdiv Minute) + of_i (d smod Minute) / fl 60000000000"

definition Seconds :: "duration \<Rightarrow> float64" where
  "Seconds d = of_i (d sdiv Second) + of_i (d smod Second) / fl 1000000000"

lemma t_sub_mono: "t \<le> t' \<Longrightarrow> t_sub t u \<le> t_sub t' u"
  by (simp add: t_sub_def sat64_mono)

lemma sdiv_pos: "0 \<le> (d::int) \<Longrightarrow> 0 < k \<Longrightarrow> d sdiv k = d div k"
  by (cases "d = 0") (simp_all add: signed_divide_int_def sgn_1_pos)

lemma smod_pos: "0 \<le> (d::int) \<Longrightarrow> 0 < k \<Longrightarrow> d smod k = d mod k"
  by (cases "d = 0") (simp_all add: signed_modulo_int_def sgn_1_pos)

lemma of_i_div_nonneg: "0 \<le> n \<Longrightarrow> 0 < k \<Longrightarrow> 0 \<le> of_i n / Fin k"
  by (cases "of_i n") (use of_i_nonneg [of n] in \<open>auto simp: zero_f64 intro: Fin_fl_nonneg\<close>)

lemma Fin_le_0_iff: "Fin 0 \<le> x \<longleftrightarrow> 0 \<le> x"
  by (simp add: zero_f64)

lemma Hours_nonneg: "0 \<le> d \<Longrightarrow> 0 \<le> Hours d"
  unfolding Hours_def
  by (auto simp: sdiv_pos smod_pos pos_imp_zdiv_nonneg_iff
      intro!: f64_add_nonneg of_i_nonneg of_i_div_nonneg)

text \<open>A duration converts to a finite float, so quotients of durations are never NaN.\<close>

lemma isfin_of_i_small: "\<bar>n\<bar> \<le> 2 ^ 63 \<Longrightarrow> isfin (of_i n)"
proof -
  assume a: "\<bar>n\<bar> \<le> 2 ^ 63"
  have p: "fl (2 ^ 63) = Fin (2 ^ 63)" "fl (- (2 ^ 63)) = Fin (- (2 ^ 63))" by code_simp+
  have q: "of_int n \<le> (2 ^ 63 :: rat)" "- (2 ^ 63 :: rat) \<le> of_int n"
    using a by (metis abs_le_iff of_int_le_iff of_int_numeral of_int_power of_int_minus minus_le_iff)+
  have "fl (of_int n) \<le> Fin (2 ^ 63)" "Fin (- (2 ^ 63)) \<le> fl (of_int n)"
    using fl_mono [OF q(1)] fl_mono [OF q(2)] p by simp_all
  then show ?thesis by (cases "fl (of_int n)") (simp_all add: of_i_def)
qed

lemma sat64_abs: "\<bar>sat64 n\<bar> \<le> 2 ^ 63"
  by (auto simp: sat64_def)

lemma t_sub_isfin [simp]: "isfin (of_i (t_sub t u))"
  unfolding t_sub_def by (rule isfin_of_i_small [OF sat64_abs])

text \<open>A duration in hours is never NaN.\<close>

lemma smod_abs_less: "0 < k \<Longrightarrow> \<bar>d smod k\<bar> < (k :: int)"
proof -
  assume k: "0 < k"
  have "\<bar>d smod k\<bar> \<le> \<bar>d\<bar> mod k"
    using k by (cases "d = 0") (auto simp: signed_modulo_int_def abs_mult)
  also have "\<dots> < k" using k by simp
  finally show ?thesis .
qed

lemma isfin_div_of_i: "\<bar>n\<bar> \<le> 2 ^ 53 \<Longrightarrow> 1 \<le> k \<Longrightarrow> isfin (of_i n / Fin (of_int k))"
proof -
  assume n: "\<bar>n\<bar> \<le> 2 ^ 53" and k: "1 \<le> k"
  let ?q = "of_int n / of_int k :: rat"
  have k': "1 \<le> (of_int k :: rat)" using k of_int_le_iff [of 1 k, where ?'a = rat] by simp
  have "\<bar>?q\<bar> \<le> of_int \<bar>n\<bar>"
    using k' mult_left_mono [of 1 "of_int k" "of_int \<bar>n\<bar> :: rat"] by (simp add: abs_divide divide_le_eq)
  then have "- of_int \<bar>n\<bar> \<le> ?q" "?q \<le> of_int \<bar>n\<bar>" by linarith+
  then have "fl ?q \<le> Fin (of_int \<bar>n\<bar>)" "Fin (of_int (- \<bar>n\<bar>)) \<le> fl ?q"
    using n by (intro fl_le_int fl_ge_int; simp)+
  then have "isfin (fl ?q)" by (cases "fl ?q") auto
  then show ?thesis using n k' by (simp add: of_i_eq)
qed

lemma Hours_not_NaN: "Hours d \<noteq> NaN"
proof -
  have "\<bar>d smod Hour\<bar> < Hour" by (rule smod_abs_less) simp
  then have "isfin (of_i (d smod Hour) / Fin (of_int Hour))" by (intro isfin_div_of_i) simp_all
  then have "isfin (of_i (d smod Hour) / fl 3600000000000)" by simp
  then show ?thesis unfolding Hours_def
    using of_i_not_NaN [of "d sdiv Hour"]
    by (cases "of_i (d sdiv Hour)"; cases "of_i (d smod Hour) / fl 3600000000000") simp_all
qed

subsection \<open>Bounded values\<close>

text \<open>A finite value from 0 to an integer bound; closed under rounded sums and products.\<close>

definition ranged :: "int \<Rightarrow> float64 \<Rightarrow> bool" where
  "ranged n x \<longleftrightarrow> (\<exists>r. x = Fin r \<and> 0 \<le> r \<and> r \<le> of_int n)"

lemma ranged_Fin [simp]: "ranged n (Fin r) \<longleftrightarrow> 0 \<le> r \<and> r \<le> of_int n"
  by (simp add: ranged_def)

lemma ranged_inf [simp]: "\<not> ranged n PInf" "\<not> ranged n NInf" "\<not> ranged n NaN"
  by (simp_all add: ranged_def)

lemma ranged_isfin: "ranged n x \<Longrightarrow> isfin x"
  by (auto simp: ranged_def)

lemma ranged_not_NaN: "ranged n x \<Longrightarrow> x \<noteq> NaN"
  by (auto simp: ranged_def)

lemma ranged_nonneg: "ranged n x \<Longrightarrow> 0 \<le> x"
  by (auto simp: ranged_def)

lemma ranged_le: "ranged n x \<Longrightarrow> x \<le> Fin (of_int n)"
  by (auto simp: ranged_def)

lemma ranged_one: "ranged 1 x \<longleftrightarrow> 0 \<le> x \<and> x \<le> 1"
  by (cases x) (auto simp: zero_f64 one_f64)

lemma ranged_0 [simp]: "0 \<le> n \<Longrightarrow> ranged n 0"
  by (simp add: zero_f64)

lemma ranged_1 [simp]: "1 \<le> n \<Longrightarrow> ranged n 1"
  using of_int_le_iff [of 1 n, where ?'a = rat] by (simp add: one_f64)

lemma ranged_mono: "ranged m x \<Longrightarrow> m \<le> n \<Longrightarrow> ranged n x"
  using of_int_le_iff [of m n, where ?'a = rat] by (auto simp: ranged_def intro: order_trans)

lemma ranged_fl: "0 \<le> r \<Longrightarrow> r \<le> of_int n \<Longrightarrow> n \<le> 2 ^ 53 \<Longrightarrow> ranged n (fl r)"
proof -
  assume a: "0 \<le> r" "r \<le> of_int n" "n \<le> 2 ^ 53"
  have "(0 :: rat) \<le> of_int n" using a(1,2) by (rule order_trans)
  then have "\<bar>n\<bar> \<le> 2 ^ 53" using a(3) by simp
  then have "0 \<le> fl r" "fl r \<le> Fin (of_int n)" using a fl_nonneg fl_le_int by auto
  then show ?thesis by (cases "fl r") (auto simp: zero_f64)
qed

lemma ranged_add: "ranged m x \<Longrightarrow> ranged n y \<Longrightarrow> m + n \<le> 2 ^ 53 \<Longrightarrow> ranged (m + n) (x + y)"
  unfolding ranged_def [of m] ranged_def [of n] by (auto intro!: ranged_fl add_mono simp: of_int_add)

lemma ranged_mult: "ranged m x \<Longrightarrow> ranged n y \<Longrightarrow> m * n \<le> 2 ^ 53 \<Longrightarrow> ranged (m * n) (x * y)"
  unfolding ranged_def [of m] ranged_def [of n]
  by (auto intro!: ranged_fl mult_mono simp: of_int_mult intro: order_trans)

lemma ranged_div: "ranged m x \<Longrightarrow> 1 \<le> d \<Longrightarrow> m \<le> 2 ^ 53 \<Longrightarrow> ranged m (x / Fin d)"
proof -
  assume a: "ranged m x" "1 \<le> d" "m \<le> 2 ^ 53"
  then obtain r where r: "x = Fin r" "0 \<le> r" "r \<le> of_int m" by (auto simp: ranged_def)
  have "r / d \<le> r" using r(2) a(2) mult_left_mono [of 1 d r] by (simp add: divide_le_eq)
  then have "r / d \<le> of_int m" "0 \<le> r / d" using r a(2) by (simp_all add: order_trans)
  then show ?thesis using r a(2,3) ranged_fl by simp
qed

lemma ranged_clamp01: "v \<noteq> NaN \<Longrightarrow> ranged 1 (clamp01 v)"
  using clamp01_range by (simp add: ranged_one)

lemma f2i_round_ranged:
  assumes "ranged n x" "n < 2 ^ 60"
  shows "0 \<le> f2i (fround x) \<and> f2i (fround x) \<le> n"
proof -
  obtain r where r: "x = Fin r" "0 \<le> r" "r \<le> of_int n" using assms(1) by (auto simp: ranged_def)
  have "\<lfloor>r + 1 / 2\<rfloor> \<le> \<lfloor>of_int n + (1 / 2 :: rat)\<rfloor>" using r by (intro floor_mono) simp
  also have "\<dots> = n" by (simp add: floor_eq_iff)
  finally have "\<lfloor>r + 1 / 2\<rfloor> \<le> n" .
  moreover have "0 \<le> \<lfloor>r + 1 / 2\<rfloor>" using r by simp
  ultimately show ?thesis using r assms(2) by (simp add: round_half_away_def)
qed

subsection \<open>Sorting float64 values\<close>

text \<open>\<open>sort.Float64s\<close> orders NaN before every other value.\<close>

definition fsle :: "float64 \<Rightarrow> float64 \<Rightarrow> bool" where
  "fsle x y \<longleftrightarrow> x = NaN \<or> x \<le> y"

fun finsort :: "float64 \<Rightarrow> float64 list \<Rightarrow> float64 list" where
  "finsort x [] = [x]"
| "finsort x (y # ys) = (if fsle x y then x # y # ys else y # finsort x ys)"

definition fsort :: "float64 list \<Rightarrow> float64 list" where
  "fsort xs = foldr finsort xs []"

lemma fsle_trans: "fsle x y \<Longrightarrow> fsle y z \<Longrightarrow> fsle x z"
  by (auto simp: fsle_def intro: f64_le_trans)

lemma fsle_total: "\<not> fsle x y \<Longrightarrow> fsle y x"
  using f64_linear by (auto simp: fsle_def)

lemma fsle_refl [simp]: "fsle x x"
  by (simp add: fsle_def)

lemma mset_finsort [simp]: "mset (finsort x xs) = add_mset x (mset xs)"
  by (induction xs) auto

lemma mset_fsort [simp]: "mset (fsort xs) = mset xs"
  by (induction xs) (auto simp: fsort_def)

lemma length_fsort [simp]: "length (fsort xs) = length xs"
  by (metis mset_fsort size_mset)

lemma set_fsort [simp]: "set (fsort xs) = set xs"
  by (metis mset_fsort set_mset_mset)

lemma set_finsort [simp]: "set (finsort x xs) = insert x (set xs)"
  by (metis mset_finsort set_mset_add_mset_insert set_mset_mset)

lemma sorted_finsort: "sorted_wrt fsle xs \<Longrightarrow> sorted_wrt fsle (finsort x xs)"
  by (induction xs) (auto intro: fsle_trans dest: fsle_total)

lemma sorted_fsort: "sorted_wrt fsle (fsort xs)"
  by (induction xs) (auto simp: fsort_def sorted_finsort)

text \<open>The order is total and antisymmetric, so the sorted list depends on the multiset only.\<close>

lemma fsle_antisym: "fsle x y \<Longrightarrow> fsle y x \<Longrightarrow> x = y"
  by (auto simp: fsle_def intro: f64_antisym)

lemma sorted_fsle_unique:
  "sorted_wrt fsle xs \<Longrightarrow> sorted_wrt fsle ys \<Longrightarrow> mset xs = mset ys \<Longrightarrow> xs = ys"
proof (induction xs arbitrary: ys)
  case Nil
  then show ?case by simp
next
  case (Cons x xs)
  then obtain y ys' where ys: "ys = y # ys'" by (cases ys) auto
  have "x \<in> set ys" "y \<in> set (x # xs)"
    using mset_eq_setD [OF Cons.prems(3)] ys by auto
  then have "x = y" using Cons.prems(1,2) ys fsle_antisym by auto
  then show ?case using Cons ys by simp
qed

lemma fsort_cong: "mset xs = mset ys \<Longrightarrow> fsort xs = fsort ys"
  by (rule sorted_fsle_unique) (simp_all add: sorted_fsort)

subsection \<open>Values of a feature map\<close>

datatype any = AFloat float64 | AInt int | AStr string | ABool bool | AStrs "string list"

type_synonym features = "string \<rightharpoonup> any"

subsection \<open>Lists\<close>

text \<open>\<open>if c { out = append(out, x) }\<close>.\<close>

definition add_if :: "bool \<Rightarrow> 'a \<Rightarrow> 'a list \<Rightarrow> 'a list" where
  "add_if c x out = (if c then out @ [x] else out)"

lemma add_if_not_Nil [simp]: "out \<noteq> [] \<Longrightarrow> add_if c x out \<noteq> []"
  by (simp add: add_if_def)

lemma hd_add_if [simp]: "out \<noteq> [] \<Longrightarrow> hd (add_if c x out) = hd out"
  by (simp add: add_if_def)

lemma set_add_if [simp]: "set (add_if c x out) = set out \<union> (if c then {x} else {})"
  by (simp add: add_if_def)

text \<open>The indices \<open>0, 1, ..\<close> of a loop that scans from the front while a test holds.\<close>

lemma dropWhile_eq_drop: "dropWhile P xs = drop (length (takeWhile P xs)) xs"
  by (induction xs) auto

lemma foldl_f64_nonneg:
  "0 \<le> s \<Longrightarrow> (\<forall>x \<in> set xs. 0 \<le> f x) \<Longrightarrow> 0 \<le> foldl (\<lambda>s x. s + f x) s xs" for s :: float64
  by (induction xs arbitrary: s) (auto intro: f64_add_nonneg)

subsection \<open>Tables keyed by a field\<close>

lemma find_key_mem: "distinct (map key rs) \<Longrightarrow> r \<in> set rs \<Longrightarrow> find (\<lambda>x. key x = key r) rs = Some r"
  by (induction rs) auto

lemma find_key_map:
  "(\<And>r. key (f r) = key r) \<Longrightarrow> find (\<lambda>r. key r = i) (map (\<lambda>r. if P r then f r else r) rs)
     = map_option (\<lambda>r. if P r then f r else r) (find (\<lambda>r. key r = i) rs)"
  by (induction rs) auto

lemma find_append_Some: "find P xs = Some x \<Longrightarrow> find P (xs @ ys) = Some x"
  by (induction xs) (auto split: if_splits)

end
