(* ===== verification/GoString.thy ===== *)
theory GoString
  imports Prelude "HOL-Library.Sublist"
begin

text \<open>
  Package strings over byte strings: \<open>Contains\<close>, \<open>HasPrefix\<close>, \<open>TrimSpace\<close>, \<open>ToLower\<close>,
  \<open>LastIndex\<close> and the others the program calls. A string is the list of its bytes. The case
  functions and \<open>TrimSpace\<close> act on ASCII; bytes from 128 on are left as they are.
\<close>

subsection \<open>Searching\<close>

fun Contains :: "string \<Rightarrow> string \<Rightarrow> bool" where
  "Contains [] n = (n = [])"
| "Contains (c # cs) n = (prefix n (c # cs) \<or> Contains cs n)"

lemma Contains_iff: "Contains s n \<longleftrightarrow> sublist n s"
  by (induction s) (auto simp: sublist_Cons_right)

lemma Contains_append: "Contains s n \<Longrightarrow> Contains (a @ s @ b) n"
  by (auto simp: Contains_iff sublist_def) (metis append.assoc)

lemma Contains_self [simp]: "Contains (a @ n @ b) n"
  by (auto simp: Contains_iff sublist_def)

text \<open>\<open>strings.LastIndex\<close>: the last position at which \<open>n\<close> occurs, \<open>None\<close> for \<open>-1\<close>.\<close>

fun LastIndex :: "string \<Rightarrow> string \<Rightarrow> nat option" where
  "LastIndex [] n = (if n = [] then Some 0 else None)"
| "LastIndex (c # cs) n = (case LastIndex cs n of
     Some i \<Rightarrow> Some (Suc i)
   | None \<Rightarrow> if prefix n (c # cs) then Some 0 else None)"

lemma LastIndex_Some: "LastIndex s n = Some i \<Longrightarrow> i + length n \<le> length s \<and> prefix n (drop i s)"
  by (induction s arbitrary: i) (auto split: option.splits if_splits dest: prefix_length_le)

lemma LastIndex_None: "LastIndex s n = None \<longleftrightarrow> \<not> Contains s n"
  by (induction s) (auto split: option.splits)

text \<open>\<open>strings.IndexByte\<close>.\<close>

fun IndexByte :: "string \<Rightarrow> char \<Rightarrow> nat option" where
  "IndexByte [] c = None"
| "IndexByte (d # ds) c = (if d = c then Some 0 else map_option Suc (IndexByte ds c))"

lemma IndexByte_Some: "IndexByte s c = Some i \<Longrightarrow> i < length s \<and> s ! i = c \<and> c \<notin> set (take i s)"
  by (induction s arbitrary: i) (auto split: if_splits)

lemma IndexByte_None: "IndexByte s c = None \<longleftrightarrow> c \<notin> set s"
  by (induction s) auto

subsection \<open>Case and white space\<close>

definition is_space :: "char \<Rightarrow> bool" where
  "is_space c \<longleftrightarrow> c \<in> {CHR 0x09, CHR 0x0A, CHR 0x0B, CHR 0x0C, CHR 0x0D, CHR 0x20}"

definition lower_char :: "char \<Rightarrow> char" where
  "lower_char c = (let n = (of_char c :: nat)
     in if 65 \<le> n \<and> n \<le> 90 then char_of (n + 32) else c)"

definition upper_char :: "char \<Rightarrow> char" where
  "upper_char c = (let n = (of_char c :: nat)
     in if 97 \<le> n \<and> n \<le> 122 then char_of (n - 32) else c)"

definition ToLower :: "string \<Rightarrow> string" where
  "ToLower s = map lower_char s"

definition ToUpper :: "string \<Rightarrow> string" where
  "ToUpper s = map upper_char s"

text \<open>\<open>TrimLeft\<close>, \<open>TrimRight\<close> and \<open>TrimSpace\<close>, the cut set given as a predicate.\<close>

definition TrimLeft :: "(char \<Rightarrow> bool) \<Rightarrow> string \<Rightarrow> string" where
  "TrimLeft p s = dropWhile p s"

definition TrimRight :: "(char \<Rightarrow> bool) \<Rightarrow> string \<Rightarrow> string" where
  "TrimRight p s = rev (dropWhile p (rev s))"

definition TrimSpace :: "string \<Rightarrow> string" where
  "TrimSpace s = TrimRight is_space (TrimLeft is_space s)"

definition HasPrefix :: "string \<Rightarrow> string \<Rightarrow> bool" where
  "HasPrefix s p \<longleftrightarrow> prefix p s"

definition TrimPrefix :: "string \<Rightarrow> string \<Rightarrow> string" where
  "TrimPrefix s p = (if prefix p s then drop (length p) s else s)"

fun Join :: "string list \<Rightarrow> string \<Rightarrow> string" where
  "Join [] sep = []"
| "Join [x] sep = x"
| "Join (x # xs) sep = x @ sep @ Join xs sep"

lemma lower_char_idem [simp]: "lower_char (lower_char c) = lower_char c"
proof -
  have "of_char (char_of (n + 32) :: char) = n + 32" if "65 \<le> n" "n \<le> 90" for n :: nat
    using that by (simp add: of_char_of)
  then show ?thesis by (simp add: lower_char_def Let_def)
qed

lemma ToLower_idem [simp]: "ToLower (ToLower s) = ToLower s"
  by (simp add: ToLower_def)

lemma ToLower_append [simp]: "ToLower (a @ b) = ToLower a @ ToLower b"
  by (simp add: ToLower_def)

lemma length_ToLower [simp]: "length (ToLower s) = length s"
  by (simp add: ToLower_def)

lemma TrimRight_prefix: "prefix (TrimRight p s) s"
proof -
  have "suffix (dropWhile p (rev s)) (rev s)" by (rule suffix_dropWhile)
  then show ?thesis by (simp add: TrimRight_def suffix_to_prefix)
qed

lemma TrimLeft_suffix: "suffix (TrimLeft p s) s"
  by (simp add: TrimLeft_def suffix_dropWhile)

lemma length_TrimRight: "length (TrimRight p s) \<le> length s"
  using prefix_length_le [OF TrimRight_prefix] .

lemma length_TrimLeft: "length (TrimLeft p s) \<le> length s"
  using suffix_length_le [OF TrimLeft_suffix] .

lemma length_TrimSpace: "length (TrimSpace s) \<le> length s"
  unfolding TrimSpace_def using length_TrimRight length_TrimLeft le_trans by blast

lemma TrimRight_last: "TrimRight p s = [] \<or> \<not> p (last (TrimRight p s))"
  by (cases "dropWhile p (rev s)") (auto simp: TrimRight_def last_rev dest: dropWhile_eq_Cons_conv [THEN iffD1])

lemma TrimRight_idem: "s = [] \<or> \<not> p (last s) \<Longrightarrow> TrimRight p s = s"
  by (cases s rule: rev_cases) (auto simp: TrimRight_def)

lemma TrimLeft_idem: "s = [] \<or> \<not> p (hd s) \<Longrightarrow> TrimLeft p s = s"
  by (cases s) (auto simp: TrimLeft_def)

lemma TrimLeft_hd: "TrimLeft p s = [] \<or> \<not> p (hd (TrimLeft p s))"
  by (induction s) (auto simp: TrimLeft_def)

lemma TrimSpace_idem [simp]: "TrimSpace (TrimSpace s) = TrimSpace s"
proof -
  let ?l = "TrimLeft is_space s" and ?t = "TrimSpace s"
  have t: "?t = TrimRight is_space ?l" by (simp add: TrimSpace_def)
  have "?t = [] \<or> hd ?t = hd ?l"
    using TrimRight_prefix [of is_space ?l] unfolding t
    by (cases "TrimRight is_space ?l") (auto simp: prefix_def)
  moreover have "?t = [] \<or> ?l \<noteq> []"
    using length_TrimRight [of is_space ?l] unfolding t by auto
  ultimately have "?t = [] \<or> \<not> is_space (hd ?t)" using TrimLeft_hd [of is_space s] by auto
  then have l: "TrimLeft is_space ?t = ?t" by (rule TrimLeft_idem)
  have "TrimRight is_space ?t = ?t"
    using TrimRight_last [of is_space ?l] unfolding t by (rule TrimRight_idem)
  then show ?thesis using l by (subst TrimSpace_def) simp
qed

lemma lower_upper [simp]: "lower_char (upper_char c) = lower_char c"
proof -
  have "of_char (char_of (n - 32) :: char) = n - 32" if "97 \<le> n" "n \<le> 122" for n :: nat
    using that by (simp add: of_char_of)
  then show ?thesis by (auto simp: lower_char_def upper_char_def Let_def)
qed

lemma ToLower_ToUpper [simp]: "ToLower (ToUpper s) = ToLower s"
  by (simp add: ToLower_def ToUpper_def)

lemma is_space_lower: "is_space (lower_char c) = is_space c"
proof -
  have up: "is_space d \<Longrightarrow> of_char d < (65 :: nat)" for d by (auto simp: is_space_def)
  show ?thesis
  proof (cases "65 \<le> (of_char c :: nat) \<and> of_char c \<le> (90 :: nat)")
    case True
    then have "of_char (lower_char c) = (of_char c + 32 :: nat)" by (simp add: lower_char_def of_char_of)
    then have "\<not> of_char (lower_char c) < (65 :: nat)" "\<not> of_char c < (65 :: nat)" using True by simp_all
    then show ?thesis using up by blast
  next
    case False
    then have "lower_char c = c" by (auto simp: lower_char_def Let_def)
    then show ?thesis by simp
  qed
qed

lemma ToLower_TrimSpace: "ToLower (TrimSpace s) = TrimSpace (ToLower s)"
proof -
  have "is_space \<circ> lower_char = is_space" by (simp add: fun_eq_iff is_space_lower)
  then show ?thesis
    by (simp add: ToLower_def TrimSpace_def TrimLeft_def TrimRight_def dropWhile_map rev_map)
qed

end
