(* ===== verification/GoFmt.thy ===== *)
theory GoFmt
  imports GoString
begin

text \<open>
  The verbs of \<open>fmt.Sprintf\<close> the program uses: \<open>%d\<close>, \<open>%.Nf\<close> and \<open>%+.Nf\<close> of a \<open>float64\<close> (exact
  decimal expansion, rounded to the nearest, ties to even, as strconv does), \<open>%v\<close> of a list of
  strings, and \<open>Duration.String\<close> with \<open>Duration.Round\<close>. Strings are UTF-8 bytes, so the
  non-ASCII characters of the program's formats are written as byte lists.
\<close>

subsection \<open>Decimal numerals\<close>

definition digit :: "nat \<Rightarrow> char" where
  "digit d = char_of (48 + d)"

fun digits :: "nat \<Rightarrow> string" where
  "digits n = (if n < 10 then [digit n] else digits (n div 10) @ [digit (n mod 10)])"

declare digits.simps [simp del]

definition fmt_d :: "int \<Rightarrow> string" where
  "fmt_d n = (if n < 0 then CHR ''-'' # digits (nat (- n)) else digits (nat n))"

text \<open>Reading a numeral back.\<close>

definition undigit :: "char \<Rightarrow> nat" where
  "undigit c = of_char c - 48"

definition undigits :: "string \<Rightarrow> nat" where
  "undigits s = foldl (\<lambda>a c. 10 * a + undigit c) 0 s"

lemma undigit_digit: "d < 10 \<Longrightarrow> undigit (digit d) = d"
  by (simp add: undigit_def digit_def of_char_of)

lemma undigits_digits: "undigits (digits n) = n"
proof (induction n rule: digits.induct)
  case (1 n)
  show ?case
  proof (cases "n < 10")
    case True
    then show ?thesis by (subst digits.simps) (simp add: undigits_def undigit_digit)
  next
    case False
    with 1 have "undigits (digits (n div 10)) = n div 10" by simp
    with False show ?thesis by (subst digits.simps) (simp add: undigits_def undigit_digit)
  qed
qed

lemma digits_inj: "digits m = digits n \<Longrightarrow> m = n"
  by (metis undigits_digits)

lemma digits_chars: "c \<in> set (digits n) \<Longrightarrow> \<exists>d < 10. c = digit d"
proof (induction n rule: digits.induct)
  case (1 n)
  show ?case
  proof (cases "n < 10")
    case True
    with "1.prems" show ?thesis by (subst (asm) digits.simps) auto
  next
    case False
    with "1.prems" have "c \<in> set (digits (n div 10)) \<or> c = digit (n mod 10)"
      by (subst (asm) digits.simps) auto
    then show ?thesis using "1.IH" False by (auto intro: exI [of _ "n mod 10"])
  qed
qed

lemma minus_not_digit: "d < 10 \<Longrightarrow> digit d \<noteq> CHR ''-''"
  by (auto simp: digit_def dest!: arg_cong [where f = "of_char :: char \<Rightarrow> nat"] simp: of_char_of)

lemma digits_nonempty: "digits n \<noteq> []"
  by (subst digits.simps) simp

lemma digits_not_minus: "digits n \<noteq> CHR ''-'' # s"
  using digits_chars [of "CHR ''-''" n] minus_not_digit by fastforce

lemma fmt_d_inj: "fmt_d m = fmt_d n \<Longrightarrow> m = n"
  using digits_inj by (fastforce simp: fmt_d_def digits_not_minus digits_not_minus [symmetric] split: if_splits)

subsection \<open>Fixed-point numbers\<close>

definition pad0 :: "nat \<Rightarrow> string \<Rightarrow> string" where
  "pad0 k s = replicate (k - length s) (CHR ''0'') @ s"

text \<open>\<open>%.kf\<close> of the absolute value of a finite number: \<open>|r| 10^k\<close> rounded, ties to even.\<close>

definition fmt_abs :: "nat \<Rightarrow> rat \<Rightarrow> string" where
  "fmt_abs k r = (let n = nat (rhe (\<bar>r\<bar> * 10 ^ k)) in
     if k = 0 then digits n
     else digits (n div 10 ^ k) @ ''.'' @ pad0 k (digits (n mod 10 ^ k)))"

fun fmt_f :: "nat \<Rightarrow> float64 \<Rightarrow> string" where
  "fmt_f k (Fin r) = (if r < 0 then ''-'' else []) @ fmt_abs k r"
| "fmt_f k PInf = ''+Inf''"
| "fmt_f k NInf = ''-Inf''"
| "fmt_f k NaN = ''NaN''"

fun fmt_fplus :: "nat \<Rightarrow> float64 \<Rightarrow> string" where
  "fmt_fplus k (Fin r) = (if r < 0 then ''-'' else ''+'') @ fmt_abs k r"
| "fmt_fplus k PInf = ''+Inf''"
| "fmt_fplus k NInf = ''-Inf''"
| "fmt_fplus k NaN = ''+NaN''"

subsection \<open>Lists and durations\<close>

definition fmt_strs :: "string list \<Rightarrow> string" where
  "fmt_strs xs = ''['' @ Join xs '' '' @ '']''"

definition strip0 :: "string \<Rightarrow> string" where
  "strip0 s = TrimRight (\<lambda>c. c = CHR ''0'') s"

text \<open>The fraction \<open>v / 10^k\<close> without trailing zeros, with its point, or nothing.\<close>

definition fmt_frac :: "nat \<Rightarrow> nat \<Rightarrow> string" where
  "fmt_frac k v = (let s = strip0 (pad0 k (digits (v mod 10 ^ k))) in
     if s = [] then [] else ''.'' @ s)"

definition micro :: string where
  "micro = [CHR 0xC2, CHR 0xB5]"

definition fmt_dur :: "duration \<Rightarrow> string" where
  "fmt_dur d = (let u = nat \<bar>d\<bar>; sign = (if d < 0 then ''-'' else []) in
     if u = 0 then ''0s''
     else if u < 1000 then sign @ digits u @ ''ns''
     else if u < 1000000 then sign @ digits (u div 1000) @ fmt_frac 3 u @ micro @ ''s''
     else if u < 1000000000 then sign @ digits (u div 1000000) @ fmt_frac 6 u @ ''ms''
     else let s = u div 1000000000; m = s div 60; h = m div 60;
              secs = digits (s mod 60) @ fmt_frac 9 u @ ''s'' in
       sign @ (if m = 0 then secs
               else if h = 0 then digits (m mod 60) @ ''m'' @ secs
               else digits h @ ''h'' @ digits (m mod 60) @ ''m'' @ secs))"

text \<open>\<open>Duration.Round\<close>: to the nearest multiple, half away from zero, saturating.\<close>

definition dur_round :: "duration \<Rightarrow> duration \<Rightarrow> duration" where
  "dur_round d m = (if m \<le> 0 then d
     else let r = \<bar>d\<bar> mod m in
       if r + r < m then d - sgn d * r else sat64 (d + sgn d * (m - r)))"

text \<open>\<open>%q\<close> of a string: a Go literal. Bytes from 128 on are left as they are.\<close>

definition hex_digit :: "nat \<Rightarrow> char" where
  "hex_digit d = (if d < 10 then digit d else char_of (87 + d))"

definition quote_char :: "char \<Rightarrow> string" where
  "quote_char c = (let n = (of_char c :: nat) in
     if c = CHR 0x22 \<or> c = CHR 0x5C then [CHR 0x5C, c]
     else if n = 7 then CHR 0x5C # ''a'' else if n = 8 then CHR 0x5C # ''b'' else if n = 12 then CHR 0x5C # ''f''
     else if n = 10 then CHR 0x5C # ''n'' else if n = 13 then CHR 0x5C # ''r'' else if n = 9 then CHR 0x5C # ''t''
     else if n = 11 then CHR 0x5C # ''v''
     else if n < 32 \<or> n = 127 then CHR 0x5C # ''x'' @ [hex_digit (n div 16), hex_digit (n mod 16)]
     else [c])"

definition fmt_q :: "string \<Rightarrow> string" where
  "fmt_q s = CHR 0x22 # concat (map quote_char s) @ [CHR 0x22]"

text \<open>Characters outside ASCII that the formats contain.\<close>

definition cent :: string where "cent = [CHR 0xC2, CHR 0xA2]"
definition arrow :: string where "arrow = [CHR 0xE2, CHR 0x86, CHR 0x92]"
definition Delta :: string where "Delta = [CHR 0xCE, CHR 0x94]"
definition ellipsis :: string where "ellipsis = [CHR 0xE2, CHR 0x80, CHR 0xA6]"
definition emdash :: string where "emdash = [CHR 0xE2, CHR 0x80, CHR 0x94]"
definition middot :: string where "middot = [CHR 0xC2, CHR 0xB7]"
definition bullet :: string where "bullet = [CHR 0xE2, CHR 0x80, CHR 0xA2]"

lemma fmt_examples:
  "fmt_d (- 1203) = ''-1203''"
  "fmt_f 2 (Fin (5 / 8)) = ''0.62''"
  "fmt_f 2 (Fin (- 7)) = ''-7.00''"
  "fmt_fplus 1 (Fin (1 / 4)) = ''+0.2''"
  "fmt_dur (259380500000000) = ''72h3m0.5s''"
  "fmt_dur 1500000 = ''1.5ms''"
  "fmt_dur (dur_round (90 * Second) Minute) = ''2m0s''"
  "fmt_strs [''a'', ''bc''] = ''[a bc]''"
  by code_simp+

end
