(* ===== verification/Anomaly.thy ===== *)
theory Anomaly
  imports GoFmt
begin

text \<open>
  Package anomaly (\<open>internal/domain/model/anomaly\<close>): severities and their rank, the tiers and
  thresholds of the single-trade ladder, and the value types the detectors pass on. A severity is
  Go's string type, so every string, the empty one included, is a severity of rank 0.
\<close>

subsection \<open>Severities\<close>

type_synonym Severity = string

definition SeverityInfo :: Severity where "SeverityInfo = ''info''"
definition SeverityWarning :: Severity where "SeverityWarning = ''warning''"
definition SeverityCritical :: Severity where "SeverityCritical = ''critical''"
definition SeverityHard :: Severity where "SeverityHard = ''hard''"

lemmas severity_defs [simp] = SeverityInfo_def SeverityWarning_def SeverityCritical_def SeverityHard_def

definition rank :: "Severity \<Rightarrow> int" where
  "rank s = (if s = SeverityHard then 4
     else if s = SeverityCritical then 3
     else if s = SeverityWarning then 2
     else if s = SeverityInfo then 1
     else 0)"

lemma rank_simps [simp]: "rank SeverityHard = 4" "rank SeverityCritical = 3"
  "rank SeverityWarning = 2" "rank SeverityInfo = 1" "rank '''' = 0"
  "rank ''hard'' = 4" "rank ''critical'' = 3" "rank ''warning'' = 2" "rank ''info'' = 1"
  by (simp_all add: rank_def)

definition MaxSeverity :: "Severity \<Rightarrow> Severity \<Rightarrow> Severity" where
  "MaxSeverity a b = (if rank a \<ge> rank b then a else b)"

definition ConservativeMin :: "Severity \<Rightarrow> Severity \<Rightarrow> Severity" where
  "ConservativeMin a b = (if a = '''' \<or> b = '''' then ''''
     else if rank a \<le> rank b then a else b)"

text \<open>
  Three packages of the program carry a private copy of the severity order. The interface they
  share: the four named severities are ranked from 4 down to 1 and nothing else has a rank.
\<close>

locale severity_order =
  fixes rk :: "Severity \<Rightarrow> int"
  assumes rk_named: "rk ''hard'' = 4" "rk ''critical'' = 3" "rk ''warning'' = 2" "rk ''info'' = 1"
    and rk_other: "s \<notin> {''hard'', ''critical'', ''warning'', ''info''} \<Longrightarrow> rk s = 0"
begin

lemma rk_cases: "rk s = 0 \<or> s \<in> {''hard'', ''critical'', ''warning'', ''info''}"
  using rk_other by blast

lemma rk_range: "0 \<le> rk s \<and> rk s \<le> 4"
  using rk_cases [of s] rk_named by auto

lemma rk_inj: "rk a = rk b \<Longrightarrow> 0 < rk a \<Longrightarrow> a = b"
  using rk_cases [of a] rk_cases [of b] rk_named by auto

text \<open>Capping keeps the lower of two ranked severities.\<close>

lemma cap_rank: "rk (if rk cap < rk s then cap else s) = min (rk s) (rk cap)"
  by auto

end

interpretation anomaly_rank: severity_order rank
  by unfold_locales (auto simp: rank_def)

text \<open>On the ranked severities both operations are the lattice operations of the order.\<close>

lemma rank_MaxSeverity: "rank (MaxSeverity a b) = max (rank a) (rank b)"
  by (simp add: MaxSeverity_def)

lemma rank_ConservativeMin: "rank (ConservativeMin a b) = min (rank a) (rank b)"
proof -
  have "rank '''' = 0" by (simp add: rank_def)
  then show ?thesis using anomaly_rank.rk_range [of a] anomaly_rank.rk_range [of b]
    by (auto simp: ConservativeMin_def)
qed

subsection \<open>Tiers and thresholds\<close>

record Tier =
  tr_MinNotionalUSD :: float64
  tr_MinOdds :: float64
  tr_MinProfitUSD :: float64
  tr_MinMarketP95Ratio :: float64
  tr_MinMarketP99Ratio :: float64
  tr_MinTraderP95Ratio :: float64
  tr_MinTraderP99Ratio :: float64
  tr_MinMultiplier :: float64

record Thresholds =
  th_Info :: Tier
  th_Warning :: Tier
  th_Critical :: Tier
  th_MinBaselineTrades :: int
  th_MinBaselineNotionalUSD :: float64
  th_LowBaselineCapEnabled :: bool
  th_LowBaselineSingleMaxSeverity :: Severity
  th_LowBaselineAllowCriticalAbsolute :: bool

definition AbsoluteTier :: "Thresholds \<Rightarrow> float64 \<Rightarrow> float64 \<Rightarrow> Severity" where
  "AbsoluteTier t notionalUSD odds =
     (if notionalUSD \<ge> tr_MinNotionalUSD (th_Critical t) \<and> odds \<ge> tr_MinOdds (th_Critical t)
      then SeverityCritical
      else if notionalUSD \<ge> tr_MinNotionalUSD (th_Warning t) \<and> odds \<ge> tr_MinOdds (th_Warning t)
      then SeverityWarning
      else if notionalUSD \<ge> tr_MinNotionalUSD (th_Info t) \<and> odds \<ge> tr_MinOdds (th_Info t)
      then SeverityInfo
      else '''')"

text \<open>The ranks of a three-rung ladder grow with the sets of rungs passed.\<close>

lemma rung_mono:
  "(c \<Longrightarrow> c') \<Longrightarrow> (w \<Longrightarrow> w') \<Longrightarrow> (i \<Longrightarrow> i') \<Longrightarrow>
   (if c then 3 else if w then 2 else if i then 1 else 0)
     \<le> (if c' then 3 else if w' then 2 else if i' then 1 else (0 :: int))"
  by simp

text \<open>A larger trade at longer odds never gets a lower rung, whatever the floors are.\<close>

lemma AbsoluteTier_mono:
  assumes "n \<le> n'" "o1 \<le> o2"
  shows "rank (AbsoluteTier t n o1) \<le> rank (AbsoluteTier t n' o2)"
proof -
  have pass: "a \<le> n' \<and> b \<le> o2" if "a \<le> n \<and> b \<le> o1" for a b
    using that assms f64_le_trans by blast
  have "rank (AbsoluteTier t n o1) =
      (if tr_MinNotionalUSD (th_Critical t) \<le> n \<and> tr_MinOdds (th_Critical t) \<le> o1 then 3
       else if tr_MinNotionalUSD (th_Warning t) \<le> n \<and> tr_MinOdds (th_Warning t) \<le> o1 then 2
       else if tr_MinNotionalUSD (th_Info t) \<le> n \<and> tr_MinOdds (th_Info t) \<le> o1 then 1 else 0)"
    for n o1 by (simp only: AbsoluteTier_def if_distrib [of rank] rank_simps)
  then show ?thesis by (simp only:) (rule rung_mono; erule pass)
qed

subsection \<open>Trades and clusters as the sinks see them\<close>

record TradeRef =
  tf_ID :: string
  tf_TxHash :: string
  tf_Wallet :: string
  tf_Market :: string
  tf_Slug :: string
  tf_Question :: string
  tf_Outcome :: string
  tf_Side :: string
  tf_SizeShares :: float64
  tf_Price :: float64
  tf_Odds :: float64
  tf_NotionalUSD :: float64
  tf_At :: time

record ClusterStats =
  cs_Window :: duration
  cs_AnomalousTrades :: int
  cs_UniqueWallets :: int
  cs_TotalUSD :: float64
  cs_Sample :: "TradeRef list"

end
