(* ===== verification/Market.thy ===== *)
theory Market
  imports Anomaly
begin

text \<open>
  Packages market and trade (\<open>internal/domain/model/market\<close>, \<open>internal/domain/model/trade\<close>): the
  market projection with its life cycle, trades, and the folding of fixed-width buckets of trades
  into one window.
\<close>

subsection \<open>Markets\<close>

record Market =
  mk_ID :: string
  mk_Slug :: string
  mk_Question :: string
  mk_ConditionID :: string
  mk_TokenIDs :: "string list"
  mk_Outcomes :: "string list"
  mk_Categories :: "int list"
  mk_EventSlug :: string
  mk_EventTitle :: string
  mk_Active :: bool
  mk_Closed :: bool
  mk_StartDate :: time
  mk_EndDate :: time
  mk_Volume :: float64
  mk_Volume24h :: float64
  mk_Liquidity :: float64

text \<open>The loop over the token ids; a token without a label is passed over, not returned.\<close>

fun outcome_scan :: "string \<Rightarrow> string list \<Rightarrow> string list \<Rightarrow> nat \<Rightarrow> string" where
  "outcome_scan token [] outs i = ''''"
| "outcome_scan token (t # ts) outs i =
     (if t = token \<and> i < length outs then outs ! i else outcome_scan token ts outs (Suc i))"

definition OutcomeLabel :: "Market \<Rightarrow> string \<Rightarrow> string" where
  "OutcomeLabel m token = outcome_scan token (mk_TokenIDs m) (mk_Outcomes m) 0"

definition LifecyclePct :: "Market \<Rightarrow> time \<Rightarrow> float64 \<times> bool" where
  "LifecyclePct m now =
     (if IsZero (mk_StartDate m) \<or> IsZero (mk_EndDate m) then (0, False)
      else let total = t_sub (mk_EndDate m) (mk_StartDate m) in
        if total \<le> 0 then (0, False)
        else let pct = of_i (t_sub now (mk_StartDate m)) / of_i total * fl 100;
                 pct = (if pct < 0 then 0 else pct);
                 pct = (if fl 100 < pct then fl 100 else pct)
          in (pct, True))"

definition IsTradable :: "Market \<Rightarrow> time \<Rightarrow> bool" where
  "IsTradable m now =
     (if \<not> mk_Active m \<or> mk_Closed m then False
      else if \<not> IsZero (mk_StartDate m) \<and> now < mk_StartDate m then False
      else if \<not> IsZero (mk_EndDate m) \<and> mk_EndDate m < now then False
      else True)"

subsection \<open>Trades and buckets\<close>

definition SideBuy :: string where "SideBuy = ''BUY''"
definition SideSell :: string where "SideSell = ''SELL''"

lemmas side_defs [simp] = SideBuy_def SideSell_def

record Trade =
  td_ID :: string
  td_Market :: string
  td_Token :: string
  td_Side :: string
  td_Price :: float64
  td_Size :: float64
  td_Timestamp :: time
  td_TxHash :: string
  td_Taker :: string
  td_Maker :: string

definition NotionalUSD :: "Trade \<Rightarrow> float64" where
  "NotionalUSD t = td_Size t * td_Price t"

record Bucket =
  bk_Start :: time
  bk_Count :: int
  bk_Notional :: float64
  bk_SizeSum :: float64
  bk_SizeSqr :: float64
  bk_SizeMin :: float64
  bk_SizeMax :: float64
  bk_sizes :: "float64 list"

definition Add :: "Bucket \<Rightarrow> Trade \<Rightarrow> Bucket" where
  "Add b t =
     (let b = (if bk_Count b = 0
               then b\<lparr>bk_SizeMin := td_Size t, bk_SizeMax := td_Size t\<rparr>
               else let b = (if td_Size t < bk_SizeMin b then b\<lparr>bk_SizeMin := td_Size t\<rparr> else b)
                 in if bk_SizeMax b < td_Size t then b\<lparr>bk_SizeMax := td_Size t\<rparr> else b)
      in b\<lparr>bk_Count := i64 (bk_Count b + 1),
           bk_Notional := bk_Notional b + NotionalUSD t,
           bk_SizeSum := bk_SizeSum b + td_Size t,
           bk_SizeSqr := bk_SizeSqr b + td_Size t * td_Size t,
           bk_sizes := bk_sizes b @ [td_Size t]\<rparr>)"

record Window =
  wn_Start :: time
  wn_End :: time
  wn_Count :: int
  wn_Notional :: float64
  wn_SizeSum :: float64
  wn_SizeMin :: float64
  wn_SizeMax :: float64
  wn_SizeMedian :: float64

definition win_Duration :: "Window \<Rightarrow> duration" where
  "win_Duration w = t_sub (wn_End w) (wn_Start w)"

definition AvgSize :: "Window \<Rightarrow> float64" where
  "AvgSize w = (if wn_Count w = 0 then 0 else wn_SizeSum w / of_i (wn_Count w))"

definition TradesPerMinute :: "Window \<Rightarrow> float64" where
  "TradesPerMinute w = (let mins = Minutes (win_Duration w) in
     if mins \<le> 0 then 0 else of_i (wn_Count w) / mins)"

definition NotionalPerMinute :: "Window \<Rightarrow> float64" where
  "NotionalPerMinute w = (let mins = Minutes (win_Duration w) in
     if mins \<le> 0 then 0 else wn_Notional w / mins)"

text \<open>One turn of the loop over the buckets, on the window and the sizes collected so far.\<close>

definition fold_step :: "time \<Rightarrow> time \<Rightarrow> Window \<times> float64 list \<Rightarrow> Bucket \<Rightarrow> Window \<times> float64 list" where
  "fold_step start end acc b = (case acc of (w, sizes) \<Rightarrow>
     if bk_Count b = 0 then (w, sizes)
     else if bk_Start b < start \<or> \<not> bk_Start b < end then (w, sizes)
     else let w = w\<lparr>wn_Count := i64 (wn_Count w + bk_Count b),
                    wn_Notional := wn_Notional w + bk_Notional b,
                    wn_SizeSum := wn_SizeSum w + bk_SizeSum b\<rparr>;
              w = (if sizes = []
                   then w\<lparr>wn_SizeMin := bk_SizeMin b, wn_SizeMax := bk_SizeMax b\<rparr>
                   else let w = (if bk_SizeMin b < wn_SizeMin w
                                 then w\<lparr>wn_SizeMin := bk_SizeMin b\<rparr> else w)
                     in if wn_SizeMax w < bk_SizeMax b then w\<lparr>wn_SizeMax := bk_SizeMax b\<rparr> else w)
          in (w, sizes @ bk_sizes b))"

definition median_of :: "float64 list \<Rightarrow> float64" where
  "median_of sizes = (let sizes = fsort sizes; mid = length sizes div 2 in
     if length sizes mod 2 = 0 then (sizes ! (mid - 1) + sizes ! mid) / fl 2 else sizes ! mid)"

definition FoldBuckets :: "Bucket list \<Rightarrow> time \<Rightarrow> time \<Rightarrow> Window" where
  "FoldBuckets buckets start end =
     (let w0 = \<lparr>wn_Start = start, wn_End = end, wn_Count = 0, wn_Notional = 0, wn_SizeSum = 0,
                wn_SizeMin = 0, wn_SizeMax = 0, wn_SizeMedian = 0\<rparr>;
          (w, sizes) = foldl (fold_step start end) (w0, []) buckets;
          w = (if sizes \<noteq> [] then w\<lparr>wn_SizeMedian := median_of sizes\<rparr> else w)
      in if wn_Notional w = NaN then w\<lparr>wn_Notional := 0\<rparr> else w)"

subsection \<open>Life cycle\<close>

text \<open>The two clamps at the end of \<open>LifecyclePct\<close>.\<close>

definition clampf :: "float64 \<Rightarrow> float64" where
  "clampf p = (let p = (if p < 0 then 0 else p) in if fl 100 < p then fl 100 else p)"

lemma clampf_range: "p \<noteq> NaN \<Longrightarrow> 0 \<le> clampf p \<and> clampf p \<le> fl 100"
  by (cases p) (auto simp: clampf_def Let_def zero_f64)

lemma clampf_mono: "p \<le> q \<Longrightarrow> clampf p \<le> clampf q"
  by (cases p; cases q) (auto simp: clampf_def Let_def zero_f64)

lemma LifecyclePct_clampf:
  "LifecyclePct m now =
     (if IsZero (mk_StartDate m) \<or> IsZero (mk_EndDate m) \<or> mk_EndDate m \<le> mk_StartDate m
      then (0, False)
      else (clampf (of_i (t_sub now (mk_StartDate m))
              / of_i (t_sub (mk_EndDate m) (mk_StartDate m)) * fl 100), True))"
proof -
  have "t_sub (mk_EndDate m) (mk_StartDate m) \<le> 0 \<longleftrightarrow> mk_EndDate m \<le> mk_StartDate m"
    unfolding t_sub_def by (metis diff_le_0_iff_le not_less sat64_sign(3))
  then show ?thesis by (simp add: LifecyclePct_def clampf_def Let_def)
qed

lemma div_times_mono:
  assumes "a \<le> b" "isfin a" "isfin b" "0 < d"
  shows "a / d * fl 100 \<le> b / d * fl 100"
proof -
  have "a / d \<le> b / d" using assms by (intro f64_div_mono f64_div_not_NaN)
  then show ?thesis by (cases "a / d"; cases "b / d") (auto intro!: fl_mono simp: inf_of_def)
qed

text \<open>The life-cycle percentage never leaves [0, 100] and never decreases as time passes, through
  every rounding of the float arithmetic and the saturation of \<open>Time.Sub\<close>; whether a percentage
  exists at all does not depend on the time.\<close>

theorem lifecycle_monotone:
  assumes "now \<le> now'"
  shows "0 \<le> fst (LifecyclePct m now) \<and> fst (LifecyclePct m now) \<le> fst (LifecyclePct m now')
    \<and> fst (LifecyclePct m now') \<le> fl 100 \<and> snd (LifecyclePct m now) = snd (LifecyclePct m now')"
proof (cases "IsZero (mk_StartDate m) \<or> IsZero (mk_EndDate m) \<or> mk_EndDate m \<le> mk_StartDate m")
  case True
  then show ?thesis by (simp add: LifecyclePct_clampf)
next
  case False
  let ?s = "mk_StartDate m" and ?total = "t_sub (mk_EndDate m) (mk_StartDate m)"
  let ?p = "\<lambda>n. of_i (t_sub n ?s) / of_i ?total * fl 100"
  have "1 \<le> ?total" using False by (auto simp: t_sub_def sat64_def)
  then have d: "0 < of_i ?total" by (rule of_i_pos)
  have le: "?p now \<le> ?p now'"
    using assms d by (intro div_times_mono of_i_mono t_sub_mono) simp_all
  then have "?p now \<noteq> NaN" "?p now' \<noteq> NaN" using f64_le_not_NaN by blast+
  then show ?thesis using False clampf_mono [OF le] clampf_range
    by (simp add: LifecyclePct_clampf)
qed

definition market_2024 :: Market where
  "market_2024 = \<lparr>mk_ID = ''m'', mk_Slug = '''', mk_Question = '''', mk_ConditionID = ''c'',
     mk_TokenIDs = [''t0'', ''t1''], mk_Outcomes = [''Yes'', ''No''], mk_Categories = [],
     mk_EventSlug = '''', mk_EventTitle = '''', mk_Active = True, mk_Closed = False,
     mk_StartDate = 0, mk_EndDate = 200 * Hour, mk_Volume = 0, mk_Volume24h = 0, mk_Liquidity = 0\<rparr>"

lemma lifecycle_monotone_witness:
  "LifecyclePct market_2024 (50 * Hour) = (fl 25, True)
   \<and> fst (LifecyclePct market_2024 (50 * Hour)) \<le> fst (LifecyclePct market_2024 (300 * Hour))
   \<and> fst (LifecyclePct market_2024 (300 * Hour)) = fl 100"
proof -
  have "(50 * Hour :: int) \<le> 300 * Hour" by simp
  from lifecycle_monotone [OF this, of market_2024]
  have "fst (LifecyclePct market_2024 (50 * Hour)) \<le> fst (LifecyclePct market_2024 (300 * Hour))" by blast
  moreover have "LifecyclePct market_2024 (50 * Hour) = (fl 25, True)" by code_simp
  moreover have "fst (LifecyclePct market_2024 (300 * Hour)) = fl 100" by code_simp
  ultimately show ?thesis by blast
qed

text \<open>\<open>OutcomeLabel\<close> returns the label at the first index of the token that has one.\<close>

lemma outcome_scan_Some:
  "outcome_scan token ts outs i \<noteq> '''' \<Longrightarrow>
   \<exists>j < length ts. ts ! j = token \<and> i + j < length outs \<and> outcome_scan token ts outs i = outs ! (i + j)"
proof (induction ts arbitrary: i)
  case (Cons t ts)
  show ?case
  proof (cases "t = token \<and> i < length outs")
    case False
    then have "outcome_scan token ts outs (Suc i) \<noteq> ''''" using Cons.prems by auto
    from Cons.IH [OF this] obtain j where "j < length ts" "ts ! j = token" "Suc i + j < length outs"
      "outcome_scan token ts outs (Suc i) = outs ! (Suc i + j)" by auto
    then show ?thesis using False by (intro exI [of _ "Suc j"]) simp
  qed (auto intro: exI [of _ 0])
qed simp

subsection \<open>Folding buckets\<close>

text \<open>\<open>lo\<close> and \<open>hi\<close> are the least and the greatest element of a non-empty list.\<close>

definition extrema :: "float64 \<Rightarrow> float64 \<Rightarrow> float64 list \<Rightarrow> bool" where
  "extrema lo hi xs \<longleftrightarrow> lo \<in> set xs \<and> hi \<in> set xs \<and> (\<forall>x \<in> set xs. lo \<le> x \<and> x \<le> hi)"

lemma extrema_append:
  assumes "extrema lo hi xs" "extrema l h ys"
  shows "extrema (if l < lo then l else lo) (if hi < h then h else hi) (xs @ ys)"
proof -
  have m: "lo \<in> set xs" "hi \<in> set xs" "l \<in> set ys" "h \<in> set ys"
    and b: "\<And>x. x \<in> set xs \<Longrightarrow> lo \<le> x \<and> x \<le> hi" "\<And>x. x \<in> set ys \<Longrightarrow> l \<le> x \<and> x \<le> h"
    using assms by (auto simp: extrema_def)
  have nn: "lo \<noteq> NaN" "hi \<noteq> NaN" "l \<noteq> NaN" "h \<noteq> NaN"
    using b(1) [OF m(1)] b(2) [OF m(3)] f64_le_not_NaN by blast+
  have L: "(if l < lo then l else lo) \<le> lo" "(if l < lo then l else lo) \<le> l"
    using nn by (auto simp: f64_not_less f64_less_imp_le)
  have H: "hi \<le> (if hi < h then h else hi)" "h \<le> (if hi < h then h else hi)"
    using nn by (auto simp: f64_not_less f64_less_imp_le)
  have "(if l < lo then l else lo) \<le> x \<and> x \<le> (if hi < h then h else hi)" if "x \<in> set (xs @ ys)" for x
    using that b L H f64_le_trans by (metis Un_iff set_append)
  then show ?thesis using m by (simp add: extrema_def)
qed

lemma extrema_single: "x \<noteq> NaN \<Longrightarrow> extrema x x [x]"
  by (simp add: extrema_def)

lemma extrema_not_Nil: "extrema lo hi xs \<Longrightarrow> xs \<noteq> []"
  by (auto simp: extrema_def)

definition bucket_inv :: "Bucket \<Rightarrow> bool" where
  "bucket_inv b \<longleftrightarrow> bk_Count b = int (length (bk_sizes b)) \<and>
     (bk_sizes b \<noteq> [] \<longrightarrow> extrema (bk_SizeMin b) (bk_SizeMax b) (bk_sizes b))"

definition new_bucket :: "time \<Rightarrow> Bucket" where
  "new_bucket s = \<lparr>bk_Start = s, bk_Count = 0, bk_Notional = 0, bk_SizeSum = 0, bk_SizeSqr = 0,
     bk_SizeMin = 0, bk_SizeMax = 0, bk_sizes = []\<rparr>"

definition bucket_of :: "time \<Rightarrow> Trade list \<Rightarrow> Bucket" where
  "bucket_of s ts = foldl Add (new_bucket s) ts"

lemma Add_fields [simp]:
  "bk_Start (Add b t) = bk_Start b" "bk_sizes (Add b t) = bk_sizes b @ [td_Size t]"
  "bk_Count (Add b t) = i64 (bk_Count b + 1)"
  by (simp_all add: Add_def Let_def)

lemma Add_bucket_inv [wt_inv]:
  assumes "bucket_inv b" "td_Size t \<noteq> NaN" "length (bk_sizes b) + 1 < 2 ^ 63"
  shows "bucket_inv (Add b t)"
proof -
  have c: "bk_Count (Add b t) = int (length (bk_sizes (Add b t)))"
    using assms by (simp add: bucket_inv_def i64_id)
  have "extrema (bk_SizeMin (Add b t)) (bk_SizeMax (Add b t)) (bk_sizes b @ [td_Size t])"
  proof (cases "bk_sizes b = []")
    case True
    then show ?thesis using assms by (simp add: bucket_inv_def Add_def Let_def extrema_single)
  next
    case False
    then have e: "extrema (bk_SizeMin b) (bk_SizeMax b) (bk_sizes b)" and c: "bk_Count b \<noteq> 0"
      using assms(1) by (auto simp: bucket_inv_def)
    show ?thesis
      using extrema_append [OF e extrema_single [OF assms(2)]] c
      by (auto simp: Add_def Let_def split: if_splits)
  qed
  with c show ?thesis by (simp add: bucket_inv_def)
qed

lemma bucket_of_snoc: "bucket_of s (ts @ [t]) = Add (bucket_of s ts) t"
  by (simp add: bucket_of_def)

lemma bucket_of_fields [simp]:
  "bk_Start (bucket_of s ts) = s" "bk_sizes (bucket_of s ts) = map td_Size ts"
  by (induction ts rule: rev_induct) (simp_all add: bucket_of_snoc, simp_all add: bucket_of_def new_bucket_def)

lemma bucket_of_inv:
  "length ts < 2 ^ 63 \<Longrightarrow> (\<forall>t \<in> set ts. td_Size t \<noteq> NaN) \<Longrightarrow> bucket_inv (bucket_of s ts)"
proof (induction ts rule: rev_induct)
  case Nil
  then show ?case by (simp add: bucket_of_def new_bucket_def bucket_inv_def)
next
  case (snoc t ts)
  then show ?case by (simp add: bucket_of_snoc) (intro Add_bucket_inv; simp)
qed

text \<open>What the loop keeps: the window describes exactly the sizes collected.\<close>

definition fold_inv :: "Window \<times> float64 list \<Rightarrow> bool" where
  "fold_inv a \<longleftrightarrow> wn_Count (fst a) = int (length (snd a)) \<and>
     (snd a \<noteq> [] \<longrightarrow> extrema (wn_SizeMin (fst a)) (wn_SizeMax (fst a)) (snd a))"

definition in_span :: "time \<Rightarrow> time \<Rightarrow> Bucket \<Rightarrow> bool" where
  "in_span start end b \<longleftrightarrow> start \<le> bk_Start b \<and> bk_Start b < end"

lemma fold_step_sizes:
  assumes "bucket_inv b"
  shows "snd (fold_step start end a b) = snd a @ (if in_span start end b then bk_sizes b else [])"
  using assms by (cases a) (auto simp: fold_step_def Let_def in_span_def bucket_inv_def)

lemma fold_step_inv:
  assumes "fold_inv a" "bucket_inv b" "length (snd a) + length (bk_sizes b) < 2 ^ 63"
  shows "fold_inv (fold_step start end a b)"
proof (cases "bk_Count b = 0 \<or> \<not> in_span start end b")
  case True
  then show ?thesis using assms(1) by (cases a) (auto simp: fold_step_def in_span_def)
next
  case False
  obtain w sizes where a: "a = (w, sizes)" by (cases a)
  have b: "extrema (bk_SizeMin b) (bk_SizeMax b) (bk_sizes b)" "bk_Count b = int (length (bk_sizes b))"
    using assms(2) False by (auto simp: bucket_inv_def)
  have i: "i64 (wn_Count w + bk_Count b) = int (length sizes + length (bk_sizes b))"
    using assms(1,3) b(2) a by (simp add: fold_inv_def i64_id)
  have e: "sizes \<noteq> [] \<Longrightarrow> extrema (wn_SizeMin w) (wn_SizeMax w) sizes"
    using assms(1) a by (simp add: fold_inv_def)
  show ?thesis
    using False extrema_append [OF e b(1)] b i extrema_not_Nil [OF b(1)]
    by (auto simp: a fold_step_def fold_inv_def in_span_def Let_def)
qed

lemma fold_buckets_inv:
  "\<forall>b \<in> set bs. bucket_inv b \<Longrightarrow> length (concat (map bk_sizes bs)) < 2 ^ 63 \<Longrightarrow>
   fold_inv (foldl (fold_step start end) (w0, []) bs) \<and>
   snd (foldl (fold_step start end) (w0, []) bs) = concat (map bk_sizes (filter (in_span start end) bs))"
  if "wn_Count w0 = 0"
proof (induction bs rule: rev_induct)
  case Nil
  then show ?case using that by (simp add: fold_inv_def)
next
  case (snoc b bs)
  let ?a = "foldl (fold_step start end) (w0, []) bs"
  have IH: "fold_inv ?a" "snd ?a = concat (map bk_sizes (filter (in_span start end) bs))"
    using snoc by auto
  have "length (concat (map bk_sizes (filter P bs))) \<le> length (concat (map bk_sizes bs))" for P
    by (induction bs) auto
  then have "length (snd ?a) + length (bk_sizes b) \<le> length (concat (map bk_sizes (bs @ [b])))"
    unfolding IH(2) by simp
  then have "length (snd ?a) + length (bk_sizes b) < 2 ^ 63"
    using snoc.prems(2) by (rule le_less_trans)
  then show ?case using IH snoc.prems fold_step_inv [OF IH(1)]
    by (simp add: fold_step_sizes)
qed

lemma FoldBuckets_fields:
  "wn_Count (FoldBuckets bs start end) = wn_Count (fst (foldl (fold_step start end) (w0, []) bs))"
  "wn_SizeMin (FoldBuckets bs start end) = wn_SizeMin (fst (foldl (fold_step start end) (w0, []) bs))"
  "wn_SizeMax (FoldBuckets bs start end) = wn_SizeMax (fst (foldl (fold_step start end) (w0, []) bs))"
  "snd (foldl (fold_step start end) (w0, []) bs) \<noteq> [] \<Longrightarrow> wn_SizeMedian (FoldBuckets bs start end)
     = median_of (snd (foldl (fold_step start end) (w0, []) bs))"
  if "w0 = \<lparr>wn_Start = start, wn_End = end, wn_Count = 0, wn_Notional = 0, wn_SizeSum = 0,
                wn_SizeMin = 0, wn_SizeMax = 0, wn_SizeMedian = 0\<rparr>"
  unfolding FoldBuckets_def Let_def that [symmetric]
  by (cases "foldl (fold_step start end) (w0, []) bs"; simp)+

text \<open>Folding the buckets of \<open>Bucket.Add\<close> gives the window of the trades themselves: for the buckets
  that start in \<open>[start, end)\<close> the count is the number of their trades, the minimum and maximum are
  the extreme sizes and the median is the median of all sizes; the other buckets contribute
  nothing. Sizes are not NaN and fewer than \<open>2^63\<close> in number (\<open>Count\<close> is an \<open>int64\<close>).\<close>

theorem FoldBuckets_trades:
  assumes "\<forall>(s, ts) \<in> set bs. \<forall>t \<in> set ts. td_Size t \<noteq> NaN"
    and "length (concat (map snd bs)) < 2 ^ 63"
  shows "let ts = concat (map snd (filter (\<lambda>(s, _). start \<le> s \<and> s < end) bs));
             w = FoldBuckets (map (\<lambda>(s, ts). bucket_of s ts) bs) start end
         in wn_Count w = int (length ts) \<and>
            (ts \<noteq> [] \<longrightarrow> extrema (wn_SizeMin w) (wn_SizeMax w) (map td_Size ts)
              \<and> wn_SizeMedian w = median_of (map td_Size ts))"
proof -
  let ?B = "map (\<lambda>(s, ts). bucket_of s ts) bs"
  let ?ts = "concat (map snd (filter (\<lambda>(s, _). start \<le> s \<and> s < end) bs))"
  define w0 where "w0 = \<lparr>wn_Start = start, wn_End = end, wn_Count = 0, wn_Notional = 0, wn_SizeSum = 0,
                wn_SizeMin = 0, wn_SizeMax = 0, wn_SizeMedian = 0\<rparr>"
  have c: "concat (map bk_sizes ?B) = map td_Size (concat (map snd bs))"
    by (induction bs) auto
  have f: "concat (map bk_sizes (filter (in_span start end) ?B)) = map td_Size ?ts"
    by (induction bs) (auto simp: in_span_def)
  have "length ts \<le> length (concat (map snd bs))" if "(s, ts) \<in> set bs" for s ts
    using that by (induction bs) auto
  then have "\<forall>b \<in> set ?B. bucket_inv b"
    using assms by (auto intro!: bucket_of_inv) (meson le_less_trans)
  then have inv: "fold_inv (foldl (fold_step start end) (w0, []) ?B)"
      "snd (foldl (fold_step start end) (w0, []) ?B) = map td_Size ?ts"
    using fold_buckets_inv [of w0 ?B start "end"] assms(2) unfolding c f length_map
    by (simp_all add: w0_def)
  show ?thesis
    using inv FoldBuckets_fields [OF w0_def] by (simp add: fold_inv_def Let_def)
qed

definition sized :: "float64 \<Rightarrow> Trade" where
  "sized s = \<lparr>td_ID = '''', td_Market = '''', td_Token = '''', td_Side = ''BUY'', td_Price = fl 0.5,
     td_Size = s, td_Timestamp = 0, td_TxHash = '''', td_Taker = '''', td_Maker = ''''\<rparr>"

lemma FoldBuckets_trades_witness:
  "let w = FoldBuckets (map (\<lambda>(s, ts). bucket_of s ts)
             [(0, [sized (fl 9)]), (60, [sized (fl 4), sized (fl 2)]), (120, [sized (fl 7)])]) 60 180
   in wn_Count w = 3 \<and> extrema (wn_SizeMin w) (wn_SizeMax w) [fl 4, fl 2, fl 7]
     \<and> wn_SizeMedian w = median_of [fl 4, fl 2, fl 7]"
proof -
  let ?bs = "[(0, [sized (fl 9)]), (60, [sized (fl 4), sized (fl 2)]), (120, [sized (fl 7)])]"
  have h: "\<forall>(s :: time, ts) \<in> set ?bs. \<forall>t \<in> set ts. td_Size t \<noteq> NaN"
    "length (concat (map snd ?bs)) < 2 ^ 63" by (simp_all add: sized_def)
  show ?thesis using FoldBuckets_trades [OF h, of 60 180] by (simp add: Let_def sized_def)
qed

end
