(* ===== verification/Baseline.thy ===== *)
theory Baseline
  imports Market
begin

text \<open>
  Package baseline (\<open>internal/app/usecase/analytics/baseline/baseline.go\<close>): one ring buffer of trade
  notionals per (category, market, outcome), its statistics and the nearest-rank percentile. The
  clock is an argument. A ring is shown to hold the last \<open>MaxSamples\<close> samples in the order of
  their arrival, so \<open>Stats\<close> is a function of that list.
\<close>

subsection \<open>State\<close>

record Key =
  ky_Category :: int
  ky_Market :: string
  ky_OutcomeToken :: string

record Stats =
  st_Count :: int
  st_MeanUSD :: float64
  st_MedianUSD :: float64
  st_P95USD :: float64
  st_P99USD :: float64
  st_TotalUSD :: float64
  st_SpanActual :: duration
  st_OldestAt :: time

definition no_stats :: Stats where
  "no_stats = \<lparr>st_Count = 0, st_MeanUSD = 0, st_MedianUSD = 0, st_P95USD = 0, st_P99USD = 0,
     st_TotalUSD = 0, st_SpanActual = 0, st_OldestAt = zero_time\<rparr>"

record sample =
  sm_notional :: float64
  sm_at :: time

record ring =
  rg_buf :: "sample list"
  rg_head :: nat
  rg_size :: nat
  rg_sum :: float64

record bl_Config =
  bc_Window :: duration
  bc_MaxSamples :: int

record Baseline =
  bl_cfg :: bl_Config
  bl_buckets :: "Key \<rightharpoonup> ring"

subsection \<open>Operations\<close>

definition defaultMaxSamples :: int where "defaultMaxSamples = 1024"

definition bl_New :: "bl_Config \<Rightarrow> Baseline" where
  "bl_New cfg =
     (let cfg = (if bc_MaxSamples cfg \<le> 0 then cfg\<lparr>bc_MaxSamples := defaultMaxSamples\<rparr> else cfg);
          cfg = (if bc_Window cfg < 0 then cfg\<lparr>bc_Window := 0\<rparr> else cfg)
      in \<lparr>bl_cfg = cfg, bl_buckets = Map.empty\<rparr>)"

definition push :: "ring \<Rightarrow> sample \<Rightarrow> ring" where
  "push r s = (let cap = length (rg_buf r) in
     if rg_size r < cap
     then let idx = (rg_head r + rg_size r) mod cap
       in r\<lparr>rg_buf := (rg_buf r)[idx := s], rg_size := rg_size r + 1, rg_sum := rg_sum r + sm_notional s\<rparr>
     else let r = r\<lparr>rg_sum := rg_sum r - sm_notional (rg_buf r ! rg_head r)\<rparr>;
              r = r\<lparr>rg_buf := (rg_buf r)[rg_head r := s]\<rparr>;
              r = r\<lparr>rg_head := (rg_head r + 1) mod cap\<rparr>
       in r\<lparr>rg_sum := rg_sum r + sm_notional s\<rparr>)"

function trim :: "ring \<Rightarrow> time \<Rightarrow> ring" where
  "trim r cutoff =
     (if rg_size r = 0 then r
      else let s = rg_buf r ! rg_head r in
        if \<not> sm_at s < cutoff then r
        else trim (r\<lparr>rg_sum := rg_sum r - sm_notional s,
                     rg_head := (rg_head r + 1) mod length (rg_buf r),
                     rg_size := rg_size r - 1\<rparr>) cutoff)"
  by pat_completeness auto

termination trim
  by (relation "measure (\<lambda>(r, _). rg_size r)") auto

declare trim.simps [simp del]

definition percentile :: "float64 list \<Rightarrow> float64 \<Rightarrow> float64" where
  "percentile xs p =
     (if xs = [] then 0
      else if p \<le> 0 then xs ! 0
      else if 1 \<le> p then xs ! (length xs - 1)
      else let rank = f2i (of_i (int (length xs)) * p + fl 0.5);
               rank = (if rank < 1 then 1 else rank);
               rank = (if int (length xs) < rank then int (length xs) else rank)
        in xs ! nat (rank - 1))"

definition bl_Add :: "Baseline \<Rightarrow> Key \<Rightarrow> float64 \<Rightarrow> time \<Rightarrow> Baseline" where
  "bl_Add b k notionalUSD atime =
     (if notionalUSD \<le> 0 then b
      else let r = (case bl_buckets b k of
              None \<Rightarrow> \<lparr>rg_buf = replicate (nat (bc_MaxSamples (bl_cfg b)))
                                  \<lparr>sm_notional = 0, sm_at = zero_time\<rparr>,
                       rg_head = 0, rg_size = 0, rg_sum = 0\<rparr>
            | Some r \<Rightarrow> r)
        in b\<lparr>bl_buckets := (bl_buckets b)(k \<mapsto> push r \<lparr>sm_notional = notionalUSD, sm_at = atime\<rparr>)\<rparr>)"

text \<open>The scan of the live samples, oldest first, for the oldest and the newest time.\<close>

definition ring_at :: "ring \<Rightarrow> nat \<Rightarrow> sample" where
  "ring_at r i = rg_buf r ! ((rg_head r + i) mod length (rg_buf r))"

definition span_step :: "ring \<Rightarrow> time \<times> time \<Rightarrow> nat \<Rightarrow> time \<times> time" where
  "span_step r on i = (let s = ring_at r i in
     (if i = 0 \<or> sm_at s < fst on then sm_at s else fst on,
      if i = 0 \<or> snd on < sm_at s then sm_at s else snd on))"

definition ring_stats :: "ring \<Rightarrow> Stats" where
  "ring_stats r =
     (let notionals = fsort (map (\<lambda>i. sm_notional (ring_at r i)) [0..<rg_size r]);
          (oldest, newest) = foldl (span_step r) (zero_time, zero_time) [0..<rg_size r];
          mean = rg_sum r / of_i (int (rg_size r))
      in \<lparr>st_Count = int (rg_size r), st_MeanUSD = mean,
          st_MedianUSD = percentile notionals (fl 0.5),
          st_P95USD = percentile notionals (fl 0.95),
          st_P99USD = percentile notionals (fl 0.99),
          st_TotalUSD = rg_sum r, st_SpanActual = t_sub newest oldest, st_OldestAt = oldest\<rparr>)"

definition bl_Stats :: "Baseline \<Rightarrow> time \<Rightarrow> Key \<Rightarrow> Baseline \<times> Stats" where
  "bl_Stats b now k =
     (case bl_buckets b k of
        None \<Rightarrow> (b, no_stats)
      | Some r \<Rightarrow>
          let r = (if 0 < bc_Window (bl_cfg b) then trim r (now - bc_Window (bl_cfg b)) else r);
              b = b\<lparr>bl_buckets := (bl_buckets b)(k \<mapsto> r)\<rparr>
          in if rg_size r = 0 then (b, no_stats) else (b, ring_stats r))"

definition ring_snapshot :: "ring \<Rightarrow> float64 list" where
  "ring_snapshot r = map (\<lambda>i. sm_notional (ring_at r i)) [0..<rg_size r]"

subsection \<open>Bounded buffers\<close>

definition last_n :: "nat \<Rightarrow> 'a list \<Rightarrow> 'a list" where
  "last_n n xs = drop (length xs - n) xs"

lemma length_last_n [simp]: "length (last_n n xs) = min n (length xs)"
  by (simp add: last_n_def)

lemma last_n_snoc: "last_n n (last_n n xs @ [x]) = last_n n (xs @ [x])"
proof (cases "length xs \<le> n")
  case False
  then have "n = Suc m \<Longrightarrow> Suc (length xs - Suc m) = length xs - m" for m by simp
  then show ?thesis using False by (cases n) (simp_all add: last_n_def)
qed (simp add: last_n_def)

lemma set_last_n: "set (last_n n xs) \<subseteq> set xs"
  by (simp add: last_n_def set_drop_subset)

text \<open>
  What \<open>Stats\<close> relies on in a buffer: the contents are the samples pushed, at most \<open>cap\<close> of them,
  the oldest given up first; trimming removes the old samples at the front.
\<close>

locale bounded_buffer =
  fixes wf :: "'r \<Rightarrow> bool"
    and cap :: "'r \<Rightarrow> nat"
    and contents :: "'r \<Rightarrow> 'a list"
    and push :: "'r \<Rightarrow> 'a \<Rightarrow> 'r"
    and trim :: "'r \<Rightarrow> 'c \<Rightarrow> 'r"
    and old :: "'c \<Rightarrow> 'a \<Rightarrow> bool"
  assumes bound: "wf r \<Longrightarrow> length (contents r) \<le> cap r"
    and push_wf: "wf r \<Longrightarrow> wf (push r s)"
    and push_cap: "wf r \<Longrightarrow> cap (push r s) = cap r"
    and push_contents: "wf r \<Longrightarrow> contents (push r s) = last_n (cap r) (contents r @ [s])"
    and trim_wf: "wf r \<Longrightarrow> wf (trim r c)"
    and trim_cap: "wf r \<Longrightarrow> cap (trim r c) = cap r"
    and trim_contents: "wf r \<Longrightarrow> contents (trim r c) = dropWhile (old c) (contents r)"
begin

lemma pushes:
  "wf r \<Longrightarrow> contents r = last_n (cap r) xs \<Longrightarrow>
   wf (foldl push r ys) \<and> cap (foldl push r ys) = cap r
   \<and> contents (foldl push r ys) = last_n (cap r) (xs @ ys)"
proof (induction ys rule: rev_induct)
  case (snoc y ys)
  then show ?case
    by (simp add: push_wf push_cap push_contents last_n_snoc flip: append_assoc)
qed simp

end

subsection \<open>The ring is a bounded buffer\<close>

definition ring_wf :: "ring \<Rightarrow> bool" where
  "ring_wf r \<longleftrightarrow> rg_head r < length (rg_buf r) \<and> rg_size r \<le> length (rg_buf r)"

definition ring_list :: "ring \<Rightarrow> sample list" where
  "ring_list r = map (ring_at r) [0..<rg_size r]"

lemma mod_add_inj:
  assumes "(h + i) mod n = (h + j) mod n" "i < n" "j < (n :: nat)"
  shows "i = j"
proof -
  have False if ij: "i < j" "(h + i) mod n = (h + j) mod n" "j < n" for i j
  proof -
    have "n dvd (h + j) - (h + i)" using ij mod_eq_dvd_iff_nat [of "h + i" "h + j" n] by auto
    then have "n \<le> j - i" using ij by (auto dest: dvd_imp_le)
    then show False using ij by simp
  qed
  then show ?thesis using assms by (metis linorder_neqE_nat)
qed

lemma mod_Suc_add: "(Suc h mod n + i) mod n = Suc (h + i) mod n"
  by (metis add_Suc mod_add_left_eq)

lemma ring_wf_pos: "ring_wf r \<Longrightarrow> 0 < length (rg_buf r)"
  by (auto simp: ring_wf_def)

lemma push_list:
  assumes "ring_wf r"
  shows "ring_list (push r s) = last_n (length (rg_buf r)) (ring_list r @ [s])"
proof (cases "rg_size r < length (rg_buf r)")
  case True
  let ?n = "length (rg_buf r)" and ?idx = "(rg_head r + rg_size r) mod length (rg_buf r)"
  have idx: "?idx < ?n" using ring_wf_pos [OF assms] by simp
  have "ring_at (push r s) i = ring_at r i" if "i < rg_size r" for i
  proof -
    have "(rg_head r + i) mod ?n \<noteq> ?idx"
      using that True mod_add_inj [of "rg_head r" i ?n "rg_size r"] by auto
    then show ?thesis using True by (simp add: ring_at_def push_def Let_def nth_list_update_neq)
  qed
  moreover have "ring_at (push r s) (rg_size r) = s"
    using True idx by (simp add: ring_at_def push_def Let_def)
  moreover have "rg_size (push r s) = Suc (rg_size r)" using True by (simp add: push_def Let_def)
  ultimately have "ring_list (push r s) = ring_list r @ [s]" by (simp add: ring_list_def)
  then show ?thesis using True by (simp add: last_n_def ring_list_def)
next
  case False
  let ?n = "length (rg_buf r)" and ?h = "rg_head r"
  have full: "rg_size r = ?n" and h: "?h < ?n" using assms False by (auto simp: ring_wf_def)
  have p: "rg_size (push r s) = ?n" "rg_buf (push r s) = (rg_buf r)[?h := s]"
    "rg_head (push r s) = (?h + 1) mod ?n"
    using False full by (simp_all add: push_def Let_def)
  have ix: "(Suc ?h mod ?n + i) mod ?n = Suc (?h + i) mod ?n" for i
    by (rule mod_Suc_add)
  show ?thesis
  proof (rule nth_equalityI)
    show "length (ring_list (push r s)) = length (last_n ?n (ring_list r @ [s]))"
      by (simp add: ring_list_def p full)
  next
    fix i assume "i < length (ring_list (push r s))"
    then have i: "i < ?n" by (simp add: ring_list_def p)
    have lhs: "ring_list (push r s) ! i = (rg_buf r)[?h := s] ! ((?h + Suc i) mod ?n)"
      using i by (simp add: ring_list_def ring_at_def p ix)
    have rhs: "last_n ?n (ring_list r @ [s]) ! i = (ring_list r @ [s]) ! Suc i"
      using i unfolding last_n_def by (simp add: ring_list_def full del: drop_append)
    show "ring_list (push r s) ! i = last_n ?n (ring_list r @ [s]) ! i"
    proof (cases "Suc i = ?n")
      case True
      then show ?thesis unfolding lhs rhs using h by (simp add: nth_append ring_list_def full)
    next
      case False
      then have j: "Suc i < ?n" using i by simp
      have "(?h + Suc i) mod ?n \<noteq> ?h"
      proof
        assume "(?h + Suc i) mod ?n = ?h"
        then have "(?h + Suc i) mod ?n = (?h + 0) mod ?n" using h by simp
        moreover have "0 < ?n" using h by (cases "rg_buf r") auto
        ultimately show False using mod_add_inj [OF _ j, of ?h 0] by blast
      qed
      then show ?thesis unfolding lhs rhs using j by (simp add: nth_append ring_list_def full ring_at_def)
    qed
  qed
qed

lemma push_wf: "ring_wf r \<Longrightarrow> ring_wf (push r s) \<and> length (rg_buf (push r s)) = length (rg_buf r)"
  by (auto simp: ring_wf_def push_def Let_def intro!: mod_less_divisor)

lemma ring_list_pop:
  assumes "ring_wf r" "rg_size r \<noteq> 0"
  shows "ring_list r = rg_buf r ! rg_head r # ring_list (r\<lparr>rg_sum := x,
    rg_head := (rg_head r + 1) mod length (rg_buf r), rg_size := rg_size r - 1\<rparr>)"
proof -
  let ?s = "rg_buf r ! rg_head r"
  let ?r = "r\<lparr>rg_sum := x, rg_head := (rg_head r + 1) mod length (rg_buf r), rg_size := rg_size r - 1\<rparr>"
  have h: "rg_head r < length (rg_buf r)" using assms(1) by (simp add: ring_wf_def)
  have nx: "ring_at r 0 = ?s" "ring_at ?r i = ring_at r (Suc i)" for i
    using h by (simp_all add: ring_at_def mod_Suc_add)
  have "[0..<rg_size r] = 0 # map Suc [0..<rg_size r - 1]"
    using assms(2) by (cases "rg_size r") (simp_all add: upt_conv_Cons map_Suc_upt del: upt_Suc)
  then have "ring_list r = map (ring_at r) (0 # map Suc [0..<rg_size r - 1])"
    unfolding ring_list_def by (rule arg_cong)
  also have "\<dots> = ?s # map (\<lambda>i. ring_at ?r i) [0..<rg_size r - 1]"
    by (simp only: list.map nx(1) list.map_comp comp_def nx(2))
  finally show ?thesis by (simp add: ring_list_def)
qed

lemma trim_list:
  "ring_wf r \<Longrightarrow> ring_wf (trim r c) \<and> length (rg_buf (trim r c)) = length (rg_buf r)
     \<and> ring_list (trim r c) = dropWhile (\<lambda>s. sm_at s < c) (ring_list r)"
proof (induction r c rule: trim.induct)
  case (1 r c)
  show ?case
  proof (cases "rg_size r = 0")
    case True
    then show ?thesis using 1(2) by (simp add: trim.simps [of r] ring_list_def)
  next
    case False
    let ?s = "rg_buf r ! rg_head r"
    let ?r = "r\<lparr>rg_sum := rg_sum r - sm_notional ?s, rg_head := (rg_head r + 1) mod length (rg_buf r),
               rg_size := rg_size r - 1\<rparr>"
    have h: "rg_head r < length (rg_buf r)" using 1(2) by (simp add: ring_wf_def)
    have l: "ring_list r = ?s # ring_list ?r" by (rule ring_list_pop [OF 1(2) False])
    show ?thesis
    proof (cases "sm_at ?s < c")
      case True
      have "ring_wf ?r" using 1(2) h ring_wf_pos [OF 1(2)] by (auto simp: ring_wf_def)
      then show ?thesis using 1(1) [OF False refl] True l False
        by (simp add: trim.simps [of r] Let_def)
    next
      case no: False
      then show ?thesis using 1(2) l False by (simp add: trim.simps [of r] Let_def)
    qed
  qed
qed

interpretation ring_buf: bounded_buffer ring_wf "\<lambda>r. length (rg_buf r)" ring_list push trim
  "\<lambda>c s. sm_at s < c"
  by unfold_locales (simp_all add: push_wf push_list trim_list, simp add: ring_list_def ring_wf_def)

subsection \<open>The baseline against its specification\<close>

text \<open>The calls a baseline serves, in the order the mutex lets them through.\<close>

datatype bl_call = CAdd Key float64 time | CStats time Key

fun bl_step :: "Baseline \<Rightarrow> bl_call \<Rightarrow> Baseline" where
  "bl_step b (CAdd k n t) = bl_Add b k n t"
| "bl_step b (CStats now k) = fst (bl_Stats b now k)"

definition bl_run :: "bl_Config \<Rightarrow> bl_call list \<Rightarrow> Baseline" where
  "bl_run cfg calls = foldl bl_step (bl_New cfg) calls"

text \<open>
  The specification: per key the list of live samples. An addition of a positive notional appends
  it and keeps the last \<open>MaxSamples\<close>; a read drops the samples that are too old from the front.
\<close>

definition spec_trim :: "bl_Config \<Rightarrow> time \<Rightarrow> sample list \<Rightarrow> sample list" where
  "spec_trim cfg now l = (if 0 < bc_Window cfg then dropWhile (\<lambda>s. sm_at s < now - bc_Window cfg) l else l)"

fun spec_step :: "bl_Config \<Rightarrow> (Key \<Rightarrow> sample list) \<Rightarrow> bl_call \<Rightarrow> (Key \<Rightarrow> sample list)" where
  "spec_step cfg a (CAdd k n t) = (if n \<le> 0 then a
     else a(k := last_n (nat (bc_MaxSamples cfg)) (a k @ [\<lparr>sm_notional = n, sm_at = t\<rparr>])))"
| "spec_step cfg a (CStats now k) = a(k := spec_trim cfg now (a k))"

definition spec_run :: "bl_Config \<Rightarrow> bl_call list \<Rightarrow> Key \<Rightarrow> sample list" where
  "spec_run cfg calls = foldl (spec_step cfg) (\<lambda>_. []) calls"

definition bl_abs :: "Baseline \<Rightarrow> Key \<Rightarrow> sample list" where
  "bl_abs b k = (case bl_buckets b k of None \<Rightarrow> [] | Some r \<Rightarrow> ring_list r)"

definition bl_inv :: "bl_Config \<Rightarrow> Baseline \<Rightarrow> bool" where
  "bl_inv cfg b \<longleftrightarrow> bl_cfg b = cfg \<and> 0 < bc_MaxSamples cfg \<and>
     (\<forall>k r. bl_buckets b k = Some r \<longrightarrow> ring_wf r \<and> length (rg_buf r) = nat (bc_MaxSamples cfg))"

lemma ring_list_length: "ring_list r = [] \<longleftrightarrow> rg_size r = 0" "length (ring_list r) = rg_size r"
  by (simp_all add: ring_list_def)

lemma bl_New_inv: "bl_inv (bl_cfg (bl_New cfg)) (bl_New cfg)" "bl_abs (bl_New cfg) = (\<lambda>_. [])"
  by (auto simp: bl_inv_def bl_New_def bl_abs_def Let_def defaultMaxSamples_def)

lemma bl_Add_sim [wt_inv]:
  assumes "bl_inv cfg b"
  shows "bl_inv cfg (bl_Add b k n t) \<and> bl_abs (bl_Add b k n t) = spec_step cfg (bl_abs b) (CAdd k n t)"
proof -
  let ?new = "\<lparr>rg_buf = replicate (nat (bc_MaxSamples cfg)) \<lparr>sm_notional = 0, sm_at = zero_time\<rparr>,
     rg_head = 0, rg_size = 0, rg_sum = 0\<rparr>"
  have c: "bl_cfg b = cfg" and m: "0 < bc_MaxSamples cfg" using assms by (auto simp: bl_inv_def)
  define r where "r = (case bl_buckets b k of None \<Rightarrow> ?new | Some r \<Rightarrow> r)"
  have r: "ring_wf r" "length (rg_buf r) = nat (bc_MaxSamples cfg)" "ring_list r = bl_abs b k"
  proof -
    have "ring_wf ?new" using m by (simp add: ring_wf_def)
    then show "ring_wf r" using assms by (auto simp: r_def bl_inv_def split: option.split)
    show "length (rg_buf r) = nat (bc_MaxSamples cfg)"
      using assms by (auto simp: r_def bl_inv_def split: option.split)
    show "ring_list r = bl_abs b k"
      by (simp add: r_def bl_abs_def ring_list_def split: option.split)
  qed
  have "bl_Add b k n t = (if n \<le> 0 then b
      else b\<lparr>bl_buckets := (bl_buckets b)(k \<mapsto> push r \<lparr>sm_notional = n, sm_at = t\<rparr>)\<rparr>)"
    unfolding bl_Add_def r_def c Let_def ..
  then show ?thesis
    using assms r ring_buf.push_wf [OF r(1)] ring_buf.push_cap [OF r(1)] ring_buf.push_contents [OF r(1)]
    by (auto simp: bl_inv_def bl_abs_def fun_eq_iff)
qed

lemma bl_Stats_sim [wt_inv]:
  assumes "bl_inv cfg b"
  shows "bl_inv cfg (fst (bl_Stats b now k))
    \<and> bl_abs (fst (bl_Stats b now k)) = spec_step cfg (bl_abs b) (CStats now k)"
proof (cases "bl_buckets b k")
  case None
  then show ?thesis using assms by (auto simp: bl_Stats_def bl_abs_def spec_trim_def fun_eq_iff)
next
  case (Some r)
  have c: "bl_cfg b = cfg" and r: "ring_wf r" "length (rg_buf r) = nat (bc_MaxSamples cfg)"
    using assms Some by (auto simp: bl_inv_def)
  show ?thesis
    using assms Some c r trim_list [OF r(1), of "now - bc_Window cfg"]
    by (auto simp: bl_Stats_def bl_abs_def bl_inv_def spec_trim_def fun_eq_iff Let_def)
qed

lemma bl_step_sim:
  assumes "bl_inv cfg b"
  shows "bl_inv cfg (bl_step b c) \<and> bl_abs (bl_step b c) = spec_step cfg (bl_abs b) c"
proof (cases c)
  case (CAdd k n t)
  then show ?thesis using bl_Add_sim [OF assms, of k n t] by simp
next
  case (CStats now k)
  then show ?thesis using bl_Stats_sim [OF assms, of now k] by simp
qed

lemma bl_run_sim:
  "bl_inv (bl_cfg (bl_New cfg)) (bl_run cfg calls)
   \<and> bl_abs (bl_run cfg calls) = spec_run (bl_cfg (bl_New cfg)) calls"
proof (induction calls rule: rev_induct)
  case Nil
  then show ?case using bl_New_inv by (simp add: bl_run_def spec_run_def)
next
  case (snoc c calls)
  then show ?case
    using bl_step_sim [of "bl_cfg (bl_New cfg)" "bl_run cfg calls" c]
    by (simp add: bl_run_def spec_run_def)
qed

lemma span_step_range:
  "foldl (span_step r) z [0..<Suc n] =
     (Min ((\<lambda>i. sm_at (ring_at r i)) ` {..n}), Max ((\<lambda>i. sm_at (ring_at r i)) ` {..n}))"
proof (induction n)
  case 0
  then show ?case by (simp add: span_step_def Let_def)
next
  case (Suc n)
  have s: "foldl (span_step r) z [0..<Suc (Suc n)] = span_step r (foldl (span_step r) z [0..<Suc n]) (Suc n)"
    by simp
  let ?f = "\<lambda>i. sm_at (ring_at r i)"
  have mm: "Min (?f ` {..Suc n}) = min (?f (Suc n)) (Min (?f ` {..n}))"
    "Max (?f ` {..Suc n}) = max (?f (Suc n)) (Max (?f ` {..n}))" by (simp_all add: atMost_Suc)
  have sel: "(if x < m then x else m) = min x m" "(if m < x then x else m) = max x m" for x m :: int
    by auto
  show ?case unfolding s Suc unfolding span_step_def Let_def fst_conv snd_conv
    by (simp only: nat.distinct simp_thms sel mm)
qed

text \<open>The part of \<open>Stats\<close> that does not read the running sum.\<close>

definition order_stats :: "Stats \<Rightarrow> int \<times> float64 \<times> float64 \<times> float64 \<times> duration \<times> time" where
  "order_stats s = (st_Count s, st_MedianUSD s, st_P95USD s, st_P99USD s, st_SpanActual s, st_OldestAt s)"

definition order_stats_of :: "sample list \<Rightarrow> int \<times> float64 \<times> float64 \<times> float64 \<times> duration \<times> time" where
  "order_stats_of l = (if l = [] then (0, 0, 0, 0, 0, zero_time)
     else let v = fsort (map sm_notional l); T = sm_at ` set l
       in (int (length l), percentile v (fl 0.5), percentile v (fl 0.95), percentile v (fl 0.99),
           t_sub (Max T) (Min T), Min T))"

lemma ring_stats_order: "0 < rg_size r \<Longrightarrow> order_stats (ring_stats r) = order_stats_of (ring_list r)"
proof -
  assume s: "0 < rg_size r"
  then obtain n where n: "rg_size r = Suc n" by (cases "rg_size r") auto
  have "set (ring_list r) = ring_at r ` {..n}"
    by (simp add: ring_list_def n atLeast0LessThan lessThan_Suc_atMost del: upt_Suc)
  then have T: "sm_at ` set (ring_list r) = (\<lambda>i. sm_at (ring_at r i)) ` {..n}" by (simp add: image_comp)
  have "ring_list r \<noteq> []" using s by (simp add: ring_list_length)
  moreover have "map (\<lambda>i. sm_notional (ring_at r i)) [0..<rg_size r] = map sm_notional (ring_list r)"
    by (simp add: ring_list_def comp_def)
  ultimately show ?thesis
    by (simp add: order_stats_def order_stats_of_def ring_stats_def T n span_step_range Let_def
        ring_list_length del: upt_Suc)
qed

lemma Stats_order_stats:
  "order_stats (snd (bl_Stats (bl_run cfg calls) now k))
     = order_stats_of (spec_run (bl_cfg (bl_New cfg)) (calls @ [CStats now k]) k)"
proof -
  let ?c = "bl_cfg (bl_New cfg)" and ?b = "bl_run cfg calls"
  have sim: "bl_inv ?c ?b" "bl_abs ?b = spec_run ?c calls" using bl_run_sim by auto
  have after: "bl_abs (fst (bl_Stats ?b now k)) k = spec_run ?c (calls @ [CStats now k]) k"
    using bl_Stats_sim [OF sim(1)] sim(2) by (simp add: spec_run_def)
  have no: "order_stats no_stats = order_stats_of []"
    by (simp add: order_stats_def order_stats_of_def no_stats_def)
  show ?thesis
  proof (cases "bl_buckets ?b k")
    case None
    then have "bl_Stats ?b now k = (?b, no_stats)" "bl_abs ?b k = []"
      by (simp_all add: bl_Stats_def bl_abs_def)
    then show ?thesis using after no sim(2) by simp
  next
    case (Some r)
    define r' where "r' = (if 0 < bc_Window (bl_cfg ?b) then trim r (now - bc_Window (bl_cfg ?b)) else r)"
    have "bl_Stats ?b now k = (?b\<lparr>bl_buckets := (bl_buckets ?b)(k \<mapsto> r')\<rparr>,
        if rg_size r' = 0 then no_stats else ring_stats r')"
      using Some by (simp add: bl_Stats_def r'_def Let_def)
    then have "order_stats (snd (bl_Stats ?b now k)) = order_stats_of (bl_abs (fst (bl_Stats ?b now k)) k)"
      using ring_stats_order [of r'] no by (cases "rg_size r' = 0") (simp_all add: bl_abs_def ring_list_def)
    then show ?thesis using sim(2) after by simp
  qed
qed

subsection \<open>The running total\<close>

text \<open>
  The total is kept across calls: an addition adds its notional, after the sample that gives way
  (the oldest of a full bucket) is subtracted, and a read subtracts what it drops, oldest first. In
  floating point that is not the sum of the live samples, so the specification carries it along.
\<close>

definition without :: "float64 \<Rightarrow> sample list \<Rightarrow> float64" where
  "without x gone = foldl (\<lambda>x s. x - sm_notional s) x gone"

definition spec_gone :: "bl_Config \<Rightarrow> time \<Rightarrow> sample list \<Rightarrow> sample list" where
  "spec_gone cfg now l = (if 0 < bc_Window cfg then takeWhile (\<lambda>s. sm_at s < now - bc_Window cfg) l else [])"

fun total_step :: "bl_Config \<Rightarrow> (Key \<Rightarrow> sample list) \<Rightarrow> (Key \<Rightarrow> float64) \<Rightarrow> bl_call \<Rightarrow> (Key \<Rightarrow> float64)" where
  "total_step cfg a x (CAdd k n t) = (if n \<le> 0 then x
     else x(k := without (x k) (if length (a k) < nat (bc_MaxSamples cfg) then [] else [hd (a k)]) + n))"
| "total_step cfg a x (CStats now k) = x(k := without (x k) (spec_gone cfg now (a k)))"

definition total_run :: "bl_Config \<Rightarrow> bl_call list \<Rightarrow> Key \<Rightarrow> float64" where
  "total_run cfg calls =
     snd (foldl (\<lambda>(a, x) c. (spec_step cfg a c, total_step cfg a x c)) (\<lambda>_. [], \<lambda>_. 0) calls)"

lemma total_run_snoc: "total_run cfg (calls @ [c]) = total_step cfg (spec_run cfg calls) (total_run cfg calls) c"
proof -
  have "fst (foldl (\<lambda>(a, x) c. (spec_step cfg a c, total_step cfg a x c)) z calls) = foldl (spec_step cfg) (fst z) calls" for z
    by (induction calls arbitrary: z) (simp_all add: case_prod_beta)
  then show ?thesis by (simp add: total_run_def spec_run_def case_prod_beta)
qed

definition bl_total :: "Baseline \<Rightarrow> Key \<Rightarrow> float64" where
  "bl_total b k = (case bl_buckets b k of None \<Rightarrow> 0 | Some r \<Rightarrow> rg_sum r)"

lemma ring_list_hd: "rg_size r \<noteq> 0 \<Longrightarrow> ring_wf r \<Longrightarrow> hd (ring_list r) = rg_buf r ! rg_head r"
  by (cases "rg_size r") (simp_all add: ring_list_def ring_wf_def ring_at_def hd_map upt_conv_Cons del: upt_Suc)

lemma push_sum:
  assumes "ring_wf r"
  shows "rg_sum (push r s) =
    without (rg_sum r) (if length (ring_list r) < length (rg_buf r) then [] else [hd (ring_list r)]) + sm_notional s"
proof (cases "rg_size r < length (rg_buf r)")
  case True
  then show ?thesis by (simp add: push_def Let_def without_def ring_list_length)
next
  case False
  then have "rg_size r \<noteq> 0" using ring_wf_pos [OF assms] by linarith
  then show ?thesis using False ring_list_hd [OF _ assms] by (simp add: push_def Let_def without_def ring_list_length)
qed

lemma trim_sum: "ring_wf r \<Longrightarrow> rg_sum (trim r c) = without (rg_sum r) (takeWhile (\<lambda>s. sm_at s < c) (ring_list r))"
proof (induction r c rule: trim.induct)
  case (1 r c)
  show ?case
  proof (cases "rg_size r = 0")
    case True
    then show ?thesis by (simp add: trim.simps [of r] ring_list_def without_def)
  next
    case False
    let ?s = "rg_buf r ! rg_head r"
    let ?r = "r\<lparr>rg_sum := rg_sum r - sm_notional ?s, rg_head := (rg_head r + 1) mod length (rg_buf r),
               rg_size := rg_size r - 1\<rparr>"
    have wf: "ring_wf ?r" using 1(2) ring_wf_pos [OF 1(2)] by (auto simp: ring_wf_def)
    have l: "ring_list r = ?s # ring_list ?r" by (rule ring_list_pop [OF 1(2) False])
    show ?thesis
    proof (cases "sm_at ?s < c")
      case True
      then show ?thesis using 1(1) [OF False refl] wf False
        by (simp add: trim.simps [of r] Let_def l without_def)
    next
      case no: False
      then show ?thesis using False by (simp add: trim.simps [of r] Let_def l without_def)
    qed
  qed
qed

lemma bl_Add_total:
  assumes "bl_inv cfg b"
  shows "bl_total (bl_Add b k n t) = total_step cfg (bl_abs b) (bl_total b) (CAdd k n t)"
proof -
  let ?new = "\<lparr>rg_buf = replicate (nat (bc_MaxSamples cfg)) \<lparr>sm_notional = 0, sm_at = zero_time\<rparr>,
     rg_head = 0, rg_size = 0, rg_sum = 0\<rparr>"
  have c: "bl_cfg b = cfg" and m: "0 < bc_MaxSamples cfg" using assms by (auto simp: bl_inv_def)
  define r where "r = (case bl_buckets b k of None \<Rightarrow> ?new | Some r \<Rightarrow> r)"
  have "ring_wf ?new" using m by (simp add: ring_wf_def)
  then have r: "ring_wf r" "length (rg_buf r) = nat (bc_MaxSamples cfg)"
    using assms by (auto simp: r_def bl_inv_def split: option.split)
  have l: "ring_list r = bl_abs b k" "rg_sum r = bl_total b k"
    by (simp_all add: r_def bl_abs_def bl_total_def ring_list_def split: option.split)
  have "bl_Add b k n t = (if n \<le> 0 then b
      else b\<lparr>bl_buckets := (bl_buckets b)(k \<mapsto> push r \<lparr>sm_notional = n, sm_at = t\<rparr>)\<rparr>)"
    unfolding bl_Add_def r_def c Let_def ..
  then show ?thesis
    using push_sum [OF r(1), of "\<lparr>sm_notional = n, sm_at = t\<rparr>"] l r(2) by (simp add: bl_total_def fun_eq_iff)
qed

lemma bl_Stats_total:
  assumes "bl_inv cfg b"
  shows "bl_total (fst (bl_Stats b now k)) = total_step cfg (bl_abs b) (bl_total b) (CStats now k)"
proof (cases "bl_buckets b k")
  case None
  then show ?thesis by (auto simp: bl_Stats_def bl_total_def bl_abs_def spec_gone_def without_def fun_eq_iff)
next
  case (Some r)
  then have "bl_cfg b = cfg" "ring_wf r" using assms by (auto simp: bl_inv_def)
  then show ?thesis using Some trim_sum [of r "now - bc_Window cfg"]
    by (auto simp: bl_Stats_def bl_total_def bl_abs_def spec_gone_def without_def fun_eq_iff Let_def)
qed

lemma bl_run_total: "bl_total (bl_run cfg calls) = total_run (bl_cfg (bl_New cfg)) calls"
proof (induction calls rule: rev_induct)
  case Nil
  show ?case by (simp add: bl_run_def bl_total_def bl_New_def total_run_def Let_def fun_eq_iff)
next
  case (snoc c calls)
  have "bl_total (bl_step (bl_run cfg calls) c) =
      total_step (bl_cfg (bl_New cfg)) (bl_abs (bl_run cfg calls)) (bl_total (bl_run cfg calls)) c"
    using bl_Add_total [OF conjunct1 [OF bl_run_sim]] bl_Stats_total [OF conjunct1 [OF bl_run_sim]] by (cases c) simp_all
  then show ?case using snoc bl_run_sim [of cfg calls] by (simp add: total_run_snoc) (simp add: bl_run_def)
qed

text \<open>What a read reports, from the live samples and the running total.\<close>

definition stats_of :: "sample list \<Rightarrow> float64 \<Rightarrow> Stats" where
  "stats_of l x = (if l = [] then no_stats
     else let v = fsort (map sm_notional l); T = sm_at ` set l
       in \<lparr>st_Count = int (length l), st_MeanUSD = x / of_i (int (length l)),
           st_MedianUSD = percentile v (fl 0.5), st_P95USD = percentile v (fl 0.95), st_P99USD = percentile v (fl 0.99),
           st_TotalUSD = x, st_SpanActual = t_sub (Max T) (Min T), st_OldestAt = Min T\<rparr>)"

lemma ring_stats_of: "0 < rg_size r \<Longrightarrow> ring_stats r = stats_of (ring_list r) (rg_sum r)"
proof -
  assume s: "0 < rg_size r"
  then have "ring_list r \<noteq> []" by (simp add: ring_list_length)
  moreover have "st_MeanUSD (ring_stats r) = rg_sum r / of_i (int (length (ring_list r)))" "st_TotalUSD (ring_stats r) = rg_sum r"
    by (simp_all add: ring_stats_def case_prod_beta Let_def ring_list_length)
  ultimately show ?thesis using ring_stats_order [OF s]
    by (simp add: stats_of_def order_stats_def order_stats_of_def Let_def)
qed

lemma bl_Stats_of: "snd (bl_Stats b now k) = stats_of (bl_abs (fst (bl_Stats b now k)) k) (bl_total (fst (bl_Stats b now k)) k)"
  by (auto simp: bl_Stats_def bl_abs_def bl_total_def Let_def ring_stats_of stats_of_def ring_list_length split: option.split)

text \<open>C23. Refinement: whatever calls were served, a bucket's ring holds the samples its specification
  lists (the last \<open>MaxSamples\<close> positive notionals in order of arrival, old ones dropped at each
  read), and a read reports the statistics of that list, every field: count, median, p95, p99, span
  and oldest time are computed from the list, total and mean from the total that is carried along,
  with each sample that leaves the list subtracted from it.\<close>

theorem Stats_refines:
  "bl_abs (bl_run cfg calls) = spec_run (bl_cfg (bl_New cfg)) calls
   \<and> snd (bl_Stats (bl_run cfg calls) now k)
     = stats_of (spec_run (bl_cfg (bl_New cfg)) (calls @ [CStats now k]) k)
                (total_run (bl_cfg (bl_New cfg)) (calls @ [CStats now k]) k)"
proof -
  have "bl_step (bl_run cfg calls) (CStats now k) = bl_run cfg (calls @ [CStats now k])" by (simp add: bl_run_def)
  then show ?thesis
    using bl_run_sim [of cfg calls] bl_run_sim [of cfg "calls @ [CStats now k]"] bl_run_total [of cfg "calls @ [CStats now k]"]
      bl_Stats_of [of "bl_run cfg calls" now k] by simp
qed

subsection \<open>Percentiles\<close>

text \<open>The index the nearest-rank rule picks in a sorted list of \<open>n\<close> values.\<close>

definition pct_index :: "nat \<Rightarrow> float64 \<Rightarrow> nat" where
  "pct_index n p = (if p \<le> 0 then 0 else if 1 \<le> p then n - 1
     else nat (min (int n) (max 1 (f2i (of_i (int n) * p + fl 0.5))) - 1))"

lemma percentile_index: "xs \<noteq> [] \<Longrightarrow> percentile xs p = xs ! pct_index (length xs) p"
proof -
  assume "xs \<noteq> []"
  then have n: "1 \<le> int (length xs)" by (cases xs) auto
  define k where "k = f2i (of_i (int (length xs)) * p + fl 0.5)"
  have "(let rank = k; rank = (if rank < 1 then 1 else rank) in
     if int (length xs) < rank then int (length xs) else rank) = min (int (length xs)) (max 1 k)"
    using n by (auto simp: Let_def)
  then show ?thesis using \<open>xs \<noteq> []\<close>
    by (simp add: percentile_def pct_index_def Let_def flip: k_def)
qed

lemma pct_index_less: "0 < n \<Longrightarrow> pct_index n p < n"
  by (auto simp: pct_index_def)

lemma f2i_mono: "0 \<le> r \<Longrightarrow> r \<le> s \<Longrightarrow> s \<le> 2 ^ 62 \<Longrightarrow> f2i (Fin r) \<le> f2i (Fin s)"
proof -
  assume a: "0 \<le> r" "r \<le> s" "s \<le> 2 ^ 62"
  have s: "\<lfloor>s\<rfloor> \<le> 2 ^ 62" using floor_mono [OF a(3)] by simp
  have "0 \<le> \<lfloor>r\<rfloor>" "\<lfloor>r\<rfloor> \<le> \<lfloor>s\<rfloor>" using a by (auto intro: floor_mono)
  then show ?thesis using a s by simp
qed

lemma pct_index_mono:
  assumes "p \<le> q" "n < 2 ^ 53"
  shows "pct_index n p \<le> pct_index n q"
proof (cases "0 < p \<and> q < 1")
  case False
  then consider "p \<le> 0" | "1 \<le> q" "0 < n" | "n = 0"
    using assms(1) f64_le_not_NaN [OF assms(1)] f64_not_le [of p 0] f64_not_less [of q 1] by fastforce
  then show ?thesis
    using pct_index_less [of n p] assms(1) f64_le_trans [of q 0 1] f64_le_trans [of p q 0]
    by cases (auto simp: pct_index_def)
next
  case True
  then obtain a b where pq: "p = Fin a" "q = Fin b" using assms(1) by (cases p; cases q) (auto simp: zero_f64 one_f64)
  have ab: "0 < a" "a \<le> b" "b < 1" using True assms(1) pq by auto
  have n: "of_i (int n) = Fin (of_nat n)" using assms(2) of_i_eq [of "int n"] by simp
  have half: "fl 0.5 = Fin (1 / 2)" by code_simp
  define R where "R c = fl (of_nat n * c)" for c
  have R: "R c \<le> Fin (of_nat n)" "0 \<le> R c" if "0 \<le> c" "c \<le> 1" for c
  proof -
    have "of_nat n * c \<le> of_int (int n)" using that by (simp add: mult_left_le)
    then show "R c \<le> Fin (of_nat n)" using fl_le_int [of "of_nat n * c" "int n"] assms(2) by (simp add: R_def)
    show "0 \<le> R c" using that by (simp add: R_def fl_nonneg)
  qed
  have Rm: "R a \<le> R b" using ab by (simp add: R_def fl_mono mult_left_mono)
  obtain x y where xy: "R a = Fin x" "R b = Fin y"
    using R [of a] R [of b] ab by (cases "R a"; cases "R b") (auto simp: zero_f64)
  have x: "0 \<le> x" "x \<le> y" "y \<le> of_nat n"
    using R [of a] R [of b] Rm ab xy by (auto simp: zero_f64)
  have S: "fl (x + 1 / 2) \<le> fl (y + 1 / 2)" "0 \<le> fl (x + 1 / 2)"
    using x by (auto intro: fl_mono fl_nonneg)
  have "y + 1 / 2 \<le> of_int (int n + 1)" using x by simp
  then have T: "fl (y + 1 / 2) \<le> Fin (of_int (int n + 1))"
    using fl_le_int [of "y + 1 / 2" "int n + 1"] assms(2) by simp
  obtain u v where uv: "fl (x + 1 / 2) = Fin u" "fl (y + 1 / 2) = Fin v"
    using S T f64_le_trans [OF S(1) T] by (cases "fl (x + 1 / 2)"; cases "fl (y + 1 / 2)") (auto simp: zero_f64)
  have "0 \<le> u" "u \<le> v" "v \<le> of_int (int n + 1)" using S T uv by auto
  moreover have "of_int (int n + 1) \<le> (2 ^ 62 :: rat)"
  proof -
    have "int n + 1 \<le> 2 ^ 62" using assms(2) by simp
    then have "of_int (int n + 1) \<le> (of_int (2 ^ 62) :: rat)" by (rule of_int_le_iff [THEN iffD2])
    then show ?thesis by simp
  qed
  ultimately have "f2i (Fin u) \<le> f2i (Fin v)" by (intro f2i_mono) auto
  moreover have "of_i (int n) * p + fl 0.5 = Fin u" "of_i (int n) * q + fl 0.5 = Fin v"
    using xy uv unfolding half by (simp_all add: n pq R_def)
  moreover have "pct_index n r = nat (min (int n) (max 1 (f2i (of_i (int n) * r + fl 0.5))) - 1)"
    if "0 < r" "r < 1" for r
    using that f64_less_iff [of 0 r] f64_less_iff [of r 1] unfolding pct_index_def by (simp only: if_False)
  moreover have "0 < p" "p < 1" "0 < q" "q < 1"
    using True assms(1) f64_le_less_trans f64_less_le_trans by blast+
  ultimately show ?thesis by (simp add: nat_mono min.coboundedI2 max.coboundedI2 del: f2i.simps)
qed

lemma sorted_fsle_nth: "sorted_wrt fsle xs \<Longrightarrow> i \<le> j \<Longrightarrow> j < length xs \<Longrightarrow> fsle (xs ! i) (xs ! j)"
  by (cases "i = j") (auto simp: sorted_wrt_iff_nth_less)

lemma percentile_mono:
  assumes "sorted_wrt fsle xs" "p \<le> q" "length xs < 2 ^ 53"
  shows "fsle (percentile xs p) (percentile xs q)"
proof (cases "xs = []")
  case False
  then show ?thesis
    using assms pct_index_mono [OF assms(2,3)] by (simp add: percentile_index pct_index_less sorted_fsle_nth)
qed (simp add: percentile_def)

lemma percentile_mem: "xs \<noteq> [] \<Longrightarrow> percentile xs p \<in> set xs"
  by (simp add: percentile_index pct_index_less)

lemma spec_run_length: "length (spec_run (bl_cfg (bl_New cfg)) calls k) \<le> nat (bc_MaxSamples (bl_cfg (bl_New cfg)))"
proof -
  have "bl_inv (bl_cfg (bl_New cfg)) (bl_run cfg calls)" using bl_run_sim by blast
  then have "length (bl_abs (bl_run cfg calls) k) \<le> nat (bc_MaxSamples (bl_cfg (bl_New cfg)))"
    by (auto simp: bl_abs_def bl_inv_def ring_list_length ring_wf_def split: option.split) (metis)
  then show ?thesis using bl_run_sim by metis
qed

lemma order_stats_of_ordered:
  assumes "length l < 2 ^ 53" "order_stats_of l = (c, med, p95, p99, sp, oldest)"
  shows "fsle med p95 \<and> fsle p95 p99 \<and> 0 \<le> sp
    \<and> (l = [] \<or> {med, p95, p99} \<subseteq> sm_notional ` set l)"
proof (cases "l = []")
  case False
  let ?v = "fsort (map sm_notional l)" and ?T = "sm_at ` set l"
  have v: "sorted_wrt fsle ?v" "length ?v < 2 ^ 53" "?v \<noteq> []" "set ?v = sm_notional ` set l"
    using assms(1) False by (simp_all add: sorted_fsort flip: length_greater_0_conv)
  have p: "fl 0.5 \<le> fl 0.95" "fl 0.95 \<le> fl 0.99" by code_simp+
  have "Min ?T \<le> Max ?T" using False by (intro Min.coboundedI Max_in) auto
  then have "0 \<le> t_sub (Max ?T) (Min ?T)" by (simp add: t_sub_def)
  then show ?thesis
    using assms(2) False percentile_mono [OF v(1) p(1) v(2)] percentile_mono [OF v(1) p(2) v(2)]
      percentile_mem [OF v(3)] v(4) by (auto simp: order_stats_of_def Let_def)
qed (use assms in \<open>auto simp: order_stats_of_def\<close>)

lemma spec_run_mem: "x \<in> set (spec_run cfg calls k) \<Longrightarrow> CAdd k (sm_notional x) (sm_at x) \<in> set calls"
proof (induction calls arbitrary: k rule: rev_induct)
  case Nil
  then show ?case by (simp add: spec_run_def)
next
  case (snoc c calls)
  have step: "spec_run cfg (calls @ [c]) = spec_step cfg (spec_run cfg calls) c" by (simp add: spec_run_def)
  show ?case
  proof (cases c)
    case (CAdd k' n t)
    then have "x \<in> set (spec_run cfg calls k) \<or> (k = k' \<and> x = \<lparr>sm_notional = n, sm_at = t\<rparr>)"
      using snoc.prems set_last_n unfolding step by (fastforce split: if_splits)
    then show ?thesis using snoc.IH CAdd by auto
  next
    case (CStats now k')
    then have "x \<in> set (spec_run cfg calls k)"
      using snoc.prems unfolding step by (auto simp: spec_trim_def dest: set_dropWhileD split: if_splits)
    then show ?thesis using snoc.IH by auto
  qed
qed

text \<open>The percentiles a read reports are ordered, median below p95 below p99, the span is never
  negative, and a non-empty bucket reports values that were really added to it.\<close>

theorem Stats_ordered:
  assumes "bc_MaxSamples (bl_cfg (bl_New cfg)) < 2 ^ 53"
    and "snd (bl_Stats (bl_run cfg calls) now k) = s"
  shows "fsle (st_MedianUSD s) (st_P95USD s) \<and> fsle (st_P95USD s) (st_P99USD s) \<and> 0 \<le> st_SpanActual s
    \<and> (st_Count s = 0 \<or> (\<exists>t1 t2 t3. {CAdd k (st_MedianUSD s) t1, CAdd k (st_P95USD s) t2,
         CAdd k (st_P99USD s) t3} \<subseteq> set calls))"
proof -
  let ?l = "spec_run (bl_cfg (bl_New cfg)) (calls @ [CStats now k]) k"
  have eq: "order_stats_of ?l = (st_Count s, st_MedianUSD s, st_P95USD s, st_P99USD s, st_SpanActual s, st_OldestAt s)"
    using Stats_order_stats [of cfg calls now k] assms(2) by (simp add: order_stats_def)
  have len: "length ?l < 2 ^ 53" using spec_run_length [of cfg "calls @ [CStats now k]" k] assms(1) by simp
  have "{st_MedianUSD s, st_P95USD s, st_P99USD s} \<subseteq> sm_notional ` set ?l \<or> st_Count s = 0"
    using order_stats_of_ordered [OF len eq] eq by (auto simp: order_stats_of_def)
  moreover have "\<exists>t. CAdd k (sm_notional x) t \<in> set calls" if "x \<in> set ?l" for x
    using spec_run_mem [OF that] by auto
  ultimately have "st_Count s = 0 \<or> (\<exists>t1 t2 t3. {CAdd k (st_MedianUSD s) t1, CAdd k (st_P95USD s) t2,
         CAdd k (st_P99USD s) t3} \<subseteq> set calls)"
    unfolding insert_subset by (elim disjE conjE imageE) (metis empty_subsetI, simp)
  then show ?thesis using order_stats_of_ordered [OF len eq] by simp
qed

text \<open>As long as the notionals are whole numbers and fit, nothing is rounded and the total is the sum
  of the live samples.\<close>

definition whole :: "int \<Rightarrow> bl_call \<Rightarrow> bool" where
  "whole B c \<longleftrightarrow> (case c of CAdd k n t \<Rightarrow> \<exists>i. n = Fin (of_int i) \<and> i \<le> B | CStats now k \<Rightarrow> True)"

definition int_of :: "sample \<Rightarrow> int" where
  "int_of s = f2i (sm_notional s)"

definition whole_sample :: "int \<Rightarrow> sample \<Rightarrow> bool" where
  "whole_sample B s \<longleftrightarrow> sm_notional s = Fin (of_int (int_of s)) \<and> 0 < int_of s \<and> int_of s \<le> B"

lemma whole_sum: "list_all (whole_sample B) l \<Longrightarrow>
    0 \<le> sum_list (map int_of l) \<and> sum_list (map int_of l) \<le> int (length l) * B"
  by (induction l) (auto simp: whole_sample_def algebra_simps)

lemma without_whole:
  "list_all (whole_sample B) gone \<Longrightarrow> sum_list (map int_of gone) \<le> T \<Longrightarrow> T \<le> 2 ^ 53 \<Longrightarrow>
   without (Fin (of_int T)) gone = Fin (of_int (T - sum_list (map int_of gone)))"
proof (induction gone arbitrary: T)
  case (Cons s gone)
  have ws: "whole_sample B s" and g: "list_all (whole_sample B) gone" using Cons.prems(1) by simp_all
  have s: "sm_notional s = Fin (of_int (int_of s))" "0 < int_of s" using ws by (simp_all add: whole_sample_def)
  have "Fin (of_int T) - sm_notional s = fl (of_int (T - int_of s))" by (simp add: s(1) minus_float64_def)
  also have "\<dots> = Fin (of_int (T - int_of s))"
    by (rule fl_of_int) (use Cons.prems s(2) whole_sum [OF g] in \<open>auto simp: abs_le_iff\<close>)
  finally have "Fin (of_int T) - sm_notional s = Fin (of_int (T - int_of s))" .
  then show ?case using Cons.IH [OF g, of "T - int_of s"] Cons.prems(2,3) s(2) by (simp add: without_def algebra_simps)
qed (simp add: without_def)

lemma last_n_append:
  assumes "length l \<le> n" "0 < n"
  shows "last_n n (l @ [x]) = (if length l < n then l else tl l) @ [x]"
proof (cases "length l < n")
  case False
  then have "length (l @ [x]) - n = 1" using assms by simp
  then show ?thesis using False assms by (cases l) (simp_all add: last_n_def)
qed (simp add: last_n_def)

theorem total_is_exact:
  assumes calls: "list_all (whole B) calls" and B: "0 \<le> B" "bc_MaxSamples (bl_cfg (bl_New cfg)) * B < 2 ^ 53"
  shows "list_all (whole_sample B) (spec_run (bl_cfg (bl_New cfg)) calls k) \<and>
    total_run (bl_cfg (bl_New cfg)) calls k = Fin (of_int (sum_list (map int_of (spec_run (bl_cfg (bl_New cfg)) calls k))))"
  using calls
proof (induction calls arbitrary: k rule: rev_induct)
  case Nil
  show ?case by (simp add: spec_run_def total_run_def zero_f64)
next
  case (snoc c calls)
  let ?C = "bl_cfg (bl_New cfg)" and ?M = "nat (bc_MaxSamples (bl_cfg (bl_New cfg)))"
  let ?L = "\<lambda>k. spec_run ?C calls k"
  let ?T = "\<lambda>k. sum_list (map int_of (?L k))"
  have step: "spec_run ?C (calls @ [c]) = spec_step ?C ?L c" by (simp add: spec_run_def)
  have IH: "list_all (whole_sample B) (?L k)" "total_run ?C calls k = Fin (of_int (?T k))" for k
    using snoc by simp_all
  have M: "0 < ?M" using bl_New_inv(1) [of cfg] by (simp add: bl_inv_def)
  have len: "length (?L k) \<le> ?M" for k by (rule spec_run_length)
  have MB: "int ?M * B < 2 ^ 53" using B(2) M by simp
  have T: "0 \<le> ?T k" "?T k \<le> int ?M * B" for k
  proof -
    have "int (length (?L k)) * B \<le> int ?M * B" using len [of k] B(1) by (intro mult_right_mono) auto
    then show "0 \<le> ?T k" "?T k \<le> int ?M * B" using whole_sum [OF IH(1) [of k]] by auto
  qed
  show ?case
  proof (cases c)
    case (CStats now k')
    let ?old = "\<lambda>s. sm_at s < now - bc_Window ?C"
    have split: "?T k = sum_list (map int_of (takeWhile ?old (?L k))) + sum_list (map int_of (dropWhile ?old (?L k)))" for k
      by (metis map_append sum_list.append takeWhile_dropWhile_id)
    have parts: "list_all (whole_sample B) (takeWhile ?old (?L k))" "list_all (whole_sample B) (dropWhile ?old (?L k))" for k
      using IH(1) [of k] by (auto simp: list_all_iff dest: set_takeWhileD set_dropWhileD)
    have "without (Fin (of_int (?T k))) (takeWhile ?old (?L k)) = Fin (of_int (sum_list (map int_of (dropWhile ?old (?L k)))))" for k
      using without_whole [OF parts(1) [of k], of "?T k"] whole_sum [OF parts(2) [of k]] split [of k] T [of k] MB by simp
    then show ?thesis unfolding step total_run_snoc using CStats IH parts
      by (auto simp: spec_trim_def spec_gone_def without_def)
  next
    case (CAdd k' n t)
    obtain i where i: "n = Fin (of_int i)" "i \<le> B" using snoc.prems CAdd by (auto simp: whole_def)
    show ?thesis
    proof (cases "i \<le> 0")
      case True
      then show ?thesis unfolding step total_run_snoc using CAdd IH i by (simp add: zero_f64)
    next
      case False
      let ?s = "\<lparr>sm_notional = n, sm_at = t\<rparr>"
      let ?gone = "if length (?L k') < ?M then [] else [hd (?L k')]"
      let ?kept = "if length (?L k') < ?M then ?L k' else tl (?L k')"
      have "1 * B \<le> int ?M * B" using M B(1) by (intro mult_right_mono) auto
      then have "i < 2 ^ 53" using i(2) MB by simp
      then have s: "int_of ?s = i" using False i(1) by (simp add: int_of_def)
      then have ws: "whole_sample B ?s" using False i by (simp add: whole_sample_def)
      have L: "?L k' = ?gone @ ?kept" using M len [of k'] by (cases "?L k'") auto
      then have wk: "list_all (whole_sample B) ?gone" "list_all (whole_sample B) ?kept"
        using IH(1) [of k'] by (metis list_all_append)+
      have "?T k' = sum_list (map int_of ?gone) + sum_list (map int_of ?kept)" by (metis L map_append sum_list.append)
      then have w: "without (Fin (of_int (?T k'))) ?gone = Fin (of_int (sum_list (map int_of ?kept)))"
        using without_whole [OF wk(1), of "?T k'"] whole_sum [OF wk(2)] T [of k'] MB by simp
      have "length ?kept + 1 \<le> ?M" using M len [of k'] by auto
      then have "(int (length ?kept) + 1) * B \<le> int ?M * B" using B(1) by (intro mult_right_mono) linarith+
      then have "\<bar>sum_list (map int_of ?kept) + i\<bar> \<le> 2 ^ 53"
        using whole_sum [OF wk(2)] i(2) False MB by (simp add: algebra_simps abs_le_iff)
      then have "Fin (of_int (sum_list (map int_of ?kept))) + n = Fin (of_int (sum_list (map int_of ?kept) + i))"
        using fl_of_int [of "sum_list (map int_of ?kept) + i"] by (simp add: i(1))
      then have tot: "total_run ?C (calls @ [c]) k = (if k = k' then Fin (of_int (sum_list (map int_of ?kept) + i)) else Fin (of_int (?T k)))"
        unfolding total_run_snoc using CAdd False i(1) IH(2) w by (simp add: zero_f64)
      have run: "spec_run ?C (calls @ [c]) k = (if k = k' then ?kept @ [?s] else ?L k)"
        unfolding step using CAdd False i(1) last_n_append [OF len M] by (simp add: zero_f64)
      show ?thesis unfolding tot run using IH(1) wk(2) ws s by (simp del: if_distrib)
    qed
  qed
qed

lemma total_is_exact_witness:
  "snd (bl_Stats (bl_run \<lparr>bc_Window = 0, bc_MaxSamples = 2\<rparr>
       [CAdd \<lparr>ky_Category = 1, ky_Market = ''m'', ky_OutcomeToken = ''t''\<rparr> (Fin 900) 0,
        CAdd \<lparr>ky_Category = 1, ky_Market = ''m'', ky_OutcomeToken = ''t''\<rparr> (Fin 40) 1,
        CAdd \<lparr>ky_Category = 1, ky_Market = ''m'', ky_OutcomeToken = ''t''\<rparr> (Fin 10) 2])
      5 \<lparr>ky_Category = 1, ky_Market = ''m'', ky_OutcomeToken = ''t''\<rparr>)
    = \<lparr>st_Count = 2, st_MeanUSD = Fin 25, st_MedianUSD = Fin 10, st_P95USD = Fin 40, st_P99USD = Fin 40,
       st_TotalUSD = Fin 50, st_SpanActual = 1, st_OldestAt = 1\<rparr>"
  by code_simp

definition key_a :: Key where
  "key_a = \<lparr>ky_Category = 1, ky_Market = ''m'', ky_OutcomeToken = ''t''\<rparr>"

text \<open>Three samples fit; the first of four is gone when the fourth arrives.\<close>

lemma Stats_ordered_witness:
  "let s = snd (bl_Stats (bl_run \<lparr>bc_Window = Hour, bc_MaxSamples = 3\<rparr>
       [CAdd key_a (fl 900) 0, CAdd key_a (fl 40) 1, CAdd key_a (fl 10) 2, CAdd key_a (fl 20) 3]) 5 key_a)
   in fsle (st_MedianUSD s) (st_P95USD s) \<and> st_MedianUSD s = fl 20 \<and> st_P95USD s = fl 40 \<and> st_Count s = 3"
proof -
  let ?cfg = "\<lparr>bc_Window = Hour, bc_MaxSamples = 3\<rparr>"
  let ?calls = "[CAdd key_a (fl 900) 0, CAdd key_a (fl 40) 1, CAdd key_a (fl 10) 2, CAdd key_a (fl 20) 3]"
  let ?s = "snd (bl_Stats (bl_run ?cfg ?calls) 5 key_a)"
  have "bc_MaxSamples (bl_cfg (bl_New ?cfg)) < 2 ^ 53" by (simp add: bl_New_def)
  from Stats_ordered [OF this refl, of ?calls 5 key_a]
  have "fsle (st_MedianUSD ?s) (st_P95USD ?s)" by blast
  moreover have "order_stats ?s = (3, fl 20, fl 40, fl 40, 2, 1)"
    unfolding Stats_order_stats by code_simp
  then have "st_MedianUSD ?s = fl 20 \<and> st_P95USD ?s = fl 40 \<and> st_Count ?s = 3"
    by (simp add: order_stats_def)
  ultimately show ?thesis by (simp add: Let_def)
qed

end
