(* ===== verification/Score.thy ===== *)
theory Score
  imports Baseline
begin

text \<open>
  Package score (\<open>internal/app/usecase/analytics/score/score.go\<close>): the single-trade scorer. A trade
  fires at the highest of three tiers whose every gate clears, and a fire without a ready market
  baseline may be capped to a lower severity.
\<close>

subsection \<open>Definitions\<close>

record sc_Result =
  rs_Fired :: bool
  rs_Severity :: Severity
  rs_Odds :: float64
  rs_GrossPayoutIfWinUSD :: float64
  rs_ProfitIfWinUSD :: float64
  rs_MarketP95Ratio :: float64
  rs_MarketP99Ratio :: float64
  rs_TraderP95Ratio :: float64
  rs_TraderP99Ratio :: float64
  rs_PayoffGatePassed :: bool
  rs_TailGatePassed :: bool
  rs_LowMarketBaselineConfidence :: bool
  rs_LowTraderBaselineConfidence :: bool
  rs_SeverityCapped :: bool
  rs_SuppressedReason :: string

definition no_result :: sc_Result where
  "no_result = \<lparr>rs_Fired = False, rs_Severity = '''', rs_Odds = 0, rs_GrossPayoutIfWinUSD = 0,
     rs_ProfitIfWinUSD = 0, rs_MarketP95Ratio = 0, rs_MarketP99Ratio = 0, rs_TraderP95Ratio = 0,
     rs_TraderP99Ratio = 0, rs_PayoffGatePassed = False, rs_TailGatePassed = False,
     rs_LowMarketBaselineConfidence = False, rs_LowTraderBaselineConfidence = False,
     rs_SeverityCapped = False, rs_SuppressedReason = ''''\<rparr>"

record tierVerdict =
  tv_passed :: bool
  tv_payoffPassed :: bool
  tv_tailPassed :: bool
  tv_suppression :: string

definition blocked_by :: "bool \<Rightarrow> string \<Rightarrow> tierVerdict" where
  "blocked_by payoff code = \<lparr>tv_passed = False, tv_payoffPassed = payoff, tv_tailPassed = False,
     tv_suppression = code\<rparr>"

definition evaluateTier :: "float64 \<Rightarrow> float64 \<Rightarrow> float64 \<Rightarrow> float64 \<Rightarrow> float64 \<Rightarrow> float64 \<Rightarrow> float64
    \<Rightarrow> bool \<Rightarrow> bool \<Rightarrow> Tier \<Rightarrow> tierVerdict" where
  "evaluateTier notional odds profit mp95 mp99 tp95 tp99 marketReady traderReady tier =
     (if notional < tr_MinNotionalUSD tier \<or> (0 < tr_MinOdds tier \<and> odds < tr_MinOdds tier)
      then blocked_by False ''below_min_notional_or_odds''
      else let payoffPassed = (tr_MinProfitUSD tier \<le> 0 \<or> tr_MinProfitUSD tier \<le> profit) in
      if \<not> payoffPassed then blocked_by False ''below_min_profit''
      else if marketReady \<and> 0 < tr_MinMarketP95Ratio tier \<and> mp95 < tr_MinMarketP95Ratio tier
      then blocked_by True ''below_market_p95_ratio''
      else if marketReady \<and> 0 < tr_MinMarketP99Ratio tier \<and> mp99 < tr_MinMarketP99Ratio tier
      then blocked_by True ''below_market_p99_ratio''
      else if traderReady \<and> 0 < tr_MinTraderP95Ratio tier \<and> tp95 < tr_MinTraderP95Ratio tier
      then blocked_by True ''below_trader_p95_ratio''
      else if traderReady \<and> 0 < tr_MinTraderP99Ratio tier \<and> tp99 < tr_MinTraderP99Ratio tier
      then blocked_by True ''below_trader_p99_ratio''
      else let enforcedTail =
                 (if marketReady \<and> 0 < tr_MinMarketP95Ratio tier then 1 else 0)
               + (if marketReady \<and> 0 < tr_MinMarketP99Ratio tier then 1 else 0)
               + (if traderReady \<and> 0 < tr_MinTraderP95Ratio tier then 1 else 0)
               + (if traderReady \<and> 0 < tr_MinTraderP99Ratio tier then 1 else (0 :: int))
        in \<lparr>tv_passed = True, tv_payoffPassed = payoffPassed, tv_tailPassed = 0 < enforcedTail,
            tv_suppression = ''''\<rparr>)"

definition severityRank :: "Severity \<Rightarrow> int" where
  "severityRank s = (if s = SeverityHard then 4
     else if s = SeverityCritical then 3
     else if s = SeverityWarning then 2
     else if s = SeverityInfo then 1
     else 0)"

interpretation score_rank: severity_order severityRank
  by unfold_locales (auto simp: severityRank_def)

definition safeRatio :: "float64 \<Rightarrow> float64 \<Rightarrow> float64" where
  "safeRatio num denom = (if denom \<le> 0 then 0 else num / denom)"

definition applyLowBaselineCap ::
    "sc_Result \<Rightarrow> Severity \<Rightarrow> float64 \<Rightarrow> float64 \<Rightarrow> Thresholds \<Rightarrow> sc_Result" where
  "applyLowBaselineCap r fired notional odds t =
     (if \<not> th_LowBaselineCapEnabled t then r
      else if \<not> rs_LowMarketBaselineConfidence r then r
      else let cap = th_LowBaselineSingleMaxSeverity t;
               cap = (if cap = '''' then SeverityInfo else cap) in
        if th_LowBaselineAllowCriticalAbsolute t
           \<and> tr_MinNotionalUSD (th_Critical t) \<le> notional
           \<and> (tr_MinOdds (th_Critical t) \<le> 0 \<or> tr_MinOdds (th_Critical t) \<le> odds)
        then r
        else if severityRank cap < severityRank fired
        then r\<lparr>rs_Severity := cap, rs_SeverityCapped := True\<rparr>
        else r)"

definition marketReady :: "Stats \<Rightarrow> Thresholds \<Rightarrow> bool" where
  "marketReady market t \<longleftrightarrow> th_MinBaselineTrades t \<le> st_Count market
     \<and> th_MinBaselineNotionalUSD t \<le> st_TotalUSD market \<and> 0 < st_P95USD market"

definition traderReady :: "Stats \<Rightarrow> Thresholds \<Rightarrow> bool" where
  "traderReady trader t \<longleftrightarrow> th_MinBaselineTrades t \<le> st_Count trader \<and> 0 < st_P95USD trader"

text \<open>The ladder, from the highest rung down, and the loop over it.\<close>

definition sc_tiers :: "Thresholds \<Rightarrow> (Severity \<times> Tier) list" where
  "sc_tiers t = [(SeverityCritical, th_Critical t), (SeverityWarning, th_Warning t), (SeverityInfo, th_Info t)]"

definition sc_base :: "float64 \<Rightarrow> float64 \<Rightarrow> Stats \<Rightarrow> Stats \<Rightarrow> Thresholds \<Rightarrow> sc_Result" where
  "sc_base notionalUSD price market trader t =
     (let odds = 1 / price in
      no_result\<lparr>rs_Odds := odds,
        rs_GrossPayoutIfWinUSD := notionalUSD * odds,
        rs_ProfitIfWinUSD := notionalUSD * (odds - 1),
        rs_MarketP95Ratio := safeRatio notionalUSD (st_P95USD market),
        rs_MarketP99Ratio := safeRatio notionalUSD (st_P99USD market),
        rs_TraderP95Ratio := safeRatio notionalUSD (st_P95USD trader),
        rs_TraderP99Ratio := safeRatio notionalUSD (st_P99USD trader),
        rs_LowMarketBaselineConfidence := \<not> marketReady market t,
        rs_LowTraderBaselineConfidence := \<not> traderReady trader t\<rparr>)"

definition sc_eval :: "float64 \<Rightarrow> sc_Result \<Rightarrow> Stats \<Rightarrow> Stats \<Rightarrow> Thresholds \<Rightarrow> Tier \<Rightarrow> tierVerdict" where
  "sc_eval notionalUSD base market trader t spec =
     evaluateTier notionalUSD (rs_Odds base) (rs_ProfitIfWinUSD base)
       (rs_MarketP95Ratio base) (rs_MarketP99Ratio base) (rs_TraderP95Ratio base) (rs_TraderP99Ratio base)
       (marketReady market t) (traderReady trader t) spec"

fun tier_loop :: "float64 \<Rightarrow> sc_Result \<Rightarrow> Stats \<Rightarrow> Stats \<Rightarrow> Thresholds \<Rightarrow> (Severity \<times> Tier) list \<Rightarrow> sc_Result option" where
  "tier_loop notionalUSD base market trader t [] = None"
| "tier_loop notionalUSD base market trader t ((sev, spec) # rest) =
     (let v = sc_eval notionalUSD base market trader t spec in
      if tv_passed v
      then Some (applyLowBaselineCap
             (base\<lparr>rs_Fired := True, rs_Severity := sev, rs_PayoffGatePassed := tv_payoffPassed v,
                   rs_TailGatePassed := tv_tailPassed v\<rparr>) sev notionalUSD (rs_Odds base) t)
      else tier_loop notionalUSD base market trader t rest)"

definition Score :: "float64 \<Rightarrow> float64 \<Rightarrow> Stats \<Rightarrow> Stats \<Rightarrow> Thresholds \<Rightarrow> sc_Result" where
  "Score notionalUSD price market trader t =
     (if notionalUSD \<le> 0 \<or> price \<le> 0 \<or> 1 \<le> price
      then no_result\<lparr>rs_SuppressedReason := ''invalid_input''\<rparr>
      else let base = sc_base notionalUSD price market trader t in
        case tier_loop notionalUSD base market trader t (sc_tiers t) of
          Some r \<Rightarrow> r
        | None \<Rightarrow> let v = sc_eval notionalUSD base market trader t (th_Info t)
            in base\<lparr>rs_SuppressedReason := tv_suppression v, rs_PayoffGatePassed := tv_payoffPassed v\<rparr>)"

subsection \<open>Properties of the tier gates\<close>

text \<open>The gates of a tier as one predicate.\<close>

definition gate :: "float64 \<Rightarrow> float64 \<Rightarrow> bool" where
  "gate lo v \<longleftrightarrow> \<not> (0 < lo \<and> v < lo)"

definition clears :: "float64 \<Rightarrow> sc_Result \<Rightarrow> bool \<Rightarrow> bool \<Rightarrow> Tier \<Rightarrow> bool" where
  "clears n base mr tr tier \<longleftrightarrow>
     \<not> n < tr_MinNotionalUSD tier \<and> gate (tr_MinOdds tier) (rs_Odds base) \<and>
     (tr_MinProfitUSD tier \<le> 0 \<or> tr_MinProfitUSD tier \<le> rs_ProfitIfWinUSD base) \<and>
     (mr \<longrightarrow> gate (tr_MinMarketP95Ratio tier) (rs_MarketP95Ratio base)
          \<and> gate (tr_MinMarketP99Ratio tier) (rs_MarketP99Ratio base)) \<and>
     (tr \<longrightarrow> gate (tr_MinTraderP95Ratio tier) (rs_TraderP95Ratio base)
          \<and> gate (tr_MinTraderP99Ratio tier) (rs_TraderP99Ratio base))"

lemma evaluateTier_passed:
  "tv_passed (sc_eval n base market trader t tier)
     \<longleftrightarrow> clears n base (marketReady market t) (traderReady trader t) tier"
  by (simp add: sc_eval_def evaluateTier_def clears_def gate_def blocked_by_def Let_def)

lemma evaluateTier_suppression:
  "tv_suppression (sc_eval n base market trader t tier) = ''''
     \<longleftrightarrow> tv_passed (sc_eval n base market trader t tier)"
  by (simp add: sc_eval_def evaluateTier_def blocked_by_def Let_def)

text \<open>The fields the cap may touch are only the severity and its flag, and only downwards.\<close>

lemma applyLowBaselineCap_fields [simp]:
  "rs_Fired (applyLowBaselineCap r f n od t) = rs_Fired r"
  "rs_Odds (applyLowBaselineCap r f n od t) = rs_Odds r"
  "rs_ProfitIfWinUSD (applyLowBaselineCap r f n od t) = rs_ProfitIfWinUSD r"
  "rs_SuppressedReason (applyLowBaselineCap r f n od t) = rs_SuppressedReason r"
  by (simp_all add: applyLowBaselineCap_def Let_def)

definition effective_cap :: "Thresholds \<Rightarrow> Severity" where
  "effective_cap t = (if th_LowBaselineSingleMaxSeverity t = '''' then SeverityInfo
     else th_LowBaselineSingleMaxSeverity t)"

text \<open>The exemption from the cap: the absolute floors of the Critical tier.\<close>

definition exempt :: "Thresholds \<Rightarrow> float64 \<Rightarrow> float64 \<Rightarrow> bool" where
  "exempt t n od \<longleftrightarrow> th_LowBaselineAllowCriticalAbsolute t
     \<and> tr_MinNotionalUSD (th_Critical t) \<le> n
     \<and> (tr_MinOdds (th_Critical t) \<le> 0 \<or> tr_MinOdds (th_Critical t) \<le> od)"

definition cap_applies :: "Thresholds \<Rightarrow> bool \<Rightarrow> float64 \<Rightarrow> float64 \<Rightarrow> bool" where
  "cap_applies t low n od \<longleftrightarrow> th_LowBaselineCapEnabled t \<and> low \<and> \<not> exempt t n od"

lemma applyLowBaselineCap_rank:
  "rs_Severity r = f \<Longrightarrow> severityRank (rs_Severity (applyLowBaselineCap r f n od t)) =
     (if cap_applies t (rs_LowMarketBaselineConfidence r) n od
      then min (severityRank f) (severityRank (effective_cap t)) else severityRank f)"
  by (auto simp: applyLowBaselineCap_def cap_applies_def exempt_def effective_cap_def Let_def)

definition sc_rung :: "float64 \<Rightarrow> sc_Result \<Rightarrow> bool \<Rightarrow> bool \<Rightarrow> Thresholds \<Rightarrow> Severity" where
  "sc_rung n base mr tr t =
     (if clears n base mr tr (th_Critical t) then SeverityCritical
      else if clears n base mr tr (th_Warning t) then SeverityWarning
      else if clears n base mr tr (th_Info t) then SeverityInfo else '''')"

lemma tier_loop_sc_tiers:
  "tier_loop n base market trader t (sc_tiers t) =
     (let rung = sc_rung n base (marketReady market t) (traderReady trader t) t;
          v = sc_eval n base market trader t (if rung = SeverityCritical then th_Critical t
                else if rung = SeverityWarning then th_Warning t else th_Info t)
      in if rung = '''' then None
         else Some (applyLowBaselineCap
             (base\<lparr>rs_Fired := True, rs_Severity := rung, rs_PayoffGatePassed := tv_payoffPassed v,
                   rs_TailGatePassed := tv_tailPassed v\<rparr>) rung n (rs_Odds base) t))"
  by (simp add: sc_tiers_def sc_rung_def evaluateTier_passed Let_def)

lemma sc_base_fields [simp]:
  "rs_Fired (sc_base n p m tr t) = False" "rs_Severity (sc_base n p m tr t) = ''''"
  "rs_SuppressedReason (sc_base n p m tr t) = ''''"
  "rs_LowMarketBaselineConfidence (sc_base n p m tr t) = (\<not> marketReady m t)"
  by (simp_all add: sc_base_def no_result_def Let_def)

definition valid_input :: "float64 \<Rightarrow> float64 \<Rightarrow> bool" where
  "valid_input n p \<longleftrightarrow> \<not> (n \<le> 0 \<or> p \<le> 0 \<or> 1 \<le> p)"

definition sc_rung_of :: "float64 \<Rightarrow> float64 \<Rightarrow> Stats \<Rightarrow> Stats \<Rightarrow> Thresholds \<Rightarrow> Severity" where
  "sc_rung_of n p market trader t =
     sc_rung n (sc_base n p market trader t) (marketReady market t) (traderReady trader t) t"

lemma severityRank_simps [simp]: "severityRank ''critical'' = 3" "severityRank ''warning'' = 2"
  "severityRank ''info'' = 1" "severityRank '''' = 0" "severityRank ''hard'' = 4"
  by (simp_all add: severityRank_def)

lemma Score_severity:
  assumes "valid_input n p"
  shows "severityRank (rs_Severity (Score n p market trader t)) =
    (if cap_applies t (\<not> marketReady market t) n (1 / p)
     then min (severityRank (sc_rung_of n p market trader t)) (severityRank (effective_cap t))
     else severityRank (sc_rung_of n p market trader t))"
proof -
  let ?b = "sc_base n p market trader t"
  have o: "rs_Odds ?b = 1 / p" by (simp add: sc_base_def Let_def)
  have r: "0 \<le> severityRank (effective_cap t)" using score_rank.rk_range by blast
  show ?thesis
  proof (cases "sc_rung_of n p market trader t = ''''")
    case True
    then show ?thesis using assms r
      by (simp add: Score_def valid_input_def sc_rung_of_def tier_loop_sc_tiers Let_def)
  next
    case False
    then show ?thesis using assms
      by (simp add: Score_def valid_input_def sc_rung_of_def tier_loop_sc_tiers Let_def
          applyLowBaselineCap_rank o)
  qed
qed

lemma Score_fired:
  assumes "valid_input n p"
  shows "rs_Fired (Score n p market trader t) = (sc_rung_of n p market trader t \<noteq> '''')"
    and "(rs_SuppressedReason (Score n p market trader t) = '''') = rs_Fired (Score n p market trader t)"
proof -
  let ?b = "sc_base n p market trader t"
  have "sc_rung_of n p market trader t = '''' \<Longrightarrow> \<not> tv_passed (sc_eval n ?b market trader t (th_Info t))"
    by (simp add: evaluateTier_passed sc_rung_of_def sc_rung_def split: if_splits)
  then have "sc_rung_of n p market trader t = '''' \<Longrightarrow> tv_suppression (sc_eval n ?b market trader t (th_Info t)) \<noteq> ''''"
    using evaluateTier_suppression by blast
  then show "rs_Fired (Score n p market trader t) = (sc_rung_of n p market trader t \<noteq> '''')"
    "(rs_SuppressedReason (Score n p market trader t) = '''') = rs_Fired (Score n p market trader t)"
    using assms
    by (auto simp: Score_def valid_input_def sc_rung_of_def tier_loop_sc_tiers Let_def)
qed

text \<open>C20. The scorer, case by case: invalid input is suppressed with its own code; otherwise the trade
  fires exactly when some tier's every gate clears, at the highest such tier, lowered to the
  configured cap (Info when none is set) when the market baseline is not ready and the trade is
  not exempt, and never raised by it; a suppression code is reported exactly when nothing fires, and
  so for invalid input too, where the comment on \<open>SuppressedReason\<close> promises none.\<close>

theorem Score_spec:
  "let r = Score n p market trader t; rung = sc_rung_of n p market trader t in
   if valid_input n p
   then rs_Fired r = (rung \<noteq> '''') \<and> (rs_SuppressedReason r = '''') = rs_Fired r \<and>
        severityRank (rs_Severity r) =
          (if cap_applies t (\<not> marketReady market t) n (1 / p)
           then min (severityRank rung) (severityRank (effective_cap t)) else severityRank rung)
   else r = no_result\<lparr>rs_SuppressedReason := ''invalid_input''\<rparr>"
proof (cases "valid_input n p")
  case True
  then show ?thesis using Score_fired Score_severity by (simp add: Let_def)
next
  case False
  then show ?thesis by (auto simp: Score_def valid_input_def Let_def)
qed

subsection \<open>Monotonicity in the notional\<close>

lemma safeRatio_mono:
  assumes "0 < n" "n \<le> n'" "isfin n'"
  shows "safeRatio n d \<le> safeRatio n' d \<or> safeRatio n' d = NaN"
proof (cases "d \<le> 0 \<or> d = NaN")
  case True
  then show ?thesis by (cases n'; cases d) (auto simp: safeRatio_def)
next
  case False
  have d: "0 < d" using False by (cases d) (auto simp: zero_f64)
  have "isfin n" using assms by (cases n; cases n') (auto simp: zero_f64)
  then have "n / d \<le> n' / d" using assms d by (intro f64_div_mono f64_div_not_NaN) auto
  then show ?thesis using False by (simp add: safeRatio_def)
qed

lemma odds_ge_1:
  assumes "0 < p" "p < 1"
  shows "1 \<le> 1 / p \<and> 0 \<le> 1 / p - (1 :: float64)"
proof -
  obtain r where r: "p = Fin r" "0 < r" "r < 1" using assms by (cases p) (auto simp: zero_f64 one_f64)
  have "1 \<le> fl (1 / r)" using r by (intro fl_ge_one) simp
  then show ?thesis using r
    by (cases "fl (1 / r)") (auto simp: one_f64 zero_f64 minus_float64_def intro: Fin_fl_nonneg)
qed

text \<open>A NaN price passes the input check; then odds and profit are NaN at either notional.\<close>

lemma profit_mono:
  assumes "0 < n" "n \<le> n'" "isfin n'" "p = NaN \<or> 0 < p \<and> p < 1"
  shows "n * (1 / p - 1) \<le> n' * (1 / p - 1) \<or> n * (1 / p - 1) = NaN"
proof (cases "p = NaN")
  case True
  then show ?thesis by (cases n) (simp_all add: one_f64 minus_float64_def)
next
  case False
  then have o: "0 \<le> 1 / p - 1" using odds_ge_1 assms(4) by simp
  obtain a b where ab: "n = Fin a" "n' = Fin b" "0 < a" "a \<le> b"
    using assms by (cases n; cases n') (auto simp: zero_f64)
  show ?thesis using o ab
    by (cases "1 / p - 1") (auto simp: zero_f64 inf_of_def intro!: fl_mono mult_right_mono)
qed

lemma gate_mono: "gate lo v \<Longrightarrow> v \<le> v' \<or> v' = NaN \<Longrightarrow> gate lo v'"
  using f64_le_less_trans by (auto simp: gate_def)

lemma clears_mono:
  assumes "0 < n" "n \<le> n'" "isfin n'" "p = NaN \<or> 0 < p \<and> p < 1"
    and "clears n (sc_base n p market trader t) mr tr tier"
  shows "clears n' (sc_base n' p market trader t) mr tr tier"
proof -
  have f: "rs_Odds (sc_base k p market trader t) = 1 / p"
    "rs_ProfitIfWinUSD (sc_base k p market trader t) = k * (1 / p - 1)"
    "rs_MarketP95Ratio (sc_base k p market trader t) = safeRatio k (st_P95USD market)"
    "rs_MarketP99Ratio (sc_base k p market trader t) = safeRatio k (st_P99USD market)"
    "rs_TraderP95Ratio (sc_base k p market trader t) = safeRatio k (st_P95USD trader)"
    "rs_TraderP99Ratio (sc_base k p market trader t) = safeRatio k (st_P99USD trader)" for k
    by (simp_all add: sc_base_def Let_def)
  have g: "gate lo (safeRatio n d) \<Longrightarrow> gate lo (safeRatio n' d)" for lo d
    using gate_mono safeRatio_mono [OF assms(1-3)] by blast
  have q: "lo \<le> n * (1 / p - 1) \<Longrightarrow> lo \<le> n' * (1 / p - 1)" for lo
    using profit_mono [OF assms(1-4)] f64_le_trans f64_le_not_NaN by metis
  have a: "\<not> n < lo \<Longrightarrow> \<not> n' < lo" for lo
    using assms(2) f64_le_less_trans by blast
  show ?thesis using assms(5) unfolding clears_def f
    by (elim conjE) (intro conjI impI; (erule disjE)?; simp add: a g q)
qed

lemma sc_rung_mono:
  assumes "0 < n" "n \<le> n'" "isfin n'" "p = NaN \<or> 0 < p \<and> p < 1"
  shows "severityRank (sc_rung_of n p market trader t) \<le> severityRank (sc_rung_of n' p market trader t)"
proof -
  have c: "clears n (sc_base n p market trader t) mr tr tier \<Longrightarrow>
      clears n' (sc_base n' p market trader t) mr tr tier" for mr tr tier
    using clears_mono [OF assms] .
  show ?thesis
    by (simp only: sc_rung_of_def sc_rung_def if_distrib [of severityRank] severityRank_simps severity_defs)
      (rule rung_mono; erule c)
qed

text \<open>A bigger trade is never scored lower: for the same price, baselines and thresholds the
  severity is monotone in the notional, through every gate, the rounding of odds, profit and
  ratios, and the cap on thin baselines.\<close>

theorem Score_monotone:
  assumes "n \<le> n'" "isfin n'"
  shows "severityRank (rs_Severity (Score n p market trader t))
    \<le> severityRank (rs_Severity (Score n' p market trader t))"
proof (cases "valid_input n p")
  case False
  then have "Score n p market trader t = no_result\<lparr>rs_SuppressedReason := ''invalid_input''\<rparr>"
    by (auto simp: Score_def valid_input_def)
  then show ?thesis using score_rank.rk_range by (simp add: no_result_def)
next
  case True
  have nn: "n \<noteq> NaN" using assms(1) f64_le_not_NaN by blast
  have v: "0 < n" "p = NaN \<or> 0 < p \<and> p < 1"
    using True nn f64_not_le [of n 0] f64_not_le [of p 0] f64_not_le [of 1 p]
    by (auto simp: valid_input_def)
  have v': "valid_input n' p"
    using f64_less_le_trans [OF v(1) assms(1)] True by (auto simp: valid_input_def f64_less_iff)
  have ex: "cap_applies t low n' (1 / p) \<Longrightarrow> cap_applies t low n (1 / p)" for low
    using assms(1) f64_le_trans by (auto simp: cap_applies_def exempt_def)
  show ?thesis
    using sc_rung_mono [OF v(1) assms v(2), of market trader t] ex
    by (auto simp: Score_severity [OF True] Score_severity [OF v'] min_def)
qed

definition tier_of :: "float64 \<Rightarrow> float64 \<Rightarrow> Tier" where
  "tier_of n od = \<lparr>tr_MinNotionalUSD = n, tr_MinOdds = od, tr_MinProfitUSD = 0, tr_MinMarketP95Ratio = 0,
     tr_MinMarketP99Ratio = 0, tr_MinTraderP95Ratio = 0, tr_MinTraderP99Ratio = 0, tr_MinMultiplier = 0\<rparr>"

definition ladder :: Thresholds where
  "ladder = \<lparr>th_Info = tier_of (fl 1000) (fl 2), th_Warning = tier_of (fl 5000) (fl 2),
     th_Critical = tier_of (fl 50000) (fl 2), th_MinBaselineTrades = 10, th_MinBaselineNotionalUSD = 0,
     th_LowBaselineCapEnabled = True, th_LowBaselineSingleMaxSeverity = ''warning'',
     th_LowBaselineAllowCriticalAbsolute = False\<rparr>"

text \<open>A Critical trade on a market without a baseline is capped to Warning.\<close>

lemma Score_monotone_witness:
  "severityRank (rs_Severity (Score (fl 1500) (fl 0.25) no_stats no_stats ladder))
     \<le> severityRank (rs_Severity (Score (fl 60000) (fl 0.25) no_stats no_stats ladder))
   \<and> rs_Severity (Score (fl 1500) (fl 0.25) no_stats no_stats ladder) = ''info''
   \<and> rs_Severity (Score (fl 60000) (fl 0.25) no_stats no_stats ladder) = ''warning''"
proof -
  have "fl 1500 \<le> fl 60000" "isfin (fl 60000)" by simp_all
  note Score_monotone [OF this, of "fl 0.25" no_stats no_stats ladder]
  moreover have "rs_Severity (Score (fl 1500) (fl 0.25) no_stats no_stats ladder) = ''info''" by code_simp
  moreover have "rs_Severity (Score (fl 60000) (fl 0.25) no_stats no_stats ladder) = ''warning''" by code_simp
  ultimately show ?thesis by blast
qed

end
