(* ===== verification/Cluster.thy ===== *)
theory Cluster
  imports Anomaly
begin

text \<open>
  Package cluster (\<open>internal/app/usecase/analytics/cluster/cluster.go\<close>): sliding windows of anomalous
  trades per category with a cool-down between alerts. The clock is an argument of each call; the
  invariant speaks of the sequence of calls in the order the mutex lets them through.
\<close>

subsection \<open>Definitions\<close>

record cl_Config =
  cc_Window :: duration
  cc_MinTrades :: int
  cc_MinUniqueWallets :: int
  cc_MinTotalUSD :: float64
  cc_Cooldown :: duration
  cc_SampleCap :: int

record cl_entry =
  en_at :: time
  en_wallet :: string
  en_notional :: float64
  en_trade :: TradeRef

record cl_Detector =
  cd_cfg :: cl_Config
  cd_perCat :: "int \<rightharpoonup> cl_entry list"
  cd_lastFire :: "int \<rightharpoonup> time"

definition defaultSampleCap :: int where "defaultSampleCap = 5"

definition cl_New :: "cl_Config \<Rightarrow> cl_Detector" where
  "cl_New cfg =
     (let cfg = (if cc_Window cfg \<le> 0 then cfg\<lparr>cc_Window := Hour\<rparr> else cfg);
          cfg = (if cc_MinTrades cfg \<le> 0 then cfg\<lparr>cc_MinTrades := 5\<rparr> else cfg);
          cfg = (if cc_MinUniqueWallets cfg \<le> 0 then cfg\<lparr>cc_MinUniqueWallets := 3\<rparr> else cfg);
          cfg = (if cc_Cooldown cfg \<le> 0 then cfg\<lparr>cc_Cooldown := cc_Window cfg\<rparr> else cfg);
          cfg = (if cc_SampleCap cfg \<le> 0 then cfg\<lparr>cc_SampleCap := defaultSampleCap\<rparr> else cfg)
      in \<lparr>cd_cfg = cfg, cd_perCat = Map.empty, cd_lastFire = Map.empty\<rparr>)"

text \<open>\<open>trimBefore\<close> stops at the first entry that is recent enough.\<close>

definition trimBefore :: "cl_entry list \<Rightarrow> time \<Rightarrow> cl_entry list" where
  "trimBefore es cutoff = dropWhile (\<lambda>e. en_at e < cutoff) es"

fun wallets_seen :: "cl_entry list \<Rightarrow> string list \<Rightarrow> string list" where
  "wallets_seen [] seen = seen"
| "wallets_seen (e # es) seen =
     (if en_wallet e = '''' then wallets_seen es seen
      else wallets_seen es (List.insert (en_wallet e) seen))"

definition uniqueWallets :: "cl_entry list \<Rightarrow> int" where
  "uniqueWallets es = int (length (wallets_seen es []))"

definition totalUSD :: "cl_entry list \<Rightarrow> float64" where
  "totalUSD es = foldl (\<lambda>s e. s + en_notional e) 0 es"

definition headSample :: "cl_entry list \<Rightarrow> int \<Rightarrow> TradeRef list" where
  "headSample es cap =
     (let cap = (if cap \<le> 0 \<or> int (length es) < cap then int (length es) else cap)
      in map en_trade (take (nat cap) es))"

definition cl_Observe :: "cl_Detector \<Rightarrow> time \<Rightarrow> int \<Rightarrow> TradeRef \<Rightarrow> cl_Detector \<times> ClusterStats option" where
  "cl_Observe d now cat tr =
     (let cfg = cd_cfg d;
          cutoff = now - cc_Window cfg;
          entries = (case cd_perCat d cat of None \<Rightarrow> [] | Some es \<Rightarrow> es);
          entries = trimBefore entries cutoff;
          entries = entries @ [\<lparr>en_at = tf_At tr, en_wallet = tf_Wallet tr,
                                en_notional = tf_NotionalUSD tr, en_trade = tr\<rparr>];
          d = d\<lparr>cd_perCat := (cd_perCat d)(cat \<mapsto> entries)\<rparr>
      in if int (length entries) < cc_MinTrades cfg then (d, None)
         else let wallets = uniqueWallets entries in
           if wallets < cc_MinUniqueWallets cfg then (d, None)
           else let total = totalUSD entries in
             if total < cc_MinTotalUSD cfg then (d, None)
             else if (case cd_lastFire d cat of None \<Rightarrow> False
                      | Some lst \<Rightarrow> t_sub now lst < cc_Cooldown cfg) then (d, None)
             else (d\<lparr>cd_lastFire := (cd_lastFire d)(cat \<mapsto> now)\<rparr>,
                   Some \<lparr>cs_Window = cc_Window cfg, cs_AnomalousTrades = int (length entries),
                         cs_UniqueWallets = wallets, cs_TotalUSD = total,
                         cs_Sample = headSample entries (cc_SampleCap cfg)\<rparr>))"

definition cl_Count :: "cl_Detector \<Rightarrow> time \<Rightarrow> int \<Rightarrow> cl_Detector \<times> int" where
  "cl_Count d now cat =
     (case cd_perCat d cat of
        None \<Rightarrow> (d, 0)
      | Some es \<Rightarrow> let es = trimBefore es (now - cc_Window (cd_cfg d))
          in (d\<lparr>cd_perCat := (cd_perCat d)(cat \<mapsto> es)\<rparr>, int (length es)))"

definition cl_Forget :: "cl_Detector \<Rightarrow> int \<Rightarrow> cl_Detector" where
  "cl_Forget d cat = d\<lparr>cd_perCat := (cd_perCat d)(cat := None), cd_lastFire := (cd_lastFire d)(cat := None)\<rparr>"

subsection \<open>What an alert certifies\<close>

lemma wallets_seen_set:
  "distinct seen \<Longrightarrow> distinct (wallets_seen es seen) \<and>
   set (wallets_seen es seen) = set seen \<union> (en_wallet ` set es - {''''})"
  by (induction es seen rule: wallets_seen.induct) auto

lemma uniqueWallets_card: "uniqueWallets es = int (card (en_wallet ` set es - {''''}))"
  using wallets_seen_set [of "[]" es] distinct_card [of "wallets_seen es []"]
  by (simp add: uniqueWallets_def)

definition cl_entry_of :: "TradeRef \<Rightarrow> cl_entry" where
  "cl_entry_of tr = \<lparr>en_at = tf_At tr, en_wallet = tf_Wallet tr, en_notional = tf_NotionalUSD tr,
     en_trade = tr\<rparr>"

definition cl_entries :: "cl_Detector \<Rightarrow> int \<Rightarrow> cl_entry list" where
  "cl_entries d cat = (case cd_perCat d cat of None \<Rightarrow> [] | Some es \<Rightarrow> es)"

definition in_cooldown :: "cl_Detector \<Rightarrow> time \<Rightarrow> int \<Rightarrow> bool" where
  "in_cooldown d now cat \<longleftrightarrow> (case cd_lastFire d cat of None \<Rightarrow> False
     | Some lst \<Rightarrow> t_sub now lst < cc_Cooldown (cd_cfg d))"

definition cl_window :: "cl_Detector \<Rightarrow> time \<Rightarrow> int \<Rightarrow> TradeRef \<Rightarrow> cl_entry list" where
  "cl_window d now cat tr = trimBefore (cl_entries d cat) (now - cc_Window (cd_cfg d)) @ [cl_entry_of tr]"

definition cl_qualifies :: "cl_Config \<Rightarrow> cl_entry list \<Rightarrow> bool" where
  "cl_qualifies cfg es \<longleftrightarrow> cc_MinTrades cfg \<le> int (length es)
     \<and> cc_MinUniqueWallets cfg \<le> int (card (en_wallet ` set es - {''''}))
     \<and> \<not> totalUSD es < cc_MinTotalUSD cfg"

lemma cl_Observe_cases:
  "cl_Observe d now cat tr =
     (let es = cl_window d now cat tr;
          d' = d\<lparr>cd_perCat := (cd_perCat d)(cat \<mapsto> es)\<rparr>
      in if cl_qualifies (cd_cfg d) es \<and> \<not> in_cooldown d now cat
         then (d'\<lparr>cd_lastFire := (cd_lastFire d)(cat \<mapsto> now)\<rparr>,
               Some \<lparr>cs_Window = cc_Window (cd_cfg d), cs_AnomalousTrades = int (length es),
                     cs_UniqueWallets = int (card (en_wallet ` set es - {''''})), cs_TotalUSD = totalUSD es,
                     cs_Sample = headSample es (cc_SampleCap (cd_cfg d))\<rparr>)
         else (d', None))"
  unfolding cl_Observe_def cl_window_def cl_entries_def cl_entry_of_def cl_qualifies_def in_cooldown_def
    Let_def uniqueWallets_card
  by (auto split: option.split)

subsection \<open>Sequences of calls\<close>

text \<open>A run logs the alerts and the resets of categories, in the order of the calls.\<close>

datatype cl_call = ClObserve time int TradeRef | ClCount time int | ClForget int

datatype cl_mark = Fired time int | Forgotten int

fun cl_step :: "cl_Detector \<times> cl_mark list \<Rightarrow> cl_call \<Rightarrow> cl_Detector \<times> cl_mark list" where
  "cl_step (d, ms) (ClObserve now cat tr) =
     (case cl_Observe d now cat tr of (d, None) \<Rightarrow> (d, ms) | (d, Some _) \<Rightarrow> (d, ms @ [Fired now cat]))"
| "cl_step (d, ms) (ClCount now cat) = (fst (cl_Count d now cat), ms)"
| "cl_step (d, ms) (ClForget cat) = (cl_Forget d cat, ms @ [Forgotten cat])"

definition cl_run :: "cl_Config \<Rightarrow> cl_call list \<Rightarrow> cl_Detector \<times> cl_mark list" where
  "cl_run cfg calls = foldl cl_step (cl_New cfg, []) calls"

text \<open>The alerts of a category, and the same alerts cut into epochs at each reset of the category.\<close>

fun alerts_of :: "int \<Rightarrow> cl_mark list \<Rightarrow> time list" where
  "alerts_of cat [] = []"
| "alerts_of cat (Fired now c # ms) = (if c = cat then [now] else []) @ alerts_of cat ms"
| "alerts_of cat (Forgotten c # ms) = alerts_of cat ms"

fun epochs :: "int \<Rightarrow> cl_mark list \<Rightarrow> time list list" where
  "epochs cat [] = [[]]"
| "epochs cat (Fired now c # ms) =
     (if c = cat then (now # hd (epochs cat ms)) # tl (epochs cat ms) else epochs cat ms)"
| "epochs cat (Forgotten c # ms) = (if c = cat then [[]] else []) @ epochs cat ms"

lemma epochs_ne [simp]: "epochs cat ms \<noteq> []"
  by (induction ms rule: epochs.induct) auto

lemma epochs_Fired: "epochs cat (ms @ [Fired now c]) =
     (if c = cat then butlast (epochs cat ms) @ [last (epochs cat ms) @ [now]] else epochs cat ms)"
proof (induction ms rule: epochs.induct)
  case (2 cat t c' ms)
  then show ?case by (cases "epochs cat ms") auto
qed auto

lemma epochs_Forgotten: "epochs cat (ms @ [Forgotten c]) = epochs cat ms @ (if c = cat then [[]] else [])"
proof (induction ms rule: epochs.induct)
  case (2 cat t c' ms)
  then show ?case by (cases "epochs cat ms") auto
qed auto

lemmas epochs_snoc = epochs_Fired epochs_Forgotten

lemma epochs_concat: "concat (epochs cat ms) = alerts_of cat ms"
proof (induction ms rule: epochs.induct)
  case (2 cat now c ms)
  then show ?case by (cases "epochs cat ms") auto
qed auto

lemma cl_New_cooldown: "0 < cc_Cooldown (cd_cfg (cl_New cfg))" "cd_lastFire (cl_New cfg) = Map.empty"
  "cd_perCat (cl_New cfg) = Map.empty"
  by (auto simp: cl_New_def Let_def)

lemma cl_cfg [simp]:
  "cd_cfg (fst (cl_Observe d now cat tr)) = cd_cfg d" "cd_cfg (fst (cl_Count d now cat)) = cd_cfg d"
  "cd_lastFire (fst (cl_Count d now cat)) = cd_lastFire d" "cd_cfg (cl_Forget d cat) = cd_cfg d"
  "cd_lastFire (cl_Forget d cat) = (cd_lastFire d)(cat := None)"
  by (simp_all add: cl_Observe_cases cl_Count_def cl_Forget_def Let_def split: option.split)

text \<open>Consecutive fires of one list are at least \<open>gap\<close> apart in saturated time.\<close>

definition spaced :: "duration \<Rightarrow> time list \<Rightarrow> bool" where
  "spaced gap ts \<longleftrightarrow> (\<forall>i. Suc i < length ts \<longrightarrow> gap \<le> t_sub (ts ! Suc i) (ts ! i))"

lemma spaced_Nil [simp]: "spaced gap []"
  by (simp add: spaced_def)

lemma spaced_snoc: "spaced gap ts \<Longrightarrow> ts = [] \<or> gap \<le> t_sub t (last ts) \<Longrightarrow> spaced gap (ts @ [t])"
  unfolding spaced_def
proof (intro allI impI)
  fix i assume a: "\<forall>i. Suc i < length ts \<longrightarrow> gap \<le> t_sub (ts ! Suc i) (ts ! i)"
    and l: "ts = [] \<or> gap \<le> t_sub t (last ts)" and i: "Suc i < length (ts @ [t])"
  show "gap \<le> t_sub ((ts @ [t]) ! Suc i) ((ts @ [t]) ! i)"
  proof (cases "Suc i < length ts")
    case True
    then show ?thesis using a by (simp add: nth_append)
  next
    case False
    then have "i = length ts - 1" "ts \<noteq> []" using i by auto
    then show ?thesis using l by (auto simp: nth_append last_conv_nth)
  qed
qed

text \<open>The open epoch of a category ends with its last alert, which is what the detector remembers.\<close>

definition cl_inv :: "cl_Config \<Rightarrow> cl_Detector \<times> cl_mark list \<Rightarrow> bool" where
  "cl_inv cfg s \<longleftrightarrow> cd_cfg (fst s) = cfg \<and>
     (\<forall>cat. let E = epochs cat (snd s) in list_all (spaced (cc_Cooldown cfg)) E \<and>
        cd_lastFire (fst s) cat = (if last E = [] then None else Some (last (last E))))"

lemma cl_step_inv [wt_inv]: "cl_inv cfg s \<Longrightarrow> cl_inv cfg (cl_step s c)"
proof (cases s)
  case (Pair d ms)
  assume inv: "cl_inv cfg s"
  show ?thesis
  proof (cases c)
    case (ClCount now cat)
    then show ?thesis using inv Pair by (simp add: cl_inv_def)
  next
    case (ClForget cat)
    then show ?thesis using inv Pair by (auto simp: cl_inv_def Let_def epochs_snoc)
  next
    case (ClObserve now cat tr)
    define E where "E = epochs cat ms"
    have E: "E = butlast E @ [last E]" by (simp add: E_def)
    have i: "cd_cfg d = cfg" "list_all (spaced (cc_Cooldown cfg)) E"
        "cd_lastFire d cat = (if last E = [] then None else Some (last (last E)))"
      using inv Pair by (auto simp: cl_inv_def E_def Let_def)
    have sp: "list_all (spaced (cc_Cooldown cfg)) (butlast E)" "spaced (cc_Cooldown cfg) (last E)"
      using i(2) by (subst (asm) E, simp)+
    show ?thesis
    proof (cases "cl_qualifies (cd_cfg d) (cl_window d now cat tr) \<and> \<not> in_cooldown d now cat")
      case False
      then have "cl_step s c = (d\<lparr>cd_perCat := (cd_perCat d)(cat \<mapsto> cl_window d now cat tr)\<rparr>, ms)"
        using ClObserve Pair by (auto simp: cl_Observe_cases Let_def)
      then show ?thesis using inv Pair by (simp add: cl_inv_def)
    next
      case True
      then have "cl_step s c = (d\<lparr>cd_perCat := (cd_perCat d)(cat \<mapsto> cl_window d now cat tr),
          cd_lastFire := (cd_lastFire d)(cat \<mapsto> now)\<rparr>, ms @ [Fired now cat])"
        using ClObserve Pair by (auto simp: cl_Observe_cases Let_def)
      moreover have "spaced (cc_Cooldown cfg) (last E @ [now])"
        using True i sp by (intro spaced_snoc) (auto simp: in_cooldown_def split: if_splits)
      ultimately show ?thesis using inv Pair sp by (auto simp: cl_inv_def Let_def E_def epochs_snoc)
    qed
  qed
qed

lemma cl_run_snoc: "cl_run cfg (calls @ [c]) = cl_step (cl_run cfg calls) c"
  by (simp add: cl_run_def)

lemma cl_run_inv: "cl_inv (cd_cfg (cl_New cfg)) (cl_run cfg calls)"
proof (induction calls rule: rev_induct)
  case Nil
  then show ?case by (simp add: cl_run_def cl_inv_def cl_New_cooldown spaced_def)
next
  case (snoc c calls)
  then show ?case unfolding cl_run_snoc by (rule cl_step_inv)
qed

lemma epochs_count:
  "length (epochs cat (snd (cl_run cfg calls))) = Suc (length (filter (\<lambda>c. c = ClForget cat) calls))"
proof (induction calls rule: rev_induct)
  case Nil
  then show ?case by (simp add: cl_run_def)
next
  case (snoc c calls)
  obtain d ms where r: "cl_run cfg calls = (d, ms)" by fastforce
  show ?case unfolding cl_run_snoc r
    using snoc r by (cases c) (auto simp: epochs_snoc cl_Observe_cases Let_def)
qed

text \<open>C21. The cool-down holds over every sequence of calls, whatever the interleaving of trades, reads and
  resets of all categories: the alerts of one category since its last \<open>Forget\<close> are spaced by at
  least the configured cool-down, which \<open>New\<close> makes positive. \<open>Forget\<close> is the only call that lifts
  it: the alerts of a category fall into one epoch more than there were calls of \<open>Forget\<close> for it, so
  without such a call, as in the program, all of them are spaced.\<close>

theorem cluster_cooldown:
  "let cd = cc_Cooldown (cd_cfg (cl_New cfg)); ms = snd (cl_run cfg calls) in
     0 < cd \<and> list_all (spaced cd) (epochs cat ms) \<and> concat (epochs cat ms) = alerts_of cat ms \<and>
     length (epochs cat ms) = Suc (length (filter (\<lambda>c. c = ClForget cat) calls))"
  using cl_run_inv [of cfg calls] cl_New_cooldown(1) [of cfg] epochs_count [of cat cfg calls]
  by (simp add: cl_inv_def Let_def epochs_concat)

text \<open>A cluster alert fires exactly when the trimmed window with the new trade has enough trades,
  enough distinct non-empty wallets and enough notional and the category is not cooling down; the
  alert carries the count, the number of distinct wallets and the total of exactly that window,
  and a refused call still records the trade.\<close>

theorem cluster_fires_iff:
  "let (d', alert) = cl_Observe d now cat tr; es = cl_window d now cat tr in
   (alert \<noteq> None) = (cl_qualifies (cd_cfg d) es \<and> \<not> in_cooldown d now cat)
   \<and> cl_entries d' cat = es
   \<and> map_option (\<lambda>s. (cs_AnomalousTrades s, cs_UniqueWallets s, cs_TotalUSD s)) alert
     = (if alert = None then None
        else Some (int (length es), int (card (en_wallet ` set es - {''''})), totalUSD es))"
  by (simp add: cl_Observe_cases cl_entries_def Let_def)

end
