(* ===== verification/Accumulation.thy ===== *)
theory Accumulation
  imports Market
begin

text \<open>
  Package accumulation (\<open>internal/app/usecase/analytics/accumulation/accumulation.go\<close>): the detector
  of one wallet building exposure on one side of one outcome. The ladder is walked from Critical
  down; a fired line gets a score from 0 to 100 and a confidence from 0 to 1.
\<close>

subsection \<open>Data\<close>

record Line =
  ln_Wallet :: string
  ln_MarketID :: string
  ln_OutcomeToken :: string
  ln_Side :: string
  ln_Window :: string
  ln_TradeCount :: int
  ln_TotalNotionalUSD :: float64
  ln_MeanNotionalUSD :: float64
  ln_MedianNotionalUSD :: float64
  ln_MaxNotionalUSD :: float64
  ln_MinNotionalUSD :: float64
  ln_AvgOdds :: float64
  ln_MaxOdds :: float64
  ln_OldestAt :: time
  ln_NewestAt :: time
  ln_MarketMedianUSD :: float64
  ln_MarketP95USD :: float64
  ln_TraderMedianUSD :: float64
  ln_TraderP95USD :: float64
  ln_LifecyclePct :: float64
  ln_Hot :: bool

definition Span :: "Line \<Rightarrow> duration" where
  "Span l = (if ln_TradeCount l < 2 then 0 else t_sub (ln_NewestAt l) (ln_OldestAt l))"

definition MarketMultiplier :: "Line \<Rightarrow> float64" where
  "MarketMultiplier l = (if ln_MarketMedianUSD l \<le> 0 then 0
     else ln_TotalNotionalUSD l / ln_MarketMedianUSD l)"

definition TraderMultiplier :: "Line \<Rightarrow> float64" where
  "TraderMultiplier l = (if ln_TraderMedianUSD l \<le> 0 then 0
     else ln_TotalNotionalUSD l / ln_TraderMedianUSD l)"

definition LineProfitIfWinUSD :: "Line \<Rightarrow> float64" where
  "LineProfitIfWinUSD l = (if ln_AvgOdds l \<le> 1 \<or> ln_TotalNotionalUSD l \<le> 0 then 0
     else ln_TotalNotionalUSD l * (ln_AvgOdds l - 1))"

record ac_Config =
  ac_Enabled :: bool
  ac_Window :: duration
  ac_MinTrades :: int
  ac_TradeFractionOfInfo :: float64
  ac_TotalMultiplier :: float64
  ac_ManySmallsMultiplier :: float64
  ac_HardMultiplier :: float64
  ac_Cooldown :: duration

definition ac_applyDefaults :: "ac_Config \<Rightarrow> ac_Config" where
  "ac_applyDefaults c =
     (let c = (if ac_MinTrades c \<le> 0 then c\<lparr>ac_MinTrades := 3\<rparr> else c);
          c = (if ac_TradeFractionOfInfo c \<le> 0 then c\<lparr>ac_TradeFractionOfInfo := fl 0.6\<rparr> else c);
          c = (if ac_TotalMultiplier c \<le> 0 then c\<lparr>ac_TotalMultiplier := fl 2\<rparr> else c);
          c = (if ac_ManySmallsMultiplier c \<le> 0 then c\<lparr>ac_ManySmallsMultiplier := fl 4\<rparr> else c);
          c = (if ac_HardMultiplier c \<le> 0 then c\<lparr>ac_HardMultiplier := fl 3\<rparr> else c);
          c = (if ac_Cooldown c \<le> 0 then c\<lparr>ac_Cooldown := 30 * Minute\<rparr> else c);
          c = (if ac_Window c \<le> 0 then c\<lparr>ac_Window := 24 * Hour\<rparr> else c)
      in c)"

record ac_Verdict =
  av_Fired :: bool
  av_Severity :: Severity
  av_Score :: int
  av_Confidence :: float64
  av_Reasons :: "string list"
  av_Window :: string
  av_LineMarketMultiplier :: float64
  av_LineTraderMultiplier :: float64
  av_SizePath :: string

record ac_Detector =
  ad_cfg :: ac_Config
  ad_thresholds :: Thresholds

definition ac_New :: "ac_Config \<Rightarrow> Thresholds \<Rightarrow> ac_Detector" where
  "ac_New cfg t = \<lparr>ad_cfg = ac_applyDefaults cfg, ad_thresholds = t\<rparr>"

subsection \<open>Gates\<close>

definition tierMinTrades :: "Severity \<Rightarrow> int" where
  "tierMinTrades sev = (if sev = SeverityCritical \<or> sev = SeverityHard then 5
     else if sev = SeverityWarning then 4 else 3)"

definition passesNonSize :: "ac_Detector \<Rightarrow> Line \<Rightarrow> Tier \<Rightarrow> bool" where
  "passesNonSize d line t =
     (if 0 < tr_MinOdds t \<and> ln_AvgOdds line < tr_MinOdds t then False
      else if 0 < tr_MinProfitUSD t \<and> LineProfitIfWinUSD line < tr_MinProfitUSD t then False
      else if 0 < tr_MinMarketP95Ratio t \<and> 0 < ln_MarketP95USD line
           \<and> (let lineRatio = ln_TotalNotionalUSD line / ln_MarketP95USD line;
                  maxRatio = ln_MaxNotionalUSD line / ln_MarketP95USD line
              in lineRatio < tr_MinMarketP95Ratio t \<and> maxRatio < tr_MinMarketP95Ratio t) then False
      else if 0 < tr_MinTraderP95Ratio t \<and> 0 < ln_TraderP95USD line
           \<and> ln_TotalNotionalUSD line / ln_TraderP95USD line < tr_MinTraderP95Ratio t then False
      else True)"

definition passesSize :: "ac_Detector \<Rightarrow> Line \<Rightarrow> Tier \<Rightarrow> string" where
  "passesSize d line t =
     (let tierNotional = tr_MinNotionalUSD t in
      if tierNotional \<le> 0 then (if 0 < ln_TotalNotionalUSD line then ''many-smalls'' else '''')
      else let meaningfulTotalFloor = ac_TotalMultiplier (ad_cfg d) * tierNotional;
               manySmallsTotalFloor = ac_ManySmallsMultiplier (ad_cfg d) * tierNotional;
               medianFloor = ac_TradeFractionOfInfo (ad_cfg d) * tierNotional in
        if manySmallsTotalFloor \<le> ln_TotalNotionalUSD line then ''many-smalls''
        else if meaningfulTotalFloor \<le> ln_TotalNotionalUSD line
                \<and> medianFloor \<le> ln_MedianNotionalUSD line then ''meaningful''
        else '''')"

definition reasons :: "ac_Detector \<Rightarrow> Line \<Rightarrow> Tier \<Rightarrow> string \<Rightarrow> string list" where
  "reasons d line t sizePath =
     (let out = [''SAME_TRADER_ACCUMULATION''];
          out = add_if (0 < tr_MinProfitUSD t \<and> fl 2 * tr_MinProfitUSD t \<le> LineProfitIfWinUSD line)
                  ''LINE_PAYOFF_HIGH'' out;
          out = add_if (sizePath = ''many-smalls'') ''MANY_SMALLS_SAME_SIDE'' out;
          ratio = ln_TotalNotionalUSD line / ln_MarketP95USD line;
          ratio = (if ratio < ln_MaxNotionalUSD line / ln_MarketP95USD line
                   then ln_MaxNotionalUSD line / ln_MarketP95USD line else ratio);
          out = add_if (0 < ln_MarketP95USD line \<and> 0 < tr_MinMarketP95Ratio t
                        \<and> fl 2 * tr_MinMarketP95Ratio t \<le> ratio)
                  ''LINE_MARKET_TAIL'' out;
          out = add_if (0 < ln_TraderP95USD line \<and> 0 < tr_MinTraderP95Ratio t
                        \<and> fl 2 * tr_MinTraderP95Ratio t \<le> ln_TotalNotionalUSD line / ln_TraderP95USD line)
                  ''LINE_TRADER_TAIL'' out;
          out = add_if (ln_MarketP95USD line \<le> 0 \<or> ln_TraderP95USD line \<le> 0)
                  ''LOW_BASELINE_CONFIDENCE'' out;
          out = add_if (fl 75 \<le> ln_LifecyclePct line) ''LATE_MARKET_ACCUMULATION'' out;
          out = add_if (ln_Hot line) ''HOT_MARKET_ACCUMULATION'' out;
          out = add_if (ln_TradeCount line < ac_MinTrades (ad_cfg d) + 2) ''LOW_SAMPLE_SIZE'' out
      in out)"

definition saturate :: "float64 \<Rightarrow> float64 \<Rightarrow> float64" where
  "saturate x scale = (if x \<le> 0 \<or> scale \<le> 0 then 0
     else let r = x / scale in if 1 < r then 1 else r)"

definition ac_score :: "ac_Detector \<Rightarrow> Line \<Rightarrow> Tier \<Rightarrow> Severity \<Rightarrow> int" where
  "ac_score d line t sev =
     (let s = (if sev = SeverityHard then fl 80
               else if sev = SeverityCritical then fl 60
               else if sev = SeverityWarning then fl 40
               else if sev = SeverityInfo then fl 20 else 0);
          s = (if 0 < tr_MinNotionalUSD t then
                 let totalRatio = ln_TotalNotionalUSD line / (ac_TotalMultiplier (ad_cfg d) * tr_MinNotionalUSD t)
                 in s + saturate totalRatio (fl 4) * fl 20 else s);
          s = (if 0 < ln_MarketP95USD line \<and> 0 < tr_MinMarketP95Ratio t
               then s + saturate (ln_TotalNotionalUSD line / ln_MarketP95USD line / tr_MinMarketP95Ratio t) (fl 4) * fl 10
               else s);
          s = (if 0 < ln_TraderP95USD line \<and> 0 < tr_MinTraderP95Ratio t
               then s + saturate (ln_TotalNotionalUSD line / ln_TraderP95USD line / tr_MinTraderP95Ratio t) (fl 4) * fl 5
               else s);
          s = s + fmin (ln_LifecyclePct line / fl 20) (fl 5);
          s = (if fl 100 < s then fl 100 else s);
          s = (if s < 0 then 0 else s)
      in f2i (fround s))"

definition ac_confidence :: "ac_Detector \<Rightarrow> Line \<Rightarrow> float64" where
  "ac_confidence d line =
     (let c = (if 0 < ln_MarketP95USD line \<and> 0 < ln_TraderP95USD line then fl 0.4
               else if 0 < ln_MarketP95USD line then fl 0.3 else fl 0.2);
          c = c + fl 0.3 * fmin (of_i (ln_TradeCount line) / fl 10) 1;
          c = c + fl 0.3 * fmin (Hours (Span line) / fl 4) 1;
          c = (if 1 < c then 1 else c);
          c = (if c < 0 then 0 else c)
      in c)"

subsection \<open>The decision\<close>

definition ac_tiers :: "ac_Detector \<Rightarrow> (Severity \<times> int \<times> Tier) list" where
  "ac_tiers d =
     [(SeverityCritical, tierMinTrades SeverityCritical, th_Critical (ad_thresholds d)),
      (SeverityWarning, tierMinTrades SeverityWarning, th_Warning (ad_thresholds d)),
      (SeverityInfo, tierMinTrades SeverityInfo, th_Info (ad_thresholds d))]"

fun ac_loop :: "ac_Detector \<Rightarrow> Line \<Rightarrow> ac_Verdict \<Rightarrow> (Severity \<times> int \<times> Tier) list \<Rightarrow> ac_Verdict" where
  "ac_loop d line v [] = v"
| "ac_loop d line v ((sev, minN, tier) # rest) =
     (if ln_TradeCount line < minN then ac_loop d line v rest
      else if \<not> passesNonSize d line tier then ac_loop d line v rest
      else let sizePath = passesSize d line tier in
        if sizePath = '''' then ac_loop d line v rest
        else let v = v\<lparr>av_Fired := True, av_Severity := sev, av_SizePath := sizePath,
                       av_Reasons := reasons d line tier sizePath,
                       av_Confidence := ac_confidence d line,
                       av_Score := ac_score d line tier sev\<rparr>
          in if sev = SeverityCritical \<and> ln_Hot line
                \<and> ac_HardMultiplier (ad_cfg d) * tr_MinNotionalUSD (th_Critical (ad_thresholds d))
                    \<le> ln_TotalNotionalUSD line
                \<and> tierMinTrades SeverityCritical \<le> ln_TradeCount line
             then v\<lparr>av_Severity := SeverityHard\<rparr> else v)"

definition ac_Decide :: "ac_Detector \<Rightarrow> Line \<Rightarrow> ac_Verdict" where
  "ac_Decide d line =
     (let v = \<lparr>av_Fired = False, av_Severity = '''', av_Score = 0, av_Confidence = 0, av_Reasons = [],
               av_Window = ln_Window line, av_LineMarketMultiplier = MarketMultiplier line,
               av_LineTraderMultiplier = TraderMultiplier line, av_SizePath = ''''\<rparr>
      in if \<not> ac_Enabled (ad_cfg d) then v
         else if ln_TradeCount line < ac_MinTrades (ad_cfg d) then v
         else ac_loop d line v (ac_tiers d))"

subsection \<open>The ladder\<close>

definition ac_pass :: "ac_Detector \<Rightarrow> Line \<Rightarrow> Severity \<Rightarrow> Tier \<Rightarrow> bool" where
  "ac_pass d line sev tier \<longleftrightarrow> tierMinTrades sev \<le> ln_TradeCount line \<and> passesNonSize d line tier
     \<and> passesSize d line tier \<noteq> ''''"

definition ac_rung :: "ac_Detector \<Rightarrow> Line \<Rightarrow> Severity" where
  "ac_rung d line =
     (if ac_pass d line SeverityCritical (th_Critical (ad_thresholds d)) then SeverityCritical
      else if ac_pass d line SeverityWarning (th_Warning (ad_thresholds d)) then SeverityWarning
      else if ac_pass d line SeverityInfo (th_Info (ad_thresholds d)) then SeverityInfo else '''')"

definition ac_hard :: "ac_Detector \<Rightarrow> Line \<Rightarrow> bool" where
  "ac_hard d line \<longleftrightarrow> ln_Hot line \<and>
     ac_HardMultiplier (ad_cfg d) * tr_MinNotionalUSD (th_Critical (ad_thresholds d)) \<le> ln_TotalNotionalUSD line"

definition ac_gated :: "ac_Detector \<Rightarrow> Line \<Rightarrow> bool" where
  "ac_gated d line \<longleftrightarrow> ac_Enabled (ad_cfg d) \<and> ac_MinTrades (ad_cfg d) \<le> ln_TradeCount line"

definition ac_tier_of :: "ac_Detector \<Rightarrow> Severity \<Rightarrow> Tier" where
  "ac_tier_of d sev = (if sev = SeverityCritical then th_Critical (ad_thresholds d)
     else if sev = SeverityWarning then th_Warning (ad_thresholds d) else th_Info (ad_thresholds d))"

lemma ac_loop_eq:
  "ac_loop d line v (ac_tiers d) =
     (let rung = ac_rung d line; tier = ac_tier_of d rung in
      if rung = '''' then v
      else v\<lparr>av_Fired := True,
             av_Severity := (if rung = SeverityCritical \<and> ac_hard d line then SeverityHard else rung),
             av_SizePath := passesSize d line tier,
             av_Reasons := reasons d line tier (passesSize d line tier),
             av_Confidence := ac_confidence d line, av_Score := ac_score d line tier rung\<rparr>)"
proof -
  have skip: "ac_loop d line v ((sev, tierMinTrades sev, tier) # rest) = ac_loop d line v rest"
    if "\<not> ac_pass d line sev tier" for sev tier rest
    using that by (auto simp: ac_pass_def Let_def)
  have take: "ac_loop d line v ((sev, tierMinTrades sev, tier) # rest) =
      v\<lparr>av_Fired := True,
        av_Severity := (if sev = SeverityCritical \<and> ac_hard d line then SeverityHard else sev),
        av_SizePath := passesSize d line tier, av_Reasons := reasons d line tier (passesSize d line tier),
        av_Confidence := ac_confidence d line, av_Score := ac_score d line tier sev\<rparr>"
    if "ac_pass d line sev tier" for sev tier rest
    using that by (auto simp: ac_pass_def ac_hard_def Let_def)
  have base: "ac_loop d line v [] = v" by simp
  show ?thesis
    by (cases "ac_pass d line SeverityCritical (th_Critical (ad_thresholds d))";
        cases "ac_pass d line SeverityWarning (th_Warning (ad_thresholds d))";
        cases "ac_pass d line SeverityInfo (th_Info (ad_thresholds d))")
      (simp_all add: ac_tiers_def ac_rung_def ac_tier_of_def Let_def skip take base
        del: ac_loop.simps severity_defs, simp_all)
qed

text \<open>
  The ladder as it is documented, every gate spelled out: the number of trades of the tier, the
  odds, the profit if the line wins, the ratios to the two baselines (a missing baseline passes, the
  market ratio may be reached by the whole line or by its largest trade), and one of two size paths.
\<close>

definition ac_rungs :: "ac_Detector \<Rightarrow> (Severity \<times> int \<times> Tier) list" where
  "ac_rungs d = [(SeverityCritical, 5, th_Critical (ad_thresholds d)), (SeverityWarning, 4, th_Warning (ad_thresholds d)),
     (SeverityInfo, 3, th_Info (ad_thresholds d))]"

definition line_profit :: "Line \<Rightarrow> float64" where
  "line_profit line = (if ln_AvgOdds line \<le> 1 \<or> ln_TotalNotionalUSD line \<le> 0 then 0
     else ln_TotalNotionalUSD line * (ln_AvgOdds line - 1))"

definition many_smalls :: "ac_Config \<Rightarrow> Line \<Rightarrow> float64 \<Rightarrow> bool" where
  "many_smalls c line floor_usd \<longleftrightarrow> (if floor_usd \<le> 0 then 0 < ln_TotalNotionalUSD line
     else ac_ManySmallsMultiplier c * floor_usd \<le> ln_TotalNotionalUSD line)"

definition meaningful :: "ac_Config \<Rightarrow> Line \<Rightarrow> float64 \<Rightarrow> bool" where
  "meaningful c line floor_usd \<longleftrightarrow> \<not> floor_usd \<le> 0 \<and> ac_TotalMultiplier c * floor_usd \<le> ln_TotalNotionalUSD line \<and>
     ac_TradeFractionOfInfo c * floor_usd \<le> ln_MedianNotionalUSD line"

definition line_qualifies :: "ac_Config \<Rightarrow> Line \<Rightarrow> Severity \<times> int \<times> Tier \<Rightarrow> bool" where
  "line_qualifies c line rung \<longleftrightarrow> (case rung of (sev, n, t) \<Rightarrow>
     n \<le> ln_TradeCount line \<and>
     \<not> (0 < tr_MinOdds t \<and> ln_AvgOdds line < tr_MinOdds t) \<and>
     \<not> (0 < tr_MinProfitUSD t \<and> line_profit line < tr_MinProfitUSD t) \<and>
     \<not> (0 < tr_MinMarketP95Ratio t \<and> 0 < ln_MarketP95USD line \<and>
        ln_TotalNotionalUSD line / ln_MarketP95USD line < tr_MinMarketP95Ratio t \<and>
        ln_MaxNotionalUSD line / ln_MarketP95USD line < tr_MinMarketP95Ratio t) \<and>
     \<not> (0 < tr_MinTraderP95Ratio t \<and> 0 < ln_TraderP95USD line \<and>
        ln_TotalNotionalUSD line / ln_TraderP95USD line < tr_MinTraderP95Ratio t) \<and>
     (many_smalls c line (tr_MinNotionalUSD t) \<or> meaningful c line (tr_MinNotionalUSD t)))"

lemma passesSize_eq: "passesSize d line t = (if many_smalls (ad_cfg d) line (tr_MinNotionalUSD t) then ''many-smalls''
    else if meaningful (ad_cfg d) line (tr_MinNotionalUSD t) then ''meaningful'' else '''')"
  by (simp add: passesSize_def many_smalls_def meaningful_def Let_def)

lemma pass_qualifies:
  "ac_pass d line sev t = line_qualifies (ad_cfg d) line (sev, tierMinTrades sev, t)"
  by (auto simp: ac_pass_def line_qualifies_def passesNonSize_def passesSize_eq LineProfitIfWinUSD_def
      line_profit_def Let_def)

lemma ladder_rung:
  "find (line_qualifies (ad_cfg d) line) (ac_rungs d) =
     (if ac_rung d line = '''' then None
      else Some (ac_rung d line, tierMinTrades (ac_rung d line), ac_tier_of d (ac_rung d line)))"
  by (simp add: ac_rungs_def ac_rung_def ac_tier_of_def pass_qualifies tierMinTrades_def)

lemma verdict_of_rung:
  "ac_Decide d line = (let v = \<lparr>av_Fired = False, av_Severity = '''', av_Score = 0, av_Confidence = 0, av_Reasons = [],
        av_Window = ln_Window line, av_LineMarketMultiplier = MarketMultiplier line,
        av_LineTraderMultiplier = TraderMultiplier line, av_SizePath = ''''\<rparr>; rung = ac_rung d line in
     if \<not> ac_gated d line \<or> rung = '''' then v
     else v\<lparr>av_Fired := True,
             av_Severity := (if rung = SeverityCritical \<and> ac_hard d line then SeverityHard else rung),
             av_SizePath := passesSize d line (ac_tier_of d rung),
             av_Reasons := reasons d line (ac_tier_of d rung) (passesSize d line (ac_tier_of d rung)),
             av_Confidence := ac_confidence d line, av_Score := ac_score d line (ac_tier_of d rung) rung\<rparr>)"
  by (auto simp: ac_Decide_def ac_loop_eq ac_gated_def Let_def simp del: severity_defs)

text \<open>C22. The accumulation detector is the documented ladder: an enabled detector with a line of the
  minimum number of trades fires with the highest rung whose gates all hold - trades, odds, profit if
  the line wins, market and trader ratios, size - raised to Hard exactly for a Critical line
  in a hot market whose total reaches the hard multiple of the Critical floor; the verdict names
  the size path, many small trades before a meaningful median, and gives its reasons and the line's
  score and confidence. When no rung holds it does not fire and carries score 0 and no reasons.\<close>

theorem accumulation_spec:
  "let v = ac_Decide d line; c = ad_cfg d in
   case (if ac_Enabled c \<and> ac_MinTrades c \<le> ln_TradeCount line
         then find (line_qualifies c line) (ac_rungs d) else None) of
     None \<Rightarrow> \<not> av_Fired v \<and> av_Severity v = '''' \<and> av_Score v = 0 \<and> av_Confidence v = 0 \<and> av_Reasons v = [] \<and>
       av_SizePath v = ''''
   | Some (sev, n, t) \<Rightarrow> av_Fired v \<and>
       av_Severity v = (if sev = SeverityCritical \<and> ln_Hot line \<and>
           ac_HardMultiplier c * tr_MinNotionalUSD (th_Critical (ad_thresholds d)) \<le> ln_TotalNotionalUSD line
         then SeverityHard else sev) \<and>
       av_SizePath v = (if many_smalls c line (tr_MinNotionalUSD t) then ''many-smalls'' else ''meaningful'') \<and>
       av_Reasons v = reasons d line t (av_SizePath v) \<and> av_Score v = ac_score d line t sev \<and>
       av_Confidence v = ac_confidence d line"
proof -
  have p: "ac_rung d line \<noteq> '''' \<Longrightarrow> passesSize d line (ac_tier_of d (ac_rung d line)) \<noteq> ''''"
    by (auto simp: ac_rung_def ac_tier_of_def ac_pass_def split: if_splits)
  show ?thesis
  proof (cases "ac_gated d line \<and> ac_rung d line \<noteq> ''''")
    case True
    then show ?thesis using p unfolding ladder_rung verdict_of_rung ac_gated_def ac_hard_def Let_def
      by (simp add: passesSize_eq split: if_splits del: severity_defs)
  next
    case False
    then show ?thesis unfolding ladder_rung verdict_of_rung ac_gated_def Let_def by (auto simp del: severity_defs)
  qed
qed

subsection \<open>Ranges\<close>

lemma saturate_ranged: "x \<noteq> NaN \<Longrightarrow> ranged 1 (saturate x (fl 4))"
proof -
  assume x: "x \<noteq> NaN"
  have p: "0 \<le> fl (a / 4)" if "0 < a" for a :: rat using that by (intro fl_nonneg) simp
  show ?thesis
  proof (cases x)
    case (Fin a)
    then show ?thesis using p [of a]
      by (cases "0 < a"; cases "fl (a / 4)") (auto simp: saturate_def Let_def zero_f64 one_f64)
  qed (use x in \<open>simp_all add: saturate_def Let_def zero_f64 one_f64\<close>)
qed

lemma isfin_add_not_NaN: "isfin x \<Longrightarrow> y \<noteq> NaN \<Longrightarrow> x + y \<noteq> NaN"
  by (cases x; cases y) auto

lemma pos_div_not_NaN: "0 < x \<Longrightarrow> isfin x \<Longrightarrow> 0 \<le> y \<Longrightarrow> x / y \<noteq> NaN" for x y :: float64
  by (cases x; cases y) (auto simp: zero_f64 inf_of_def)

lemma pos_div_div_not_NaN:
  "0 < x \<Longrightarrow> isfin x \<Longrightarrow> 0 < y \<Longrightarrow> 0 < z \<Longrightarrow> isfin z \<Longrightarrow> x / y / z \<noteq> NaN" for x y z :: float64
  by (cases x; cases y; cases z; cases "x / y") (auto simp: zero_f64 inf_of_def)

lemma ac_applyDefaults_TotalMultiplier: "\<not> ac_TotalMultiplier (ac_applyDefaults c) \<le> 0"
  by (simp add: ac_applyDefaults_def Let_def)

definition tier_ratios_finite :: "Tier \<Rightarrow> bool" where
  "tier_ratios_finite t \<longleftrightarrow> isfin (tr_MinMarketP95Ratio t) \<and> isfin (tr_MinTraderP95Ratio t)"

lemma ac_score_range:
  assumes "0 < ln_TotalNotionalUSD line" "isfin (ln_TotalNotionalUSD line)" "ln_LifecyclePct line \<noteq> NaN"
    and "0 \<le> ac_TotalMultiplier (ad_cfg d) * tr_MinNotionalUSD t" "tier_ratios_finite t"
  shows "0 \<le> ac_score d line t sev \<and> ac_score d line t sev \<le> 100"
proof -
  let ?T = "ln_TotalNotionalUSD line"
  define s0 where "s0 = (if sev = SeverityHard then fl 80 else if sev = SeverityCritical then fl 60
    else if sev = SeverityWarning then fl 40 else if sev = SeverityInfo then fl 20 else 0)"
  define s1 where "s1 = (if 0 < tr_MinNotionalUSD t
    then s0 + saturate (?T / (ac_TotalMultiplier (ad_cfg d) * tr_MinNotionalUSD t)) (fl 4) * fl 20 else s0)"
  define s2 where "s2 = (if 0 < ln_MarketP95USD line \<and> 0 < tr_MinMarketP95Ratio t
    then s1 + saturate (?T / ln_MarketP95USD line / tr_MinMarketP95Ratio t) (fl 4) * fl 10 else s1)"
  define s3 where "s3 = (if 0 < ln_TraderP95USD line \<and> 0 < tr_MinTraderP95Ratio t
    then s2 + saturate (?T / ln_TraderP95USD line / tr_MinTraderP95Ratio t) (fl 4) * fl 5 else s2)"
  define s4 where "s4 = s3 + fmin (ln_LifecyclePct line / fl 20) (fl 5)"
  define s5 where "s5 = (let s = (if fl 100 < s4 then fl 100 else s4) in if s < 0 then 0 else s)"
  have eq: "ac_score d line t sev = f2i (fround s5)"
    by (simp only: ac_score_def s0_def s1_def s2_def s3_def s4_def s5_def Let_def)
  have w0: "ranged 80 s0" by (simp add: s0_def)
  have m: "ranged n (saturate x (fl 4) * fl (of_int n))" if "x \<noteq> NaN" "0 \<le> n" "n \<le> 100" for x n
  proof -
    have "fl (of_int n) = Fin (of_int n)" using that by (intro fl_of_int) simp
    then show ?thesis using ranged_mult [OF saturate_ranged [OF that(1)], of n "Fin (of_int n)"] that by simp
  qed
  have "ranged 100 s1"
    using ranged_add [OF w0 m [OF pos_div_not_NaN [OF assms(1,2,4)], of 20]] ranged_mono [OF w0]
    by (simp add: s1_def)
  then have "ranged 110 s2"
    using ranged_add [OF _ m [OF pos_div_div_not_NaN [OF assms(1,2)], of _ _ 10], of 100 s1] assms(5)
      ranged_mono [of 100 s1 110]
    by (simp add: s2_def tier_ratios_finite_def)
  then have "ranged 115 s3"
    using ranged_add [OF _ m [OF pos_div_div_not_NaN [OF assms(1,2)], of _ _ 5], of 110 s2] assms(5)
      ranged_mono [of 110 s2 115]
    by (simp add: s3_def tier_ratios_finite_def)
  moreover have "fmin (ln_LifecyclePct line / fl 20) (fl 5) \<noteq> NaN"
    using assms(3) by (cases "ln_LifecyclePct line") (simp_all add: fmin_def)
  ultimately have "s4 \<noteq> NaN" unfolding s4_def by (intro isfin_add_not_NaN ranged_isfin)
  then have "ranged 100 s5" by (cases s4) (auto simp: s5_def Let_def zero_f64)
  then show ?thesis unfolding eq using f2i_round_ranged [of 100 s5] by simp
qed

lemma fmin_one: "x \<noteq> NaN \<Longrightarrow> fmin x 1 = NInf \<or> (\<exists>r. fmin x 1 = Fin r \<and> r \<le> 1)"
  by (cases x) (auto simp: fmin_def one_f64)

lemma le_Fin_add_not_NaN: "x \<le> Fin m \<Longrightarrow> y \<le> Fin n \<Longrightarrow> x + y \<noteq> NaN"
  by (cases x; cases y) auto

lemma ac_confidence_ranged: "ranged 1 (ac_confidence d line)"
proof -
  define c0 where "c0 = (if 0 < ln_MarketP95USD line \<and> 0 < ln_TraderP95USD line then fl 0.4
     else if 0 < ln_MarketP95USD line then fl 0.3 else fl 0.2)"
  define c1 where "c1 = c0 + fl 0.3 * fmin (of_i (ln_TradeCount line) / fl 10) 1"
  define c2 where "c2 = c1 + fl 0.3 * fmin (Hours (Span line) / fl 4) 1"
  have eq: "ac_confidence d line = (let c = (if 1 < c2 then 1 else c2) in if c < 0 then 0 else c)"
    by (simp only: ac_confidence_def c0_def c1_def c2_def Let_def)
  have "ranged 1 (fl 0.3)" "0 < fl 0.3" by (auto intro: ranged_fl) code_simp
  then obtain a where a: "fl 0.3 = Fin a" "0 < a" "a \<le> 1" by (auto simp: ranged_def)
  have k: "fl 0.3 * fmin x 1 \<le> Fin 1" if "x \<noteq> NaN" for x
  proof -
    have "fl (a * r) \<le> Fin 1" if "r \<le> 1" for r
    proof -
      have "a * r \<le> a * 1" using that a by (intro mult_left_mono) auto
      then have "a * r \<le> 1" using a by linarith
      then show ?thesis using fl_mono [of "a * r" 1] by simp
    qed
    then show ?thesis using fmin_one [OF that] a by (auto simp: inf_of_def)
  qed
  have z: "of_i n / fl 10 \<noteq> NaN" "Hours d / fl 4 \<noteq> NaN" for n d
    using Hours_not_NaN [of d] of_i_not_NaN [of n] by (cases "of_i n"; cases "Hours d"; simp)+
  have c0: "c0 \<le> Fin 1" unfolding c0_def using ranged_le [OF ranged_fl, of _ 1] by simp
  have "c1 \<le> Fin 1 + Fin 1" unfolding c1_def
    using c0 k [OF z(1)] by (intro f64_add_mono le_Fin_add_not_NaN) auto
  then have "c1 \<le> Fin 2" by simp
  then have "c2 \<noteq> NaN" unfolding c2_def using k [OF z(2)] by (rule le_Fin_add_not_NaN)
  then show ?thesis unfolding eq by (cases c2) (auto simp: Let_def zero_f64 one_f64)
qed

text \<open>The triage numbers keep their documented ranges: the score of any verdict is from 0 to 100 and
  its confidence from 0 to 1, for a positive finite line total, a life-cycle percentage that is
  not NaN and thresholds that are finite and whose floors give no NaN.\<close>

theorem accumulation_ranges:
  assumes "0 < ln_TotalNotionalUSD line" "isfin (ln_TotalNotionalUSD line)" "ln_LifecyclePct line \<noteq> NaN"
    and "\<forall>t \<in> {th_Critical th, th_Warning th, th_Info th}. tier_ratios_finite t
      \<and> 0 \<le> ac_TotalMultiplier (ac_applyDefaults cfg) * tr_MinNotionalUSD t"
  shows "0 \<le> av_Score (ac_Decide (ac_New cfg th) line) \<and> av_Score (ac_Decide (ac_New cfg th) line) \<le> 100
    \<and> 0 \<le> av_Confidence (ac_Decide (ac_New cfg th) line)
    \<and> av_Confidence (ac_Decide (ac_New cfg th) line) \<le> 1"
proof -
  let ?d = "ac_New cfg th" and ?v = "ac_Decide (ac_New cfg th) line"
  have t: "ac_tier_of ?d sev \<in> {th_Critical th, th_Warning th, th_Info th}" for sev
    by (simp add: ac_tier_of_def ac_New_def)
  have "0 \<le> ac_score ?d line (ac_tier_of ?d sev) sev \<and> ac_score ?d line (ac_tier_of ?d sev) sev \<le> 100" for sev
    using assms(4) t [of sev] by (intro ac_score_range assms(1-3)) (auto simp: ac_New_def)
  moreover have "0 \<le> ac_confidence ?d line" "ac_confidence ?d line \<le> 1"
    using ac_confidence_ranged ranged_one by blast+
  moreover have "(av_Score ?v = 0 \<and> av_Confidence ?v = 0) \<or> (\<exists>sev.
      av_Score ?v = ac_score ?d line (ac_tier_of ?d sev) sev \<and> av_Confidence ?v = ac_confidence ?d line)"
    unfolding ac_Decide_def ac_loop_eq Let_def by (auto simp del: severity_defs)
  ultimately show ?thesis by auto
qed

definition line_40k :: Line where
  "line_40k = \<lparr>ln_Wallet = ''w'', ln_MarketID = ''m'', ln_OutcomeToken = ''t'', ln_Side = ''BUY'',
     ln_Window = ''recent'', ln_TradeCount = 200, ln_TotalNotionalUSD = fl 40000, ln_MeanNotionalUSD = fl 200,
     ln_MedianNotionalUSD = fl 200, ln_MaxNotionalUSD = fl 200, ln_MinNotionalUSD = fl 200,
     ln_AvgOdds = fl 4, ln_MaxOdds = fl 5, ln_OldestAt = 0, ln_NewestAt = 6 * Hour, ln_MarketMedianUSD = 0,
     ln_MarketP95USD = 0, ln_TraderMedianUSD = 0, ln_TraderP95USD = 0, ln_LifecyclePct = fl 90, ln_Hot = True\<rparr>"

definition ac_cfg0 :: ac_Config where
  "ac_cfg0 = \<lparr>ac_Enabled = True, ac_Window = 0, ac_MinTrades = 0, ac_TradeFractionOfInfo = 0,
     ac_TotalMultiplier = 0, ac_ManySmallsMultiplier = 0, ac_HardMultiplier = 0, ac_Cooldown = 0\<rparr>"

definition ac_tier :: "float64 \<Rightarrow> Tier" where
  "ac_tier n = \<lparr>tr_MinNotionalUSD = n, tr_MinOdds = 0, tr_MinProfitUSD = 0, tr_MinMarketP95Ratio = 0,
     tr_MinMarketP99Ratio = 0, tr_MinTraderP95Ratio = 0, tr_MinTraderP99Ratio = 0, tr_MinMultiplier = 0\<rparr>"

definition ac_ladder :: Thresholds where
  "ac_ladder = \<lparr>th_Info = ac_tier (fl 1000), th_Warning = ac_tier (fl 5000), th_Critical = ac_tier (fl 50000),
     th_MinBaselineTrades = 10, th_MinBaselineNotionalUSD = 0, th_LowBaselineCapEnabled = False,
     th_LowBaselineSingleMaxSeverity = '''', th_LowBaselineAllowCriticalAbsolute = False\<rparr>"

text \<open>Two hundred trades of 200 dollars make a warning line by the many-smalls path.\<close>

lemma accumulation_ranges_witness:
  "0 \<le> av_Score (ac_Decide (ac_New ac_cfg0 ac_ladder) line_40k)
   \<and> av_Confidence (ac_Decide (ac_New ac_cfg0 ac_ladder) line_40k) \<le> 1
   \<and> av_Severity (ac_Decide (ac_New ac_cfg0 ac_ladder) line_40k) = ''warning''
   \<and> av_SizePath (ac_Decide (ac_New ac_cfg0 ac_ladder) line_40k) = ''many-smalls''"
proof -
  have h: "0 < ln_TotalNotionalUSD line_40k" "isfin (ln_TotalNotionalUSD line_40k)"
    "ln_LifecyclePct line_40k \<noteq> NaN"
    "\<forall>t \<in> {th_Critical ac_ladder, th_Warning ac_ladder, th_Info ac_ladder}. tier_ratios_finite t
      \<and> 0 \<le> ac_TotalMultiplier (ac_applyDefaults ac_cfg0) * tr_MinNotionalUSD t"
    by (simp_all add: line_40k_def ac_ladder_def ac_tier_def tier_ratios_finite_def ac_cfg0_def
        ac_applyDefaults_def fl_nonneg)
  have r: "ac_rung (ac_New ac_cfg0 ac_ladder) line_40k = ''warning''"
    "passesSize (ac_New ac_cfg0 ac_ladder) line_40k (ac_tier_of (ac_New ac_cfg0 ac_ladder) ''warning'')
       = ''many-smalls''" by code_simp+
  have g: "ac_Enabled (ad_cfg (ac_New ac_cfg0 ac_ladder))"
    "\<not> ln_TradeCount line_40k < ac_MinTrades (ad_cfg (ac_New ac_cfg0 ac_ladder))"
    by (simp_all add: ac_New_def ac_cfg0_def ac_applyDefaults_def line_40k_def)
  have "av_Severity (ac_Decide (ac_New ac_cfg0 ac_ladder) line_40k) = ''warning''"
    "av_SizePath (ac_Decide (ac_New ac_cfg0 ac_ladder) line_40k) = ''many-smalls''"
    unfolding ac_Decide_def ac_loop_eq Let_def r using g r(2) by simp_all
  then show ?thesis using accumulation_ranges [OF h] by blast
qed

end
