(* ===== verification/FlowContext.thy ===== *)
theory FlowContext
  imports Market
begin

text \<open>
  The context detectors around a fired trade: package ownership (share of an outcome's flow one
  wallet holds), package quietmarket (a market that was quiet before the event) and package
  mmfilter (a wallet whose book is balanced is a market maker, so its alert is suppressed). All in
  \<open>internal/app/usecase/analytics\<close>. The repository reads of mmfilter are parameters.
\<close>

subsection \<open>Ownership\<close>

record Shares =
  sh_WalletBuyShares :: float64
  sh_WalletSellShares :: float64
  sh_MarketBuyShares :: float64
  sh_PriceHint :: float64

definition sh_Net :: "Shares \<Rightarrow> float64" where
  "sh_Net s = sh_WalletBuyShares s - sh_WalletSellShares s"

definition SharePct :: "Shares \<Rightarrow> float64" where
  "SharePct s = (if sh_MarketBuyShares s \<le> 0 then 0 else sh_Net s / sh_MarketBuyShares s * fl 100)"

definition sh_NotionalUSD :: "Shares \<Rightarrow> float64" where
  "sh_NotionalUSD s = (if sh_PriceHint s \<le> 0 then 0 else sh_Net s * sh_PriceHint s)"

record ow_Config =
  oc_Enabled :: bool
  oc_InfoPct :: float64
  oc_WarningPct :: float64
  oc_CriticalPct :: float64
  oc_MinNotionalUSD :: float64

definition ow_applyDefaults :: "ow_Config \<Rightarrow> ow_Config" where
  "ow_applyDefaults c =
     (let c = (if oc_InfoPct c \<le> 0 then c\<lparr>oc_InfoPct := fl 10\<rparr> else c);
          c = (if oc_WarningPct c \<le> 0 then c\<lparr>oc_WarningPct := fl 15\<rparr> else c);
          c = (if oc_CriticalPct c \<le> 0 then c\<lparr>oc_CriticalPct := fl 25\<rparr> else c);
          c = (if oc_MinNotionalUSD c \<le> 0 then c\<lparr>oc_MinNotionalUSD := fl 10000\<rparr> else c)
      in c)"

record ow_Verdict =
  ov_Fired :: bool
  ov_Severity :: Severity
  ov_SharePct :: float64
  ov_NetShares :: float64
  ov_NotionalUSD :: float64
  ov_Reasons :: "string list"

definition ow_Decide :: "ow_Config \<Rightarrow> Shares \<Rightarrow> ow_Verdict" where
  "ow_Decide cfg s =
     (let v = \<lparr>ov_Fired = False, ov_Severity = '''', ov_SharePct = SharePct s, ov_NetShares = sh_Net s,
               ov_NotionalUSD = sh_NotionalUSD s, ov_Reasons = []\<rparr>
      in if \<not> oc_Enabled cfg then v
         else if ov_NotionalUSD v < oc_MinNotionalUSD cfg then v
         else if oc_CriticalPct cfg \<le> ov_SharePct v
         then v\<lparr>ov_Fired := True, ov_Severity := SeverityCritical,
                ov_Reasons := [''MARKET_OWNERSHIP_CONCENTRATION'', ''WALLET_DOMINATES_OUTCOME'']\<rparr>
         else if oc_WarningPct cfg \<le> ov_SharePct v
         then v\<lparr>ov_Fired := True, ov_Severity := SeverityWarning,
                ov_Reasons := [''MARKET_OWNERSHIP_CONCENTRATION'']\<rparr>
         else if oc_InfoPct cfg \<le> ov_SharePct v
         then v\<lparr>ov_Fired := True, ov_Severity := SeverityInfo,
                ov_Reasons := [''MARKET_OWNERSHIP_CONCENTRATION'']\<rparr>
         else v)"

definition ow_New :: "ow_Config \<Rightarrow> ow_Config" where
  "ow_New cfg = ow_applyDefaults cfg"

subsection \<open>Quiet markets\<close>

record qm_Config =
  qc_Enabled :: bool
  qc_MaxTradesPerDay :: float64
  qc_MaxNotionalPerDayUSD :: float64
  qc_MinIdleDuration :: duration
  qc_MinCurrentNotionalUSD :: float64
  qc_MinMultiplier :: float64

record qm_History =
  qh_SampleCount :: int
  qh_TotalNotionalUSD :: float64
  qh_Span :: duration
  qh_MarketMedianUSD :: float64
  qh_LastTradedAt :: time

record qm_Event =
  qe_NotionalUSD :: float64
  qe_At :: time

record qm_Verdict =
  qv_Qualifies :: bool
  qv_Reason :: string
  qv_TradesPerDay :: float64
  qv_NotionalPerDayUSD :: float64
  qv_IdleDuration :: duration
  qv_BaselineSpan :: duration

definition qm_Decide :: "qm_Config \<Rightarrow> qm_History \<Rightarrow> qm_Event \<Rightarrow> qm_Verdict" where
  "qm_Decide cfg hist event =
     (let v = \<lparr>qv_Qualifies = False, qv_Reason = '''', qv_TradesPerDay = 0, qv_NotionalPerDayUSD = 0,
               qv_IdleDuration = 0, qv_BaselineSpan = qh_Span hist\<rparr>
      in if \<not> qc_Enabled cfg then v
      else if qh_SampleCount hist < 1 \<or> qh_Span hist \<le> 0 then v
      else let days = Hours (qh_Span hist) / fl 24 in
        if days \<le> 0 then v
        else let v = v\<lparr>qv_TradesPerDay := of_i (qh_SampleCount hist) / days\<rparr>;
                 v = v\<lparr>qv_NotionalPerDayUSD := qh_TotalNotionalUSD hist / days\<rparr>;
                 v = (if \<not> IsZero (qh_LastTradedAt hist)
                      then let idle = t_sub (qe_At event) (qh_LastTradedAt hist)
                        in v\<lparr>qv_IdleDuration := (if idle < 0 then 0 else idle)\<rparr>
                      else v)
          in if qe_NotionalUSD event < qc_MinCurrentNotionalUSD cfg then v
             else if qc_MaxTradesPerDay cfg < qv_TradesPerDay v then v
             else if qc_MaxNotionalPerDayUSD cfg < qv_NotionalPerDayUSD v then v
             else if 0 < qc_MinIdleDuration cfg \<and> \<not> IsZero (qh_LastTradedAt hist)
                     \<and> qv_IdleDuration v < qc_MinIdleDuration cfg then v
             else if 0 < qc_MinMultiplier cfg \<and> 0 < qh_MarketMedianUSD hist
                     \<and> qe_NotionalUSD event / qh_MarketMedianUSD hist < qc_MinMultiplier cfg then v
             else v\<lparr>qv_Qualifies := True, qv_Reason := ''QUIET_MARKET_WAKEUP''\<rparr>)"

subsection \<open>Market makers\<close>

record mm_Config =
  mc_Enabled :: bool
  mc_Lookback :: duration
  mc_MinTradesPerSide :: int
  mc_NeutralityTol :: float64

record SideActivity =
  sa_BuyCount :: int
  sa_SellCount :: int
  sa_BuyNotionalUSD :: float64
  sa_SellNotionalUSD :: float64

record mm_Verdict =
  mv_Suppress :: bool
  mv_Reason :: string
  mv_BuyCount :: int
  mv_SellCount :: int
  mv_BuyNotionalUSD :: float64
  mv_SellNotionalUSD :: float64
  mv_Imbalance :: float64

definition mm_pass :: "string \<Rightarrow> mm_Verdict" where
  "mm_pass reason = \<lparr>mv_Suppress = False, mv_Reason = reason, mv_BuyCount = 0, mv_SellCount = 0,
     mv_BuyNotionalUSD = 0, mv_SellNotionalUSD = 0, mv_Imbalance = 0\<rparr>"

definition mm_New :: "mm_Config \<Rightarrow> mm_Config" where
  "mm_New cfg =
     (let cfg = (if mc_MinTradesPerSide cfg \<le> 0 then cfg\<lparr>mc_MinTradesPerSide := 4\<rparr> else cfg)
      in if mc_NeutralityTol cfg \<le> 0 then cfg\<lparr>mc_NeutralityTol := fl 0.3\<rparr> else cfg)"

definition imbalance :: "float64 \<Rightarrow> float64 \<Rightarrow> float64" where
  "imbalance buy sell =
     (if buy \<le> 0 \<and> sell \<le> 0 then 0
      else let hi = fmax buy sell in if hi \<le> 0 then 0 else \<bar>buy - sell\<bar> / hi)"

text \<open>The resolver and the activity query, with the error text on the left; a nil dependency is \<open>None\<close>.\<close>

type_synonym mm_traders = "string \<Rightarrow> string + int"
type_synonym mm_activity = "int \<Rightarrow> int \<Rightarrow> string \<Rightarrow> time \<Rightarrow> string + SideActivity"

definition mm_Decide :: "mm_Config \<Rightarrow> time \<Rightarrow> mm_traders option \<Rightarrow> mm_activity option
    \<Rightarrow> string \<Rightarrow> int \<Rightarrow> string \<Rightarrow> mm_Verdict \<times> string option" where
  "mm_Decide cfg now traders activity wallet marketID outcomeToken =
     (if \<not> mc_Enabled cfg then (mm_pass '''', None)
      else if wallet = '''' \<or> marketID = 0 \<or> outcomeToken = '''' then (mm_pass '''', None)
      else case (traders, activity) of
        (Some getTrader, Some sideActivity) \<Rightarrow>
          (case getTrader wallet of
             Inl err \<Rightarrow> (mm_pass ''trader-unknown'', None)
           | Inr tid \<Rightarrow>
               let since = (if 0 < mc_Lookback cfg then now - mc_Lookback cfg else zero_time) in
               case sideActivity tid marketID outcomeToken since of
                 Inl err \<Rightarrow> (mm_pass (''activity-error: '' @ err), Some err)
               | Inr act \<Rightarrow>
                   let v = \<lparr>mv_Suppress = False, mv_Reason = '''', mv_BuyCount = sa_BuyCount act,
                            mv_SellCount = sa_SellCount act, mv_BuyNotionalUSD = sa_BuyNotionalUSD act,
                            mv_SellNotionalUSD = sa_SellNotionalUSD act,
                            mv_Imbalance = imbalance (sa_BuyNotionalUSD act) (sa_SellNotionalUSD act)\<rparr>
                   in if sa_BuyCount act < mc_MinTradesPerSide cfg \<or> sa_SellCount act < mc_MinTradesPerSide cfg
                      then (v\<lparr>mv_Reason := ''one-sided-or-thin''\<rparr>, None)
                      else if mc_NeutralityTol cfg < mv_Imbalance v
                      then (v\<lparr>mv_Reason := ''imbalance '' @ fmt_f 2 (mv_Imbalance v) @ '' > ''
                                @ fmt_f 2 (mc_NeutralityTol cfg)\<rparr>, None)
                      else (v\<lparr>mv_Suppress := True,
                              mv_Reason := ''balanced two-sided activity (buy='' @ fmt_d (sa_BuyCount act)
                                @ '' sell='' @ fmt_d (sa_SellCount act)
                                @ '' imbalance='' @ fmt_f 2 (mv_Imbalance v) @ '')''\<rparr>, None))
      | _ \<Rightarrow> (mm_pass '''', None))"

subsection \<open>Properties\<close>

lemma ow_severity_rank:
  "rank (ov_Severity (ow_Decide cfg s)) =
     (if oc_Enabled cfg \<and> \<not> sh_NotionalUSD s < oc_MinNotionalUSD cfg
      then if oc_CriticalPct cfg \<le> SharePct s then 3
           else if oc_WarningPct cfg \<le> SharePct s then 2
           else if oc_InfoPct cfg \<le> SharePct s then 1 else 0
      else 0)"
  by (simp add: ow_Decide_def Let_def)

lemma fabs_minus_sym: "\<bar>x - y\<bar> = \<bar>y - (x :: float64)\<bar>"
proof (cases x; cases y)
  fix a b assume xy: "x = Fin a" "y = Fin b"
  have "fl (b - a) = - fl (a - b)" using fl_uminus [of "a - b"] by simp
  moreover have "\<bar>- z\<bar> = \<bar>z :: float64\<bar>" for z by (cases z) simp_all
  ultimately show ?thesis using xy by (simp add: minus_float64_def)
qed (simp_all add: minus_float64_def)

lemma fmax_sym: "fmax x y = fmax y x"
  by (cases x; cases y) (auto simp: fmax_def)

lemma imbalance_sym: "imbalance buy sell = imbalance sell buy"
proof -
  define F where "F c hi v = (if c then 0 else if hi \<le> 0 then 0 else v / hi)" for c and hi v :: float64
  have I: "imbalance x y = F (x \<le> 0 \<and> y \<le> 0) (fmax x y) \<bar>x - y\<bar>" for x y
    by (simp add: imbalance_def F_def)
  have "(buy \<le> 0 \<and> sell \<le> 0) = (sell \<le> 0 \<and> buy \<le> 0)" by blast
  from arg_cong3 [OF this fmax_sym fabs_minus_sym, of F] show ?thesis unfolding I .
qed

text \<open>The market-maker filter never drops an alert by accident and is blind to the direction of the
  book: it suppresses only on evidence (an enabled filter, a known wallet, an activity that was
  read, both sides at the trade floor, imbalance within the tolerance), every lookup failure passes
  the alert on, and exchanging the buy and sell sides gives the same verdict.\<close>

theorem mmfilter_evidence:
  "mv_Suppress (fst (mm_Decide cfg now traders activity wallet marketID outcome)) =
     (\<exists>getTrader sideActivity tid act.
        mc_Enabled cfg \<and> wallet \<noteq> '''' \<and> marketID \<noteq> 0 \<and> outcome \<noteq> ''''
        \<and> traders = Some getTrader \<and> activity = Some sideActivity \<and> getTrader wallet = Inr tid
        \<and> sideActivity tid marketID outcome
            (if 0 < mc_Lookback cfg then now - mc_Lookback cfg else zero_time) = Inr act
        \<and> mc_MinTradesPerSide cfg \<le> min (sa_BuyCount act) (sa_SellCount act)
        \<and> \<not> mc_NeutralityTol cfg < imbalance (sa_BuyNotionalUSD act) (sa_SellNotionalUSD act)
        \<and> \<not> mc_NeutralityTol cfg < imbalance (sa_SellNotionalUSD act) (sa_BuyNotionalUSD act))"
  unfolding imbalance_sym [of "sa_SellNotionalUSD _" "sa_BuyNotionalUSD _"]
  by (auto simp: mm_Decide_def mm_pass_def Let_def split: option.splits sum.splits if_splits)

text \<open>The ownership severity never drops when the wallet's net position grows against the same
  market flow at the same price.\<close>

theorem ownership_monotone:
  assumes "sh_Net s \<le> sh_Net s'" "isfin (sh_Net s)" "isfin (sh_Net s')"
    and "sh_MarketBuyShares s' = sh_MarketBuyShares s" "0 < sh_MarketBuyShares s"
    and "sh_PriceHint s' = sh_PriceHint s" "0 < sh_PriceHint s" "isfin (sh_PriceHint s)"
  shows "rank (ov_Severity (ow_Decide cfg s)) \<le> rank (ov_Severity (ow_Decide cfg s'))"
proof -
  have "SharePct s \<le> SharePct s'"
    using div_times_mono [OF assms(1-3,5)] assms(4,5) by (simp add: SharePct_def f64_less_iff)
  then have pct: "x \<le> SharePct s \<Longrightarrow> x \<le> SharePct s'" for x using f64_le_trans by blast
  have "sh_Net s * sh_PriceHint s \<le> sh_Net s' * sh_PriceHint s"
    using assms(1-3,7,8)
    by (cases "sh_Net s"; cases "sh_Net s'"; cases "sh_PriceHint s") (auto intro!: fl_mono mult_right_mono)
  then have "sh_NotionalUSD s \<le> sh_NotionalUSD s'"
    using assms(6,7) by (simp add: sh_NotionalUSD_def f64_less_iff)
  then have usd: "\<not> sh_NotionalUSD s < x \<Longrightarrow> \<not> sh_NotionalUSD s' < x" for x using f64_le_less_trans by blast
  let ?ok = "\<lambda>s. oc_Enabled cfg \<and> \<not> sh_NotionalUSD s < oc_MinNotionalUSD cfg"
  have r: "rank (ov_Severity (ow_Decide cfg k)) =
     (if ?ok k \<and> oc_CriticalPct cfg \<le> SharePct k then 3
      else if ?ok k \<and> oc_WarningPct cfg \<le> SharePct k then 2
      else if ?ok k \<and> oc_InfoPct cfg \<le> SharePct k then 1 else 0)" for k
    unfolding ow_severity_rank by auto
  show ?thesis unfolding r by (rule rung_mono) (use pct usd in blast)+
qed

definition shares_of :: "float64 \<Rightarrow> Shares" where
  "shares_of n = \<lparr>sh_WalletBuyShares = n, sh_WalletSellShares = 0, sh_MarketBuyShares = fl 200000,
     sh_PriceHint = fl 0.5\<rparr>"

lemma ownership_monotone_witness:
  "let cfg = ow_New \<lparr>oc_Enabled = True, oc_InfoPct = 0, oc_WarningPct = 0, oc_CriticalPct = 0, oc_MinNotionalUSD = 0\<rparr>
   in rank (ov_Severity (ow_Decide cfg (shares_of (fl 24000))))
       \<le> rank (ov_Severity (ow_Decide cfg (shares_of (fl 60000))))
     \<and> ov_Severity (ow_Decide cfg (shares_of (fl 24000))) = ''info''
     \<and> ov_Severity (ow_Decide cfg (shares_of (fl 60000))) = ''critical''"
proof -
  let ?cfg = "ow_New \<lparr>oc_Enabled = True, oc_InfoPct = 0, oc_WarningPct = 0, oc_CriticalPct = 0, oc_MinNotionalUSD = 0\<rparr>"
  let ?s = "shares_of (fl 24000)" and ?t = "shares_of (fl 60000)"
  have h: "sh_Net ?s \<le> sh_Net ?t" "isfin (sh_Net ?s)" "isfin (sh_Net ?t)"
    "sh_MarketBuyShares ?t = sh_MarketBuyShares ?s" "0 < sh_MarketBuyShares ?s"
    "sh_PriceHint ?t = sh_PriceHint ?s" "0 < sh_PriceHint ?s" "isfin (sh_PriceHint ?s)" by code_simp+
  have "ov_Severity (ow_Decide ?cfg ?s) = ''info''" "ov_Severity (ow_Decide ?cfg ?t) = ''critical''"
    by code_simp+
  then show ?thesis using ownership_monotone [OF h, of ?cfg] by (simp only: Let_def simp_thms)
qed

text \<open>A quiet-market tag implies every configured ceiling and floor, with the idle time measured from a
  previous trade that exists or the market never traded before.\<close>

lemma qm_Decide_qualifies:
  "qv_Qualifies (qm_Decide cfg hist event) \<longleftrightarrow>
     qc_Enabled cfg \<and> 1 \<le> qh_SampleCount hist \<and> 0 < qh_Span hist
     \<and> (let days = Hours (qh_Span hist) / fl 24 in \<not> days \<le> 0
         \<and> \<not> qc_MaxTradesPerDay cfg < of_i (qh_SampleCount hist) / days
         \<and> \<not> qc_MaxNotionalPerDayUSD cfg < qh_TotalNotionalUSD hist / days)
     \<and> \<not> qe_NotionalUSD event < qc_MinCurrentNotionalUSD cfg
     \<and> (qc_MinIdleDuration cfg \<le> 0 \<or> IsZero (qh_LastTradedAt hist)
         \<or> qc_MinIdleDuration cfg \<le> t_sub (qe_At event) (qh_LastTradedAt hist))
     \<and> \<not> (0 < qc_MinMultiplier cfg \<and> 0 < qh_MarketMedianUSD hist
           \<and> qe_NotionalUSD event / qh_MarketMedianUSD hist < qc_MinMultiplier cfg)"
  by (auto simp: qm_Decide_def Let_def)

end
