(* ===== verification/AlertQueue.thy ===== *)
theory AlertQueue
  imports GoFmt
begin

text \<open>
  The alert queue of \<open>internal/infra/repository/alert_repository.go\<close> over the table
  \<open>polymarket_alerts\<close> (\<open>db/queries/alerts.sql\<close>): deduplicated insertion, claiming for delivery, and
  the marks that end a claim. The table is the list of its rows, each statement runs atomically at
  a time the database supplies, and the rows a concurrent transaction has locked (SKIP LOCKED) are
  an argument of the claim. Among rows of equal creation time the claim takes table order, and a
  claim returns its rows in that order. Columns of the outcome, drift and reaction workers are left
  out.
\<close>

subsection \<open>Rows\<close>

datatype AlertStatus = AlertPending | AlertSending | AlertSent | AlertFailed

record Alert =
  al_ID :: int
  al_DedupKey :: string
  al_StrategyVersion :: string
  al_Kind :: string
  al_Reason :: string
  al_Severity :: string
  al_MarketID :: "int option"
  al_TraderID :: "int option"
  al_TradeID :: "int option"
  al_Payload :: string
  al_Status :: AlertStatus
  al_TelegramMessageID :: "int option"
  al_SendAttempts :: int
  al_LastSendError :: "string option"
  al_NextRetryAt :: "time option"
  al_LastAttemptAt :: "time option"
  al_SentAt :: "time option"
  al_CreatedAt :: time
  al_UpdatedAt :: time

record NewAlert =
  na_DedupKey :: string
  na_StrategyVersion :: string
  na_Kind :: string
  na_Reason :: string
  na_Severity :: string
  na_MarketID :: "int option"
  na_TraderID :: "int option"
  na_TradeID :: "int option"
  na_Payload :: string

text \<open>The table with its id sequence.\<close>

record AlertTable =
  at_rows :: "Alert list"
  at_next :: int

subsection \<open>Statements\<close>

definition TryCreatePending :: "time \<Rightarrow> NewAlert \<Rightarrow> AlertTable \<Rightarrow> AlertTable \<times> Alert option" where
  "TryCreatePending now a t =
     (if \<exists>r \<in> set (at_rows t). al_DedupKey r = na_DedupKey a
      then (t\<lparr>at_next := at_next t + 1\<rparr>, None)
      else let r = \<lparr>al_ID = at_next t, al_DedupKey = na_DedupKey a, al_StrategyVersion = na_StrategyVersion a,
                    al_Kind = na_Kind a, al_Reason = na_Reason a, al_Severity = na_Severity a,
                    al_MarketID = na_MarketID a, al_TraderID = na_TraderID a, al_TradeID = na_TradeID a,
                    al_Payload = na_Payload a, al_Status = AlertPending, al_TelegramMessageID = None,
                    al_SendAttempts = 0, al_LastSendError = None, al_NextRetryAt = None,
                    al_LastAttemptAt = None, al_SentAt = None, al_CreatedAt = now, al_UpdatedAt = now\<rparr>
        in (t\<lparr>at_rows := at_rows t @ [r], at_next := at_next t + 1\<rparr>, Some r))"

definition al_claimable :: "time \<Rightarrow> Alert \<Rightarrow> bool" where
  "al_claimable now r \<longleftrightarrow> al_Status r = AlertPending \<or>
     (al_Status r = AlertFailed \<and> (case al_NextRetryAt r of None \<Rightarrow> False | Some t \<Rightarrow> t \<le> now))"

definition al_update :: "(Alert \<Rightarrow> bool) \<Rightarrow> (Alert \<Rightarrow> Alert) \<Rightarrow> AlertTable \<Rightarrow> AlertTable" where
  "al_update P f t = t\<lparr>at_rows := map (\<lambda>r. if P r then f r else r) (at_rows t)\<rparr>"

definition al_batch :: "time \<Rightarrow> nat \<Rightarrow> int set \<Rightarrow> AlertTable \<Rightarrow> Alert list" where
  "al_batch now limit locked t =
     take limit (sort_key al_CreatedAt (filter (\<lambda>r. al_claimable now r \<and> al_ID r \<notin> locked) (at_rows t)))"

definition al_claim :: "time \<Rightarrow> Alert \<Rightarrow> Alert" where
  "al_claim now r = r\<lparr>al_Status := AlertSending, al_UpdatedAt := now\<rparr>"

definition ClaimPending :: "time \<Rightarrow> nat \<Rightarrow> int set \<Rightarrow> AlertTable \<Rightarrow> AlertTable \<times> Alert list" where
  "ClaimPending now limit locked t =
     (let batch = al_batch now limit locked t
      in (al_update (\<lambda>r. al_ID r \<in> al_ID ` set batch) (al_claim now) t, map (al_claim now) batch))"

definition MarkSent :: "time \<Rightarrow> int \<Rightarrow> int \<Rightarrow> AlertTable \<Rightarrow> AlertTable" where
  "MarkSent now i messageID t =
     al_update (\<lambda>r. al_ID r = i \<and> al_Status r = AlertSending)
       (\<lambda>r. r\<lparr>al_Status := AlertSent, al_SentAt := Some now, al_LastAttemptAt := Some now,
             al_TelegramMessageID := Some messageID, al_LastSendError := None, al_NextRetryAt := None,
             al_UpdatedAt := now\<rparr>) t"

definition MarkFailed :: "time \<Rightarrow> int \<Rightarrow> string \<Rightarrow> time \<Rightarrow> AlertTable \<Rightarrow> AlertTable" where
  "MarkFailed now i errMsg nextRetryAt t =
     al_update (\<lambda>r. al_ID r = i \<and> al_Status r = AlertSending)
       (\<lambda>r. r\<lparr>al_Status := AlertFailed, al_SendAttempts := i32 (al_SendAttempts r + 1),
             al_LastAttemptAt := Some now, al_LastSendError := Some errMsg,
             al_NextRetryAt := (if IsZero nextRetryAt then None else Some nextRetryAt),
             al_UpdatedAt := now\<rparr>) t"

definition ResetStaleSending :: "time \<Rightarrow> time \<Rightarrow> AlertTable \<Rightarrow> AlertTable" where
  "ResetStaleSending now cutoff t =
     al_update (\<lambda>r. al_Status r = AlertSending \<and> al_UpdatedAt r < cutoff)
       (\<lambda>r. r\<lparr>al_Status := AlertPending, al_UpdatedAt := now\<rparr>) t"

definition AlertExists :: "string \<Rightarrow> AlertTable \<Rightarrow> bool" where
  "AlertExists key t \<longleftrightarrow> (\<exists>r \<in> set (at_rows t). al_DedupKey r = key)"

subsection \<open>The life of a row\<close>

text \<open>The status graph.\<close>

inductive al_trans :: "AlertStatus \<Rightarrow> AlertStatus \<Rightarrow> bool" where
  claim_pending: "al_trans AlertPending AlertSending"
| claim_failed: "al_trans AlertFailed AlertSending"
| mark_sent: "al_trans AlertSending AlertSent"
| mark_failed: "al_trans AlertSending AlertFailed"
| reset_stale: "al_trans AlertSending AlertPending"

code_pred al_trans .

inductive_cases al_trans_SentE: "al_trans AlertSent s"
inductive_cases al_trans_PendingE: "al_trans AlertPending s"
inductive_simps al_trans_Sending: "al_trans AlertSending s"

lemma al_trans_Sent: "al_trans\<^sup>*\<^sup>* AlertSent s \<Longrightarrow> s = AlertSent"
  by (induction rule: rtranclp_induct) (auto elim: al_trans_SentE)

subsection \<open>The table invariant\<close>

definition al_inv :: "AlertTable \<Rightarrow> bool" where
  "al_inv t \<longleftrightarrow> distinct (map al_ID (at_rows t)) \<and> distinct (map al_DedupKey (at_rows t))
     \<and> (\<forall>r \<in> set (at_rows t). al_ID r < at_next t)"

definition al_find :: "AlertTable \<Rightarrow> int \<Rightarrow> Alert option" where
  "al_find t i = find (\<lambda>r. al_ID r = i) (at_rows t)"

lemma al_find_Some: "al_find t i = Some r \<Longrightarrow> r \<in> set (at_rows t) \<and> al_ID r = i"
  by (auto simp: al_find_def find_Some_iff)

lemma al_find_mem: "al_inv t \<Longrightarrow> r \<in> set (at_rows t) \<Longrightarrow> al_find t (al_ID r) = Some r"
proof -
  assume "al_inv t" "r \<in> set (at_rows t)"
  moreover have "distinct (map al_ID rs) \<Longrightarrow> r \<in> set rs \<Longrightarrow> find (\<lambda>x. al_ID x = al_ID r) rs = Some r" for rs
    by (induction rs) auto
  ultimately show ?thesis by (simp add: al_inv_def al_find_def)
qed

text \<open>An update that keeps ids rewrites the found row.\<close>

lemma al_find_update:
  "(\<And>r. al_ID (f r) = al_ID r) \<Longrightarrow>
   al_find (al_update P f t) i = map_option (\<lambda>r. if P r then f r else r) (al_find t i)"
proof -
  assume f: "\<And>r. al_ID (f r) = al_ID r"
  have "find (\<lambda>r. al_ID r = i) (map (\<lambda>r. if P r then f r else r) rs)
      = map_option (\<lambda>r. if P r then f r else r) (find (\<lambda>r. al_ID r = i) rs)" for rs
    by (induction rs) (auto simp: f)
  then show ?thesis by (simp add: al_find_def al_update_def)
qed

lemma al_inv_update [wt_inv]:
  assumes "\<And>r. al_ID (f r) = al_ID r" "\<And>r. al_DedupKey (f r) = al_DedupKey r" "al_inv t"
  shows "al_inv (al_update P f t)"
proof -
  have "al_ID \<circ> (\<lambda>r. if P r then f r else r) = al_ID"
    "al_DedupKey \<circ> (\<lambda>r. if P r then f r else r) = al_DedupKey"
    by (auto simp: fun_eq_iff assms(1,2))
  then show ?thesis using assms by (auto simp: al_inv_def al_update_def)
qed

lemma al_claim_fields [simp]:
  "al_ID (al_claim now r) = al_ID r" "al_DedupKey (al_claim now r) = al_DedupKey r"
  "al_Status (al_claim now r) = AlertSending" "al_SendAttempts (al_claim now r) = al_SendAttempts r"
  "al_NextRetryAt (al_claim now r) = al_NextRetryAt r"
  by (simp_all add: al_claim_def)

lemma TryCreate_inv [wt_inv]: "al_inv t \<Longrightarrow> al_inv (fst (TryCreatePending now a t))"
  by (auto simp: al_inv_def TryCreatePending_def Let_def intro: less_trans)

lemma ClaimPending_inv [wt_inv]: "al_inv t \<Longrightarrow> al_inv (fst (ClaimPending now l locked t))"
  unfolding ClaimPending_def Let_def fst_conv by (intro al_inv_update) simp_all

lemma MarkSent_inv [wt_inv]: "al_inv t \<Longrightarrow> al_inv (MarkSent now i m t)"
  unfolding MarkSent_def by (intro al_inv_update) simp_all

lemma MarkFailed_inv [wt_inv]: "al_inv t \<Longrightarrow> al_inv (MarkFailed now i e n t)"
  unfolding MarkFailed_def by (intro al_inv_update) simp_all

lemma ResetStale_inv [wt_inv]: "al_inv t \<Longrightarrow> al_inv (ResetStaleSending now c t)"
  unfolding ResetStaleSending_def by (intro al_inv_update) simp_all

lemma al_batch_set: "set (al_batch now l locked t) \<subseteq> {r \<in> set (at_rows t). al_claimable now r \<and> al_ID r \<notin> locked}"
  using set_take_subset by (fastforce simp: al_batch_def)

lemma al_batch_distinct: "al_inv t \<Longrightarrow> distinct (map al_ID (al_batch now l locked t))"
proof -
  assume "al_inv t"
  then have "distinct (map al_ID (filter P (at_rows t)))" for P
    by (simp add: al_inv_def distinct_map_filter)
  then have "distinct (map al_ID (sort_key al_CreatedAt (filter P (at_rows t))))" for P
    using mset_sort [of al_CreatedAt "filter P (at_rows t)"] by (metis distinct_map distinct_sort set_sort)
  then show ?thesis by (simp add: al_batch_def take_map [symmetric] distinct_take)
qed

lemma al_find_batch:
  "al_inv t \<Longrightarrow> r \<in> set (al_batch now l locked t) \<Longrightarrow> al_find t (al_ID r) = Some r \<and> al_claimable now r"
  using al_batch_set al_find_mem by fastforce

text \<open>The effect of every statement on the row with a given id.\<close>

lemma al_find_ClaimPending:
  "al_find (fst (ClaimPending now l locked t)) i =
     map_option (\<lambda>r. if i \<in> al_ID ` set (al_batch now l locked t) then al_claim now r else r) (al_find t i)"
  unfolding ClaimPending_def Let_def fst_conv
  by (subst al_find_update) (auto simp: option.map_comp comp_def dest: al_find_Some intro!: map_option_cong)

lemma al_find_MarkSent:
  "al_find (MarkSent now j m t) i = map_option (\<lambda>r. if i = j \<and> al_Status r = AlertSending
     then r\<lparr>al_Status := AlertSent, al_SentAt := Some now, al_LastAttemptAt := Some now,
             al_TelegramMessageID := Some m, al_LastSendError := None, al_NextRetryAt := None,
             al_UpdatedAt := now\<rparr> else r) (al_find t i)"
  unfolding MarkSent_def by (subst al_find_update) (auto dest: al_find_Some intro!: map_option_cong)

lemma al_find_MarkFailed:
  "al_find (MarkFailed now j e n t) i = map_option (\<lambda>r. if i = j \<and> al_Status r = AlertSending
     then r\<lparr>al_Status := AlertFailed, al_SendAttempts := i32 (al_SendAttempts r + 1),
             al_LastAttemptAt := Some now, al_LastSendError := Some e,
             al_NextRetryAt := (if IsZero n then None else Some n), al_UpdatedAt := now\<rparr> else r) (al_find t i)"
  unfolding MarkFailed_def by (subst al_find_update) (auto dest: al_find_Some intro!: map_option_cong)

lemma al_find_ResetStale:
  "al_find (ResetStaleSending now c t) i = map_option (\<lambda>r. if al_Status r = AlertSending \<and> al_UpdatedAt r < c
     then r\<lparr>al_Status := AlertPending, al_UpdatedAt := now\<rparr> else r) (al_find t i)"
  unfolding ResetStaleSending_def by (subst al_find_update) (auto intro!: map_option_cong)

lemma find_snoc: "find P (xs @ [y]) = (case find P xs of Some x \<Rightarrow> Some x | None \<Rightarrow> if P y then Some y else None)"
  by (induction xs) auto

lemma al_find_TryCreate:
  "al_find t i = Some r \<Longrightarrow> al_find (fst (TryCreatePending now a t)) i = Some r"
  by (auto simp: al_find_def TryCreatePending_def Let_def find_snoc split: option.split)

lemma al_find_TryCreate_new:
  "al_find t i = None \<Longrightarrow> al_find (fst (TryCreatePending now a t)) i =
     (if AlertExists (na_DedupKey a) t \<or> i \<noteq> at_next t then None
      else snd (TryCreatePending now a t))"
  by (auto simp: al_find_def TryCreatePending_def AlertExists_def Let_def find_snoc)

end
