(* ===== verification/AlertSender.thy ===== *)
theory AlertSender
  imports AlertQueue
begin

text \<open>
  The delivery worker \<open>internal/app/usecase/alertsender/worker.go\<close>. The worker is written against
  the interface \<open>AlertStore\<close>, here a record of operations on a store of any type; what it relies on
  is the locale \<open>alert_store\<close>, which the queue of AlertQueue satisfies. What the environment decides
  during a pass (clock, database time, jitter, cancellation, the answers of Telegram and whether a
  database write succeeds) is a tape of events, so that a tape that ends early is a crash; JSON
  decoding, the stampers and the formatter are parameters. The goroutines of one drain claim
  disjoint batches and are run one after the other.

  The state carries the log of all requests to Telegram, each with what happened to it: whether the
  message reached the chat, which an error, a timeout or a suppressing router leaves open, and what
  the queue recorded of it.
\<close>

subsection \<open>Configuration and retry policy\<close>

record RetryPolicy =
  rp_Enabled :: bool
  rp_MaxAttempts :: int
  rp_InitialBackoff :: duration
  rp_MaxBackoff :: duration
  rp_JitterFraction :: float64

record as_Config =
  sc_Interval :: duration
  sc_ClaimLimit :: int
  sc_Workers :: int
  sc_ChatID :: string
  sc_StaleSendingAfter :: duration
  sc_Retry :: RetryPolicy

definition as_New :: "as_Config \<Rightarrow> as_Config" where
  "as_New cfg =
     (let cfg = (if sc_Interval cfg \<le> 0 then cfg\<lparr>sc_Interval := 5 * Second\<rparr> else cfg);
          cfg = (if sc_ClaimLimit cfg \<le> 0 then cfg\<lparr>sc_ClaimLimit := 16\<rparr> else cfg);
          cfg = (if sc_Workers cfg \<le> 0 then cfg\<lparr>sc_Workers := 1\<rparr> else cfg);
          cfg = (if sc_StaleSendingAfter cfg \<le> 0 then cfg\<lparr>sc_StaleSendingAfter := 5 * Minute\<rparr> else cfg)
      in if rp_Enabled (sc_Retry cfg)
         then let r = sc_Retry cfg;
                  r = (if rp_MaxAttempts r \<le> 0 then r\<lparr>rp_MaxAttempts := 5\<rparr> else r);
                  r = (if rp_InitialBackoff r \<le> 0 then r\<lparr>rp_InitialBackoff := 30 * Second\<rparr> else r);
                  r = (if rp_MaxBackoff r \<le> 0 then r\<lparr>rp_MaxBackoff := 30 * Minute\<rparr> else r);
                  r = (if rp_JitterFraction r \<le> 0 then r\<lparr>rp_JitterFraction := fl 0.2\<rparr> else r)
           in cfg\<lparr>sc_Retry := r\<rparr>
         else cfg)"

definition surfaceFromKind :: "string \<Rightarrow> string" where
  "surfaceFromKind kind =
     (if kind = ''trade_anomaly'' then ''flow_alert''
      else if kind = ''accumulation'' then ''accumulation_alert''
      else if kind = ''category_watch'' then ''cluster_alert''
      else if kind = ''ownership_concentration'' then ''ownership_alert''
      else ''flow_alert'')"

definition isPermanentError :: "string \<Rightarrow> bool" where
  "isPermanentError msg \<longleftrightarrow> HasPrefix msg ''render:'' \<or>
     list_ex (\<lambda>marker. Contains msg marker)
       [''can'' @ [CHR 0x27] @ ''t parse entities'', ''chat not found'', ''bot was kicked'',
        ''bot is not a member'', ''have no rights to send'', ''message is too long'']"

fun backoff_loop :: "duration \<Rightarrow> duration \<Rightarrow> nat \<Rightarrow> duration" where
  "backoff_loop maxb delay 0 = delay"
| "backoff_loop maxb delay (Suc n) =
     (let delay = i64 (delay * 2) in if maxb < delay then maxb else backoff_loop maxb delay n)"

text \<open>The argument \<open>u\<close> is the draw of \<open>rng.Float64()\<close>, in [0, 1).\<close>

definition backoff :: "RetryPolicy \<Rightarrow> int \<Rightarrow> float64 \<Rightarrow> duration" where
  "backoff p attempt u =
     (let delay = backoff_loop (rp_MaxBackoff p) (rp_InitialBackoff p) (nat (attempt - 1));
          delay = (if 0 < rp_JitterFraction p
                   then let jit = (u * fl 2 - 1) * rp_JitterFraction p
                     in i64 (delay + f2i (of_i delay * jit))
                   else delay)
      in if delay < 0 then 0 else delay)"

definition scheduleRetry :: "RetryPolicy \<Rightarrow> time \<Rightarrow> float64 \<Rightarrow> Alert \<Rightarrow> string \<Rightarrow> time \<times> bool" where
  "scheduleRetry p now u a sendErr =
     (if \<not> rp_Enabled p then (zero_time, True)
      else if isPermanentError sendErr then (zero_time, True)
      else let nextAttemptNumber = i32 (al_SendAttempts a + 1) in
        if rp_MaxAttempts p \<le> nextAttemptNumber then (zero_time, True)
        else (now + backoff p nextAttemptNumber u, False))"

subsection \<open>The worker\<close>

record 'db AlertStore =
  as_ClaimPending :: "time \<Rightarrow> nat \<Rightarrow> int set \<Rightarrow> 'db \<Rightarrow> 'db \<times> Alert list"
  as_MarkSent :: "time \<Rightarrow> int \<Rightarrow> int \<Rightarrow> 'db \<Rightarrow> 'db"
  as_MarkFailed :: "time \<Rightarrow> int \<Rightarrow> string \<Rightarrow> time \<Rightarrow> 'db \<Rightarrow> 'db"
  as_ResetStaleSending :: "time \<Rightarrow> time \<Rightarrow> 'db \<Rightarrow> 'db"

record 'f Pipeline =
  pl_unmarshal :: "string \<Rightarrow> string + 'f"
  pl_stamp :: "Alert \<Rightarrow> 'f \<Rightarrow> 'f"
  pl_kind :: "'f \<Rightarrow> string"
  pl_format :: "'f \<Rightarrow> string"

datatype tg_reply = TgOK int | TgErr string | TgCtxErr

record send_event =
  ev_ctxDone :: bool
  ev_now :: time
  ev_dbNow :: time
  ev_rand :: float64
  ev_reply :: tg_reply
  ev_landed :: bool
  ev_dbOK :: bool

text \<open>
  One request to Telegram. \<open>Recorded\<close>: the row was marked sent. \<open>Counted\<close>: it was marked failed, with
  one more attempt. \<open>Lost\<close>: the queue knows nothing of it, since the context ended under the request
  or the write of its outcome failed.
\<close>

datatype fate = Recorded | Counted | Lost

record delivery =
  dl_ID :: int
  dl_Surface :: string
  dl_Text :: string
  dl_Landed :: bool
  dl_Fate :: fate

type_synonym 'db sender_state = "'db \<times> delivery list"

definition sd_markFailed :: "'db AlertStore \<Rightarrow> as_Config \<Rightarrow> send_event \<Rightarrow> Alert \<Rightarrow> string \<Rightarrow> 'db \<Rightarrow> 'db" where
  "sd_markFailed S cfg e a sendErr db =
     (if ev_dbOK e
      then as_MarkFailed S (ev_dbNow e) (al_ID a) sendErr
             (fst (scheduleRetry (sc_Retry cfg) (ev_now e) (ev_rand e) a sendErr)) db
      else db)"

definition sd_send :: "'db AlertStore \<Rightarrow> 'f Pipeline \<Rightarrow> as_Config \<Rightarrow> send_event \<Rightarrow> Alert
    \<Rightarrow> 'db sender_state \<Rightarrow> 'db sender_state" where
  "sd_send S P cfg e a st =
     (case pl_unmarshal P (al_Payload a) of
        Inl err \<Rightarrow> (sd_markFailed S cfg e a (''render: '' @ err) (fst st), snd st)
      | Inr f \<Rightarrow>
          let f = pl_stamp P a f; text = pl_format P f;
              sent = (\<lambda>fate. snd st @ [\<lparr>dl_ID = al_ID a, dl_Surface = surfaceFromKind (pl_kind P f), dl_Text = text,
                                      dl_Landed = ev_landed e, dl_Fate = fate\<rparr>]) in
          (case ev_reply e of
             TgCtxErr \<Rightarrow> (fst st, sent Lost)
           | TgErr err \<Rightarrow> (sd_markFailed S cfg e a err (fst st), sent (if ev_dbOK e then Counted else Lost))
           | TgOK messageID \<Rightarrow>
               if ev_dbOK e then (as_MarkSent S (ev_dbNow e) (al_ID a) messageID (fst st), sent Recorded)
               else (fst st, sent Lost)))"

fun sd_loop :: "'db AlertStore \<Rightarrow> 'f Pipeline \<Rightarrow> as_Config \<Rightarrow> Alert list \<Rightarrow> send_event list
    \<Rightarrow> 'db sender_state \<Rightarrow> 'db sender_state" where
  "sd_loop S P cfg [] es st = st"
| "sd_loop S P cfg (a # as) [] st = st"
| "sd_loop S P cfg (a # as) (e # es) st =
     (if ev_ctxDone e then st else sd_loop S P cfg as es (sd_send S P cfg e a st))"

record sd_round =
  rd_dbNow :: time
  rd_locked :: "int set"
  rd_claimOK :: bool
  rd_events :: "send_event list"

definition drainOne :: "'db AlertStore \<Rightarrow> 'f Pipeline \<Rightarrow> as_Config \<Rightarrow> 'db sender_state \<Rightarrow> sd_round \<Rightarrow> 'db sender_state" where
  "drainOne S P cfg st r =
     (if \<not> rd_claimOK r then st
      else let (db, alerts) = as_ClaimPending S (rd_dbNow r) (nat (sc_ClaimLimit cfg)) (rd_locked r) (fst st)
        in sd_loop S P cfg alerts (rd_events r) (db, snd st))"

record sd_pass =
  ps_now :: time
  ps_dbNow :: time
  ps_resetOK :: bool
  ps_rounds :: "sd_round list"

definition drain :: "'db AlertStore \<Rightarrow> 'f Pipeline \<Rightarrow> as_Config \<Rightarrow> sd_pass \<Rightarrow> 'db sender_state \<Rightarrow> 'db sender_state" where
  "drain S P cfg p st =
     (let db = (if ps_resetOK p
                then as_ResetStaleSending S (ps_dbNow p) (ps_now p - sc_StaleSendingAfter cfg) (fst st)
                else fst st)
      in foldl (drainOne S P cfg) (db, snd st) (take (nat (sc_Workers cfg)) (ps_rounds p)))"

subsection \<open>The store interface\<close>

locale alert_store =
  fixes S :: "'db AlertStore"
    and inv :: "'db \<Rightarrow> bool"
    and row :: "'db \<Rightarrow> int \<Rightarrow> Alert option"
  assumes inv_claim: "inv db \<Longrightarrow> inv (fst (as_ClaimPending S n l lk db))"
    and inv_sent: "inv db \<Longrightarrow> inv (as_MarkSent S n i m db)"
    and inv_failed: "inv db \<Longrightarrow> inv (as_MarkFailed S n i e t db)"
    and inv_reset: "inv db \<Longrightarrow> inv (as_ResetStaleSending S n c db)"
    and claim_distinct: "inv db \<Longrightarrow> distinct (map al_ID (snd (as_ClaimPending S n l lk db)))"
    and claim_row: "inv db \<Longrightarrow> a \<in> set (snd (as_ClaimPending S n l lk db)) \<Longrightarrow>
      row (fst (as_ClaimPending S n l lk db)) (al_ID a) = Some a \<and>
      (\<exists>r. row db (al_ID a) = Some r \<and> al_claimable n r \<and> a = al_claim n r)"
    and claim_other: "inv db \<Longrightarrow> i \<notin> al_ID ` set (snd (as_ClaimPending S n l lk db)) \<Longrightarrow>
      row (fst (as_ClaimPending S n l lk db)) i = row db i"
    and row_sent: "row (as_MarkSent S n j m db) i = map_option (\<lambda>r. if i = j \<and> al_Status r = AlertSending
       then r\<lparr>al_Status := AlertSent, al_SentAt := Some n, al_LastAttemptAt := Some n,
             al_TelegramMessageID := Some m, al_LastSendError := None, al_NextRetryAt := None,
             al_UpdatedAt := n\<rparr> else r) (row db i)"
    and row_failed: "row (as_MarkFailed S n j e t db) i = map_option (\<lambda>r. if i = j \<and> al_Status r = AlertSending
       then r\<lparr>al_Status := AlertFailed, al_SendAttempts := i32 (al_SendAttempts r + 1),
             al_LastAttemptAt := Some n, al_LastSendError := Some e,
             al_NextRetryAt := (if IsZero t then None else Some t), al_UpdatedAt := n\<rparr> else r) (row db i)"
    and row_reset: "row (as_ResetStaleSending S n c db) i = map_option (\<lambda>r. if al_Status r = AlertSending
       \<and> al_UpdatedAt r < c then r\<lparr>al_Status := AlertPending, al_UpdatedAt := n\<rparr> else r) (row db i)"

definition sql_store :: "AlertTable AlertStore" where
  "sql_store = \<lparr>as_ClaimPending = ClaimPending, as_MarkSent = MarkSent, as_MarkFailed = MarkFailed,
     as_ResetStaleSending = ResetStaleSending\<rparr>"

lemma ClaimPending_row:
  assumes "al_inv t" "a \<in> set (snd (ClaimPending n l lk t))"
  shows "al_find (fst (ClaimPending n l lk t)) (al_ID a) = Some a \<and>
    (\<exists>r. al_find t (al_ID a) = Some r \<and> al_claimable n r \<and> a = al_claim n r)"
proof -
  obtain r where r: "r \<in> set (al_batch n l lk t)" "a = al_claim n r"
    using assms(2) by (auto simp: ClaimPending_def Let_def)
  then show ?thesis using al_find_batch [OF assms(1) r(1)] by (auto simp: al_find_ClaimPending)
qed

interpretation sql: alert_store sql_store al_inv al_find
proof (unfold_locales, unfold sql_store_def AlertStore.select_convs)
  fix t :: AlertTable and n l lk i a
  show "al_inv t \<Longrightarrow> distinct (map al_ID (snd (ClaimPending n l lk t)))"
    using al_batch_distinct [of t n l lk] by (simp add: ClaimPending_def Let_def comp_def)
  show "al_inv t \<Longrightarrow> i \<notin> al_ID ` set (snd (ClaimPending n l lk t)) \<Longrightarrow>
      al_find (fst (ClaimPending n l lk t)) i = al_find t i"
    by (simp add: al_find_ClaimPending ClaimPending_def [THEN arg_cong, of snd] Let_def image_image option.map_ident)
qed (auto simp: wt_inv al_find_MarkSent al_find_MarkFailed al_find_ResetStale dest: ClaimPending_row
       intro: ClaimPending_inv MarkSent_inv MarkFailed_inv ResetStale_inv)

subsection \<open>What the worker keeps\<close>

text \<open>Every row's status moves along the status graph and no row vanishes.\<close>

definition follows :: "('db \<Rightarrow> int \<Rightarrow> Alert option) \<Rightarrow> 'db \<Rightarrow> 'db \<Rightarrow> bool" where
  "follows row db db' \<longleftrightarrow> (\<forall>i r. row db i = Some r \<longrightarrow>
     (\<exists>r'. row db' i = Some r' \<and> al_trans\<^sup>*\<^sup>* (al_Status r) (al_Status r')))"

text \<open>
  Every request is about a row, a recorded one about a row that is \<open>sent\<close>, and no request follows a
  recorded one about the same row.
\<close>

definition delivered_inv :: "('db \<Rightarrow> int \<Rightarrow> Alert option) \<Rightarrow> 'db sender_state \<Rightarrow> bool" where
  "delivered_inv row st \<longleftrightarrow> sorted_wrt (\<lambda>d d'. \<not> (dl_ID d = dl_ID d' \<and> dl_Fate d = Recorded)) (snd st) \<and>
     (\<forall>d \<in> set (snd st). \<exists>r. row (fst st) (dl_ID d) = Some r \<and> (dl_Fate d = Recorded \<longrightarrow> al_Status r = AlertSent))"

text \<open>The requests about a row that the queue counts, and those it does not.\<close>

definition counted :: "int \<Rightarrow> delivery list \<Rightarrow> delivery list" where
  "counted i ds = filter (\<lambda>d. dl_ID d = i \<and> dl_Fate d \<noteq> Lost) ds"

definition uncounted :: "int \<Rightarrow> delivery list \<Rightarrow> delivery list" where
  "uncounted i ds = filter (\<lambda>d. dl_ID d = i \<and> dl_Fate d = Lost) ds"

lemma counted_uncounted: "length (counted i ds) + length (uncounted i ds) = length (filter (\<lambda>d. dl_ID d = i) ds)"
  by (induction ds) (auto simp: counted_def uncounted_def)

text \<open>What a row allows; the row counts its failures, and being sent is one more.\<close>

definition allowed :: "Alert \<Rightarrow> int" where
  "allowed r = al_SendAttempts r + (if al_Status r = AlertSent then 1 else 0)"

definition tally_inv :: "('db \<Rightarrow> int \<Rightarrow> Alert option) \<Rightarrow> 'db sender_state \<Rightarrow> bool" where
  "tally_inv row st \<longleftrightarrow> (\<forall>i r. row (fst st) i = Some r \<longrightarrow>
     int (length (counted i (snd st))) \<le> allowed r)"

text \<open>A row that can still be sent has attempts left in its budget.\<close>

definition budget :: "as_Config \<Rightarrow> int" where
  "budget cfg = (if rp_Enabled (sc_Retry cfg) then rp_MaxAttempts (sc_Retry cfg) else 1)"

definition row_budget :: "int \<Rightarrow> Alert \<Rightarrow> bool" where
  "row_budget M r \<longleftrightarrow> 0 \<le> al_SendAttempts r \<and> al_SendAttempts r \<le> M \<and>
     (al_Status r \<noteq> AlertFailed \<or> al_NextRetryAt r \<noteq> None \<longrightarrow> al_SendAttempts r < M)"

definition budget_inv :: "('db \<Rightarrow> int \<Rightarrow> Alert option) \<Rightarrow> int \<Rightarrow> 'db \<Rightarrow> bool" where
  "budget_inv row M db \<longleftrightarrow> (\<forall>i r. row db i = Some r \<longrightarrow> row_budget M r)"

text \<open>The rows of a claimed batch that is still to be sent.\<close>

definition in_flight :: "('db \<Rightarrow> int \<Rightarrow> Alert option) \<Rightarrow> 'db \<Rightarrow> Alert list \<Rightarrow> bool" where
  "in_flight row db as \<longleftrightarrow> distinct (map al_ID as) \<and>
     (\<forall>a \<in> set as. \<exists>r. row db (al_ID a) = Some r \<and> al_Status r = AlertSending
        \<and> al_SendAttempts r = al_SendAttempts a)"

lemma follows_refl [simp]: "follows row db db"
  by (auto simp: follows_def)

lemma follows_trans: "follows row a b \<Longrightarrow> follows row b c \<Longrightarrow> follows row a c"
  unfolding follows_def by (meson rtranclp_trans)

lemma scheduleRetry_zero: "fst (scheduleRetry p now u a e) \<noteq> zero_time \<Longrightarrow>
   rp_Enabled p \<and> i32 (al_SendAttempts a + 1) < rp_MaxAttempts p"
  by (auto simp: scheduleRetry_def Let_def split: if_splits)

context alert_store
begin

lemma follows_reset: "follows row db (as_ResetStaleSending S n c db)"
  by (auto simp: follows_def row_reset intro: r_into_rtranclp al_trans.intros)

lemma follows_sent: "follows row db (as_MarkSent S n i m db)"
  by (auto simp: follows_def row_sent intro: r_into_rtranclp al_trans.intros)

lemma follows_failed: "follows row db (as_MarkFailed S n i e t db)"
  by (auto simp: follows_def row_failed intro: r_into_rtranclp al_trans.intros)

lemma follows_claim: "inv db \<Longrightarrow> follows row db (fst (as_ClaimPending S n l lk db))"
  unfolding follows_def
proof (intro allI impI)
  fix i r assume db: "inv db" and r: "row db i = Some r"
  let ?c = "as_ClaimPending S n l lk db"
  show "\<exists>r'. row (fst ?c) i = Some r' \<and> al_trans\<^sup>*\<^sup>* (al_Status r) (al_Status r')"
  proof (cases "i \<in> al_ID ` set (snd ?c)")
    case True
    then obtain a where a: "a \<in> set (snd ?c)" "al_ID a = i" by auto
    have "al_claimable n r" "a = al_claim n r" "row (fst ?c) i = Some a"
      using claim_row [OF db a(1)] r a(2) by auto
    moreover have "al_trans (al_Status r) AlertSending"
      using \<open>al_claimable n r\<close> by (auto simp: al_claimable_def intro: al_trans.intros)
    ultimately show ?thesis by auto
  next
    case False
    then show ?thesis using claim_other [OF db False] r by auto
  qed
qed

lemma send_other: "i \<noteq> al_ID a \<Longrightarrow> row (fst (sd_send S P cfg e a st)) i = row (fst st) i"
  by (auto simp: sd_send_def sd_markFailed_def row_sent row_failed Let_def option.map_ident
      split: sum.split tg_reply.split)

lemma send_inv: "inv (fst st) \<Longrightarrow> inv (fst (sd_send S P cfg e a st))"
  by (auto simp: sd_send_def sd_markFailed_def Let_def inv_sent inv_failed split: sum.split tg_reply.split)

lemma send_follows: "follows row (fst st) (fst (sd_send S P cfg e a st))"
  by (auto simp: sd_send_def sd_markFailed_def Let_def follows_sent follows_failed
      split: sum.split tg_reply.split)

lemma send_in_flight: "in_flight row (fst st) (a # as) \<Longrightarrow> in_flight row (fst (sd_send S P cfg e a st)) as"
  unfolding in_flight_def
proof (intro conjI ballI)
  assume A: "distinct (map al_ID (a # as)) \<and>
     (\<forall>a \<in> set (a # as). \<exists>r. row (fst st) (al_ID a) = Some r \<and> al_Status r = AlertSending
        \<and> al_SendAttempts r = al_SendAttempts a)"
  then show "distinct (map al_ID as)" by simp
  fix b assume b: "b \<in> set as"
  then have "al_ID b \<noteq> al_ID a" using A by (auto dest: in_set_conv_nth [THEN iffD1] simp: image_iff)
  note o = send_other [OF this, of P cfg e st]
  show "\<exists>r. row (fst (sd_send S P cfg e a st)) (al_ID b) = Some r
      \<and> al_Status r = AlertSending \<and> al_SendAttempts r = al_SendAttempts b"
    unfolding o using A b by simp
qed

lemma claim_in_flight: "inv db \<Longrightarrow> in_flight row (fst (as_ClaimPending S n l lk db)) (snd (as_ClaimPending S n l lk db))"
  unfolding in_flight_def using claim_distinct claim_row al_claim_fields(3) by metis

text \<open>The delivery log. A request adds one entry at most, about the row it sends.\<close>

lemma send_log:
  "snd (sd_send S P cfg e a st) = snd st \<or>
   (\<exists>d. snd (sd_send S P cfg e a st) = snd st @ [d] \<and> dl_ID d = al_ID a \<and>
     (dl_Fate d = Recorded \<longrightarrow> (\<exists>m. fst (sd_send S P cfg e a st) = as_MarkSent S (ev_dbNow e) (al_ID a) m (fst st))) \<and>
     (dl_Fate d = Counted \<longrightarrow> (\<exists>err t. fst (sd_send S P cfg e a st) = as_MarkFailed S (ev_dbNow e) (al_ID a) err t (fst st))) \<and>
     (dl_Fate d = Lost \<longrightarrow> fst (sd_send S P cfg e a st) = fst st))"
  by (auto simp: sd_send_def sd_markFailed_def Let_def split: sum.split tg_reply.split)

lemma send_delivered:
  assumes "delivered_inv row st" "in_flight row (fst st) (a # as)"
  shows "delivered_inv row (sd_send S P cfg e a st)"
proof -
  let ?st = "sd_send S P cfg e a st"
  obtain r where r: "row (fst st) (al_ID a) = Some r" "al_Status r = AlertSending"
    using assms(2) by (auto simp: in_flight_def)
  have old: "\<exists>r. row (fst ?st) (dl_ID d) = Some r \<and> (dl_Fate d = Recorded \<longrightarrow> al_Status r = AlertSent)"
    if d: "d \<in> set (snd st)" for d
  proof -
    obtain r0 where r0: "row (fst st) (dl_ID d) = Some r0" "dl_Fate d = Recorded \<longrightarrow> al_Status r0 = AlertSent"
      using assms(1) d unfolding delivered_inv_def by blast
    obtain r1 where "row (fst ?st) (dl_ID d) = Some r1" "al_trans\<^sup>*\<^sup>* (al_Status r0) (al_Status r1)"
      using send_follows [of st P cfg e a] r0(1) unfolding follows_def by blast
    then show ?thesis using r0(2) al_trans_Sent by metis
  qed
  have before: "\<not> (dl_ID d = al_ID a \<and> dl_Fate d = Recorded)" if "d \<in> set (snd st)" for d
    using assms(1) that r by (auto simp: delivered_inv_def)
  from send_log [of P cfg e a st] show ?thesis
  proof (elim disjE exE conjE)
    assume "snd ?st = snd st"
    then show ?thesis using assms(1) old by (simp add: delivered_inv_def)
  next
    fix d assume d: "snd ?st = snd st @ [d]" "dl_ID d = al_ID a"
      "dl_Fate d = Recorded \<longrightarrow> (\<exists>m. fst ?st = as_MarkSent S (ev_dbNow e) (al_ID a) m (fst st))"
    obtain r' where r': "row (fst ?st) (al_ID a) = Some r'"
      using send_follows [of st P cfg e a] r(1) unfolding follows_def by blast
    have "al_Status r' = AlertSent" if "dl_Fate d = Recorded"
      using d(3) that r r' by (auto simp: row_sent)
    then have "\<exists>r. row (fst ?st) (dl_ID d) = Some r \<and> (dl_Fate d = Recorded \<longrightarrow> al_Status r = AlertSent)"
      using r' d(2) by auto
    moreover have "sorted_wrt (\<lambda>d d'. \<not> (dl_ID d = dl_ID d' \<and> dl_Fate d = Recorded)) (snd st @ [d])"
      using assms(1) before d(2) by (simp add: delivered_inv_def sorted_wrt_append)
    ultimately show ?thesis using old d(1) by (simp add: delivered_inv_def)
  qed
qed

lemma follows_delivered: "delivered_inv row (db, lg) \<Longrightarrow> follows row db db' \<Longrightarrow> delivered_inv row (db', lg)"
  unfolding delivered_inv_def follows_def fst_conv snd_conv by (metis al_trans_Sent)

lemma loop_delivered:
  "delivered_inv row st \<Longrightarrow> in_flight row (fst st) as \<Longrightarrow> delivered_inv row (sd_loop S P cfg as es st)"
proof (induction as arbitrary: es st)
  case (Cons a as)
  show ?case
  proof (cases es)
    case (Cons e es')
    with Cons.prems show ?thesis
      by (auto intro!: Cons.IH send_delivered send_in_flight)
  qed (use Cons.prems in simp)
qed simp

text \<open>The retry budget.\<close>

lemma send_budget:
  assumes "budget_inv row (budget cfg) (fst st)" "in_flight row (fst st) (a # as)" "budget cfg < 2 ^ 31"
  shows "budget_inv row (budget cfg) (fst (sd_send S P cfg e a st))"
proof -
  obtain r where r: "row (fst st) (al_ID a) = Some r" "al_Status r = AlertSending"
      "al_SendAttempts r = al_SendAttempts a"
    using assms(2) by (auto simp: in_flight_def)
  have "row_budget (budget cfg) r" using assms(1) r(1) by (auto simp: budget_inv_def)
  then have b: "0 \<le> al_SendAttempts a" "al_SendAttempts a < budget cfg"
    using r(2,3) by (simp_all add: row_budget_def)
  have i: "i32 (al_SendAttempts a + 1) = al_SendAttempts a + 1" using b assms(3) by (intro i32_id) auto
  have "row_budget (budget cfg) r'"
    if "row (as_MarkFailed S n (al_ID a) err (fst (scheduleRetry (sc_Retry cfg) now u a err)) (fst st)) j = Some r'"
    for n err now u j r'
  proof (cases "j = al_ID a")
    case True
    then have r': "r' = r\<lparr>al_Status := AlertFailed, al_SendAttempts := al_SendAttempts a + 1,
        al_LastAttemptAt := Some n, al_LastSendError := Some err,
        al_NextRetryAt := (if IsZero (fst (scheduleRetry (sc_Retry cfg) now u a err)) then None
          else Some (fst (scheduleRetry (sc_Retry cfg) now u a err))), al_UpdatedAt := n\<rparr>"
      using that r i by (simp add: row_failed)
    show ?thesis unfolding r' using b i scheduleRetry_zero [of "sc_Retry cfg" now u a err]
      by (auto simp: row_budget_def IsZero_def budget_def)
  next
    case False
    then show ?thesis using that assms(1) by (auto simp: row_failed budget_inv_def)
  qed
  moreover have "row_budget (budget cfg) r'" if "row (as_MarkSent S n (al_ID a) m (fst st)) j = Some r'" for n m j r'
    using that assms(1) r b by (auto simp: row_sent budget_inv_def row_budget_def split: if_splits)
  ultimately show ?thesis using assms(1)
    by (auto simp: sd_send_def sd_markFailed_def Let_def budget_inv_def split: sum.split tg_reply.split)
qed

lemma claim_budget:
  assumes "inv db" "budget_inv row M db"
  shows "budget_inv row M (fst (as_ClaimPending S n l lk db))"
  unfolding budget_inv_def
proof (intro allI impI)
  fix i r assume r: "row (fst (as_ClaimPending S n l lk db)) i = Some r"
  show "row_budget M r"
  proof (cases "i \<in> al_ID ` set (snd (as_ClaimPending S n l lk db))")
    case True
    then obtain a where a: "a \<in> set (snd (as_ClaimPending S n l lk db))" "al_ID a = i" by auto
    obtain r0 where r0: "row db i = Some r0" "al_claimable n r0" "r = al_claim n r0"
      using claim_row [OF assms(1) a(1)] r a(2) by auto
    then have "row_budget M r0" using assms(2) by (auto simp: budget_inv_def)
    then show ?thesis using r0 by (auto simp: row_budget_def al_claimable_def split: option.splits)
  next
    case False
    then show ?thesis using claim_other [OF assms(1) False] r assms(2) by (simp add: budget_inv_def)
  qed
qed

lemma reset_budget: "budget_inv row M db \<Longrightarrow> budget_inv row M (as_ResetStaleSending S n c db)"
  by (auto simp: budget_inv_def row_reset row_budget_def split: if_splits)

lemma loop_budget:
  "budget_inv row (budget cfg) (fst st) \<Longrightarrow> in_flight row (fst st) as \<Longrightarrow> budget cfg < 2 ^ 31 \<Longrightarrow>
   budget_inv row (budget cfg) (fst (sd_loop S P cfg as es st))"
proof (induction as arbitrary: es st)
  case (Cons a as)
  show ?case
  proof (cases es)
    case (Cons e es')
    with Cons.prems show ?thesis
      by (auto intro!: Cons.IH send_budget send_in_flight)
  qed (use Cons.prems in simp)
qed simp

text \<open>The requests that are counted never exceed what the row says of them.\<close>

lemma counted_snoc: "counted i (ds @ [d]) = counted i ds @ (if dl_ID d = i \<and> dl_Fate d \<noteq> Lost then [d] else [])"
  by (simp add: counted_def)

lemma send_tally:
  assumes "tally_inv row st" "budget_inv row (budget cfg) (fst st)" "in_flight row (fst st) (a # as)" "budget cfg < 2 ^ 31"
  shows "tally_inv row (sd_send S P cfg e a st)"
  unfolding tally_inv_def
proof (intro allI impI)
  let ?st = "sd_send S P cfg e a st"
  fix i r' assume r': "row (fst ?st) i = Some r'"
  obtain r where r: "row (fst st) (al_ID a) = Some r" "al_Status r = AlertSending"
    using assms(3) by (auto simp: in_flight_def)
  have "row_budget (budget cfg) r" using assms(2) r(1) by (auto simp: budget_inv_def)
  then have i: "i32 (al_SendAttempts r + 1) = al_SendAttempts r + 1"
    using r(2) assms(4) by (intro i32_id) (auto simp: row_budget_def)
  have t: "int (length (counted (al_ID a) (snd st))) \<le> al_SendAttempts r"
    using assms(1) r unfolding tally_inv_def allowed_def by force
  show "int (length (counted i (snd ?st))) \<le> allowed r'"
  proof (cases "i = al_ID a")
    case False
    then have "counted i (snd ?st) = counted i (snd st)" "row (fst st) i = Some r'"
      using send_log [of P cfg e a st] r' send_other [of i a P cfg e st] by (auto simp: counted_snoc)
    then show ?thesis using assms(1) by (simp add: tally_inv_def)
  next
    case True
    have up: "al_SendAttempts r \<le> allowed r'"
      using r' r i True by (auto simp: allowed_def sd_send_def sd_markFailed_def Let_def row_sent row_failed split: sum.splits tg_reply.splits if_splits)
    from send_log [of P cfg e a st] show ?thesis
    proof (elim disjE exE conjE)
      assume "snd ?st = snd st"
      then show ?thesis using t up True by simp
    next
      fix d assume d: "snd ?st = snd st @ [d]" "dl_ID d = al_ID a"
        "dl_Fate d = Recorded \<longrightarrow> (\<exists>m. fst ?st = as_MarkSent S (ev_dbNow e) (al_ID a) m (fst st))"
        "dl_Fate d = Counted \<longrightarrow> (\<exists>err t. fst ?st = as_MarkFailed S (ev_dbNow e) (al_ID a) err t (fst st))"
      show ?thesis
      proof (cases "dl_Fate d")
        case Recorded
        then show ?thesis using d t r r' True by (auto simp: counted_snoc row_sent allowed_def)
      next
        case Counted
        then show ?thesis using d t r r' True i by (auto simp: counted_snoc row_failed allowed_def)
      next
        case Lost
        then show ?thesis using d(1) t up True by (simp add: counted_snoc)
      qed
    qed
  qed
qed

lemma loop_tally:
  "tally_inv row st \<Longrightarrow> budget_inv row (budget cfg) (fst st) \<Longrightarrow> in_flight row (fst st) as \<Longrightarrow> budget cfg < 2 ^ 31 \<Longrightarrow>
   tally_inv row (sd_loop S P cfg as es st)"
proof (induction as arbitrary: es st)
  case (Cons a as)
  show ?case
  proof (cases es)
    case (Cons e es')
    with Cons.prems show ?thesis
      by (auto intro!: Cons.IH send_tally send_budget send_in_flight)
  qed (use Cons.prems in simp)
qed simp

lemma claim_tally:
  assumes "inv db" "tally_inv row (db, lg)"
  shows "tally_inv row (fst (as_ClaimPending S n l lk db), lg)"
  unfolding tally_inv_def fst_conv snd_conv
proof (intro allI impI)
  fix i r assume r: "row (fst (as_ClaimPending S n l lk db)) i = Some r"
  show "int (length (counted i lg)) \<le> allowed r"
  proof (cases "i \<in> al_ID ` set (snd (as_ClaimPending S n l lk db))")
    case True
    then obtain a where a: "a \<in> set (snd (as_ClaimPending S n l lk db))" "al_ID a = i" by auto
    obtain r0 where r0: "row db i = Some r0" "al_claimable n r0" "r = al_claim n r0"
      using claim_row [OF assms(1) a(1)] r a(2) by auto
    then have "allowed r = allowed r0" by (auto simp: al_claimable_def al_claim_def allowed_def)
    then show ?thesis using assms(2) r0(1) by (simp add: tally_inv_def)
  next
    case False
    then show ?thesis using claim_other [OF assms(1) False] r assms(2) by (simp add: tally_inv_def)
  qed
qed

lemma reset_tally:
  assumes "tally_inv row (db, lg)"
  shows "tally_inv row (as_ResetStaleSending S n c db, lg)"
  unfolding tally_inv_def fst_conv snd_conv
proof (intro allI impI)
  fix i r assume r: "row (as_ResetStaleSending S n c db) i = Some r"
  then obtain r0 where r0: "row db i = Some r0" "allowed r = allowed r0"
    unfolding row_reset by (cases "row db i") (auto simp: allowed_def)
  then show "int (length (counted i lg)) \<le> allowed r" using assms by (simp add: tally_inv_def)
qed

lemma loop_inv: "inv (fst st) \<Longrightarrow> inv (fst (sd_loop S P cfg as es st))"
proof (induction as arbitrary: es st)
  case (Cons a as)
  show ?case
  proof (cases es)
    case (Cons e es')
    with Cons.prems show ?thesis
      by (auto intro!: Cons.IH send_inv)
  qed (use Cons.prems in simp)
qed simp

lemma loop_follows: "follows row (fst st) (fst (sd_loop S P cfg as es st))"
proof (induction as arbitrary: es st)
  case (Cons a as)
  show ?case
  proof (cases es)
    case (Cons e es')
    have "follows row (fst st) (fst (sd_loop S P cfg as es' (sd_send S P cfg e a st)))"
      by (rule follows_trans [OF send_follows Cons.IH])
    then show ?thesis using Cons by simp
  qed (use Cons.prems in simp)
qed simp

text \<open>One worker's round and a whole pass.\<close>

lemma drainOne_keeps:
  assumes "inv (fst st)"
  shows "inv (fst (drainOne S P cfg st r))" "follows row (fst st) (fst (drainOne S P cfg st r))"
    and "budget_inv row (budget cfg) (fst st) \<Longrightarrow> budget cfg < 2 ^ 31 \<Longrightarrow>
      budget_inv row (budget cfg) (fst (drainOne S P cfg st r))"
    and "delivered_inv row st \<Longrightarrow> delivered_inv row (drainOne S P cfg st r)"
    and "tally_inv row st \<Longrightarrow> budget_inv row (budget cfg) (fst st) \<Longrightarrow> budget cfg < 2 ^ 31 \<Longrightarrow>
      tally_inv row (drainOne S P cfg st r)"
proof -
  let ?c = "as_ClaimPending S (rd_dbNow r) (nat (sc_ClaimLimit cfg)) (rd_locked r) (fst st)"
  have d: "drainOne S P cfg st r = (if \<not> rd_claimOK r then st
      else sd_loop S P cfg (snd ?c) (rd_events r) (fst ?c, snd st))"
    by (simp add: drainOne_def split: prod.split)
  have f: "follows row (fst st) (fst ?c)" by (rule follows_claim [OF assms])
  show "inv (fst (drainOne S P cfg st r))"
    using assms inv_claim [OF assms] by (simp add: d loop_inv)
  show "follows row (fst st) (fst (drainOne S P cfg st r))"
    using f follows_trans [OF f] loop_follows [where st = "(fst ?c, snd st)" and cfg = cfg and P = P] by (simp add: d)
  show "budget_inv row (budget cfg) (fst st) \<Longrightarrow> budget cfg < 2 ^ 31 \<Longrightarrow>
      budget_inv row (budget cfg) (fst (drainOne S P cfg st r))"
    using loop_budget [where st = "(fst ?c, snd st)" and cfg = cfg and P = P]
      claim_budget [OF assms] claim_in_flight [OF assms]
    by (simp add: d)
  show "delivered_inv row st \<Longrightarrow> delivered_inv row (drainOne S P cfg st r)"
    using loop_delivered [where st = "(fst ?c, snd st)" and cfg = cfg and P = P] follows_delivered [of "fst st" "snd st", OF _ f]
      claim_in_flight [OF assms]
    by (simp add: d)
  show "tally_inv row st \<Longrightarrow> budget_inv row (budget cfg) (fst st) \<Longrightarrow> budget cfg < 2 ^ 31 \<Longrightarrow>
      tally_inv row (drainOne S P cfg st r)"
    using loop_tally [where st = "(fst ?c, snd st)" and cfg = cfg and P = P] claim_tally [OF assms, of "snd st"]
      claim_budget [OF assms] claim_in_flight [OF assms]
    by (simp add: d)
qed

lemma rounds_keep:
  "inv (fst st) \<Longrightarrow> inv (fst (foldl (drainOne S P cfg) st rs)) \<and>
   follows row (fst st) (fst (foldl (drainOne S P cfg) st rs)) \<and>
   (budget_inv row (budget cfg) (fst st) \<longrightarrow> budget cfg < 2 ^ 31 \<longrightarrow>
      budget_inv row (budget cfg) (fst (foldl (drainOne S P cfg) st rs))) \<and>
   (delivered_inv row st \<longrightarrow> delivered_inv row (foldl (drainOne S P cfg) st rs)) \<and>
   (tally_inv row st \<longrightarrow> budget_inv row (budget cfg) (fst st) \<longrightarrow> budget cfg < 2 ^ 31 \<longrightarrow>
      tally_inv row (foldl (drainOne S P cfg) st rs))"
proof (induction rs arbitrary: st)
  case (Cons r rs)
  note k = drainOne_keeps [where P = P and cfg = cfg and r = r, OF Cons.prems]
  show ?case using Cons.IH [OF k(1)] k follows_trans [OF k(2)] by simp
qed simp

lemma drain_keeps:
  assumes "inv (fst st)"
  shows "inv (fst (drain S P cfg p st)) \<and> follows row (fst st) (fst (drain S P cfg p st)) \<and>
   (budget_inv row (budget cfg) (fst st) \<longrightarrow> budget cfg < 2 ^ 31 \<longrightarrow>
      budget_inv row (budget cfg) (fst (drain S P cfg p st))) \<and>
   (delivered_inv row st \<longrightarrow> delivered_inv row (drain S P cfg p st)) \<and>
   (tally_inv row st \<longrightarrow> budget_inv row (budget cfg) (fst st) \<longrightarrow> budget cfg < 2 ^ 31 \<longrightarrow>
      tally_inv row (drain S P cfg p st))"
proof -
  define db where "db = (if ps_resetOK p
    then as_ResetStaleSending S (ps_dbNow p) (ps_now p - sc_StaleSendingAfter cfg) (fst st) else fst st)"
  have d: "drain S P cfg p st = foldl (drainOne S P cfg) (db, snd st) (take (nat (sc_Workers cfg)) (ps_rounds p))"
    by (simp add: drain_def db_def Let_def)
  have db: "inv db" "follows row (fst st) db"
    using assms inv_reset follows_reset by (auto simp: db_def)
  have b: "budget_inv row (budget cfg) (fst st) \<Longrightarrow> budget_inv row (budget cfg) db"
    using reset_budget by (simp add: db_def)
  have l: "delivered_inv row st \<Longrightarrow> delivered_inv row (db, snd st)"
    using follows_delivered [of "fst st" "snd st", OF _ db(2)] by simp
  have t: "tally_inv row st \<Longrightarrow> tally_inv row (db, snd st)"
    using reset_tally [of "fst st" "snd st"] by (simp add: db_def)
  show ?thesis unfolding d
    using rounds_keep [where st = "(db, snd st)" and P = P and cfg = cfg
        and rs = "take (nat (sc_Workers cfg)) (ps_rounds p)"] db b l t
      follows_trans [OF db(2)] by simp
qed

end

subsection \<open>Backoff\<close>

lemma backoff_loop_eq:
  "0 < d \<Longrightarrow> d \<le> m \<Longrightarrow> m \<le> 2 ^ 52 \<Longrightarrow> backoff_loop m d n = min (d * 2 ^ n) m"
proof (induction n arbitrary: d)
  case (Suc n)
  have i: "i64 (d * 2) = d * 2" using Suc.prems by (intro i64_id) auto
  show ?case
  proof (cases "m < d * 2")
    case True
    have "d * 2 * 1 \<le> d * 2 * 2 ^ n" using Suc.prems by (intro mult_left_mono) auto
    then have "min (d * 2 ^ Suc n) m = m" using True by (simp add: mult.assoc)
    then show ?thesis using True by (simp add: i Let_def)
  next
    case False
    then show ?thesis using Suc.prems Suc.IH [of "d * 2"] by (simp add: i Let_def mult.assoc)
  qed
qed simp

lemma f2i_bound: "- of_int n \<le> r \<Longrightarrow> r \<le> of_int n \<Longrightarrow> 0 \<le> n \<Longrightarrow> n < 2 ^ 62 \<Longrightarrow> \<bar>f2i (Fin r)\<bar> \<le> n"
proof -
  assume a: "- of_int n \<le> r" "r \<le> of_int n" "0 \<le> n" "n < 2 ^ 62"
  have "\<lfloor>r\<rfloor> \<le> n" "\<lfloor>- r\<rfloor> \<le> n" using a floor_mono [of r "of_int n"] floor_mono [of "- r" "of_int n"] by simp_all
  define k where "k = (if 0 \<le> r then \<lfloor>r\<rfloor> else - \<lfloor>- r\<rfloor>)"
  have "0 \<le> \<lfloor>- r\<rfloor>" if "\<not> 0 \<le> r" using that by simp
  moreover have "0 \<le> \<lfloor>r\<rfloor>" if "0 \<le> r" using that by simp
  ultimately have k: "- n \<le> k" "k \<le> n" using \<open>\<lfloor>r\<rfloor> \<le> n\<close> \<open>\<lfloor>- r\<rfloor> \<le> n\<close> a(3)
    unfolding k_def by (cases "0 \<le> r"; simp only: if_True if_False; linarith)+
  then have "f2i (Fin r) = k" using a(4) by (simp only: f2i.simps flip: k_def) (simp add: Let_def)
  then show ?thesis using k by (simp add: abs_le_iff)
qed

lemma f64_sym_mult:
  assumes "- 1 \<le> x" "x \<le> 1" "0 \<le> n" "n \<le> 2 ^ 53"
  shows "\<exists>r. Fin (of_int n) * x = Fin r \<and> - of_int n \<le> r \<and> r \<le> of_int n"
proof -
  obtain a where a: "x = Fin a" "- 1 \<le> a" "a \<le> 1" using assms(1,2) by (cases x) (auto simp: one_f64)
  have n: "(0 :: rat) \<le> of_int n" using assms(3) by simp
  have "of_int n * a \<le> of_int n" "of_int (- n) \<le> of_int n * a"
    using mult_left_mono [OF a(3) n] mult_left_mono [OF a(2) n] by simp_all
  then have "fl (of_int n * a) \<le> Fin (of_int n)" "Fin (of_int (- n)) \<le> fl (of_int n * a)"
    using assms(3,4) by (intro fl_le_int fl_ge_int; simp)+
  then show ?thesis using a by (cases "fl (of_int n * a)") auto
qed

lemma jitter_range:
  assumes "0 \<le> u" "u < 1" "0 < j" "j \<le> 1"
  shows "- 1 \<le> (u * fl 2 - 1) * j \<and> (u * fl 2 - 1) * j \<le> (1 :: float64)"
proof -
  obtain a where a: "u = Fin a" "0 \<le> a" "a < 1" using assms by (cases u) (auto simp: zero_f64 one_f64)
  obtain b where b: "j = Fin b" "0 < b" "b \<le> 1" using assms by (cases j) (auto simp: zero_f64 one_f64)
  have "ranged 2 (fl (a * 2))" using a by (intro ranged_fl) auto
  then obtain c where c: "fl (a * 2) = Fin c" "0 \<le> c" "c \<le> 2" by (auto simp: ranged_def)
  have "fl (c - 1) \<le> Fin (of_int 1)" "Fin (of_int (- 1)) \<le> fl (c - 1)"
    using c by (intro fl_le_int fl_ge_int; simp)+
  then obtain d where d: "fl (c - 1) = Fin d" "- 1 \<le> d" "d \<le> 1" by (cases "fl (c - 1)") auto
  have "d * b \<le> 1" "- 1 \<le> d * b"
    using b d mult_right_mono [of d 1 b] mult_right_mono [of "- 1" d b] by linarith+
  then have "fl (d * b) \<le> Fin (of_int 1)" "Fin (of_int (- 1)) \<le> fl (d * b)"
    by (intro fl_le_int fl_ge_int; simp)+
  then show ?thesis using a b c d by (simp add: minus_float64_def one_f64)
qed

text \<open>The retry delay doubles from the initial backoff, is capped at the maximum, and jitter moves it
  by at most its own size: it is never negative and never more than twice the capped delay.\<close>

theorem backoff_bounds:
  assumes "0 < rp_InitialBackoff p" "rp_InitialBackoff p \<le> rp_MaxBackoff p" "rp_MaxBackoff p \<le> 2 ^ 52"
    and "0 \<le> u" "u < 1" "rp_JitterFraction p \<le> 1"
  shows "let capped = min (rp_InitialBackoff p * 2 ^ nat (attempt - 1)) (rp_MaxBackoff p) in
    0 \<le> backoff p attempt u \<and> backoff p attempt u \<le> 2 * capped"
proof -
  define d where "d = min (rp_InitialBackoff p * 2 ^ nat (attempt - 1)) (rp_MaxBackoff p)"
  have l: "backoff_loop (rp_MaxBackoff p) (rp_InitialBackoff p) (nat (attempt - 1)) = d"
    using backoff_loop_eq [OF assms(1-3)] by (simp add: d_def)
  have d: "0 < d" "d \<le> 2 ^ 52" using assms by (auto simp: d_def)
  show ?thesis
  proof (cases "0 < rp_JitterFraction p")
    case True
    let ?j = "(u * fl 2 - 1) * rp_JitterFraction p"
    have "\<exists>r. Fin (of_int d) * ?j = Fin r \<and> - of_int d \<le> r \<and> r \<le> of_int d"
      using jitter_range [OF assms(4,5) True assms(6)] d by (intro f64_sym_mult) auto
    then obtain r where r: "of_i d * ?j = Fin r" "- of_int d \<le> r" "r \<le> of_int d"
      using d by (auto simp: of_i_eq)
    have "\<bar>f2i (of_i d * ?j)\<bar> \<le> d" unfolding r(1) using r(2,3) d by (intro f2i_bound) auto
    then have f: "- d \<le> f2i (of_i d * ?j)" "f2i (of_i d * ?j) \<le> d" by (simp_all add: abs_le_iff)
    then have "i64 (d + f2i (of_i d * ?j)) = d + f2i (of_i d * ?j)" using d by (intro i64_id) auto
    then show ?thesis unfolding backoff_def l Let_def d_def [symmetric] using True f by (simp del: fl_numeral)
  next
    case False
    then show ?thesis unfolding backoff_def l Let_def d_def [symmetric] using d by simp
  qed
qed

lemma backoff_bounds_witness:
  "let p = \<lparr>rp_Enabled = True, rp_MaxAttempts = 5, rp_InitialBackoff = 30 * Second, rp_MaxBackoff = 30 * Minute,
            rp_JitterFraction = fl 0.25\<rparr>
   in 0 \<le> backoff p 3 (fl 0.75) \<and> backoff p 3 (fl 0.75) \<le> 2 * (120 * Second) \<and> backoff p 3 (fl 0.75) = 135 * Second"
proof -
  let ?p = "\<lparr>rp_Enabled = True, rp_MaxAttempts = 5, rp_InitialBackoff = 30 * Second,
    rp_MaxBackoff = 30 * Minute, rp_JitterFraction = fl 0.25\<rparr>"
  have h: "0 < rp_InitialBackoff ?p" "rp_InitialBackoff ?p \<le> rp_MaxBackoff ?p" "rp_MaxBackoff ?p \<le> 2 ^ 52"
    "0 \<le> fl 0.75" "fl 0.75 < 1" "rp_JitterFraction ?p \<le> 1" by code_simp+
  have "backoff ?p 3 (fl 0.75) = 135 * Second" by code_simp
  then show ?thesis using backoff_bounds [OF h, of 3] by (simp add: Let_def)
qed

subsection \<open>The queue and its workers over time\<close>

datatype sys_op = OpCreate time NewAlert | OpDrain sd_pass

fun sys_step :: "'f Pipeline \<Rightarrow> as_Config \<Rightarrow> AlertTable sender_state \<Rightarrow> sys_op \<Rightarrow> AlertTable sender_state" where
  "sys_step P cfg st (OpCreate now a) = (fst (TryCreatePending now a (fst st)), snd st)"
| "sys_step P cfg st (OpDrain p) = drain sql_store P cfg p st"

definition sys_init :: "AlertTable sender_state" where
  "sys_init = (\<lparr>at_rows = [], at_next = 1\<rparr>, [])"

definition sys_run :: "'f Pipeline \<Rightarrow> as_Config \<Rightarrow> sys_op list \<Rightarrow> AlertTable sender_state" where
  "sys_run P cfg ops = foldl (sys_step P (as_New cfg)) sys_init ops"

lemma budget_pos: "1 \<le> budget (as_New cfg)"
  by (auto simp: budget_def as_New_def Let_def)

lemma follows_create: "follows al_find t (fst (TryCreatePending now a t))"
  by (auto simp: follows_def dest: al_find_TryCreate)

lemma budget_create:
  assumes "budget_inv al_find M t" "1 \<le> M"
  shows "budget_inv al_find M (fst (TryCreatePending now a t))"
  unfolding budget_inv_def
proof (intro allI impI)
  fix i r assume r: "al_find (fst (TryCreatePending now a t)) i = Some r"
  show "row_budget M r"
  proof (cases "al_find t i")
    case None
    then have "snd (TryCreatePending now a t) = Some r"
      using r al_find_TryCreate_new [OF None, of now a] by (auto split: if_splits)
    then show ?thesis using assms(2) by (auto simp: TryCreatePending_def Let_def row_budget_def split: if_splits)
  next
    case (Some r')
    then show ?thesis using al_find_TryCreate [OF Some, of now a] r assms(1) by (auto simp: budget_inv_def)
  qed
qed

lemma tally_create:
  assumes "al_inv t" "delivered_inv al_find (t, lg)" "tally_inv al_find (t, lg)"
  shows "tally_inv al_find (fst (TryCreatePending now a t), lg)"
  unfolding tally_inv_def fst_conv snd_conv
proof (intro allI impI)
  fix i r assume r: "al_find (fst (TryCreatePending now a t)) i = Some r"
  show "int (length (counted i lg)) \<le> allowed r"
  proof (cases "al_find t i")
    case None
    then have "snd (TryCreatePending now a t) = Some r"
      using r al_find_TryCreate_new [OF None, of now a] by (auto split: if_splits)
    then have "0 \<le> allowed r" by (auto simp: allowed_def TryCreatePending_def Let_def split: if_splits)
    moreover have "counted i lg = []"
      using assms(2) None by (force simp: delivered_inv_def counted_def filter_empty_conv)
    ultimately show ?thesis by simp
  next
    case (Some r')
    then show ?thesis using al_find_TryCreate [OF Some, of now a] r assms(3) by (auto simp: tally_inv_def)
  qed
qed

lemma sys_step_keeps:
  assumes "al_inv (fst st)"
  shows "al_inv (fst (sys_step P cfg st op)) \<and> follows al_find (fst st) (fst (sys_step P cfg st op)) \<and>
   (budget_inv al_find (budget cfg) (fst st) \<longrightarrow> 1 \<le> budget cfg \<longrightarrow> budget cfg < 2 ^ 31 \<longrightarrow>
      budget_inv al_find (budget cfg) (fst (sys_step P cfg st op))) \<and>
   (delivered_inv al_find st \<longrightarrow> delivered_inv al_find (sys_step P cfg st op)) \<and>
   (delivered_inv al_find st \<longrightarrow> tally_inv al_find st \<longrightarrow> budget_inv al_find (budget cfg) (fst st) \<longrightarrow>
      budget cfg < 2 ^ 31 \<longrightarrow> tally_inv al_find (sys_step P cfg st op))"
proof (cases op)
  case (OpCreate now a)
  have "delivered_inv al_find st \<Longrightarrow> delivered_inv al_find (fst (TryCreatePending now a (fst st)), snd st)"
    using sql.follows_delivered [of "fst st" "snd st", OF _ follows_create] by simp
  then show ?thesis using OpCreate TryCreate_inv [OF assms] follows_create budget_create
      tally_create [OF assms, of "snd st" now a] by simp
next
  case (OpDrain p)
  then show ?thesis using sql.drain_keeps [OF assms, of P cfg p] by simp
qed

lemma sys_run_keeps:
  "al_inv (fst (sys_run P cfg ops)) \<and>
   (budget (as_New cfg) < 2 ^ 31 \<longrightarrow> budget_inv al_find (budget (as_New cfg)) (fst (sys_run P cfg ops))) \<and>
   delivered_inv al_find (sys_run P cfg ops) \<and>
   (budget (as_New cfg) < 2 ^ 31 \<longrightarrow> tally_inv al_find (sys_run P cfg ops))"
proof (induction ops rule: rev_induct)
  case Nil
  then show ?case
    by (simp add: sys_run_def sys_init_def al_inv_def budget_inv_def delivered_inv_def tally_inv_def al_find_def)
next
  case (snoc op ops)
  have "sys_run P cfg (ops @ [op]) = sys_step P (as_New cfg) (sys_run P cfg ops) op" by (simp add: sys_run_def)
  then show ?case
    using sys_step_keeps [of "sys_run P cfg ops" P "as_New cfg" op] snoc.IH budget_pos [of cfg] by simp
qed

text \<open>Two rows never share a key: the keys of the table are distinct.\<close>

definition alert_key :: "AlertTable \<Rightarrow> delivery \<Rightarrow> string option" where
  "alert_key t d = map_option al_DedupKey (al_find t (dl_ID d))"

lemma alert_key_inj:
  assumes "al_inv t" "alert_key t d = alert_key t d'" "al_find t (dl_ID d) \<noteq> None"
  shows "dl_ID d = dl_ID d'"
proof -
  obtain r r' where r: "al_find t (dl_ID d) = Some r" "al_find t (dl_ID d') = Some r'" "al_DedupKey r = al_DedupKey r'"
    using assms(2,3) unfolding alert_key_def by (cases "al_find t (dl_ID d')") auto
  have "r \<in> set (at_rows t)" "r' \<in> set (at_rows t)" "al_ID r = dl_ID d" "al_ID r' = dl_ID d'"
    using r al_find_Some by blast+
  then show ?thesis using assms(1) r(3) by (auto simp: al_inv_def distinct_map dest: inj_onD)
qed

text \<open>
  What the invariant says of the whole log. A request after a recorded one is about another alert,
  so an alert reaches the chat twice only when the queue has lost or been denied the first success.
\<close>

lemma delivered_log:
  assumes inv: "al_inv t" and del: "delivered_inv al_find (t, lg)"
  shows "sorted_wrt (\<lambda>d d'. \<not> (alert_key t d = alert_key t d' \<and> dl_Fate d = Recorded)) lg"
    and "distinct (map (alert_key t) (filter dl_Landed lg)) \<or> list_ex (\<lambda>d. dl_Landed d \<and> dl_Fate d \<noteq> Recorded) lg"
    and "d \<in> set lg \<Longrightarrow> \<exists>r. al_find t (dl_ID d) = Some r \<and> (dl_Fate d = Recorded \<longrightarrow> al_Status r = AlertSent)"
proof -
  have row: "al_find t (dl_ID d) \<noteq> None" if "d \<in> set lg" for d
    using del that by (force simp: delivered_inv_def)
  have srt: "sorted_wrt (\<lambda>d d'. \<not> (dl_ID d = dl_ID d' \<and> dl_Fate d = Recorded)) lg"
    using del by (simp add: delivered_inv_def)
  show s: "sorted_wrt (\<lambda>d d'. \<not> (alert_key t d = alert_key t d' \<and> dl_Fate d = Recorded)) lg"
    by (rule sorted_wrt_mono_rel [OF _ srt]) (use alert_key_inj [OF inv] row in blast)
  show "distinct (map (alert_key t) (filter dl_Landed lg)) \<or> list_ex (\<lambda>d. dl_Landed d \<and> dl_Fate d \<noteq> Recorded) lg"
    using s
  proof (induction lg)
    case (Cons d lg)
    show ?case
    proof (cases "list_ex (\<lambda>d. dl_Landed d \<and> dl_Fate d \<noteq> Recorded) (d # lg)")
      case False
      then have "distinct (map (alert_key t) (filter dl_Landed lg))" "dl_Landed d \<Longrightarrow> dl_Fate d = Recorded"
        using Cons by auto
      then show ?thesis using Cons.prems by auto
    qed simp
  qed simp
  show "d \<in> set lg \<Longrightarrow> \<exists>r. al_find t (dl_ID d) = Some r \<and> (dl_Fate d = Recorded \<longrightarrow> al_Status r = AlertSent)"
    using del by (simp add: delivered_inv_def)
qed

text \<open>C11. Delivery: however alerts are created and drains run, crash or fail in Telegram or in the
  database, once the delivery of an alert is recorded no request for it, nor for another row with
  its deduplication key, is ever made again. So a message reaches the chat at most once per key,
  unless one reached it that the queue did not record: its answer was an error or never came, or the
  write of its outcome failed. Every request is about a row of the table, and a recorded one about a
  row that is sent.\<close>

theorem delivered_at_most_once:
  "let (t, sends) = sys_run P cfg ops in
    sorted_wrt (\<lambda>d d'. \<not> (alert_key t d = alert_key t d' \<and> dl_Fate d = Recorded)) sends \<and>
    (distinct (map (alert_key t) (filter dl_Landed sends)) \<or>
       list_ex (\<lambda>d. dl_Landed d \<and> dl_Fate d \<noteq> Recorded) sends) \<and>
    (\<forall>d \<in> set sends. \<exists>r. al_find t (dl_ID d) = Some r \<and> (dl_Fate d = Recorded \<longrightarrow> al_Status r = AlertSent))"
proof -
  obtain t lg where s: "sys_run P cfg ops = (t, lg)" by (cases "sys_run P cfg ops")
  have "al_inv t" "delivered_inv al_find (t, lg)" using sys_run_keeps [of P cfg ops] s by auto
  note d = delivered_log [OF this]
  show ?thesis unfolding s Let_def prod.case using d by blast
qed

definition test_pipeline :: "string Pipeline" where
  "test_pipeline = \<lparr>pl_unmarshal = (\<lambda>p. if p = '''' then Inl ''unexpected end of JSON input'' else Inr p),
     pl_stamp = (\<lambda>a f. f), pl_kind = (\<lambda>f. ''trade_anomaly''), pl_format = (\<lambda>f. f)\<rparr>"

definition test_cfg :: as_Config where
  "test_cfg = \<lparr>sc_Interval = 0, sc_ClaimLimit = 0, sc_Workers = 0, sc_ChatID = ''c'', sc_StaleSendingAfter = 0,
     sc_Retry = \<lparr>rp_Enabled = True, rp_MaxAttempts = 3, rp_InitialBackoff = 0, rp_MaxBackoff = 0,
                 rp_JitterFraction = fl 0.25\<rparr>\<rparr>"

definition test_alert :: "string \<Rightarrow> NewAlert" where
  "test_alert key = \<lparr>na_DedupKey = key, na_StrategyVersion = ''v1'', na_Kind = ''trade_anomaly'', na_Reason = '''',
     na_Severity = ''info'', na_MarketID = None, na_TraderID = None, na_TradeID = None, na_Payload = ''x''\<rparr>"

text \<open>A pass at time \<open>t\<close> of one worker that sees the given replies, all of messages that did arrive, with the
  given database success.\<close>

definition test_pass :: "time \<Rightarrow> bool \<Rightarrow> tg_reply list \<Rightarrow> sd_pass" where
  "test_pass t ok replies = \<lparr>ps_now = t, ps_dbNow = t, ps_resetOK = True,
     ps_rounds = [\<lparr>rd_dbNow = t, rd_locked = {}, rd_claimOK = True,
       rd_events = map (\<lambda>r. \<lparr>ev_ctxDone = False, ev_now = t, ev_dbNow = t, ev_rand = fl 0.5, ev_reply = r,
                             ev_landed = True, ev_dbOK = ok\<rparr>) replies\<rparr>]\<rparr>"

definition test_ops :: "sys_op list" where
  "test_ops = [OpCreate 0 (test_alert ''k1''), OpCreate 1 (test_alert ''k1''), OpCreate 2 (test_alert ''k2''),
     OpDrain (test_pass Second True [TgErr ''timeout'', TgOK 7]),
     OpDrain (test_pass Minute True [TgOK 8])]"

lemma delivered_at_most_once_witness:
  "let (t, sends) = sys_run test_pipeline test_cfg test_ops in
    map (\<lambda>d. (dl_ID d, dl_Fate d)) sends = [(1, Counted), (3, Recorded), (1, Recorded)] \<and>
    sorted_wrt (\<lambda>d d'. \<not> (alert_key t d = alert_key t d' \<and> dl_Fate d = Recorded)) sends"
proof -
  have "map (\<lambda>d. (dl_ID d, dl_Fate d)) (snd (sys_run test_pipeline test_cfg test_ops)) =
      [(1, Counted), (3, Recorded), (1, Recorded)]" by code_simp
  then show ?thesis using delivered_at_most_once [of test_pipeline test_cfg test_ops]
    by (simp add: case_prod_beta Let_def)
qed

text \<open>Both ways to a double delivery. Telegram accepts an alert and the write that should record it is lost:
  the row stays \<open>sending\<close>, is reset as stale and is sent again. Telegram accepts it and its answer is
  lost: the row is marked failed and is retried.\<close>

theorem lost_mark_delivers_twice:
  "map dl_ID (filter dl_Landed (snd (sys_run test_pipeline test_cfg
     [OpCreate 0 (test_alert ''k1''), OpDrain (test_pass Second False [TgOK 7]),
      OpDrain (test_pass (10 * Minute) True [TgOK 8])]))) = [1, 1]"
  by code_simp

theorem lost_answer_delivers_twice:
  "map dl_ID (filter dl_Landed (snd (sys_run test_pipeline test_cfg
     [OpCreate 0 (test_alert ''k1''), OpDrain (test_pass Second True [TgErr ''EOF'']),
      OpDrain (test_pass (10 * Minute) True [TgOK 8])]))) = [1, 1]"
  by code_simp

text \<open>C27. The retry budget holds for every row at every time: the attempts the row counts, and the requests
  to Telegram whose outcome the queue recorded, never exceed the configured maximum (one when retries
  are off), and a row that can still be claimed has attempts left, so an exhausted row is never
  picked up again. Requests the queue knows nothing of (the context ended under them, or the write of
  their outcome failed) come on top: all requests about a row are at most the budget and those.\<close>

theorem retry_budget:
  assumes "budget (as_New cfg) < 2 ^ 31"
    and "al_find (fst (sys_run P cfg ops)) i = Some r"
  shows "0 \<le> al_SendAttempts r \<and> al_SendAttempts r \<le> budget (as_New cfg) \<and>
    int (length (counted i (snd (sys_run P cfg ops)))) \<le> budget (as_New cfg) \<and>
    int (length (filter (\<lambda>d. dl_ID d = i) (snd (sys_run P cfg ops))))
      \<le> budget (as_New cfg) + int (length (uncounted i (snd (sys_run P cfg ops)))) \<and>
    (al_SendAttempts r = budget (as_New cfg) \<longrightarrow> \<not> al_claimable now r \<and> al_Status r = AlertFailed)"
proof -
  have b: "row_budget (budget (as_New cfg)) r"
    using sys_run_keeps [of P cfg ops] assms by (auto simp: budget_inv_def)
  have "int (length (counted i (snd (sys_run P cfg ops)))) \<le> allowed r"
    using sys_run_keeps [of P cfg ops] assms by (auto simp: tally_inv_def)
  then have c: "int (length (counted i (snd (sys_run P cfg ops)))) \<le> budget (as_New cfg)"
    using b by (auto simp: row_budget_def allowed_def split: if_splits)
  show ?thesis using b c counted_uncounted [of i "snd (sys_run P cfg ops)"]
    by (auto simp: row_budget_def al_claimable_def split: option.splits)
qed

text \<open>Three failures exhaust the budget of three, and the row is not sent again.\<close>

definition failing_ops :: "sys_op list" where
  "failing_ops = [OpCreate 0 (test_alert ''k1''), OpDrain (test_pass Second True [TgErr ''timeout'']),
     OpDrain (test_pass Minute True [TgErr ''timeout'']), OpDrain (test_pass (10 * Minute) True [TgErr ''timeout'']),
     OpDrain (test_pass (24 * Hour) True [TgErr ''timeout''])]"

lemma retry_budget_witness:
  "let r = the (al_find (fst (sys_run test_pipeline test_cfg failing_ops)) 1)
   in al_SendAttempts r = 3 \<and> \<not> al_claimable (48 * Hour) r \<and>
      length (filter (\<lambda>d. dl_ID d = 1) (snd (sys_run test_pipeline test_cfg failing_ops))) \<le> 3"
proof -
  let ?st = "sys_run test_pipeline test_cfg failing_ops"
  have "map_option al_SendAttempts (al_find (fst ?st) 1) = Some 3" by code_simp
  then obtain r where r: "al_find (fst ?st) 1 = Some r" "al_SendAttempts r = 3" by auto
  have b: "budget (as_New test_cfg) = 3" by code_simp
  have u: "uncounted 1 (snd ?st) = []" by code_simp
  from b have "budget (as_New test_cfg) < 2 ^ 31" by simp
  from retry_budget [OF this r(1), of "48 * Hour"] show ?thesis using r b u by (simp add: Let_def)
qed

text \<open>The cap is not one on all requests: with a budget of three, an alert whose requests end with their
  context is requested a fourth and a fifth time.\<close>

theorem lost_requests_exceed_budget:
  "let ops = OpCreate 0 (test_alert ''k1'') #
       map (\<lambda>k. OpDrain (test_pass (k * 10 * Minute) True [TgCtxErr])) [1, 2, 3, 4, 5]
   in budget (as_New test_cfg) = 3 \<and>
      length (filter (\<lambda>d. dl_ID d = 1) (snd (sys_run test_pipeline test_cfg ops))) = 5"
  by code_simp

lemma sys_steps_follow:
  "al_inv (fst st) \<Longrightarrow> follows al_find (fst st) (fst (foldl (sys_step P cfg) st ops))"
proof (induction ops arbitrary: st)
  case (Cons op ops)
  have k: "al_inv (fst (sys_step P cfg st op))" "follows al_find (fst st) (fst (sys_step P cfg st op))"
    using sys_step_keeps [OF Cons.prems] by blast+
  show ?case using follows_trans [OF k(2) Cons.IH [OF k(1)]] by simp
qed simp

text \<open>The life of a row: from any point of any history on, a row never vanishes and its status moves
  only along pending - sending - sent / failed with the stale reset and the retry; a sent row stays
  sent. The deduplication keys in the table stay unique, and an insertion is refused exactly when
  its key is there.\<close>

theorem row_life:
  "follows al_find (fst (sys_run P cfg ops)) (fst (sys_run P cfg (ops @ later)))
   \<and> distinct (map al_DedupKey (at_rows (fst (sys_run P cfg ops))))
   \<and> (snd (TryCreatePending now a (fst (sys_run P cfg ops))) = None)
       = AlertExists (na_DedupKey a) (fst (sys_run P cfg ops))
   \<and> AlertExists (na_DedupKey a) (fst (TryCreatePending now a (fst (sys_run P cfg ops))))
   \<and> (al_trans\<^sup>*\<^sup>* AlertSent s) = (s = AlertSent)"
proof -
  have "al_inv (fst (sys_run P cfg ops))" using sys_run_keeps by blast
  then show ?thesis
    using sys_steps_follow [of "sys_run P cfg ops" P "as_New cfg" later] al_trans_Sent
    by (auto simp: sys_run_def al_inv_def TryCreatePending_def AlertExists_def Let_def)
qed

end
