(* ===== verification/Finding.thy ===== *)
theory Finding
  imports Accumulation FlowContext Score Cluster
begin

text \<open>
  The finding envelope of package anomaly (\<open>internal/domain/model/anomaly/finding.go\<close>) with the
  reference payloads it carries, and the alert kinds and reason codes of the same package. A nil
  pointer is \<open>None\<close>.
\<close>

subsection \<open>Kinds and reason codes\<close>

definition KindTradeAnomaly :: string where "KindTradeAnomaly = ''trade_anomaly''"
definition KindCategoryWatch :: string where "KindCategoryWatch = ''category_watch''"
definition KindAccumulation :: string where "KindAccumulation = ''accumulation''"
definition KindOwnership :: string where "KindOwnership = ''ownership_concentration''"
definition KindStableFavorite :: string where "KindStableFavorite = ''stable_favorite''"

definition ReasonSingle :: string where "ReasonSingle = ''LargeRareBet''"
definition ReasonCluster :: string where "ReasonCluster = ''WhaleClusterDetected''"
definition ReasonAccumulation :: string where "ReasonAccumulation = ''SameTraderAccumulationLine''"
definition ReasonOwnership :: string where "ReasonOwnership = ''MarketOwnershipConcentration''"
definition ReasonLifetimeAccumulation :: string where "ReasonLifetimeAccumulation = ''LIFETIME_ACCUMULATION''"
definition ReasonRecentAccumulation :: string where "ReasonRecentAccumulation = ''RECENT_ACCUMULATION''"
definition ReasonNewWalletLargeBet :: string where "ReasonNewWalletLargeBet = ''NEW_WALLET_LARGE_BET''"
definition ReasonNewWalletAccumulation :: string where "ReasonNewWalletAccumulation = ''NEW_WALLET_ACCUMULATION''"
definition ReasonLowTraderHistory :: string where "ReasonLowTraderHistory = ''LOW_TRADER_HISTORY''"
definition ReasonMarketOwnershipConcentration :: string where
  "ReasonMarketOwnershipConcentration = ''MARKET_OWNERSHIP_CONCENTRATION''"
definition ReasonDormantWalletRevival :: string where "ReasonDormantWalletRevival = ''DORMANT_WALLET_REVIVAL''"
definition ReasonOwnershipFusion :: string where "ReasonOwnershipFusion = ''OWNERSHIP_FUSION''"
definition ReasonLowMarketBaselineConfidence :: string where
  "ReasonLowMarketBaselineConfidence = ''LOW_MARKET_BASELINE_CONFIDENCE''"
definition ReasonLowTraderBaselineConfidence :: string where
  "ReasonLowTraderBaselineConfidence = ''LOW_TRADER_BASELINE_CONFIDENCE''"
definition ReasonSeverityCappedLowBaseline :: string where
  "ReasonSeverityCappedLowBaseline = ''SEVERITY_CAPPED_LOW_BASELINE''"
definition WindowKindRecent :: string where "WindowKindRecent = ''recent''"
definition WindowKindLifetime :: string where "WindowKindLifetime = ''lifetime''"

lemmas kind_defs = KindTradeAnomaly_def KindCategoryWatch_def KindAccumulation_def KindOwnership_def
  KindStableFavorite_def

subsection \<open>Payloads\<close>

record BaselineRef =
  bf_Scope :: string
  bf_MedianUSD :: float64
  bf_MeanUSD :: float64
  bf_P95USD :: float64
  bf_P99USD :: float64
  bf_SampleN :: int
  bf_Span :: duration
  bf_WindowMax :: duration

record CategoryRef =
  cf_ID :: int
  cf_Slug :: string
  cf_Label :: string

record QuietMarketRef =
  qr_TradesPerDay :: float64
  qr_NotionalPerDayUSD :: float64
  qr_IdleDuration :: duration
  qr_BaselineSpan :: duration

record AccumulationRef =
  ar_Wallet :: string
  ar_MarketID :: string
  ar_OutcomeToken :: string
  ar_Outcome :: string
  ar_Side :: string
  ar_TradeCount :: int
  ar_TotalNotionalUSD :: float64
  ar_MeanNotionalUSD :: float64
  ar_MedianNotionalUSD :: float64
  ar_MaxNotionalUSD :: float64
  ar_AvgOdds :: float64
  ar_MaxOdds :: float64
  ar_Span :: duration
  ar_MarketMultiplier :: float64
  ar_TraderMultiplier :: float64
  ar_Score :: int
  ar_Confidence :: float64
  ar_Reasons :: "string list"
  ar_SizePath :: string
  ar_Window :: string

record DormantWalletRef =
  dw_LastSeenAt :: time
  dw_IdleDuration :: duration

record NewWalletRef =
  nw_FirstSeenAt :: time
  nw_AgeAtTrade :: duration
  nw_HistoryTrades :: int
  nw_IsNew :: bool

record OwnershipRef =
  or_Wallet :: string
  or_MarketID :: string
  or_OutcomeToken :: string
  or_Outcome :: string
  or_SharePct :: float64
  or_WalletNetShares :: float64
  or_MarketTotalShares :: float64
  or_NotionalUSD :: float64
  or_Approximate :: bool

record Finding =
  fi_Kind :: string
  fi_Severity :: Severity
  fi_At :: time
  fi_Reason :: string
  fi_Trade :: "TradeRef option"
  fi_Baseline :: "BaselineRef option"
  fi_TraderBaseline :: "BaselineRef option"
  fi_GrossPayoutIfWinUSD :: float64
  fi_ProfitIfWinUSD :: float64
  fi_MarketP95Ratio :: float64
  fi_MarketP99Ratio :: float64
  fi_TraderP95Ratio :: float64
  fi_TraderP99Ratio :: float64
  fi_PayoffGatePassed :: bool
  fi_TailGatePassed :: bool
  fi_LowMarketBaselineConfidence :: bool
  fi_LowTraderBaselineConfidence :: bool
  fi_SeverityCapped :: bool
  fi_Category :: "CategoryRef option"
  fi_Cluster :: "ClusterStats option"
  fi_Accumulation :: "AccumulationRef option"
  fi_NewWallet :: "NewWalletRef option"
  fi_DormantWallet :: "DormantWalletRef option"
  fi_Ownership :: "OwnershipRef option"
  fi_QuietMarket :: "QuietMarketRef option"
  fi_Reasons :: "string list"
  fi_LifecyclePct :: float64
  fi_Hot :: bool
  fi_InCluster :: bool
  fi_ClusterPeerCount :: int
  fi_MarketURL :: string
  fi_CategoryURL :: string
  fi_TraderURL :: string
  fi_GrafanaURL :: string
  fi_DedupKey :: string

text \<open>
  The composite literals of the detector set some fields and leave the others at Go's zero value.
  The fields the sender fills later (analyst note, blocked overlay, annotations) and the
  stable-favourite payload, which no code constructs any more, are left out.
\<close>

definition zero_baseline_ref :: BaselineRef where
  "zero_baseline_ref = \<lparr>bf_Scope = '''', bf_MedianUSD = 0, bf_MeanUSD = 0, bf_P95USD = 0, bf_P99USD = 0,
     bf_SampleN = 0, bf_Span = 0, bf_WindowMax = 0\<rparr>"

definition zero_finding :: Finding where
  "zero_finding = \<lparr>fi_Kind = '''', fi_Severity = '''', fi_At = zero_time, fi_Reason = '''', fi_Trade = None,
     fi_Baseline = None, fi_TraderBaseline = None, fi_GrossPayoutIfWinUSD = 0, fi_ProfitIfWinUSD = 0,
     fi_MarketP95Ratio = 0, fi_MarketP99Ratio = 0, fi_TraderP95Ratio = 0, fi_TraderP99Ratio = 0,
     fi_PayoffGatePassed = False, fi_TailGatePassed = False, fi_LowMarketBaselineConfidence = False,
     fi_LowTraderBaselineConfidence = False, fi_SeverityCapped = False, fi_Category = None, fi_Cluster = None,
     fi_Accumulation = None, fi_NewWallet = None, fi_DormantWallet = None, fi_Ownership = None,
     fi_QuietMarket = None, fi_Reasons = [], fi_LifecyclePct = 0, fi_Hot = False, fi_InCluster = False,
     fi_ClusterPeerCount = 0, fi_MarketURL = '''', fi_CategoryURL = '''', fi_TraderURL = '''',
     fi_GrafanaURL = '''', fi_DedupKey = ''''\<rparr>"

end
