(* ===== verification/Catalog.thy ===== *)
theory Catalog
  imports Market
begin

text \<open>
  The category whitelist (package category) and the in-memory snapshot of the market universe
  (package marketcache). The cache's mutex is the order of its operations.
\<close>

subsection \<open>The whitelist\<close>

text \<open>A filter is the list of its normalised tokens.\<close>

type_synonym cat_filter = "string list"

definition NewFilter :: "string list \<Rightarrow> cat_filter" where
  "NewFilter whitelist = filter (\<lambda>n. n \<noteq> '''') (map (\<lambda>t. TrimSpace (ToLower t)) whitelist)"

definition Allowed :: "cat_filter \<Rightarrow> string \<Rightarrow> string \<Rightarrow> bool" where
  "Allowed f slug label =
     (if f = [] then True
      else
        (let haystack = ToLower slug @ '' '' @ ToLower label
         in if TrimSpace haystack = '''' then False
            else list_ex (\<lambda>t. Contains haystack t) f))"

definition Tokens :: "cat_filter \<Rightarrow> string list" where
  "Tokens f = f"

definition cat_Summary :: "cat_filter \<Rightarrow> string" where
  "cat_Summary f = (if f = [] then ''disabled'' else Join f '','')"

subsection \<open>The cache\<close>

record Category =
  ct_ID :: int
  ct_Slug :: string
  ct_Label :: string

record Cache =
  ca_markets :: "string \<rightharpoonup> Market"
  ca_categories :: "int \<rightharpoonup> Category"

definition mc_New :: Cache where
  "mc_New = \<lparr>ca_markets = Map.empty, ca_categories = Map.empty\<rparr>"

text \<open>A map filled by a loop: the last entry of a key wins.\<close>

definition fill_map :: "('a \<Rightarrow> 'k) \<Rightarrow> 'a list \<Rightarrow> 'k \<rightharpoonup> 'a" where
  "fill_map key xs = foldl (\<lambda>m x. m(key x \<mapsto> x)) Map.empty xs"

text \<open>
  \<open>Replace\<close> returns the ids that disappeared; Go collects them in map order, so they are a set here.
\<close>

definition Replace :: "Cache \<Rightarrow> Market list \<Rightarrow> Category list \<Rightarrow> Cache \<times> string set" where
  "Replace c markets cats =
     (let nxt = fill_map mk_ID markets
      in (\<lparr>ca_markets = nxt, ca_categories = fill_map ct_ID cats\<rparr>, dom (ca_markets c) - dom nxt))"

definition cache_Get :: "Cache \<Rightarrow> string \<Rightarrow> Market option" where
  "cache_Get c i = ca_markets c i"

definition cache_Category :: "Cache \<Rightarrow> int \<Rightarrow> Category option" where
  "cache_Category c i = ca_categories c i"

definition cache_Snapshot :: "Cache \<Rightarrow> Market set" where
  "cache_Snapshot c = ran (ca_markets c)"

definition cache_Size :: "Cache \<Rightarrow> int" where
  "cache_Size c = int (card (dom (ca_markets c)))"

subsection \<open>Facts\<close>

lemma fill_map_eq: "fill_map key xs k = find (\<lambda>x. key x = k) (rev xs)"
  by (induction xs rule: rev_induct) (simp_all add: fill_map_def)

lemma fill_map_dom: "dom (fill_map key xs) = key ` set xs"
  by (induction xs rule: rev_induct) (simp_all add: fill_map_def del: fun_upd_apply)

text \<open>A whitelist entry matches in whatever case and with whatever surrounding blanks it is written.\<close>

lemma Allowed_token:
  "t \<in> set whitelist \<Longrightarrow> TrimSpace (ToLower t) \<noteq> '''' \<Longrightarrow>
   Contains (ToLower slug @ '' '' @ ToLower label) (TrimSpace (ToLower t)) \<Longrightarrow>
   TrimSpace (ToLower slug @ '' '' @ ToLower label) \<noteq> '''' \<Longrightarrow>
   Allowed (NewFilter whitelist) slug label"
  by (auto simp: Allowed_def NewFilter_def list_ex_iff Let_def)

end
