(* ===== verification/Concentration.thy ===== *)
theory Concentration
  imports Market
begin

text \<open>
  The concentration gate (package concentration): a per-wallet and a per-event escalation rule over
  the recent alerts, which the history interface supplies. The history is the parameter
  \<open>history\<close>, \<open>None\<close> for nil; its two queries answer with an error or with rows.
\<close>

record cg_Config =
  cg_EventConcentrationLimit :: int
  cg_EventConcentrationWindow :: duration
  cg_RepeatedEventThresholdMultiplier :: float64
  cg_WalletAlertCooldown :: duration
  cg_AccumulationEscalationFactor :: float64
  cg_SeverityFloor :: string

definition cg_applyDefaults :: "cg_Config \<Rightarrow> cg_Config" where
  "cg_applyDefaults c =
     (let c = (if cg_EventConcentrationLimit c \<le> 0 then c\<lparr>cg_EventConcentrationLimit := 3\<rparr> else c);
          c = (if cg_EventConcentrationWindow c \<le> 0 then c\<lparr>cg_EventConcentrationWindow := 24 * Hour\<rparr> else c);
          c = (if cg_RepeatedEventThresholdMultiplier c \<le> 1 then c\<lparr>cg_RepeatedEventThresholdMultiplier := fl 2\<rparr> else c);
          c = (if cg_WalletAlertCooldown c \<le> 0 then c\<lparr>cg_WalletAlertCooldown := 6 * Hour\<rparr> else c);
          c = (if cg_AccumulationEscalationFactor c \<le> 1 then c\<lparr>cg_AccumulationEscalationFactor := fl 2\<rparr> else c);
          c = (if cg_SeverityFloor c = '''' then c\<lparr>cg_SeverityFloor := ''info''\<rparr> else c)
      in c)"

record cg_Alert =
  ca_CreatedAt :: time
  ca_EventSlug :: string
  ca_Wallet :: string
  ca_NotionalUSD :: float64
  ca_Severity :: string

record AlertHistory =
  RecentAlertsForEvent :: "string \<Rightarrow> time \<Rightarrow> string + cg_Alert list"
  RecentAlertsForWallet :: "string \<Rightarrow> string \<Rightarrow> time \<Rightarrow> string + cg_Alert list"

record Candidate =
  cn_EventSlug :: string
  cn_Wallet :: string
  cn_NotionalUSD :: float64
  cn_Severity :: string
  cn_Now :: time

record cg_Decision =
  de_Allow :: bool
  de_Reason :: string
  de_RequiredNotional :: float64
  de_PriorAlertsInWindow :: int
  de_MaxPriorNotional :: float64

definition allow :: "string \<Rightarrow> cg_Decision" where
  "allow reason = \<lparr>de_Allow = True, de_Reason = reason, de_RequiredNotional = 0, de_PriorAlertsInWindow = 0,
     de_MaxPriorNotional = 0\<rparr>"

definition cg_New :: "cg_Config \<Rightarrow> cg_Config" where
  "cg_New cfg = cg_applyDefaults cfg"

definition cg_severityRank :: "string \<Rightarrow> int" where
  "cg_severityRank s =
     (let n = ToLower (TrimSpace s)
      in if n = ''info'' then 1 else if n = ''warning'' then 2 else if n = ''critical'' then 3
         else if n = ''hard'' then 4 else 0)"

definition severityAtOrAbove :: "string \<Rightarrow> string \<Rightarrow> bool" where
  "severityAtOrAbove s flr \<longleftrightarrow> cg_severityRank flr \<le> cg_severityRank s"

definition maxPrev :: "cg_Alert list \<Rightarrow> float64" where
  "maxPrev prior = foldl (\<lambda>m a. if m < ca_NotionalUSD a then ca_NotionalUSD a else m) 0 prior"

text \<open>\<open>now\<close> is the clock, read when the candidate carries no time.\<close>

definition cg_Evaluate :: "cg_Config option \<Rightarrow> time \<Rightarrow> Candidate \<Rightarrow> AlertHistory option \<Rightarrow> cg_Decision" where
  "cg_Evaluate g now inp history =
     (case g of None \<Rightarrow> allow ''gate_disabled''
      | Some cfg \<Rightarrow>
          if \<not> severityAtOrAbove (cn_Severity inp) (cg_SeverityFloor cfg) then allow ''below_severity_floor''
          else if severityAtOrAbove (cn_Severity inp) ''warning'' then allow ''above_concentration_gate''
          else
            (let t = (if IsZero (cn_Now inp) then now else cn_Now inp);
                 blocked = (\<lambda>reason required prior. \<lparr>de_Allow = False, de_Reason = reason,
                    de_RequiredNotional = required, de_PriorAlertsInWindow = int (length prior),
                    de_MaxPriorNotional = maxPrev prior\<rparr>);
                 wallet_rule = (case history of
                      None \<Rightarrow> None
                    | Some h \<Rightarrow>
                        if cn_Wallet inp \<noteq> '''' \<and> cn_EventSlug inp \<noteq> '''' then
                          (case RecentAlertsForWallet h (cn_Wallet inp) (cn_EventSlug inp) (t - cg_WalletAlertCooldown cfg) of
                             Inl e \<Rightarrow> None
                           | Inr prior \<Rightarrow>
                               if 0 < length prior \<and>
                                  cn_NotionalUSD inp < maxPrev prior * cg_AccumulationEscalationFactor cfg
                               then Some (blocked ''wallet_escalation_failed''
                                            (maxPrev prior * cg_AccumulationEscalationFactor cfg) prior)
                               else None)
                        else None);
                 event_rule = (case history of
                      None \<Rightarrow> None
                    | Some h \<Rightarrow>
                        if cn_EventSlug inp \<noteq> '''' \<and> 0 < cg_EventConcentrationLimit cfg then
                          (case RecentAlertsForEvent h (cn_EventSlug inp) (t - cg_EventConcentrationWindow cfg) of
                             Inl e \<Rightarrow> None
                           | Inr prior \<Rightarrow>
                               if cg_EventConcentrationLimit cfg \<le> int (length prior) \<and>
                                  cn_NotionalUSD inp < maxPrev prior * cg_RepeatedEventThresholdMultiplier cfg
                               then Some (blocked ''event_concentration_cap''
                                            (maxPrev prior * cg_RepeatedEventThresholdMultiplier cfg) prior)
                               else None)
                        else None)
             in case wallet_rule of Some d \<Rightarrow> d
                | None \<Rightarrow> (case event_rule of Some d \<Rightarrow> d | None \<Rightarrow> allow ''passed'')))"

definition cg_String :: "cg_Decision \<Rightarrow> string" where
  "cg_String d =
     (if de_Allow d then ''allow:'' @ de_Reason d
      else ''suppress:'' @ de_Reason d @ '' required=$'' @ fmt_f 0 (de_RequiredNotional d) @
           '' priors='' @ fmt_d (de_PriorAlertsInWindow d) @ '' max_prev=$'' @ fmt_f 0 (de_MaxPriorNotional d))"

subsection \<open>Facts\<close>

lemma cg_rank_simps [simp]: "cg_severityRank ''info'' = 1" "cg_severityRank ''warning'' = 2"
  "cg_severityRank ''critical'' = 3" "cg_severityRank ''hard'' = 4" "cg_severityRank '''' = 0"
  by code_simp+

text \<open>The largest prior notional is 0 or one of the priors, and at least each of them that is a number.\<close>

lemma maxPrev_step_mono:
  "m \<noteq> NaN \<Longrightarrow> m \<le> foldl (\<lambda>m a. if m < ca_NotionalUSD a then ca_NotionalUSD a else m) m prior \<and>
   foldl (\<lambda>m a. if m < ca_NotionalUSD a then ca_NotionalUSD a else m) m prior \<noteq> NaN"
proof (induction prior arbitrary: m)
  case Nil
  then show ?case by (cases m) simp_all
next
  case (Cons a prior)
  show ?case
  proof (cases "m < ca_NotionalUSD a")
    case True
    then have n: "ca_NotionalUSD a \<noteq> NaN" "m \<le> ca_NotionalUSD a" by (cases m; cases "ca_NotionalUSD a"; simp)+
    then show ?thesis using Cons.IH [OF n(1)] True f64_le_trans by auto
  next
    case False
    then show ?thesis using Cons by simp
  qed
qed

lemma maxPrev_upper: "a \<in> set prior \<Longrightarrow> ca_NotionalUSD a \<noteq> NaN \<Longrightarrow> ca_NotionalUSD a \<le> maxPrev prior"
proof -
  have "m \<noteq> NaN \<Longrightarrow> a \<in> set prior \<Longrightarrow> ca_NotionalUSD a \<noteq> NaN \<Longrightarrow>
      ca_NotionalUSD a \<le> foldl (\<lambda>m a. if m < ca_NotionalUSD a then ca_NotionalUSD a else m) m prior" for m
  proof (induction prior arbitrary: m)
    case (Cons b prior)
    let ?m = "if m < ca_NotionalUSD b then ca_NotionalUSD b else m"
    have m: "?m \<noteq> NaN" using Cons.prems(1) by (cases m; cases "ca_NotionalUSD b"; simp)
    show ?case
    proof (cases "a = b")
      case True
      then have "ca_NotionalUSD a \<le> ?m"
        using Cons.prems by (cases m; cases "ca_NotionalUSD b") auto
      then show ?thesis using maxPrev_step_mono [OF m, of prior] f64_le_trans by auto
    next
      case False
      then show ?thesis using Cons.IH [OF m] Cons.prems by simp
    qed
  qed simp
  from this [of 0] show "a \<in> set prior \<Longrightarrow> ca_NotionalUSD a \<noteq> NaN \<Longrightarrow> ca_NotionalUSD a \<le> maxPrev prior"
    by (simp add: maxPrev_def zero_f64)
qed

lemma maxPrev_nonneg: "0 \<le> maxPrev prior"
  using maxPrev_step_mono [of 0 prior] by (simp add: maxPrev_def zero_f64)

lemma cg_floor: "severityAtOrAbove s flr = (cg_severityRank flr \<le> cg_severityRank s)"
  by (simp add: severityAtOrAbove_def)

text \<open>The escalation the two rules ask for, with the priors it rests on.\<close>

definition escalation :: "cg_Config \<Rightarrow> AlertHistory \<Rightarrow> time \<Rightarrow> Candidate \<Rightarrow> string \<Rightarrow> cg_Alert list \<Rightarrow> float64 \<Rightarrow> bool" where
  "escalation cfg h t c reason prior factor \<longleftrightarrow>
     reason = ''wallet_escalation_failed'' \<and> factor = cg_AccumulationEscalationFactor cfg \<and> cn_Wallet c \<noteq> '''' \<and>
       RecentAlertsForWallet h (cn_Wallet c) (cn_EventSlug c) (t - cg_WalletAlertCooldown cfg) = Inr prior \<or>
     reason = ''event_concentration_cap'' \<and> factor = cg_RepeatedEventThresholdMultiplier cfg \<and>
       0 < cg_EventConcentrationLimit cfg \<and> cg_EventConcentrationLimit cfg \<le> int (length prior) \<and>
       RecentAlertsForEvent h (cn_EventSlug c) (t - cg_EventConcentrationWindow cfg) = Inr prior"

lemma blocked_shape:
  assumes "\<not> de_Allow (cg_Evaluate g now c history)"
  obtains cfg h prior factor where "g = Some cfg" "history = Some h" "cn_EventSlug c \<noteq> ''''" "prior \<noteq> []"
    "cg_severityRank (cg_SeverityFloor cfg) \<le> cg_severityRank (cn_Severity c)" "cg_severityRank (cn_Severity c) < 2"
    "escalation cfg h (if IsZero (cn_Now c) then now else cn_Now c) c (de_Reason (cg_Evaluate g now c history)) prior factor"
    "cn_NotionalUSD c < maxPrev prior * factor"
    "de_RequiredNotional (cg_Evaluate g now c history) = maxPrev prior * factor"
    "de_PriorAlertsInWindow (cg_Evaluate g now c history) = int (length prior)"
    "de_MaxPriorNotional (cg_Evaluate g now c history) = maxPrev prior"
proof -
  obtain cfg where g: "g = Some cfg" using assms by (cases g) (auto simp: cg_Evaluate_def allow_def)
  have sev: "cg_severityRank (cg_SeverityFloor cfg) \<le> cg_severityRank (cn_Severity c)" "cg_severityRank (cn_Severity c) < 2"
    using assms by (auto simp: g cg_Evaluate_def allow_def cg_floor split: if_splits)
  obtain h where h: "history = Some h"
    using assms sev by (cases history) (auto simp: g cg_Evaluate_def allow_def cg_floor Let_def)
  define t where "t = (if IsZero (cn_Now c) then now else cn_Now c)"
  have e: "cn_EventSlug c \<noteq> ''''"
    using assms sev by (auto simp: g h cg_Evaluate_def allow_def cg_floor Let_def)
  let ?W = "RecentAlertsForWallet h (cn_Wallet c) (cn_EventSlug c) (t - cg_WalletAlertCooldown cfg)"
  let ?E = "RecentAlertsForEvent h (cn_EventSlug c) (t - cg_EventConcentrationWindow cfg)"
  let ?f = "cg_AccumulationEscalationFactor cfg" and ?g = "cg_RepeatedEventThresholdMultiplier cfg"
  let ?d = "\<lambda>reason factor prior. \<lparr>de_Allow = False, de_Reason = reason, de_RequiredNotional = maxPrev prior * factor,
      de_PriorAlertsInWindow = int (length prior), de_MaxPriorNotional = maxPrev prior\<rparr>"
  define wr where "wr = (if cn_Wallet c \<noteq> '''' then (case ?W of Inl e \<Rightarrow> None
      | Inr prior \<Rightarrow> if 0 < length prior \<and> cn_NotionalUSD c < maxPrev prior * ?f
          then Some (?d ''wallet_escalation_failed'' ?f prior) else None) else None)"
  define er where "er = (if 0 < cg_EventConcentrationLimit cfg then (case ?E of Inl e \<Rightarrow> None
      | Inr prior \<Rightarrow> if cg_EventConcentrationLimit cfg \<le> int (length prior) \<and> cn_NotionalUSD c < maxPrev prior * ?g
          then Some (?d ''event_concentration_cap'' ?g prior) else None) else None)"
  have E: "cg_Evaluate g now c history = (case wr of Some d \<Rightarrow> d | None \<Rightarrow> (case er of Some d \<Rightarrow> d | None \<Rightarrow> allow ''passed''))"
    using sev e unfolding cg_Evaluate_def g h t_def [symmetric] Let_def wr_def er_def
    by (cases "cn_Wallet c = ''''"; cases "0 < cg_EventConcentrationLimit cfg") (simp_all add: cg_floor cong: sum.case_cong option.case_cong)
  show thesis
  proof (cases wr)
    case (Some d)
    then obtain prior where p: "?W = Inr prior" "prior \<noteq> []" "cn_NotionalUSD c < maxPrev prior * ?f"
      "d = ?d ''wallet_escalation_failed'' ?f prior" "cn_Wallet c \<noteq> ''''"
      by (auto simp: wr_def split: if_splits sum.splits)
    then show thesis
      using that [OF g h e p(2) sev, of ?f] Some by (simp add: E escalation_def t_def [symmetric])
  next
    case None
    then obtain prior where p: "?E = Inr prior" "0 < cg_EventConcentrationLimit cfg"
      "cg_EventConcentrationLimit cfg \<le> int (length prior)" "cn_NotionalUSD c < maxPrev prior * ?g"
      "er = Some (?d ''event_concentration_cap'' ?g prior)"
      using assms by (auto simp: E er_def allow_def split: if_splits sum.splits)
    then have "prior \<noteq> []" by auto
    then show thesis
      using that [OF g h e _ sev, of prior ?g] None p by (simp add: E escalation_def t_def [symmetric])
  qed
qed

text \<open>The concentration gate suppresses on evidence only. A candidate it refuses has a severity below
  Warning and at or above the configured floor, carries an event, and its history was read: there
  are prior alerts of the same wallet on the event within the cool-down, or at least as many of the
  event within its window as the limit says; its notional is below the reported requirement, the
  factor times the largest prior, and no prior (that is a number) is larger than the reported
  maximum. In particular a disabled gate, a missing history and a failing query let everything pass.\<close>

theorem concentration_evidence:
  assumes "\<not> de_Allow (cg_Evaluate g now c history)"
  shows "let d = cg_Evaluate g now c history in
    \<exists>cfg h prior factor. g = Some cfg \<and> history = Some h \<and> cn_EventSlug c \<noteq> '''' \<and> prior \<noteq> [] \<and>
      cg_severityRank (cg_SeverityFloor cfg) \<le> cg_severityRank (cn_Severity c) \<and> cg_severityRank (cn_Severity c) < 2 \<and>
      escalation cfg h (if IsZero (cn_Now c) then now else cn_Now c) c (de_Reason d) prior factor \<and>
      cn_NotionalUSD c < de_RequiredNotional d \<and> de_RequiredNotional d = de_MaxPriorNotional d * factor \<and>
      de_PriorAlertsInWindow d = int (length prior) \<and>
      (\<forall>a \<in> set prior. ca_NotionalUSD a = NaN \<or> ca_NotionalUSD a \<le> de_MaxPriorNotional d)"
proof -
  obtain cfg h prior factor where b: "g = Some cfg" "history = Some h" "cn_EventSlug c \<noteq> ''''" "prior \<noteq> []"
    "cg_severityRank (cg_SeverityFloor cfg) \<le> cg_severityRank (cn_Severity c)" "cg_severityRank (cn_Severity c) < 2"
    "escalation cfg h (if IsZero (cn_Now c) then now else cn_Now c) c (de_Reason (cg_Evaluate g now c history)) prior factor"
    "cn_NotionalUSD c < maxPrev prior * factor"
    "de_RequiredNotional (cg_Evaluate g now c history) = maxPrev prior * factor"
    "de_PriorAlertsInWindow (cg_Evaluate g now c history) = int (length prior)"
    "de_MaxPriorNotional (cg_Evaluate g now c history) = maxPrev prior"
    by (rule blocked_shape [OF assms])
  show ?thesis unfolding Let_def b(9-11) using b maxPrev_upper by blast
qed

text \<open>A second alert of a wallet on one event needs twice the first one's notional.\<close>

definition cg_test :: "AlertHistory" where
  "cg_test = \<lparr>RecentAlertsForEvent = (\<lambda>e t. Inl ''timeout''),
     RecentAlertsForWallet = (\<lambda>w e t. Inr [\<lparr>ca_CreatedAt = 0, ca_EventSlug = e, ca_Wallet = w,
        ca_NotionalUSD = fl 1000, ca_Severity = ''info''\<rparr>])\<rparr>"

lemma concentration_evidence_witness:
  "let g = Some (cg_New \<lparr>cg_EventConcentrationLimit = 0, cg_EventConcentrationWindow = 0,
            cg_RepeatedEventThresholdMultiplier = fl 0, cg_WalletAlertCooldown = 0, cg_AccumulationEscalationFactor = fl 0,
            cg_SeverityFloor = ''''\<rparr>);
       c = \<lparr>cn_EventSlug = ''e'', cn_Wallet = ''w'', cn_NotionalUSD = fl 1999, cn_Severity = ''info'', cn_Now = Second\<rparr>
   in fl 1999 < de_RequiredNotional (cg_Evaluate g 0 c (Some cg_test)) \<and>
      de_RequiredNotional (cg_Evaluate g 0 c (Some cg_test)) = fl 2000"
proof -
  let ?g = "Some (cg_New \<lparr>cg_EventConcentrationLimit = 0, cg_EventConcentrationWindow = 0,
    cg_RepeatedEventThresholdMultiplier = fl 0, cg_WalletAlertCooldown = 0, cg_AccumulationEscalationFactor = fl 0,
    cg_SeverityFloor = ''''\<rparr>)"
  let ?c = "\<lparr>cn_EventSlug = ''e'', cn_Wallet = ''w'', cn_NotionalUSD = fl 1999, cn_Severity = ''info'', cn_Now = Second\<rparr>"
  have h: "\<not> de_Allow (cg_Evaluate ?g 0 ?c (Some cg_test))" by code_simp
  have r: "de_RequiredNotional (cg_Evaluate ?g 0 ?c (Some cg_test)) = fl 2000" by code_simp
  show ?thesis using concentration_evidence [OF h] r by (auto simp: Let_def)
qed

end
