(* ===== verification/TradeTable.thy ===== *)
theory TradeTable
  imports Market
begin

text \<open>
  The table of trades (\<open>trade_repository.go\<close> with \<open>db/queries/trades.sql\<close> and the constraints of
  \<open>db/migrations\<close>): the dedup key, insertion, and the detection queue kept in its columns -
  leasing, the reset of old leases, and the terminal marks. Parameters: the SHA-256 hex digest of
  a trade's composite, and the table of markets as a map from row id to condition id. The rows an
  UPDATE returns are listed in the order they were picked.
\<close>

subsection \<open>Rows\<close>

record TradeRow =
  tx_ID :: int
  tx_MarketID :: int
  tx_TraderID :: "int option"
  tx_OutcomeToken :: string
  tx_Side :: string
  tx_Price :: float64
  tx_SizeShares :: float64
  tx_NotionalUSD :: float64
  tx_TradedAt :: time
  tx_ExternalID :: "string option"
  tx_TxHash :: "string option"
  tx_IngestedAt :: time
  tx_DedupKey :: string
  tx_DetectedAt :: "time option"
  tx_Status :: "string option"
  tx_SkipReason :: "string option"
  tx_LastError :: "string option"
  tx_Attempts :: int
  tx_ClaimedAt :: "time option"
  tx_WorkerID :: "string option"

record TradeTable =
  tt_rows :: "TradeRow list"
  tt_next :: int

record InsertTradeInput =
  it_MarketID :: int
  it_TraderID :: "int option"
  it_OutcomeToken :: string
  it_Side :: string
  it_Price :: float64
  it_SizeShares :: float64
  it_NotionalUSD :: float64
  it_TradedAt :: time
  it_ExternalID :: string
  it_TxHash :: string

subsection \<open>Insertion\<close>

definition DedupKeyForTrade :: "(int \<Rightarrow> string \<Rightarrow> int option \<Rightarrow> time \<Rightarrow> float64 \<Rightarrow> float64 \<Rightarrow> string \<Rightarrow> string)
    \<Rightarrow> InsertTradeInput \<Rightarrow> string" where
  "DedupKeyForTrade digest t =
     (if it_ExternalID t \<noteq> '''' then ''ext:'' @ it_ExternalID t
      else ''sha:'' @ digest (it_MarketID t) (it_OutcomeToken t) (it_TraderID t) (it_TradedAt t) (it_Price t)
             (it_SizeShares t) (it_Side t))"

definition strPtr :: "string \<Rightarrow> string option" where
  "strPtr s = (if s = '''' then None else Some s)"

text \<open>
  The checks of the table: the side is BUY or SELL, the price lies strictly between 0 and 1, size
  and notional are positive and not negative; a zero time is sent as NULL and refused. In
  Postgres NaN is greater than every number.
\<close>

definition trade_valid :: "InsertTradeInput \<Rightarrow> bool" where
  "trade_valid t \<longleftrightarrow> it_Side t \<in> {''BUY'', ''SELL''} \<and> 0 < it_Price t \<and> it_Price t < 1 \<and>
     (it_SizeShares t = NaN \<or> 0 < it_SizeShares t) \<and> (it_NotionalUSD t = NaN \<or> 0 \<le> it_NotionalUSD t) \<and>
     \<not> IsZero (it_TradedAt t)"

definition new_row :: "time \<Rightarrow> int \<Rightarrow> string \<Rightarrow> InsertTradeInput \<Rightarrow> TradeRow" where
  "new_row now i key t =
     \<lparr>tx_ID = i, tx_MarketID = it_MarketID t, tx_TraderID = it_TraderID t, tx_OutcomeToken = it_OutcomeToken t,
      tx_Side = it_Side t, tx_Price = it_Price t, tx_SizeShares = it_SizeShares t, tx_NotionalUSD = it_NotionalUSD t,
      tx_TradedAt = it_TradedAt t, tx_ExternalID = strPtr (it_ExternalID t), tx_TxHash = strPtr (it_TxHash t),
      tx_IngestedAt = now, tx_DedupKey = key, tx_DetectedAt = None, tx_Status = None, tx_SkipReason = None,
      tx_LastError = None, tx_Attempts = 0, tx_ClaimedAt = None, tx_WorkerID = None\<rparr>"

text \<open>
  One insert: \<open>Inl\<close> a database error (\<open>fault\<close> says whether the connection fails), \<open>Inr True\<close> for a
  new row, \<open>Inr False\<close> for \<open>pgx.ErrNoRows\<close>. The sequence moves on in every case that reaches it.
\<close>

definition InsertTrade :: "time \<Rightarrow> string option \<Rightarrow> string \<Rightarrow> InsertTradeInput \<Rightarrow> TradeTable \<Rightarrow> TradeTable \<times> (string + bool)" where
  "InsertTrade now fault key t tbl =
     (case fault of Some e \<Rightarrow> (tbl, Inl e)
      | None \<Rightarrow>
          (let nxt = tbl\<lparr>tt_next := tt_next tbl + 1\<rparr>
           in if \<not> trade_valid t then (nxt, Inl ''check constraint'')
              else if \<exists>r \<in> set (tt_rows tbl). tx_DedupKey r = key then (nxt, Inr False)
              else (nxt\<lparr>tt_rows := tt_rows tbl @ [new_row now (tt_next tbl) key t]\<rparr>, Inr True)))"

record UpsertResult =
  up_Requested :: int
  up_Inserted :: int

text \<open>The loop of \<open>UpsertBatch\<close>: the first error that is not \<open>ErrNoRows\<close> ends it. \<open>now\<close> and \<open>fault\<close> are per key.\<close>

fun upsert_loop :: "time \<Rightarrow> (string \<Rightarrow> string option) \<Rightarrow> (InsertTradeInput \<Rightarrow> string) \<Rightarrow> InsertTradeInput list \<Rightarrow> int
    \<Rightarrow> TradeTable \<Rightarrow> TradeTable \<times> int \<times> string option" where
  "upsert_loop now fault dedup [] n tbl = (tbl, n, None)"
| "upsert_loop now fault dedup (t # ts) n tbl =
     (let key = dedup t
      in case InsertTrade now (fault key) key t tbl of
           (tbl, Inr True) \<Rightarrow> upsert_loop now fault dedup ts (n + 1) tbl
         | (tbl, Inr False) \<Rightarrow> upsert_loop now fault dedup ts n tbl
         | (tbl, Inl e) \<Rightarrow> (tbl, n, Some e))"

definition UpsertBatch :: "time \<Rightarrow> (string \<Rightarrow> string option) \<Rightarrow> (InsertTradeInput \<Rightarrow> string) \<Rightarrow> InsertTradeInput list
    \<Rightarrow> TradeTable \<Rightarrow> TradeTable \<times> UpsertResult \<times> string option" where
  "UpsertBatch now fault dedup trades tbl =
     (case upsert_loop now fault dedup trades 0 tbl of
        (tbl, n, err) \<Rightarrow> (tbl, \<lparr>up_Requested = int (length trades), up_Inserted = n\<rparr>, err))"

subsection \<open>The detection queue\<close>

record PendingDetectionTrade =
  pd_ID :: int
  pd_MarketID :: int
  pd_MarketConditionID :: string
  pd_TraderID :: "int option"
  pd_OutcomeToken :: string
  pd_Side :: string
  pd_Price :: float64
  pd_SizeShares :: float64
  pd_NotionalUSD :: float64
  pd_TradedAt :: time
  pd_IngestedAt :: time
  pd_ExternalID :: string
  pd_TxHash :: string
  pd_DedupKey :: string
  pd_DetectionAttempts :: int

definition derefStr :: "string option \<Rightarrow> string" where
  "derefStr p = (case p of None \<Rightarrow> '''' | Some s \<Rightarrow> s)"

text \<open>\<open>intervalFromDuration\<close>: an interval has microseconds.\<close>

definition interval :: "duration \<Rightarrow> duration" where
  "interval d = (d sdiv 1000) * 1000"

definition leasable :: "time \<Rightarrow> duration \<Rightarrow> TradeRow \<Rightarrow> bool" where
  "leasable now ttl r \<longleftrightarrow> tx_DetectedAt r = None \<and>
     (case tx_ClaimedAt r of None \<Rightarrow> True | Some c \<Rightarrow> c < now - interval ttl)"

text \<open>The picked rows: newest first, rows another transaction holds are skipped.\<close>

definition lease_batch :: "time \<Rightarrow> duration \<Rightarrow> int \<Rightarrow> int set \<Rightarrow> TradeTable \<Rightarrow> TradeRow list" where
  "lease_batch now ttl limit locked tbl =
     take (nat limit) (rev (sort_key tx_TradedAt (sort_key tx_ID
       (filter (\<lambda>r. leasable now ttl r \<and> tx_ID r \<notin> locked) (tt_rows tbl)))))"

definition lease :: "time \<Rightarrow> string \<Rightarrow> TradeRow \<Rightarrow> TradeRow" where
  "lease now worker r = r\<lparr>tx_ClaimedAt := Some now, tx_WorkerID := Some worker\<rparr>"

definition pending_of :: "string \<Rightarrow> TradeRow \<Rightarrow> PendingDetectionTrade" where
  "pending_of cond r =
     \<lparr>pd_ID = tx_ID r, pd_MarketID = tx_MarketID r, pd_MarketConditionID = cond, pd_TraderID = tx_TraderID r,
      pd_OutcomeToken = tx_OutcomeToken r, pd_Side = tx_Side r, pd_Price = tx_Price r,
      pd_SizeShares = tx_SizeShares r, pd_NotionalUSD = tx_NotionalUSD r, pd_TradedAt = tx_TradedAt r,
      pd_IngestedAt = tx_IngestedAt r, pd_ExternalID = derefStr (tx_ExternalID r), pd_TxHash = derefStr (tx_TxHash r),
      pd_DedupKey = tx_DedupKey r, pd_DetectionAttempts = tx_Attempts r\<rparr>"

definition tt_update :: "(TradeRow \<Rightarrow> bool) \<Rightarrow> (TradeRow \<Rightarrow> TradeRow) \<Rightarrow> TradeTable \<Rightarrow> TradeTable" where
  "tt_update P f tbl = tbl\<lparr>tt_rows := map (\<lambda>r. if P r then f r else r) (tt_rows tbl)\<rparr>"

text \<open>\<open>markets\<close> is the joined table of markets; a picked row without its market is left alone.\<close>

definition ClaimUndetectedTrades :: "(int \<Rightarrow> string option) \<Rightarrow> time \<Rightarrow> string \<Rightarrow> int \<Rightarrow> duration \<Rightarrow> int set \<Rightarrow> TradeTable
    \<Rightarrow> TradeTable \<times> PendingDetectionTrade list" where
  "ClaimUndetectedTrades markets now worker limit ttl locked tbl =
     (let picked = filter (\<lambda>r. markets (tx_MarketID r) \<noteq> None) (lease_batch now ttl limit locked tbl)
      in (tt_update (\<lambda>r. tx_ID r \<in> tx_ID ` set picked) (lease now worker) tbl,
          map (\<lambda>r. pending_of (derefStr (markets (tx_MarketID r))) r) picked))"

definition ResetStaleDetectionClaims :: "time \<Rightarrow> duration \<Rightarrow> TradeTable \<Rightarrow> TradeTable \<times> int" where
  "ResetStaleDetectionClaims now staleAfter tbl =
     (let stale = (\<lambda>r. tx_DetectedAt r = None \<and>
            (case tx_ClaimedAt r of None \<Rightarrow> False | Some c \<Rightarrow> c < now - interval staleAfter))
      in (tt_update stale (\<lambda>r. r\<lparr>tx_ClaimedAt := None, tx_WorkerID := None\<rparr>) tbl,
          int (length (filter stale (tt_rows tbl)))))"

definition MarkTradeDetectionResult :: "time \<Rightarrow> int \<Rightarrow> string \<Rightarrow> string option \<Rightarrow> string option \<Rightarrow> TradeTable \<Rightarrow> TradeTable" where
  "MarkTradeDetectionResult now i status skipReason errorMessage tbl =
     tt_update (\<lambda>r. tx_ID r = i)
       (\<lambda>r. r\<lparr>tx_DetectedAt := Some now, tx_Status := Some status, tx_SkipReason := skipReason,
             tx_LastError := errorMessage, tx_Attempts := tx_Attempts r + 1, tx_ClaimedAt := None,
             tx_WorkerID := None\<rparr>) tbl"

definition MarkDetectionAnalyzed :: "time \<Rightarrow> int \<Rightarrow> TradeTable \<Rightarrow> TradeTable" where
  "MarkDetectionAnalyzed now i = MarkTradeDetectionResult now i ''analyzed'' None None"

definition MarkDetectionSkipped :: "time \<Rightarrow> int \<Rightarrow> string \<Rightarrow> TradeTable \<Rightarrow> TradeTable" where
  "MarkDetectionSkipped now i reason = MarkTradeDetectionResult now i ''skipped'' (Some reason) None"

definition MarkDetectionFailed :: "time \<Rightarrow> int \<Rightarrow> string \<Rightarrow> TradeTable \<Rightarrow> TradeTable" where
  "MarkDetectionFailed now i errMsg = MarkTradeDetectionResult now i ''failed'' None (Some errMsg)"

definition PendingDetectionCount :: "TradeTable \<Rightarrow> int" where
  "PendingDetectionCount tbl = int (length (filter (\<lambda>r. tx_DetectedAt r = None) (tt_rows tbl)))"

definition DetectionStatusBreakdown :: "TradeTable \<Rightarrow> string \<Rightarrow> int option" where
  "DetectionStatusBreakdown tbl s =
     (let n = length (filter (\<lambda>r. (case tx_Status r of None \<Rightarrow> ''pending'' | Some st \<Rightarrow> st) = s) (tt_rows tbl))
      in if n = 0 then None else Some (int n))"

subsection \<open>The table invariant\<close>

definition row_ok :: "TradeRow \<Rightarrow> bool" where
  "row_ok r \<longleftrightarrow> (case tx_DetectedAt r of
       None \<Rightarrow> tx_Status r = None \<and> tx_SkipReason r = None \<and> tx_LastError r = None
     | Some d \<Rightarrow> tx_ClaimedAt r = None \<and> tx_WorkerID r = None \<and>
         tx_Status r \<in> {Some ''analyzed'', Some ''skipped'', Some ''failed''} \<and>
         (tx_SkipReason r \<noteq> None) = (tx_Status r = Some ''skipped'') \<and>
         (tx_LastError r \<noteq> None) = (tx_Status r = Some ''failed''))"

definition tt_inv :: "TradeTable \<Rightarrow> bool" where
  "tt_inv tbl \<longleftrightarrow> distinct (map tx_ID (tt_rows tbl)) \<and> distinct (map tx_DedupKey (tt_rows tbl)) \<and>
     (\<forall>r \<in> set (tt_rows tbl). tx_ID r < tt_next tbl \<and> row_ok r)"

definition tt_find :: "TradeTable \<Rightarrow> int \<Rightarrow> TradeRow option" where
  "tt_find tbl i = find (\<lambda>r. tx_ID r = i) (tt_rows tbl)"

lemma tt_find_Some: "tt_find tbl i = Some r \<Longrightarrow> r \<in> set (tt_rows tbl) \<and> tx_ID r = i"
  by (auto simp: tt_find_def find_Some_iff)

lemma tt_find_mem: "tt_inv tbl \<Longrightarrow> r \<in> set (tt_rows tbl) \<Longrightarrow> tt_find tbl (tx_ID r) = Some r"
  by (simp add: tt_inv_def tt_find_def find_key_mem)

lemma tt_find_update:
  "(\<And>r. tx_ID (f r) = tx_ID r) \<Longrightarrow>
   tt_find (tt_update P f tbl) i = map_option (\<lambda>r. if P r then f r else r) (tt_find tbl i)"
  by (simp add: tt_find_def tt_update_def find_key_map)

lemma tt_inv_update:
  assumes "\<And>r. tx_ID (f r) = tx_ID r" "\<And>r. tx_DedupKey (f r) = tx_DedupKey r" "\<And>r. P r \<Longrightarrow> row_ok r \<Longrightarrow> row_ok (f r)"
    and "tt_inv tbl"
  shows "tt_inv (tt_update P f tbl)"
proof -
  have "tx_ID \<circ> (\<lambda>r. if P r then f r else r) = tx_ID" "tx_DedupKey \<circ> (\<lambda>r. if P r then f r else r) = tx_DedupKey"
    by (auto simp: fun_eq_iff assms(1,2))
  then show ?thesis using assms by (auto simp: tt_inv_def tt_update_def)
qed

lemma lease_batch_set:
  "r \<in> set (lease_batch now ttl k lk tbl) \<Longrightarrow> r \<in> set (tt_rows tbl) \<and> leasable now ttl r \<and> tx_ID r \<notin> lk"
  by (auto simp: lease_batch_def dest: in_set_takeD)

lemma lease_batch_distinct: "tt_inv tbl \<Longrightarrow> distinct (map tx_ID (lease_batch now ttl k lk tbl))"
proof -
  let ?P = "\<lambda>r. leasable now ttl r \<and> tx_ID r \<notin> lk"
  assume "tt_inv tbl"
  then have "distinct (map tx_ID (filter ?P (tt_rows tbl)))" by (simp add: tt_inv_def distinct_map_filter)
  then have "distinct (map tx_ID (rev (sort_key tx_TradedAt (sort_key tx_ID (filter ?P (tt_rows tbl))))))"
    by (simp add: distinct_map del: filter_sort)
  then show ?thesis unfolding lease_batch_def take_map [symmetric] by (rule distinct_take)
qed

lemma lease_fields [simp]: "tx_ID (lease n w r) = tx_ID r" "tx_DedupKey (lease n w r) = tx_DedupKey r"
  "tx_ClaimedAt (lease n w r) = Some n" "tx_DetectedAt (lease n w r) = tx_DetectedAt r"
  by (simp_all add: lease_def)

text \<open>What a claim does to the table: the returned rows are those leased now.\<close>

lemma claim_shape:
  assumes "tt_inv tbl" "ClaimUndetectedTrades markets now w k ttl lk tbl = (tbl', rows)"
  shows "tt_inv tbl'" "distinct (map pd_ID rows)"
    "tt_find tbl' i = map_option (\<lambda>r. if i \<in> pd_ID ` set rows then lease now w r else r) (tt_find tbl i)"
    "p \<in> set rows \<Longrightarrow> \<exists>r c. tt_find tbl (pd_ID p) = Some r \<and> leasable now ttl r \<and> tx_ID r \<notin> lk \<and>
       markets (tx_MarketID r) = Some c \<and> p = pending_of c r"
    "tt_next tbl' = tt_next tbl"
proof -
  define picked where "picked = filter (\<lambda>r. markets (tx_MarketID r) \<noteq> None) (lease_batch now ttl k lk tbl)"
  have tbl': "tbl' = tt_update (\<lambda>r. tx_ID r \<in> tx_ID ` set picked) (lease now w) tbl"
    and rows: "rows = map (\<lambda>r. pending_of (derefStr (markets (tx_MarketID r))) r) picked"
    using assms(2) by (simp_all add: ClaimUndetectedTrades_def picked_def Let_def)
  have ids: "map pd_ID rows = map tx_ID picked" by (simp add: rows pending_of_def comp_def)
  then have idset: "pd_ID ` set rows = tx_ID ` set picked" by (metis list.set_map)
  have pk: "r \<in> set picked \<Longrightarrow> r \<in> set (tt_rows tbl) \<and> leasable now ttl r \<and> tx_ID r \<notin> lk \<and> markets (tx_MarketID r) \<noteq> None" for r
    using lease_batch_set by (auto simp: picked_def)
  have leased: "r \<in> set (tt_rows tbl) \<Longrightarrow> tx_ID r \<in> tx_ID ` set picked \<Longrightarrow> leasable now ttl r" for r
    using pk assms(1) by (metis (no_types, opaque_lifting) imageE option.inject tt_find_mem)
  have "row_ok (lease now w r)" if "row_ok r" "leasable now ttl r" for r
    using that by (auto simp: row_ok_def leasable_def lease_def)
  then show "tt_inv tbl'"
    using assms(1) leased unfolding tbl' tt_inv_def tt_update_def
    by (auto simp: comp_def if_distrib [of tx_ID] if_distrib [of tx_DedupKey] cong: if_cong)
  show "distinct (map pd_ID rows)"
    using lease_batch_distinct [OF assms(1), of now ttl k lk] unfolding ids picked_def by (simp add: distinct_map_filter)
  show "tt_find tbl' i = map_option (\<lambda>r. if i \<in> pd_ID ` set rows then lease now w r else r) (tt_find tbl i)"
    unfolding tbl' idset by (subst tt_find_update) (auto simp: map_option_case split: option.split dest: tt_find_Some)
  show "p \<in> set rows \<Longrightarrow> \<exists>r c. tt_find tbl (pd_ID p) = Some r \<and> leasable now ttl r \<and> tx_ID r \<notin> lk \<and>
       markets (tx_MarketID r) = Some c \<and> p = pending_of c r"
    using pk tt_find_mem [OF assms(1)] by (force simp: rows pending_of_def derefStr_def)
  show "tt_next tbl' = tt_next tbl" by (simp add: tbl' tt_update_def)
qed

subsection \<open>Runs of the queue\<close>

text \<open>
  Any interleaving of the queue's operations by any number of workers, in the order in which the
  database executes them. The log holds every lease granted: the time and the row.
\<close>

datatype q_mark = QAnalyzed | QSkipped string | QFailed string

datatype q_op =
    QInsert time "string option" string InsertTradeInput
  | QClaim time "int \<Rightarrow> string option" string int "int set"
  | QReset time
  | QMark time int q_mark

fun q_time :: "q_op \<Rightarrow> time" where
  "q_time (QInsert n f k t) = n"
| "q_time (QClaim n ms w k lk) = n"
| "q_time (QReset n) = n"
| "q_time (QMark n i m) = n"

fun q_marked :: "time \<Rightarrow> int \<Rightarrow> q_mark \<Rightarrow> TradeTable \<Rightarrow> TradeTable" where
  "q_marked n i QAnalyzed = MarkDetectionAnalyzed n i"
| "q_marked n i (QSkipped reason) = MarkDetectionSkipped n i reason"
| "q_marked n i (QFailed err) = MarkDetectionFailed n i err"

fun q_step :: "duration \<Rightarrow> TradeTable \<times> (time \<times> int) list \<Rightarrow> q_op \<Rightarrow> TradeTable \<times> (time \<times> int) list" where
  "q_step ttl (tbl, lg) (QInsert n fault key t) = (fst (InsertTrade n fault key t tbl), lg)"
| "q_step ttl (tbl, lg) (QClaim n ms w k lk) =
     (case ClaimUndetectedTrades ms n w k ttl lk tbl of (tbl, rows) \<Rightarrow> (tbl, lg @ map (\<lambda>p. (n, pd_ID p)) rows))"
| "q_step ttl (tbl, lg) (QReset n) = (fst (ResetStaleDetectionClaims n ttl tbl), lg)"
| "q_step ttl (tbl, lg) (QMark n i m) = (q_marked n i m tbl, lg)"

definition q_run :: "duration \<Rightarrow> q_op list \<Rightarrow> TradeTable \<times> (time \<times> int) list" where
  "q_run ttl ops = foldl (q_step ttl) (\<lparr>tt_rows = [], tt_next = 1\<rparr>, []) ops"

text \<open>What a row is about never changes, and a marked row stays marked.\<close>

definition tx_core :: "TradeRow \<Rightarrow> TradeRow" where
  "tx_core r = r\<lparr>tx_DetectedAt := None, tx_Status := None, tx_SkipReason := None, tx_LastError := None, tx_Attempts := 0,
     tx_ClaimedAt := None, tx_WorkerID := None\<rparr>"

definition row_follows :: "TradeRow \<Rightarrow> TradeRow \<Rightarrow> bool" where
  "row_follows r r' \<longleftrightarrow> tx_core r' = tx_core r \<and> (tx_DetectedAt r \<noteq> None \<longrightarrow> tx_DetectedAt r' \<noteq> None) \<and>
     tx_Attempts r \<le> tx_Attempts r'"

definition tt_follows :: "TradeTable \<Rightarrow> TradeTable \<Rightarrow> bool" where
  "tt_follows tbl tbl' \<longleftrightarrow> (\<forall>i r. tt_find tbl i = Some r \<longrightarrow> (\<exists>r'. tt_find tbl' i = Some r' \<and> row_follows r r'))"

lemma row_follows_refl [simp]: "row_follows r r"
  by (simp add: row_follows_def)

lemma row_follows_trans: "row_follows a b \<Longrightarrow> row_follows b c \<Longrightarrow> row_follows a c"
  unfolding row_follows_def by auto

lemma tt_follows_refl [simp]: "tt_follows tbl tbl"
  by (simp add: tt_follows_def)

lemma tt_follows_trans: "tt_follows a b \<Longrightarrow> tt_follows b c \<Longrightarrow> tt_follows a c"
  unfolding tt_follows_def by (meson row_follows_trans)

lemma tt_follows_update:
  "(\<And>r. tx_ID (f r) = tx_ID r) \<Longrightarrow> (\<And>r. P r \<Longrightarrow> row_follows r (f r)) \<Longrightarrow> tt_follows tbl (tt_update P f tbl)"
  by (simp add: tt_follows_def tt_find_update)

text \<open>Leases: each one granted is still held, was handed on after it ran out, or its row is marked.\<close>

definition lease_ok :: "duration \<Rightarrow> time \<Rightarrow> time \<Rightarrow> TradeRow \<Rightarrow> bool" where
  "lease_ok ttl now t r \<longleftrightarrow> t \<le> now \<and>
     (tx_DetectedAt r \<noteq> None \<or> (case tx_ClaimedAt r of Some c \<Rightarrow> t \<le> c | None \<Rightarrow> t + interval ttl < now))"

definition lease_inv :: "duration \<Rightarrow> time \<Rightarrow> TradeTable \<times> (time \<times> int) list \<Rightarrow> bool" where
  "lease_inv ttl now st \<longleftrightarrow> (\<forall>e \<in> set (snd st). \<exists>r. tt_find (fst st) (snd e) = Some r \<and> lease_ok ttl now (fst e) r)"

lemma lease_ok_mono: "lease_ok ttl n t r \<Longrightarrow> n \<le> n' \<Longrightarrow> lease_ok ttl n' t r"
  by (auto simp: lease_ok_def split: option.splits)

lemma lease_inv_mono: "lease_inv ttl n st \<Longrightarrow> n \<le> n' \<Longrightarrow> lease_inv ttl n' st"
  unfolding lease_inv_def using lease_ok_mono by blast

lemma lease_inv_table:
  assumes "lease_inv ttl n (tbl, lg)"
    and "\<And>i t r. tt_find tbl i = Some r \<Longrightarrow> lease_ok ttl n t r \<Longrightarrow> \<exists>r'. tt_find tbl' i = Some r' \<and> lease_ok ttl n t r'"
  shows "lease_inv ttl n (tbl', lg)"
  using assms unfolding lease_inv_def fst_conv snd_conv by blast

definition leases_apart :: "duration \<Rightarrow> (time \<times> int) list \<Rightarrow> bool" where
  "leases_apart ttl lg \<longleftrightarrow> sorted_wrt (\<lambda>(t, i) (t', j). i = j \<longrightarrow> t + interval ttl < t') lg"

lemma q_marked_update:
  "\<exists>f. q_marked n i m tbl = tt_update (\<lambda>r. tx_ID r = i) f tbl \<and>
     (\<forall>r. tx_ID (f r) = tx_ID r \<and> tx_DedupKey (f r) = tx_DedupKey r \<and> row_ok (f r) \<and> row_follows r (f r) \<and>
        tx_DetectedAt (f r) = Some n \<and> tx_Attempts (f r) = tx_Attempts r + 1)"
  by (cases m) (fastforce simp: MarkDetectionAnalyzed_def MarkDetectionSkipped_def MarkDetectionFailed_def
      MarkTradeDetectionResult_def row_ok_def row_follows_def tx_core_def)+

lemma reset_update:
  "\<exists>P. fst (ResetStaleDetectionClaims n ttl tbl) = tt_update P (\<lambda>r. r\<lparr>tx_ClaimedAt := None, tx_WorkerID := None\<rparr>) tbl \<and>
     (\<forall>r. P r = (tx_DetectedAt r = None \<and> (\<exists>c. tx_ClaimedAt r = Some c \<and> c < n - interval ttl)))"
proof -
  let ?P = "\<lambda>r. tx_DetectedAt r = None \<and> (case tx_ClaimedAt r of None \<Rightarrow> False | Some c \<Rightarrow> c < n - interval ttl)"
  have "fst (ResetStaleDetectionClaims n ttl tbl) = tt_update ?P (\<lambda>r. r\<lparr>tx_ClaimedAt := None, tx_WorkerID := None\<rparr>) tbl"
    by (simp add: ResetStaleDetectionClaims_def Let_def)
  moreover have "\<forall>r. ?P r = (tx_DetectedAt r = None \<and> (\<exists>c. tx_ClaimedAt r = Some c \<and> c < n - interval ttl))"
    by (auto split: option.splits)
  ultimately show ?thesis by blast
qed

text \<open>An insertion appends at most one row, with a fresh id and a fresh key.\<close>

lemma InsertTrade_cases:
  obtains (same) k where "fst (InsertTrade n fault key t tbl) = tbl\<lparr>tt_next := k\<rparr>" "tt_next tbl \<le> k"
  | (new) "fst (InsertTrade n fault key t tbl) =
        tbl\<lparr>tt_next := tt_next tbl + 1, tt_rows := tt_rows tbl @ [new_row n (tt_next tbl) key t]\<rparr>"
      "key \<notin> tx_DedupKey ` set (tt_rows tbl)" "trade_valid t"
proof (cases "snd (InsertTrade n fault key t tbl) = Inr True")
  case True
  then show thesis
    by (intro new) (auto simp: InsertTrade_def Let_def split: option.splits if_splits)
next
  case False
  then have "\<exists>k. fst (InsertTrade n fault key t tbl) = tbl\<lparr>tt_next := k\<rparr> \<and> tt_next tbl \<le> k"
  proof (cases fault)
    case (Some e)
    then show ?thesis by (intro exI [of _ "tt_next tbl"]) (simp add: InsertTrade_def)
  next
    case None
    then show ?thesis using False
      by (intro exI [of _ "tt_next tbl + 1"]) (auto simp: InsertTrade_def Let_def split: if_splits)
  qed
  then show thesis using same by blast
qed

lemma new_row_ok: "row_ok (new_row n i key t)" "tx_ID (new_row n i key t) = i" "tx_DedupKey (new_row n i key t) = key"
  "tx_DetectedAt (new_row n i key t) = None" "tx_ClaimedAt (new_row n i key t) = None"
  by (simp_all add: row_ok_def new_row_def)

lemma InsertTrade_inv:
  assumes "tt_inv tbl"
  shows "tt_inv (fst (InsertTrade n fault key t tbl)) \<and> tt_follows tbl (fst (InsertTrade n fault key t tbl)) \<and>
     (\<forall>i r. tt_find tbl i = Some r \<longrightarrow> tt_find (fst (InsertTrade n fault key t tbl)) i = Some r)"
proof (cases rule: InsertTrade_cases [of n fault key t tbl, case_names same new])
  case (same k)
  then show ?thesis using assms by (auto simp: tt_inv_def tt_follows_def tt_find_def)
next
  case new
  have keep: "tt_find (fst (InsertTrade n fault key t tbl)) i = Some r" if "tt_find tbl i = Some r" for i r
    using that by (simp add: new(1) tt_find_def find_append_Some)
  have "tt_inv (fst (InsertTrade n fault key t tbl))"
    using assms new(2) by (auto simp: new(1) tt_inv_def new_row_ok less_le)
  then show ?thesis using keep by (simp add: tt_follows_def)
qed

definition q_inv :: "duration \<Rightarrow> time \<Rightarrow> TradeTable \<times> (time \<times> int) list \<Rightarrow> bool" where
  "q_inv ttl n st \<longleftrightarrow> tt_inv (fst st) \<and> lease_inv ttl n st \<and> leases_apart ttl (snd st)"

lemma lease_keeps_ok: "lease_ok ttl n t r \<Longrightarrow> lease_ok ttl n t (lease n w r)"
  by (simp add: lease_ok_def)

lemma leased_apart: "lease_ok ttl n t r \<Longrightarrow> leasable n ttl r \<Longrightarrow> t + interval ttl < n"
  by (auto simp: lease_ok_def leasable_def split: option.splits)

lemma leases_apart_append:
  assumes "leases_apart ttl lg" "distinct ids" "\<And>t i. (t, i) \<in> set lg \<Longrightarrow> i \<in> set ids \<Longrightarrow> t + interval ttl < n"
  shows "leases_apart ttl (lg @ map (\<lambda>i. (n, i)) ids)"
proof -
  have "sorted_wrt (\<lambda>i j. i \<noteq> j) ids" using assms(2) by (induction ids) auto
  then have "sorted_wrt (\<lambda>(t, i) (t', j). i = j \<longrightarrow> t + interval ttl < t') (map (\<lambda>i. (n, i)) ids)"
    unfolding sorted_wrt_map by (rule sorted_wrt_mono_rel [rotated]) simp
  then show ?thesis using assms(1,3) by (force simp: leases_apart_def sorted_wrt_append)
qed

lemma claim_keeps:
  assumes "q_inv ttl n (tbl, lg)" "ClaimUndetectedTrades ms n w k ttl lk tbl = (tbl', rows)"
  shows "q_inv ttl n (tbl', lg @ map (\<lambda>p. (n, pd_ID p)) rows) \<and> tt_follows tbl tbl'"
proof -
  have inv: "tt_inv tbl" and li: "lease_inv ttl n (tbl, lg)" and ap: "leases_apart ttl lg"
    using assms(1) by (simp_all add: q_inv_def)
  note c = claim_shape [OF inv assms(2)]
  have row: "tt_find tbl i = Some r \<Longrightarrow> \<exists>r'. tt_find tbl' i = Some r' \<and> (r' = r \<or> r' = lease n w r)" for i r
    by (auto simp: c(3))
  have f: "tt_follows tbl tbl'"
    unfolding tt_follows_def using row by (fastforce simp: row_follows_def lease_def tx_core_def)
  have old: "lease_inv ttl n (tbl', lg)"
    by (rule lease_inv_table [OF li]) (use row lease_keeps_ok in blast)
  have new: "\<exists>r. tt_find tbl' (pd_ID p) = Some r \<and> lease_ok ttl n n r" if "p \<in> set rows" for p
    using c(4) [OF that] that by (auto simp: c(3) lease_ok_def)
  have apart: "leases_apart ttl (lg @ map (\<lambda>i. (n, i)) (map pd_ID rows))"
  proof (rule leases_apart_append [OF ap c(2)])
    fix t i assume e: "(t, i) \<in> set lg" "i \<in> set (map pd_ID rows)"
    then obtain r where "tt_find tbl i = Some r" "lease_ok ttl n t r" using li by (fastforce simp: lease_inv_def)
    moreover have "\<exists>r. tt_find tbl i = Some r \<and> leasable n ttl r" using e(2) c(4) by fastforce
    ultimately show "t + interval ttl < n" using leased_apart by auto
  qed
  have "lease_inv ttl n (tbl', lg @ map (\<lambda>p. (n, pd_ID p)) rows)"
    using old new by (auto simp: lease_inv_def)
  then show ?thesis using c(1) f apart by (simp add: q_inv_def comp_def)
qed

lemma q_step_keeps:
  assumes "q_inv ttl n (tbl, lg)" "n \<le> q_time op"
  shows "q_inv ttl (q_time op) (q_step ttl (tbl, lg) op) \<and> tt_follows tbl (fst (q_step ttl (tbl, lg) op))"
proof -
  have q: "q_inv ttl (q_time op) (tbl, lg)" using assms lease_inv_mono by (auto simp: q_inv_def)
  then have inv: "tt_inv tbl" and li: "lease_inv ttl (q_time op) (tbl, lg)" by (simp_all add: q_inv_def)
  show ?thesis
  proof (cases op)
    case (QInsert m fault key t)
    show ?thesis using q InsertTrade_inv [OF inv, of m fault key t] QInsert
      by (fastforce simp: q_inv_def intro: lease_inv_table)
  next
    case (QClaim m ms w k lk)
    obtain tbl' rows where c: "ClaimUndetectedTrades ms m w k ttl lk tbl = (tbl', rows)" by fastforce
    then show ?thesis using claim_keeps [OF _ c] q QClaim by simp
  next
    case (QReset m)
    obtain P where P: "fst (ResetStaleDetectionClaims m ttl tbl) = tt_update P (\<lambda>r. r\<lparr>tx_ClaimedAt := None, tx_WorkerID := None\<rparr>) tbl"
      "\<And>r. P r = (tx_DetectedAt r = None \<and> (\<exists>c. tx_ClaimedAt r = Some c \<and> c < m - interval ttl))"
      using reset_update [of m ttl tbl] by blast
    let ?tbl = "fst (ResetStaleDetectionClaims m ttl tbl)"
    have "tt_inv ?tbl" unfolding P(1) by (rule tt_inv_update [OF _ _ _ inv]) (auto simp: row_ok_def P(2))
    moreover have "tt_follows tbl ?tbl" unfolding P(1) by (rule tt_follows_update) (auto simp: row_follows_def tx_core_def)
    moreover have "lease_inv ttl m (?tbl, lg)"
    proof (rule lease_inv_table)
      show "lease_inv ttl m (tbl, lg)" using li QReset by simp
      fix i t r assume r: "tt_find tbl i = Some r" "lease_ok ttl m t r"
      have "lease_ok ttl m t (if P r then r\<lparr>tx_ClaimedAt := None, tx_WorkerID := None\<rparr> else r)"
        using r(2) by (auto simp: lease_ok_def P(2))
      then show "\<exists>r'. tt_find ?tbl i = Some r' \<and> lease_ok ttl m t r'"
        unfolding P(1) using r(1) by (simp add: tt_find_update)
    qed
    ultimately show ?thesis using q QReset by (simp add: q_inv_def)
  next
    case (QMark m i mk)
    obtain f where f: "q_marked m i mk tbl = tt_update (\<lambda>r. tx_ID r = i) f tbl"
      "\<And>r. tx_ID (f r) = tx_ID r \<and> tx_DedupKey (f r) = tx_DedupKey r \<and> row_ok (f r) \<and> row_follows r (f r) \<and>
        tx_DetectedAt (f r) = Some m"
      using q_marked_update [of m i mk tbl] by blast
    have "tt_inv (q_marked m i mk tbl)" unfolding f(1) by (rule tt_inv_update [OF _ _ _ inv]) (use f(2) in auto)
    moreover have "tt_follows tbl (q_marked m i mk tbl)" unfolding f(1) by (rule tt_follows_update) (use f(2) in auto)
    moreover have "lease_inv ttl m (q_marked m i mk tbl, lg)"
    proof (rule lease_inv_table)
      show "lease_inv ttl m (tbl, lg)" using li QMark by simp
      fix j t r assume "tt_find tbl j = Some r" "lease_ok ttl m t r"
      then show "\<exists>r'. tt_find (q_marked m i mk tbl) j = Some r' \<and> lease_ok ttl m t r'"
        unfolding f(1) using f(2) by (simp add: tt_find_update lease_ok_def)
    qed
    ultimately show ?thesis using q QMark by (simp add: q_inv_def)
  qed
qed

lemma q_steps_keep:
  assumes "q_inv ttl n st" "sorted (n # map q_time ops)"
  shows "\<exists>n'. q_inv ttl n' (foldl (q_step ttl) st ops) \<and> tt_follows (fst st) (fst (foldl (q_step ttl) st ops))"
  using assms
proof (induction ops arbitrary: st n)
  case Nil
  then show ?case by auto
next
  case (Cons op ops)
  have s: "q_inv ttl (q_time op) (q_step ttl st op)" "tt_follows (fst st) (fst (q_step ttl st op))"
    using q_step_keeps [of ttl n "fst st" "snd st" op] Cons.prems by simp_all
  obtain n' where "q_inv ttl n' (foldl (q_step ttl) (q_step ttl st op) ops)"
    "tt_follows (fst (q_step ttl st op)) (fst (foldl (q_step ttl) (q_step ttl st op) ops))"
    using Cons.IH [OF s(1)] Cons.prems(2) by auto
  then show ?case using tt_follows_trans [OF s(2)] by auto
qed

lemma q_init: "q_inv ttl n (\<lparr>tt_rows = [], tt_next = 1\<rparr>, [])"
  by (simp add: q_inv_def tt_inv_def lease_inv_def leases_apart_def)

text \<open>The table part of a step does not need the clock.\<close>

lemma q_step_fst: "fst (q_step ttl (tbl, lg) op) = fst (q_step ttl (tbl, lg') op)"
  by (cases op) (simp_all split: prod.split)

definition detected_in :: "TradeTable \<Rightarrow> int \<Rightarrow> bool" where
  "detected_in tbl i \<longleftrightarrow> (\<exists>r. tt_find tbl i = Some r \<and> tx_DetectedAt r \<noteq> None)"

lemma detected_stays: "tt_follows tbl tbl' \<Longrightarrow> detected_in tbl i \<Longrightarrow> detected_in tbl' i"
  unfolding tt_follows_def detected_in_def row_follows_def by blast

lemma q_step_table:
  assumes "tt_inv tbl"
  shows "tt_inv (fst (q_step ttl (tbl, lg) op)) \<and> tt_follows tbl (fst (q_step ttl (tbl, lg) op)) \<and>
    (\<exists>more. snd (q_step ttl (tbl, lg) op) = lg @ more \<and> list_all (\<lambda>e. \<not> detected_in tbl (snd e)) more)"
proof -
  have "q_inv ttl (q_time op) (tbl, [])" using assms by (simp add: q_inv_def lease_inv_def leases_apart_def)
  then have "tt_inv (fst (q_step ttl (tbl, []) op))" "tt_follows tbl (fst (q_step ttl (tbl, []) op))"
    using q_step_keeps [of ttl "q_time op" tbl "[]" op] by (simp_all add: q_inv_def)
  moreover have "\<exists>more. snd (q_step ttl (tbl, lg) op) = lg @ more \<and> list_all (\<lambda>e. \<not> detected_in tbl (snd e)) more"
  proof (cases op)
    case (QClaim n ms w k lk)
    obtain tbl' rows where c: "ClaimUndetectedTrades ms n w k ttl lk tbl = (tbl', rows)" by fastforce
    then show ?thesis using claim_shape(4) [OF assms c] QClaim
      by (fastforce simp: list_all_iff detected_in_def leasable_def)
  qed simp_all
  ultimately show ?thesis using q_step_fst [of ttl tbl lg op "[]"] by simp
qed

lemma q_steps_table:
  assumes "tt_inv (fst st)"
  shows "tt_inv (fst (foldl (q_step ttl) st ops)) \<and> tt_follows (fst st) (fst (foldl (q_step ttl) st ops)) \<and>
    (\<exists>more. snd (foldl (q_step ttl) st ops) = snd st @ more \<and> list_all (\<lambda>e. \<not> detected_in (fst st) (snd e)) more)"
  using assms
proof (induction ops arbitrary: st)
  case (Cons op ops)
  obtain more1 where s: "tt_inv (fst (q_step ttl st op))" "tt_follows (fst st) (fst (q_step ttl st op))"
    "snd (q_step ttl st op) = snd st @ more1" "list_all (\<lambda>e. \<not> detected_in (fst st) (snd e)) more1"
    using q_step_table [OF Cons.prems, of ttl "snd st" op] by auto
  obtain more2 where r: "tt_inv (fst (foldl (q_step ttl) (q_step ttl st op) ops))"
    "tt_follows (fst (q_step ttl st op)) (fst (foldl (q_step ttl) (q_step ttl st op) ops))"
    "snd (foldl (q_step ttl) (q_step ttl st op) ops) = (snd st @ more1) @ more2"
    "list_all (\<lambda>e. \<not> detected_in (fst (q_step ttl st op)) (snd e)) more2"
    using Cons.IH [OF s(1)] s(3) by auto
  have "list_all (\<lambda>e. \<not> detected_in (fst st) (snd e)) (more1 @ more2)"
    using s(4) r(4) detected_stays [OF s(2)] by (auto simp: list_all_iff)
  then show ?case using r(1,3) tt_follows_trans [OF s(2) r(2)] by (auto simp del: list_all_append)
qed simp

subsection \<open>Properties\<close>

text \<open>C12. Leases are exclusive: in every interleaving of inserts, claims, resets and marks by any workers,
  executed at times that do not go back, two leases of the same trade are further apart than the
  lease duration. A trade is never handed to a second worker while the first lease runs.\<close>

theorem leases_exclusive:
  assumes "sorted (map q_time ops)"
  shows "sorted_wrt (\<lambda>(t, i) (t', j). i = j \<longrightarrow> t + interval ttl < t') (snd (q_run ttl ops))"
proof (cases ops)
  case Nil
  then show ?thesis by (simp add: q_run_def)
next
  case (Cons op rest)
  then obtain n' where "q_inv ttl n' (q_run ttl ops)"
    using q_steps_keep [OF q_init, of "q_time op" ops] assms unfolding q_run_def by auto
  then show ?thesis by (simp add: q_inv_def leases_apart_def)
qed

definition q_trade :: "string \<Rightarrow> InsertTradeInput" where
  "q_trade i = \<lparr>it_MarketID = 1, it_TraderID = None, it_OutcomeToken = ''t'', it_Side = ''BUY'', it_Price = fl 0.5,
     it_SizeShares = fl 10, it_NotionalUSD = fl 5, it_TradedAt = Second, it_ExternalID = i, it_TxHash = ''''\<rparr>"

definition q_ops :: "q_op list" where
  "q_ops = [QInsert 0 None ''a'' (q_trade ''a''), QInsert 1 None ''b'' (q_trade ''b''),
     QClaim Second (\<lambda>m. Some ''c'') ''w1'' 1 {}, QClaim (2 * Second) (\<lambda>m. Some ''c'') ''w2'' 5 {},
     QMark (3 * Second) 1 QAnalyzed, QReset (6 * Minute), QClaim (6 * Minute) (\<lambda>m. Some ''c'') ''w2'' 5 {}]"

lemma leases_exclusive_witness:
  "snd (q_run (5 * Minute) q_ops) = [(Second, 2), (2 * Second, 1), (6 * Minute, 2)] \<and>
   sorted_wrt (\<lambda>(t, i) (t', j). i = j \<longrightarrow> t + 5 * Minute < t') (snd (q_run (5 * Minute) q_ops))"
proof -
  have "sorted (map q_time q_ops)" by (simp add: q_ops_def)
  from leases_exclusive [OF this, of "5 * Minute"] show ?thesis by (simp add: interval_def) code_simp
qed

text \<open>C29. The life of a stored trade: whatever runs, no row vanishes or changes what it says of the trade, ids
  and dedup keys stay unique, a row carries a status exactly when it is marked and a marked row
  holds no lease, a reason only when skipped and an error only when failed; and a marked row is
  never leased again.\<close>

theorem queue_life:
  "let (tbl, lg) = q_run ttl ops; (tbl', lg') = q_run ttl (ops @ later) in
     distinct (map tx_ID (tt_rows tbl)) \<and> distinct (map tx_DedupKey (tt_rows tbl)) \<and> list_all row_ok (tt_rows tbl) \<and>
     tt_follows tbl tbl' \<and> (\<exists>more. lg' = lg @ more \<and> list_all (\<lambda>e. \<not> detected_in tbl (snd e)) more)"
proof -
  let ?st = "q_run ttl ops"
  have inv: "tt_inv (fst ?st)"
    using q_steps_table [of "(\<lparr>tt_rows = [], tt_next = 1\<rparr>, [])" ttl ops] by (simp add: q_run_def tt_inv_def)
  have "q_run ttl (ops @ later) = foldl (q_step ttl) ?st later" by (simp add: q_run_def)
  then show ?thesis using q_steps_table [OF inv, of ttl later] inv
    by (auto simp: tt_inv_def list_all_iff split: prod.split)
qed

end
