(* ===== verification/Detect.thy ===== *)
theory Detect
  imports Finding Catalog Concentration AlertQueue TradeTable
begin

text \<open>
  The per-trade pipeline (package detect, \<open>detect.go\<close>): \<open>Loop.Observe\<close> with the single-trade,
  cluster, accumulation and ownership paths, the context boosters, the dedup keys and the dedup
  gate. The answers of the repositories during one call, the clock and \<open>net/url\<close> are collected in
  an environment record; a nil dependency is \<open>None\<close>. The state is the loop with its in-memory
  baseline, its cluster detector, the alert table, and the list of what left the loop: rows
  created, findings sent to the realtime sinks, and findings handed to the strategy-shadow hook
  (\<open>strategy_shadow.go\<close>, not modelled). Metrics and log lines are left out; all reads of the clock
  within one call give the same time.
\<close>

subsection \<open>Configuration\<close>

record NewWalletConfig =
  wc_Enabled :: bool
  wc_MaxAge :: duration
  wc_MaxHistoryTrades :: int

record DormantWalletConfig =
  dd_Enabled :: bool
  dd_MinIdle :: duration
  dd_MinNotionalUSD :: float64

record dt_Config =
  dt_Thresholds :: Thresholds
  dt_Baseline :: bl_Config
  dt_Cluster :: cl_Config
  dt_Filter :: "cat_filter option"
  dt_PolymarketBase :: string
  dt_GrafanaBase :: string
  dt_GrafanaDashUID :: string
  dt_GrafanaContext :: duration
  dt_LifecycleAlertFromPct :: float64
  dt_LifecycleHotFromPct :: float64
  dt_MarketMinAge :: duration
  dt_BaselineMinReadySpan :: duration
  dt_LiveAlertMaxLag :: duration
  dt_MinTraderHistoryTrades :: int
  dt_Accumulator :: "ac_Detector option"
  dt_Ownership :: "ow_Config option"
  dt_QuietMarket :: "qm_Config option"
  dt_Alerts :: bool
  dt_Concentration :: "cg_Config option"
  dt_StrategyVersion :: string
  dt_NewWallet :: NewWalletConfig
  dt_DormantWallet :: DormantWalletConfig

subsection \<open>The environment of one call\<close>

record AccumulationLineQuery =
  aq_TraderID :: int
  aq_MarketID :: int
  aq_OutcomeToken :: string
  aq_Side :: string
  aq_Since :: time

record AccumulationLine =
  al_TradeCount :: int
  al_TotalNotionalUSD :: float64
  al_MeanNotionalUSD :: float64
  al_MedianNotionalUSD :: float64
  al_MaxNotionalUSD :: float64
  al_MinNotionalUSD :: float64
  al_AvgPrice :: float64
  al_MinPrice :: float64
  al_OldestAt :: time
  al_NewestAt :: time

definition rep_Span :: "AccumulationLine \<Rightarrow> duration" where
  "rep_Span l = (if al_TradeCount l < 2 then 0 else t_sub (al_NewestAt l) (al_OldestAt l))"

definition rep_AvgOdds :: "AccumulationLine \<Rightarrow> float64" where
  "rep_AvgOdds l = (if al_AvgPrice l \<le> 0 then 0 else 1 / al_AvgPrice l)"

definition rep_MaxOdds :: "AccumulationLine \<Rightarrow> float64" where
  "rep_MaxOdds l = (if al_MinPrice l \<le> 0 then 0 else 1 / al_MinPrice l)"

record OwnershipShares =
  ws_WalletBuyShares :: float64
  ws_WalletSellShares :: float64
  ws_MarketBuyShares :: float64

record TraderRow =
  tr_ID :: int
  tr_FirstSeenAt :: time

text \<open>
  \<open>ev_Insert\<close> gives the error of an insert, if it fails; \<open>ev_URL base path query\<close> parses a base URL,
  replaces its path by \<open>path\<close> of it, sets the query if there is one and prints it, \<open>None\<close> when the
  base does not parse; \<open>ev_Digest\<close> is the SHA-256 hex digest of the composite of a trade.
\<close>

record dt_Env =
  ev_now :: time
  ev_Baseliner :: "(Key \<Rightarrow> string + Stats) option"
  ev_TraderBaseliner :: "(string \<Rightarrow> string + Stats) option"
  ev_MMFilter :: "(string \<Rightarrow> int \<Rightarrow> string \<Rightarrow> mm_Verdict \<times> string option) option"
  ev_AccumulationLines :: "(AccumulationLineQuery \<Rightarrow> string + AccumulationLine) option"
  ev_LastTrade :: "(int \<Rightarrow> string \<Rightarrow> time \<Rightarrow> string + time) option"
  ev_OwnershipShares :: "(int \<Rightarrow> int \<Rightarrow> string \<Rightarrow> string + OwnershipShares) option"
  ev_TraderActivity :: "(int \<Rightarrow> time \<Rightarrow> string + time) option"
  ev_Markets :: "(string \<Rightarrow> string + int) option"
  ev_Traders :: "(string \<Rightarrow> string + TraderRow) option"
  ev_ConcentrationHistory :: "AlertHistory option"
  ev_Marshal :: "Finding \<Rightarrow> string + string"
  ev_Insert :: "NewAlert \<Rightarrow> string option"
  ev_URL :: "string \<Rightarrow> (string \<Rightarrow> string) \<Rightarrow> (string \<times> string) list \<Rightarrow> string option"
  ev_Digest :: "int \<Rightarrow> string \<Rightarrow> int option \<Rightarrow> time \<Rightarrow> float64 \<Rightarrow> float64 \<Rightarrow> string \<Rightarrow> string"

subsection \<open>The loop\<close>

datatype dt_event = Created NewAlert | Notified Finding | Shadowed Finding string

record Loop =
  lp_cfg :: dt_Config
  lp_cache :: Cache
  lp_baseline :: Baseline
  lp_cluster :: cl_Detector
  lp_db :: AlertTable
  lp_out :: "dt_event list"

definition StrategyIdentity :: string where
  "StrategyIdentity = ''informed-flow-v6''"

definition dt_New :: "dt_Config \<Rightarrow> Cache \<Rightarrow> AlertTable \<Rightarrow> Loop" where
  "dt_New cfg cache db =
     (let cfg = (if dt_GrafanaContext cfg \<le> 0 then cfg\<lparr>dt_GrafanaContext := Hour\<rparr> else cfg);
          cfg = (if dt_Filter cfg = None then cfg\<lparr>dt_Filter := Some (NewFilter [])\<rparr> else cfg);
          cfg = (if dt_LifecycleAlertFromPct cfg < 0 then cfg\<lparr>dt_LifecycleAlertFromPct := 0\<rparr> else cfg);
          cfg = (if dt_LifecycleHotFromPct cfg < dt_LifecycleAlertFromPct cfg
                 then cfg\<lparr>dt_LifecycleHotFromPct := dt_LifecycleAlertFromPct cfg\<rparr> else cfg);
          cfg = (if dt_StrategyVersion cfg = '''' then cfg\<lparr>dt_StrategyVersion := StrategyIdentity\<rparr> else cfg)
      in \<lparr>lp_cfg = cfg, lp_cache = cache, lp_baseline = bl_New (dt_Baseline cfg),
          lp_cluster = cl_New (dt_Cluster cfg), lp_db = db, lp_out = []\<rparr>)"

subsection \<open>Labels, links and references\<close>

definition nonEmpty :: "string \<Rightarrow> string \<Rightarrow> string" where
  "nonEmpty a b = (if a \<noteq> '''' then a else b)"

definition dt_allowed :: "Loop \<Rightarrow> int \<Rightarrow> bool" where
  "dt_allowed l cat =
     (let f = (case dt_Filter (lp_cfg l) of None \<Rightarrow> [] | Some f \<Rightarrow> f)
      in if cat = 0 then Allowed f '''' ''''
         else case cache_Category (lp_cache l) cat of
                Some c \<Rightarrow> Allowed f (ct_Slug c) (ct_Label c)
              | None \<Rightarrow> True)"

definition categoryRef :: "Loop \<Rightarrow> int \<Rightarrow> CategoryRef" where
  "categoryRef l cat =
     (case cache_Category (lp_cache l) cat of
        Some c \<Rightarrow> \<lparr>cf_ID = cat, cf_Slug = ct_Slug c, cf_Label = ct_Label c\<rparr>
      | None \<Rightarrow> \<lparr>cf_ID = cat, cf_Slug = '''', cf_Label = ''''\<rparr>)"

definition singleSlashJoin :: "string \<Rightarrow> string list \<Rightarrow> string" where
  "singleSlashJoin base segs =
     foldl (\<lambda>out s. if s = '''' then out
        else (if out = '''' \<or> List.last out \<noteq> CHR ''/'' then out @ ''/'' else out) @ s) base segs"

definition polymarketPath :: "Loop \<Rightarrow> dt_Env \<Rightarrow> string list \<Rightarrow> string" where
  "polymarketPath l ev segs =
     (if dt_PolymarketBase (lp_cfg l) = '''' then ''''
      else if list_ex (\<lambda>s. s = '''') segs then ''''
      else case ev_URL ev (dt_PolymarketBase (lp_cfg l)) (\<lambda>p. singleSlashJoin p segs) [] of
             None \<Rightarrow> '''' | Some u \<Rightarrow> u)"

definition marketURL :: "Loop \<Rightarrow> dt_Env \<Rightarrow> Market \<Rightarrow> string" where
  "marketURL l ev m = polymarketPath l ev [''event'', mk_EventSlug m]"

definition categoryURL :: "Loop \<Rightarrow> dt_Env \<Rightarrow> CategoryRef \<Rightarrow> string" where
  "categoryURL l ev c = polymarketPath l ev [''predictions'', cf_Slug c]"

definition traderURL :: "Loop \<Rightarrow> dt_Env \<Rightarrow> string \<Rightarrow> string" where
  "traderURL l ev wallet = polymarketPath l ev [''profile'', wallet]"

text \<open>The market of a link enters by its slug only; cluster links pass the zero market.\<close>

definition grafanaURL :: "Loop \<Rightarrow> dt_Env \<Rightarrow> CategoryRef \<Rightarrow> string \<Rightarrow> time \<Rightarrow> Severity \<Rightarrow> string" where
  "grafanaURL l ev cat slug tm sev =
     (if dt_GrafanaBase (lp_cfg l) = '''' \<or> dt_GrafanaDashUID (lp_cfg l) = '''' then ''''
      else
        (let q = [(''orgId'', ''1''),
                  (''from'', fmt_d ((tm - dt_GrafanaContext (lp_cfg l)) div 1000000)),
                  (''to'', fmt_d ((tm + dt_GrafanaContext (lp_cfg l)) div 1000000))];
             q = (if cf_Label cat \<noteq> '''' then q @ [(''var-category'', cf_Label cat)] else q);
             q = (if slug \<noteq> '''' then q @ [(''var-market'', slug)] else q);
             q = (if sev \<noteq> '''' then q @ [(''var-severity'', sev)] else q)
         in case ev_URL ev (dt_GrafanaBase (lp_cfg l))
                   (\<lambda>p. singleSlashJoin p [''d'', dt_GrafanaDashUID (lp_cfg l)] @ ''/'') q of
              None \<Rightarrow> '''' | Some u \<Rightarrow> u))"

definition buildTradeRef :: "Market \<Rightarrow> Trade \<Rightarrow> float64 \<Rightarrow> TradeRef" where
  "buildTradeRef m t notional =
     \<lparr>tf_ID = td_ID t, tf_TxHash = td_TxHash t, tf_Wallet = td_Taker t, tf_Market = mk_ID m, tf_Slug = mk_Slug m,
      tf_Question = mk_Question m, tf_Outcome = OutcomeLabel m (td_Token t), tf_Side = td_Side t,
      tf_SizeShares = td_Size t, tf_Price = td_Price t,
      tf_Odds = (if 0 < td_Price t then 1 / td_Price t else 0), tf_NotionalUSD = notional,
      tf_At = td_Timestamp t\<rparr>"

definition resolveMarketID :: "dt_Env \<Rightarrow> string \<Rightarrow> int option" where
  "resolveMarketID ev condID =
     (case ev_Markets ev of None \<Rightarrow> None
      | Some get \<Rightarrow> if condID = '''' then None
          else (case get condID of Inl e \<Rightarrow> None | Inr i \<Rightarrow> Some i))"

definition resolveTraderID :: "dt_Env \<Rightarrow> string \<Rightarrow> int option" where
  "resolveTraderID ev wallet =
     (case ev_Traders ev of None \<Rightarrow> None
      | Some get \<Rightarrow> if wallet = '''' then None
          else (case get wallet of Inl e \<Rightarrow> None | Inr r \<Rightarrow> Some (tr_ID r)))"

subsection \<open>Dedup keys\<close>

text \<open>\<open>t.Truncate(d).Unix()\<close>: multiples of \<open>d\<close> are counted from the zero time.\<close>

definition truncate_unix :: "time \<Rightarrow> duration \<Rightarrow> int" where
  "truncate_unix t d = (t - (t - zero_time) mod d) div Second"


definition singleTradeDedupKey :: "Loop \<Rightarrow> dt_Env \<Rightarrow> Market \<Rightarrow> Trade \<Rightarrow> string" where
  "singleTradeDedupKey l ev m t =
     ''single:'' @ dt_StrategyVersion (lp_cfg l) @ '':'' @
     DedupKeyForTrade (ev_Digest ev)
       \<lparr>it_MarketID = 0, it_TraderID = None, it_OutcomeToken = td_Token t @ ''@'' @ mk_ID m, it_Side = td_Side t,
        it_Price = td_Price t, it_SizeShares = td_Size t, it_NotionalUSD = 0, it_TradedAt = td_Timestamp t,
        it_ExternalID = td_ID t, it_TxHash = ''''\<rparr>"

definition clusterDedupKey :: "Loop \<Rightarrow> dt_Env \<Rightarrow> int \<Rightarrow> string" where
  "clusterDedupKey l ev cat =
     (let bucket = cc_Cooldown (dt_Cluster (lp_cfg l));
          bucket = (if bucket \<le> 0 then cc_Window (dt_Cluster (lp_cfg l)) else bucket);
          bucket = (if bucket \<le> 0 then 30 * Minute else bucket)
      in ''cluster:'' @ dt_StrategyVersion (lp_cfg l) @ '':'' @ fmt_d cat @ '':'' @
         fmt_d (truncate_unix (ev_now ev) bucket))"

definition accumulationDedupKey :: "Loop \<Rightarrow> dt_Env \<Rightarrow> ac_Detector \<Rightarrow> string \<Rightarrow> string \<Rightarrow> int \<Rightarrow> string \<Rightarrow> string
    \<Rightarrow> Severity \<Rightarrow> string" where
  "accumulationDedupKey l ev acc wk wallet marketID token side severity =
     (if wk = WindowKindLifetime
      then ''accumulation:'' @ dt_StrategyVersion (lp_cfg l) @ '':lifetime:'' @ wallet @ '':'' @ fmt_d marketID @
           '':'' @ token @ '':'' @ side @ '':'' @ severity
      else
        (let bucket = ac_Cooldown (ad_cfg acc);
             bucket = (if bucket \<le> 0 then 30 * Minute else bucket)
         in ''accumulation:'' @ dt_StrategyVersion (lp_cfg l) @ '':recent:'' @ wallet @ '':'' @ fmt_d marketID @
            '':'' @ token @ '':'' @ side @ '':'' @ fmt_d (truncate_unix (ev_now ev) bucket)))"

definition ownershipDedupKey :: "Loop \<Rightarrow> string \<Rightarrow> int \<Rightarrow> string \<Rightarrow> Severity \<Rightarrow> string" where
  "ownershipDedupKey l wallet marketID token severity =
     ''ownership:'' @ dt_StrategyVersion (lp_cfg l) @ '':'' @ wallet @ '':'' @ fmt_d marketID @ '':'' @ token @
     '':'' @ severity"

subsection \<open>Reads\<close>

definition readBaseline :: "Loop \<Rightarrow> dt_Env \<Rightarrow> Key \<Rightarrow> float64 \<Rightarrow> time \<Rightarrow> Loop \<times> (string + Stats)" where
  "readBaseline l ev k notional tm =
     (case ev_Baseliner ev of
        Some get \<Rightarrow> (l, get k)
      | None \<Rightarrow>
          (case bl_Stats (lp_baseline l) (ev_now ev) k of
             (b, stats) \<Rightarrow> (l\<lparr>lp_baseline := bl_Add b k notional tm\<rparr>, Inr stats)))"

definition readTraderBaseline :: "dt_Env \<Rightarrow> string \<Rightarrow> Stats" where
  "readTraderBaseline ev wallet =
     (case ev_TraderBaseliner ev of None \<Rightarrow> no_stats
      | Some get \<Rightarrow> if wallet = '''' then no_stats
          else (case get wallet of Inl e \<Rightarrow> no_stats | Inr s \<Rightarrow> s))"

definition marketHistoryStats :: "Loop \<Rightarrow> dt_Env \<Rightarrow> Key \<Rightarrow> Loop \<times> Stats" where
  "marketHistoryStats l ev k =
     (case ev_Baseliner ev of
        Some get \<Rightarrow> (case get k of Inl e \<Rightarrow> (l, no_stats) | Inr s \<Rightarrow> (l, s))
      | None \<Rightarrow> (case bl_Stats (lp_baseline l) (ev_now ev) k of
                  (b, s) \<Rightarrow> (l\<lparr>lp_baseline := b\<rparr>, s)))"

subsection \<open>Context boosters\<close>

definition newWalletRef :: "Loop \<Rightarrow> dt_Env \<Rightarrow> string \<Rightarrow> int \<Rightarrow> NewWalletRef option" where
  "newWalletRef l ev wallet historyTrades =
     (let c = dt_NewWallet (lp_cfg l)
      in if \<not> wc_Enabled c then None
         else case ev_Traders ev of None \<Rightarrow> None
         | Some get \<Rightarrow> if wallet = '''' then None
             else case get wallet of Inl e \<Rightarrow> None
             | Inr tr \<Rightarrow>
                 (let age = t_sub (ev_now ev) (tr_FirstSeenAt tr);
                      ageGate = (0 < wc_MaxAge c \<and> age \<le> wc_MaxAge c);
                      historyGate = (0 < wc_MaxHistoryTrades c \<and> historyTrades \<le> wc_MaxHistoryTrades c)
                  in if \<not> ageGate \<and> \<not> historyGate then None
                     else Some \<lparr>nw_FirstSeenAt = tr_FirstSeenAt tr, nw_AgeAtTrade = age,
                                nw_HistoryTrades = historyTrades, nw_IsNew = True\<rparr>))"

definition dormantWalletRef :: "Loop \<Rightarrow> dt_Env \<Rightarrow> string \<Rightarrow> float64 \<Rightarrow> time \<Rightarrow> NewWalletRef option
    \<Rightarrow> DormantWalletRef option" where
  "dormantWalletRef l ev wallet notionalUSD tradedAt nw =
     (let c = dt_DormantWallet (lp_cfg l)
      in if \<not> dd_Enabled c then None
         else case ev_TraderActivity ev of None \<Rightarrow> None
         | Some lastSeen \<Rightarrow>
             if wallet = '''' then None
             else if (case nw of None \<Rightarrow> False | Some r \<Rightarrow> nw_IsNew r) then None
             else if 0 < dd_MinNotionalUSD c \<and> notionalUSD < dd_MinNotionalUSD c then None
             else case resolveTraderID ev wallet of None \<Rightarrow> None
             | Some tid \<Rightarrow>
                 case lastSeen tid tradedAt of Inl e \<Rightarrow> None
                 | Inr ls \<Rightarrow>
                     if IsZero ls then None
                     else let idle = t_sub tradedAt ls
                          in if 0 < dd_MinIdle c \<and> idle < dd_MinIdle c then None
                             else Some \<lparr>dw_LastSeenAt = ls, dw_IdleDuration = idle\<rparr>)"

definition ownershipFusionRef :: "dt_Env \<Rightarrow> string \<Rightarrow> string \<Rightarrow> string \<Rightarrow> float64 \<Rightarrow> OwnershipRef option" where
  "ownershipFusionRef ev wallet mid token priceHint =
     (case ev_OwnershipShares ev of None \<Rightarrow> None
      | Some get \<Rightarrow>
          if wallet = '''' then None
          else case resolveTraderID ev wallet of None \<Rightarrow> None
          | Some tid \<Rightarrow>
              case resolveMarketID ev mid of None \<Rightarrow> None
              | Some dbMID \<Rightarrow>
                  case get tid dbMID token of Inl e \<Rightarrow> None
                  | Inr row \<Rightarrow>
                      let net = ws_WalletBuyShares row - ws_WalletSellShares row
                      in if net \<le> 0 \<or> ws_MarketBuyShares row \<le> 0 then None
                         else let pct = fl 100 * net / ws_MarketBuyShares row
                              in if pct \<le> 0 then None
                                 else Some \<lparr>or_Wallet = wallet, or_MarketID = mid, or_OutcomeToken = token,
                                        or_Outcome = '''', or_SharePct = pct, or_WalletNetShares = net,
                                        or_MarketTotalShares = ws_MarketBuyShares row,
                                        or_NotionalUSD = net * priceHint, or_Approximate = True\<rparr>)"

definition stampQuietMarket :: "Loop \<Rightarrow> dt_Env \<Rightarrow> Finding \<Rightarrow> Market \<Rightarrow> Key \<Rightarrow> Stats \<Rightarrow> float64 \<Rightarrow> time \<Rightarrow> Finding" where
  "stampQuietMarket l ev f m bk hist currentNotionalUSD currentAt =
     (case dt_QuietMarket (lp_cfg l) of None \<Rightarrow> f
      | Some qm \<Rightarrow>
          (let lastBefore = (case ev_LastTrade ev of None \<Rightarrow> zero_time
                 | Some get \<Rightarrow> (case resolveMarketID ev (mk_ID m) of None \<Rightarrow> zero_time
                     | Some mid \<Rightarrow> (case get mid (ky_OutcomeToken bk) currentAt of
                                      Inl e \<Rightarrow> zero_time | Inr t \<Rightarrow> t)));
               v = qm_Decide qm
                     \<lparr>qh_SampleCount = st_Count hist, qh_TotalNotionalUSD = st_TotalUSD hist, qh_Span = st_SpanActual hist,
                      qh_MarketMedianUSD = st_MedianUSD hist, qh_LastTradedAt = lastBefore\<rparr>
                     \<lparr>qe_NotionalUSD = currentNotionalUSD, qe_At = currentAt\<rparr>
           in if \<not> qv_Qualifies v then f
              else f\<lparr>fi_QuietMarket := Some \<lparr>qr_TradesPerDay = qv_TradesPerDay v,
                       qr_NotionalPerDayUSD = qv_NotionalPerDayUSD v, qr_IdleDuration = qv_IdleDuration v,
                       qr_BaselineSpan = qv_BaselineSpan v\<rparr>,
                     fi_Reasons := fi_Reasons f @ [qv_Reason v]\<rparr>))"

definition add_reason :: "bool \<Rightarrow> string \<Rightarrow> Finding \<Rightarrow> Finding" where
  "add_reason c r f = (if c then f\<lparr>fi_Reasons := fi_Reasons f @ [r]\<rparr> else f)"

text \<open>The new-wallet booster of a finding; the alert kind's own reason code is an argument.\<close>

definition stampNewWallet :: "Loop \<Rightarrow> dt_Env \<Rightarrow> string \<Rightarrow> string \<Rightarrow> Stats \<Rightarrow> Finding \<Rightarrow> Finding" where
  "stampNewWallet l ev wallet reason traderStats f =
     (case newWalletRef l ev wallet (st_Count traderStats) of None \<Rightarrow> f
      | Some nw \<Rightarrow>
          (let f = add_reason True reason (f\<lparr>fi_NewWallet := Some nw\<rparr>);
               lim = wc_MaxHistoryTrades (dt_NewWallet (lp_cfg l))
           in add_reason (0 < lim \<and> st_Count traderStats \<le> lim) ReasonLowTraderHistory f))"

definition stampDormant :: "Loop \<Rightarrow> dt_Env \<Rightarrow> TradeRef \<Rightarrow> time \<Rightarrow> Finding \<Rightarrow> Finding" where
  "stampDormant l ev ref tm f =
     (case dormantWalletRef l ev (tf_Wallet ref) (tf_NotionalUSD ref) tm (fi_NewWallet f) of None \<Rightarrow> f
      | Some dw \<Rightarrow> add_reason True ReasonDormantWalletRevival (f\<lparr>fi_DormantWallet := Some dw\<rparr>))"

definition stampOwnership :: "dt_Env \<Rightarrow> string \<Rightarrow> string \<Rightarrow> string \<Rightarrow> float64 \<Rightarrow> Finding \<Rightarrow> Finding" where
  "stampOwnership ev wallet mid token price f =
     (case ownershipFusionRef ev wallet mid token price of None \<Rightarrow> f
      | Some r \<Rightarrow>
          (let f = f\<lparr>fi_Ownership := Some r,
                     fi_Reasons := fi_Reasons f @ [ReasonOwnershipFusion, ReasonMarketOwnershipConcentration]\<rparr>
           in add_reason (or_Approximate r) ''APPROXIMATE_OWNERSHIP'' f))"

subsection \<open>The dedup gate\<close>

text \<open>
  \<open>persistAlert\<close>: with no alert table wired every finding passes; otherwise the concentration gate
  (when gate and history are wired) and the payload encoding come first, then the insert, and only
  a row that was newly created passes.
\<close>

definition persistAlert :: "Loop \<Rightarrow> dt_Env \<Rightarrow> string \<Rightarrow> string \<Rightarrow> Market \<Rightarrow> Trade \<Rightarrow> Finding \<Rightarrow> Loop \<times> bool" where
  "persistAlert l ev kind dedupKey m t f =
     (if \<not> dt_Alerts (lp_cfg l) then (l, True)
      else if dt_Concentration (lp_cfg l) \<noteq> None \<and> ev_ConcentrationHistory ev \<noteq> None \<and>
         \<not> de_Allow (cg_Evaluate (dt_Concentration (lp_cfg l)) (ev_now ev)
              \<lparr>cn_EventSlug = mk_EventSlug m, cn_Wallet = td_Taker t, cn_NotionalUSD = NotionalUSD t,
               cn_Severity = fi_Severity f, cn_Now = td_Timestamp t\<rparr> (ev_ConcentrationHistory ev))
      then (l, False)
      else case ev_Marshal ev f of
        Inl e \<Rightarrow> (l, False)
      | Inr payload \<Rightarrow>
          (let row = \<lparr>na_DedupKey = dedupKey, na_StrategyVersion = dt_StrategyVersion (lp_cfg l), na_Kind = kind,
                      na_Reason = fi_Reason f, na_Severity = fi_Severity f,
                      na_MarketID = resolveMarketID ev (mk_ID m), na_TraderID = resolveTraderID ev (td_Taker t),
                      na_TradeID = None, na_Payload = payload\<rparr>
           in case ev_Insert ev row of
                Some e \<Rightarrow> (l, False)
              | None \<Rightarrow>
                  (case TryCreatePending (ev_now ev) row (lp_db l) of
                     (db, Some r) \<Rightarrow> (l\<lparr>lp_db := db, lp_out := lp_out l @ [Created row]\<rparr>, True)
                   | (db, None) \<Rightarrow> (l\<lparr>lp_db := db\<rparr>, False))))"

definition notify :: "Loop \<Rightarrow> Finding \<Rightarrow> Loop" where
  "notify l f = l\<lparr>lp_out := lp_out l @ [Notified f]\<rparr>"

definition recordShadow :: "Loop \<Rightarrow> Finding \<Rightarrow> string \<Rightarrow> Loop" where
  "recordShadow l f dedup = l\<lparr>lp_out := lp_out l @ [Shadowed f dedup]\<rparr>"

subsection \<open>Emitting a single-trade alert\<close>

definition scope_label :: "CategoryRef \<Rightarrow> Market \<Rightarrow> string \<Rightarrow> string" where
  "scope_label catRef m outcome =
     ''category='' @ nonEmpty (cf_Label catRef) ''uncategorised'' @ '' market='' @ mk_Slug m @
     '' outcome='' @ nonEmpty outcome ''?''"

text \<open>The finding before the boosters.\<close>

definition tradeFinding :: "Loop \<Rightarrow> dt_Env \<Rightarrow> Market \<Rightarrow> Trade \<Rightarrow> CategoryRef \<Rightarrow> Stats \<Rightarrow> Stats \<Rightarrow> sc_Result \<Rightarrow> TradeRef
    \<Rightarrow> float64 \<Rightarrow> bool \<Rightarrow> int \<Rightarrow> Finding" where
  "tradeFinding l ev m t catRef stats traderStats sr ref lifecyclePct hot peerCount =
     zero_finding\<lparr>fi_Kind := KindTradeAnomaly, fi_Severity := rs_Severity sr, fi_At := ev_now ev,
       fi_Reason := ReasonSingle, fi_Trade := Some ref, fi_Category := Some catRef,
       fi_Baseline := Some \<lparr>bf_Scope = scope_label catRef m (tf_Outcome ref), bf_MedianUSD = st_MedianUSD stats,
          bf_MeanUSD = st_MeanUSD stats, bf_P95USD = st_P95USD stats, bf_P99USD = st_P99USD stats,
          bf_SampleN = st_Count stats, bf_Span = st_SpanActual stats,
          bf_WindowMax = bc_Window (dt_Baseline (lp_cfg l))\<rparr>,
       fi_TraderBaseline := (if 0 < st_Count traderStats
          then Some \<lparr>bf_Scope = ''trader='' @ tf_Wallet ref, bf_MedianUSD = st_MedianUSD traderStats,
             bf_MeanUSD = st_MeanUSD traderStats, bf_P95USD = st_P95USD traderStats,
             bf_P99USD = st_P99USD traderStats, bf_SampleN = st_Count traderStats,
             bf_Span = st_SpanActual traderStats, bf_WindowMax = 0\<rparr> else None),
       fi_GrossPayoutIfWinUSD := rs_GrossPayoutIfWinUSD sr, fi_ProfitIfWinUSD := rs_ProfitIfWinUSD sr,
       fi_MarketP95Ratio := rs_MarketP95Ratio sr, fi_MarketP99Ratio := rs_MarketP99Ratio sr,
       fi_TraderP95Ratio := rs_TraderP95Ratio sr, fi_TraderP99Ratio := rs_TraderP99Ratio sr,
       fi_PayoffGatePassed := rs_PayoffGatePassed sr, fi_TailGatePassed := rs_TailGatePassed sr,
       fi_LowMarketBaselineConfidence := rs_LowMarketBaselineConfidence sr,
       fi_LowTraderBaselineConfidence := rs_LowTraderBaselineConfidence sr,
       fi_SeverityCapped := rs_SeverityCapped sr, fi_LifecyclePct := lifecyclePct, fi_Hot := hot,
       fi_InCluster := (2 \<le> peerCount), fi_ClusterPeerCount := peerCount,
       fi_MarketURL := marketURL l ev m, fi_CategoryURL := categoryURL l ev catRef,
       fi_TraderURL := traderURL l ev (tf_Wallet ref),
       fi_GrafanaURL := grafanaURL l ev catRef (mk_Slug m) (td_Timestamp t) (rs_Severity sr)\<rparr>"

definition lowBaselineReasons :: "sc_Result \<Rightarrow> Finding \<Rightarrow> Finding" where
  "lowBaselineReasons sr f =
     add_reason (rs_SeverityCapped sr) ReasonSeverityCappedLowBaseline
       (add_reason (rs_LowTraderBaselineConfidence sr) ReasonLowTraderBaselineConfidence
         (add_reason (rs_LowMarketBaselineConfidence sr) ReasonLowMarketBaselineConfidence f))"

text \<open>A finding that passes the dedup gate goes to the realtime sinks and to the shadow hook.\<close>

definition deliver :: "Loop \<times> bool \<Rightarrow> Finding \<Rightarrow> string \<Rightarrow> Loop" where
  "deliver lb f dedup = (if snd lb then recordShadow (notify (fst lb) f) f dedup else fst lb)"

definition emitTradeAnomaly :: "Loop \<Rightarrow> dt_Env \<Rightarrow> Market \<Rightarrow> Trade \<Rightarrow> int \<Rightarrow> Stats \<Rightarrow> Stats \<Rightarrow> sc_Result \<Rightarrow> TradeRef
    \<Rightarrow> float64 \<Rightarrow> bool \<Rightarrow> Loop" where
  "emitTradeAnomaly l ev m t cat stats traderStats sr ref lifecyclePct hot =
     (let catRef = categoryRef l cat;
          (cluster, peerCount) = cl_Count (lp_cluster l) (ev_now ev) cat;
          l = l\<lparr>lp_cluster := cluster\<rparr>;
          suppress = (case ev_MMFilter ev of None \<Rightarrow> False
             | Some decide \<Rightarrow> tf_Wallet ref \<noteq> '''' \<and>
                 mv_Suppress (fst (decide (tf_Wallet ref)
                    (case resolveMarketID ev (mk_ID m) of None \<Rightarrow> 0 | Some mid \<Rightarrow> mid) (td_Token t))))
      in if suppress then l
         else
           (let f = tradeFinding l ev m t catRef stats traderStats sr ref lifecyclePct hot peerCount;
                f = stampQuietMarket l ev f m \<lparr>ky_Category = cat, ky_Market = mk_ID m, ky_OutcomeToken = td_Token t\<rparr>
                      stats (tf_NotionalUSD ref) (td_Timestamp t);
                f = stampNewWallet l ev (tf_Wallet ref) ReasonNewWalletLargeBet traderStats f;
                f = stampDormant l ev ref (td_Timestamp t) f;
                f = stampOwnership ev (tf_Wallet ref) (mk_ID m) (td_Token t) (td_Price t) f;
                f = lowBaselineReasons sr f;
                dedup = singleTradeDedupKey l ev m t;
                f = f\<lparr>fi_DedupKey := dedup\<rparr>
            in deliver (persistAlert l ev KindTradeAnomaly dedup m t f) f dedup))"

subsection \<open>Emitting a category watch\<close>

definition watchFinding :: "Loop \<Rightarrow> dt_Env \<Rightarrow> Market \<Rightarrow> Trade \<Rightarrow> int \<Rightarrow> ClusterStats \<Rightarrow> Finding" where
  "watchFinding l ev m t cat cs =
     (let catRef = categoryRef l cat
      in zero_finding\<lparr>fi_Kind := KindCategoryWatch, fi_Severity := SeverityHard, fi_At := ev_now ev,
           fi_Reason := ReasonCluster, fi_Category := Some catRef, fi_Cluster := Some cs,
           fi_MarketURL := marketURL l ev m, fi_CategoryURL := categoryURL l ev catRef,
           fi_GrafanaURL := grafanaURL l ev catRef '''' (td_Timestamp t) SeverityHard,
           fi_DedupKey := clusterDedupKey l ev cat\<rparr>)"

definition emitCategoryWatch :: "Loop \<Rightarrow> dt_Env \<Rightarrow> Market \<Rightarrow> Trade \<Rightarrow> int \<Rightarrow> ClusterStats \<Rightarrow> Loop" where
  "emitCategoryWatch l ev m t cat cs =
     (let f = watchFinding l ev m t cat cs
      in case persistAlert l ev KindCategoryWatch (clusterDedupKey l ev cat) m t f of
           (l, created) \<Rightarrow> if \<not> created then l else notify l f)"

subsection \<open>Ownership\<close>

definition ownershipFinding :: "Loop \<Rightarrow> dt_Env \<Rightarrow> Market \<Rightarrow> Trade \<Rightarrow> int \<Rightarrow> int \<Rightarrow> OwnershipShares \<Rightarrow> ow_Verdict \<Rightarrow> Finding" where
  "ownershipFinding l ev m t marketID cat row v =
     (let catRef = categoryRef l cat
      in zero_finding\<lparr>fi_Kind := KindOwnership, fi_Severity := ov_Severity v, fi_At := ev_now ev,
           fi_Reason := ReasonOwnership,
           fi_Trade := Some \<lparr>tf_ID = td_ID t, tf_TxHash = '''', tf_Wallet = td_Taker t, tf_Market = mk_ID m,
              tf_Slug = mk_Slug m, tf_Question = mk_Question m, tf_Outcome = OutcomeLabel m (td_Token t),
              tf_Side = td_Side t, tf_SizeShares = td_Size t, tf_Price = td_Price t, tf_Odds = 0,
              tf_NotionalUSD = ov_NotionalUSD v, tf_At = td_Timestamp t\<rparr>,
           fi_Category := Some catRef,
           fi_Ownership := Some \<lparr>or_Wallet = td_Taker t, or_MarketID = mk_ID m, or_OutcomeToken = td_Token t,
              or_Outcome = OutcomeLabel m (td_Token t), or_SharePct = ov_SharePct v,
              or_WalletNetShares = ov_NetShares v, or_MarketTotalShares = ws_MarketBuyShares row,
              or_NotionalUSD = ov_NotionalUSD v, or_Approximate = True\<rparr>,
           fi_Reasons := ov_Reasons v, fi_MarketURL := marketURL l ev m,
           fi_CategoryURL := categoryURL l ev catRef, fi_TraderURL := traderURL l ev (td_Taker t),
           fi_GrafanaURL := grafanaURL l ev catRef (mk_Slug m) (td_Timestamp t) (ov_Severity v),
           fi_DedupKey := ownershipDedupKey l (td_Taker t) marketID (td_Token t) (ov_Severity v)\<rparr>)"

definition evaluateOwnership :: "Loop \<Rightarrow> dt_Env \<Rightarrow> Market \<Rightarrow> Trade \<Rightarrow> int \<Rightarrow> int \<Rightarrow> int \<Rightarrow> float64 \<Rightarrow> Loop" where
  "evaluateOwnership l ev m t traderID marketID cat priceHint =
     (case (dt_Ownership (lp_cfg l), ev_OwnershipShares ev) of
        (Some det, Some get) \<Rightarrow>
          (case get traderID marketID (td_Token t) of
             Inl e \<Rightarrow> l
           | Inr row \<Rightarrow>
               (let v = ow_Decide det \<lparr>sh_WalletBuyShares = ws_WalletBuyShares row,
                          sh_WalletSellShares = ws_WalletSellShares row,
                          sh_MarketBuyShares = ws_MarketBuyShares row, sh_PriceHint = priceHint\<rparr>
                in if \<not> ov_Fired v then l
                   else
                     (let f = ownershipFinding l ev m t marketID cat row v
                      in deliver (persistAlert l ev KindOwnership (fi_DedupKey f) m t f) f (fi_DedupKey f))))
      | _ \<Rightarrow> l)"

subsection \<open>Accumulation\<close>

definition accumulationLine :: "Market \<Rightarrow> Trade \<Rightarrow> AccumulationLine \<Rightarrow> Stats \<Rightarrow> Stats \<Rightarrow> float64 \<Rightarrow> bool \<Rightarrow> string \<Rightarrow> Line" where
  "accumulationLine m t rep marketStats traderStats lifecyclePct hot wk =
     \<lparr>ln_Wallet = td_Taker t, ln_MarketID = mk_ID m, ln_OutcomeToken = td_Token t, ln_Side = td_Side t,
      ln_Window = wk, ln_TradeCount = al_TradeCount rep, ln_TotalNotionalUSD = al_TotalNotionalUSD rep,
      ln_MeanNotionalUSD = al_MeanNotionalUSD rep, ln_MedianNotionalUSD = al_MedianNotionalUSD rep,
      ln_MaxNotionalUSD = al_MaxNotionalUSD rep, ln_MinNotionalUSD = al_MinNotionalUSD rep,
      ln_AvgOdds = rep_AvgOdds rep, ln_MaxOdds = rep_MaxOdds rep, ln_OldestAt = al_OldestAt rep,
      ln_NewestAt = al_NewestAt rep, ln_MarketMedianUSD = st_MedianUSD marketStats,
      ln_MarketP95USD = st_P95USD marketStats, ln_TraderMedianUSD = st_MedianUSD traderStats,
      ln_TraderP95USD = st_P95USD traderStats, ln_LifecyclePct = lifecyclePct, ln_Hot = hot\<rparr>"

definition accumulationFinding :: "Loop \<Rightarrow> dt_Env \<Rightarrow> Market \<Rightarrow> Trade \<Rightarrow> int \<Rightarrow> Line \<Rightarrow> AccumulationLine \<Rightarrow> ac_Verdict
    \<Rightarrow> Stats \<Rightarrow> Finding" where
  "accumulationFinding l ev m t cat line rep v traderStats =
     (let catRef = categoryRef l cat; outcome = OutcomeLabel m (td_Token t)
      in zero_finding\<lparr>fi_Kind := KindAccumulation, fi_Severity := av_Severity v, fi_At := ev_now ev,
           fi_Reason := ReasonAccumulation,
           fi_Trade := Some \<lparr>tf_ID = td_ID t, tf_TxHash = td_TxHash t, tf_Wallet = td_Taker t, tf_Market = mk_ID m,
              tf_Slug = mk_Slug m, tf_Question = mk_Question m, tf_Outcome = outcome, tf_Side = td_Side t,
              tf_SizeShares = td_Size t, tf_Price = td_Price t, tf_Odds = ln_MaxOdds line,
              tf_NotionalUSD = al_TotalNotionalUSD rep, tf_At = td_Timestamp t\<rparr>,
           fi_Category := Some catRef,
           fi_Accumulation := Some \<lparr>ar_Wallet = td_Taker t, ar_MarketID = mk_ID m, ar_OutcomeToken = td_Token t,
              ar_Outcome = outcome, ar_Side = td_Side t, ar_TradeCount = al_TradeCount rep,
              ar_TotalNotionalUSD = al_TotalNotionalUSD rep, ar_MeanNotionalUSD = al_MeanNotionalUSD rep,
              ar_MedianNotionalUSD = al_MedianNotionalUSD rep, ar_MaxNotionalUSD = al_MaxNotionalUSD rep,
              ar_AvgOdds = ln_AvgOdds line, ar_MaxOdds = ln_MaxOdds line, ar_Span = rep_Span rep,
              ar_MarketMultiplier = av_LineMarketMultiplier v, ar_TraderMultiplier = av_LineTraderMultiplier v,
              ar_Score = av_Score v, ar_Confidence = av_Confidence v, ar_Reasons = av_Reasons v,
              ar_SizePath = av_SizePath v, ar_Window = ln_Window line\<rparr>,
           fi_Baseline := Some (zero_baseline_ref\<lparr>bf_Scope := scope_label catRef m outcome,
              bf_MedianUSD := ln_MarketMedianUSD line, bf_P95USD := ln_MarketP95USD line\<rparr>),
           fi_TraderBaseline := (if 0 < st_Count traderStats
              then Some (zero_baseline_ref\<lparr>bf_Scope := ''trader='' @ td_Taker t, bf_MedianUSD := st_MedianUSD traderStats,
                 bf_MeanUSD := st_MeanUSD traderStats, bf_P95USD := st_P95USD traderStats,
                 bf_SampleN := st_Count traderStats, bf_Span := st_SpanActual traderStats\<rparr>) else None),
           fi_LifecyclePct := ln_LifecyclePct line, fi_Hot := ln_Hot line, fi_MarketURL := marketURL l ev m,
           fi_CategoryURL := categoryURL l ev catRef, fi_TraderURL := traderURL l ev (td_Taker t),
           fi_GrafanaURL := grafanaURL l ev catRef (mk_Slug m) (td_Timestamp t) (av_Severity v)\<rparr>)"

text \<open>The reporting category: the first one the whitelist lets through, 0 when there is none.\<close>

fun firstAllowed :: "Loop \<Rightarrow> int list \<Rightarrow> int" where
  "firstAllowed l [] = 0"
| "firstAllowed l (c # cs) = (if dt_allowed l c then c else firstAllowed l cs)"

text \<open>The part after a verdict that fired and was not suppressed.\<close>

definition emitAccumulation :: "Loop \<Rightarrow> dt_Env \<Rightarrow> ac_Detector \<Rightarrow> Market \<Rightarrow> Trade \<Rightarrow> int \<Rightarrow> int \<Rightarrow> int \<Rightarrow> Line
    \<Rightarrow> AccumulationLine \<Rightarrow> ac_Verdict \<Rightarrow> Stats \<Rightarrow> string \<Rightarrow> Loop" where
  "emitAccumulation l ev acc m t tid mid cat line rep v traderStats wk =
     (let bk = \<lparr>ky_Category = cat, ky_Market = mk_ID m, ky_OutcomeToken = td_Token t\<rparr>;
          f = accumulationFinding l ev m t cat line rep v traderStats;
          (l, hist) = marketHistoryStats l ev bk;
          hist = (if st_Count hist = 0
                  then no_stats\<lparr>st_Count := al_TradeCount rep, st_MedianUSD := ln_MarketMedianUSD line,
                                st_SpanActual := rep_Span rep\<rparr> else hist);
          f = stampQuietMarket l ev f m bk hist (al_TotalNotionalUSD rep) (al_OldestAt rep);
          f = add_reason (wk = WindowKindLifetime) ReasonLifetimeAccumulation f;
          f = add_reason (wk = WindowKindRecent) ReasonRecentAccumulation f;
          f = stampNewWallet l ev (td_Taker t) ReasonNewWalletAccumulation traderStats f;
          dedup = accumulationDedupKey l ev acc wk (td_Taker t) mid (td_Token t) (td_Side t) (av_Severity v);
          f = f\<lparr>fi_DedupKey := dedup\<rparr>
      in case persistAlert l ev KindAccumulation dedup m t f of
           (l, created) \<Rightarrow>
             if \<not> created then l
             else
               (let l = recordShadow (notify l f) f dedup
                in if wk = WindowKindRecent then evaluateOwnership l ev m t tid mid cat (td_Price t) else l))"

definition evaluateAccumulationWindow :: "Loop \<Rightarrow> dt_Env \<Rightarrow> Market \<Rightarrow> Trade \<Rightarrow> int list \<Rightarrow> Stats \<Rightarrow> float64 \<Rightarrow> bool
    \<Rightarrow> string \<Rightarrow> Loop" where
  "evaluateAccumulationWindow l ev m t categories traderStats lifecyclePct hot wk =
     (case (dt_Accumulator (lp_cfg l), ev_AccumulationLines ev) of
        (Some acc, Some getLine) \<Rightarrow>
          if td_Taker t = '''' \<or> td_Token t = '''' then l
          else (case resolveTraderID ev (td_Taker t) of None \<Rightarrow> l
          | Some tid \<Rightarrow>
          (case resolveMarketID ev (mk_ID m) of None \<Rightarrow> l
          | Some mid \<Rightarrow>
              (let cat = firstAllowed l categories
               in if cat = 0 \<and> 0 < length categories then l
                  else case getLine \<lparr>aq_TraderID = tid, aq_MarketID = mid, aq_OutcomeToken = td_Token t,
                               aq_Side = td_Side t,
                               aq_Since = (if wk = WindowKindRecent then ev_now ev - ac_Window (ad_cfg acc)
                                           else zero_time)\<rparr> of
                    Inl e \<Rightarrow> l
                  | Inr rep \<Rightarrow>
                      if al_TradeCount rep = 0 then l
                      else
                        (let bk = \<lparr>ky_Category = cat, ky_Market = mk_ID m, ky_OutcomeToken = td_Token t\<rparr>;
                             (l, marketStats) = marketHistoryStats l ev bk;
                             line = accumulationLine m t rep marketStats traderStats lifecyclePct hot wk;
                             v = ac_Decide acc line
                         in if \<not> av_Fired v then l
                            else if (case ev_MMFilter ev of None \<Rightarrow> False
                                     | Some decide \<Rightarrow> mv_Suppress (fst (decide (td_Taker t) mid (td_Token t)))) then l
                            else emitAccumulation l ev acc m t tid mid cat line rep v traderStats wk))))
      | _ \<Rightarrow> l)"

subsection \<open>Observe\<close>

text \<open>The best category so far of one trade, with the statistics it was scored against.\<close>

record best =
  be_cat :: int
  be_stats :: Stats
  be_result :: sc_Result
  be_ref :: TradeRef

definition alert_gate :: "Loop \<Rightarrow> dt_Env \<Rightarrow> Market \<Rightarrow> Trade \<Rightarrow> bool" where
  "alert_gate l ev m t =
     (let (lifecyclePct, lifecycleKnown) = LifecyclePct m (td_Timestamp t);
          gateAllowsAlert = True;
          gateAllowsAlert = (if \<not> lifecycleKnown then False else gateAllowsAlert);
          gateAllowsAlert = (if lifecycleKnown \<and> lifecyclePct < dt_LifecycleAlertFromPct (lp_cfg l)
                             then False else gateAllowsAlert);
          gateAllowsAlert = (if 0 < dt_MarketMinAge (lp_cfg l) \<and> \<not> IsZero (mk_StartDate m) \<and>
                                t_sub (ev_now ev) (mk_StartDate m) < dt_MarketMinAge (lp_cfg l)
                             then False else gateAllowsAlert)
      in gateAllowsAlert)"

text \<open>The statistics handed to the scorer: an axis that is not ready is masked.\<close>

definition market_axis :: "Loop \<Rightarrow> Stats \<Rightarrow> Stats" where
  "market_axis l stats =
     (if 0 < dt_BaselineMinReadySpan (lp_cfg l) \<and> st_SpanActual stats < dt_BaselineMinReadySpan (lp_cfg l)
      then no_stats else stats)"

definition trader_axis :: "Loop \<Rightarrow> Stats \<Rightarrow> Stats" where
  "trader_axis l stats =
     (if 0 < dt_MinTraderHistoryTrades (lp_cfg l) \<and> st_Count stats < dt_MinTraderHistoryTrades (lp_cfg l)
      then no_stats else stats)"

definition better :: "best option \<Rightarrow> best \<Rightarrow> best option" where
  "better bst b =
     (case bst of None \<Rightarrow> Some b
      | Some b0 \<Rightarrow>
          if MaxSeverity (rs_Severity (be_result b)) (rs_Severity (be_result b0)) = rs_Severity (be_result b)
          then Some b else Some b0)"

fun observe_cats :: "dt_Env \<Rightarrow> Market \<Rightarrow> Trade \<Rightarrow> float64 \<Rightarrow> Stats \<Rightarrow> bool \<Rightarrow> int list \<Rightarrow> Loop \<Rightarrow> best option
    \<Rightarrow> Loop \<times> best option" where
  "observe_cats ev m t notional traderStats gated [] l bst = (l, bst)"
| "observe_cats ev m t notional traderStats gated (cat # cats) l bst =
     (if \<not> dt_allowed l cat then observe_cats ev m t notional traderStats gated cats l bst
      else case readBaseline l ev \<lparr>ky_Category = cat, ky_Market = mk_ID m, ky_OutcomeToken = td_Token t\<rparr> notional
                  (td_Timestamp t) of
        (l, Inl e) \<Rightarrow> observe_cats ev m t notional traderStats gated cats l bst
      | (l, Inr stats) \<Rightarrow>
          if \<not> gated then observe_cats ev m t notional traderStats gated cats l bst
          else
            (let sr = Score notional (td_Price t) (market_axis l stats) (trader_axis l traderStats)
                        (dt_Thresholds (lp_cfg l))
             in if \<not> rs_Fired sr then observe_cats ev m t notional traderStats gated cats l bst
                else
                  (let ref = buildTradeRef m t notional;
                       (cluster, cs) = cl_Observe (lp_cluster l) (ev_now ev) cat ref;
                       l = l\<lparr>lp_cluster := cluster\<rparr>;
                       l = (case cs of None \<Rightarrow> l | Some c \<Rightarrow> emitCategoryWatch l ev m t cat c)
                   in observe_cats ev m t notional traderStats gated cats l
                        (better bst \<lparr>be_cat = cat, be_stats = stats, be_result = sr, be_ref = ref\<rparr>))))"

definition dt_Observe :: "Loop \<Rightarrow> dt_Env \<Rightarrow> Market \<Rightarrow> Trade \<Rightarrow> Loop" where
  "dt_Observe l ev m t =
     (if td_Size t \<le> 0 \<or> td_Price t \<le> 0 then l
      else let notional = NotionalUSD t
      in if notional \<le> 0 then l
      else if 0 < dt_LiveAlertMaxLag (lp_cfg l) \<and> \<not> IsZero (td_Timestamp t) \<and>
              dt_LiveAlertMaxLag (lp_cfg l) < t_sub (ev_now ev) (td_Timestamp t) then l
      else
        (let (lifecyclePct, lifecycleKnown) = LifecyclePct m (td_Timestamp t);
             hot = (lifecycleKnown \<and> dt_LifecycleHotFromPct (lp_cfg l) \<le> lifecyclePct);
             gated = alert_gate l ev m t;
             categories = (if mk_Categories m = [] then [0] else mk_Categories m);
             traderStats = readTraderBaseline ev (td_Taker t);
             (l, bst) = observe_cats ev m t notional traderStats gated categories l None;
             l = (case bst of None \<Rightarrow> l
                  | Some b \<Rightarrow> emitTradeAnomaly l ev m t (be_cat b) (be_stats b) traderStats (be_result b) (be_ref b)
                                lifecyclePct hot)
         in if gated
            then evaluateAccumulationWindow
                   (evaluateAccumulationWindow l ev m t categories traderStats lifecyclePct hot WindowKindRecent)
                   ev m t categories traderStats lifecyclePct hot WindowKindLifetime
            else l))"

end
