(* ===== verification/DetectProps.thy ===== *)
theory DetectProps
  imports Detect
begin

text \<open>
  What the pipeline of Detect guarantees: which gates a finding has passed when it leaves the loop,
  that it leaves at most once per dedup key, which severity it carries, and what a market without
  categories cannot cause. The dedup gate is used through the interface \<open>alert_creator\<close>.
\<close>

subsection \<open>The dedup primitive as an interface\<close>

locale alert_creator =
  fixes create :: "time \<Rightarrow> NewAlert \<Rightarrow> 'db \<Rightarrow> 'db \<times> Alert option"
    and keys :: "'db \<Rightarrow> string set"
  assumes create_new: "create now a db = (db', Some r) \<Longrightarrow>
      na_DedupKey a \<notin> keys db \<and> keys db' = insert (na_DedupKey a) (keys db)"
    and create_old: "create now a db = (db', None) \<Longrightarrow> na_DedupKey a \<in> keys db \<and> keys db' = keys db"
begin

lemma create_keys: "keys (fst (create now a db)) = insert (na_DedupKey a) (keys db)"
  by (cases "snd (create now a db)"; cases "create now a db") (auto dest: create_new create_old)

lemma create_iff: "snd (create now a db) = None \<longleftrightarrow> na_DedupKey a \<in> keys db"
  by (cases "snd (create now a db)"; cases "create now a db") (auto dest: create_new create_old)

end

definition al_keys :: "AlertTable \<Rightarrow> string set" where
  "al_keys t = al_DedupKey ` set (at_rows t)"

interpretation pending: alert_creator TryCreatePending al_keys
  by unfold_locales (force simp: TryCreatePending_def al_keys_def Let_def split: if_splits)+

text \<open>What a row says: key, kind, severity and payload.\<close>

definition al_core :: "Alert \<Rightarrow> string \<times> string \<times> string \<times> string" where
  "al_core r = (al_DedupKey r, al_Kind r, al_Severity r, al_Payload r)"

definition na_core :: "NewAlert \<Rightarrow> string \<times> string \<times> string \<times> string" where
  "na_core a = (na_DedupKey a, na_Kind a, na_Severity a, na_Payload a)"

definition al_cores :: "AlertTable \<Rightarrow> (string \<times> string \<times> string \<times> string) set" where
  "al_cores t = al_core ` set (at_rows t)"

lemma cores_create: "al_cores (fst (TryCreatePending now a db)) =
    (if snd (TryCreatePending now a db) = None then al_cores db else insert (na_core a) (al_cores db))"
  by (auto simp: TryCreatePending_def al_cores_def al_core_def na_core_def Let_def)

subsection \<open>What leaves the loop\<close>

fun created_keys :: "dt_event list \<Rightarrow> string list" where
  "created_keys [] = []"
| "created_keys (Created a # es) = na_DedupKey a # created_keys es"
| "created_keys (e # es) = created_keys es"

fun notified_keys :: "dt_event list \<Rightarrow> string list" where
  "notified_keys [] = []"
| "notified_keys (Notified f # es) = fi_DedupKey f # notified_keys es"
| "notified_keys (e # es) = notified_keys es"

lemma created_keys_append [simp]: "created_keys (xs @ ys) = created_keys xs @ created_keys ys"
  by (induction xs rule: created_keys.induct) auto

lemma notified_keys_append [simp]: "notified_keys (xs @ ys) = notified_keys xs @ notified_keys ys"
  by (induction xs rule: notified_keys.induct) auto

text \<open>The alert table changes by insertions only.\<close>

definition inserts :: "AlertTable \<Rightarrow> AlertTable \<Rightarrow> bool" where
  "inserts db db' \<longleftrightarrow> (\<exists>now a. db' = fst (TryCreatePending now a db))"

lemma inserts_step: "inserts\<^sup>*\<^sup>* db (fst (TryCreatePending now a db))"
  by (rule r_into_rtranclp) (auto simp: inserts_def)

definition created :: "dt_event list \<Rightarrow> NewAlert set" where
  "created es = {a. Created a \<in> set es}"

lemma created_simps [simp]: "created [] = {}" "created (es @ es') = created es \<union> created es'"
  "created (Created a # es) = insert a (created es)" "created (Notified f # es) = created es"
  "created (Shadowed f d # es) = created es"
  by (auto simp: created_def)

text \<open>An event about a finding with property \<open>Q\<close>.\<close>

fun about :: "(Finding \<Rightarrow> bool) \<Rightarrow> dt_event \<Rightarrow> bool" where
  "about Q (Created a) \<longleftrightarrow> (\<exists>f. Q f \<and> na_DedupKey a = fi_DedupKey f \<and> na_Kind a = fi_Kind f \<and> na_Severity a = fi_Severity f)"
| "about Q (Notified f) \<longleftrightarrow> Q f"
| "about Q (Shadowed f d) \<longleftrightarrow> Q f \<and> d = fi_DedupKey f"

lemma about_mono: "about Q e \<Longrightarrow> (\<And>f. Q f \<Longrightarrow> R f) \<Longrightarrow> about R e"
  by (cases e) auto

text \<open>
  \<open>emits Q l l'\<close>: on the way from \<open>l\<close> to \<open>l'\<close> only findings with property \<open>Q\<close> left the loop, each
  created key was new to the table and is in it now, and with a table wired the findings notified
  are those created; without one nothing is created.
\<close>

definition emitted :: "(Finding \<Rightarrow> bool) \<Rightarrow> bool \<Rightarrow> AlertTable \<Rightarrow> dt_event list \<Rightarrow> AlertTable \<Rightarrow> bool" where
  "emitted Q wired db es db' \<longleftrightarrow> list_all (about Q) es \<and> inserts\<^sup>*\<^sup>* db db' \<and>
     al_keys db' = al_keys db \<union> set (created_keys es) \<and> al_cores db' = al_cores db \<union> na_core ` created es \<and>
     distinct (created_keys es) \<and> set (created_keys es) \<inter> al_keys db = {} \<and>
     (if wired then notified_keys es = created_keys es else created_keys es = [])"

definition emits :: "(Finding \<Rightarrow> bool) \<Rightarrow> Loop \<Rightarrow> Loop \<Rightarrow> bool" where
  "emits Q l l' \<longleftrightarrow> lp_cfg l' = lp_cfg l \<and> lp_cache l' = lp_cache l \<and>
     (\<exists>es. lp_out l' = lp_out l @ es \<and> emitted Q (dt_Alerts (lp_cfg l)) (lp_db l) es (lp_db l'))"

lemma emitted_Nil: "emitted Q w db [] db"
  by (simp add: emitted_def)

lemma emitted_append:
  "emitted Q w db es db' \<Longrightarrow> emitted Q w db' es' db'' \<Longrightarrow> emitted Q w db (es @ es') db''"
  unfolding emitted_def by (auto simp: image_Un intro: rtranclp_trans split: if_splits)

lemma emitted_blocked: "TryCreatePending now a db = (db', None) \<Longrightarrow> emitted Q w db [] db'"
  using pending.create_keys [of now a db] pending.create_iff [of now a db] inserts_step [of db now a]
    cores_create [of now a db] by (simp add: emitted_def insert_absorb)

lemma emitted_created:
  "TryCreatePending now a db = (db', Some r) \<Longrightarrow> about Q (Created a) \<Longrightarrow> Q f \<Longrightarrow> fi_DedupKey f = na_DedupKey a \<Longrightarrow>
   emitted Q True db [Created a, Notified f] db'"
  using pending.create_keys [of now a db] pending.create_iff [of now a db] inserts_step [of db now a]
    cores_create [of now a db] by (simp add: emitted_def)

lemma emitted_mono: "emitted Q w db es db' \<Longrightarrow> (\<And>f. Q f \<Longrightarrow> R f) \<Longrightarrow> emitted R w db es db'"
  using about_mono [of Q _ R] by (simp add: emitted_def list_all_iff)

lemma emits_refl [simp]: "emits Q l l"
  by (simp add: emits_def emitted_Nil)

lemma emits_trans:
  assumes "emits Q l l'" "emits Q l' l''"
  shows "emits Q l l''"
proof -
  obtain es es' where c: "lp_cfg l' = lp_cfg l" "lp_cache l' = lp_cache l" "lp_cfg l'' = lp_cfg l'" "lp_cache l'' = lp_cache l'"
    and out: "lp_out l' = lp_out l @ es" "lp_out l'' = lp_out l' @ es'"
    and e: "emitted Q (dt_Alerts (lp_cfg l)) (lp_db l) es (lp_db l')" "emitted Q (dt_Alerts (lp_cfg l')) (lp_db l') es' (lp_db l'')"
    using assms unfolding emits_def by blast
  show ?thesis unfolding emits_def using c out emitted_append [OF e(1) e(2) [unfolded c(1)]]
    by (intro conjI exI [of _ "es @ es'"]) simp_all
qed

lemma emits_mono: "emits Q l l' \<Longrightarrow> (\<And>f. Q f \<Longrightarrow> R f) \<Longrightarrow> emits R l l'"
  unfolding emits_def using emitted_mono by blast

lemma emits_cfg: "emits Q l l' \<Longrightarrow> lp_cfg l' = lp_cfg l \<and> lp_cache l' = lp_cache l"
  by (simp add: emits_def)

lemma emits_state [simp]:
  "emits Q l (l\<lparr>lp_cluster := c\<rparr>)" "emits Q l (l\<lparr>lp_baseline := b\<rparr>)"
  by (simp_all add: emits_def emitted_Nil)

text \<open>The two shapes of the dedup gate: nothing leaves, or one row does.\<close>

lemma persistAlert_cases:
  obtains (blocked) db where "persistAlert l ev kind d m t f = (l\<lparr>lp_db := db\<rparr>, False)" "dt_Alerts (lp_cfg l)"
      "emitted Q True (lp_db l) [] db"
  | (created) db a r where "persistAlert l ev kind d m t f = (l\<lparr>lp_db := db, lp_out := lp_out l @ [Created a]\<rparr>, True)"
      "dt_Alerts (lp_cfg l)" "na_DedupKey a = d" "na_Kind a = kind" "na_Severity a = fi_Severity f"
      "TryCreatePending (ev_now ev) a (lp_db l) = (db, Some r)"
  | (unwired) "persistAlert l ev kind d m t f = (l, True)" "\<not> dt_Alerts (lp_cfg l)"
proof (cases "dt_Alerts (lp_cfg l)")
  case False
  then show thesis by (intro unwired) (simp_all add: persistAlert_def)
next
  case True
  have same: "l = l\<lparr>lp_db := lp_db l\<rparr>" by simp
  show thesis
  proof (cases "snd (persistAlert l ev kind d m t f)")
    case c: True
    then obtain payload where p: "ev_Marshal ev f = Inr payload"
      using True by (auto simp: persistAlert_def split: if_splits sum.splits)
    let ?a = "\<lparr>na_DedupKey = d, na_StrategyVersion = dt_StrategyVersion (lp_cfg l), na_Kind = kind,
        na_Reason = fi_Reason f, na_Severity = fi_Severity f, na_MarketID = resolveMarketID ev (mk_ID m),
        na_TraderID = resolveTraderID ev (td_Taker t), na_TradeID = None, na_Payload = payload\<rparr>"
    obtain db r where tc: "TryCreatePending (ev_now ev) ?a (lp_db l) = (db, Some r)"
      using c True p by (auto simp: persistAlert_def Let_def split: if_splits option.splits prod.splits)
    have "persistAlert l ev kind d m t f = (l\<lparr>lp_db := db, lp_out := lp_out l @ [Created ?a]\<rparr>, True)"
      using c True p tc by (auto simp: persistAlert_def Let_def split: if_splits option.splits)
    then show thesis by (rule created) (use True tc in simp_all)
  next
    case False
    define lb where "lb = persistAlert l ev kind d m t f"
    have "(\<exists>db. lb = (l\<lparr>lp_db := db\<rparr>, False) \<and> emitted Q True (lp_db l) [] db)"
    proof (cases "lb = (l, False)")
      case True
      then show ?thesis using same emitted_Nil by metis
    next
      case n: False
      then obtain a db where "TryCreatePending (ev_now ev) a (lp_db l) = (db, None)" "lb = (l\<lparr>lp_db := db\<rparr>, False)"
        using False True unfolding lb_def persistAlert_def Let_def
        by (auto split: if_splits sum.splits option.splits prod.splits)
      then show ?thesis using emitted_blocked by blast
    qed
    then show thesis using blocked [OF _ True] unfolding lb_def by blast
  qed
qed

lemma emits_notified:
  assumes "Q f" "persistAlert l ev (fi_Kind f) (fi_DedupKey f) m t f = (l', b)"
  shows "emits Q l (if b then notify l' f else l')"
proof (cases rule: persistAlert_cases [of l ev "fi_Kind f" "fi_DedupKey f" m t f Q])
  case (blocked db)
  then show ?thesis using assms by (auto simp: emits_def)
next
  case (created db a r)
  have "about Q (Created a)" using created(3-5) assms(1) by (simp only: about.simps) blast
  then have "emitted Q True (lp_db l) [Created a, Notified f] db"
    by (rule emitted_created [where Q = Q, OF created(6) _ assms(1)]) (simp_all add: created(3))
  moreover have "l' = l\<lparr>lp_db := db, lp_out := lp_out l @ [Created a]\<rparr>" "b" using created(1) assms(2) by simp_all
  ultimately show ?thesis using created(2) by (simp add: emits_def notify_def)
next
  case unwired
  then show ?thesis using assms by (auto simp: emits_def notify_def emitted_def)
qed

lemma emits_shadow: "Q f \<Longrightarrow> emits Q l (recordShadow l f (fi_DedupKey f))"
  by (simp add: emits_def recordShadow_def emitted_def)

lemma emits_deliver:
  assumes "Q f"
  shows "emits Q l (deliver (persistAlert l ev (fi_Kind f) (fi_DedupKey f) m t f) f (fi_DedupKey f))"
proof -
  obtain l' b where p: "persistAlert l ev (fi_Kind f) (fi_DedupKey f) m t f = (l', b)" by fastforce
  have "emits Q l (if b then notify l' f else l')" by (rule emits_notified [where Q = Q, OF assms p])
  then show ?thesis using emits_trans [OF _ emits_shadow [where Q = Q, OF assms]]
    by (auto simp: deliver_def p split: if_splits)
qed

lemma emits_deliver':
  "Q f \<Longrightarrow> fi_Kind f = kind \<Longrightarrow> fi_DedupKey f = d \<Longrightarrow> emits Q l (deliver (persistAlert l ev kind d m t f) f d)"
  using emits_deliver [where Q = Q] by blast

text \<open>The boosters add context only.\<close>

definition same_core :: "Finding \<Rightarrow> Finding \<Rightarrow> bool" where
  "same_core f g \<longleftrightarrow> fi_Kind g = fi_Kind f \<and> fi_Severity g = fi_Severity f \<and> fi_Category g = fi_Category f \<and>
     fi_Trade g = fi_Trade f \<and> fi_Reason g = fi_Reason f \<and> fi_Cluster g = fi_Cluster f"

lemma same_core_trans: "same_core f g \<Longrightarrow> same_core g h \<Longrightarrow> same_core f h"
  by (simp add: same_core_def)

lemma same_core_reason: "same_core f g \<Longrightarrow> same_core f (add_reason c r g)"
  by (simp add: same_core_def add_reason_def)

lemma same_core_quiet: "same_core f g \<Longrightarrow> same_core f (stampQuietMarket l ev g m bk hist n tm)"
  by (simp add: same_core_def stampQuietMarket_def Let_def split: option.splits)

lemma same_core_wallet: "same_core f g \<Longrightarrow> same_core f (stampNewWallet l ev w r ts g)"
  by (simp add: same_core_def stampNewWallet_def add_reason_def Let_def split: option.splits)

lemma same_core_dormant: "same_core f g \<Longrightarrow> same_core f (stampDormant l ev ref tm g)"
  by (simp add: same_core_def stampDormant_def add_reason_def split: option.splits)

lemma same_core_ownership: "same_core f g \<Longrightarrow> same_core f (stampOwnership ev w mid tok p g)"
  by (simp add: same_core_def stampOwnership_def add_reason_def Let_def split: option.splits)

lemma same_core_low: "same_core f g \<Longrightarrow> same_core f (lowBaselineReasons sr g)"
  by (simp add: lowBaselineReasons_def same_core_reason)

lemma same_core_key: "same_core f g \<Longrightarrow> same_core f (g\<lparr>fi_DedupKey := d\<rparr>)"
  by (simp add: same_core_def)

lemmas same_core_intros = same_core_reason same_core_quiet same_core_wallet same_core_dormant
  same_core_ownership same_core_low same_core_key

lemma same_core_refl [simp]: "same_core f f"
  by (simp add: same_core_def)

subsection \<open>The gates\<close>

definition trade_cats :: "Market \<Rightarrow> int list" where
  "trade_cats m = (if mk_Categories m = [] then [0] else mk_Categories m)"

definition live_trade :: "Loop \<Rightarrow> dt_Env \<Rightarrow> Trade \<Rightarrow> bool" where
  "live_trade l ev t \<longleftrightarrow> \<not> td_Size t \<le> 0 \<and> \<not> td_Price t \<le> 0 \<and> \<not> NotionalUSD t \<le> 0 \<and>
     (0 < dt_LiveAlertMaxLag (lp_cfg l) \<longrightarrow> IsZero (td_Timestamp t) \<or>
        t_sub (ev_now ev) (td_Timestamp t) \<le> dt_LiveAlertMaxLag (lp_cfg l))"

definition trade_key :: "Market \<Rightarrow> Trade \<Rightarrow> int \<Rightarrow> Key" where
  "trade_key m t cat = \<lparr>ky_Category = cat, ky_Market = mk_ID m, ky_OutcomeToken = td_Token t\<rparr>"

definition trade_score :: "Loop \<Rightarrow> dt_Env \<Rightarrow> Trade \<Rightarrow> Stats \<Rightarrow> sc_Result" where
  "trade_score l ev t stats = Score (NotionalUSD t) (td_Price t) (market_axis l stats)
     (trader_axis l (readTraderBaseline ev (td_Taker t))) (dt_Thresholds (lp_cfg l))"

text \<open>
  What the scorer and the cluster detector have to say of a trade, category by category: for each
  category the whitelist lets through the baseline is read (and, without a database, the trade is
  then added to it); when the score against it fires, the trade enters the category's cluster window.
  The list holds the categories that fired, with the baseline and the cluster the detector saw.
\<close>

type_synonym cat_verdict = "int \<times> Stats \<times> ClusterStats option"

definition read_key :: "dt_Env \<Rightarrow> Trade \<Rightarrow> Baseline \<Rightarrow> Key \<Rightarrow> Baseline \<times> (string + Stats)" where
  "read_key ev t b k = (case ev_Baseliner ev of Some get \<Rightarrow> (b, get k)
     | None \<Rightarrow> (case bl_Stats b (ev_now ev) k of (b', s) \<Rightarrow> (bl_Add b' k (NotionalUSD t) (td_Timestamp t), Inr s)))"

fun cat_verdicts :: "Loop \<Rightarrow> dt_Env \<Rightarrow> Market \<Rightarrow> Trade \<Rightarrow> Baseline \<Rightarrow> cl_Detector \<Rightarrow> int list \<Rightarrow> cat_verdict list" where
  "cat_verdicts l ev m t b d [] = []"
| "cat_verdicts l ev m t b d (cat # cats) =
     (if \<not> dt_allowed l cat then cat_verdicts l ev m t b d cats
      else case read_key ev t b (trade_key m t cat) of
        (b, Inl e) \<Rightarrow> cat_verdicts l ev m t b d cats
      | (b, Inr stats) \<Rightarrow>
          if \<not> rs_Fired (trade_score l ev t stats) then cat_verdicts l ev m t b d cats
          else (case cl_Observe d (ev_now ev) cat (buildTradeRef m t (NotionalUSD t)) of
                  (d, cs) \<Rightarrow> (cat, stats, cs) # cat_verdicts l ev m t b d cats))"

definition verdicts :: "Loop \<Rightarrow> dt_Env \<Rightarrow> Market \<Rightarrow> Trade \<Rightarrow> cat_verdict list" where
  "verdicts l ev m t = cat_verdicts l ev m t (lp_baseline l) (lp_cluster l) (trade_cats m)"

text \<open>The history of an outcome after the categories of the trade were read.\<close>

fun read_cats :: "Loop \<Rightarrow> dt_Env \<Rightarrow> Market \<Rightarrow> Trade \<Rightarrow> Baseline \<Rightarrow> int list \<Rightarrow> Baseline" where
  "read_cats l ev m t b [] = b"
| "read_cats l ev m t b (cat # cats) =
     read_cats l ev m t (if dt_allowed l cat then fst (read_key ev t b (trade_key m t cat)) else b) cats"

definition history :: "Loop \<Rightarrow> dt_Env \<Rightarrow> Market \<Rightarrow> Trade \<Rightarrow> Key \<Rightarrow> Stats" where
  "history l ev m t k = (case ev_Baseliner ev of Some get \<Rightarrow> (case get k of Inl e \<Rightarrow> no_stats | Inr s \<Rightarrow> s)
     | None \<Rightarrow> snd (bl_Stats (read_cats l ev m t (lp_baseline l) (trade_cats m)) (ev_now ev) k))"

definition mm_suppressed :: "dt_Env \<Rightarrow> Market \<Rightarrow> Trade \<Rightarrow> bool" where
  "mm_suppressed ev m t \<longleftrightarrow> (case ev_MMFilter ev of None \<Rightarrow> False
     | Some decide \<Rightarrow> td_Taker t \<noteq> '''' \<and> mv_Suppress (fst (decide (td_Taker t)
         (case resolveMarketID ev (mk_ID m) of None \<Rightarrow> 0 | Some mid \<Rightarrow> mid) (td_Token t))))"

text \<open>
  The line of the trade's wallet on its outcome and side, over the recent window or the whole
  life, as the repository reports it for the resolved ids, and its verdict.
\<close>

definition line_of :: "Loop \<Rightarrow> dt_Env \<Rightarrow> Market \<Rightarrow> Trade \<Rightarrow> string \<Rightarrow> AccumulationLine \<Rightarrow> Line" where
  "line_of l ev m t wk rep = (let (pct, known) = LifecyclePct m (td_Timestamp t) in
     accumulationLine m t rep (history l ev m t (trade_key m t (firstAllowed l (trade_cats m))))
       (readTraderBaseline ev (td_Taker t)) pct (known \<and> dt_LifecycleHotFromPct (lp_cfg l) \<le> pct) wk)"

definition ids_of :: "dt_Env \<Rightarrow> Market \<Rightarrow> Trade \<Rightarrow> (int \<times> int) option" where
  "ids_of ev m t = (if td_Taker t = '''' \<or> td_Token t = '''' then None
     else case (resolveTraderID ev (td_Taker t), resolveMarketID ev (mk_ID m)) of
            (Some tid, Some mid) \<Rightarrow> Some (tid, mid) | _ \<Rightarrow> None)"

definition accumulated :: "Loop \<Rightarrow> dt_Env \<Rightarrow> Market \<Rightarrow> Trade \<Rightarrow> string \<Rightarrow> ac_Verdict \<Rightarrow> bool" where
  "accumulated l ev m t wk v \<longleftrightarrow> (\<exists>acc get tid mid rep. dt_Accumulator (lp_cfg l) = Some acc \<and>
     ev_AccumulationLines ev = Some get \<and> ids_of ev m t = Some (tid, mid) \<and>
     get \<lparr>aq_TraderID = tid, aq_MarketID = mid, aq_OutcomeToken = td_Token t, aq_Side = td_Side t,
          aq_Since = (if wk = WindowKindRecent then ev_now ev - ac_Window (ad_cfg acc) else zero_time)\<rparr> = Inr rep \<and>
     al_TradeCount rep \<noteq> 0 \<and> v = ac_Decide acc (line_of l ev m t wk rep) \<and> av_Fired v)"

text \<open>The ownership verdict for the wallet's and the market's shares of the outcome at the trade's price.\<close>

definition owned :: "Loop \<Rightarrow> dt_Env \<Rightarrow> Market \<Rightarrow> Trade \<Rightarrow> ow_Verdict \<Rightarrow> bool" where
  "owned l ev m t v \<longleftrightarrow> (\<exists>det get tid mid row. dt_Ownership (lp_cfg l) = Some det \<and> ev_OwnershipShares ev = Some get \<and>
     ids_of ev m t = Some (tid, mid) \<and> get tid mid (td_Token t) = Inr row \<and>
     v = ow_Decide det \<lparr>sh_WalletBuyShares = ws_WalletBuyShares row, sh_WalletSellShares = ws_WalletSellShares row,
           sh_MarketBuyShares = ws_MarketBuyShares row, sh_PriceHint = td_Price t\<rparr> \<and> ov_Fired v)"

text \<open>The gates of each kind of finding; the verdicts are those of the trade itself.\<close>

definition passed_single :: "Loop \<Rightarrow> dt_Env \<Rightarrow> Market \<Rightarrow> Trade \<Rightarrow> Finding \<Rightarrow> bool" where
  "passed_single l ev m t f \<longleftrightarrow> \<not> mm_suppressed ev m t \<and> fi_Trade f = Some (buildTradeRef m t (NotionalUSD t)) \<and>
     (\<exists>cat stats cs. (cat, stats, cs) \<in> set (verdicts l ev m t) \<and> fi_Category f = Some (categoryRef l cat) \<and>
        fi_Severity f = rs_Severity (trade_score l ev t stats)) \<and>
     (\<forall>(cat, stats, cs) \<in> set (verdicts l ev m t). rank (rs_Severity (trade_score l ev t stats)) \<le> rank (fi_Severity f))"

definition passed_watch :: "Loop \<Rightarrow> dt_Env \<Rightarrow> Market \<Rightarrow> Trade \<Rightarrow> Finding \<Rightarrow> bool" where
  "passed_watch l ev m t f \<longleftrightarrow> fi_Severity f = SeverityHard \<and>
     (\<exists>cat stats cs. (cat, stats, Some cs) \<in> set (verdicts l ev m t) \<and> fi_Category f = Some (categoryRef l cat) \<and>
        fi_Cluster f = Some cs)"

definition passed_line :: "Loop \<Rightarrow> dt_Env \<Rightarrow> Market \<Rightarrow> Trade \<Rightarrow> Finding \<Rightarrow> bool" where
  "passed_line l ev m t f \<longleftrightarrow> \<not> mm_suppressed ev m t \<and> fi_Category f = Some (categoryRef l (firstAllowed l (trade_cats m))) \<and>
     (\<exists>wk \<in> {WindowKindRecent, WindowKindLifetime}. \<exists>v. accumulated l ev m t wk v \<and> fi_Severity f = av_Severity v)"

definition passed_owner :: "Loop \<Rightarrow> dt_Env \<Rightarrow> Market \<Rightarrow> Trade \<Rightarrow> Finding \<Rightarrow> bool" where
  "passed_owner l ev m t f \<longleftrightarrow> \<not> mm_suppressed ev m t \<and> fi_Category f = Some (categoryRef l (firstAllowed l (trade_cats m))) \<and>
     (\<exists>v. accumulated l ev m t WindowKindRecent v) \<and> (\<exists>v. owned l ev m t v \<and> fi_Severity f = ov_Severity v)"

definition passed_gates :: "Loop \<Rightarrow> dt_Env \<Rightarrow> Market \<Rightarrow> Trade \<Rightarrow> Finding \<Rightarrow> bool" where
  "passed_gates l ev m t f \<longleftrightarrow> live_trade l ev t \<and> alert_gate l ev m t \<and>
     (\<exists>cat \<in> set (trade_cats m). dt_allowed l cat \<and> fi_Category f = Some (categoryRef l cat)) \<and>
     (fi_Kind f = KindTradeAnomaly \<and> passed_single l ev m t f \<or> fi_Kind f = KindCategoryWatch \<and> passed_watch l ev m t f \<or>
      fi_Kind f = KindAccumulation \<and> passed_line l ev m t f \<or> fi_Kind f = KindOwnership \<and> passed_owner l ev m t f)"

lemma verdict_category:
  "(cat, stats, cs) \<in> set (cat_verdicts l ev m t b d cats) \<Longrightarrow> cat \<in> set cats \<and> dt_allowed l cat"
proof (induction cats arbitrary: b d)
  case (Cons c cats)
  obtain b1 s where r: "read_key ev t b (trade_key m t c) = (b1, s)" by fastforce
  show ?case
  proof (cases "\<exists>st. dt_allowed l c \<and> s = Inr st \<and> rs_Fired (trade_score l ev t st)")
    case True
    then obtain st d1 c1 where "dt_allowed l c" "s = Inr st" "rs_Fired (trade_score l ev t st)"
      "cl_Observe d (ev_now ev) c (buildTradeRef m t (NotionalUSD t)) = (d1, c1)" by fastforce
    then show ?thesis using Cons r by auto
  next
    case False
    then have "(cat, stats, cs) \<in> set (cat_verdicts l ev m t b d cats) \<or> (cat, stats, cs) \<in> set (cat_verdicts l ev m t b1 d cats)"
      using Cons.prems r by (cases s) (auto split: if_splits)
    then show ?thesis using Cons.IH by auto
  qed
qed simp

lemma verdicts_category: "(cat, stats, cs) \<in> set (verdicts l ev m t) \<Longrightarrow> cat \<in> set (trade_cats m) \<and> dt_allowed l cat"
  unfolding verdicts_def by (rule verdict_category)

text \<open>What depends on the configuration and the catalogue only.\<close>

definition same_wiring :: "Loop \<Rightarrow> Loop \<Rightarrow> bool" where
  "same_wiring l l' \<longleftrightarrow> lp_cfg l' = lp_cfg l \<and> lp_cache l' = lp_cache l"

lemma emits_wiring: "emits Q l l' \<Longrightarrow> same_wiring l l'"
  by (simp add: emits_def same_wiring_def)

lemma wiring_cong:
  assumes "same_wiring l l'"
  shows "dt_allowed l' = dt_allowed l" "categoryRef l' = categoryRef l" "trade_score l' = trade_score l"
    "firstAllowed l' = firstAllowed l" "lp_cfg l' = lp_cfg l"
proof -
  show a: "dt_allowed l' = dt_allowed l" "categoryRef l' = categoryRef l" "trade_score l' = trade_score l" "lp_cfg l' = lp_cfg l"
    using assms by (simp_all add: fun_eq_iff same_wiring_def dt_allowed_def categoryRef_def trade_score_def
        market_axis_def trader_axis_def)
  have "firstAllowed l' cs = firstAllowed l cs" for cs by (induction cs) (simp_all add: a)
  then show "firstAllowed l' = firstAllowed l" by blast
qed

text \<open>The dedup gate leaves the detectors alone.\<close>

definition detectors :: "Loop \<Rightarrow> Baseline \<times> cl_Detector" where
  "detectors l = (lp_baseline l, lp_cluster l)"

lemma detectors_persist: "detectors (fst (persistAlert l ev kind d m t f)) = detectors l"
  by (cases rule: persistAlert_cases [of l ev kind d m t f "\<lambda>_. True"]) (simp_all add: detectors_def)

lemma detectors_notify [simp]: "detectors (notify l f) = detectors l" "detectors (recordShadow l f d) = detectors l"
  by (simp_all add: detectors_def notify_def recordShadow_def)

lemma detectors_deliver: "detectors (deliver (persistAlert l ev kind d m t f) g d) = detectors l"
  using detectors_persist [of l ev kind d m t f] by (simp add: deliver_def)

lemma detectors_watch: "detectors (emitCategoryWatch l ev m t cat cs) = detectors l"
  using detectors_persist [of l ev KindCategoryWatch "clusterDedupKey l ev cat" m t "watchFinding l ev m t cat cs"]
  by (auto simp: emitCategoryWatch_def Let_def split: prod.split)

lemma detectors_ownership: "detectors (evaluateOwnership l ev m t tid mid cat price) = detectors l"
  by (simp add: evaluateOwnership_def Let_def detectors_deliver split: option.split sum.split)

text \<open>The single-trade alert is suppressed or handed to the dedup gate.\<close>

lemma emitTradeAnomaly_cases:
  assumes "tf_Wallet ref = td_Taker t"
  obtains (suppressed) cl where "emitTradeAnomaly l ev m t cat stats ts sr ref pct hot = l\<lparr>lp_cluster := cl\<rparr>"
      "mm_suppressed ev m t"
  | (delivered) cl f where "emitTradeAnomaly l ev m t cat stats ts sr ref pct hot =
         deliver (persistAlert (l\<lparr>lp_cluster := cl\<rparr>) ev (fi_Kind f) (fi_DedupKey f) m t f) f (fi_DedupKey f)"
      "\<not> mm_suppressed ev m t" "fi_Kind f = KindTradeAnomaly" "fi_Severity f = rs_Severity sr"
      "fi_Category f = Some (categoryRef l cat)" "fi_DedupKey f = singleTradeDedupKey l ev m t" "fi_Trade f = Some ref"
proof -
  obtain cl n where c: "cl_Count (lp_cluster l) (ev_now ev) cat = (cl, n)" by fastforce
  let ?l = "l\<lparr>lp_cluster := cl\<rparr>"
  define f where "f = (lowBaselineReasons sr (stampOwnership ev (tf_Wallet ref) (mk_ID m) (td_Token t)
      (td_Price t) (stampDormant ?l ev ref (td_Timestamp t) (stampNewWallet ?l ev (tf_Wallet ref) ReasonNewWalletLargeBet ts
      (stampQuietMarket ?l ev (tradeFinding ?l ev m t (categoryRef l cat) stats ts sr ref pct hot n)
         m \<lparr>ky_Category = cat, ky_Market = mk_ID m, ky_OutcomeToken = td_Token t\<rparr> stats (tf_NotionalUSD ref) (td_Timestamp t))))))
      \<lparr>fi_DedupKey := singleTradeDedupKey ?l ev m t\<rparr>"
  have "same_core (tradeFinding ?l ev m t (categoryRef l cat) stats ts sr ref pct hot n) f"
    unfolding f_def by (intro same_core_intros same_core_refl)
  then have core: "fi_Kind f = KindTradeAnomaly" "fi_Severity f = rs_Severity sr" "fi_Category f = Some (categoryRef l cat)"
    "fi_Trade f = Some ref"
    by (simp_all add: same_core_def tradeFinding_def)
  have key: "fi_DedupKey f = singleTradeDedupKey ?l ev m t" "singleTradeDedupKey ?l ev m t = singleTradeDedupKey l ev m t"
    by (simp_all add: f_def singleTradeDedupKey_def)
  have sup: "(case ev_MMFilter ev of None \<Rightarrow> False | Some decide \<Rightarrow> tf_Wallet ref \<noteq> '''' \<and>
      mv_Suppress (fst (decide (tf_Wallet ref)
        (case resolveMarketID ev (mk_ID m) of None \<Rightarrow> 0 | Some mid \<Rightarrow> mid) (td_Token t)))) = mm_suppressed ev m t"
    unfolding mm_suppressed_def assms by (rule refl)
  show thesis
  proof (cases "mm_suppressed ev m t")
    case True
    then show thesis using suppressed [of cl] unfolding emitTradeAnomaly_def c Let_def prod.case sup by simp
  next
    case False
    have "emitTradeAnomaly l ev m t cat stats ts sr ref pct hot =
        deliver (persistAlert ?l ev KindTradeAnomaly (singleTradeDedupKey ?l ev m t) m t f) f (singleTradeDedupKey ?l ev m t)"
      using False unfolding emitTradeAnomaly_def c Let_def prod.case sup f_def by simp
    then show thesis using delivered [of cl f] False core key by simp
  qed
qed

lemma emits_tradeAnomaly:
  assumes "tf_Wallet ref = td_Taker t"
    and "\<And>f. fi_Kind f = KindTradeAnomaly \<Longrightarrow> fi_Severity f = rs_Severity sr \<Longrightarrow>
      fi_Category f = Some (categoryRef l cat) \<Longrightarrow> fi_Trade f = Some ref \<Longrightarrow> \<not> mm_suppressed ev m t \<Longrightarrow> Q f"
  shows "emits Q l (emitTradeAnomaly l ev m t cat stats ts sr ref pct hot)"
proof (cases rule: emitTradeAnomaly_cases [OF assms(1), of l ev m cat stats ts sr pct hot, case_names suppressed delivered])
  case (suppressed cl)
  then show ?thesis by simp
next
  case (delivered cl f)
  then have "Q f" by (intro assms(2))
  then show ?thesis using emits_trans [OF emits_state(1) emits_deliver [where Q = Q]] delivered(1) by simp
qed

lemma emits_emitTradeAnomaly:
  assumes "live_trade l0 ev t" "alert_gate l0 ev m t" "emits (passed_gates l0 ev m t) l0 l"
    and "(cat, stats, cs) \<in> set (verdicts l0 ev m t)"
    and "\<forall>(cat, stats', cs) \<in> set (verdicts l0 ev m t).
      rank (rs_Severity (trade_score l0 ev t stats')) \<le> rank (rs_Severity (trade_score l0 ev t stats))"
  shows "emits (passed_gates l0 ev m t) l0
    (emitTradeAnomaly l ev m t cat stats ts (trade_score l0 ev t stats) (buildTradeRef m t (NotionalUSD t)) pct hot)"
proof (rule emits_trans [OF assms(3)], rule emits_tradeAnomaly)
  note w = wiring_cong [OF emits_wiring [OF assms(3)]]
  show "tf_Wallet (buildTradeRef m t (NotionalUSD t)) = td_Taker t" by (simp add: buildTradeRef_def)
  fix f :: Finding
  assume "fi_Kind f = KindTradeAnomaly" "fi_Severity f = rs_Severity (trade_score l0 ev t stats)"
    "fi_Category f = Some (categoryRef l cat)" "fi_Trade f = Some (buildTradeRef m t (NotionalUSD t))" "\<not> mm_suppressed ev m t"
  then show "passed_gates l0 ev m t f"
    using assms(1,2,4,5) verdicts_category [OF assms(4)] unfolding passed_gates_def passed_single_def w by auto
qed

lemma baseline_tradeAnomaly: "lp_baseline (emitTradeAnomaly l ev m t cat stats ts sr ref pct hot) = lp_baseline l"
proof -
  have d: "lp_baseline (deliver (persistAlert l' ev kind d m t f) g d) = lp_baseline l'" for l' kind d f g
    using detectors_deliver [of l' ev kind d m t f g] by (simp add: detectors_def)
  show ?thesis unfolding emitTradeAnomaly_def Let_def by (simp add: d split: prod.split)
qed

lemma watchFinding_core: "fi_Kind (watchFinding l ev m t cat cs) = KindCategoryWatch"
  "fi_DedupKey (watchFinding l ev m t cat cs) = clusterDedupKey l ev cat"
  "fi_Category (watchFinding l ev m t cat cs) = Some (categoryRef l cat)"
  "fi_Severity (watchFinding l ev m t cat cs) = SeverityHard" "fi_Cluster (watchFinding l ev m t cat cs) = Some cs"
  by (simp_all add: watchFinding_def Let_def)

lemma emits_watch:
  assumes "Q (watchFinding l ev m t cat cs)"
  shows "emits Q l (emitCategoryWatch l ev m t cat cs)"
proof -
  let ?f = "watchFinding l ev m t cat cs"
  obtain l' b where p: "persistAlert l ev KindCategoryWatch (clusterDedupKey l ev cat) m t ?f = (l', b)" by fastforce
  then show ?thesis using emits_notified [where Q = Q, OF assms, of l ev m t l' b]
    by (simp add: emitCategoryWatch_def Let_def watchFinding_core split: if_splits)
qed

lemma firstAllowed_allowed: "firstAllowed l cats \<noteq> 0 \<Longrightarrow> firstAllowed l cats \<in> set cats \<and> dt_allowed l (firstAllowed l cats)"
  by (induction l cats rule: firstAllowed.induct) (auto split: if_splits)

lemma emits_emitCategoryWatch:
  assumes "live_trade l0 ev t" "alert_gate l0 ev m t" "emits (passed_gates l0 ev m t) l0 l"
    and "(cat, stats, Some cs) \<in> set (verdicts l0 ev m t)"
  shows "emits (passed_gates l0 ev m t) l0 (emitCategoryWatch l ev m t cat cs)"
proof (rule emits_trans [OF assms(3)], rule emits_watch)
  note w = wiring_cong [OF emits_wiring [OF assms(3)]]
  show "passed_gates l0 ev m t (watchFinding l ev m t cat cs)"
    using assms(1,2,4) verdicts_category [OF assms(4)] unfolding passed_gates_def passed_watch_def
    by (auto simp: watchFinding_core w)
qed

lemma emits_evaluateOwnership:
  assumes "live_trade l0 ev t" "alert_gate l0 ev m t" "emits (passed_gates l0 ev m t) l0 l" "\<not> mm_suppressed ev m t"
    and "firstAllowed l0 (trade_cats m) \<noteq> 0" "ids_of ev m t = Some (tid, mid)" "accumulated l0 ev m t WindowKindRecent v"
  shows "emits (passed_gates l0 ev m t) l0 (evaluateOwnership l ev m t tid mid (firstAllowed l0 (trade_cats m)) (td_Price t))"
proof (cases "dt_Ownership (lp_cfg l) = None \<or> ev_OwnershipShares ev = None")
  case True
  then show ?thesis using assms(3) by (auto simp: evaluateOwnership_def split: option.splits)
next
  case False
  note w = wiring_cong [OF emits_wiring [OF assms(3)]]
  let ?cat = "firstAllowed l0 (trade_cats m)"
  obtain det get where d: "dt_Ownership (lp_cfg l) = Some det" "ev_OwnershipShares ev = Some get" using False by auto
  show ?thesis
  proof (cases "get tid mid (td_Token t)")
    case (Inl e)
    then show ?thesis using assms(3) by (simp add: evaluateOwnership_def d)
  next
    case (Inr row)
    let ?v = "ow_Decide det \<lparr>sh_WalletBuyShares = ws_WalletBuyShares row, sh_WalletSellShares = ws_WalletSellShares row,
        sh_MarketBuyShares = ws_MarketBuyShares row, sh_PriceHint = td_Price t\<rparr>"
    let ?f = "ownershipFinding l ev m t mid ?cat row ?v"
    have f: "fi_Kind ?f = KindOwnership" "fi_Category ?f = Some (categoryRef l0 ?cat)" "fi_Severity ?f = ov_Severity ?v"
      by (simp_all add: ownershipFinding_def Let_def w)
    have "owned l0 ev m t ?v" if "ov_Fired ?v" unfolding owned_def using that d Inr assms(6) w(5) by auto
    then have "passed_owner l0 ev m t ?f" if "ov_Fired ?v"
      unfolding passed_owner_def using that f assms(4,7) by blast
    then have p: "passed_gates l0 ev m t ?f" if "ov_Fired ?v"
      using that f assms(1,2) firstAllowed_allowed [OF assms(5)] unfolding passed_gates_def by blast
    show ?thesis
      using assms(3) emits_trans [OF assms(3) emits_deliver' [where Q = "passed_gates l0 ev m t", OF p f(1) refl]]
      by (simp add: evaluateOwnership_def d Inr Let_def)
  qed
qed

text \<open>Reading the history of an outcome again at the same time gives the same answer.\<close>

lemma trim_again: "trim (trim r c) c = trim r c"
proof (induction r c rule: trim.induct)
  case (1 r c)
  show ?case
  proof (cases "rg_size r = 0 \<or> \<not> sm_at (rg_buf r ! rg_head r) < c")
    case True
    then have "trim r c = r" by (subst trim.simps) (auto simp: Let_def)
    then show ?thesis by simp
  next
    case False
    let ?r = "r\<lparr>rg_sum := rg_sum r - sm_notional (rg_buf r ! rg_head r), rg_head := (rg_head r + 1) mod length (rg_buf r),
        rg_size := rg_size r - 1\<rparr>"
    have "trim r c = trim ?r c" using False by (subst trim.simps) (simp add: Let_def)
    then show ?thesis using 1 False by simp
  qed
qed

lemma bl_Stats_again: "snd (bl_Stats (fst (bl_Stats b now k')) now k) = snd (bl_Stats b now k)"
  by (auto simp: bl_Stats_def trim_again Let_def split: option.split)

definition hist_ok :: "Loop \<Rightarrow> dt_Env \<Rightarrow> Market \<Rightarrow> Trade \<Rightarrow> Loop \<Rightarrow> bool" where
  "hist_ok l0 ev m t l \<longleftrightarrow> (\<forall>k. snd (marketHistoryStats l ev k) = history l0 ev m t k)"

lemma hist_ok_cong: "lp_baseline l' = lp_baseline l \<Longrightarrow> hist_ok l0 ev m t l' = hist_ok l0 ev m t l"
  by (simp add: hist_ok_def marketHistoryStats_def split: option.split sum.split prod.split)

lemma hist_ok_detectors: "detectors l' = detectors l \<Longrightarrow> hist_ok l0 ev m t l' = hist_ok l0 ev m t l"
  by (rule hist_ok_cong) (simp add: detectors_def)

lemma hist_ok_read: "hist_ok l0 ev m t l \<Longrightarrow> hist_ok l0 ev m t (fst (marketHistoryStats l ev k))"
proof -
  have "snd (marketHistoryStats (fst (marketHistoryStats l ev k)) ev k') = snd (marketHistoryStats l ev k')" for k'
    using bl_Stats_again [of "lp_baseline l" "ev_now ev" k k']
    by (cases "ev_Baseliner ev"; cases "bl_Stats (lp_baseline l) (ev_now ev) k")
      (simp_all add: marketHistoryStats_def case_prod_beta split: sum.split)
  then show "hist_ok l0 ev m t l \<Longrightarrow> ?thesis" by (simp add: hist_ok_def)
qed

lemma hist_ok_start: "lp_baseline l = read_cats l0 ev m t (lp_baseline l0) (trade_cats m) \<Longrightarrow> hist_ok l0 ev m t l"
  by (simp add: hist_ok_def marketHistoryStats_def history_def split: option.split sum.split prod.split)

lemma emits_marketHistoryStats: "marketHistoryStats l ev k = (l', s) \<Longrightarrow> emits Q l l'"
  by (auto simp: marketHistoryStats_def split: option.splits sum.splits prod.splits)

lemma emits_emitAccumulation:
  assumes "live_trade l0 ev t" "alert_gate l0 ev m t" "emits (passed_gates l0 ev m t) l0 l" "\<not> mm_suppressed ev m t"
    and "firstAllowed l0 (trade_cats m) \<noteq> 0" "ids_of ev m t = Some (tid, mid)" "accumulated l0 ev m t wk v"
    and "wk = WindowKindRecent \<or> wk = WindowKindLifetime" "hist_ok l0 ev m t l"
  shows "emits (passed_gates l0 ev m t) l0 (emitAccumulation l ev acc m t tid mid (firstAllowed l0 (trade_cats m)) line rep v ts wk)
    \<and> hist_ok l0 ev m t (emitAccumulation l ev acc m t tid mid (firstAllowed l0 (trade_cats m)) line rep v ts wk)"
proof -
  let ?cat = "firstAllowed l0 (trade_cats m)" and ?Q = "passed_gates l0 ev m t"
  let ?k = "\<lparr>ky_Category = ?cat, ky_Market = mk_ID m, ky_OutcomeToken = td_Token t\<rparr>"
  note w = wiring_cong [OF emits_wiring [OF assms(3)]]
  obtain l1 hist where h: "marketHistoryStats l ev ?k = (l1, hist)" by fastforce
  let ?hist = "if st_Count hist = 0 then no_stats\<lparr>st_Count := al_TradeCount rep, st_MedianUSD := ln_MarketMedianUSD line,
      st_SpanActual := rep_Span rep\<rparr> else hist"
  let ?d = "accumulationDedupKey l1 ev acc wk (td_Taker t) mid (td_Token t) (td_Side t) (av_Severity v)"
  define f where "f = (stampNewWallet l1 ev (td_Taker t) ReasonNewWalletAccumulation ts
      (add_reason (wk = WindowKindRecent) ReasonRecentAccumulation (add_reason (wk = WindowKindLifetime) ReasonLifetimeAccumulation
      (stampQuietMarket l1 ev (accumulationFinding l ev m t ?cat line rep v ts) m
         ?k ?hist (al_TotalNotionalUSD rep) (al_OldestAt rep)))))
      \<lparr>fi_DedupKey := ?d\<rparr>"
  have "same_core (accumulationFinding l ev m t ?cat line rep v ts) f"
    unfolding f_def by (intro same_core_intros same_core_refl)
  then have core: "fi_Kind f = KindAccumulation" "fi_Category f = Some (categoryRef l0 ?cat)"
    "fi_Severity f = av_Severity v" "fi_DedupKey f = ?d"
    by (simp_all add: same_core_def accumulationFinding_def Let_def w) (simp add: f_def)
  have "passed_line l0 ev m t f" unfolding passed_line_def using core assms(4,7,8) by blast
  then have Q: "?Q f"
    using core assms(1,2) firstAllowed_allowed [OF assms(5)] unfolding passed_gates_def by blast
  obtain l2 b where p: "persistAlert l1 ev KindAccumulation ?d m t f = (l2, b)" by fastforce
  have e1: "emits ?Q l0 l1" by (rule emits_trans [OF assms(3) emits_marketHistoryStats [OF h]])
  have e2: "emits ?Q l0 (if b then notify l2 f else l2)"
    by (rule emits_trans [OF e1 emits_notified [where Q = ?Q and ev = ev and m = m and t = t, OF Q]]) (simp add: core p)
  have h1: "hist_ok l0 ev m t l1" using hist_ok_read [OF assms(9), of ?k] h by simp
  have h2: "hist_ok l0 ev m t l2"
    using h1 hist_ok_detectors [OF detectors_persist [of l1 ev KindAccumulation ?d m t f], of l0 ev m t] p by simp
  let ?l3 = "recordShadow (notify l2 f) f ?d"
  have eq: "emitAccumulation l ev acc m t tid mid ?cat line rep v ts wk =
      (if \<not> b then l2 else if wk = WindowKindRecent then evaluateOwnership ?l3 ev m t tid mid ?cat (td_Price t) else ?l3)"
    unfolding emitAccumulation_def Let_def h prod.case f_def [symmetric] p by simp
  have h3: "hist_ok l0 ev m t ?l3" using h2 hist_ok_detectors [of ?l3 l2 l0 ev m t] by simp
  show ?thesis
  proof (cases b)
    case False
    then show ?thesis using e2 h2 eq by simp
  next
    case True
    have e3: "emits ?Q l0 ?l3" using emits_trans [OF e2] emits_shadow [where Q = ?Q, OF Q] True core(4) by simp
    have "emits ?Q l0 (evaluateOwnership ?l3 ev m t tid mid ?cat (td_Price t))" if "wk = WindowKindRecent"
      by (rule emits_evaluateOwnership [OF assms(1,2) e3 assms(4-6)]) (use assms(7) that in blast)
    moreover have "hist_ok l0 ev m t (evaluateOwnership ?l3 ev m t tid mid ?cat (td_Price t))"
      using h3 hist_ok_detectors [OF detectors_ownership] by blast
    ultimately show ?thesis using e3 h3 unfolding eq by (cases "wk = WindowKindRecent") (simp_all only: True not_True_eq_False if_True if_False simp_thms)
  qed
qed

lemma emits_accumulation:
  assumes "live_trade l0 ev t" "alert_gate l0 ev m t" "emits (passed_gates l0 ev m t) l0 l" "hist_ok l0 ev m t l"
    and "wk = WindowKindRecent \<or> wk = WindowKindLifetime"
    and "pct = fst (LifecyclePct m (td_Timestamp t))"
      "hot = (snd (LifecyclePct m (td_Timestamp t)) \<and> dt_LifecycleHotFromPct (lp_cfg l0) \<le> pct)"
      "ts = readTraderBaseline ev (td_Taker t)"
  shows "emits (passed_gates l0 ev m t) l0 (evaluateAccumulationWindow l ev m t (trade_cats m) ts pct hot wk) \<and>
    hist_ok l0 ev m t (evaluateAccumulationWindow l ev m t (trade_cats m) ts pct hot wk)"
proof (cases "firstAllowed l0 (trade_cats m) \<noteq> 0 \<and> dt_Accumulator (lp_cfg l0) \<noteq> None \<and> ev_AccumulationLines ev \<noteq> None \<and>
    ids_of ev m t \<noteq> None")
  case False
  note w = wiring_cong [OF emits_wiring [OF assms(3)]]
  have "0 < length (trade_cats m)" by (simp add: trade_cats_def)
  then have "evaluateAccumulationWindow l ev m t (trade_cats m) ts pct hot wk = l"
    using False by (auto simp: evaluateAccumulationWindow_def Let_def ids_of_def w split: option.splits if_splits)
  then show ?thesis using assms(3,4) by simp
next
  case True
  note w = wiring_cong [OF emits_wiring [OF assms(3)]]
  obtain acc get tid mid where a: "dt_Accumulator (lp_cfg l0) = Some acc" "ev_AccumulationLines ev = Some get"
    "ids_of ev m t = Some (tid, mid)" using True by auto
  then have i: "td_Taker t \<noteq> ''''" "td_Token t \<noteq> ''''" "resolveTraderID ev (td_Taker t) = Some tid"
    "resolveMarketID ev (mk_ID m) = Some mid" by (auto simp: ids_of_def split: if_splits option.splits)
  let ?cat = "firstAllowed l0 (trade_cats m)"
  let ?q = "\<lparr>aq_TraderID = tid, aq_MarketID = mid, aq_OutcomeToken = td_Token t, aq_Side = td_Side t,
      aq_Since = (if wk = WindowKindRecent then ev_now ev - ac_Window (ad_cfg acc) else zero_time)\<rparr>"
  let ?k = "\<lparr>ky_Category = ?cat, ky_Market = mk_ID m, ky_OutcomeToken = td_Token t\<rparr>"
  obtain l1 ms where h: "marketHistoryStats l ev ?k = (l1, ms)" by fastforce
  have e1: "emits (passed_gates l0 ev m t) l0 l1" by (rule emits_trans [OF assms(3) emits_marketHistoryStats [OF h]])
  have h1: "hist_ok l0 ev m t l1" using hist_ok_read [OF assms(4), of ?k] h by simp
  have ms: "ms = history l0 ev m t (trade_key m t ?cat)"
    using assms(4) h by (simp add: hist_ok_def trade_key_def) (metis snd_conv)
  show ?thesis
  proof (cases "get ?q")
    case (Inl e)
    then have "evaluateAccumulationWindow l ev m t (trade_cats m) ts pct hot wk = l"
      using True by (simp add: evaluateAccumulationWindow_def a i Let_def w)
    then show ?thesis using assms(3,4) by simp
  next
    case (Inr rep)
    let ?line = "accumulationLine m t rep ms ts pct hot wk" and ?v = "ac_Decide acc (accumulationLine m t rep ms ts pct hot wk)"
    have line: "?line = line_of l0 ev m t wk rep"
      unfolding line_of_def ms assms(6-8) by (simp add: case_prod_beta Let_def)
    have mm: "(case ev_MMFilter ev of None \<Rightarrow> False | Some decide \<Rightarrow> mv_Suppress (fst (decide (td_Taker t) mid (td_Token t))))
        = mm_suppressed ev m t"
      using i by (simp add: mm_suppressed_def split: option.splits)
    have eq: "evaluateAccumulationWindow l ev m t (trade_cats m) ts pct hot wk =
        (if al_TradeCount rep = 0 then l
         else if \<not> av_Fired ?v then l1
         else if mm_suppressed ev m t then l1
         else emitAccumulation l1 ev acc m t tid mid ?cat ?line rep ?v ts wk)"
      using True Inr i unfolding evaluateAccumulationWindow_def w a Let_def option.case sum.case prod.case
      by (simp add: h mm a)
    show ?thesis
    proof (cases "al_TradeCount rep = 0 \<or> \<not> av_Fired ?v \<or> mm_suppressed ev m t")
      case True
      then show ?thesis using eq e1 h1 assms(3,4) by auto
    next
      case False
      then have "accumulated l0 ev m t wk ?v"
        unfolding accumulated_def using a w(5) Inr line by auto
      then show ?thesis using emits_emitAccumulation [OF assms(1,2) e1 _ _ a(3) _ assms(5) h1] False True eq by simp
    qed
  qed
qed

lemma emits_readBaseline: "readBaseline l ev k n tm = (l', s) \<Longrightarrow> emits Q l l'"
  by (auto simp: readBaseline_def split: option.splits prod.splits)

lemma observe_cats_closed: "fst (observe_cats ev m t n ts False cats l bst) = l' \<Longrightarrow> emits Q l l' \<and>
    snd (observe_cats ev m t n ts False cats l bst) = bst"
proof (induction cats arbitrary: l)
  case (Cons cat cats)
  obtain l1 s where r: "readBaseline l ev \<lparr>ky_Category = cat, ky_Market = mk_ID m, ky_OutcomeToken = td_Token t\<rparr> n (td_Timestamp t) = (l1, s)"
    by fastforce
  show ?case
  proof (cases "dt_allowed l cat")
    case True
    have e: "observe_cats ev m t n ts False (cat # cats) l bst = observe_cats ev m t n ts False cats l1 bst"
      using True r by (cases s) simp_all
    then show ?thesis using Cons emits_trans [OF emits_readBaseline [OF r]] by metis
  next
    case False
    then show ?thesis using Cons by simp
  qed
qed simp

lemma read_eq: "readBaseline l ev (trade_key m t cat) (NotionalUSD t) (td_Timestamp t) =
    (let r = read_key ev t (lp_baseline l) (trade_key m t cat) in (l\<lparr>lp_baseline := fst r\<rparr>, snd r))"
  by (simp add: readBaseline_def read_key_def split: option.split prod.split)

text \<open>The best category so far: one of the verdicts \<open>vs\<close>, of the highest severity.\<close>

definition best_ok :: "Loop \<Rightarrow> dt_Env \<Rightarrow> Market \<Rightarrow> Trade \<Rightarrow> cat_verdict list \<Rightarrow> best option \<Rightarrow> bool" where
  "best_ok l ev m t vs bst \<longleftrightarrow> (case bst of None \<Rightarrow> vs = []
     | Some b \<Rightarrow> be_ref b = buildTradeRef m t (NotionalUSD t) \<and> be_result b = trade_score l ev t (be_stats b) \<and>
         (\<exists>cs. (be_cat b, be_stats b, cs) \<in> set vs) \<and>
         (\<forall>(cat, stats, cs) \<in> set vs. rank (rs_Severity (trade_score l ev t stats)) \<le> rank (rs_Severity (be_result b))))"

lemma MaxSeverity_rank: "rank (MaxSeverity a b) = max (rank a) (rank b)"
  by (simp add: MaxSeverity_def max_def)

lemma best_ok_better:
  assumes "best_ok l ev m t vs bst"
  shows "best_ok l ev m t (vs @ [(cat, stats, cs)]) (better bst
    \<lparr>be_cat = cat, be_stats = stats, be_result = trade_score l ev t stats, be_ref = buildTradeRef m t (NotionalUSD t)\<rparr>)"
proof (cases bst)
  case None
  then show ?thesis using assms by (simp add: best_ok_def better_def)
next
  case (Some b0)
  let ?s = "rs_Severity (trade_score l ev t stats)" and ?old = "rs_Severity (be_result b0)"
  show ?thesis
  proof (cases "MaxSeverity ?s ?old = ?s")
    case True
    then have "rank ?old \<le> rank ?s" using MaxSeverity_rank [of ?s ?old] by simp
    then show ?thesis using assms Some True by (fastforce simp: best_ok_def better_def)
  next
    case False
    then have "rank ?s \<le> rank ?old" by (auto simp: MaxSeverity_def split: if_splits)
    then show ?thesis using assms Some False by (fastforce simp: best_ok_def better_def)
  qed
qed

lemma emits_observe_cats:
  assumes "live_trade l0 ev t" "alert_gate l0 ev m t" "emits (passed_gates l0 ev m t) l0 l"
    and "verdicts l0 ev m t = vs @ cat_verdicts l0 ev m t (lp_baseline l) (lp_cluster l) cats" "best_ok l0 ev m t vs bst"
    and "read_cats l0 ev m t (lp_baseline l0) (trade_cats m) = read_cats l0 ev m t (lp_baseline l) cats"
    and "observe_cats ev m t (NotionalUSD t) (readTraderBaseline ev (td_Taker t)) True cats l bst = (l', bst')"
  shows "emits (passed_gates l0 ev m t) l0 l' \<and> best_ok l0 ev m t (verdicts l0 ev m t) bst' \<and>
    lp_baseline l' = read_cats l0 ev m t (lp_baseline l0) (trade_cats m)"
  using assms(3-7)
proof (induction cats arbitrary: l bst vs)
  case Nil
  then show ?case by simp
next
  case (Cons cat cats)
  note w = wiring_cong [OF emits_wiring [OF Cons.prems(1)]]
  let ?loop = "observe_cats ev m t (NotionalUSD t) (readTraderBaseline ev (td_Taker t)) True cats"
  let ?Q = "passed_gates l0 ev m t"
  have continue: ?case if "emits ?Q l0 l2"
      "verdicts l0 ev m t = vs' @ cat_verdicts l0 ev m t (lp_baseline l2) (lp_cluster l2) cats" "best_ok l0 ev m t vs' b2"
      "read_cats l0 ev m t (lp_baseline l0) (trade_cats m) = read_cats l0 ev m t (lp_baseline l2) cats"
      "?loop l2 b2 = (l', bst')" for l2 vs' b2
    by (rule Cons.IH [OF that])
  obtain b1 s where r: "read_key ev t (lp_baseline l) (trade_key m t cat) = (b1, s)" by fastforce
  let ?l1 = "l\<lparr>lp_baseline := b1\<rparr>"
  have rb: "readBaseline l ev \<lparr>ky_Category = cat, ky_Market = mk_ID m, ky_OutcomeToken = td_Token t\<rparr> (NotionalUSD t) (td_Timestamp t)
      = (?l1, s)" using read_eq [of l ev m t cat] r by (simp add: trade_key_def)
  have e1: "emits ?Q l0 ?l1" by (rule emits_trans [OF Cons.prems(1) emits_state(2)])
  show ?case
  proof (cases "dt_allowed l cat")
    case False
    show ?thesis
      by (rule continue [OF Cons.prems(1) _ Cons.prems(3)]) (use False Cons.prems(2,4,5) w(1) in simp_all)
  next
    case True
    have rc: "read_cats l0 ev m t (lp_baseline l0) (trade_cats m) = read_cats l0 ev m t b1 cats"
      using Cons.prems(4) True w r by simp
    show ?thesis
    proof (cases s)
      case (Inl e)
      show ?thesis
        by (rule continue [OF e1 _ Cons.prems(3)]) (use Inl True Cons.prems(2,5) w(1) r rb rc in simp_all)
    next
      case (Inr stats)
      have sr: "Score (NotionalUSD t) (td_Price t) (market_axis ?l1 stats) (trader_axis ?l1 (readTraderBaseline ev (td_Taker t)))
          (dt_Thresholds (lp_cfg ?l1)) = trade_score l0 ev t stats"
        using wiring_cong(3) [OF emits_wiring [OF e1]] by (simp add: trade_score_def fun_eq_iff)
      show ?thesis
      proof (cases "rs_Fired (trade_score l0 ev t stats)")
        case False
        have "?loop ?l1 bst = (l', bst')" using Cons.prems(5) True rb Inr sr False by (simp add: Let_def)
        then show ?thesis
          by (rule continue [OF e1 _ Cons.prems(3), rotated 2]) (use Inr True False Cons.prems(2) w(1) r rc in simp_all)
      next
        case fired: True
        let ?ref = "buildTradeRef m t (NotionalUSD t)"
        obtain d cs where c: "cl_Observe (lp_cluster l) (ev_now ev) cat ?ref = (d, cs)" by fastforce
        let ?l2 = "?l1\<lparr>lp_cluster := d\<rparr>"
        let ?l3 = "case cs of None \<Rightarrow> ?l2 | Some c \<Rightarrow> emitCategoryWatch ?l2 ev m t cat c"
        have vs: "verdicts l0 ev m t = (vs @ [(cat, stats, cs)]) @ cat_verdicts l0 ev m t b1 d cats"
          using Cons.prems(2) True w r Inr fired c by simp
        have e2: "emits ?Q l0 ?l2" by (rule emits_trans [OF e1 emits_state(1)])
        have e3: "emits ?Q l0 ?l3"
        proof (cases cs)
          case (Some c)
          then have "(cat, stats, Some c) \<in> set (verdicts l0 ev m t)" by (simp add: vs)
          from emits_emitCategoryWatch [OF assms(1,2) e2 this] show ?thesis by (simp add: Some)
        qed (use e2 in simp)
        have d3: "lp_baseline ?l3 = b1" "lp_cluster ?l3 = d"
          using detectors_watch [of ?l2 ev m t cat] by (simp_all add: detectors_def split: option.split)
        have "?loop ?l3 (better bst \<lparr>be_cat = cat, be_stats = stats, be_result = trade_score l0 ev t stats, be_ref = ?ref\<rparr>) = (l', bst')"
          using Cons.prems(5) True rb Inr sr fired c by (simp add: Let_def)
        then show ?thesis
          by (rule continue [OF e3 _ best_ok_better [OF Cons.prems(3)], rotated 2]) (use vs rc d3 in simp_all)
      qed
    qed
  qed
qed

lemma Observe_rejects: "\<not> live_trade l ev t \<Longrightarrow> dt_Observe l ev m t = l"
  by (auto simp: dt_Observe_def live_trade_def Let_def)

lemma Observe_eq:
  assumes "live_trade l ev t"
  shows "dt_Observe l ev m t =
    (let (pct, known) = LifecyclePct m (td_Timestamp t);
         hot = (known \<and> dt_LifecycleHotFromPct (lp_cfg l) \<le> pct);
         ts = readTraderBaseline ev (td_Taker t);
         (l1, bst) = observe_cats ev m t (NotionalUSD t) ts (alert_gate l ev m t) (trade_cats m) l None;
         l2 = (case bst of None \<Rightarrow> l1
               | Some b \<Rightarrow> emitTradeAnomaly l1 ev m t (be_cat b) (be_stats b) ts (be_result b) (be_ref b) pct hot)
     in if alert_gate l ev m t
        then evaluateAccumulationWindow (evaluateAccumulationWindow l2 ev m t (trade_cats m) ts pct hot WindowKindRecent)
               ev m t (trade_cats m) ts pct hot WindowKindLifetime
        else l2)"
proof -
  have c: "\<not> (td_Size t \<le> 0 \<or> td_Price t \<le> 0)" "\<not> NotionalUSD t \<le> 0"
    "\<not> (0 < dt_LiveAlertMaxLag (lp_cfg l) \<and> \<not> IsZero (td_Timestamp t) \<and>
        dt_LiveAlertMaxLag (lp_cfg l) < t_sub (ev_now ev) (td_Timestamp t))"
    using assms by (auto simp: live_trade_def)
  show ?thesis unfolding dt_Observe_def trade_cats_def [symmetric] by (simp only: c if_False Let_def)
qed

lemma emits_Observe: "emits (passed_gates l ev m t) l (dt_Observe l ev m t)"
proof (cases "live_trade l ev t")
  case False
  then show ?thesis by (simp add: Observe_rejects)
next
  case live: True
  obtain pct known where p: "LifecyclePct m (td_Timestamp t) = (pct, known)" by fastforce
  let ?ts = "readTraderBaseline ev (td_Taker t)" and ?hot = "known \<and> dt_LifecycleHotFromPct (lp_cfg l) \<le> pct"
  let ?Q = "passed_gates l ev m t"
  obtain l1 bst where o: "observe_cats ev m t (NotionalUSD t) ?ts (alert_gate l ev m t) (trade_cats m) l None = (l1, bst)"
    by fastforce
  show ?thesis
  proof (cases "alert_gate l ev m t")
    case False
    then have "emits ?Q l l1" "bst = None"
      using observe_cats_closed [of ev m t "NotionalUSD t" ?ts "trade_cats m" l None l1 ?Q] o by auto
    then show ?thesis using Observe_eq [OF live, of m] False p o by (simp add: Let_def)
  next
    case gate: True
    have "emits ?Q l l1 \<and> best_ok l ev m t (verdicts l ev m t) bst \<and>
        lp_baseline l1 = read_cats l ev m t (lp_baseline l) (trade_cats m)"
      by (rule emits_observe_cats [OF live gate emits_refl, of "[]" "trade_cats m" None l1 bst])
        (use o gate in \<open>simp_all add: best_ok_def verdicts_def\<close>)
    then have e1: "emits ?Q l l1" and b: "best_ok l ev m t (verdicts l ev m t) bst" and h1: "hist_ok l ev m t l1"
      using hist_ok_start by blast+
    define l2 where "l2 = (case bst of None \<Rightarrow> l1
        | Some b \<Rightarrow> emitTradeAnomaly l1 ev m t (be_cat b) (be_stats b) ?ts (be_result b) (be_ref b) pct ?hot)"
    have e2: "emits ?Q l l2"
    proof (cases bst)
      case (Some bb)
      then obtain cs where bb: "(be_cat bb, be_stats bb, cs) \<in> set (verdicts l ev m t)"
        "be_ref bb = buildTradeRef m t (NotionalUSD t)" "be_result bb = trade_score l ev t (be_stats bb)"
        "\<forall>(cat, stats, cs) \<in> set (verdicts l ev m t). rank (rs_Severity (trade_score l ev t stats)) \<le> rank (rs_Severity (trade_score l ev t (be_stats bb)))"
        using b by (auto simp: best_ok_def)
      show ?thesis using emits_emitTradeAnomaly [OF live gate e1 bb(1,4)] by (simp add: l2_def Some bb(2,3))
    qed (simp add: l2_def e1)
    have "lp_baseline l2 = lp_baseline l1" by (simp add: l2_def baseline_tradeAnomaly split: option.split)
    then have h2: "hist_ok l ev m t l2" using h1 hist_ok_cong by blast
    have step: "emits ?Q l (evaluateAccumulationWindow l' ev m t (trade_cats m) ?ts pct ?hot wk) \<and>
        hist_ok l ev m t (evaluateAccumulationWindow l' ev m t (trade_cats m) ?ts pct ?hot wk)"
      if "emits ?Q l l'" "hist_ok l ev m t l'" "wk = WindowKindRecent \<or> wk = WindowKindLifetime" for l' wk
      by (rule emits_accumulation [OF live gate that]) (simp_all add: p)
    have "dt_Observe l ev m t = evaluateAccumulationWindow
        (evaluateAccumulationWindow l2 ev m t (trade_cats m) ?ts pct ?hot WindowKindRecent) ev m t (trade_cats m) ?ts pct ?hot WindowKindLifetime"
      using Observe_eq [OF live, of m] gate p o by (simp add: l2_def Let_def)
    then show ?thesis using step [of "evaluateAccumulationWindow l2 ev m t (trade_cats m) ?ts pct ?hot WindowKindRecent" WindowKindLifetime]
      step [OF e2 h2, of WindowKindRecent] by simp
  qed
qed

subsection \<open>Properties\<close>

text \<open>C2. No finding leaves the loop ungated: whatever the environment answers, each event of one
  \<open>Observe\<close> is about a finding that passed the gates of its kind. For every kind the trade is live
  (positive size, price and notional, not older than the lag bound), the market is in its alert
  window, and the category is one of the market's and on the whitelist. A single-trade finding is
  about this trade; it carries the category and severity of a verdict of the scorer on the
  baseline just read, no verdict of the trade is higher, and the market maker filter did not veto
  it. A category watch carries the very cluster the detector reported for this trade (it is sent
  before the filter is asked). An accumulation finding has the severity of the verdict on the line
  that the repository reports for this wallet, market, outcome and side, and was not vetoed. An
  ownership finding has the severity of the verdict on the shares reported for them, was not
  vetoed, and there was a recent accumulation verdict before it. Otherwise nothing leaves.\<close>

theorem observe_gates:
  "\<exists>es. lp_out (dt_Observe l ev m t) = lp_out l @ es \<and> list_all (about (passed_gates l ev m t)) es \<and>
     (es = [] \<or> live_trade l ev t \<and> alert_gate l ev m t)"
proof -
  obtain es where es: "lp_out (dt_Observe l ev m t) = lp_out l @ es" "list_all (about (passed_gates l ev m t)) es"
    using emits_Observe [of l ev m t] unfolding emits_def emitted_def by blast
  have "es = [] \<or> live_trade l ev t \<and> alert_gate l ev m t"
  proof (cases es)
    case (Cons e es')
    then show ?thesis using es(2) by (cases e) (auto simp: passed_gates_def)
  qed simp
  then show ?thesis using es by blast
qed

text \<open>C19. The dedup gate. With an alert table wired, the findings one \<open>Observe\<close> sends to the realtime sinks
  are exactly those whose row it created; the created keys are pairwise distinct, were not in the
  table before and are in it afterwards, with nothing else added, and the table changed by
  insertions only. Without a table nothing is created.\<close>

theorem observe_dedup:
  "\<exists>es. lp_out (dt_Observe l ev m t) = lp_out l @ es \<and> distinct (created_keys es) \<and>
     set (created_keys es) \<inter> al_keys (lp_db l) = {} \<and>
     al_keys (lp_db (dt_Observe l ev m t)) = al_keys (lp_db l) \<union> set (created_keys es) \<and>
     inserts\<^sup>*\<^sup>* (lp_db l) (lp_db (dt_Observe l ev m t)) \<and>
     (if dt_Alerts (lp_cfg l) then notified_keys es = created_keys es else created_keys es = [])"
  using emits_Observe [of l ev m t] unfolding emits_def emitted_def by blast

lemma emits_cats:
  assumes "\<And>l cat cs. Q (watchFinding l ev m t cat cs)"
    and "\<And>b. bst = Some b \<Longrightarrow> tf_Wallet (be_ref b) = td_Taker t"
    and "observe_cats ev m t n ts gated cats l bst = (l', bst')"
  shows "emits Q l l' \<and> (\<forall>b. bst' = Some b \<longrightarrow> tf_Wallet (be_ref b) = td_Taker t)"
  using assms(2,3)
proof (induction cats arbitrary: l bst)
  case (Cons cat cats)
  let ?loop = "observe_cats ev m t n ts gated cats"
  have continue: ?case if "emits Q l l2" "\<And>b. b2 = Some b \<Longrightarrow> tf_Wallet (be_ref b) = td_Taker t"
      "?loop l2 b2 = (l', bst')" for l2 b2
    using Cons.IH [OF that(2,3)] emits_trans [OF that(1)] by blast
  obtain l1 s where r: "readBaseline l ev \<lparr>ky_Category = cat, ky_Market = mk_ID m, ky_OutcomeToken = td_Token t\<rparr> n (td_Timestamp t) = (l1, s)"
    by fastforce
  note e1 = emits_readBaseline [OF r, of Q]
  let ?sr = "\<lambda>stats. Score n (td_Price t) (market_axis l1 stats) (trader_axis l1 ts) (dt_Thresholds (lp_cfg l1))"
  show ?case
  proof (cases "\<exists>stats. dt_allowed l cat \<and> s = Inr stats \<and> gated \<and> rs_Fired (?sr stats)")
    case False
    then have "?loop l bst = (l', bst') \<or> ?loop l1 bst = (l', bst')"
      using Cons.prems(2) r by (cases s) (auto simp: Let_def split: if_splits)
    then show ?thesis using continue [OF emits_refl Cons.prems(1)] continue [OF e1 Cons.prems(1)] by blast
  next
    case True
    then obtain stats where s: "dt_allowed l cat" "s = Inr stats" gated "rs_Fired (?sr stats)" by blast
    let ?ref = "buildTradeRef m t n" and ?b = "\<lparr>be_cat = cat, be_stats = stats, be_result = ?sr stats, be_ref = buildTradeRef m t n\<rparr>"
    obtain cl cs where c: "cl_Observe (lp_cluster l1) (ev_now ev) cat ?ref = (cl, cs)" by fastforce
    let ?l3 = "case cs of None \<Rightarrow> l1\<lparr>lp_cluster := cl\<rparr> | Some c \<Rightarrow> emitCategoryWatch (l1\<lparr>lp_cluster := cl\<rparr>) ev m t cat c"
    have l3: "emits Q l ?l3"
      using emits_trans [OF emits_trans [OF e1 emits_state(1)] emits_watch [where Q = Q, OF assms(1)]]
        emits_trans [OF e1 emits_state(1)] by (cases cs) simp_all
    have "?loop ?l3 (better bst ?b) = (l', bst')" using Cons.prems(2) s r c by (simp add: Let_def)
    then show ?thesis
      by (rule continue [OF l3, rotated]) (use Cons.prems(1) in \<open>auto simp: better_def buildTradeRef_def split: option.splits if_splits\<close>)
  qed
qed simp

text \<open>A market without categories never gives an accumulation or ownership finding, whatever the wallet
  does: the trade is bucketed under category 0, and category 0 makes the accumulation path return.
  Only single-trade and category watch findings can leave.\<close>

theorem uncategorised_no_accumulation:
  "\<exists>es. lp_out (dt_Observe l ev (m\<lparr>mk_Categories := []\<rparr>) t) = lp_out l @ es \<and>
     list_all (about (\<lambda>f. fi_Kind f = KindTradeAnomaly \<or> fi_Kind f = KindCategoryWatch)) es"
proof -
  let ?m = "m\<lparr>mk_Categories := []\<rparr>" and ?Q = "\<lambda>f. fi_Kind f = KindTradeAnomaly \<or> fi_Kind f = KindCategoryWatch"
  have acc: "evaluateAccumulationWindow l' ev ?m t [0] ts pct hot wk = l'" for l' ts pct hot wk
    by (auto simp: evaluateAccumulationWindow_def Let_def split: option.splits)
  have "emits ?Q l (dt_Observe l ev ?m t)"
  proof (cases "live_trade l ev t")
    case True
    obtain pct known where p: "LifecyclePct ?m (td_Timestamp t) = (pct, known)" by fastforce
    obtain l1 bst where o: "observe_cats ev ?m t (NotionalUSD t) (readTraderBaseline ev (td_Taker t)) (alert_gate l ev ?m t) [0] l None = (l1, bst)"
      by fastforce
    have e: "emits ?Q l l1" "\<forall>b. bst = Some b \<longrightarrow> tf_Wallet (be_ref b) = td_Taker t"
      using emits_cats [where Q = ?Q, OF _ _ o] by (simp_all add: watchFinding_core)
    define l2 where "l2 = (case bst of None \<Rightarrow> l1
        | Some b \<Rightarrow> emitTradeAnomaly l1 ev ?m t (be_cat b) (be_stats b) (readTraderBaseline ev (td_Taker t)) (be_result b)
            (be_ref b) pct (known \<and> dt_LifecycleHotFromPct (lp_cfg l) \<le> pct))"
    have cats: "trade_cats ?m = [0]" by (simp add: trade_cats_def)
    have "dt_Observe l ev ?m t = l2"
      unfolding Observe_eq [OF True] p prod.case Let_def cats o acc if_cancel l2_def by (rule refl)
    moreover have "emits ?Q l l2"
    proof (cases bst)
      case (Some b)
      then have "emits ?Q l1 l2"
        using e(2) unfolding l2_def by (simp only: option.case) (rule emits_tradeAnomaly [where Q = ?Q]; simp)
      then show ?thesis by (rule emits_trans [OF e(1)])
    qed (simp add: l2_def e(1))
    ultimately show ?thesis by simp
  qed (simp add: Observe_rejects)
  then show ?thesis unfolding emits_def emitted_def by blast
qed

end
