(* ===== verification/Detection.thy ===== *)
theory Detection
  imports TradeTable Catalog
begin

text \<open>
  The detection worker (package detection): it leases stored trades, passes each to the observer
  and marks it. The observer is a parameter that acts on a state of its own and may panic
  (\<open>Some\<close> the panic message). A schedule says what the outside does: per claim the time, the rows
  other transactions hold and the markets table, per trade the market cache at that moment, the
  observer's environment, and whether the mark is written. A schedule with fewer trade events
  than rows is a process that dies in between.
\<close>

subsection \<open>The worker\<close>

record dw_Config =
  dw_Workers :: int
  dw_ClaimLimit :: int
  dw_Interval :: duration
  dw_StaleThreshold :: duration
  dw_ClaimTTL :: duration
  dw_WorkerID :: string

text \<open>\<open>host\<close> is the default worker id, host name and process id.\<close>

definition dw_applyDefaults :: "string \<Rightarrow> dw_Config \<Rightarrow> dw_Config" where
  "dw_applyDefaults host c =
     (let c = (if dw_Workers c \<le> 0 then c\<lparr>dw_Workers := 16\<rparr> else c);
          c = (if dw_ClaimLimit c \<le> 0 then c\<lparr>dw_ClaimLimit := 500\<rparr> else c);
          c = (if dw_Interval c \<le> 0 then c\<lparr>dw_Interval := 5 * Second\<rparr> else c);
          c = (if dw_ClaimTTL c \<le> 0 then c\<lparr>dw_ClaimTTL := 5 * Minute\<rparr> else c);
          c = (if dw_WorkerID c = '''' then c\<lparr>dw_WorkerID := host\<rparr> else c)
      in c)"

definition SkipReasonTooOldForLiveAlert :: string where
  "SkipReasonTooOldForLiveAlert = ''too_old_for_live_alert''"

definition SkipReasonMarketUnknown :: string where
  "SkipReasonMarketUnknown = ''market_unknown''"

record ('e, 's) dw_Worker =
  dw_cfg :: dw_Config
  dw_observe :: "'e \<Rightarrow> 's \<Rightarrow> Market \<Rightarrow> Trade \<Rightarrow> 's \<times> string option"
  dw_resolveWallet :: "(int \<Rightarrow> string) option"

definition dw_New :: "string \<Rightarrow> dw_Config \<Rightarrow> ('e \<Rightarrow> 's \<Rightarrow> Market \<Rightarrow> Trade \<Rightarrow> 's \<times> string option)
    \<Rightarrow> (int \<Rightarrow> string) option \<Rightarrow> ('e, 's) dw_Worker" where
  "dw_New host cfg observe resolve =
     \<lparr>dw_cfg = dw_applyDefaults host cfg, dw_observe = observe, dw_resolveWallet = resolve\<rparr>"

record 'e trade_event =
  te_cache :: Cache
  te_env :: 'e
  te_dbNow :: time
  te_dbOK :: bool

record 'e claim_round =
  cr_ctxDone :: bool
  cr_claimErr :: "string option"
  cr_dbNow :: time
  cr_locked :: "int set"
  cr_markets :: "int \<Rightarrow> string option"
  cr_now :: time
  cr_events :: "'e trade_event list"

text \<open>The trade of a row; without a resolved wallet the taker stays empty.\<close>

definition row_trade :: "(int \<Rightarrow> string) option \<Rightarrow> Market \<Rightarrow> PendingDetectionTrade \<Rightarrow> Trade" where
  "row_trade resolve m row =
     (let t = \<lparr>td_ID = pd_ExternalID row, td_Market = mk_ID m, td_Token = pd_OutcomeToken row, td_Side = pd_Side row,
               td_Price = pd_Price row, td_Size = pd_SizeShares row, td_Timestamp = pd_TradedAt row,
               td_TxHash = pd_TxHash row, td_Taker = '''', td_Maker = ''''\<rparr>
      in case (pd_TraderID row, resolve) of
           (Some i, Some f) \<Rightarrow> if f i \<noteq> '''' then t\<lparr>td_Taker := f i\<rparr> else t
         | _ \<Rightarrow> t)"

definition safeObserve :: "('e, 's) dw_Worker \<Rightarrow> 'e \<Rightarrow> 's \<Rightarrow> Market \<Rightarrow> Trade \<Rightarrow> 's \<times> string option" where
  "safeObserve W env s m t =
     (case dw_observe W env s m t of
        (s, None) \<Rightarrow> (s, None)
      | (s, Some v) \<Rightarrow> (s, Some (''panic in observe: '' @ v)))"

definition too_old :: "('e, 's) dw_Worker \<Rightarrow> time \<Rightarrow> PendingDetectionTrade \<Rightarrow> bool" where
  "too_old W now row \<longleftrightarrow> 0 < dw_StaleThreshold (dw_cfg W) \<and> \<not> IsZero (pd_TradedAt row) \<and>
     dw_StaleThreshold (dw_cfg W) < t_sub now (pd_TradedAt row)"

definition dw_handle :: "('e, 's) dw_Worker \<Rightarrow> time \<Rightarrow> PendingDetectionTrade \<Rightarrow> 'e trade_event \<Rightarrow> TradeTable \<times> 's
    \<Rightarrow> TradeTable \<times> 's" where
  "dw_handle W now row e st =
     (let mark = (\<lambda>f tbl. if te_dbOK e then f (te_dbNow e) (pd_ID row) tbl else tbl)
      in case cache_Get (te_cache e) (pd_MarketConditionID row) of
           None \<Rightarrow> (mark (\<lambda>t i. MarkDetectionSkipped t i SkipReasonMarketUnknown) (fst st), snd st)
         | Some m \<Rightarrow>
             (case safeObserve W (te_env e) (snd st) m (row_trade (dw_resolveWallet W) m row) of
                (s, Some err) \<Rightarrow> (mark (\<lambda>t i. MarkDetectionFailed t i err) (fst st), s)
              | (s, None) \<Rightarrow>
                  if too_old W now row
                  then (mark (\<lambda>t i. MarkDetectionSkipped t i SkipReasonTooOldForLiveAlert) (fst st), s)
                  else (mark MarkDetectionAnalyzed (fst st), s)))"

fun handle_loop :: "('e, 's) dw_Worker \<Rightarrow> time \<Rightarrow> PendingDetectionTrade list \<Rightarrow> 'e trade_event list \<Rightarrow> TradeTable \<times> 's
    \<Rightarrow> TradeTable \<times> 's" where
  "handle_loop W now (row # rows) (e # es) st = handle_loop W now rows es (dw_handle W now row e st)"
| "handle_loop W now _ _ st = st"

definition processOne :: "('e, 's) dw_Worker \<Rightarrow> 'e claim_round \<Rightarrow> TradeTable \<times> 's \<Rightarrow> (TradeTable \<times> 's) \<times> (string + int)" where
  "processOne W r st =
     (case cr_claimErr r of
        Some e \<Rightarrow> (st, Inl (''claim undetected: '' @ e))
      | None \<Rightarrow>
          (case ClaimUndetectedTrades (cr_markets r) (cr_dbNow r) (dw_WorkerID (dw_cfg W)) (dw_ClaimLimit (dw_cfg W))
                  (dw_ClaimTTL (dw_cfg W)) (cr_locked r) (fst st) of
             (tbl, rows) \<Rightarrow> (handle_loop W (cr_now r) rows (cr_events r) (tbl, snd st), Inr (int (length rows)))))"

text \<open>\<open>drainLoop\<close> with fuel; round \<open>k\<close> of the schedule is its \<open>k\<close>-th claim.\<close>

fun drainLoop :: "('e, 's) dw_Worker \<Rightarrow> (nat \<Rightarrow> 'e claim_round) \<Rightarrow> nat \<Rightarrow> nat \<Rightarrow> TradeTable \<times> 's
    \<Rightarrow> (TradeTable \<times> 's) option" where
  "drainLoop W rs 0 k st = None"
| "drainLoop W rs (Suc fuel) k st =
     (if cr_ctxDone (rs k) then Some st
      else case processOne W (rs k) st of
             (st, Inl e) \<Rightarrow> Some st
           | (st, Inr n) \<Rightarrow> if n = 0 then Some st else drainLoop W rs fuel (Suc k) st)"

text \<open>One tick, its goroutines run one after the other; the runs below interleave them freely.\<close>

fun drain_workers :: "('e, 's) dw_Worker \<Rightarrow> nat \<Rightarrow> (nat \<Rightarrow> 'e claim_round) list \<Rightarrow> TradeTable \<times> 's
    \<Rightarrow> (TradeTable \<times> 's) option" where
  "drain_workers W fuel [] st = Some st"
| "drain_workers W fuel (rs # rss) st =
     (case drainLoop W rs fuel 0 st of None \<Rightarrow> None | Some st \<Rightarrow> drain_workers W fuel rss st)"

definition dw_tick :: "('e, 's) dw_Worker \<Rightarrow> bool \<Rightarrow> time \<Rightarrow> nat \<Rightarrow> (nat \<Rightarrow> 'e claim_round) list \<Rightarrow> TradeTable \<times> 's
    \<Rightarrow> (TradeTable \<times> 's) option" where
  "dw_tick W resetOK dbNow fuel rss st =
     (let tbl = (if resetOK then fst (ResetStaleDetectionClaims dbNow (dw_ClaimTTL (dw_cfg W)) (fst st)) else fst st)
      in drain_workers W fuel (take (nat (dw_Workers (dw_cfg W))) rss) (tbl, snd st))"

subsection \<open>What one pass does to the table\<close>

text \<open>The rows \<open>ids\<close> are marked, the others are left alone.\<close>

definition marked_only :: "int set \<Rightarrow> TradeTable \<Rightarrow> TradeTable \<Rightarrow> bool" where
  "marked_only ids tbl tbl' \<longleftrightarrow> tt_inv tbl' \<and> tt_follows tbl tbl' \<and> (\<forall>i. tt_find tbl' i = None \<longleftrightarrow> tt_find tbl i = None) \<and>
     (\<forall>i. i \<notin> ids \<longrightarrow> tt_find tbl' i = tt_find tbl i) \<and> (\<forall>i \<in> ids. tt_find tbl i \<noteq> None \<longrightarrow> detected_in tbl' i)"


lemma marked_only_mark: "tt_inv tbl \<Longrightarrow> marked_only {i} tbl (q_marked n i m tbl)"
proof -
  assume inv: "tt_inv tbl"
  obtain f where f: "q_marked n i m tbl = tt_update (\<lambda>r. tx_ID r = i) f tbl"
    "\<And>r. tx_ID (f r) = tx_ID r \<and> tx_DedupKey (f r) = tx_DedupKey r \<and> row_ok (f r) \<and> row_follows r (f r) \<and>
      tx_DetectedAt (f r) = Some n"
    using q_marked_update [of n i m tbl] by blast
  have find: "tt_find (tt_update (\<lambda>r. tx_ID r = i) f tbl) j = map_option (\<lambda>r. if tx_ID r = i then f r else r) (tt_find tbl j)" for j
    by (rule tt_find_update) (use f(2) in simp)
  have "tt_inv (tt_update (\<lambda>r. tx_ID r = i) f tbl)" by (rule tt_inv_update [OF _ _ _ inv]) (use f(2) in auto)
  moreover have "tt_follows tbl (tt_update (\<lambda>r. tx_ID r = i) f tbl)" by (rule tt_follows_update) (use f(2) in auto)
  ultimately show ?thesis using f(2) unfolding marked_only_def f(1)
    by (auto simp: find detected_in_def map_option_case split: option.splits dest: tt_find_Some)
qed

lemma handle_marks:
  assumes "te_dbOK e"
  shows "\<exists>m. fst (dw_handle W now row e st) = q_marked (te_dbNow e) (pd_ID row) m (fst st)"
proof -
  have "fst (dw_handle W now row e st) \<in> range (\<lambda>m. q_marked (te_dbNow e) (pd_ID row) m (fst st))"
    unfolding dw_handle_def Let_def using assms
    by (auto simp: image_iff split: option.split prod.split if_split)
      (metis q_marked.simps)+
  then show ?thesis by auto
qed





























lemma leasable_later: "leasable n ttl r \<Longrightarrow> n \<le> n' \<Longrightarrow> leasable n' ttl r"
  by (auto simp: leasable_def split: option.splits)


subsection \<open>Every waiting trade is processed\<close>




text \<open>Two stored trades, one of them leased by a worker that died six minutes ago, drained one by one.\<close>

definition dn_worker :: "(unit, Trade list) dw_Worker" where
  "dn_worker = dw_New ''h:1'' \<lparr>dw_Workers = 0, dw_ClaimLimit = 1, dw_Interval = 0, dw_StaleThreshold = 0, dw_ClaimTTL = 0,
     dw_WorkerID = ''''\<rparr> (\<lambda>e s m t. (s @ [t], None)) None"

definition dn_cache :: Cache where
  "dn_cache = \<lparr>ca_markets = [''c'' \<mapsto> \<lparr>mk_ID = ''c'', mk_Slug = '''', mk_Question = '''', mk_ConditionID = ''c'',
     mk_TokenIDs = [], mk_Outcomes = [], mk_Categories = [], mk_EventSlug = '''', mk_EventTitle = '''', mk_Active = True,
     mk_Closed = False, mk_StartDate = 0, mk_EndDate = 0, mk_Volume = 0, mk_Volume24h = 0, mk_Liquidity = 0\<rparr>],
     ca_categories = Map.empty\<rparr>"

definition dn_rounds :: "bool \<Rightarrow> time \<Rightarrow> nat \<Rightarrow> unit claim_round" where
  "dn_rounds ok n k = \<lparr>cr_ctxDone = False, cr_claimErr = None, cr_dbNow = n, cr_locked = {}, cr_markets = (\<lambda>i. Some ''c''),
     cr_now = n, cr_events = [\<lparr>te_cache = dn_cache, te_env = (), te_dbNow = n, te_dbOK = ok\<rparr>]\<rparr>"

definition dn_table :: TradeTable where
  "dn_table = \<lparr>tt_rows = [lease Second ''w0'' (new_row 0 1 ''a'' (q_trade ''a'')), new_row 0 2 ''b'' (q_trade ''b'')], tt_next = 3\<rparr>"


subsection \<open>Draining ends\<close>

definition free_to_lease :: "('e, 's) dw_Worker \<Rightarrow> time \<Rightarrow> TradeTable \<Rightarrow> int set" where
  "free_to_lease W n tbl = {i. \<exists>r. tt_find tbl i = Some r \<and> leasable n (dw_ClaimTTL (dw_cfg W)) r}"

lemma free_finite: "finite (free_to_lease W n tbl) \<and> card (free_to_lease W n tbl) \<le> length (tt_rows tbl)"
proof -
  have sub: "free_to_lease W n tbl \<subseteq> tx_ID ` set (tt_rows tbl)"
    by (auto simp: free_to_lease_def dest!: tt_find_Some)
  then show ?thesis
    using card_mono [OF _ sub] card_image_le [of "set (tt_rows tbl)" tx_ID] card_length [of "tt_rows tbl"]
      finite_subset [OF sub] by simp
qed

lemma handle_frees:
  assumes "tt_inv (fst st)"
  shows "tt_inv (fst (dw_handle W now row e st)) \<and> free_to_lease V n (fst (dw_handle W now row e st)) \<subseteq> free_to_lease V n (fst st)"
proof (cases "te_dbOK e")
  case True
  obtain m where m: "fst (dw_handle W now row e st) = q_marked (te_dbNow e) (pd_ID row) m (fst st)"
    using handle_marks [OF True] by blast
  have mo: "marked_only {pd_ID row} (fst st) (q_marked (te_dbNow e) (pd_ID row) m (fst st))"
    by (rule marked_only_mark [OF assms])
  have "i \<in> free_to_lease V n (fst st)" if i: "i \<in> free_to_lease V n (q_marked (te_dbNow e) (pd_ID row) m (fst st))" for i
  proof (cases "i = pd_ID row")
    case True
    obtain r where r: "tt_find (q_marked (te_dbNow e) (pd_ID row) m (fst st)) i = Some r" "tx_DetectedAt r = None"
      using i by (auto simp: free_to_lease_def leasable_def)
    then have "tt_find (fst st) i \<noteq> None" using mo by (metis marked_only_def option.distinct(1))
    then have "detected_in (q_marked (te_dbNow e) (pd_ID row) m (fst st)) i" using mo True by (simp add: marked_only_def)
    then show ?thesis using r by (simp add: detected_in_def)
  next
    case False
    then show ?thesis using mo i by (simp add: marked_only_def free_to_lease_def)
  qed
  then show ?thesis using mo unfolding m by (auto simp: marked_only_def)
next
  case False
  then have "fst (dw_handle W now row e st) = fst st"
    by (simp add: dw_handle_def Let_def split: option.split prod.split)
  then show ?thesis using assms by simp
qed

lemma handle_loop_frees:
  "tt_inv (fst st) \<Longrightarrow> tt_inv (fst (handle_loop W now rows es st)) \<and>
   free_to_lease V n (fst (handle_loop W now rows es st)) \<subseteq> free_to_lease V n (fst st)"
proof (induction W now rows es st rule: handle_loop.induct)
  case (1 W now row rows e es st)
  have "tt_inv (fst (dw_handle W now row e st))" "free_to_lease V n (fst (dw_handle W now row e st)) \<subseteq> free_to_lease V n (fst st)"
    using handle_frees [OF 1(2), of W now row e V n] by blast+
  then show ?case using 1(1) by fastforce
qed simp_all

lemma process_frees:
  assumes "tt_inv tbl" "processOne W r (tbl, s) = ((tbl', s'), Inr k)" "k \<noteq> 0"
    and "cr_dbNow r \<le> n" "n \<le> cr_dbNow r + interval (dw_ClaimTTL (dw_cfg W))"
  shows "tt_inv tbl'" "free_to_lease W n tbl' \<subset> free_to_lease W n tbl"
proof -
  let ?ttl = "dw_ClaimTTL (dw_cfg W)"
  obtain t1 rows where c: "ClaimUndetectedTrades (cr_markets r) (cr_dbNow r) (dw_WorkerID (dw_cfg W)) (dw_ClaimLimit (dw_cfg W))
      ?ttl (cr_locked r) tbl = (t1, rows)" by fastforce
  then have h: "handle_loop W (cr_now r) rows (cr_events r) (t1, s) = (tbl', s')" "k = int (length rows)"
    using assms(2) by (auto simp: processOne_def split: option.splits)
  note cs = claim_shape [OF assms(1) c]
  have l: "tt_inv tbl'" "free_to_lease W n tbl' \<subseteq> free_to_lease W n t1"
    using handle_loop_frees [of "(t1, s)" W "cr_now r" rows "cr_events r" W n] cs(1) h(1) by simp_all
  have t1: "i \<in> free_to_lease W n t1 \<Longrightarrow> i \<in> free_to_lease W n tbl \<and> i \<notin> pd_ID ` set rows" for i
  proof -
    assume i: "i \<in> free_to_lease W n t1"
    have "i \<notin> pd_ID ` set rows"
    proof
      assume "i \<in> pd_ID ` set rows"
      then have "\<exists>x. leasable n ?ttl (lease (cr_dbNow r) (dw_WorkerID (dw_cfg W)) x)"
        using i by (auto simp: free_to_lease_def cs(3))
      then show False using assms(5) by (auto simp: leasable_def)
    qed
    then show ?thesis using i by (auto simp: free_to_lease_def cs(3) map_option_case split: option.splits)
  qed
  obtain p where p: "p \<in> set rows" using assms(3) h(2) by (cases rows) auto
  then have "pd_ID p \<in> free_to_lease W n tbl"
    using cs(4) [OF p] leasable_later [OF _ assms(4)] by (auto simp: free_to_lease_def)
  then show "tt_inv tbl'" "free_to_lease W n tbl' \<subset> free_to_lease W n tbl" using l t1 p by blast+
qed

lemma drain_stops:
  assumes "\<And>j. cr_dbNow (rs j) \<le> n" "\<And>j. n \<le> cr_dbNow (rs j) + interval (dw_ClaimTTL (dw_cfg W))"
    and "tt_inv tbl" "card (free_to_lease W n tbl) < fuel"
  shows "drainLoop W rs fuel k (tbl, s) \<noteq> None"
  using assms(3,4)
proof (induction fuel arbitrary: k tbl s)
  case (Suc fuel)
  obtain tbl' s' res where p: "processOne W (rs k) (tbl, s) = ((tbl', s'), res)" by (metis surj_pair)
  show ?case
  proof (cases "cr_ctxDone (rs k) \<or> (\<exists>e. res = Inl e) \<or> res = Inr 0")
    case True
    then show ?thesis using p by auto
  next
    case False
    then obtain j where j: "res = Inr j" "j \<noteq> 0" by (cases res) auto
    have f: "tt_inv tbl'" "free_to_lease W n tbl' \<subset> free_to_lease W n tbl"
      by (rule process_frees [OF Suc.prems(1) p [unfolded j(1)] j(2) assms(1,2)])+
    have "card (free_to_lease W n tbl') < fuel"
      using psubset_card_mono [OF _ f(2)] free_finite Suc.prems(2) by fastforce
    then show ?thesis using Suc.IH [OF f(1)] p j False by simp
  qed
qed simp

text \<open>C30. Draining terminates even when marks are lost, claims fail, other transactions hold rows or the
  process dies in the middle of a batch: within the lease duration a row is leased at most once by
  the loop, so it stops after at most one round per row of the table plus one.\<close>

theorem drain_terminates:
  assumes "tt_inv tbl" "\<And>j. cr_dbNow (rs j) \<le> n" "\<And>j. n \<le> cr_dbNow (rs j) + interval (dw_ClaimTTL (dw_cfg W))"
    and "length (tt_rows tbl) < fuel"
  shows "drainLoop W rs fuel k (tbl, s) \<noteq> None"
  by (rule drain_stops [OF assms(2,3,1)]) (use free_finite [of W n tbl] assms(4) in simp)

lemma drain_terminates_witness:
  "map_option (\<lambda>st. map tx_Status (tt_rows (fst st))) (drainLoop dn_worker (dn_rounds False (6 * Minute)) 3 0 (dn_table, [])) =
   Some [None, None]"
proof -
  have h: "tt_inv dn_table" by (simp add: tt_inv_def dn_table_def row_ok_def lease_def new_row_def)
  have t: "cr_dbNow (dn_rounds False (6 * Minute) j) \<le> 6 * Minute"
    "6 * Minute \<le> cr_dbNow (dn_rounds False (6 * Minute) j) + interval (dw_ClaimTTL (dw_cfg dn_worker))" for j
    by (simp_all add: dn_rounds_def) (code_simp)
  have l: "length (tt_rows dn_table) < 3" by (simp add: dn_table_def)
  have "drainLoop dn_worker (dn_rounds False (6 * Minute)) 3 0 (dn_table, []) \<noteq> None"
    by (rule drain_terminates [OF h t l])
  moreover have "map_option (\<lambda>st. map tx_Status (tt_rows (fst st)))
      (drainLoop dn_worker (dn_rounds False (6 * Minute)) 3 0 (dn_table, [])) = Some [None, None]" by code_simp
  ultimately show ?thesis by simp
qed

text \<open>The queue is not exactly-once: when the mark of an observed trade is lost the lease runs out, and the
  next drain passes the same trade to the observer again.\<close>

theorem lost_mark_observes_twice:
  "map_option (\<lambda>st. (map td_ID (snd st), map tx_Attempts (tt_rows (fst st))))
     (case drainLoop dn_worker (dn_rounds False (6 * Minute)) 3 0 (dn_table, []) of
        None \<Rightarrow> None | Some st \<Rightarrow> drainLoop dn_worker (dn_rounds True (12 * Minute)) 3 0 st) =
   Some ([''b'', ''a'', ''b'', ''a''], [1, 1])"
  by code_simp

end
