(* ===== verification/System.thy ===== *)
theory System
  imports AlertSender DetectProps Detection
begin

text \<open>
  The detect loop and the alert sender on one alert table: trades are observed, the sender drains the
  queue, and the process is restarted (a new loop over the table it finds), in any order. The
  state is the loop, whose table both sides share, and the list of the requests made to Telegram.
\<close>

type_synonym wt_state = "Loop \<times> delivery list"

datatype wt_op = WTrade dt_Env Market Trade | WDrain sd_pass | WRestart dt_Config Cache

fun wt_step :: "'f Pipeline \<Rightarrow> as_Config \<Rightarrow> wt_state \<Rightarrow> wt_op \<Rightarrow> wt_state" where
  "wt_step P sc (l, lg) (WTrade ev m t) = (dt_Observe l ev m t, lg)"
| "wt_step P sc (l, lg) (WDrain p) =
     (case drain sql_store P sc p (lp_db l, lg) of (db, lg) \<Rightarrow> (l\<lparr>lp_db := db\<rparr>, lg))"
| "wt_step P sc (l, lg) (WRestart c cache) = ((dt_New c cache (lp_db l))\<lparr>lp_out := lp_out l\<rparr>, lg)"

definition wt_run :: "'f Pipeline \<Rightarrow> as_Config \<Rightarrow> dt_Config \<Rightarrow> Cache \<Rightarrow> wt_op list \<Rightarrow> wt_state" where
  "wt_run P sc cfg cache ops =
     foldl (wt_step P (as_New sc)) (dt_New cfg cache \<lparr>at_rows = [], at_next = 1\<rparr>, []) ops"

text \<open>The alert table is wired in every start of the process.\<close>

definition wt_ok :: "wt_op \<Rightarrow> bool" where
  "wt_ok op \<longleftrightarrow> (case op of WTrade ev m t \<Rightarrow> True | WDrain p \<Rightarrow> True | WRestart c cache \<Rightarrow> dt_Alerts c)"

text \<open>The step of a run that a row comes from.\<close>

definition origin :: "'f Pipeline \<Rightarrow> as_Config \<Rightarrow> dt_Config \<Rightarrow> Cache \<Rightarrow> wt_op list \<Rightarrow> NewAlert \<Rightarrow> bool" where
  "origin P sc cfg cache ops a \<longleftrightarrow> (\<exists>before ev m t after f. ops = before @ WTrade ev m t # after \<and>
     passed_gates (fst (wt_run P sc cfg cache before)) ev m t f \<and>
     fi_DedupKey f = na_DedupKey a \<and> fi_Kind f = na_Kind a \<and> fi_Severity f = na_Severity a)"

lemma origin_snoc: "origin P sc cfg cache ops a \<Longrightarrow> origin P sc cfg cache (ops @ [op]) a"
  unfolding origin_def by (metis append_Cons append.assoc)

subsection \<open>The table under the sender\<close>

text \<open>The sender changes what a row says of its delivery, never what it is about.\<close>

lemma cores_update:
  assumes "\<And>r. al_core (f r) = al_core r"
  shows "al_cores (al_update P f t) = al_cores t"
proof -
  have "al_core (if P r then f r else r) = al_core r" for r by (simp add: assms)
  then show ?thesis unfolding al_cores_def al_update_def by (simp add: image_image del: if_image_distrib)
qed

interpretation about_rows: alert_store sql_store "\<lambda>t. al_inv t \<and> al_cores t = K" al_find for K
proof
  have claim: "al_cores (fst (ClaimPending n k lk t)) = al_cores t" for n k lk t
    unfolding ClaimPending_def Let_def fst_conv by (rule cores_update) (simp add: al_claim_def al_core_def)
  show "al_inv t \<and> al_cores t = K \<Longrightarrow> al_inv (fst (as_ClaimPending sql_store n k lk t)) \<and>
      al_cores (fst (as_ClaimPending sql_store n k lk t)) = K" for t n k lk
    using sql.inv_claim by (simp add: sql_store_def claim)
  show "al_inv t \<and> al_cores t = K \<Longrightarrow> al_inv (as_MarkSent sql_store n i m t) \<and> al_cores (as_MarkSent sql_store n i m t) = K"
    for t n i m using sql.inv_sent [of t n i m] by (simp add: sql_store_def MarkSent_def cores_update al_core_def)
  show "al_inv t \<and> al_cores t = K \<Longrightarrow> al_inv (as_MarkFailed sql_store n i e u t) \<and>
      al_cores (as_MarkFailed sql_store n i e u t) = K" for t n i e u
    using sql.inv_failed [of t n i e u] by (simp add: sql_store_def MarkFailed_def cores_update al_core_def)
  show "al_inv t \<and> al_cores t = K \<Longrightarrow> al_inv (as_ResetStaleSending sql_store n c t) \<and>
      al_cores (as_ResetStaleSending sql_store n c t) = K" for t n c
    using sql.inv_reset [of t n c] by (simp add: sql_store_def ResetStaleSending_def cores_update al_core_def)
qed ((rule sql.claim_distinct sql.claim_row sql.claim_other sql.row_sent sql.row_failed sql.row_reset; simp)+)

lemma drain_cores: "al_inv (fst st) \<Longrightarrow> al_cores (fst (drain sql_store P sc p st)) = al_cores (fst st)"
  using about_rows.drain_keeps [of st "al_cores (fst st)" P sc p] by simp

lemma inserts_keep:
  "inserts\<^sup>*\<^sup>* db db' \<Longrightarrow> al_inv db \<Longrightarrow> al_inv db' \<and> follows al_find db db'"
proof (induction rule: rtranclp_induct)
  case base
  then show ?case by (simp add: follows_def)
next
  case (step db1 db2)
  then obtain now a where "db2 = fst (TryCreatePending now a db1)" by (auto simp: inserts_def)
  then show ?case using step follows_trans [OF _ follows_create] TryCreate_inv by metis
qed

subsection \<open>The invariant of a run\<close>

definition wt_inv :: "(NewAlert \<Rightarrow> bool) \<Rightarrow> wt_state \<Rightarrow> bool" where
  "wt_inv Q st \<longleftrightarrow> dt_Alerts (lp_cfg (fst st)) \<and> al_inv (lp_db (fst st)) \<and> delivered_inv al_find (lp_db (fst st), snd st) \<and>
     al_cores (lp_db (fst st)) = na_core ` created (lp_out (fst st)) \<and> (\<forall>a \<in> created (lp_out (fst st)). Q a) \<and>
     distinct (created_keys (lp_out (fst st))) \<and> notified_keys (lp_out (fst st)) = created_keys (lp_out (fst st))"

lemma al_keys_cores: "al_keys t = fst ` al_cores t"
  by (force simp: al_keys_def al_cores_def al_core_def image_image)

lemma created_keys_set: "set (created_keys es) = na_DedupKey ` created es"
  by (induction es rule: created_keys.induct) simp_all

lemma about_created: "list_all (about Q) es \<Longrightarrow> a \<in> created es \<Longrightarrow>
   \<exists>f. Q f \<and> na_DedupKey a = fi_DedupKey f \<and> na_Kind a = fi_Kind f \<and> na_Severity a = fi_Severity f"
  by (force simp: created_def list_all_iff)

lemma observe_inv:
  assumes "wt_inv Q (l, lg)"
    and "\<And>a f. passed_gates l ev m t f \<Longrightarrow> na_DedupKey a = fi_DedupKey f \<Longrightarrow> na_Kind a = fi_Kind f \<Longrightarrow>
      na_Severity a = fi_Severity f \<Longrightarrow> Q a"
  shows "wt_inv Q (dt_Observe l ev m t, lg)"
proof -
  let ?l = "dt_Observe l ev m t"
  obtain es where es: "lp_cfg ?l = lp_cfg l" "lp_out ?l = lp_out l @ es"
    "emitted (passed_gates l ev m t) (dt_Alerts (lp_cfg l)) (lp_db l) es (lp_db ?l)"
    using emits_Observe [of l ev m t] unfolding emits_def by blast
  have inv: "al_inv (lp_db ?l) \<and> follows al_find (lp_db l) (lp_db ?l)"
    by (rule inserts_keep) (use es(3) assms(1) in \<open>simp_all add: emitted_def wt_inv_def\<close>)
  have Q: "\<forall>a \<in> created es. Q a"
  proof
    fix a assume "a \<in> created es"
    moreover have "list_all (about (passed_gates l ev m t)) es" using es(3) unfolding emitted_def by blast
    ultimately show "Q a" using about_created [where Q = "passed_gates l ev m t"] assms(2) by blast
  qed
  have keys: "set (created_keys (lp_out l)) = al_keys (lp_db l)"
    using assms(1) by (simp add: wt_inv_def al_keys_cores created_keys_set image_image na_core_def)
  show ?thesis
    using assms(1) es inv Q keys sql.follows_delivered [of "lp_db l" lg]
    by (auto simp: wt_inv_def emitted_def image_Un)
qed

lemma drain_inv:
  assumes "wt_inv Q (l, lg)"
  shows "wt_inv Q (wt_step P sc (l, lg) (WDrain p))"
proof -
  obtain db lg' where d: "drain sql_store P sc p (lp_db l, lg) = (db, lg')" by fastforce
  have "al_inv db" "delivered_inv al_find (db, lg')" "al_cores db = al_cores (lp_db l)"
    using sql.drain_keeps [of "(lp_db l, lg)" P sc p] drain_cores [of "(lp_db l, lg)" P sc p] assms d
    by (simp_all add: wt_inv_def)
  then show ?thesis using assms(1) d by (simp add: wt_inv_def)
qed

lemma dt_New_fields: "lp_db (dt_New c cache db) = db" "lp_out (dt_New c cache db) = []"
  "dt_Alerts (lp_cfg (dt_New c cache db)) = dt_Alerts c"
  by (simp_all add: dt_New_def Let_def)

lemma restart_inv: "wt_inv Q (l, lg) \<Longrightarrow> dt_Alerts c \<Longrightarrow> wt_inv Q (wt_step P sc (l, lg) (WRestart c cache))"
  by (simp add: wt_inv_def dt_New_fields dt_New_def Let_def)

lemma wt_run_inv:
  assumes "dt_Alerts cfg" "\<forall>op \<in> set ops. wt_ok op"
  shows "wt_inv (origin P sc cfg cache ops) (wt_run P sc cfg cache ops)"
  using assms(2)
proof (induction ops rule: rev_induct)
  case Nil
  then show ?case using assms(1)
    by (simp add: wt_run_def wt_inv_def dt_New_fields al_inv_def delivered_inv_def al_cores_def)
next
  case (snoc op ops)
  let ?Q = "origin P sc cfg cache (ops @ [op])"
  obtain l lg where r: "wt_run P sc cfg cache ops = (l, lg)" by fastforce
  have step: "wt_run P sc cfg cache (ops @ [op]) = wt_step P (as_New sc) (l, lg) op"
    using r by (simp add: wt_run_def)
  have "wt_inv (origin P sc cfg cache ops) (l, lg)" using snoc r by simp
  then have inv: "wt_inv ?Q (l, lg)" unfolding wt_inv_def using origin_snoc by blast
  show ?case
  proof (cases op)
    case (WTrade ev m t)
    have "?Q a" if "passed_gates l ev m t f" "na_DedupKey a = fi_DedupKey f" "na_Kind a = fi_Kind f"
        "na_Severity a = fi_Severity f" for a f
      unfolding origin_def by (rule exI [of _ ops], rule exI [of _ ev], rule exI [of _ m], rule exI [of _ t], rule exI [of _ "[]"])
        (use that r WTrade in auto)
    then have "wt_inv ?Q (dt_Observe l ev m t, lg)" by (intro observe_inv [OF inv])
    then show ?thesis unfolding step unfolding WTrade by simp
  next
    case (WDrain p)
    then have "wt_inv ?Q (wt_step P (as_New sc) (l, lg) (WDrain p))"
      by (intro drain_inv [OF inv])
    then show ?thesis unfolding step unfolding WDrain .
  next
    case (WRestart c cache')
    then have "wt_inv ?Q (wt_step P (as_New sc) (l, lg) (WRestart c cache'))"
      using snoc.prems by (intro restart_inv [OF inv]) (simp add: wt_ok_def)
    then show ?thesis unfolding step unfolding WRestart .
  qed
qed

subsection \<open>Properties\<close>

text \<open>C1. From the trade to Telegram. In every run of observed trades, sender passes, failures and restarts
  over one table: each message sent to Telegram is about a row of the table that goes back to a trade
  of the run whose finding had passed the gates of the loop as it was at that moment, with the key,
  kind and severity the row has. Once the delivery of an alert is recorded, which marks its row
  sent, no message about it or about its dedup key follows. So no key reaches the chat twice, unless
  a message reached it whose outcome was not recorded: its answer was an error or got lost, or the
  write after it failed. The realtime sinks get each dedup key at most once, restarts included.\<close>

theorem alert_end_to_end:
  assumes "dt_Alerts cfg" "\<forall>op \<in> set ops. wt_ok op"
  shows "let (l, sends) = wt_run P sc cfg cache ops; key = alert_key (lp_db l) in
    sorted_wrt (\<lambda>d d'. \<not> (key d = key d' \<and> dl_Fate d = Recorded)) sends \<and>
    (distinct (map key (filter dl_Landed sends)) \<or> list_ex (\<lambda>d. dl_Landed d \<and> dl_Fate d \<noteq> Recorded) sends) \<and>
    distinct (notified_keys (lp_out l)) \<and>
    (\<forall>d \<in> set sends. \<exists>r before ev m t after f. al_find (lp_db l) (dl_ID d) = Some r \<and>
       (dl_Fate d = Recorded \<longrightarrow> al_Status r = AlertSent) \<and>
       ops = before @ WTrade ev m t # after \<and> passed_gates (fst (wt_run P sc cfg cache before)) ev m t f \<and>
       fi_DedupKey f = al_DedupKey r \<and> fi_Kind f = al_Kind r \<and> fi_Severity f = al_Severity r)"
proof -
  obtain l lg where r: "wt_run P sc cfg cache ops = (l, lg)" by fastforce
  have inv: "wt_inv (origin P sc cfg cache ops) (l, lg)" using wt_run_inv [OF assms, of P sc cache] r by simp
  have tbl: "al_inv (lp_db l)" "delivered_inv al_find (lp_db l, lg)"
    and cores: "al_cores (lp_db l) = na_core ` created (lp_out l)"
    and orig: "\<forall>a \<in> created (lp_out l). origin P sc cfg cache ops a"
    and keys: "distinct (notified_keys (lp_out l))"
    using inv by (simp_all add: wt_inv_def)
  note log = delivered_log [OF tbl]
  have "\<exists>r before ev m t after f. al_find (lp_db l) (dl_ID d) = Some r \<and> (dl_Fate d = Recorded \<longrightarrow> al_Status r = AlertSent) \<and>
       ops = before @ WTrade ev m t # after \<and> passed_gates (fst (wt_run P sc cfg cache before)) ev m t f \<and>
       fi_DedupKey f = al_DedupKey r \<and> fi_Kind f = al_Kind r \<and> fi_Severity f = al_Severity r" if d: "d \<in> set lg" for d
  proof -
    obtain r where ra: "al_find (lp_db l) (dl_ID d) = Some r" "dl_Fate d = Recorded \<longrightarrow> al_Status r = AlertSent"
      using log(3) [OF d] by blast
    have "al_core r \<in> al_cores (lp_db l)" using al_find_Some [OF ra(1)] by (simp add: al_cores_def)
    then obtain a where a: "origin P sc cfg cache ops a" "na_core a = al_core r" using orig unfolding cores by auto
    have c: "na_DedupKey a = al_DedupKey r" "na_Kind a = al_Kind r" "na_Severity a = al_Severity r"
      using a(2) by (simp_all add: na_core_def al_core_def)
    obtain before ev m t after f where o: "ops = before @ WTrade ev m t # after"
      "passed_gates (fst (wt_run P sc cfg cache before)) ev m t f"
      "fi_DedupKey f = al_DedupKey r" "fi_Kind f = al_Kind r" "fi_Severity f = al_Severity r"
      using a(1) unfolding origin_def c by blast
    show ?thesis
      by (rule exI [of _ r], rule exI [of _ before], rule exI [of _ ev], rule exI [of _ m], rule exI [of _ t],
          rule exI [of _ after], rule exI [of _ f]) (intro conjI ra o)
  qed
  then show ?thesis unfolding r Let_def prod.case using log(1,2) keys by blast
qed

subsection \<open>A run\<close>

text \<open>A trade of 1,500 dollars, its repetition, and a bigger trade after a restart.\<close>

definition e2e_cfg :: dt_Config where
  "e2e_cfg = \<lparr>dt_Thresholds = ladder,
     dt_Baseline = \<lparr>bc_Window = Hour, bc_MaxSamples = 100\<rparr>,
     dt_Cluster = \<lparr>cc_Window = Hour, cc_MinTrades = 5, cc_MinUniqueWallets = 2, cc_MinTotalUSD = 0,
       cc_Cooldown = Hour, cc_SampleCap = 3\<rparr>,
     dt_Filter = None, dt_PolymarketBase = '''', dt_GrafanaBase = '''', dt_GrafanaDashUID = '''', dt_GrafanaContext = 0,
     dt_LifecycleAlertFromPct = 0, dt_LifecycleHotFromPct = fl 90, dt_MarketMinAge = 0, dt_BaselineMinReadySpan = 0,
     dt_LiveAlertMaxLag = 0, dt_MinTraderHistoryTrades = 0, dt_Accumulator = None, dt_Ownership = None,
     dt_QuietMarket = None, dt_Alerts = True, dt_Concentration = None, dt_StrategyVersion = '''',
     dt_NewWallet = \<lparr>wc_Enabled = False, wc_MaxAge = 0, wc_MaxHistoryTrades = 0\<rparr>,
     dt_DormantWallet = \<lparr>dd_Enabled = False, dd_MinIdle = 0, dd_MinNotionalUSD = 0\<rparr>\<rparr>"

definition e2e_env :: "time \<Rightarrow> dt_Env" where
  "e2e_env now = \<lparr>ev_now = now, ev_Baseliner = Some (\<lambda>k. Inr no_stats), ev_TraderBaseliner = None, ev_MMFilter = None,
     ev_AccumulationLines = None, ev_LastTrade = None, ev_OwnershipShares = None, ev_TraderActivity = None,
     ev_Markets = None, ev_Traders = None, ev_ConcentrationHistory = None, ev_Marshal = (\<lambda>f. Inr (fi_DedupKey f)),
     ev_Insert = (\<lambda>a. None), ev_URL = (\<lambda>base path q. None), ev_Digest = (\<lambda>m tok tr tm p s side. '''')\<rparr>"

definition e2e_market :: Market where
  "e2e_market = \<lparr>mk_ID = ''m1'', mk_Slug = ''m'', mk_Question = ''?'', mk_ConditionID = ''c'', mk_TokenIDs = [''t1''],
     mk_Outcomes = [''Yes''], mk_Categories = [], mk_EventSlug = ''e'', mk_EventTitle = ''E'', mk_Active = True,
     mk_Closed = False, mk_StartDate = 0, mk_EndDate = 100 * Hour, mk_Volume = 0, mk_Volume24h = 0, mk_Liquidity = 0\<rparr>"

definition e2e_trade :: "string \<Rightarrow> rat \<Rightarrow> Trade" where
  "e2e_trade i n = \<lparr>td_ID = i, td_Market = ''m1'', td_Token = ''t1'', td_Side = ''buy'', td_Price = fl 0.25,
     td_Size = fl n, td_Timestamp = 50 * Hour, td_TxHash = ''x'', td_Taker = ''w'', td_Maker = ''''\<rparr>"

definition e2e_ops :: "wt_op list" where
  "e2e_ops = [WTrade (e2e_env (50 * Hour)) e2e_market (e2e_trade ''a'' 6000),
     WTrade (e2e_env (51 * Hour)) e2e_market (e2e_trade ''a'' 6000),
     WDrain (test_pass (51 * Hour) True [TgOK 7]), WRestart e2e_cfg mc_New,
     WTrade (e2e_env (52 * Hour)) e2e_market (e2e_trade ''a'' 6000),
     WTrade (e2e_env (52 * Hour)) e2e_market (e2e_trade ''b'' 240000),
     WDrain (test_pass (53 * Hour) True [TgOK 8])]"

lemma alert_end_to_end_witness:
  "let (l, sends) = wt_run test_pipeline test_cfg e2e_cfg mc_New e2e_ops in
    sorted_wrt (\<lambda>d d'. \<not> (alert_key (lp_db l) d = alert_key (lp_db l) d' \<and> dl_Fate d = Recorded)) sends \<and>
    map (\<lambda>d. (dl_ID d, dl_Fate d)) sends = [(1, Recorded), (4, Recorded)] \<and> distinct (notified_keys (lp_out l))"
proof -
  have h: "dt_Alerts e2e_cfg" "\<forall>op \<in> set e2e_ops. wt_ok op"
    by (simp_all add: e2e_ops_def e2e_cfg_def wt_ok_def)
  have "map (\<lambda>d. (dl_ID d, dl_Fate d)) (snd (wt_run test_pipeline test_cfg e2e_cfg mc_New e2e_ops)) =
      [(1, Recorded), (4, Recorded)]" by code_simp
  then show ?thesis using alert_end_to_end [OF h, of test_pipeline test_cfg mc_New]
    by (simp add: case_prod_beta Let_def)
qed

subsection \<open>The detection worker on the detect loop\<close>

text \<open>The observer of the worker is \<open>Loop.Observe\<close>; the environment of a trade event answers its reads.\<close>

definition loop_observer :: "dt_Env \<Rightarrow> Loop \<Rightarrow> Market \<Rightarrow> Trade \<Rightarrow> Loop \<times> string option" where
  "loop_observer env l m t = (dt_Observe l env m t, None)"

lemma too_old_silent:
  assumes "too_old W now row" "dt_LiveAlertMaxLag (lp_cfg l) = dw_StaleThreshold (dw_cfg W)" "now \<le> ev_now env"
  shows "dt_Observe l env m (row_trade resolve m row) = l"
proof -
  have ts: "td_Timestamp (row_trade resolve m row) = pd_TradedAt row"
    by (simp add: row_trade_def Let_def split: option.split)
  have "dw_StaleThreshold (dw_cfg W) < t_sub (ev_now env) (pd_TradedAt row)"
    using assms(1,3) t_sub_mono [of now "ev_now env" "pd_TradedAt row"] by (simp add: too_old_def)
  then have "\<not> live_trade l env (row_trade resolve m row)"
    using assms(1,2) by (simp add: live_trade_def ts too_old_def)
  then show ?thesis by (rule Observe_rejects)
qed

text \<open>The skip stamp tells the truth: with the same lag bound on both sides and the loop's clock not behind
  the worker's, a row found too old produces nothing - the observer leaves the loop as it was - and
  is stamped skipped, as too old or, when its market is not in the cache, as market unknown.\<close>

theorem skipped_is_silent:
  assumes "too_old W now row" "dw_observe W = loop_observer"
    and "dt_LiveAlertMaxLag (lp_cfg l) = dw_StaleThreshold (dw_cfg W)" "now \<le> ev_now (te_env e)"
  shows "dw_handle W now row e (tbl, l) =
    (if te_dbOK e
     then MarkDetectionSkipped (te_dbNow e) (pd_ID row)
            (if cache_Get (te_cache e) (pd_MarketConditionID row) = None then SkipReasonMarketUnknown
             else SkipReasonTooOldForLiveAlert) tbl
     else tbl, l)"
  using too_old_silent [OF assms(1,3,4)] assms(1,2)
  by (simp add: dw_handle_def safeObserve_def loop_observer_def split: option.split)

definition sk_worker :: "(dt_Env, Loop) dw_Worker" where
  "sk_worker = dw_New ''h:1'' \<lparr>dw_Workers = 0, dw_ClaimLimit = 0, dw_Interval = 0, dw_StaleThreshold = 10 * Minute,
     dw_ClaimTTL = 0, dw_WorkerID = ''''\<rparr> loop_observer None"

definition sk_loop :: Loop where
  "sk_loop = dt_New (e2e_cfg\<lparr>dt_LiveAlertMaxLag := 10 * Minute\<rparr>) mc_New \<lparr>at_rows = [], at_next = 1\<rparr>"

lemma skipped_is_silent_witness:
  "let e = \<lparr>te_cache = dn_cache, te_env = e2e_env Hour, te_dbNow = Hour, te_dbOK = True\<rparr>;
       row = pending_of ''c'' (new_row 0 2 ''b'' (q_trade ''b''))
   in dw_handle sk_worker Hour row e (dn_table, sk_loop) =
        (MarkDetectionSkipped Hour 2 SkipReasonTooOldForLiveAlert dn_table, sk_loop)"
proof -
  let ?e = "\<lparr>te_cache = dn_cache, te_env = e2e_env Hour, te_dbNow = Hour, te_dbOK = True\<rparr>"
  let ?row = "pending_of ''c'' (new_row 0 2 ''b'' (q_trade ''b''))"
  have h: "too_old sk_worker Hour ?row" by code_simp
  have w: "dw_observe sk_worker = loop_observer" by (simp add: sk_worker_def dw_New_def)
  have l: "dt_LiveAlertMaxLag (lp_cfg sk_loop) = dw_StaleThreshold (dw_cfg sk_worker)" by code_simp
  have n: "Hour \<le> ev_now (te_env ?e)" by (simp add: e2e_env_def)
  have c: "(cache_Get (te_cache ?e) (pd_MarketConditionID ?row) = None) = False" "pd_ID ?row = 2" "te_dbOK ?e = True"
    "te_dbNow ?e = Hour"
    by (simp_all add: cache_Get_def dn_cache_def pending_of_def new_row_def)
  show ?thesis unfolding Let_def using skipped_is_silent [OF h w l n, of dn_table] unfolding c if_True if_False .
qed

end
