(* ===== verification/StrategyBus.thy ===== *)
theory StrategyBus
  imports Prelude
begin

text \<open>
  The shadow-decision rows (package shadowdecisions) and the strategy bus through which every
  detector of the second generation writes them (package strategybus). The writer and the promotion
  gate are parameters: the gate is the interface \<open>promotion_gate\<close> below, which StrategyPromotion
  provides. Metrics and log lines are not modelled.
\<close>

subsection \<open>Package shadowdecisions\<close>

type_synonym DecisionKind = string
type_synonym DecisionLevel = string

definition KindStandalone :: DecisionKind where "KindStandalone = ''standalone''"
definition KindBoost :: DecisionKind where "KindBoost = ''boost''"
definition KindSuppress :: DecisionKind where "KindSuppress = ''suppress''"
definition KindDegrade :: DecisionKind where "KindDegrade = ''degrade''"
definition KindTag :: DecisionKind where "KindTag = ''tag''"

definition LevelNone :: DecisionLevel where "LevelNone = ''none''"
definition LevelInfo :: DecisionLevel where "LevelInfo = ''info''"
definition LevelWarning :: DecisionLevel where "LevelWarning = ''warning''"
definition LevelCritical :: DecisionLevel where "LevelCritical = ''critical''"
definition LevelHard :: DecisionLevel where "LevelHard = ''hard''"

lemmas decision_defs [simp] = KindStandalone_def KindBoost_def KindSuppress_def KindDegrade_def
  KindTag_def LevelNone_def LevelInfo_def LevelWarning_def LevelCritical_def LevelHard_def

record Decision =
  dc_StrategyName :: string
  dc_StrategyVersion :: string
  dc_ConditionID :: string
  dc_EventSlug :: string
  dc_Wallet :: string
  dc_CohortID :: string
  dc_Side :: string
  dc_Kind :: DecisionKind
  dc_Level :: DecisionLevel
  dc_Score :: float64
  dc_Confidence :: float64
  dc_Reasons :: "string list"
  dc_Features :: features
  dc_ShadowOnly :: bool
  dc_LinkedAlertDedupKey :: string
  dc_ControlBucketKey :: string
  dc_FiredAt :: time

text \<open>The loop of \<open>ControlBucketKey\<close>; the flag says whether the index is 0.\<close>

fun cbk_loop :: "bool \<Rightarrow> string \<Rightarrow> string list \<Rightarrow> string" where
  "cbk_loop first out [] = out"
| "cbk_loop first out (p # ps) =
     (let out = (if \<not> first then out @ ''|'' else out)
      in if p = '''' then cbk_loop False (out @ ''_'') ps else cbk_loop False (out @ p) ps)"

definition ControlBucketKey :: "string \<Rightarrow> string \<Rightarrow> string \<Rightarrow> string \<Rightarrow> string \<Rightarrow> string" where
  "ControlBucketKey category lifecycleBucket oddsBucket notionalBucket eventKind =
     cbk_loop True '''' [category, lifecycleBucket, oddsBucket, notionalBucket, eventKind]"

subsection \<open>The bus\<close>

record StrategyFlag =
  fg_Name :: string
  fg_Enabled :: bool
  fg_ShadowOnly :: bool

record bus_Config =
  bc_StrategyVersion :: string
  bc_GlobalPromotionAllowed :: bool
  bc_Flags :: "string \<rightharpoonup> StrategyFlag"
  bc_PromotionGate :: "(string \<Rightarrow> bool) option"

text \<open>A write hands the writer a row; the writer answers with an error or a row id.\<close>

type_synonym dec_writer = "Decision \<Rightarrow> string + int"

definition NopWriter :: dec_writer where
  "NopWriter d = Inr 0"

record Bus =
  bus_cfg :: bus_Config
  bus_writer :: dec_writer

definition bus_New :: "bus_Config \<Rightarrow> dec_writer option \<Rightarrow> Bus" where
  "bus_New cfg writer = \<lparr>bus_cfg = cfg, bus_writer = (case writer of None \<Rightarrow> NopWriter | Some w \<Rightarrow> w)\<rparr>"

definition ShouldEvaluate :: "Bus \<Rightarrow> string \<Rightarrow> bool" where
  "ShouldEvaluate b strategyName =
     (case bc_Flags (bus_cfg b) strategyName of None \<Rightarrow> False | Some flag \<Rightarrow> fg_Enabled flag)"

definition IsShadowOnly :: "Bus \<Rightarrow> string \<Rightarrow> bool" where
  "IsShadowOnly b strategyName =
     (case bc_Flags (bus_cfg b) strategyName of None \<Rightarrow> True
      | Some flag \<Rightarrow> if \<not> bc_GlobalPromotionAllowed (bus_cfg b) then True else fg_ShadowOnly flag)"

text \<open>
  \<open>Record\<close> returns the row it handed to the writer, if it did, and its result. \<open>now\<close> is the clock.
\<close>

definition bus_Record :: "Bus \<Rightarrow> time \<Rightarrow> Decision \<Rightarrow> Decision option \<times> (string + int)" where
  "bus_Record b now d =
     (case bc_Flags (bus_cfg b) (dc_StrategyName d) of
        None \<Rightarrow> (None, Inr 0)
      | Some flag \<Rightarrow>
          if \<not> fg_Enabled flag then (None, Inr 0)
          else
            (let d = (if dc_StrategyVersion d = ''''
                      then d\<lparr>dc_StrategyVersion := bc_StrategyVersion (bus_cfg b)\<rparr> else d);
                 d = (if IsZero (dc_FiredAt d) then d\<lparr>dc_FiredAt := now\<rparr> else d);
                 d = (if \<not> bc_GlobalPromotionAllowed (bus_cfg b) \<or> fg_ShadowOnly flag
                      then d\<lparr>dc_ShadowOnly := True\<rparr> else d);
                 d = (case bc_PromotionGate (bus_cfg b) of
                        None \<Rightarrow> d
                      | Some allow \<Rightarrow>
                          if \<not> dc_ShadowOnly d \<and> \<not> allow (dc_StrategyName d)
                          then d\<lparr>dc_ShadowOnly := True\<rparr> else d)
             in case bus_writer b d of
                  Inl err \<Rightarrow> (Some d, Inl err)
                | Inr i \<Rightarrow> (Some d, Inr i)))"

definition StrategyNames :: "string list" where
  "StrategyNames = [''thesisaccum'', ''holderdelta'', ''catalystwindow'', ''bookvacuum'',
     ''repricinglag'', ''walletcohort'', ''conflictresolve'', ''rulesrisk'', ''cheaptail'']"

subsection \<open>What the bus does with a row\<close>

text \<open>When a live (not shadow) row reaches the writer.\<close>

definition gate_open :: "bus_Config \<Rightarrow> string \<Rightarrow> bool" where
  "gate_open cfg s \<longleftrightarrow> (case bc_PromotionGate cfg of None \<Rightarrow> True | Some allow \<Rightarrow> allow s)"

lemma cond_update:
  "(if c then d\<lparr>dc_StrategyVersion := v\<rparr> else d) = d\<lparr>dc_StrategyVersion := (if c then v else dc_StrategyVersion d)\<rparr>"
  "(if c then d\<lparr>dc_FiredAt := t\<rparr> else d) = d\<lparr>dc_FiredAt := (if c then t else dc_FiredAt d)\<rparr>"
  "(if c then d\<lparr>dc_ShadowOnly := True\<rparr> else d) = d\<lparr>dc_ShadowOnly := (c \<or> dc_ShadowOnly d)\<rparr>"
  for d :: Decision
  by simp_all

lemma Record_eq:
  "bus_Record b now d =
     (if ShouldEvaluate b (dc_StrategyName d)
      then (let r = d\<lparr>dc_StrategyVersion := (if dc_StrategyVersion d = '''' then bc_StrategyVersion (bus_cfg b)
                                             else dc_StrategyVersion d),
                      dc_FiredAt := (if IsZero (dc_FiredAt d) then now else dc_FiredAt d),
                      dc_ShadowOnly := (dc_ShadowOnly d \<or> IsShadowOnly b (dc_StrategyName d) \<or>
                                        \<not> gate_open (bus_cfg b) (dc_StrategyName d))\<rparr>
            in (Some r, bus_writer b r))
      else (None, Inr 0))"
proof (cases "bc_Flags (bus_cfg b) (dc_StrategyName d)")
  case None
  then show ?thesis by (simp add: bus_Record_def ShouldEvaluate_def)
next
  case (Some flag)
  have w: "(case x of Inl err \<Rightarrow> (r, Inl err) | Inr i \<Rightarrow> (r, Inr i)) = (r, x)"
    for r :: "Decision option" and x :: "string + int"
    by (cases x) simp_all
  show ?thesis
  proof (cases "bc_PromotionGate (bus_cfg b)")
    case None
    then show ?thesis using Some
      unfolding bus_Record_def ShouldEvaluate_def IsShadowOnly_def gate_open_def Let_def cond_update w
      by (simp add: disj_commute)
  next
    case (Some allow)
    then show ?thesis using \<open>bc_Flags (bus_cfg b) (dc_StrategyName d) = Some flag\<close>
      unfolding bus_Record_def ShouldEvaluate_def IsShadowOnly_def gate_open_def Let_def cond_update w option.case
      by (cases "bc_GlobalPromotionAllowed (bus_cfg b)"; cases "fg_ShadowOnly flag"; cases "dc_ShadowOnly d") simp_all
  qed
qed

lemma Record_row:
  "fst (bus_Record b now d) =
     (if ShouldEvaluate b (dc_StrategyName d)
      then Some (d\<lparr>dc_StrategyVersion := (if dc_StrategyVersion d = '''' then bc_StrategyVersion (bus_cfg b)
                                          else dc_StrategyVersion d),
                   dc_FiredAt := (if IsZero (dc_FiredAt d) then now else dc_FiredAt d),
                   dc_ShadowOnly := (dc_ShadowOnly d \<or> IsShadowOnly b (dc_StrategyName d) \<or>
                                     \<not> gate_open (bus_cfg b) (dc_StrategyName d))\<rparr>)
      else None)"
  by (simp add: Record_eq Let_def)

lemma Record_live:
  "fst (bus_Record b now d) = Some r \<Longrightarrow> \<not> dc_ShadowOnly r \<Longrightarrow>
   \<not> dc_ShadowOnly d \<and> dc_StrategyName r = dc_StrategyName d \<and> ShouldEvaluate b (dc_StrategyName r) \<and>
   \<not> IsShadowOnly b (dc_StrategyName r) \<and> gate_open (bus_cfg b) (dc_StrategyName r)"
  by (auto simp: Record_row split: if_splits)

text \<open>What \<open>Record\<close> does, on every branch: unknown and disabled strategies write nothing and
  return 0; otherwise one row with the decision's payload is written, stamped with the version and
  the clock where these were empty, and it is live exactly when the caller did not ask for a
  shadow row, the global promotion flag is on, the strategy's own flag is off shadow and the gate
  (if there is one) allows the strategy; the result is the writer's.\<close>

theorem bus_record_spec:
  "bus_Record b now d =
     (if ShouldEvaluate b (dc_StrategyName d)
      then (let r = d\<lparr>dc_StrategyVersion := (if dc_StrategyVersion d = '''' then bc_StrategyVersion (bus_cfg b)
                                             else dc_StrategyVersion d),
                      dc_FiredAt := (if IsZero (dc_FiredAt d) then now else dc_FiredAt d),
                      dc_ShadowOnly := (if gate_open (bus_cfg b) (dc_StrategyName d)
                         then dc_ShadowOnly d \<or> IsShadowOnly b (dc_StrategyName d) else True)\<rparr>
            in (Some r, bus_writer b r))
      else (None, Inr 0))"
  unfolding Record_eq by simp

subsection \<open>The promotion gate as an interface\<close>

text \<open>
  A run of the system: the gate's provider evaluates a batch, a detector records a decision, or
  the process restarts with a fresh provider. The run keeps the provider's state, the reviews it
  has persisted, and every row written together with the reviews persisted until then.
\<close>

datatype 'i bus_event = Evaluate 'i | Emit time Decision | Restart

fun bus_run :: "('g \<Rightarrow> string \<Rightarrow> bool) \<Rightarrow> ('g \<Rightarrow> 'i \<Rightarrow> 'g \<times> 'r list) \<Rightarrow> 'g \<Rightarrow> bus_Config \<Rightarrow> dec_writer \<Rightarrow>
    'g \<Rightarrow> 'r list \<Rightarrow> 'i bus_event list \<Rightarrow> (Decision \<times> 'r list) list" where
  "bus_run allow step init cfg writer g revs [] = []"
| "bus_run allow step init cfg writer g revs (Evaluate i # es) =
     (case step g i of (g', rs) \<Rightarrow> bus_run allow step init cfg writer g' (revs @ rs) es)"
| "bus_run allow step init cfg writer g revs (Emit now d # es) =
     (case fst (bus_Record (bus_New (cfg\<lparr>bc_PromotionGate := Some (allow g)\<rparr>) (Some writer)) now d) of
        None \<Rightarrow> bus_run allow step init cfg writer g revs es
      | Some r \<Rightarrow> (r, revs) # bus_run allow step init cfg writer g revs es)"
| "bus_run allow step init cfg writer g revs (Restart # es) =
     bus_run allow step init cfg writer init revs es"

text \<open>The newest review of a strategy.\<close>

definition latest :: "('r \<Rightarrow> string) \<Rightarrow> 'r list \<Rightarrow> string \<Rightarrow> 'r option" where
  "latest about revs s = find (\<lambda>r. about r = s) (rev revs)"

lemma latest_Nil [simp]: "latest about [] s = None"
  by (simp add: latest_def)

lemma latest_snoc [simp]: "latest about (revs @ [r]) s = (if about r = s then Some r else latest about revs s)"
  by (simp add: latest_def)

locale promotion_gate =
  fixes allow :: "'g \<Rightarrow> string \<Rightarrow> bool"
    and step :: "'g \<Rightarrow> 'i \<Rightarrow> 'g \<times> 'r list"
    and init :: 'g
    and about :: "'r \<Rightarrow> string"
    and passed :: "'r \<Rightarrow> bool"
    and ok :: "'g \<Rightarrow> 'r list \<Rightarrow> bool"
  assumes ok_init: "ok init revs"
    and ok_step: "ok g revs \<Longrightarrow> step g i = (g', rs) \<Longrightarrow> ok g' (revs @ rs)"
    and ok_allow: "ok g revs \<Longrightarrow> allow g s \<Longrightarrow> \<exists>r. latest about revs s = Some r \<and> passed r"
begin

lemma live_rows_reviewed:
  assumes "ok g revs" "(d, rs) \<in> set (bus_run allow step init cfg writer g revs es)" "\<not> dc_ShadowOnly d"
  shows "bc_GlobalPromotionAllowed cfg \<and>
         (\<exists>flag. bc_Flags cfg (dc_StrategyName d) = Some flag \<and> fg_Enabled flag \<and> \<not> fg_ShadowOnly flag) \<and>
         (\<exists>r. latest about rs (dc_StrategyName d) = Some r \<and> passed r)"
  using assms
proof (induction es arbitrary: g revs)
  case (Cons e es)
  show ?case
  proof (cases e)
    case (Evaluate i)
    obtain g' rs' where st: "step g i = (g', rs')" by (cases "step g i")
    show ?thesis
      by (rule Cons.IH [OF ok_step [OF Cons.prems(1) st] _ Cons.prems(3)]) (use Cons.prems(2) Evaluate st in simp)
  next
    case (Emit now d')
    let ?b = "bus_New (cfg\<lparr>bc_PromotionGate := Some (allow g)\<rparr>) (Some writer)"
    show ?thesis
    proof (cases "fst (bus_Record ?b now d') = Some d \<and> rs = revs")
      case True
      then have "ShouldEvaluate ?b (dc_StrategyName d)" "\<not> IsShadowOnly ?b (dc_StrategyName d)"
        "gate_open (bus_cfg ?b) (dc_StrategyName d)"
        using Record_live Cons.prems(3) by blast+
      then show ?thesis using True ok_allow [OF Cons.prems(1)]
        by (auto simp: ShouldEvaluate_def IsShadowOnly_def gate_open_def bus_New_def split: option.splits if_splits)
    next
      case False
      then show ?thesis using Cons Emit by (auto split: option.splits)
    qed
  next
    case Restart
    then show ?thesis using Cons.IH [OF ok_init _ Cons.prems(3), of revs] Cons.prems(2) by simp
  qed
qed simp

end

end
