(* ===== verification/StrategyPromotion.thy ===== *)
theory StrategyPromotion
  imports StrategyBus
begin

text \<open>
  The promotion worker (package strategypromotion): it judges each strategy's aggregate and its
  per-bucket aggregates against the promotion criteria, persists a review, and answers the bus's
  question whether a strategy may write live rows. The two list queries, the review writer's
  success and the clock are arguments. \<open>sort.Slice\<close> is modelled by the stable sort; the keys it
  sorts by are unique within a group (the query groups by them), which determines its result.
\<close>

subsection \<open>Data\<close>

record Sample =
  sa_StrategyName :: string
  sa_StrategyVersion :: string
  sa_SampleSize :: int
  sa_MedianSignedMove6h :: float64
  sa_Reversal15mRatio :: float64
  sa_AlertsPerDay :: float64

record BucketSample =
  bs_StrategyName :: string
  bs_StrategyVersion :: string
  bs_Dimension :: string
  bs_Key :: string
  bs_SampleSize :: int
  bs_MedianSignedMove6h :: float64
  bs_Reversal15mRatio :: float64
  bs_AlertsPerDay :: float64

record BucketReview =
  br_Key :: string
  br_SampleSize :: int
  br_MedianSignedMove6h :: float64
  br_Reversal15mRatio :: float64
  br_AlertsPerDay :: float64
  br_Eligible :: bool
  br_Reasons :: "string list"

record BucketDiagnostics =
  bd_ByDecisionLevel :: "BucketReview list"
  bd_ByLinkage :: "BucketReview list"

record Review =
  rv_StrategyName :: string
  rv_StrategyVersion :: string
  rv_SampleSize :: int
  rv_MedianSignedMove6h :: float64
  rv_Reversal15mRatio :: float64
  rv_AlertsPerDay :: float64
  rv_Eligible :: bool
  rv_Reasons :: "string list"
  rv_ReviewedAt :: time
  rv_Buckets :: BucketDiagnostics

record pr_Config =
  pc_Enabled :: bool
  pc_Interval :: duration
  pc_Lookback :: duration
  pc_MinSampleSize :: int
  pc_MinSignedMove6hCents :: float64
  pc_MaxReversal15mRatio :: float64
  pc_MaxAlertsPerDay :: float64
  pc_BypassExplicit :: bool

record pr_Worker =
  pw_cfg :: pr_Config
  pw_state :: "string \<rightharpoonup> bool"

definition pr_New :: "pr_Config \<Rightarrow> pr_Worker" where
  "pr_New cfg = \<lparr>pw_cfg = cfg, pw_state = Map.empty\<rparr>"

definition Allow :: "pr_Worker \<Rightarrow> string \<Rightarrow> bool" where
  "Allow w strategy =
     (if pc_BypassExplicit (pw_cfg w) then False
      else case pw_state w strategy of None \<Rightarrow> False | Some e \<Rightarrow> e)"

subsection \<open>Judging one aggregate\<close>

text \<open>
  \<open>evaluate\<close> and the body of \<open>evaluateBuckets\<close> append the same four reasons to an empty list.
\<close>

definition pr_evaluate :: "pr_Worker \<Rightarrow> Sample \<Rightarrow> time \<Rightarrow> Review" where
  "pr_evaluate w s now =
     (let c = pw_cfg w;
          r = \<lparr>rv_StrategyName = sa_StrategyName s, rv_StrategyVersion = sa_StrategyVersion s,
               rv_SampleSize = sa_SampleSize s, rv_MedianSignedMove6h = sa_MedianSignedMove6h s,
               rv_Reversal15mRatio = sa_Reversal15mRatio s, rv_AlertsPerDay = sa_AlertsPerDay s,
               rv_Eligible = False, rv_Reasons = [], rv_ReviewedAt = now,
               rv_Buckets = \<lparr>bd_ByDecisionLevel = [], bd_ByLinkage = []\<rparr>\<rparr>;
          rs = add_if (sa_SampleSize s < pc_MinSampleSize c) ''insufficient_sample_size'' [];
          rs = add_if (sa_MedianSignedMove6h s < pc_MinSignedMove6hCents c) ''median_uplift_below_floor'' rs;
          rs = add_if (0 < pc_MaxReversal15mRatio c \<and> pc_MaxReversal15mRatio c < sa_Reversal15mRatio s)
                 ''reversal_ratio_above_ceiling'' rs;
          rs = add_if (0 < pc_MaxAlertsPerDay c \<and> pc_MaxAlertsPerDay c < sa_AlertsPerDay s)
                 ''alerts_per_day_above_ceiling'' rs;
          r = r\<lparr>rv_Eligible := (rs = [])\<rparr>;
          rs = add_if (rv_Eligible r) ''all_criteria_passed'' rs
      in r\<lparr>rv_Reasons := rs\<rparr>)"

definition bucket_review :: "pr_Config \<Rightarrow> BucketSample \<Rightarrow> BucketReview" where
  "bucket_review c r =
     (let rs = add_if (bs_SampleSize r < pc_MinSampleSize c) ''insufficient_sample_size'' [];
          rs = add_if (bs_MedianSignedMove6h r < pc_MinSignedMove6hCents c) ''median_uplift_below_floor'' rs;
          rs = add_if (0 < pc_MaxReversal15mRatio c \<and> pc_MaxReversal15mRatio c < bs_Reversal15mRatio r)
                 ''reversal_ratio_above_ceiling'' rs;
          rs = add_if (0 < pc_MaxAlertsPerDay c \<and> pc_MaxAlertsPerDay c < bs_AlertsPerDay r)
                 ''alerts_per_day_above_ceiling'' rs
      in \<lparr>br_Key = bs_Key r, br_SampleSize = bs_SampleSize r, br_MedianSignedMove6h = bs_MedianSignedMove6h r,
          br_Reversal15mRatio = bs_Reversal15mRatio r, br_AlertsPerDay = bs_AlertsPerDay r,
          br_Eligible = (rs = []), br_Reasons = rs\<rparr>)"

subsection \<open>Buckets\<close>

type_synonym bucket_index = "(string \<times> BucketSample list) list"

fun idx_append :: "bucket_index \<Rightarrow> string \<Rightarrow> BucketSample \<Rightarrow> bucket_index" where
  "idx_append [] k r = [(k, [r])]"
| "idx_append ((k', rs) # out) k r = (if k' = k then (k', rs @ [r]) # out else (k', rs) # idx_append out k r)"

definition bucket_key :: "string \<Rightarrow> string \<Rightarrow> string \<Rightarrow> string" where
  "bucket_key name version d = name @ ''|'' @ version @ ''|'' @ d"

definition indexBucketSamples :: "BucketSample list \<Rightarrow> bucket_index" where
  "indexBucketSamples rows =
     foldl (\<lambda>out r. idx_append out (bucket_key (bs_StrategyName r) (bs_StrategyVersion r) (bs_Dimension r)) r) [] rows"

definition bucket_rows :: "bucket_index \<Rightarrow> string \<Rightarrow> BucketSample list" where
  "bucket_rows idx k = (case map_of idx k of None \<Rightarrow> [] | Some rs \<Rightarrow> rs)"

definition evaluateBuckets :: "pr_Worker \<Rightarrow> string \<Rightarrow> string \<Rightarrow> bucket_index \<Rightarrow> BucketDiagnostics" where
  "evaluateBuckets w name version idx =
     foldl (\<lambda>out dm.
        let rows = bucket_rows idx (bucket_key name version dm)
        in if rows = [] then out
           else (let reviews = map (bucket_review (pw_cfg w)) (sort_key bs_Key rows)
                 in if dm = ''decision_level'' then out\<lparr>bd_ByDecisionLevel := reviews\<rparr>
                    else if dm = ''linkage'' then out\<lparr>bd_ByLinkage := reviews\<rparr>
                    else out))
       \<lparr>bd_ByDecisionLevel = [], bd_ByLinkage = []\<rparr> [''decision_level'', ''linkage'']"

definition hasEligibleNonTrivialBucket :: "BucketDiagnostics \<Rightarrow> int \<Rightarrow> bool" where
  "hasEligibleNonTrivialBucket b minSample \<longleftrightarrow>
     list_ex (\<lambda>r. br_Eligible r \<and> minSample \<le> br_SampleSize r) (bd_ByDecisionLevel b) \<or>
     list_ex (\<lambda>r. br_Eligible r \<and> minSample \<le> br_SampleSize r) (bd_ByLinkage b)"

subsection \<open>One tick\<close>

text \<open>The review of one sample, before it is written.\<close>

definition tick_review :: "pr_Worker \<Rightarrow> bucket_index \<Rightarrow> time \<Rightarrow> Sample \<Rightarrow> Review" where
  "tick_review w idx now s =
     (let r = pr_evaluate w s now;
          r = r\<lparr>rv_Buckets := evaluateBuckets w (sa_StrategyName s) (sa_StrategyVersion s) idx\<rparr>
      in if rv_Eligible r \<and> 0 < length idx then
           if \<not> hasEligibleNonTrivialBucket (rv_Buckets r) (pc_MinSampleSize (pw_cfg w))
           then r\<lparr>rv_Eligible := False, rv_Reasons := [''no_eligible_non_trivial_bucket'']\<rparr>
           else r
         else r)"

text \<open>
  The loop over the samples: \<open>fails\<close> says for which reviews \<open>WritePromotionReview\<close> returns an
  error. The result is the new eligibility map and the reviews written.
\<close>

fun tick_loop :: "pr_Worker \<Rightarrow> bucket_index \<Rightarrow> time \<Rightarrow> (Review \<Rightarrow> bool) \<Rightarrow> Sample list \<Rightarrow>
    (string \<rightharpoonup> bool) \<Rightarrow> Review list \<Rightarrow> (string \<rightharpoonup> bool) \<times> Review list" where
  "tick_loop w idx now fails [] newState written = (newState, written)"
| "tick_loop w idx now fails (s # rows) newState written =
     (let r = tick_review w idx now s
      in if fails r then tick_loop w idx now fails rows newState written
         else tick_loop w idx now fails rows (newState(sa_StrategyName s \<mapsto> rv_Eligible r)) (written @ [r]))"

record tick_in =
  ti_samples :: "(string + Sample list)"
  ti_buckets :: "(string + BucketSample list)"
  ti_fails :: "Review \<Rightarrow> bool"
  ti_now :: time

definition pr_Tick :: "pr_Worker \<Rightarrow> tick_in \<Rightarrow> pr_Worker \<times> Review list" where
  "pr_Tick w i =
     (case ti_samples i of
        Inl err \<Rightarrow> (w, [])
      | Inr rows \<Rightarrow>
          (let bucketRows = (case ti_buckets i of Inl err \<Rightarrow> [] | Inr bs \<Rightarrow> bs);
               bucketIdx = indexBucketSamples bucketRows
           in case tick_loop w bucketIdx (ti_now i) (ti_fails i) rows Map.empty [] of
                (newState, written) \<Rightarrow> (w\<lparr>pw_state := newState\<rparr>, written)))"

subsection \<open>Criteria\<close>

text \<open>The promotion criteria on sample size, median move, reversal ratio and alert rate.\<close>

definition meets :: "pr_Config \<Rightarrow> int \<Rightarrow> float64 \<Rightarrow> float64 \<Rightarrow> float64 \<Rightarrow> bool" where
  "meets c n move reversal rate \<longleftrightarrow>
     pc_MinSampleSize c \<le> n \<and> \<not> move < pc_MinSignedMove6hCents c \<and>
     \<not> (0 < pc_MaxReversal15mRatio c \<and> pc_MaxReversal15mRatio c < reversal) \<and>
     \<not> (0 < pc_MaxAlertsPerDay c \<and> pc_MaxAlertsPerDay c < rate)"

definition bucket_passes :: "pr_Config \<Rightarrow> BucketSample \<Rightarrow> bool" where
  "bucket_passes c b \<longleftrightarrow>
     meets c (bs_SampleSize b) (bs_MedianSignedMove6h b) (bs_Reversal15mRatio b) (bs_AlertsPerDay b)"

definition sample_passes :: "pr_Config \<Rightarrow> Sample \<Rightarrow> bool" where
  "sample_passes c s \<longleftrightarrow>
     meets c (sa_SampleSize s) (sa_MedianSignedMove6h s) (sa_Reversal15mRatio s) (sa_AlertsPerDay s)"

definition review_passed :: "pr_Config \<Rightarrow> Review \<Rightarrow> bool" where
  "review_passed c r \<longleftrightarrow> rv_Eligible r \<and>
     meets c (rv_SampleSize r) (rv_MedianSignedMove6h r) (rv_Reversal15mRatio r) (rv_AlertsPerDay r)"

lemma add_if_Nil [simp]: "add_if c x out = [] \<longleftrightarrow> out = [] \<and> \<not> c"
  by (simp add: add_if_def)

lemma bucket_review_eligible [simp]: "br_Eligible (bucket_review c b) \<longleftrightarrow> bucket_passes c b"
  by (auto simp: bucket_review_def bucket_passes_def meets_def Let_def)

lemma bucket_review_size [simp]: "br_SampleSize (bucket_review c b) = bs_SampleSize b"
  by (simp add: bucket_review_def Let_def)

lemma evaluate_fields [simp]:
  "rv_StrategyName (pr_evaluate w s now) = sa_StrategyName s"
  "rv_SampleSize (pr_evaluate w s now) = sa_SampleSize s"
  "rv_MedianSignedMove6h (pr_evaluate w s now) = sa_MedianSignedMove6h s"
  "rv_Reversal15mRatio (pr_evaluate w s now) = sa_Reversal15mRatio s"
  "rv_AlertsPerDay (pr_evaluate w s now) = sa_AlertsPerDay s"
  "rv_Eligible (pr_evaluate w s now) \<longleftrightarrow> sample_passes (pw_cfg w) s"
  by (auto simp: pr_evaluate_def sample_passes_def meets_def Let_def)

text \<open>The index holds, under every key, the bucket samples of that key in their order.\<close>

lemma bucket_rows_append:
  "bucket_rows (idx_append idx k r) k' = bucket_rows idx k' @ (if k' = k then [r] else [])"
  by (induction idx k r rule: idx_append.induct) (auto simp: bucket_rows_def)

definition key_of :: "BucketSample \<Rightarrow> string" where
  "key_of r = bucket_key (bs_StrategyName r) (bs_StrategyVersion r) (bs_Dimension r)"

lemma bucket_rows_foldl:
  "bucket_rows (foldl (\<lambda>out r. idx_append out (key_of r) r) idx rows) k =
     bucket_rows idx k @ filter (\<lambda>r. key_of r = k) rows"
  by (induction rows arbitrary: idx) (auto simp: bucket_rows_append)

lemma bucket_rows_index: "bucket_rows (indexBucketSamples rows) k = filter (\<lambda>r. key_of r = k) rows"
  using bucket_rows_foldl [of "[]"] by (simp add: indexBucketSamples_def key_of_def bucket_rows_def)

lemma idx_append_not_Nil [simp]: "idx_append idx k r \<noteq> []"
  by (induction idx k r rule: idx_append.induct) auto

lemma foldl_idx_not_Nil: "idx \<noteq> [] \<Longrightarrow> foldl (\<lambda>out r. idx_append out (f r) r) idx rows \<noteq> []"
  by (induction rows arbitrary: idx) auto

lemma index_Nil_iff: "indexBucketSamples rows = [] \<longleftrightarrow> rows = []"
  unfolding indexBucketSamples_def by (cases rows) (simp_all add: foldl_idx_not_Nil)

lemma evaluateBuckets_eq:
  "evaluateBuckets w name version idx =
     \<lparr>bd_ByDecisionLevel = map (bucket_review (pw_cfg w)) (sort_key bs_Key (bucket_rows idx (bucket_key name version ''decision_level''))),
      bd_ByLinkage = map (bucket_review (pw_cfg w)) (sort_key bs_Key (bucket_rows idx (bucket_key name version ''linkage'')))\<rparr>"
  by (simp add: evaluateBuckets_def Let_def)

text \<open>The samples of a strategy version's buckets, in the two dimensions.\<close>

definition own_buckets :: "string \<Rightarrow> string \<Rightarrow> BucketSample list \<Rightarrow> BucketSample list" where
  "own_buckets name version rows =
     filter (\<lambda>b. key_of b = bucket_key name version ''decision_level'' \<or>
                 key_of b = bucket_key name version ''linkage'') rows"

lemma eligible_bucket_iff:
  "hasEligibleNonTrivialBucket (evaluateBuckets w name version (indexBucketSamples rows)) (pc_MinSampleSize (pw_cfg w))
   \<longleftrightarrow> (\<exists>b \<in> set (own_buckets name version rows). bucket_passes (pw_cfg w) b)"
  by (auto simp: hasEligibleNonTrivialBucket_def evaluateBuckets_eq bucket_rows_index own_buckets_def list_ex_iff
      bucket_passes_def meets_def)

lemma tick_review_fields [simp]:
  "rv_StrategyName (tick_review w idx now s) = sa_StrategyName s"
  "rv_SampleSize (tick_review w idx now s) = sa_SampleSize s"
  "rv_MedianSignedMove6h (tick_review w idx now s) = sa_MedianSignedMove6h s"
  "rv_Reversal15mRatio (tick_review w idx now s) = sa_Reversal15mRatio s"
  "rv_AlertsPerDay (tick_review w idx now s) = sa_AlertsPerDay s"
  by (simp_all add: tick_review_def Let_def)

lemma tick_review_eligible:
  "rv_Eligible (tick_review w (indexBucketSamples rows) now s) \<longleftrightarrow>
     sample_passes (pw_cfg w) s \<and>
     (rows \<noteq> [] \<longrightarrow> (\<exists>b \<in> set (own_buckets (sa_StrategyName s) (sa_StrategyVersion s) rows). bucket_passes (pw_cfg w) b))"
  using eligible_bucket_iff [of w "sa_StrategyName s" "sa_StrategyVersion s" rows]
  by (auto simp: tick_review_def Let_def index_Nil_iff)

lemma tick_review_passed: "rv_Eligible (tick_review w idx now s) \<Longrightarrow> review_passed (pw_cfg w) (tick_review w idx now s)"
  by (auto simp: review_passed_def tick_review_def Let_def sample_passes_def split: if_splits)

subsection \<open>The worker is a promotion gate\<close>

definition gate_ok :: "pr_Config \<Rightarrow> pr_Worker \<Rightarrow> Review list \<Rightarrow> bool" where
  "gate_ok c w revs \<longleftrightarrow> pw_cfg w = c \<and>
     (\<forall>s. pw_state w s = Some True \<longrightarrow> (\<exists>r. latest rv_StrategyName revs s = Some r \<and> review_passed c r))"

lemma tick_loop_ok:
  assumes "tick_loop w idx now fails rows m written = (m', written')"
    and "\<forall>s. m s = Some True \<longrightarrow> (\<exists>r. latest rv_StrategyName (revs @ written) s = Some r \<and> review_passed (pw_cfg w) r)"
  shows "\<forall>s. m' s = Some True \<longrightarrow> (\<exists>r. latest rv_StrategyName (revs @ written') s = Some r \<and> review_passed (pw_cfg w) r)"
  using assms
proof (induction w idx now fails rows m written rule: tick_loop.induct)
  case (1 w idx now fails m written)
  then show ?case by simp
next
  case (2 w idx now fails s rows m written)
  let ?r = "tick_review w idx now s"
  show ?case
  proof (cases "fails ?r")
    case True
    show ?thesis by (rule 2(1) [OF refl True]) (use 2(3,4) True in simp_all)
  next
    case False
    have l: "latest rv_StrategyName (revs @ written @ [?r]) t =
        (if sa_StrategyName s = t then Some ?r else latest rv_StrategyName (revs @ written) t)" for t
      using latest_snoc [of rv_StrategyName "revs @ written" ?r t] by simp
    have "tick_loop w idx now fails rows (m(sa_StrategyName s \<mapsto> rv_Eligible ?r)) (written @ [?r]) = (m', written')"
      using 2(3) False by (simp add: Let_def del: fun_upd_apply)
    then show ?thesis
      by (rule 2(2) [OF refl False]) (use 2(4) tick_review_passed [of w idx now s] in \<open>auto simp: l\<close>)
  qed
qed

lemma Tick_ok: "gate_ok c w revs \<Longrightarrow> pr_Tick w i = (w', rs) \<Longrightarrow> gate_ok c w' (revs @ rs)"
  using tick_loop_ok [where m = Map.empty and written = "[]"]
  by (fastforce simp: gate_ok_def pr_Tick_def Let_def split: sum.splits prod.splits)

interpretation promo: promotion_gate Allow pr_Tick "pr_New c" rv_StrategyName
  "\<lambda>r. review_passed c r \<and> \<not> pc_BypassExplicit c" "gate_ok c" for c
proof
  show "gate_ok c (pr_New c) revs" for revs by (simp add: gate_ok_def pr_New_def)
  show "gate_ok c g revs \<Longrightarrow> pr_Tick g i = (g', rs) \<Longrightarrow> gate_ok c g' (revs @ rs)" for g revs i g' rs
    by (rule Tick_ok)
  show "gate_ok c g revs \<Longrightarrow> Allow g s \<Longrightarrow>
      \<exists>r. latest rv_StrategyName revs s = Some r \<and> review_passed c r \<and> \<not> pc_BypassExplicit c" for g revs s
    by (auto simp: gate_ok_def Allow_def split: if_splits option.splits)
qed

text \<open>The map a tick builds records the last review it wrote for each strategy.\<close>

lemma tick_loop_latest:
  assumes "tick_loop w idx now fails rows m written = (m', written')"
    and "\<forall>s. m s = map_option rv_Eligible (latest rv_StrategyName written s)"
  shows "m' s = map_option rv_Eligible (latest rv_StrategyName written' s)"
  using assms
proof (induction w idx now fails rows m written rule: tick_loop.induct)
  case (1 w idx now fails m written)
  from 1(1) have "m = m'" "written = written'" by simp_all
  then show ?case using 1(2) by blast
next
  case (2 w idx now fails t rows m written)
  let ?r = "tick_review w idx now t"
  show ?case
  proof (cases "fails ?r")
    case True
    show ?thesis by (rule 2(1) [OF refl True]) (use 2(3,4) True in simp_all)
  next
    case False
    have "tick_loop w idx now fails rows (m(sa_StrategyName t \<mapsto> rv_Eligible ?r)) (written @ [?r]) = (m', written')"
      using 2(3) False by (simp add: Let_def del: fun_upd_apply)
    then show ?thesis by (rule 2(2) [OF refl False]) (use 2(4) in auto)
  qed
qed

lemma tick_loop_written:
  "snd (tick_loop w idx now fails rows m written) =
     written @ filter (\<lambda>r. \<not> fails r) (map (tick_review w idx now) rows)"
  by (induction w idx now fails rows m written rule: tick_loop.induct) (auto simp: Let_def simp del: fun_upd_apply)

definition bucket_list :: "tick_in \<Rightarrow> BucketSample list" where
  "bucket_list i = (case ti_buckets i of Inl e \<Rightarrow> [] | Inr bs \<Rightarrow> bs)"

lemma Tick_written:
  "ti_samples i = Inr rows \<Longrightarrow> snd (pr_Tick w i) =
     filter (\<lambda>r. \<not> ti_fails i r) (map (tick_review w (indexBucketSamples (bucket_list i)) (ti_now i)) rows)"
  using tick_loop_written [of w "indexBucketSamples (bucket_list i)" "ti_now i" "ti_fails i" rows Map.empty "[]"]
  by (simp add: pr_Tick_def Let_def bucket_list_def case_prod_unfold)

lemma Tick_Allow:
  assumes "ti_samples i = Inr rows"
  shows "Allow (fst (pr_Tick w i)) s \<longleftrightarrow> \<not> pc_BypassExplicit (pw_cfg w) \<and>
    (\<exists>r. latest rv_StrategyName (snd (pr_Tick w i)) s = Some r \<and> rv_Eligible r)"
proof -
  obtain m' rs where l: "tick_loop w (indexBucketSamples (bucket_list i)) (ti_now i) (ti_fails i) rows Map.empty [] = (m', rs)"
    by (cases "tick_loop w (indexBucketSamples (bucket_list i)) (ti_now i) (ti_fails i) rows Map.empty []")
  then have "pr_Tick w i = (w\<lparr>pw_state := m'\<rparr>, rs)"
    using assms by (simp add: pr_Tick_def Let_def bucket_list_def)
  moreover have "m' s = map_option rv_Eligible (latest rv_StrategyName rs s)"
    by (rule tick_loop_latest [OF l]) simp
  ultimately show ?thesis by (auto simp: Allow_def split: option.splits)
qed

subsection \<open>Properties\<close>

text \<open>C10. No live row leaks. Whatever the sequence of promotion ticks, recorded decisions and
  restarts, and whatever the queries and the writers answer, a row that reaches the ledger without
  the shadow mark belongs to a strategy that is enabled, off its own shadow flag, under a raised
  global flag and no bypass, and whose newest persisted review is eligible and meets every
  promotion criterion.\<close>

theorem no_live_row_leaks:
  assumes "(d, revs) \<in> set (bus_run Allow pr_Tick (pr_New c) cfg writer (pr_New c) [] es)"
    and "\<not> dc_ShadowOnly d"
  shows "bc_GlobalPromotionAllowed cfg \<and> \<not> pc_BypassExplicit c \<and>
    (\<exists>flag. bc_Flags cfg (dc_StrategyName d) = Some flag \<and> fg_Enabled flag \<and> \<not> fg_ShadowOnly flag) \<and>
    (\<exists>r. latest rv_StrategyName revs (dc_StrategyName d) = Some r \<and> rv_Eligible r \<and>
         meets c (rv_SampleSize r) (rv_MedianSignedMove6h r) (rv_Reversal15mRatio r) (rv_AlertsPerDay r))"
proof -
  have "gate_ok c (pr_New c) []" by (simp add: gate_ok_def pr_New_def)
  from promo.live_rows_reviewed [OF this assms] show ?thesis by (auto simp: review_passed_def)
qed

text \<open>A strategy with enough good samples, and the decision that goes live after its review.\<close>

definition ex_pr_cfg :: pr_Config where
  "ex_pr_cfg = \<lparr>pc_Enabled = True, pc_Interval = Hour, pc_Lookback = 24 * Hour, pc_MinSampleSize = 30,
     pc_MinSignedMove6hCents = Fin 2, pc_MaxReversal15mRatio = Fin (1 / 2), pc_MaxAlertsPerDay = Fin 20,
     pc_BypassExplicit = False\<rparr>"

definition ex_sample :: "string \<Rightarrow> int \<Rightarrow> Sample" where
  "ex_sample v n = \<lparr>sa_StrategyName = ''cheaptail'', sa_StrategyVersion = v, sa_SampleSize = n,
     sa_MedianSignedMove6h = Fin 3, sa_Reversal15mRatio = Fin (1 / 4), sa_AlertsPerDay = Fin 8\<rparr>"

definition ex_tick :: "Sample list \<Rightarrow> tick_in" where
  "ex_tick rows = \<lparr>ti_samples = Inr rows, ti_buckets = Inl ''no buckets'', ti_fails = (\<lambda>r. False), ti_now = 0\<rparr>"

definition ex_bus_cfg :: bus_Config where
  "ex_bus_cfg = \<lparr>bc_StrategyVersion = ''v11'', bc_GlobalPromotionAllowed = True,
     bc_Flags = [''cheaptail'' \<mapsto> \<lparr>fg_Name = ''cheaptail'', fg_Enabled = True, fg_ShadowOnly = False\<rparr>],
     bc_PromotionGate = None\<rparr>"

definition ex_decision :: Decision where
  "ex_decision = \<lparr>dc_StrategyName = ''cheaptail'', dc_StrategyVersion = ''v11'', dc_ConditionID = ''c'',
     dc_EventSlug = ''e'', dc_Wallet = ''w'', dc_CohortID = '''', dc_Side = ''YES'', dc_Kind = ''standalone'',
     dc_Level = ''info'', dc_Score = 1, dc_Confidence = 1, dc_Reasons = [], dc_Features = Map.empty,
     dc_ShadowOnly = False, dc_LinkedAlertDedupKey = '''', dc_ControlBucketKey = '''', dc_FiredAt = 5\<rparr>"

lemma ex_review:
  "pw_cfg w = ex_pr_cfg \<Longrightarrow> rv_Eligible (tick_review w (indexBucketSamples []) now (ex_sample v n)) \<longleftrightarrow> 30 \<le> n"
  by (simp add: tick_review_eligible sample_passes_def meets_def ex_pr_cfg_def ex_sample_def)

lemma ex_name [simp]: "sa_StrategyName (ex_sample v n) = ''cheaptail''"
  by (simp add: ex_sample_def)

lemma ex_tick_in: "ti_samples (ex_tick rows) = Inr rows" "bucket_list (ex_tick rows) = []"
  "ti_fails (ex_tick rows) = (\<lambda>r. False)" "\<not> pc_BypassExplicit ex_pr_cfg" "pw_cfg (pr_New c) = c"
  by (simp_all add: ex_tick_def bucket_list_def ex_pr_cfg_def pr_New_def)

lemma ex_live:
  "(ex_decision, snd (pr_Tick (pr_New ex_pr_cfg) (ex_tick [ex_sample ''a'' 40]))) \<in>
     set (bus_run Allow pr_Tick (pr_New ex_pr_cfg) ex_bus_cfg NopWriter (pr_New ex_pr_cfg) []
            [Evaluate (ex_tick [ex_sample ''a'' 40]), Emit 7 ex_decision])"
proof -
  let ?i = "ex_tick [ex_sample ''a'' 40]"
  let ?g = "fst (pr_Tick (pr_New ex_pr_cfg) ?i)"
  have "Allow ?g ''cheaptail''"
    by (simp add: Tick_Allow [OF ex_tick_in(1)] Tick_written [OF ex_tick_in(1)] ex_tick_in latest_def ex_review)
  then have "fst (bus_Record (bus_New (ex_bus_cfg\<lparr>bc_PromotionGate := Some (Allow ?g)\<rparr>) (Some NopWriter)) 7 ex_decision)
      = Some ex_decision"
    by (simp add: Record_row bus_New_def ShouldEvaluate_def IsShadowOnly_def gate_open_def ex_bus_cfg_def
        ex_decision_def IsZero_def zero_time_def)
  then show ?thesis by (cases "pr_Tick (pr_New ex_pr_cfg) ?i") simp
qed

theorem no_live_row_leaks_witness:
  "rv_Eligible (the (latest rv_StrategyName (snd (pr_Tick (pr_New ex_pr_cfg) (ex_tick [ex_sample ''a'' 40]))) ''cheaptail''))"
proof -
  have "dc_StrategyName ex_decision = ''cheaptail''" "\<not> dc_ShadowOnly ex_decision" by (simp_all add: ex_decision_def)
  then show ?thesis using no_live_row_leaks [OF ex_live] by auto
qed

text \<open>The verdict of a tick. When the sample query succeeds, the reviews it writes are those of
  the samples in order, less the ones whose write fails; a review is eligible exactly when its
  sample meets the criteria and, if the bucket query returned rows, one of the strategy version's
  own buckets meets them too; afterwards the gate allows a strategy exactly when no bypass is set
  and the last review written for it in this tick is eligible. When the query fails the gate
  answers as before.\<close>

theorem promotion_tick_spec:
  "case ti_samples i of
     Inl e \<Rightarrow> snd (pr_Tick w i) = [] \<and> Allow (fst (pr_Tick w i)) s = Allow w s
   | Inr rows \<Rightarrow>
       map rv_StrategyName (snd (pr_Tick w i)) =
         map sa_StrategyName (filter (\<lambda>t. \<not> ti_fails i (tick_review w (indexBucketSamples (bucket_list i)) (ti_now i) t)) rows) \<and>
       map rv_Eligible (snd (pr_Tick w i)) =
         map (\<lambda>t. sample_passes (pw_cfg w) t \<and>
                  (bucket_list i = [] \<or>
                   (\<exists>b \<in> set (own_buckets (sa_StrategyName t) (sa_StrategyVersion t) (bucket_list i)).
                      bucket_passes (pw_cfg w) b)))
           (filter (\<lambda>t. \<not> ti_fails i (tick_review w (indexBucketSamples (bucket_list i)) (ti_now i) t)) rows) \<and>
       (Allow (fst (pr_Tick w i)) s \<longleftrightarrow> \<not> pc_BypassExplicit (pw_cfg w) \<and>
          (\<exists>r. latest rv_StrategyName (snd (pr_Tick w i)) s = Some r \<and> rv_Eligible r))"
proof (cases "ti_samples i")
  case (Inl e)
  then show ?thesis by (simp add: pr_Tick_def)
next
  case (Inr rows)
  have f: "filter P (map f xs) = map f (filter (\<lambda>x. P (f x)) xs)" for P :: "Review \<Rightarrow> bool" and f and xs :: "Sample list"
    by (simp add: filter_map o_def)
  show ?thesis
    using Inr Tick_Allow [OF Inr, of w s]
    by (simp add: Tick_written [OF Inr] f tick_review_eligible) (simp add: disj_imp)
qed

text \<open>The gate is keyed by the strategy's name, the samples by name and version: with two
  versions of one strategy, of which only one meets the criteria, the order in which the query
  returns them (it has no \<open>ORDER BY\<close>) decides whether the strategy may write live rows.\<close>

theorem gate_depends_on_row_order:
  "\<exists>good bad. sa_StrategyName good = sa_StrategyName bad \<and> sa_StrategyVersion good \<noteq> sa_StrategyVersion bad \<and>
     Allow (fst (pr_Tick (pr_New ex_pr_cfg) (ex_tick [bad, good]))) (sa_StrategyName good) \<and>
     \<not> Allow (fst (pr_Tick (pr_New ex_pr_cfg) (ex_tick [good, bad]))) (sa_StrategyName good)"
  by (rule exI [of _ "ex_sample ''a'' 40"], rule exI [of _ "ex_sample ''b'' 10"])
    (simp add: Tick_Allow [OF ex_tick_in(1)] Tick_written [OF ex_tick_in(1)] ex_tick_in latest_def ex_review,
     simp add: ex_sample_def)

end
