(* ===== verification/BookSignals.thy ===== *)
theory BookSignals
  imports GoFmt
begin

text \<open>
  Four detectors of the second generation, each a pure function of a prepared input:
  \<open>analytics/conflictresolve\<close> (two opposing signals), \<open>analytics/cheaptail\<close> (staging of cheap
  outcomes), \<open>analytics/repricinglag\<close> (a market that lags its peers) and \<open>analytics/bookvacuum\<close> (one
  side of a book collapses). A map of features is a partial function; a nil one is never returned.
\<close>


text \<open>A default: the value of the source when the configured one is not positive.\<close>

definition dflt :: "float64 \<Rightarrow> float64 \<Rightarrow> float64" where
  "dflt x d = (if x \<le> 0 then d else x)"

definition dflti :: "int \<Rightarrow> int \<Rightarrow> int" where
  "dflti x d = (if x \<le> 0 then d else x)"

lemma dflt_idem [simp]: "0 < d \<Longrightarrow> dflt (dflt x d) d = dflt x d"
  by (auto simp: dflt_def)

lemma dflti_idem [simp]: "dflti (dflti x d) d = dflti x d"
  by (auto simp: dflti_def)

subsection \<open>Package conflictresolve\<close>

record SideSignal =
  ss_Side :: string
  ss_WalletQualityScore :: float64
  ss_HolderStrength :: float64
  ss_ThesisBreadth :: float64
  ss_CatalystProximity :: float64
  ss_BookSupport :: float64
  ss_MMLike :: bool

record ConflictInput =
  ci_A :: SideSignal
  ci_B :: SideSignal

definition ActionKeepBoth :: string where "ActionKeepBoth = ''keep_both''"
definition ActionBoostWinnerDegrade :: string where "ActionBoostWinnerDegrade = ''boost_winner_degrade_loser''"
definition ActionBoostWinnerSuppress :: string where "ActionBoostWinnerSuppress = ''boost_winner_suppress_loser''"
definition ActionTagUnresolved :: string where "ActionTagUnresolved = ''tag_unresolved''"

lemmas conflict_actions [simp] = ActionKeepBoth_def ActionBoostWinnerDegrade_def ActionBoostWinnerSuppress_def ActionTagUnresolved_def

record ConflictVerdict =
  cv_Action :: string
  cv_WinningSide :: string
  cv_Dominance :: float64
  cv_BoostWinner :: float64
  cv_Reasons :: "string list"
  cv_Features :: features

record cf_Config =
  cf_MMPenalty :: float64
  cf_MinDominance :: float64
  cf_SuppressDominance :: float64
  cf_MaxBoost :: float64

definition cf_New :: "cf_Config \<Rightarrow> cf_Config" where
  "cf_New c = \<lparr>cf_MMPenalty = dflt (cf_MMPenalty c) (fl 0.4), cf_MinDominance = dflt (cf_MinDominance c) (fl 1.5),
     cf_SuppressDominance = dflt (cf_SuppressDominance c) (fl 2.5), cf_MaxBoost = dflt (cf_MaxBoost c) (fl 6)\<rparr>"

definition cf_score :: "cf_Config \<Rightarrow> SideSignal \<Rightarrow> float64" where
  "cf_score d s =
     (let base = ss_WalletQualityScore s + ss_HolderStrength s + ss_ThesisBreadth s + ss_CatalystProximity s + ss_BookSupport s
      in if ss_MMLike s then base * (1 - cf_MMPenalty d) else base)"

definition cf_Decide :: "cf_Config \<Rightarrow> ConflictInput \<Rightarrow> ConflictVerdict" where
  "cf_Decide d inp =
     (let scoreA = cf_score d (ci_A inp); scoreB = cf_score d (ci_B inp);
          v = \<lparr>cv_Action = '''', cv_WinningSide = '''', cv_Dominance = 0, cv_BoostWinner = 0, cv_Reasons = [],
               cv_Features = [''score_a'' \<mapsto> AFloat scoreA, ''score_b'' \<mapsto> AFloat scoreB]\<rparr>
      in if feq scoreA 0 \<and> feq scoreB 0
         then v\<lparr>cv_Action := ActionKeepBoth, cv_Reasons := [''both_sides_zero_quality'']\<rparr>
         else
           (let (bigger, smaller, winner) =
                  (if scoreB \<le> scoreA then (scoreA, scoreB, ss_Side (ci_A inp)) else (scoreB, scoreA, ss_Side (ci_B inp)));
                dominance = bigger / fmax smaller (fl 0.01);
                v = (if cf_SuppressDominance d \<le> dominance
                     then v\<lparr>cv_WinningSide := winner, cv_Dominance := dominance, cv_Action := ActionBoostWinnerSuppress,
                            cv_BoostWinner := cf_MaxBoost d\<rparr>
                     else if cf_MinDominance d \<le> dominance
                     then v\<lparr>cv_WinningSide := winner, cv_Dominance := dominance, cv_Action := ActionBoostWinnerDegrade,
                            cv_BoostWinner := cf_MaxBoost d * (dominance - 1) / (cf_SuppressDominance d - 1)\<rparr>
                     else v\<lparr>cv_Dominance := dominance, cv_Action := ActionTagUnresolved\<rparr>)
            in v\<lparr>cv_Reasons := [''dominance='' @ fmt_f 2 (cv_Dominance v) @ '' winner='' @ cv_WinningSide v @ '' action='' @ cv_Action v]\<rparr>))"

subsection \<open>Package cheaptail\<close>

record ch_Trade =
  ch_Price :: float64
  ch_NotionalUSD :: float64
  ch_Side :: string
  ch_Timestamp :: time

record ch_Input =
  ch_ConditionID :: string
  ch_Wallet :: string
  ch_CohortID :: string
  ch_Trades :: "ch_Trade list"
  ch_HolderRankImprovement :: int
  ch_ThesisBreadth :: int
  ch_HasActiveCatalyst :: bool
  ch_AmbiguityScore :: float64
  ch_LifecyclePct :: float64

record ch_Verdict =
  chv_Fired :: bool
  chv_Level :: string
  chv_Score :: float64
  chv_ProbBand :: string
  chv_Convexity :: float64
  chv_StageStrength :: float64
  chv_Reasons :: "string list"
  chv_Features :: features

record ch_Config =
  chc_MinPrice :: float64
  chc_MaxPrice :: float64
  chc_MinNotionalUSD :: float64
  chc_MinTrades :: int
  chc_RequireCatalyst :: bool
  chc_MaxAmbiguity :: float64
  chc_WarningScore :: float64
  chc_CriticalScore :: float64

definition ch_New :: "ch_Config \<Rightarrow> ch_Config" where
  "ch_New c = c\<lparr>chc_MinPrice := dflt (chc_MinPrice c) (fl 0.02), chc_MaxPrice := dflt (chc_MaxPrice c) (fl 0.15),
     chc_MinNotionalUSD := dflt (chc_MinNotionalUSD c) (fl 2500), chc_MinTrades := dflti (chc_MinTrades c) 2,
     chc_MaxAmbiguity := dflt (chc_MaxAmbiguity c) (fl 0.6), chc_WarningScore := dflt (chc_WarningScore c) (fl 30),
     chc_CriticalScore := dflt (chc_CriticalScore c) (fl 60)\<rparr>"

text \<open>The loop over the trades: the count, the sum of \<open>1/price\<close>, the sum of notionals.\<close>

definition in_band :: "ch_Config \<Rightarrow> ch_Trade \<Rightarrow> bool" where
  "in_band d t \<longleftrightarrow> \<not> (ch_Price t < chc_MinPrice d \<or> chc_MaxPrice d < ch_Price t) \<and> \<not> ch_NotionalUSD t < chc_MinNotionalUSD d"

definition band_sums :: "ch_Config \<Rightarrow> ch_Trade list \<Rightarrow> int \<times> float64 \<times> float64" where
  "band_sums d ts =
     foldl (\<lambda>(n, cv, no) t. if in_band d t then (n + 1, cv + 1 / ch_Price t, no + ch_NotionalUSD t) else (n, cv, no)) (0, 0, 0) ts"

definition ch_Decide :: "ch_Config \<Rightarrow> ch_Input \<Rightarrow> ch_Verdict" where
  "ch_Decide d inp =
     (let v = \<lparr>chv_Fired = False, chv_Level = '''', chv_Score = 0, chv_ProbBand = '''', chv_Convexity = 0,
               chv_StageStrength = 0, chv_Reasons = [], chv_Features = Map.empty\<rparr>
      in if chc_MaxAmbiguity d \<le> ch_AmbiguityScore inp then v\<lparr>chv_Reasons := [''blocked_by_ambiguity'']\<rparr>
         else if chc_RequireCatalyst d \<and> \<not> ch_HasActiveCatalyst inp then v\<lparr>chv_Reasons := [''no_active_catalyst'']\<rparr>
         else
           (let (inBand, convexSum, notionalSum) = band_sums d (ch_Trades inp)
            in if inBand < chc_MinTrades d then v\<lparr>chv_Reasons := [''insufficient_staging'']\<rparr>
               else
                 (let convexity = convexSum / of_i inBand;
                      stage = notionalSum / chc_MinNotionalUSD d;
                      band = (if ch_Price (hd (ch_Trades inp)) \<le> fl 0.05 then ''deep_tail'' else ''near_tail'');
                      score = convexity * stage;
                      score = (if 0 < ch_HolderRankImprovement inp
                               then score * (1 + of_i (ch_HolderRankImprovement inp) / fl 10) else score);
                      score = (if 2 \<le> ch_ThesisBreadth inp then score * (1 + of_i (ch_ThesisBreadth inp) / fl 4) else score);
                      score = (if 0 < ch_LifecyclePct inp then score * (fl 0.5 + ch_LifecyclePct inp / fl 200) else score);
                      level = (if chc_CriticalScore d \<le> score then ''critical''
                               else if chc_WarningScore d \<le> score then ''warning'' else ''info'')
                  in v\<lparr>chv_Fired := True, chv_Level := level, chv_Score := score, chv_ProbBand := band,
                       chv_Convexity := convexity, chv_StageStrength := stage,
                       chv_Reasons := [''band='' @ band @ '' convexity='' @ fmt_f 2 convexity @ '' stage='' @ fmt_f 2 stage @
                         '' breadth='' @ fmt_d (ch_ThesisBreadth inp) @ '' rank'' @ Delta @ ''='' @
                         fmt_d (ch_HolderRankImprovement inp) @ '' score='' @ fmt_f 2 score],
                       chv_Features := [''prob_band'' \<mapsto> AStr band, ''convexity'' \<mapsto> AFloat convexity,
                         ''stage_strength'' \<mapsto> AFloat stage, ''score'' \<mapsto> AFloat score]\<rparr>)))"

subsection \<open>Package repricinglag\<close>

record rl_Input =
  rl_ConditionID :: string
  rl_EventSlug :: string
  rl_ObservedMoveCents :: float64
  rl_PeerMovesCents :: "float64 list"
  rl_ExpectedImpactCents :: float64
  rl_AmbiguityScore :: float64

record LagVerdict =
  lv_Fired :: bool
  lv_Level :: string
  lv_LagScore :: float64
  lv_PeerMedian :: float64
  lv_SideBias :: string
  lv_Reasons :: "string list"
  lv_Features :: features

record rl_Config =
  rlc_MinLagCents :: float64
  rlc_MaxAmbiguity :: float64
  rlc_PeerMinCount :: int

definition rl_New :: "rl_Config \<Rightarrow> rl_Config" where
  "rl_New c = \<lparr>rlc_MinLagCents = dflt (rlc_MinLagCents c) (fl 3), rlc_MaxAmbiguity = dflt (rlc_MaxAmbiguity c) (fl 0.7),
     rlc_PeerMinCount = dflti (rlc_PeerMinCount c) 2\<rparr>"

definition rl_median :: "float64 list \<Rightarrow> float64" where
  "rl_median xs =
     (if xs = [] then 0
      else let s = fsort xs; mid = length s div 2
        in if length s mod 2 = 0 then (s ! (mid - 1) + s ! mid) / fl 2 else s ! mid)"

definition absFloat :: "float64 \<Rightarrow> float64" where
  "absFloat v = (if v < 0 then - v else v)"

definition rl_Decide :: "rl_Config \<Rightarrow> rl_Input \<Rightarrow> LagVerdict" where
  "rl_Decide d inp =
     (let v = \<lparr>lv_Fired = False, lv_Level = '''', lv_LagScore = 0, lv_PeerMedian = 0, lv_SideBias = '''', lv_Reasons = [],
               lv_Features = Map.empty\<rparr>
      in if rlc_MaxAmbiguity d \<le> rl_AmbiguityScore inp then v\<lparr>lv_Reasons := [''blocked_by_ambiguity'']\<rparr>
         else
           (let peerMedian = rl_median (rl_PeerMovesCents inp); v = v\<lparr>lv_PeerMedian := peerMedian\<rparr>
            in if int (length (rl_PeerMovesCents inp)) < rlc_PeerMinCount d \<and> rl_ExpectedImpactCents inp \<le> 0
               then v\<lparr>lv_Reasons := [''insufficient_peers_and_expected'']\<rparr>
               else
                 (let expected = (if rl_ExpectedImpactCents inp < peerMedian then peerMedian else rl_ExpectedImpactCents inp);
                      lag = expected - rl_ObservedMoveCents inp;
                      bias = (if rlc_MinLagCents d \<le> lag then ''underreaction''
                              else if rlc_MinLagCents d \<le> - lag then ''overreaction'' else '''');
                      v = v\<lparr>lv_LagScore := lag, lv_SideBias := bias, lv_Fired := (bias \<noteq> ''''),
                            lv_Features := [''expected_cents'' \<mapsto> AFloat expected,
                              ''observed_cents'' \<mapsto> AFloat (rl_ObservedMoveCents inp), ''peer_median_cents'' \<mapsto> AFloat peerMedian]\<rparr>
                  in if bias \<noteq> ''''
                     then v\<lparr>lv_Level := (if rlc_MinLagCents d * fl 3 \<le> absFloat lag then ''critical''
                                         else if rlc_MinLagCents d * fl 2 \<le> absFloat lag then ''warning'' else ''info''),
                            lv_Reasons := [''bias='' @ bias @ '' lag='' @ fmt_f 1 lag @ cent @ '' expected='' @ fmt_f 1 expected @
                              cent @ '' observed='' @ fmt_f 1 (rl_ObservedMoveCents inp) @ cent]\<rparr>
                     else v\<lparr>lv_Level := ''none'', lv_Reasons := [''lag_below_threshold'']\<rparr>)))"

subsection \<open>Package bookvacuum\<close>

record FeatureBar =
  fb_BidDepthTopN :: float64
  fb_AskDepthTopN :: float64
  fb_MidPrice :: float64
  fb_Spread :: float64
  fb_BidDepthDeltaPct :: float64
  fb_AskDepthDeltaPct :: float64
  fb_MidDelta :: float64

record bv_Input =
  bv_Recent :: FeatureBar
  bv_Baseline :: FeatureBar
  bv_SpreadZ :: float64
  bv_MMLike :: bool

record VacuumVerdict =
  vv_Detected :: bool
  vv_Side :: string
  vv_DepthCollapsePct :: float64
  vv_MidMove :: float64
  vv_Boost :: float64
  vv_Reasons :: "string list"
  vv_Features :: features

record bv_Config =
  bvc_MinCollapsePct :: float64
  bvc_MinSpreadZ :: float64
  bvc_MaxBoost :: float64

definition bv_New :: "bv_Config \<Rightarrow> bv_Config" where
  "bv_New c = \<lparr>bvc_MinCollapsePct = dflt (bvc_MinCollapsePct c) (fl 0.5), bvc_MinSpreadZ = dflt (bvc_MinSpreadZ c) (fl 1.5),
     bvc_MaxBoost = dflt (bvc_MaxBoost c) (fl 8)\<rparr>"

definition bv_side :: "bv_Config \<Rightarrow> FeatureBar \<Rightarrow> string \<times> float64" where
  "bv_side d b =
     (let askCollapse = - fb_AskDepthDeltaPct b; bidCollapse = - fb_BidDepthDeltaPct b
      in if bvc_MinCollapsePct d \<le> askCollapse \<and> bidCollapse < askCollapse then (''ask'', askCollapse)
         else if bvc_MinCollapsePct d \<le> bidCollapse \<and> askCollapse < bidCollapse then (''bid'', bidCollapse)
         else ('''', 0))"

definition bv_Decide :: "bv_Config \<Rightarrow> bv_Input \<Rightarrow> VacuumVerdict" where
  "bv_Decide d inp =
     (let v = \<lparr>vv_Detected = False, vv_Side = '''', vv_DepthCollapsePct = 0, vv_MidMove = 0, vv_Boost = 0, vv_Reasons = [],
               vv_Features = Map.empty\<rparr>
      in if bv_MMLike inp then v\<lparr>vv_Reasons := [''mm_like_market_skipped'']\<rparr>
         else
           (let (side, collapse) = bv_side d (bv_Recent inp)
            in if side = '''' then v\<lparr>vv_Reasons := [''no_depth_collapse'']\<rparr>
               else
                 (let mid = fb_MidDelta (bv_Recent inp);
                      spreadConfirmed = bvc_MinSpreadZ d \<le> bv_SpreadZ inp;
                      midConfirmed = (side = ''ask'' \<and> 0 < mid \<or> side = ''bid'' \<and> mid < 0)
                  in if \<not> spreadConfirmed \<and> \<not> midConfirmed
                     then v\<lparr>vv_Side := side, vv_DepthCollapsePct := collapse, vv_Reasons := [''unconfirmed_collapse'']\<rparr>
                     else
                       (let boost = fmin (bvc_MaxBoost d) (bvc_MaxBoost d * collapse)
                        in v\<lparr>vv_Detected := True, vv_Side := side, vv_DepthCollapsePct := collapse, vv_MidMove := \<bar>mid\<bar>,
                             vv_Boost := boost,
                             vv_Reasons := [''side='' @ side @ '' collapse='' @ fmt_f 2 collapse @ '' spreadZ='' @
                               fmt_f 2 (bv_SpreadZ inp) @ '' mid'' @ Delta @ ''='' @ fmt_fplus 3 mid],
                             vv_Features := [''side'' \<mapsto> AStr side, ''collapse_pct'' \<mapsto> AFloat collapse,
                               ''spread_z'' \<mapsto> AFloat (bv_SpreadZ inp), ''mid_delta'' \<mapsto> AFloat mid, ''boost'' \<mapsto> AFloat boost]\<rparr>))))"

subsection \<open>Arbitration\<close>

lemma tie_unresolved:
  assumes "isfin x" "1 < m"
  shows "\<not> m \<le> x / fmax x (fl 0.01)"
proof -
  have p: "(0 :: float64) < fl 0.01" by code_simp
  have f: "x \<noteq> NaN" "fl 0.01 \<noteq> NaN" using assms(1) isfin_not_NaN by auto
  have g: "x \<le> fmax x (fl 0.01)" "fl 0.01 \<le> fmax x (fl 0.01)" using fmax_ge [OF f] by auto
  then have "0 < fmax x (fl 0.01)" using p f64_less_le_trans by blast
  then have "x / fmax x (fl 0.01) \<le> 1" using g(1) assms(1) by (intro f64_div_le_one)
  then show ?thesis using assms(2) f64_less_le_trans [of 1 m] f64_le_less_trans f64_less_irrefl by blast
qed

text \<open>Action, dominance, winner and boost as a function of the two scores.\<close>

definition arbitrate :: "cf_Config \<Rightarrow> float64 \<Rightarrow> string \<Rightarrow> float64 \<Rightarrow> string \<Rightarrow> string \<times> float64 \<times> string \<times> float64" where
  "arbitrate d x sx y sy =
     (if feq x 0 \<and> feq y 0 then (ActionKeepBoth, 0, '''', 0)
      else
        (let dom = (if y \<le> x then x / fmax y (fl 0.01) else y / fmax x (fl 0.01)); w = (if y \<le> x then sx else sy)
         in if cf_SuppressDominance d \<le> dom then (ActionBoostWinnerSuppress, dom, w, cf_MaxBoost d)
            else if cf_MinDominance d \<le> dom
            then (ActionBoostWinnerDegrade, dom, w, cf_MaxBoost d * (dom - 1) / (cf_SuppressDominance d - 1))
            else (ActionTagUnresolved, dom, '''', 0)))"

lemma cf_Decide_arbitrate:
  "(cv_Action (cf_Decide d inp), cv_Dominance (cf_Decide d inp), cv_WinningSide (cf_Decide d inp), cv_BoostWinner (cf_Decide d inp)) =
     arbitrate d (cf_score d (ci_A inp)) (ss_Side (ci_A inp)) (cf_score d (ci_B inp)) (ss_Side (ci_B inp))"
  by (simp add: cf_Decide_def arbitrate_def Let_def)

lemma arbitrate_swap:
  assumes "isfin x" "isfin y" "1 < cf_MinDominance d" "1 < cf_SuppressDominance d"
  shows "arbitrate d x sx y sy = arbitrate d y sy x sx"
proof -
  consider (tie) "x = y" | (more) "y \<le> x" "\<not> x \<le> y" | (less) "x \<le> y" "\<not> y \<le> x"
    using f64_linear [OF isfin_not_NaN [OF assms(1)] isfin_not_NaN [OF assms(2)]] f64_antisym [of x y] by blast
  then show ?thesis
  proof cases
    case tie
    have n: "\<not> cf_MinDominance d \<le> y / fmax y (fl 0.01)" "\<not> cf_SuppressDominance d \<le> y / fmax y (fl 0.01)"
      using tie_unresolved assms(2-4) by blast+
    show ?thesis unfolding tie arbitrate_def Let_def by (simp only: if_cancel n if_False)
  qed (auto simp: arbitrate_def Let_def)
qed

lemma arbitrate_winner: "fst (snd (snd (arbitrate d x sx y sy))) \<noteq> '''' \<Longrightarrow>
    cf_MinDominance d \<le> fst (snd (arbitrate d x sx y sy)) \<or> cf_SuppressDominance d \<le> fst (snd (arbitrate d x sx y sy))"
  by (auto simp: arbitrate_def Let_def split: if_splits)

text \<open>Arbitration of two opposing signals: with finite scores and dominance thresholds above 1, swapping the two
  sides changes neither the action nor the dominance, the winner or the boost; a winner is named only
  when it dominates by the configured factor, and a tie or near-tie never invents one.\<close>

theorem conflict_symmetric:
  assumes "isfin (cf_score d a)" "isfin (cf_score d b)" "1 < cf_MinDominance d" "1 < cf_SuppressDominance d"
  shows "cv_Action (cf_Decide d \<lparr>ci_A = a, ci_B = b\<rparr>) = cv_Action (cf_Decide d \<lparr>ci_A = b, ci_B = a\<rparr>) \<and>
    cv_Dominance (cf_Decide d \<lparr>ci_A = a, ci_B = b\<rparr>) = cv_Dominance (cf_Decide d \<lparr>ci_A = b, ci_B = a\<rparr>) \<and>
    cv_WinningSide (cf_Decide d \<lparr>ci_A = a, ci_B = b\<rparr>) = cv_WinningSide (cf_Decide d \<lparr>ci_A = b, ci_B = a\<rparr>) \<and>
    cv_BoostWinner (cf_Decide d \<lparr>ci_A = a, ci_B = b\<rparr>) = cv_BoostWinner (cf_Decide d \<lparr>ci_A = b, ci_B = a\<rparr>) \<and>
    (cv_WinningSide (cf_Decide d \<lparr>ci_A = a, ci_B = b\<rparr>) \<noteq> '''' \<longrightarrow>
       cf_MinDominance d \<le> cv_Dominance (cf_Decide d \<lparr>ci_A = a, ci_B = b\<rparr>) \<or>
       cf_SuppressDominance d \<le> cv_Dominance (cf_Decide d \<lparr>ci_A = a, ci_B = b\<rparr>))"
  using cf_Decide_arbitrate [of d "\<lparr>ci_A = a, ci_B = b\<rparr>"] cf_Decide_arbitrate [of d "\<lparr>ci_A = b, ci_B = a\<rparr>"]
    arbitrate_swap [OF assms, of "ss_Side a" "ss_Side b"] arbitrate_winner [of d "cf_score d a" "ss_Side a" "cf_score d b" "ss_Side b"]
  unfolding ConflictInput.select_convs by (metis fst_conv snd_conv)

definition signal_of :: "string \<Rightarrow> float64 \<Rightarrow> SideSignal" where
  "signal_of side q = \<lparr>ss_Side = side, ss_WalletQualityScore = q, ss_HolderStrength = 0, ss_ThesisBreadth = 0,
     ss_CatalystProximity = 0, ss_BookSupport = 0, ss_MMLike = False\<rparr>"

definition cf_zero :: cf_Config where
  "cf_zero = cf_New \<lparr>cf_MMPenalty = 0, cf_MinDominance = 0, cf_SuppressDominance = 0, cf_MaxBoost = 0\<rparr>"

lemma conflict_symmetric_witness:
  "cv_WinningSide (cf_Decide cf_zero \<lparr>ci_A = signal_of ''YES'' (fl 0.25), ci_B = signal_of ''NO'' (fl 1)\<rparr>) = ''NO'' \<and>
   cv_WinningSide (cf_Decide cf_zero \<lparr>ci_A = signal_of ''NO'' (fl 1), ci_B = signal_of ''YES'' (fl 0.25)\<rparr>) = ''NO''"
proof -
  have w: "cv_WinningSide (cf_Decide cf_zero \<lparr>ci_A = signal_of ''YES'' (fl 0.25), ci_B = signal_of ''NO'' (fl 1)\<rparr>) = ''NO''"
    by code_simp
  have "isfin (cf_score cf_zero (signal_of ''YES'' (fl 0.25)))" "isfin (cf_score cf_zero (signal_of ''NO'' (fl 1)))"
    "1 < cf_MinDominance cf_zero" "1 < cf_SuppressDominance cf_zero" by code_simp+
  from conflict_symmetric [OF this] w show ?thesis by simp
qed

subsection \<open>Staging of cheap outcomes\<close>

lemma band_sums_count: "fst (band_sums d ts) = int (length (filter (in_band d) ts))"
  by (induction ts rule: rev_induct) (auto simp: band_sums_def split: prod.splits)

text \<open>Two more than the single trade that a caller with one trade can offer.\<close>

lemma ch_single_trade:
  assumes "2 \<le> chc_MinTrades d"
  shows "\<not> chv_Fired (ch_Decide d (inp\<lparr>ch_Trades := [t]\<rparr>)) \<and> chv_Reasons (ch_Decide d (inp\<lparr>ch_Trades := [t]\<rparr>)) \<in>
    {[''blocked_by_ambiguity''], [''no_active_catalyst''], [''insufficient_staging'']}"
proof -
  have "fst (band_sums d [t]) \<le> 1" unfolding band_sums_count by simp
  then show ?thesis using assms by (auto simp: ch_Decide_def Let_def split: prod.splits)
qed

text \<open>What a fired verdict rests on.\<close>

definition tail_staged :: "ch_Config \<Rightarrow> ch_Input \<Rightarrow> bool" where
  "tail_staged d inp \<longleftrightarrow> \<not> chc_MaxAmbiguity d \<le> ch_AmbiguityScore inp \<and> (ch_HasActiveCatalyst inp \<or> \<not> chc_RequireCatalyst d) \<and>
     chc_MinTrades d \<le> int (length (filter (in_band d) (ch_Trades inp)))"

lemma ch_fired: "chv_Fired (ch_Decide d inp) \<longleftrightarrow> tail_staged d inp"
  using band_sums_count [of d "ch_Trades inp"] by (auto simp: ch_Decide_def tail_staged_def Let_def split: prod.splits)

text \<open>The band is named after the first trade even when that trade is not in the band itself.\<close>

definition two_trades :: "ch_Trade list" where
  "two_trades = [\<lparr>ch_Price = fl 0.01, ch_NotionalUSD = fl 10, ch_Side = ''BUY'', ch_Timestamp = 1\<rparr>,
     \<lparr>ch_Price = fl 0.125, ch_NotionalUSD = fl 5000, ch_Side = ''BUY'', ch_Timestamp = 2\<rparr>,
     \<lparr>ch_Price = fl 0.125, ch_NotionalUSD = fl 5000, ch_Side = ''BUY'', ch_Timestamp = 3\<rparr>]"

definition ch_zero :: ch_Config where
  "ch_zero = ch_New \<lparr>chc_MinPrice = 0, chc_MaxPrice = 0, chc_MinNotionalUSD = 0, chc_MinTrades = 0, chc_RequireCatalyst = True,
     chc_MaxAmbiguity = 0, chc_WarningScore = 0, chc_CriticalScore = 0\<rparr>"

definition ch_input :: "ch_Trade list \<Rightarrow> ch_Input" where
  "ch_input ts = \<lparr>ch_ConditionID = ''c'', ch_Wallet = ''w'', ch_CohortID = '''', ch_Trades = ts, ch_HolderRankImprovement = 0,
     ch_ThesisBreadth = 0, ch_HasActiveCatalyst = True, ch_AmbiguityScore = 0, ch_LifecyclePct = 0\<rparr>"

lemma band_of_first_trade:
  "chv_ProbBand (ch_Decide ch_zero (ch_input two_trades)) = ''deep_tail'' \<and>
   map ch_Price (filter (in_band ch_zero) two_trades) = [fl 0.125, fl 0.125]"
  by code_simp

subsection \<open>Lag\<close>

lemma rl_median_cong: "mset xs = mset ys \<Longrightarrow> rl_median xs = rl_median ys"
  using fsort_cong [of xs ys] by (auto simp: rl_median_def Let_def)

text \<open>The staging and lag detectors fire exactly on their evidence: cheap-tail staging needs an ambiguity below
  the cap, a catalyst where one is required, and enough trades of the price band above the dust floor;
  a lag verdict needs an ambiguity below the cap, enough peers or an expected impact, and a distance
  between expected and observed move of at least the threshold, the sign of which is its bias; and
  the order of the peers does not matter.\<close>

theorem staging_and_lag_evidence:
  "chv_Fired (ch_Decide d inp) = tail_staged d inp \<and>
   lv_Fired (rl_Decide r rin) =
     (\<not> rlc_MaxAmbiguity r \<le> rl_AmbiguityScore rin \<and>
      \<not> (int (length (rl_PeerMovesCents rin)) < rlc_PeerMinCount r \<and> rl_ExpectedImpactCents rin \<le> 0) \<and>
      (let med = rl_median (rl_PeerMovesCents rin);
           lag = (if rl_ExpectedImpactCents rin < med then med else rl_ExpectedImpactCents rin) - rl_ObservedMoveCents rin
       in rlc_MinLagCents r \<le> lag \<or> rlc_MinLagCents r \<le> - lag)) \<and>
   (mset peers = mset (rl_PeerMovesCents rin) \<longrightarrow> rl_Decide r (rin\<lparr>rl_PeerMovesCents := peers\<rparr>) = rl_Decide r rin)"
proof (intro conjI impI)
  show "chv_Fired (ch_Decide d inp) = tail_staged d inp" by (rule ch_fired)
  show "lv_Fired (rl_Decide r rin) =
     (\<not> rlc_MaxAmbiguity r \<le> rl_AmbiguityScore rin \<and>
      \<not> (int (length (rl_PeerMovesCents rin)) < rlc_PeerMinCount r \<and> rl_ExpectedImpactCents rin \<le> 0) \<and>
      (let med = rl_median (rl_PeerMovesCents rin);
           lag = (if rl_ExpectedImpactCents rin < med then med else rl_ExpectedImpactCents rin) - rl_ObservedMoveCents rin
       in rlc_MinLagCents r \<le> lag \<or> rlc_MinLagCents r \<le> - lag))"
    by (simp add: rl_Decide_def Let_def)
  assume p: "mset peers = mset (rl_PeerMovesCents rin)"
  then have "rl_median peers = rl_median (rl_PeerMovesCents rin)" "length peers = length (rl_PeerMovesCents rin)"
    using rl_median_cong size_mset by metis+
  then show "rl_Decide r (rin\<lparr>rl_PeerMovesCents := peers\<rparr>) = rl_Decide r rin"
    by (cases rin) (simp only: rl_Decide_def rl_Input.select_convs rl_Input.update_convs)
qed

definition rl_zero :: rl_Config where
  "rl_zero = rl_New \<lparr>rlc_MinLagCents = 0, rlc_MaxAmbiguity = 0, rlc_PeerMinCount = 0\<rparr>"

definition rl_input :: "float64 list \<Rightarrow> rl_Input" where
  "rl_input peers = \<lparr>rl_ConditionID = ''c'', rl_EventSlug = ''e'', rl_ObservedMoveCents = fl 1, rl_PeerMovesCents = peers,
     rl_ExpectedImpactCents = 0, rl_AmbiguityScore = 0\<rparr>"

lemma staging_and_lag_evidence_witness:
  "rl_Decide rl_zero (rl_input [fl 9, fl 7, fl 8]) = rl_Decide rl_zero (rl_input [fl 7, fl 8, fl 9]) \<and>
   lv_Fired (rl_Decide rl_zero (rl_input [fl 7, fl 8, fl 9])) \<and> \<not> lv_Fired (rl_Decide rl_zero (rl_input [fl 7]))"
proof -
  have "mset [fl 9, fl 7, fl 8] = mset (rl_PeerMovesCents (rl_input [fl 7, fl 8, fl 9]))" by (simp add: rl_input_def)
  then have "rl_Decide rl_zero ((rl_input [fl 7, fl 8, fl 9])\<lparr>rl_PeerMovesCents := [fl 9, fl 7, fl 8]\<rparr>) =
      rl_Decide rl_zero (rl_input [fl 7, fl 8, fl 9])"
    using staging_and_lag_evidence [where d = ch_zero and inp = "ch_input []"] by blast
  moreover have "lv_Fired (rl_Decide rl_zero (rl_input [fl 7, fl 8, fl 9]))" "\<not> lv_Fired (rl_Decide rl_zero (rl_input [fl 7]))"
    by code_simp+
  ultimately show ?thesis by (simp add: rl_input_def)
qed

subsection \<open>The boost of a vacuum\<close>

lemma f64_pos_times: "isfin m \<Longrightarrow> 0 < m \<Longrightarrow> 0 < c \<Longrightarrow> m * c \<noteq> NaN \<and> 0 \<le> m * (c :: float64)"
  by (cases m; cases c) (auto simp: zero_f64 inf_of_def intro: Fin_fl_nonneg)

lemma bv_boost:
  assumes "isfin (bvc_MaxBoost d)" "0 < bvc_MaxBoost d" "0 < bvc_MinCollapsePct d"
  shows "0 \<le> vv_Boost (bv_Decide d inp) \<and> vv_Boost (bv_Decide d inp) \<le> bvc_MaxBoost d"
proof -
  let ?M = "bvc_MaxBoost d"
  have M: "?M \<noteq> NaN" "0 \<le> ?M" using assms(1,2) isfin_not_NaN f64_less_imp_le by blast+
  have b: "0 \<le> fmin ?M (?M * c) \<and> fmin ?M (?M * c) \<le> ?M" if "bvc_MinCollapsePct d \<le> c" for c
  proof -
    have c: "?M * c \<noteq> NaN" "0 \<le> ?M * c"
      using f64_pos_times [OF assms(1,2)] f64_less_le_trans [OF assms(3) that] by blast+
    show ?thesis using fmin_le [OF M(1) c(1)] fmin_cases [OF M(1) c(1)] M(2) c(2) by auto
  qed
  have s: "fst (bv_side d x) \<noteq> '''' \<Longrightarrow> bvc_MinCollapsePct d \<le> snd (bv_side d x)" for x
    by (simp add: bv_side_def Let_def split: if_splits)
  obtain side c where sc: "bv_side d (bv_Recent inp) = (side, c)" by fastforce
  show ?thesis
  proof (cases "side = ''''")
    case True
    then show ?thesis using sc M by (simp add: bv_Decide_def Let_def)
  next
    case False
    then have "bvc_MinCollapsePct d \<le> c" using s [of "bv_Recent inp"] sc by simp
    then show ?thesis using sc b [of c] M by (simp add: bv_Decide_def Let_def)
  qed
qed

end
