(* ===== verification/PeerSignals.thy ===== *)
theory PeerSignals
  imports BookSignals
begin

text \<open>
  Three more detectors of the second generation: \<open>analytics/catalystwindow\<close> (a scheduled event is near),
  \<open>analytics/walletcohort\<close> (wallets that trade together, or a burst of fresh ones) and
  \<open>analytics/holderdelta\<close> (the share of the open interest a wallet holds). The first two are boosters.
\<close>

subsection \<open>Package catalystwindow\<close>

record cw_Catalyst =
  ct_Kind :: string
  ct_ExpectedAt :: time
  ct_Confidence :: float64
  ct_EventSlug :: string

record WindowSpec =
  ws_Pre :: duration
  ws_Post :: duration

record cw_Input =
  cw_SignalTime :: time
  cw_EventSlug :: string
  cw_Catalysts :: "cw_Catalyst list"
  cw_WindowsByKind :: "string \<rightharpoonup> WindowSpec"
  cw_MinConfidence :: float64
  cw_ParentScore :: float64

record BoostVerdict =
  bw_InWindow :: bool
  bw_Catalyst :: cw_Catalyst
  bw_WindowClass :: string
  bw_LeadTime :: duration
  bw_Boost :: float64
  bw_Reasons :: "string list"
  bw_Features :: features

record cw_Config =
  cw_MaxBoost :: float64

definition cw_New :: "cw_Config \<Rightarrow> cw_Config" where
  "cw_New c = \<lparr>cw_MaxBoost = dflt (cw_MaxBoost c) (fl 12)\<rparr>"

definition cw_classify :: "duration \<Rightarrow> WindowSpec \<Rightarrow> string" where
  "cw_classify lead spec =
     (if 0 \<le> lead then (if ws_Pre spec sdiv 2 < lead then ''pre_long'' else ''pre_short'')
      else if ws_Post spec sdiv 2 < i64 (- lead) then ''post_long'' else ''post_short'')"

text \<open>The guards of the loop: the lead of a catalyst that qualifies, with the window of its kind.\<close>

definition cw_match :: "cw_Input \<Rightarrow> cw_Catalyst \<Rightarrow> (duration \<times> WindowSpec) option" where
  "cw_match inp c =
     (if ct_Confidence c < cw_MinConfidence inp then None
      else if ct_EventSlug c \<noteq> '''' \<and> cw_EventSlug inp \<noteq> '''' \<and> ct_EventSlug c \<noteq> cw_EventSlug inp then None
      else case cw_WindowsByKind inp (ct_Kind c) of None \<Rightarrow> None
        | Some spec \<Rightarrow>
            let lead = t_sub (ct_ExpectedAt c) (cw_SignalTime inp)
            in if lead < i64 (- ws_Post spec) \<or> ws_Pre spec < lead then None else Some (lead, spec))"

text \<open>Whether a candidate replaces the best so far; the switch has no branch for a lead of exactly 0 against a positive one.\<close>

definition cw_better :: "duration \<Rightarrow> duration \<Rightarrow> bool" where
  "cw_better lead bestLead =
     (if 0 < lead \<and> bestLead < 0 then True
      else if 0 < lead \<and> 0 < bestLead then bestLead < lead
      else if lead \<le> 0 \<and> bestLead \<le> 0 then bestLead < lead
      else False)"

definition cw_step :: "cw_Input \<Rightarrow> (cw_Catalyst \<times> duration \<times> string) option \<Rightarrow> cw_Catalyst \<Rightarrow> (cw_Catalyst \<times> duration \<times> string) option" where
  "cw_step inp best c =
     (case cw_match inp c of None \<Rightarrow> best
      | Some (lead, spec) \<Rightarrow>
          (case best of None \<Rightarrow> Some (c, lead, cw_classify lead spec)
           | Some (b, bestLead, cls) \<Rightarrow>
               if cw_better lead bestLead then Some (c, lead, cw_classify lead spec) else best))"

definition cw_proximity :: "duration \<Rightarrow> WindowSpec \<Rightarrow> float64" where
  "cw_proximity lead spec =
     (let p = (if 0 \<le> lead then 1 - \<bar>Seconds lead\<bar> / fmax (Seconds (ws_Pre spec)) 1
               else 1 - \<bar>Seconds lead\<bar> / fmax (Seconds (ws_Post spec)) 1)
      in if p < 0 then 0 else p)"

definition cw_zero :: cw_Catalyst where
  "cw_zero = \<lparr>ct_Kind = '''', ct_ExpectedAt = zero_time, ct_Confidence = 0, ct_EventSlug = ''''\<rparr>"

definition cw_Decide :: "cw_Config \<Rightarrow> cw_Input \<Rightarrow> BoostVerdict" where
  "cw_Decide d inp =
     (case foldl (cw_step inp) None (cw_Catalysts inp) of
        None \<Rightarrow> \<lparr>bw_InWindow = False, bw_Catalyst = cw_zero, bw_WindowClass = '''', bw_LeadTime = 0, bw_Boost = 0,
                  bw_Reasons = [''no_matching_catalyst''], bw_Features = Map.empty\<rparr>
      | Some (best, bestLead, bestClass) \<Rightarrow>
          let spec = (case cw_WindowsByKind inp (ct_Kind best) of None \<Rightarrow> \<lparr>ws_Pre = 0, ws_Post = 0\<rparr> | Some s \<Rightarrow> s);
              boost = cw_MaxBoost d * ct_Confidence best * cw_proximity bestLead spec
          in \<lparr>bw_InWindow = True, bw_Catalyst = best, bw_WindowClass = bestClass, bw_LeadTime = bestLead, bw_Boost = boost,
              bw_Reasons = [''kind='' @ ct_Kind best @ '' lead='' @ fmt_dur (dur_round bestLead Minute) @ '' class='' @ bestClass @
                '' confidence='' @ fmt_f 2 (ct_Confidence best) @ '' boost='' @ fmt_f 2 boost],
              bw_Features = [''catalyst_kind'' \<mapsto> AStr (ct_Kind best), ''lead_seconds'' \<mapsto> AInt (f2i (Seconds bestLead)),
                ''window_class'' \<mapsto> AStr bestClass, ''boost'' \<mapsto> AFloat boost]\<rparr>)"

subsection \<open>Package walletcohort\<close>

record wc_Edge =
  ed_WalletA :: string
  ed_WalletB :: string
  ed_EdgeKind :: string
  ed_SimilarityScore :: float64
  ed_CoEventsCount :: int
  ed_CohortID :: string

record CohortMember =
  cm_Wallet :: string
  cm_Side :: string
  cm_FirstSeenAt :: time
  cm_EnteredAt :: time

record wc_Input =
  wi_ConditionID :: string
  wi_EventSlug :: string
  wi_AlertWallet :: string
  wi_AlertSide :: string
  wi_AlertEnteredAt :: time
  wi_Now :: time
  wi_RecentMembers :: "CohortMember list"
  wi_Edges :: "wc_Edge list"

record CohortVerdict =
  co_CohortID :: string
  co_CohortSize :: int
  co_SimilarityAvg :: float64
  co_Converged :: bool
  co_Boost :: float64
  co_BranchHit :: string
  co_Reasons :: "string list"
  co_Features :: features

record wc_Config =
  wc_MinSimilarity :: float64
  wc_MinEvents :: int
  wc_MinCohortSize :: int
  wc_MaxBoost :: float64
  wc_FreshWalletMinBurst :: int
  wc_FreshWalletMaxAge :: duration

definition wc_New :: "wc_Config \<Rightarrow> wc_Config" where
  "wc_New c = \<lparr>wc_MinSimilarity = dflt (wc_MinSimilarity c) (fl 0.6), wc_MinEvents = dflti (wc_MinEvents c) 3,
     wc_MinCohortSize = dflti (wc_MinCohortSize c) 2, wc_MaxBoost = dflt (wc_MaxBoost c) (fl 6),
     wc_FreshWalletMinBurst = dflti (wc_FreshWalletMinBurst c) 3, wc_FreshWalletMaxAge = dflti (wc_FreshWalletMaxAge c) (24 * Hour)\<rparr>"

text \<open>
  The peers of the alert wallet with their similarity, and the cohort ids with their counts. The second
  map is an association list: the order Go walks it in is unspecified, so the walk gets the order as a list.
\<close>

definition wc_peer :: "wc_Config \<Rightarrow> wc_Input \<Rightarrow> wc_Edge \<Rightarrow> string option" where
  "wc_peer d inp e =
     (if ed_SimilarityScore e < wc_MinSimilarity d then None
      else if ed_CoEventsCount e < wc_MinEvents d then None
      else let other = (if ed_WalletB e = wi_AlertWallet inp then ed_WalletA e else ed_WalletB e)
           in if other = wi_AlertWallet inp then None else Some other)"

definition wc_edge_step :: "wc_Config \<Rightarrow> wc_Input \<Rightarrow> (string \<rightharpoonup> float64) \<times> (string \<rightharpoonup> int) \<Rightarrow> wc_Edge \<Rightarrow> (string \<rightharpoonup> float64) \<times> (string \<rightharpoonup> int)" where
  "wc_edge_step d inp st e =
     (case wc_peer d inp e of None \<Rightarrow> st
      | Some other \<Rightarrow>
          ((fst st)(other \<mapsto> ed_SimilarityScore e),
           if ed_CohortID e \<noteq> ''''
           then (snd st)(ed_CohortID e \<mapsto> (case snd st (ed_CohortID e) of None \<Rightarrow> 0 | Some n \<Rightarrow> n) + 1) else snd st))"

definition wc_edges :: "wc_Config \<Rightarrow> wc_Input \<Rightarrow> (string \<rightharpoonup> float64) \<times> (string \<rightharpoonup> int)" where
  "wc_edges d inp = foldl (wc_edge_step d inp) (Map.empty, Map.empty) (wi_Edges inp)"

definition wc_has_peers :: "wc_Config \<Rightarrow> wc_Input \<Rightarrow> bool" where
  "wc_has_peers d inp = list_ex (\<lambda>e. wc_peer d inp e \<noteq> None) (wi_Edges inp)"

text \<open>Members on the alert side that are peers, with the sum of their similarities.\<close>

definition wc_conv_step :: "wc_Input \<Rightarrow> (string \<rightharpoonup> float64) \<Rightarrow> string list \<times> float64 \<Rightarrow> CohortMember \<Rightarrow> string list \<times> float64" where
  "wc_conv_step inp peers st m =
     (if cm_Wallet m = wi_AlertWallet inp then st
      else case peers (cm_Wallet m) of None \<Rightarrow> st
        | Some sim \<Rightarrow> if cm_Side m = wi_AlertSide inp then (fst st @ [cm_Wallet m], snd st + sim) else st)"

definition wc_best_cohort :: "(string \<rightharpoonup> int) \<Rightarrow> string list \<Rightarrow> string \<times> int" where
  "wc_best_cohort counts order =
     foldl (\<lambda>(bestID, bestN) i. case counts i of None \<Rightarrow> (bestID, bestN)
       | Some n \<Rightarrow> if bestN < n then (i, n) else (bestID, bestN)) ('''', 0) order"

definition wc_fresh :: "wc_Input \<Rightarrow> time \<Rightarrow> CohortMember \<Rightarrow> bool" where
  "wc_fresh inp cutoff m =
     (cm_Wallet m \<noteq> wi_AlertWallet inp \<and> cm_Side m = wi_AlertSide inp \<and> \<not> (IsZero (cm_FirstSeenAt m) \<or> cm_FirstSeenAt m < cutoff))"

definition wc_none :: "string \<Rightarrow> CohortVerdict" where
  "wc_none reason = \<lparr>co_CohortID = '''', co_CohortSize = 0, co_SimilarityAvg = 0, co_Converged = False, co_Boost = 0,
     co_BranchHit = '''', co_Reasons = [reason], co_Features = Map.empty\<rparr>"

text \<open>\<open>sort.Strings\<close> sorts by bytes.\<close>

fun str_le :: "string \<Rightarrow> string \<Rightarrow> bool" where
  "str_le [] ys = True"
| "str_le (x # xs) [] = False"
| "str_le (x # xs) (y # ys) =
     (if (of_char x :: nat) < of_char y then True else if (of_char y :: nat) < of_char x then False else str_le xs ys)"

fun str_insert :: "string \<Rightarrow> string list \<Rightarrow> string list" where
  "str_insert x [] = [x]"
| "str_insert x (y # ys) = (if str_le x y then x # y # ys else y # str_insert x ys)"

definition str_sort :: "string list \<Rightarrow> string list" where
  "str_sort xs = foldr str_insert xs []"

definition wc_edge_branch :: "wc_Config \<Rightarrow> wc_Input \<Rightarrow> string list \<Rightarrow> CohortVerdict option" where
  "wc_edge_branch d inp order =
     (let (peers, cohorts) = wc_edges d inp
      in if \<not> wc_has_peers d inp then None
         else let (converged, simSum) = foldl (wc_conv_step inp peers) ([], 0) (wi_RecentMembers inp);
                  converged = str_sort converged;
                  cohortSize = int (length converged) + 1
              in if cohortSize < wc_MinCohortSize d then None
                 else let avg = simSum / of_i (int (length converged));
                          b = wc_MaxBoost d * avg * of_i (cohortSize - 1) / fl 3;
                          b = (if wc_MaxBoost d < b then wc_MaxBoost d else b)
                      in Some \<lparr>co_CohortID = fst (wc_best_cohort cohorts order), co_CohortSize = cohortSize, co_SimilarityAvg = avg,
                           co_Converged = True, co_Boost = b, co_BranchHit = ''edge_density'',
                           co_Reasons = [''branch=edge_density cohort_size='' @ fmt_d cohortSize @ '' avg_sim='' @ fmt_f 2 avg @
                             '' peers='' @ fmt_strs converged],
                           co_Features = [''branch'' \<mapsto> AStr ''edge_density'', ''cohort_size'' \<mapsto> AInt cohortSize,
                             ''avg_similarity'' \<mapsto> AFloat avg, ''converged_peers'' \<mapsto> AStrs converged, ''boost'' \<mapsto> AFloat b]\<rparr>)"

definition wc_fresh_branch :: "wc_Config \<Rightarrow> wc_Input \<Rightarrow> CohortVerdict option" where
  "wc_fresh_branch d inp =
     (if IsZero (wi_Now inp) then None
      else let cutoff = wi_Now inp + i64 (- wc_FreshWalletMaxAge d);
               fresh = map cm_Wallet (filter (wc_fresh inp cutoff) (wi_RecentMembers inp));
               alertIsFresh = (\<not> IsZero (wi_AlertEnteredAt inp) \<and> \<not> wi_AlertEnteredAt inp < cutoff);
               burst = int (length fresh) + (if alertIsFresh then 1 else 0)
           in if burst < wc_FreshWalletMinBurst d then None
              else let fresh = str_sort fresh;
                       b = wc_MaxBoost d / fl 2 * of_i (burst - wc_FreshWalletMinBurst d + 1) / fl 3;
                       b = (if wc_MaxBoost d / fl 2 < b then wc_MaxBoost d / fl 2 else b)
                   in Some \<lparr>co_CohortID = '''', co_CohortSize = burst, co_SimilarityAvg = 0, co_Converged = True, co_Boost = b,
                        co_BranchHit = ''fresh_wallet_burst'',
                        co_Reasons = [''branch=fresh_wallet_burst burst_size='' @ fmt_d burst @ '' max_age='' @
                          fmt_dur (wc_FreshWalletMaxAge d) @ '' peers='' @ fmt_strs fresh],
                        co_Features = [''branch'' \<mapsto> AStr ''fresh_wallet_burst'', ''burst_size'' \<mapsto> AInt burst,
                          ''fresh_peers'' \<mapsto> AStrs fresh, ''alert_is_fresh'' \<mapsto> ABool alertIsFresh, ''boost'' \<mapsto> AFloat b]\<rparr>)"

definition wc_Decide :: "wc_Config \<Rightarrow> string list \<Rightarrow> wc_Input \<Rightarrow> CohortVerdict" where
  "wc_Decide d order inp =
     (case wc_edge_branch d inp order of Some v \<Rightarrow> v
      | None \<Rightarrow> (case wc_fresh_branch d inp of Some v \<Rightarrow> v
          | None \<Rightarrow> if \<not> wc_has_peers d inp then wc_none ''no_qualifying_edges_and_no_fresh_burst''
                    else wc_none ''no_recent_convergence''))"

subsection \<open>Package holderdelta\<close>

record hd_Snapshot =
  sn_SnapshotAt :: time
  sn_Wallet :: string
  sn_Rank :: int
  sn_Shares :: float64
  sn_NotionalUSD :: float64
  sn_PctOI :: float64
  sn_TotalOI :: float64

record hd_Input =
  hi_ConditionID :: string
  hi_OutcomeToken :: string
  hi_Wallet :: string
  hi_Now :: time
  hi_Current :: hd_Snapshot
  hi_Previous :: hd_Snapshot

record hd_Verdict =
  hv_Fired :: bool
  hv_Level :: string
  hv_Score :: float64
  hv_Confidence :: float64
  hv_PctOI :: float64
  hv_RankNow :: int
  hv_RankPrev :: int
  hv_DeltaShares :: float64
  hv_DeltaRank :: int
  hv_OIDeltaPct :: float64
  hv_DenominatorPenalty :: float64
  hv_Reasons :: "string list"
  hv_Features :: features

record hd_Config =
  hc_MinPctOIInfo :: float64
  hc_MinPctOIWarning :: float64
  hc_MinPctOICritical :: float64
  hc_TopK :: int
  hc_MinSharesDelta :: float64
  hc_OIShrinkPenalty :: float64

definition hd_New :: "hd_Config \<Rightarrow> hd_Config" where
  "hd_New c = \<lparr>hc_MinPctOIInfo = dflt (hc_MinPctOIInfo c) (fl 0.03), hc_MinPctOIWarning = dflt (hc_MinPctOIWarning c) (fl 0.08),
     hc_MinPctOICritical = dflt (hc_MinPctOICritical c) (fl 0.15), hc_TopK = dflti (hc_TopK c) 5,
     hc_MinSharesDelta = dflt (hc_MinSharesDelta c) 1, hc_OIShrinkPenalty = dflt (hc_OIShrinkPenalty c) (fl 0.5)\<rparr>"

definition hd_oi_delta :: "hd_Snapshot \<Rightarrow> hd_Snapshot \<Rightarrow> float64" where
  "hd_oi_delta prev cur = (if 0 < sn_TotalOI prev then (sn_TotalOI cur - sn_TotalOI prev) / sn_TotalOI prev else 0)"

definition hd_penalty :: "hd_Config \<Rightarrow> hd_Snapshot \<Rightarrow> hd_Snapshot \<Rightarrow> float64" where
  "hd_penalty d prev cur =
     (let oi = hd_oi_delta prev cur
      in if oi < fl (- 0.05) \<and> sn_Shares cur - sn_Shares prev < \<bar>oi * sn_Shares prev\<bar> * fl 0.5 then hc_OIShrinkPenalty d else 1)"

definition hd_delta_rank :: "hd_Snapshot \<Rightarrow> hd_Snapshot \<Rightarrow> int" where
  "hd_delta_rank prev cur = (if 0 < sn_Rank prev then i64 (sn_Rank prev - sn_Rank cur) else 0)"

definition hd_score :: "hd_Config \<Rightarrow> hd_Snapshot \<Rightarrow> hd_Snapshot \<Rightarrow> float64" where
  "hd_score d prev cur =
     (let deltaShares = sn_Shares cur - sn_Shares prev;
          deltaRank = hd_delta_rank prev cur;
          rankBonus = (if 0 < deltaRank then 1 + fmin (of_i deltaRank / fl 5) 1 else 1);
          sharesBonus = (if 0 < deltaShares then 1 + fmin (deltaShares / fmax (sn_Shares prev) 1) 1 else 1)
      in fl 100 * sn_PctOI cur * rankBonus * sharesBonus * hd_penalty d prev cur)"

definition hd_entered :: "hd_Config \<Rightarrow> hd_Snapshot \<Rightarrow> hd_Snapshot \<Rightarrow> bool" where
  "hd_entered d prev cur \<longleftrightarrow> 0 < sn_Rank cur \<and> sn_Rank cur \<le> hc_TopK d \<and> (sn_Rank prev = 0 \<or> hc_TopK d < sn_Rank prev) \<and>
     hc_MinSharesDelta d \<le> sn_Shares cur - sn_Shares prev"

text \<open>The gates: whether it fires, and the level.\<close>

definition hd_gate :: "hd_Config \<Rightarrow> hd_Snapshot \<Rightarrow> hd_Snapshot \<Rightarrow> bool \<times> string" where
  "hd_gate d prev cur =
     (let one = feq (hd_penalty d prev cur) 1 in
      if hc_MinPctOICritical d \<le> sn_PctOI cur \<and> one then (True, ''critical'')
      else if hc_MinPctOIWarning d \<le> sn_PctOI cur \<and> one then (True, ''warning'')
      else if hc_MinPctOIInfo d \<le> sn_PctOI cur \<and> one then (True, ''info'')
      else if hd_entered d prev cur \<and> one then (True, ''info'')
      else (False, ''none''))"

definition hd_Decide :: "hd_Config \<Rightarrow> hd_Input \<Rightarrow> hd_Verdict" where
  "hd_Decide d inp =
     (let cur = hi_Current inp; prev = hi_Previous inp;
          deltaShares = sn_Shares cur - sn_Shares prev;
          oi = hd_oi_delta prev cur; pen = hd_penalty d prev cur; score = hd_score d prev cur
      in \<lparr>hv_Fired = fst (hd_gate d prev cur), hv_Level = snd (hd_gate d prev cur), hv_Score = score,
          hv_Confidence = clamp01 (sn_PctOI cur * fl 4), hv_PctOI = sn_PctOI cur, hv_RankNow = sn_Rank cur,
          hv_RankPrev = sn_Rank prev, hv_DeltaShares = deltaShares, hv_DeltaRank = hd_delta_rank prev cur,
          hv_OIDeltaPct = oi, hv_DenominatorPenalty = pen,
          hv_Reasons =
            add_if (hd_entered d prev cur) (''entered_top_'' @ fmt_d (hc_TopK d))
             (add_if (pen < 1) ''denominator_artifact_suspected''
               [''pctOI='' @ fmt_f 3 (sn_PctOI cur) @ '' rank='' @ fmt_d (sn_Rank prev) @ arrow @ fmt_d (sn_Rank cur) @ '' '' @ Delta @
                ''shares='' @ fmt_f 2 deltaShares @ '' '' @ Delta @ ''oi='' @ fmt_f 3 oi @ '' penalty='' @ fmt_f 2 pen]),
          hv_Features = [''pct_oi'' \<mapsto> AFloat (sn_PctOI cur), ''pct_oi_prev'' \<mapsto> AFloat (sn_PctOI prev),
            ''rank_now'' \<mapsto> AInt (sn_Rank cur), ''rank_prev'' \<mapsto> AInt (sn_Rank prev), ''delta_shares'' \<mapsto> AFloat deltaShares,
            ''delta_rank'' \<mapsto> AInt (hd_delta_rank prev cur), ''oi_delta_pct'' \<mapsto> AFloat oi, ''denominator_penalty'' \<mapsto> AFloat pen,
            ''score'' \<mapsto> AFloat score]\<rparr>)"

subsection \<open>Which catalyst is picked\<close>

text \<open>What the loop has found after a prefix: nothing when nothing matches, else a matching catalyst of the prefix.\<close>

lemma cw_fold_None: "foldl (cw_step inp) None cs = None \<longleftrightarrow> (\<forall>c \<in> set cs. cw_match inp c = None)"
  by (induction cs rule: rev_induct) (auto simp: cw_step_def split: option.splits prod.splits)

lemma cw_fold_Some:
  "foldl (cw_step inp) None cs = Some (c, lead, cls) \<Longrightarrow>
     c \<in> set cs \<and> (\<exists>spec. cw_match inp c = Some (lead, spec) \<and> cls = cw_classify lead spec)"
  by (induction cs arbitrary: c lead cls rule: rev_induct) (auto simp: cw_step_def split: option.splits prod.splits if_splits)

lemma cw_match_Some:
  "cw_match inp c = Some (lead, spec) \<Longrightarrow>
     lead = t_sub (ct_ExpectedAt c) (cw_SignalTime inp) \<and> cw_WindowsByKind inp (ct_Kind c) = Some spec \<and>
     \<not> ct_Confidence c < cw_MinConfidence inp \<and> i64 (- ws_Post spec) \<le> lead \<and> lead \<le> ws_Pre spec"
  by (auto simp: cw_match_def Let_def split: if_splits option.splits)

lemma cw_fold_farthest:
  assumes "\<forall>c \<in> set cs. \<forall>lead spec. cw_match inp c = Some (lead, spec) \<longrightarrow> 0 < lead"
    "foldl (cw_step inp) None cs = Some (b, best, cls)"
  shows "\<forall>c \<in> set cs. \<forall>lead spec. cw_match inp c = Some (lead, spec) \<longrightarrow> lead \<le> best"
  using assms
proof (induction cs arbitrary: b best cls rule: rev_induct)
  case (snoc c cs)
  have pos: "\<forall>c \<in> set cs. \<forall>lead spec. cw_match inp c = Some (lead, spec) \<longrightarrow> 0 < lead"
    "\<And>lead spec. cw_match inp c = Some (lead, spec) \<Longrightarrow> 0 < lead" using snoc.prems(1) by simp_all
  show ?case
  proof (cases "foldl (cw_step inp) None cs")
    case None
    then have "\<forall>c \<in> set cs. cw_match inp c = None" unfolding cw_fold_None .
    moreover have "cw_step inp None c = Some (b, best, cls)" using snoc.prems(2) None by simp
    ultimately show ?thesis by (auto simp: cw_step_def split: option.splits)
  next
    case (Some p)
    obtain b0 best0 cls0 where p: "p = (b0, best0, cls0)" by (cases p)
    have ih: "\<forall>c \<in> set cs. \<forall>lead spec. cw_match inp c = Some (lead, spec) \<longrightarrow> lead \<le> best0"
      using snoc.IH [OF pos(1)] Some p by blast
    obtain spec0 where "b0 \<in> set cs" "cw_match inp b0 = Some (best0, spec0)" using cw_fold_Some Some p by blast
    then have b0: "0 < best0" using pos(1) by blast
    show ?thesis
    proof (cases "cw_match inp c")
      case None
      then have "cw_step inp (Some p) c = Some p" by (simp add: cw_step_def)
      then have "best = best0" using snoc.prems(2) Some p by simp
      then show ?thesis using ih None by auto
    next
      case m: (Some q)
      obtain l s where q: "q = (l, s)" by (cases q)
      have l: "0 < l" using pos(2) m q by blast
      have "cw_step inp (Some p) c = Some (b, best, cls)" using snoc.prems(2) Some by simp
      then have "best = (if best0 < l then l else best0)"
        using p m q l b0 by (auto simp: cw_step_def cw_better_def split: if_splits)
      then show ?thesis using ih m q by (auto intro: order_trans)
    qed
  qed
qed simp

text \<open>Catalyst window: the booster is in a window exactly when some catalyst clears the confidence floor, belongs to
  the event and has the signal inside the window of its kind; the catalyst it reports is one of those;
  and when they all lie ahead it is the farthest one, so that a nearer catalyst never takes over and the
  boost, which falls with the distance, is the one of the farthest.\<close>

theorem catalyst_farthest_wins:
  "bw_InWindow (cw_Decide d inp) = list_ex (\<lambda>c. cw_match inp c \<noteq> None) (cw_Catalysts inp) \<and>
   (bw_InWindow (cw_Decide d inp) \<longrightarrow>
      bw_Catalyst (cw_Decide d inp) \<in> set (cw_Catalysts inp) \<and>
      (\<exists>spec. cw_match inp (bw_Catalyst (cw_Decide d inp)) = Some (bw_LeadTime (cw_Decide d inp), spec) \<and>
         bw_WindowClass (cw_Decide d inp) = cw_classify (bw_LeadTime (cw_Decide d inp)) spec \<and>
         bw_Boost (cw_Decide d inp) = cw_MaxBoost d * ct_Confidence (bw_Catalyst (cw_Decide d inp)) *
           cw_proximity (bw_LeadTime (cw_Decide d inp)) spec) \<and>
      ((\<forall>c \<in> set (cw_Catalysts inp). \<forall>lead spec. cw_match inp c = Some (lead, spec) \<longrightarrow> 0 < lead) \<longrightarrow>
       (\<forall>c \<in> set (cw_Catalysts inp). \<forall>lead spec. cw_match inp c = Some (lead, spec) \<longrightarrow> lead \<le> bw_LeadTime (cw_Decide d inp))))"
proof (cases "foldl (cw_step inp) None (cw_Catalysts inp)")
  case None
  then have "\<forall>c \<in> set (cw_Catalysts inp). cw_match inp c = None" unfolding cw_fold_None .
  then show ?thesis using None by (simp add: cw_Decide_def list_ex_iff)
next
  case (Some p)
  obtain b best cls where p: "p = (b, best, cls)" by (cases p)
  have f: "foldl (cw_step inp) None (cw_Catalysts inp) = Some (b, best, cls)" using Some p by simp
  obtain spec where m: "b \<in> set (cw_Catalysts inp)" "cw_match inp b = Some (best, spec)" "cls = cw_classify best spec"
    using cw_fold_Some [OF f] by blast
  have w: "cw_WindowsByKind inp (ct_Kind b) = Some spec" using cw_match_Some [OF m(2)] by blast
  have v: "bw_InWindow (cw_Decide d inp)" "bw_Catalyst (cw_Decide d inp) = b" "bw_LeadTime (cw_Decide d inp) = best"
    "bw_WindowClass (cw_Decide d inp) = cls" "bw_Boost (cw_Decide d inp) = cw_MaxBoost d * ct_Confidence b * cw_proximity best spec"
    using f w by (simp_all add: cw_Decide_def Let_def)
  have l: "list_ex (\<lambda>c. cw_match inp c \<noteq> None) (cw_Catalysts inp)"
    unfolding list_ex_iff by (rule bexI [OF _ m(1)]) (simp add: m(2))
  show ?thesis unfolding v(2-5) using m v(1) l cw_fold_farthest [OF _ f] by (intro conjI impI) blast+
qed

definition cw_ex :: "cw_Catalyst list \<Rightarrow> cw_Input" where
  "cw_ex cs = \<lparr>cw_SignalTime = 0, cw_EventSlug = ''e'', cw_Catalysts = cs,
     cw_WindowsByKind = [''debate'' \<mapsto> \<lparr>ws_Pre = 8 * Hour, ws_Post = 3 * Hour\<rparr>], cw_MinConfidence = fl 0.65, cw_ParentScore = 1\<rparr>"

definition cat_in :: "duration \<Rightarrow> cw_Catalyst" where
  "cat_in lead = \<lparr>ct_Kind = ''debate'', ct_ExpectedAt = lead, ct_Confidence = 1, ct_EventSlug = ''e''\<rparr>"

lemma catalyst_farthest_wins_witness:
  "bw_LeadTime (cw_Decide (cw_New \<lparr>cw_MaxBoost = 0\<rparr>) (cw_ex [cat_in Hour, cat_in (6 * Hour)])) = 6 * Hour \<and>
   bw_Boost (cw_Decide (cw_New \<lparr>cw_MaxBoost = 0\<rparr>) (cw_ex [cat_in Hour, cat_in (6 * Hour)])) <
   bw_Boost (cw_Decide (cw_New \<lparr>cw_MaxBoost = 0\<rparr>) (cw_ex [cat_in Hour]))"
proof -
  let ?d = "cw_New \<lparr>cw_MaxBoost = 0\<rparr>" and ?i = "cw_ex [cat_in Hour, cat_in (6 * Hour)]"
  have m: "map_option fst (cw_match ?i (cat_in Hour)) = Some Hour" "map_option fst (cw_match ?i (cat_in (6 * Hour))) = Some (6 * Hour)"
    by code_simp+
  have s: "set (cw_Catalysts ?i) = {cat_in Hour, cat_in (6 * Hour)}" by (simp add: cw_ex_def)
  have leads: "\<forall>c \<in> set (cw_Catalysts ?i). \<forall>lead spec. cw_match ?i c = Some (lead, spec) \<longrightarrow> 0 < lead"
    using m unfolding s by auto
  have w: "bw_InWindow (cw_Decide ?d ?i)" by code_simp
  have "6 * Hour \<le> bw_LeadTime (cw_Decide ?d ?i)"
    using catalyst_farthest_wins [of ?d ?i] w leads m(2) unfolding s by auto
  moreover have "bw_LeadTime (cw_Decide ?d ?i) \<le> 6 * Hour"
    "bw_Boost (cw_Decide ?d ?i) < bw_Boost (cw_Decide ?d (cw_ex [cat_in Hour]))" by code_simp+
  ultimately show ?thesis by simp
qed

subsection \<open>The boosts are bounded\<close>

lemma isfin_Seconds: "\<bar>d\<bar> \<le> 2 ^ 63 \<Longrightarrow> isfin (Seconds d)"
proof -
  assume d: "\<bar>d\<bar> \<le> 2 ^ 63"
  have q: "\<bar>d sdiv Second\<bar> \<le> 2 ^ 40"
  proof -
    have "\<bar>d sdiv Second\<bar> = \<bar>d\<bar> div Second"
      by (cases "d = 0") (auto simp: signed_divide_int_def abs_mult)
    also have "\<dots> \<le> 2 ^ 63 div Second" using d by (intro zdiv_mono1) simp_all
    finally show ?thesis by simp
  qed
  have "\<bar>d smod Second\<bar> < Second" by (rule smod_abs_less) simp
  then have f: "isfin (of_i (d smod Second) / Fin (of_int Second))" by (intro isfin_div_of_i) simp_all
  have r: "\<bar>d smod Second\<bar> \<le> 2 ^ 53" using \<open>\<bar>d smod Second\<bar> < Second\<close> by simp
  let ?y = "of_int (d smod Second) / 1000000000 :: rat"
  have "\<bar>?y\<bar> \<le> 1"
  proof -
    have "of_int \<bar>d smod Second\<bar> \<le> (of_int Second :: rat)" using \<open>\<bar>d smod Second\<bar> < Second\<close> of_int_le_iff by (metis less_imp_le)
    then show ?thesis by (simp add: abs_divide)
  qed
  then have "fl ?y \<le> 1" "- 1 \<le> fl ?y" using fl_le_int [of ?y 1] fl_ge_int [of "- 1" ?y] by (simp_all add: one_f64)
  then obtain y where y: "fl ?y = Fin y" "\<bar>y\<bar> \<le> 1" by (cases "fl ?y") (auto simp: one_f64)
  let ?n = "d sdiv Second"
  have n: "of_i ?n = Fin (of_int ?n)" using q by (intro of_i_eq) simp
  have "\<bar>of_int ?n + y\<bar> \<le> of_int (2 ^ 40 + 1)"
    using q y(2) of_int_le_iff [of "\<bar>?n\<bar>" "2 ^ 40", where ?'a = rat] by simp
  then have "of_int ?n + y \<le> of_int (2 ^ 40 + 1)" "of_int (- (2 ^ 40 + 1)) \<le> of_int ?n + y" by (simp_all add: abs_le_iff)
  then have "fl (of_int ?n + y) \<le> Fin (of_int (2 ^ 40 + 1))" "Fin (of_int (- (2 ^ 40 + 1))) \<le> fl (of_int ?n + y)"
    by (intro fl_le_int fl_ge_int; simp)+
  then have "isfin (fl (of_int ?n + y))" by (cases "fl (of_int ?n + y)") auto
  then show ?thesis using n y(1) r by (simp add: Seconds_def of_i_eq)
qed

lemma Seconds_not_NaN: "Seconds d \<noteq> NaN"
proof -
  have "\<bar>d smod Second\<bar> < Second" by (rule smod_abs_less) simp
  then have "isfin (of_i (d smod Second) / Fin (of_int Second))" by (intro isfin_div_of_i) simp_all
  then have "isfin (of_i (d smod Second) / fl 1000000000)" by simp
  then show ?thesis unfolding Seconds_def
    using of_i_not_NaN [of "d sdiv Second"]
    by (cases "of_i (d sdiv Second)"; cases "of_i (d smod Second) / fl 1000000000") simp_all
qed

lemma cw_proximity_unit: "\<bar>lead\<bar> \<le> 2 ^ 63 \<Longrightarrow> ranged 1 (cw_proximity lead spec)"
proof -
  assume "\<bar>lead\<bar> \<le> 2 ^ 63"
  then have "isfin (Seconds lead)" by (rule isfin_Seconds)
  then obtain s where "Seconds lead = Fin s" unfolding isfin_iff by blast
  then have a: "isfin \<bar>Seconds lead\<bar>" "0 \<le> \<bar>Seconds lead\<bar>" by (simp_all add: zero_f64)
  have S: "ranged 1 (if 1 - q < 0 then 0 else 1 - q)" if q: "q \<noteq> NaN" "0 \<le> q" for q :: float64
  proof -
    have n: "1 - q \<noteq> NaN" using q(1) by (cases q) (auto simp: one_f64 minus_float64_def)
    moreover have "1 - q \<le> 1 - 0" using q n by (intro f64_minus_mono) (auto simp: one_f64 zero_f64 minus_float64_def)
    moreover have "(1 :: float64) - 0 = 1" by code_simp
    ultimately show ?thesis by (auto simp: ranged_one f64_not_less)
  qed
  have Q: "\<bar>Seconds lead\<bar> / fmax x 1 \<noteq> NaN" "0 \<le> \<bar>Seconds lead\<bar> / fmax x 1" if "x \<noteq> NaN" for x
  proof -
    have "1 \<le> fmax x 1" using fmax_ge [OF that] by simp
    then have "0 < fmax x 1" using f64_less_0_1(1) f64_less_le_trans by blast
    then show "\<bar>Seconds lead\<bar> / fmax x 1 \<noteq> NaN" "0 \<le> \<bar>Seconds lead\<bar> / fmax x 1"
      using a f64_div_not_NaN f64_div_nonneg by blast+
  qed
  note n = Seconds_not_NaN
  have r: "ranged 1 (if 1 - \<bar>Seconds lead\<bar> / fmax (Seconds x) 1 < 0 then 0 else 1 - \<bar>Seconds lead\<bar> / fmax (Seconds x) 1)" for x
    by (rule S [OF Q [OF n]])
  have "cw_proximity lead spec = (let x = (if 0 \<le> lead then ws_Pre spec else ws_Post spec);
      p = 1 - \<bar>Seconds lead\<bar> / fmax (Seconds x) 1 in if p < 0 then 0 else p)"
    by (simp add: cw_proximity_def Let_def)
  then show ?thesis unfolding Let_def using r [of "if 0 \<le> lead then ws_Pre spec else ws_Post spec"] by (simp only:)
qed

text \<open>Scaling a maximum by a factor of the unit interval.\<close>

lemma scale_unit:
  assumes "isfin M" "f64_ok M" "0 \<le> M" "ranged 1 x"
  shows "isfin (M * x) \<and> f64_ok (M * x) \<and> 0 \<le> M * x \<and> M * x \<le> M"
proof -
  have x: "isfin x" "0 \<le> x" "x \<le> 1" using assms(4) ranged_isfin [OF assms(4)] by (simp_all add: ranged_one)
  have n: "M * x \<noteq> NaN" "M * 1 = M" using f64_mult_not_NaN [OF assms(1) x(1)] f64_mult_1(2) [OF assms(2)] by simp_all
  have "M * x \<le> M * 1" using assms(1,3) x n isfin_not_NaN f64_le_refl by (intro f64_mult_mono) auto
  moreover have "0 \<le> M * x" using assms(3) x(2) n(1) by (intro f64_mult_nonneg)
  ultimately have "0 \<le> M * x" "M * x \<le> M" using n(2) by simp_all
  moreover from this have "isfin (M * x)" using assms(1) by (cases "M * x"; cases M) (auto simp: zero_f64)
  ultimately show ?thesis by simp
qed

lemma scale_pos: "0 \<le> x \<Longrightarrow> isfin c \<Longrightarrow> 0 < c \<Longrightarrow> x * c \<noteq> NaN \<and> 0 \<le> x * (c :: float64)"
  by (cases x; cases c) (auto simp: zero_f64 inf_of_def intro: Fin_fl_nonneg)

lemma capped: "x \<noteq> NaN \<Longrightarrow> M \<noteq> NaN \<Longrightarrow> 0 \<le> x \<Longrightarrow> 0 \<le> M \<Longrightarrow>
    0 \<le> (if M < x then M else x) \<and> (if M < x then M else x) \<le> (M :: float64)"
  by (simp add: f64_not_less)

lemma of_i_small: "1 \<le> n \<Longrightarrow> n \<le> 2 ^ 63 \<Longrightarrow> isfin (of_i n) \<and> 0 < of_i n"
  using isfin_of_i_small of_i_pos by simp

lemma conv_sum:
  "0 \<le> s \<Longrightarrow> (\<And>w v. peers w = Some v \<Longrightarrow> 0 \<le> v) \<Longrightarrow>
   0 \<le> snd (foldl (wc_conv_step inp peers) (ws, s) ms) \<and>
   length (fst (foldl (wc_conv_step inp peers) (ws, s) ms)) \<le> length ws + length ms"
proof (induction ms arbitrary: ws s)
  case (Cons m ms)
  obtain ws' s' where st: "wc_conv_step inp peers (ws, s) m = (ws', s')" by fastforce
  have "0 \<le> s' \<and> length ws' \<le> length ws + 1"
    using st Cons.prems by (auto simp: wc_conv_step_def f64_add_nonneg split: option.splits if_splits)
  then show ?case using Cons.IH [of s' ws'] Cons.prems(2) st by auto
qed simp

lemma wc_edges_nonneg:
  assumes "0 < wc_MinSimilarity d" "\<forall>e \<in> set (wi_Edges inp). ed_SimilarityScore e \<noteq> NaN"
  shows "fst (wc_edges d inp) w = Some v \<Longrightarrow> 0 \<le> v"
proof -
  have "\<forall>u x. fst (foldl (wc_edge_step d inp) st es) u = Some x \<longrightarrow> 0 \<le> x"
    if "\<forall>u x. fst st u = Some x \<longrightarrow> 0 \<le> x" "\<forall>e \<in> set es. ed_SimilarityScore e \<noteq> NaN" for st es
    using that
  proof (induction es arbitrary: st)
    case (Cons e es)
    have "0 \<le> ed_SimilarityScore e" if "wc_peer d inp e = Some u" for u
    proof -
      have "\<not> ed_SimilarityScore e < wc_MinSimilarity d" using that by (auto simp: wc_peer_def split: if_splits)
      then have "wc_MinSimilarity d \<le> ed_SimilarityScore e"
        using Cons.prems(2) assms(1) f64_less_not_NaN f64_not_less by fastforce
      then show ?thesis using assms(1) f64_less_le_trans f64_less_imp_le by blast
    qed
    then have "\<forall>u x. fst (wc_edge_step d inp st e) u = Some x \<longrightarrow> 0 \<le> x"
      using Cons.prems(1) by (auto simp: wc_edge_step_def split: option.splits if_splits)
    then show ?case using Cons.IH Cons.prems(2) by simp
  qed simp
  from this [of "(Map.empty, Map.empty)"] assms(2)
  show "fst (wc_edges d inp) w = Some v \<Longrightarrow> 0 \<le> v" unfolding wc_edges_def by auto
qed

lemma length_str_insert [simp]: "length (str_insert x ys) = Suc (length ys)"
  by (induction ys) simp_all

lemma length_str_sort [simp]: "length (str_sort xs) = length xs"
  unfolding str_sort_def by (induction xs) simp_all

text \<open>A boost cap as a configuration may have it: a positive finite number.\<close>

definition boost_cap :: "float64 \<Rightarrow> bool" where
  "boost_cap M \<longleftrightarrow> isfin M \<and> f64_ok M \<and> 0 < M"

definition in_cap :: "float64 \<Rightarrow> float64 \<Rightarrow> bool" where
  "in_cap M b \<longleftrightarrow> 0 \<le> b \<and> b \<le> M"

lemma boost_capD: "boost_cap M \<Longrightarrow> isfin M \<and> f64_ok M \<and> 0 < M \<and> M \<noteq> NaN \<and> 0 \<le> M"
  using isfin_not_NaN f64_less_imp_le by (auto simp: boost_cap_def)

lemma cw_boost:
  assumes M: "boost_cap (cw_MaxBoost d)" and c: "\<forall>c \<in> set (cw_Catalysts inp). ranged 1 (ct_Confidence c)"
  shows "in_cap (cw_MaxBoost d) (bw_Boost (cw_Decide d inp))"
proof (cases "foldl (cw_step inp) None (cw_Catalysts inp)")
  case None
  then show ?thesis using boost_capD [OF M] by (simp add: cw_Decide_def in_cap_def)
next
  case (Some p)
  obtain b best cls where "p = (b, best, cls)" by (cases p)
  then have f: "foldl (cw_step inp) None (cw_Catalysts inp) = Some (b, best, cls)" using Some by simp
  obtain spec where m: "b \<in> set (cw_Catalysts inp)" "cw_match inp b = Some (best, spec)" using cw_fold_Some [OF f] by blast
  have w: "cw_WindowsByKind inp (ct_Kind b) = Some spec" "\<bar>best\<bar> \<le> 2 ^ 63"
    using cw_match_Some [OF m(2)] sat64_abs by (auto simp: t_sub_def)
  have v: "bw_Boost (cw_Decide d inp) = cw_MaxBoost d * ct_Confidence b * cw_proximity best spec"
    using f w(1) by (simp add: cw_Decide_def Let_def)
  have k: "ranged 1 (ct_Confidence b)" using c m(1) by blast
  have s: "isfin (cw_MaxBoost d * ct_Confidence b) \<and> f64_ok (cw_MaxBoost d * ct_Confidence b) \<and>
      0 \<le> cw_MaxBoost d * ct_Confidence b \<and> cw_MaxBoost d * ct_Confidence b \<le> cw_MaxBoost d"
    using boost_capD [OF M] k by (intro scale_unit) blast+
  have "0 \<le> bw_Boost (cw_Decide d inp) \<and> bw_Boost (cw_Decide d inp) \<le> cw_MaxBoost d * ct_Confidence b"
    unfolding v using scale_unit [OF _ _ _ cw_proximity_unit [OF w(2)]] s by blast
  then show ?thesis using s f64_le_trans by (auto simp: in_cap_def)
qed

text \<open>The two branches of the cohort booster.\<close>

definition cohort_ok :: "wc_Config \<Rightarrow> wc_Input \<Rightarrow> bool" where
  "cohort_ok d inp \<longleftrightarrow> 2 \<le> wc_MinCohortSize d \<and> 1 \<le> wc_FreshWalletMinBurst d \<and> 0 < wc_MinSimilarity d \<and>
     (\<forall>e \<in> set (wi_Edges inp). ed_SimilarityScore e \<noteq> NaN) \<and> length (wi_RecentMembers inp) < 2 ^ 62"

lemma wc_edge_boost:
  assumes M: "boost_cap (wc_MaxBoost d)" and ok: "cohort_ok d inp" and v: "wc_edge_branch d inp order = Some v"
  shows "in_cap (wc_MaxBoost d) (co_Boost v)"
proof -
  let ?M = "wc_MaxBoost d"
  obtain peers cohorts where pc: "wc_edges d inp = (peers, cohorts)" by fastforce
  obtain ws sum where cs: "foldl (wc_conv_step inp peers) ([], 0) (wi_RecentMembers inp) = (ws, sum)" by fastforce
  have p: "\<And>w x. peers w = Some x \<Longrightarrow> 0 \<le> x" using wc_edges_nonneg [of d inp] ok pc by (auto simp: cohort_ok_def)
  have c: "0 \<le> sum" "length ws \<le> length (wi_RecentMembers inp)"
    using conv_sum [of 0 peers inp "[]" "wi_RecentMembers inp"] p cs by auto
  have n: "2 \<le> int (length ws) + 1" using v ok pc cs by (auto simp: wc_edge_branch_def cohort_ok_def Let_def split: if_splits)
  then have k: "isfin (of_i (int (length ws)))" "0 < of_i (int (length ws))"
    using c(2) ok of_i_small [of "int (length ws)"] by (auto simp: cohort_ok_def)
  let ?avg = "sum / of_i (int (length ws))" and ?b = "?M * (sum / of_i (int (length ws))) * of_i (int (length ws)) / fl 3"
  have avg: "0 \<le> ?avg"
    using c(1) k by (cases sum; cases "of_i (int (length ws))") (auto simp: zero_f64 intro: Fin_fl_nonneg)
  have "0 \<le> ?avg * ?M" using scale_pos [OF avg] boost_capD [OF M] by blast
  moreover have "?M * ?avg = ?avg * ?M" by (cases ?M; cases ?avg) (simp_all add: mult.commute)
  ultimately have "0 \<le> ?M * ?avg * of_i (int (length ws))" using scale_pos [OF _ k] by simp
  then have b: "0 \<le> ?b" by (cases "?M * ?avg * of_i (int (length ws))") (auto simp: zero_f64 intro: Fin_fl_nonneg)
  have "co_Boost v = (if ?M < ?b then ?M else ?b)"
    using v pc cs by (auto simp: wc_edge_branch_def Let_def split: if_splits)
  moreover have "0 \<le> (if ?M < ?b then ?M else ?b) \<and> (if ?M < ?b then ?M else ?b) \<le> ?M"
    using b boost_capD [OF M] by (intro capped) auto
  ultimately show ?thesis by (simp add: in_cap_def)
qed

lemma wc_fresh_boost:
  assumes M: "boost_cap (wc_MaxBoost d)" and ok: "cohort_ok d inp" and v: "wc_fresh_branch d inp = Some v"
  shows "in_cap (wc_MaxBoost d) (co_Boost v)"
proof -
  let ?M = "wc_MaxBoost d"
  have two: "(0 :: float64) < fl 2" "(1 :: float64) \<le> fl 2" by code_simp+
  have h: "?M / fl 2 \<noteq> NaN" "?M / 1 = ?M" using boost_capD [OF M] f64_div_not_NaN two(1) f64_div_1 by blast+
  then have half: "0 \<le> ?M / fl 2" "?M / fl 2 \<le> ?M"
    using f64_div_nonneg [of ?M "fl 2"] f64_div_antimono [of ?M 1 "fl 2"] boost_capD [OF M] two f64_less_0_1(1) by simp_all
  obtain burst where b: "wc_FreshWalletMinBurst d \<le> burst" "burst \<le> int (length (wi_RecentMembers inp)) + 1"
    "co_Boost v = (let b = ?M / fl 2 * of_i (burst - wc_FreshWalletMinBurst d + 1) / fl 3 in if ?M / fl 2 < b then ?M / fl 2 else b)"
  proof -
    let ?cutoff = "wi_Now inp + i64 (- wc_FreshWalletMaxAge d)"
    let ?burst = "int (length (filter (wc_fresh inp ?cutoff) (wi_RecentMembers inp))) +
       (if \<not> IsZero (wi_AlertEnteredAt inp) \<and> \<not> wi_AlertEnteredAt inp < ?cutoff then 1 else 0)"
    have "wc_FreshWalletMinBurst d \<le> ?burst"
      "co_Boost v = (let b = ?M / fl 2 * of_i (?burst - wc_FreshWalletMinBurst d + 1) / fl 3 in if ?M / fl 2 < b then ?M / fl 2 else b)"
      using v by (auto simp: wc_fresh_branch_def Let_def split: if_splits)
    moreover have "?burst \<le> int (length (wi_RecentMembers inp)) + 1"
      using length_filter_le [of "wc_fresh inp ?cutoff" "wi_RecentMembers inp"] by (simp only: split: if_split) linarith
    ultimately show thesis using that by blast
  qed
  let ?k = "burst - wc_FreshWalletMinBurst d + 1" and ?b = "?M / fl 2 * of_i (burst - wc_FreshWalletMinBurst d + 1) / fl 3"
  have "isfin (of_i ?k) \<and> 0 < of_i ?k" using b(1,2) ok by (intro of_i_small) (auto simp: cohort_ok_def)
  then have "0 \<le> ?M / fl 2 * of_i ?k" using scale_pos half(1) by blast
  then have "0 \<le> ?b" by (cases "?M / fl 2 * of_i ?k") (auto simp: zero_f64 intro: Fin_fl_nonneg)
  then have "0 \<le> co_Boost v \<and> co_Boost v \<le> ?M / fl 2" unfolding b(3) Let_def using half(1) h(1) by (intro capped) auto
  then show ?thesis using half(2) f64_le_trans by (auto simp: in_cap_def)
qed

lemma wc_boost:
  assumes "boost_cap (wc_MaxBoost d)" "cohort_ok d inp"
  shows "in_cap (wc_MaxBoost d) (co_Boost (wc_Decide d order inp))"
  using wc_edge_boost [OF assms] wc_fresh_boost [OF assms] boost_capD [OF assms(1)]
  by (auto simp: wc_Decide_def wc_none_def in_cap_def split: option.splits)

text \<open>Boosters: with a positive finite cap, a catalyst confidence between 0 and 1, cohorts of at least two wallets and
  similarities that are numbers, the boosts of the catalyst window, of the wallet cohort (in both of its
  branches, for every order in which the cohort ids are visited) and of the book vacuum lie between 0
  and their cap.\<close>

theorem boosters_bounded:
  assumes "boost_cap (cw_MaxBoost cd)" "\<forall>c \<in> set (cw_Catalysts cinp). ranged 1 (ct_Confidence c)"
    "boost_cap (wc_MaxBoost wd)" "cohort_ok wd winp"
    "boost_cap (bvc_MaxBoost bd)" "0 < bvc_MinCollapsePct bd"
  shows "in_cap (cw_MaxBoost cd) (bw_Boost (cw_Decide cd cinp)) \<and>
    in_cap (wc_MaxBoost wd) (co_Boost (wc_Decide wd order winp)) \<and>
    in_cap (bvc_MaxBoost bd) (vv_Boost (bv_Decide bd binp))"
  using cw_boost [OF assms(1,2)] wc_boost [OF assms(3,4)] bv_boost [OF _ _ assms(6)] boost_capD [OF assms(5)]
  by (simp add: in_cap_def [of "bvc_MaxBoost bd"])

definition wc_zero :: wc_Config where
  "wc_zero = wc_New \<lparr>wc_MinSimilarity = 0, wc_MinEvents = 0, wc_MinCohortSize = 0, wc_MaxBoost = 0, wc_FreshWalletMinBurst = 0,
     wc_FreshWalletMaxAge = 0\<rparr>"

definition wc_ex :: wc_Input where
  "wc_ex = \<lparr>wi_ConditionID = ''c'', wi_EventSlug = ''e'', wi_AlertWallet = ''w'', wi_AlertSide = ''BUY'', wi_AlertEnteredAt = zero_time,
     wi_Now = 0, wi_RecentMembers = [\<lparr>cm_Wallet = ''p'', cm_Side = ''BUY'', cm_FirstSeenAt = zero_time, cm_EnteredAt = zero_time\<rparr>],
     wi_Edges = [\<lparr>ed_WalletA = ''p'', ed_WalletB = ''w'', ed_EdgeKind = ''co_trade'', ed_SimilarityScore = 1, ed_CoEventsCount = 3,
       ed_CohortID = ''k''\<rparr>]\<rparr>"

definition bv_zero :: bv_Config where
  "bv_zero = bv_New \<lparr>bvc_MinCollapsePct = 0, bvc_MinSpreadZ = 0, bvc_MaxBoost = 0\<rparr>"

definition bv_ex :: bv_Input where
  "bv_ex = (let b = \<lparr>fb_BidDepthTopN = fl 10, fb_AskDepthTopN = fl 10, fb_MidPrice = fl 0.5, fb_Spread = 0, fb_BidDepthDeltaPct = 0,
      fb_AskDepthDeltaPct = fl (- 0.75), fb_MidDelta = fl 0.25\<rparr>
    in \<lparr>bv_Recent = b, bv_Baseline = b, bv_SpreadZ = 0, bv_MMLike = False\<rparr>)"

lemma boosters_bounded_witness:
  "in_cap (fl 12) (bw_Boost (cw_Decide (cw_New \<lparr>cw_MaxBoost = 0\<rparr>) (cw_ex [cat_in Hour]))) \<and>
   in_cap (fl 6) (co_Boost (wc_Decide wc_zero [''k''] wc_ex)) \<and> in_cap (fl 8) (vv_Boost (bv_Decide bv_zero bv_ex)) \<and>
   co_Converged (wc_Decide wc_zero [''k''] wc_ex) \<and> vv_Detected (bv_Decide bv_zero bv_ex)"
proof -
  have M: "cw_MaxBoost (cw_New \<lparr>cw_MaxBoost = 0\<rparr>) = fl 12" "wc_MaxBoost wc_zero = fl 6" "bvc_MaxBoost bv_zero = fl 8"
    by (simp_all add: cw_New_def wc_zero_def wc_New_def bv_zero_def bv_New_def dflt_def)
  have cap: "boost_cap (fl 12)" "boost_cap (fl 6)" "boost_cap (fl 8)" unfolding boost_cap_def by code_simp+
  have c: "\<forall>c \<in> set (cw_Catalysts (cw_ex [cat_in Hour])). ranged 1 (ct_Confidence c)" by (simp add: cw_ex_def cat_in_def)
  have w: "cohort_ok wc_zero wc_ex"
  proof -
    have "0 < wc_MinSimilarity wc_zero" by code_simp
    then show ?thesis by (simp add: cohort_ok_def wc_zero_def wc_New_def dflti_def wc_ex_def)
  qed
  have b: "0 < bvc_MinCollapsePct bv_zero" by code_simp
  have "co_Converged (wc_Decide wc_zero [''k''] wc_ex)" "vv_Detected (bv_Decide bv_zero bv_ex)" by code_simp+
  then show ?thesis using boosters_bounded [of "cw_New \<lparr>cw_MaxBoost = 0\<rparr>" "cw_ex [cat_in Hour]" wc_zero wc_ex bv_zero "[''k'']" bv_ex]
      M cap c w b by simp
qed

subsection \<open>A denominator artifact\<close>

text \<open>The level rises with the share of the open interest, and a suspected artifact never fires unless its penalty is 1.\<close>

lemma hd_fired: "hv_Fired (hd_Decide d inp) \<longleftrightarrow>
    feq (hd_penalty d (hi_Previous inp) (hi_Current inp)) 1 \<and>
    (hc_MinPctOICritical d \<le> sn_PctOI (hi_Current inp) \<or> hc_MinPctOIWarning d \<le> sn_PctOI (hi_Current inp) \<or>
     hc_MinPctOIInfo d \<le> sn_PctOI (hi_Current inp) \<or> hd_entered d (hi_Previous inp) (hi_Current inp))"
  by (auto simp: hd_Decide_def hd_gate_def Let_def)

lemma hd_level_mono:
  assumes "sn_PctOI cur \<le> p"
  shows "(snd (hd_gate d prev cur) = ''critical'' \<longrightarrow> snd (hd_gate d prev (cur\<lparr>sn_PctOI := p\<rparr>)) = ''critical'') \<and>
    (snd (hd_gate d prev cur) = ''warning'' \<longrightarrow> snd (hd_gate d prev (cur\<lparr>sn_PctOI := p\<rparr>)) \<in> {''warning'', ''critical''}) \<and>
    (snd (hd_gate d prev cur) = ''info'' \<longrightarrow> snd (hd_gate d prev (cur\<lparr>sn_PctOI := p\<rparr>)) \<noteq> ''none'')"
proof -
  have "hd_penalty d prev (cur\<lparr>sn_PctOI := p\<rparr>) = hd_penalty d prev cur" "hd_entered d prev (cur\<lparr>sn_PctOI := p\<rparr>) = hd_entered d prev cur"
    by (simp_all add: hd_penalty_def hd_oi_delta_def hd_entered_def)
  moreover have "x \<le> sn_PctOI cur \<Longrightarrow> x \<le> p" for x using assms f64_le_trans by blast
  ultimately show ?thesis by (simp add: hd_gate_def Let_def)
qed

end
