(* ===== verification/TextRisk.thy ===== *)
theory TextRisk
  imports GoFmt
begin

text \<open>
  The two scorers that read texts: \<open>analytics/rulesrisk\<close>, the ambiguity of a market's resolution,
  and \<open>analytics/marketregime\<close>, the regime of a market. Both look for fixed needles in lower-cased
  text and add up weights in the order of their tables.
\<close>

subsection \<open>Package rulesrisk\<close>

record rr_Input =
  ri_ConditionID :: string
  ri_Title :: string
  ri_Description :: string
  ri_ResolutionRules :: string
  ri_CatalystKindHint :: string

record RiskScore =
  rk_AmbiguityScore :: float64
  rk_DisputeRisk :: float64
  rk_Reasons :: "string list"
  rk_Action :: string
  rk_Features :: features

definition ActionAllow :: string where "ActionAllow = ''allow''"
definition ActionCapSeverity :: string where "ActionCapSeverity = ''cap_severity''"
definition ActionBlockRepricingLag :: string where "ActionBlockRepricingLag = ''block_repricing_lag''"
definition ActionBlockCheapTail :: string where "ActionBlockCheapTail = ''block_cheap_tail''"
definition ActionBlockBoth :: string where "ActionBlockBoth = ''block_both''"

lemmas rule_actions [simp] = ActionAllow_def ActionCapSeverity_def ActionBlockRepricingLag_def ActionBlockCheapTail_def ActionBlockBoth_def

record rr_Config =
  rc_HighRiskThreshold :: float64
  rc_BlockRepricingAt :: float64
  rc_BlockCheaptailAt :: float64

definition rr_New :: "rr_Config \<Rightarrow> rr_Config" where
  "rr_New c =
     \<lparr>rc_HighRiskThreshold = (if rc_HighRiskThreshold c \<le> 0 then fl 0.7 else rc_HighRiskThreshold c),
      rc_BlockRepricingAt = (if rc_BlockRepricingAt c \<le> 0 then fl 0.7 else rc_BlockRepricingAt c),
      rc_BlockCheaptailAt = (if rc_BlockCheaptailAt c \<le> 0 then fl 0.6 else rc_BlockCheaptailAt c)\<rparr>"

text \<open>Needle, weight, reason, category.\<close>

definition rr_markers :: "(string \<times> float64 \<times> string \<times> string) list" where
  "rr_markers =
    [(''runoff'', fl 0.20, ''runoff_dependency'', ''procedural''), (''recount'', fl 0.20, ''recount_dependency'', ''procedural''),
     (''certification'', fl 0.15, ''certification_dependency'', ''procedural''), (''certified'', fl 0.15, ''certification_dependency'', ''procedural''),
     (''appeal'', fl 0.15, ''appeal_dependency'', ''procedural''), (''court'', fl 0.10, ''court_dependency'', ''procedural''),
     (''ruling'', fl 0.10, ''ruling_dependency'', ''procedural''), (''supreme court'', fl 0.05, ''supreme_court_dependency'', ''procedural''),
     (''injunction'', fl 0.15, ''injunction_dependency'', ''procedural''), (''impeachment'', fl 0.10, ''impeachment_dependency'', ''procedural''),
     (''definitive'', fl 0.10, ''definitive_terminology'', ''wording''), (''first'', fl 0.05, ''first_terminology'', ''wording''),
     (''considered'', fl 0.10, ''considered_subjective'', ''wording''), (''significant'', fl 0.08, ''significant_subjective'', ''wording''),
     (''material'', fl 0.05, ''material_subjective'', ''wording''), (''primarily'', fl 0.05, ''primarily_qualifier'', ''wording''),
     (''largely'', fl 0.05, ''largely_qualifier'', ''wording''), (''by end of'', fl 0.10, ''vague_deadline'', ''deadline''),
     (''end of year'', fl 0.05, ''end_of_year_deadline'', ''deadline''), (''end of month'', fl 0.05, ''end_of_month_deadline'', ''deadline''),
     (''on or before'', fl 0.05, ''soft_deadline'', ''deadline''), (''announced'', fl 0.10, ''announcement_dependency'', ''source''),
     (''official'', fl 0.10, ''official_source_dependency'', ''source''), (''officially'', fl 0.10, ''officially_qualifier'', ''source''),
     (''reports say'', fl 0.10, ''unnamed_reports'', ''source''), (''sources say'', fl 0.10, ''unnamed_sources'', ''source''),
     (''according to reports'', fl 0.10, ''unnamed_reports'', ''source'')]"

definition namedSources :: "string list" where
  "namedSources = [''associated press'', ''ap '', ''reuters'', ''bloomberg'', ''afp'', ''new york times'', ''nyt'',
     ''wall street journal'', ''wsj'', ''washington post'']"

text \<open>What the loop over the markers carries: score, reasons, procedural hits, wording hits.\<close>

record rr_state =
  ra_score :: float64
  ra_reasons :: "string list"
  ra_procedural :: int
  ra_wording :: int

definition rr_step :: "string \<Rightarrow> rr_state \<Rightarrow> string \<times> float64 \<times> string \<times> string \<Rightarrow> rr_state" where
  "rr_step txt s m = (case m of (needle, weight, reason, category) \<Rightarrow>
     if Contains txt needle
     then \<lparr>ra_score = ra_score s + weight,
           ra_reasons = (if reason \<in> set (ra_reasons s) then ra_reasons s else ra_reasons s @ [reason]),
           ra_procedural = (if category = ''procedural'' then ra_procedural s + 1 else ra_procedural s),
           ra_wording = (if category = ''wording'' then ra_wording s + 1 else ra_wording s)\<rparr>
     else s)"

definition rr_scan :: "string \<Rightarrow> rr_state" where
  "rr_scan txt = foldl (rr_step txt) \<lparr>ra_score = 0, ra_reasons = [], ra_procedural = 0, ra_wording = 0\<rparr> rr_markers"

text \<open>The bonuses, the offset of one named source and the hint, on score and reasons.\<close>

definition rr_adjust :: "string \<Rightarrow> string \<Rightarrow> rr_state \<Rightarrow> float64 \<times> string list" where
  "rr_adjust txt hint s =
     (let score = ra_score s; reasons = ra_reasons s;
          (score, reasons) =
            (if 3 \<le> ra_procedural s then (score + fl 0.10, reasons @ [''procedural_complexity_high''])
             else if 2 \<le> ra_procedural s then (score + fl 0.05, reasons @ [''procedural_complexity_medium''])
             else (score, reasons));
          (score, reasons) = (if 3 \<le> ra_wording s then (score + fl 0.05, reasons @ [''wording_risk_high'']) else (score, reasons));
          (score, reasons) =
            (case find (\<lambda>ns. Contains txt ns) namedSources of
               None \<Rightarrow> (score, reasons)
             | Some ns \<Rightarrow> (score - fl 0.05, reasons @ [''named_source_offset:'' @ TrimSpace ns]))
      in if hint = ''court_ruling'' \<or> hint = ''certification''
         then (score + fl 0.10, reasons @ [''high_risk_catalyst_kind'']) else (score, reasons))"

definition decideAction :: "rr_Config \<Rightarrow> float64 \<Rightarrow> string" where
  "decideAction d score =
     (if rc_BlockRepricingAt d \<le> score \<and> rc_BlockCheaptailAt d \<le> score then ActionBlockBoth
      else if rc_BlockRepricingAt d \<le> score then ActionBlockRepricingLag
      else if rc_BlockCheaptailAt d \<le> score then ActionBlockCheapTail
      else if rc_HighRiskThreshold d \<le> score then ActionCapSeverity
      else ActionAllow)"

definition rr_Decide :: "rr_Config \<Rightarrow> rr_Input \<Rightarrow> RiskScore" where
  "rr_Decide d inp =
     (let txt = ToLower (ri_Title inp @ '' '' @ ri_Description inp @ '' '' @ ri_ResolutionRules inp);
          s = rr_scan txt;
          (score, reasons) = rr_adjust txt (ri_CatalystKindHint inp) s;
          score = (if score < 0 then 0 else score);
          score = (if 1 < score then 1 else score);
          dispute = (if fl 0.6 \<le> score then score else score * fl 0.9);
          action = decideAction d score
      in \<lparr>rk_AmbiguityScore = score, rk_DisputeRisk = dispute,
          rk_Reasons = reasons @ [''ambiguity='' @ fmt_f 2 score @ '' dispute='' @ fmt_f 2 dispute @ '' procedural='' @
            fmt_d (ra_procedural s) @ '' wording='' @ fmt_d (ra_wording s) @ '' action='' @ action],
          rk_Action = action,
          rk_Features = [''ambiguity_score'' \<mapsto> AFloat score, ''dispute_risk'' \<mapsto> AFloat dispute,
            ''procedural_hits'' \<mapsto> AInt (ra_procedural s), ''wording_hits'' \<mapsto> AInt (ra_wording s), ''action'' \<mapsto> AStr action]\<rparr>)"

subsection \<open>Package marketregime\<close>

definition RegimeGeopoliticsMilitary :: string where "RegimeGeopoliticsMilitary = ''geopolitics_military''"
definition RegimePoliticsGovernance :: string where "RegimePoliticsGovernance = ''politics_governance''"
definition RegimeCorporatePrivateInfo :: string where "RegimeCorporatePrivateInfo = ''corporate_private_info''"
definition RegimeOracleSensitive :: string where "RegimeOracleSensitive = ''oracle_sensitive''"
definition RegimeOther :: string where "RegimeOther = ''other''"

lemmas regimes = RegimeGeopoliticsMilitary_def RegimePoliticsGovernance_def RegimeCorporatePrivateInfo_def
  RegimeOracleSensitive_def RegimeOther_def

record rg_Input =
  rg_CategorySlug :: string
  rg_CategoryLabel :: string
  rg_Title :: string
  rg_Description :: string
  rg_ResolutionRules :: string
  rg_EventSlug :: string

record rg_Verdict =
  rv_Regime :: string
  rv_Score :: float64
  rv_Reasons :: "string list"

text \<open>Needle, weight, regime, reason.\<close>

definition rg_markers :: "(string \<times> float64 \<times> string \<times> string) list" where
  "rg_markers =
    [(''war'', fl 0.30, RegimeGeopoliticsMilitary, ''war_keyword''), (''ceasefire'', fl 0.40, RegimeGeopoliticsMilitary, ''ceasefire_keyword''),
     (''missile'', fl 0.35, RegimeGeopoliticsMilitary, ''missile_keyword''), (''airstrike'', fl 0.40, RegimeGeopoliticsMilitary, ''airstrike_keyword''),
     (''invasion'', fl 0.40, RegimeGeopoliticsMilitary, ''invasion_keyword''), (''military'', fl 0.20, RegimeGeopoliticsMilitary, ''military_keyword''),
     (''nato'', fl 0.25, RegimeGeopoliticsMilitary, ''nato_keyword''), (''troops'', fl 0.25, RegimeGeopoliticsMilitary, ''troops_keyword''),
     (''hostages'', fl 0.30, RegimeGeopoliticsMilitary, ''hostages_keyword''), (''sanctions'', fl 0.15, RegimeGeopoliticsMilitary, ''sanctions_keyword''),
     (''ukraine'', fl 0.20, RegimeGeopoliticsMilitary, ''ukraine_keyword''), (''russia'', fl 0.15, RegimeGeopoliticsMilitary, ''russia_keyword''),
     (''israel'', fl 0.15, RegimeGeopoliticsMilitary, ''israel_keyword''), (''iran'', fl 0.15, RegimeGeopoliticsMilitary, ''iran_keyword''),
     (''gaza'', fl 0.20, RegimeGeopoliticsMilitary, ''gaza_keyword''), (''taiwan'', fl 0.20, RegimeGeopoliticsMilitary, ''taiwan_keyword''),
     (''election'', fl 0.30, RegimePoliticsGovernance, ''election_keyword''), (''president'', fl 0.20, RegimePoliticsGovernance, ''president_keyword''),
     (''senate'', fl 0.25, RegimePoliticsGovernance, ''senate_keyword''), (''congress'', fl 0.20, RegimePoliticsGovernance, ''congress_keyword''),
     (''primary'', fl 0.20, RegimePoliticsGovernance, ''primary_keyword''), (''caucus'', fl 0.25, RegimePoliticsGovernance, ''caucus_keyword''),
     (''governor'', fl 0.20, RegimePoliticsGovernance, ''governor_keyword''), (''mayor'', fl 0.15, RegimePoliticsGovernance, ''mayor_keyword''),
     (''vote'', fl 0.10, RegimePoliticsGovernance, ''vote_keyword''), (''impeach'', fl 0.30, RegimePoliticsGovernance, ''impeach_keyword''),
     (''confirmation hearing'', fl 0.20, RegimePoliticsGovernance, ''confirmation_hearing_keyword''), (''supreme court'', fl 0.20, RegimePoliticsGovernance, ''supreme_court_keyword''),
     (''legislation'', fl 0.20, RegimePoliticsGovernance, ''legislation_keyword''), (''bill'', fl 0.10, RegimePoliticsGovernance, ''bill_keyword''),
     (''politics'', fl 0.15, RegimePoliticsGovernance, ''politics_category''), (''earnings'', fl 0.30, RegimeCorporatePrivateInfo, ''earnings_keyword''),
     (''revenue'', fl 0.20, RegimeCorporatePrivateInfo, ''revenue_keyword''), (''acquisition'', fl 0.30, RegimeCorporatePrivateInfo, ''acquisition_keyword''),
     (''merger'', fl 0.30, RegimeCorporatePrivateInfo, ''merger_keyword''), (''ipo'', fl 0.30, RegimeCorporatePrivateInfo, ''ipo_keyword''),
     (''ceo'', fl 0.20, RegimeCorporatePrivateInfo, ''ceo_keyword''), (''resign'', fl 0.15, RegimeCorporatePrivateInfo, ''resign_keyword''),
     (''layoff'', fl 0.20, RegimeCorporatePrivateInfo, ''layoff_keyword''), (''product launch'', fl 0.25, RegimeCorporatePrivateInfo, ''product_launch_keyword''),
     (''company'', fl 0.10, RegimeCorporatePrivateInfo, ''company_keyword''), (''uma'', fl 0.40, RegimeOracleSensitive, ''uma_oracle_keyword''),
     (''chainlink'', fl 0.35, RegimeOracleSensitive, ''chainlink_oracle_keyword''), (''oracle'', fl 0.25, RegimeOracleSensitive, ''oracle_keyword''),
     (''attester'', fl 0.25, RegimeOracleSensitive, ''attester_keyword''), (''dispute'', fl 0.15, RegimeOracleSensitive, ''dispute_keyword''),
     (''clarification'', fl 0.10, RegimeOracleSensitive, ''clarification_keyword''), (''verifiable'', fl 0.10, RegimeOracleSensitive, ''verifiable_keyword''),
     (''verified'', fl 0.10, RegimeOracleSensitive, ''verified_keyword'')]"

text \<open>The two maps of the loop; a missing key reads as 0 and as nil.\<close>

definition rg_step :: "string \<Rightarrow> (string \<Rightarrow> float64) \<times> (string \<Rightarrow> string list) \<Rightarrow> string \<times> float64 \<times> string \<times> string
    \<Rightarrow> (string \<Rightarrow> float64) \<times> (string \<Rightarrow> string list)" where
  "rg_step txt st m = (case (st, m) of ((scores, reasons), (needle, weight, regime, reason)) \<Rightarrow>
     if Contains txt needle
     then (scores(regime := scores regime + weight), reasons(regime := reasons regime @ [reason])) else (scores, reasons))"

definition rg_priority :: "string list" where
  "rg_priority = [RegimeOracleSensitive, RegimeGeopoliticsMilitary, RegimePoliticsGovernance, RegimeCorporatePrivateInfo]"

definition rg_pick :: "(string \<Rightarrow> float64) \<Rightarrow> string list \<Rightarrow> string \<times> float64" where
  "rg_pick scores rs =
     foldl (\<lambda>(picked, best) r. if fl 0.20 \<le> scores r \<and> best \<le> scores r then (r, scores r) else (picked, best)) (RegimeOther, 0) rs"

definition rg_clamp :: "float64 \<Rightarrow> float64 \<Rightarrow> float64 \<Rightarrow> float64" where
  "rg_clamp v lo hi = (if v < lo then lo else if hi < v then hi else v)"

definition rg_text :: "rg_Input \<Rightarrow> string" where
  "rg_text inp = ToLower (rg_CategorySlug inp @ '' '' @ rg_CategoryLabel inp @ '' '' @ rg_Title inp @ '' '' @
     rg_Description inp @ '' '' @ rg_ResolutionRules inp)"

definition rg_scores :: "string \<Rightarrow> (string \<Rightarrow> float64) \<times> (string \<Rightarrow> string list)" where
  "rg_scores txt = foldl (rg_step txt) (\<lambda>_. 0, \<lambda>_. []) rg_markers"

definition rg_Classify :: "rg_Input \<Rightarrow> rg_Verdict" where
  "rg_Classify inp =
     (let (scores, reasons) = rg_scores (rg_text inp);
          (picked, best) = rg_pick scores rg_priority;
          score = rg_clamp best 0 1
      in \<lparr>rv_Regime = picked, rv_Score = score,
          rv_Reasons = reasons picked @ [''regime='' @ picked @ '' score='' @ fmt_f 2 score]\<rparr>)"

definition RequiresDualConfirmation :: "string \<Rightarrow> bool" where
  "RequiresDualConfirmation r \<longleftrightarrow> r = RegimeOracleSensitive"

subsection \<open>The risk score\<close>

lemma add_fin_not_NaN: "x \<noteq> NaN \<Longrightarrow> isfin w \<Longrightarrow> x + w \<noteq> NaN" "x \<noteq> NaN \<Longrightarrow> isfin w \<Longrightarrow> x - w \<noteq> NaN"
  by (cases x; cases w; simp add: minus_float64_def)+

lemma add_fin_ok: "f64_ok (x - w)" "f64_ok (x + w)"
  by simp_all

lemma rr_weights: "\<forall>m \<in> set rr_markers. isfin (fst (snd m))"
  by code_simp

lemma rr_scan_not_NaN: "ra_score (rr_scan txt) \<noteq> NaN \<and> f64_ok (ra_score (rr_scan txt))"
proof -
  have "ra_score (foldl (rr_step txt) s ms) \<noteq> NaN \<and> f64_ok (ra_score (foldl (rr_step txt) s ms))"
    if "\<forall>m \<in> set ms. isfin (fst (snd m))" "ra_score s \<noteq> NaN \<and> f64_ok (ra_score s)" for s ms
    using that
  proof (induction ms arbitrary: s)
    case (Cons m ms)
    obtain n w r c where m: "m = (n, w, r, c)" by (cases m)
    then have w: "isfin w" "\<forall>m \<in> set ms. isfin (fst (snd m))" using Cons.prems(1) by simp_all
    have "ra_score (rr_step txt s m) \<noteq> NaN \<and> f64_ok (ra_score (rr_step txt s m))"
      using Cons.prems(2) add_fin_not_NaN(1) [OF _ w(1)] by (simp add: rr_step_def m)
    then show ?case using Cons.IH [OF w(2)] by simp
  qed simp
  from this [OF rr_weights] show ?thesis unfolding rr_scan_def by simp
qed

lemma rr_offsets: "isfin (fl (1 / 10))" "isfin (fl (1 / 20))"
  by code_simp+

lemma rr_adjust_not_NaN:
  assumes "ra_score s \<noteq> NaN \<and> f64_ok (ra_score s)"
  shows "fst (rr_adjust txt hint s) \<noteq> NaN \<and> f64_ok (fst (rr_adjust txt hint s))"
  using assms unfolding rr_adjust_def Let_def
  by (auto simp: add_fin_not_NaN rr_offsets simp del: One_nat_def split: option.splits prod.splits)

text \<open>Resolution risk: whatever the texts are, the ambiguity and the dispute risk lie between 0 and 1, the dispute risk
  never exceeds the ambiguity, and the action blocks each of the two strategies exactly when the
  ambiguity reaches its threshold.\<close>

theorem rules_risk_bounded:
  "0 \<le> rk_AmbiguityScore (rr_Decide d inp) \<and> rk_AmbiguityScore (rr_Decide d inp) \<le> 1 \<and>
   0 \<le> rk_DisputeRisk (rr_Decide d inp) \<and> rk_DisputeRisk (rr_Decide d inp) \<le> rk_AmbiguityScore (rr_Decide d inp) \<and>
   (rk_Action (rr_Decide d inp) \<in> {ActionBlockCheapTail, ActionBlockBoth}) = (rc_BlockCheaptailAt d \<le> rk_AmbiguityScore (rr_Decide d inp)) \<and>
   (rk_Action (rr_Decide d inp) \<in> {ActionBlockRepricingLag, ActionBlockBoth}) = (rc_BlockRepricingAt d \<le> rk_AmbiguityScore (rr_Decide d inp))"
proof -
  let ?txt = "ToLower (ri_Title inp @ '' '' @ ri_Description inp @ '' '' @ ri_ResolutionRules inp)"
  obtain sc rs where a: "rr_adjust ?txt (ri_CatalystKindHint inp) (rr_scan ?txt) = (sc, rs)" by fastforce
  have ok: "sc \<noteq> NaN" "f64_ok sc" using rr_adjust_not_NaN [OF rr_scan_not_NaN, of ?txt "ri_CatalystKindHint inp" ?txt] a by simp_all
  define c where "c = (let s = (if sc < 0 then 0 else sc) in if 1 < s then 1 else s)"
  have c: "0 \<le> c" "c \<le> 1" "f64_ok c" using ok by (auto simp: c_def Let_def f64_not_less zero_f64 one_f64)
  have v: "rk_AmbiguityScore (rr_Decide d inp) = c" "rk_DisputeRisk (rr_Decide d inp) = (if fl 0.6 \<le> c then c else c * fl 0.9)"
    "rk_Action (rr_Decide d inp) = decideAction d c"
    unfolding rr_Decide_def Let_def a c_def by simp_all
  have n: "isfin (fl 0.9)" "fl 0.9 \<le> 1" "0 \<le> fl 0.9" by code_simp+
  have f: "isfin c" using c(1,2) by (cases c) (auto simp: zero_f64 one_f64)
  have "c * fl 0.9 \<noteq> NaN" using f n(1) by (rule f64_mult_not_NaN)
  moreover have "c * 1 = c" using c(3) by (rule f64_mult_1(2))
  ultimately have "c * fl 0.9 \<le> c" "0 \<le> c * fl 0.9"
    using f64_mult_mono [of c c "fl 0.9" 1] f64_mult_nonneg [of c "fl 0.9"] c(1) n f isfin_not_NaN by auto
  then have "0 \<le> rk_DisputeRisk (rr_Decide d inp) \<and> rk_DisputeRisk (rr_Decide d inp) \<le> c"
    using c(1) f isfin_not_NaN by (simp add: v(2))
  then show ?thesis using c(1,2) by (auto simp: v(1,3) decideAction_def)
qed

subsection \<open>The regime\<close>

lemma isfin_fl_unit: "0 \<le> r \<Longrightarrow> r \<le> 1 \<Longrightarrow> isfin (fl r)"
  using fl_nonneg [of r] fl_le_one [of r] by (cases "fl r") (auto simp: zero_f64 one_f64)

lemma rg_weights: "\<forall>m \<in> set rg_markers. isfin (fst (snd m))"
  by (simp add: rg_markers_def isfin_fl_unit)

text \<open>Only the markers that occur matter.\<close>

lemma rg_occurring: "foldl (rg_step txt) st ms = foldl (rg_step txt) st (filter (\<lambda>m. Contains txt (fst m)) ms)"
  by (induction ms arbitrary: st) (auto simp: rg_step_def)

lemma rg_scores_not_NaN: "fst (rg_scores txt) r \<noteq> NaN"
proof -
  have "\<forall>r. fst (foldl (rg_step txt) st ms) r \<noteq> NaN"
    if "\<forall>m \<in> set ms. isfin (fst (snd m))" "\<forall>r. fst st r \<noteq> NaN" for st ms
    using that
  proof (induction ms arbitrary: st)
    case (Cons m ms)
    obtain n w g c where m: "m = (n, w, g, c)" by (cases m)
    then have w: "isfin w" "\<forall>m \<in> set ms. isfin (fst (snd m))" using Cons.prems(1) by simp_all
    have "\<forall>r. fst (rg_step txt st m) r \<noteq> NaN"
    proof
      fix r
      obtain scores reasons where st: "st = (scores, reasons)" by (cases st)
      then have "scores r \<noteq> NaN" "scores g \<noteq> NaN" using Cons.prems(2) by simp_all
      moreover from this have "scores g + w \<noteq> NaN" using add_fin_not_NaN(1) w(1) by blast
      moreover have "fst (rg_step txt st m) = (if Contains txt n then scores(g := scores g + w) else scores)"
        by (simp only: rg_step_def st m prod.case fst_conv split: if_split) blast
      ultimately show "fst (rg_step txt st m) r \<noteq> NaN" by (simp only: fun_upd_apply split: if_split) blast
    qed
    then show ?case using Cons.IH [OF w(2)] by simp
  qed simp
  from this [OF rg_weights] show ?thesis unfolding rg_scores_def by simp
qed

text \<open>What the walk over the priorities picks: the last of the best.\<close>

definition picks :: "(string \<Rightarrow> float64) \<Rightarrow> string list \<Rightarrow> string \<times> float64 \<Rightarrow> bool" where
  "picks s rs pb \<longleftrightarrow>
     pb = (RegimeOther, 0) \<and> list_all (\<lambda>r. s r < fl 0.20) rs \<or>
     (\<exists>before p after. rs = before @ p # after \<and> pb = (p, s p) \<and> fl 0.20 \<le> s p \<and>
        list_all (\<lambda>r. s r \<le> s p) before \<and> list_all (\<lambda>r. s r < s p) after)"

lemma rg_pick_picks:
  assumes "\<forall>r. s r \<noteq> NaN"
  shows "picks s rs (rg_pick s rs)"
proof (induction rs rule: rev_induct)
  case Nil
  show ?case by (simp add: picks_def rg_pick_def)
next
  case (snoc r rs)
  have t: "fl 0.20 \<noteq> NaN" "(0 :: float64) \<le> fl 0.20" by (simp, code_simp)
  obtain p b where pb: "rg_pick s rs = (p, b)" by fastforce
  have step: "rg_pick s (rs @ [r]) = (if fl 0.20 \<le> s r \<and> b \<le> s r then (r, s r) else (p, b))"
    using pb by (simp add: rg_pick_def)
  consider (none) "p = RegimeOther" "b = 0" "list_all (\<lambda>r. s r < fl 0.20) rs"
    | (some) before after where "rs = before @ p # after" "b = s p" "fl 0.20 \<le> s p" "list_all (\<lambda>r. s r \<le> s p) before"
        "list_all (\<lambda>r. s r < s p) after"
    using snoc pb unfolding picks_def by auto
  then show ?case
  proof cases
    case none
    show ?thesis
    proof (cases "fl 0.20 \<le> s r")
      case True
      then have "b \<le> s r" using none(2) t(2) f64_le_trans by blast
      moreover have "list_all (\<lambda>q. s q \<le> s r) rs"
        using none(3) True f64_less_le_trans f64_less_imp_le by (auto simp: list_all_iff)
      ultimately show ?thesis unfolding step picks_def using True
        by (intro disjI2 exI [of _ rs] exI [of _ r] exI [of _ "[]"]) simp
    next
      case False
      then have "s r < fl 0.20" using assms t(1) f64_not_le by blast
      then show ?thesis unfolding step picks_def using False none by simp
    qed
  next
    case some
    show ?thesis
    proof (cases "b \<le> s r")
      case True
      then have "fl 0.20 \<le> s r" using some(2,3) f64_le_trans by blast
      moreover have "list_all (\<lambda>q. s q \<le> s r) rs"
        using some True f64_le_trans [OF _ True] f64_less_imp_le by (fastforce simp: list_all_iff)
      ultimately show ?thesis unfolding step picks_def using True
        by (intro disjI2 exI [of _ rs] exI [of _ r] exI [of _ "[]"]) simp
    next
      case False
      then have "s r < s p" using some(2) assms f64_not_le by blast
      then show ?thesis unfolding step picks_def using some False
        by (intro disjI2 exI [of _ before] exI [of _ p] exI [of _ "after @ [r]"]) simp
    qed
  qed
qed

definition tied_market :: rg_Input where
  "tied_market = \<lparr>rg_CategorySlug = '''', rg_CategoryLabel = '''', rg_Title = ''Oracle on NATO'', rg_Description = '''',
     rg_ResolutionRules = '''', rg_EventSlug = ''''\<rparr>"

lemma tied_occurring:
  "rg_text tied_market = ''  oracle on nato  ''"
  "filter (\<lambda>m. Contains ''  oracle on nato  '' (fst m)) rg_markers =
     [(''nato'', fl 0.25, RegimeGeopoliticsMilitary, ''nato_keyword''), (''oracle'', fl 0.25, RegimeOracleSensitive, ''oracle_keyword'')]"
  by code_simp (simp add: rg_markers_def del: fl_dyadic fl_code)

lemma tied_scores:
  "fst (rg_scores (rg_text tied_market)) =
     (\<lambda>_. 0)(RegimeGeopoliticsMilitary := fl 0.25, RegimeOracleSensitive := fl 0.25)"
proof -
  have "(0 :: float64) + fl (1 / 4) = fl (1 / 4)" by code_simp
  then show ?thesis unfolding rg_scores_def rg_occurring [of _ _ rg_markers] tied_occurring
    by (simp add: rg_step_def regimes)
qed

text \<open>Regimes: a market gets the regime other when no score reaches the floor, else a regime with the highest score - and
  among equals the last of the priority list, so that the regime with the strictest gate loses every
  tie: a market that mentions an oracle and NATO, both with the same weight, is not oracle sensitive.\<close>

theorem regime_ties_go_last:
  "picks (fst (rg_scores (rg_text inp))) rg_priority (rg_pick (fst (rg_scores (rg_text inp))) rg_priority) \<and>
   rv_Regime (rg_Classify inp) = fst (rg_pick (fst (rg_scores (rg_text inp))) rg_priority) \<and>
   0 \<le> rv_Score (rg_Classify inp) \<and> rv_Score (rg_Classify inp) \<le> 1 \<and>
   fst (rg_scores (rg_text tied_market)) RegimeOracleSensitive = fst (rg_scores (rg_text tied_market)) RegimeGeopoliticsMilitary \<and>
   \<not> RequiresDualConfirmation (rv_Regime (rg_Classify tied_market))"
proof (intro conjI)
  let ?s = "fst (rg_scores (rg_text inp))"
  show p: "picks ?s rg_priority (rg_pick ?s rg_priority)" by (rule rg_pick_picks) (simp add: rg_scores_not_NaN)
  have v: "rv_Regime (rg_Classify i) = fst (rg_pick (fst (rg_scores (rg_text i))) rg_priority)" for i
    by (simp add: rg_Classify_def Let_def split: prod.splits)
  show "rv_Regime (rg_Classify inp) = fst (rg_pick ?s rg_priority)" by (rule v)
  have "snd (rg_pick ?s rg_priority) \<noteq> NaN" using p rg_scores_not_NaN by (auto simp: picks_def)
  moreover have "rv_Score (rg_Classify inp) = rg_clamp (snd (rg_pick ?s rg_priority)) 0 1"
    by (simp add: rg_Classify_def Let_def split: prod.splits)
  ultimately show "0 \<le> rv_Score (rg_Classify inp)" "rv_Score (rg_Classify inp) \<le> 1" by (auto simp: rg_clamp_def f64_not_less)
  show "fst (rg_scores (rg_text tied_market)) RegimeOracleSensitive = fst (rg_scores (rg_text tied_market)) RegimeGeopoliticsMilitary"
    by (simp add: tied_scores regimes)
  have "fst (rg_pick (fst (rg_scores (rg_text tied_market))) rg_priority) = RegimeGeopoliticsMilitary"
    unfolding tied_scores by code_simp
  then show "\<not> RequiresDualConfirmation (rv_Regime (rg_Classify tied_market))"
    unfolding v by (simp add: RequiresDualConfirmation_def regimes)
qed

end
