(* ===== verification/StrategyShadow.thy ===== *)
theory StrategyShadow
  imports PeerSignals TextRisk StrategyBus Finding
begin

text \<open>
  The hook of the detect loop that runs the second-generation strategies on a fresh alert
  (\<open>detect/strategy_shadow.go\<close>), with the types of the staged inputs it reads
  (\<open>usecase/stagedinputs\<close>) and the flags the wiring hands to the bus (\<open>app/strategy_phase_b.go\<close>).

  The staged readers are an interface of the loop: what they answer during one alert is given by a
  record of functions; the catalysts are read twice, so that reader also gets the number of its call.
  The clock is read once. A map whose iteration order matters is walked in an order given by the
  environment.
\<close>

subsection \<open>Staged inputs\<close>

record si_Catalyst =
  sk_EventSlug :: string
  sk_CatalystKind :: string
  sk_Title :: string
  sk_ExpectedAt :: time
  sk_Confidence :: float64
  sk_Status :: string

record si_RiskScore =
  sr_ConditionID :: string
  sr_AmbiguityScore :: float64
  sr_DisputeRisk :: float64

record si_WalletEdge =
  we_Other :: string
  we_Kind :: string
  we_SimilarityScore :: float64
  we_CoEvents :: int
  we_LastSeenAt :: time

record si_RepricingWindow =
  rw_ID :: int
  rw_ConditionID :: string
  rw_EventSlug :: string
  rw_TriggerKind :: string
  rw_TriggerRef :: string
  rw_OpenedAt :: time
  rw_Status :: string
  rw_ObservedMove :: float64
  rw_PeerMove :: float64
  rw_LagScore :: float64

record si_RecentDecision =
  rd_ID :: int
  rd_StrategyName :: string
  rd_Side :: string
  rd_DecisionKind :: string
  rd_Level :: string
  rd_Score :: float64
  rd_Confidence :: float64
  rd_FiredAt :: time

record si_WalletThesisLine =
  wl_Wallet :: string
  wl_ConditionID :: string
  wl_EventSlug :: string
  wl_Side :: string
  wl_NotionalUSD :: float64
  wl_Trades :: int
  wl_LastTradedAt :: time

record si_MarketLink =
  ln_SrcConditionID :: string
  ln_DstConditionID :: string
  ln_LinkType :: string
  ln_Direction :: string
  ln_Confidence :: float64

record si_HolderSnapshot =
  hs_SnapshotAt :: time
  hs_Wallet :: string
  hs_Rank :: int
  hs_Shares :: float64
  hs_NotionalUSD :: float64
  hs_PctOI :: float64
  hs_TotalOI :: float64

record si_HolderSnapshotPair =
  hp_Current :: si_HolderSnapshot
  hp_Previous :: si_HolderSnapshot
  hp_PreviousValid :: bool

record si_BookFeatureBar =
  bb_BarStart :: time
  bb_BarSeconds :: int
  bb_BestBid :: float64
  bb_BestAsk :: float64
  bb_MidPrice :: float64
  bb_BidDepthTopN :: float64
  bb_AskDepthTopN :: float64
  bb_Spread :: float64
  bb_SpreadZ :: float64
  bb_BidDepthDeltaPct :: float64
  bb_AskDepthDeltaPct :: float64
  bb_MidDelta :: float64
  bb_BidDepthValid :: bool
  bb_AskDepthValid :: bool

record StagedReaders =
  st_Enabled :: bool
  st_CatalystsByEvent :: "nat \<Rightarrow> string \<Rightarrow> string + si_Catalyst list"
  st_WalletEdgesForWallet :: "string \<Rightarrow> int \<Rightarrow> string + si_WalletEdge list"
  st_RecentDecisionsForCondition :: "string \<Rightarrow> time \<Rightarrow> string + si_RecentDecision list"
  st_ClosedRepricingWindowsForCondition :: "string \<Rightarrow> time \<Rightarrow> string + si_RepricingWindow list"
  st_MarketLinksByEvent :: "string \<Rightarrow> int \<Rightarrow> string + si_MarketLink list"
  st_WalletThesisLinesForEvent :: "string \<Rightarrow> string \<Rightarrow> int \<Rightarrow> string + si_WalletThesisLine list"
  st_RiskScoreForCondition :: "string \<Rightarrow> string + si_RiskScore option"
  st_HolderSnapshotPairForWallet :: "string \<Rightarrow> string \<Rightarrow> string \<Rightarrow> string + si_HolderSnapshotPair option"
  st_RecentBookFeatureBars :: "string \<Rightarrow> string \<Rightarrow> time \<Rightarrow> int \<Rightarrow> string + si_BookFeatureBar list"

subsection \<open>The configuration of the loop\<close>

record ThesisAccumRuntimeConfig =
  tac_LookbackLifetime :: duration
  tac_MinBreadth :: int
  tac_MinConsistency :: float64
  tac_MinAlignedScore :: float64
  tac_CatalystBoostMax :: float64
  tac_LiquidityFloorUSD :: float64
  tac_MaxLinkedMarkets :: int

record HolderDeltaRuntimeConfig =
  hdc_MinPctOIInfo :: float64
  hdc_MinPctOIWarning :: float64
  hdc_MinPctOICritical :: float64
  hdc_TopK :: int
  hdc_MinSharesDelta :: float64
  hdc_OIShrinkPenalty :: float64
  hdc_FreshSnapshotMaxAge :: duration

record CatalystWindowRuntimeConfig =
  cwc_MinConfidence :: float64
  cwc_DebatePre :: duration
  cwc_DebatePost :: duration
  cwc_CourtRulingPre :: duration
  cwc_CourtRulingPost :: duration
  cwc_ElectionDayPre :: duration
  cwc_ElectionDayPost :: duration
  cwc_OfficialStatementPre :: duration
  cwc_OfficialStatementPost :: duration
  cwc_GenericPre :: duration
  cwc_GenericPost :: duration

record BookVacuumRuntimeConfig =
  bvr_MinCollapsePct :: float64
  bvr_MinSpreadZ :: float64
  bvr_MinMidShiftPct :: float64
  bvr_MaxAgeBar :: duration
  bvr_TopN :: int

record RepricingLagRuntimeConfig =
  rlr_MinLagCents :: float64
  rlr_PeerMinCount :: int
  rlr_MaxAmbiguity :: float64

record WalletCohortRuntimeConfig =
  wcr_MinSimilarity :: float64
  wcr_MinEvents :: int
  wcr_MinCohortHits :: int
  wcr_ConvergenceWindow :: duration
  wcr_FreshWalletMinBurst :: int
  wcr_FreshWalletMaxAge :: duration

record ConflictResolveRuntimeConfig =
  crr_Window :: duration
  crr_MinDominance :: float64
  crr_MMPenalty :: float64
  crr_MinQualitySum :: float64

record CheapTailRuntimeConfig =
  ctr_MinPrice :: float64
  ctr_MaxPrice :: float64
  ctr_MinNotionalUSD :: float64
  ctr_MinTrades :: int
  ctr_RequireCatalyst :: bool
  ctr_AmbiguityCutoff :: float64

record MarketRegimeInput =
  mri_CategorySlug :: string
  mri_CategoryLabel :: string
  mri_Title :: string
  mri_Description :: string
  mri_ResolutionRules :: string
  mri_EventSlug :: string

record MarketRegimeVerdict =
  mrv_Regime :: string
  mrv_Score :: float64
  mrv_Reasons :: "string list"

text \<open>The adapter of the wiring.\<close>

definition adapter_Classify :: "MarketRegimeInput \<Rightarrow> MarketRegimeVerdict" where
  "adapter_Classify inp =
     (let v = rg_Classify \<lparr>rg_CategorySlug = mri_CategorySlug inp, rg_CategoryLabel = mri_CategoryLabel inp, rg_Title = mri_Title inp,
          rg_Description = mri_Description inp, rg_ResolutionRules = mri_ResolutionRules inp, rg_EventSlug = mri_EventSlug inp\<rparr>
      in \<lparr>mrv_Regime = rv_Regime v, mrv_Score = rv_Score v, mrv_Reasons = rv_Reasons v\<rparr>)"

record sh_Config =
  sh_Bus :: "Bus option"
  sh_RulesRisk :: "rr_Config option"
  sh_MaxPerTrade :: int
  sh_RecordNoFire :: bool
  sh_StagedInputs :: "StagedReaders option"
  sh_ThesisAccum :: ThesisAccumRuntimeConfig
  sh_HolderDelta :: HolderDeltaRuntimeConfig
  sh_CatalystWindow :: CatalystWindowRuntimeConfig
  sh_BookVacuum :: BookVacuumRuntimeConfig
  sh_RepricingLag :: RepricingLagRuntimeConfig
  sh_WalletCohort :: WalletCohortRuntimeConfig
  sh_ConflictResolve :: ConflictResolveRuntimeConfig
  sh_CheapTail :: CheapTailRuntimeConfig
  sh_MarketRegime :: "(MarketRegimeInput \<Rightarrow> MarketRegimeVerdict) option"

record sh_Env =
  se_now :: time
  se_order :: "string list \<Rightarrow> string list"

text \<open>What the hook does, in order: it counts a skip or an evaluation, or hands a row to the bus (with what the bus passes to its writer).\<close>

datatype sh_event = Skipped string string | Evaluated string string | Handed Decision "Decision option"

type_synonym sh_out = "sh_event list \<times> int"

text \<open>The alert a strategy runs on: the market, the trade, the finding and its dedup key.\<close>

record sh_alert =
  sa_market :: Market
  sa_trade :: Trade
  sa_finding :: Finding
  sa_dedup :: string

subsection \<open>Helpers\<close>

definition walletFromFinding :: "Finding \<Rightarrow> string" where
  "walletFromFinding f = (case fi_Trade f of None \<Rightarrow> '''' | Some t \<Rightarrow> tf_Wallet t)"

definition outcomeTokenFromFinding :: "Finding \<Rightarrow> Trade \<Rightarrow> string" where
  "outcomeTokenFromFinding f t =
     (case fi_Accumulation f of None \<Rightarrow> td_Token t
      | Some a \<Rightarrow> if ar_OutcomeToken a \<noteq> '''' then ar_OutcomeToken a else td_Token t)"

definition catalyst_override :: "string \<Rightarrow> duration \<Rightarrow> duration \<Rightarrow> (string \<rightharpoonup> WindowSpec) \<Rightarrow> (string \<rightharpoonup> WindowSpec)" where
  "catalyst_override name pre post m =
     (let spec = (case m name of None \<Rightarrow> \<lparr>ws_Pre = 0, ws_Post = 0\<rparr> | Some s \<Rightarrow> s);
          spec = (if 0 < pre then spec\<lparr>ws_Pre := pre\<rparr> else spec);
          spec = (if 0 < post then spec\<lparr>ws_Post := post\<rparr> else spec)
      in m(name \<mapsto> spec))"

definition catalystWindowsFromCfg :: "CatalystWindowRuntimeConfig \<Rightarrow> string \<rightharpoonup> WindowSpec" where
  "catalystWindowsFromCfg rc =
     catalyst_override ''generic'' (cwc_GenericPre rc) (cwc_GenericPost rc)
      (catalyst_override ''official_statement'' (cwc_OfficialStatementPre rc) (cwc_OfficialStatementPost rc)
       (catalyst_override ''election_day'' (cwc_ElectionDayPre rc) (cwc_ElectionDayPost rc)
        (catalyst_override ''court_ruling'' (cwc_CourtRulingPre rc) (cwc_CourtRulingPost rc)
         (catalyst_override ''debate'' (cwc_DebatePre rc) (cwc_DebatePost rc)
          [''debate'' \<mapsto> \<lparr>ws_Pre = 8 * Hour, ws_Post = 3 * Hour\<rparr>,
           ''court_ruling'' \<mapsto> \<lparr>ws_Pre = 18 * Hour, ws_Post = 8 * Hour\<rparr>,
           ''election_day'' \<mapsto> \<lparr>ws_Pre = 48 * Hour, ws_Post = 12 * Hour\<rparr>,
           ''official_statement'' \<mapsto> \<lparr>ws_Pre = 6 * Hour, ws_Post = 2 * Hour\<rparr>,
           ''generic'' \<mapsto> \<lparr>ws_Pre = 3 * Hour, ws_Post = 2 * Hour\<rparr>]))))"

definition holderSnapshotToDetector :: "si_HolderSnapshot \<Rightarrow> hd_Snapshot" where
  "holderSnapshotToDetector s =
     \<lparr>sn_SnapshotAt = hs_SnapshotAt s, sn_Wallet = hs_Wallet s, sn_Rank = hs_Rank s, sn_Shares = hs_Shares s,
      sn_NotionalUSD = hs_NotionalUSD s, sn_PctOI = hs_PctOI s, sn_TotalOI = hs_TotalOI s\<rparr>"

definition featureBarToDetector :: "si_BookFeatureBar \<Rightarrow> FeatureBar" where
  "featureBarToDetector b =
     \<lparr>fb_BidDepthTopN = bb_BidDepthTopN b, fb_AskDepthTopN = bb_AskDepthTopN b, fb_MidPrice = bb_MidPrice b, fb_Spread = bb_Spread b,
      fb_BidDepthDeltaPct = bb_BidDepthDeltaPct b, fb_AskDepthDeltaPct = bb_AskDepthDeltaPct b, fb_MidDelta = bb_MidDelta b\<rparr>"

definition zero_bar :: FeatureBar where
  "zero_bar = \<lparr>fb_BidDepthTopN = 0, fb_AskDepthTopN = 0, fb_MidPrice = 0, fb_Spread = 0, fb_BidDepthDeltaPct = 0,
     fb_AskDepthDeltaPct = 0, fb_MidDelta = 0\<rparr>"

definition bookvacuumBaseline :: "si_BookFeatureBar list \<Rightarrow> FeatureBar" where
  "bookvacuumBaseline bars =
     (let (bid, ask, mid, spr, n) =
        foldl (\<lambda>(bid, ask, mid, spr, n) b.
            if \<not> bb_BidDepthValid b \<or> \<not> bb_AskDepthValid b then (bid, ask, mid, spr, n)
            else (bid + bb_BidDepthTopN b, ask + bb_AskDepthTopN b, mid + bb_MidPrice b, spr + bb_Spread b, n + 1))
          (0, 0, 0, 0, 0 :: int) bars
      in if n = 0 then zero_bar
         else let fn = of_i n
              in zero_bar\<lparr>fb_BidDepthTopN := bid / fn, fb_AskDepthTopN := ask / fn, fb_MidPrice := mid / fn, fb_Spread := spr / fn\<rparr>)"

definition lifecycleBucket :: "float64 \<Rightarrow> string" where
  "lifecycleBucket p = (if p < fl 50 then ''0-50'' else if p < fl 75 then ''50-75'' else if p < fl 90 then ''75-90'' else ''90-100'')"

definition notionalBucket :: "TradeRef option \<Rightarrow> string" where
  "notionalBucket ref = (case ref of None \<Rightarrow> ''''
     | Some t \<Rightarrow> let n = tf_NotionalUSD t
         in if n < fl 1000 then ''<1k'' else if n < fl 10000 then ''1k-10k'' else if n < fl 100000 then ''10k-100k'' else ''>=100k'')"

text \<open>\<open>copyFeatures\<close>, then the regime unless it is empty.\<close>

definition with_regime :: "string \<Rightarrow> features \<Rightarrow> features" where
  "with_regime regime m = (if regime \<noteq> '''' then m(''market_regime'' \<mapsto> AStr regime) else m)"

definition shadow_row :: "sh_alert \<Rightarrow> string \<Rightarrow> DecisionKind \<Rightarrow> DecisionLevel \<Rightarrow> float64 \<Rightarrow> float64 \<Rightarrow> string list \<Rightarrow> features \<Rightarrow> string \<Rightarrow> Decision" where
  "shadow_row a strategy kind level score confidence rsns fs regime =
     (let f = sa_finding a; m = sa_market a;
          catLabel = (case fi_Category f of None \<Rightarrow> '''' | Some c \<Rightarrow> cf_Label c);
          fs = (if regime \<noteq> '''' \<and> fs ''market_regime'' = None then fs(''market_regime'' \<mapsto> AStr regime) else fs)
      in \<lparr>dc_StrategyName = strategy, dc_StrategyVersion = '''', dc_ConditionID = mk_ID m, dc_EventSlug = mk_EventSlug m,
          dc_Wallet = walletFromFinding f, dc_CohortID = '''', dc_Side = td_Side (sa_trade a), dc_Kind = kind, dc_Level = level,
          dc_Score = score, dc_Confidence = confidence, dc_Reasons = rsns, dc_Features = fs, dc_ShadowOnly = False,
          dc_LinkedAlertDedupKey = sa_dedup a,
          dc_ControlBucketKey = ControlBucketKey catLabel (lifecycleBucket (fi_LifecyclePct f)) '''' (notionalBucket (fi_Trade f)) regime,
          dc_FiredAt = zero_time\<rparr>)"

definition writeShadow :: "Bus \<Rightarrow> sh_Env \<Rightarrow> sh_alert \<Rightarrow> string \<Rightarrow> DecisionKind \<Rightarrow> DecisionLevel \<Rightarrow> float64 \<Rightarrow> float64 \<Rightarrow> string list
    \<Rightarrow> features \<Rightarrow> string \<Rightarrow> sh_out" where
  "writeShadow bus ev a strategy kind level score confidence rsns fs regime =
     (let d = shadow_row a strategy kind level score confidence rsns fs regime
      in case bus_Record bus (se_now ev) d of
           (row, Inl err) \<Rightarrow> ([Handed d row, Evaluated strategy ''write_failed''], 0)
         | (row, Inr _) \<Rightarrow> ([Handed d row, Evaluated strategy ''ok''], 1))"

text \<open>A strategy that is passed over.\<close>

definition skip :: "string \<Rightarrow> string \<Rightarrow> sh_out" where
  "skip strategy reason = ([Skipped strategy reason], 0)"

subsection \<open>The strategies\<close>

definition shadowMarketRegime :: "sh_Config \<Rightarrow> Bus \<Rightarrow> sh_Env \<Rightarrow> sh_alert \<Rightarrow> (MarketRegimeInput \<Rightarrow> MarketRegimeVerdict) \<Rightarrow> sh_out \<times> string" where
  "shadowMarketRegime c bus ev a classify =
     (let m = sa_market a;
          (catSlug, catLabel) = (case fi_Category (sa_finding a) of None \<Rightarrow> ('''', '''') | Some k \<Rightarrow> (cf_Slug k, cf_Label k));
          v = classify \<lparr>mri_CategorySlug = catSlug, mri_CategoryLabel = catLabel, mri_Title = mk_Question m, mri_Description = '''',
                mri_ResolutionRules = '''', mri_EventSlug = mk_EventSlug m\<rparr>;
          fs = [''market_regime'' \<mapsto> AStr (mrv_Regime v), ''market_regime_score'' \<mapsto> AFloat (mrv_Score v),
                ''requires_dual_confirmation'' \<mapsto> ABool (mrv_Regime v = ''oracle_sensitive'')]
      in (writeShadow bus ev a ''marketregime'' KindTag LevelNone (mrv_Score v) (mrv_Score v) (mrv_Reasons v) fs (mrv_Regime v),
          mrv_Regime v))"

definition shadowRulesRisk :: "sh_Config \<Rightarrow> Bus \<Rightarrow> sh_Env \<Rightarrow> sh_alert \<Rightarrow> rr_Config \<Rightarrow> string \<Rightarrow> sh_out \<times> float64" where
  "shadowRulesRisk c bus ev a det regime =
     (let v = rr_Decide det \<lparr>ri_ConditionID = mk_ID (sa_market a), ri_Title = mk_Question (sa_market a), ri_Description = '''',
            ri_ResolutionRules = '''', ri_CatalystKindHint = ''''\<rparr>
      in if \<not> sh_RecordNoFire c \<and> rk_AmbiguityScore v \<le> 0 then (skip ''rulesrisk'' ''no_markers'', 0)
         else (writeShadow bus ev a ''rulesrisk'' KindTag LevelNone (rk_AmbiguityScore v) (rk_DisputeRisk v) (rk_Reasons v)
                 (with_regime regime (rk_Features v)) regime, rk_AmbiguityScore v))"

definition shadowCatalystWindow :: "sh_Config \<Rightarrow> Bus \<Rightarrow> sh_Env \<Rightarrow> sh_alert \<Rightarrow> StagedReaders \<Rightarrow> string \<Rightarrow> sh_out" where
  "shadowCatalystWindow c bus ev a staged regime =
     (case st_CatalystsByEvent staged 0 (mk_EventSlug (sa_market a)) of
        Inl err \<Rightarrow> skip ''catalystwindow'' ''reader_error''
      | Inr cats \<Rightarrow>
          if cats = [] then skip ''catalystwindow'' ''no_catalysts_for_event''
          else
            (let rc = sh_CatalystWindow c;
                 v = cw_Decide (cw_New \<lparr>cw_MaxBoost = 0\<rparr>)
                   \<lparr>cw_SignalTime = se_now ev, cw_EventSlug = mk_EventSlug (sa_market a),
                    cw_Catalysts = map (\<lambda>k. \<lparr>ct_Kind = sk_CatalystKind k, ct_ExpectedAt = sk_ExpectedAt k,
                       ct_Confidence = sk_Confidence k, ct_EventSlug = sk_EventSlug k\<rparr>) cats,
                    cw_WindowsByKind = catalystWindowsFromCfg rc, cw_MinConfidence = dflt (cwc_MinConfidence rc) (fl 0.65),
                    cw_ParentScore = 1\<rparr>
             in if \<not> bw_InWindow v \<and> \<not> sh_RecordNoFire c then skip ''catalystwindow'' ''outside_window''
                else writeShadow bus ev a ''catalystwindow'' KindBoost LevelNone (bw_Boost v) (ct_Confidence (bw_Catalyst v))
                       (bw_Reasons v) (with_regime regime (bw_Features v)) regime))"

text \<open>The edges carry no cohort id here, so no cohort ids are visited.\<close>

definition cohort_edge :: "string \<Rightarrow> si_WalletEdge \<Rightarrow> wc_Edge" where
  "cohort_edge wallet e =
     (let (x, y) = (if \<not> str_le wallet (we_Other e) then (we_Other e, wallet) else (wallet, we_Other e))
      in \<lparr>ed_WalletA = x, ed_WalletB = y, ed_EdgeKind = we_Kind e, ed_SimilarityScore = we_SimilarityScore e,
          ed_CoEventsCount = we_CoEvents e, ed_CohortID = ''''\<rparr>)"

definition shadowWalletCohort :: "sh_Config \<Rightarrow> Bus \<Rightarrow> sh_Env \<Rightarrow> sh_alert \<Rightarrow> StagedReaders \<Rightarrow> string \<Rightarrow> sh_out" where
  "shadowWalletCohort c bus ev a staged regime =
     (let wallet = walletFromFinding (sa_finding a); rc = sh_WalletCohort c
      in if wallet = '''' then skip ''walletcohort'' ''no_wallet''
         else (case st_WalletEdgesForWallet staged wallet 1 of
             Inl err \<Rightarrow> skip ''walletcohort'' ''reader_error''
           | Inr edges \<Rightarrow>
               if edges = [] \<and> wcr_FreshWalletMinBurst rc \<le> 0 then skip ''walletcohort'' ''no_edges_for_wallet''
               else
                 (let det = wc_New \<lparr>wc_MinSimilarity = wcr_MinSimilarity rc, wc_MinEvents = wcr_MinEvents rc,
                        wc_MinCohortSize = dflti (wcr_MinCohortHits rc) 2, wc_MaxBoost = 0,
                        wc_FreshWalletMinBurst = wcr_FreshWalletMinBurst rc, wc_FreshWalletMaxAge = wcr_FreshWalletMaxAge rc\<rparr>;
                      v = wc_Decide det []
                        \<lparr>wi_ConditionID = mk_ID (sa_market a), wi_EventSlug = mk_EventSlug (sa_market a), wi_AlertWallet = wallet,
                         wi_AlertSide = td_Side (sa_trade a), wi_AlertEnteredAt = zero_time, wi_Now = se_now ev,
                         wi_RecentMembers = [], wi_Edges = map (cohort_edge wallet) edges\<rparr>
                  in if \<not> co_Converged v \<and> \<not> sh_RecordNoFire c then skip ''walletcohort'' ''no_convergence''
                     else writeShadow bus ev a ''walletcohort'' KindBoost LevelNone (co_Boost v) (co_SimilarityAvg v) (co_Reasons v)
                            (with_regime regime (co_Features v)) regime)))"

text \<open>The sides of the recent decisions with their best score and confidence.\<close>

definition zero_signal :: "string \<Rightarrow> SideSignal" where
  "zero_signal side = \<lparr>ss_Side = side, ss_WalletQualityScore = 0, ss_HolderStrength = 0, ss_ThesisBreadth = 0,
     ss_CatalystProximity = 0, ss_BookSupport = 0, ss_MMLike = False\<rparr>"

definition side_step :: "(string \<times> SideSignal) list \<Rightarrow> si_RecentDecision \<Rightarrow> (string \<times> SideSignal) list" where
  "side_step sides r =
     (if rd_Side r = '''' then sides
      else (let sides = (if map_of sides (rd_Side r) = None then sides @ [(rd_Side r, zero_signal (rd_Side r))] else sides)
            in map (\<lambda>(k, s).
                 (k, if k \<noteq> rd_Side r then s
                     else let s = (if ss_WalletQualityScore s < rd_Score r then s\<lparr>ss_WalletQualityScore := rd_Score r\<rparr> else s)
                       in if ss_ThesisBreadth s < rd_Confidence r then s\<lparr>ss_ThesisBreadth := rd_Confidence r\<rparr> else s)) sides))"

definition side_signals :: "si_RecentDecision list \<Rightarrow> (string \<times> SideSignal) list" where
  "side_signals recent = foldl side_step [] recent"

definition signal_at :: "(string \<times> SideSignal) list \<Rightarrow> string \<Rightarrow> SideSignal" where
  "signal_at sides k = (case map_of sides k of None \<Rightarrow> zero_signal '''' | Some s \<Rightarrow> s)"

definition shadowConflictResolve :: "sh_Config \<Rightarrow> Bus \<Rightarrow> sh_Env \<Rightarrow> sh_alert \<Rightarrow> StagedReaders \<Rightarrow> string \<Rightarrow> sh_out" where
  "shadowConflictResolve c bus ev a staged regime =
     (let rc = sh_ConflictResolve c; window = dflti (crr_Window rc) (20 * Minute)
      in case st_RecentDecisionsForCondition staged (mk_ID (sa_market a)) (se_now ev + i64 (- window)) of
           Inl err \<Rightarrow> skip ''conflictresolve'' ''reader_error''
         | Inr recent \<Rightarrow>
             if recent = [] then skip ''conflictresolve'' ''no_recent_decisions''
             else
               (let sides = side_signals recent
                in if length sides < 2 then skip ''conflictresolve'' ''no_opposing_side''
                   else
                     (let keys = se_order ev (map fst sides);
                          v = cf_Decide (cf_New \<lparr>cf_MMPenalty = crr_MMPenalty rc, cf_MinDominance = crr_MinDominance rc,
                                cf_SuppressDominance = 0, cf_MaxBoost = 0\<rparr>)
                              \<lparr>ci_A = signal_at sides (keys ! 0), ci_B = signal_at sides (keys ! 1)\<rparr>;
                          kind = (if cv_Action v = ActionBoostWinnerDegrade then KindDegrade
                                  else if cv_Action v = ActionBoostWinnerSuppress then KindSuppress else KindTag)
                      in writeShadow bus ev a ''conflictresolve'' kind LevelNone (cv_Dominance v) (fl 0.5) (cv_Reasons v)
                           (with_regime regime (cv_Features v)) regime)))"

definition shadowCheapTail :: "sh_Config \<Rightarrow> Bus \<Rightarrow> sh_Env \<Rightarrow> sh_alert \<Rightarrow> StagedReaders \<Rightarrow> float64 \<Rightarrow> string \<Rightarrow> sh_out" where
  "shadowCheapTail c bus ev a staged ambiguity regime =
     (let rc = sh_CheapTail c; t = sa_trade a; f = sa_finding a;
          minPrice = dflt (ctr_MinPrice rc) (fl 0.03); maxPrice = dflt (ctr_MaxPrice rc) (fl 0.25);
          cutoff = dflt (ctr_AmbiguityCutoff rc) (fl 0.50)
      in if td_Price t < minPrice \<or> maxPrice < td_Price t then skip ''cheaptail'' ''price_outside_band''
         else if cutoff \<le> ambiguity then skip ''cheaptail'' ''blocked_by_rulesrisk''
         else
           (let cats = (case st_CatalystsByEvent staged 1 (mk_EventSlug (sa_market a)) of Inl _ \<Rightarrow> [] | Inr cs \<Rightarrow> cs);
                risk = (case st_RiskScoreForCondition staged (mk_ID (sa_market a)) of Inr (Some r) \<Rightarrow> sr_AmbiguityScore r | _ \<Rightarrow> 0);
                combined = (if ambiguity < risk then risk else ambiguity);
                det = ch_New \<lparr>chc_MinPrice = minPrice, chc_MaxPrice = maxPrice, chc_MinNotionalUSD = ctr_MinNotionalUSD rc,
                   chc_MinTrades = ctr_MinTrades rc, chc_RequireCatalyst = ctr_RequireCatalyst rc, chc_MaxAmbiguity = cutoff,
                   chc_WarningScore = 0, chc_CriticalScore = 0\<rparr>;
                notional = (case fi_Trade f of None \<Rightarrow> 0 | Some r \<Rightarrow> tf_NotionalUSD r);
                v = ch_Decide det
                  \<lparr>ch_ConditionID = mk_ID (sa_market a), ch_Wallet = walletFromFinding f, ch_CohortID = '''',
                   ch_Trades = [\<lparr>ch_Price = td_Price t, ch_NotionalUSD = notional, ch_Side = td_Side t, ch_Timestamp = td_Timestamp t\<rparr>],
                   ch_HolderRankImprovement = 0, ch_ThesisBreadth = 0, ch_HasActiveCatalyst = (0 < length cats),
                   ch_AmbiguityScore = combined, ch_LifecyclePct = fi_LifecyclePct f\<rparr>
            in if \<not> chv_Fired v \<and> \<not> sh_RecordNoFire c then skip ''cheaptail'' ''below_threshold''
               else writeShadow bus ev a ''cheaptail'' KindStandalone (chv_Level v) (chv_Score v) (chv_Convexity v) (chv_Reasons v)
                      ((with_regime regime (chv_Features v))(''ambiguity_score'' \<mapsto> AFloat combined)) regime))"

definition shadowRepricingLag :: "sh_Config \<Rightarrow> Bus \<Rightarrow> sh_Env \<Rightarrow> sh_alert \<Rightarrow> StagedReaders \<Rightarrow> float64 \<Rightarrow> string \<Rightarrow> sh_out" where
  "shadowRepricingLag c bus ev a staged ambiguity regime =
     (let rc = sh_RepricingLag c; maxAmb = dflt (rlr_MaxAmbiguity rc) (fl 0.45)
      in if maxAmb \<le> ambiguity then skip ''repricinglag'' ''blocked_by_rulesrisk''
         else (case st_ClosedRepricingWindowsForCondition staged (mk_ID (sa_market a)) (se_now ev - 24 * Hour) of
             Inl err \<Rightarrow> skip ''repricinglag'' ''reader_error''
           | Inr [] \<Rightarrow> skip ''repricinglag'' ''no_closed_windows''
           | Inr (w # ws) \<Rightarrow>
               (let det = rl_New \<lparr>rlc_MinLagCents = dflt (rlr_MinLagCents rc) (fl 4), rlc_MaxAmbiguity = maxAmb,
                      rlc_PeerMinCount = dflti (rlr_PeerMinCount rc) 3\<rparr>;
                    v = rl_Decide det
                      \<lparr>rl_ConditionID = mk_ID (sa_market a), rl_EventSlug = mk_EventSlug (sa_market a),
                       rl_ObservedMoveCents = rw_ObservedMove w, rl_PeerMovesCents = [rw_PeerMove w], rl_ExpectedImpactCents = 0,
                       rl_AmbiguityScore = ambiguity\<rparr>
                in if \<not> lv_Fired v \<and> \<not> sh_RecordNoFire c then skip ''repricinglag'' ''below_threshold''
                   else writeShadow bus ev a ''repricinglag'' KindStandalone (lv_Level v) (lv_LagScore v) (lv_PeerMedian v) (lv_Reasons v)
                          ((with_regime regime (lv_Features v))(''ambiguity_score'' \<mapsto> AFloat ambiguity)) regime)))"

text \<open>Thesis accumulation is computed in the hook itself: the exposure on the side of the alert against the rest.\<close>

definition thesis_exposure :: "string \<Rightarrow> si_WalletThesisLine list \<Rightarrow> float64 \<times> float64" where
  "thesis_exposure alertSide lines =
     foldl (\<lambda>(aligned, opposed) l. if alertSide \<noteq> '''' \<and> wl_Side l = alertSide then (aligned + wl_NotionalUSD l, opposed)
       else (aligned, opposed + wl_NotionalUSD l)) (0, 0) lines"

definition thesis_level :: "int \<Rightarrow> float64 \<Rightarrow> float64 \<Rightarrow> float64 \<Rightarrow> float64 \<Rightarrow> DecisionLevel" where
  "thesis_level breadth consistency aligned minCons liqFloor =
     (if minCons \<le> consistency \<and> liqFloor \<le> aligned
      then (if 3 \<le> breadth \<and> fl 0.88 \<le> consistency \<and> fl 3 * liqFloor \<le> aligned then LevelWarning else LevelInfo)
      else LevelNone)"

definition shadowThesisAccum :: "sh_Config \<Rightarrow> Bus \<Rightarrow> sh_Env \<Rightarrow> sh_alert \<Rightarrow> StagedReaders \<Rightarrow> string \<Rightarrow> sh_out" where
  "shadowThesisAccum c bus ev a staged regime =
     (case st_MarketLinksByEvent staged (mk_EventSlug (sa_market a)) 1 of
        Inl err \<Rightarrow> skip ''thesisaccum'' ''reader_error''
      | Inr links \<Rightarrow>
          if links = [] then skip ''thesisaccum'' ''no_market_links_for_event''
          else
            (let wallet = walletFromFinding (sa_finding a); rc = sh_ThesisAccum c; n = int (length links)
             in if wallet = '''' then skip ''thesisaccum'' ''no_wallet''
                else
                  (let lookbackHours = f2i (Hours (dflti (tac_LookbackLifetime rc) (2160 * Hour)))
                   in case st_WalletThesisLinesForEvent staged (mk_EventSlug (sa_market a)) wallet lookbackHours of
                        Inl err \<Rightarrow> skip ''thesisaccum'' ''wallet_lines_reader_error''
                      | Inr lines \<Rightarrow>
                          if lines = []
                          then (if \<not> sh_RecordNoFire c then skip ''thesisaccum'' ''no_wallet_thesis_lines''
                                else writeShadow bus ev a ''thesisaccum'' KindTag LevelNone (of_i n) (fl 0.2)
                                       [''links_found='' @ fmt_d n, ''no_wallet_thesis_lines'']
                                       (with_regime regime [''link_count'' \<mapsto> AInt n, ''wallet_lookback_h'' \<mapsto> AInt lookbackHours]) regime)
                          else
                            (let breadth = int (length lines);
                                 (aligned, opposed) = thesis_exposure (td_Side (sa_trade a)) lines;
                                 consistency = (if 0 < aligned + opposed then aligned / (aligned + opposed) else 0);
                                 minCons = dflt (tac_MinConsistency rc) (fl 0.82);
                                 liqFloor = dflt (tac_LiquidityFloorUSD rc) (fl 1000)
                             in if breadth < dflti (tac_MinBreadth rc) 2 then skip ''thesisaccum'' ''below_min_breadth''
                                else writeShadow bus ev a ''thesisaccum'' KindStandalone
                                       (thesis_level breadth consistency aligned minCons liqFloor) (of_i breadth * consistency) consistency
                                       [''breadth='' @ fmt_d breadth, ''aligned_usd='' @ fmt_f 2 aligned, ''opposed_usd='' @ fmt_f 2 opposed,
                                        ''consistency='' @ fmt_f 3 consistency,
                                        ''min_consistency='' @ fmt_f 2 minCons @ '' liquidity_floor_usd='' @ fmt_f 0 liqFloor]
                                       (with_regime regime
                                         [''link_count'' \<mapsto> AInt n, ''breadth'' \<mapsto> AInt breadth, ''aligned_usd'' \<mapsto> AFloat aligned,
                                          ''opposed_usd'' \<mapsto> AFloat opposed, ''consistency'' \<mapsto> AFloat consistency,
                                          ''wallet_lookback_h'' \<mapsto> AInt lookbackHours, ''min_consistency'' \<mapsto> AFloat minCons,
                                          ''liquidity_floor_usd'' \<mapsto> AFloat liqFloor]) regime))))"

definition shadowHolderDelta :: "sh_Config \<Rightarrow> Bus \<Rightarrow> sh_Env \<Rightarrow> sh_alert \<Rightarrow> StagedReaders \<Rightarrow> string \<Rightarrow> sh_out" where
  "shadowHolderDelta c bus ev a staged regime =
     (let wallet = walletFromFinding (sa_finding a); token = outcomeTokenFromFinding (sa_finding a) (sa_trade a);
          rc = sh_HolderDelta c
      in if wallet = '''' then skip ''holderdelta'' ''no_wallet''
         else if token = '''' then skip ''holderdelta'' ''no_outcome_token''
         else (case st_HolderSnapshotPairForWallet staged (mk_ID (sa_market a)) token wallet of
             Inl err \<Rightarrow> skip ''holderdelta'' ''holder_reader_error''
           | Inr None \<Rightarrow> skip ''holderdelta'' ''no_holder_snapshots_available''
           | Inr (Some pair) \<Rightarrow>
               if \<not> hp_PreviousValid pair then skip ''holderdelta'' ''no_previous_snapshot''
               else if \<not> IsZero (hs_SnapshotAt (hp_Current pair)) \<and>
                       dflti (hdc_FreshSnapshotMaxAge rc) (45 * Minute) < t_sub (se_now ev) (hs_SnapshotAt (hp_Current pair))
               then skip ''holderdelta'' ''stale_snapshot''
               else
                 (let v = hd_Decide (hd_New \<lparr>hc_MinPctOIInfo = hdc_MinPctOIInfo rc, hc_MinPctOIWarning = hdc_MinPctOIWarning rc,
                          hc_MinPctOICritical = hdc_MinPctOICritical rc, hc_TopK = hdc_TopK rc, hc_MinSharesDelta = hdc_MinSharesDelta rc,
                          hc_OIShrinkPenalty = hdc_OIShrinkPenalty rc\<rparr>)
                        \<lparr>hi_ConditionID = mk_ID (sa_market a), hi_OutcomeToken = token, hi_Wallet = wallet, hi_Now = se_now ev,
                         hi_Current = holderSnapshotToDetector (hp_Current pair), hi_Previous = holderSnapshotToDetector (hp_Previous pair)\<rparr>
                  in if \<not> hv_Fired v \<and> \<not> sh_RecordNoFire c then skip ''holderdelta'' ''below_threshold''
                     else writeShadow bus ev a ''holderdelta'' KindStandalone (hv_Level v) (hv_Score v) (hv_Confidence v) (hv_Reasons v)
                            (with_regime regime (hv_Features v)) regime)))"

definition shadowBookVacuum :: "sh_Config \<Rightarrow> Bus \<Rightarrow> sh_Env \<Rightarrow> sh_alert \<Rightarrow> StagedReaders \<Rightarrow> string \<Rightarrow> sh_out" where
  "shadowBookVacuum c bus ev a staged regime =
     (let token = outcomeTokenFromFinding (sa_finding a) (sa_trade a); rc = sh_BookVacuum c;
          maxAgeBar = dflti (bvr_MaxAgeBar rc) (90 * Second)
      in if token = '''' then skip ''bookvacuum'' ''no_outcome_token''
         else (case st_RecentBookFeatureBars staged (mk_ID (sa_market a)) token (se_now ev + i64 (- 10 * maxAgeBar)) 0 of
             Inl err \<Rightarrow> skip ''bookvacuum'' ''bookbars_reader_error''
           | Inr [] \<Rightarrow> skip ''bookvacuum'' ''no_book_feature_bars''
           | Inr (bar # older) \<Rightarrow>
               if \<not> IsZero (bb_BarStart bar) \<and> maxAgeBar < t_sub (se_now ev) (bb_BarStart bar)
               then skip ''bookvacuum'' ''stale_bar''
               else if \<not> bb_BidDepthValid bar \<or> \<not> bb_AskDepthValid bar then skip ''bookvacuum'' ''depth_missing''
               else if older = [] then skip ''bookvacuum'' ''baseline_missing''
               else
                 (let v = bv_Decide (bv_New \<lparr>bvc_MinCollapsePct = bvr_MinCollapsePct rc, bvc_MinSpreadZ = bvr_MinSpreadZ rc, bvc_MaxBoost = 0\<rparr>)
                        \<lparr>bv_Recent = featureBarToDetector bar, bv_Baseline = bookvacuumBaseline older, bv_SpreadZ = bb_SpreadZ bar,
                         bv_MMLike = False\<rparr>
                  in if \<not> vv_Detected v \<and> \<not> sh_RecordNoFire c then skip ''bookvacuum'' ''below_threshold''
                     else if 0 < bvr_MinMidShiftPct rc \<and> 0 < bb_MidPrice bar \<and>
                             absFloat (bb_MidDelta bar) / bb_MidPrice bar < bvr_MinMidShiftPct rc
                     then skip ''bookvacuum'' ''mid_shift_below_threshold''
                     else writeShadow bus ev a ''bookvacuum'' KindBoost LevelNone (vv_Boost v) (fl 0.5) (vv_Reasons v)
                            ((with_regime regime (vv_Features v))
                              (''bar_age_seconds'' \<mapsto> AFloat (Seconds (t_sub (se_now ev) (bb_BarStart bar))),
                               ''baseline_bars'' \<mapsto> AInt (int (length older)))) regime)))"

subsection \<open>The hook\<close>

text \<open>One strategy: it runs while rows are left and the bus evaluates it.\<close>

definition run_strategy :: "int \<Rightarrow> Bus \<Rightarrow> string \<Rightarrow> sh_out \<Rightarrow> sh_out \<Rightarrow> sh_out" where
  "run_strategy maxPerTrade bus name result acc =
     (if snd acc < maxPerTrade \<and> ShouldEvaluate bus name then (fst acc @ fst result, snd acc + snd result) else acc)"

definition staged_names :: "string list" where
  "staged_names = [''thesisaccum'', ''holderdelta'', ''walletcohort'', ''catalystwindow'', ''bookvacuum'', ''repricinglag'',
     ''cheaptail'', ''conflictresolve'']"

definition recordStrategyShadow :: "sh_Config \<Rightarrow> sh_Env \<Rightarrow> sh_alert \<Rightarrow> sh_out" where
  "recordStrategyShadow c ev a =
     (case sh_Bus c of None \<Rightarrow> ([], 0)
      | Some bus \<Rightarrow>
          let maxPerTrade = dflti (sh_MaxPerTrade c) 20;
              (acc, regime) =
                (case sh_MarketRegime c of None \<Rightarrow> (([], 0), '''')
                 | Some classify \<Rightarrow>
                     if 0 < maxPerTrade \<and> ShouldEvaluate bus ''marketregime'' then shadowMarketRegime c bus ev a classify
                     else (([], 0), ''''));
              (acc, ambiguity) =
                (if ShouldEvaluate bus ''rulesrisk''
                 then (case sh_RulesRisk c of
                     None \<Rightarrow> ((fst acc @ [Skipped ''rulesrisk'' ''no_detector''], snd acc), 0)
                   | Some det \<Rightarrow>
                       if snd acc < maxPerTrade
                       then (let (out, amb) = shadowRulesRisk c bus ev a det regime
                             in ((fst acc @ fst out, snd acc + snd out), amb))
                       else ((fst acc @ [Skipped ''rulesrisk'' ''no_detector''], snd acc), 0))
                 else (acc, 0));
              run = run_strategy maxPerTrade bus
          in case sh_StagedInputs c of
               None \<Rightarrow> (fst acc @ map (\<lambda>n. Skipped n ''staged_inputs_disabled'') (filter (ShouldEvaluate bus) staged_names), snd acc)
             | Some staged \<Rightarrow>
                 if \<not> st_Enabled staged
                 then (fst acc @ map (\<lambda>n. Skipped n ''staged_inputs_disabled'') (filter (ShouldEvaluate bus) staged_names), snd acc)
                 else
                   run ''bookvacuum'' (shadowBookVacuum c bus ev a staged regime)
                    (run ''holderdelta'' (shadowHolderDelta c bus ev a staged regime)
                     (run ''thesisaccum'' (shadowThesisAccum c bus ev a staged regime)
                      (run ''repricinglag'' (shadowRepricingLag c bus ev a staged ambiguity regime)
                       (run ''cheaptail'' (shadowCheapTail c bus ev a staged ambiguity regime)
                        (run ''conflictresolve'' (shadowConflictResolve c bus ev a staged regime)
                         (run ''walletcohort'' (shadowWalletCohort c bus ev a staged regime)
                          (run ''catalystwindow'' (shadowCatalystWindow c bus ev a staged regime) acc))))))))"

subsection \<open>The wiring\<close>

text \<open>The switches of the nine strategies, and the flags \<open>buildStrategyBusWithGate\<close> makes of them.\<close>

record StrategySwitch =
  sw_Enabled :: bool
  sw_ShadowOnly :: bool

record StrategyConfig =
  sg_StrategyVersion :: string
  sg_GlobalPromotionAllowed :: bool
  sg_ThesisAccum :: StrategySwitch
  sg_OwnershipV2 :: StrategySwitch
  sg_CatalystWindow :: StrategySwitch
  sg_BookVacuum :: StrategySwitch
  sg_RepricingLag :: StrategySwitch
  sg_WalletCohort :: StrategySwitch
  sg_ConflictResolve :: StrategySwitch
  sg_RulesRisk :: StrategySwitch
  sg_CheapTail :: StrategySwitch

definition switch_flag :: "string \<Rightarrow> StrategySwitch \<Rightarrow> StrategyFlag" where
  "switch_flag name s = \<lparr>fg_Name = name, fg_Enabled = sw_Enabled s, fg_ShadowOnly = sw_ShadowOnly s\<rparr>"

definition buildStrategyBusWithGate :: "StrategyConfig \<Rightarrow> dec_writer option \<Rightarrow> (string \<Rightarrow> bool) option \<Rightarrow> Bus" where
  "buildStrategyBusWithGate s writer allow =
     bus_New \<lparr>bc_StrategyVersion = sg_StrategyVersion s, bc_GlobalPromotionAllowed = sg_GlobalPromotionAllowed s,
        bc_Flags =
          [''thesisaccum'' \<mapsto> switch_flag ''thesisaccum'' (sg_ThesisAccum s),
           ''holderdelta'' \<mapsto> switch_flag ''holderdelta'' (sg_OwnershipV2 s),
           ''catalystwindow'' \<mapsto> switch_flag ''catalystwindow'' (sg_CatalystWindow s),
           ''bookvacuum'' \<mapsto> switch_flag ''bookvacuum'' (sg_BookVacuum s),
           ''repricinglag'' \<mapsto> switch_flag ''repricinglag'' (sg_RepricingLag s),
           ''walletcohort'' \<mapsto> switch_flag ''walletcohort'' (sg_WalletCohort s),
           ''conflictresolve'' \<mapsto> switch_flag ''conflictresolve'' (sg_ConflictResolve s),
           ''rulesrisk'' \<mapsto> switch_flag ''rulesrisk'' (sg_RulesRisk s),
           ''cheaptail'' \<mapsto> switch_flag ''cheaptail'' (sg_CheapTail s)],
        bc_PromotionGate = allow\<rparr> writer"

subsection \<open>One strategy writes one row at most\<close>

definition stamped :: "string \<Rightarrow> features \<Rightarrow> bool" where
  "stamped regime fs \<longleftrightarrow> (regime = '''' \<longrightarrow> fs ''market_regime'' = None)"

definition strategy_out :: "string \<Rightarrow> Bus \<Rightarrow> sh_Env \<Rightarrow> sh_alert \<Rightarrow> string \<Rightarrow> sh_out \<Rightarrow> bool" where
  "strategy_out name bus ev a regime out \<longleftrightarrow> (\<exists>reason. out = skip name reason) \<or>
     (\<exists>kind level score confidence rsns fs. out = writeShadow bus ev a name kind level score confidence rsns fs regime \<and> stamped regime fs)"

lemma strategy_out_skip [simp, intro]: "strategy_out name bus ev a regime (skip name reason)"
  by (auto simp: strategy_out_def)

lemma strategy_out_write [intro]: "stamped regime fs \<Longrightarrow>
    strategy_out name bus ev a regime (writeShadow bus ev a name kind level score confidence rsns fs regime)"
  unfolding strategy_out_def by blast

lemma strategy_out_if: "(b \<Longrightarrow> strategy_out name bus ev a regime x) \<Longrightarrow> (\<not> b \<Longrightarrow> strategy_out name bus ev a regime y) \<Longrightarrow>
    strategy_out name bus ev a regime (if b then x else y)"
  by simp

lemma stamped_with [intro, simp]: "fs ''market_regime'' = None \<Longrightarrow> stamped regime (with_regime regime fs)"
  by (simp add: stamped_def with_regime_def)

lemma stamped_upd [intro]: "k \<noteq> ''market_regime'' \<Longrightarrow> stamped regime fs \<Longrightarrow> stamped regime (fs(k \<mapsto> x))"
  by (simp add: stamped_def)

lemma regime_free:
  "rk_Features (rr_Decide rd0 rin) ''market_regime'' = None"
  "bw_Features (cw_Decide cd cin) ''market_regime'' = None"
  "co_Features (wc_Decide wd order win) ''market_regime'' = None"
  "cv_Features (cf_Decide fd fin) ''market_regime'' = None"
  "chv_Features (ch_Decide td hin) ''market_regime'' = None"
  "lv_Features (rl_Decide ld lin) ''market_regime'' = None"
  "hv_Features (hd_Decide od oin) ''market_regime'' = None"
  "vv_Features (bv_Decide bd bin) ''market_regime'' = None"
  subgoal by (simp add: rr_Decide_def Let_def split: prod.splits)
  subgoal by (simp add: cw_Decide_def Let_def split: option.splits prod.splits)
  subgoal by (simp add: wc_Decide_def wc_none_def wc_edge_branch_def wc_fresh_branch_def Let_def split: option.splits prod.splits if_splits)
  subgoal by (simp add: cf_Decide_def Let_def split: prod.splits)
  subgoal by (simp add: ch_Decide_def Let_def split: prod.splits)
  subgoal by (simp add: rl_Decide_def Let_def)
  subgoal by (simp add: hd_Decide_def Let_def)
  subgoal by (simp add: bv_Decide_def Let_def split: prod.splits)
  done

lemma out_RulesRisk: "strategy_out ''rulesrisk'' bus ev a regime (fst (shadowRulesRisk c bus ev a det regime))"
  unfolding shadowRulesRisk_def Let_def by (auto simp: regime_free)

lemma out_CatalystWindow: "strategy_out ''catalystwindow'' bus ev a regime (shadowCatalystWindow c bus ev a staged regime)"
  unfolding shadowCatalystWindow_def Let_def by (auto simp: regime_free split: sum.splits)

lemma out_WalletCohort: "strategy_out ''walletcohort'' bus ev a regime (shadowWalletCohort c bus ev a staged regime)"
  unfolding shadowWalletCohort_def Let_def by (auto simp: regime_free split: sum.splits)

lemma out_ConflictResolve: "strategy_out ''conflictresolve'' bus ev a regime (shadowConflictResolve c bus ev a staged regime)"
  unfolding shadowConflictResolve_def Let_def by (auto simp: regime_free split: sum.splits)

lemma out_CheapTail: "strategy_out ''cheaptail'' bus ev a regime (shadowCheapTail c bus ev a staged ambiguity regime)"
  unfolding shadowCheapTail_def Let_def
  by (intro strategy_out_if strategy_out_skip strategy_out_write stamped_upd stamped_with regime_free) simp_all

lemma out_RepricingLag: "strategy_out ''repricinglag'' bus ev a regime (shadowRepricingLag c bus ev a staged ambiguity regime)"
  unfolding shadowRepricingLag_def Let_def
  by (auto intro!: strategy_out_write stamped_upd stamped_with simp: regime_free split: sum.splits list.splits)

lemma out_ThesisAccum: "strategy_out ''thesisaccum'' bus ev a regime (shadowThesisAccum c bus ev a staged regime)"
  unfolding shadowThesisAccum_def Let_def
  by (auto intro!: strategy_out_write stamped_with split: sum.splits prod.splits)

lemma out_HolderDelta: "strategy_out ''holderdelta'' bus ev a regime (shadowHolderDelta c bus ev a staged regime)"
  unfolding shadowHolderDelta_def Let_def by (auto simp: regime_free split: sum.splits option.splits)

lemma out_BookVacuum: "strategy_out ''bookvacuum'' bus ev a regime (shadowBookVacuum c bus ev a staged regime)"
  unfolding shadowBookVacuum_def Let_def
  by (auto intro!: strategy_out_write stamped_upd stamped_with simp: regime_free split: sum.splits list.splits)

lemmas strategy_outs = out_RulesRisk out_CatalystWindow out_WalletCohort out_ConflictResolve out_CheapTail
  out_RepricingLag out_ThesisAccum out_HolderDelta out_BookVacuum

subsection \<open>The chain\<close>

fun handed :: "sh_event list \<Rightarrow> (Decision \<times> Decision option) list" where
  "handed [] = []"
| "handed (Handed d row # es) = (d, row) # handed es"
| "handed (Skipped n r # es) = handed es"
| "handed (Evaluated n s # es) = handed es"

fun oks :: "sh_event list \<Rightarrow> int" where
  "oks [] = 0"
| "oks (Evaluated n s # es) = (if s = ''ok'' then 1 else 0) + oks es"
| "oks (Skipped n r # es) = oks es"
| "oks (Handed d row # es) = oks es"

lemma handed_append [simp]: "handed (xs @ ys) = handed xs @ handed ys"
  by (induction xs rule: handed.induct) simp_all

lemma oks_append [simp]: "oks (xs @ ys) = oks xs + oks ys"
  by (induction xs rule: oks.induct) simp_all

lemma handed_skipped [simp]: "handed (map (\<lambda>n. Skipped n r) ns) = []" "oks (map (\<lambda>n. Skipped n r) ns) = 0"
  by (induction ns) simp_all

text \<open>A row of the hook: of an evaluated strategy, for this alert, and passed to the bus as it is.\<close>

definition good_row :: "Bus \<Rightarrow> sh_Env \<Rightarrow> sh_alert \<Rightarrow> Decision \<times> Decision option \<Rightarrow> bool" where
  "good_row bus ev a dr \<longleftrightarrow> ShouldEvaluate bus (dc_StrategyName (fst dr)) \<and> dc_LinkedAlertDedupKey (fst dr) = sa_dedup a \<and>
     dc_ConditionID (fst dr) = mk_ID (sa_market a) \<and> snd dr = fst (bus_Record bus (se_now ev) (fst dr))"

definition hook_ok :: "Bus \<Rightarrow> sh_Env \<Rightarrow> sh_alert \<Rightarrow> (Decision \<Rightarrow> bool) \<Rightarrow> string set \<Rightarrow> int \<Rightarrow> sh_out \<Rightarrow> bool" where
  "hook_ok bus ev a P seen mx out \<longleftrightarrow> 0 \<le> snd out \<and> snd out \<le> mx \<and> snd out = oks (fst out) \<and>
     distinct (map (dc_StrategyName \<circ> fst) (handed (fst out))) \<and>
     (dc_StrategyName \<circ> fst) ` set (handed (fst out)) \<subseteq> seen \<and> list_all (good_row bus ev a) (handed (fst out)) \<and>
     list_all (P \<circ> fst) (handed (fst out))"

lemma hook_ok_empty [simp]: "0 \<le> mx \<Longrightarrow> hook_ok bus ev a P seen mx ([], 0)"
  by (simp add: hook_ok_def)

lemma hook_ok_skip: "hook_ok bus ev a P seen mx out \<Longrightarrow> hook_ok bus ev a P seen mx (fst out @ [Skipped n r], snd out)"
  by (simp add: hook_ok_def)

lemma shadow_row_fields [simp]:
  "dc_StrategyName (shadow_row a name kind level score confidence rsns fs regime) = name"
  "dc_LinkedAlertDedupKey (shadow_row a name kind level score confidence rsns fs regime) = sa_dedup a"
  "dc_ConditionID (shadow_row a name kind level score confidence rsns fs regime) = mk_ID (sa_market a)"
  by (simp_all add: shadow_row_def Let_def)

lemma writeShadow_cases:
  obtains d n s where "writeShadow bus ev a name kind level score confidence rsns fs regime =
      ([Handed d (fst (bus_Record bus (se_now ev) d)), Evaluated name s], n)"
    "d = shadow_row a name kind level score confidence rsns fs regime" "n = (if s = ''ok'' then 1 else 0)"
proof -
  let ?d = "shadow_row a name kind level score confidence rsns fs regime"
  obtain row res where r: "bus_Record bus (se_now ev) ?d = (row, res)" by fastforce
  show thesis
  proof (cases res)
    case (Inl err)
    then show thesis using r that [of ?d "''write_failed''" 0] by (simp add: writeShadow_def Let_def)
  next
    case (Inr i)
    then show thesis using r that [of ?d "''ok''" 1] by (simp add: writeShadow_def Let_def)
  qed
qed

text \<open>What a strategy contributes: a skip, or one row.\<close>

definition one_row :: "Bus \<Rightarrow> sh_Env \<Rightarrow> sh_alert \<Rightarrow> (Decision \<Rightarrow> bool) \<Rightarrow> string \<Rightarrow> sh_out \<Rightarrow> bool" where
  "one_row bus ev a P name out \<longleftrightarrow> (\<exists>reason. out = skip name reason) \<or>
     (\<exists>kind level score confidence rsns fs regime.
        out = writeShadow bus ev a name kind level score confidence rsns fs regime \<and>
        P (shadow_row a name kind level score confidence rsns fs regime))"

lemma one_row_strategy:
  "strategy_out name bus ev a regime out \<Longrightarrow> one_row bus ev a (\<lambda>_. True) name out"
  "strategy_out name bus ev a '''' out \<Longrightarrow> one_row bus ev a (\<lambda>d. dc_Features d ''market_regime'' = None) name out"
proof -
  show "strategy_out name bus ev a regime out \<Longrightarrow> one_row bus ev a (\<lambda>_. True) name out"
    unfolding strategy_out_def one_row_def by blast
  have "stamped '''' fs \<Longrightarrow> dc_Features (shadow_row a name kind level score confidence rsns fs '''') ''market_regime'' = None"
    for kind level score confidence rsns fs by (simp add: shadow_row_def stamped_def Let_def)
  then show "strategy_out name bus ev a '''' out \<Longrightarrow> one_row bus ev a (\<lambda>d. dc_Features d ''market_regime'' = None) name out"
    unfolding strategy_out_def one_row_def by blast
qed

lemma hook_ok_add:
  assumes ok: "hook_ok bus ev a P seen mx acc" and out: "one_row bus ev a P name out" and new: "name \<notin> seen"
    and free: "snd acc < mx" "ShouldEvaluate bus name"
  shows "hook_ok bus ev a P (insert name seen) mx (fst acc @ fst out, snd acc + snd out)"
proof -
  consider (skip) reason where "out = skip name reason"
    | (wrote) kind level score confidence rsns fs regime where
        "out = writeShadow bus ev a name kind level score confidence rsns fs regime"
        "P (shadow_row a name kind level score confidence rsns fs regime)"
    using out unfolding one_row_def by blast
  then show ?thesis
  proof cases
    case skip
    then show ?thesis using ok by (auto simp: hook_ok_def skip_def)
  next
    case wrote
    obtain d n s where w: "out = ([Handed d (fst (bus_Record bus (se_now ev) d)), Evaluated name s], n)"
      "d = shadow_row a name kind level score confidence rsns fs regime" "n = (if s = ''ok'' then 1 else 0)"
      using writeShadow_cases wrote(1) by metis
    have f: "dc_StrategyName d = name" "dc_LinkedAlertDedupKey d = sa_dedup a" "dc_ConditionID d = mk_ID (sa_market a)" "P d"
      using wrote(2) unfolding w(2) by simp_all
    then have "good_row bus ev a (d, fst (bus_Record bus (se_now ev) d))" using free(2) by (simp add: good_row_def)
    then show ?thesis using free(1) ok new f unfolding w(1) hook_ok_def by (auto simp: w(3))
  qed
qed

lemma hook_ok_run:
  assumes "hook_ok bus ev a P seen mx acc" "one_row bus ev a P name out" "name \<notin> seen"
  shows "hook_ok bus ev a P (insert name seen) mx (run_strategy mx bus name out acc)"
  using hook_ok_add [OF assms] assms(1) by (auto simp: run_strategy_def hook_ok_def)

lemma hook_ok_skipped: "out = skip name reason \<Longrightarrow> hook_ok bus ev a P seen mx acc \<Longrightarrow> hook_ok bus ev a P seen mx (run_strategy mx bus name out acc)"
  by (auto simp: hook_ok_def run_strategy_def skip_def)

lemma hook_ok_mono: "hook_ok bus ev a P seen mx acc \<Longrightarrow> seen \<subseteq> seen' \<Longrightarrow> hook_ok bus ev a P seen' mx acc"
  by (auto simp: hook_ok_def)

text \<open>The hook as three stages: the regime, the ambiguity, the staged strategies.\<close>

definition stage_regime :: "sh_Config \<Rightarrow> Bus \<Rightarrow> sh_Env \<Rightarrow> sh_alert \<Rightarrow> sh_out \<times> string" where
  "stage_regime c bus ev a =
     (case sh_MarketRegime c of None \<Rightarrow> (([], 0), '''')
      | Some classify \<Rightarrow>
          if 0 < dflti (sh_MaxPerTrade c) 20 \<and> ShouldEvaluate bus ''marketregime'' then shadowMarketRegime c bus ev a classify
          else (([], 0), ''''))"

definition stage_risk :: "sh_Config \<Rightarrow> Bus \<Rightarrow> sh_Env \<Rightarrow> sh_alert \<Rightarrow> string \<Rightarrow> sh_out \<Rightarrow> sh_out \<times> float64" where
  "stage_risk c bus ev a regime acc =
     (if ShouldEvaluate bus ''rulesrisk''
      then (case sh_RulesRisk c of
          None \<Rightarrow> ((fst acc @ [Skipped ''rulesrisk'' ''no_detector''], snd acc), 0)
        | Some det \<Rightarrow>
            if snd acc < dflti (sh_MaxPerTrade c) 20
            then (let (out, amb) = shadowRulesRisk c bus ev a det regime in ((fst acc @ fst out, snd acc + snd out), amb))
            else ((fst acc @ [Skipped ''rulesrisk'' ''no_detector''], snd acc), 0))
      else (acc, 0))"

definition stage_staged :: "sh_Config \<Rightarrow> Bus \<Rightarrow> sh_Env \<Rightarrow> sh_alert \<Rightarrow> string \<Rightarrow> float64 \<Rightarrow> sh_out \<Rightarrow> sh_out" where
  "stage_staged c bus ev a regime ambiguity acc =
     (let skipped = (fst acc @ map (\<lambda>n. Skipped n ''staged_inputs_disabled'') (filter (ShouldEvaluate bus) staged_names), snd acc)
      in case sh_StagedInputs c of
           None \<Rightarrow> skipped
         | Some staged \<Rightarrow>
             if \<not> st_Enabled staged then skipped
             else foldl (\<lambda>acc (name, out). run_strategy (dflti (sh_MaxPerTrade c) 20) bus name out acc) acc
               [(''catalystwindow'', shadowCatalystWindow c bus ev a staged regime),
                (''walletcohort'', shadowWalletCohort c bus ev a staged regime),
                (''conflictresolve'', shadowConflictResolve c bus ev a staged regime),
                (''cheaptail'', shadowCheapTail c bus ev a staged ambiguity regime),
                (''repricinglag'', shadowRepricingLag c bus ev a staged ambiguity regime),
                (''thesisaccum'', shadowThesisAccum c bus ev a staged regime),
                (''holderdelta'', shadowHolderDelta c bus ev a staged regime),
                (''bookvacuum'', shadowBookVacuum c bus ev a staged regime)])"

lemma recordStrategyShadow_stages:
  "recordStrategyShadow c ev a =
     (case sh_Bus c of None \<Rightarrow> ([], 0)
      | Some bus \<Rightarrow>
          let (acc, regime) = stage_regime c bus ev a; (acc, ambiguity) = stage_risk c bus ev a regime acc
          in stage_staged c bus ev a regime ambiguity acc)"
  unfolding recordStrategyShadow_def stage_regime_def stage_risk_def stage_staged_def Let_def
  by (simp cong: option.case_cong split: option.split)

definition hook_names :: "string set" where
  "hook_names = {''marketregime'', ''rulesrisk'', ''catalystwindow'', ''walletcohort'', ''conflictresolve'', ''cheaptail'',
     ''repricinglag'', ''thesisaccum'', ''holderdelta'', ''bookvacuum''}"

lemma dflti_pos [simp]: "0 < d \<Longrightarrow> 0 < dflti x d"
  by (simp add: dflti_def)

lemma regime_one_row: "one_row bus ev a (\<lambda>_. True) ''marketregime'' (fst (shadowMarketRegime c bus ev a classify))"
proof -
  obtain slug label where "(case fi_Category (sa_finding a) of None \<Rightarrow> ('''', '''') | Some k \<Rightarrow> (cf_Slug k, cf_Label k)) = (slug, label)"
    by fastforce
  then show ?thesis unfolding one_row_def shadowMarketRegime_def Let_def by (simp only: prod.case fst_conv) blast
qed

lemma stage_regime_ok: "hook_ok bus ev a (\<lambda>_. True) {''marketregime''} (dflti (sh_MaxPerTrade c) 20) (fst (stage_regime c bus ev a))"
proof -
  have mx: "0 < dflti (sh_MaxPerTrade c) 20" by simp
  have "hook_ok bus ev a (\<lambda>_. True) {''marketregime''} (dflti (sh_MaxPerTrade c) 20) (fst (shadowMarketRegime c bus ev a classify))"
    if "ShouldEvaluate bus ''marketregime''" for classify
    using hook_ok_add [OF hook_ok_empty regime_one_row, where seen = "{}" and mx = "dflti (sh_MaxPerTrade c) 20"] mx that by simp
  then show ?thesis using mx by (simp add: stage_regime_def less_imp_le split: option.split)
qed

lemma stage_risk_ok:
  assumes ok: "hook_ok bus ev a P seen (dflti (sh_MaxPerTrade c) 20) acc" and new: "''rulesrisk'' \<notin> seen"
    and out: "\<And>det. one_row bus ev a P ''rulesrisk'' (fst (shadowRulesRisk c bus ev a det regime))"
  shows "hook_ok bus ev a P (insert ''rulesrisk'' seen) (dflti (sh_MaxPerTrade c) 20) (fst (stage_risk c bus ev a regime acc))"
proof -
  have s: "hook_ok bus ev a P (insert ''rulesrisk'' seen) (dflti (sh_MaxPerTrade c) 20) acc" using hook_ok_mono [OF ok] by blast
  then show ?thesis using hook_ok_add [OF ok out new] hook_ok_skip
    by (auto simp: stage_risk_def case_prod_beta split: option.split)
qed

lemma hook_chain:
  assumes "\<forall>(name, out) \<in> set steps. one_row bus ev a P name out" "distinct (map fst steps)" "fst ` set steps \<inter> seen = {}"
    "hook_ok bus ev a P seen mx acc"
  shows "hook_ok bus ev a P (fst ` set steps \<union> seen) mx (foldl (\<lambda>acc (name, out). run_strategy mx bus name out acc) acc steps)"
  using assms
proof (induction steps arbitrary: acc seen)
  case (Cons p steps)
  obtain name out where p: "p = (name, out)" by (cases p)
  have "hook_ok bus ev a P (insert name seen) mx (run_strategy mx bus name out acc)"
    using Cons.prems p by (intro hook_ok_run) auto
  moreover have "fst ` set steps \<inter> insert name seen = {}" "distinct (map fst steps)" using Cons.prems(2,3) p by auto
  ultimately have "hook_ok bus ev a P (fst ` set steps \<union> insert name seen) mx
      (foldl (\<lambda>acc (name, out). run_strategy mx bus name out acc) (run_strategy mx bus name out acc) steps)"
    using Cons.prems(1) by (intro Cons.IH) auto
  then show ?case using p by (simp add: Un_commute insert_absorb)
qed simp

lemma stage_staged_ok:
  assumes ok: "hook_ok bus ev a P {''marketregime'', ''rulesrisk''} (dflti (sh_MaxPerTrade c) 20) acc"
    and out: "\<And>staged. sh_StagedInputs c = Some staged \<Longrightarrow>
      one_row bus ev a P ''catalystwindow'' (shadowCatalystWindow c bus ev a staged regime) \<and>
      one_row bus ev a P ''walletcohort'' (shadowWalletCohort c bus ev a staged regime) \<and>
      one_row bus ev a P ''conflictresolve'' (shadowConflictResolve c bus ev a staged regime) \<and>
      one_row bus ev a P ''cheaptail'' (shadowCheapTail c bus ev a staged ambiguity regime) \<and>
      one_row bus ev a P ''repricinglag'' (shadowRepricingLag c bus ev a staged ambiguity regime) \<and>
      one_row bus ev a P ''thesisaccum'' (shadowThesisAccum c bus ev a staged regime) \<and>
      one_row bus ev a P ''holderdelta'' (shadowHolderDelta c bus ev a staged regime) \<and>
      one_row bus ev a P ''bookvacuum'' (shadowBookVacuum c bus ev a staged regime)"
  shows "hook_ok bus ev a P hook_names (dflti (sh_MaxPerTrade c) 20) (stage_staged c bus ev a regime ambiguity acc)"
proof -
  have s: "hook_ok bus ev a P hook_names (dflti (sh_MaxPerTrade c) 20) (fst acc @ map (\<lambda>n. Skipped n r) ns, snd acc)" for r ns
    using hook_ok_mono [OF ok, of hook_names] by (simp add: hook_ok_def hook_names_def)
  let ?steps = "\<lambda>staged. [(''catalystwindow'', shadowCatalystWindow c bus ev a staged regime),
     (''walletcohort'', shadowWalletCohort c bus ev a staged regime),
     (''conflictresolve'', shadowConflictResolve c bus ev a staged regime),
     (''cheaptail'', shadowCheapTail c bus ev a staged ambiguity regime),
     (''repricinglag'', shadowRepricingLag c bus ev a staged ambiguity regime),
     (''thesisaccum'', shadowThesisAccum c bus ev a staged regime),
     (''holderdelta'', shadowHolderDelta c bus ev a staged regime),
     (''bookvacuum'', shadowBookVacuum c bus ev a staged regime)]"
  have "hook_ok bus ev a P (fst ` set (?steps staged) \<union> {''marketregime'', ''rulesrisk''}) (dflti (sh_MaxPerTrade c) 20)
      (foldl (\<lambda>acc (name, out). run_strategy (dflti (sh_MaxPerTrade c) 20) bus name out acc) acc (?steps staged))"
    if "sh_StagedInputs c = Some staged" for staged
    using out [OF that] by (intro hook_chain ok) simp_all
  moreover have "fst ` set (?steps staged) \<union> {''marketregime'', ''rulesrisk''} = hook_names" for staged
    by (auto simp: hook_names_def)
  ultimately show ?thesis using s unfolding stage_staged_def Let_def by (auto split: option.split)
qed

subsection \<open>Safety of the hook\<close>

lemma hook_result:
  assumes "sh_Bus c = Some bus"
  shows "hook_ok bus ev a (\<lambda>_. True) hook_names (dflti (sh_MaxPerTrade c) 20) (recordStrategyShadow c ev a)"
proof -
  obtain acc regime where r: "stage_regime c bus ev a = (acc, regime)" by fastforce
  obtain acc' amb where k: "stage_risk c bus ev a regime acc = (acc', amb)" by fastforce
  have "hook_ok bus ev a (\<lambda>_. True) {''marketregime''} (dflti (sh_MaxPerTrade c) 20) acc"
    using stage_regime_ok [of bus ev a c] r by simp
  then have i: "hook_ok bus ev a (\<lambda>_. True) {''marketregime'', ''rulesrisk''} (dflti (sh_MaxPerTrade c) 20) acc'"
    using stage_risk_ok [of bus ev a "\<lambda>_. True" "{''marketregime''}" c acc regime] one_row_strategy(1) [OF out_RulesRisk] k
    by (simp add: insert_commute)
  have "hook_ok bus ev a (\<lambda>_. True) hook_names (dflti (sh_MaxPerTrade c) 20) (stage_staged c bus ev a regime amb acc')"
    by (rule stage_staged_ok [OF i], intro conjI; rule one_row_strategy(1), rule strategy_outs)
  then show ?thesis using assms r k by (simp add: recordStrategyShadow_stages)
qed

text \<open>A row reaches the writer as a live one only through an open gate.\<close>

definition live_gated :: "Bus \<Rightarrow> Decision \<times> Decision option \<Rightarrow> bool" where
  "live_gated bus dr \<longleftrightarrow> (case snd dr of None \<Rightarrow> True
     | Some r \<Rightarrow> if dc_ShadowOnly r then True
         else \<not> IsShadowOnly bus (dc_StrategyName (fst dr)) \<and> gate_open (bus_cfg bus) (dc_StrategyName (fst dr)))"

text \<open>C35. The shadow hook of the detect loop: without a bus it does nothing; with one it reports between 0 and the configured
  number of rows, exactly as many as the bus took; no strategy hands over two rows; every row belongs to
  a strategy the bus evaluates, to this market and to the dedup key of this alert, and reaches the
  writer as a live row only if the gate of its strategy is open - whatever the readers, the
  detectors and the writer answer.\<close>

theorem shadow_hook_safe:
  "case sh_Bus c of None \<Rightarrow> recordStrategyShadow c ev a = ([], 0)
   | Some bus \<Rightarrow>
       hook_ok bus ev a (\<lambda>_. True) hook_names (dflti (sh_MaxPerTrade c) 20) (recordStrategyShadow c ev a) \<and>
       list_all (live_gated bus) (handed (fst (recordStrategyShadow c ev a)))"
proof (cases "sh_Bus c")
  case None
  then show ?thesis by (simp add: recordStrategyShadow_def)
next
  case (Some bus)
  have ok: "hook_ok bus ev a (\<lambda>_. True) hook_names (dflti (sh_MaxPerTrade c) 20) (recordStrategyShadow c ev a)"
    using Some by (rule hook_result)
  then have "list_all (good_row bus ev a) (handed (fst (recordStrategyShadow c ev a)))" by (simp add: hook_ok_def)
  moreover have "live_gated bus dr" if "good_row bus ev a dr" for dr
  proof (cases "snd dr")
    case None
    then show ?thesis by (simp add: live_gated_def)
  next
    case row: (Some r)
    then have f: "fst (bus_Record bus (se_now ev) (fst dr)) = Some r" using that by (simp add: good_row_def)
    show ?thesis
    proof (cases "dc_ShadowOnly r")
      case False
      then show ?thesis using Record_live [OF f] row by (auto simp: live_gated_def)
    qed (simp add: live_gated_def row)
  qed
  ultimately show ?thesis using ok Some by (auto simp: list_all_iff)
qed

subsection \<open>Strategies that cannot fire\<close>

lemma flags_no_regime: "\<not> ShouldEvaluate (buildStrategyBusWithGate s w g) ''marketregime''"
  by (simp add: ShouldEvaluate_def buildStrategyBusWithGate_def bus_New_def)

lemma cheaptail_dead:
  assumes "\<not> sh_RecordNoFire c" "ctr_MinTrades (sh_CheapTail c) \<noteq> 1"
  shows "\<exists>reason. shadowCheapTail c bus ev a staged ambiguity regime = skip ''cheaptail'' reason"
proof -
  have "\<not> chv_Fired (ch_Decide (ch_New d) inp)" if "chc_MinTrades d = ctr_MinTrades (sh_CheapTail c)" "ch_Trades inp = [t]" for d inp t
    using assms(2) that by (auto simp: ch_fired tail_staged_def ch_New_def dflti_def)
  then show ?thesis using assms(1) unfolding shadowCheapTail_def Let_def by auto
qed

lemma repricinglag_dead:
  assumes "\<not> sh_RecordNoFire c" "rlr_PeerMinCount (sh_RepricingLag c) \<noteq> 1"
  shows "\<exists>reason. shadowRepricingLag c bus ev a staged ambiguity regime = skip ''repricinglag'' reason"
proof -
  have "\<not> lv_Fired (rl_Decide (rl_New d) inp)"
    if "rlc_PeerMinCount d = dflti (rlr_PeerMinCount (sh_RepricingLag c)) 3" "rl_PeerMovesCents inp = [p]" "rl_ExpectedImpactCents inp = 0" for d inp p
  proof -
    have "1 < rlc_PeerMinCount (rl_New d)" using assms(2) that(1) by (auto simp: rl_New_def dflti_def)
    then show ?thesis using that(2,3) by (simp add: rl_Decide_def Let_def)
  qed
  then show ?thesis using assms(1) unfolding shadowRepricingLag_def Let_def by (auto split: sum.splits list.splits)
qed

lemma walletcohort_dead:
  assumes "\<not> sh_RecordNoFire c" "wcr_MinCohortHits (sh_WalletCohort c) \<noteq> 1"
  shows "\<exists>reason. shadowWalletCohort c bus ev a staged regime = skip ''walletcohort'' reason"
proof -
  have "\<not> co_Converged (wc_Decide (wc_New d) order inp)"
    if "wc_MinCohortSize d = dflti (wcr_MinCohortHits (sh_WalletCohort c)) 2" "wi_RecentMembers inp = []" "wi_AlertEnteredAt inp = zero_time"
    for d order inp
  proof -
    have "1 < wc_MinCohortSize (wc_New d)" "0 < wc_FreshWalletMinBurst (wc_New d)"
      using assms(2) that(1) by (auto simp: wc_New_def dflti_def)
    then have "wc_edge_branch (wc_New d) inp order = None" "wc_fresh_branch (wc_New d) inp = None"
      using that(2,3) by (auto simp: wc_edge_branch_def wc_fresh_branch_def IsZero_def str_sort_def Let_def split: prod.splits)
    then show ?thesis by (simp add: wc_Decide_def wc_none_def)
  qed
  then show ?thesis using assms(1) unfolding shadowWalletCohort_def Let_def by (auto split: sum.splits)
qed

definition silent_strategies :: "string set" where
  "silent_strategies = {''marketregime'', ''cheaptail'', ''repricinglag'', ''walletcohort''}"

definition loud_row :: "Decision \<Rightarrow> bool" where
  "loud_row d \<longleftrightarrow> dc_StrategyName d \<notin> silent_strategies \<and> dc_Features d ''market_regime'' = None"

lemma one_row_loud:
  "strategy_out name bus ev a '''' out \<Longrightarrow> name \<notin> silent_strategies \<Longrightarrow> one_row bus ev a loud_row name out"
  using one_row_strategy(2) [of name bus ev a out] unfolding one_row_def loud_row_def by auto

lemma one_row_silent: "\<exists>reason. out = skip name reason \<Longrightarrow> one_row bus ev a P name out"
  by (simp add: one_row_def)

text \<open>C36. Of the ten strategies of the hook four can never write a row as the service is wired: the wiring registers no flag
  for the regime tag, so it is never evaluated and no row carries a regime; the cheap-tail staging gets
  one trade but asks for two or more, the lag gets one peer but asks for two or more, and the cohort gets
  no recent members at all, whatever the readers return - unless non-firing rows are recorded too or the
  thresholds are set to exactly 1.\<close>

theorem silent_strategies_never_write:
  assumes "sh_Bus c = Some (buildStrategyBusWithGate s w g)" "\<not> sh_RecordNoFire c"
    "ctr_MinTrades (sh_CheapTail c) \<noteq> 1" "rlr_PeerMinCount (sh_RepricingLag c) \<noteq> 1" "wcr_MinCohortHits (sh_WalletCohort c) \<noteq> 1"
  shows "list_all (\<lambda>dr. dc_StrategyName (fst dr) \<notin> silent_strategies \<and> dc_Features (fst dr) ''market_regime'' = None)
    (handed (fst (recordStrategyShadow c ev a)))"
proof -
  let ?bus = "buildStrategyBusWithGate s w g" and ?mx = "dflti (sh_MaxPerTrade c) 20"
  have r: "stage_regime c ?bus ev a = (([], 0), '''')" by (simp add: stage_regime_def flags_no_regime split: option.split)
  obtain acc amb where k: "stage_risk c ?bus ev a '''' ([], 0) = (acc, amb)" by fastforce
  have "hook_ok ?bus ev a loud_row {''marketregime''} ?mx ([], 0)" by (simp add: less_imp_le)
  moreover have "one_row ?bus ev a loud_row ''rulesrisk'' (fst (shadowRulesRisk c ?bus ev a det ''''))" for det
    by (rule one_row_loud [OF out_RulesRisk]) (simp add: silent_strategies_def)
  ultimately have i: "hook_ok ?bus ev a loud_row {''marketregime'', ''rulesrisk''} ?mx acc"
    using stage_risk_ok [of ?bus ev a loud_row "{''marketregime''}" c "([], 0)" "''''"] k by (simp add: insert_commute)
  have n: "''catalystwindow'' \<notin> silent_strategies" "''conflictresolve'' \<notin> silent_strategies" "''thesisaccum'' \<notin> silent_strategies"
    "''holderdelta'' \<notin> silent_strategies" "''bookvacuum'' \<notin> silent_strategies" by (simp_all add: silent_strategies_def)
  have "hook_ok ?bus ev a loud_row hook_names ?mx (stage_staged c ?bus ev a '''' amb acc)"
    by (rule stage_staged_ok [OF i])
      (intro conjI one_row_loud [OF out_CatalystWindow n(1)] one_row_loud [OF out_ConflictResolve n(2)] one_row_loud [OF out_ThesisAccum n(3)]
        one_row_loud [OF out_HolderDelta n(4)] one_row_loud [OF out_BookVacuum n(5)]
        one_row_silent walletcohort_dead cheaptail_dead repricinglag_dead assms(2-5))
  then have "list_all (loud_row \<circ> fst) (handed (fst (recordStrategyShadow c ev a)))"
    using assms(1) r k by (simp add: recordStrategyShadow_stages hook_ok_def)
  then show ?thesis by (simp add: loud_row_def comp_def)
qed

subsection \<open>An alert as it may come\<close>

definition sw_on :: StrategySwitch where
  "sw_on = \<lparr>sw_Enabled = True, sw_ShadowOnly = True\<rparr>"

definition sw_off :: StrategySwitch where
  "sw_off = \<lparr>sw_Enabled = False, sw_ShadowOnly = True\<rparr>"

definition sg_some :: StrategyConfig where
  "sg_some = \<lparr>sg_StrategyVersion = ''v11.10-insider-prior'', sg_GlobalPromotionAllowed = False, sg_ThesisAccum = sw_off,
     sg_OwnershipV2 = sw_off, sg_CatalystWindow = sw_on, sg_BookVacuum = sw_off, sg_RepricingLag = sw_on, sg_WalletCohort = sw_on,
     sg_ConflictResolve = sw_off, sg_RulesRisk = sw_off, sg_CheapTail = sw_on\<rparr>"

text \<open>Readers with a catalyst, a closed window with a large lag and a strong edge; the rest is empty.\<close>

definition rich_readers :: StagedReaders where
  "rich_readers = \<lparr>st_Enabled = True,
     st_CatalystsByEvent = \<lambda>n e. Inr [\<lparr>sk_EventSlug = e, sk_CatalystKind = ''debate'', sk_Title = '''', sk_ExpectedAt = Hour,
        sk_Confidence = 1, sk_Status = ''expected''\<rparr>],
     st_WalletEdgesForWallet = \<lambda>w v. Inr [\<lparr>we_Other = ''peer'', we_Kind = ''co_trade'', we_SimilarityScore = 1, we_CoEvents = 9, we_LastSeenAt = 0\<rparr>],
     st_RecentDecisionsForCondition = \<lambda>m t. Inr [],
     st_ClosedRepricingWindowsForCondition = \<lambda>m t. Inr [\<lparr>rw_ID = 1, rw_ConditionID = m, rw_EventSlug = ''e'', rw_TriggerKind = '''',
        rw_TriggerRef = '''', rw_OpenedAt = 0, rw_Status = ''closed'', rw_ObservedMove = 0, rw_PeerMove = fl 40, rw_LagScore = fl 40\<rparr>],
     st_MarketLinksByEvent = \<lambda>e v. Inr [],
     st_WalletThesisLinesForEvent = \<lambda>e w h. Inr [],
     st_RiskScoreForCondition = \<lambda>m. Inr None,
     st_HolderSnapshotPairForWallet = \<lambda>m t w. Inr None,
     st_RecentBookFeatureBars = \<lambda>m t s n. Inl ''timeout''\<rparr>"

definition shipped :: sh_Config where
  "shipped = \<lparr>sh_Bus = Some (buildStrategyBusWithGate sg_some None None), sh_RulesRisk = Some (rr_New \<lparr>rc_HighRiskThreshold = 0,
       rc_BlockRepricingAt = 0, rc_BlockCheaptailAt = 0\<rparr>), sh_MaxPerTrade = 12, sh_RecordNoFire = False,
     sh_StagedInputs = Some rich_readers,
     sh_ThesisAccum = \<lparr>tac_LookbackLifetime = 2160 * Hour, tac_MinBreadth = 2, tac_MinConsistency = fl 0.82, tac_MinAlignedScore = fl 2,
       tac_CatalystBoostMax = fl 0.55, tac_LiquidityFloorUSD = fl 1000, tac_MaxLinkedMarkets = 24\<rparr>,
     sh_HolderDelta = \<lparr>hdc_MinPctOIInfo = fl 0.02, hdc_MinPctOIWarning = fl 0.06, hdc_MinPctOICritical = fl 0.12, hdc_TopK = 10,
       hdc_MinSharesDelta = fl 250, hdc_OIShrinkPenalty = fl 0.40, hdc_FreshSnapshotMaxAge = 45 * Minute\<rparr>,
     sh_CatalystWindow = \<lparr>cwc_MinConfidence = fl 0.65, cwc_DebatePre = 8 * Hour, cwc_DebatePost = 3 * Hour,
       cwc_CourtRulingPre = 18 * Hour, cwc_CourtRulingPost = 8 * Hour, cwc_ElectionDayPre = 48 * Hour, cwc_ElectionDayPost = 12 * Hour,
       cwc_OfficialStatementPre = 6 * Hour, cwc_OfficialStatementPost = 2 * Hour, cwc_GenericPre = 3 * Hour, cwc_GenericPost = 2 * Hour\<rparr>,
     sh_BookVacuum = \<lparr>bvr_MinCollapsePct = fl 0.65, bvr_MinSpreadZ = fl 2, bvr_MinMidShiftPct = fl 0.015, bvr_MaxAgeBar = 90 * Second,
       bvr_TopN = 5\<rparr>,
     sh_RepricingLag = \<lparr>rlr_MinLagCents = fl 4, rlr_PeerMinCount = 3, rlr_MaxAmbiguity = fl 0.45\<rparr>,
     sh_WalletCohort = \<lparr>wcr_MinSimilarity = fl 0.65, wcr_MinEvents = 2, wcr_MinCohortHits = 3, wcr_ConvergenceWindow = 6 * Hour,
       wcr_FreshWalletMinBurst = 3, wcr_FreshWalletMaxAge = 24 * Hour\<rparr>,
     sh_ConflictResolve = \<lparr>crr_Window = 20 * Minute, crr_MinDominance = fl 1.8, crr_MMPenalty = fl 0.55, crr_MinQualitySum = fl 1.25\<rparr>,
     sh_CheapTail = \<lparr>ctr_MinPrice = fl 0.03, ctr_MaxPrice = fl 0.25, ctr_MinNotionalUSD = fl 2500, ctr_MinTrades = 2,
       ctr_RequireCatalyst = True, ctr_AmbiguityCutoff = fl 0.50\<rparr>,
     sh_MarketRegime = Some adapter_Classify\<rparr>"

definition cheap_alert :: sh_alert where
  "cheap_alert =
     \<lparr>sa_market = \<lparr>mk_ID = ''0xc'', mk_Slug = ''m'', mk_Question = ''Runoff for mayor?'', mk_ConditionID = ''0xc'', mk_TokenIDs = [''t''],
        mk_Outcomes = [''Yes''], mk_Categories = [], mk_EventSlug = ''e'', mk_EventTitle = '''', mk_Active = True, mk_Closed = False,
        mk_StartDate = 0, mk_EndDate = 0, mk_Volume = 0, mk_Volume24h = 0, mk_Liquidity = 0\<rparr>,
      sa_trade = \<lparr>td_ID = ''x'', td_Market = ''0xc'', td_Token = ''t'', td_Side = ''BUY'', td_Price = fl 0.125, td_Size = fl 80000,
        td_Timestamp = 0, td_TxHash = '''', td_Taker = ''w'', td_Maker = ''''\<rparr>,
      sa_finding = zero_finding\<lparr>fi_Trade := Some \<lparr>tf_ID = ''x'', tf_TxHash = '''', tf_Wallet = ''w'', tf_Market = ''0xc'', tf_Slug = ''m'',
        tf_Question = '''', tf_Outcome = ''Yes'', tf_Side = ''BUY'', tf_SizeShares = fl 80000, tf_Price = fl 0.125, tf_Odds = fl 8,
        tf_NotionalUSD = fl 10000, tf_At = 0\<rparr>\<rparr>,
      sa_dedup = ''k''\<rparr>"

definition hook_env :: sh_Env where
  "hook_env = \<lparr>se_now = 0, se_order = \<lambda>ks. ks\<rparr>"

lemma catalyst_row: "snd (shadowCatalystWindow shipped (buildStrategyBusWithGate sg_some None None) hook_env cheap_alert rich_readers '''') = 1"
  by code_simp

lemma some_flags: "ShouldEvaluate (buildStrategyBusWithGate sg_some w g) n \<longleftrightarrow>
    n \<in> {''catalystwindow'', ''walletcohort'', ''cheaptail'', ''repricinglag''}"
  by (auto simp: ShouldEvaluate_def buildStrategyBusWithGate_def bus_New_def switch_flag_def sg_some_def sw_on_def sw_off_def)

lemma silent_strategies_never_write_witness:
  "list_all (\<lambda>dr. dc_StrategyName (fst dr) \<notin> silent_strategies \<and> dc_Features (fst dr) ''market_regime'' = None)
     (handed (fst (recordStrategyShadow shipped hook_env cheap_alert))) \<and>
   snd (recordStrategyShadow shipped hook_env cheap_alert) = 1"
proof
  show "list_all (\<lambda>dr. dc_StrategyName (fst dr) \<notin> silent_strategies \<and> dc_Features (fst dr) ''market_regime'' = None)
     (handed (fst (recordStrategyShadow shipped hook_env cheap_alert)))"
    by (rule silent_strategies_never_write [of shipped sg_some None None]) (simp_all add: shipped_def)
  let ?bus = "buildStrategyBusWithGate sg_some None None"
  have c: "sh_Bus shipped = Some ?bus" "\<not> sh_RecordNoFire shipped" "sh_StagedInputs shipped = Some rich_readers"
    "ctr_MinTrades (sh_CheapTail shipped) \<noteq> 1" "rlr_PeerMinCount (sh_RepricingLag shipped) \<noteq> 1"
    "wcr_MinCohortHits (sh_WalletCohort shipped) \<noteq> 1" "dflti (sh_MaxPerTrade shipped) 20 = 12"
    by (simp_all add: shipped_def dflti_def)
  have z: "snd out = 0" if "\<exists>reason. out = skip name reason" for out name using that by (auto simp: skip_def)
  note none = z [OF cheaptail_dead [OF c(2,4)]] z [OF repricinglag_dead [OF c(2,5)]] z [OF walletcohort_dead [OF c(2,6)]]
  have e: "st_Enabled rich_readers" by (simp add: rich_readers_def)
  have "stage_regime shipped ?bus hook_env cheap_alert = (([], 0), '''')"
    by (simp add: stage_regime_def some_flags split: option.split)
  moreover have "stage_risk shipped ?bus hook_env cheap_alert '''' ([], 0) = (([], 0), 0)" by (simp add: stage_risk_def some_flags)
  moreover have "snd (stage_staged shipped ?bus hook_env cheap_alert '''' 0 ([], 0)) = 1"
    unfolding stage_staged_def Let_def by (simp add: c e run_strategy_def some_flags catalyst_row none)
  ultimately show "snd (recordStrategyShadow shipped hook_env cheap_alert) = 1" by (simp add: recordStrategyShadow_stages c(1))
qed

end
