(* ===== verification/MarketTable.thy ===== *)
theory MarketTable
  imports TradeTable
begin

text \<open>
  The tables of markets, their category links and their outcomes (\<open>market_repository.go\<close> with
  \<open>db/queries/markets.sql\<close> and the columns of \<open>db/migrations\<close>): the discovery upsert, the soft
  delete and the purge, the states of the backfill, and the collect cursor. Every statement takes the
  time of its transaction. Rows with equal sort keys are taken in table order.
\<close>

subsection \<open>Rows\<close>

text \<open>\<open>tsTime\<close> and \<open>tsFromTime\<close>: NULL is the zero time.\<close>

definition tsTime :: "time option \<Rightarrow> time" where
  "tsTime t = (case t of None \<Rightarrow> zero_time | Some t \<Rightarrow> t)"

definition tsFromTime :: "time \<Rightarrow> time option" where
  "tsFromTime t = (if IsZero t then None else Some t)"

lemma tsTime_tsFromTime [simp]: "tsTime (tsFromTime t) = t"
  by (simp add: tsTime_def tsFromTime_def IsZero_def)

record MarketRow =
  mr_ID :: int
  mr_ConditionID :: string
  mr_Slug :: string
  mr_Question :: string
  mr_EventSlug :: "string option"
  mr_EventTitle :: "string option"
  mr_StartDate :: "time option"
  mr_EndDate :: "time option"
  mr_Active :: bool
  mr_Closed :: bool
  mr_LastSeenAt :: time
  mr_BackfillStatus :: string
  mr_OldestFetchedAt :: "time option"
  mr_NewestFetchedAt :: "time option"
  mr_Attempts :: int
  mr_LastError :: "string option"
  mr_StartedAt :: "time option"
  mr_CompletedAt :: "time option"
  mr_CreatedAt :: time
  mr_UpdatedAt :: time
  mr_DeletedAt :: "time option"
  mr_PurgedAt :: "time option"
  mr_LastCollectTradedAt :: "time option"

record MarketTable =
  mt_rows :: "MarketRow list"
  mt_next :: int
  mt_links :: "(int \<times> int) list"
  mt_outcomes :: "int \<times> string \<rightharpoonup> string"

text \<open>The repository's view of a row.\<close>

record db_Market =
  dm_ID :: int
  dm_ConditionID :: string
  dm_Slug :: string
  dm_Question :: string
  dm_EventSlug :: string
  dm_EventTitle :: string
  dm_StartDate :: time
  dm_EndDate :: time
  dm_Active :: bool
  dm_Closed :: bool
  dm_LastSeenAt :: time
  dm_BackfillStatus :: string
  dm_OldestFetchedAt :: time
  dm_NewestFetchedAt :: time
  dm_Attempts :: int
  dm_LastError :: string
  dm_StartedAt :: time
  dm_CompletedAt :: time
  dm_DeletedAt :: time
  dm_PurgedAt :: time
  dm_CreatedAt :: time
  dm_UpdatedAt :: time

definition marketFromSQLC :: "MarketRow \<Rightarrow> db_Market" where
  "marketFromSQLC r =
     \<lparr>dm_ID = mr_ID r, dm_ConditionID = mr_ConditionID r, dm_Slug = mr_Slug r, dm_Question = mr_Question r,
      dm_EventSlug = derefStr (mr_EventSlug r), dm_EventTitle = derefStr (mr_EventTitle r),
      dm_StartDate = tsTime (mr_StartDate r), dm_EndDate = tsTime (mr_EndDate r), dm_Active = mr_Active r,
      dm_Closed = mr_Closed r, dm_LastSeenAt = mr_LastSeenAt r, dm_BackfillStatus = mr_BackfillStatus r,
      dm_OldestFetchedAt = tsTime (mr_OldestFetchedAt r), dm_NewestFetchedAt = tsTime (mr_NewestFetchedAt r),
      dm_Attempts = mr_Attempts r, dm_LastError = derefStr (mr_LastError r), dm_StartedAt = tsTime (mr_StartedAt r),
      dm_CompletedAt = tsTime (mr_CompletedAt r), dm_DeletedAt = tsTime (mr_DeletedAt r),
      dm_PurgedAt = tsTime (mr_PurgedAt r), dm_CreatedAt = mr_CreatedAt r, dm_UpdatedAt = mr_UpdatedAt r\<rparr>"

definition BackfillPending :: string where "BackfillPending = ''pending''"
definition BackfillRunning :: string where "BackfillRunning = ''running''"
definition BackfillCompleted :: string where "BackfillCompleted = ''completed''"
definition BackfillPartialAPILimit :: string where "BackfillPartialAPILimit = ''partial_api_limit''"
definition BackfillFailed :: string where "BackfillFailed = ''failed''"
definition BackfillSkipped :: string where "BackfillSkipped = ''skipped''"

lemmas backfill_states = BackfillPending_def BackfillRunning_def BackfillCompleted_def BackfillPartialAPILimit_def
  BackfillFailed_def BackfillSkipped_def

definition mt_update :: "(MarketRow \<Rightarrow> bool) \<Rightarrow> (MarketRow \<Rightarrow> MarketRow) \<Rightarrow> MarketTable \<Rightarrow> MarketTable" where
  "mt_update P f tbl = tbl\<lparr>mt_rows := map (\<lambda>r. if P r then f r else r) (mt_rows tbl)\<rparr>"

subsection \<open>The discovery sweep\<close>

record UpsertMarketInput =
  um_ConditionID :: string
  um_Slug :: string
  um_Question :: string
  um_EventSlug :: string
  um_EventTitle :: string
  um_StartDate :: time
  um_EndDate :: time
  um_Closed :: bool
  um_CategoryIDs :: "int list"

definition new_market_row :: "time \<Rightarrow> int \<Rightarrow> UpsertMarketInput \<Rightarrow> MarketRow" where
  "new_market_row now i m =
     \<lparr>mr_ID = i, mr_ConditionID = um_ConditionID m, mr_Slug = um_Slug m, mr_Question = um_Question m,
      mr_EventSlug = strPtr (um_EventSlug m), mr_EventTitle = strPtr (um_EventTitle m),
      mr_StartDate = tsFromTime (um_StartDate m), mr_EndDate = tsFromTime (um_EndDate m), mr_Active = True,
      mr_Closed = um_Closed m, mr_LastSeenAt = now, mr_BackfillStatus = BackfillPending, mr_OldestFetchedAt = None,
      mr_NewestFetchedAt = None, mr_Attempts = 0, mr_LastError = None, mr_StartedAt = None, mr_CompletedAt = None,
      mr_CreatedAt = now, mr_UpdatedAt = now, mr_DeletedAt = None, mr_PurgedAt = None, mr_LastCollectTradedAt = None\<rparr>"

definition seen_row :: "time \<Rightarrow> UpsertMarketInput \<Rightarrow> MarketRow \<Rightarrow> MarketRow" where
  "seen_row now m r =
     r\<lparr>mr_Slug := um_Slug m, mr_Question := um_Question m, mr_EventSlug := strPtr (um_EventSlug m),
       mr_EventTitle := strPtr (um_EventTitle m), mr_StartDate := tsFromTime (um_StartDate m),
       mr_EndDate := tsFromTime (um_EndDate m), mr_Active := True, mr_Closed := um_Closed m, mr_LastSeenAt := now,
       mr_DeletedAt := None, mr_UpdatedAt := now\<rparr>"

definition mt_lookup :: "string \<Rightarrow> MarketTable \<Rightarrow> MarketRow option" where
  "mt_lookup c tbl = find (\<lambda>r. mr_ConditionID r = c) (mt_rows tbl)"

definition UpsertMarket :: "time \<Rightarrow> UpsertMarketInput \<Rightarrow> MarketTable \<Rightarrow> MarketTable \<times> MarketRow" where
  "UpsertMarket now m tbl =
     (case mt_lookup (um_ConditionID m) tbl of
        None \<Rightarrow> (let r = new_market_row now (mt_next tbl) m
                 in (tbl\<lparr>mt_rows := mt_rows tbl @ [r], mt_next := mt_next tbl + 1\<rparr>, r))
      | Some r \<Rightarrow> ((mt_update (\<lambda>r. mr_ConditionID r = um_ConditionID m) (seen_row now m) tbl)\<lparr>mt_next := mt_next tbl + 1\<rparr>,
                   seen_row now m r))"

text \<open>The links of a market after the refresh: those kept and those added.\<close>

definition relink :: "int \<Rightarrow> int list \<Rightarrow> (int \<times> int) list \<Rightarrow> (int \<times> int) list" where
  "relink mid cats links =
     (let links = foldl (\<lambda>ls c. if (mid, c) \<in> set ls then ls else ls @ [(mid, c)]) links cats
      in filter (\<lambda>(m, c). m = mid \<longrightarrow> c \<in> set cats) links)"

text \<open>One transaction; \<open>fault\<close> is its error, if any, and then it leaves no trace.\<close>

definition upsertOne :: "time \<Rightarrow> string option \<Rightarrow> UpsertMarketInput \<Rightarrow> MarketTable \<Rightarrow> MarketTable \<times> (string + db_Market)" where
  "upsertOne now fault m tbl =
     (case fault of Some e \<Rightarrow> (tbl, Inl e)
      | None \<Rightarrow> (case UpsertMarket now m tbl of
                   (tbl, r) \<Rightarrow> (tbl\<lparr>mt_links := relink (mr_ID r) (um_CategoryIDs m) (mt_links tbl)\<rparr>, Inr (marketFromSQLC r))))"

fun UpsertSeen :: "time \<Rightarrow> (string \<Rightarrow> string option) \<Rightarrow> UpsertMarketInput list \<Rightarrow> db_Market list \<Rightarrow> MarketTable
    \<Rightarrow> MarketTable \<times> db_Market list \<times> string option" where
  "UpsertSeen now fault [] out tbl = (tbl, out, None)"
| "UpsertSeen now fault (m # ms) out tbl =
     (case upsertOne now (fault (um_ConditionID m)) m tbl of
        (tbl, Inl e) \<Rightarrow> (tbl, out, Some (''upsert market '' @ fmt_q (um_ConditionID m) @ '': '' @ e))
      | (tbl, Inr r) \<Rightarrow> UpsertSeen now fault ms (out @ [r]) tbl)"

definition MarkSeenInactive :: "time \<Rightarrow> string list \<Rightarrow> int list \<Rightarrow> MarketTable \<Rightarrow> MarketTable \<times> int" where
  "MarkSeenInactive now seen scope tbl =
     (if scope = [] then (tbl, 0)
      else
        (let gone = (\<lambda>r. mr_Active r \<and> mr_ConditionID r \<notin> set seen \<and>
                list_ex (\<lambda>(m, c). m = mr_ID r \<and> c \<in> set scope) (mt_links tbl))
         in (mt_update gone
               (\<lambda>r. r\<lparr>mr_Active := False, mr_DeletedAt := (case mr_DeletedAt r of None \<Rightarrow> Some now | Some d \<Rightarrow> Some d),
                      mr_UpdatedAt := now\<rparr>) tbl,
             int (length (filter gone (mt_rows tbl))))))"

definition UpsertOutcome :: "int \<Rightarrow> string \<Rightarrow> string \<Rightarrow> MarketTable \<Rightarrow> MarketTable" where
  "UpsertOutcome mid tok label tbl = tbl\<lparr>mt_outcomes := (mt_outcomes tbl)((mid, tok) \<mapsto> label)\<rparr>"

subsection \<open>The backfill states\<close>

definition not_gone :: "MarketRow \<Rightarrow> bool" where
  "not_gone r \<longleftrightarrow> mr_Active r \<and> mr_DeletedAt r = None \<and> mr_PurgedAt r = None"

definition backfillable :: "time \<Rightarrow> duration \<Rightarrow> MarketRow \<Rightarrow> bool" where
  "backfillable now retryAfter r \<longleftrightarrow> not_gone r \<and>
     (mr_BackfillStatus r = BackfillPending \<or>
      mr_BackfillStatus r = BackfillPartialAPILimit \<and>
        (case mr_CompletedAt r of None \<Rightarrow> True | Some t \<Rightarrow> t < now - interval retryAfter))"

text \<open>\<open>ORDER BY end_date ASC NULLS LAST\<close>.\<close>

definition by_end_date :: "MarketRow list \<Rightarrow> MarketRow list" where
  "by_end_date rs = sort_key (\<lambda>r. the (mr_EndDate r)) (filter (\<lambda>r. mr_EndDate r \<noteq> None) rs) @ filter (\<lambda>r. mr_EndDate r = None) rs"

definition ListActiveForBackfill :: "time \<Rightarrow> int \<Rightarrow> duration \<Rightarrow> MarketTable \<Rightarrow> db_Market list" where
  "ListActiveForBackfill now limit retryAfter tbl =
     map marketFromSQLC (take (nat limit) (by_end_date (filter (backfillable now retryAfter) (mt_rows tbl))))"

definition ListActiveForCollection :: "MarketTable \<Rightarrow> db_Market list" where
  "ListActiveForCollection tbl =
     map marketFromSQLC (sort_key mr_ID (filter (\<lambda>r. not_gone r \<and>
       mr_BackfillStatus r \<in> {BackfillCompleted, BackfillPartialAPILimit}) (mt_rows tbl)))"

definition BeginBackfill :: "time \<Rightarrow> int \<Rightarrow> MarketTable \<Rightarrow> MarketTable" where
  "BeginBackfill now i =
     mt_update (\<lambda>r. mr_ID r = i \<and> mr_BackfillStatus r \<in> {BackfillPending, BackfillPartialAPILimit})
       (\<lambda>r. r\<lparr>mr_BackfillStatus := BackfillRunning, mr_StartedAt := Some now, mr_Attempts := mr_Attempts r + 1, mr_UpdatedAt := now\<rparr>)"

definition CompleteBackfill :: "time \<Rightarrow> int \<Rightarrow> string \<Rightarrow> time \<Rightarrow> time \<Rightarrow> MarketTable \<Rightarrow> MarketTable" where
  "CompleteBackfill now i status oldest newest =
     mt_update (\<lambda>r. mr_ID r = i)
       (\<lambda>r. r\<lparr>mr_BackfillStatus := status, mr_OldestFetchedAt := tsFromTime oldest, mr_NewestFetchedAt := tsFromTime newest,
             mr_CompletedAt := Some now, mr_LastError := None, mr_UpdatedAt := now\<rparr>)"

definition FailBackfill :: "time \<Rightarrow> int \<Rightarrow> string \<Rightarrow> MarketTable \<Rightarrow> MarketTable" where
  "FailBackfill now i errMsg =
     mt_update (\<lambda>r. mr_ID r = i)
       (\<lambda>r. r\<lparr>mr_BackfillStatus := BackfillFailed, mr_LastError := strPtr errMsg, mr_UpdatedAt := now\<rparr>)"

definition ResetStaleRunning :: "time \<Rightarrow> time \<Rightarrow> MarketTable \<Rightarrow> MarketTable" where
  "ResetStaleRunning now cutoff =
     mt_update (\<lambda>r. mr_BackfillStatus r = BackfillRunning \<and>
         (case (mr_StartedAt r, tsFromTime cutoff) of (Some t, Some c) \<Rightarrow> t < c | _ \<Rightarrow> False))
       (\<lambda>r. r\<lparr>mr_BackfillStatus := BackfillPending, mr_UpdatedAt := now\<rparr>)"

subsection \<open>Lookups and the collect cursor\<close>

definition GetByConditionID :: "string \<Rightarrow> MarketTable \<Rightarrow> db_Market option" where
  "GetByConditionID c tbl = map_option marketFromSQLC (mt_lookup c tbl)"

definition mt_find :: "int \<Rightarrow> MarketTable \<Rightarrow> MarketRow option" where
  "mt_find i tbl = find (\<lambda>r. mr_ID r = i) (mt_rows tbl)"

definition GetByID :: "int \<Rightarrow> MarketTable \<Rightarrow> db_Market option" where
  "GetByID i tbl = map_option marketFromSQLC (mt_find i tbl)"

definition UpdateCollectCursor :: "time \<Rightarrow> int \<Rightarrow> time \<Rightarrow> MarketTable \<Rightarrow> MarketTable" where
  "UpdateCollectCursor now i tradedAt tbl =
     (if IsZero tradedAt then tbl
      else mt_update (\<lambda>r. mr_ID r = i \<and> (case mr_LastCollectTradedAt r of None \<Rightarrow> True | Some c \<Rightarrow> c < tradedAt))
             (\<lambda>r. r\<lparr>mr_LastCollectTradedAt := Some tradedAt, mr_UpdatedAt := now\<rparr>) tbl)"

text \<open>\<open>None\<close> is the error of a market that is not there.\<close>

definition CollectCursor :: "int \<Rightarrow> MarketTable \<Rightarrow> time option" where
  "CollectCursor i tbl = map_option (\<lambda>r. tsTime (mr_LastCollectTradedAt r)) (mt_find i tbl)"

subsection \<open>The purge\<close>

definition ListSoftDeletedForPurge :: "time \<Rightarrow> int \<Rightarrow> MarketTable \<Rightarrow> db_Market list" where
  "ListSoftDeletedForPurge cutoff limit tbl =
     map marketFromSQLC (take (nat limit) (sort_key (\<lambda>r. the (mr_DeletedAt r))
       (filter (\<lambda>r. (case mr_DeletedAt r of None \<Rightarrow> False | Some d \<Rightarrow> d \<le> cutoff) \<and> mr_PurgedAt r = None) (mt_rows tbl))))"

definition MarkPurged :: "time \<Rightarrow> int \<Rightarrow> MarketTable \<Rightarrow> MarketTable" where
  "MarkPurged now i =
     mt_update (\<lambda>r. mr_ID r = i \<and> mr_PurgedAt r = None)
       (\<lambda>r. r\<lparr>mr_PurgedAt := Some now, mr_Active := False, mr_UpdatedAt := now\<rparr>)"

definition RequeueResumed :: "time \<Rightarrow> int \<Rightarrow> MarketTable \<Rightarrow> MarketTable" where
  "RequeueResumed now i =
     mt_update (\<lambda>r. mr_ID r = i)
       (\<lambda>r. r\<lparr>mr_Active := True, mr_DeletedAt := None, mr_BackfillStatus := BackfillPending, mr_UpdatedAt := now\<rparr>)"

end
