(* ===== verification/PgAggregates.thy ===== *)
theory PgAggregates
  imports Prelude
begin

text \<open>
  The aggregates of Postgres over columns of type double precision and timestamptz, as the queries
  of \<open>db/queries\<close> use them, with \<open>COALESCE(..., 0)\<close> for the empty column. Sums and averages are taken
  in the order of the list, which is that of the table; \<open>percentile_cont\<close> is computed in doubles.
\<close>

definition pg_sum :: "float64 list \<Rightarrow> float64" where
  "pg_sum xs = (case xs of [] \<Rightarrow> 0 | x # xs \<Rightarrow> foldl (+) x xs)"

definition pg_avg :: "float64 list \<Rightarrow> float64" where
  "pg_avg xs = (if xs = [] then 0 else foldl (+) 0 xs / of_i (int (length xs)))"

text \<open>The order of doubles puts NaN last.\<close>

definition pg_le :: "float64 \<Rightarrow> float64 \<Rightarrow> bool" where
  "pg_le x y \<longleftrightarrow> y = NaN \<or> (x \<noteq> NaN \<and> x \<le> y)"

fun pg_insert :: "float64 \<Rightarrow> float64 list \<Rightarrow> float64 list" where
  "pg_insert x [] = [x]"
| "pg_insert x (y # ys) = (if pg_le x y then x # y # ys else y # pg_insert x ys)"

definition pg_sort :: "float64 list \<Rightarrow> float64 list" where
  "pg_sort xs = foldr pg_insert xs []"

definition pg_max :: "float64 list \<Rightarrow> float64" where
  "pg_max xs = (if xs = [] then 0 else List.last (pg_sort xs))"

definition pg_min :: "float64 list \<Rightarrow> float64" where
  "pg_min xs = (if xs = [] then 0 else List.hd (pg_sort xs))"

text \<open>
  The rows around rank \<open>p (n - 1)\<close>, and the linear interpolation between them. Ranks are not
  negative, so truncation is the floor.
\<close>

definition percentile_cont :: "float64 \<Rightarrow> float64 list \<Rightarrow> float64" where
  "percentile_cont p xs =
     (if xs = [] then 0
      else let s = pg_sort xs;
               r = p * of_i (int (length xs) - 1);
               lo = f2i r;
               hi = (if of_i lo = r then lo else lo + 1)
           in if lo = hi then s ! nat lo
              else s ! nat lo + (r - of_i lo) * (s ! nat hi - s ! nat lo))"

definition ts_min :: "time list \<Rightarrow> time option" where
  "ts_min ts = (if ts = [] then None else Some (Min (set ts)))"

definition ts_max :: "time list \<Rightarrow> time option" where
  "ts_max ts = (if ts = [] then None else Some (Max (set ts)))"

end
