(* ===== verification/StrategyValue.thy ===== *)
theory StrategyValue
  imports StrategyPromotion TradeTable MarketTable PgAggregates
begin

text \<open>
  The ledger of shadow decisions and what reads it back: the table with its checks
  (\<open>shadow_decisions_repository.go\<close>, \<open>db/queries/strategy_shadow.sql\<close>), the value worker that measures
  a decision's price moves (package strategyvalue), the worker that copies outcomes (package
  strategyoutcome), the aggregates the promotion worker judges, and the adapters of
  \<open>strategy_phase_b.go\<close> and \<open>strategy_phase_c.go\<close> that join them. They are composed with the bus and
  the promotion gate into runs of the whole learning loop. Parameters: the JSON encoder, database
  faults, the clocks, the tables of trades, markets and alerts at each tick, and the conversion of
  SQL's numeric average and day count to a double. \<open>LIMIT\<close> without \<open>ORDER BY\<close> takes rows in the
  order of the table.
\<close>

subsection \<open>The table of shadow decisions\<close>

record ShadowRow =
  sr_ID :: int
  sr_StrategyName :: string
  sr_StrategyVersion :: string
  sr_ConditionID :: string
  sr_EventSlug :: string
  sr_Wallet :: string
  sr_CohortID :: "string option"
  sr_Side :: string
  sr_DecisionKind :: string
  sr_DecisionLevel :: string
  sr_Score :: float64
  sr_Confidence :: float64
  sr_ReasonsJson :: "string option"
  sr_FeaturesJson :: "string option"
  sr_ShadowOnly :: bool
  sr_FiredAt :: time
  sr_LinkedAlertDedupKey :: "string option"
  sr_ControlBucketKey :: string
  sr_Clv15m :: "float64 option"
  sr_Clv1h :: "float64 option"
  sr_Clv6h :: "float64 option"
  sr_Clv24h :: "float64 option"
  sr_OutcomeStatus :: "string option"

record ShadowTable =
  sht_rows :: "ShadowRow list"
  sht_next :: int

text \<open>What \<open>Record\<close> meets: \<open>json.Marshal\<close> (it fails on a NaN or an infinity), the connection, the
  database's clock.\<close>

record rec_env =
  re_jsonReasons :: "string list \<Rightarrow> string + string"
  re_jsonFeatures :: "features \<Rightarrow> string + string"
  re_fault :: "string option"
  re_now :: time

definition MarshalReasons :: "(string list \<Rightarrow> string + string) \<Rightarrow> string list \<Rightarrow> string + string option" where
  "MarshalReasons json reasons =
     (if reasons = [] then Inr None else case json reasons of Inl e \<Rightarrow> Inl e | Inr b \<Rightarrow> Inr (Some b))"

definition MarshalFeatures :: "(features \<Rightarrow> string + string) \<Rightarrow> features \<Rightarrow> string + string option" where
  "MarshalFeatures json features =
     (if features = Map.empty then Inr None else case json features of Inl e \<Rightarrow> Inl e | Inr b \<Rightarrow> Inr (Some b))"

text \<open>The two CHECK constraints of the table.\<close>

definition shadow_check :: "Decision \<Rightarrow> bool" where
  "shadow_check d \<longleftrightarrow>
     dc_Kind d \<in> {''standalone'', ''boost'', ''suppress'', ''degrade'', ''tag''} \<and>
     dc_Level d \<in> {''info'', ''warning'', ''critical'', ''hard'', ''none''}"

definition decision_row :: "time \<Rightarrow> int \<Rightarrow> string option \<Rightarrow> string option \<Rightarrow> Decision \<Rightarrow> ShadowRow" where
  "decision_row now i reasonsJSON featuresJSON d =
     \<lparr>sr_ID = i, sr_StrategyName = dc_StrategyName d, sr_StrategyVersion = dc_StrategyVersion d,
      sr_ConditionID = dc_ConditionID d, sr_EventSlug = dc_EventSlug d, sr_Wallet = dc_Wallet d,
      sr_CohortID = (if dc_CohortID d \<noteq> '''' then Some (dc_CohortID d) else None), sr_Side = dc_Side d,
      sr_DecisionKind = dc_Kind d, sr_DecisionLevel = dc_Level d, sr_Score = dc_Score d,
      sr_Confidence = dc_Confidence d, sr_ReasonsJson = reasonsJSON, sr_FeaturesJson = featuresJSON,
      sr_ShadowOnly = dc_ShadowOnly d, sr_FiredAt = now,
      sr_LinkedAlertDedupKey = (if dc_LinkedAlertDedupKey d \<noteq> '''' then Some (dc_LinkedAlertDedupKey d) else None),
      sr_ControlBucketKey = dc_ControlBucketKey d,
      sr_Clv15m = None, sr_Clv1h = None, sr_Clv6h = None, sr_Clv24h = None, sr_OutcomeStatus = None\<rparr>"

text \<open>An insert that violates a check has used up its id.\<close>

definition ShadowRecord :: "rec_env \<Rightarrow> Decision \<Rightarrow> ShadowTable \<Rightarrow> ShadowTable \<times> (string + int)" where
  "ShadowRecord e d tbl =
     (case MarshalReasons (re_jsonReasons e) (dc_Reasons d) of
        Inl err \<Rightarrow> (tbl, Inl err)
      | Inr reasonsJSON \<Rightarrow>
          (case MarshalFeatures (re_jsonFeatures e) (dc_Features d) of
             Inl err \<Rightarrow> (tbl, Inl err)
           | Inr featuresJSON \<Rightarrow>
               (case re_fault e of
                  Some err \<Rightarrow> (tbl, Inl err)
                | None \<Rightarrow>
                    (let i = sht_next tbl; tbl = tbl\<lparr>sht_next := i + 1\<rparr>
                     in if \<not> shadow_check d then (tbl, Inl ''check constraint'')
                        else (tbl\<lparr>sht_rows := sht_rows tbl @ [decision_row (re_now e) i reasonsJSON featuresJSON d]\<rparr>,
                              Inr i)))))"

definition sht_update :: "(ShadowRow \<Rightarrow> bool) \<Rightarrow> (ShadowRow \<Rightarrow> ShadowRow) \<Rightarrow> ShadowTable \<Rightarrow> ShadowTable" where
  "sht_update P f tbl = tbl\<lparr>sht_rows := map (\<lambda>r. if P r then f r else r) (sht_rows tbl)\<rparr>"

subsection \<open>The value worker: its rows, prices and updates\<close>

record PendingRow =
  pv_ID :: int
  pv_StrategyName :: string
  pv_ConditionID :: string
  pv_OutcomeToken :: string
  pv_Side :: string
  pv_BaselinePrice :: float64
  pv_FiredAt :: time
  pv_CLV15m :: "float64 option"
  pv_CLV1h :: "float64 option"
  pv_CLV6h :: "float64 option"
  pv_CLV24h :: "float64 option"

record Values =
  vl_CLV15m :: "float64 option"
  vl_CLV1h :: "float64 option"
  vl_CLV6h :: "float64 option"
  vl_CLV24h :: "float64 option"
  vl_Reversal15m :: "bool option"
  vl_OutcomeStatus :: "string option"

record sv_Config =
  vc_Enabled :: bool
  vc_Interval :: duration
  vc_BatchSize :: int
  vc_MaxAge :: duration

text \<open>The configuration the application wires.\<close>

definition sv_wired :: sv_Config where
  "sv_wired = \<lparr>vc_Enabled = True, vc_Interval = 15 * Minute, vc_BatchSize = 500, vc_MaxAge = 30 * 24 * Hour\<rparr>"

text \<open>
  One tick's surroundings: the faults of the three kinds of query (a fault of the market lookup
  counts as a missing market), the tables of trades and markets, the clock of the list query's
  cutoff and the worker's clock.
\<close>

record val_env =
  ve_listFault :: "string option"
  ve_marketFault :: "string \<Rightarrow> bool"
  ve_priceFault :: "string \<Rightarrow> time \<Rightarrow> string option"
  ve_updateFault :: "int \<Rightarrow> string option"
  ve_trades :: "TradeRow list"
  ve_markets :: MarketTable
  ve_now :: time
  ve_clock :: time

text \<open>The query lists the rows with an unset value fired after the cutoff, oldest first.\<close>

definition q_ListPendingValueRows :: "time \<Rightarrow> int \<Rightarrow> ShadowTable \<Rightarrow> ShadowRow list" where
  "q_ListPendingValueRows maxAge limit tbl =
     (case tsFromTime maxAge of
        None \<Rightarrow> []
      | Some c \<Rightarrow>
          take (nat limit) (sort_key sr_FiredAt
            (filter (\<lambda>r. (sr_Clv15m r = None \<or> sr_Clv1h r = None \<or> sr_Clv6h r = None \<or> sr_Clv24h r = None) \<and>
                         c < sr_FiredAt r) (sht_rows tbl))))"

text \<open>The adapter leaves \<open>OutcomeToken\<close> and \<open>BaselinePrice\<close> at their zero values.\<close>

definition toPending :: "ShadowRow \<Rightarrow> PendingRow" where
  "toPending r =
     \<lparr>pv_ID = sr_ID r, pv_StrategyName = sr_StrategyName r, pv_ConditionID = sr_ConditionID r,
      pv_OutcomeToken = '''', pv_Side = sr_Side r, pv_BaselinePrice = 0, pv_FiredAt = sr_FiredAt r,
      pv_CLV15m = sr_Clv15m r, pv_CLV1h = sr_Clv1h r, pv_CLV6h = sr_Clv6h r, pv_CLV24h = sr_Clv24h r\<rparr>"

definition ListPendingValueRows :: "val_env \<Rightarrow> duration \<Rightarrow> int \<Rightarrow> ShadowTable \<Rightarrow> string + PendingRow list" where
  "ListPendingValueRows e maxAge limit tbl =
     (case ve_listFault e of
        Some err \<Rightarrow> Inl err
      | None \<Rightarrow> Inr (map toPending (q_ListPendingValueRows (ve_now e - maxAge) (i32 limit) tbl)))"

text \<open>The two columns of \<open>PriceWindowStats\<close> the adapter reads: the count and the first price.\<close>

definition PriceWindowStats :: "int \<Rightarrow> string \<Rightarrow> time \<Rightarrow> TradeRow list \<Rightarrow> int \<times> float64" where
  "PriceWindowStats marketID outcomeToken since trades =
     (let ts = filter (\<lambda>t. tx_MarketID t = marketID \<and> tx_OutcomeToken t = outcomeToken \<and>
                  (case tsFromTime since of None \<Rightarrow> False | Some c \<Rightarrow> c \<le> tx_TradedAt t)) trades
      in (int (length ts), case sort_key tx_TradedAt ts of [] \<Rightarrow> 0 | t # _ \<Rightarrow> tx_Price t))"

definition FirstPriceAtOrAfter :: "val_env \<Rightarrow> string \<Rightarrow> string \<Rightarrow> time \<Rightarrow> string + float64 option" where
  "FirstPriceAtOrAfter e conditionID outcomeToken t =
     (case (if ve_marketFault e conditionID then None else GetByConditionID conditionID (ve_markets e)) of
        None \<Rightarrow> Inr None
      | Some m \<Rightarrow>
          (case ve_priceFault e conditionID t of
             Some err \<Rightarrow> Inl err
           | None \<Rightarrow>
               (case PriceWindowStats (dm_ID m) outcomeToken t (ve_trades e) of
                  (n, p) \<Rightarrow> if n = 0 then Inr None else Inr (Some p))))"

text \<open>\<open>COALESCE\<close>: a value that is set stays. The adapter passes no reversal flag.\<close>

definition coalesce :: "'a option \<Rightarrow> 'a option \<Rightarrow> 'a option" where
  "coalesce x y = (case x of None \<Rightarrow> y | Some v \<Rightarrow> Some v)"

definition UpdateShadowDecisionValues :: "int \<Rightarrow> Values \<Rightarrow> ShadowTable \<Rightarrow> ShadowTable" where
  "UpdateShadowDecisionValues i v =
     sht_update (\<lambda>r. sr_ID r = i)
       (\<lambda>r. r\<lparr>sr_Clv15m := coalesce (sr_Clv15m r) (vl_CLV15m v), sr_Clv1h := coalesce (sr_Clv1h r) (vl_CLV1h v),
              sr_Clv6h := coalesce (sr_Clv6h r) (vl_CLV6h v), sr_Clv24h := coalesce (sr_Clv24h r) (vl_CLV24h v),
              sr_OutcomeStatus := coalesce (sr_OutcomeStatus r) (vl_OutcomeStatus v)\<rparr>)"

definition UpdateValues :: "val_env \<Rightarrow> int \<Rightarrow> Values \<Rightarrow> ShadowTable \<Rightarrow> ShadowTable" where
  "UpdateValues e i v tbl =
     (case ve_updateFault e i of Some err \<Rightarrow> tbl | None \<Rightarrow> UpdateShadowDecisionValues i v tbl)"

subsection \<open>The value worker: one tick\<close>

definition defaultWindows :: "(string \<times> duration) list" where
  "defaultWindows = [(''15m'', 15 * Minute), (''1h'', Hour), (''6h'', 6 * Hour), (''24h'', 24 * Hour)]"

definition windowEligible :: "PendingRow \<Rightarrow> string \<times> duration \<Rightarrow> time \<Rightarrow> bool" where
  "windowEligible r win now \<longleftrightarrow> snd win \<le> t_sub now (pv_FiredAt r)"

definition alreadyHave :: "PendingRow \<Rightarrow> string \<Rightarrow> bool" where
  "alreadyHave r label =
     (if label = ''15m'' then pv_CLV15m r \<noteq> None
      else if label = ''1h'' then pv_CLV1h r \<noteq> None
      else if label = ''6h'' then pv_CLV6h r \<noteq> None
      else if label = ''24h'' then pv_CLV24h r \<noteq> None
      else False)"

definition signedMove :: "string \<Rightarrow> float64 \<Rightarrow> float64 \<Rightarrow> float64" where
  "signedMove side baseline ref =
     (if side = ''SELL'' \<or> side = ''NO'' then (baseline - ref) * fl 100 else (ref - baseline) * fl 100)"

definition set_window :: "string \<Rightarrow> float64 \<Rightarrow> Values \<Rightarrow> Values" where
  "set_window label move vals =
     (if label = ''15m'' then vals\<lparr>vl_CLV15m := Some move\<rparr>
      else if label = ''1h'' then vals\<lparr>vl_CLV1h := Some move\<rparr>
      else if label = ''6h'' then vals\<lparr>vl_CLV6h := Some move\<rparr>
      else if label = ''24h'' then vals\<lparr>vl_CLV24h := Some move\<rparr>
      else vals)"

text \<open>The loop over the windows; the last two components are \<open>any\<close> and \<open>first15m\<close>.\<close>

fun window_loop :: "val_env \<Rightarrow> PendingRow \<Rightarrow> time \<Rightarrow> (string \<times> duration) list \<Rightarrow> Values \<Rightarrow> bool \<Rightarrow> float64 option
    \<Rightarrow> Values \<times> bool \<times> float64 option" where
  "window_loop e r now [] vals any first15m = (vals, any, first15m)"
| "window_loop e r now (win # wins) vals any first15m =
     (if \<not> windowEligible r win now then window_loop e r now wins vals any first15m
      else if alreadyHave r (fst win) then window_loop e r now wins vals any first15m
      else case FirstPriceAtOrAfter e (pv_ConditionID r) (pv_OutcomeToken r) (pv_FiredAt r + snd win) of
             Inl err \<Rightarrow> window_loop e r now wins vals any first15m
           | Inr None \<Rightarrow> window_loop e r now wins vals any first15m
           | Inr (Some ref) \<Rightarrow>
               (let move = signedMove (pv_Side r) (pv_BaselinePrice r) ref
                in window_loop e r now wins (set_window (fst win) move vals) True
                     (if fst win = ''15m'' then Some move else first15m)))"

definition no_values :: Values where
  "no_values = \<lparr>vl_CLV15m = None, vl_CLV1h = None, vl_CLV6h = None, vl_CLV24h = None, vl_Reversal15m = None,
     vl_OutcomeStatus = None\<rparr>"

definition handleOne :: "val_env \<Rightarrow> (string \<times> duration) list \<Rightarrow> PendingRow \<Rightarrow> time \<Rightarrow> ShadowTable \<Rightarrow> ShadowTable" where
  "handleOne e windows r now tbl =
     (case window_loop e r now windows no_values False None of
        (vals, any, first15m) \<Rightarrow>
          (let vals = (case (first15m, vl_CLV1h vals) of
                         (Some a, Some b) \<Rightarrow> vals\<lparr>vl_Reversal15m := Some (0 < a \<and> b \<le> 0)\<rparr>
                       | _ \<Rightarrow> vals)
           in if \<not> any then tbl else UpdateValues e (pv_ID r) vals tbl))"

definition sv_Tick :: "sv_Config \<Rightarrow> val_env \<Rightarrow> ShadowTable \<Rightarrow> ShadowTable" where
  "sv_Tick cfg e tbl =
     (case ListPendingValueRows e (vc_MaxAge cfg) (vc_BatchSize cfg) tbl of
        Inl err \<Rightarrow> tbl
      | Inr rows \<Rightarrow> foldl (\<lambda>tbl r. handleOne e defaultWindows r (ve_clock e) tbl) tbl rows)"

subsection \<open>The outcome worker\<close>

text \<open>The columns of an alert row the outcome queries read.\<close>

record AlertOutcomeRow =
  ao_DedupKey :: string
  ao_OutcomeStatus :: "string option"
  ao_WinningOutcomeToken :: "string option"
  ao_WinningOutcomeLabel :: "string option"

record so_Row =
  so_ID :: int
  so_AlertOutcome :: string
  so_DedupKey :: string

record out_env =
  oe_listFault :: "string option"
  oe_standaloneFault :: "string option"
  oe_resolvedFault :: "string option"
  oe_updateFault :: "int \<Rightarrow> string option"
  oe_alerts :: "AlertOutcomeRow list"
  oe_closed :: "string \<Rightarrow> bool"

record out_cfg =
  oc_BatchSize :: int
  oc_standaloneEnabled :: bool
  oc_standaloneBatch :: int
  oc_resolveSide :: bool

text \<open>The join with the alerts on the dedup key, row by row of the ledger.\<close>

definition linked_alerts :: "AlertOutcomeRow list \<Rightarrow> ShadowTable \<Rightarrow> (ShadowRow \<times> AlertOutcomeRow) list" where
  "linked_alerts alerts tbl =
     concat (map (\<lambda>s. if sr_OutcomeStatus s = None \<and> sr_LinkedAlertDedupKey s \<notin> {None, Some ''''}
                      then map (\<lambda>a. (s, a)) (filter (\<lambda>a. Some (ao_DedupKey a) = sr_LinkedAlertDedupKey s) alerts)
                      else []) (sht_rows tbl))"

definition q_ListShadowRowsForOutcomeBackfill :: "int \<Rightarrow> AlertOutcomeRow list \<Rightarrow> ShadowTable \<Rightarrow> so_Row list" where
  "q_ListShadowRowsForOutcomeBackfill limit alerts tbl =
     map (\<lambda>(s, a). \<lparr>so_ID = sr_ID s, so_AlertOutcome = derefStr (ao_OutcomeStatus a),
                    so_DedupKey = derefStr (sr_LinkedAlertDedupKey s)\<rparr>)
       (take (nat limit) (filter (\<lambda>(s, a). ao_OutcomeStatus a \<notin> {None, Some ''pending'', Some ''''})
          (linked_alerts alerts tbl)))"

text \<open>Rows without an alert whose market is closed; \<open>mkt_closed\<close> is the table of markets by condition.\<close>

definition q_ListStandaloneShadowRows :: "int \<Rightarrow> (string \<Rightarrow> bool) \<Rightarrow> ShadowTable \<Rightarrow> so_Row list" where
  "q_ListStandaloneShadowRows limit mkt_closed tbl =
     map (\<lambda>s. \<lparr>so_ID = sr_ID s, so_AlertOutcome = ''unknown'', so_DedupKey = ''''\<rparr>)
       (take (nat limit) (filter (\<lambda>s. sr_OutcomeStatus s = None \<and> sr_LinkedAlertDedupKey s \<in> {None, Some ''''} \<and>
          mkt_closed (sr_ConditionID s)) (sht_rows tbl)))"

text \<open>\<open>equalCaseFold\<close> compares bytes, folding A to Z.\<close>

definition fold_byte :: "char \<Rightarrow> char" where
  "fold_byte c = (if CHR ''A'' \<le> c \<and> c \<le> CHR ''Z'' then char_of (of_char c + 32 :: nat) else c)"

fun fold_loop :: "string \<Rightarrow> string \<Rightarrow> bool" where
  "fold_loop (a # as) (b # bs) = (if fold_byte a \<noteq> fold_byte b then False else fold_loop as bs)"
| "fold_loop _ _ = True"

definition equalCaseFold :: "string \<Rightarrow> string \<Rightarrow> bool" where
  "equalCaseFold a b = (if length a \<noteq> length b then False else fold_loop a b)"

definition resolved_rows :: "int \<Rightarrow> AlertOutcomeRow list \<Rightarrow> ShadowTable \<Rightarrow> so_Row list" where
  "resolved_rows limit alerts tbl =
     concat (map (\<lambda>(s, a).
         if derefStr (ao_WinningOutcomeLabel a) = '''' \<or> sr_Side s = '''' then []
         else [\<lparr>so_ID = sr_ID s,
                so_AlertOutcome = (if equalCaseFold (derefStr (ao_WinningOutcomeLabel a)) (sr_Side s)
                                   then ''resolved_correct'' else ''resolved_wrong''),
                so_DedupKey = ''''\<rparr>])
       (take (nat limit) (filter (\<lambda>(s, a). ao_WinningOutcomeToken a \<notin> {None, Some ''''})
          (linked_alerts alerts tbl))))"

definition ListOutcomeRows :: "out_cfg \<Rightarrow> out_env \<Rightarrow> ShadowTable \<Rightarrow> string + so_Row list" where
  "ListOutcomeRows c e tbl =
     (case oe_listFault e of
        Some err \<Rightarrow> Inl err
      | None \<Rightarrow>
          Inr (q_ListShadowRowsForOutcomeBackfill (i32 (oc_BatchSize c)) (oe_alerts e) tbl
               @ (if oc_standaloneEnabled c \<and> oe_standaloneFault e = None
                  then q_ListStandaloneShadowRows (i32 (oc_standaloneBatch c)) (oe_closed e) tbl else [])
               @ (if oc_resolveSide c \<and> oe_resolvedFault e = None
                  then resolved_rows (i32 (oc_standaloneBatch c)) (oe_alerts e) tbl else [])))"

definition UpdateShadowOutcomeStatus :: "int \<Rightarrow> string \<Rightarrow> ShadowTable \<Rightarrow> ShadowTable" where
  "UpdateShadowOutcomeStatus i status =
     sht_update (\<lambda>r. sr_ID r = i \<and> sr_OutcomeStatus r = None) (\<lambda>r. r\<lparr>sr_OutcomeStatus := Some status\<rparr>)"

definition so_step :: "out_env \<Rightarrow> ShadowTable \<Rightarrow> so_Row \<Rightarrow> ShadowTable" where
  "so_step e tbl r =
     (if so_AlertOutcome r = '''' then tbl
      else case oe_updateFault e (so_ID r) of
             Some err \<Rightarrow> tbl
           | None \<Rightarrow> UpdateShadowOutcomeStatus (so_ID r) (so_AlertOutcome r) tbl)"

definition so_Tick :: "out_cfg \<Rightarrow> out_env \<Rightarrow> ShadowTable \<Rightarrow> ShadowTable" where
  "so_Tick c e tbl =
     (case ListOutcomeRows c e tbl of Inl err \<Rightarrow> tbl | Inr rows \<Rightarrow> foldl (so_step e) tbl rows)"

subsection \<open>The aggregates the promotion worker reads\<close>

text \<open>The version filter: \<open>NOT ILIKE '%...%'\<close> for the three words.\<close>

definition synthetic :: "string \<Rightarrow> bool" where
  "synthetic version \<longleftrightarrow>
     Contains (ToLower version) ''integration'' \<or> Contains (ToLower version) ''probe'' \<or>
     Contains (ToLower version) ''test''"

definition agg_rows :: "time \<Rightarrow> ShadowTable \<Rightarrow> ShadowRow list" where
  "agg_rows lookback_start tbl =
     (case tsFromTime lookback_start of
        None \<Rightarrow> []
      | Some c \<Rightarrow> filter (\<lambda>r. c \<le> sr_FiredAt r \<and> \<not> synthetic (sr_StrategyVersion r) \<and> sr_Clv6h r \<noteq> None)
                    (sht_rows tbl))"

definition reverses :: "ShadowRow \<Rightarrow> bool" where
  "reverses r \<longleftrightarrow> (case (sr_Clv15m r, sr_Clv1h r) of (Some a, Some b) \<Rightarrow> 0 < a \<and> b \<le> 0 | _ \<Rightarrow> False)"

text \<open>
  \<open>sn_ratio k n\<close> is the average of \<open>k\<close> ones among \<open>n\<close> numbers as a double, \<open>sn_days now t\<close> the days
  from \<open>t\<close> to \<open>now\<close>.
\<close>

record sql_num =
  sn_ratio :: "int \<Rightarrow> int \<Rightarrow> float64"
  sn_days :: "time \<Rightarrow> time \<Rightarrow> float64"

definition agg_median :: "ShadowRow list \<Rightarrow> float64" where
  "agg_median rows = percentile_cont (fl 0.5) (map the (filter (\<lambda>v. v \<noteq> None) (map sr_Clv6h rows)))"

definition agg_reversal :: "sql_num \<Rightarrow> ShadowRow list \<Rightarrow> float64" where
  "agg_reversal num rows = sn_ratio num (int (length (filter reverses rows))) (int (length rows))"

definition agg_per_day :: "sql_num \<Rightarrow> time \<Rightarrow> ShadowRow list \<Rightarrow> float64" where
  "agg_per_day num now rows =
     (let days = sn_days num now (Min (set (map sr_FiredAt rows)))
      in of_i (int (length rows)) / (if days < 1 then 1 else days))"

text \<open>\<open>GROUP BY\<close>: the keys in the order of their first row.\<close>

definition group_keys :: "(ShadowRow \<Rightarrow> 'k) \<Rightarrow> ShadowRow list \<Rightarrow> 'k list" where
  "group_keys key rows = rev (remdups (rev (map key rows)))"

definition AggregatePromotionSamples :: "sql_num \<Rightarrow> time \<Rightarrow> time \<Rightarrow> ShadowTable \<Rightarrow> Sample list" where
  "AggregatePromotionSamples num now lookback_start tbl =
     (let rows = agg_rows lookback_start tbl; key = (\<lambda>r. (sr_StrategyName r, sr_StrategyVersion r))
      in map (\<lambda>(name, version).
           (let g = filter (\<lambda>r. key r = (name, version)) rows
            in \<lparr>sa_StrategyName = name, sa_StrategyVersion = version, sa_SampleSize = int (length g),
                sa_MedianSignedMove6h = agg_median g, sa_Reversal15mRatio = agg_reversal num g,
                sa_AlertsPerDay = agg_per_day num now g\<rparr>)) (group_keys key rows))"

text \<open>A bucket query in one dimension, in the order of strategy, version and key.\<close>

definition bucket_samples :: "string \<Rightarrow> (ShadowRow \<Rightarrow> string) \<Rightarrow> sql_num \<Rightarrow> time \<Rightarrow> time \<Rightarrow> ShadowTable \<Rightarrow> BucketSample list" where
  "bucket_samples dimension bucket num now lookback_start tbl =
     (let rows = agg_rows lookback_start tbl;
          key = (\<lambda>r. (sr_StrategyName r, sr_StrategyVersion r, bucket r))
      in sort_key bs_StrategyName (sort_key bs_StrategyVersion (sort_key bs_Key
           (map (\<lambda>(name, version, k).
              (let g = filter (\<lambda>r. key r = (name, version, k)) rows
               in \<lparr>bs_StrategyName = name, bs_StrategyVersion = version, bs_Dimension = dimension, bs_Key = k,
                   bs_SampleSize = int (length g), bs_MedianSignedMove6h = agg_median g,
                   bs_Reversal15mRatio = agg_reversal num g, bs_AlertsPerDay = agg_per_day num now g\<rparr>))
              (group_keys key rows)))))"

definition linkage :: "ShadowRow \<Rightarrow> string" where
  "linkage r = (if sr_LinkedAlertDedupKey r = None \<or> sr_LinkedAlertDedupKey r = Some '''' then ''standalone'' else ''linked'')"

record rev_env =
  rn_samplesFault :: "string option"
  rn_levelFault :: "string option"
  rn_linkFault :: "string option"
  rn_writeFails :: "Review \<Rightarrow> bool"
  rn_num :: sql_num
  rn_now :: time
  rn_dbnow :: time

definition ListPromotionSamples :: "rev_env \<Rightarrow> duration \<Rightarrow> ShadowTable \<Rightarrow> string + Sample list" where
  "ListPromotionSamples e lookback tbl =
     (case rn_samplesFault e of
        Some err \<Rightarrow> Inl err
      | None \<Rightarrow> Inr (AggregatePromotionSamples (rn_num e) (rn_dbnow e) (rn_now e - lookback) tbl))"

definition ListPromotionBucketSamples :: "rev_env \<Rightarrow> duration \<Rightarrow> ShadowTable \<Rightarrow> string + BucketSample list" where
  "ListPromotionBucketSamples e lookback tbl =
     (case rn_levelFault e of
        Some err \<Rightarrow> Inl err
      | None \<Rightarrow>
          (case rn_linkFault e of
             Some err \<Rightarrow> Inl err
           | None \<Rightarrow>
               Inr (bucket_samples ''decision_level'' sr_DecisionLevel (rn_num e) (rn_dbnow e) (rn_now e - lookback) tbl
                  @ bucket_samples ''linkage'' linkage (rn_num e) (rn_dbnow e) (rn_now e - lookback) tbl)))"

definition review_input :: "pr_Config \<Rightarrow> rev_env \<Rightarrow> ShadowTable \<Rightarrow> tick_in" where
  "review_input c e tbl =
     \<lparr>ti_samples = ListPromotionSamples e (pc_Lookback c) tbl,
      ti_buckets = ListPromotionBucketSamples e (pc_Lookback c) tbl,
      ti_fails = rn_writeFails e, ti_now = rn_now e\<rparr>"

subsection \<open>Runs of the learning loop\<close>

text \<open>
  A detector decides (the bus writes the row through the repository), the value worker ticks, the
  outcome worker ticks, the promotion worker reviews, the process restarts with a fresh gate.
\<close>

record loop_state =
  ls_table :: ShadowTable
  ls_promo :: pr_Worker

datatype loop_event =
    Decide time rec_env Decision
  | Measure sv_Config val_env
  | Settle out_cfg out_env
  | Judge rev_env
  | Reboot

definition loop_init :: "pr_Config \<Rightarrow> loop_state" where
  "loop_init c = \<lparr>ls_table = \<lparr>sht_rows = [], sht_next = 1\<rparr>, ls_promo = pr_New c\<rparr>"

fun loop_step :: "pr_Config \<Rightarrow> bus_Config \<Rightarrow> loop_state \<Rightarrow> loop_event \<Rightarrow> loop_state" where
  "loop_step c cfg s (Decide now e d) =
     (case fst (bus_Record (bus_New (cfg\<lparr>bc_PromotionGate := Some (Allow (ls_promo s))\<rparr>)
                 (Some (\<lambda>r. snd (ShadowRecord e r (ls_table s))))) now d) of
        None \<Rightarrow> s
      | Some r \<Rightarrow> s\<lparr>ls_table := fst (ShadowRecord e r (ls_table s))\<rparr>)"
| "loop_step c cfg s (Measure vc e) = s\<lparr>ls_table := sv_Tick vc e (ls_table s)\<rparr>"
| "loop_step c cfg s (Settle oc e) = s\<lparr>ls_table := so_Tick oc e (ls_table s)\<rparr>"
| "loop_step c cfg s (Judge e) = s\<lparr>ls_promo := fst (pr_Tick (ls_promo s) (review_input c e (ls_table s)))\<rparr>"
| "loop_step c cfg s Reboot = s\<lparr>ls_promo := pr_New c\<rparr>"

definition loop_run :: "pr_Config \<Rightarrow> bus_Config \<Rightarrow> loop_event list \<Rightarrow> loop_state \<Rightarrow> loop_state" where
  "loop_run c cfg es s = foldl (loop_step c cfg) s es"

subsection \<open>Values are written once\<close>

text \<open>A set value stays; a row stays, with everything but its values unchanged.\<close>

definition kept :: "'a option \<Rightarrow> 'a option \<Rightarrow> bool" where
  "kept x y \<longleftrightarrow> x = None \<or> y = x"

definition row_le :: "ShadowRow \<Rightarrow> ShadowRow \<Rightarrow> bool" where
  "row_le r r' \<longleftrightarrow>
     kept (sr_Clv15m r) (sr_Clv15m r') \<and> kept (sr_Clv1h r) (sr_Clv1h r') \<and> kept (sr_Clv6h r) (sr_Clv6h r') \<and>
     kept (sr_Clv24h r) (sr_Clv24h r') \<and> kept (sr_OutcomeStatus r) (sr_OutcomeStatus r') \<and>
     r' = r\<lparr>sr_Clv15m := sr_Clv15m r', sr_Clv1h := sr_Clv1h r', sr_Clv6h := sr_Clv6h r',
            sr_Clv24h := sr_Clv24h r', sr_OutcomeStatus := sr_OutcomeStatus r'\<rparr>"

definition table_le :: "ShadowTable \<Rightarrow> ShadowTable \<Rightarrow> bool" where
  "table_le t t' \<longleftrightarrow> (\<exists>new. list_all2 row_le (sht_rows t) (take (length (sht_rows t)) (sht_rows t')) \<and>
     sht_rows t' = take (length (sht_rows t)) (sht_rows t') @ new)"

lemma kept_refl [simp]: "kept x x"
  by (simp add: kept_def)

lemma kept_None [simp]: "kept None y"
  by (simp add: kept_def)

lemma kept_coalesce [simp]: "kept x (coalesce x y)"
  by (cases x) (simp_all add: kept_def coalesce_def)

lemma kept_trans: "kept x y \<Longrightarrow> kept y z \<Longrightarrow> kept x z"
  by (auto simp: kept_def)

lemma row_le_refl [simp]: "row_le r r"
  by (simp add: row_le_def)

lemma row_le_trans: "row_le a b \<Longrightarrow> row_le b c \<Longrightarrow> row_le a c"
proof -
  assume 1: "row_le a b" and 2: "row_le b c"
  have b: "b = a\<lparr>sr_Clv15m := sr_Clv15m b, sr_Clv1h := sr_Clv1h b, sr_Clv6h := sr_Clv6h b,
            sr_Clv24h := sr_Clv24h b, sr_OutcomeStatus := sr_OutcomeStatus b\<rparr>"
    and c: "c = b\<lparr>sr_Clv15m := sr_Clv15m c, sr_Clv1h := sr_Clv1h c, sr_Clv6h := sr_Clv6h c,
            sr_Clv24h := sr_Clv24h c, sr_OutcomeStatus := sr_OutcomeStatus c\<rparr>"
    using 1 2 by (simp_all add: row_le_def)
  have "c = a\<lparr>sr_Clv15m := sr_Clv15m c, sr_Clv1h := sr_Clv1h c, sr_Clv6h := sr_Clv6h c,
            sr_Clv24h := sr_Clv24h c, sr_OutcomeStatus := sr_OutcomeStatus c\<rparr>"
    by (subst c, subst b) simp
  then show ?thesis using 1 2 unfolding row_le_def by (meson kept_trans)
qed

lemma table_le_iff:
  "table_le t t' \<longleftrightarrow> (\<exists>old new. list_all2 row_le (sht_rows t) old \<and> sht_rows t' = old @ new)"
  unfolding table_le_def
  by (metis append_eq_conv_conj append_take_drop_id list_all2_lengthD)

lemma table_le_refl [simp]: "table_le t t"
  unfolding table_le_iff by (rule exI [of _ "sht_rows t"]) (simp add: list.rel_refl)

lemma table_le_trans: "table_le a b \<Longrightarrow> table_le b c \<Longrightarrow> table_le a c"
proof -
  assume "table_le a b" "table_le b c"
  then obtain o1 n1 o2 n2 where 1: "list_all2 row_le (sht_rows a) o1" "sht_rows b = o1 @ n1"
    and 2: "list_all2 row_le (sht_rows b) o2" "sht_rows c = o2 @ n2"
    unfolding table_le_iff by blast
  from 2(1) obtain o3 n3 where 3: "o2 = o3 @ n3" "list_all2 row_le o1 o3"
    unfolding 1(2) list_all2_append1 by blast
  have "list_all2 row_le (sht_rows a) o3" by (rule list_all2_trans [OF row_le_trans 1(1) 3(2)])
  then show ?thesis unfolding table_le_iff using 2(2) 3(1) by auto
qed

lemma sht_update_le: "(\<And>r. row_le r (f r)) \<Longrightarrow> table_le t (sht_update P f t)"
  unfolding table_le_iff sht_update_def
  by (rule exI [of _ "map (\<lambda>r. if P r then f r else r) (sht_rows t)"]) (simp add: list_all2_conv_all_nth)

lemma foldl_le: "(\<And>t r. table_le t (f t r)) \<Longrightarrow> table_le t (foldl f t rs)"
  by (induction rs arbitrary: t) (auto intro: table_le_trans)

lemma ShadowRecord_le: "table_le t (fst (ShadowRecord e d t))"
proof -
  have "table_le t (t\<lparr>sht_next := i\<rparr>)" for i
    unfolding table_le_iff by (rule exI [of _ "sht_rows t"]) (simp add: list.rel_refl)
  moreover have "table_le t (t\<lparr>sht_next := i, sht_rows := sht_rows t @ [r]\<rparr>)" for i r
    unfolding table_le_iff by (rule exI [of _ "sht_rows t"]) (simp add: list.rel_refl)
  ultimately show ?thesis
    by (auto simp: ShadowRecord_def Let_def split: sum.splits option.splits)
qed

lemma UpdateValues_le: "table_le t (UpdateValues e i v t)"
  unfolding UpdateValues_def UpdateShadowDecisionValues_def
  by (auto split: option.splits intro!: sht_update_le simp: row_le_def)

lemma handleOne_le: "table_le t (handleOne e ws r now t)"
  by (auto simp: handleOne_def Let_def UpdateValues_le split: prod.splits)

lemma sv_Tick_le: "table_le t (sv_Tick c e t)"
  by (auto simp: sv_Tick_def intro: foldl_le handleOne_le split: sum.splits)

text \<open>The outcome update applies to rows without a status.\<close>

lemma UpdateOutcome_eq:
  "UpdateShadowOutcomeStatus i status t = sht_update (\<lambda>r. sr_ID r = i)
      (\<lambda>r. r\<lparr>sr_OutcomeStatus := coalesce (sr_OutcomeStatus r) (Some status)\<rparr>) t"
  by (auto simp: UpdateShadowOutcomeStatus_def sht_update_def coalesce_def split: option.splits)

lemma UpdateOutcome_le: "table_le t (UpdateShadowOutcomeStatus i status t)"
  unfolding UpdateOutcome_eq by (auto intro!: sht_update_le simp: row_le_def)

lemma so_step_le: "table_le t (so_step e t r)"
  by (auto simp: so_step_def UpdateOutcome_le split: option.splits)

lemma so_Tick_le: "table_le t (so_Tick c e t)"
  by (auto simp: so_Tick_def intro: foldl_le so_step_le split: sum.splits)

lemma loop_step_le: "table_le (ls_table s) (ls_table (loop_step c cfg s ev))"
  by (cases ev) (auto simp: ShadowRecord_le sv_Tick_le so_Tick_le split: option.splits)

lemma loop_run_le: "table_le (ls_table s) (ls_table (loop_run c cfg es s))"
  unfolding loop_run_def
  by (induction es arbitrary: s) (auto intro: table_le_trans loop_step_le)

text \<open>C37. Nothing measured is ever rewritten, no row disappears or moves, and nothing but its values changes,
  whatever the events of the learning loop.\<close>

theorem values_written_once:
  "table_le (ls_table (loop_run c cfg es s)) (ls_table (loop_run c cfg (es @ es') s))"
  using loop_run_le [of "loop_run c cfg es s" c cfg es'] by (simp add: loop_run_def)

subsection \<open>What one row is given\<close>

text \<open>The move measured for one window, when there is one.\<close>

definition measured :: "val_env \<Rightarrow> PendingRow \<Rightarrow> time \<Rightarrow> string \<Rightarrow> duration \<Rightarrow> float64 option" where
  "measured e r now label delta =
     (if \<not> windowEligible r (label, delta) now \<or> alreadyHave r label then None
      else case FirstPriceAtOrAfter e (pv_ConditionID r) (pv_OutcomeToken r) (pv_FiredAt r + delta) of
             Inr (Some ref) \<Rightarrow> Some (signedMove (pv_Side r) (pv_BaselinePrice r) ref)
           | _ \<Rightarrow> None)"

lemma window_loop_step:
  "window_loop e r now (win # wins) vals any first15m =
     (case measured e r now (fst win) (snd win) of
        None \<Rightarrow> window_loop e r now wins vals any first15m
      | Some move \<Rightarrow> window_loop e r now wins (set_window (fst win) move vals) True
                       (if fst win = ''15m'' then Some move else first15m))"
  by (auto simp: measured_def Let_def split: sum.splits option.splits)

lemma window_loop_values:
  "window_loop e r now defaultWindows no_values False None =
     (let m = measured e r now; a = m ''15m'' (15 * Minute); b = m ''1h'' Hour; c = m ''6h'' (6 * Hour);
          d = m ''24h'' (24 * Hour)
      in (no_values\<lparr>vl_CLV15m := a, vl_CLV1h := b, vl_CLV6h := c, vl_CLV24h := d\<rparr>,
          \<not> (a = None \<and> b = None \<and> c = None \<and> d = None), a))"
  unfolding defaultWindows_def Let_def window_loop_step
  by (simp add: set_window_def no_values_def split: option.split)

lemma coalesce_None [simp]: "coalesce x None = x"
  by (cases x) (simp_all add: coalesce_def)

lemma UpdateValues_reversal [simp]: "UpdateValues e i (v\<lparr>vl_Reversal15m := x\<rparr>) t = UpdateValues e i v t"
  by (simp add: UpdateValues_def UpdateShadowDecisionValues_def split: option.split)

text \<open>The values written to a row: for each window that has passed since the decision and is not yet
  filled, the move from the baseline to the first price at or after the window's end, in cents, in
  the direction of the decision's side; nothing for a window without a price. A row keeps the
  values it has, other rows are not touched, and a failed write changes nothing.\<close>

theorem handleOne_spec:
  "sht_rows (handleOne e defaultWindows r now t) =
     map (\<lambda>s. if sr_ID s = pv_ID r \<and> ve_updateFault e (pv_ID r) = None
              then s\<lparr>sr_Clv15m := coalesce (sr_Clv15m s) (measured e r now ''15m'' (15 * Minute)),
                     sr_Clv1h := coalesce (sr_Clv1h s) (measured e r now ''1h'' Hour),
                     sr_Clv6h := coalesce (sr_Clv6h s) (measured e r now ''6h'' (6 * Hour)),
                     sr_Clv24h := coalesce (sr_Clv24h s) (measured e r now ''24h'' (24 * Hour))\<rparr>
              else s) (sht_rows t)"
proof -
  let ?m = "measured e r now"
  let ?a = "?m ''15m'' (15 * Minute)" and ?b = "?m ''1h'' Hour" and ?c = "?m ''6h'' (6 * Hour)" and ?d = "?m ''24h'' (24 * Hour)"
  let ?v = "no_values\<lparr>vl_CLV15m := ?a, vl_CLV1h := ?b, vl_CLV6h := ?c, vl_CLV24h := ?d\<rparr>"
  have h: "handleOne e defaultWindows r now t =
      (if ?a = None \<and> ?b = None \<and> ?c = None \<and> ?d = None then t else UpdateValues e (pv_ID r) ?v t)"
    unfolding handleOne_def window_loop_values Let_def
    by (cases ?a; cases ?b) (simp_all add: UpdateValues_reversal)
  show ?thesis
  proof (cases "?a = None \<and> ?b = None \<and> ?c = None \<and> ?d = None")
    case True
    then have "?a = None" "?b = None" "?c = None" "?d = None" by blast+
    moreover have "s\<lparr>sr_Clv15m := sr_Clv15m s, sr_Clv1h := sr_Clv1h s, sr_Clv6h := sr_Clv6h s, sr_Clv24h := sr_Clv24h s\<rparr> = s"
      for s :: ShadowRow by (cases s) simp
    ultimately show ?thesis unfolding h by (simp only: coalesce_None simp_thms if_True if_cancel list.map_ident)
  next
    case False
    then show ?thesis unfolding h
      by (cases "ve_updateFault e (pv_ID r)")
        (simp_all only: if_False UpdateValues_def option.case UpdateShadowDecisionValues_def sht_update_def no_values_def,
         simp_all)
  qed
qed

subsection \<open>No strategy is ever promoted\<close>

text \<open>The adapter asks for the price of the outcome with the empty token.\<close>

lemma no_price:
  assumes "list_all (\<lambda>t. tx_OutcomeToken t \<noteq> '''') (ve_trades e)"
  shows "FirstPriceAtOrAfter e c '''' t \<noteq> Inr (Some p)"
proof -
  have "filter (\<lambda>t. tx_MarketID t = m \<and> tx_OutcomeToken t = '''' \<and> P t) (ve_trades e) = []" for m P
    using assms by (auto simp: filter_empty_conv list_all_iff)
  then show ?thesis
    by (auto simp: FirstPriceAtOrAfter_def PriceWindowStats_def split: option.splits)
qed

lemma measured_None:
  "list_all (\<lambda>t. tx_OutcomeToken t \<noteq> '''') (ve_trades e) \<Longrightarrow> measured e (toPending r) now label delta = None"
  using no_price [of e] by (auto simp: measured_def toPending_def split: sum.splits option.splits)

lemma sv_Tick_idle:
  assumes "list_all (\<lambda>t. tx_OutcomeToken t \<noteq> '''') (ve_trades e)"
  shows "sv_Tick c e t = t"
proof -
  have h: "handleOne e defaultWindows (toPending r) now t = t" for r now t
    unfolding handleOne_def window_loop_values Let_def measured_None [OF assms] by simp
  have "foldl (\<lambda>t r. handleOne e defaultWindows r now t) t (map toPending rs) = t" for rs now
    by (induction rs) (simp_all add: h)
  then show ?thesis by (auto simp: sv_Tick_def ListPendingValueRows_def split: option.splits)
qed

text \<open>Nothing is measured and nothing is live.\<close>

definition unmeasured :: "ShadowRow \<Rightarrow> bool" where
  "unmeasured r \<longleftrightarrow> sr_ShadowOnly r \<and> sr_Clv15m r = None \<and> sr_Clv1h r = None \<and> sr_Clv6h r = None \<and> sr_Clv24h r = None"

definition stuck :: "loop_state \<Rightarrow> bool" where
  "stuck s \<longleftrightarrow> list_all unmeasured (sht_rows (ls_table s)) \<and> pw_state (ls_promo s) = Map.empty"

text \<open>Every trade the value worker looks at names its outcome.\<close>

definition tokens_set :: "loop_event \<Rightarrow> bool" where
  "tokens_set ev \<longleftrightarrow> (case ev of Measure vc e \<Rightarrow> list_all (\<lambda>t. tx_OutcomeToken t \<noteq> '''') (ve_trades e) | _ \<Rightarrow> True)"

lemma no_samples:
  "list_all unmeasured (sht_rows t) \<Longrightarrow> AggregatePromotionSamples num now since t = []"
  by (auto simp: AggregatePromotionSamples_def agg_rows_def Let_def group_keys_def filter_empty_conv list_all_iff
      unmeasured_def split: option.splits)

lemma Judge_stuck:
  assumes "list_all unmeasured (sht_rows t)" "pw_state w = Map.empty"
  shows "pw_state (fst (pr_Tick w (review_input c e t))) = Map.empty"
  using assms by (auto simp: pr_Tick_def review_input_def ListPromotionSamples_def no_samples Let_def split: option.splits)

lemma Record_stuck: "list_all unmeasured (sht_rows t) \<Longrightarrow> dc_ShadowOnly d \<Longrightarrow>
    list_all unmeasured (sht_rows (fst (ShadowRecord e d t)))"
  by (auto simp: ShadowRecord_def Let_def unmeasured_def decision_row_def split: sum.splits option.splits)

lemma sht_update_unmeasured:
  "(\<And>r. unmeasured (f r) = unmeasured r) \<Longrightarrow> list_all unmeasured (sht_rows t) \<Longrightarrow>
   list_all unmeasured (sht_rows (sht_update P f t))"
  by (auto simp: sht_update_def list_all_iff)

lemma so_step_stuck: "list_all unmeasured (sht_rows t) \<Longrightarrow> list_all unmeasured (sht_rows (so_step e t r))"
  by (auto simp: so_step_def UpdateShadowOutcomeStatus_def unmeasured_def split: option.splits
      intro!: sht_update_unmeasured)

lemma so_Tick_stuck: "list_all unmeasured (sht_rows t) \<Longrightarrow> list_all unmeasured (sht_rows (so_Tick c e t))"
proof -
  have "list_all unmeasured (sht_rows t) \<Longrightarrow> list_all unmeasured (sht_rows (foldl (so_step e) t rs))" for rs
    by (induction rs arbitrary: t) (auto intro: so_step_stuck)
  then show "list_all unmeasured (sht_rows t) \<Longrightarrow> list_all unmeasured (sht_rows (so_Tick c e t))"
    by (auto simp: so_Tick_def split: sum.splits)
qed

lemma stuck_Allow: "stuck s \<Longrightarrow> \<not> Allow (ls_promo s) strategy"
  by (simp add: stuck_def Allow_def)

lemma step_stuck: "stuck s \<Longrightarrow> tokens_set ev \<Longrightarrow> stuck (loop_step c cfg s ev)"
proof (cases ev)
  case (Decide now e d)
  assume s: "stuck s"
  let ?b = "bus_New (cfg\<lparr>bc_PromotionGate := Some (Allow (ls_promo s))\<rparr>)
                 (Some (\<lambda>r. snd (ShadowRecord e r (ls_table s))))"
  have "dc_ShadowOnly r" if "fst (bus_Record ?b now d) = Some r" for r
    using Record_live [OF that] stuck_Allow [OF s] by (auto simp: gate_open_def bus_New_def)
  then show ?thesis using s Decide by (auto simp: stuck_def Record_stuck split: option.splits)
qed (auto simp: stuck_def tokens_set_def sv_Tick_idle so_Tick_stuck Judge_stuck pr_New_def)

lemma run_stuck: "stuck s \<Longrightarrow> list_all tokens_set es \<Longrightarrow> stuck (loop_run c cfg es s)"
  unfolding loop_run_def
  by (induction es arbitrary: s) (auto intro: step_stuck)

text \<open>C3. No strategy is ever promoted. The value worker's pending rows come without their outcome token,
  so it asks for trades of the outcome with the empty token and finds none; no value is ever
  filled in, the aggregates are empty, every review round clears the gate, and every row stays
  shadow-only - whatever the detectors record, the market does, the thresholds say and however
  long the loop runs.\<close>

theorem no_strategy_ever_promoted:
  assumes "list_all tokens_set es"
  shows "list_all unmeasured (sht_rows (ls_table (loop_run c cfg es (loop_init c)))) \<and>
    \<not> Allow (ls_promo (loop_run c cfg es (loop_init c))) strategy"
proof -
  have "stuck (loop_init c)" by (simp add: stuck_def loop_init_def pr_New_def)
  from run_stuck [OF this assms] show ?thesis using stuck_Allow by (auto simp: stuck_def)
qed

text \<open>A decision on a market with a trade after each window, two value ticks and a review between
  them: the row is there, nothing is measured, the gate is closed.\<close>

definition sv_rec :: rec_env where
  "sv_rec = \<lparr>re_jsonReasons = (\<lambda>rs. Inr ''[]''), re_jsonFeatures = (\<lambda>f. Inr ''{}''), re_fault = None, re_now = Hour\<rparr>"

definition sv_market :: UpsertMarketInput where
  "sv_market = \<lparr>um_ConditionID = ''c'', um_Slug = ''s'', um_Question = ''q'', um_EventSlug = ''e'', um_EventTitle = ''t'',
     um_StartDate = 1, um_EndDate = 1000 * Hour, um_Closed = False, um_CategoryIDs = []\<rparr>"

definition sv_trade :: "string \<Rightarrow> TradeRow" where
  "sv_trade token = new_row (30 * Hour) 1 ''k''
     \<lparr>it_MarketID = 1, it_TraderID = None, it_OutcomeToken = token, it_Side = ''BUY'', it_Price = Fin (3 / 4),
      it_SizeShares = Fin 100, it_NotionalUSD = Fin 75, it_TradedAt = 30 * Hour, it_ExternalID = ''x'', it_TxHash = ''''\<rparr>"

definition sv_env :: "string \<Rightarrow> val_env" where
  "sv_env token = \<lparr>ve_listFault = None, ve_marketFault = (\<lambda>c. False), ve_priceFault = (\<lambda>c t. None),
     ve_updateFault = (\<lambda>i. None), ve_trades = [sv_trade token],
     ve_markets = \<lparr>mt_rows = [new_market_row 0 1 sv_market], mt_next = 2, mt_links = [], mt_outcomes = Map.empty\<rparr>,
     ve_now = 40 * Hour, ve_clock = 40 * Hour\<rparr>"

definition sv_rev :: rev_env where
  "sv_rev = \<lparr>rn_samplesFault = None, rn_levelFault = None, rn_linkFault = None, rn_writeFails = (\<lambda>r. False),
     rn_num = \<lparr>sn_ratio = (\<lambda>k n. of_i k / of_i n), sn_days = (\<lambda>now t. Hours (t_sub now t) / Fin 24)\<rparr>,
     rn_now = 40 * Hour, rn_dbnow = 40 * Hour\<rparr>"

definition sv_events :: "loop_event list" where
  "sv_events = [Decide Hour sv_rec ex_decision, Measure sv_wired (sv_env ''token''), Judge sv_rev, Measure sv_wired (sv_env ''token'')]"

lemma sv_decided:
  "sht_rows (ls_table (loop_step ex_pr_cfg ex_bus_cfg (loop_init ex_pr_cfg) (Decide Hour sv_rec ex_decision))) =
     [decision_row Hour 1 None None (ex_decision\<lparr>dc_ShadowOnly := True\<rparr>)]"
  by (simp add: Record_row bus_New_def ShouldEvaluate_def IsShadowOnly_def gate_open_def ex_bus_cfg_def Allow_def
      ex_decision_def IsZero_def zero_time_def loop_init_def pr_New_def ShadowRecord_def MarshalReasons_def
      MarshalFeatures_def sv_rec_def shadow_check_def Let_def)

lemma sv_tokens: "list_all tokens_set sv_events"
  by (simp add: sv_events_def tokens_set_def sv_env_def sv_trade_def new_row_def)

theorem no_strategy_ever_promoted_witness:
  "length (sht_rows (ls_table (loop_run ex_pr_cfg ex_bus_cfg sv_events (loop_init ex_pr_cfg)))) = 1 \<and>
   list_all unmeasured (sht_rows (ls_table (loop_run ex_pr_cfg ex_bus_cfg sv_events (loop_init ex_pr_cfg)))) \<and>
   \<not> Allow (ls_promo (loop_run ex_pr_cfg ex_bus_cfg sv_events (loop_init ex_pr_cfg))) ''cheaptail''"
proof -
  have "sv_Tick c (sv_env ''token'') t = t" for c t
    by (rule sv_Tick_idle) (simp add: sv_env_def sv_trade_def new_row_def)
  then have "length (sht_rows (ls_table (loop_run ex_pr_cfg ex_bus_cfg sv_events (loop_init ex_pr_cfg)))) = 1"
    using sv_decided by (simp add: loop_run_def sv_events_def del: loop_step.simps(1))
  then show ?thesis using no_strategy_ever_promoted [OF sv_tokens] by blast
qed

text \<open>With the token and the baseline on the pending row, the same trade yields a move of 25 cents.\<close>

lemma move_with_token:
  "measured (sv_env ''token'')
     ((toPending (decision_row Hour 1 None None ex_decision))\<lparr>pv_OutcomeToken := ''token'', pv_BaselinePrice := Fin (1 / 2)\<rparr>)
     (40 * Hour) ''6h'' (6 * Hour) = Some (Fin 25)"
  by code_simp

end
