(* ===== verification/Ingest.thy ===== *)
theory Ingest
  imports MarketTable Catalog GoFmt
begin

text \<open>
  From the Data API to the trade table: the paging client (\<open>dataapi/client.go\<close>), the write-through
  (\<open>persist.go\<close>) and the per-market pull (\<open>collect.go\<close>). Parameters: the HTTP call as a function from
  the query to an error or a page, \<open>strconv.FormatFloat\<close>, the trader upsert, and what the database
  does in one call.
\<close>

subsection \<open>The Data API client\<close>

record dataTrade =
  dx_TransactionHash :: string
  dx_ConditionID :: string
  dx_Asset :: string
  dx_Side :: string
  dx_Size :: float64
  dx_Price :: float64
  dx_Timestamp :: int
  dx_ProxyWallet :: string
  dx_ID :: string

record MinValueFilter =
  vf_Type :: string
  vf_Amount :: float64

record ListTradesOpts =
  lo_Market :: string
  lo_Since :: time
  lo_Limit :: int
  lo_MaxPages :: int
  lo_MinValue :: "MinValueFilter option"

definition defaultPageSize :: int where "defaultPageSize = 100"
definition maxPageSize :: int where "maxPageSize = 500"
definition MaxUpstreamOffset :: int where "MaxUpstreamOffset = 3000"
definition defaultMaxPages :: int where "defaultMaxPages = 50"

definition filter_valid :: "string \<Rightarrow> bool" where
  "filter_valid f \<longleftrightarrow> f = ''CASH'' \<or> f = ''TOKENS''"

type_synonym url_values = "(string \<times> string) list"
type_synonym trades_get = "url_values \<Rightarrow> string + dataTrade list"

definition buildTradesQuery :: "(float64 \<Rightarrow> string) \<Rightarrow> ListTradesOpts \<Rightarrow> int \<Rightarrow> int \<Rightarrow> string + url_values" where
  "buildTradesQuery ff opts pageSize offset =
     (let q = [(''market'', lo_Market opts), (''limit'', fmt_d pageSize), (''offset'', fmt_d offset)]
      in case lo_MinValue opts of
           None \<Rightarrow> Inr q
         | Some v \<Rightarrow>
             if \<not> filter_valid (vf_Type v) then Inl (''dataapi: invalid filterType '' @ fmt_q (vf_Type v) @ '' (allowed: CASH, TOKENS)'')
             else Inr (q @ [(''filterType'', vf_Type v), (''filterAmount'', ff (vf_Amount v))]))"

definition mapSide :: "string \<Rightarrow> string" where
  "mapSide s = (if s = ''BUY'' \<or> s = ''buy'' then ''BUY'' else if s = ''SELL'' \<or> s = ''sell'' then ''SELL'' else s)"

definition dx_time :: "dataTrade \<Rightarrow> time" where
  "dx_time t = dx_Timestamp t * Second"

definition to_trade :: "string \<Rightarrow> dataTrade \<Rightarrow> Trade" where
  "to_trade market t =
     \<lparr>td_ID = dx_ID t, td_Market = market, td_Token = dx_Asset t, td_Side = mapSide (dx_Side t), td_Price = dx_Price t,
      td_Size = dx_Size t, td_Timestamp = dx_time t, td_TxHash = dx_TransactionHash t, td_Taker = dx_ProxyWallet t,
      td_Maker = ''''\<rparr>"

definition too_early :: "ListTradesOpts \<Rightarrow> dataTrade \<Rightarrow> bool" where
  "too_early opts t \<longleftrightarrow> \<not> IsZero (lo_Since opts) \<and> dx_time t < lo_Since opts"

fun list_pages :: "trades_get \<Rightarrow> (float64 \<Rightarrow> string) \<Rightarrow> ListTradesOpts \<Rightarrow> int \<Rightarrow> nat \<Rightarrow> int \<Rightarrow> Trade list
    \<Rightarrow> string + Trade list" where
  "list_pages get ff opts pageSize 0 offset out = Inr out"
| "list_pages get ff opts pageSize (Suc n) offset out =
     (if MaxUpstreamOffset < offset then Inr out
      else case buildTradesQuery ff opts pageSize offset of
             Inl e \<Rightarrow> Inl e
           | Inr q \<Rightarrow>
               (case get q of
                  Inl e \<Rightarrow> Inl (''dataapi /trades market='' @ lo_Market opts @ '' offset='' @ fmt_d offset @ '': '' @ e)
                | Inr batch \<Rightarrow>
                    if batch = [] then Inr out
                    else
                      (let stop = list_ex (too_early opts) batch;
                           out = out @ map (to_trade (lo_Market opts)) (filter (\<lambda>t. \<not> too_early opts t) batch)
                       in if stop \<or> int (length batch) < pageSize then Inr out
                          else list_pages get ff opts pageSize n (offset + pageSize) out)))"

definition page_size :: "int \<Rightarrow> int" where
  "page_size limit =
     (let s = (if limit \<le> 0 then defaultPageSize else limit)
      in if maxPageSize < s then maxPageSize else s)"

definition ListTradesSince :: "trades_get \<Rightarrow> (float64 \<Rightarrow> string) \<Rightarrow> ListTradesOpts \<Rightarrow> string + Trade list" where
  "ListTradesSince get ff opts =
     (if lo_Market opts = '''' then Inl ''dataapi: market required''
      else
        (let maxPages = (if lo_MaxPages opts \<le> 0 then defaultMaxPages else lo_MaxPages opts)
         in list_pages get ff opts (page_size (lo_Limit opts)) (nat maxPages) 0 []))"

definition ErrOffsetCapExceeded :: string where
  "ErrOffsetCapExceeded = ''dataapi: offset exceeds upstream cap''"

definition ListTradesPage :: "trades_get \<Rightarrow> string \<Rightarrow> int \<Rightarrow> int \<Rightarrow> string + Trade list" where
  "ListTradesPage get market offset limit =
     (if market = '''' then Inl ''dataapi: market required''
      else if offset < 0 then Inl (''dataapi: offset must be >= 0, got '' @ fmt_d offset)
      else if MaxUpstreamOffset < offset then Inl ErrOffsetCapExceeded
      else case get [(''market'', market), (''limit'', fmt_d (page_size limit)), (''offset'', fmt_d offset)] of
             Inl e \<Rightarrow> Inl (''dataapi /trades market='' @ market @ '' offset='' @ fmt_d offset @ '': '' @ e)
           | Inr batch \<Rightarrow> Inr (map (to_trade market) batch))"

subsection \<open>The write-through\<close>

record IngestDB =
  in_markets :: MarketTable
  in_trades :: TradeTable

text \<open>
  What the database answers during one call: whether the market lookup works, the trader upsert,
  the time and the failures of the inserts by dedup key, and the failure of the cursor update.
\<close>

record persist_env =
  pe_lookupOK :: bool
  pe_traders :: "string list \<Rightarrow> string + (string \<times> int) list"
  pe_dbNow :: time
  pe_fault :: "string \<Rightarrow> string option"
  pe_cursorErr :: "string option"
  pe_digest :: "int \<Rightarrow> string \<Rightarrow> int option \<Rightarrow> time \<Rightarrow> float64 \<Rightarrow> float64 \<Rightarrow> string \<Rightarrow> string"

fun unique_wallets :: "string list \<Rightarrow> Trade list \<Rightarrow> string list" where
  "unique_wallets seen [] = []"
| "unique_wallets seen (t # ts) =
     (if td_Taker t = '''' \<or> td_Taker t \<in> set seen then unique_wallets seen ts
      else td_Taker t # unique_wallets (td_Taker t # seen) ts)"

definition ps_uniqueWallets :: "Trade list \<Rightarrow> string list" where
  "ps_uniqueWallets trades = unique_wallets [] trades"

definition insert_input :: "int \<Rightarrow> (string \<rightharpoonup> int) \<Rightarrow> Trade \<Rightarrow> InsertTradeInput" where
  "insert_input mid idByWallet t =
     \<lparr>it_MarketID = mid, it_TraderID = idByWallet (td_Taker t), it_OutcomeToken = td_Token t, it_Side = td_Side t,
      it_Price = td_Price t, it_SizeShares = td_Size t, it_NotionalUSD = NotionalUSD t,
      it_TradedAt = td_Timestamp t, it_ExternalID = td_ID t, it_TxHash = td_TxHash t\<rparr>"

definition newest :: "Trade list \<Rightarrow> time" where
  "newest trades = foldl (\<lambda>n t. if n < td_Timestamp t then td_Timestamp t else n) zero_time trades"

definition PersistTrades :: "persist_env \<Rightarrow> Market \<Rightarrow> Trade list \<Rightarrow> IngestDB \<Rightarrow> IngestDB \<times> string option" where
  "PersistTrades pe m trades db =
     (if trades = [] then (db, None)
      else case (if pe_lookupOK pe then GetByConditionID (mk_ID m) (in_markets db) else None) of
        None \<Rightarrow> (db, None)
      | Some dbMarket \<Rightarrow>
          (case pe_traders pe (ps_uniqueWallets trades) of
             Inl e \<Rightarrow> (db, Some (''upsert traders: '' @ e))
           | Inr persisted \<Rightarrow>
               (let mid = dm_ID dbMarket;
                    idByWallet = foldl (\<lambda>f tr. f(fst tr \<mapsto> snd tr)) Map.empty persisted
                in case UpsertBatch (pe_dbNow pe) (pe_fault pe) (DedupKeyForTrade (pe_digest pe))
                          (map (insert_input mid idByWallet) trades) (in_trades db) of
                     (tbl, res, Some e) \<Rightarrow> (db\<lparr>in_trades := tbl\<rparr>, Some (''upsert trades: '' @ e))
                   | (tbl, res, None) \<Rightarrow>
                       (let db = db\<lparr>in_trades := tbl\<rparr>; n = newest trades
                        in if IsZero n then (db, None)
                           else case pe_cursorErr pe of
                                  Some e \<Rightarrow> (db, Some (''update collect cursor: '' @ e))
                                | None \<Rightarrow> (db\<lparr>in_markets := UpdateCollectCursor (pe_dbNow pe) mid n (in_markets db)\<rparr>, None)))))"

definition LatestTradedAt :: "persist_env \<Rightarrow> string \<Rightarrow> IngestDB \<Rightarrow> string + time" where
  "LatestTradedAt pe conditionID db =
     (case (if pe_lookupOK pe then GetByConditionID conditionID (in_markets db) else None) of
        None \<Rightarrow> Inr zero_time
      | Some m \<Rightarrow>
          (case pe_cursorErr pe of
             Some e \<Rightarrow> Inl e
           | None \<Rightarrow> (case CollectCursor (dm_ID m) (in_markets db) of None \<Rightarrow> Inl ''collect cursor'' | Some t \<Rightarrow> Inr t)))"

subsection \<open>The collect loop\<close>

text \<open>
  \<open>co_Persist\<close> says whether the write-through and its cursor are wired (production); \<open>co_observer\<close> is
  the inline observer of the memory mode, guarded against panics.
\<close>

record 's col_Loop =
  co_Concurrency :: int
  co_BootstrapLookback :: duration
  co_Persist :: bool
  co_observer :: "('s \<Rightarrow> Market \<Rightarrow> Trade \<Rightarrow> 's \<times> string option) option"

definition co_New :: "int \<Rightarrow> duration \<Rightarrow> bool \<Rightarrow> ('s \<Rightarrow> Market \<Rightarrow> Trade \<Rightarrow> 's \<times> string option) option \<Rightarrow> 's col_Loop" where
  "co_New concurrency lookback persist obs =
     \<lparr>co_Concurrency = (if concurrency \<le> 0 then 8 else concurrency),
      co_BootstrapLookback = (if lookback \<le> 0 then Hour else lookback), co_Persist = persist, co_observer = obs\<rparr>"

record pull_env =
  pu_now :: time
  pu_get :: trades_get
  pu_ff :: "float64 \<Rightarrow> string"
  pu_pe :: persist_env

definition lookback :: "'s col_Loop \<Rightarrow> pull_env \<Rightarrow> Market \<Rightarrow> IngestDB \<Rightarrow> time" where
  "lookback l pu m db =
     (if co_Persist l
      then (case LatestTradedAt (pu_pe pu) (mk_ID m) db of
              Inl e \<Rightarrow> pu_now pu - co_BootstrapLookback l
            | Inr ts \<Rightarrow> if \<not> IsZero ts then ts + Second else pu_now pu - co_BootstrapLookback l)
      else pu_now pu - co_BootstrapLookback l)"

definition observeWithRecover :: "('s \<Rightarrow> Market \<Rightarrow> Trade \<Rightarrow> 's \<times> string option) \<Rightarrow> Market \<Rightarrow> 's \<Rightarrow> Trade \<Rightarrow> 's" where
  "observeWithRecover obs m s t = fst (obs s m t)"

definition pull :: "'s col_Loop \<Rightarrow> pull_env \<Rightarrow> Market \<Rightarrow> IngestDB \<times> 's \<Rightarrow> IngestDB \<times> 's" where
  "pull l pu m st =
     (case ListTradesSince (pu_get pu) (pu_ff pu)
             \<lparr>lo_Market = mk_ID m, lo_Since = lookback l pu m (fst st), lo_Limit = 0, lo_MaxPages = 0, lo_MinValue = None\<rparr> of
        Inl e \<Rightarrow> st
      | Inr trades \<Rightarrow>
          if trades = [] then st
          else
            (let trades = sort_key td_Timestamp trades;
                 db = (if co_Persist l then fst (PersistTrades (pu_pe pu) m trades (fst st)) else fst st)
             in (db, case co_observer l of None \<Rightarrow> snd st
                     | Some obs \<Rightarrow> foldl (observeWithRecover obs m) (snd st) trades)))"

text \<open>One tick over the markets of the snapshot, in the order in which their pulls run.\<close>

fun co_tick :: "'s col_Loop \<Rightarrow> (Market \<Rightarrow> pull_env) \<Rightarrow> Market list \<Rightarrow> IngestDB \<times> 's \<Rightarrow> IngestDB \<times> 's" where
  "co_tick l env [] st = st"
| "co_tick l env (m # ms) st =
     (if \<not> IsTradable m (pu_now (env m)) then co_tick l env ms st else co_tick l env ms (pull l (env m) m st))"

end
