(* ===== verification/MarketLife.thy ===== *)
theory MarketLife
  imports MarketTable
begin

text \<open>
  The life of a market row: every statement of the market repository as a step on the table, what no
  sequence of steps can break, and the soft-delete reaper (package sanity).
\<close>

subsection \<open>Steps on the table\<close>

datatype mt_op =
    MoUpsert time "string option" UpsertMarketInput
  | MoInactive time "string list" "int list"
  | MoOutcome int string string
  | MoBegin time int
  | MoComplete time int bool time time
  | MoFail time int string
  | MoReset time time
  | MoCursor time int time
  | MoPurge time int
  | MoRequeue time int

fun mt_step :: "MarketTable \<Rightarrow> mt_op \<Rightarrow> MarketTable" where
  "mt_step tbl (MoUpsert n fault m) = fst (upsertOne n fault m tbl)"
| "mt_step tbl (MoInactive n seen scope) = fst (MarkSeenInactive n seen scope tbl)"
| "mt_step tbl (MoOutcome i tok label) = UpsertOutcome i tok label tbl"
| "mt_step tbl (MoBegin n i) = BeginBackfill n i tbl"
| "mt_step tbl (MoComplete n i partial oldest latest) =
     CompleteBackfill n i (if partial then BackfillPartialAPILimit else BackfillCompleted) oldest latest tbl"
| "mt_step tbl (MoFail n i e) = FailBackfill n i e tbl"
| "mt_step tbl (MoReset n cutoff) = ResetStaleRunning n cutoff tbl"
| "mt_step tbl (MoCursor n i t) = UpdateCollectCursor n i t tbl"
| "mt_step tbl (MoPurge n i) = MarkPurged n i tbl"
| "mt_step tbl (MoRequeue n i) = RequeueResumed n i tbl"

definition mt_empty :: MarketTable where
  "mt_empty = \<lparr>mt_rows = [], mt_next = 1, mt_links = [], mt_outcomes = Map.empty\<rparr>"

definition mt_run :: "mt_op list \<Rightarrow> MarketTable" where
  "mt_run ops = foldl mt_step mt_empty ops"

subsection \<open>The invariant\<close>

definition row_sane :: "MarketRow \<Rightarrow> bool" where
  "row_sane r \<longleftrightarrow>
     mr_BackfillStatus r \<in> {BackfillPending, BackfillRunning, BackfillCompleted, BackfillPartialAPILimit, BackfillFailed} \<and>
     (mr_Active r \<longrightarrow> mr_DeletedAt r = None) \<and>
     (mr_BackfillStatus r = BackfillRunning \<longrightarrow> mr_StartedAt r \<noteq> None \<and> 0 < mr_Attempts r) \<and>
     (mr_BackfillStatus r \<in> {BackfillCompleted, BackfillPartialAPILimit} \<longrightarrow> mr_CompletedAt r \<noteq> None \<and> mr_LastError r = None) \<and>
     0 \<le> mr_Attempts r"

definition mt_inv :: "MarketTable \<Rightarrow> bool" where
  "mt_inv tbl \<longleftrightarrow> distinct (map mr_ID (mt_rows tbl)) \<and> distinct (map mr_ConditionID (mt_rows tbl)) \<and>
     (\<forall>r \<in> set (mt_rows tbl). mr_ID r < mt_next tbl \<and> row_sane r)"

text \<open>What a row keeps: its identity, a purge, and a cursor and an attempt count that do not go back.\<close>

definition mr_follows :: "MarketRow \<Rightarrow> MarketRow \<Rightarrow> bool" where
  "mr_follows r r' \<longleftrightarrow> mr_ID r' = mr_ID r \<and> mr_ConditionID r' = mr_ConditionID r \<and> mr_CreatedAt r' = mr_CreatedAt r \<and>
     (mr_PurgedAt r \<noteq> None \<longrightarrow> mr_PurgedAt r' = mr_PurgedAt r) \<and> mr_Attempts r \<le> mr_Attempts r' \<and>
     (case mr_LastCollectTradedAt r of None \<Rightarrow> True | Some c \<Rightarrow> (\<exists>c'. mr_LastCollectTradedAt r' = Some c' \<and> c \<le> c'))"

definition mt_follows :: "MarketTable \<Rightarrow> MarketTable \<Rightarrow> bool" where
  "mt_follows tbl tbl' \<longleftrightarrow> (\<forall>i r. mt_find i tbl = Some r \<longrightarrow> (\<exists>r'. mt_find i tbl' = Some r' \<and> mr_follows r r'))"

lemma mr_follows_refl [simp]: "mr_follows r r"
  by (auto simp: mr_follows_def split: option.splits)

lemma mr_follows_trans: "mr_follows a b \<Longrightarrow> mr_follows b c \<Longrightarrow> mr_follows a c"
  by (fastforce simp: mr_follows_def split: option.splits)

lemma mt_follows_refl [simp]: "mt_follows tbl tbl"
  by (auto simp: mt_follows_def)

lemma mt_follows_trans: "mt_follows a b \<Longrightarrow> mt_follows b c \<Longrightarrow> mt_follows a c"
  unfolding mt_follows_def using mr_follows_trans by blast

lemma mt_find_Some: "mt_find i tbl = Some r \<Longrightarrow> r \<in> set (mt_rows tbl) \<and> mr_ID r = i"
  by (auto simp: mt_find_def find_Some_iff)

lemma mt_find_mem: "mt_inv tbl \<Longrightarrow> r \<in> set (mt_rows tbl) \<Longrightarrow> mt_find (mr_ID r) tbl = Some r"
  by (simp add: mt_inv_def mt_find_def find_key_mem)

lemma mt_find_update:
  "(\<And>r. mr_ID (f r) = mr_ID r) \<Longrightarrow> mt_find i (mt_update P f tbl) = map_option (\<lambda>r. if P r then f r else r) (mt_find i tbl)"
  by (simp add: mt_find_def mt_update_def find_key_map)

text \<open>An update step that keeps rows sane and lets them follow keeps the table.\<close>

lemma mt_update_keeps:
  assumes "mt_inv tbl" "\<And>r. P r \<Longrightarrow> mr_follows r (f r)" "\<And>r. P r \<Longrightarrow> row_sane r \<Longrightarrow> row_sane (f r)"
    and k: "\<And>r. mr_ID (f r) = mr_ID r" "\<And>r. mr_ConditionID (f r) = mr_ConditionID r"
  shows "mt_inv (mt_update P f tbl)" "mt_follows tbl (mt_update P f tbl)"
proof -
  have "mr_ID \<circ> (\<lambda>r. if P r then f r else r) = mr_ID" "mr_ConditionID \<circ> (\<lambda>r. if P r then f r else r) = mr_ConditionID"
    by (auto simp: fun_eq_iff k)
  then show "mt_inv (mt_update P f tbl)" using assms(1,3) k by (auto simp: mt_inv_def mt_update_def)
  show "mt_follows tbl (mt_update P f tbl)"
    using assms(2) by (auto simp: mt_follows_def mt_find_update k)
qed

text \<open>The parts of the table an invariant does not read.\<close>

lemma mt_inv_parts [simp]: "mt_inv (tbl\<lparr>mt_links := l\<rparr>) = mt_inv tbl" "mt_inv (tbl\<lparr>mt_outcomes := oc\<rparr>) = mt_inv tbl"
  "mt_find i (tbl\<lparr>mt_links := l\<rparr>) = mt_find i tbl" "mt_find i (tbl\<lparr>mt_outcomes := oc\<rparr>) = mt_find i tbl"
  "mt_find i (tbl\<lparr>mt_next := k\<rparr>) = mt_find i tbl"
  by (simp_all add: mt_inv_def mt_find_def)

lemma mt_inv_next: "mt_inv tbl \<Longrightarrow> mt_next tbl \<le> k \<Longrightarrow> mt_inv (tbl\<lparr>mt_next := k\<rparr>)"
  by (force simp: mt_inv_def)

lemma mt_follows_parts: "mt_follows tbl (tbl'\<lparr>mt_links := l\<rparr>) = mt_follows tbl tbl'"
  "mt_follows tbl (tbl'\<lparr>mt_next := k\<rparr>) = mt_follows tbl tbl'" "mt_follows tbl (tbl'\<lparr>mt_outcomes := oc\<rparr>) = mt_follows tbl tbl'"
  by (simp_all add: mt_follows_def)

lemma UpsertMarket_keeps:
  assumes "mt_inv tbl"
  shows "mt_inv (fst (UpsertMarket n m tbl)) \<and> mt_follows tbl (fst (UpsertMarket n m tbl))"
proof (cases "mt_lookup (um_ConditionID m) tbl")
  case None
  have new: "um_ConditionID m \<notin> mr_ConditionID ` set (mt_rows tbl)"
    using None by (auto simp: mt_lookup_def find_None_iff)
  have "mt_inv (tbl\<lparr>mt_rows := mt_rows tbl @ [new_market_row n (mt_next tbl) m], mt_next := mt_next tbl + 1\<rparr>)"
    using assms new by (auto simp: mt_inv_def new_market_row_def row_sane_def backfill_states less_le)
  moreover have "mt_follows tbl (tbl\<lparr>mt_rows := mt_rows tbl @ [new_market_row n (mt_next tbl) m], mt_next := mt_next tbl + 1\<rparr>)"
    by (auto simp: mt_follows_def mt_find_def find_append_Some)
  ultimately show ?thesis using None by (simp add: UpsertMarket_def Let_def)
next
  case (Some r)
  let ?u = "mt_update (\<lambda>r. mr_ConditionID r = um_ConditionID m) (seen_row n m) tbl"
  have u: "mt_inv ?u \<and> mt_follows tbl ?u"
    by (rule conjI; rule mt_update_keeps [OF assms]) (auto simp: seen_row_def mr_follows_def row_sane_def split: option.splits)
  moreover have "mt_next ?u = mt_next tbl" by (simp add: mt_update_def)
  ultimately show ?thesis using Some mt_inv_next [of ?u "mt_next tbl + 1"] by (simp add: UpsertMarket_def mt_follows_parts)
qed

lemma upsertOne_keeps:
  assumes "mt_inv tbl"
  shows "mt_inv (fst (upsertOne n fault m tbl)) \<and> mt_follows tbl (fst (upsertOne n fault m tbl))"
  using UpsertMarket_keeps [OF assms, of n m] assms
  by (auto simp: upsertOne_def mt_follows_parts split: option.splits prod.splits)

lemma mt_step_keeps:
  assumes "mt_inv tbl"
  shows "mt_inv (mt_step tbl op) \<and> mt_follows tbl (mt_step tbl op)"
proof (cases op)
  case (MoUpsert n fault m)
  then show ?thesis using upsertOne_keeps [OF assms] by simp
next
  case (MoOutcome i tok label)
  then show ?thesis using assms by (simp add: UpsertOutcome_def mt_follows_parts)
next
  case (MoInactive n seen scope)
  then show ?thesis unfolding MoInactive mt_step.simps MarkSeenInactive_def Let_def
    using assms by (auto intro!: mt_update_keeps [OF assms] simp: mr_follows_def row_sane_def split: option.splits)
qed (auto simp: BeginBackfill_def CompleteBackfill_def FailBackfill_def ResetStaleRunning_def UpdateCollectCursor_def
      MarkPurged_def RequeueResumed_def assms intro!: mt_update_keeps [OF assms]
      simp: mr_follows_def row_sane_def backfill_states split: option.splits)

lemma mt_steps_keep:
  assumes "mt_inv tbl"
  shows "mt_inv (foldl mt_step tbl ops) \<and> mt_follows tbl (foldl mt_step tbl ops)"
  using assms
proof (induction ops arbitrary: tbl)
  case (Cons op ops)
  have s: "mt_inv (mt_step tbl op)" "mt_follows tbl (mt_step tbl op)" using mt_step_keeps [OF Cons.prems] by blast+
  show ?case using Cons.IH [OF s(1)] mt_follows_trans [OF s(2)] by simp
qed simp

lemma mt_run_inv: "mt_inv (mt_run ops)"
  using mt_steps_keep [of mt_empty ops] by (simp add: mt_run_def mt_empty_def mt_inv_def)

subsection \<open>The listings\<close>

text \<open>A listed market is the row of that id, active and neither deleted nor purged.\<close>

definition listed_live :: "MarketTable \<Rightarrow> db_Market \<Rightarrow> bool" where
  "listed_live tbl m \<longleftrightarrow> (\<exists>r. mt_find (dm_ID m) tbl = Some r \<and> m = marketFromSQLC r \<and> not_gone r)"

lemma by_end_date_set [simp]: "set (by_end_date rs) = set rs"
  by (auto simp: by_end_date_def)

lemma backfill_listed:
  assumes "mt_inv tbl" "m \<in> set (ListActiveForBackfill n k ra tbl)"
  shows "\<exists>r. mt_find (dm_ID m) tbl = Some r \<and> m = marketFromSQLC r \<and> backfillable n ra r"
proof -
  obtain r where r: "r \<in> set (mt_rows tbl)" "backfillable n ra r" "m = marketFromSQLC r"
    using assms(2) by (auto simp: ListActiveForBackfill_def dest!: in_set_takeD)
  then show ?thesis using mt_find_mem [OF assms(1) r(1)] by (auto simp: marketFromSQLC_def)
qed

lemma collection_listed:
  assumes "mt_inv tbl" "m \<in> set (ListActiveForCollection tbl)"
  shows "listed_live tbl m"
proof -
  obtain r where r: "r \<in> set (mt_rows tbl)" "not_gone r" "m = marketFromSQLC r"
    using assms(2) by (auto simp: ListActiveForCollection_def)
  then show ?thesis using mt_find_mem [OF assms(1) r(1)] by (auto simp: listed_live_def marketFromSQLC_def)
qed

text \<open>C16. The life of a market row: after any sequence of statements the ids and the condition ids are unique, every
  row is sane (a known status; no soft-delete mark on an active row; a start time on a running one; a
  completion time and no error on a finished one), whatever follows keeps every row with its identity
  and its purge mark and never moves its cursor or its attempts back, and both listings hold only
  rows that are active, not soft-deleted and not purged.\<close>

theorem market_life:
  "let tbl = mt_run ops in
     distinct (map mr_ID (mt_rows tbl)) \<and> distinct (map mr_ConditionID (mt_rows tbl)) \<and> list_all row_sane (mt_rows tbl) \<and>
     mt_follows tbl (mt_run (ops @ later)) \<and> list_all (listed_live tbl) (ListActiveForBackfill n k ra tbl) \<and>
     list_all (listed_live tbl) (ListActiveForCollection tbl)"
proof -
  have inv: "mt_inv (mt_run ops)" by (rule mt_run_inv)
  have "mt_follows (mt_run ops) (mt_run (ops @ later))"
    using mt_steps_keep [OF inv, of later] by (simp add: mt_run_def)
  moreover have "list_all (listed_live (mt_run ops)) (ListActiveForBackfill n k ra (mt_run ops))"
    using backfill_listed [OF inv] by (fastforce simp: list_all_iff listed_live_def backfillable_def)
  moreover have "list_all (listed_live (mt_run ops)) (ListActiveForCollection (mt_run ops))"
    using collection_listed [OF inv] by (auto simp: list_all_iff)
  ultimately show ?thesis using inv by (simp add: mt_inv_def list_all_iff)
qed

text \<open>The statements that can take a market out of the completed state.\<close>

fun reopens :: "int \<Rightarrow> mt_op \<Rightarrow> bool" where
  "reopens i (MoComplete n j partial oldest latest) \<longleftrightarrow> j = i \<and> partial"
| "reopens i (MoFail n j e) \<longleftrightarrow> j = i"
| "reopens i (MoRequeue n j) \<longleftrightarrow> j = i"
| "reopens i op \<longleftrightarrow> False"

lemma completed_step:
  assumes "mt_find i tbl = Some r" "mr_BackfillStatus r = BackfillCompleted" "\<not> reopens i op"
  shows "\<exists>r'. mt_find i (mt_step tbl op) = Some r' \<and> mr_BackfillStatus r' = BackfillCompleted"
proof -
  have i: "mr_ID r = i" using mt_find_Some [OF assms(1)] by simp
  show ?thesis
  proof (cases op)
    case (MoUpsert n fault m)
    then show ?thesis using assms(1,2)
      by (auto simp: upsertOne_def UpsertMarket_def mt_find_update seen_row_def Let_def mt_find_def find_append_Some
        split: option.splits prod.splits) (simp_all flip: mt_find_def add: mt_find_update seen_row_def)
  next
    case (MoInactive n seen scope)
    then show ?thesis using assms(1,2) by (auto simp: MarkSeenInactive_def Let_def mt_find_update)
  qed (use assms i in \<open>auto simp: UpsertOutcome_def BeginBackfill_def CompleteBackfill_def FailBackfill_def ResetStaleRunning_def
    UpdateCollectCursor_def MarkPurged_def RequeueResumed_def mt_find_update backfill_states\<close>)
qed

lemma completed_steps:
  assumes "mt_find i tbl = Some r" "mr_BackfillStatus r = BackfillCompleted" "list_all (\<lambda>op. \<not> reopens i op) ops"
  shows "\<exists>r'. mt_find i (foldl mt_step tbl ops) = Some r' \<and> mr_BackfillStatus r' = BackfillCompleted"
  using assms
proof (induction ops arbitrary: tbl r)
  case (Cons op ops)
  then show ?case using completed_step [of i tbl r op] by fastforce
qed simp

text \<open>A completed market is never backfilled again: whatever happens to it short of a requeue by the reaper (or a
  late completion or failure of another backfill run) - disappearing from the sweep, being
  soft-deleted, resurfacing in a later sweep - it stays completed and no listing for the backfill
  contains it, so the history it traded while it was gone is not fetched.\<close>

theorem completed_never_refetched:
  assumes "mt_find i (mt_run ops) = Some r" "mr_BackfillStatus r = BackfillCompleted" "list_all (\<lambda>op. \<not> reopens i op) later"
  shows "i \<notin> dm_ID ` set (ListActiveForBackfill n k ra (mt_run (ops @ later)))"
proof
  let ?tbl = "mt_run (ops @ later)"
  assume "i \<in> dm_ID ` set (ListActiveForBackfill n k ra ?tbl)"
  then obtain m where m: "m \<in> set (ListActiveForBackfill n k ra ?tbl)" "dm_ID m = i" by auto
  obtain r' where r': "mt_find i ?tbl = Some r'" "backfillable n ra r'"
    using backfill_listed [OF mt_run_inv m(1)] m(2) by auto
  moreover have "\<exists>r'. mt_find i ?tbl = Some r' \<and> mr_BackfillStatus r' = BackfillCompleted"
    using completed_steps [OF assms] by (simp add: mt_run_def)
  ultimately show False by (auto simp: backfillable_def backfill_states)
qed

definition sweep_input :: "string \<Rightarrow> UpsertMarketInput" where
  "sweep_input c = \<lparr>um_ConditionID = c, um_Slug = ''s'', um_Question = ''q'', um_EventSlug = '''', um_EventTitle = '''',
     um_StartDate = zero_time, um_EndDate = 9000 * Hour, um_Closed = False, um_CategoryIDs = [5]\<rparr>"

text \<open>Backfilled, gone for ten days, and back: live again, and still not listed.\<close>

lemma completed_never_refetched_witness:
  "let ops = [MoUpsert 0 None (sweep_input ''c''), MoBegin 1 1, MoComplete 2 1 False Second Second];
       later = [MoInactive Hour [] [5], MoUpsert (240 * Hour) None (sweep_input ''c'')]
   in map_option not_gone (mt_find 1 (mt_run (ops @ take 1 later))) = Some False \<and>
      map_option not_gone (mt_find 1 (mt_run (ops @ later))) = Some True \<and>
      1 \<notin> dm_ID ` set (ListActiveForBackfill (241 * Hour) 4 Hour (mt_run (ops @ later)))"
proof -
  let ?ops = "[MoUpsert 0 None (sweep_input ''c''), MoBegin 1 1, MoComplete 2 1 False Second Second]"
  let ?later = "[MoInactive Hour [] [5], MoUpsert (240 * Hour) None (sweep_input ''c'')]"
  have "map_option mr_BackfillStatus (mt_find 1 (mt_run ?ops)) = Some BackfillCompleted" by code_simp
  then obtain r where r: "mt_find 1 (mt_run ?ops) = Some r" "mr_BackfillStatus r = BackfillCompleted" by auto
  have "list_all (\<lambda>op. \<not> reopens 1 op) ?later" by simp
  from completed_never_refetched [OF r this, of "241 * Hour" 4 Hour]
  have "1 \<notin> dm_ID ` set (ListActiveForBackfill (241 * Hour) 4 Hour (mt_run (?ops @ ?later)))" .
  moreover have "map_option not_gone (mt_find 1 (mt_run (?ops @ take 1 ?later))) = Some False \<and>
      map_option not_gone (mt_find 1 (mt_run (?ops @ ?later))) = Some True" by code_simp
  ultimately show ?thesis by (simp only: Let_def) simp
qed

subsection \<open>The reaper\<close>

record sn_Config =
  sn_Interval :: duration
  sn_Retention :: duration
  sn_ClaimLimit :: int

definition sn_applyDefaults :: "sn_Config \<Rightarrow> sn_Config" where
  "sn_applyDefaults c =
     (let c = (if sn_Interval c \<le> 0 then c\<lparr>sn_Interval := Hour\<rparr> else c);
          c = (if sn_Retention c \<le> 0 then c\<lparr>sn_Retention := 720 * Hour\<rparr> else c);
          c = (if sn_ClaimLimit c \<le> 0 then c\<lparr>sn_ClaimLimit := 256\<rparr> else c)
      in c)"

text \<open>Per candidate: whether the context is done, the time of the statement, and whether it succeeds.\<close>

record sn_event =
  se_ctxDone :: bool
  se_dbNow :: time
  se_ok :: bool

fun reap_loop :: "(string \<Rightarrow> bool) \<Rightarrow> db_Market list \<Rightarrow> sn_event list \<Rightarrow> MarketTable \<Rightarrow> MarketTable" where
  "reap_loop upstream (m # ms) (e # es) tbl =
     (if se_ctxDone e then tbl
      else if upstream (dm_ConditionID m)
      then reap_loop upstream ms es (if se_ok e then RequeueResumed (se_dbNow e) (dm_ID m) tbl else tbl)
      else reap_loop upstream ms es (if se_ok e then MarkPurged (se_dbNow e) (dm_ID m) tbl else tbl))"
| "reap_loop upstream _ _ tbl = tbl"

definition sn_tick :: "sn_Config \<Rightarrow> time \<Rightarrow> bool \<Rightarrow> (string \<Rightarrow> bool) \<Rightarrow> sn_event list \<Rightarrow> MarketTable \<Rightarrow> MarketTable" where
  "sn_tick cfg now listOK upstream events tbl =
     (if \<not> listOK then tbl
      else (let candidates = ListSoftDeletedForPurge (now - sn_Retention cfg) (sn_ClaimLimit cfg) tbl
            in if candidates = [] then tbl else reap_loop upstream candidates events tbl))"

definition purged_at :: "time \<Rightarrow> MarketRow \<Rightarrow> MarketRow" where
  "purged_at n r = r\<lparr>mr_PurgedAt := Some n, mr_Active := False, mr_UpdatedAt := n\<rparr>"

definition resumed_at :: "time \<Rightarrow> MarketRow \<Rightarrow> MarketRow" where
  "resumed_at n r = r\<lparr>mr_Active := True, mr_DeletedAt := None, mr_BackfillStatus := BackfillPending, mr_UpdatedAt := n\<rparr>"

text \<open>What a tick may do to a row: nothing, or resume or purge one whose retention is over.\<close>

definition reaped :: "time \<Rightarrow> (string \<Rightarrow> bool) \<Rightarrow> MarketRow \<Rightarrow> MarketRow \<Rightarrow> bool" where
  "reaped cutoff upstream r r' \<longleftrightarrow> r' = r \<or>
     (\<exists>d n. mr_DeletedAt r = Some d \<and> d \<le> cutoff \<and> mr_PurgedAt r = None \<and>
        r' = (if upstream (mr_ConditionID r) then resumed_at n r else purged_at n r))"

definition expired :: "time \<Rightarrow> MarketRow \<Rightarrow> bool" where
  "expired cutoff r \<longleftrightarrow> (\<exists>d. mr_DeletedAt r = Some d \<and> d \<le> cutoff) \<and> mr_PurgedAt r = None"

definition reap_change :: "time \<Rightarrow> (string \<Rightarrow> bool) \<Rightarrow> int set \<Rightarrow> MarketRow \<Rightarrow> MarketRow \<Rightarrow> bool" where
  "reap_change cutoff upstream D r r' \<longleftrightarrow> r' = r \<or> mr_ID r \<in> D \<and> mr_ID r' = mr_ID r \<and> reaped cutoff upstream r r'"

lemma reap_one:
  assumes "list_all2 (reap_change cutoff up D) rows (mt_rows tbl)" "i \<notin> D"
    and "\<And>r. r \<in> set rows \<Longrightarrow> mr_ID r = i \<Longrightarrow> expired cutoff r \<and> up (mr_ConditionID r) = b"
  shows "list_all2 (reap_change cutoff up (insert i D)) rows (mt_rows (if b then RequeueResumed n i tbl else MarkPurged n i tbl))"
proof -
  let ?f = "\<lambda>r. if b then (if mr_ID r = i then resumed_at n r else r)
                  else (if mr_ID r = i \<and> mr_PurgedAt r = None then purged_at n r else r)"
  have "mt_rows (if b then RequeueResumed n i tbl else MarkPurged n i tbl) = map ?f (mt_rows tbl)"
    by (simp add: RequeueResumed_def MarkPurged_def mt_update_def resumed_at_def purged_at_def)
  moreover have "list_all2 (\<lambda>r r'. reap_change cutoff up (insert i D) r (?f r')) rows (mt_rows tbl)"
  proof (rule list.rel_mono_strong [OF assms(1)])
    fix r r' assume m: "r \<in> set rows" "reap_change cutoff up D r r'"
    show "reap_change cutoff up (insert i D) r (?f r')"
    proof (cases "mr_ID r = i")
      case True
      then have "r' = r" using m(2) assms(2) by (auto simp: reap_change_def)
      then show ?thesis using assms(3) [OF m(1) True] True
        by (auto simp: reap_change_def reaped_def expired_def resumed_at_def purged_at_def)
    next
      case False
      then have "mr_ID r' \<noteq> i" using m(2) by (auto simp: reap_change_def)
      then show ?thesis using m(2) by (auto simp: reap_change_def)
    qed
  qed
  ultimately show ?thesis by (simp add: list_all2_map2)
qed

lemma reap_change_mono: "D \<subseteq> E \<Longrightarrow> list_all2 (reap_change c up D) xs ys \<Longrightarrow> list_all2 (reap_change c up E) xs ys"
  by (erule list_all2_mono) (auto simp: reap_change_def)

definition reapable :: "time \<Rightarrow> MarketRow list \<Rightarrow> db_Market \<Rightarrow> bool" where
  "reapable cutoff rows m \<longleftrightarrow> (\<forall>r \<in> set rows. mr_ID r = dm_ID m \<longrightarrow> expired cutoff r \<and> mr_ConditionID r = dm_ConditionID m)"

lemma reap_loop_rows:
  assumes "distinct (map dm_ID ms)" "dm_ID ` set ms \<inter> D = {}" "list_all2 (reap_change cutoff up D) rows (mt_rows tbl)"
    and "\<forall>m \<in> set ms. reapable cutoff rows m"
  shows "list_all2 (reap_change cutoff up (D \<union> dm_ID ` set ms)) rows (mt_rows (reap_loop up ms es tbl))"
  using assms
proof (induction ms arbitrary: es tbl D)
  case Nil
  then show ?case by simp
next
  case (Cons m ms)
  have more: "list_all2 (reap_change cutoff up (D \<union> dm_ID ` set (m # ms))) rows (mt_rows tbl)"
    by (rule reap_change_mono [OF _ Cons.prems(3)]) auto
  show ?case
  proof (cases es)
    case Nil
    then show ?thesis using more by simp
  next
    case (Cons e es')
    let ?b = "up (dm_ConditionID m)"
    define t1 where "t1 = (if se_ok e then (if ?b then RequeueResumed (se_dbNow e) (dm_ID m) tbl else MarkPurged (se_dbNow e) (dm_ID m) tbl) else tbl)"
    have step: "reap_loop up (m # ms) es tbl = (if se_ctxDone e then tbl else reap_loop up ms es' t1)"
      unfolding Cons t1_def by simp
    have "list_all2 (reap_change cutoff up (insert (dm_ID m) D)) rows (mt_rows t1)"
    proof (cases "se_ok e")
      case True
      have "expired cutoff r \<and> up (mr_ConditionID r) = ?b" if "r \<in> set rows" "mr_ID r = dm_ID m" for r
        using Cons.prems(4) that by (simp add: reapable_def)
      then have "list_all2 (reap_change cutoff up (insert (dm_ID m) D)) rows
          (mt_rows (if ?b then RequeueResumed (se_dbNow e) (dm_ID m) tbl else MarkPurged (se_dbNow e) (dm_ID m) tbl))"
        by (intro reap_one [OF Cons.prems(3)]) (use Cons.prems(2) in auto)
      then show ?thesis using True by (simp add: t1_def)
    next
      case False
      then show ?thesis using reap_change_mono [OF subset_insertI Cons.prems(3)] by (simp add: t1_def)
    qed
    moreover have "distinct (map dm_ID ms)" "dm_ID ` set ms \<inter> insert (dm_ID m) D = {}" using Cons.prems(1,2) by auto
    ultimately have "list_all2 (reap_change cutoff up (insert (dm_ID m) D \<union> dm_ID ` set ms)) rows (mt_rows (reap_loop up ms es' t1))"
      by (intro Cons.IH) (use Cons.prems(4) in auto)
    then have "list_all2 (reap_change cutoff up (D \<union> dm_ID ` set (m # ms))) rows (mt_rows (reap_loop up ms es' t1))"
      by simp
    then show ?thesis using more step by presburger
  qed
qed

lemma purge_listed:
  assumes "mt_inv tbl"
  shows "distinct (map dm_ID (ListSoftDeletedForPurge cutoff k tbl))"
    "m \<in> set (ListSoftDeletedForPurge cutoff k tbl) \<Longrightarrow> reapable cutoff (mt_rows tbl) m"
proof -
  let ?P = "\<lambda>r. (case mr_DeletedAt r of None \<Rightarrow> False | Some d \<Rightarrow> d \<le> cutoff) \<and> mr_PurgedAt r = None"
  have ids: "dm_ID \<circ> marketFromSQLC = mr_ID" by (simp add: fun_eq_iff marketFromSQLC_def)
  have "distinct (map mr_ID (filter ?P (mt_rows tbl)))" using assms by (simp add: mt_inv_def distinct_map_filter)
  then have "distinct (map mr_ID (sort_key (\<lambda>r. the (mr_DeletedAt r)) (filter ?P (mt_rows tbl))))"
    by (simp add: distinct_map del: filter_sort)
  then show "distinct (map dm_ID (ListSoftDeletedForPurge cutoff k tbl))"
    unfolding ListSoftDeletedForPurge_def map_map ids take_map [symmetric] by (rule distinct_take)
  assume m: "m \<in> set (ListSoftDeletedForPurge cutoff k tbl)"
  obtain r' where t: "r' \<in> set (take (nat k) (sort_key (\<lambda>r. the (mr_DeletedAt r)) (filter ?P (mt_rows tbl))))"
    and "m = marketFromSQLC r'"
    using m unfolding ListSoftDeletedForPurge_def set_map by blast
  moreover have "r' \<in> set (filter ?P (mt_rows tbl))" using in_set_takeD [OF t] by (simp del: filter_sort)
  ultimately have r': "r' \<in> set (mt_rows tbl)" "?P r'" "m = marketFromSQLC r'" by simp_all
  have m': "dm_ID m = mr_ID r'" "dm_ConditionID m = mr_ConditionID r'" unfolding r'(3) by (simp_all add: marketFromSQLC_def)
  have "r = r'" if "r \<in> set (mt_rows tbl)" "mr_ID r = dm_ID m" for r
  proof -
    have "mt_find (dm_ID m) tbl = Some r" using mt_find_mem [OF assms that(1)] unfolding that(2) .
    moreover have "mt_find (dm_ID m) tbl = Some r'" using mt_find_mem [OF assms r'(1)] unfolding m'(1) .
    ultimately show ?thesis by simp
  qed
  moreover have "expired cutoff r'" using r'(2) by (auto simp: expired_def split: option.splits)
  ultimately show "reapable cutoff (mt_rows tbl) m" using m'(2) by (auto simp: reapable_def)
qed

text \<open>The reaper touches only what it may: whatever the errors and the limit, a tick leaves every row as it is or,
  when the row is soft-deleted for at least the retention and not purged, resumes it if it is back
  upstream and purges it if it is not - and it removes none.\<close>

theorem reaper_touches_expired:
  "list_all2 (reaped (now - sn_Retention cfg) upstream) (mt_rows (mt_run ops))
     (mt_rows (sn_tick cfg now listOK upstream events (mt_run ops)))"
proof -
  let ?tbl = "mt_run ops" and ?cutoff = "now - sn_Retention cfg"
  let ?ms = "ListSoftDeletedForPurge ?cutoff (sn_ClaimLimit cfg) ?tbl"
  have refl: "list_all2 (reap_change ?cutoff upstream {}) (mt_rows ?tbl) (mt_rows ?tbl)"
    by (simp add: list_all2_same reap_change_def)
  have "list_all2 (reap_change ?cutoff upstream ({} \<union> dm_ID ` set ?ms)) (mt_rows ?tbl) (mt_rows (reap_loop upstream ?ms events ?tbl))"
    by (rule reap_loop_rows [OF _ _ refl]) (use purge_listed [OF mt_run_inv] in auto)
  then have "list_all2 (reaped ?cutoff upstream) (mt_rows ?tbl) (mt_rows (reap_loop upstream ?ms events ?tbl))"
    by (rule list_all2_mono) (auto simp: reap_change_def reaped_def)
  then show ?thesis by (auto simp: sn_tick_def Let_def list_all2_same reaped_def)
qed

end
