(* ===== verification/TradeReads.thy ===== *)
theory TradeReads
  imports PgAggregates System Ingest MarketLife
begin

text \<open>
  What the detect loop reads: the table of traders (\<open>trader_repository.go\<close>), the aggregates over the
  table of trades (\<open>trade_repository.go\<close>, \<open>db/queries/trades.sql\<close>, \<open>traders.sql\<close>), the two baseline
  providers with their id caches (packages dbbaseline and traderbaseline), and the wiring of
  \<open>app.go\<close> that makes them the readers of the loop. Database faults
  are arguments; the overflow of a sum, which Postgres reports as an error, is one of them.
\<close>

subsection \<open>Traders\<close>

record TraderRec =
  wr_ID :: int
  wr_Wallet :: string
  wr_FirstSeenAt :: time
  wr_LastSeenAt :: time

record TraderTable =
  wt_rows :: "TraderRec list"
  wt_next :: int

definition ErrTraderNotFound :: string where "ErrTraderNotFound = ''trader not found''"

definition wt_lookup :: "string \<Rightarrow> TraderTable \<Rightarrow> TraderRec option" where
  "wt_lookup w tbl = find (\<lambda>r. wr_Wallet r = w) (wt_rows tbl)"

text \<open>A conflict uses up a number of the sequence too.\<close>

definition UpsertTrader :: "time \<Rightarrow> string \<Rightarrow> TraderTable \<Rightarrow> TraderTable \<times> TraderRec" where
  "UpsertTrader now w tbl =
     (let nxt = tbl\<lparr>wt_next := wt_next tbl + 1\<rparr>
      in case wt_lookup w tbl of
           None \<Rightarrow>
             (let r = \<lparr>wr_ID = wt_next tbl, wr_Wallet = w, wr_FirstSeenAt = now, wr_LastSeenAt = now\<rparr>
              in (nxt\<lparr>wt_rows := wt_rows tbl @ [r]\<rparr>, r))
         | Some r \<Rightarrow>
             (nxt\<lparr>wt_rows := map (\<lambda>r. if wr_Wallet r = w then r\<lparr>wr_LastSeenAt := now\<rparr> else r) (wt_rows tbl)\<rparr>,
              r\<lparr>wr_LastSeenAt := now\<rparr>))"

fun tr_UpsertSeen :: "time \<Rightarrow> (string \<Rightarrow> string option) \<Rightarrow> string list \<Rightarrow> TraderRec list \<Rightarrow> TraderTable
    \<Rightarrow> TraderTable \<times> TraderRec list \<times> string option" where
  "tr_UpsertSeen now fault [] out tbl = (tbl, out, None)"
| "tr_UpsertSeen now fault (w # ws) out tbl =
     (if w = '''' then tr_UpsertSeen now fault ws out tbl
      else case fault w of
             Some e \<Rightarrow> (tbl, out, Some (''upsert trader '' @ fmt_q w @ '': '' @ e))
           | None \<Rightarrow> (case UpsertTrader now w tbl of (tbl, r) \<Rightarrow> tr_UpsertSeen now fault ws (out @ [r]) tbl))"

definition WalletByID :: "string option \<Rightarrow> int \<Rightarrow> TraderTable \<Rightarrow> string + string" where
  "WalletByID fault i tbl =
     (case fault of Some e \<Rightarrow> Inl (''get trader by id '' @ fmt_d i @ '': '' @ e)
      | None \<Rightarrow> (case find (\<lambda>r. wr_ID r = i) (wt_rows tbl) of None \<Rightarrow> Inr '''' | Some r \<Rightarrow> Inr (wr_Wallet r)))"

definition GetByWallet :: "string option \<Rightarrow> string \<Rightarrow> TraderTable \<Rightarrow> string + TraderRec" where
  "GetByWallet fault w tbl =
     (case fault of Some e \<Rightarrow> Inl (''get trader '' @ fmt_q w @ '': '' @ e)
      | None \<Rightarrow> (case wt_lookup w tbl of None \<Rightarrow> Inl ErrTraderNotFound | Some r \<Rightarrow> Inr r))"

subsection \<open>The queries\<close>

text \<open>
  \<open>$since IS NULL OR traded_at >= $since\<close>, the comparison alone, and \<open>traded_at < $before\<close>. A time of Go is
  sent with \<open>tsFromTime\<close>, the zero time as NULL; a row of nullable times comes back through \<open>tsTime\<close>.
\<close>

definition since_or_all :: "time option \<Rightarrow> TradeRow \<Rightarrow> bool" where
  "since_or_all since r \<longleftrightarrow> (case since of None \<Rightarrow> True | Some c \<Rightarrow> c \<le> tx_TradedAt r)"

definition since_only :: "time option \<Rightarrow> TradeRow \<Rightarrow> bool" where
  "since_only since r \<longleftrightarrow> (case since of None \<Rightarrow> False | Some c \<Rightarrow> c \<le> tx_TradedAt r)"

definition earlier :: "time option \<Rightarrow> TradeRow \<Rightarrow> bool" where
  "earlier before r \<longleftrightarrow> (case before of None \<Rightarrow> False | Some b \<Rightarrow> tx_TradedAt r < b)"

definition bucket :: "int \<Rightarrow> string \<Rightarrow> TradeTable \<Rightarrow> TradeRow list" where
  "bucket mid token tbl = filter (\<lambda>r. tx_MarketID r = mid \<and> tx_OutcomeToken r = token) (tt_rows tbl)"

record Distribution =
  di_SampleCount :: int
  di_TotalNotionalUSD :: float64
  di_MeanNotionalUSD :: float64
  di_MedianNotionalUSD :: float64
  di_P95NotionalUSD :: float64
  di_P99NotionalUSD :: float64
  di_OldestAt :: time
  di_NewestAt :: time

definition dist_of :: "TradeRow list \<Rightarrow> Distribution" where
  "dist_of rows =
     (let xs = map tx_NotionalUSD rows; ts = map tx_TradedAt rows
      in \<lparr>di_SampleCount = int (length rows), di_TotalNotionalUSD = pg_sum xs, di_MeanNotionalUSD = pg_avg xs,
          di_MedianNotionalUSD = percentile_cont (fl 0.5) xs, di_P95NotionalUSD = percentile_cont (fl 0.95) xs,
          di_P99NotionalUSD = percentile_cont (fl 0.99) xs, di_OldestAt = tsTime (ts_min ts),
          di_NewestAt = tsTime (ts_max ts)\<rparr>)"

definition di_Span :: "Distribution \<Rightarrow> duration" where
  "di_Span d = (if di_SampleCount d < 2 then 0 else t_sub (di_NewestAt d) (di_OldestAt d))"

definition wrapped :: "string \<Rightarrow> string option \<Rightarrow> 'a \<Rightarrow> string + 'a" where
  "wrapped what fault v = (case fault of Some e \<Rightarrow> Inl (what @ '': '' @ e) | None \<Rightarrow> Inr v)"

definition q_BaselineDistribution :: "int \<Rightarrow> string \<Rightarrow> time option \<Rightarrow> TradeTable \<Rightarrow> Distribution" where
  "q_BaselineDistribution mid token since tbl = dist_of (filter (since_or_all since) (bucket mid token tbl))"

definition rp_Distribution :: "string option \<Rightarrow> int \<Rightarrow> string \<Rightarrow> time \<Rightarrow> TradeTable \<Rightarrow> string + Distribution" where
  "rp_Distribution fault mid token since tbl =
     wrapped ''baseline distribution'' fault (q_BaselineDistribution mid token (tsFromTime since) tbl)"

definition q_TraderStats :: "int \<Rightarrow> time option \<Rightarrow> TradeTable \<Rightarrow> Distribution" where
  "q_TraderStats tid since tbl =
     dist_of (filter (\<lambda>r. tx_TraderID r = Some tid \<and> since_or_all since r) (tt_rows tbl))"

definition rp_TraderDistribution :: "string option \<Rightarrow> int \<Rightarrow> time \<Rightarrow> TradeTable \<Rightarrow> string + Distribution" where
  "rp_TraderDistribution fault tid since tbl =
     wrapped (''trader distribution '' @ fmt_d tid) fault (q_TraderStats tid (tsFromTime since) tbl)"

record BaselineSummary =
  bs_SampleCount :: int
  bs_TotalNotionalUSD :: float64
  bs_OldestAt :: time
  bs_NewestAt :: time

definition bs_Span :: "BaselineSummary \<Rightarrow> duration" where
  "bs_Span s = (if bs_SampleCount s < 2 then 0 else t_sub (bs_NewestAt s) (bs_OldestAt s))"

definition q_BaselineSpan :: "int \<Rightarrow> string \<Rightarrow> time option \<Rightarrow> TradeTable \<Rightarrow> BaselineSummary" where
  "q_BaselineSpan mid token since tbl =
     (let rows = filter (since_only since) (bucket mid token tbl); ts = map tx_TradedAt rows
      in \<lparr>bs_SampleCount = int (length rows), bs_TotalNotionalUSD = pg_sum (map tx_NotionalUSD rows),
          bs_OldestAt = tsTime (ts_min ts), bs_NewestAt = tsTime (ts_max ts)\<rparr>)"

definition rp_SummarizeBaseline :: "string option \<Rightarrow> int \<Rightarrow> string \<Rightarrow> time \<Rightarrow> TradeTable \<Rightarrow> string + BaselineSummary" where
  "rp_SummarizeBaseline fault mid token since tbl =
     wrapped ''baseline span'' fault (q_BaselineSpan mid token (tsFromTime since) tbl)"

definition defaultBaselineLimit :: int where "defaultBaselineLimit = 5000"

text \<open>Newest first; rows of the same time in some order, here that of the table.\<close>

definition q_ListBaselineTrades :: "int \<Rightarrow> string \<Rightarrow> time option \<Rightarrow> int \<Rightarrow> TradeTable \<Rightarrow> TradeRow list" where
  "q_ListBaselineTrades mid token since limit tbl =
     take (nat limit) (sort_key (\<lambda>r. - tx_TradedAt r) (filter (since_only since) (bucket mid token tbl)))"

definition rp_ListBaseline :: "string option \<Rightarrow> int \<Rightarrow> string \<Rightarrow> time \<Rightarrow> int \<Rightarrow> TradeTable \<Rightarrow> string + TradeRow list" where
  "rp_ListBaseline fault mid token since limit tbl =
     (let limit = (if limit \<le> 0 then defaultBaselineLimit else limit)
      in wrapped ''list baseline trades'' fault (q_ListBaselineTrades mid token (tsFromTime since) limit tbl))"

definition q_ListClusterWindowTrades :: "(int \<Rightarrow> string option) \<Rightarrow> int \<Rightarrow> time option \<Rightarrow> TradeTable \<Rightarrow> (TradeRow \<times> string) list" where
  "q_ListClusterWindowTrades markets mid since tbl =
     (case markets mid of None \<Rightarrow> []
      | Some cond \<Rightarrow> map (\<lambda>r. (r, cond)) (sort_key (\<lambda>r. - tx_TradedAt r)
          (filter (\<lambda>r. tx_MarketID r = mid \<and> since_only since r) (tt_rows tbl))))"

definition q_ListTradesForBackfillPage :: "int \<Rightarrow> string list \<Rightarrow> TradeTable \<Rightarrow> string list" where
  "q_ListTradesForBackfillPage mid keys tbl =
     map tx_DedupKey (filter (\<lambda>r. tx_MarketID r = mid \<and> tx_DedupKey r \<in> set keys) (tt_rows tbl))"

definition rp_ExistingDedupKeys :: "string option \<Rightarrow> int \<Rightarrow> string list \<Rightarrow> TradeTable \<Rightarrow> string + string set" where
  "rp_ExistingDedupKeys fault mid keys tbl =
     (if keys = [] then Inr {}
      else wrapped ''list existing dedup keys'' fault (set (q_ListTradesForBackfillPage mid keys tbl)))"

definition q_LatestTradeAt :: "int \<Rightarrow> TradeTable \<Rightarrow> time option" where
  "q_LatestTradeAt mid tbl = ts_max (map tx_TradedAt (filter (\<lambda>r. tx_MarketID r = mid) (tt_rows tbl)))"

definition rp_LatestTradedAt :: "string option \<Rightarrow> int \<Rightarrow> TradeTable \<Rightarrow> string + time" where
  "rp_LatestTradedAt fault mid tbl = wrapped ''latest trade at'' fault (tsTime (q_LatestTradeAt mid tbl))"

definition q_OldestTradeAt :: "int \<Rightarrow> TradeTable \<Rightarrow> time option" where
  "q_OldestTradeAt mid tbl = ts_min (map tx_TradedAt (filter (\<lambda>r. tx_MarketID r = mid) (tt_rows tbl)))"

definition rp_OldestTradedAt :: "string option \<Rightarrow> int \<Rightarrow> TradeTable \<Rightarrow> string + time" where
  "rp_OldestTradedAt fault mid tbl = wrapped ''oldest trade at'' fault (tsTime (q_OldestTradeAt mid tbl))"

definition q_TraderFirstSeenAt :: "int \<Rightarrow> TradeTable \<Rightarrow> time option" where
  "q_TraderFirstSeenAt tid tbl = ts_min (map tx_TradedAt (filter (\<lambda>r. tx_TraderID r = Some tid) (tt_rows tbl)))"

definition rp_TraderFirstSeenAt :: "string option \<Rightarrow> int \<Rightarrow> TradeTable \<Rightarrow> string + time" where
  "rp_TraderFirstSeenAt fault tid tbl = wrapped ''trader first seen'' fault (tsTime (q_TraderFirstSeenAt tid tbl))"

definition q_TraderLastSeenBefore :: "int \<Rightarrow> time option \<Rightarrow> TradeTable \<Rightarrow> time option" where
  "q_TraderLastSeenBefore tid before tbl =
     ts_max (map tx_TradedAt (filter (\<lambda>r. tx_TraderID r = Some tid \<and> earlier before r) (tt_rows tbl)))"

definition rp_TraderLastSeenBefore :: "string option \<Rightarrow> int \<Rightarrow> time \<Rightarrow> TradeTable \<Rightarrow> string + time" where
  "rp_TraderLastSeenBefore fault tid before tbl =
     wrapped ''trader last seen before'' fault (tsTime (q_TraderLastSeenBefore tid (tsFromTime before) tbl))"

definition q_LastTradeAtBefore :: "int \<Rightarrow> string \<Rightarrow> time option \<Rightarrow> TradeTable \<Rightarrow> time option" where
  "q_LastTradeAtBefore mid token before tbl =
     ts_max (map tx_TradedAt (filter (earlier before) (bucket mid token tbl)))"

definition rp_LastTradedAtBefore :: "string option \<Rightarrow> int \<Rightarrow> string \<Rightarrow> time \<Rightarrow> TradeTable \<Rightarrow> string + time" where
  "rp_LastTradedAtBefore fault mid token before tbl =
     wrapped ''last trade at before'' fault (tsTime (q_LastTradeAtBefore mid token (tsFromTime before) tbl))"

definition q_LatestPriceForOutcome :: "int \<Rightarrow> string \<Rightarrow> TradeTable \<Rightarrow> float64 option" where
  "q_LatestPriceForOutcome mid token tbl =
     (case sort_key (\<lambda>r. - tx_TradedAt r) (bucket mid token tbl) of [] \<Rightarrow> None | r # _ \<Rightarrow> Some (tx_Price r))"

definition rp_LatestPriceForOutcome :: "string option \<Rightarrow> int \<Rightarrow> string \<Rightarrow> TradeTable \<Rightarrow> string + float64" where
  "rp_LatestPriceForOutcome fault mid token tbl =
     wrapped ''latest price for outcome'' fault
       (case q_LatestPriceForOutcome mid token tbl of None \<Rightarrow> 0 | Some p \<Rightarrow> p)"

definition q_AccumulationLineSummary :: "int \<Rightarrow> int \<Rightarrow> string \<Rightarrow> string \<Rightarrow> time option \<Rightarrow> TradeTable \<Rightarrow> AccumulationLine" where
  "q_AccumulationLineSummary tid mid token side since tbl =
     (let rows = filter (\<lambda>r. tx_TraderID r = Some tid \<and> tx_Side r = side \<and> since_or_all since r) (bucket mid token tbl);
          xs = map tx_NotionalUSD rows; ps = map tx_Price rows; ts = map tx_TradedAt rows
      in \<lparr>al_TradeCount = int (length rows), al_TotalNotionalUSD = pg_sum xs, al_MeanNotionalUSD = pg_avg xs,
          al_MedianNotionalUSD = percentile_cont (fl 0.5) xs, al_MaxNotionalUSD = pg_max xs,
          al_MinNotionalUSD = pg_min xs, al_AvgPrice = pg_avg ps, al_MinPrice = pg_min ps,
          al_OldestAt = tsTime (ts_min ts), al_NewestAt = tsTime (ts_max ts)\<rparr>)"

definition rp_AccumulationLineSummary :: "string option \<Rightarrow> AccumulationLineQuery \<Rightarrow> TradeTable \<Rightarrow> string + AccumulationLine" where
  "rp_AccumulationLineSummary fault q tbl =
     wrapped ''accumulation line summary'' fault
       (q_AccumulationLineSummary (aq_TraderID q) (aq_MarketID q) (aq_OutcomeToken q) (aq_Side q)
          (tsFromTime (aq_Since q)) tbl)"

definition shares_sum :: "(TradeRow \<Rightarrow> bool) \<Rightarrow> TradeRow list \<Rightarrow> float64" where
  "shares_sum P rows = pg_sum (map tx_SizeShares (filter P rows))"

definition q_OwnershipShares :: "int \<Rightarrow> int \<Rightarrow> string \<Rightarrow> TradeTable \<Rightarrow> OwnershipShares" where
  "q_OwnershipShares tid mid token tbl =
     (let rows = bucket mid token tbl
      in \<lparr>ws_WalletBuyShares = shares_sum (\<lambda>r. tx_Side r = ''BUY'' \<and> tx_TraderID r = Some tid) rows,
          ws_WalletSellShares = shares_sum (\<lambda>r. tx_Side r = ''SELL'' \<and> tx_TraderID r = Some tid) rows,
          ws_MarketBuyShares = shares_sum (\<lambda>r. tx_Side r = ''BUY'') rows\<rparr>)"

definition rp_OwnershipShares :: "string option \<Rightarrow> int \<Rightarrow> int \<Rightarrow> string \<Rightarrow> TradeTable \<Rightarrow> string + OwnershipShares" where
  "rp_OwnershipShares fault tid mid token tbl = wrapped ''ownership shares'' fault (q_OwnershipShares tid mid token tbl)"

definition q_TraderMarketSideActivity :: "int \<Rightarrow> int \<Rightarrow> string \<Rightarrow> time option \<Rightarrow> TradeTable \<Rightarrow> SideActivity" where
  "q_TraderMarketSideActivity tid mid token since tbl =
     (let rows = filter (\<lambda>r. tx_TraderID r = Some tid \<and> since_or_all since r) (bucket mid token tbl);
          buys = filter (\<lambda>r. tx_Side r = ''BUY'') rows; sells = filter (\<lambda>r. tx_Side r = ''SELL'') rows
      in \<lparr>sa_BuyCount = int (length buys), sa_SellCount = int (length sells),
          sa_BuyNotionalUSD = pg_sum (map tx_NotionalUSD buys), sa_SellNotionalUSD = pg_sum (map tx_NotionalUSD sells)\<rparr>)"

definition rp_SideActivity :: "string option \<Rightarrow> int \<Rightarrow> int \<Rightarrow> string \<Rightarrow> time \<Rightarrow> TradeTable \<Rightarrow> string + SideActivity" where
  "rp_SideActivity fault tid mid token since tbl =
     wrapped (''trader side activity '' @ fmt_d tid @ ''/'' @ fmt_d mid @ ''/'' @ token) fault
       (q_TraderMarketSideActivity tid mid token (tsFromTime since) tbl)"

subsection \<open>The baseline providers\<close>

text \<open>The tables and the faults of one moment.\<close>

record ReadDB =
  rd_now :: time
  rd_markets :: MarketTable
  rd_traders :: TraderTable
  rd_trades :: TradeTable
  rd_marketFault :: "string option"
  rd_traderFault :: "string option"
  rd_tradeFault :: "string option"

text \<open>A provider: its window and its cache of ids, by condition id or by wallet.\<close>

record Provider =
  pv_Window :: duration
  pv_idCache :: "string \<rightharpoonup> int"

definition pv_New :: "duration \<Rightarrow> Provider" where
  "pv_New window = \<lparr>pv_Window = window, pv_idCache = Map.empty\<rparr>"

definition pv_since :: "Provider \<Rightarrow> time \<Rightarrow> time" where
  "pv_since p now = (if 0 < pv_Window p then now - pv_Window p else zero_time)"

definition stats_of :: "Distribution \<Rightarrow> Stats" where
  "stats_of d =
     (if di_SampleCount d = 0 then no_stats
      else \<lparr>st_Count = di_SampleCount d, st_MeanUSD = di_MeanNotionalUSD d, st_MedianUSD = di_MedianNotionalUSD d,
            st_P95USD = di_P95NotionalUSD d, st_P99USD = di_P99NotionalUSD d, st_TotalUSD = di_TotalNotionalUSD d,
            st_SpanActual = di_Span d, st_OldestAt = di_OldestAt d\<rparr>)"

definition db_resolveID :: "ReadDB \<Rightarrow> string \<Rightarrow> Provider \<Rightarrow> Provider \<times> int option" where
  "db_resolveID e cond p =
     (case pv_idCache p cond of
        Some i \<Rightarrow> (p, Some i)
      | None \<Rightarrow>
          (case (if rd_marketFault e = None then GetByConditionID cond (rd_markets e) else None) of
             None \<Rightarrow> (p, None)
           | Some m \<Rightarrow> (p\<lparr>pv_idCache := (pv_idCache p)(cond \<mapsto> dm_ID m)\<rparr>, Some (dm_ID m))))"

definition db_Stats :: "ReadDB \<Rightarrow> string \<Rightarrow> string \<Rightarrow> Provider \<Rightarrow> Provider \<times> (string + Stats)" where
  "db_Stats e cond token p =
     (case db_resolveID e cond p of
        (p, None) \<Rightarrow> (p, Inr no_stats)
      | (p, Some mid) \<Rightarrow>
          (p, case rp_Distribution (rd_tradeFault e) mid token (pv_since p (rd_now e)) (rd_trades e) of
                Inl err \<Rightarrow> Inl (''distribution: '' @ err)
              | Inr d \<Rightarrow> Inr (stats_of d)))"

definition tb_resolveID :: "ReadDB \<Rightarrow> string \<Rightarrow> Provider \<Rightarrow> Provider \<times> (string + int option)" where
  "tb_resolveID e wallet p =
     (case pv_idCache p wallet of
        Some i \<Rightarrow> (p, Inr (Some i))
      | None \<Rightarrow>
          (case GetByWallet (rd_traderFault e) wallet (rd_traders e) of
             Inl err \<Rightarrow> (p, if err = ErrTraderNotFound then Inr None else Inl (''get trader: '' @ err))
           | Inr r \<Rightarrow> (p\<lparr>pv_idCache := (pv_idCache p)(wallet \<mapsto> wr_ID r)\<rparr>, Inr (Some (wr_ID r)))))"

definition tb_Stats :: "ReadDB \<Rightarrow> string \<Rightarrow> Provider \<Rightarrow> Provider \<times> (string + Stats)" where
  "tb_Stats e wallet p =
     (if wallet = '''' then (p, Inr no_stats)
      else case tb_resolveID e wallet p of
             (p, Inl err) \<Rightarrow> (p, Inl (''resolve trader '' @ fmt_q wallet @ '': '' @ err))
           | (p, Inr None) \<Rightarrow> (p, Inr no_stats)
           | (p, Inr (Some tid)) \<Rightarrow>
               (p, case rp_TraderDistribution (rd_tradeFault e) tid (pv_since p (rd_now e)) (rd_trades e) of
                     Inl err \<Rightarrow> Inl (''trader distribution '' @ fmt_d tid @ '': '' @ err)
                   | Inr d \<Rightarrow> Inr (stats_of d)))"

definition pv_Forget :: "string \<Rightarrow> Provider \<Rightarrow> Provider" where
  "pv_Forget k p = p\<lparr>pv_idCache := (pv_idCache p)(k := None)\<rparr>"

subsection \<open>The readers of the loop\<close>

record wiring =
  wi_db :: Provider
  wi_tb :: Provider
  wi_mm :: mm_Config
  wi_quiet :: bool
  wi_accumulation :: bool
  wi_ownership :: bool

text \<open>
  The repositories of \<open>app.go\<close> as the readers of one call of \<open>Observe\<close>, whose other inputs (the alert
  table, \<open>net/url\<close>, JSON) stay what they are. Within the call the two providers answer from their
  caches as they stand at its start.
\<close>

definition traders_get :: "ReadDB \<Rightarrow> string \<Rightarrow> string + TraderRow" where
  "traders_get e w =
     (case GetByWallet (rd_traderFault e) w (rd_traders e) of
        Inl err \<Rightarrow> Inl err | Inr r \<Rightarrow> Inr \<lparr>tr_ID = wr_ID r, tr_FirstSeenAt = wr_FirstSeenAt r\<rparr>)"

definition markets_get :: "ReadDB \<Rightarrow> string \<Rightarrow> string + int" where
  "markets_get e cond =
     (case rd_marketFault e of Some err \<Rightarrow> Inl err
      | None \<Rightarrow> (case GetByConditionID cond (rd_markets e) of None \<Rightarrow> Inl ''no rows'' | Some m \<Rightarrow> Inr (dm_ID m)))"

definition wire :: "wiring \<Rightarrow> ReadDB \<Rightarrow> dt_Env \<Rightarrow> dt_Env" where
  "wire w e ev =
     ev\<lparr>ev_now := rd_now e,
        ev_Baseliner := Some (\<lambda>k. snd (db_Stats e (ky_Market k) (ky_OutcomeToken k) (wi_db w))),
        ev_TraderBaseliner := Some (\<lambda>wallet. snd (tb_Stats e wallet (wi_tb w))),
        ev_MMFilter := Some (mm_Decide (mm_New (wi_mm w)) (rd_now e)
          (Some (\<lambda>wallet. map_sum id tr_ID (traders_get e wallet)))
          (Some (\<lambda>tid mid token since. rp_SideActivity (rd_tradeFault e) tid mid token since (rd_trades e)))),
        ev_AccumulationLines := (if wi_accumulation w
          then Some (\<lambda>q. rp_AccumulationLineSummary (rd_tradeFault e) q (rd_trades e)) else None),
        ev_LastTrade := (if wi_quiet w
          then Some (\<lambda>mid token before. rp_LastTradedAtBefore (rd_tradeFault e) mid token before (rd_trades e)) else None),
        ev_OwnershipShares := (if wi_ownership w
          then Some (\<lambda>tid mid token. rp_OwnershipShares (rd_tradeFault e) tid mid token (rd_trades e)) else None),
        ev_TraderActivity := Some (\<lambda>tid before. rp_TraderLastSeenBefore (rd_tradeFault e) tid before (rd_trades e)),
        ev_Markets := Some (markets_get e), ev_Traders := Some (traders_get e)\<rparr>"

subsection \<open>Runs of the tables under the readers\<close>

record rd_fault =
  ft_now :: time
  ft_market :: "string option"
  ft_trader :: "string option"
  ft_trade :: "string option"

record rd_tables =
  ra_markets :: MarketTable
  ra_traders :: TraderTable
  ra_trades :: TradeTable

datatype rd_op =
    RdMarket mt_op
  | RdSeen time "string \<Rightarrow> string option" "string list"
  | RdTrade duration q_op
  | RdBucket rd_fault string string
  | RdWallet rd_fault string
  | RdForget string string

definition rd_view :: "rd_tables \<Rightarrow> rd_fault \<Rightarrow> ReadDB" where
  "rd_view t f =
     \<lparr>rd_now = ft_now f, rd_markets = ra_markets t, rd_traders = ra_traders t, rd_trades = ra_trades t,
      rd_marketFault = ft_market f, rd_traderFault = ft_trader f, rd_tradeFault = ft_trade f\<rparr>"

fun rd_write :: "rd_tables \<Rightarrow> rd_op \<Rightarrow> rd_tables" where
  "rd_write t (RdMarket m) = t\<lparr>ra_markets := mt_step (ra_markets t) m\<rparr>"
| "rd_write t (RdSeen now fault ws) = t\<lparr>ra_traders := fst (tr_UpsertSeen now fault ws [] (ra_traders t))\<rparr>"
| "rd_write t (RdTrade ttl q) = t\<lparr>ra_trades := fst (q_step ttl (ra_trades t, []) q)\<rparr>"
| "rd_write t _ = t"

text \<open>The providers of the process, with their caches.\<close>

fun rd_ask :: "rd_tables \<Rightarrow> Provider \<times> Provider \<Rightarrow> rd_op \<Rightarrow> (Provider \<times> Provider) \<times> (string + Stats) list" where
  "rd_ask t (db, tb) (RdBucket f cond token) =
     (case db_Stats (rd_view t f) cond token db of (db, a) \<Rightarrow> ((db, tb), [a]))"
| "rd_ask t (db, tb) (RdWallet f wallet) = (case tb_Stats (rd_view t f) wallet tb of (tb, a) \<Rightarrow> ((db, tb), [a]))"
| "rd_ask t (db, tb) (RdForget cond wallet) = ((pv_Forget cond db, pv_Forget wallet tb), [])"
| "rd_ask t ps _ = (ps, [])"

fun rd_answers :: "rd_tables \<Rightarrow> Provider \<times> Provider \<Rightarrow> rd_op list \<Rightarrow> (string + Stats) list" where
  "rd_answers t ps [] = []"
| "rd_answers t ps (op # ops) =
     (case rd_ask t ps op of (ps, as) \<Rightarrow> as @ rd_answers (rd_write t op) ps ops)"

text \<open>
  The reference: a provider made for the one call, on the same tables; once with the faults of the
  moment and once with lookups that work.
\<close>

definition working :: "rd_fault \<Rightarrow> rd_fault" where
  "working f = f\<lparr>ft_market := None, ft_trader := None\<rparr>"

fun rd_fresh :: "duration \<Rightarrow> duration \<Rightarrow> rd_tables \<Rightarrow> rd_op \<Rightarrow> ((string + Stats) \<times> (string + Stats)) list" where
  "rd_fresh wdb wtb t (RdBucket f cond token) =
     [(snd (db_Stats (rd_view t f) cond token (pv_New wdb)), snd (db_Stats (rd_view t (working f)) cond token (pv_New wdb)))]"
| "rd_fresh wdb wtb t (RdWallet f wallet) =
     [(snd (tb_Stats (rd_view t f) wallet (pv_New wtb)), snd (tb_Stats (rd_view t (working f)) wallet (pv_New wtb)))]"
| "rd_fresh wdb wtb t _ = []"

fun rd_reference :: "duration \<Rightarrow> duration \<Rightarrow> rd_tables \<Rightarrow> rd_op list \<Rightarrow> ((string + Stats) \<times> (string + Stats)) list" where
  "rd_reference wdb wtb t [] = []"
| "rd_reference wdb wtb t (op # ops) = rd_fresh wdb wtb t op @ rd_reference wdb wtb (rd_write t op) ops"

definition rd_empty :: rd_tables where
  "rd_empty = \<lparr>ra_markets = mt_empty, ra_traders = \<lparr>wt_rows = [], wt_next = 1\<rparr>, ra_trades = \<lparr>tt_rows = [], tt_next = 1\<rparr>\<rparr>"

subsection \<open>Ids do not move\<close>

lemma wt_lookup_update:
  "wt_lookup w (fst (UpsertTrader n v tbl)) =
     (case wt_lookup w tbl of
        Some r \<Rightarrow> Some (if w = v then r\<lparr>wr_LastSeenAt := n\<rparr> else r)
      | None \<Rightarrow> if w = v then Some \<lparr>wr_ID = wt_next tbl, wr_Wallet = w, wr_FirstSeenAt = n, wr_LastSeenAt = n\<rparr> else None)"
proof (cases "w = v")
  case True
  have m: "find (\<lambda>r. wr_Wallet r = v) (map (\<lambda>r. if wr_Wallet r = v then r\<lparr>wr_LastSeenAt := n\<rparr> else r) rs) =
      map_option (\<lambda>r. r\<lparr>wr_LastSeenAt := n\<rparr>) (find (\<lambda>r. wr_Wallet r = v) rs)" for rs
    by (induction rs) auto
  show ?thesis using True by (auto simp: UpsertTrader_def wt_lookup_def Let_def m find_snoc split: option.splits)
next
  case False
  then have m: "find (\<lambda>r. wr_Wallet r = w) (map (\<lambda>r. if wr_Wallet r = v then r\<lparr>wr_LastSeenAt := n\<rparr> else r) rs) =
      find (\<lambda>r. wr_Wallet r = w) rs" for rs
    by (induction rs) auto
  show ?thesis using False by (auto simp: UpsertTrader_def wt_lookup_def Let_def m find_snoc split: option.splits)
qed

definition wallet_id :: "TraderTable \<Rightarrow> string \<Rightarrow> int option" where
  "wallet_id tbl w = map_option wr_ID (wt_lookup w tbl)"

lemma wallet_id_seen:
  "wallet_id tbl w = Some i \<Longrightarrow> wallet_id (fst (tr_UpsertSeen n fault ws out tbl)) w = Some i"
proof (induction n fault ws out tbl rule: tr_UpsertSeen.induct)
  case (2 n fault v ws out tbl)
  have "wallet_id (fst (UpsertTrader n v tbl)) w = Some i"
    using "2.prems" by (auto simp: wallet_id_def wt_lookup_update)
  then show ?case using 2 by (auto split: option.splits prod.splits)
qed simp

definition market_id :: "MarketTable \<Rightarrow> string \<Rightarrow> int option" where
  "market_id tbl c = map_option dm_ID (GetByConditionID c tbl)"

lemma market_id_lookup: "market_id tbl c = map_option mr_ID (mt_lookup c tbl)"
  by (simp add: market_id_def GetByConditionID_def option.map_comp comp_def marketFromSQLC_def)

lemma market_id_step:
  assumes "mt_inv tbl" "market_id tbl c = Some i"
  shows "market_id (mt_step tbl op) c = Some i"
proof -
  obtain r where r: "mt_lookup c tbl = Some r" "mr_ID r = i" using assms(2) by (auto simp: market_id_lookup)
  then have "r \<in> set (mt_rows tbl)" "mr_ConditionID r = c" by (auto simp: mt_lookup_def find_Some_iff)
  then have "mt_find i tbl = Some r" using mt_find_mem [OF assms(1)] r(2) by metis
  then obtain r' where r': "mt_find i (mt_step tbl op) = Some r'" "mr_ConditionID r' = c"
    using mt_step_keeps [OF assms(1), of op] \<open>mr_ConditionID r = c\<close> unfolding mt_follows_def mr_follows_def by metis
  have inv: "mt_inv (mt_step tbl op)" using mt_step_keeps [OF assms(1), of op] by simp
  have "r' \<in> set (mt_rows (mt_step tbl op))" "mr_ID r' = i" using mt_find_Some [OF r'(1)] by auto
  moreover have "mt_lookup c (mt_step tbl op) = Some r'"
    using inv \<open>r' \<in> _\<close> r'(2) find_key_mem [of mr_ConditionID "mt_rows (mt_step tbl op)" r']
    by (simp add: mt_inv_def mt_lookup_def)
  ultimately show ?thesis by (simp add: market_id_lookup)
qed

text \<open>A cache that knows no id but the table's.\<close>

definition knows :: "(string \<Rightarrow> int option) \<Rightarrow> Provider \<Rightarrow> bool" where
  "knows ids p \<longleftrightarrow> (\<forall>k i. pv_idCache p k = Some i \<longrightarrow> ids k = Some i)"

lemma knows_new [simp]: "knows ids (pv_New w)"
  by (simp add: knows_def pv_New_def)

lemma knows_mono: "knows ids p \<Longrightarrow> (\<And>k i. ids k = Some i \<Longrightarrow> ids' k = Some i) \<Longrightarrow> knows ids' p"
  by (simp add: knows_def)

lemma pv_parts [simp]: "pv_Window (pv_New w) = w" "pv_idCache (pv_New w) = Map.empty"
  "pv_Window (pv_Forget k p) = pv_Window p" "pv_since (p\<lparr>pv_idCache := c\<rparr>) t = pv_since p t"
  by (simp_all add: pv_New_def pv_Forget_def pv_since_def)

lemma knows_forget: "knows ids p \<Longrightarrow> knows ids (pv_Forget k p)"
  by (simp add: knows_def pv_Forget_def)

lemma pv_since_new: "pv_Window p = w \<Longrightarrow> pv_since (pv_New w) t = pv_since p t"
  by (simp add: pv_since_def)

lemma db_ask:
  assumes "knows (market_id (ra_markets t)) p" "pv_Window p = w"
  shows "knows (market_id (ra_markets t)) (fst (db_Stats (rd_view t f) c tok p))"
    "pv_Window (fst (db_Stats (rd_view t f) c tok p)) = w"
    "snd (db_Stats (rd_view t f) c tok p) \<in> {snd (db_Stats (rd_view t f) c tok (pv_New w)),
        snd (db_Stats (rd_view t (working f)) c tok (pv_New w))}"
proof -
  have ids: "GetByConditionID c (ra_markets t) = Some m \<Longrightarrow> market_id (ra_markets t) c = Some (dm_ID m)" for m
    by (simp add: market_id_def)
  have know: "pv_idCache p c = Some i \<Longrightarrow> \<exists>m. GetByConditionID c (ra_markets t) = Some m \<and> dm_ID m = i" for i
    using assms(1) by (auto simp: knows_def market_id_def)
  note defs = db_Stats_def db_resolveID_def rd_view_def working_def pv_since_new [OF assms(2)]
  show "knows (market_id (ra_markets t)) (fst (db_Stats (rd_view t f) c tok p))"
    using assms(1) ids by (auto simp: defs knows_def split: option.splits prod.splits)
  show "pv_Window (fst (db_Stats (rd_view t f) c tok p)) = w"
    using assms(2) by (auto simp: defs split: option.splits prod.splits)
  show "snd (db_Stats (rd_view t f) c tok p) \<in> {snd (db_Stats (rd_view t f) c tok (pv_New w)),
        snd (db_Stats (rd_view t (working f)) c tok (pv_New w))}"
  proof (cases "pv_idCache p c")
    case None
    then show ?thesis by (auto simp: defs split: option.splits)
  next
    case (Some i)
    then obtain m where "GetByConditionID c (ra_markets t) = Some m" "dm_ID m = i" using know by blast
    then show ?thesis using Some by (auto simp: defs split: option.splits)
  qed
qed

lemma tb_ask:
  assumes "knows (wallet_id (ra_traders t)) p" "pv_Window p = w"
  shows "knows (wallet_id (ra_traders t)) (fst (tb_Stats (rd_view t f) v p))"
    "pv_Window (fst (tb_Stats (rd_view t f) v p)) = w"
    "snd (tb_Stats (rd_view t f) v p) \<in> {snd (tb_Stats (rd_view t f) v (pv_New w)),
        snd (tb_Stats (rd_view t (working f)) v (pv_New w))}"
proof -
  have know: "pv_idCache p v = Some i \<Longrightarrow> \<exists>r. wt_lookup v (ra_traders t) = Some r \<and> wr_ID r = i" for i
    using assms(1) by (auto simp: knows_def wallet_id_def)
  note defs = tb_Stats_def tb_resolveID_def GetByWallet_def rd_view_def working_def pv_since_new [OF assms(2)]
  show "knows (wallet_id (ra_traders t)) (fst (tb_Stats (rd_view t f) v p))"
    using assms(1) by (auto simp: defs knows_def wallet_id_def split: option.splits prod.splits sum.splits)
  show "pv_Window (fst (tb_Stats (rd_view t f) v p)) = w"
    using assms(2) by (auto simp: defs split: option.splits prod.splits sum.splits)
  show "snd (tb_Stats (rd_view t f) v p) \<in> {snd (tb_Stats (rd_view t f) v (pv_New w)),
        snd (tb_Stats (rd_view t (working f)) v (pv_New w))}"
  proof (cases "pv_idCache p v")
    case None
    then show ?thesis by (auto simp: defs split: option.splits sum.splits)
  next
    case (Some i)
    then obtain r where "wt_lookup v (ra_traders t) = Some r" "wr_ID r = i" using know by blast
    then show ?thesis using Some by (auto simp: defs split: option.splits sum.splits)
  qed
qed

lemma rd_write_ids:
  assumes "mt_inv (ra_markets t)"
  shows "mt_inv (ra_markets (rd_write t op))"
    "market_id (ra_markets t) c = Some i \<Longrightarrow> market_id (ra_markets (rd_write t op)) c = Some i"
    "wallet_id (ra_traders t) w = Some j \<Longrightarrow> wallet_id (ra_traders (rd_write t op)) w = Some j"
proof -
  show "mt_inv (ra_markets (rd_write t op))" using assms mt_step_keeps by (cases op) simp_all
  show "market_id (ra_markets t) c = Some i \<Longrightarrow> market_id (ra_markets (rd_write t op)) c = Some i"
    using assms market_id_step by (cases op) simp_all
  show "wallet_id (ra_traders t) w = Some j \<Longrightarrow> wallet_id (ra_traders (rd_write t op)) w = Some j"
    using wallet_id_seen by (cases op) simp_all
qed

lemma rd_answers_fresh:
  assumes "mt_inv (ra_markets t)" "knows (market_id (ra_markets t)) db" "knows (wallet_id (ra_traders t)) tb"
    and "pv_Window db = wdb" "pv_Window tb = wtb"
  shows "list_all2 (\<lambda>a (x, y). a \<in> {x, y}) (rd_answers t (db, tb) ops) (rd_reference wdb wtb t ops)"
  using assms
proof (induction ops arbitrary: t db tb)
  case (Cons op ops)
  obtain db' tb' as where a: "rd_ask t (db, tb) op = ((db', tb'), as)" by (metis prod.exhaust)
  have one: "knows (market_id (ra_markets t)) db' \<and> knows (wallet_id (ra_traders t)) tb' \<and> pv_Window db' = wdb \<and>
      pv_Window tb' = wtb \<and> list_all2 (\<lambda>a (x, y). a \<in> {x, y}) as (rd_fresh wdb wtb t op)"
  proof (cases op)
    case (RdBucket f c tok)
    then show ?thesis using a Cons.prems db_ask [OF Cons.prems(2,4), of f c tok] by (auto split: prod.splits)
  next
    case (RdWallet f v)
    then show ?thesis using a Cons.prems tb_ask [OF Cons.prems(3,5), of f v] by (auto split: prod.splits)
  next
    case (RdForget c v)
    then show ?thesis using a Cons.prems knows_forget by auto
  qed (use a Cons.prems in auto)
  have "list_all2 (\<lambda>a (x, y). a \<in> {x, y}) (rd_answers (rd_write t op) (db', tb') ops)
      (rd_reference wdb wtb (rd_write t op) ops)"
  proof (rule Cons.IH)
    show "mt_inv (ra_markets (rd_write t op))" by (rule rd_write_ids(1) [OF Cons.prems(1)])
    show "knows (market_id (ra_markets (rd_write t op))) db'"
      using one rd_write_ids(2) [OF Cons.prems(1)] knows_mono by blast
    show "knows (wallet_id (ra_traders (rd_write t op))) tb'"
      using one rd_write_ids(3) [OF Cons.prems(1)] knows_mono by blast
  qed (use one in simp_all)
  then show ?case using a one by (simp add: list_all2_appendI)
qed simp

subsection \<open>Gaps between trades\<close>

lemma ts_max_Some: "ts_max ts = Some m \<longleftrightarrow> ts \<noteq> [] \<and> m \<in> set ts \<and> (\<forall>t \<in> set ts. t \<le> m)"
  by (auto simp: ts_max_def Max_eq_iff)

lemma t_sub_ge:
  assumes "0 < d" "\<not> t_sub t u < d"
  shows "u \<le> t - d"
proof -
  have "d \<le> sat64 (t - u)" using assms(2) by (simp add: t_sub_def)
  moreover from this have "0 < t - u" using assms(1) sat64_sign(3) [of "t - u"] by linarith
  ultimately have "d \<le> t - u" by (auto simp: sat64_def split: if_splits)
  then show ?thesis by linarith
qed

text \<open>The answer of a "last one before" query: zero when there is none, else the latest of the earlier ones.\<close>

lemma last_before:
  assumes "tsTime (ts_max (map tx_TradedAt (filter (\<lambda>r. P r \<and> earlier (tsFromTime before) r) rows))) = u" "\<not> IsZero u" "\<not> IsZero before"
  shows "\<exists>r \<in> set rows. P r \<and> tx_TradedAt r = u \<and> u < before"
    "\<forall>r \<in> set rows. P r \<and> tx_TradedAt r < before \<longrightarrow> tx_TradedAt r \<le> u"
proof -
  have e: "earlier (tsFromTime before) r = (tx_TradedAt r < before)" for r
    using assms(3) by (simp add: earlier_def tsFromTime_def)
  let ?ts = "map tx_TradedAt (filter (\<lambda>r. P r \<and> earlier (tsFromTime before) r) rows)"
  have "ts_max ?ts = Some u"
    using assms(1,2) by (cases "ts_max ?ts") (auto simp: tsTime_def IsZero_def)
  then have "u \<in> set ?ts" "\<forall>t \<in> set ?ts. t \<le> u" unfolding ts_max_Some by blast+
  then show "\<exists>r \<in> set rows. P r \<and> tx_TradedAt r = u \<and> u < before"
    "\<forall>r \<in> set rows. P r \<and> tx_TradedAt r < before \<longrightarrow> tx_TradedAt r \<le> u" by (auto simp: e)
qed

lemma none_before:
  assumes "tsTime (ts_max (map tx_TradedAt (filter (\<lambda>r. P r \<and> earlier (tsFromTime before) r) rows))) = u" "IsZero u" "\<not> IsZero before"
    and "\<forall>r \<in> set rows. \<not> IsZero (tx_TradedAt r)"
  shows "\<forall>r \<in> set rows. P r \<longrightarrow> before \<le> tx_TradedAt r"
proof -
  have e: "earlier (tsFromTime before) r = (tx_TradedAt r < before)" for r
    using assms(3) by (simp add: earlier_def tsFromTime_def)
  let ?ts = "map tx_TradedAt (filter (\<lambda>r. P r \<and> earlier (tsFromTime before) r) rows)"
  have "ts_max ?ts = None"
  proof (cases "ts_max ?ts")
    case (Some m)
    then have "m \<in> set ?ts" unfolding ts_max_Some by blast
    moreover have "IsZero m" using assms(1,2) Some by (simp add: tsTime_def)
    ultimately show ?thesis using assms(4) by auto
  qed simp
  then have "?ts = []" unfolding ts_max_def by (simp split: if_splits)
  then show ?thesis by (auto simp: e filter_empty_conv)
qed

lemma wire_fields [simp]: "ev_now (wire w e ev) = rd_now e" "ev_Traders (wire w e ev) = Some (traders_get e)"
  "ev_Markets (wire w e ev) = Some (markets_get e)"
  "ev_TraderActivity (wire w e ev) = Some (\<lambda>tid before. rp_TraderLastSeenBefore (rd_tradeFault e) tid before (rd_trades e))"
  "ev_LastTrade (wire w e ev) = (if wi_quiet w
     then Some (\<lambda>mid token before. rp_LastTradedAtBefore (rd_tradeFault e) mid token before (rd_trades e)) else None)"
  by (simp_all add: wire_def)

lemma resolve_wallet: "resolveTraderID (wire w e ev) v = Some i \<Longrightarrow> wallet_id (rd_traders e) v = Some i"
  by (auto simp: resolveTraderID_def traders_get_def GetByWallet_def wallet_id_def split: if_splits option.splits sum.splits)

lemma resolve_market: "resolveMarketID (wire w e ev) c = Some i \<Longrightarrow> market_id (rd_markets e) c = Some i"
  by (auto simp: resolveMarketID_def markets_get_def market_id_def split: if_splits option.splits sum.splits)

text \<open>C25. A wallet reported dormant was: the finding names its latest stored trade before this one, and no
  stored trade of that wallet falls in the idle time before the scored trade.\<close>

theorem dormant_wallet_was_idle:
  assumes "dormantWalletRef l (wire w e ev) wallet notional tradedAt nw = Some dw" "\<not> IsZero tradedAt"
  shows "let seen = (\<lambda>r. tx_TraderID r \<noteq> None \<and> tx_TraderID r = wallet_id (rd_traders e) wallet)
    in dd_Enabled (dt_DormantWallet (lp_cfg l)) \<and> \<not> (0 < dd_MinNotionalUSD (dt_DormantWallet (lp_cfg l)) \<and>
         notional < dd_MinNotionalUSD (dt_DormantWallet (lp_cfg l))) \<and>
       (\<exists>r \<in> set (tt_rows (rd_trades e)). seen r \<and> tx_TradedAt r = dw_LastSeenAt dw) \<and>
       list_all (\<lambda>r. if seen r \<and> tx_TradedAt r < tradedAt
          then tx_TradedAt r \<le> tradedAt - max 0 (dd_MinIdle (dt_DormantWallet (lp_cfg l))) \<and> tx_TradedAt r \<le> dw_LastSeenAt dw
          else True) (tt_rows (rd_trades e))"
proof -
  let ?c = "dt_DormantWallet (lp_cfg l)" and ?rows = "tt_rows (rd_trades e)"
  obtain tid u where t: "resolveTraderID (wire w e ev) wallet = Some tid" "dd_Enabled ?c"
    "\<not> (0 < dd_MinNotionalUSD ?c \<and> notional < dd_MinNotionalUSD ?c)"
    "rp_TraderLastSeenBefore (rd_tradeFault e) tid tradedAt (rd_trades e) = Inr u" "\<not> IsZero u"
    "\<not> (0 < dd_MinIdle ?c \<and> t_sub tradedAt u < dd_MinIdle ?c)" "dw_LastSeenAt dw = u"
    using assms(1) by (auto simp: dormantWalletRef_def Let_def split: if_splits option.splits sum.splits)
  have u: "tsTime (ts_max (map tx_TradedAt (filter (\<lambda>r. tx_TraderID r = Some tid \<and> earlier (tsFromTime tradedAt) r) ?rows))) = u"
    using t(4) by (auto simp: rp_TraderLastSeenBefore_def q_TraderLastSeenBefore_def wrapped_def split: option.splits)
  note lb = last_before [OF u t(5) assms(2)]
  have "0 < dd_MinIdle ?c \<Longrightarrow> u \<le> tradedAt - dd_MinIdle ?c" using t(6) t_sub_ge by blast
  then have "u \<le> tradedAt - max 0 (dd_MinIdle ?c)"
    using lb(1) by (cases "0 < dd_MinIdle ?c") (auto simp: max_def)
  then show ?thesis
    using lb t(2,3,7) resolve_wallet [OF t(1)] by (auto simp: list_all_iff Let_def intro: order_trans)
qed

text \<open>A market reported as woken up was quiet: when the idle gate is on and the reads work, no stored
  trade of that outcome falls in the idle time before the scored trade. With a failed read the
  gate is passed as if the market had never traded.\<close>

theorem quiet_market_was_idle:
  assumes "fi_QuietMarket (stampQuietMarket l (wire w e ev) f m bk hist notional tm) \<noteq> fi_QuietMarket f"
    and "dt_QuietMarket (lp_cfg l) = Some qm" "0 < qc_MinIdleDuration qm" "\<not> IsZero tm" "wi_quiet w"
    and "list_all (\<lambda>r. \<not> IsZero (tx_TradedAt r)) (tt_rows (rd_trades e))"
  shows "rd_marketFault e \<noteq> None \<or> rd_tradeFault e \<noteq> None \<or> mk_ID m = '''' \<or> market_id (rd_markets e) (mk_ID m) = None \<or>
    list_all (\<lambda>r. if market_id (rd_markets e) (mk_ID m) = Some (tx_MarketID r) \<and> tx_OutcomeToken r = ky_OutcomeToken bk
        \<and> tx_TradedAt r < tm then tx_TradedAt r \<le> tm - qc_MinIdleDuration qm else True) (tt_rows (rd_trades e))"
proof (cases "rd_marketFault e = None \<and> rd_tradeFault e = None \<and> mk_ID m \<noteq> '''' \<and> market_id (rd_markets e) (mk_ID m) \<noteq> None")
  case True
  then obtain mid where mid: "market_id (rd_markets e) (mk_ID m) = Some mid" by blast
  have rm: "resolveMarketID (wire w e ev) (mk_ID m) = Some mid"
    using True mid by (auto simp: resolveMarketID_def markets_get_def market_id_def)
  let ?P = "\<lambda>r. tx_MarketID r = mid \<and> tx_OutcomeToken r = ky_OutcomeToken bk" and ?rows = "tt_rows (rd_trades e)"
  let ?u = "tsTime (ts_max (map tx_TradedAt (filter (\<lambda>r. ?P r \<and> earlier (tsFromTime tm) r) ?rows)))"
  have "rp_LastTradedAtBefore (rd_tradeFault e) mid (ky_OutcomeToken bk) tm (rd_trades e) = Inr ?u"
    using True by (simp add: rp_LastTradedAtBefore_def q_LastTradeAtBefore_def wrapped_def bucket_def conj_commute conj_left_commute)
  then have "qc_MinIdleDuration qm \<le> 0 \<or> IsZero ?u \<or> qc_MinIdleDuration qm \<le> t_sub tm ?u"
    using assms(1,2,5) rm by (auto simp: stampQuietMarket_def Let_def qm_Decide_qualifies split: if_splits)
  then have "IsZero ?u \<or> ?u \<le> tm - qc_MinIdleDuration qm" using assms(3) t_sub_ge [of "qc_MinIdleDuration qm" tm ?u] by auto
  then have "\<forall>r \<in> set ?rows. ?P r \<and> tx_TradedAt r < tm \<longrightarrow> tx_TradedAt r \<le> tm - qc_MinIdleDuration qm"
  proof (cases "IsZero ?u")
    case True
    then show ?thesis using none_before [OF refl True assms(4)] assms(6) by (fastforce simp: list_all_iff)
  next
    case False
    then show ?thesis
      using last_before(2) [OF refl False assms(4)] \<open>IsZero ?u \<or> ?u \<le> _\<close> by (meson order_trans)
  qed
  then show ?thesis using mid by (auto simp: list_all_iff)
next
  case False
  then show ?thesis by auto
qed

text \<open>Tables for the witnesses: one market, one wallet first persisted at hour 49, and its old trades.\<close>

definition tr_market :: UpsertMarketInput where
  "tr_market = \<lparr>um_ConditionID = ''m1'', um_Slug = ''m'', um_Question = ''?'', um_EventSlug = ''e'', um_EventTitle = ''E'',
     um_StartDate = 0, um_EndDate = 100 * Hour, um_Closed = False, um_CategoryIDs = []\<rparr>"

definition tr_trade :: "string \<Rightarrow> time \<Rightarrow> InsertTradeInput" where
  "tr_trade i tm = \<lparr>it_MarketID = 1, it_TraderID = Some 1, it_OutcomeToken = ''t1'', it_Side = ''BUY'', it_Price = fl 0.25,
     it_SizeShares = fl 6000, it_NotionalUSD = fl 1500, it_TradedAt = tm, it_ExternalID = i, it_TxHash = ''''\<rparr>"

definition tr_tables :: rd_tables where
  "tr_tables = foldl rd_write rd_empty
     [RdMarket (MoUpsert 1 None tr_market), RdSeen (49 * Hour) (\<lambda>w. None) [''w''],
      RdTrade Hour (QInsert (49 * Hour) None ''ext:a'' (tr_trade ''a'' Hour)),
      RdTrade Hour (QInsert (49 * Hour) None ''ext:b'' (tr_trade ''b'' (50 * Hour)))]"

definition no_fault :: "time \<Rightarrow> rd_fault" where
  "no_fault now = \<lparr>ft_now = now, ft_market = None, ft_trader = None, ft_trade = None\<rparr>"

definition tr_wired :: wiring where
  "tr_wired = \<lparr>wi_db = pv_New 0, wi_tb = pv_New 0,
     wi_mm = \<lparr>mc_Enabled = False, mc_Lookback = 0, mc_MinTradesPerSide = 0, mc_NeutralityTol = 0\<rparr>,
     wi_quiet = True, wi_accumulation = True, wi_ownership = True\<rparr>"

definition tr_loop :: Loop where
  "tr_loop = dt_New (e2e_cfg\<lparr>dt_NewWallet := \<lparr>wc_Enabled = True, wc_MaxAge = 24 * Hour, wc_MaxHistoryTrades = 0\<rparr>,
     dt_DormantWallet := \<lparr>dd_Enabled = True, dd_MinIdle = 24 * Hour, dd_MinNotionalUSD = 0\<rparr>\<rparr>) mc_New
     \<lparr>at_rows = [], at_next = 1\<rparr>"

lemma tr_tables_eval:
  "ra_traders tr_tables = \<lparr>wt_rows = [\<lparr>wr_ID = 1, wr_Wallet = ''w'', wr_FirstSeenAt = 49 * Hour, wr_LastSeenAt = 49 * Hour\<rparr>],
     wt_next = 2\<rparr>"
  "map (\<lambda>r. (tx_ID r, tx_MarketID r, tx_TraderID r, tx_OutcomeToken r, tx_TradedAt r)) (tt_rows (ra_trades tr_tables)) =
     [(1, 1, Some 1, ''t1'', Hour), (2, 1, Some 1, ''t1'', 50 * Hour)]"
  by code_simp+

lemma tr_dormant: "dormantWalletRef tr_loop (wire tr_wired (rd_view tr_tables (no_fault (50 * Hour))) (e2e_env 0)) ''w''
    (fl 1500) (50 * Hour) None = Some \<lparr>dw_LastSeenAt = Hour, dw_IdleDuration = 49 * Hour\<rparr>"
  by code_simp

lemma dormant_wallet_was_idle_witness:
  "let e = rd_view tr_tables (no_fault (50 * Hour));
       dw = dormantWalletRef tr_loop (wire tr_wired e (e2e_env 0)) ''w'' (fl 1500) (50 * Hour) None
   in dw \<noteq> None \<and> (\<exists>r \<in> set (tt_rows (rd_trades e)). tx_TradedAt r = dw_LastSeenAt (the dw))"
proof -
  have "\<not> IsZero (50 * Hour)" by code_simp
  from dormant_wallet_was_idle [OF tr_dormant this] show ?thesis unfolding tr_dormant Let_def by auto
qed

definition tr_quiet :: Loop where
  "tr_quiet = dt_New (e2e_cfg\<lparr>dt_QuietMarket := Some \<lparr>qc_Enabled = True, qc_MaxTradesPerDay = fl 5,
     qc_MaxNotionalPerDayUSD = fl 100000, qc_MinIdleDuration = 24 * Hour, qc_MinCurrentNotionalUSD = fl 1000,
     qc_MinMultiplier = 0\<rparr>\<rparr>) mc_New \<lparr>at_rows = [], at_next = 1\<rparr>"

definition tr_stats :: Stats where
  "tr_stats = no_stats\<lparr>st_Count := 2, st_TotalUSD := fl 3000, st_SpanActual := 49 * Hour\<rparr>"

lemma quiet_market_was_idle_witness:
  "let e = rd_view tr_tables (no_fault (50 * Hour));
       f = stampQuietMarket tr_quiet (wire tr_wired e (e2e_env 0)) zero_finding e2e_market
             \<lparr>ky_Category = 0, ky_Market = ''m1'', ky_OutcomeToken = ''t1''\<rparr> tr_stats (fl 1500) (50 * Hour)
   in map_option qr_IdleDuration (fi_QuietMarket f) = Some (49 * Hour) \<and>
      list_all (\<lambda>r. tx_TradedAt r < 50 * Hour \<longrightarrow> tx_TradedAt r \<le> 26 * Hour) (tt_rows (rd_trades e))"
proof -
  let ?e = "rd_view tr_tables (no_fault (50 * Hour))"
  let ?k = "\<lparr>ky_Category = 0, ky_Market = ''m1'', ky_OutcomeToken = ''t1''\<rparr>"
  let ?f = "stampQuietMarket tr_quiet (wire tr_wired ?e (e2e_env 0)) zero_finding e2e_market ?k tr_stats (fl 1500) (50 * Hour)"
  let ?qm = "the (dt_QuietMarket (lp_cfg tr_quiet))"
  have q: "map_option qr_IdleDuration (fi_QuietMarket ?f) = Some (49 * Hour)" by code_simp
  have z: "fi_QuietMarket zero_finding = None" by (simp add: zero_finding_def)
  have h0: "fi_QuietMarket ?f \<noteq> fi_QuietMarket zero_finding" unfolding z using q by (metis option.distinct(1) option.map_disc_iff)
  have h: "dt_QuietMarket (lp_cfg tr_quiet) = Some ?qm"
    "0 < qc_MinIdleDuration ?qm" "\<not> IsZero (50 * Hour)" "wi_quiet tr_wired"
    "list_all (\<lambda>r. \<not> IsZero (tx_TradedAt r)) (tt_rows (rd_trades ?e))"
    by code_simp+
  have n: "rd_marketFault ?e = None" "rd_tradeFault ?e = None" "mk_ID e2e_market \<noteq> ''''"
    "market_id (rd_markets ?e) (mk_ID e2e_market) = Some 1" "qc_MinIdleDuration ?qm = 24 * Hour"
    "list_all (\<lambda>r. tx_MarketID r = 1 \<and> tx_OutcomeToken r = ''t1'') (tt_rows (rd_trades ?e))" by code_simp+
  have "\<forall>r \<in> set (tt_rows (rd_trades ?e)). tx_TradedAt r < 50 * Hour \<longrightarrow> tx_TradedAt r \<le> 50 * Hour - qc_MinIdleDuration ?qm"
    using quiet_market_was_idle [OF h0 h] n(1-4,6) by (fastforce simp: list_all_iff)
  then show ?thesis unfolding Let_def list_all_iff using q by (simp add: n(5))
qed

text \<open>C24. The age of a wallet is not the age of its trades: a wallet whose row was written at \<open>seen\<close>, when it
  was first persisted, is reported new until \<open>seen + MaxAge\<close>, whatever the table of trades holds of
  it and however long its history is, and it is never reported dormant in that time.\<close>

theorem new_wallet_ignores_history:
  assumes "wallet \<noteq> ''''" "wallet_id tbl wallet = None" "rd_traders e = fst (UpsertTrader seen wallet tbl)"
    and "rd_traderFault e = None" "wc_Enabled (dt_NewWallet (lp_cfg l))" "0 < wc_MaxAge (dt_NewWallet (lp_cfg l))"
    and "t_sub (rd_now e) seen \<le> wc_MaxAge (dt_NewWallet (lp_cfg l))"
  shows "let env = wire w (e\<lparr>rd_trades := trades\<rparr>) ev; nw = newWalletRef l env wallet historyTrades
    in nw = Some \<lparr>nw_FirstSeenAt = seen, nw_AgeAtTrade = t_sub (rd_now e) seen, nw_HistoryTrades = historyTrades,
         nw_IsNew = True\<rparr> \<and> dormantWalletRef l env wallet notional tradedAt nw = None"
proof -
  have "wt_lookup wallet (rd_traders e) =
      Some \<lparr>wr_ID = wt_next tbl, wr_Wallet = wallet, wr_FirstSeenAt = seen, wr_LastSeenAt = seen\<rparr>"
    using assms(2,3) by (simp add: wallet_id_def wt_lookup_update)
  then have "traders_get (e\<lparr>rd_trades := trades\<rparr>) wallet = Inr \<lparr>tr_ID = wt_next tbl, tr_FirstSeenAt = seen\<rparr>"
    using assms(4) by (simp add: traders_get_def GetByWallet_def)
  then show ?thesis using assms(1,5-7)
    by (simp add: newWalletRef_def dormantWalletRef_def Let_def split: option.split)
qed

lemma new_wallet_ignores_history_witness:
  "let e = rd_view tr_tables (no_fault (50 * Hour)); env = wire tr_wired e (e2e_env 0)
   in newWalletRef tr_loop env ''w'' 5000 = Some \<lparr>nw_FirstSeenAt = 49 * Hour, nw_AgeAtTrade = Hour,
        nw_HistoryTrades = 5000, nw_IsNew = True\<rparr> \<and>
      rp_TraderFirstSeenAt None 1 (rd_trades e) = Inr Hour"
proof -
  let ?e = "rd_view tr_tables (no_fault (50 * Hour))"
  have h: "''w'' \<noteq> ''''" "wallet_id \<lparr>wt_rows = [], wt_next = 1\<rparr> ''w'' = None"
    "rd_traders ?e = fst (UpsertTrader (49 * Hour) ''w'' \<lparr>wt_rows = [], wt_next = 1\<rparr>)" "rd_traderFault ?e = None"
    "wc_Enabled (dt_NewWallet (lp_cfg tr_loop))" "0 < wc_MaxAge (dt_NewWallet (lp_cfg tr_loop))"
    "t_sub (rd_now ?e) (49 * Hour) \<le> wc_MaxAge (dt_NewWallet (lp_cfg tr_loop))" by code_simp+
  have v: "t_sub (rd_now ?e) (49 * Hour) = Hour" "?e\<lparr>rd_trades := rd_trades ?e\<rparr> = ?e" by code_simp simp
  have "rp_TraderFirstSeenAt None 1 (rd_trades ?e) = Inr Hour" by code_simp
  then show ?thesis using new_wallet_ignores_history [OF h, of tr_wired "rd_trades ?e" "e2e_env 0" 5000] v
    by (simp add: Let_def)
qed

subsection \<open>Self-counting\<close>

lemma percentile_single: "percentile_cont p [x] = (if p = NaN \<or> p = PInf \<or> p = NInf then percentile_cont p [x] else x)"
proof (cases p)
  case (Fin r)
  then have "p * of_i 0 = 0" by (simp add: zero_f64)
  then show ?thesis using Fin by (simp add: percentile_cont_def pg_sort_def zero_f64)
qed simp_all

lemma fl_fin: "r \<noteq> 0 \<Longrightarrow> \<bar>r\<bar> < 1 \<Longrightarrow> fl r \<noteq> PInf \<and> fl r \<noteq> NInf \<and> fl r \<noteq> NaN"
  using fl_le_int [of r 1] fl_ge_int [of "-1" r] by (cases "fl r") (auto simp: abs_less_iff)

lemma percentile_one: "0 < r \<Longrightarrow> r < 1 \<Longrightarrow> percentile_cont (fl r) [x] = x"
  using percentile_single [of "fl r" x] fl_fin [of r] by auto

lemma self_ratio: "0 < x \<Longrightarrow> isfin x \<Longrightarrow> safeRatio x x = 1"
  by (cases x) (auto simp: safeRatio_def zero_f64 one_f64)

text \<open>C28. Trades are scored against themselves: with the baseline read from the table, the first trade of an
  outcome, once stored, finds a baseline of one trade whose mean, median and percentiles are its own
  notional, so its ratio to the 95th percentile is 1; the reservoir in memory has no baseline then.\<close>

theorem first_trade_is_its_own_baseline:
  assumes "InsertTrade now None key t tbl = (tbl', Inr True)" "bucket (it_MarketID t) (it_OutcomeToken t) tbl = []"
    and "rd_trades e = tbl'" "market_id (rd_markets e) cond = Some (it_MarketID t)"
    and "rd_marketFault e = None" "rd_tradeFault e = None"
    and "pv_Window p \<le> 0 \<or> rd_now e - pv_Window p \<le> it_TradedAt t" "pv_idCache p cond = None"
    and "0 < it_NotionalUSD t" "isfin (it_NotionalUSD t)" "f64_ok (it_NotionalUSD t)"
  shows "let x = it_NotionalUSD t;
      st = \<lparr>st_Count = 1, st_MeanUSD = x, st_MedianUSD = x, st_P95USD = x, st_P99USD = x, st_TotalUSD = x,
            st_SpanActual = 0, st_OldestAt = it_TradedAt t\<rparr>
    in snd (db_Stats e cond (it_OutcomeToken t) p) = Inr st \<and>
       rs_MarketP95Ratio (sc_base x (it_Price t) st trader th) = 1 \<and>
       snd (bl_Stats (bl_New cfg) (rd_now e) k) = no_stats"
proof -
  let ?x = "it_NotionalUSD t" and ?r = "new_row now (tt_next tbl) key t"
  have "tbl' = tbl\<lparr>tt_next := tt_next tbl + 1, tt_rows := tt_rows tbl @ [?r]\<rparr>"
    using assms(1) by (auto simp: InsertTrade_def Let_def split: if_splits)
  then have b: "bucket (it_MarketID t) (it_OutcomeToken t) (rd_trades e) = [?r]"
    using assms(2,3) by (simp add: bucket_def new_row_def)
  have s: "since_or_all (tsFromTime (pv_since p (rd_now e))) ?r"
    using assms(7) by (auto simp: since_or_all_def pv_since_def tsFromTime_def new_row_def IsZero_def split: option.split)
  have m: "0 + ?x = ?x" "?x / 1 = ?x" using assms(10,11) f64_div_1 by (cases "?x"; simp add: zero_f64)+
  have d: "dist_of [?r] = \<lparr>di_SampleCount = 1, di_TotalNotionalUSD = ?x, di_MeanNotionalUSD = ?x,
      di_MedianNotionalUSD = ?x, di_P95NotionalUSD = ?x, di_P99NotionalUSD = ?x, di_OldestAt = it_TradedAt t,
      di_NewestAt = it_TradedAt t\<rparr>"
    using m by (simp add: dist_of_def Let_def new_row_def percentile_one pg_sum_def pg_avg_def ts_min_def ts_max_def tsTime_def)
  obtain dm where "GetByConditionID cond (rd_markets e) = Some dm" "dm_ID dm = it_MarketID t"
    using assms(4) by (auto simp: market_id_def)
  then have "snd (db_Stats e cond (it_OutcomeToken t) p) = Inr (stats_of (dist_of [?r]))"
    using assms(5,6,8) b s by (simp add: db_Stats_def db_resolveID_def rp_Distribution_def q_BaselineDistribution_def wrapped_def)
  then show ?thesis using assms(9,10) self_ratio [of ?x]
    by (simp add: d stats_of_def di_Span_def sc_base_def bl_Stats_def bl_New_def Let_def)
qed

lemma first_trade_is_its_own_baseline_witness:
  "let t = tr_trade ''a'' Hour; tbl = fst (InsertTrade (49 * Hour) None ''ext:a'' t \<lparr>tt_rows = [], tt_next = 1\<rparr>);
       e = (rd_view tr_tables (no_fault (50 * Hour)))\<lparr>rd_trades := tbl\<rparr>
   in snd (db_Stats e ''m1'' ''t1'' (pv_New 0)) = Inr \<lparr>st_Count = 1, st_MeanUSD = fl 1500, st_MedianUSD = fl 1500,
        st_P95USD = fl 1500, st_P99USD = fl 1500, st_TotalUSD = fl 1500, st_SpanActual = 0, st_OldestAt = Hour\<rparr>"
proof -
  let ?t = "tr_trade ''a'' Hour"
  let ?ins = "InsertTrade (49 * Hour) None ''ext:a'' ?t \<lparr>tt_rows = [], tt_next = 1\<rparr>"
  let ?e = "(rd_view tr_tables (no_fault (50 * Hour)))\<lparr>rd_trades := fst ?ins\<rparr>"
  have h: "?ins = (fst ?ins, Inr True)" "bucket (it_MarketID ?t) (it_OutcomeToken ?t) \<lparr>tt_rows = [], tt_next = 1\<rparr> = []"
    "rd_trades ?e = fst ?ins" "market_id (rd_markets ?e) ''m1'' = Some (it_MarketID ?t)"
    "rd_marketFault ?e = None" "rd_tradeFault ?e = None"
    "pv_Window (pv_New 0) \<le> 0 \<or> rd_now ?e - pv_Window (pv_New 0) \<le> it_TradedAt ?t" "pv_idCache (pv_New 0) ''m1'' = None"
    "0 < it_NotionalUSD ?t" "isfin (it_NotionalUSD ?t)" "f64_ok (it_NotionalUSD ?t)" by code_simp+
  have v: "it_NotionalUSD ?t = fl 1500" "it_OutcomeToken ?t = ''t1''" "it_TradedAt ?t = Hour" by (simp_all add: tr_trade_def)
  show ?thesis using first_trade_is_its_own_baseline [OF h] unfolding Let_def v by (rule conjunct1)
qed

subsection \<open>The caches of the providers\<close>

text \<open>C26. The id caches are transparent: in any run of writes to the tables, reads and forgets, every answer
  of a provider is that of a provider made for the one call on the same tables, either with the
  faults of the moment or with lookups that work. A cached id never goes stale.\<close>

theorem provider_caches_transparent:
  "list_all2 (\<lambda>a (x, y). a \<in> {x, y}) (rd_answers rd_empty (pv_New wdb, pv_New wtb) ops) (rd_reference wdb wtb rd_empty ops)"
proof (rule rd_answers_fresh)
  show "mt_inv (ra_markets rd_empty)" by (simp add: rd_empty_def mt_inv_def mt_empty_def)
qed simp_all

text \<open>A suppression of the market-maker filter has its evidence in the table.\<close>

lemma mm_suppression_has_evidence:
  assumes "mv_Suppress (fst (decide wallet mid token))" "ev_MMFilter (wire w e ev) = Some decide"
  shows "\<exists>tid. wallet_id (rd_traders e) wallet = Some tid \<and>
    (let cfg = mm_New (wi_mm w);
         n = (\<lambda>side. int (length (filter (\<lambda>r. tx_TraderID r = Some tid \<and> tx_Side r = side \<and>
               since_or_all (tsFromTime (if 0 < mc_Lookback cfg then rd_now e - mc_Lookback cfg else zero_time)) r)
             (bucket mid token (rd_trades e)))))
     in mc_MinTradesPerSide cfg \<le> n ''BUY'' \<and> mc_MinTradesPerSide cfg \<le> n ''SELL'')"
proof -
  let ?cfg = "mm_New (wi_mm w)"
  let ?since = "if 0 < mc_Lookback ?cfg then rd_now e - mc_Lookback ?cfg else zero_time"
  have d: "decide wallet mid token = mm_Decide ?cfg (rd_now e) (Some (\<lambda>wallet. map_sum id tr_ID (traders_get e wallet)))
      (Some (\<lambda>tid mid token since. rp_SideActivity (rd_tradeFault e) tid mid token since (rd_trades e))) wallet mid token"
    using assms(2) by (auto simp: wire_def)
  obtain tid act where t: "map_sum id tr_ID (traders_get e wallet) = Inr tid"
    "rp_SideActivity (rd_tradeFault e) tid mid token ?since (rd_trades e) = Inr act"
    "mc_MinTradesPerSide ?cfg \<le> sa_BuyCount act" "mc_MinTradesPerSide ?cfg \<le> sa_SellCount act"
    using assms(1) unfolding d mm_Decide_def Let_def
    by (auto simp: mm_pass_def split: if_splits sum.splits)
  have "wallet_id (rd_traders e) wallet = Some tid"
    using t(1) by (auto simp: traders_get_def GetByWallet_def wallet_id_def split: option.splits sum.splits)
  moreover have "sa_BuyCount act = int (length (filter (\<lambda>r. tx_TraderID r = Some tid \<and> tx_Side r = ''BUY'' \<and> since_or_all (tsFromTime ?since) r)
      (bucket mid token (rd_trades e))))"
    "sa_SellCount act = int (length (filter (\<lambda>r. tx_TraderID r = Some tid \<and> tx_Side r = ''SELL'' \<and> since_or_all (tsFromTime ?since) r)
      (bucket mid token (rd_trades e))))"
    using t(2) by (auto simp: rp_SideActivity_def q_TraderMarketSideActivity_def wrapped_def Let_def conj_commute conj_left_commute split: option.splits
      intro!: arg_cong [where f = length] filter_cong)
  ultimately show ?thesis using t(3,4) by (auto simp: Let_def)
qed

text \<open>
  A zero \<open>Since\<close>, which the type of the query says disables the bound, makes the summary and the listing
  empty: their statements compare with NULL.
\<close>

lemma zero_since_reads_nothing:
  "map_sum id bs_SampleCount (rp_SummarizeBaseline None mid token zero_time tbl) = Inr 0"
  "rp_ListBaseline None mid token zero_time limit tbl = Inr []"
  by (simp_all add: rp_SummarizeBaseline_def q_BaselineSpan_def rp_ListBaseline_def q_ListBaselineTrades_def wrapped_def
      since_only_def tsFromTime_def IsZero_def)
end
