(* ===== verification/StagedTables.thy ===== *)
theory StagedTables
  imports TradeReads StrategyValue
begin

text \<open>
  The tables that feed the second-generation strategies (\<open>sqlc/strategy_shadow.sql.go\<close> with
  \<open>db/queries/strategy_shadow.sql\<close> and migrations 00017, 00030, 00033 and 00034): market links, event
  catalysts, repricing windows, risk scores, wallet edges, thesis lines, holder snapshots and book
  bars. A NOT NULL timestamp is a time, a nullable column an option, NULL fails every comparison, and
  NaN is the greatest double. A LIMIT is not negative. Rows with equal sort keys, and groups and
  distinct values, come in the order of the table.
\<close>

subsection \<open>Rows\<close>

record LinkRow =
  lk_Src :: string
  lk_Dst :: string
  lk_LinkType :: string
  lk_Direction :: string
  lk_Confidence :: float64
  lk_EventSlug :: string
  lk_SeriesID :: string
  lk_Version :: int

record CatalystRow =
  cy_EventSlug :: string
  cy_CatalystType :: string
  cy_Title :: string
  cy_ExpectedAt :: "time option"
  cy_Confidence :: float64
  cy_Status :: string

record WindowRow =
  wn_ID :: int
  wn_ConditionID :: string
  wn_EventSlug :: string
  wn_TriggerKind :: string
  wn_TriggerRef :: string
  wn_OpenedAt :: time
  wn_ClosesAt :: time
  wn_ExpectedImpactMin :: "float64 option"
  wn_ExpectedImpactMax :: "float64 option"
  wn_SideBias :: string
  wn_BaselinePrice :: "float64 option"
  wn_Status :: string
  wn_ResolvedAt :: "time option"
  wn_ObservedMove :: "float64 option"
  wn_PeerMove :: "float64 option"
  wn_LagScore :: "float64 option"
  wn_Notes :: string

record WindowTable =
  wit_rows :: "WindowRow list"
  wit_next :: int

record RiskRow =
  rq_ConditionID :: string
  rq_ScoreVersion :: int
  rq_AmbiguityScore :: float64
  rq_DisputeRisk :: float64
  rq_ReasonsJson :: "string option"
  rq_IsActive :: bool
  rq_ComputedAt :: time

record EdgeRow =
  eg_WalletA :: string
  eg_WalletB :: string
  eg_Kind :: string
  eg_SimilarityScore :: float64
  eg_CoEventsCount :: int
  eg_CohortID :: string
  eg_FirstSeenAt :: time
  eg_LastSeenAt :: time
  eg_Version :: int

record LineRow =
  li_Wallet :: string
  li_ConditionID :: string
  li_EventSlug :: string
  li_Side :: string
  li_NotionalUSD :: float64
  li_Trades :: int
  li_LastTradedAt :: time
  li_LookbackHours :: int
  li_RefreshedAt :: time

record HolderSnapRow =
  ho_ConditionID :: string
  ho_OutcomeToken :: string
  ho_SnapshotAt :: time
  ho_Wallet :: string
  ho_Rank :: int
  ho_Shares :: float64
  ho_NotionalUSD :: float64
  ho_PctOI :: float64
  ho_TotalOI :: float64

record BarRow =
  br_ConditionID :: string
  br_OutcomeToken :: string
  br_BarSeconds :: int
  br_BarStart :: time
  br_BestBid :: "float64 option"
  br_BestAsk :: "float64 option"
  br_MidPrice :: "float64 option"
  br_BidDepthTopN :: "float64 option"
  br_AskDepthTopN :: "float64 option"
  br_Spread :: "float64 option"
  br_SpreadZ :: "float64 option"
  br_BidDepthDeltaPct :: "float64 option"
  br_AskDepthDeltaPct :: "float64 option"
  br_MidDelta :: "float64 option"

subsection \<open>Sorting and upserting\<close>

text \<open>\<open>ORDER BY f DESC\<close> on a double: NaN comes first.\<close>

fun desc_insert :: "('a \<Rightarrow> float64) \<Rightarrow> 'a \<Rightarrow> 'a list \<Rightarrow> 'a list" where
  "desc_insert f x [] = [x]"
| "desc_insert f x (y # ys) = (if pg_le (f y) (f x) then x # y # ys else y # desc_insert f x ys)"

definition desc_on :: "('a \<Rightarrow> float64) \<Rightarrow> 'a list \<Rightarrow> 'a list" where
  "desc_on f xs = foldr (desc_insert f) xs []"

lemma set_desc_insert [simp]: "set (desc_insert f x ys) = insert x (set ys)"
  by (induction ys) auto

lemma set_desc_on [simp]: "set (desc_on f xs) = set xs"
  by (induction xs) (auto simp: desc_on_def)

text \<open>\<open>ORDER BY t ASC NULLS LAST\<close>.\<close>

definition asc_nulls_last :: "('a \<Rightarrow> time option) \<Rightarrow> 'a list \<Rightarrow> 'a list" where
  "asc_nulls_last f xs =
     sort_key (\<lambda>x. the (f x)) (filter (\<lambda>x. f x \<noteq> None) xs) @ filter (\<lambda>x. f x = None) xs"

lemma set_asc_nulls_last [simp]: "set (asc_nulls_last f xs) = set xs"
  by (auto simp: asc_nulls_last_def)

text \<open>
  The insertion sort the Go code writes out: each element moves left past those for which \<open>swap\<close> holds.
\<close>

definition go_insert :: "('a \<Rightarrow> 'a \<Rightarrow> bool) \<Rightarrow> 'a \<Rightarrow> 'a list \<Rightarrow> 'a list" where
  "go_insert swap x ys =
     (let moved = takeWhile (\<lambda>y. swap y x) (rev ys) in rev (drop (length moved) (rev ys)) @ x # rev moved)"

definition go_isort :: "('a \<Rightarrow> 'a \<Rightarrow> bool) \<Rightarrow> 'a list \<Rightarrow> 'a list" where
  "go_isort swap xs = foldl (\<lambda>ys x. go_insert swap x ys) [] xs"

lemma mset_go_insert [simp]: "mset (go_insert swap x ys) = add_mset x (mset ys)"
proof -
  have "mset (rev ys) = mset (takeWhile (\<lambda>y. swap y x) (rev ys)) + mset (dropWhile (\<lambda>y. swap y x) (rev ys))"
    by (metis mset_append takeWhile_dropWhile_id)
  then show ?thesis by (simp add: go_insert_def Let_def dropWhile_eq_drop [symmetric])
qed

lemma mset_go_isort [simp]: "mset (go_isort swap xs) = mset xs"
proof -
  have "mset (foldl (\<lambda>ys x. go_insert swap x ys) ys xs) = mset ys + mset xs" for ys
    by (induction xs arbitrary: ys) auto
  then show ?thesis by (simp add: go_isort_def)
qed

lemma set_go_isort [simp]: "set (go_isort swap xs) = set xs"
  by (metis mset_go_isort set_mset_mset)

text \<open>It sorts by a relation whose failure is total and transitive, like the order on finite doubles.\<close>

lemma sorted_go_insert:
  assumes "sorted_wrt (\<lambda>a b. \<not> swap a b) ys"
    and total: "\<And>a b. a \<in> insert x (set ys) \<Longrightarrow> b \<in> insert x (set ys) \<Longrightarrow> swap a b \<Longrightarrow> \<not> swap b a"
    and trans: "\<And>a b c. a \<in> insert x (set ys) \<Longrightarrow> b \<in> insert x (set ys) \<Longrightarrow> c \<in> insert x (set ys) \<Longrightarrow>
      \<not> swap a b \<Longrightarrow> \<not> swap b c \<Longrightarrow> \<not> swap a c"
  shows "sorted_wrt (\<lambda>a b. \<not> swap a b) (go_insert swap x ys)"
proof -
  define moved keep where "moved = rev (takeWhile (\<lambda>y. swap y x) (rev ys))" and "keep = rev (dropWhile (\<lambda>y. swap y x) (rev ys))"
  have ys: "ys = keep @ moved"
    unfolding moved_def keep_def by (metis rev_append rev_rev_ident takeWhile_dropWhile_id)
  have g: "go_insert swap x ys = keep @ x # moved"
    by (simp add: go_insert_def Let_def moved_def keep_def dropWhile_eq_drop)
  have m: "\<And>y. y \<in> set moved \<Longrightarrow> swap y x" by (auto simp: moved_def dest: set_takeWhileD)
  have k: "\<not> swap a x" if "a \<in> set keep" for a
  proof (cases keep rule: rev_cases)
    case (snoc ks l)
    then have l: "\<not> swap l x"
      unfolding keep_def by (metis hd_dropWhile hd_rev last_snoc rev_is_Nil_conv rev_rev_ident snoc_eq_iff_butlast)
    show ?thesis
    proof (cases "a = l")
      case False
      then have "\<not> swap a l" using assms(1) that snoc ys by (auto simp: sorted_wrt_append)
      then show ?thesis using trans [of a l x] l that snoc ys by auto
    qed (use l in simp)
  qed (use that in simp)
  have "\<not> swap x y" if "y \<in> set moved" for y
    using total m [OF that] that ys by auto
  then show ?thesis unfolding g using assms(1) k by (auto simp: ys sorted_wrt_append)
qed

text \<open>\<open>INSERT ... ON CONFLICT (key) DO UPDATE\<close>: the old row keeps what \<open>merge\<close> does not replace.\<close>

definition upsert :: "('a \<Rightarrow> 'k) \<Rightarrow> ('a \<Rightarrow> 'a \<Rightarrow> 'a) \<Rightarrow> 'a \<Rightarrow> 'a list \<Rightarrow> 'a list" where
  "upsert key merge new rows =
     (if list_ex (\<lambda>r. key r = key new) rows
      then map (\<lambda>r. if key r = key new then merge new r else r) rows
      else rows @ [new])"

text \<open>A table whose keys are unique and whose rows are all of some shape.\<close>

definition table_ok :: "('a \<Rightarrow> 'k) \<Rightarrow> ('a \<Rightarrow> bool) \<Rightarrow> 'a list \<Rightarrow> bool" where
  "table_ok key P rows \<longleftrightarrow> distinct (map key rows) \<and> list_all P rows"

lemma table_ok_Nil [simp]: "table_ok key P []"
  by (simp add: table_ok_def)

text \<open>
  A table with a UNIQUE key: an upsert keeps the keys unique, leaves a row for the key of what is
  written, and touches no other row.
\<close>

locale unique_table =
  fixes key :: "'a \<Rightarrow> 'k" and merge :: "'a \<Rightarrow> 'a \<Rightarrow> 'a"
  assumes keeps_key: "key r = key new \<Longrightarrow> key (merge new r) = key new"
begin

lemma upsert_unique: "distinct (map key rows) \<Longrightarrow> distinct (map key (upsert key merge new rows))"
proof -
  assume d: "distinct (map key rows)"
  have "map (key \<circ> (\<lambda>r. if key r = key new then merge new r else r)) rows = map key rows"
    by (simp add: keeps_key)
  then show ?thesis
    using d by (auto simp: upsert_def list_ex_iff simp flip: map_map)
qed

lemma upsert_present: "\<exists>r \<in> set (upsert key merge new rows). key r = key new"
proof (cases "list_ex (\<lambda>r. key r = key new) rows")
  case True
  then obtain r where r: "r \<in> set rows" "key r = key new" by (auto simp: list_ex_iff)
  then have "merge new r \<in> set (upsert key merge new rows)" using True by (force simp: upsert_def)
  then show ?thesis using keeps_key [OF r(2)] by blast
qed (simp add: upsert_def)

lemma upsert_elsewhere:
  "key r \<noteq> key new \<Longrightarrow> r \<in> set (upsert key merge new rows) \<longleftrightarrow> r \<in> set rows"
  by (auto simp: upsert_def list_ex_iff keeps_key image_iff)

lemma upsert_keeps:
  assumes "table_ok key P rows" "P new" "\<And>r. P r \<Longrightarrow> key r = key new \<Longrightarrow> P (merge new r)"
  shows "table_ok key P (upsert key merge new rows)"
proof -
  have "list_all P (upsert key merge new rows)"
    using assms by (auto simp: table_ok_def list_all_iff upsert_def)
  then show ?thesis using upsert_unique assms(1) by (simp add: table_ok_def)
qed

end

subsection \<open>Statements\<close>

definition link_key :: "LinkRow \<Rightarrow> string \<times> string \<times> string \<times> int" where
  "link_key r = (lk_Src r, lk_Dst r, lk_LinkType r, lk_Version r)"

definition link_merge :: "LinkRow \<Rightarrow> LinkRow \<Rightarrow> LinkRow" where
  "link_merge new r = r\<lparr>lk_Direction := lk_Direction new, lk_Confidence := lk_Confidence new,
     lk_EventSlug := lk_EventSlug new, lk_SeriesID := lk_SeriesID new\<rparr>"

text \<open>The CHECK of the table on the direction.\<close>

definition q_UpsertMarketLink :: "string option \<Rightarrow> LinkRow \<Rightarrow> LinkRow list \<Rightarrow> LinkRow list \<times> string option" where
  "q_UpsertMarketLink fault e rows =
     (case fault of Some err \<Rightarrow> (rows, Some err)
      | None \<Rightarrow> if lk_Direction e \<in> {''aligned'', ''opposed'', ''unknown''} then (upsert link_key link_merge e rows, None)
               else (rows, Some ''check constraint''))"

definition q_ListMarketLinksForEvent :: "string \<Rightarrow> int \<Rightarrow> int \<Rightarrow> LinkRow list \<Rightarrow> LinkRow list" where
  "q_ListMarketLinksForEvent slug ver limit rows =
     take (nat limit) (desc_on lk_Confidence (filter (\<lambda>r. lk_EventSlug r = slug \<and> lk_Version r = ver) rows))"

definition q_ListPeerConditionsByMarketLinks :: "string \<Rightarrow> int \<Rightarrow> int \<Rightarrow> LinkRow list \<Rightarrow> string list" where
  "q_ListPeerConditionsByMarketLinks src ver limit rows =
     take (nat limit) (remdups (map lk_Dst (filter (\<lambda>r. lk_Src r = src \<and> lk_Version r = ver) rows)))"

definition pending_status :: "string \<Rightarrow> bool" where
  "pending_status s \<longleftrightarrow> s = ''expected'' \<or> s = ''active''"

definition q_ListCatalystsForEvent :: "string \<Rightarrow> int \<Rightarrow> CatalystRow list \<Rightarrow> CatalystRow list" where
  "q_ListCatalystsForEvent slug limit rows =
     take (nat limit) (asc_nulls_last cy_ExpectedAt
       (filter (\<lambda>r. cy_EventSlug r = slug \<and> pending_status (cy_Status r)) rows))"

text \<open>\<open>t >= $since\<close>, false when either is NULL.\<close>

definition at_or_after :: "time option \<Rightarrow> time option \<Rightarrow> bool" where
  "at_or_after since t \<longleftrightarrow> (case (since, t) of (Some s, Some t) \<Rightarrow> s \<le> t | _ \<Rightarrow> False)"

definition q_ListRepricingTriggers :: "time option \<Rightarrow> int \<Rightarrow> CatalystRow list \<Rightarrow> CatalystRow list" where
  "q_ListRepricingTriggers since limit rows =
     take (nat limit) (sort_key (\<lambda>r. - the (cy_ExpectedAt r))
       (filter (\<lambda>r. at_or_after since (cy_ExpectedAt r) \<and> pending_status (cy_Status r)) rows))"

text \<open>
  A window: opened and closed times are NOT NULL, and the statuses are those of migration 00033.
  \<open>now\<close> is the database's.
\<close>

definition q_InsertRepricingWindow :: "string option \<Rightarrow> string \<Rightarrow> string \<Rightarrow> string \<Rightarrow> string \<Rightarrow> time option \<Rightarrow> time option
    \<Rightarrow> float64 option \<Rightarrow> float64 option \<Rightarrow> string \<Rightarrow> float64 option \<Rightarrow> WindowTable \<Rightarrow> WindowTable \<times> (string + int)" where
  "q_InsertRepricingWindow fault cond slug kind ref opened_at closes_at imin imax bias baseline tbl =
     (case fault of Some e \<Rightarrow> (tbl, Inl e)
      | None \<Rightarrow>
          (let nxt = tbl\<lparr>wit_next := wit_next tbl + 1\<rparr>
           in case (opened_at, closes_at) of
                (Some t0, Some t1) \<Rightarrow>
                  (nxt\<lparr>wit_rows := wit_rows tbl @
                     [\<lparr>wn_ID = wit_next tbl, wn_ConditionID = cond, wn_EventSlug = slug, wn_TriggerKind = kind,
                       wn_TriggerRef = ref, wn_OpenedAt = t0, wn_ClosesAt = t1, wn_ExpectedImpactMin = imin,
                       wn_ExpectedImpactMax = imax, wn_SideBias = bias, wn_BaselinePrice = baseline,
                       wn_Status = ''open'', wn_ResolvedAt = None, wn_ObservedMove = None, wn_PeerMove = None,
                       wn_LagScore = None, wn_Notes = ''''\<rparr>]\<rparr>, Inr (wit_next tbl))
              | _ \<Rightarrow> (nxt, Inl ''not-null constraint'')))"

definition window_statuses :: "string list" where
  "window_statuses = [''open'', ''closed_no_lag'', ''closed_lag_detected'', ''closed_blocked'', ''stale_missing_price'',
     ''stale_missing_peers'']"

definition resolve_window :: "time \<Rightarrow> string \<Rightarrow> float64 option \<Rightarrow> float64 option \<Rightarrow> float64 option \<Rightarrow> string \<Rightarrow> WindowRow \<Rightarrow> WindowRow" where
  "resolve_window now status obs peer lag notes r =
     r\<lparr>wn_Status := status, wn_ResolvedAt := Some now, wn_ObservedMove := obs, wn_PeerMove := peer, wn_LagScore := lag,
       wn_Notes := notes\<rparr>"

definition q_CloseRepricingWindow :: "time \<Rightarrow> string option \<Rightarrow> int \<Rightarrow> string \<Rightarrow> float64 option \<Rightarrow> float64 option \<Rightarrow> float64 option
    \<Rightarrow> string \<Rightarrow> WindowTable \<Rightarrow> WindowTable \<times> string option" where
  "q_CloseRepricingWindow now fault i status obs peer lag notes tbl =
     (case fault of Some e \<Rightarrow> (tbl, Some e)
      | None \<Rightarrow>
          if list_ex (\<lambda>r. wn_ID r = i) (wit_rows tbl) \<and> status \<notin> set window_statuses then (tbl, Some ''check constraint'')
          else (tbl\<lparr>wit_rows := map (\<lambda>r. if wn_ID r = i then resolve_window now status obs peer lag notes r else r)
                  (wit_rows tbl)\<rparr>, None))"

definition q_ListOpenRepricingWindows :: "time option \<Rightarrow> int \<Rightarrow> WindowTable \<Rightarrow> WindowRow list" where
  "q_ListOpenRepricingWindows due limit tbl =
     take (nat limit) (sort_key wn_ClosesAt
       (filter (\<lambda>r. wn_Status r = ''open'' \<and> (case due of None \<Rightarrow> False | Some d \<Rightarrow> wn_ClosesAt r \<le> d)) (wit_rows tbl)))"

definition verdict_status :: "string \<Rightarrow> bool" where
  "verdict_status s \<longleftrightarrow> s = ''closed_lag_detected'' \<or> s = ''closed_no_lag''"

definition q_ListClosedRepricingWindowsForCondition :: "string \<Rightarrow> time option \<Rightarrow> int \<Rightarrow> WindowTable \<Rightarrow> WindowRow list" where
  "q_ListClosedRepricingWindowsForCondition cond since limit tbl =
     take (nat limit) (sort_key (\<lambda>r. - wn_OpenedAt r)
       (filter (\<lambda>r. wn_ConditionID r = cond \<and> verdict_status (wn_Status r) \<and> at_or_after since (Some (wn_OpenedAt r)))
         (wit_rows tbl)))"

definition q_FirstTradePriceForCondition :: "string \<Rightarrow> time option \<Rightarrow> TradeRow list \<Rightarrow> MarketTable \<Rightarrow> float64 option" where
  "q_FirstTradePriceForCondition cond t0 trades markets =
     (case sort_key tx_TradedAt
         (filter (\<lambda>t. at_or_after t0 (Some (tx_TradedAt t)) \<and>
            (case mt_find (tx_MarketID t) markets of None \<Rightarrow> False | Some m \<Rightarrow> mr_ConditionID m = cond)) trades) of
        [] \<Rightarrow> None
      | t # _ \<Rightarrow> Some (tx_Price t))"

definition risk_key :: "RiskRow \<Rightarrow> string \<times> int" where
  "risk_key r = (rq_ConditionID r, rq_ScoreVersion r)"

definition risk_merge :: "RiskRow \<Rightarrow> RiskRow \<Rightarrow> RiskRow" where
  "risk_merge new r = r\<lparr>rq_AmbiguityScore := rq_AmbiguityScore new, rq_DisputeRisk := rq_DisputeRisk new,
     rq_ReasonsJson := rq_ReasonsJson new, rq_IsActive := True, rq_ComputedAt := rq_ComputedAt new\<rparr>"

definition q_UpsertMarketRiskScore :: "time \<Rightarrow> string option \<Rightarrow> string \<Rightarrow> int \<Rightarrow> float64 \<Rightarrow> float64 \<Rightarrow> string option
    \<Rightarrow> RiskRow list \<Rightarrow> RiskRow list \<times> string option" where
  "q_UpsertMarketRiskScore now fault cond ver amb dis why rows =
     (case fault of Some e \<Rightarrow> (rows, Some e)
      | None \<Rightarrow>
          (upsert risk_key risk_merge \<lparr>rq_ConditionID = cond, rq_ScoreVersion = ver, rq_AmbiguityScore = amb, rq_DisputeRisk = dis,
             rq_ReasonsJson = why, rq_IsActive = True, rq_ComputedAt = now\<rparr> rows, None))"

definition q_GetActiveRiskScoreForCondition :: "string \<Rightarrow> RiskRow list \<Rightarrow> RiskRow option" where
  "q_GetActiveRiskScoreForCondition cond rows =
     (case sort_key (\<lambda>r. - rq_ComputedAt r) (filter (\<lambda>r. rq_ConditionID r = cond \<and> rq_IsActive r) rows) of
        [] \<Rightarrow> None
      | r # _ \<Rightarrow> Some r)"

text \<open>
  The markets with the time of each active score, NULL replaced by the epoch, stalest first; among
  those the newest market.
\<close>

definition q_ListRiskScoreCandidates :: "int \<Rightarrow> MarketTable \<Rightarrow> RiskRow list \<Rightarrow> MarketRow list" where
  "q_ListRiskScoreCandidates limit markets rows =
     (let joined = concat (map (\<lambda>m. case filter (\<lambda>r. rq_ConditionID r = mr_ConditionID m \<and> rq_IsActive r) rows of
                        [] \<Rightarrow> [(m, 0)]
                      | rs \<Rightarrow> map (\<lambda>r. (m, rq_ComputedAt r)) rs)
                    (filter (\<lambda>m. mr_DeletedAt m = None \<and> mr_PurgedAt m = None) (mt_rows markets)))
      in take (nat limit) (map fst (sort_key snd (sort_key (\<lambda>(m, t). - mr_ID m) joined))))"

definition edge_key :: "EdgeRow \<Rightarrow> string \<times> string \<times> string \<times> int" where
  "edge_key r = (eg_WalletA r, eg_WalletB r, eg_Kind r, eg_Version r)"

definition edge_merge :: "EdgeRow \<Rightarrow> EdgeRow \<Rightarrow> EdgeRow" where
  "edge_merge new r = r\<lparr>eg_SimilarityScore := eg_SimilarityScore new, eg_CoEventsCount := eg_CoEventsCount new,
     eg_LastSeenAt := eg_LastSeenAt new\<rparr>"

text \<open>\<open>wallet_a <= wallet_b\<close> compares text; wallet addresses are ASCII, so byte by byte.\<close>

definition edge_check :: "EdgeRow \<Rightarrow> bool" where
  "edge_check e \<longleftrightarrow> eg_Kind e \<in> {''co_trade'', ''shared_funding'', ''shared_bridge'', ''manual''} \<and>
     eg_WalletA e \<le> eg_WalletB e"

definition q_ListWalletEdgesForWallet :: "string \<Rightarrow> int \<Rightarrow> int \<Rightarrow> EdgeRow list \<Rightarrow> EdgeRow list" where
  "q_ListWalletEdgesForWallet w ver limit rows =
     take (nat limit) (desc_on eg_SimilarityScore
       (filter (\<lambda>r. (eg_WalletA r = w \<or> eg_WalletB r = w) \<and> eg_Version r = ver) rows))"

definition line_key :: "LineRow \<Rightarrow> string \<times> string \<times> string \<times> int" where
  "line_key r = (li_Wallet r, li_ConditionID r, li_Side r, li_LookbackHours r)"

definition line_merge :: "LineRow \<Rightarrow> LineRow \<Rightarrow> LineRow" where
  "line_merge new r = r\<lparr>li_NotionalUSD := li_NotionalUSD new, li_Trades := li_Trades new, li_EventSlug := li_EventSlug new,
     li_LastTradedAt := li_LastTradedAt new, li_RefreshedAt := li_RefreshedAt new\<rparr>"

text \<open>\<open>last_traded_at\<close> is NOT NULL.\<close>

definition q_UpsertWalletThesisLine :: "time \<Rightarrow> string option \<Rightarrow> string \<Rightarrow> string \<Rightarrow> string \<Rightarrow> string \<Rightarrow> float64 \<Rightarrow> int \<Rightarrow> time option
    \<Rightarrow> int \<Rightarrow> LineRow list \<Rightarrow> LineRow list \<times> string option" where
  "q_UpsertWalletThesisLine now fault w cond slug side notional n traded hours rows =
     (case fault of Some e \<Rightarrow> (rows, Some e)
      | None \<Rightarrow>
          (case traded of None \<Rightarrow> (rows, Some ''not-null constraint'')
           | Some t \<Rightarrow>
               (upsert line_key line_merge \<lparr>li_Wallet = w, li_ConditionID = cond, li_EventSlug = slug, li_Side = side,
                  li_NotionalUSD = notional, li_Trades = n, li_LastTradedAt = t, li_LookbackHours = hours, li_RefreshedAt = now\<rparr>
                  rows, None)))"

definition q_ListWalletThesisLinesForEvent :: "string \<Rightarrow> string \<Rightarrow> int \<Rightarrow> int \<Rightarrow> LineRow list \<Rightarrow> LineRow list" where
  "q_ListWalletThesisLinesForEvent slug w hours limit rows =
     take (nat limit) (desc_on li_NotionalUSD
       (filter (\<lambda>r. li_EventSlug r = slug \<and> li_Wallet r = w \<and> li_LookbackHours r = hours) rows))"

text \<open>A trade joined with its trader and its market.\<close>

definition joined_trades :: "TradeRow list \<Rightarrow> TraderTable \<Rightarrow> MarketTable \<Rightarrow> (TradeRow \<times> string \<times> MarketRow) list" where
  "joined_trades trades traders markets =
     concat (map (\<lambda>t. case tx_TraderID t of None \<Rightarrow> []
                   | Some i \<Rightarrow> (case find (\<lambda>r. wr_ID r = i) (wt_rows traders) of None \<Rightarrow> []
                       | Some w \<Rightarrow> (case mt_find (tx_MarketID t) markets of None \<Rightarrow> [] | Some m \<Rightarrow> [(t, wr_Wallet w, m)]))) trades)"

text \<open>The trades since a time of a known wallet on a market of an event.\<close>

definition event_trades :: "time option \<Rightarrow> TradeRow list \<Rightarrow> TraderTable \<Rightarrow> MarketTable \<Rightarrow> (TradeRow \<times> string \<times> MarketRow) list" where
  "event_trades since trades traders markets =
     filter (\<lambda>(t, w, m). at_or_after since (Some (tx_TradedAt t)) \<and> w \<noteq> '''' \<and> mr_EventSlug m \<noteq> None \<and> mr_EventSlug m \<noteq> Some '''')
       (joined_trades trades traders markets)"

record LineAggregate =
  la_Wallet :: string
  la_ConditionID :: string
  la_EventSlug :: string
  la_Side :: string
  la_NotionalUSD :: float64
  la_Trades :: int
  la_LastTradedAt :: time

definition q_AggregateWalletThesisLines :: "time option \<Rightarrow> int \<Rightarrow> TradeRow list \<Rightarrow> TraderTable \<Rightarrow> MarketTable \<Rightarrow> LineAggregate list" where
  "q_AggregateWalletThesisLines since limit trades traders markets =
     (let rows = event_trades since trades traders markets;
          group = (\<lambda>(t, w, m). (w, mr_ConditionID m, mr_EventSlug m, tx_Side t));
          agg = (\<lambda>g. let ts = map fst (filter (\<lambda>r. group r = g) rows)
                     in case g of (w, cond, slug, side) \<Rightarrow>
                          \<lparr>la_Wallet = w, la_ConditionID = cond, la_EventSlug = derefStr slug, la_Side = side,
                           la_NotionalUSD = pg_sum (map tx_NotionalUSD ts), la_Trades = int (length ts),
                           la_LastTradedAt = tsTime (ts_max (map tx_TradedAt ts))\<rparr>)
      in take (nat limit) (sort_key (\<lambda>a. - la_LastTradedAt a)
           (filter (\<lambda>a. 2 \<le> la_Trades a) (map agg (remdups (map group rows))))))"

definition q_ListWalletCoTradeRows :: "time option \<Rightarrow> int \<Rightarrow> TradeRow list \<Rightarrow> TraderTable \<Rightarrow> MarketTable
    \<Rightarrow> (string \<times> string \<times> string \<times> time) list" where
  "q_ListWalletCoTradeRows since limit trades traders markets =
     take (nat limit) (map (\<lambda>(t, w, m). (w, derefStr (mr_EventSlug m), tx_Side t, tx_TradedAt t))
       (sort_key (\<lambda>(t, w, m). tx_TradedAt t) (event_trades since trades traders markets)))"

text \<open>The markets of an event, when there are two or more, the event with the latest update first.\<close>

definition q_ListEventGroupedMarkets :: "int \<Rightarrow> MarketTable \<Rightarrow> (string \<times> string list) list" where
  "q_ListEventGroupedMarkets limit markets =
     (let rows = filter (\<lambda>m. mr_EventSlug m \<noteq> None \<and> mr_EventSlug m \<noteq> Some '''' \<and> mr_DeletedAt m = None \<and> mr_PurgedAt m = None)
                   (mt_rows markets);
          groups = map (\<lambda>s. filter (\<lambda>m. mr_EventSlug m = s) rows) (remdups (map mr_EventSlug rows))
      in take (nat limit) (map (\<lambda>g. (derefStr (mr_EventSlug (hd g)), map mr_ConditionID (sort_key mr_ID g)))
           (sort_key (\<lambda>g. - Max (set (map mr_UpdatedAt g))) (filter (\<lambda>g. 2 \<le> length g) groups))))"

definition holder_key :: "HolderSnapRow \<Rightarrow> string \<times> string \<times> time \<times> string" where
  "holder_key r = (ho_ConditionID r, ho_OutcomeToken r, ho_SnapshotAt r, ho_Wallet r)"

definition holder_merge :: "HolderSnapRow \<Rightarrow> HolderSnapRow \<Rightarrow> HolderSnapRow" where
  "holder_merge new r = r\<lparr>ho_Rank := ho_Rank new, ho_Shares := ho_Shares new, ho_NotionalUSD := ho_NotionalUSD new,
     ho_PctOI := ho_PctOI new, ho_TotalOI := ho_TotalOI new\<rparr>"

definition q_UpsertHolderSnapshot :: "string option \<Rightarrow> HolderSnapRow \<Rightarrow> HolderSnapRow list \<Rightarrow> HolderSnapRow list \<times> string option" where
  "q_UpsertHolderSnapshot fault s rows =
     (case fault of Some e \<Rightarrow> (rows, Some e) | None \<Rightarrow> (upsert holder_key holder_merge s rows, None))"

definition q_GetCurrentAndPreviousHolderSnapshot :: "string \<Rightarrow> string \<Rightarrow> string \<Rightarrow> HolderSnapRow list \<Rightarrow> HolderSnapRow list" where
  "q_GetCurrentAndPreviousHolderSnapshot cond token w rows =
     take 2 (sort_key (\<lambda>r. - ho_SnapshotAt r)
       (filter (\<lambda>r. ho_ConditionID r = cond \<and> ho_OutcomeToken r = token \<and> ho_Wallet r = w) rows))"

definition bar_key :: "BarRow \<Rightarrow> string \<times> string \<times> int \<times> time" where
  "bar_key r = (br_ConditionID r, br_OutcomeToken r, br_BarSeconds r, br_BarStart r)"

text \<open>Every column but the key is replaced.\<close>

definition bar_merge :: "BarRow \<Rightarrow> BarRow \<Rightarrow> BarRow" where
  "bar_merge new r = new"

definition q_UpsertBookFeatureBar :: "string option \<Rightarrow> BarRow \<Rightarrow> BarRow list \<Rightarrow> BarRow list \<times> string option" where
  "q_UpsertBookFeatureBar fault b rows =
     (case fault of Some e \<Rightarrow> (rows, Some e) | None \<Rightarrow> (upsert bar_key bar_merge b rows, None))"

definition q_ListRecentBookFeatureBars :: "string \<Rightarrow> string \<Rightarrow> time option \<Rightarrow> int \<Rightarrow> BarRow list \<Rightarrow> BarRow list" where
  "q_ListRecentBookFeatureBars cond token since limit rows =
     take (nat limit) (sort_key (\<lambda>r. - br_BarStart r)
       (filter (\<lambda>r. br_ConditionID r = cond \<and> br_OutcomeToken r = token \<and> at_or_after since (Some (br_BarStart r))) rows))"

definition q_ListRecentShadowDecisionsForCondition :: "string \<Rightarrow> time option \<Rightarrow> int \<Rightarrow> ShadowTable \<Rightarrow> ShadowRow list" where
  "q_ListRecentShadowDecisionsForCondition cond since limit tbl =
     take (nat limit) (sort_key (\<lambda>r. - ShadowRow.sr_FiredAt r)
       (filter (\<lambda>r. ShadowRow.sr_ConditionID r = cond \<and> at_or_after since (Some (ShadowRow.sr_FiredAt r))) (sht_rows tbl)))"

subsection \<open>The database\<close>

record sg_tables =
  sg_links :: "LinkRow list"
  sg_catalysts :: "CatalystRow list"
  sg_windows :: WindowTable
  sg_risks :: "RiskRow list"
  sg_edges :: "EdgeRow list"
  sg_lines :: "LineRow list"
  sg_holders :: "HolderSnapRow list"
  sg_bars :: "BarRow list"
  sg_shadow :: ShadowTable
  sg_trades :: "TradeRow list"
  sg_traders :: TraderTable
  sg_markets :: MarketTable
  sg_tokens :: "int \<Rightarrow> string list"

text \<open>
  \<open>sg_tokens\<close> lists the outcome tokens of a market by its id. The active tokens, last seen first.
\<close>

definition q_ListBookbarsCandidates :: "int \<Rightarrow> sg_tables \<Rightarrow> (string \<times> string) list" where
  "q_ListBookbarsCandidates limit s =
     take (nat limit) (concat (map (\<lambda>m. map (\<lambda>tok. (mr_ConditionID m, tok)) (filter (\<lambda>tok. tok \<noteq> '''') (sg_tokens s (mr_ID m))))
       (sort_key (\<lambda>m. - mr_LastSeenAt m)
         (filter (\<lambda>m. mr_Active m \<and> \<not> mr_Closed m \<and> mr_DeletedAt m = None \<and> mr_PurgedAt m = None) (mt_rows (sg_markets s))))))"

subsection \<open>The unique keys\<close>

interpretation link_table: unique_table link_key link_merge
  by unfold_locales (simp add: link_key_def link_merge_def)

interpretation risk_table: unique_table risk_key risk_merge
  by unfold_locales (simp add: risk_key_def risk_merge_def)

interpretation edge_table: unique_table edge_key edge_merge
  by unfold_locales (simp add: edge_key_def edge_merge_def)

interpretation line_table: unique_table line_key line_merge
  by unfold_locales (simp add: line_key_def line_merge_def)

interpretation holder_table: unique_table holder_key holder_merge
  by unfold_locales (simp add: holder_key_def holder_merge_def)

interpretation bar_table: unique_table bar_key bar_merge
  by unfold_locales (simp add: bar_key_def bar_merge_def)

end
