(* ===== verification/Repricing.thy ===== *)
theory Repricing
  imports StagedTables
begin

text \<open>
  The repricing worker (\<open>usecase/repricing/worker.go\<close>) on its Postgres adapters
  (\<open>app/strategy_phase_c.go\<close>): it opens a window for each catalyst it is shown and closes the windows
  that are due with the moves it samples from the tables of trades and market links. A tick is given
  the readings of the clocks and the faults of the queries it meets.
\<close>

subsection \<open>Data\<close>

definition TriggerAnnotation :: string where "TriggerAnnotation = ''annotation''"
definition TriggerCatalyst :: string where "TriggerCatalyst = ''catalyst''"

record Trigger =
  tg_ConditionID :: string
  tg_EventSlug :: string
  tg_Kind :: string
  tg_Ref :: string
  tg_OpenedAt :: time
  tg_ExpectedImpactMin :: float64
  tg_ExpectedImpactMax :: float64
  tg_SideBias :: string
  tg_BaselinePrice :: float64

record OpenWindow =
  ow_ID :: int
  ow_ConditionID :: string
  ow_EventSlug :: string
  ow_OpenedAt :: time
  ow_ClosesAt :: time
  ow_BaselinePrice :: float64
  ow_SideBias :: string

record rz_Config =
  zc_Enabled :: bool
  zc_Interval :: duration
  zc_OpenLookback :: duration
  zc_MaxOpenWindows :: int
  zc_CloseAfter :: duration
  zc_LinkVersion :: int

text \<open>
  The worker's clock, the clock of the lister, of each call of the sampler (by the id of the window)
  and of the database; the faults of the queries, those of an insert by the slug and title of its
  catalyst and those of a price by the condition asked for.
\<close>

record rz_env =
  ze_now :: time
  ze_listNow :: time
  ze_sampleNow :: "int \<Rightarrow> time"
  ze_dbNow :: "int \<Rightarrow> time"
  ze_triggerFault :: "string option"
  ze_openFault :: "string option"
  ze_insertFault :: "string \<Rightarrow> string \<Rightarrow> string option"
  ze_priceFault :: "int \<Rightarrow> string \<Rightarrow> bool"
  ze_peerFault :: "int \<Rightarrow> bool"
  ze_closeFault :: "int \<Rightarrow> string option"

subsection \<open>The adapters\<close>

definition trigger_of :: "time \<Rightarrow> CatalystRow \<Rightarrow> Trigger" where
  "trigger_of now r =
     \<lparr>tg_ConditionID = '''', tg_EventSlug = cy_EventSlug r, tg_Kind = TriggerCatalyst, tg_Ref = cy_Title r,
      tg_OpenedAt = (case cy_ExpectedAt r of None \<Rightarrow> now | Some t \<Rightarrow> t), tg_ExpectedImpactMin = 0, tg_ExpectedImpactMax = 0,
      tg_SideBias = '''', tg_BaselinePrice = 0\<rparr>"

definition ListNewTriggers :: "rz_env \<Rightarrow> duration \<Rightarrow> int \<Rightarrow> sg_tables \<Rightarrow> string + Trigger list" where
  "ListNewTriggers ev lookback_d limit s =
     (case ze_triggerFault ev of Some e \<Rightarrow> Inl e
      | None \<Rightarrow> Inr (map (trigger_of (ze_listNow ev))
          (q_ListRepricingTriggers (tsFromTime (ze_listNow ev - lookback_d)) limit (sg_catalysts s))))"

definition open_window_of :: "WindowRow \<Rightarrow> OpenWindow" where
  "open_window_of r =
     \<lparr>ow_ID = wn_ID r, ow_ConditionID = wn_ConditionID r, ow_EventSlug = wn_EventSlug r, ow_OpenedAt = wn_OpenedAt r,
      ow_ClosesAt = wn_ClosesAt r, ow_BaselinePrice = (case wn_BaselinePrice r of None \<Rightarrow> 0 | Some p \<Rightarrow> p),
      ow_SideBias = wn_SideBias r\<rparr>"

definition ListOpenWindows :: "rz_env \<Rightarrow> time \<Rightarrow> int \<Rightarrow> sg_tables \<Rightarrow> string + OpenWindow list" where
  "ListOpenWindows ev due limit s =
     (case ze_openFault ev of Some e \<Rightarrow> Inl e
      | None \<Rightarrow> Inr (map open_window_of (q_ListOpenRepricingWindows (tsFromTime due) limit (sg_windows s))))"

text \<open>A missing row and a fault are the same to the sampler.\<close>

definition first_price :: "rz_env \<Rightarrow> int \<Rightarrow> string \<Rightarrow> sg_tables \<Rightarrow> float64 option" where
  "first_price ev i cond s =
     (if ze_priceFault ev i cond then None
      else q_FirstTradePriceForCondition cond (tsFromTime (ze_sampleNow ev i - Hour)) (sg_trades s) (sg_markets s))"

definition SampleTarget :: "rz_env \<Rightarrow> int \<Rightarrow> string \<Rightarrow> sg_tables \<Rightarrow> float64 \<times> bool" where
  "SampleTarget ev i cond s = (case first_price ev i cond s of None \<Rightarrow> (0, False) | Some p \<Rightarrow> (p, True))"

definition sortedFloats :: "float64 list \<Rightarrow> float64 list" where
  "sortedFloats xs = go_isort (\<lambda>y x. x < y) xs"

definition peer_median :: "float64 list \<Rightarrow> float64" where
  "peer_median xs =
     (let v = sortedFloats xs; n = length v
      in if n mod 2 = 0 then (v ! (n div 2 - 1) + v ! (n div 2)) / fl 2 else v ! (n div 2))"

definition SamplePeerMedian :: "rz_env \<Rightarrow> int \<Rightarrow> int \<Rightarrow> string \<Rightarrow> sg_tables \<Rightarrow> float64 \<times> int" where
  "SamplePeerMedian ev ver i anchor s =
     (if anchor = '''' \<or> ze_peerFault ev i then (0, 0)
      else (let prices = concat (map (\<lambda>p. case first_price ev i p s of None \<Rightarrow> [] | Some x \<Rightarrow> [x])
                            (q_ListPeerConditionsByMarketLinks anchor ver 25 (sg_links s)))
            in if prices = [] then (0, 0) else (peer_median prices, int (length prices))))"

text \<open>The sink of \<open>strategy_phase_c.go\<close>.\<close>

definition sink_OpenWindow :: "rz_env \<Rightarrow> Trigger \<Rightarrow> time \<Rightarrow> sg_tables \<Rightarrow> sg_tables \<times> string option" where
  "sink_OpenWindow ev t closesAt s =
     (case q_InsertRepricingWindow (ze_insertFault ev (tg_EventSlug t) (tg_Ref t)) '''' (tg_EventSlug t) (tg_Kind t) (tg_Ref t)
             (tsFromTime (tg_OpenedAt t)) (tsFromTime closesAt) None None '''' None (sg_windows s) of
        (tbl, Inl e) \<Rightarrow> (s\<lparr>sg_windows := tbl\<rparr>, Some e)
      | (tbl, Inr i) \<Rightarrow> (s\<lparr>sg_windows := tbl\<rparr>, None))"

definition sink_CloseWindow :: "rz_env \<Rightarrow> int \<Rightarrow> float64 \<Rightarrow> float64 \<Rightarrow> float64 \<Rightarrow> string \<Rightarrow> sg_tables \<Rightarrow> sg_tables \<times> string option" where
  "sink_CloseWindow ev i observed peer lag status s =
     (case q_CloseRepricingWindow (ze_dbNow ev i) (ze_closeFault ev i) i status (Some observed) (Some peer) (Some lag) ''''
             (sg_windows s) of
        (tbl, err) \<Rightarrow> (s\<lparr>sg_windows := tbl\<rparr>, err))"

subsection \<open>The worker\<close>

fun open_loop :: "rz_env \<Rightarrow> rz_Config \<Rightarrow> time \<Rightarrow> Trigger list \<Rightarrow> int \<Rightarrow> sg_tables \<Rightarrow> sg_tables \<times> int" where
  "open_loop ev c now [] n s = (s, n)"
| "open_loop ev c now (t # ts) n s =
     (let closesAt = tg_OpenedAt t + zc_CloseAfter c;
          closesAt = (if closesAt < now then now else closesAt)
      in case sink_OpenWindow ev t closesAt s of
           (s, Some e) \<Rightarrow> open_loop ev c now ts n s
         | (s, None) \<Rightarrow> open_loop ev c now ts (n + 1) s)"

definition openPhase :: "rz_env \<Rightarrow> rz_Config \<Rightarrow> time \<Rightarrow> sg_tables \<Rightarrow> sg_tables \<times> int" where
  "openPhase ev c now s =
     (case ListNewTriggers ev (zc_OpenLookback c) (zc_MaxOpenWindows c) s of
        Inl e \<Rightarrow> (s, 0)
      | Inr ts \<Rightarrow> open_loop ev c now ts 0 s)"

text \<open>What a due window is closed with: the observed move, the peers' move, the lag and the status.\<close>

definition close_verdict :: "rz_env \<Rightarrow> rz_Config \<Rightarrow> OpenWindow \<Rightarrow> sg_tables \<Rightarrow> float64 \<times> float64 \<times> float64 \<times> string" where
  "close_verdict ev c w s =
     (case SampleTarget ev (ow_ID w) (ow_ConditionID w) s of (price, ok) \<Rightarrow>
        if \<not> ok then (0, 0, 0, ''stale_missing_price'')
        else (let observed = price - ow_BaselinePrice w
              in case SamplePeerMedian ev (zc_LinkVersion c) (ow_ID w) (ow_ConditionID w) s of (peer, peerN) \<Rightarrow>
                   if peerN = 0 then (observed, 0, 0, ''stale_missing_peers'')
                   else (let peerMove = peer - ow_BaselinePrice w; lag = peerMove - observed
                         in (observed, peerMove, lag,
                             if fl 0.03 \<le> lag then ''closed_lag_detected'' else ''closed_no_lag''))))"

fun close_loop :: "rz_env \<Rightarrow> rz_Config \<Rightarrow> OpenWindow list \<Rightarrow> int \<Rightarrow> sg_tables \<Rightarrow> sg_tables \<times> int" where
  "close_loop ev c [] n s = (s, n)"
| "close_loop ev c (w # ws) n s =
     (case close_verdict ev c w s of (observed, peer, lag, status) \<Rightarrow>
       (case sink_CloseWindow ev (ow_ID w) observed peer lag status s of
           (s, Some e) \<Rightarrow> close_loop ev c ws n s
         | (s, None) \<Rightarrow> close_loop ev c ws (n + 1) s))"

definition closePhase :: "rz_env \<Rightarrow> rz_Config \<Rightarrow> time \<Rightarrow> sg_tables \<Rightarrow> sg_tables \<times> int" where
  "closePhase ev c now s =
     (case ListOpenWindows ev now (zc_MaxOpenWindows c) s of
        Inl e \<Rightarrow> (s, 0)
      | Inr ws \<Rightarrow> close_loop ev c ws 0 s)"

text \<open>The counter of persisted items is only touched when something was opened.\<close>

definition rz_observeItems :: "int \<Rightarrow> int \<Rightarrow> int \<Rightarrow> (string \<times> int) list" where
  "rz_observeItems opened closed_n errored =
     (if 0 < opened then [(''persisted'', opened + closed_n)] else []) @ (if 0 < errored then [(''errored'', errored)] else [])"

definition rz_Tick :: "rz_Config \<Rightarrow> rz_env \<Rightarrow> sg_tables \<Rightarrow> sg_tables \<times> (string \<times> int) list" where
  "rz_Tick c ev s =
     (case openPhase ev c (ze_now ev) s of (s, opened) \<Rightarrow>
       (case closePhase ev c (ze_now ev) s of (s, closed_n) \<Rightarrow> (s, rz_observeItems opened closed_n 0)))"

subsection \<open>What a tick does to the table of windows\<close>

text \<open>Only that table changes.\<close>

abbreviation same_but_windows :: "sg_tables \<Rightarrow> sg_tables \<Rightarrow> bool" where
  "same_but_windows s s' \<equiv> \<exists>w. s' = s\<lparr>sg_windows := w\<rparr>"

lemma same_but_windows_trans:
  "same_but_windows s s' \<Longrightarrow> same_but_windows s' s'' \<Longrightarrow> same_but_windows s s''"
  by auto

text \<open>A window as the sink opens it, and as the worker leaves it.\<close>

definition unanchored :: "WindowRow \<Rightarrow> bool" where
  "unanchored r \<longleftrightarrow> wn_ConditionID r = '''' \<and> wn_BaselinePrice r = None"

abbreviation windows :: "sg_tables \<Rightarrow> WindowRow list" where
  "windows s \<equiv> wit_rows (sg_windows s)"

lemma unanchored_resolve [simp]:
  "unanchored (resolve_window now status obs peer lag notes r) = unanchored r"
  by (simp add: unanchored_def resolve_window_def)

lemma unanchored_open:
  assumes "list_all unanchored (windows s)"
  shows "list_all unanchored (windows (fst (sink_OpenWindow ev t closesAt s)))"
  using assms
  by (auto simp: sink_OpenWindow_def q_InsertRepricingWindow_def Let_def list_all_iff unanchored_def
      split: option.splits)

lemma unanchored_close:
  assumes "list_all unanchored (windows s)"
  shows "list_all unanchored (windows (fst (sink_CloseWindow ev i obs peer lag status s)))"
  using assms
  by (auto simp: sink_CloseWindow_def q_CloseRepricingWindow_def list_all_iff split: option.splits prod.splits)

lemma unanchored_open_loop:
  "list_all unanchored (windows s) \<Longrightarrow> list_all unanchored (windows (fst (open_loop ev c now ts n s)))"
proof (induction ts arbitrary: n s)
  case (Cons t ts)
  show ?case using Cons.IH unanchored_open [OF Cons.prems]
    by (auto simp: Let_def split: prod.splits option.splits) (metis fst_conv)+
qed simp

lemma unanchored_close_loop:
  "list_all unanchored (windows s) \<Longrightarrow> list_all unanchored (windows (fst (close_loop ev c ws n s)))"
proof (induction ws arbitrary: n s)
  case (Cons w ws)
  show ?case using Cons.IH unanchored_close [OF Cons.prems]
    by (auto split: prod.splits option.splits) (metis fst_conv)+
qed simp

lemma unanchored_Tick:
  assumes "list_all unanchored (windows s)"
  shows "list_all unanchored (windows (fst (rz_Tick c ev s)))"
proof -
  have a: "list_all unanchored (windows (fst (openPhase ev c now s)))" for now
    using assms by (auto simp: openPhase_def unanchored_open_loop split: sum.splits)
  have b: "list_all unanchored (windows (fst (closePhase ev c now s')))" if "list_all unanchored (windows s')" for s' now
    using that by (auto simp: closePhase_def unanchored_close_loop split: sum.splits)
  show ?thesis using b [OF a] by (auto simp: rz_Tick_def split: prod.splits) (metis fst_conv)
qed

text \<open>
  What the open phase adds to the table, but for the ids, does not depend on the windows that are
  already there.
\<close>

definition forget_id :: "WindowRow \<Rightarrow> WindowRow" where
  "forget_id r = r\<lparr>wn_ID := 0\<rparr>"

lemma open_blind:
  "\<exists>news. \<forall>w. map forget_id (windows (fst (sink_OpenWindow ev t closesAt (s\<lparr>sg_windows := w\<rparr>))))
                 = map forget_id (wit_rows w) @ news"
  by (cases "ze_insertFault ev (tg_EventSlug t) (tg_Ref t)"; cases "tsFromTime (tg_OpenedAt t)"; cases "tsFromTime closesAt")
    (auto simp: sink_OpenWindow_def q_InsertRepricingWindow_def Let_def forget_id_def)

lemma sink_open_frame: "\<exists>w. fst (sink_OpenWindow ev t closesAt s) = s\<lparr>sg_windows := w\<rparr>"
  by (auto simp: sink_OpenWindow_def split: prod.splits sum.splits)

lemma open_loop_step:
  "\<exists>m. open_loop ev c now (t # ts) n s =
     open_loop ev c now ts m (fst (sink_OpenWindow ev t (max now (tg_OpenedAt t + zc_CloseAfter c)) s))"
  by (auto simp: Let_def max_def split: prod.splits option.splits)

lemma open_loop_count: "fst (open_loop ev c now ts n s) = fst (open_loop ev c now ts m s)"
proof (induction ts arbitrary: n m s)
  case (Cons t ts)
  show ?case using open_loop_step [of ev c now t ts n s] open_loop_step [of ev c now t ts m s] Cons.IH by metis
qed simp

lemma open_loop_blind:
  "\<exists>news. \<forall>w. map forget_id (windows (fst (open_loop ev c now ts n (s\<lparr>sg_windows := w\<rparr>))))
                 = map forget_id (wit_rows w) @ news"
proof (induction ts arbitrary: n)
  case (Cons t ts)
  define closesAt where "closesAt = max now (tg_OpenedAt t + zc_CloseAfter c)"
  obtain a where a: "\<And>w. map forget_id (windows (fst (sink_OpenWindow ev t closesAt (s\<lparr>sg_windows := w\<rparr>))))
      = map forget_id (wit_rows w) @ a" using open_blind by metis
  obtain b where b: "\<And>w. map forget_id (windows (fst (open_loop ev c now ts n (s\<lparr>sg_windows := w\<rparr>))))
      = map forget_id (wit_rows w) @ b" using Cons.IH by metis
  have "map forget_id (windows (fst (open_loop ev c now (t # ts) n (s\<lparr>sg_windows := w\<rparr>))))
      = map forget_id (wit_rows w) @ a @ b" for w
  proof -
    obtain w' where w': "fst (sink_OpenWindow ev t closesAt (s\<lparr>sg_windows := w\<rparr>)) = s\<lparr>sg_windows := w'\<rparr>"
      using sink_open_frame [of ev t closesAt "s\<lparr>sg_windows := w\<rparr>"] by auto
    have "map forget_id (wit_rows w') = map forget_id (wit_rows w) @ a" using a [of w] w' by simp
    moreover obtain m where "open_loop ev c now (t # ts) n (s\<lparr>sg_windows := w\<rparr>) = open_loop ev c now ts m (s\<lparr>sg_windows := w'\<rparr>)"
      using open_loop_step w' unfolding closesAt_def by metis
    ultimately show ?thesis using b [of w'] open_loop_count [of ev c now ts m _ n] by simp
  qed
  then show ?case by blast
qed (auto intro: exI [of _ "[]"])

lemma openPhase_blind:
  "\<exists>news. \<forall>w. map forget_id (windows (fst (openPhase ev c now (s\<lparr>sg_windows := w\<rparr>)))) = map forget_id (wit_rows w) @ news"
proof (cases "ListNewTriggers ev (zc_OpenLookback c) (zc_MaxOpenWindows c) s")
  case (Inl e)
  then show ?thesis by (auto simp: openPhase_def ListNewTriggers_def split: option.splits)
next
  case (Inr ts)
  then have "openPhase ev c now (s\<lparr>sg_windows := w\<rparr>) = open_loop ev c now ts 0 (s\<lparr>sg_windows := w\<rparr>)" for w
    by (auto simp: openPhase_def ListNewTriggers_def split: option.splits)
  then show ?thesis using open_loop_blind by metis
qed

subsection \<open>Windows without a market\<close>

text \<open>No market has the empty condition id: the catalog client drops such markets.\<close>

definition no_blank :: "MarketTable \<Rightarrow> bool" where
  "no_blank m \<longleftrightarrow> list_all (\<lambda>r. mr_ConditionID r \<noteq> '''') (mt_rows m)"

lemma no_price_for_blank:
  assumes "no_blank m"
  shows "q_FirstTradePriceForCondition '''' t trades m = None"
proof -
  have "mr_ConditionID r \<noteq> ''''" if "mt_find i m = Some r" for i r
    using assms that by (auto simp: no_blank_def list_all_iff mt_find_def find_Some_iff)
  then have "filter (\<lambda>x. at_or_after t (Some (tx_TradedAt x)) \<and>
      (case mt_find (tx_MarketID x) m of None \<Rightarrow> False | Some r \<Rightarrow> mr_ConditionID r = '''')) trades = []"
    by (auto simp: filter_empty_conv split: option.splits)
  then show ?thesis by (simp add: q_FirstTradePriceForCondition_def)
qed

lemma close_verdict_blank:
  assumes "no_blank (sg_markets s)" "ow_ConditionID w = ''''"
  shows "close_verdict ev c w s = (0, 0, 0, ''stale_missing_price'')"
  using no_price_for_blank [OF assms(1)] assms(2)
  by (simp add: close_verdict_def SampleTarget_def first_price_def)

text \<open>A window that names no market and has no verdict.\<close>

definition inconclusive :: "WindowRow \<Rightarrow> bool" where
  "inconclusive r \<longleftrightarrow> unanchored r \<and> (wn_Status r = ''open'' \<or> wn_Status r = ''stale_missing_price'')"

lemma inconclusive_open:
  assumes "list_all inconclusive (windows s)"
  shows "list_all inconclusive (windows (fst (sink_OpenWindow ev t closesAt s)))"
  using assms
  by (auto simp: sink_OpenWindow_def q_InsertRepricingWindow_def Let_def list_all_iff inconclusive_def unanchored_def
      split: option.splits)

lemma inconclusive_close:
  assumes "list_all inconclusive (windows s)"
  shows "list_all inconclusive (windows (fst (sink_CloseWindow ev i obs peer lag ''stale_missing_price'' s)))"
  using assms
  by (auto simp: sink_CloseWindow_def q_CloseRepricingWindow_def list_all_iff inconclusive_def resolve_window_def
      unanchored_def split: option.splits prod.splits)

lemma sink_close_frame: "\<exists>w. fst (sink_CloseWindow ev i obs peer lag status s) = s\<lparr>sg_windows := w\<rparr>"
  by (auto simp: sink_CloseWindow_def split: prod.splits)

lemma open_loop_frame: "\<exists>w. fst (open_loop ev c now ts n s) = s\<lparr>sg_windows := w\<rparr>"
proof (induction ts arbitrary: n s)
  case Nil
  then show ?case by (auto intro: exI [of _ "sg_windows s"])
next
  case (Cons t ts)
  show ?case using open_loop_step [of ev c now t ts n s] Cons.IH sink_open_frame same_but_windows_trans by metis
qed

lemma close_loop_step:
  "close_verdict ev c w s = (obs, peer, lag, status) \<Longrightarrow>
     \<exists>m. close_loop ev c (w # ws) n s = close_loop ev c ws m (fst (sink_CloseWindow ev (ow_ID w) obs peer lag status s))"
  by (auto split: prod.splits option.splits)

lemma close_loop_frame: "\<exists>w. fst (close_loop ev c ws n s) = s\<lparr>sg_windows := w\<rparr>"
proof (induction ws arbitrary: n s)
  case Nil
  then show ?case by (auto intro: exI [of _ "sg_windows s"])
next
  case (Cons w ws)
  obtain obs peer lag status where v: "close_verdict ev c w s = (obs, peer, lag, status)" by (metis prod_cases4)
  show ?case using close_loop_step [OF v, of ws n] Cons.IH sink_close_frame same_but_windows_trans by metis
qed

lemma inconclusive_open_loop:
  "list_all inconclusive (windows s) \<Longrightarrow> list_all inconclusive (windows (fst (open_loop ev c now ts n s)))"
proof (induction ts arbitrary: n s)
  case (Cons t ts)
  show ?case using open_loop_step [of ev c now t ts n s] Cons.IH [OF inconclusive_open [OF Cons.prems]] by metis
qed simp

lemma inconclusive_close_loop:
  assumes "list_all inconclusive (windows s)" "no_blank (sg_markets s)" "list_all (\<lambda>w. ow_ConditionID w = '''') ws"
  shows "list_all inconclusive (windows (fst (close_loop ev c ws n s)))"
  using assms
proof (induction ws arbitrary: n s)
  case (Cons w ws)
  let ?s = "fst (sink_CloseWindow ev (ow_ID w) 0 0 0 ''stale_missing_price'' s)"
  have v: "close_verdict ev c w s = (0, 0, 0, ''stale_missing_price'')"
    using Cons.prems by (simp add: close_verdict_blank)
  have "no_blank (sg_markets ?s)"
    using sink_close_frame [of ev "ow_ID w" 0 0 0 "''stale_missing_price''" s] Cons.prems(2) by auto
  then have "list_all inconclusive (windows (fst (close_loop ev c ws m ?s)))" for m
    using Cons.IH inconclusive_close [OF Cons.prems(1)] Cons.prems(3) by simp
  then show ?case using close_loop_step [OF v, of ws n] by metis
qed simp

lemma listed_blank:
  assumes "list_all inconclusive (windows s)" "ListOpenWindows ev due limit s = Inr ws"
  shows "list_all (\<lambda>w. ow_ConditionID w = '''') ws"
proof -
  have "r \<in> set (windows s)" if "r \<in> set (q_ListOpenRepricingWindows d limit (sg_windows s))" for r d
    using that by (auto simp: q_ListOpenRepricingWindows_def dest: in_set_takeD)
  then show ?thesis
    using assms by (auto simp: ListOpenWindows_def open_window_of_def list_all_iff inconclusive_def unanchored_def
        split: option.splits)
qed

lemma openPhase_frame: "\<exists>w. fst (openPhase ev c now s) = s\<lparr>sg_windows := w\<rparr>"
  using open_loop_frame by (auto simp: openPhase_def intro: exI [of _ "sg_windows s"] split: sum.splits)

lemma closePhase_frame: "\<exists>w. fst (closePhase ev c now s) = s\<lparr>sg_windows := w\<rparr>"
  using close_loop_frame by (auto simp: closePhase_def intro: exI [of _ "sg_windows s"] split: sum.splits)

lemma rz_Tick_phases: "fst (rz_Tick c ev s) = fst (closePhase ev c (ze_now ev) (fst (openPhase ev c (ze_now ev) s)))"
  by (simp add: rz_Tick_def split: prod.splits)

lemma rz_Tick_frame: "\<exists>w. fst (rz_Tick c ev s) = s\<lparr>sg_windows := w\<rparr>"
  unfolding rz_Tick_phases by (rule same_but_windows_trans [OF openPhase_frame closePhase_frame])

lemma inconclusive_Tick:
  assumes "list_all inconclusive (windows s)" "no_blank (sg_markets s)"
  shows "list_all inconclusive (windows (fst (rz_Tick c ev s)))"
proof -
  let ?s = "fst (openPhase ev c (ze_now ev) s)"
  have "list_all inconclusive (windows ?s)"
    using assms(1) inconclusive_open_loop by (auto simp: openPhase_def split: sum.splits)
  moreover have "no_blank (sg_markets ?s)"
    using openPhase_frame [of ev c "ze_now ev" s] assms(2) by auto
  ultimately show ?thesis
    unfolding rz_Tick_phases using listed_blank inconclusive_close_loop by (auto simp: closePhase_def split: sum.splits)
qed

subsection \<open>Due windows\<close>

definition due :: "time \<Rightarrow> WindowRow \<Rightarrow> bool" where
  "due now r \<longleftrightarrow> wn_Status r = ''open'' \<and> wn_ClosesAt r \<le> now"

lemma verdict_closes: "close_verdict ev c w s = (obs, peer, lag, status) \<Longrightarrow> status \<in> set window_statuses \<and> status \<noteq> ''open''"
  by (auto simp: close_verdict_def window_statuses_def Let_def split: prod.splits if_splits)

text \<open>What closing some windows does to the rows: those are no longer open, the others are as they were.\<close>

definition closes_ids :: "int set \<Rightarrow> (WindowRow \<Rightarrow> WindowRow) \<Rightarrow> bool" where
  "closes_ids ids f \<longleftrightarrow> (\<forall>r. wn_ID (f r) = wn_ID r \<and> (wn_ID r \<in> ids \<longrightarrow> wn_Status (f r) \<noteq> ''open'') \<and> (wn_ID r \<notin> ids \<longrightarrow> f r = r))"

lemma closes_ids_Un: "closes_ids A f \<Longrightarrow> closes_ids B g \<Longrightarrow> closes_ids (A \<union> B) (g \<circ> f)"
  unfolding closes_ids_def comp_def by (metis Un_iff)

lemma sink_close_rows:
  assumes "ze_closeFault ev i = None" "status \<in> set window_statuses" "status \<noteq> ''open''"
  shows "\<exists>f. closes_ids {i} f \<and> windows (fst (sink_CloseWindow ev i obs peer lag status s)) = map f (windows s)"
proof -
  let ?f = "\<lambda>r. if wn_ID r = i then resolve_window (ze_dbNow ev i) status (Some obs) (Some peer) (Some lag) '''' r else r"
  have "closes_ids {i} ?f" using assms(3) by (simp add: closes_ids_def resolve_window_def)
  moreover have "windows (fst (sink_CloseWindow ev i obs peer lag status s)) = map ?f (windows s)"
    using assms(1,2) by (simp add: sink_CloseWindow_def q_CloseRepricingWindow_def)
  ultimately show ?thesis by blast
qed

lemma close_loop_rows:
  assumes "\<And>i. ze_closeFault ev i = None"
  shows "\<exists>f. closes_ids (set (map ow_ID ws)) f \<and> windows (fst (close_loop ev c ws n s)) = map f (windows s)"
proof (induction ws arbitrary: n s)
  case Nil
  then show ?case by (auto intro: exI [of _ id] simp: closes_ids_def)
next
  case (Cons w ws)
  obtain obs peer lag status where v: "close_verdict ev c w s = (obs, peer, lag, status)" by (metis prod_cases4)
  obtain m where m: "close_loop ev c (w # ws) n s = close_loop ev c ws m (fst (sink_CloseWindow ev (ow_ID w) obs peer lag status s))"
    using close_loop_step [OF v] by metis
  obtain f where f: "closes_ids {ow_ID w} f"
      "windows (fst (sink_CloseWindow ev (ow_ID w) obs peer lag status s)) = map f (windows s)"
    using sink_close_rows assms verdict_closes [OF v] by metis
  obtain g where g: "closes_ids (set (map ow_ID ws)) g"
      "windows (fst (close_loop ev c (w # ws) n s)) = map g (map f (windows s))"
    using Cons.IH [of m "fst (sink_CloseWindow ev (ow_ID w) obs peer lag status s)"] f(2) m by metis
  have "{ow_ID w} \<union> set (map ow_ID ws) = set (map ow_ID (w # ws))" by simp
  then show ?case using closes_ids_Un [OF f(1) g(1)] g(2) by (metis map_map)
qed

lemma closePhase_closes_due:
  assumes "\<And>i. ze_closeFault ev i = None" "ze_openFault ev = None" "\<not> IsZero now"
    and room: "int (length (filter (due now) (windows s))) \<le> zc_MaxOpenWindows c"
  shows "filter (due now) (windows (fst (closePhase ev c now s))) = []"
proof -
  define listed where "listed = q_ListOpenRepricingWindows (Some now) (zc_MaxOpenWindows c) (sg_windows s)"
  have l: "set listed = {r \<in> set (windows s). due now r}"
    using room unfolding listed_def q_ListOpenRepricingWindows_def due_def by (simp add: take_all)
  have "closePhase ev c now s = close_loop ev c (map open_window_of listed) 0 s"
    using assms(2,3) by (simp add: closePhase_def ListOpenWindows_def listed_def tsFromTime_def)
  moreover obtain f where f: "closes_ids (set (map ow_ID (map open_window_of listed))) f"
      "windows (fst (close_loop ev c (map open_window_of listed) 0 s)) = map f (windows s)"
    using close_loop_rows assms(1) by metis
  have ids: "set (map ow_ID (map open_window_of listed)) = wn_ID ` set listed"
    by (auto simp: open_window_of_def image_iff)
  have "\<not> due now (f r)" if r: "r \<in> set (windows s)" for r
  proof (cases "wn_ID r \<in> wn_ID ` set listed")
    case True
    then show ?thesis using f(1) unfolding closes_ids_def ids due_def by blast
  next
    case False
    then have "\<not> due now r" using r l by blast
    moreover have "f r = r" using False f(1) unfolding closes_ids_def ids by blast
    ultimately show ?thesis by simp
  qed
  ultimately show ?thesis using f(2) by (auto simp: filter_empty_conv)
qed

text \<open>A tick that meets no fault leaves no due window open, provided the windows due in it, among
  those it has just opened and those of before, are not more than the worker lists.\<close>

theorem due_windows_are_closed:
  assumes "\<And>i. ze_closeFault ev i = None" "ze_openFault ev = None" "\<not> IsZero (ze_now ev)"
    and "int (length (filter (due (ze_now ev)) (windows (fst (openPhase ev c (ze_now ev) s))))) \<le> zc_MaxOpenWindows c"
  shows "filter (due (ze_now ev)) (windows (fst (rz_Tick c ev s))) = []"
  unfolding rz_Tick_phases by (rule closePhase_closes_due [OF assms])

text \<open>The worker looks for new triggers without regard to the windows it has: whatever the table of
  windows holds, a tick adds the same windows to it, so a catalyst gets one more window on each tick
  for as long as it is listed.\<close>

theorem windows_are_opened_blindly:
  "\<exists>news. \<forall>w. map forget_id (windows (fst (openPhase ev c now (s\<lparr>sg_windows := w\<rparr>)))) = map forget_id (wit_rows w) @ news"
  by (rule openPhase_blind)

end
