(* ===== verification/InputWorkers.thy ===== *)
theory InputWorkers
  imports StagedTables TextRisk
begin

text \<open>
  The background workers that fill the staged tables from the program's own data, with their Postgres
  adapters (\<open>app/strategy_phase_c.go\<close>): the graph of market links (\<open>usecase/marketlinks\<close>), the thesis
  lines (\<open>usecase/thesislines\<close>), the wallet graph (\<open>usecase/walletgraph\<close>) and the risk scores
  (\<open>usecase/riskscore\<close>). A tick is given the clocks it reads and the faults of the statements it runs,
  the writes by their number within the tick; it returns the tables, the status of its run and the
  counters of its items. The dependencies are wired, so no tick is skipped for want of one, and no step
  of a tick can panic.
\<close>

record wk_env =
  wk_now :: time
  wk_listNow :: time
  wk_dbNow :: "nat \<Rightarrow> time"
  wk_listFault :: "string option"
  wk_writeFault :: "nat \<Rightarrow> string option"
  wk_json :: "string list \<Rightarrow> string option"

type_synonym wk_result = "sg_tables \<times> string \<times> (string \<times> int) list"

definition count_if :: "string \<Rightarrow> int \<Rightarrow> (string \<times> int) list" where
  "count_if what n = (if 0 < n then [(what, n)] else [])"

subsection \<open>Market links\<close>

record LinkTarget =
  lt_ConditionID :: string
  lt_LinkType :: string
  lt_Direction :: string
  lt_Confidence :: float64

record LinkHint =
  lh_EventSlug :: string
  lh_SeriesID :: string
  lh_SourceConditionID :: string
  lh_Targets :: "LinkTarget list"

record ml_Config =
  mlc_Enabled :: bool
  mlc_Interval :: duration
  mlc_BatchSize :: int
  mlc_LinkVersion :: int
  mlc_IncludeOpposed :: bool
  mlc_MinConfidence :: float64

text \<open>A star around the first market of the event.\<close>

definition hint_of :: "string \<times> string list \<Rightarrow> LinkHint list" where
  "hint_of = (\<lambda>(slug, conds).
     case conds of
       anchor # dst # rest \<Rightarrow>
         [\<lparr>lh_EventSlug = slug, lh_SeriesID = '''', lh_SourceConditionID = anchor,
           lh_Targets = map (\<lambda>d. \<lparr>lt_ConditionID = d, lt_LinkType = ''same_event'', lt_Direction = ''unknown'',
             lt_Confidence = fl 0.6\<rparr>) (dst # rest)\<rparr>]
     | _ \<Rightarrow> [])"

definition ListLinkHints :: "wk_env \<Rightarrow> int \<Rightarrow> sg_tables \<Rightarrow> string + LinkHint list" where
  "ListLinkHints ev batch s =
     (case wk_listFault ev of Some e \<Rightarrow> Inl e
      | None \<Rightarrow> Inr (concat (map hint_of (q_ListEventGroupedMarkets batch (sg_markets s)))))"

definition normaliseDirection :: "string \<Rightarrow> string" where
  "normaliseDirection d = (if d = ''aligned'' \<or> d = ''opposed'' then d else ''unknown'')"

text \<open>The edge of a target, unless it is passed over.\<close>

definition link_edge :: "ml_Config \<Rightarrow> LinkHint \<Rightarrow> LinkTarget \<Rightarrow> LinkRow option" where
  "link_edge c h t =
     (if lt_ConditionID t = '''' \<or> lh_SourceConditionID h = '''' \<or> lt_ConditionID t = lh_SourceConditionID h then None
      else if lt_Confidence t < mlc_MinConfidence c then None
      else if lt_Direction t = ''opposed'' \<and> \<not> mlc_IncludeOpposed c then None
      else Some \<lparr>lk_Src = lh_SourceConditionID h, lk_Dst = lt_ConditionID t, lk_LinkType = lt_LinkType t,
             lk_Direction = normaliseDirection (lt_Direction t), lk_Confidence = lt_Confidence t,
             lk_EventSlug = lh_EventSlug h, lk_SeriesID = lh_SeriesID h, lk_Version = mlc_LinkVersion c\<rparr>)"

text \<open>The state of the loop: the statements run, the tables, and the persisted, skipped and errored items.\<close>

fun links_loop :: "wk_env \<Rightarrow> ml_Config \<Rightarrow> (LinkHint \<times> LinkTarget) list \<Rightarrow> nat \<Rightarrow> sg_tables \<Rightarrow> int \<Rightarrow> int \<Rightarrow> int
    \<Rightarrow> sg_tables \<times> int \<times> int \<times> int" where
  "links_loop ev c [] k s persisted skipped errored = (s, persisted, skipped, errored)"
| "links_loop ev c ((h, t) # ts) k s persisted skipped errored =
     (case link_edge c h t of
        None \<Rightarrow> links_loop ev c ts k s persisted (skipped + 1) errored
      | Some e \<Rightarrow>
          (case q_UpsertMarketLink (wk_writeFault ev k) e (sg_links s) of
             (rows, Some err) \<Rightarrow> links_loop ev c ts (k + 1) (s\<lparr>sg_links := rows\<rparr>) persisted skipped (errored + 1)
           | (rows, None) \<Rightarrow> links_loop ev c ts (k + 1) (s\<lparr>sg_links := rows\<rparr>) (persisted + 1) skipped errored))"

definition hint_targets :: "LinkHint list \<Rightarrow> (LinkHint \<times> LinkTarget) list" where
  "hint_targets hints = concat (map (\<lambda>h. map (Pair h) (lh_Targets h)) hints)"

definition links_Tick :: "ml_Config \<Rightarrow> wk_env \<Rightarrow> sg_tables \<Rightarrow> wk_result" where
  "links_Tick c ev s =
     (case ListLinkHints ev (mlc_BatchSize c) s of
        Inl e \<Rightarrow> (s, ''failed'', [])
      | Inr [] \<Rightarrow> (s, ''empty'', [])
      | Inr hints \<Rightarrow>
          (case links_loop ev c (hint_targets hints) 0 s 0 0 0 of (s, persisted, skipped, errored) \<Rightarrow>
             (s, ''ok'', count_if ''persisted'' persisted @ count_if ''skipped'' skipped @ count_if ''errored'' errored)))"

subsection \<open>Thesis lines\<close>

record tl_Config =
  tlc_Enabled :: bool
  tlc_Interval :: duration
  tlc_Lookback :: duration
  tlc_MaxEvents :: int
  tlc_MaxWallets :: int
  tlc_BatchSize :: int

definition tl_New :: "tl_Config \<Rightarrow> tl_Config" where
  "tl_New c = (if tlc_BatchSize c \<le> 0 then c\<lparr>tlc_BatchSize := 10000\<rparr> else c)"

fun lines_loop :: "wk_env \<Rightarrow> int \<Rightarrow> LineAggregate list \<Rightarrow> nat \<Rightarrow> sg_tables \<Rightarrow> int \<Rightarrow> int \<Rightarrow> sg_tables \<times> int \<times> int" where
  "lines_loop ev hours [] k s persisted errored = (s, persisted, errored)"
| "lines_loop ev hours (a # aggs) k s persisted errored =
     (if la_Wallet a = '''' \<or> la_ConditionID a = '''' then lines_loop ev hours aggs k s persisted errored
      else (case q_UpsertWalletThesisLine (wk_dbNow ev k) (wk_writeFault ev k) (la_Wallet a) (la_ConditionID a) (la_EventSlug a)
                   (la_Side a) (la_NotionalUSD a) (la_Trades a) (tsFromTime (la_LastTradedAt a)) hours (sg_lines s) of
              (rows, Some err) \<Rightarrow> lines_loop ev hours aggs (k + 1) (s\<lparr>sg_lines := rows\<rparr>) persisted (errored + 1)
            | (rows, None) \<Rightarrow> lines_loop ev hours aggs (k + 1) (s\<lparr>sg_lines := rows\<rparr>) (persisted + 1) errored))"

definition lines_Tick :: "tl_Config \<Rightarrow> wk_env \<Rightarrow> sg_tables \<Rightarrow> wk_result" where
  "lines_Tick c ev s =
     (case wk_listFault ev of Some e \<Rightarrow> (s, ''failed'', [])
      | None \<Rightarrow>
          (case q_AggregateWalletThesisLines (tsFromTime (wk_now ev - tlc_Lookback c)) (tlc_BatchSize c)
                  (sg_trades s) (sg_traders s) (sg_markets s) of
             [] \<Rightarrow> (s, ''empty'', [])
           | aggs \<Rightarrow>
               (case lines_loop ev (f2i (Hours (tlc_Lookback c))) aggs 0 s 0 0 of (s, persisted, errored) \<Rightarrow>
                  (s, ''ok'', count_if ''persisted'' persisted @ count_if ''errored'' errored))))"

subsection \<open>The wallet graph\<close>

record CoTradeRow =
  co_Wallet :: string
  co_EventSlug :: string
  co_Side :: string
  co_At :: time

record wg_Config =
  wgc_Enabled :: bool
  wgc_Interval :: duration
  wgc_CoTradeWindow :: duration
  wgc_MinSharedEvents :: int
  wgc_BatchSize :: int
  wgc_EdgeVersion :: int

definition ListCoTradeRows :: "wk_env \<Rightarrow> duration \<Rightarrow> int \<Rightarrow> sg_tables \<Rightarrow> string + CoTradeRow list" where
  "ListCoTradeRows ev lookback_d limit s =
     (case wk_listFault ev of Some e \<Rightarrow> Inl e
      | None \<Rightarrow> Inr (map (\<lambda>(w, slug, side, t). \<lparr>co_Wallet = w, co_EventSlug = slug, co_Side = side, co_At = t\<rparr>)
          (q_ListWalletCoTradeRows (tsFromTime (wk_listNow ev - lookback_d)) limit (sg_trades s) (sg_traders s) (sg_markets s))))"

text \<open>
  The set of event slugs of a wallet on a side, as a list without repetitions; rows with an empty
  field are passed over.
\<close>

definition usable :: "CoTradeRow \<Rightarrow> bool" where
  "usable r \<longleftrightarrow> co_Wallet r \<noteq> '''' \<and> co_EventSlug r \<noteq> '''' \<and> co_Side r \<noteq> ''''"

definition walletEvents :: "CoTradeRow list \<Rightarrow> string \<times> string \<Rightarrow> string list" where
  "walletEvents rows k = remdups (map co_EventSlug (filter (\<lambda>r. usable r \<and> (co_Wallet r, co_Side r) = k) rows))"

text \<open>The keys, sorted by side and then wallet.\<close>

definition wallet_keys :: "CoTradeRow list \<Rightarrow> (string \<times> string) list" where
  "wallet_keys rows = sort_key snd (sort_key fst (remdups (map (\<lambda>r. (co_Wallet r, co_Side r)) (filter usable rows))))"

definition shared_events :: "CoTradeRow list \<Rightarrow> string \<times> string \<Rightarrow> string \<times> string \<Rightarrow> nat" where
  "shared_events rows a b = length (filter (\<lambda>e. e \<in> set (walletEvents rows b)) (walletEvents rows a))"

definition co_edge :: "CoTradeRow list \<Rightarrow> int \<Rightarrow> int \<Rightarrow> time \<Rightarrow> string \<times> string \<Rightarrow> string \<times> string \<Rightarrow> EdgeRow list" where
  "co_edge rows minShared ver now a b =
     (if snd a \<noteq> snd b \<or> fst a = fst b then []
      else let shared = shared_events rows a b;
               denom = max (length (walletEvents rows a)) (length (walletEvents rows b))
           in if int shared < minShared then []
              else [\<lparr>eg_WalletA = (if fst b < fst a then fst b else fst a), eg_WalletB = (if fst b < fst a then fst a else fst b),
                     eg_Kind = ''co_trade'', eg_SimilarityScore = of_i (int shared) / of_i (int denom),
                     eg_CoEventsCount = int shared, eg_CohortID = '''', eg_FirstSeenAt = now, eg_LastSeenAt = now,
                     eg_Version = ver\<rparr>])"

fun co_pairs :: "('a \<Rightarrow> 'a \<Rightarrow> 'b list) \<Rightarrow> 'a list \<Rightarrow> 'b list" where
  "co_pairs f [] = []"
| "co_pairs f (a # ks) = concat (map (f a) ks) @ co_pairs f ks"

definition computeCoTradeEdges :: "CoTradeRow list \<Rightarrow> int \<Rightarrow> int \<Rightarrow> time \<Rightarrow> EdgeRow list" where
  "computeCoTradeEdges rows minShared ver now =
     (if rows = [] \<or> minShared < 2 then [] else co_pairs (co_edge rows minShared ver now) (wallet_keys rows))"

text \<open>The sink runs one statement per edge and stops at the first error.\<close>

fun UpsertEdges :: "wk_env \<Rightarrow> EdgeRow list \<Rightarrow> nat \<Rightarrow> EdgeRow list \<Rightarrow> EdgeRow list \<times> string option" where
  "UpsertEdges ev [] k rows = (rows, None)"
| "UpsertEdges ev (e # es) k rows =
     (case wk_writeFault ev k of
        Some err \<Rightarrow> (rows, Some err)
      | None \<Rightarrow> if edge_check e then UpsertEdges ev es (k + 1) (upsert edge_key edge_merge e rows)
               else (rows, Some ''check constraint''))"

text \<open>The application wires no funding provider.\<close>

definition graph_Tick :: "wg_Config \<Rightarrow> wk_env \<Rightarrow> sg_tables \<Rightarrow> wk_result" where
  "graph_Tick c ev s =
     (case ListCoTradeRows ev (wgc_CoTradeWindow c) (wgc_BatchSize c) s of
        Inl e \<Rightarrow> (s, ''failed'', [])
      | Inr rows \<Rightarrow>
          (case computeCoTradeEdges rows (wgc_MinSharedEvents c) (wgc_EdgeVersion c) (wk_now ev) of
             [] \<Rightarrow> (s, ''empty'', [])
           | edges \<Rightarrow>
               (case UpsertEdges ev edges 0 (sg_edges s) of
                  (rows, Some err) \<Rightarrow> (s\<lparr>sg_edges := rows\<rparr>, ''failed'', [])
                | (rows, None) \<Rightarrow> (s\<lparr>sg_edges := rows\<rparr>, ''ok'', [(''persisted'', int (length edges))]))))"

subsection \<open>Risk scores\<close>

record rs_Config =
  rsc_Enabled :: bool
  rsc_Interval :: duration
  rsc_BatchSize :: int
  rsc_ScoreVersion :: int
  rsc_RefreshOlder :: duration

text \<open>The lister ignores the age it is asked for, and knows neither rules nor a hint.\<close>

definition ListRiskScoreCandidates :: "wk_env \<Rightarrow> int \<Rightarrow> duration \<Rightarrow> sg_tables \<Rightarrow> string + rr_Input list" where
  "ListRiskScoreCandidates ev limit age s =
     (case wk_listFault ev of Some e \<Rightarrow> Inl e
      | None \<Rightarrow> Inr (map (\<lambda>m. \<lparr>ri_ConditionID = mr_ConditionID m, ri_Title = mr_Question m, ri_Description = derefStr (mr_EventTitle m),
            ri_ResolutionRules = '''', ri_CatalystKindHint = ''''\<rparr>)
          (q_ListRiskScoreCandidates limit (sg_markets s) (sg_risks s))))"

definition encodeReasonsAsJSON :: "wk_env \<Rightarrow> string list \<Rightarrow> string option" where
  "encodeReasonsAsJSON ev rsns = (if rsns = [] then None else wk_json ev rsns)"

fun risk_loop :: "wk_env \<Rightarrow> rs_Config \<Rightarrow> rr_Config \<Rightarrow> rr_Input list \<Rightarrow> nat \<Rightarrow> sg_tables \<Rightarrow> int \<Rightarrow> int \<Rightarrow> sg_tables \<times> int \<times> int" where
  "risk_loop ev c d [] k s persisted errored = (s, persisted, errored)"
| "risk_loop ev c d (f # fs) k s persisted errored =
     (let v = rr_Decide d f
      in case q_UpsertMarketRiskScore (wk_dbNow ev k) (wk_writeFault ev k) (ri_ConditionID f) (rsc_ScoreVersion c)
                (rk_AmbiguityScore v) (rk_DisputeRisk v) (encodeReasonsAsJSON ev (rk_Reasons v)) (sg_risks s) of
           (rows, Some err) \<Rightarrow> risk_loop ev c d fs (k + 1) (s\<lparr>sg_risks := rows\<rparr>) persisted (errored + 1)
         | (rows, None) \<Rightarrow> risk_loop ev c d fs (k + 1) (s\<lparr>sg_risks := rows\<rparr>) (persisted + 1) errored)"

definition risk_Tick :: "rs_Config \<Rightarrow> rr_Config \<Rightarrow> wk_env \<Rightarrow> sg_tables \<Rightarrow> wk_result" where
  "risk_Tick c d ev s =
     (case ListRiskScoreCandidates ev (rsc_BatchSize c) (rsc_RefreshOlder c) s of
        Inl e \<Rightarrow> (s, ''failed'', [])
      | Inr [] \<Rightarrow> (s, ''empty'', [])
      | Inr facts \<Rightarrow>
          (case risk_loop ev c d facts 0 s 0 0 of (s, persisted, errored) \<Rightarrow>
             (s, ''ok'', count_if ''persisted'' persisted @ count_if ''errored'' errored)))"

subsection \<open>The edges of the wallet graph\<close>

text \<open>The events of a wallet on a side, as a set.\<close>

definition events_of :: "CoTradeRow list \<Rightarrow> string \<Rightarrow> string \<Rightarrow> string set" where
  "events_of rows w side = {co_EventSlug r |r. r \<in> set rows \<and> usable r \<and> co_Wallet r = w \<and> co_Side r = side}"

lemma walletEvents_facts: "set (walletEvents rows (w, side)) = events_of rows w side" "distinct (walletEvents rows k)"
  by (auto simp: walletEvents_def events_of_def)

lemma length_walletEvents: "length (walletEvents rows (w, side)) = card (events_of rows w side)"
  by (metis walletEvents_facts distinct_card)

lemma shared_events_card: "shared_events rows (a, side) (b, side') = card (events_of rows a side \<inter> events_of rows b side')"
proof -
  have "shared_events rows (a, side) (b, side') = card (set (filter (\<lambda>e. e \<in> set (walletEvents rows (b, side'))) (walletEvents rows (a, side))))"
    unfolding shared_events_def using walletEvents_facts(2) by (metis distinct_card distinct_filter)
  then show ?thesis by (simp add: walletEvents_facts Int_def)
qed

lemma finite_events_of [simp]: "finite (events_of rows w side)"
  by (metis walletEvents_facts(1) finite_set)

lemma set_wallet_keys: "(w, side) \<in> set (wallet_keys rows) \<longleftrightarrow> events_of rows w side \<noteq> {}"
  by (auto simp: wallet_keys_def events_of_def)

lemma co_pairs_subset: "e \<in> set (co_pairs f ks) \<Longrightarrow> \<exists>a \<in> set ks. \<exists>b \<in> set ks. e \<in> set (f a b)"
  by (induction ks) auto

text \<open>Every pair of different keys is visited, one way round or the other.\<close>

lemma co_pairs_visits:
  "a \<in> set ks \<Longrightarrow> b \<in> set ks \<Longrightarrow> a \<noteq> b \<Longrightarrow> set (f a b) \<subseteq> set (co_pairs f ks) \<or> set (f b a) \<subseteq> set (co_pairs f ks)"
  by (induction ks) auto

text \<open>The edge of two wallets does not depend on the way round.\<close>

lemma co_edge_symmetric: "co_edge rows m ver now (a, side) (b, side) = co_edge rows m ver now (b, side) (a, side)"
  by (auto simp: co_edge_def Let_def shared_events_card Int_commute max.commute)

lemma in_co_edge:
  "e \<in> set (co_edge rows m ver now (a, side) (b, side')) \<Longrightarrow>
     side' = side \<and> a \<noteq> b \<and> m \<le> int (card (events_of rows a side \<inter> events_of rows b side)) \<and>
     eg_WalletA e = min a b \<and> eg_WalletB e = max a b \<and>
     eg_CoEventsCount e = int (card (events_of rows a side \<inter> events_of rows b side)) \<and> eg_Kind e = ''co_trade'' \<and> eg_Version e = ver"
  by (auto simp: co_edge_def Let_def shared_events_card min_def max_def split: if_splits)

lemma co_edge_nonempty:
  assumes "a < b" "m \<le> int (card (events_of rows a side \<inter> events_of rows b side))"
  shows "\<exists>e \<in> set (co_edge rows m ver now (a, side) (b, side)). eg_WalletA e = a \<and> eg_WalletB e = b \<and>
    eg_CoEventsCount e = int (card (events_of rows a side \<inter> events_of rows b side))"
  using assms by (auto simp: co_edge_def Let_def shared_events_card)

lemma computed_edges:
  "e \<in> set (computeCoTradeEdges rows m ver now) \<Longrightarrow>
     2 \<le> m \<and> (\<exists>a b side. a < b \<and> eg_WalletA e = a \<and> eg_WalletB e = b \<and> eg_Kind e = ''co_trade'' \<and>
       m \<le> int (card (events_of rows a side \<inter> events_of rows b side)) \<and>
       eg_CoEventsCount e = int (card (events_of rows a side \<inter> events_of rows b side)))"
proof -
  assume e: "e \<in> set (computeCoTradeEdges rows m ver now)"
  then have m: "2 \<le> m" "e \<in> set (co_pairs (co_edge rows m ver now) (wallet_keys rows))"
    by (auto simp: computeCoTradeEdges_def split: if_splits)
  then obtain a side b side' where "e \<in> set (co_edge rows m ver now (a, side) (b, side'))"
    using co_pairs_subset by (metis surj_pair)
  note f = in_co_edge [OF this]
  then consider "a < b" | "b < a" by fastforce
  then show ?thesis
  proof cases
    case 1
    then show ?thesis using f m(1) by (intro conjI exI [of _ a] exI [of _ b] exI [of _ side]) (auto simp: min_def max_def)
  next
    case 2
    then show ?thesis using f m(1)
      by (intro conjI exI [of _ b] exI [of _ a] exI [of _ side]) (auto simp: min_def max_def Int_commute)
  qed
qed

lemma computed_edges_complete:
  assumes "2 \<le> m" "a < b" "m \<le> int (card (events_of rows a side \<inter> events_of rows b side))"
  shows "\<exists>e \<in> set (computeCoTradeEdges rows m ver now). eg_WalletA e = a \<and> eg_WalletB e = b \<and>
    eg_CoEventsCount e = int (card (events_of rows a side \<inter> events_of rows b side))"
proof -
  obtain e where e: "e \<in> set (co_edge rows m ver now (a, side) (b, side))" "eg_WalletA e = a" "eg_WalletB e = b"
      "eg_CoEventsCount e = int (card (events_of rows a side \<inter> events_of rows b side))"
    using co_edge_nonempty [OF assms(2,3)] by blast
  have "events_of rows a side \<inter> events_of rows b side \<noteq> {}" using assms(1,3) by (metis card.empty not_numeral_le_zero of_nat_0 order_trans)
  then have k: "(a, side) \<in> set (wallet_keys rows)" "(b, side) \<in> set (wallet_keys rows)" "rows \<noteq> []"
    by (auto simp: set_wallet_keys events_of_def)
  have "e \<in> set (co_pairs (co_edge rows m ver now) (wallet_keys rows))"
    using co_pairs_visits [OF k(1,2), of "co_edge rows m ver now"] assms(2) e(1) co_edge_symmetric by auto
  then show ?thesis using e k(3) assms(1) by (auto simp: computeCoTradeEdges_def)
qed

text \<open>C18. The wallet graph: the computed edges join two wallets exactly when on one side of the market,
  BUY or SELL, they traded at least the required number of the same events; the edge carries that
  number, and the wallets in order. A requirement below two gives no edge.\<close>

theorem co_trade_edges:
  "(\<exists>e \<in> set (computeCoTradeEdges rows m ver now). eg_WalletA e = a \<and> eg_WalletB e = b \<and> eg_CoEventsCount e = n) \<longleftrightarrow>
     2 \<le> m \<and> m \<le> n \<and> a < b \<and> (\<exists>side. n = int (card (events_of rows a side \<inter> events_of rows b side)))"
proof
  assume "\<exists>e \<in> set (computeCoTradeEdges rows m ver now). eg_WalletA e = a \<and> eg_WalletB e = b \<and> eg_CoEventsCount e = n"
  then obtain e where e: "e \<in> set (computeCoTradeEdges rows m ver now)" "eg_WalletA e = a" "eg_WalletB e = b" "eg_CoEventsCount e = n"
    by blast
  show "2 \<le> m \<and> m \<le> n \<and> a < b \<and> (\<exists>side. n = int (card (events_of rows a side \<inter> events_of rows b side)))"
    using computed_edges [OF e(1)] by (metis e(2-4))
next
  assume "2 \<le> m \<and> m \<le> n \<and> a < b \<and> (\<exists>side. n = int (card (events_of rows a side \<inter> events_of rows b side)))"
  then show "\<exists>e \<in> set (computeCoTradeEdges rows m ver now). eg_WalletA e = a \<and> eg_WalletB e = b \<and> eg_CoEventsCount e = n"
    using computed_edges_complete by blast
qed

text \<open>All of them pass the CHECK constraints of their table.\<close>

lemma computed_edges_check: "list_all edge_check (computeCoTradeEdges rows m ver now)"
  using computed_edges by (fastforce simp: list_all_iff edge_check_def)

text \<open>
  The key of the table has no side. A pair that meets on both sides gets two edges, and the one of the
  side that sorts last, SELL, replaces that of BUY, however weak it is.
\<close>

definition both_sides :: "CoTradeRow list" where
  "both_sides = map (\<lambda>(w, e, d). \<lparr>co_Wallet = w, co_EventSlug = e, co_Side = d, co_At = 0\<rparr>)
     [(''a'', ''e1'', ''BUY''), (''a'', ''e2'', ''BUY''), (''a'', ''e3'', ''BUY''), (''b'', ''e1'', ''BUY''), (''b'', ''e2'', ''BUY''),
      (''b'', ''e3'', ''BUY''), (''a'', ''e4'', ''SELL''), (''a'', ''e5'', ''SELL''), (''b'', ''e4'', ''SELL''), (''b'', ''e5'', ''SELL'')]"

lemma weaker_side_is_stored:
  "map eg_CoEventsCount (computeCoTradeEdges both_sides 2 1 0) = [3, 2] \<and>
   map eg_CoEventsCount (foldl (\<lambda>rows e. upsert edge_key edge_merge e rows) [] (computeCoTradeEdges both_sides 2 1 0)) = [2]"
  by code_simp

end
