(* ===== verification/TelegramBot.thy ===== *)
theory TelegramBot
  imports GoFmt
begin

text \<open>
  The Telegram client (package telegram, \<open>client.go\<close>) and its annotation adapter
  (\<open>annotation.go\<close>). The HTTP exchange is a parameter that answers a request with a transport
  error or with a status and a body; the JSON decoder of the reply is a parameter as well. A call
  returns the events it caused: the requests posted and the metrics observed.
\<close>

subsection \<open>strconv.ParseInt\<close>

definition is_digit :: "char \<Rightarrow> bool" where
  "is_digit c \<longleftrightarrow> (let n = (of_char c :: nat) in 48 \<le> n \<and> n \<le> 57)"

definition ParseUint :: "string \<Rightarrow> nat option" where
  "ParseUint s = (if s = '''' \<or> \<not> list_all is_digit s then None else Some (undigits s))"

text \<open>\<open>ParseInt(s, 10, 64)\<close>: an optional sign, then digits; \<open>None\<close> for an error.\<close>

definition ParseInt :: "string \<Rightarrow> int option" where
  "ParseInt s =
     (let neg = (s \<noteq> '''' \<and> hd s = CHR ''-'');
          body = (if s \<noteq> '''' \<and> (hd s = CHR ''+'' \<or> hd s = CHR ''-'') then tl s else s)
      in case ParseUint body of
           None \<Rightarrow> None
         | Some un \<Rightarrow>
             if \<not> neg \<and> 2 ^ 63 \<le> un then None
             else if neg \<and> 2 ^ 63 < un then None
             else Some (if neg then - int un else int un))"

lemma is_digit_digit: "d < 10 \<Longrightarrow> is_digit (digit d)"
  by (simp add: is_digit_def digit_def of_char_of)

lemma ParseUint_digits: "ParseUint (digits n) = Some n"
proof -
  have "list_all is_digit (digits n)" unfolding list_all_iff
    using digits_chars is_digit_digit by blast
  then show ?thesis by (simp add: ParseUint_def digits_nonempty undigits_digits)
qed

lemma digit_not_sign: "d < 10 \<Longrightarrow> digit d \<noteq> CHR ''+'' \<and> digit d \<noteq> CHR ''-''"
proof -
  assume "d < 10"
  then have "is_digit (digit d)" by (rule is_digit_digit)
  moreover have "\<not> is_digit (CHR ''+'')" "\<not> is_digit (CHR ''-'')" by (simp_all add: is_digit_def)
  ultimately show ?thesis by metis
qed

lemma hd_digits: "hd (digits n) \<noteq> CHR ''+'' \<and> hd (digits n) \<noteq> CHR ''-''"
proof -
  have "hd (digits n) \<in> set (digits n)" using digits_nonempty by (rule hd_in_set)
  then obtain d where "d < 10" "hd (digits n) = digit d" using digits_chars by metis
  then show ?thesis using digit_not_sign [of d] by simp
qed

text \<open>A printed int64 parses back.\<close>

lemma ParseInt_fmt_d: "- (2 ^ 63) \<le> n \<Longrightarrow> n < 2 ^ 63 \<Longrightarrow> ParseInt (fmt_d n) = Some n"
proof (cases "n < 0")
  case True
  assume "- (2 ^ 63) \<le> n"
  then have "\<not> 2 ^ 63 < nat (- n)" by simp
  then show ?thesis using True by (simp add: ParseInt_def fmt_d_def ParseUint_digits)
next
  case False
  assume "n < 2 ^ 63"
  then have "\<not> 2 ^ 63 \<le> nat n" using False by simp
  then show ?thesis
    using False hd_digits [of "nat n"] by (simp add: ParseInt_def fmt_d_def ParseUint_digits)
qed

subsection \<open>The bot\<close>

record tg_Config =
  tc_BotToken :: string
  tc_BaseURL :: string
  tc_Timeout :: duration

text \<open>The JSON value of \<open>chat_id\<close>: a number when the identifier parses as one.\<close>

datatype chat_id = ChatNum int | ChatStr string

datatype tg_method = SendMessage | EditMessage | SetReaction

record TgRequest =
  rq_endpoint :: string
  rq_method :: tg_method
  rq_chat :: chat_id
  rq_message_id :: int
  rq_text :: string

datatype tg_error = TgErr string | ErrEditUnsupported string | ErrReactionUnsupported string

fun err_text :: "tg_error \<Rightarrow> string" where
  "err_text (TgErr m) = m"
| "err_text (ErrEditUnsupported m) = ''telegram: editMessageText unsupported on target: '' @ m"
| "err_text (ErrReactionUnsupported m) = ''telegram: setMessageReaction unsupported on target: '' @ m"

record SendResult =
  sr_MessageID :: int

definition zero_result :: SendResult where
  "zero_result = \<lparr>sr_MessageID = 0\<rparr>"

text \<open>An exchange answers with a transport error or with a status code and a body.\<close>

type_synonym tg_http = "TgRequest \<Rightarrow> string + (int \<times> string)"

record Bot =
  bot_cfg :: tg_Config
  bot_do :: tg_http
  bot_decode :: "string \<Rightarrow> int option"

definition tg_New :: "tg_Config \<Rightarrow> tg_http \<Rightarrow> (string \<Rightarrow> int option) \<Rightarrow> tg_error + Bot" where
  "tg_New cfg http decode =
     (if TrimSpace (tc_BotToken cfg) = '''' then Inl (TgErr ''telegram: bot token required'')
      else
        (let cfg = (if tc_BaseURL cfg = '''' then cfg\<lparr>tc_BaseURL := ''https://api.telegram.org''\<rparr> else cfg);
             cfg = (if tc_Timeout cfg \<le> 0 then cfg\<lparr>tc_Timeout := 5 * Second\<rparr> else cfg)
         in Inr \<lparr>bot_cfg = cfg, bot_do = http, bot_decode = decode\<rparr>))"

definition chat_ref :: "string \<Rightarrow> chat_id" where
  "chat_ref chatID = (case ParseInt chatID of Some i \<Rightarrow> ChatNum i | None \<Rightarrow> ChatStr chatID)"

definition endpoint :: "Bot \<Rightarrow> string \<Rightarrow> string" where
  "endpoint b meth = TrimRight (\<lambda>c. c = CHR ''/'') (tc_BaseURL (bot_cfg b)) @ ''/bot'' @ tc_BotToken (bot_cfg b) @ ''/'' @ meth"

type_synonym Surface = string

datatype tg_event =
    EvRequest TgRequest
  | EvGuardSuppressed Surface string
  | EvRoute Surface string string
  | EvSent Surface string string
  | EvSuppressed Surface string string
  | EvSendFailed Surface string string
  | EvAnnotation Surface string string
  | EvAnnotationFailed Surface string string

type_synonym html_sender = "string \<Rightarrow> string \<Rightarrow> tg_event list \<times> SendResult \<times> tg_error option"

definition SendHTML :: "Bot \<Rightarrow> html_sender" where
  "SendHTML b chatID text =
     (if TrimSpace chatID = '''' then ([], zero_result, Some (TgErr ''telegram: chat id required''))
      else
        (let rq = \<lparr>rq_endpoint = endpoint b ''sendMessage'', rq_method = SendMessage, rq_chat = chat_ref chatID,
                   rq_message_id = 0, rq_text = text\<rparr>
         in ([EvRequest rq],
             case bot_do b rq of
               Inl e \<Rightarrow> (zero_result, Some (TgErr (''telegram: send to chat '' @ chatID @ '': '' @ e)))
             | Inr (status, body) \<Rightarrow>
                 if 300 \<le> status
                 then (zero_result, Some (TgErr (''telegram: chat '' @ chatID @ '' -> '' @ fmt_d status @ '': '' @ take 512 body)))
                 else case bot_decode b (take 65536 body) of
                        None \<Rightarrow> (zero_result, None)
                      | Some m \<Rightarrow> (\<lparr>sr_MessageID = m\<rparr>, None))))"

definition EditMessageText :: "Bot \<Rightarrow> string \<Rightarrow> int \<Rightarrow> string \<Rightarrow> tg_event list \<times> tg_error option" where
  "EditMessageText b chatID messageID text =
     (if TrimSpace chatID = '''' then ([], Some (TgErr ''telegram: chat id required''))
      else if messageID \<le> 0 then ([], Some (TgErr ''telegram: message id required''))
      else
        (let rq = \<lparr>rq_endpoint = endpoint b ''editMessageText'', rq_method = EditMessage, rq_chat = chat_ref chatID,
                   rq_message_id = messageID, rq_text = text\<rparr>
         in ([EvRequest rq],
             case bot_do b rq of
               Inl e \<Rightarrow> Some (TgErr (''telegram: editMessageText: '' @ e))
             | Inr (status, body) \<Rightarrow>
                 if status = 200 then None
                 else if status = 400 \<or> status = 403
                 then Some (ErrEditUnsupported (fmt_d status @ '': '' @ take 1024 body))
                 else Some (TgErr (''telegram: editMessageText chat '' @ chatID @ '' -> '' @ fmt_d status @ '': '' @ take 1024 body)))))"

definition reaction_markers :: "string list" where
  "reaction_markers = [''reaction_invalid'', ''reactions_too_many'', ''reactions_not_enabled'', ''chat_admin_required'',
     ''have no rights'', ''not enough rights'', ''message_not_modified'', ''message to react not found'',
     ''bot was kicked'', ''bot is not a member'']"

definition SetMessageReaction :: "Bot \<Rightarrow> string \<Rightarrow> int \<Rightarrow> string \<Rightarrow> tg_event list \<times> tg_error option" where
  "SetMessageReaction b chatID messageID emoji =
     (if TrimSpace chatID = '''' then ([], Some (TgErr ''telegram: chat id required''))
      else if messageID \<le> 0 then ([], Some (TgErr ''telegram: message id required''))
      else if TrimSpace emoji = '''' then ([], Some (TgErr ''telegram: emoji required''))
      else
        (let rq = \<lparr>rq_endpoint = endpoint b ''setMessageReaction'', rq_method = SetReaction, rq_chat = chat_ref chatID,
                   rq_message_id = messageID, rq_text = emoji\<rparr>
         in ([EvRequest rq],
             case bot_do b rq of
               Inl e \<Rightarrow> Some (TgErr (''telegram: setMessageReaction: '' @ e))
             | Inr (status, body) \<Rightarrow>
                 if status = 200 then None
                 else
                   (let bodyStr = take 512 body; lower = ToLower bodyStr
                    in if (status = 400 \<or> status = 403) \<and> list_ex (\<lambda>m. Contains lower m) reaction_markers
                       then Some (ErrReactionUnsupported bodyStr)
                       else Some (TgErr (''telegram: setMessageReaction chat='' @ chatID @ '' msg='' @ fmt_d messageID @
                              '' -> '' @ fmt_d status @ '': '' @ bodyStr))))))"

subsection \<open>Annotation adapter\<close>

definition classifySendErr :: "tg_error \<Rightarrow> string" where
  "classifySendErr err =
     (let msg = err_text err
      in if Contains msg ''context deadline exceeded'' \<or> Contains msg ''Client.Timeout'' then ''timeout''
         else if Contains msg ''chat not found'' \<or> Contains msg ''bot was kicked'' then ''chat_unavailable''
         else if Contains msg ''message is too long'' then ''payload_too_long''
         else if Contains msg ''parse'' then ''parse_rejected''
         else ''other'')"

definition classifyEditErr :: "tg_error \<Rightarrow> string" where
  "classifyEditErr err = (case err of ErrEditUnsupported m \<Rightarrow> ''unsupported'' | _ \<Rightarrow> classifySendErr err)"

definition classifyReactionErr :: "tg_error \<Rightarrow> string" where
  "classifyReactionErr err = (case err of ErrReactionUnsupported m \<Rightarrow> ''unsupported'' | _ \<Rightarrow> classifySendErr err)"

definition EditOutcomeMessage :: "Bot \<Rightarrow> Surface \<Rightarrow> string \<Rightarrow> int \<Rightarrow> string \<Rightarrow> tg_event list \<times> tg_error option" where
  "EditOutcomeMessage b surface chatID messageID html =
     (case EditMessageText b chatID messageID html of
        (evs, Some err) \<Rightarrow> (evs @ [EvAnnotationFailed surface ''edit'' (classifyEditErr err)], Some err)
      | (evs, None) \<Rightarrow> (evs @ [EvAnnotation surface ''edit'' ''ok''], None))"

definition SetOutcomeReaction :: "Bot \<Rightarrow> Surface \<Rightarrow> string \<Rightarrow> int \<Rightarrow> string \<Rightarrow> tg_event list \<times> tg_error option" where
  "SetOutcomeReaction b surface chatID messageID emoji =
     (case SetMessageReaction b chatID messageID emoji of
        (evs, Some err) \<Rightarrow> (evs @ [EvAnnotationFailed surface ''reaction'' (classifyReactionErr err)], Some err)
      | (evs, None) \<Rightarrow> (evs @ [EvAnnotation surface ''reaction'' ''ok''], None))"

text \<open>Identifiers written canonically denote different chats when they differ.\<close>

definition canonical_chat :: "string \<Rightarrow> bool" where
  "canonical_chat c \<longleftrightarrow> (case ParseInt c of None \<Rightarrow> True | Some i \<Rightarrow> c = fmt_d i)"

lemma chat_ref_inj: "canonical_chat a \<Longrightarrow> canonical_chat b \<Longrightarrow> chat_ref a = chat_ref b \<Longrightarrow> a = b"
  by (auto simp: canonical_chat_def chat_ref_def split: option.splits)

end
