(* ===== verification/MarketFeeds.thy ===== *)
theory MarketFeeds
  imports InputWorkers TelegramBot
begin

text \<open>
  The workers that fill the staged tables from Polymarket: the bars of book features
  (\<open>usecase/bookbars\<close> on the order books of \<open>infra/polymarket/clob\<close>) and the holder snapshots
  (\<open>usecase/holdersync\<close> on the holders of \<open>infra/polymarket/dataapi\<close>), both on the markets chosen by
  \<open>usecase/workerbudget\<close>, with the adapters of \<open>app/strategy_phase_f.go\<close>. What the two services
  answer, decoded from JSON, and \<open>strconv.ParseFloat\<close> are parameters.
\<close>

subsection \<open>Order books\<close>

record Level =
  bl_Price :: float64
  bl_Size :: float64

record Book =
  bk_Market :: string
  bk_AssetID :: string
  bk_Timestamp :: time
  bk_Hash :: string
  bk_LastTradePrice :: float64
  bk_Bids :: "Level list"
  bk_Asks :: "Level list"

record wireBook =
  wb_Market :: string
  wb_AssetID :: string
  wb_Timestamp :: string
  wb_Hash :: string
  wb_LastTradePrice :: string
  wb_Bids :: "(string \<times> string) list"
  wb_Asks :: "(string \<times> string) list"

type_synonym float_parser = "string \<Rightarrow> float64 option"

definition parseFloatStr :: "float_parser \<Rightarrow> string \<Rightarrow> float64" where
  "parseFloatStr P s =
     (let s = TrimSpace s in if s = '''' then 0 else case P s of None \<Rightarrow> 0 | Some v \<Rightarrow> v)"

definition parseLevels :: "float_parser \<Rightarrow> (string \<times> string) list \<Rightarrow> bool \<Rightarrow> Level list" where
  "parseLevels P raw descending =
     (let out = filter (\<lambda>l. \<not> bl_Price l \<le> 0 \<and> \<not> bl_Size l \<le> 0)
                  (map (\<lambda>(p, s). \<lparr>bl_Price = parseFloatStr P p, bl_Size = parseFloatStr P s\<rparr>) raw)
      in if descending then go_isort (\<lambda>y x. bl_Price y < bl_Price x) out
         else go_isort (\<lambda>y x. bl_Price x < bl_Price y) out)"

text \<open>Seconds or milliseconds of the Unix epoch.\<close>

definition book_time :: "string \<Rightarrow> time" where
  "book_time s =
     (case ParseInt (TrimSpace s) of None \<Rightarrow> zero_time
      | Some ms \<Rightarrow> if ms \<le> 0 then zero_time else if ms < 1000000000000 then ms * Second else ms * 1000000)"

definition parseBook :: "float_parser \<Rightarrow> wireBook \<Rightarrow> Book" where
  "parseBook P w =
     \<lparr>bk_Market = wb_Market w, bk_AssetID = wb_AssetID w, bk_Timestamp = book_time (wb_Timestamp w), bk_Hash = wb_Hash w,
      bk_LastTradePrice = parseFloatStr P (wb_LastTradePrice w), bk_Bids = parseLevels P (wb_Bids w) True,
      bk_Asks = parseLevels P (wb_Asks w) False\<rparr>"

text \<open>The batched call: what the service answers to the tokens that are not empty.\<close>

definition GetBooks :: "float_parser \<Rightarrow> (string list \<Rightarrow> string + wireBook list) \<Rightarrow> string list \<Rightarrow> string + Book list" where
  "GetBooks P post tokens =
     (let body = filter (\<lambda>t. t \<noteq> '''') tokens
      in if body = [] then Inr [] else map_sum id (map (parseBook P)) (post body))"

definition TopNDepth :: "Level list \<Rightarrow> int \<Rightarrow> float64" where
  "TopNDepth levels topN =
     (let topN = (if topN \<le> 0 \<or> int (length levels) < topN then int (length levels) else topN)
      in foldl (\<lambda>sum l. sum + bl_Size l) 0 (take (nat topN) levels))"

subsection \<open>Budgets\<close>

record Budget =
  bu_OperatorPinned :: int
  bu_RecentAlert :: int
  bu_CatalystNear :: int
  bu_LinkedToFired :: int
  bu_Liquid :: int
  bu_FallbackActive :: int
  bu_PinnedConditionIDs :: "string list"

definition bu_Total :: "Budget \<Rightarrow> int" where
  "bu_Total b = bu_OperatorPinned b + bu_RecentAlert b + bu_CatalystNear b + bu_LinkedToFired b + bu_Liquid b + bu_FallbackActive b"

definition AllZero :: "Budget \<Rightarrow> bool" where
  "AllZero b \<longleftrightarrow> bu_Total b = 0 \<and> bu_PinnedConditionIDs b = []"

fun normalise_pins :: "string list \<Rightarrow> string set \<Rightarrow> string list" where
  "normalise_pins [] seen = []"
| "normalise_pins (raw # pins) seen =
     (let s = TrimSpace raw
      in if s = '''' \<or> s \<in> seen then normalise_pins pins seen else s # normalise_pins pins (insert s seen))"

definition normalisePins :: "string list \<Rightarrow> string list" where
  "normalisePins pins = normalise_pins pins {}"

text \<open>
  What the bucketed query reads beside the staged tables: the database's clock, the creation times and
  markets of the alerts, and the event-page markets with their liquidity, creation time and activity.
\<close>

record bucket_env =
  be_now :: time
  be_alerts :: "(time \<times> int) list"
  be_pages :: "(string \<times> float64 option \<times> time \<times> bool) list"

definition live_markets :: "sg_tables \<Rightarrow> MarketRow list" where
  "live_markets s = filter (\<lambda>m. mr_DeletedAt m = None \<and> mr_PurgedAt m = None) (mt_rows (sg_markets s))"

text \<open>The condition ids of the markets with an alert in the last day, deleted markets among them or not.\<close>

definition alerted :: "bucket_env \<Rightarrow> MarketRow list \<Rightarrow> string list" where
  "alerted be ms =
     concat (map (\<lambda>(t, i). if be_now be - 24 * Hour < t then map mr_ConditionID (filter (\<lambda>m. mr_ID m = i) ms) else []) (be_alerts be))"

definition bucket_pinned :: "string list \<Rightarrow> sg_tables \<Rightarrow> string list" where
  "bucket_pinned pins s = map mr_ConditionID (filter (\<lambda>m. mr_ConditionID m \<in> set pins) (live_markets s))"

definition bucket_recent :: "bucket_env \<Rightarrow> sg_tables \<Rightarrow> string list" where
  "bucket_recent be s = remdups (alerted be (live_markets s))"

definition bucket_catalyst :: "bucket_env \<Rightarrow> sg_tables \<Rightarrow> string list" where
  "bucket_catalyst be s =
     remdups (concat (map (\<lambda>c. if pending_status (cy_Status c) \<and>
            (case cy_ExpectedAt c of None \<Rightarrow> True | Some t \<Rightarrow> t \<le> be_now be + 72 * Hour)
          then map mr_ConditionID (filter (\<lambda>m. mr_EventSlug m = Some (cy_EventSlug c)) (live_markets s)) else []) (sg_catalysts s)))"

definition bucket_linked :: "bucket_env \<Rightarrow> sg_tables \<Rightarrow> string list" where
  "bucket_linked be s =
     (let fired = set (alerted be (mt_rows (sg_markets s)))
      in remdups (map lk_Src (filter (\<lambda>l. lk_Dst l \<in> fired) (sg_links s)) @ map lk_Dst (filter (\<lambda>l. lk_Src l \<in> fired) (sg_links s))))"

text \<open>\<open>ORDER BY max_liq DESC NULLS LAST\<close> over the markets with an active page row of the last day.\<close>

definition max_liquidity :: "bucket_env \<Rightarrow> string \<Rightarrow> float64 option" where
  "max_liquidity be cond =
     (case concat (map (\<lambda>(c, liq, t, act). if c = cond \<and> be_now be - 24 * Hour < t \<and> act
               then (case liq of None \<Rightarrow> [] | Some x \<Rightarrow> [x]) else []) (be_pages be)) of
        [] \<Rightarrow> None
      | xs \<Rightarrow> Some (pg_max xs))"

definition bucket_liquid :: "bucket_env \<Rightarrow> sg_tables \<Rightarrow> string list" where
  "bucket_liquid be s =
     (let conds = remdups (concat (map (\<lambda>(c, liq, t, act). if be_now be - 24 * Hour < t \<and> act
                   then map mr_ConditionID (filter (\<lambda>m. mr_ConditionID m = c) (live_markets s)) else []) (be_pages be)))
      in desc_on (\<lambda>c. the (max_liquidity be c)) (filter (\<lambda>c. max_liquidity be c \<noteq> None) conds) @
         filter (\<lambda>c. max_liquidity be c = None) conds)"

definition bucket_fallback :: "sg_tables \<Rightarrow> string list" where
  "bucket_fallback s =
     map mr_ConditionID (sort_key (\<lambda>m. - mr_LastSeenAt m) (filter (\<lambda>m. mr_Active m \<and> \<not> mr_Closed m) (live_markets s)))"

text \<open>Each bucket under its limit; a market keeps the lowest of its buckets; then the tokens of the markets.\<close>

definition q_ListBucketedMarketTokens :: "bucket_env \<Rightarrow> string list \<Rightarrow> Budget \<Rightarrow> sg_tables \<Rightarrow> (string \<times> string \<times> int) list" where
  "q_ListBucketedMarketTokens be pins b s =
     (let tag = (\<lambda>k limit cs. map (\<lambda>c. (c, k :: int)) (take (nat limit) cs));
          unioned = tag 1 (bu_OperatorPinned b) (bucket_pinned pins s) @ tag 2 (bu_RecentAlert b) (bucket_recent be s) @
            tag 3 (bu_CatalystNear b) (bucket_catalyst be s) @ tag 4 (bu_LinkedToFired b) (bucket_linked be s) @
            tag 5 (bu_Liquid b) (bucket_liquid be s) @ tag 6 (bu_FallbackActive b) (bucket_fallback s);
          dedup = map (\<lambda>c. (c, Min (snd ` {x \<in> set unioned. fst x = c}))) (remdups (map fst unioned))
      in concat (map (\<lambda>(c, k). concat (map (\<lambda>m. map (\<lambda>tok. (c, tok, k)) (filter (\<lambda>tok. tok \<noteq> '''') (sg_tokens s (mr_ID m))))
             (filter (\<lambda>m. mr_ConditionID m = c) (mt_rows (sg_markets s)))))
           (sort_key snd (sort_key fst dedup))))"

record BudgetResult =
  bt_Rows :: "(string \<times> string \<times> int) list"
  bt_PerBucket :: "int \<rightharpoonup> int"
  bt_TotalUnique :: int

definition no_selection :: BudgetResult where
  "no_selection = \<lparr>bt_Rows = [], bt_PerBucket = Map.empty, bt_TotalUnique = 0\<rparr>"

text \<open>The loop over the rows with the set of the markets seen.\<close>

fun bucket_counts :: "(string \<times> string \<times> int) list \<Rightarrow> string set \<Rightarrow> BudgetResult \<Rightarrow> BudgetResult" where
  "bucket_counts [] seen r = r"
| "bucket_counts ((c, tok, k) # rows) seen r =
     (let r = r\<lparr>bt_Rows := bt_Rows r @ [(c, tok, k)]\<rparr>
      in if c \<in> seen then bucket_counts rows seen r
         else bucket_counts rows (insert c seen)
           (r\<lparr>bt_PerBucket := (bt_PerBucket r)(k \<mapsto> (case bt_PerBucket r k of None \<Rightarrow> 0 | Some n \<Rightarrow> n) + 1),
              bt_TotalUnique := bt_TotalUnique r + 1\<rparr>))"

definition Select :: "bucket_env \<Rightarrow> string option \<Rightarrow> Budget \<Rightarrow> sg_tables \<Rightarrow> string + BudgetResult" where
  "Select be fault b s =
     (if AllZero b then Inr no_selection
      else case fault of Some e \<Rightarrow> Inl (''workerbudget.Select: '' @ e)
           | None \<Rightarrow> Inr (bucket_counts (q_ListBucketedMarketTokens be (normalisePins (bu_PinnedConditionIDs b)) b s) {} no_selection))"

definition bucket_name :: "int \<Rightarrow> string" where
  "bucket_name k =
     (if k = 1 then ''operator_pinned'' else if k = 2 then ''recent_alert'' else if k = 3 then ''catalyst_near''
      else if k = 4 then ''linked_to_fired'' else if k = 5 then ''liquid'' else if k = 6 then ''fallback_active'' else ''unknown'')"

record feed_env =
  fe_wk :: wk_env
  fe_bucket :: bucket_env
  fe_bucketFault :: "string option"
  fe_float :: float_parser
  fe_books :: "nat \<Rightarrow> string list \<Rightarrow> string + wireBook list"
  fe_clock :: "string \<Rightarrow> string \<Rightarrow> time"

text \<open>The two listers: the selection when there is a budget and it works, else the plain query.\<close>

definition feed_candidates :: "feed_env \<Rightarrow> Budget \<Rightarrow> int \<Rightarrow> sg_tables \<Rightarrow> string + (string \<times> string) list" where
  "feed_candidates fe b limit s =
     (let legacy = (case wk_listFault (fe_wk fe) of Some e \<Rightarrow> Inl e | None \<Rightarrow> Inr (q_ListBookbarsCandidates limit s))
      in if AllZero b then legacy
         else case Select (fe_bucket fe) (fe_bucketFault fe) b s of
                Inl e \<Rightarrow> legacy
              | Inr res \<Rightarrow> Inr (map (\<lambda>(c, tok, k). (c, tok)) (bt_Rows res)))"

subsection \<open>Book bars\<close>

record Bar =
  ba_ConditionID :: string
  ba_OutcomeToken :: string
  ba_BarSeconds :: int
  ba_BarStart :: time
  ba_BestBid :: float64
  ba_BestAsk :: float64
  ba_MidPrice :: float64
  ba_Spread :: float64
  ba_BidDepthTopN :: float64
  ba_AskDepthTopN :: float64
  ba_DepthImbal :: float64

record bb_Config =
  bbc_Enabled :: bool
  bbc_Interval :: duration
  bbc_BarSeconds :: int
  bbc_TopN :: int
  bbc_MaxMarkets :: int
  bbc_BatchSize :: int
  bbc_FetchTimeout :: duration

definition bb_New :: "bb_Config \<Rightarrow> bb_Config" where
  "bb_New c = c\<lparr>bbc_BarSeconds := if bbc_BarSeconds c \<le> 0 then 5 else bbc_BarSeconds c,
     bbc_TopN := if bbc_TopN c \<le> 0 then 5 else bbc_TopN c, bbc_BatchSize := if bbc_BatchSize c \<le> 0 then 25 else bbc_BatchSize c,
     bbc_FetchTimeout := if bbc_FetchTimeout c \<le> 0 then 5 * Second else bbc_FetchTimeout c\<rparr>"

definition buildBar :: "Book \<Rightarrow> string \<Rightarrow> int \<Rightarrow> int \<Rightarrow> time \<Rightarrow> Bar" where
  "buildBar b cond secs topN barStart =
     (let (bestBid, bidDepth) = (case bk_Bids b of [] \<Rightarrow> (0, 0) | l # _ \<Rightarrow> (bl_Price l, TopNDepth (bk_Bids b) topN));
          (bestAsk, askDepth) = (case bk_Asks b of [] \<Rightarrow> (0, 0) | l # _ \<Rightarrow> (bl_Price l, TopNDepth (bk_Asks b) topN));
          (mid, spread) = (if 0 < bestBid \<and> 0 < bestAsk then ((bestBid + bestAsk) / fl 2, bestAsk - bestBid) else (0, 0));
          denom = bidDepth + askDepth
      in \<lparr>ba_ConditionID = cond, ba_OutcomeToken = bk_AssetID b, ba_BarSeconds = secs, ba_BarStart = barStart, ba_BestBid = bestBid,
          ba_BestAsk = bestAsk, ba_MidPrice = mid, ba_Spread = spread, ba_BidDepthTopN = bidDepth, ba_AskDepthTopN = askDepth,
          ba_DepthImbal = (if 0 < denom then (bidDepth - askDepth) / denom else 0)\<rparr>)"

text \<open>The row the sink writes.\<close>

definition bar_row :: "Bar \<Rightarrow> BarRow" where
  "bar_row b =
     \<lparr>br_ConditionID = ba_ConditionID b, br_OutcomeToken = ba_OutcomeToken b, br_BarSeconds = ba_BarSeconds b,
      br_BarStart = ba_BarStart b, br_BestBid = Some (ba_BestBid b), br_BestAsk = Some (ba_BestAsk b),
      br_MidPrice = Some (ba_MidPrice b), br_BidDepthTopN = Some (ba_BidDepthTopN b), br_AskDepthTopN = Some (ba_AskDepthTopN b),
      br_Spread = Some (ba_Spread b), br_SpreadZ = None, br_BidDepthDeltaPct = None, br_AskDepthDeltaPct = None,
      br_MidDelta = Some (ba_DepthImbal b)\<rparr>"

text \<open>\<open>t.Truncate(d)\<close> counts from the zero time; the zero time itself is NULL to the database and refused.\<close>

definition Truncate :: "time \<Rightarrow> duration \<Rightarrow> time" where
  "Truncate t d = t - (t - zero_time) mod d"

definition UpsertBar :: "wk_env \<Rightarrow> nat \<Rightarrow> Bar \<Rightarrow> sg_tables \<Rightarrow> sg_tables \<times> string option" where
  "UpsertBar ev k b s =
     (if IsZero (ba_BarStart b) then (s, Some (case wk_writeFault ev k of None \<Rightarrow> ''not-null constraint'' | Some e \<Rightarrow> e))
      else case q_UpsertBookFeatureBar (wk_writeFault ev k) (bar_row b) (sg_bars s) of (rows, err) \<Rightarrow> (s\<lparr>sg_bars := rows\<rparr>, err))"

text \<open>Batches of \<open>n + 1\<close>.\<close>

fun batches :: "nat \<Rightarrow> 'a list \<Rightarrow> 'a list list" where
  "batches n [] = []"
| "batches n (x # xs) = (x # take n xs) # batches n (drop n xs)"

text \<open>One batch's books: the statements run, the tables, the persisted and errored items.\<close>

fun bars_loop :: "wk_env \<Rightarrow> bb_Config \<Rightarrow> (string \<rightharpoonup> string) \<Rightarrow> time \<Rightarrow> Book list \<Rightarrow> nat \<Rightarrow> sg_tables \<Rightarrow> int \<Rightarrow> int
    \<Rightarrow> nat \<times> sg_tables \<times> int \<times> int" where
  "bars_loop ev c conds barStart [] k s persisted errored = (k, s, persisted, errored)"
| "bars_loop ev c conds barStart (b # bs) k s persisted errored =
     (let bar = buildBar b (derefStr (conds (bk_AssetID b))) (bbc_BarSeconds c) (bbc_TopN c) barStart
      in if ba_OutcomeToken bar = '''' then bars_loop ev c conds barStart bs k s persisted errored
         else case UpsertBar ev k bar s of
                (s, Some e) \<Rightarrow> bars_loop ev c conds barStart bs (k + 1) s persisted (errored + 1)
              | (s, None) \<Rightarrow> bars_loop ev c conds barStart bs (k + 1) s (persisted + 1) errored)"

fun batch_loop :: "feed_env \<Rightarrow> bb_Config \<Rightarrow> (string \<rightharpoonup> string) \<Rightarrow> time \<Rightarrow> string list list \<Rightarrow> nat \<Rightarrow> nat \<Rightarrow> sg_tables \<Rightarrow> int \<Rightarrow> int
    \<Rightarrow> sg_tables \<times> int \<times> int" where
  "batch_loop fe c conds barStart [] j k s persisted errored = (s, persisted, errored)"
| "batch_loop fe c conds barStart (batch # bss) j k s persisted errored =
     (case GetBooks (fe_float fe) (fe_books fe j) batch of
        Inl e \<Rightarrow> batch_loop fe c conds barStart bss (j + 1) k s persisted (errored + int (length batch))
      | Inr books \<Rightarrow>
          (case bars_loop (fe_wk fe) c conds barStart books k s persisted errored of
             (k, s, persisted, errored) \<Rightarrow> batch_loop fe c conds barStart bss (j + 1) k s persisted errored))"

definition bars_Tick :: "bb_Config \<Rightarrow> Budget \<Rightarrow> feed_env \<Rightarrow> sg_tables \<Rightarrow> wk_result" where
  "bars_Tick c b fe s =
     (case feed_candidates fe b (bbc_MaxMarkets c) s of
        Inl e \<Rightarrow> (s, ''failed'', [])
      | Inr [] \<Rightarrow> (s, ''empty'', [])
      | Inr cands \<Rightarrow>
          (let barStart = Truncate (wk_now (fe_wk fe)) (bbc_BarSeconds c * Second);
               cands = filter (\<lambda>(cond, tok). tok \<noteq> '''') cands;
               conds = foldl (\<lambda>m (cond, tok). m(tok \<mapsto> cond)) Map.empty cands
           in case batch_loop fe c conds barStart (batches (nat (bbc_BatchSize c - 1)) (map snd cands)) 0 0 s 0 0 of
                (s, persisted, errored) \<Rightarrow> (s, ''ok'', count_if ''persisted'' persisted @ count_if ''errored'' errored)))"

subsection \<open>Holder snapshots\<close>

record api_Holder =
  ah_Wallet :: string
  ah_Amount :: float64
  ah_OutcomeIndex :: int
  ah_Pseudonym :: string

record HoldersByToken =
  ht_Token :: string
  ht_OpenInterest :: float64
  ht_Holders :: "api_Holder list"

text \<open>\<open>ListHolders\<close>: the open interest is the sum over the holders the service lists.\<close>

definition holders_group :: "string \<times> api_Holder list \<Rightarrow> HoldersByToken" where
  "holders_group = (\<lambda>(token, raw).
     let hs = filter (\<lambda>h. ah_Wallet h \<noteq> '''' \<and> \<not> ah_Amount h \<le> 0) raw
     in \<lparr>ht_Token = token, ht_OpenInterest = foldl (\<lambda>oi h. oi + ah_Amount h) 0 hs,
         ht_Holders = go_isort (\<lambda>y x. ah_Amount y < ah_Amount x) hs\<rparr>)"

text \<open>The limit that is sent, if any.\<close>

definition holders_limit :: "int \<Rightarrow> int option" where
  "holders_limit n = (if 0 < n then Some (if 200 < n then 200 else n) else None)"

definition ListHolders :: "(string \<Rightarrow> int option \<Rightarrow> string + (string \<times> api_Holder list) list) \<Rightarrow> string \<Rightarrow> int
    \<Rightarrow> string + HoldersByToken list" where
  "ListHolders get market limit =
     (if market = '''' then Inl ''dataapi.ListHolders: market is required''
      else map_sum id (map holders_group) (get market (holders_limit limit)))"

record HolderRow =
  hr_Wallet :: string
  hr_Rank :: int
  hr_Shares :: float64
  hr_NotionalUSD :: float64
  hr_PctOI :: float64
  hr_TotalOI :: float64

record hs_Config =
  hsc_Enabled :: bool
  hsc_Interval :: duration
  hsc_MaxMarkets :: int
  hsc_TopK :: int
  hsc_FetchTimeout :: duration
  hsc_Concurrency :: int
  hsc_StaleAfter :: duration

text \<open>
  The rows of a token's group, ranked by amount. \<open>sort.SliceStable\<close> of the holders, which are sorted
  already, is the insertion sort again.
\<close>

definition holder_rows :: "HoldersByToken \<Rightarrow> HolderRow list" where
  "holder_rows g =
     map (\<lambda>(i, h). \<lparr>hr_Wallet = ah_Wallet h, hr_Rank = int i + 1, hr_Shares = ah_Amount h, hr_NotionalUSD = 0,
         hr_PctOI = (if 0 < ht_OpenInterest g then ah_Amount h / ht_OpenInterest g else 0),
         hr_TotalOI = (if 0 < ht_OpenInterest g then ht_OpenInterest g else 0)\<rparr>)
       (enumerate 0 (go_isort (\<lambda>y x. ah_Amount y < ah_Amount x) (ht_Holders g)))"

definition FetchHolders :: "(string \<Rightarrow> int option \<Rightarrow> string + (string \<times> api_Holder list) list) \<Rightarrow> bool \<Rightarrow> string \<Rightarrow> string \<Rightarrow> int
    \<Rightarrow> string + HolderRow list" where
  "FetchHolders get requireOI cond token topK =
     (case ListHolders get cond topK of Inl e \<Rightarrow> Inl e
      | Inr groups \<Rightarrow>
          (case find (\<lambda>g. ht_Token g = token) groups of None \<Rightarrow> Inr []
           | Some g \<Rightarrow> if requireOI \<and> ht_OpenInterest g \<le> 0 then Inr [] else Inr (holder_rows g)))"

text \<open>The sink: one statement per row, the first error ends it. The statements of a candidate have their own faults.\<close>

fun snapshot_rows :: "(nat \<Rightarrow> string option) \<Rightarrow> string \<Rightarrow> string \<Rightarrow> time \<Rightarrow> HolderRow list \<Rightarrow> nat \<Rightarrow> HolderSnapRow list
    \<Rightarrow> HolderSnapRow list \<times> string option" where
  "snapshot_rows fault cond token t [] k rows = (rows, None)"
| "snapshot_rows fault cond token t (h # hs) k rows =
     (case q_UpsertHolderSnapshot (if fault k = None \<and> IsZero t then Some ''not-null constraint'' else fault k)
             \<lparr>ho_ConditionID = cond, ho_OutcomeToken = token, ho_SnapshotAt = t, ho_Wallet = hr_Wallet h, ho_Rank = hr_Rank h,
              ho_Shares = hr_Shares h, ho_NotionalUSD = hr_NotionalUSD h, ho_PctOI = hr_PctOI h, ho_TotalOI = hr_TotalOI h\<rparr> rows of
        (rows, Some e) \<Rightarrow> (rows, Some e)
      | (rows, None) \<Rightarrow> snapshot_rows fault cond token t hs (k + 1) rows)"

record holder_env =
  hv_feed :: feed_env
  hv_get :: "string \<Rightarrow> string \<Rightarrow> int option \<Rightarrow> string + (string \<times> api_Holder list) list"
  hv_fault :: "string \<times> string \<Rightarrow> nat \<Rightarrow> string option"
  hv_order :: "(string \<times> string) list \<Rightarrow> (string \<times> string) list"
  hv_requireOI :: bool

definition holder_one :: "hs_Config \<Rightarrow> holder_env \<Rightarrow> string \<times> string \<Rightarrow> sg_tables \<Rightarrow> sg_tables \<times> bool" where
  "holder_one c he x s =
     (case x of (cond, token) \<Rightarrow>
       (case FetchHolders (hv_get he token) (hv_requireOI he) cond token (hsc_TopK c) of
          Inl e \<Rightarrow> (s, False)
        | Inr rows \<Rightarrow>
            (case snapshot_rows (hv_fault he x) cond token (fe_clock (hv_feed he) cond token) rows 0 (sg_holders s) of
               (rows, err) \<Rightarrow> (s\<lparr>sg_holders := rows\<rparr>, err = None))))"

text \<open>The candidates run concurrently on rows of their own; they are taken in the order they finish in.\<close>

definition holders_Tick :: "hs_Config \<Rightarrow> Budget \<Rightarrow> holder_env \<Rightarrow> sg_tables \<Rightarrow> wk_result" where
  "holders_Tick c b he s =
     (case feed_candidates (hv_feed he) b (hsc_MaxMarkets c) s of
        Inl e \<Rightarrow> (s, ''failed'', [])
      | Inr [] \<Rightarrow> (s, ''empty'', [])
      | Inr cands \<Rightarrow>
          (case foldl (\<lambda>(s, persisted, errored) x.
                  case holder_one c he x s of (s, ok) \<Rightarrow> if ok then (s, persisted + 1, errored) else (s, persisted, errored + 1))
                (s, 0, 0) (hv_order he cands) of
             (s, persisted, errored) \<Rightarrow> (s, ''ok'', count_if ''persisted'' persisted @ count_if ''errored'' errored)))"

end
