(* ===== verification/StagedInputs.thy ===== *)
theory StagedInputs
  imports StagedTables StrategyShadow
begin

text \<open>
  The readers of the staged inputs with their cache (\<open>usecase/stagedinputs/stagedinputs.go\<close>). A cached
  value is of type \<open>any\<close> in Go; here it is a datatype, and a failed type assertion, which panics, is
  \<open>None\<close>. A call is given the two readings of the clock, the fault of its query (the timeout among
  them) and the tables at that time. A nil bundle is the hook without staged inputs (StrategyShadow).
\<close>

subsection \<open>The bundle\<close>

record si_Config =
  ic_Enabled :: bool
  ic_CacheEnabled :: bool
  ic_CacheTTL :: duration
  ic_MaxRows :: int
  ic_QueryTimeout :: duration

datatype cached =
    CLinks "si_MarketLink list"
  | CCatalysts "si_Catalyst list"
  | CRisk si_RiskScore
  | CEdges "si_WalletEdge list"
  | CWindows "si_RepricingWindow list"
  | CLines "si_WalletThesisLine list"
  | CDecisions "si_RecentDecision list"
  | CPair si_HolderSnapshotPair
  | CBars "si_BookFeatureBar list"
  | CNil

record cacheEntry =
  ce_value :: cached
  ce_expiresAt :: time

record Readers =
  rs_cfg :: si_Config
  rs_cache :: "(string \<rightharpoonup> cacheEntry) option"

definition si_New :: "si_Config \<Rightarrow> Readers" where
  "si_New c =
     (let c = c\<lparr>ic_MaxRows := if ic_MaxRows c \<le> 0 then 200 else ic_MaxRows c,
                ic_QueryTimeout := if ic_QueryTimeout c \<le> 0 then 250000000 else ic_QueryTimeout c,
                ic_CacheTTL := if ic_CacheTTL c \<le> 0 then 60 * Second else ic_CacheTTL c\<rparr>
      in \<lparr>rs_cfg = c, rs_cache = (if ic_CacheEnabled c then Some Map.empty else None)\<rparr>)"

record si_env =
  ie_get :: time
  ie_put :: time
  ie_fault :: "string option"
  ie_tables :: sg_tables

definition cacheGet :: "si_env \<Rightarrow> string \<Rightarrow> Readers \<Rightarrow> cached option" where
  "cacheGet ev key r =
     (case rs_cache r of None \<Rightarrow> None
      | Some m \<Rightarrow> (case m key of None \<Rightarrow> None
          | Some e \<Rightarrow> if ce_expiresAt e < ie_get ev then None else Some (ce_value e)))"

definition cachePut :: "si_env \<Rightarrow> string \<Rightarrow> cached \<Rightarrow> Readers \<Rightarrow> Readers" where
  "cachePut ev key v r =
     (case rs_cache r of None \<Rightarrow> r
      | Some m \<Rightarrow> r\<lparr>rs_cache := Some (m(key \<mapsto> \<lparr>ce_value = v, ce_expiresAt = ie_put ev + ic_CacheTTL (rs_cfg r)\<rparr>))\<rparr>)"

text \<open>
  The body of every reader: the cache, the type assertion, the query, the cache again. \<open>query\<close> is what
  the database answers, \<open>unwrap\<close> the type assertion.
\<close>

definition cached_read :: "string \<Rightarrow> (cached \<Rightarrow> 'a option) \<Rightarrow> ('a \<Rightarrow> cached) \<Rightarrow> (si_Config \<Rightarrow> string option \<Rightarrow> sg_tables \<Rightarrow> string + 'a)
    \<Rightarrow> si_env \<Rightarrow> Readers \<Rightarrow> (Readers \<times> (string + 'a)) option" where
  "cached_read key unwrap wrap query ev r =
     (case cacheGet ev key r of
        Some v \<Rightarrow> (case unwrap v of None \<Rightarrow> None | Some x \<Rightarrow> Some (r, Inr x))
      | None \<Rightarrow>
          (case query (rs_cfg r) (ie_fault ev) (ie_tables ev) of
             Inl e \<Rightarrow> Some (r, Inl e)
           | Inr x \<Rightarrow> Some (cachePut ev key (wrap x) r, Inr x)))"

definition unless_fault :: "(si_Config \<Rightarrow> sg_tables \<Rightarrow> 'a) \<Rightarrow> si_Config \<Rightarrow> string option \<Rightarrow> sg_tables \<Rightarrow> string + 'a" where
  "unless_fault q c fault s = (case fault of Some e \<Rightarrow> Inl e | None \<Rightarrow> Inr (q c s))"

subsection \<open>The readers\<close>

definition link_of :: "LinkRow \<Rightarrow> si_MarketLink" where
  "link_of x = \<lparr>ln_SrcConditionID = lk_Src x, ln_DstConditionID = lk_Dst x, ln_LinkType = lk_LinkType x,
     ln_Direction = lk_Direction x, ln_Confidence = lk_Confidence x\<rparr>"

definition as_links :: "cached \<Rightarrow> si_MarketLink list option" where
  "as_links v = (case v of CLinks x \<Rightarrow> Some x | _ \<Rightarrow> None)"

definition MarketLinksByEvent :: "si_env \<Rightarrow> string \<Rightarrow> int \<Rightarrow> Readers \<Rightarrow> (Readers \<times> (string + si_MarketLink list)) option" where
  "MarketLinksByEvent ev slug ver r =
     (if slug = '''' then Some (r, Inr [])
      else cached_read (''ml:'' @ slug) as_links CLinks
        (unless_fault (\<lambda>c s. map link_of (q_ListMarketLinksForEvent slug ver (ic_MaxRows c) (sg_links s)))) ev r)"

definition catalyst_of :: "CatalystRow \<Rightarrow> si_Catalyst" where
  "catalyst_of x = \<lparr>sk_EventSlug = cy_EventSlug x, sk_CatalystKind = cy_CatalystType x, sk_Title = cy_Title x,
     sk_ExpectedAt = tsTime (cy_ExpectedAt x), sk_Confidence = cy_Confidence x, sk_Status = cy_Status x\<rparr>"

definition as_catalysts :: "cached \<Rightarrow> si_Catalyst list option" where
  "as_catalysts v = (case v of CCatalysts x \<Rightarrow> Some x | _ \<Rightarrow> None)"

definition CatalystsByEvent :: "si_env \<Rightarrow> string \<Rightarrow> Readers \<Rightarrow> (Readers \<times> (string + si_Catalyst list)) option" where
  "CatalystsByEvent ev slug r =
     (if slug = '''' then Some (r, Inr [])
      else cached_read (''c:'' @ slug) as_catalysts CCatalysts
        (unless_fault (\<lambda>c s. map catalyst_of (q_ListCatalystsForEvent slug (ic_MaxRows c) (sg_catalysts s)))) ev r)"

text \<open>A missing row is reported as an error by the driver and told by its text; it is cached as nil.\<close>

definition isNoRows :: "string \<Rightarrow> bool" where
  "isNoRows e = Contains e ''no rows in result set''"

definition risk_of :: "RiskRow \<Rightarrow> si_RiskScore" where
  "risk_of x = \<lparr>sr_ConditionID = rq_ConditionID x, sr_AmbiguityScore = rq_AmbiguityScore x, sr_DisputeRisk = rq_DisputeRisk x\<rparr>"

definition as_risk :: "cached \<Rightarrow> si_RiskScore option option" where
  "as_risk v = (case v of CNil \<Rightarrow> Some None | CRisk x \<Rightarrow> Some (Some x) | _ \<Rightarrow> None)"

definition of_risk :: "si_RiskScore option \<Rightarrow> cached" where
  "of_risk x = (case x of None \<Rightarrow> CNil | Some x \<Rightarrow> CRisk x)"

definition risk_query :: "string \<Rightarrow> si_Config \<Rightarrow> string option \<Rightarrow> sg_tables \<Rightarrow> string + si_RiskScore option" where
  "risk_query cond c fault s =
     (case fault of Some e \<Rightarrow> if isNoRows e then Inr None else Inl e
      | None \<Rightarrow> Inr (map_option risk_of (q_GetActiveRiskScoreForCondition cond (sg_risks s))))"

definition RiskScoreForCondition :: "si_env \<Rightarrow> string \<Rightarrow> Readers \<Rightarrow> (Readers \<times> (string + si_RiskScore option)) option" where
  "RiskScoreForCondition ev cond r =
     (if cond = '''' then Some (r, Inr None)
      else cached_read (''rs:'' @ cond) as_risk of_risk (risk_query cond) ev r)"

definition edge_of :: "string \<Rightarrow> EdgeRow \<Rightarrow> si_WalletEdge" where
  "edge_of w x = \<lparr>we_Other = (if eg_WalletA x = w then eg_WalletB x else eg_WalletA x), we_Kind = eg_Kind x,
     we_SimilarityScore = eg_SimilarityScore x, we_CoEvents = eg_CoEventsCount x, we_LastSeenAt = eg_LastSeenAt x\<rparr>"

definition as_edges :: "cached \<Rightarrow> si_WalletEdge list option" where
  "as_edges v = (case v of CEdges x \<Rightarrow> Some x | _ \<Rightarrow> None)"

definition WalletEdgesForWallet :: "si_env \<Rightarrow> string \<Rightarrow> int \<Rightarrow> Readers \<Rightarrow> (Readers \<times> (string + si_WalletEdge list)) option" where
  "WalletEdgesForWallet ev w ver r =
     (if w = '''' then Some (r, Inr [])
      else cached_read (''we:'' @ w) as_edges CEdges
        (unless_fault (\<lambda>c s. map (edge_of w) (q_ListWalletEdgesForWallet w ver (ic_MaxRows c) (sg_edges s)))) ev r)"

definition num_or_zero :: "float64 option \<Rightarrow> float64" where
  "num_or_zero x = (case x of None \<Rightarrow> 0 | Some x \<Rightarrow> x)"

definition window_of :: "WindowRow \<Rightarrow> si_RepricingWindow" where
  "window_of x = \<lparr>rw_ID = wn_ID x, rw_ConditionID = wn_ConditionID x, rw_EventSlug = wn_EventSlug x,
     rw_TriggerKind = wn_TriggerKind x, rw_TriggerRef = wn_TriggerRef x, rw_OpenedAt = wn_OpenedAt x, rw_Status = wn_Status x,
     rw_ObservedMove = num_or_zero (wn_ObservedMove x), rw_PeerMove = num_or_zero (wn_PeerMove x),
     rw_LagScore = num_or_zero (wn_LagScore x)\<rparr>"

definition as_windows :: "cached \<Rightarrow> si_RepricingWindow list option" where
  "as_windows v = (case v of CWindows x \<Rightarrow> Some x | _ \<Rightarrow> None)"

definition ClosedRepricingWindowsForCondition :: "si_env \<Rightarrow> string \<Rightarrow> time \<Rightarrow> Readers
    \<Rightarrow> (Readers \<times> (string + si_RepricingWindow list)) option" where
  "ClosedRepricingWindowsForCondition ev cond since r =
     (if cond = '''' then Some (r, Inr [])
      else cached_read (''rw:'' @ cond) as_windows CWindows
        (unless_fault (\<lambda>c s. map window_of
           (q_ListClosedRepricingWindowsForCondition cond (tsFromTime since) (ic_MaxRows c) (sg_windows s)))) ev r)"

definition line_of :: "LineRow \<Rightarrow> si_WalletThesisLine" where
  "line_of x = \<lparr>wl_Wallet = li_Wallet x, wl_ConditionID = li_ConditionID x, wl_EventSlug = li_EventSlug x, wl_Side = li_Side x,
     wl_NotionalUSD = li_NotionalUSD x, wl_Trades = li_Trades x, wl_LastTradedAt = li_LastTradedAt x\<rparr>"

definition as_lines :: "cached \<Rightarrow> si_WalletThesisLine list option" where
  "as_lines v = (case v of CLines x \<Rightarrow> Some x | _ \<Rightarrow> None)"

definition WalletThesisLinesForEvent :: "si_env \<Rightarrow> string \<Rightarrow> string \<Rightarrow> int \<Rightarrow> Readers
    \<Rightarrow> (Readers \<times> (string + si_WalletThesisLine list)) option" where
  "WalletThesisLinesForEvent ev slug w hours r =
     (if slug = '''' \<or> w = '''' then Some (r, Inr [])
      else cached_read (''wtl:'' @ slug @ ''|'' @ w) as_lines CLines
        (unless_fault (\<lambda>c s. map line_of (q_ListWalletThesisLinesForEvent slug w hours (ic_MaxRows c) (sg_lines s)))) ev r)"

definition decision_of :: "ShadowRow \<Rightarrow> si_RecentDecision" where
  "decision_of x = \<lparr>rd_ID = ShadowRow.sr_ID x, rd_StrategyName = ShadowRow.sr_StrategyName x, rd_Side = ShadowRow.sr_Side x,
     rd_DecisionKind = ShadowRow.sr_DecisionKind x, rd_Level = ShadowRow.sr_DecisionLevel x, rd_Score = ShadowRow.sr_Score x,
     rd_Confidence = ShadowRow.sr_Confidence x, rd_FiredAt = ShadowRow.sr_FiredAt x\<rparr>"

definition as_decisions :: "cached \<Rightarrow> si_RecentDecision list option" where
  "as_decisions v = (case v of CDecisions x \<Rightarrow> Some x | _ \<Rightarrow> None)"

definition RecentDecisionsForCondition :: "si_env \<Rightarrow> string \<Rightarrow> time \<Rightarrow> Readers
    \<Rightarrow> (Readers \<times> (string + si_RecentDecision list)) option" where
  "RecentDecisionsForCondition ev cond since r =
     (if cond = '''' then Some (r, Inr [])
      else cached_read (''rd:'' @ cond) as_decisions CDecisions
        (unless_fault (\<lambda>c s. map decision_of
           (q_ListRecentShadowDecisionsForCondition cond (tsFromTime since) (ic_MaxRows c) (sg_shadow s)))) ev r)"

definition snapshot_of :: "HolderSnapRow \<Rightarrow> si_HolderSnapshot" where
  "snapshot_of x = \<lparr>hs_SnapshotAt = ho_SnapshotAt x, hs_Wallet = ho_Wallet x, hs_Rank = ho_Rank x, hs_Shares = ho_Shares x,
     hs_NotionalUSD = ho_NotionalUSD x, hs_PctOI = ho_PctOI x, hs_TotalOI = ho_TotalOI x\<rparr>"

definition no_snapshot :: si_HolderSnapshot where
  "no_snapshot = \<lparr>hs_SnapshotAt = zero_time, hs_Wallet = '''', hs_Rank = 0, hs_Shares = 0, hs_NotionalUSD = 0, hs_PctOI = 0,
     hs_TotalOI = 0\<rparr>"

definition pair_of :: "HolderSnapRow list \<Rightarrow> si_HolderSnapshotPair option" where
  "pair_of rows =
     (case rows of
        [] \<Rightarrow> None
      | [x] \<Rightarrow> Some \<lparr>hp_Current = snapshot_of x, hp_Previous = no_snapshot, hp_PreviousValid = False\<rparr>
      | x # y # _ \<Rightarrow> Some \<lparr>hp_Current = snapshot_of x, hp_Previous = snapshot_of y, hp_PreviousValid = True\<rparr>)"

definition as_pair :: "cached \<Rightarrow> si_HolderSnapshotPair option option" where
  "as_pair v = (case v of CNil \<Rightarrow> Some None | CPair x \<Rightarrow> Some (Some x) | _ \<Rightarrow> None)"

definition of_pair :: "si_HolderSnapshotPair option \<Rightarrow> cached" where
  "of_pair x = (case x of None \<Rightarrow> CNil | Some x \<Rightarrow> CPair x)"

definition HolderSnapshotPairForWallet :: "si_env \<Rightarrow> string \<Rightarrow> string \<Rightarrow> string \<Rightarrow> Readers
    \<Rightarrow> (Readers \<times> (string + si_HolderSnapshotPair option)) option" where
  "HolderSnapshotPairForWallet ev cond token w r =
     (if cond = '''' \<or> w = '''' then Some (r, Inr None)
      else cached_read (''hsp:'' @ cond @ ''|'' @ token @ ''|'' @ w) as_pair of_pair
        (unless_fault (\<lambda>c s. pair_of (q_GetCurrentAndPreviousHolderSnapshot cond token w (sg_holders s)))) ev r)"

definition bar_of :: "BarRow \<Rightarrow> si_BookFeatureBar" where
  "bar_of x = \<lparr>bb_BarStart = br_BarStart x, bb_BarSeconds = br_BarSeconds x, bb_BestBid = num_or_zero (br_BestBid x),
     bb_BestAsk = num_or_zero (br_BestAsk x), bb_MidPrice = num_or_zero (br_MidPrice x),
     bb_BidDepthTopN = num_or_zero (br_BidDepthTopN x), bb_AskDepthTopN = num_or_zero (br_AskDepthTopN x),
     bb_Spread = num_or_zero (br_Spread x), bb_SpreadZ = num_or_zero (br_SpreadZ x),
     bb_BidDepthDeltaPct = num_or_zero (br_BidDepthDeltaPct x), bb_AskDepthDeltaPct = num_or_zero (br_AskDepthDeltaPct x),
     bb_MidDelta = num_or_zero (br_MidDelta x), bb_BidDepthValid = (br_BidDepthTopN x \<noteq> None),
     bb_AskDepthValid = (br_AskDepthTopN x \<noteq> None)\<rparr>"

definition as_bars :: "cached \<Rightarrow> si_BookFeatureBar list option" where
  "as_bars v = (case v of CBars x \<Rightarrow> Some x | _ \<Rightarrow> None)"

definition RecentBookFeatureBars :: "si_env \<Rightarrow> string \<Rightarrow> string \<Rightarrow> time \<Rightarrow> int \<Rightarrow> Readers
    \<Rightarrow> (Readers \<times> (string + si_BookFeatureBar list)) option" where
  "RecentBookFeatureBars ev cond token since limit r =
     (if cond = '''' \<or> token = '''' then Some (r, Inr [])
      else cached_read (''bfb:'' @ cond @ ''|'' @ token) as_bars CBars
        (unless_fault (\<lambda>c s.
           let limit = (if limit \<le> 0 \<or> ic_MaxRows c < limit then ic_MaxRows c else limit)
           in map bar_of (q_ListRecentBookFeatureBars cond token (tsFromTime since) limit (sg_bars s)))) ev r)"

subsection \<open>Calls of any reader\<close>

datatype ask =
    AskLinks string int
  | AskCatalysts string
  | AskRisk string
  | AskEdges string int
  | AskWindows string time
  | AskLines string string int
  | AskDecisions string time
  | AskPair string string string
  | AskBars string string time int

text \<open>The answer of a call, as the value that would be cached.\<close>

definition as_answer :: "('a \<Rightarrow> cached) \<Rightarrow> (Readers \<times> (string + 'a)) option \<Rightarrow> (Readers \<times> (string + cached)) option" where
  "as_answer wrap x = map_option (\<lambda>(r, a). (r, map_sum id wrap a)) x"

primrec serve :: "si_env \<Rightarrow> ask \<Rightarrow> Readers \<Rightarrow> (Readers \<times> (string + cached)) option" where
  "serve ev (AskLinks slug ver) r = as_answer CLinks (MarketLinksByEvent ev slug ver r)"
| "serve ev (AskCatalysts slug) r = as_answer CCatalysts (CatalystsByEvent ev slug r)"
| "serve ev (AskRisk cond) r = as_answer of_risk (RiskScoreForCondition ev cond r)"
| "serve ev (AskEdges w ver) r = as_answer CEdges (WalletEdgesForWallet ev w ver r)"
| "serve ev (AskWindows cond since) r = as_answer CWindows (ClosedRepricingWindowsForCondition ev cond since r)"
| "serve ev (AskLines slug w hours) r = as_answer CLines (WalletThesisLinesForEvent ev slug w hours r)"
| "serve ev (AskDecisions cond since) r = as_answer CDecisions (RecentDecisionsForCondition ev cond since r)"
| "serve ev (AskPair cond token w) r = as_answer of_pair (HolderSnapshotPairForWallet ev cond token w r)"
| "serve ev (AskBars cond token since limit) r = as_answer CBars (RecentBookFeatureBars ev cond token since limit r)"

text \<open>The key a call is cached under, if it gets as far as the cache.\<close>

primrec ask_key :: "ask \<Rightarrow> string option" where
  "ask_key (AskLinks slug ver) = (if slug = '''' then None else Some (''ml:'' @ slug))"
| "ask_key (AskCatalysts slug) = (if slug = '''' then None else Some (''c:'' @ slug))"
| "ask_key (AskRisk cond) = (if cond = '''' then None else Some (''rs:'' @ cond))"
| "ask_key (AskEdges w ver) = (if w = '''' then None else Some (''we:'' @ w))"
| "ask_key (AskWindows cond since) = (if cond = '''' then None else Some (''rw:'' @ cond))"
| "ask_key (AskLines slug w hours) = (if slug = '''' \<or> w = '''' then None else Some (''wtl:'' @ slug @ ''|'' @ w))"
| "ask_key (AskDecisions cond since) = (if cond = '''' then None else Some (''rd:'' @ cond))"
| "ask_key (AskPair cond token w) = (if cond = '''' \<or> w = '''' then None else Some (''hsp:'' @ cond @ ''|'' @ token @ ''|'' @ w))"
| "ask_key (AskBars cond token since limit) =
     (if cond = '''' \<or> token = '''' then None else Some (''bfb:'' @ cond @ ''|'' @ token))"

text \<open>The reference: what the readers answer when the cache is off.\<close>

definition uncached :: "si_Config \<Rightarrow> Readers" where
  "uncached c = \<lparr>rs_cfg = c, rs_cache = None\<rparr>"

definition fresh :: "si_Config \<Rightarrow> si_env \<Rightarrow> ask \<Rightarrow> string + cached" where
  "fresh c ev q = snd (the (serve ev q (uncached c)))"

subsection \<open>The contract of a reader\<close>

text \<open>
  Where the answer of a call comes from: the unexpired entry of its key, or the database now, and then
  it is put into the cache.
\<close>

definition sourced :: "si_env \<Rightarrow> ask \<Rightarrow> Readers \<Rightarrow> Readers \<Rightarrow> string + cached \<Rightarrow> bool" where
  "sourced ev q r r' a \<longleftrightarrow>
     (case ask_key q of
        None \<Rightarrow> r' = r \<and> fresh (rs_cfg r) ev q = a
      | Some k \<Rightarrow>
          (case cacheGet ev k r of
             Some v \<Rightarrow> a = Inr v \<and> r' = r
           | None \<Rightarrow> fresh (rs_cfg r) ev q = a \<and> r' = (case a of Inl e \<Rightarrow> r | Inr v \<Rightarrow> cachePut ev k v r)))"

text \<open>The values a key may hold.\<close>

definition kind_ok :: "string \<Rightarrow> cached \<Rightarrow> bool" where
  "kind_ok key v \<longleftrightarrow>
     (case v of
        CLinks _ \<Rightarrow> HasPrefix key ''ml:''
      | CCatalysts _ \<Rightarrow> HasPrefix key ''c:''
      | CRisk _ \<Rightarrow> HasPrefix key ''rs:''
      | CEdges _ \<Rightarrow> HasPrefix key ''we:''
      | CWindows _ \<Rightarrow> HasPrefix key ''rw:''
      | CLines _ \<Rightarrow> HasPrefix key ''wtl:''
      | CDecisions _ \<Rightarrow> HasPrefix key ''rd:''
      | CPair _ \<Rightarrow> HasPrefix key ''hsp:''
      | CBars _ \<Rightarrow> HasPrefix key ''bfb:''
      | CNil \<Rightarrow> HasPrefix key ''rs:'' \<or> HasPrefix key ''hsp:'')"

definition typed_cache :: "Readers \<Rightarrow> bool" where
  "typed_cache r \<longleftrightarrow>
     (case rs_cache r of None \<Rightarrow> True | Some m \<Rightarrow> \<forall>key e. m key = Some e \<longrightarrow> kind_ok key (ce_value e))"

text \<open>
  A reader writes values of the kind of its prefix and its type assertion takes every value of that
  kind back. So it never panics and keeps the cache typed, and what it returns is either what the
  database answers now or the unexpired entry of its key.
\<close>

locale staged_reader =
  fixes pre :: string and unwrap :: "cached \<Rightarrow> 'a option" and wrap :: "'a \<Rightarrow> cached"
  assumes wrap_kind: "kind_ok (pre @ rest) (wrap x)"
    and kind_unwrap: "kind_ok (pre @ rest) v \<Longrightarrow> \<exists>x. unwrap v = Some x \<and> wrap x = v"
begin

lemma typed_get: "typed_cache r \<Longrightarrow> cacheGet ev key r = Some v \<Longrightarrow> kind_ok key v"
  by (auto simp: typed_cache_def cacheGet_def split: option.splits if_splits)

lemma typed_put: "typed_cache r \<Longrightarrow> typed_cache (cachePut ev (pre @ rest) (wrap x) r)"
  using wrap_kind by (auto simp: typed_cache_def cachePut_def split: option.splits)

lemma read_returns:
  assumes "typed_cache r"
  shows "\<exists>r' a. cached_read (pre @ rest) unwrap wrap query ev r = Some (r', a) \<and> typed_cache r'"
proof (cases "cacheGet ev (pre @ rest) r")
  case (Some v)
  then obtain x where "unwrap v = Some x" using kind_unwrap typed_get [OF assms] by meson
  then show ?thesis using Some assms by (simp add: cached_read_def)
next
  case None
  then show ?thesis using assms typed_put by (cases "query (rs_cfg r) (ie_fault ev) (ie_tables ev)") (auto simp: cached_read_def)
qed

lemma read_source:
  assumes "typed_cache r" "as_answer wrap (cached_read (pre @ rest) unwrap wrap query ev r) = Some (r', a)"
  shows "case cacheGet ev (pre @ rest) r of
      Some v \<Rightarrow> a = Inr v \<and> r' = r
    | None \<Rightarrow> as_answer wrap (cached_read (pre @ rest) unwrap wrap query ev (uncached (rs_cfg r))) = Some (uncached (rs_cfg r), a) \<and>
        r' = (case a of Inl e \<Rightarrow> r | Inr v \<Rightarrow> cachePut ev (pre @ rest) v r)"
proof (cases "cacheGet ev (pre @ rest) r")
  case (Some v)
  then obtain x where "unwrap v = Some x" "wrap x = v" using kind_unwrap typed_get [OF assms(1)] by meson
  then show ?thesis using Some assms(2) by (auto simp: cached_read_def as_answer_def)
next
  case None
  have "cacheGet ev (pre @ rest) (uncached c) = None" "cachePut ev key v (uncached c) = uncached c" for c key v
    by (simp_all add: cacheGet_def cachePut_def uncached_def)
  then show ?thesis using None assms(2)
    by (cases "query (rs_cfg r) (ie_fault ev) (ie_tables ev)") (auto simp: cached_read_def as_answer_def uncached_def)
qed

text \<open>A reader as a call, with the guard on its arguments.\<close>

lemma guarded_returns:
  assumes "typed_cache r"
  shows "\<exists>r' a. as_answer wrap (if g then Some (r, Inr x) else cached_read (pre @ rest) unwrap wrap query ev r) = Some (r', a) \<and>
    typed_cache r'"
  using assms read_returns [OF assms, of rest query ev] by (auto simp: as_answer_def)

lemma guarded_source:
  assumes "ask_key q = (if g then None else Some (pre @ rest))"
    and "\<And>r. serve ev q r = as_answer wrap (if g then Some (r, Inr x) else cached_read (pre @ rest) unwrap wrap query ev r)"
    and "typed_cache r" "serve ev q r = Some (r', a)"
  shows "sourced ev q r r' a"
proof (cases g)
  case True
  then show ?thesis using assms(1,2,4) by (auto simp: sourced_def fresh_def as_answer_def)
next
  case False
  then show ?thesis
    using read_source [OF assms(3), of rest query ev r' a] assms(1,4) by (auto simp: sourced_def fresh_def assms(2) split: option.splits)
qed

end

lemmas kind_defs = kind_ok_def HasPrefix_def

interpretation links_reader: staged_reader "''ml:''" as_links CLinks
  by unfold_locales (auto simp: kind_defs as_links_def split: cached.splits)

interpretation catalysts_reader: staged_reader "''c:''" as_catalysts CCatalysts
  by unfold_locales (auto simp: kind_defs as_catalysts_def split: cached.splits)

interpretation risk_reader: staged_reader "''rs:''" as_risk of_risk
  by unfold_locales (auto simp: kind_defs as_risk_def of_risk_def split: cached.splits option.splits)

interpretation edges_reader: staged_reader "''we:''" as_edges CEdges
  by unfold_locales (auto simp: kind_defs as_edges_def split: cached.splits)

interpretation windows_reader: staged_reader "''rw:''" as_windows CWindows
  by unfold_locales (auto simp: kind_defs as_windows_def split: cached.splits)

interpretation lines_reader: staged_reader "''wtl:''" as_lines CLines
  by unfold_locales (auto simp: kind_defs as_lines_def split: cached.splits)

interpretation decisions_reader: staged_reader "''rd:''" as_decisions CDecisions
  by unfold_locales (auto simp: kind_defs as_decisions_def split: cached.splits)

interpretation pair_reader: staged_reader "''hsp:''" as_pair of_pair
  by unfold_locales (auto simp: kind_defs as_pair_def of_pair_def split: cached.splits option.splits)

interpretation bars_reader: staged_reader "''bfb:''" as_bars CBars
  by unfold_locales (auto simp: kind_defs as_bars_def split: cached.splits)

subsection \<open>Runs\<close>

lemmas reader_defs = MarketLinksByEvent_def CatalystsByEvent_def RiskScoreForCondition_def WalletEdgesForWallet_def
  ClosedRepricingWindowsForCondition_def WalletThesisLinesForEvent_def RecentDecisionsForCondition_def
  HolderSnapshotPairForWallet_def RecentBookFeatureBars_def

lemmas reader_returns = links_reader.guarded_returns catalysts_reader.guarded_returns risk_reader.guarded_returns
  edges_reader.guarded_returns windows_reader.guarded_returns lines_reader.guarded_returns decisions_reader.guarded_returns
  pair_reader.guarded_returns bars_reader.guarded_returns

lemmas reader_sources =
  links_reader.guarded_source [OF ask_key.simps(1) serve.simps(1) [unfolded reader_defs]]
  catalysts_reader.guarded_source [OF ask_key.simps(2) serve.simps(2) [unfolded reader_defs]]
  risk_reader.guarded_source [OF ask_key.simps(3) serve.simps(3) [unfolded reader_defs]]
  edges_reader.guarded_source [OF ask_key.simps(4) serve.simps(4) [unfolded reader_defs]]
  windows_reader.guarded_source [OF ask_key.simps(5) serve.simps(5) [unfolded reader_defs]]
  lines_reader.guarded_source [OF ask_key.simps(6) serve.simps(6) [unfolded reader_defs]]
  decisions_reader.guarded_source [OF ask_key.simps(7) serve.simps(7) [unfolded reader_defs]]
  pair_reader.guarded_source [OF ask_key.simps(8) serve.simps(8) [unfolded reader_defs]]
  bars_reader.guarded_source [OF ask_key.simps(9) serve.simps(9) [unfolded reader_defs]]

lemma serve_returns: "typed_cache r \<Longrightarrow> \<exists>r' a. serve ev q r = Some (r', a) \<and> typed_cache r'"
  by (cases q; hypsubst; unfold serve.simps reader_defs; erule reader_returns)

lemma serve_source: "typed_cache r \<Longrightarrow> serve ev q r = Some (r', a) \<Longrightarrow> sourced ev q r r' a"
  by (cases q; hypsubst; erule reader_sources; assumption)

text \<open>Each call with the calls before it, latest first, and its answer; a panic ends the run.\<close>

fun si_trace :: "(si_env \<times> ask) list \<Rightarrow> (si_env \<times> ask) list \<Rightarrow> Readers
    \<Rightarrow> ((si_env \<times> ask) list \<times> (si_env \<times> ask) \<times> (string + cached) option) list" where
  "si_trace past [] r = []"
| "si_trace past ((ev, q) # calls) r =
     (case serve ev q r of
        None \<Rightarrow> [(past, (ev, q), None)]
      | Some (r', a) \<Rightarrow> (past, (ev, q), Some a) # si_trace ((ev, q) # past) calls r')"

definition recent :: "si_Config \<Rightarrow> (si_env \<times> ask) list \<times> (si_env \<times> ask) \<times> (string + cached) option \<Rightarrow> bool" where
  "recent c = (\<lambda>(past, (ev, q), a).
     case a of
       None \<Rightarrow> False
     | Some (Inl e) \<Rightarrow> fresh c ev q = Inl e
     | Some (Inr v) \<Rightarrow> fresh c ev q = Inr v \<or>
         (\<exists>(ev', q') \<in> set past. ask_key q' = ask_key q \<and> fresh c ev' q' = Inr v \<and> ie_get ev \<le> ie_put ev' + ic_CacheTTL c))"

text \<open>Every entry of the cache was put there by an earlier call.\<close>

definition witnessed :: "(si_env \<times> ask) list \<Rightarrow> Readers \<Rightarrow> bool" where
  "witnessed past r \<longleftrightarrow>
     (\<forall>m k e. rs_cache r = Some m \<and> m k = Some e \<longrightarrow>
        (\<exists>(ev, q) \<in> set past. ask_key q = Some k \<and> fresh (rs_cfg r) ev q = Inr (ce_value e) \<and>
           ce_expiresAt e = ie_put ev + ic_CacheTTL (rs_cfg r)))"

lemma cachePut_cfg [simp]: "rs_cfg (cachePut ev k v r) = rs_cfg r"
  by (simp add: cachePut_def split: option.splits)

lemma sourced_cfg: "sourced ev q r r' a \<Longrightarrow> rs_cfg r' = rs_cfg r"
  by (auto simp: sourced_def split: option.splits sum.splits)

lemma witnessed_past: "witnessed past r \<Longrightarrow> witnessed (c # past) r"
  unfolding witnessed_def by fastforce

lemma witnessed_put:
  assumes "witnessed past r" "ask_key q = Some k" "fresh (rs_cfg r) ev q = Inr v"
  shows "witnessed ((ev, q) # past) (cachePut ev k v r)"
  unfolding witnessed_def
proof (intro allI impI)
  fix m k' e
  assume m: "rs_cache (cachePut ev k v r) = Some m \<and> m k' = Some e"
  then obtain m0 where m0: "rs_cache r = Some m0"
      "m = m0(k \<mapsto> \<lparr>ce_value = v, ce_expiresAt = ie_put ev + ic_CacheTTL (rs_cfg r)\<rparr>)"
    by (auto simp: cachePut_def split: option.splits)
  show "\<exists>(ev', q') \<in> set ((ev, q) # past). ask_key q' = Some k' \<and>
      fresh (rs_cfg (cachePut ev k v r)) ev' q' = Inr (ce_value e) \<and>
      ce_expiresAt e = ie_put ev' + ic_CacheTTL (rs_cfg (cachePut ev k v r))"
  proof (cases "k' = k")
    case True
    then show ?thesis using m m0 assms(2,3) by auto
  next
    case False
    then show ?thesis using m m0 witnessed_past [OF assms(1), of "(ev, q)"] by (auto simp: witnessed_def)
  qed
qed

lemma witnessed_step:
  assumes "witnessed past r" "sourced ev q r r' a"
  shows "witnessed ((ev, q) # past) r'"
  using assms witnessed_past [OF assms(1)] witnessed_put [OF assms(1)]
  by (auto simp: sourced_def split: option.splits sum.splits)

lemma recent_step:
  assumes "witnessed past r" "sourced ev q r r' a"
  shows "recent (rs_cfg r) (past, (ev, q), Some a)"
proof (cases "fresh (rs_cfg r) ev q = a")
  case True
  then show ?thesis by (simp add: recent_def split: sum.splits)
next
  case False
  then obtain k v where k: "ask_key q = Some k" "cacheGet ev k r = Some v" "a = Inr v"
    using assms(2) by (auto simp: sourced_def split: option.splits)
  then obtain m e where m: "rs_cache r = Some m" "m k = Some e" "ce_value e = v" "ie_get ev \<le> ce_expiresAt e"
    by (auto simp: cacheGet_def split: option.splits if_splits)
  obtain ev' q' where "(ev', q') \<in> set past" "ask_key q' = Some k" "fresh (rs_cfg r) ev' q' = Inr v"
      "ce_expiresAt e = ie_put ev' + ic_CacheTTL (rs_cfg r)"
    using assms(1) m unfolding witnessed_def by blast
  then show ?thesis using k m(4) by (auto simp: recent_def intro!: bexI [of _ "(ev', q')"])
qed

lemma trace_recent:
  "typed_cache r \<Longrightarrow> witnessed past r \<Longrightarrow> list_all (recent (rs_cfg r)) (si_trace past calls r)"
proof (induction calls arbitrary: past r)
  case (Cons c calls)
  obtain ev q where c: "c = (ev, q)" by (cases c)
  obtain r' a where s: "serve ev q r = Some (r', a)" "typed_cache r'" using serve_returns [OF Cons.prems(1)] by metis
  have src: "sourced ev q r r' a" by (rule serve_source [OF Cons.prems(1) s(1)])
  show ?case
    using Cons.IH [OF s(2) witnessed_step [OF Cons.prems(2) src]] recent_step [OF Cons.prems(2) src] sourced_cfg [OF src] s c
    by simp
qed simp

lemma new_typed: "typed_cache (si_New c)"
  by (simp add: si_New_def typed_cache_def Let_def)

lemma new_witnessed: "witnessed past (si_New c)"
  by (auto simp: si_New_def witnessed_def Let_def)

text \<open>C5. In every run of calls on a new bundle, whatever the tables, clocks and faults are, no call
  panics; an error is that of the call's own query; and an answer is what the readers without a cache
  answer at this call or answered at an earlier call under the same cache key, put into the cache no
  longer than the time to live before.\<close>

theorem staged_answers_are_recent:
  "list_all (recent (rs_cfg (si_New c))) (si_trace [] calls (si_New c))"
  by (rule trace_recent [OF new_typed new_witnessed])

text \<open>
  The key leaves out what else the query depends on: with the cache on, a second call under a key gets
  the answer of the first for as long as it lives, whatever the tables hold by then.
\<close>

lemma cache_hides_writes:
  assumes "typed_cache r" "rs_cache r \<noteq> None" "serve ev q r = Some (r', Inr v)" "cacheGet ev k r = None"
    and "ask_key q = Some k" "ask_key q' = Some k" "ie_get ev' \<le> ie_put ev + ic_CacheTTL (rs_cfg r)"
  shows "serve ev' q' r' = Some (r', Inr v)"
proof -
  have r': "r' = cachePut ev k v r"
    using serve_source [OF assms(1,3)] assms(4,5) by (simp add: sourced_def)
  have get: "cacheGet ev' k r' = Some v"
    using assms(2,7) by (auto simp: r' cacheGet_def cachePut_def)
  have "typed_cache r'" using serve_returns [OF assms(1), of ev q] assms(3) by auto
  then obtain r'' a where s: "serve ev' q' r' = Some (r'', a)" "sourced ev' q' r' r'' a"
    using serve_returns serve_source by metis
  then show ?thesis using get assms(6) by (simp add: sourced_def)
qed

end
