(* ===== verification/StagedFlow.thy ===== *)
theory StagedFlow
  imports Repricing MarketFeeds StagedInputs
begin

text \<open>
  The staged inputs as a whole: the workers' ticks, the writes of the rest of the program to the tables
  they read, and the calls of the readers, in any order. What the hook of the detect loop
  (StrategyShadow) gets from the readers, and what that leaves of two of its strategies.
\<close>

subsection \<open>Runs\<close>

datatype sg_op =
    TickLinks ml_Config wk_env
  | TickLines tl_Config wk_env
  | TickGraph wg_Config wk_env
  | TickRisk rs_Config rr_Config wk_env
  | TickRepricing rz_Config rz_env
  | TickBars bb_Config Budget feed_env
  | TickHolders hs_Config Budget holder_env
  | Elsewhere "CatalystRow list" ShadowTable "TradeRow list" TraderTable MarketTable "int \<Rightarrow> string list"
  | Call si_env ask

record staged =
  sx_tables :: sg_tables
  sx_readers :: Readers

text \<open>A call of a reader sees the tables as they are.\<close>

definition at_tables :: "sg_tables \<Rightarrow> si_env \<Rightarrow> si_env" where
  "at_tables s ev = ev\<lparr>ie_tables := s\<rparr>"

fun sx_step :: "staged \<Rightarrow> sg_op \<Rightarrow> staged" where
  "sx_step x (TickLinks c ev) = x\<lparr>sx_tables := fst (links_Tick c ev (sx_tables x))\<rparr>"
| "sx_step x (TickLines c ev) = x\<lparr>sx_tables := fst (lines_Tick c ev (sx_tables x))\<rparr>"
| "sx_step x (TickGraph c ev) = x\<lparr>sx_tables := fst (graph_Tick c ev (sx_tables x))\<rparr>"
| "sx_step x (TickRisk c d ev) = x\<lparr>sx_tables := fst (risk_Tick c d ev (sx_tables x))\<rparr>"
| "sx_step x (TickRepricing c ev) = x\<lparr>sx_tables := fst (rz_Tick c ev (sx_tables x))\<rparr>"
| "sx_step x (TickBars c b fe) = x\<lparr>sx_tables := fst (bars_Tick c b fe (sx_tables x))\<rparr>"
| "sx_step x (TickHolders c b he) = x\<lparr>sx_tables := fst (holders_Tick c b he (sx_tables x))\<rparr>"
| "sx_step x (Elsewhere cats shadow trades traders markets tokens) =
     x\<lparr>sx_tables := (sx_tables x)\<lparr>sg_catalysts := cats, sg_shadow := shadow, sg_trades := trades, sg_traders := traders,
         sg_markets := markets, sg_tokens := tokens\<rparr>\<rparr>"
| "sx_step x (Call ev q) =
     (case serve (at_tables (sx_tables x) ev) q (sx_readers x) of None \<Rightarrow> x | Some (r, a) \<Rightarrow> x\<lparr>sx_readers := r\<rparr>)"

definition sx_run :: "sg_op list \<Rightarrow> staged \<Rightarrow> staged" where
  "sx_run ops x = foldl sx_step x ops"

definition sg_empty :: sg_tables where
  "sg_empty = \<lparr>sg_links = [], sg_catalysts = [], sg_windows = \<lparr>wit_rows = [], wit_next = 1\<rparr>, sg_risks = [], sg_edges = [],
     sg_lines = [], sg_holders = [], sg_bars = [], sg_shadow = \<lparr>sht_rows = [], sht_next = 1\<rparr>, sg_trades = [],
     sg_traders = \<lparr>wt_rows = [], wt_next = 1\<rparr>, sg_markets = \<lparr>mt_rows = [], mt_next = 1, mt_links = [], mt_outcomes = Map.empty\<rparr>,
     sg_tokens = (\<lambda>i. [])\<rparr>"

definition sx_start :: "si_Config \<Rightarrow> staged" where
  "sx_start c = \<lparr>sx_tables = sg_empty, sx_readers = si_New c\<rparr>"

subsection \<open>The shape of the tables\<close>

definition link_ok :: "LinkRow \<Rightarrow> bool" where
  "link_ok r \<longleftrightarrow> lk_Src r \<noteq> '''' \<and> lk_Dst r \<noteq> '''' \<and> lk_Src r \<noteq> lk_Dst r \<and>
     (lk_Direction r = ''aligned'' \<or> lk_Direction r = ''opposed'' \<or> lk_Direction r = ''unknown'')"

definition line_ok :: "LineRow \<Rightarrow> bool" where
  "line_ok r \<longleftrightarrow> li_Wallet r \<noteq> '''' \<and> li_ConditionID r \<noteq> '''' \<and> li_EventSlug r \<noteq> '''' \<and> 2 \<le> li_Trades r"

text \<open>Two different wallets, in order, that share two events or more.\<close>

definition edge_ok :: "EdgeRow \<Rightarrow> bool" where
  "edge_ok r \<longleftrightarrow> eg_WalletA r < eg_WalletB r \<and> eg_Kind r = ''co_trade'' \<and> 2 \<le> eg_CoEventsCount r"

definition risk_ok :: "RiskRow \<Rightarrow> bool" where
  "risk_ok r \<longleftrightarrow> rq_IsActive r"

definition holder_ok :: "HolderSnapRow \<Rightarrow> bool" where
  "holder_ok r \<longleftrightarrow> ho_Wallet r \<noteq> '''' \<and> 1 \<le> ho_Rank r \<and> \<not> ho_Shares r \<le> 0"

text \<open>A bar as the worker writes it: with depths, without their changes and without a spread score.\<close>

definition bar_ok :: "BarRow \<Rightarrow> bool" where
  "bar_ok r \<longleftrightarrow> br_OutcomeToken r \<noteq> '''' \<and> br_BidDepthTopN r \<noteq> None \<and> br_AskDepthTopN r \<noteq> None \<and>
     br_SpreadZ r = None \<and> br_BidDepthDeltaPct r = None \<and> br_AskDepthDeltaPct r = None"

definition window_table_ok :: "WindowTable \<Rightarrow> bool" where
  "window_table_ok t \<longleftrightarrow> table_ok wn_ID (\<lambda>r. wn_ID r < wit_next t \<and> unanchored r) (wit_rows t)"

definition sg_ok :: "sg_tables \<Rightarrow> bool" where
  "sg_ok s \<longleftrightarrow> table_ok link_key link_ok (sg_links s) \<and> table_ok line_key line_ok (sg_lines s) \<and>
     table_ok edge_key edge_ok (sg_edges s) \<and> table_ok risk_key risk_ok (sg_risks s) \<and>
     table_ok holder_key holder_ok (sg_holders s) \<and> table_ok bar_key bar_ok (sg_bars s) \<and> window_table_ok (sg_windows s)"

text \<open>Market links.\<close>

lemma link_edge_ok: "link_edge c h t = Some e \<Longrightarrow> link_ok e"
  by (auto simp: link_edge_def link_ok_def normaliseDirection_def split: if_splits)

lemma upsert_link_ok:
  assumes "link_ok e" "table_ok link_key link_ok rows" "q_UpsertMarketLink fault e rows = (rows', err)"
  shows "table_ok link_key link_ok rows'"
  using assms link_table.upsert_keeps [of link_ok rows e]
  by (auto simp: q_UpsertMarketLink_def link_ok_def link_merge_def split: option.splits if_splits)

lemma links_loop_ok:
  "\<exists>rows. fst (links_loop ev c ts k s p sk er) = s\<lparr>sg_links := rows\<rparr> \<and>
     (table_ok link_key link_ok (sg_links s) \<longrightarrow> table_ok link_key link_ok rows)"
proof (induction ts arbitrary: k s p sk er)
  case Nil
  then show ?case by (auto intro: exI [of _ "sg_links s"])
next
  case (Cons x ts)
  obtain h t where x: "x = (h, t)" by (cases x)
  show ?case
  proof (cases "link_edge c h t")
    case (Some e)
    obtain rows err where u: "q_UpsertMarketLink (wk_writeFault ev k) e (sg_links s) = (rows, err)" by (metis surj_pair)
    have "table_ok link_key link_ok (sg_links s) \<longrightarrow> table_ok link_key link_ok rows"
      using upsert_link_ok [OF link_edge_ok [OF Some] _ u] by blast
    then show ?thesis using x Some u Cons.IH [of "k + 1" "s\<lparr>sg_links := rows\<rparr>"] by (cases err) (fastforce+)
  qed (use x Cons.IH in simp)
qed

lemma links_Tick_ok:
  "\<exists>rows. fst (links_Tick c ev s) = s\<lparr>sg_links := rows\<rparr> \<and>
     (table_ok link_key link_ok (sg_links s) \<longrightarrow> table_ok link_key link_ok rows)"
proof (cases "ListLinkHints ev (mlc_BatchSize c) s")
  case (Inr hints)
  then show ?thesis
    using links_loop_ok [of ev c "hint_targets hints" 0 s 0 0 0]
    by (cases hints) (auto simp: links_Tick_def simp del: links_loop.simps intro: exI [of _ "sg_links s"] split: prod.splits)
qed (auto simp: links_Tick_def simp del: links_loop.simps intro: exI [of _ "sg_links s"])

text \<open>Thesis lines.\<close>

lemma event_trades_slug: "(t, w, m) \<in> set (event_trades since trades traders markets) \<Longrightarrow> derefStr (mr_EventSlug m) \<noteq> ''''"
  by (auto simp: event_trades_def derefStr_def split: option.splits)

lemma aggregate_ok:
  assumes "a \<in> set (q_AggregateWalletThesisLines since limit trades traders markets)"
  shows "la_EventSlug a \<noteq> '''' \<and> 2 \<le> la_Trades a"
proof -
  define rows where "rows = event_trades since trades traders markets"
  define key where "key = (\<lambda>(t :: TradeRow, w :: string, m :: MarketRow). (w, mr_ConditionID m, mr_EventSlug m, tx_Side t))"
  define agg where "agg = (\<lambda>g. let ts = map fst (filter (\<lambda>r. key r = g) rows)
    in case g of (w, cond, slug, side) \<Rightarrow>
         \<lparr>la_Wallet = w, la_ConditionID = cond, la_EventSlug = derefStr slug, la_Side = side,
          la_NotionalUSD = pg_sum (map tx_NotionalUSD ts), la_Trades = int (length ts),
          la_LastTradedAt = tsTime (ts_max (map tx_TradedAt ts))\<rparr>)"
  have "a \<in> set (take (nat limit) (sort_key (\<lambda>a. - la_LastTradedAt a)
      (filter (\<lambda>a. 2 \<le> la_Trades a) (map agg (remdups (map key rows))))))"
    using assms unfolding q_AggregateWalletThesisLines_def Let_def rows_def key_def agg_def .
  from in_set_takeD [OF this] have "a \<in> set (filter (\<lambda>a. 2 \<le> la_Trades a) (map agg (remdups (map key rows))))"
    by (simp only: set_sort)
  then obtain r where r: "r \<in> set rows" "a = agg (key r)" "2 \<le> la_Trades a" by auto
  obtain t w m where x: "r = (t, w, m)" by (cases r)
  have "la_EventSlug a = derefStr (mr_EventSlug m)" unfolding r(2) x by (simp add: agg_def key_def Let_def)
  then show ?thesis using r(1,3) x event_trades_slug by (metis rows_def)
qed

lemma upsert_line_ok:
  assumes "w \<noteq> ''''" "cond \<noteq> ''''" "slug \<noteq> ''''" "2 \<le> n" "table_ok line_key line_ok rows"
    and "q_UpsertWalletThesisLine now fault w cond slug side notional n traded hours rows = (rows', err)"
  shows "table_ok line_key line_ok rows'"
proof -
  have "table_ok line_key line_ok (upsert line_key line_merge r rows)" if "line_ok r" for r
    by (rule line_table.upsert_keeps [OF assms(5) that]) (use that in \<open>simp add: line_ok_def line_merge_def\<close>)
  then show ?thesis
    using assms by (auto simp: q_UpsertWalletThesisLine_def line_ok_def split: option.splits)
qed

lemma lines_loop_ok:
  "list_all (\<lambda>a. la_EventSlug a \<noteq> '''' \<and> 2 \<le> la_Trades a) aggs \<Longrightarrow>
   \<exists>rows. fst (lines_loop ev hours aggs k s p er) = s\<lparr>sg_lines := rows\<rparr> \<and>
     (table_ok line_key line_ok (sg_lines s) \<longrightarrow> table_ok line_key line_ok rows)"
proof (induction aggs arbitrary: k s p er)
  case Nil
  then show ?case by (auto intro: exI [of _ "sg_lines s"])
next
  case (Cons a aggs)
  show ?case
  proof (cases "la_Wallet a = '''' \<or> la_ConditionID a = ''''")
    case False
    obtain rows err where u: "q_UpsertWalletThesisLine (wk_dbNow ev k) (wk_writeFault ev k) (la_Wallet a) (la_ConditionID a)
        (la_EventSlug a) (la_Side a) (la_NotionalUSD a) (la_Trades a) (tsFromTime (la_LastTradedAt a)) hours (sg_lines s) = (rows, err)"
      by (metis surj_pair)
    have "table_ok line_key line_ok (sg_lines s) \<longrightarrow> table_ok line_key line_ok rows"
      using upsert_line_ok [OF _ _ _ _ _ u] False Cons.prems by auto
    then show ?thesis using False u Cons.IH [of "k + 1" "s\<lparr>sg_lines := rows\<rparr>"] Cons.prems by (cases err) (fastforce+)
  qed (use Cons in auto)
qed

lemma lines_Tick_ok:
  "\<exists>rows. fst (lines_Tick c ev s) = s\<lparr>sg_lines := rows\<rparr> \<and>
     (table_ok line_key line_ok (sg_lines s) \<longrightarrow> table_ok line_key line_ok rows)"
proof (cases "wk_listFault ev")
  case None
  define aggs where "aggs = q_AggregateWalletThesisLines (tsFromTime (wk_now ev - tlc_Lookback c)) (tlc_BatchSize c)
    (sg_trades s) (sg_traders s) (sg_markets s)"
  have "list_all (\<lambda>a. la_EventSlug a \<noteq> '''' \<and> 2 \<le> la_Trades a) aggs"
    using aggregate_ok unfolding aggs_def list_all_iff by blast
  note l = lines_loop_ok [OF this, of ev "f2i (Hours (tlc_Lookback c))" 0 s 0 0]
  show ?thesis
    using l None unfolding lines_Tick_def aggs_def [symmetric]
    by (cases aggs) (auto simp del: lines_loop.simps intro: exI [of _ "sg_lines s"] split: prod.splits)
qed (auto simp: lines_Tick_def intro: exI [of _ "sg_lines s"])

text \<open>The wallet graph.\<close>

lemma UpsertEdges_ok:
  "list_all edge_ok es \<Longrightarrow> table_ok edge_key edge_ok rows \<Longrightarrow> table_ok edge_key edge_ok (fst (UpsertEdges ev es k rows))"
proof (induction es arbitrary: k rows)
  case (Cons e es)
  have "table_ok edge_key edge_ok (upsert edge_key edge_merge e rows)"
    by (rule edge_table.upsert_keeps [OF Cons.prems(2)]) (use Cons.prems(1) in \<open>auto simp: edge_ok_def edge_merge_def\<close>)
  then show ?case using Cons by (auto split: option.splits)
qed simp

lemma computed_edges_ok: "list_all edge_ok (computeCoTradeEdges rows m ver now)"
  using computed_edges by (fastforce simp: list_all_iff edge_ok_def)

lemma graph_Tick_ok:
  "\<exists>rows. fst (graph_Tick c ev s) = s\<lparr>sg_edges := rows\<rparr> \<and>
     (table_ok edge_key edge_ok (sg_edges s) \<longrightarrow> table_ok edge_key edge_ok rows)"
proof (cases "ListCoTradeRows ev (wgc_CoTradeWindow c) (wgc_BatchSize c) s")
  case (Inr rows)
  define es where "es = computeCoTradeEdges rows (wgc_MinSharedEvents c) (wgc_EdgeVersion c) (wk_now ev)"
  obtain rows' err where u: "UpsertEdges ev es 0 (sg_edges s) = (rows', err)" by (metis surj_pair)
  have "table_ok edge_key edge_ok (sg_edges s) \<longrightarrow> table_ok edge_key edge_ok rows'"
    using UpsertEdges_ok [of es "sg_edges s" ev 0] computed_edges_ok u by (auto simp: es_def)
  moreover have "fst (graph_Tick c ev s) = (if es = [] then s else s\<lparr>sg_edges := rows'\<rparr>)"
    unfolding graph_Tick_def Inr sum.case es_def [symmetric] by (cases es; cases err) (use u in auto)
  ultimately show ?thesis by (auto intro: exI [of _ "sg_edges s"])
qed (auto simp: graph_Tick_def intro: exI [of _ "sg_edges s"])

text \<open>Risk scores.\<close>

lemma upsert_risk_ok:
  assumes "table_ok risk_key risk_ok rows" "q_UpsertMarketRiskScore now fault cond ver amb dis why rows = (rows', err)"
  shows "table_ok risk_key risk_ok rows'"
  using assms risk_table.upsert_keeps [of risk_ok rows]
  by (auto simp: q_UpsertMarketRiskScore_def risk_ok_def risk_merge_def split: option.splits)

lemma risk_loop_ok:
  "\<exists>rows. fst (risk_loop ev c d fs k s p er) = s\<lparr>sg_risks := rows\<rparr> \<and>
     (table_ok risk_key risk_ok (sg_risks s) \<longrightarrow> table_ok risk_key risk_ok rows)"
proof (induction fs arbitrary: k s p er)
  case Nil
  then show ?case by (auto intro: exI [of _ "sg_risks s"])
next
  case (Cons f fs)
  obtain rows err where u: "q_UpsertMarketRiskScore (wk_dbNow ev k) (wk_writeFault ev k) (ri_ConditionID f) (rsc_ScoreVersion c)
      (rk_AmbiguityScore (rr_Decide d f)) (rk_DisputeRisk (rr_Decide d f)) (encodeReasonsAsJSON ev (rk_Reasons (rr_Decide d f)))
      (sg_risks s) = (rows, err)"
    by (metis surj_pair)
  have "table_ok risk_key risk_ok (sg_risks s) \<longrightarrow> table_ok risk_key risk_ok rows" using upsert_risk_ok u by blast
  then show ?case using u Cons.IH [of "k + 1" "s\<lparr>sg_risks := rows\<rparr>"] by (cases err) (fastforce simp: Let_def)+
qed

lemma risk_Tick_ok:
  "\<exists>rows. fst (risk_Tick c d ev s) = s\<lparr>sg_risks := rows\<rparr> \<and>
     (table_ok risk_key risk_ok (sg_risks s) \<longrightarrow> table_ok risk_key risk_ok rows)"
proof (cases "ListRiskScoreCandidates ev (rsc_BatchSize c) (rsc_RefreshOlder c) s")
  case (Inr facts)
  then show ?thesis
    using risk_loop_ok [of ev c d facts 0 s 0 0]
    by (cases facts) (auto simp: risk_Tick_def simp del: risk_loop.simps intro: exI [of _ "sg_risks s"] split: prod.splits)
qed (auto simp: risk_Tick_def simp del: risk_loop.simps intro: exI [of _ "sg_risks s"])

text \<open>Repricing windows.\<close>

lemma window_open_ok:
  assumes "window_table_ok (sg_windows s)"
  shows "window_table_ok (sg_windows (fst (sink_OpenWindow ev t closesAt s)))"
  using assms
  by (fastforce simp: sink_OpenWindow_def q_InsertRepricingWindow_def window_table_ok_def table_ok_def Let_def list_all_iff unanchored_def
      split: option.splits)

lemma window_close_ok:
  assumes "window_table_ok (sg_windows s)"
  shows "window_table_ok (sg_windows (fst (sink_CloseWindow ev i obs peer lag status s)))"
proof -
  have i: "wn_ID \<circ> (\<lambda>r. if wn_ID r = i then resolve_window now status a b c nts r else r) = wn_ID" for now a b c nts
    by (auto simp: resolve_window_def)
  show ?thesis
    using assms
    by (auto simp: sink_CloseWindow_def q_CloseRepricingWindow_def window_table_ok_def table_ok_def list_all_iff i
        resolve_window_def unanchored_def split: option.splits prod.splits)
qed

lemma window_open_loop_ok:
  "window_table_ok (sg_windows s) \<Longrightarrow> window_table_ok (sg_windows (fst (open_loop ev c now ts n s)))"
proof (induction ts arbitrary: n s)
  case (Cons t ts)
  show ?case using open_loop_step [of ev c now t ts n s] Cons.IH [OF window_open_ok [OF Cons.prems]] by metis
qed simp

lemma window_close_loop_ok:
  "window_table_ok (sg_windows s) \<Longrightarrow> window_table_ok (sg_windows (fst (close_loop ev c ws n s)))"
proof (induction ws arbitrary: n s)
  case (Cons w ws)
  obtain obs peer lag status where v: "close_verdict ev c w s = (obs, peer, lag, status)" by (metis prod_cases4)
  show ?case using close_loop_step [OF v, of ws n] Cons.IH [OF window_close_ok [OF Cons.prems]] by metis
qed simp

lemma rz_Tick_ok:
  "\<exists>w. fst (rz_Tick c ev s) = s\<lparr>sg_windows := w\<rparr> \<and> (window_table_ok (sg_windows s) \<longrightarrow> window_table_ok w)"
proof -
  obtain w where w: "fst (rz_Tick c ev s) = s\<lparr>sg_windows := w\<rparr>" using rz_Tick_frame by blast
  have "window_table_ok (sg_windows (fst (openPhase ev c now s)))" if "window_table_ok (sg_windows s)" for now
    using that window_open_loop_ok by (auto simp: openPhase_def split: sum.splits)
  moreover have "window_table_ok (sg_windows (fst (closePhase ev c now s')))" if "window_table_ok (sg_windows s')" for now s'
    using that window_close_loop_ok by (auto simp: closePhase_def split: sum.splits)
  ultimately have "window_table_ok (sg_windows s) \<longrightarrow> window_table_ok (sg_windows (fst (rz_Tick c ev s)))"
    unfolding rz_Tick_phases by blast
  then show ?thesis using w by auto
qed

text \<open>Book bars.\<close>

lemma bar_row_ok: "ba_OutcomeToken b \<noteq> '''' \<Longrightarrow> bar_ok (bar_row b)"
  by (simp add: bar_row_def bar_ok_def)

lemma UpsertBar_ok:
  assumes "ba_OutcomeToken b \<noteq> ''''" "UpsertBar ev k b s = (s', err)"
  shows "\<exists>rows. s' = s\<lparr>sg_bars := rows\<rparr> \<and> (table_ok bar_key bar_ok (sg_bars s) \<longrightarrow> table_ok bar_key bar_ok rows)"
proof -
  have "table_ok bar_key bar_ok (upsert bar_key bar_merge (bar_row b) rows)" if "table_ok bar_key bar_ok rows" for rows
    by (rule bar_table.upsert_keeps [OF that bar_row_ok [OF assms(1)]]) (simp add: bar_merge_def bar_row_ok assms(1))
  then show ?thesis
    using assms(2) by (auto simp: UpsertBar_def q_UpsertBookFeatureBar_def intro: exI [of _ "sg_bars s"] split: if_splits option.splits)
qed

lemma bars_loop_ok:
  "\<exists>rows. fst (snd (bars_loop ev c conds barStart bs k s p er)) = s\<lparr>sg_bars := rows\<rparr> \<and>
     (table_ok bar_key bar_ok (sg_bars s) \<longrightarrow> table_ok bar_key bar_ok rows)"
proof (induction bs arbitrary: k s p er)
  case Nil
  then show ?case by (auto intro: exI [of _ "sg_bars s"])
next
  case (Cons b bs)
  define bar where "bar = buildBar b (derefStr (conds (bk_AssetID b))) (bbc_BarSeconds c) (bbc_TopN c) barStart"
  show ?case
  proof (cases "ba_OutcomeToken bar = ''''")
    case True
    then show ?thesis using Cons.IH by (simp add: bar_def [symmetric])
  next
    case False
    obtain s' err where u: "UpsertBar ev k bar s = (s', err)" by (metis surj_pair)
    show ?thesis
      using UpsertBar_ok [OF False u] Cons.IH [of "k + 1" s'] False u
      by (cases err) (fastforce simp: bar_def [symmetric])+
  qed
qed

lemma batch_loop_ok:
  "\<exists>rows. fst (batch_loop fe c conds barStart bss j k s p er) = s\<lparr>sg_bars := rows\<rparr> \<and>
     (table_ok bar_key bar_ok (sg_bars s) \<longrightarrow> table_ok bar_key bar_ok rows)"
proof (induction bss arbitrary: j k s p er)
  case Nil
  then show ?case by (auto intro: exI [of _ "sg_bars s"])
next
  case (Cons batch bss)
  show ?case
  proof (cases "GetBooks (fe_float fe) (fe_books fe j) batch")
    case (Inr books)
    obtain k' s' p' er' where b: "bars_loop (fe_wk fe) c conds barStart books k s p er = (k', s', p', er')" by (metis surj_pair)
    show ?thesis
      using bars_loop_ok [of "fe_wk fe" c conds barStart books k s p er] Cons.IH [of "j + 1" k' s' p' er'] Inr b by fastforce
  qed (use Cons.IH in simp)
qed

lemma fst_counted: "fst (case t of (s, p, er) \<Rightarrow> (s, status, g p er)) = fst t"
  by (cases t) simp

lemma bars_Tick_ok:
  "\<exists>rows. fst (bars_Tick c b fe s) = s\<lparr>sg_bars := rows\<rparr> \<and> (table_ok bar_key bar_ok (sg_bars s) \<longrightarrow> table_ok bar_key bar_ok rows)"
proof (cases "feed_candidates fe b (bbc_MaxMarkets c) s")
  case (Inr cands)
  show ?thesis
  proof (cases cands)
    case (Cons x xs)
    show ?thesis
      unfolding bars_Tick_def Inr Cons sum.case list.case Let_def fst_counted by (rule batch_loop_ok)
  qed (auto simp: bars_Tick_def Inr intro: exI [of _ "sg_bars s"])
qed (auto simp: bars_Tick_def intro: exI [of _ "sg_bars s"])

text \<open>Holder snapshots.\<close>

definition holder_row_ok :: "HolderRow \<Rightarrow> bool" where
  "holder_row_ok r \<longleftrightarrow> hr_Wallet r \<noteq> '''' \<and> 1 \<le> hr_Rank r \<and> \<not> hr_Shares r \<le> 0"

lemma fetched_ok:
  assumes "FetchHolders get requireOI cond token topK = Inr rows"
  shows "list_all holder_row_ok rows"
proof -
  have g: "list_all holder_row_ok (holder_rows (holders_group x))" for x
  proof -
    obtain tok raw where x: "x = (tok, raw)" by (cases x)
    show ?thesis
      by (auto simp: x holder_rows_def holders_group_def Let_def list_all_iff holder_row_ok_def in_set_enumerate_eq
          dest!: nth_mem)
  qed
  show ?thesis
  proof (cases "ListHolders get cond topK")
    case (Inr groups)
    then obtain raw where raw: "groups = map holders_group raw"
      by (auto simp: ListHolders_def map_sum_def split: if_splits sum.splits)
    have h: "list_all holder_row_ok (holder_rows y)" if "find P groups = Some y" for P y
    proof -
      have "y \<in> set groups" using that by (auto simp: find_Some_iff)
      then show ?thesis using g raw by auto
    qed
    show ?thesis
    proof (cases "find (\<lambda>g. ht_Token g = token) groups")
      case (Some y)
      then show ?thesis using assms Inr h [OF Some] by (auto simp: FetchHolders_def split: if_splits)
    qed (use assms Inr in \<open>simp add: FetchHolders_def\<close>)
  qed (use assms in \<open>simp add: FetchHolders_def\<close>)
qed

lemma snapshot_rows_ok:
  "list_all holder_row_ok hs \<Longrightarrow> table_ok holder_key holder_ok rows \<Longrightarrow>
     table_ok holder_key holder_ok (fst (snapshot_rows fault cond token t hs k rows))"
proof (induction hs arbitrary: k rows)
  case (Cons h hs)
  let ?r = "\<lparr>ho_ConditionID = cond, ho_OutcomeToken = token, ho_SnapshotAt = t, ho_Wallet = hr_Wallet h, ho_Rank = hr_Rank h,
      ho_Shares = hr_Shares h, ho_NotionalUSD = hr_NotionalUSD h, ho_PctOI = hr_PctOI h, ho_TotalOI = hr_TotalOI h\<rparr>"
  have "table_ok holder_key holder_ok (upsert holder_key holder_merge ?r rows)"
    by (rule holder_table.upsert_keeps [OF Cons.prems(2)])
      (use Cons.prems(1) in \<open>auto simp: holder_ok_def holder_row_ok_def holder_merge_def\<close>)
  then show ?case using Cons by (auto simp: q_UpsertHolderSnapshot_def split: option.splits prod.splits)
qed simp

lemma holder_one_ok:
  "\<exists>rows. fst (holder_one c he x s) = s\<lparr>sg_holders := rows\<rparr> \<and>
     (table_ok holder_key holder_ok (sg_holders s) \<longrightarrow> table_ok holder_key holder_ok rows)"
proof -
  obtain cond token where x: "x = (cond, token)" by (cases x)
  show ?thesis
  proof (cases "FetchHolders (hv_get he token) (hv_requireOI he) cond token (hsc_TopK c)")
    case (Inr hs)
    obtain rows err where u: "snapshot_rows (hv_fault he x) cond token (fe_clock (hv_feed he) cond token) hs 0 (sg_holders s) = (rows, err)"
      by (metis surj_pair)
    have "table_ok holder_key holder_ok (sg_holders s) \<longrightarrow> table_ok holder_key holder_ok rows"
      using snapshot_rows_ok [OF fetched_ok [OF Inr], of "sg_holders s" "hv_fault he x" cond token
          "fe_clock (hv_feed he) cond token" 0] u by simp
    then show ?thesis using Inr u x by (auto simp: holder_one_def)
  qed (auto simp: holder_one_def x intro: exI [of _ "sg_holders s"])
qed

lemma holders_fold_ok:
  "\<exists>rows. fst (foldl (\<lambda>(s, p, er) x. case holder_one c he x s of (s, ok) \<Rightarrow> if ok then (s, p + (1 :: int), er) else (s, p, er + (1 :: int)))
       (s, p, er) xs) = s\<lparr>sg_holders := rows\<rparr> \<and>
     (table_ok holder_key holder_ok (sg_holders s) \<longrightarrow> table_ok holder_key holder_ok rows)"
proof (induction xs arbitrary: s p er)
  case Nil
  then show ?case by (auto intro: exI [of _ "sg_holders s"])
next
  case (Cons x xs)
  obtain s' ok where o: "holder_one c he x s = (s', ok)" by (metis surj_pair)
  obtain rows where s': "s' = s\<lparr>sg_holders := rows\<rparr>"
      "table_ok holder_key holder_ok (sg_holders s) \<longrightarrow> table_ok holder_key holder_ok rows"
    using holder_one_ok [of c he x s] o by auto
  show ?case
  proof (cases ok)
    case True
    then show ?thesis using Cons.IH [of s' "p + 1" er] s' o by auto
  next
    case False
    then show ?thesis using Cons.IH [of s' p "er + 1"] s' o by auto
  qed
qed

lemma holders_Tick_ok:
  "\<exists>rows. fst (holders_Tick c b he s) = s\<lparr>sg_holders := rows\<rparr> \<and>
     (table_ok holder_key holder_ok (sg_holders s) \<longrightarrow> table_ok holder_key holder_ok rows)"
proof (cases "feed_candidates (hv_feed he) b (hsc_MaxMarkets c) s")
  case (Inr cands)
  then show ?thesis
    using holders_fold_ok [of c he s 0 0 "hv_order he cands"]
    by (cases cands) (auto simp: holders_Tick_def intro: exI [of _ "sg_holders s"] split: prod.splits)
qed (auto simp: holders_Tick_def intro: exI [of _ "sg_holders s"])

text \<open>Every step.\<close>

lemma sg_ok_step:
  assumes "sg_ok (sx_tables x)"
  shows "sg_ok (sx_tables (sx_step x op))"
proof (cases op)
  case (TickLinks c ev)
  then show ?thesis using assms links_Tick_ok [of c ev "sx_tables x"] by (auto simp: sg_ok_def)
next
  case (TickLines c ev)
  then show ?thesis using assms lines_Tick_ok [of c ev "sx_tables x"] by (auto simp: sg_ok_def)
next
  case (TickGraph c ev)
  then show ?thesis using assms graph_Tick_ok [of c ev "sx_tables x"] by (auto simp: sg_ok_def)
next
  case (TickRisk c d ev)
  then show ?thesis using assms risk_Tick_ok [of c d ev "sx_tables x"] by (auto simp: sg_ok_def)
next
  case (TickRepricing c ev)
  then show ?thesis using assms rz_Tick_ok [of c ev "sx_tables x"] by (auto simp: sg_ok_def)
next
  case (TickBars c b fe)
  then show ?thesis using assms bars_Tick_ok [of c b fe "sx_tables x"] by (auto simp: sg_ok_def)
next
  case (TickHolders c b he)
  then show ?thesis using assms holders_Tick_ok [of c b he "sx_tables x"] by (auto simp: sg_ok_def)
qed (use assms in \<open>auto simp: sg_ok_def split: option.splits\<close>)

lemma sx_run_induct:
  assumes "P x" "\<And>x op. P x \<Longrightarrow> P (sx_step x op)"
  shows "P (sx_run ops x)"
  using assms(1) unfolding sx_run_def by (induction ops arbitrary: x) (auto intro: assms(2))

lemma sg_ok_start: "sg_ok (sx_tables (sx_start c))"
  by (simp add: sx_start_def sg_empty_def sg_ok_def window_table_ok_def)

lemma sg_ok_run: "sg_ok (sx_tables (sx_run ops (sx_start c)))"
  by (rule sx_run_induct) (simp_all add: sg_ok_start sg_ok_step)

text \<open>C17. Whatever the workers are given and in whatever order they run, the staged tables keep their
  shape: the keys are unique; a market link joins two different known markets in a known direction; a
  thesis line has at least two trades on an event; a wallet edge joins two different wallets, in order,
  that share at least two events; a holder has a rank and shares; and every repricing window names no
  market, every bar has no change of depth.\<close>

theorem staged_tables_keep_their_shape:
  "sg_ok (sx_tables (sx_run ops (sx_start c)))"
  by (rule sg_ok_run)

subsection \<open>What the readers can answer\<close>

text \<open>No closed window, and bars whose changes of depth are zero.\<close>

definition starved :: "cached \<Rightarrow> bool" where
  "starved v \<longleftrightarrow>
     (case v of
        CWindows ws \<Rightarrow> ws = []
      | CBars bs \<Rightarrow> list_all (\<lambda>b. bb_BidDepthDeltaPct b = 0 \<and> bb_AskDepthDeltaPct b = 0) bs
      | _ \<Rightarrow> True)"

definition starved_cache :: "Readers \<Rightarrow> bool" where
  "starved_cache r \<longleftrightarrow> (\<forall>m k e. rs_cache r = Some m \<and> m k = Some e \<longrightarrow> starved (ce_value e))"

lemma no_closed_windows:
  assumes "window_table_ok t" "cond \<noteq> ''''"
  shows "q_ListClosedRepricingWindowsForCondition cond since limit t = []"
proof -
  have "filter (\<lambda>r. wn_ConditionID r = cond \<and> verdict_status (wn_Status r) \<and> at_or_after since (Some (wn_OpenedAt r))) (wit_rows t) = []"
    using assms by (auto simp: window_table_ok_def table_ok_def list_all_iff unanchored_def filter_empty_conv)
  then show ?thesis unfolding q_ListClosedRepricingWindowsForCondition_def by simp
qed

lemma listed_bars_starved:
  assumes "table_ok bar_key bar_ok rows"
  shows "list_all (\<lambda>b. bb_BidDepthDeltaPct b = 0 \<and> bb_AskDepthDeltaPct b = 0)
    (map bar_of (q_ListRecentBookFeatureBars cond token since limit rows))"
proof -
  have "bar_ok r" if "r \<in> set (q_ListRecentBookFeatureBars cond token since limit rows)" for r
    using that assms by (auto simp: q_ListRecentBookFeatureBars_def table_ok_def list_all_iff dest: in_set_takeD)
  then show ?thesis by (auto simp: list_all_iff bar_of_def bar_ok_def num_or_zero_def)
qed

lemma uncached_read:
  "cached_read key unwrap wrap query ev (uncached c) =
     (case query c (ie_fault ev) (ie_tables ev) of Inl e \<Rightarrow> Some (uncached c, Inl e) | Inr x \<Rightarrow> Some (uncached c, Inr x))"
  by (simp add: cached_read_def cacheGet_def cachePut_def uncached_def split: sum.split)

lemma starved_trivial [simp]:
  "starved (CLinks x1)" "starved (CCatalysts x2)" "starved (CEdges x3)" "starved (CLines x4)" "starved (CDecisions x5)"
  "starved (of_risk x6)" "starved (of_pair x7)"
  by (simp_all add: starved_def of_risk_def of_pair_def split: option.split)

lemma as_answer_wrap: "snd (the (as_answer wrap (Some (r, a)))) = Inr v \<Longrightarrow> \<exists>x. v = wrap x"
  by (cases a) (auto simp: as_answer_def)

lemma fresh_starved:
  assumes ok: "sg_ok (ie_tables ev)" and v: "fresh c ev q = Inr v"
  shows "starved v"
proof -
  have p: "\<exists>x. v = wrap x" if "snd (the (as_answer wrap y)) = Inr v" "\<exists>r a. y = Some (r, a)" for wrap :: "'a \<Rightarrow> cached" and y
    using that as_answer_wrap by blast
  have u: "\<exists>r a. cached_read key unwrap wrap query ev (uncached c) = Some (r, a)" for key unwrap query and wrap :: "'a \<Rightarrow> cached"
    by (auto simp: uncached_read split: sum.split)
  show ?thesis
  proof (cases q)
    case (AskWindows cond since)
    have "q_ListClosedRepricingWindowsForCondition cond (tsFromTime since) limit (sg_windows (ie_tables ev)) = []" if "cond \<noteq> ''''" for limit
      using no_closed_windows [OF _ that] ok by (simp add: sg_ok_def)
    then show ?thesis
      using v unfolding AskWindows fresh_def
      by (auto simp: ClosedRepricingWindowsForCondition_def as_answer_def uncached_read unless_fault_def starved_def
          split: if_splits option.splits)
  next
    case (AskBars cond token since limit)
    have "table_ok bar_key bar_ok (sg_bars (ie_tables ev))" using ok by (simp add: sg_ok_def)
    note b = listed_bars_starved [OF this]
    show ?thesis
      using v b unfolding AskBars fresh_def
      by (auto simp: RecentBookFeatureBars_def as_answer_def uncached_read unless_fault_def starved_def Let_def
          split: if_splits option.splits)
  qed (use v in \<open>auto simp: fresh_def as_answer_def reader_defs uncached_read split: if_splits sum.splits\<close>)
qed

lemma starved_put: "starved_cache r \<Longrightarrow> starved v \<Longrightarrow> starved_cache (cachePut ev k v r)"
  by (auto simp: starved_cache_def cachePut_def split: option.splits if_splits)

lemma starved_get: "starved_cache r \<Longrightarrow> cacheGet ev k r = Some v \<Longrightarrow> starved v"
  by (auto simp: starved_cache_def cacheGet_def split: option.splits if_splits)

lemma serve_starved:
  assumes "sg_ok (ie_tables ev)" "typed_cache r" "starved_cache r" "serve ev q r = Some (r', a)"
  shows "typed_cache r' \<and> starved_cache r' \<and> (case a of Inl e \<Rightarrow> True | Inr v \<Rightarrow> starved v)"
proof -
  have t: "typed_cache r'" using serve_returns [OF assms(2), of ev q] assms(4) by auto
  have f: "starved v" if "fresh (rs_cfg r) ev q = Inr v" for v by (rule fresh_starved [OF assms(1) that])
  show ?thesis
    using serve_source [OF assms(2,4)] t f assms(3) starved_put [OF assms(3)] starved_get [OF assms(3)]
    by (auto simp: sourced_def split: option.splits sum.splits)
qed

definition flow_ok :: "staged \<Rightarrow> bool" where
  "flow_ok x \<longleftrightarrow> sg_ok (sx_tables x) \<and> typed_cache (sx_readers x) \<and> starved_cache (sx_readers x)"

lemma readers_step: "\<forall>ev q. op \<noteq> Call ev q \<Longrightarrow> sx_readers (sx_step x op) = sx_readers x"
  by (cases op) auto

lemma flow_ok_step: "flow_ok x \<Longrightarrow> flow_ok (sx_step x op)"
proof (cases "\<exists>ev q. op = Call ev q")
  case True
  assume x: "flow_ok x"
  obtain ev q where op: "op = Call ev q" using True by blast
  show ?thesis
    using x serve_starved [of "at_tables (sx_tables x) ev" "sx_readers x" q]
    by (auto simp: op flow_ok_def at_tables_def split: option.splits)
next
  case False
  assume "flow_ok x"
  then show ?thesis using sg_ok_step readers_step [of op x] False by (simp add: flow_ok_def)
qed

lemma flow_ok_run: "flow_ok (sx_run ops (sx_start c))"
proof (rule sx_run_induct)
  have "rs_cache (si_New c) = Some m \<Longrightarrow> m = Map.empty" for m by (auto simp: si_New_def Let_def split: if_splits)
  then show "flow_ok (sx_start c)"
    using sg_ok_start [of c] new_typed [of c] by (auto simp: flow_ok_def starved_cache_def sx_start_def)
qed (rule flow_ok_step)

subsection \<open>The hook\<close>

text \<open>
  The bundle as the hook of an alert meets it: each call has its own clocks and fault, and sees the
  tables of the moment; the calls of one alert have different keys, but for the catalysts, which are
  read twice.
\<close>

definition answer_of :: "(Readers \<times> (string + 'a)) option \<Rightarrow> string + 'a" where
  "answer_of x = (case x of None \<Rightarrow> Inl ''panic'' | Some (r, a) \<Rightarrow> a)"

definition hook_readers :: "(nat \<Rightarrow> ask \<Rightarrow> si_env) \<Rightarrow> staged \<Rightarrow> StagedReaders" where
  "hook_readers ev x =
     (let r = sx_readers x; at_call = (\<lambda>n q. at_tables (sx_tables x) (ev n q))
      in \<lparr>st_Enabled = ic_Enabled (rs_cfg r),
          st_CatalystsByEvent = (\<lambda>n slug. answer_of (CatalystsByEvent (at_call n (AskCatalysts slug)) slug
             (if n = 0 then r
              else case CatalystsByEvent (at_call 0 (AskCatalysts slug)) slug r of None \<Rightarrow> r | Some (r', a) \<Rightarrow> r'))),
          st_WalletEdgesForWallet = (\<lambda>w ver. answer_of (WalletEdgesForWallet (at_call 0 (AskEdges w ver)) w ver r)),
          st_RecentDecisionsForCondition =
            (\<lambda>cond since. answer_of (RecentDecisionsForCondition (at_call 0 (AskDecisions cond since)) cond since r)),
          st_ClosedRepricingWindowsForCondition =
            (\<lambda>cond since. answer_of (ClosedRepricingWindowsForCondition (at_call 0 (AskWindows cond since)) cond since r)),
          st_MarketLinksByEvent = (\<lambda>slug ver. answer_of (MarketLinksByEvent (at_call 0 (AskLinks slug ver)) slug ver r)),
          st_WalletThesisLinesForEvent =
            (\<lambda>slug w hours. answer_of (WalletThesisLinesForEvent (at_call 0 (AskLines slug w hours)) slug w hours r)),
          st_RiskScoreForCondition = (\<lambda>cond. answer_of (RiskScoreForCondition (at_call 0 (AskRisk cond)) cond r)),
          st_HolderSnapshotPairForWallet =
            (\<lambda>cond token w. answer_of (HolderSnapshotPairForWallet (at_call 0 (AskPair cond token w)) cond token w r)),
          st_RecentBookFeatureBars =
            (\<lambda>cond token since limit. answer_of (RecentBookFeatureBars (at_call 0 (AskBars cond token since limit)) cond token since limit r))\<rparr>)"

lemma hook_windows:
  assumes "flow_ok x" "st_ClosedRepricingWindowsForCondition (hook_readers ev x) cond since = Inr ws"
  shows "ws = []"
proof -
  let ?ev = "at_tables (sx_tables x) (ev 0 (AskWindows cond since))"
  have f: "sg_ok (ie_tables ?ev)" "typed_cache (sx_readers x)" "starved_cache (sx_readers x)"
    using assms(1) by (simp_all add: flow_ok_def at_tables_def)
  obtain r' where "ClosedRepricingWindowsForCondition ?ev cond since (sx_readers x) = Some (r', Inr ws)"
    using assms(2) by (auto simp: hook_readers_def Let_def answer_of_def split: option.splits)
  then have "serve ?ev (AskWindows cond since) (sx_readers x) = Some (r', Inr (CWindows ws))"
    by (simp add: as_answer_def)
  from serve_starved [OF f this] show ?thesis by (simp add: starved_def)
qed

lemma hook_bars:
  assumes "flow_ok x" "st_RecentBookFeatureBars (hook_readers ev x) cond token since limit = Inr bs"
  shows "list_all (\<lambda>b. bb_BidDepthDeltaPct b = 0 \<and> bb_AskDepthDeltaPct b = 0) bs"
proof -
  let ?ev = "at_tables (sx_tables x) (ev 0 (AskBars cond token since limit))"
  have f: "sg_ok (ie_tables ?ev)" "typed_cache (sx_readers x)" "starved_cache (sx_readers x)"
    using assms(1) by (simp_all add: flow_ok_def at_tables_def)
  obtain r' where "RecentBookFeatureBars ?ev cond token since limit (sx_readers x) = Some (r', Inr bs)"
    using assms(2) by (auto simp: hook_readers_def Let_def answer_of_def split: option.splits)
  then have "serve ?ev (AskBars cond token since limit) (sx_readers x) = Some (r', Inr (CBars bs))"
    by (simp add: as_answer_def)
  from serve_starved [OF f this] show ?thesis by (simp add: starved_def)
qed

text \<open>C4. The sink opens every repricing window without a market, so the strategy that reads the closed
  windows of a market never sees one: after any run of the workers, of the rest of the program and of
  the readers, it passes over every alert, whatever its configuration.\<close>

theorem repricing_lag_is_starved:
  "\<exists>reason. shadowRepricingLag c bus sev a (hook_readers ev (sx_run ops (sx_start cfg))) ambiguity regime = skip ''repricinglag'' reason"
proof (cases "st_ClosedRepricingWindowsForCondition (hook_readers ev (sx_run ops (sx_start cfg))) (mk_ID (sa_market a))
    (se_now sev - 24 * Hour)")
  case (Inr ws)
  then show ?thesis using hook_windows [OF flow_ok_run Inr] by (auto simp: shadowRepricingLag_def Let_def)
qed (auto simp: shadowRepricingLag_def Let_def)

text \<open>A bar without changes of depth shows no collapse, on either side and for any threshold.\<close>

lemma no_collapse:
  assumes "fb_BidDepthDeltaPct (bv_Recent inp) = 0" "fb_AskDepthDeltaPct (bv_Recent inp) = 0"
  shows "\<not> vv_Detected (bv_Decide d inp)"
  using assms by (auto simp: bv_Decide_def bv_side_def Let_def)

text \<open>C6. The worker that writes the bars leaves the changes of depth out, and no one else writes bars, so the
  strategy that looks for a collapse of depth never finds one: after any run, it passes over every
  alert unless it is told to record what it does not find.\<close>

theorem book_vacuum_is_starved:
  "sh_RecordNoFire c \<or>
   (\<exists>reason. shadowBookVacuum c bus sev a (hook_readers ev (sx_run ops (sx_start cfg))) regime = skip ''bookvacuum'' reason)"
proof -
  let ?st = "hook_readers ev (sx_run ops (sx_start cfg))"
  have "\<not> vv_Detected (bv_Decide d \<lparr>bv_Recent = featureBarToDetector bar, bv_Baseline = base, bv_SpreadZ = z, bv_MMLike = mm\<rparr>)"
    if "st_RecentBookFeatureBars ?st cond token since limit = Inr (bar # older)" for cond token since limit bar older d base z mm
    using hook_bars [OF flow_ok_run that] by (intro no_collapse) (simp_all add: featureBarToDetector_def)
  then show ?thesis
    by (auto simp: shadowBookVacuum_def Let_def split: sum.splits list.splits)
qed

end
