(* ===== verification/HttpClient.thy ===== *)
theory HttpClient
  imports GoFmt
begin

text \<open>
  The JSON client of \<open>infra/polymarket/httpx\<close>: one GET with retries on 429, 5xx and network errors,
  exponential backoff with jitter, and the classification of the answers. What happens outside -
  limiter, request, network, body - is one answer per attempt; the decoder is a parameter.
\<close>

subsection \<open>Errors and answers\<close>

text \<open>\<open>WrappedErr\<close> stands for the errors that carry only a text; its flag marks a context error.\<close>

datatype http_error = HttpNotFound | APIError string int string | WrappedErr string bool

definition err_Error :: "http_error \<Rightarrow> string" where
  "err_Error e = (case e of
       HttpNotFound \<Rightarrow> ''httpx: not found''
     | APIError url st body \<Rightarrow> ''httpx: '' @ url @ '' -> '' @ fmt_d st @ '': '' @ body
     | WrappedErr s ctx \<Rightarrow> s)"

definition Retryable :: "http_error \<Rightarrow> bool" where
  "Retryable e = False"

datatype http_answer =
    LimiterErr string bool
  | BuildErr string
  | NetErr string bool
  | Answer int string "string option"

definition StatusOK :: int where "StatusOK = 200"

text \<open>\<open>truncate\<close> cuts a body and appends the three bytes of an ellipsis.\<close>

definition http_truncate :: "string \<Rightarrow> nat \<Rightarrow> string" where
  "http_truncate b n = (if length b \<le> n then b else take n b @ [char_of (226::nat), char_of (128::nat), char_of (166::nat)])"

definition joinPath :: "string \<Rightarrow> string \<Rightarrow> string" where
  "joinPath base rel =
     (if base = '''' then rel
      else if last base = CHR ''/'' \<and> rel \<noteq> '''' \<and> hd rel = CHR ''/'' then base @ tl rel
      else if last base \<noteq> CHR ''/'' \<and> (rel = '''' \<or> hd rel \<noteq> CHR ''/'') then base @ ''/'' @ rel
      else base @ rel)"

definition shouldRetryNetErr :: "bool \<Rightarrow> bool" where
  "shouldRetryNetErr isCtx = (\<not> isCtx)"

text \<open>
  The delay after an attempt, with the random draw taken modulo its bound; \<open>None\<close> is the panic of
  \<open>rand.Int63n\<close> on a bound that is not positive. The shift and the product wrap.
\<close>

definition http_backoff :: "nat \<Rightarrow> int \<Rightarrow> duration option" where
  "http_backoff attempt draw =
     (let base = i64 (i64 (2 ^ attempt) * Second);
          base = (if 30 * Second < base then 30 * Second else base);
          half = base sdiv 2
      in if half \<le> 0 then None else Some (half + draw mod half))"

subsection \<open>The request\<close>

record http_Client =
  hc_base :: string
  hc_path :: string
  hc_maxRetry :: int

definition http_New :: "string \<Rightarrow> string \<Rightarrow> int \<Rightarrow> http_Client" where
  "http_New base path maxRetry = \<lparr>hc_base = base, hc_path = path, hc_maxRetry = (if maxRetry = 0 then 4 else maxRetry)\<rparr>"

text \<open>
  One attempt: the answer it ends the call with, or the error that the next attempt follows. \<open>url\<close> is
  the encoded target.
\<close>

definition judge :: "(string \<Rightarrow> string + 'a) \<Rightarrow> string \<Rightarrow> http_answer \<Rightarrow> (http_error + 'a) + http_error" where
  "judge decode url a = (case a of
       LimiterErr e ctx \<Rightarrow> Inl (Inl (WrappedErr e ctx))
     | BuildErr e \<Rightarrow> Inl (Inl (WrappedErr (''httpx: build request: '' @ e) False))
     | NetErr e ctx \<Rightarrow> if \<not> shouldRetryNetErr ctx then Inl (Inl (WrappedErr e ctx)) else Inr (WrappedErr e ctx)
     | Answer st body readErr \<Rightarrow>
         if st = StatusOK then
           (case readErr of
              Some e \<Rightarrow> Inl (Inl (WrappedErr (''httpx: read body: '' @ e) False))
            | None \<Rightarrow> (case decode body of
                         Inl e \<Rightarrow> Inl (Inl (WrappedErr (''httpx: decode '' @ url @ '': '' @ e) False))
                       | Inr v \<Rightarrow> Inl (Inr v)))
         else if st = 404 then Inl (Inl HttpNotFound)
         else if st = 429 \<or> 500 \<le> st
         then Inr (WrappedErr (''httpx: upstream status '' @ fmt_d st @ '': '' @ http_truncate body 256) False)
         else Inl (Inl (APIError url st (http_truncate body 256))))"

text \<open>
  The retry loop: \<open>left\<close> attempts remain, \<open>k\<close> is the current one. \<open>ans k\<close> is its answer and \<open>wait k\<close> the
  context error that interrupts the pause after it. The result comes with the number of attempts.
  \<open>None\<close> is a panic in the backoff.
\<close>

fun get_loop :: "(string \<Rightarrow> string + 'a) \<Rightarrow> string \<Rightarrow> (nat \<Rightarrow> http_answer) \<Rightarrow> (nat \<Rightarrow> string option) \<Rightarrow> (nat \<Rightarrow> int)
    \<Rightarrow> nat \<Rightarrow> nat \<Rightarrow> http_error option \<Rightarrow> ((http_error + 'a) \<times> nat) option" where
  "get_loop decode url ans wait draws 0 k prev = Some (Inl (case prev of None \<Rightarrow> WrappedErr ''httpx: exhausted retries'' False | Some e \<Rightarrow> e), k)"
| "get_loop decode url ans wait draws (Suc left) k prev =
     (case judge decode url (ans k) of
        Inl r \<Rightarrow> Some (r, Suc k)
      | Inr e \<Rightarrow>
          if left = 0 then get_loop decode url ans wait draws 0 (Suc k) (Some e)
          else (case http_backoff k (draws k) of
                  None \<Rightarrow> None
                | Some d \<Rightarrow>
                    (case wait k of
                       Some ce \<Rightarrow> Some (Inl (WrappedErr ce True), Suc k)
                     | None \<Rightarrow> get_loop decode url ans wait draws left (Suc k) (Some e))))"

definition GetJSON :: "http_Client \<Rightarrow> (string \<Rightarrow> string + 'a) \<Rightarrow> string \<Rightarrow> (nat \<Rightarrow> http_answer) \<Rightarrow> (nat \<Rightarrow> string option)
    \<Rightarrow> (nat \<Rightarrow> int) \<Rightarrow> ((http_error + 'a) \<times> nat) option" where
  "GetJSON c decode url ans wait draws = get_loop decode url ans wait draws (nat (hc_maxRetry c + 1)) 0 None"

subsection \<open>Facts\<close>

lemma http_backoff_value:
  assumes "k \<le> 33"
  shows "\<exists>d. http_backoff k draw = Some d \<and> Second div 2 \<le> d \<and> d < 30 * Second"
proof -
  let ?b = "2 ^ k * Second :: int"
  have "(2 :: int) ^ k \<le> 2 ^ 33" by (rule power_increasing) (use assms in simp_all)
  then have "1 \<le> (2 :: int) ^ k" "?b \<le> 2 ^ 33 * Second" by simp_all
  then have b: "Second \<le> ?b" "?b < 2 ^ 63" "i64 (2 ^ k) = 2 ^ k" by (simp_all add: i64_def)
  then have i: "i64 ?b = ?b" by (simp add: i64_def)
  define base where "base = (if 30 * Second < ?b then 30 * Second else ?b)"
  have r: "Second \<le> base" "base \<le> 30 * Second" using b by (auto simp: base_def)
  then have h: "base sdiv 2 = base div 2" by (simp add: signed_divide_int_def)
  have "http_backoff k draw = (if base sdiv 2 \<le> 0 then None else Some (base sdiv 2 + draw mod (base sdiv 2)))"
    unfolding http_backoff_def Let_def b(3) i base_def ..
  then have "http_backoff k draw = Some (base div 2 + draw mod (base div 2))"
    unfolding h using r by simp
  moreover have j: "0 \<le> draw mod (base div 2)" "draw mod (base div 2) < base div 2" using r by simp_all
  have "Second div 2 \<le> base div 2" "2 * (base div 2) \<le> base" using r by (simp_all add: zdiv_mono1)
  with j r(2) have "Second div 2 \<le> base div 2 + draw mod (base div 2)" "base div 2 + draw mod (base div 2) < 30 * Second"
    by linarith+
  ultimately show ?thesis by blast
qed

text \<open>The specification: the first attempt that ends the call decides, else the last one.\<close>

definition first_end :: "(string \<Rightarrow> string + 'a) \<Rightarrow> string \<Rightarrow> (nat \<Rightarrow> http_answer) \<Rightarrow> nat list \<Rightarrow> nat option" where
  "first_end decode url ans ks = find (\<lambda>k. isl (judge decode url (ans k))) ks"

definition get_spec :: "(string \<Rightarrow> string + 'a) \<Rightarrow> string \<Rightarrow> (nat \<Rightarrow> http_answer) \<Rightarrow> nat list \<Rightarrow> (http_error + 'a) \<times> nat" where
  "get_spec decode url ans ks =
     (case first_end decode url ans ks of
        Some k \<Rightarrow> (projl (judge decode url (ans k)), Suc k)
      | None \<Rightarrow> (Inl (projr (judge decode url (ans (last ks)))), Suc (last ks)))"

lemma get_loop_spec:
  assumes "\<forall>k. wait k = None" "k + n \<le> 34"
  shows "get_loop decode url ans wait draws (Suc n) k prev = Some (get_spec decode url ans [k..<Suc (k + n)])"
  using assms(2)
proof (induction n arbitrary: k prev)
  case 0
  then show ?case by (cases "judge decode url (ans k)") (simp_all add: get_spec_def first_end_def)
next
  case (Suc n)
  obtain d where d: "http_backoff k (draws k) = Some d" using http_backoff_value [of k] Suc.prems by auto
  have u: "[k..<Suc (k + Suc n)] = k # [Suc k..<Suc (Suc k + n)]" by (simp add: upt_rec)
  have l: "last [k..<Suc (k + Suc n)] = last [Suc k..<Suc (Suc k + n)]" by simp
  show ?case
  proof (cases "judge decode url (ans k)")
    case (Inl r)
    then show ?thesis unfolding get_spec_def first_end_def u by simp
  next
    case (Inr e)
    have "get_loop decode url ans wait draws (Suc (Suc n)) k prev = get_loop decode url ans wait draws (Suc n) (Suc k) (Some e)"
      using Inr d assms(1) by simp
    also have "\<dots> = Some (get_spec decode url ans [Suc k..<Suc (Suc k + n)])"
      using Suc.IH [of "Suc k"] Suc.prems by (simp del: get_loop.simps upt_Suc)
    also have "get_spec decode url ans [Suc k..<Suc (Suc k + n)] = get_spec decode url ans [k..<Suc (k + Suc n)]"
      unfolding get_spec_def first_end_def l unfolding u by (simp add: Inr del: upt_Suc)
    finally show ?thesis .
  qed
qed

text \<open>C32. The JSON client: when no pause is interrupted and at most 34 retries are configured, a call sends one request
  after another until the first answer that is neither 429, nor 5xx, nor a network failure of its own,
  returns exactly that answer's classification - the decoded body of a 200, not found, an API error,
  a read or decode error, a context error - and otherwise, after all attempts, the error of the last;
  and the pause before each retry is at least half a second and less than 30 seconds.\<close>

theorem GetJSON_spec:
  assumes "\<forall>k. wait k = None" "0 \<le> hc_maxRetry c" "hc_maxRetry c \<le> 34"
  shows "GetJSON c decode url ans wait draws = Some (get_spec decode url ans [0..<nat (hc_maxRetry c + 1)]) \<and>
    (\<forall>k < nat (hc_maxRetry c). \<exists>d. http_backoff k (draws k) = Some d \<and> Second div 2 \<le> d \<and> d < 30 * Second)"
proof
  have n: "nat (hc_maxRetry c + 1) = Suc (nat (hc_maxRetry c))" using assms(2) by simp
  show "GetJSON c decode url ans wait draws = Some (get_spec decode url ans [0..<nat (hc_maxRetry c + 1)])"
    unfolding GetJSON_def n using get_loop_spec [OF assms(1), where k = 0 and n = "nat (hc_maxRetry c)"] assms(3)
    by (simp add: nat_le_iff del: get_loop.simps upt_Suc)
  show "\<forall>k < nat (hc_maxRetry c). \<exists>d. http_backoff k (draws k) = Some d \<and> Second div 2 \<le> d \<and> d < 30 * Second"
    using http_backoff_value assms(3) by simp
qed

definition http_ans :: "nat \<Rightarrow> http_answer" where
  "http_ans k = (if k = 0 then Answer 429 ''slow down'' None else if k = 1 then NetErr ''reset'' False
     else if k = 2 then Answer 200 ''42'' None else Answer 404 '''' None)"

lemma GetJSON_spec_witness:
  "GetJSON (http_New ''https://h'' '''' 0) (\<lambda>b. Inr b) ''u'' http_ans (\<lambda>k. None) (\<lambda>k. 7) = Some (Inr ''42'', 3)"
proof -
  have "GetJSON (http_New ''https://h'' '''' 0) (\<lambda>b. Inr b) ''u'' http_ans (\<lambda>k. None) (\<lambda>k. 7)
      = Some (get_spec (\<lambda>b. Inr b) ''u'' http_ans [0..<nat (hc_maxRetry (http_New ''https://h'' '''' 0) + 1)])"
    using GetJSON_spec [of "\<lambda>k. None" "http_New ''https://h'' '''' 0" "\<lambda>b. Inr b" "''u''" http_ans "\<lambda>k. 7"]
    by (simp add: http_New_def)
  also have "get_spec (\<lambda>b. Inr b) ''u'' http_ans [0..<nat (hc_maxRetry (http_New ''https://h'' '''' 0) + 1)] = (Inr ''42'', 3)"
    by code_simp
  finally show ?thesis .
qed

text \<open>From the 35th retry on the shifted duration wraps to a negative one and the draw panics.\<close>

lemma http_backoff_panics: "http_backoff 34 draw = None"
  by (simp add: http_backoff_def i64_def Let_def signed_divide_int_def)

end
