(* ===== verification/Gamma.thy ===== *)
theory Gamma
  imports HttpClient Catalog
begin

text \<open>
  The adapter of the Gamma API (\<open>infra/polymarket/gamma\<close>): ids that come as numbers or as strings, the
  three offset pagers with their cap, the mapping of a market, and the snapshot of a resolution.
  Parameters: one request as a function from the query to an error or a decoded page, and the parsers
  of JSON string arrays, RFC 3339 times and floats.
\<close>

subsection \<open>Ids\<close>

text \<open>
  \<open>UnmarshalJSON\<close> of \<open>flexInt64\<close>; \<open>f\<close> is the value before the call. The loop does not check the
  range. \<open>None\<close> is the slice panic on a lone quote.
\<close>

fun flex_digits :: "string \<Rightarrow> string \<Rightarrow> int \<Rightarrow> string + int" where
  "flex_digits raw [] n = Inr n"
| "flex_digits raw (c # cs) n =
     (let u = (of_char c :: int)
      in if u < 48 \<or> 57 < u then Inl (''gamma: cannot parse int64 from '' @ raw)
         else flex_digits raw cs (i64 (i64 (n * 10) + (u - 48))))"

definition flex_UnmarshalJSON :: "int \<Rightarrow> string \<Rightarrow> (string + int) option" where
  "flex_UnmarshalJSON f b =
     (if b = '''' \<or> b = ''null'' then Some (Inr f)
      else if b = [CHR 0x22] then None
      else
        (let b = (if hd b = CHR 0x22 \<and> last b = CHR 0x22 then butlast (tl b) else b)
         in if b = '''' then Some (Inr f)
            else
              (let neg = hd b = CHR ''-''
               in case flex_digits b (if neg then tl b else b) 0 of
                    Inl e \<Rightarrow> Some (Inl e)
                  | Inr n \<Rightarrow> Some (Inr (if neg then i64 (- n) else n)))))"

subsection \<open>Answers\<close>

record gammaTag =
  gt_ID :: int
  gt_Slug :: string
  gt_Label :: string

record gammaEventRef =
  gr_ID :: string
  gr_Slug :: string
  gr_Title :: string

record gammaMarket =
  gm_ID :: string
  gm_Slug :: string
  gm_Question :: string
  gm_ConditionID :: string
  gm_OutcomesJSON :: string
  gm_OutcomePricesRaw :: string
  gm_ClobTokenIDsRaw :: string
  gm_Active :: bool
  gm_Closed :: bool
  gm_Archived :: bool
  gm_StartDate :: string
  gm_EndDate :: string
  gm_Volume :: float64
  gm_Volume24h :: float64
  gm_Liquidity :: float64
  gm_Events :: "gammaEventRef list"

record gammaEvent =
  ge_ID :: string
  ge_Slug :: string
  ge_Title :: string
  ge_Markets :: "gammaMarket list"
  ge_Tags :: "gammaTag list"
  ge_Active :: bool
  ge_Closed :: bool

text \<open>The parsers: the JSON array of strings, the time, the float; \<open>None\<close> is their error.\<close>

record gamma_parse =
  gp_strings :: "string \<Rightarrow> string list option"
  gp_time :: "string \<Rightarrow> time option"
  gp_float :: "string \<Rightarrow> float64 option"

definition parseStringArray :: "gamma_parse \<Rightarrow> string \<Rightarrow> string list option" where
  "parseStringArray P raw = (if raw = '''' then Some [] else gp_strings P raw)"

definition parseTime :: "gamma_parse \<Rightarrow> string \<Rightarrow> time option" where
  "parseTime P s = (if s = '''' then Some zero_time else gp_time P s)"

fun parse_floats :: "gamma_parse \<Rightarrow> string list \<Rightarrow> float64 list option" where
  "parse_floats P [] = Some []"
| "parse_floats P (v # vs) = (case gp_float P v of None \<Rightarrow> None | Some f \<Rightarrow> map_option ((#) f) (parse_floats P vs))"

definition parseFloatArray :: "gamma_parse \<Rightarrow> string \<Rightarrow> float64 list option" where
  "parseFloatArray P raw =
     (if raw = '''' then Some [] else (case gp_strings P raw of None \<Rightarrow> None | Some s \<Rightarrow> parse_floats P s))"

text \<open>The value a call leaves when the caller drops its error.\<close>

definition or_nil :: "'a list option \<Rightarrow> 'a list" where
  "or_nil r = (case r of None \<Rightarrow> [] | Some xs \<Rightarrow> xs)"

definition or_zero :: "time option \<Rightarrow> time" where
  "or_zero r = (case r of None \<Rightarrow> zero_time | Some t \<Rightarrow> t)"

definition mapMarket :: "gamma_parse \<Rightarrow> gammaMarket \<Rightarrow> string + Market" where
  "mapMarket P m =
     (if gm_ConditionID m = '''' then Inl ''gamma: missing conditionId''
      else
        (let ev = find (\<lambda>e. gr_Slug e \<noteq> '''') (gm_Events m)
         in Inr \<lparr>mk_ID = gm_ConditionID m, mk_Slug = gm_Slug m, mk_Question = gm_Question m,
              mk_ConditionID = gm_ConditionID m, mk_TokenIDs = or_nil (parseStringArray P (gm_ClobTokenIDsRaw m)),
              mk_Outcomes = or_nil (parseStringArray P (gm_OutcomesJSON m)), mk_Categories = [],
              mk_EventSlug = (case ev of None \<Rightarrow> '''' | Some e \<Rightarrow> gr_Slug e),
              mk_EventTitle = (case ev of None \<Rightarrow> '''' | Some e \<Rightarrow> gr_Title e),
              mk_Active = gm_Active m, mk_Closed = gm_Closed m, mk_StartDate = or_zero (parseTime P (gm_StartDate m)),
              mk_EndDate = or_zero (parseTime P (gm_EndDate m)), mk_Volume = gm_Volume m, mk_Volume24h = gm_Volume24h m,
              mk_Liquidity = gm_Liquidity m\<rparr>))"

subsection \<open>The pagers\<close>

definition MaxListOffset :: int where "MaxListOffset = 10000"

definition gamma_pageSize :: int where "gamma_pageSize = 100"

definition isOffsetCapError :: "http_error \<Rightarrow> bool" where
  "isOffsetCapError e = (case e of
       APIError url st body \<Rightarrow> (st = 422 \<or> st = 400) \<and> Contains body ''offset exceeds maximum''
     | _ \<Rightarrow> False)"

record ListMarketsOpts =
  lm_ActiveOnly :: bool
  lm_OrderBy :: string
  lm_MaxRows :: int

type_synonym gamma_query = "(string \<times> string) list"
type_synonym 'a gamma_get = "gamma_query \<Rightarrow> http_error + 'a list"

definition tags_query :: "int \<Rightarrow> gamma_query" where
  "tags_query offset = [(''limit'', fmt_d gamma_pageSize), (''offset'', fmt_d offset)]"

definition list_query :: "ListMarketsOpts \<Rightarrow> int \<Rightarrow> gamma_query" where
  "list_query opts offset =
     [(''limit'', fmt_d gamma_pageSize), (''offset'', fmt_d offset), (''closed'', ''false'')] @
     (if lm_ActiveOnly opts then [(''active'', ''true'')] else []) @
     (if lm_OrderBy opts \<noteq> '''' then [(''order'', lm_OrderBy opts), (''ascending'', ''false'')] else [])"

text \<open>
  The loop of a pager from \<open>offset\<close> on. \<open>step\<close> takes the rows of a page and says whether to stop with
  them; a short page, the cap and an error that announces the cap stop as well.
\<close>

function page_walk :: "'a gamma_get \<Rightarrow> (int \<Rightarrow> gamma_query) \<Rightarrow> string \<Rightarrow> ('b list \<Rightarrow> 'a list \<Rightarrow> 'b list \<times> bool) \<Rightarrow> int
    \<Rightarrow> 'b list \<Rightarrow> string + 'b list" where
  "page_walk get q what step offset out =
     (if MaxListOffset \<le> offset then Inr out
      else case get (q offset) of
             Inl e \<Rightarrow> if isOffsetCapError e then Inr out
                      else Inl (''gamma '' @ what @ '' page offset='' @ fmt_d offset @ '': '' @ err_Error e)
           | Inr page \<Rightarrow>
               (case step out page of
                  (out, stop) \<Rightarrow>
                    if stop \<or> int (length page) < gamma_pageSize then Inr out
                    else page_walk get q what step (offset + gamma_pageSize) out))"
  by pat_completeness auto
termination by (relation "measure (\<lambda>(get, q, what, step, offset, out). nat (MaxListOffset - offset))")
    (auto simp: MaxListOffset_def gamma_pageSize_def)

declare page_walk.simps [simp del]

definition to_category :: "gammaTag \<Rightarrow> Category" where
  "to_category t = \<lparr>ct_ID = gt_ID t, ct_Slug = gt_Slug t, ct_Label = gt_Label t\<rparr>"

definition ListTags :: "gammaTag gamma_get \<Rightarrow> string + Category list" where
  "ListTags get = page_walk get tags_query ''tags'' (\<lambda>out page. (out @ map to_category page, False)) 0 []"

fun add_markets :: "gamma_parse \<Rightarrow> int \<Rightarrow> Market list \<Rightarrow> gammaMarket list \<Rightarrow> Market list \<times> bool" where
  "add_markets P maxRows out [] = (out, False)"
| "add_markets P maxRows out (m # ms) =
     (case mapMarket P m of
        Inl e \<Rightarrow> add_markets P maxRows out ms
      | Inr dm \<Rightarrow>
          (let out = out @ [dm]
           in if 0 < maxRows \<and> maxRows \<le> int (length out) then (out, True) else add_markets P maxRows out ms))"

definition ListMarkets :: "gamma_parse \<Rightarrow> gammaMarket gamma_get \<Rightarrow> ListMarketsOpts \<Rightarrow> string + Market list" where
  "ListMarkets P get opts = page_walk get (list_query opts) ''markets'' (add_markets P (lm_MaxRows opts)) 0 []"

definition ListEvents :: "gammaEvent gamma_get \<Rightarrow> ListMarketsOpts \<Rightarrow> string + gammaEvent list" where
  "ListEvents get opts =
     page_walk get (list_query opts) ''events''
       (\<lambda>out page. (out @ page, 0 < lm_MaxRows opts \<and> lm_MaxRows opts \<le> int (length (out @ page)))) 0 []"

text \<open>Categories by market: the tags of every event that carries it, in the order of the events.\<close>

definition add_event :: "(string \<rightharpoonup> int list) \<Rightarrow> gammaEvent \<Rightarrow> (string \<rightharpoonup> int list)" where
  "add_event mp e =
     foldl (\<lambda>mp m. if gm_ConditionID m = '''' then mp
                   else mp(gm_ConditionID m \<mapsto> or_nil (mp (gm_ConditionID m)) @ map gt_ID (ge_Tags e)))
       mp (ge_Markets e)"

definition MapEventsToMarketCategories :: "gammaEvent list \<Rightarrow> (string \<rightharpoonup> int list)" where
  "MapEventsToMarketCategories events = foldl add_event Map.empty events"

subsection \<open>Resolutions\<close>

record MarketResolution =
  re_ConditionID :: string
  re_Closed :: bool
  re_Archived :: bool
  re_EndDate :: time
  re_TokenIDs :: "string list"
  re_OutcomeLabels :: "string list"
  re_OutcomePrices :: "float64 list"

text \<open>\<open>Inr None\<close> is a market that Gamma does not return.\<close>

definition GetMarketResolution :: "gamma_parse \<Rightarrow> gammaMarket gamma_get \<Rightarrow> string \<Rightarrow> string + MarketResolution option" where
  "GetMarketResolution P get conditionID =
     (if conditionID = '''' then Inl ''gamma: conditionId required''
      else case get [(''condition_ids'', conditionID), (''limit'', ''1'')] of
             Inl e \<Rightarrow> Inl (''gamma markets resolution '' @ conditionID @ '': '' @ err_Error e)
           | Inr [] \<Rightarrow> Inr None
           | Inr (raw # _) \<Rightarrow>
               Inr (Some \<lparr>re_ConditionID = gm_ConditionID raw, re_Closed = gm_Closed raw, re_Archived = gm_Archived raw,
                 re_EndDate = or_zero (parseTime P (gm_EndDate raw)),
                 re_TokenIDs = or_nil (parseStringArray P (gm_ClobTokenIDsRaw raw)),
                 re_OutcomeLabels = or_nil (parseStringArray P (gm_OutcomesJSON raw)),
                 re_OutcomePrices = or_nil (parseFloatArray P (gm_OutcomePricesRaw raw))\<rparr>))"

subsection \<open>Ids round trip\<close>

lemma i64_cong: "i64 (i64 a * 10 + d) = i64 (a * 10 + d)" "i64 (i64 a + d) = i64 (a + d)" "i64 (- i64 a) = i64 (- a)"
proof -
  have eq: "i64 x = i64 y" if "2 ^ 64 dvd x - y" for x y :: int
  proof -
    have "2 ^ 64 dvd (x + 2 ^ 63) - (y + 2 ^ 63)" using that by simp
    then show ?thesis unfolding i64_def by (simp only: mod_eq_dvd_iff [symmetric])
  qed
  have "i64 a - a = - (2 ^ 64 * ((a + 2 ^ 63) div 2 ^ 64))"
    unfolding i64_def using minus_mod_eq_mult_div [of "a + 2 ^ 63" "2 ^ 64"] by linarith
  then have d: "2 ^ 64 dvd i64 a - a" by simp
  have "i64 a * 10 + d - (a * 10 + d) = (i64 a - a) * 10" "i64 a + d - (a + d) = i64 a - a" "- i64 a - - a = - (i64 a - a)"
    by simp_all
  then show "i64 (i64 a * 10 + d) = i64 (a * 10 + d)" "i64 (i64 a + d) = i64 (a + d)" "i64 (- i64 a) = i64 (- a)"
    using d by (metis eq dvd_mult2, metis eq, metis eq dvd_minus_iff)
qed

lemma i64_fix: "i64 n = n \<longleftrightarrow> - (2 ^ 63) \<le> n \<and> n < 2 ^ 63"
proof -
  have "0 \<le> (n + 2 ^ 63) mod 2 ^ 64" "(n + 2 ^ 63) mod 2 ^ 64 < 2 ^ 64" "(2 :: int) ^ 64 = 2 * 2 ^ 63" by simp_all
  then have "- (2 ^ 63) \<le> i64 n \<and> i64 n < 2 ^ 63" unfolding i64_def by (intro conjI) linarith+
  then show ?thesis using i64_id by metis
qed

lemma digit_code: "d < 10 \<Longrightarrow> of_char (digit d) = 48 + d"
  by (simp add: digit_def of_char_of)

lemma flex_digits_value:
  assumes "\<forall>c \<in> set s. \<exists>d < 10. c = digit d"
  shows "flex_digits raw s (i64 n) = Inr (i64 (foldl (\<lambda>a c. a * 10 + int (undigit c)) n s))"
  using assms
proof (induction s arbitrary: n)
  case (Cons c s)
  then obtain d where d: "d < 10" "c = digit d" by auto
  then have u: "(of_char (digit d) :: int) = 48 + int d"
    using digit_code [OF d(1)] by (metis of_nat_of_char of_nat_add of_nat_numeral)
  have "i64 (i64 (i64 n * 10) + int d) = i64 (n * 10 + int d)"
    using i64_cong(2) [of "i64 n * 10" "int d"] i64_cong(1) [of n "int d"] by simp
  then show ?case using Cons d by (simp add: u undigit_digit)
qed simp

lemma undigits_int: "foldl (\<lambda>a c. a * 10 + int (undigit c)) (int n) s = int (foldl (\<lambda>a c. 10 * a + undigit c) n s)"
proof (induction s arbitrary: n)
  case (Cons c s)
  have "int n * 10 + int (undigit c) = int (10 * n + undigit c)" by simp
  then show ?case using Cons.IH [of "10 * n + undigit c"] by (simp only: foldl_Cons)
qed simp

lemma flex_digits_digits: "flex_digits raw (digits n) 0 = Inr (i64 (int n))"
proof -
  have "i64 0 = 0" by (simp add: i64_def)
  then show ?thesis
    using flex_digits_value [of "digits n" raw 0] digits_chars [of _ n] undigits_int [of 0 "digits n"] undigits_digits [of n]
    by (auto simp: undigits_def)
qed

lemma fmt_d_chars: "c \<in> set (fmt_d n) \<Longrightarrow> c = CHR ''-'' \<or> (\<exists>d < 10. c = digit d)"
  using digits_chars by (auto simp: fmt_d_def split: if_splits)

lemma digit_ne: "d < 10 \<Longrightarrow> CHR 0x22 \<noteq> digit d" "d < 10 \<Longrightarrow> CHR ''n'' \<noteq> digit d"
proof -
  assume "d < 10"
  have c: "c \<noteq> digit d" if "(of_char c :: nat) \<noteq> 48 + d" for c
    using that digit_code [OF \<open>d < 10\<close>] by (metis (no_types))
  show "CHR 0x22 \<noteq> digit d" by (rule c) simp
  show "CHR ''n'' \<noteq> digit d" using \<open>d < 10\<close> by (intro c) simp
qed

lemma fmt_d_hd: "fmt_d n \<noteq> [] \<and> hd (fmt_d n) \<noteq> CHR 0x22 \<and> fmt_d n \<noteq> ''null'' \<and> fmt_d n \<noteq> [CHR 0x22]"
proof -
  have q: "CHR 0x22 \<notin> set (fmt_d n)" "CHR ''n'' \<notin> set (fmt_d n)"
    using fmt_d_chars [of "CHR 0x22" n] fmt_d_chars [of "CHR ''n''" n] digit_ne by auto
  have "fmt_d n \<noteq> []" by (simp add: fmt_d_def digits_nonempty)
  then have "hd (fmt_d n) \<in> set (fmt_d n)" by simp
  with q show ?thesis by auto
qed

lemma flex_bare: "flex_UnmarshalJSON f (fmt_d n) = Some (Inr (i64 n))"
proof (cases "n < 0")
  case True
  then have "i64 (- i64 (int (nat (- n)))) = i64 n" by (simp add: i64_cong(3))
  then show ?thesis using True fmt_d_hd [of n]
    by (simp add: flex_UnmarshalJSON_def fmt_d_def flex_digits_digits Let_def)
next
  case False
  have h: "hd (digits (nat n)) \<noteq> CHR ''-''"
    using digits_nonempty [of "nat n"] digits_not_minus [of "nat n"] by (metis list.collapse)
  show ?thesis using False fmt_d_hd [of n] h
    by (simp add: flex_UnmarshalJSON_def fmt_d_def flex_digits_digits Let_def)
qed

lemma flex_quoted: "b \<noteq> [] \<Longrightarrow> hd b \<noteq> CHR 0x22 \<Longrightarrow> b \<noteq> ''null'' \<Longrightarrow>
    flex_UnmarshalJSON f (CHR 0x22 # b @ [CHR 0x22]) = flex_UnmarshalJSON f b"
  by (cases "b = [CHR 0x22]") (simp_all add: flex_UnmarshalJSON_def Let_def)

text \<open>C33. Ids survive the decoder: whatever the field held before, the decimal text of any integer, bare or as
  a JSON string, is read as that integer reduced to 64 bits - so every \<open>int64\<close> comes back unchanged, and
  an id beyond that range is changed without an error.\<close>

theorem flex_roundtrip:
  "flex_UnmarshalJSON f (fmt_d n) = Some (Inr (i64 n)) \<and>
   flex_UnmarshalJSON f (CHR 0x22 # fmt_d n @ [CHR 0x22]) = Some (Inr (i64 n)) \<and>
   (i64 n = n \<longleftrightarrow> - (2 ^ 63) \<le> n \<and> n < 2 ^ 63)"
  using fmt_d_hd flex_bare i64_fix by (simp add: flex_quoted)

subsection \<open>What the pagers return\<close>

definition capped :: "int \<Rightarrow> 'a list \<Rightarrow> 'a list" where
  "capped n xs = (if 0 < n then take (nat n) xs else xs)"

text \<open>An upstream that serves the list \<open>all\<close> in pages by offset, as far as the cap.\<close>

definition serves_pages :: "'a gamma_get \<Rightarrow> (int \<Rightarrow> gamma_query) \<Rightarrow> 'a list \<Rightarrow> bool" where
  "serves_pages get q rows \<longleftrightarrow> (\<forall>k < 100. get (q (int (100 * k))) = Inr (take 100 (drop (100 * k) rows)))"

text \<open>A step that collects \<open>F\<close> of the rows and stops at \<open>n\<close> of them.\<close>

definition collects :: "('b list \<Rightarrow> 'a list \<Rightarrow> 'b list \<times> bool) \<Rightarrow> int \<Rightarrow> ('a list \<Rightarrow> 'b list) \<Rightarrow> bool" where
  "collects step n F \<longleftrightarrow> F [] = [] \<and> (\<forall>xs ys. F (xs @ ys) = F xs @ F ys) \<and>
     (\<forall>out page. n \<le> 0 \<or> int (length out) < n \<longrightarrow>
        step out page = (capped n (out @ F page), 0 < n \<and> n \<le> int (length (out @ F page))))"

lemma page_walk_capped:
  assumes "serves_pages get q rows" "collects step n F" "n \<le> 0 \<or> int (length out) < n" "k \<le> 100"
  shows "page_walk get q what step (int (100 * k)) out = Inr (capped n (out @ F (drop (100 * k) (take 10000 rows))))"
  using assms(3,4)
proof (induction "100 - k" arbitrary: k out)
  case 0
  then have "k = 100" by simp
  then have "page_walk get q what step (int (100 * k)) out = Inr out"
    by (subst page_walk.simps) (simp add: MaxListOffset_def)
  moreover have "capped n out = out" using 0 by (auto simp: capped_def)
  ultimately show ?case using \<open>k = 100\<close> assms(2) by (simp add: collects_def)
next
  case (Suc m)
  then have k: "k < 100" by simp
  define page where "page = take 100 (drop (100 * k) rows)"
  define rest where "rest = drop (100 * Suc k) (take 10000 rows)"
  have g: "get (q (int (100 * k))) = Inr page" using assms(1) k by (simp add: serves_pages_def page_def)
  have split: "drop (100 * k) (take 10000 rows) = page @ rest"
  proof -
    have "drop (100 * k) (take 10000 rows) = take 100 (drop (100 * k) (take 10000 rows)) @ drop 100 (drop (100 * k) (take 10000 rows))"
      by (simp only: append_take_drop_id)
    moreover have "take 100 (drop (100 * k) (take 10000 rows)) = page"
      using k by (simp add: page_def drop_take take_take min_def)
    ultimately show ?thesis by (simp add: rest_def add.commute)
  qed
  have Fs: "F (page @ rest) = F page @ F rest" "F [] = []" using assms(2) by (auto simp: collects_def)
  let ?out = "out @ F page"
  have st: "step out page = (capped n ?out, 0 < n \<and> n \<le> int (length ?out))"
    using assms(2) Suc.prems(1) unfolding collects_def by blast
  have walk: "page_walk get q what step (int (100 * k)) out =
      (if 0 < n \<and> n \<le> int (length ?out) \<or> length page < 100 then Inr (capped n ?out)
       else page_walk get q what step (int (100 * Suc k)) (capped n ?out))"
    using k g st by (subst page_walk.simps) (simp add: MaxListOffset_def gamma_pageSize_def add.commute del: of_nat_mult)
  consider (stop) "0 < n" "n \<le> int (length ?out)" | (short) "length page < 100" | (more) "\<not> (0 < n \<and> n \<le> int (length ?out))" "\<not> length page < 100"
    by blast
  then show ?case
  proof cases
    case stop
    then have "capped n (?out @ F rest) = capped n ?out" by (simp add: capped_def)
    then show ?thesis unfolding walk split Fs(1) using stop by simp
  next
    case short
    then have "length rows \<le> 100 * k + 100" by (auto simp: page_def)
    then have "rest = []" by (simp add: rest_def)
    then show ?thesis unfolding walk split using short Fs(2) by simp
  next
    case more
    then have c: "capped n ?out = ?out" "n \<le> 0 \<or> int (length ?out) < n" by (auto simp: capped_def)
    have "page_walk get q what step (int (100 * Suc k)) ?out = Inr (capped n (?out @ F rest))"
      unfolding rest_def using Suc.hyps c(2) k by (intro Suc.hyps(1)) auto
    then show ?thesis unfolding walk split Fs(1) using more c(1) by (auto simp del: of_nat_mult)
  qed
qed

lemma collects_tags: "collects (\<lambda>out page. (out @ map to_category page, False)) 0 (map to_category)"
  by (simp add: collects_def capped_def)

definition mapped :: "gamma_parse \<Rightarrow> gammaMarket list \<Rightarrow> Market list" where
  "mapped P ms = map (\<lambda>m. projr (mapMarket P m)) (filter (\<lambda>m. gm_ConditionID m \<noteq> '''') ms)"

lemma add_markets_eq:
  "n \<le> 0 \<or> int (length out) < n \<Longrightarrow>
   add_markets P n out ms = (capped n (out @ mapped P ms), 0 < n \<and> n \<le> int (length (out @ mapped P ms)))"
proof (induction ms arbitrary: out)
  case Nil
  then show ?case by (auto simp: mapped_def capped_def)
next
  case (Cons m ms)
  show ?case
  proof (cases "mapMarket P m")
    case (Inl e)
    then have "gm_ConditionID m = ''''" by (simp add: mapMarket_def Let_def split: if_splits)
    then show ?thesis using Cons Inl by (simp add: mapped_def)
  next
    case (Inr dm)
    then have c: "gm_ConditionID m \<noteq> ''''" by (auto simp: mapMarket_def)
    then have mp: "mapped P (m # ms) = dm # mapped P ms" by (simp add: mapped_def Inr)
    show ?thesis
    proof (cases "0 < n \<and> n \<le> int (length (out @ [dm]))")
      case True
      with Cons.prems have "nat n = Suc (length out)" by simp
      with True show ?thesis by (simp add: Inr mp capped_def)
    next
      case False
      then have "n \<le> 0 \<or> int (length (out @ [dm])) < n" by auto
      from Cons.IH [OF this] False show ?thesis by (auto simp: Inr mp Let_def)
    qed
  qed
qed

lemma collects_markets: "collects (add_markets P n) n (mapped P)"
  by (simp add: collects_def add_markets_eq) (simp add: mapped_def)

text \<open>Paging: against an upstream that serves its rows by offset, ListTags returns every tag and ListMarkets
  every row with a condition id, mapped, both in upstream order and both as far as the offset cap of
  10000 rows, and ListMarkets exactly the first MaxRows of them when that is set.\<close>

theorem gamma_paging:
  assumes "serves_pages get_tags tags_query tags" "serves_pages get_markets (list_query opts) rows"
  shows "ListTags get_tags = Inr (map to_category (take 10000 tags)) \<and>
    ListMarkets P get_markets opts = Inr (capped (lm_MaxRows opts) (mapped P (take 10000 rows)))"
proof
  have "0 \<le> (0 :: int) \<or> int (length ([] :: Category list)) < 0" by simp
  from page_walk_capped [OF assms(1) collects_tags this, of 0 "''tags''"]
  show "ListTags get_tags = Inr (map to_category (take 10000 tags))" by (simp add: ListTags_def capped_def)
  have "lm_MaxRows opts \<le> 0 \<or> int (length ([] :: Market list)) < lm_MaxRows opts" by auto
  from page_walk_capped [OF assms(2) collects_markets this, of 0 "''markets''" P]
  show "ListMarkets P get_markets opts = Inr (capped (lm_MaxRows opts) (mapped P (take 10000 rows)))" by (simp add: ListMarkets_def)
qed

definition feed_pages :: "'a list \<Rightarrow> 'a gamma_get" where
  "feed_pages rows q = Inr (take 100 (drop (undigits (or_nil (map_of q ''offset''))) rows))"

definition tag_rows :: "gammaTag list" where
  "tag_rows = map (\<lambda>n. \<lparr>gt_ID = int n, gt_Slug = ''s'', gt_Label = ''l''\<rparr>) [0..<130]"

definition market_row_of :: "string \<Rightarrow> gammaMarket" where
  "market_row_of c = \<lparr>gm_ID = ''1'', gm_Slug = c, gm_Question = '''', gm_ConditionID = c, gm_OutcomesJSON = '''', gm_OutcomePricesRaw = '''',
     gm_ClobTokenIDsRaw = '''', gm_Active = True, gm_Closed = False, gm_Archived = False, gm_StartDate = '''', gm_EndDate = '''',
     gm_Volume = 0, gm_Volume24h = 0, gm_Liquidity = 0, gm_Events = []\<rparr>"

definition no_parse :: gamma_parse where
  "no_parse = \<lparr>gp_strings = (\<lambda>_. None), gp_time = (\<lambda>_. None), gp_float = (\<lambda>_. None)\<rparr>"

lemma serves_feed: "serves_pages (feed_pages rows) tags_query rows" "serves_pages (feed_pages rows) (list_query opts) rows"
proof -
  have "fmt_d (int (100 * k)) = digits (100 * k)" for k by (simp add: fmt_d_def nat_mult_distrib)
  then show "serves_pages (feed_pages rows) tags_query rows" "serves_pages (feed_pages rows) (list_query opts) rows"
    by (auto simp: serves_pages_def feed_pages_def tags_query_def list_query_def or_nil_def undigits_digits simp del: of_nat_mult)
qed

lemma gamma_paging_witness:
  "ListTags (feed_pages tag_rows) = Inr (map to_category tag_rows) \<and>
   ListMarkets no_parse (feed_pages [market_row_of ''0xa'', market_row_of '''', market_row_of ''0xb'', market_row_of ''0xc''])
     \<lparr>lm_ActiveOnly = True, lm_OrderBy = ''volume_24hr'', lm_MaxRows = 2\<rparr> =
     Inr (mapped no_parse [market_row_of ''0xa'', market_row_of ''0xb''])"
  using gamma_paging [OF serves_feed(1) [of tag_rows]
      serves_feed(2) [of "[market_row_of ''0xa'', market_row_of '''', market_row_of ''0xb'', market_row_of ''0xc'']"
        "\<lparr>lm_ActiveOnly = True, lm_OrderBy = ''volume_24hr'', lm_MaxRows = 2\<rparr>"], of no_parse]
  by (simp add: tag_rows_def capped_def mapped_def market_row_of_def)

end
