(* ===== verification/Outcomes.thy ===== *)
theory Outcomes
  imports AlertQueue Finding Gamma MarketTable TradeTable TelegramBot
begin

text \<open>
  What happens to an alert after it was sent: the outcome, drift and reaction columns of the table of
  alerts with their statements (\<open>alert_repository.go\<close>, \<open>db/queries/alerts.sql\<close>), the outcome worker with
  its reaction pass and the value measures (package outcomes), and the drift worker (package drift).
  The columns live beside the rows of AlertQueue, keyed by the row's id, so that the statements of
  the queue and those of the workers act on one table. Parameters: the JSON decoder of the stored
  finding, the clock readings, the tables of markets and trades at each tick, the answers of Gamma
  and Telegram, and the faults of the database. A tick may be cut short by the end of its context:
  \<open>live\<close> is the number of rows it still handles.
\<close>

subsection \<open>The columns\<close>

datatype OutcomeStatus = OutcomePending | OutcomeCorrect | OutcomeWrong | OutcomeUnknown | OutcomeUnavailable

datatype DriftStatus = DriftPending | DriftAvailable | DriftUnavailable

datatype ReactionStatus = ReactionPending | ReactionApplied | ReactionUnsupported | ReactionFailed | ReactionDisabled

record PostCols =
  px_OutcomeStatus :: OutcomeStatus
  px_OutcomeCheckedAt :: "time option"
  px_ResolvedAt :: "time option"
  px_WinningOutcomeToken :: "string option"
  px_WinningOutcomeLabel :: "string option"
  px_DriftStatus :: DriftStatus
  px_DriftCheckedAt :: "time option"
  px_Clv15m :: "float64 option"
  px_Clv1h :: "float64 option"
  px_Clv6h :: "float64 option"
  px_Clv24h :: "float64 option"
  px_ReactionStatus :: ReactionStatus
  px_ReactionEmoji :: "string option"
  px_LastReactionAt :: "time option"

text \<open>The defaults of the columns, which an insert leaves.\<close>

definition px_default :: PostCols where
  "px_default = \<lparr>px_OutcomeStatus = OutcomePending, px_OutcomeCheckedAt = None, px_ResolvedAt = None,
     px_WinningOutcomeToken = None, px_WinningOutcomeLabel = None, px_DriftStatus = DriftPending,
     px_DriftCheckedAt = None, px_Clv15m = None, px_Clv1h = None, px_Clv6h = None, px_Clv24h = None,
     px_ReactionStatus = ReactionPending, px_ReactionEmoji = None, px_LastReactionAt = None\<rparr>"

record PostTable =
  pt_alerts :: AlertTable
  pt_cols :: "int \<Rightarrow> PostCols"

definition pt_rows :: "PostTable \<Rightarrow> Alert list" where
  "pt_rows t = at_rows (pt_alerts t)"

text \<open>An UPDATE of the columns of the row with an id, which also stamps \<open>updated_at\<close>.\<close>

definition set_cols :: "time \<Rightarrow> int \<Rightarrow> (PostCols \<Rightarrow> PostCols) \<Rightarrow> PostTable \<Rightarrow> PostTable" where
  "set_cols now i f t =
     (if list_ex (\<lambda>r. al_ID r = i) (pt_rows t)
      then t\<lparr>pt_alerts := al_update (\<lambda>r. al_ID r = i) (\<lambda>r. r\<lparr>al_UpdatedAt := now\<rparr>) (pt_alerts t),
             pt_cols := (pt_cols t)(i := f (pt_cols t i))\<rparr>
      else t)"

subsection \<open>Statements of the outcome worker\<close>

record OutcomeUpdate =
  ou_AlertID :: int
  ou_Status :: OutcomeStatus
  ou_ResolvedAt :: time
  ou_WinningOutcomeToken :: string
  ou_WinningOutcomeLabel :: string

text \<open>\<open>ORDER BY key NULLS FIRST, id\<close>.\<close>

definition nulls_first :: "('a \<Rightarrow> time option) \<Rightarrow> ('a \<Rightarrow> int) \<Rightarrow> 'a list \<Rightarrow> 'a list" where
  "nulls_first key i rows =
     (let rows = sort_key i rows
      in filter (\<lambda>r. key r = None) rows @ sort_key (\<lambda>r. the (key r)) (filter (\<lambda>r. key r \<noteq> None) rows))"

text \<open>\<open>ORDER BY key DESC NULLS LAST, id\<close>.\<close>

definition desc_nulls_last :: "('a \<Rightarrow> time option) \<Rightarrow> ('a \<Rightarrow> int) \<Rightarrow> 'a list \<Rightarrow> 'a list" where
  "desc_nulls_last key i rows =
     (let rows = sort_key i rows
      in sort_key (\<lambda>r. - the (key r)) (filter (\<lambda>r. key r \<noteq> None) rows) @ filter (\<lambda>r. key r = None) rows)"

definition market_ended :: "time \<Rightarrow> MarketTable \<Rightarrow> int option \<Rightarrow> bool" where
  "market_ended now markets mid =
     (case mid of
        None \<Rightarrow> False
      | Some m \<Rightarrow>
          (case mt_find m markets of
             None \<Rightarrow> False
           | Some k \<Rightarrow> mr_Closed k \<or> (case mr_EndDate k of None \<Rightarrow> False | Some e \<Rightarrow> e \<le> now)))"

definition ListSentForOutcomeCheck :: "time \<Rightarrow> int \<Rightarrow> MarketTable \<Rightarrow> PostTable \<Rightarrow> Alert list" where
  "ListSentForOutcomeCheck now limit markets t =
     take (nat limit) (nulls_first (\<lambda>r. px_OutcomeCheckedAt (pt_cols t (al_ID r))) al_ID
       (filter (\<lambda>r. al_Status r = AlertSent \<and> px_OutcomeStatus (pt_cols t (al_ID r)) = OutcomePending \<and>
                    market_ended now markets (al_MarketID r)) (pt_rows t)))"

definition MarkOutcome :: "time \<Rightarrow> OutcomeUpdate \<Rightarrow> PostTable \<Rightarrow> PostTable" where
  "MarkOutcome now u =
     set_cols now (ou_AlertID u)
       (\<lambda>c. c\<lparr>px_OutcomeStatus := ou_Status u, px_OutcomeCheckedAt := Some now,
              px_ResolvedAt := tsFromTime (ou_ResolvedAt u),
              px_WinningOutcomeToken := strPtr (ou_WinningOutcomeToken u),
              px_WinningOutcomeLabel := strPtr (ou_WinningOutcomeLabel u)\<rparr>)"

definition TouchOutcomeUnavailable :: "time \<Rightarrow> int \<Rightarrow> PostTable \<Rightarrow> PostTable" where
  "TouchOutcomeUnavailable now i = set_cols now i (\<lambda>c. c\<lparr>px_OutcomeCheckedAt := Some now\<rparr>)"

definition ListAlertsForReaction :: "int \<Rightarrow> PostTable \<Rightarrow> Alert list" where
  "ListAlertsForReaction limit t =
     take (nat limit) (desc_nulls_last (\<lambda>r. px_ResolvedAt (pt_cols t (al_ID r))) al_ID
       (filter (\<lambda>r. al_Status r = AlertSent \<and> al_TelegramMessageID r \<noteq> None \<and>
                    px_OutcomeStatus (pt_cols t (al_ID r)) \<in> {OutcomeCorrect, OutcomeWrong, OutcomeUnknown} \<and>
                    px_ReactionStatus (pt_cols t (al_ID r)) \<in> {ReactionPending, ReactionFailed}) (pt_rows t)))"

definition MarkReaction :: "time \<Rightarrow> int \<Rightarrow> ReactionStatus \<Rightarrow> string \<Rightarrow> PostTable \<Rightarrow> PostTable" where
  "MarkReaction now i status emoji =
     set_cols now i
       (\<lambda>c. c\<lparr>px_ReactionStatus := status, px_ReactionEmoji := strPtr emoji,
              px_LastReactionAt := (if status = ReactionApplied then Some now else px_LastReactionAt c)\<rparr>)"

subsection \<open>Statements of the drift worker\<close>

record DriftUpdate =
  du_AlertID :: int
  du_Status :: DriftStatus
  du_CLV15m :: "float64 option"
  du_CLV1h :: "float64 option"
  du_CLV6h :: "float64 option"
  du_CLV24h :: "float64 option"

definition ListSentForDrift :: "time \<Rightarrow> duration \<Rightarrow> int \<Rightarrow> PostTable \<Rightarrow> Alert list" where
  "ListSentForDrift now minWindow limit t =
     take (nat limit) (sort_key (\<lambda>r. the (al_SentAt r)) (sort_key al_ID
       (filter (\<lambda>r. al_Status r = AlertSent \<and> px_DriftStatus (pt_cols t (al_ID r)) = DriftPending \<and>
                    (case al_SentAt r of None \<Rightarrow> False | Some s \<Rightarrow> s + minWindow \<le> now)) (pt_rows t))))"

definition MarkDrift :: "time \<Rightarrow> DriftUpdate \<Rightarrow> PostTable \<Rightarrow> PostTable" where
  "MarkDrift now u =
     set_cols now (du_AlertID u)
       (\<lambda>c. c\<lparr>px_DriftStatus := du_Status u, px_DriftCheckedAt := Some now, px_Clv15m := du_CLV15m u,
              px_Clv1h := du_CLV1h u, px_Clv6h := du_CLV6h u, px_Clv24h := du_CLV24h u\<rparr>)"

definition TradePriceAtOrAfter :: "TradeRow list \<Rightarrow> int \<Rightarrow> string \<Rightarrow> time \<Rightarrow> float64 option" where
  "TradePriceAtOrAfter trades marketID outcomeToken t =
     (case tsFromTime t of
        None \<Rightarrow> None
      | Some c \<Rightarrow>
          (case sort_key tx_TradedAt (filter (\<lambda>r. tx_MarketID r = marketID \<and> tx_OutcomeToken r = outcomeToken \<and>
                  c \<le> tx_TradedAt r) trades) of
             [] \<Rightarrow> None
           | r # _ \<Rightarrow> Some (tx_Price r)))"

subsection \<open>Proof of alert value\<close>

definition ImpliedProbability :: "float64 \<Rightarrow> string \<Rightarrow> float64" where
  "ImpliedProbability price side =
     (let price = (if price < 0 then 0 else price); price = (if 1 < price then 1 else price)
      in if side = ''SELL'' then 1 - price else price)"

definition RealizedEdge :: "OutcomeStatus \<Rightarrow> float64 \<Rightarrow> float64 option" where
  "RealizedEdge status impliedProb =
     (case status of
        OutcomeCorrect \<Rightarrow> Some (1 - impliedProb)
      | OutcomeWrong \<Rightarrow> Some (0 - impliedProb)
      | _ \<Rightarrow> None)"

definition CalibrationBucket :: "float64 \<Rightarrow> string" where
  "CalibrationBucket p =
     (if p < fl 0.10 then ''0-10'' else if p < fl 0.20 then ''10-20'' else if p < fl 0.30 then ''20-30''
      else if p < fl 0.40 then ''30-40'' else if p < fl 0.50 then ''40-50'' else if p < fl 0.70 then ''50-70''
      else ''70+'')"

definition SeverityWeight :: "string \<Rightarrow> float64" where
  "SeverityWeight severity =
     (if severity = ''info'' then 1 else if severity = ''warning'' then fl 3
      else if severity = ''critical'' then fl 10 else if severity = ''hard'' then fl 25 else 0)"

record PALSnapshot =
  pal_Edge :: float64
  pal_EdgeValid :: bool
  pal_ImpliedProb :: float64
  pal_SuccessBinary :: float64
  pal_Weight :: float64
  pal_Bucket :: string
  pal_Status :: OutcomeStatus
  pal_Severity :: string
  pal_Kind :: string

definition BuildSnapshot :: "OutcomeStatus \<Rightarrow> string \<Rightarrow> string \<Rightarrow> float64 \<Rightarrow> string \<Rightarrow> PALSnapshot" where
  "BuildSnapshot status severity kind price side =
     (let imp = ImpliedProbability price side;
          snap = \<lparr>pal_Edge = 0, pal_EdgeValid = False, pal_ImpliedProb = imp, pal_SuccessBinary = 0,
                  pal_Weight = SeverityWeight severity, pal_Bucket = CalibrationBucket imp, pal_Status = status,
                  pal_Severity = severity, pal_Kind = kind\<rparr>
      in case RealizedEdge status imp of
           None \<Rightarrow> snap
         | Some edge \<Rightarrow>
             (let snap = snap\<lparr>pal_Edge := edge, pal_EdgeValid := True\<rparr>
              in if status = OutcomeCorrect then snap\<lparr>pal_SuccessBinary := 1\<rparr> else snap))"

text \<open>
  What a snapshot adds to the metrics (\<open>ObservePAL\<close> of the wiring): the calibration counter of its
  bucket, verdict, severity and kind; for a resolved verdict also the observed edge, and, when the
  severity has a weight, that weight to the resolved total and to the success total.
\<close>

datatype pal_sample =
    CalibrationInc string OutcomeStatus string string
  | EdgeObserve string string float64
  | WeightedResolvedAdd string string float64
  | WeightedSuccessAdd string string float64

definition ObservePAL :: "PALSnapshot \<Rightarrow> pal_sample list" where
  "ObservePAL snap =
     (let sev = pal_Severity snap; kind = pal_Kind snap;
          out = [CalibrationInc (pal_Bucket snap) (pal_Status snap) sev kind]
      in if \<not> pal_EdgeValid snap then out
         else
           (let out = out @ [EdgeObserve sev kind (pal_Edge snap)];
                out = (if 0 < pal_Weight snap then out @ [WeightedResolvedAdd sev kind (pal_Weight snap)] else out)
            in if 0 < pal_Weight snap
               then out @ [WeightedSuccessAdd sev kind (pal_Weight snap * pal_SuccessBinary snap)] else out))"

subsection \<open>The outcome worker\<close>

record ReactionsConfig =
  rx_Enabled :: bool
  rx_ChatID :: string
  rx_SuccessEmoji :: string
  rx_FailureEmoji :: string
  rx_AmbiguousEmoji :: string
  rx_ClaimLimit :: int
  rx_BotWired :: bool
  rx_DisableAmbiguous :: bool

record out_Config =
  uc_ClaimLimit :: int
  uc_WinningPriceThreshold :: float64
  uc_Reactions :: ReactionsConfig

definition out_applyDefaults :: "out_Config \<Rightarrow> out_Config" where
  "out_applyDefaults c =
     (let c = (if uc_ClaimLimit c \<le> 0 then c\<lparr>uc_ClaimLimit := 64\<rparr> else c)
      in if uc_WinningPriceThreshold c \<le> 0 then c\<lparr>uc_WinningPriceThreshold := fl 0.99\<rparr> else c)"

text \<open>The surroundings of one tick.\<close>

record res_env =
  ue_now :: time
  ue_live :: nat
  ue_listFault :: "string option"
  ue_markFault :: "int \<Rightarrow> string option"
  ue_markets :: MarketTable
  ue_lookupFault :: "int \<Rightarrow> string option"
  ue_resolve :: "string \<Rightarrow> string + MarketResolution option"
  ue_reactListFault :: "string option"
  ue_reactMarkFault :: "int \<Rightarrow> string option"
  ue_react :: "string \<Rightarrow> int \<Rightarrow> string \<Rightarrow> tg_error option"

text \<open>What a tick shows to the outside: the outcome counter, the value metrics, a reaction call.\<close>

datatype post_event =
    EvOutcome OutcomeStatus string string
  | EvPAL PALSnapshot
  | EvReact int string string "tg_error option"

fun winning_loop :: "nat \<Rightarrow> float64 list \<Rightarrow> float64 \<Rightarrow> nat option" where
  "winning_loop i [] threshold = None"
| "winning_loop i (p # ps) threshold = (if threshold \<le> \<bar>p\<bar> then Some i else winning_loop (Suc i) ps threshold)"

definition winningOutcomeIndex :: "float64 list \<Rightarrow> float64 \<Rightarrow> nat option" where
  "winningOutcomeIndex prices threshold = winning_loop 0 prices threshold"

definition classify :: "(string \<Rightarrow> Finding option) \<Rightarrow> float64 \<Rightarrow> Alert \<Rightarrow> MarketResolution \<Rightarrow> OutcomeUpdate" where
  "classify decode threshold a res =
     (let update = \<lparr>ou_AlertID = al_ID a, ou_Status = OutcomePending, ou_ResolvedAt = re_EndDate res,
                    ou_WinningOutcomeToken = '''', ou_WinningOutcomeLabel = ''''\<rparr>
      in case winningOutcomeIndex (re_OutcomePrices res) threshold of
           None \<Rightarrow> update\<lparr>ou_Status := OutcomeUnknown\<rparr>
         | Some i \<Rightarrow>
             (let update = (if i < length (re_TokenIDs res)
                            then update\<lparr>ou_WinningOutcomeToken := re_TokenIDs res ! i\<rparr> else update);
                  update = (if i < length (re_OutcomeLabels res)
                            then update\<lparr>ou_WinningOutcomeLabel := re_OutcomeLabels res ! i\<rparr> else update)
              in case (case decode (al_Payload a) of None \<Rightarrow> None | Some f \<Rightarrow> fi_Trade f) of
                   None \<Rightarrow> update\<lparr>ou_Status := OutcomeUnknown\<rparr>
                 | Some t \<Rightarrow>
                     (let alertedLabel = tf_Outcome t; alertedSide = tf_Side t;
                          winningLabel = ou_WinningOutcomeLabel update
                      in if alertedLabel = '''' \<or> winningLabel = '''' then update\<lparr>ou_Status := OutcomeUnknown\<rparr>
                         else if alertedSide = ''BUY'' \<and> alertedLabel = winningLabel then update\<lparr>ou_Status := OutcomeCorrect\<rparr>
                         else if alertedSide = ''SELL'' \<and> alertedLabel \<noteq> winningLabel then update\<lparr>ou_Status := OutcomeCorrect\<rparr>
                         else update\<lparr>ou_Status := OutcomeWrong\<rparr>)))"

definition classifyWithTrade :: "(string \<Rightarrow> Finding option) \<Rightarrow> float64 \<Rightarrow> Alert \<Rightarrow> MarketResolution
    \<Rightarrow> OutcomeUpdate \<times> float64 \<times> string" where
  "classifyWithTrade decode threshold a res =
     (let verdict = classify decode threshold a res
      in case (case decode (al_Payload a) of None \<Rightarrow> None | Some f \<Rightarrow> fi_Trade f) of
           None \<Rightarrow> (verdict, 0, '''')
         | Some t \<Rightarrow> (verdict, tf_Price t, tf_Side t))"

definition unavailable :: "int \<Rightarrow> OutcomeUpdate" where
  "unavailable i = \<lparr>ou_AlertID = i, ou_Status = OutcomeUnavailable, ou_ResolvedAt = zero_time,
     ou_WinningOutcomeToken = '''', ou_WinningOutcomeLabel = ''''\<rparr>"

definition try_mark :: "res_env \<Rightarrow> int \<Rightarrow> (PostTable \<Rightarrow> PostTable) \<Rightarrow> PostTable \<Rightarrow> PostTable" where
  "try_mark e i mark t = (case ue_markFault e i of Some err \<Rightarrow> t | None \<Rightarrow> mark t)"

text \<open>The resolution of one alert: its update (\<open>None\<close> is a touch) and the events of the metrics.\<close>

definition resolveOne :: "(string \<Rightarrow> Finding option) \<Rightarrow> out_Config \<Rightarrow> res_env \<Rightarrow> Alert \<Rightarrow> OutcomeUpdate option \<times> post_event list" where
  "resolveOne decode c e a =
     (case al_MarketID a of
        None \<Rightarrow> (Some (unavailable (al_ID a)), [])
      | Some m \<Rightarrow>
          (case (if ue_lookupFault e m \<noteq> None then None else GetByID m (ue_markets e)) of
             None \<Rightarrow> (None, [])
           | Some market \<Rightarrow>
               (case ue_resolve e (dm_ConditionID market) of
                  Inl err \<Rightarrow> (None, [])
                | Inr None \<Rightarrow> (Some (unavailable (al_ID a)), [])
                | Inr (Some res) \<Rightarrow>
                    if \<not> re_Closed res then (None, [])
                    else
                      (case classifyWithTrade decode (uc_WinningPriceThreshold c) a res of
                         (verdict, price, side) \<Rightarrow>
                           (Some verdict,
                            EvOutcome (ou_Status verdict) (al_Severity a) (al_Kind a) #
                            (if 0 < price
                             then [EvPAL (BuildSnapshot (ou_Status verdict) (al_Severity a) (al_Kind a) price side)]
                             else []))))))"

definition out_processOne :: "(string \<Rightarrow> Finding option) \<Rightarrow> out_Config \<Rightarrow> res_env \<Rightarrow> Alert \<Rightarrow> PostTable \<Rightarrow> PostTable \<times> post_event list" where
  "out_processOne decode c e a t =
     (case resolveOne decode c e a of
        (None, evs) \<Rightarrow> (try_mark e (al_ID a) (TouchOutcomeUnavailable (ue_now e) (al_ID a)) t, evs)
      | (Some u, evs) \<Rightarrow> (try_mark e (al_ID a) (MarkOutcome (ue_now e) u) t, evs))"

definition emojiForOutcome :: "ReactionsConfig \<Rightarrow> OutcomeStatus \<Rightarrow> string" where
  "emojiForOutcome c status =
     (case status of
        OutcomeCorrect \<Rightarrow> rx_SuccessEmoji c
      | OutcomeWrong \<Rightarrow> rx_FailureEmoji c
      | OutcomeUnknown \<Rightarrow> if rx_DisableAmbiguous c then '''' else rx_AmbiguousEmoji c
      | _ \<Rightarrow> '''')"

text \<open>The state and emoji a reaction leaves on its row, and the call it makes.\<close>

definition reactOne :: "ReactionsConfig \<Rightarrow> res_env \<Rightarrow> Alert \<Rightarrow> OutcomeStatus \<Rightarrow> (ReactionStatus \<times> string) \<times> post_event list" where
  "reactOne c e a status =
     (case al_TelegramMessageID a of
        None \<Rightarrow> ((ReactionUnsupported, ''''), [])
      | Some m \<Rightarrow>
          if m = 0 then ((ReactionUnsupported, ''''), [])
          else
            (let emoji = emojiForOutcome c status
             in if emoji = '''' then ((ReactionDisabled, ''''), [])
                else
                  (let err = ue_react e (rx_ChatID c) m emoji
                   in case err of
                        None \<Rightarrow> ((ReactionApplied, emoji), [EvReact (al_ID a) (rx_ChatID c) emoji err])
                      | Some (ErrReactionUnsupported x) \<Rightarrow>
                          ((ReactionUnsupported, emoji), [EvReact (al_ID a) (rx_ChatID c) emoji err])
                      | Some _ \<Rightarrow> ((ReactionFailed, emoji), [EvReact (al_ID a) (rx_ChatID c) emoji err]))))"

text \<open>The outcome status is the one of the listed row.\<close>

definition applyReaction :: "ReactionsConfig \<Rightarrow> res_env \<Rightarrow> Alert \<times> OutcomeStatus \<Rightarrow> PostTable \<Rightarrow> PostTable \<times> post_event list" where
  "applyReaction c e as t =
     (case reactOne c e (fst as) (snd as) of
        ((status, emoji), evs) \<Rightarrow>
          (case ue_reactMarkFault e (al_ID (fst as)) of
             Some err \<Rightarrow> (t, evs)
           | None \<Rightarrow> (MarkReaction (ue_now e) (al_ID (fst as)) status emoji t, evs)))"

text \<open>A loop over listed rows, collecting the events.\<close>

fun post_loop :: "('a \<Rightarrow> PostTable \<Rightarrow> PostTable \<times> post_event list) \<Rightarrow> 'a list \<Rightarrow> PostTable \<Rightarrow> PostTable \<times> post_event list" where
  "post_loop f [] t = (t, [])"
| "post_loop f (a # as) t =
     (case f a t of (t, evs) \<Rightarrow> (case post_loop f as t of (t, evs') \<Rightarrow> (t, evs @ evs')))"

definition reactionPass :: "out_Config \<Rightarrow> res_env \<Rightarrow> PostTable \<Rightarrow> PostTable \<times> post_event list" where
  "reactionPass c e t =
     (let r = uc_Reactions c
      in if \<not> rx_Enabled r then (t, [])
         else if \<not> rx_BotWired r \<or> rx_ChatID r = '''' then (t, [])
         else
           (let limit = (if rx_ClaimLimit r \<le> 0 then uc_ClaimLimit c else rx_ClaimLimit r)
            in case ue_reactListFault e of
                 Some err \<Rightarrow> (t, [])
               | None \<Rightarrow>
                   post_loop (applyReaction r e)
                     (take (ue_live e) (map (\<lambda>a. (a, px_OutcomeStatus (pt_cols t (al_ID a)))) (ListAlertsForReaction limit t))) t))"

text \<open>A context that ends during the first loop ends the tick.\<close>

definition out_tick :: "(string \<Rightarrow> Finding option) \<Rightarrow> out_Config \<Rightarrow> res_env \<Rightarrow> PostTable \<Rightarrow> PostTable \<times> post_event list" where
  "out_tick decode c e t =
     (case ue_listFault e of
        Some err \<Rightarrow> (t, [])
      | None \<Rightarrow>
          (let candidates = ListSentForOutcomeCheck (ue_now e) (uc_ClaimLimit c) (ue_markets e) t
           in case post_loop (out_processOne decode c e) (take (ue_live e) candidates) t of
                (t, evs) \<Rightarrow>
                  if ue_live e < length candidates then (t, evs)
                  else (case reactionPass c e t of (t, evs') \<Rightarrow> (t, evs @ evs'))))"

subsection \<open>The drift worker\<close>

record drift_Config =
  dg_ClaimLimit :: int
  dg_LongestWindow :: duration

definition drift_applyDefaults :: "drift_Config \<Rightarrow> drift_Config" where
  "drift_applyDefaults c =
     (let c = (if dg_ClaimLimit c \<le> 0 then c\<lparr>dg_ClaimLimit := 64\<rparr> else c)
      in if dg_LongestWindow c \<le> 0 then c\<lparr>dg_LongestWindow := 24 * Hour\<rparr> else c)"

text \<open>\<open>de_clock i n\<close> is the \<open>n\<close>-th reading of the clock for alert \<open>i\<close>.\<close>

record drift_env =
  de_now :: time
  de_live :: nat
  de_listFault :: "string option"
  de_markFault :: "int \<Rightarrow> string option"
  de_priceFault :: "int \<Rightarrow> time \<Rightarrow> string option"
  de_trades :: "TradeRow list"
  de_clock :: "int \<Rightarrow> nat \<Rightarrow> time"

definition drift_windows :: "duration list" where
  "drift_windows = [15 * Minute, Hour, 6 * Hour, 24 * Hour]"

definition favorableDrift :: "string \<Rightarrow> float64 \<Rightarrow> float64 \<Rightarrow> float64" where
  "favorableDrift side tradePrice laterPrice =
     (if tradePrice \<le> 0 then 0
      else (let raw = (laterPrice - tradePrice) / tradePrice in if side = ''SELL'' then - raw else raw))"

definition drift_token :: "Finding \<Rightarrow> string" where
  "drift_token f =
     (case fi_Accumulation f of
        None \<Rightarrow> ''''
      | Some r \<Rightarrow> if ar_OutcomeToken r \<noteq> '''' then ar_OutcomeToken r else '''')"

definition decideStatus :: "time \<Rightarrow> time \<Rightarrow> nat \<Rightarrow> duration \<Rightarrow> DriftStatus" where
  "decideStatus now tradeAt available longest =
     (if 0 < available then DriftAvailable
      else if longest \<le> t_sub now tradeAt then DriftUnavailable else DriftPending)"

text \<open>The drift of one window; \<open>n\<close> is the index of the window.\<close>

definition window_drift :: "drift_env \<Rightarrow> Alert \<Rightarrow> int \<Rightarrow> string \<Rightarrow> TradeRef \<Rightarrow> nat \<Rightarrow> duration \<Rightarrow> float64 option" where
  "window_drift e a marketID token t n win =
     (if t_sub (de_clock e (al_ID a) n) (tf_At t) < win then None
      else case de_priceFault e marketID (tf_At t + win) of
             Some err \<Rightarrow> None
           | None \<Rightarrow>
               (case TradePriceAtOrAfter (de_trades e) marketID token (tf_At t + win) of
                  None \<Rightarrow> None
                | Some later \<Rightarrow>
                    if tf_Price t \<le> 0 then None
                    else Some (favorableDrift (tf_Side t) (tf_Price t) later)))"

definition drift_loop :: "drift_env \<Rightarrow> Alert \<Rightarrow> int \<Rightarrow> string \<Rightarrow> TradeRef \<Rightarrow> float64 option list" where
  "drift_loop e a marketID token t = map (\<lambda>(n, win). window_drift e a marketID token t n win) (enumerate 0 drift_windows)"

definition no_drift :: "int \<Rightarrow> DriftUpdate" where
  "no_drift i = \<lparr>du_AlertID = i, du_Status = DriftUnavailable, du_CLV15m = None, du_CLV1h = None, du_CLV6h = None,
     du_CLV24h = None\<rparr>"

definition driftOne :: "(string \<Rightarrow> Finding option) \<Rightarrow> drift_Config \<Rightarrow> drift_env \<Rightarrow> Alert \<Rightarrow> DriftUpdate" where
  "driftOne decode c e a =
     (case al_MarketID a of
        None \<Rightarrow> no_drift (al_ID a)
      | Some m \<Rightarrow>
          (case decode (al_Payload a) of
             None \<Rightarrow> no_drift (al_ID a)
           | Some f \<Rightarrow>
               (case fi_Trade f of
                  None \<Rightarrow> no_drift (al_ID a)
                | Some t \<Rightarrow>
                    if drift_token f = '''' then no_drift (al_ID a)
                    else
                      (let clv = drift_loop e a m (drift_token f) t;
                           available = length (filter (\<lambda>v. v \<noteq> None) clv)
                       in \<lparr>du_AlertID = al_ID a,
                           du_Status = decideStatus (de_clock e (al_ID a) 4) (tf_At t) available (dg_LongestWindow c),
                           du_CLV15m = clv ! 0, du_CLV1h = clv ! 1, du_CLV6h = clv ! 2, du_CLV24h = clv ! 3\<rparr>))))"

definition drift_processOne :: "(string \<Rightarrow> Finding option) \<Rightarrow> drift_Config \<Rightarrow> drift_env \<Rightarrow> Alert \<Rightarrow> PostTable \<Rightarrow> PostTable" where
  "drift_processOne decode c e a t =
     (case de_markFault e (al_ID a) of Some err \<Rightarrow> t | None \<Rightarrow> MarkDrift (de_now e) (driftOne decode c e a) t)"

definition drift_tick :: "(string \<Rightarrow> Finding option) \<Rightarrow> drift_Config \<Rightarrow> drift_env \<Rightarrow> PostTable \<Rightarrow> PostTable" where
  "drift_tick decode c e t =
     (case de_listFault e of
        Some err \<Rightarrow> t
      | None \<Rightarrow>
          fst (post_loop (\<lambda>a t. (drift_processOne decode c e a t, []))
                 (take (de_live e) (ListSentForDrift (de_now e) (15 * Minute) (dg_ClaimLimit c) t)) t))"

subsection \<open>Runs\<close>

text \<open>The detector and the sender run statements of the queue; the two workers tick.\<close>

datatype queue_stmt =
    QCreate time NewAlert
  | QClaim time nat "int set"
  | QSent time int int
  | QFailed time int string time
  | QReset time time

fun queue_step :: "queue_stmt \<Rightarrow> AlertTable \<Rightarrow> AlertTable" where
  "queue_step (QCreate now a) t = fst (TryCreatePending now a t)"
| "queue_step (QClaim now limit locked) t = fst (ClaimPending now limit locked t)"
| "queue_step (QSent now i m) t = MarkSent now i m t"
| "queue_step (QFailed now i err next_at) t = MarkFailed now i err next_at t"
| "queue_step (QReset now cutoff) t = ResetStaleSending now cutoff t"

datatype post_stmt =
    Queue queue_stmt
  | Outcome out_Config res_env
  | Drift drift_Config drift_env

fun post_step :: "(string \<Rightarrow> Finding option) \<Rightarrow> PostTable \<Rightarrow> post_stmt \<Rightarrow> PostTable" where
  "post_step decode t (Queue q) = t\<lparr>pt_alerts := queue_step q (pt_alerts t)\<rparr>"
| "post_step decode t (Outcome c e) = fst (out_tick decode (out_applyDefaults c) e t)"
| "post_step decode t (Drift c e) = drift_tick decode (drift_applyDefaults c) e t"

definition post_run :: "(string \<Rightarrow> Finding option) \<Rightarrow> post_stmt list \<Rightarrow> PostTable \<Rightarrow> PostTable" where
  "post_run decode steps t = foldl (post_step decode) t steps"

definition post_empty :: PostTable where
  "post_empty = \<lparr>pt_alerts = \<lparr>at_rows = [], at_next = 1\<rparr>, pt_cols = (\<lambda>i. px_default)\<rparr>"

subsection \<open>Statements touch one row\<close>

text \<open>What the statements of the columns leave alone: everything of an alert but \<open>updated_at\<close>.\<close>

definition post_core :: "PostTable \<Rightarrow> Alert list" where
  "post_core t = map (\<lambda>r. r\<lparr>al_UpdatedAt := 0\<rparr>) (pt_rows t)"

lemma post_core_ids: "post_core t' = post_core t \<Longrightarrow> map al_ID (pt_rows t') = map al_ID (pt_rows t)"
proof -
  have "map al_ID (pt_rows t) = map al_ID (post_core t)" for t
    by (simp add: post_core_def)
  then show "post_core t' = post_core t \<Longrightarrow> ?thesis" by metis
qed

lemma set_cols_core [simp]: "post_core (set_cols now i f t) = post_core t"
  by (auto simp: post_core_def pt_rows_def set_cols_def al_update_def)

lemma set_cols_other [simp]: "j \<noteq> i \<Longrightarrow> pt_cols (set_cols now i f t) j = pt_cols t j"
  by (simp add: set_cols_def)

lemma set_cols_same:
  "pt_cols (set_cols now i f t) i = (if i \<in> al_ID ` set (pt_rows t) then f (pt_cols t i) else pt_cols t i)"
  by (auto simp: set_cols_def list_ex_iff)

lemma set_cols_inv [wt_inv]: "al_inv (pt_alerts t) \<Longrightarrow> al_inv (pt_alerts (set_cols now i f t))"
  by (auto simp: set_cols_def intro!: al_inv_update)

lemma post_core_Marks [simp]:
  "post_core (MarkOutcome now u t) = post_core t" "post_core (TouchOutcomeUnavailable now i t) = post_core t"
  "post_core (MarkReaction now i s em t) = post_core t" "post_core (MarkDrift now d t) = post_core t"
  by (simp_all add: MarkOutcome_def TouchOutcomeUnavailable_def MarkReaction_def MarkDrift_def)

lemma Marks_inv [wt_inv]:
  assumes "al_inv (pt_alerts t)"
  shows "al_inv (pt_alerts (MarkOutcome now u t))" "al_inv (pt_alerts (TouchOutcomeUnavailable now i t))"
    "al_inv (pt_alerts (MarkReaction now i s em t))" "al_inv (pt_alerts (MarkDrift now d t))"
  using assms by (simp_all add: MarkOutcome_def TouchOutcomeUnavailable_def MarkReaction_def MarkDrift_def set_cols_inv)

subsection \<open>Verdicts are final\<close>

definition outcome_kept :: "PostCols \<Rightarrow> PostCols \<Rightarrow> bool" where
  "outcome_kept c c' \<longleftrightarrow> px_OutcomeStatus c = OutcomePending \<or>
     (px_OutcomeStatus c' = px_OutcomeStatus c \<and> px_ResolvedAt c' = px_ResolvedAt c \<and>
      px_WinningOutcomeToken c' = px_WinningOutcomeToken c \<and> px_WinningOutcomeLabel c' = px_WinningOutcomeLabel c)"

definition drift_kept :: "PostCols \<Rightarrow> PostCols \<Rightarrow> bool" where
  "drift_kept c c' \<longleftrightarrow> px_DriftStatus c = DriftPending \<or>
     (px_DriftStatus c' = px_DriftStatus c \<and> px_Clv15m c' = px_Clv15m c \<and> px_Clv1h c' = px_Clv1h c \<and>
      px_Clv6h c' = px_Clv6h c \<and> px_Clv24h c' = px_Clv24h c)"

definition reaction_kept :: "PostCols \<Rightarrow> PostCols \<Rightarrow> bool" where
  "reaction_kept c c' \<longleftrightarrow> px_ReactionStatus c \<in> {ReactionPending, ReactionFailed} \<or>
     (px_ReactionStatus c' = px_ReactionStatus c \<and> px_ReactionEmoji c' = px_ReactionEmoji c \<and>
      px_LastReactionAt c' = px_LastReactionAt c)"

definition cols_le :: "PostCols \<Rightarrow> PostCols \<Rightarrow> bool" where
  "cols_le c c' \<longleftrightarrow> outcome_kept c c' \<and> drift_kept c c' \<and> reaction_kept c c'"

lemmas kept_defs = cols_le_def outcome_kept_def drift_kept_def reaction_kept_def

lemma cols_le_refl [simp]: "cols_le c c"
  by (simp add: kept_defs)

lemma cols_le_trans: "cols_le a b \<Longrightarrow> cols_le b c \<Longrightarrow> cols_le a c"
  unfolding kept_defs by (elim conjE disjE) simp_all

text \<open>The loops handle distinct rows, each still open when it is listed and when it is handled.\<close>

lemma post_loop_le:
  assumes "\<And>a t. a \<in> set as \<Longrightarrow> P (pt_cols t (k a)) \<Longrightarrow> cols_le (pt_cols t (k a)) (pt_cols (fst (f a t)) (k a))"
    and "\<And>a t i. i \<noteq> k a \<Longrightarrow> pt_cols (fst (f a t)) i = pt_cols t i"
    and "distinct (map k as)" "list_all (\<lambda>a. P (pt_cols t (k a))) as"
  shows "cols_le (pt_cols t i) (pt_cols (fst (post_loop f as t)) i)"
  using assms
proof (induction as arbitrary: t)
  case (Cons a as)
  let ?t = "fst (f a t)"
  have "list_all (\<lambda>b. P (pt_cols ?t (k b))) as"
    using Cons.prems(2,3,4) by (auto simp: list_all_iff image_iff)
  then have "cols_le (pt_cols ?t i) (pt_cols (fst (post_loop f as ?t)) i)"
    using Cons.prems(1,2,3) by (intro Cons.IH) auto
  moreover have "cols_le (pt_cols t i) (pt_cols ?t i)"
    using Cons.prems(1) [of a t] Cons.prems(2) [of i a t] Cons.prems(4) by (cases "i = k a") simp_all
  ultimately show ?case
    using cols_le_trans by (auto split: prod.splits)
qed simp

lemma post_loop_keeps:
  assumes "\<And>a t. a \<in> set as \<Longrightarrow> Q t \<Longrightarrow> Q (fst (f a t))" "Q t"
  shows "Q (fst (post_loop f as t))"
  using assms
proof (induction as arbitrary: t)
  case (Cons a as)
  have "Q (fst (f a t))" using Cons.prems by simp
  then have "Q (fst (post_loop f as (fst (f a t))))" using Cons.prems(1) by (intro Cons.IH) simp_all
  then show ?case by (auto split: prod.splits)
qed simp

text \<open>The listings.\<close>

lemma mset_nulls_first [simp]: "mset (nulls_first key i rows) = mset rows"
proof -
  have "mset (filter P rows) + mset (filter (\<lambda>x. \<not> P x) rows) = mset rows" for P and rows :: "'a list"
    by (induction rows) auto
  from this [of "\<lambda>r. key r = None" "sort_key i rows"] show ?thesis by (simp add: nulls_first_def Let_def)
qed

lemma mset_desc_nulls_last [simp]: "mset (desc_nulls_last key i rows) = mset rows"
proof -
  have "mset (filter P rows) + mset (filter (\<lambda>x. \<not> P x) rows) = mset rows" for P and rows :: "'a list"
    by (induction rows) auto
  from this [of "\<lambda>r. key r \<noteq> None" "sort_key i rows"] show ?thesis by (simp add: desc_nulls_last_def Let_def)
qed

lemma listing:
  assumes "mset xs = mset (filter P (pt_rows t))" "al_inv (pt_alerts t)"
  shows "distinct (map al_ID (take n xs)) \<and> list_all (\<lambda>r. P r \<and> r \<in> set (pt_rows t)) (take n xs)"
proof -
  have "distinct (map al_ID (filter P (pt_rows t)))"
    using assms(2) by (simp add: al_inv_def pt_rows_def distinct_map_filter)
  then have "distinct (map al_ID xs)"
    using assms(1) by (metis mset_eq_imp_distinct_iff mset_map)
  moreover have "set xs \<subseteq> {r \<in> set (pt_rows t). P r}"
    using mset_eq_setD [OF assms(1)] by auto
  ultimately show ?thesis using set_take_subset [of n xs] by (auto simp: take_map [symmetric] list_all_iff)
qed

lemma listed_outcome:
  assumes "al_inv (pt_alerts t)"
  shows "distinct (map al_ID (take n (ListSentForOutcomeCheck now limit markets t))) \<and>
    list_all (\<lambda>r. px_OutcomeStatus (pt_cols t (al_ID r)) = OutcomePending \<and> r \<in> set (pt_rows t))
      (take n (ListSentForOutcomeCheck now limit markets t))"
proof -
  let ?P = "\<lambda>r. al_Status r = AlertSent \<and> px_OutcomeStatus (pt_cols t (al_ID r)) = OutcomePending \<and>
      market_ended now markets (al_MarketID r)"
  let ?xs = "nulls_first (\<lambda>r. px_OutcomeCheckedAt (pt_cols t (al_ID r))) al_ID (filter ?P (pt_rows t))"
  have "distinct (map al_ID (take (min n (nat limit)) ?xs)) \<and> list_all (\<lambda>r. ?P r \<and> r \<in> set (pt_rows t)) (take (min n (nat limit)) ?xs)"
    by (rule listing [OF mset_nulls_first assms])
  then show ?thesis unfolding ListSentForOutcomeCheck_def take_take
    by (elim conjE) (intro conjI, assumption, erule list.pred_mono_strong, simp)
qed

lemma listed_reaction:
  assumes "al_inv (pt_alerts t)"
  shows "distinct (map al_ID (take n (ListAlertsForReaction limit t))) \<and>
    list_all (\<lambda>r. px_ReactionStatus (pt_cols t (al_ID r)) \<in> {ReactionPending, ReactionFailed} \<and>
        al_Status r = AlertSent \<and> r \<in> set (pt_rows t))
      (take n (ListAlertsForReaction limit t))"
proof -
  let ?P = "\<lambda>r. al_Status r = AlertSent \<and> al_TelegramMessageID r \<noteq> None \<and>
      px_OutcomeStatus (pt_cols t (al_ID r)) \<in> {OutcomeCorrect, OutcomeWrong, OutcomeUnknown} \<and>
      px_ReactionStatus (pt_cols t (al_ID r)) \<in> {ReactionPending, ReactionFailed}"
  let ?xs = "desc_nulls_last (\<lambda>r. px_ResolvedAt (pt_cols t (al_ID r))) al_ID (filter ?P (pt_rows t))"
  have "distinct (map al_ID (take (min n (nat limit)) ?xs)) \<and> list_all (\<lambda>r. ?P r \<and> r \<in> set (pt_rows t)) (take (min n (nat limit)) ?xs)"
    by (rule listing [OF mset_desc_nulls_last assms])
  then show ?thesis unfolding ListAlertsForReaction_def take_take
    by (elim conjE) (intro conjI, assumption, erule list.pred_mono_strong, simp)
qed

lemma listed_drift:
  assumes "al_inv (pt_alerts t)"
  shows "distinct (map al_ID (take n (ListSentForDrift now w limit t))) \<and>
    list_all (\<lambda>r. px_DriftStatus (pt_cols t (al_ID r)) = DriftPending \<and> r \<in> set (pt_rows t))
      (take n (ListSentForDrift now w limit t))"
proof -
  let ?P = "\<lambda>r. al_Status r = AlertSent \<and> px_DriftStatus (pt_cols t (al_ID r)) = DriftPending \<and>
      (case al_SentAt r of None \<Rightarrow> False | Some s \<Rightarrow> s + w \<le> now)"
  let ?xs = "sort_key (\<lambda>r. the (al_SentAt r)) (sort_key al_ID (filter ?P (pt_rows t)))"
  have "distinct (map al_ID (take (min n (nat limit)) ?xs)) \<and> list_all (\<lambda>r. ?P r \<and> r \<in> set (pt_rows t)) (take (min n (nat limit)) ?xs)"
    by (rule listing [OF _ assms]) simp
  then show ?thesis unfolding ListSentForDrift_def take_take
    by (elim conjE) (intro conjI, assumption, erule list.pred_mono_strong, simp)
qed

text \<open>Each worker step changes the columns of its own row, and only in its part.\<close>

lemma resolve_id: "resolveOne decode c e a = (Some u, evs) \<Longrightarrow> ou_AlertID u = al_ID a"
  by (auto simp: resolveOne_def unavailable_def classifyWithTrade_def classify_def Let_def
      split: option.splits sum.splits if_splits)

lemma out_processOne_other: "i \<noteq> al_ID a \<Longrightarrow> pt_cols (fst (out_processOne decode c e a t)) i = pt_cols t i"
  by (auto simp: out_processOne_def try_mark_def TouchOutcomeUnavailable_def MarkOutcome_def
      split: prod.splits option.splits dest!: resolve_id)

lemma out_processOne_le:
  "px_OutcomeStatus (pt_cols t (al_ID a)) = OutcomePending \<Longrightarrow>
   cols_le (pt_cols t (al_ID a)) (pt_cols (fst (out_processOne decode c e a t)) (al_ID a))"
  by (auto simp: out_processOne_def try_mark_def TouchOutcomeUnavailable_def MarkOutcome_def set_cols_same kept_defs
      split: prod.splits option.splits dest!: resolve_id)

lemma out_processOne_inv: "al_inv (pt_alerts t) \<Longrightarrow> al_inv (pt_alerts (fst (out_processOne decode c e a t)))"
  by (auto simp: out_processOne_def try_mark_def wt_inv split: prod.splits option.splits)

lemma out_processOne_core [simp]: "post_core (fst (out_processOne decode c e a t)) = post_core t"
  by (auto simp: out_processOne_def try_mark_def split: prod.splits option.splits)

lemma applyReaction_other: "i \<noteq> al_ID (fst as) \<Longrightarrow> pt_cols (fst (applyReaction c e as t)) i = pt_cols t i"
  by (auto simp: applyReaction_def MarkReaction_def split: prod.splits option.splits)

lemma applyReaction_le:
  "px_ReactionStatus (pt_cols t (al_ID (fst as))) \<in> {ReactionPending, ReactionFailed} \<Longrightarrow>
   cols_le (pt_cols t (al_ID (fst as))) (pt_cols (fst (applyReaction c e as t)) (al_ID (fst as)))"
  by (auto simp: applyReaction_def MarkReaction_def set_cols_same kept_defs split: prod.splits option.splits)

lemma applyReaction_inv: "al_inv (pt_alerts t) \<Longrightarrow> al_inv (pt_alerts (fst (applyReaction c e as t)))"
  by (auto simp: applyReaction_def wt_inv split: prod.splits option.splits)

lemma applyReaction_core [simp]: "post_core (fst (applyReaction c e as t)) = post_core t"
  by (auto simp: applyReaction_def split: prod.splits option.splits)

lemma drift_id: "du_AlertID (driftOne decode c e a) = al_ID a"
  by (auto simp: driftOne_def no_drift_def Let_def split: option.splits)

lemma drift_processOne_other: "i \<noteq> al_ID a \<Longrightarrow> pt_cols (drift_processOne decode c e a t) i = pt_cols t i"
  by (auto simp: drift_processOne_def MarkDrift_def drift_id split: option.splits)

lemma drift_processOne_le:
  "px_DriftStatus (pt_cols t (al_ID a)) = DriftPending \<Longrightarrow>
   cols_le (pt_cols t (al_ID a)) (pt_cols (drift_processOne decode c e a t) (al_ID a))"
  by (auto simp: drift_processOne_def MarkDrift_def drift_id set_cols_same kept_defs split: option.splits)

lemma drift_processOne_inv: "al_inv (pt_alerts t) \<Longrightarrow> al_inv (pt_alerts (drift_processOne decode c e a t))"
  by (auto simp: drift_processOne_def wt_inv split: option.splits)

lemma drift_processOne_core [simp]: "post_core (drift_processOne decode c e a t) = post_core t"
  by (auto simp: drift_processOne_def split: option.splits)

subsection \<open>Ticks and runs\<close>

text \<open>A tick keeps the queue's invariant and every alert but its time stamp, and closed columns.\<close>

definition tick_ok :: "PostTable \<Rightarrow> PostTable \<Rightarrow> bool" where
  "tick_ok t t' \<longleftrightarrow> al_inv (pt_alerts t') \<and> post_core t' = post_core t \<and> (\<forall>i. cols_le (pt_cols t i) (pt_cols t' i))"

lemma tick_ok_refl: "al_inv (pt_alerts t) \<Longrightarrow> tick_ok t t"
  by (simp add: tick_ok_def)

lemma tick_ok_trans: "tick_ok a b \<Longrightarrow> tick_ok b c \<Longrightarrow> tick_ok a c"
  unfolding tick_ok_def using cols_le_trans by metis

lemma outcome_loop_ok:
  assumes "al_inv (pt_alerts t)"
  shows "tick_ok t (fst (post_loop (out_processOne decode c e) (take n (ListSentForOutcomeCheck now limit markets t)) t))"
proof -
  let ?as = "take n (ListSentForOutcomeCheck now limit markets t)"
  note l = listed_outcome [OF assms, of n now limit markets]
  have "cols_le (pt_cols t i) (pt_cols (fst (post_loop (out_processOne decode c e) ?as t)) i)" for i
    by (rule post_loop_le [where k = al_ID and P = "\<lambda>c. px_OutcomeStatus c = OutcomePending"])
      (use l in \<open>auto simp: out_processOne_le out_processOne_other list_all_iff\<close>)
  then show ?thesis
    using post_loop_keeps [of ?as "\<lambda>t'. al_inv (pt_alerts t') \<and> post_core t' = post_core t" "out_processOne decode c e" t] assms
    by (simp add: tick_ok_def out_processOne_inv)
qed

lemma reactionPass_ok:
  assumes "al_inv (pt_alerts t)"
  shows "tick_ok t (fst (reactionPass c e t))"
proof -
  have "tick_ok t (fst (post_loop (applyReaction r e)
      (take n (map (\<lambda>a. (a, px_OutcomeStatus (pt_cols t (al_ID a)))) (ListAlertsForReaction limit t))) t))" for r n limit
  proof -
    let ?L = "take n (ListAlertsForReaction limit t)"
    let ?as = "map (\<lambda>a. (a, px_OutcomeStatus (pt_cols t (al_ID a)))) ?L"
    note l = listed_reaction [OF assms, of n limit]
    have "cols_le (pt_cols t i) (pt_cols (fst (post_loop (applyReaction r e) ?as t)) i)" for i
      by (rule post_loop_le [where k = "\<lambda>as. al_ID (fst as)" and
            P = "\<lambda>c. px_ReactionStatus c \<in> {ReactionPending, ReactionFailed}"])
        (use l in \<open>auto simp: applyReaction_le applyReaction_other list_all_iff comp_def\<close>)
    then show ?thesis
      using post_loop_keeps [of ?as "\<lambda>t'. al_inv (pt_alerts t') \<and> post_core t' = post_core t" "applyReaction r e" t] assms
      by (simp add: tick_ok_def applyReaction_inv take_map)
  qed
  then show ?thesis using tick_ok_refl [OF assms] by (auto simp: reactionPass_def Let_def split: option.splits)
qed

lemma out_tick_ok:
  assumes "al_inv (pt_alerts t)"
  shows "tick_ok t (fst (out_tick decode c e t))"
proof (cases "ue_listFault e")
  case (Some err)
  then show ?thesis using tick_ok_refl [OF assms] by (simp add: out_tick_def)
next
  case None
  let ?L = "ListSentForOutcomeCheck (ue_now e) (uc_ClaimLimit c) (ue_markets e) t"
  let ?t = "fst (post_loop (out_processOne decode c e) (take (ue_live e) ?L) t)"
  have 1: "tick_ok t ?t" by (rule outcome_loop_ok [OF assms])
  then have "tick_ok ?t (fst (reactionPass c e ?t))" by (intro reactionPass_ok) (simp add: tick_ok_def)
  then have "tick_ok t (fst (reactionPass c e ?t))" using 1 tick_ok_trans by blast
  then show ?thesis using 1 None by (auto simp: out_tick_def Let_def split: prod.splits)
qed

lemma drift_tick_ok:
  assumes "al_inv (pt_alerts t)"
  shows "tick_ok t (drift_tick decode c e t)"
proof (cases "de_listFault e")
  case (Some err)
  then show ?thesis using tick_ok_refl [OF assms] by (simp add: drift_tick_def)
next
  case None
  let ?f = "\<lambda>a t. (drift_processOne decode c e a t, [] :: post_event list)"
  let ?as = "take (de_live e) (ListSentForDrift (de_now e) (15 * Minute) (dg_ClaimLimit c) t)"
  note l = listed_drift [OF assms, of "de_live e" "de_now e" "15 * Minute" "dg_ClaimLimit c"]
  have "cols_le (pt_cols t i) (pt_cols (fst (post_loop ?f ?as t)) i)" for i
    by (rule post_loop_le [where k = al_ID and P = "\<lambda>c. px_DriftStatus c = DriftPending"])
      (use l in \<open>auto simp: drift_processOne_le drift_processOne_other list_all_iff\<close>)
  then show ?thesis
    using None assms
      post_loop_keeps [of ?as "\<lambda>t'. al_inv (pt_alerts t') \<and> post_core t' = post_core t" ?f t]
    by (simp add: tick_ok_def drift_tick_def drift_processOne_inv)
qed

lemma queue_step_inv: "al_inv t \<Longrightarrow> al_inv (queue_step q t)"
  by (cases q) (simp_all add: wt_inv)

lemma post_step_le:
  assumes "al_inv (pt_alerts t)"
  shows "al_inv (pt_alerts (post_step decode t s)) \<and> cols_le (pt_cols t i) (pt_cols (post_step decode t s) i)"
  using assms out_tick_ok [OF assms] drift_tick_ok [OF assms] queue_step_inv [OF assms]
  by (cases s) (simp_all add: tick_ok_def)

lemma post_run_le:
  "al_inv (pt_alerts t) \<Longrightarrow>
   al_inv (pt_alerts (post_run decode ss t)) \<and> cols_le (pt_cols t i) (pt_cols (post_run decode ss t) i)"
proof (induction ss arbitrary: t)
  case (Cons s ss)
  have "post_run decode (s # ss) t = post_run decode ss (post_step decode t s)" by (simp add: post_run_def)
  then show ?case using Cons.IH post_step_le [OF Cons.prems] cols_le_trans by metis
qed (simp add: post_run_def)

lemma post_empty_inv: "al_inv (pt_alerts post_empty)"
  by (simp add: post_empty_def al_inv_def)

lemma post_run_append: "post_run decode (ss @ ss') t = post_run decode ss' (post_run decode ss t)"
  by (simp add: post_run_def)

text \<open>C38. A verdict, once given, is never revised; neither are the measured drifts once the drift is
  settled, nor a reaction that was applied, is unsupported or is disabled - in every interleaving of
  the detector, the sender and the two workers, whatever the faults, the clocks and the answers from
  outside.\<close>

theorem verdicts_final:
  "cols_le (pt_cols (post_run decode ss post_empty) i) (pt_cols (post_run decode (ss @ ss') post_empty) i)"
  using post_run_le [of "post_run decode ss post_empty" decode ss' i] post_run_le [OF post_empty_inv, of decode ss]
  by (simp add: post_run_append)

subsection \<open>Verdicts match the bets\<close>

definition bet_won :: "TradeRef \<Rightarrow> string \<Rightarrow> bool" where
  "bet_won t winner \<longleftrightarrow> (tf_Side t = ''BUY'' \<and> tf_Outcome t = winner) \<or> (tf_Side t = ''SELL'' \<and> tf_Outcome t \<noteq> winner)"

definition stored_trade :: "(string \<Rightarrow> Finding option) \<Rightarrow> string \<Rightarrow> TradeRef option" where
  "stored_trade decode payload = (case decode payload of None \<Rightarrow> None | Some f \<Rightarrow> fi_Trade f)"

text \<open>A correct or wrong verdict names a winner, and agrees with the trade of the stored finding.\<close>

definition justified :: "(string \<Rightarrow> Finding option) \<Rightarrow> string \<Rightarrow> PostCols \<Rightarrow> bool" where
  "justified decode payload c =
     (if px_OutcomeStatus c = OutcomeCorrect \<or> px_OutcomeStatus c = OutcomeWrong
      then (case (stored_trade decode payload, px_WinningOutcomeLabel c) of
              (Some t, Some w) \<Rightarrow> tf_Outcome t \<noteq> '''' \<and> (px_OutcomeStatus c = OutcomeCorrect) = bet_won t w
            | _ \<Rightarrow> False)
      else True)"

definition bets_ok :: "(string \<Rightarrow> Finding option) \<Rightarrow> PostTable \<Rightarrow> bool" where
  "bets_ok decode t \<longleftrightarrow> (\<forall>r \<in> set (pt_rows t). justified decode (al_Payload r) (pt_cols t (al_ID r))) \<and>
     (\<forall>i. i \<notin> al_ID ` set (pt_rows t) \<longrightarrow> px_OutcomeStatus (pt_cols t i) = OutcomePending)"

lemma resolve_justified:
  assumes "resolveOne decode c e a = (Some u, evs)"
  shows "justified decode (al_Payload a) (cc\<lparr>px_OutcomeStatus := ou_Status u, px_OutcomeCheckedAt := x,
      px_ResolvedAt := y, px_WinningOutcomeToken := z, px_WinningOutcomeLabel := strPtr (ou_WinningOutcomeLabel u)\<rparr>)"
proof (cases "\<exists>res. u = classify decode (uc_WinningPriceThreshold c) a res")
  case True
  then obtain res where u: "u = classify decode (uc_WinningPriceThreshold c) a res" by blast
  show ?thesis
    unfolding u classify_def Let_def
    by (cases "stored_trade decode (al_Payload a)")
      (auto simp: justified_def stored_trade_def bet_won_def strPtr_def split: option.splits if_splits)
next
  case False
  then have "u = unavailable (al_ID a)"
    using assms by (auto simp: resolveOne_def classifyWithTrade_def Let_def split: option.splits sum.splits if_splits)
  then show ?thesis by (simp add: justified_def unavailable_def)
qed

text \<open>Statements that do not touch the verdict.\<close>

lemma justified_cong:
  "px_OutcomeStatus c' = px_OutcomeStatus c \<Longrightarrow> px_WinningOutcomeLabel c' = px_WinningOutcomeLabel c \<Longrightarrow>
   justified decode p c' = justified decode p c"
  unfolding justified_def by (simp only:)

lemma bets_ok_cols:
  assumes "bets_ok decode t" "post_core t' = post_core t"
    "\<And>r. r \<in> set (pt_rows t) \<Longrightarrow> justified decode (al_Payload r) (pt_cols t (al_ID r)) \<Longrightarrow>
       justified decode (al_Payload r) (pt_cols t' (al_ID r))"
    "\<And>i. i \<notin> al_ID ` set (pt_rows t) \<Longrightarrow> px_OutcomeStatus (pt_cols t' i) = px_OutcomeStatus (pt_cols t i)"
  shows "bets_ok decode t'"
proof -
  have rows: "\<exists>s \<in> set (pt_rows t). al_ID s = al_ID r \<and> al_Payload s = al_Payload r" if "r \<in> set (pt_rows t')" for r
  proof -
    have "r\<lparr>al_UpdatedAt := 0\<rparr> \<in> set (post_core t)"
      using that unfolding assms(2) [symmetric] by (auto simp: post_core_def)
    then obtain s where s: "s \<in> set (pt_rows t)" "r\<lparr>al_UpdatedAt := 0\<rparr> = s\<lparr>al_UpdatedAt := 0\<rparr>"
      by (auto simp: post_core_def)
    have "al_ID (r\<lparr>al_UpdatedAt := 0\<rparr>) = al_ID (s\<lparr>al_UpdatedAt := 0\<rparr>)"
      "al_Payload (r\<lparr>al_UpdatedAt := 0\<rparr>) = al_Payload (s\<lparr>al_UpdatedAt := 0\<rparr>)"
      by (simp_all only: s(2))
    then show ?thesis using s(1) by auto
  qed
  have ids: "al_ID ` set (pt_rows t') = al_ID ` set (pt_rows t)"
    using post_core_ids [OF assms(2)] by (metis set_map)
  show ?thesis
    using assms(1,3,4) rows unfolding bets_ok_def ids by metis
qed

lemma out_processOne_bets:
  assumes "bets_ok decode t" "al_inv (pt_alerts t)" "\<exists>r \<in> set (pt_rows t). al_ID r = al_ID a \<and> al_Payload r = al_Payload a"
  shows "bets_ok decode (fst (out_processOne decode c e a t))"
proof (rule bets_ok_cols [OF assms(1) out_processOne_core])
  fix r
  assume r: "r \<in> set (pt_rows t)" "justified decode (al_Payload r) (pt_cols t (al_ID r))"
  show "justified decode (al_Payload r) (pt_cols (fst (out_processOne decode c e a t)) (al_ID r))"
  proof (cases "al_ID r = al_ID a")
    case False
    then show ?thesis using r(2) by (simp add: out_processOne_other)
  next
    case True
    then have p: "al_Payload r = al_Payload a"
      using assms(2,3) r(1) unfolding al_inv_def pt_rows_def by (metis distinct_map inj_onD)
    have mem: "al_ID a \<in> al_ID ` set (pt_rows t)" using r(1) True by (metis imageI)
    obtain ou evs where o: "resolveOne decode c e a = (ou, evs)" by (cases "resolveOne decode c e a")
    show ?thesis
    proof (cases ou)
      case None
      have "justified decode (al_Payload a) (pt_cols (TouchOutcomeUnavailable (ue_now e) (al_ID a) t) (al_ID a)) =
          justified decode (al_Payload a) (pt_cols t (al_ID a))"
        by (rule justified_cong) (simp_all add: TouchOutcomeUnavailable_def set_cols_same)
      then show ?thesis using r(2) None o
        by (simp add: out_processOne_def try_mark_def True p split: option.split)
    next
      case (Some u)
      then have "justified decode (al_Payload a) (pt_cols (MarkOutcome (ue_now e) u t) (al_ID a))"
        using resolve_justified o mem resolve_id [of decode c e a u evs] by (simp add: MarkOutcome_def set_cols_same)
      then show ?thesis using r(2) Some o
        by (simp add: out_processOne_def try_mark_def True p split: option.split)
    qed
  qed
next
  fix i
  assume "i \<notin> al_ID ` set (pt_rows t)"
  then have "i \<noteq> al_ID a" using assms(3) by (metis imageI)
  then show "px_OutcomeStatus (pt_cols (fst (out_processOne decode c e a t)) i) = px_OutcomeStatus (pt_cols t i)"
    by (simp add: out_processOne_other)
qed

lemma other_outcome:
  "px_OutcomeStatus (pt_cols (fst (applyReaction r e as t)) i) = px_OutcomeStatus (pt_cols t i) \<and>
   px_WinningOutcomeLabel (pt_cols (fst (applyReaction r e as t)) i) = px_WinningOutcomeLabel (pt_cols t i)"
  "px_OutcomeStatus (pt_cols (drift_processOne decode dc de a t) i) = px_OutcomeStatus (pt_cols t i) \<and>
   px_WinningOutcomeLabel (pt_cols (drift_processOne decode dc de a t) i) = px_WinningOutcomeLabel (pt_cols t i)"
  by (auto simp: applyReaction_def MarkReaction_def drift_processOne_def MarkDrift_def set_cols_def
      split: prod.splits option.splits)

lemma applyReaction_bets: "bets_ok decode t \<Longrightarrow> bets_ok decode (fst (applyReaction r e as t))"
  by (rule bets_ok_cols) (auto simp: other_outcome justified_cong [OF conjunct1 [OF other_outcome(1)] conjunct2 [OF other_outcome(1)]])

lemma drift_processOne_bets: "bets_ok decode t \<Longrightarrow> bets_ok decode (drift_processOne decode' c e a t)"
  by (rule bets_ok_cols) (auto simp: other_outcome justified_cong [OF conjunct1 [OF other_outcome(2)] conjunct2 [OF other_outcome(2)]])

lemma outcome_loop_bets:
  assumes "bets_ok decode t" "al_inv (pt_alerts t)" "list_all (\<lambda>a. a \<in> set (pt_rows t)) as"
  shows "bets_ok decode (fst (post_loop (out_processOne decode c e) as t))"
proof -
  let ?Q = "\<lambda>t'. bets_ok decode t' \<and> al_inv (pt_alerts t') \<and> post_core t' = post_core t"
  have rows: "\<exists>r \<in> set (pt_rows t'). al_ID r = al_ID a \<and> al_Payload r = al_Payload a"
    if "post_core t' = post_core t" "a \<in> set as" for t' a
  proof -
    have "a\<lparr>al_UpdatedAt := 0\<rparr> \<in> set (post_core t')"
      using that assms(3) by (auto simp: post_core_def list_all_iff)
    then obtain r where r: "r \<in> set (pt_rows t')" "a\<lparr>al_UpdatedAt := 0\<rparr> = r\<lparr>al_UpdatedAt := 0\<rparr>"
      by (auto simp: post_core_def)
    have "al_ID (a\<lparr>al_UpdatedAt := 0\<rparr>) = al_ID (r\<lparr>al_UpdatedAt := 0\<rparr>)"
      "al_Payload (a\<lparr>al_UpdatedAt := 0\<rparr>) = al_Payload (r\<lparr>al_UpdatedAt := 0\<rparr>)"
      by (simp_all only: r(2))
    then show ?thesis using r(1) by auto
  qed
  have "?Q (fst (post_loop (out_processOne decode c e) as t))"
    by (rule post_loop_keeps) (use assms rows in \<open>auto simp: out_processOne_bets out_processOne_inv\<close>)
  then show ?thesis by blast
qed

lemma reaction_loop_bets: "bets_ok decode t \<Longrightarrow> bets_ok decode (fst (post_loop (applyReaction r e) as t))"
  by (rule post_loop_keeps) (simp_all add: applyReaction_bets)

lemma out_tick_bets:
  assumes "bets_ok decode t" "al_inv (pt_alerts t)"
  shows "bets_ok decode (fst (out_tick decode c e t))"
proof -
  have r: "bets_ok decode (fst (reactionPass c e t'))" if "bets_ok decode t'" for t'
    using that by (simp add: reactionPass_def Let_def reaction_loop_bets split: option.split)
  let ?L = "ListSentForOutcomeCheck (ue_now e) (uc_ClaimLimit c) (ue_markets e) t"
  have "list_all (\<lambda>a. a \<in> set (pt_rows t)) (take (ue_live e) ?L)"
    using listed_outcome [OF assms(2)] by (auto simp: list_all_iff)
  then have "bets_ok decode (fst (post_loop (out_processOne decode c e) (take (ue_live e) ?L) t))"
    by (rule outcome_loop_bets [OF assms])
  moreover obtain t1 evs where p: "post_loop (out_processOne decode c e) (take (ue_live e) ?L) t = (t1, evs)"
    by (cases "post_loop (out_processOne decode c e) (take (ue_live e) ?L) t")
  ultimately have "bets_ok decode t1" by simp
  then show ?thesis using assms(1) r [of t1] by (cases "reactionPass c e t1") (simp add: out_tick_def Let_def p split: option.split)
qed

lemma drift_loop_bets: "bets_ok decode t \<Longrightarrow> bets_ok decode (fst (post_loop (\<lambda>a t. (drift_processOne decode' c e a t, [])) as t))"
  by (rule post_loop_keeps) (simp_all add: drift_processOne_bets)

lemma drift_tick_bets: "bets_ok decode t \<Longrightarrow> bets_ok decode (drift_tick decode' c e t)"
  by (simp add: drift_tick_def drift_loop_bets split: option.split)

lemma queue_rows:
  assumes "al_inv t"
  shows "r \<in> set (at_rows (queue_step q t)) \<Longrightarrow>
      (\<exists>s \<in> set (at_rows t). al_ID s = al_ID r \<and> al_Payload s = al_Payload r) \<or> al_ID r \<notin> al_ID ` set (at_rows t)"
    and "al_ID ` set (at_rows t) \<subseteq> al_ID ` set (at_rows (queue_step q t))"
proof -
  have u: "(\<exists>s \<in> set (at_rows t). al_ID s = al_ID r \<and> al_Payload s = al_Payload r)"
    if "r \<in> set (at_rows (al_update P f t))" "\<And>r. al_ID (f r) = al_ID r" "\<And>r. al_Payload (f r) = al_Payload r" for P f
    using that by (auto simp: al_update_def split: if_splits)
  have v: "al_ID ` set (at_rows t) \<subseteq> al_ID ` set (at_rows (al_update P f t))" if "\<And>r. al_ID (f r) = al_ID r" for P f
  proof -
    have "map al_ID (map (\<lambda>r. if P r then f r else r) rs) = map al_ID rs" for rs
      by (induction rs) (simp_all add: that)
    then have "map al_ID (at_rows (al_update P f t)) = map al_ID (at_rows t)" by (simp add: al_update_def)
    then have "set (map al_ID (at_rows (al_update P f t))) = set (map al_ID (at_rows t))" by (rule arg_cong)
    then show ?thesis by simp
  qed
  show "r \<in> set (at_rows (queue_step q t)) \<Longrightarrow>
      (\<exists>s \<in> set (at_rows t). al_ID s = al_ID r \<and> al_Payload s = al_Payload r) \<or> al_ID r \<notin> al_ID ` set (at_rows t)"
  proof (cases q)
    case (QCreate now a)
    then show "r \<in> set (at_rows (queue_step q t)) \<Longrightarrow> ?thesis"
      using assms by (auto simp: TryCreatePending_def Let_def al_inv_def split: if_splits)
  qed (auto simp: ClaimPending_def MarkSent_def MarkFailed_def ResetStaleSending_def Let_def al_claim_def dest!: u)
  show "al_ID ` set (at_rows t) \<subseteq> al_ID ` set (at_rows (queue_step q t))"
  proof (cases q)
    case (QCreate now a)
    then show ?thesis by (auto simp: TryCreatePending_def Let_def)
  qed (simp_all add: ClaimPending_def MarkSent_def MarkFailed_def ResetStaleSending_def Let_def v)
qed

lemma queue_bets:
  assumes "bets_ok decode t" "al_inv (pt_alerts t)"
  shows "bets_ok decode (t\<lparr>pt_alerts := queue_step q (pt_alerts t)\<rparr>)"
  unfolding bets_ok_def
proof (intro conjI ballI allI impI)
  fix r
  assume "r \<in> set (pt_rows (t\<lparr>pt_alerts := queue_step q (pt_alerts t)\<rparr>))"
  then have "(\<exists>s \<in> set (pt_rows t). al_ID s = al_ID r \<and> al_Payload s = al_Payload r) \<or> al_ID r \<notin> al_ID ` set (pt_rows t)"
    using queue_rows(1) [OF assms(2)] by (simp add: pt_rows_def)
  then show "justified decode (al_Payload r) (pt_cols (t\<lparr>pt_alerts := queue_step q (pt_alerts t)\<rparr>) (al_ID r))"
  proof
    assume "al_ID r \<notin> al_ID ` set (pt_rows t)"
    then show ?thesis using assms(1) by (simp add: bets_ok_def justified_def)
  next
    assume "\<exists>s \<in> set (pt_rows t). al_ID s = al_ID r \<and> al_Payload s = al_Payload r"
    then obtain s where "s \<in> set (pt_rows t)" "al_ID s = al_ID r" "al_Payload s = al_Payload r" by blast
    moreover have "\<forall>s \<in> set (pt_rows t). justified decode (al_Payload s) (pt_cols t (al_ID s))"
      using assms(1) by (simp add: bets_ok_def)
    ultimately have "justified decode (al_Payload r) (pt_cols t (al_ID r))" by metis
    then show ?thesis by simp
  qed
next
  fix i
  assume "i \<notin> al_ID ` set (pt_rows (t\<lparr>pt_alerts := queue_step q (pt_alerts t)\<rparr>))"
  then have "i \<notin> al_ID ` set (pt_rows t)" using queue_rows(2) [OF assms(2), of q] by (auto simp: pt_rows_def)
  then show "px_OutcomeStatus (pt_cols (t\<lparr>pt_alerts := queue_step q (pt_alerts t)\<rparr>) i) = OutcomePending"
    using assms(1) by (simp add: bets_ok_def)
qed

lemma post_run_bets:
  "bets_ok decode t \<Longrightarrow> al_inv (pt_alerts t) \<Longrightarrow> bets_ok decode (post_run decode ss t)"
proof (induction ss arbitrary: t)
  case (Cons s ss)
  have "bets_ok decode (post_step decode t s)"
    using Cons.prems by (cases s) (simp_all add: queue_bets out_tick_bets drift_tick_bets)
  then have "bets_ok decode (post_run decode ss (post_step decode t s))"
    using post_step_le [OF Cons.prems(2)] by (intro Cons.IH) blast+
  then show ?case by (simp add: post_run_def)
qed (simp add: post_run_def)

text \<open>C8. In every reachable table each alert marked correct or wrong has a named winning outcome and a
  stored trade with a label, and it is marked correct exactly when the trade bought the winner or
  sold another outcome.\<close>

theorem verdicts_match_bets:
  "list_all (\<lambda>r. justified decode (al_Payload r) (pt_cols (post_run decode ss post_empty) (al_ID r)))
     (pt_rows (post_run decode ss post_empty))"
proof -
  have "bets_ok decode post_empty" by (simp add: bets_ok_def post_empty_def pt_rows_def px_default_def)
  from post_run_bets [OF this post_empty_inv, of ss] show ?thesis by (auto simp: bets_ok_def list_all_iff)
qed

subsection \<open>Reactions follow verdicts\<close>

text \<open>A reaction call that is due.\<close>

definition reaction_due :: "out_Config \<Rightarrow> PostTable \<Rightarrow> post_event \<Rightarrow> bool" where
  "reaction_due c t ev =
     (case ev of
        EvReact i chat emoji err \<Rightarrow>
          list_ex (\<lambda>r. al_ID r = i \<and> al_Status r = AlertSent \<and> al_TelegramMessageID r \<notin> {None, Some 0}) (pt_rows t) \<and>
          px_ReactionStatus (pt_cols t i) \<in> {ReactionPending, ReactionFailed} \<and>
          px_OutcomeStatus (pt_cols t i) \<in> {OutcomeCorrect, OutcomeWrong, OutcomeUnknown} \<and>
          chat = rx_ChatID (uc_Reactions c) \<and> chat \<noteq> '''' \<and>
          emoji = emojiForOutcome (uc_Reactions c) (px_OutcomeStatus (pt_cols t i)) \<and> emoji \<noteq> ''''
      | _ \<Rightarrow> False)"

definition reacted :: "post_event \<Rightarrow> int" where
  "reacted ev = (case ev of EvReact i chat emoji err \<Rightarrow> i | _ \<Rightarrow> 0)"

lemma post_loop_events: "(\<And>a t. snd (f a t) = g a) \<Longrightarrow> snd (post_loop f as t) = concat (map g as)"
proof (induction as arbitrary: t)
  case (Cons a as)
  then show ?case by (auto split: prod.splits) (metis snd_conv)+
qed simp

lemma applyReaction_events: "snd (applyReaction r e as t) = snd (reactOne r e (fst as) (snd as))"
  by (auto simp: applyReaction_def split: prod.splits option.splits)

lemma reactOne_events:
  "snd (reactOne r e a s) =
     (if al_TelegramMessageID a \<in> {None, Some 0} \<or> emojiForOutcome r s = '''' then []
      else [EvReact (al_ID a) (rx_ChatID r) (emojiForOutcome r s)
              (ue_react e (rx_ChatID r) (the (al_TelegramMessageID a)) (emojiForOutcome r s))])"
  by (auto simp: reactOne_def Let_def split: option.splits tg_error.splits)

lemma reacted_one: "distinct (map al_ID as) \<Longrightarrow>
    distinct (map reacted (concat (map (\<lambda>a. snd (reactOne r e a (s a))) as))) \<and>
    set (map reacted (concat (map (\<lambda>a. snd (reactOne r e a (s a))) as))) \<subseteq> set (map al_ID as)"
proof (induction as)
  case (Cons a as)
  have "map reacted (snd (reactOne r e a (s a))) \<in> {[], [al_ID a]}"
    by (simp add: reactOne_events reacted_def)
  then show ?case using Cons by (auto simp del: set_map)
qed simp

text \<open>C39. In every reachable table a reaction pass reacts to each alert at most once, and only where a
  reaction is due: the alert was sent and carries a message id, its verdict is known, it was not
  reacted to yet, and the emoji is the one configured for its verdict, in the configured chat.\<close>

theorem reactions_follow_verdicts:
  "list_all (reaction_due c (post_run decode ss post_empty)) (snd (reactionPass c e (post_run decode ss post_empty))) \<and>
   distinct (map reacted (snd (reactionPass c e (post_run decode ss post_empty))))"
proof -
  let ?t = "post_run decode ss post_empty"
  let ?r = "uc_Reactions c"
  have inv: "al_inv (pt_alerts ?t)" using post_run_le [OF post_empty_inv] by blast
  define limit where "limit = (if rx_ClaimLimit ?r \<le> 0 then uc_ClaimLimit c else rx_ClaimLimit ?r)"
  define L where "L = take (ue_live e) (ListAlertsForReaction limit ?t)"
  define s where "s a = px_OutcomeStatus (pt_cols ?t (al_ID a))" for a :: Alert
  have "take (ue_live e) (map (\<lambda>a. (a, px_OutcomeStatus (pt_cols ?t (al_ID a)))) (ListAlertsForReaction limit ?t)) =
      map (\<lambda>a. (a, s a)) L" by (simp add: L_def s_def take_map)
  then have ev: "snd (reactionPass c e ?t) =
      (if \<not> rx_Enabled ?r \<or> \<not> rx_BotWired ?r \<or> rx_ChatID ?r = '''' \<or> ue_reactListFault e \<noteq> None then []
       else concat (map (\<lambda>a. snd (reactOne ?r e a (s a))) L))"
    unfolding reactionPass_def Let_def limit_def [symmetric]
    by (auto simp: post_loop_events [where g = "\<lambda>as. snd (reactOne ?r e (fst as) (snd as))"] applyReaction_events comp_def
        split: option.splits)
  have l: "distinct (map al_ID L)"
    "a \<in> set L \<Longrightarrow> px_ReactionStatus (pt_cols ?t (al_ID a)) \<in> {ReactionPending, ReactionFailed} \<and>
       al_Status a = AlertSent \<and> a \<in> set (pt_rows ?t)" for a
    using listed_reaction [OF inv, of "ue_live e" limit] by (auto simp: L_def list_all_iff)
  have due: "reaction_due c ?t ev" if "a \<in> set L" "ev \<in> set (snd (reactOne ?r e a (s a)))" "rx_ChatID ?r \<noteq> ''''" for a ev
  proof -
    have "s a \<in> {OutcomeCorrect, OutcomeWrong, OutcomeUnknown}" "al_TelegramMessageID a \<notin> {None, Some 0}"
      using that(2) by (auto simp: reactOne_events emojiForOutcome_def split: if_splits OutcomeStatus.splits)
    then show ?thesis using that l(2) [OF that(1)]
      by (auto simp: reactOne_events reaction_due_def s_def list_ex_iff split: if_splits)
  qed
  have "list_all (reaction_due c ?t) (snd (reactionPass c e ?t))"
    unfolding ev list_all_iff using due by auto
  moreover have "distinct (map reacted (snd (reactionPass c e ?t)))"
    unfolding ev using reacted_one [OF l(1), of ?r e s] by simp
  ultimately show ?thesis ..
qed

subsection \<open>Proof of alert value\<close>

lemma f64_one_minus: "0 \<le> x \<Longrightarrow> x \<le> 1 \<Longrightarrow> 0 \<le> 1 - x \<and> 1 - x \<le> (1 :: float64) \<and> - 1 \<le> 0 - x \<and> 0 - x \<le> 0"
proof -
  assume x: "0 \<le> x" "x \<le> 1"
  then obtain r where r: "x = Fin r" "0 \<le> r" "r \<le> 1"
    by (cases x) (auto simp: zero_f64 one_f64)
  have "1 - x = fl (1 - r)" "0 - x = fl (- r)"
    by (simp_all add: r(1) one_f64 zero_f64 minus_float64_def)
  moreover have "- 1 \<le> fl (- r)"
    using fl_ge_int [of "-1" "- r"] r(3) by (simp add: one_f64)
  ultimately show ?thesis using r(2,3) by (simp add: fl_nonneg fl_le_one fl_nonpos)
qed

lemma ImpliedProbability_range: "price \<noteq> NaN \<Longrightarrow> 0 \<le> ImpliedProbability price side \<and> ImpliedProbability price side \<le> 1"
proof -
  assume n: "price \<noteq> NaN"
  let ?p = "if 1 < (if price < 0 then 0 else price) then 1 else (if price < 0 then 0 else price)"
  have "0 \<le> ?p" "?p \<le> 1"
    using n by (cases price; auto simp: zero_f64 one_f64)+
  then show ?thesis using f64_one_minus [of ?p] by (auto simp: ImpliedProbability_def Let_def)
qed

text \<open>The value of an alert as it is counted: the edge is success minus implied probability, the calibration
  bucket is the one the probability falls into.\<close>

definition buckets :: "(string \<times> float64 \<times> float64) list" where
  "buckets = [(''0-10'', 0, fl 0.1), (''10-20'', fl 0.1, fl 0.2), (''20-30'', fl 0.2, fl 0.3), (''30-40'', fl 0.3, fl 0.4),
     (''40-50'', fl 0.4, fl 0.5), (''50-70'', fl 0.5, fl 0.7), (''70+'', fl 0.7, fl 2)]"

definition in_bucket :: "float64 \<Rightarrow> string \<Rightarrow> bool" where
  "in_bucket p b \<longleftrightarrow> list_ex (\<lambda>(name, lo, hi). name = b \<and> lo \<le> p \<and> p < hi) buckets"

definition pal_ok :: "post_event \<Rightarrow> bool" where
  "pal_ok ev =
     (case ev of
        EvPAL s \<Rightarrow>
          (let p = pal_ImpliedProb s; sev = pal_Severity s; kind = pal_Kind s; w = SeverityWeight sev;
               weighted = (\<lambda>success. if 0 < w then [WeightedResolvedAdd sev kind w, WeightedSuccessAdd sev kind (w * success)] else []);
               calibration = CalibrationInc (pal_Bucket s) (pal_Status s) sev kind
           in 0 \<le> p \<and> p \<le> 1 \<and> in_bucket p (pal_Bucket s) \<and>
              (case pal_Status s of
                 OutcomeCorrect \<Rightarrow> ObservePAL s = calibration # EdgeObserve sev kind (1 - p) # weighted 1 \<and> 0 \<le> 1 - p \<and> 1 - p \<le> 1
               | OutcomeWrong \<Rightarrow> ObservePAL s = calibration # EdgeObserve sev kind (0 - p) # weighted 0 \<and> - 1 \<le> 0 - p \<and> 0 - p \<le> 0
               | _ \<Rightarrow> ObservePAL s = [calibration]))
      | _ \<Rightarrow> True)"

lemma bucket_of: "0 \<le> p \<Longrightarrow> p \<le> 1 \<Longrightarrow> in_bucket p (CalibrationBucket p)"
proof -
  assume p: "0 \<le> p" "p \<le> 1"
  have "1 < fl 2" by code_simp
  then have "p < fl 2" using p by (cases p; cases "fl 2") (auto simp: one_f64)
  moreover have "x \<le> p" if "\<not> p < x" "x \<noteq> NaN" for x using p that by (cases p; cases x) (auto simp: zero_f64 one_f64)
  moreover have "fl 0.1 \<noteq> NaN" "fl 0.2 \<noteq> NaN" "fl 0.3 \<noteq> NaN" "fl 0.4 \<noteq> NaN" "fl 0.5 \<noteq> NaN" "fl 0.7 \<noteq> NaN" by simp_all
  ultimately show ?thesis using p(1) by (simp add: in_bucket_def buckets_def CalibrationBucket_def)
qed

lemma BuildSnapshot_ok: "price \<noteq> NaN \<Longrightarrow> pal_ok (EvPAL (BuildSnapshot st sev k price side))"
  using ImpliedProbability_range [of price side] f64_one_minus [of "ImpliedProbability price side"]
    bucket_of [of "ImpliedProbability price side"]
  by (cases st) (simp_all add: pal_ok_def BuildSnapshot_def RealizedEdge_def ObservePAL_def Let_def)

lemma out_processOne_pal: "list_all pal_ok (snd (out_processOne decode c e a t))"
proof -
  have "list_all pal_ok evs" if "resolveOne decode c e a = (u, evs)" for u evs
    using that
    by (auto simp: resolveOne_def pal_ok_def [of "EvOutcome _ _ _"] intro!: BuildSnapshot_ok dest: f64_less_not_NaN
        split: option.splits sum.splits if_splits prod.splits)
  then show ?thesis by (auto simp: out_processOne_def split: prod.splits option.splits)
qed

lemma post_loop_all: "(\<And>a t. list_all P (snd (f a t))) \<Longrightarrow> list_all P (snd (post_loop f as t))"
proof (induction as arbitrary: t)
  case (Cons a as)
  have "list_all P (snd (f a t))" "list_all P (snd (post_loop f as (fst (f a t))))" using Cons by simp_all
  then show ?case by (auto split: prod.splits)
qed simp

lemma reactionPass_pal: "list_all pal_ok (snd (reactionPass c e t))"
proof -
  have "list_all pal_ok (snd (applyReaction r e as t))" for r as t
    by (simp add: applyReaction_events reactOne_events pal_ok_def)
  then have "list_all pal_ok (snd (post_loop (applyReaction r e) as t))" for r as t by (rule post_loop_all)
  then show ?thesis by (simp add: reactionPass_def Let_def split: option.split)
qed

text \<open>C40. The measure of value an outcome tick adds is sound: each measured alert adds one to the calibration
  counter of the bucket that its implied probability, between 0 and 1, falls into, whatever the
  verdict; a correct alert adds an edge of one minus the probability, a wrong one loses it, both
  within [-1, 1], together with the weight of its severity, of which the success total gets the
  correct alerts only; any other verdict adds nothing but the calibration count.\<close>

theorem pal_sound:
  "list_all pal_ok (snd (out_tick decode c e t))"
proof (cases "ue_listFault e")
  case None
  let ?L = "ListSentForOutcomeCheck (ue_now e) (uc_ClaimLimit c) (ue_markets e) t"
  obtain t1 evs where p: "post_loop (out_processOne decode c e) (take (ue_live e) ?L) t = (t1, evs)"
    by (cases "post_loop (out_processOne decode c e) (take (ue_live e) ?L) t")
  have "list_all pal_ok evs"
    using post_loop_all [of pal_ok "out_processOne decode c e" "take (ue_live e) ?L" t] out_processOne_pal p by simp
  then show ?thesis using None reactionPass_pal [of c e t1]
    by (cases "reactionPass c e t1") (simp add: out_tick_def Let_def p)
qed (simp add: out_tick_def)

subsection \<open>The longer drift windows are lost\<close>

definition drift_set :: "time \<Rightarrow> DriftUpdate \<Rightarrow> PostCols \<Rightarrow> PostCols" where
  "drift_set now u c = c\<lparr>px_DriftStatus := du_Status u, px_DriftCheckedAt := Some now, px_Clv15m := du_CLV15m u,
     px_Clv1h := du_CLV1h u, px_Clv6h := du_CLV6h u, px_Clv24h := du_CLV24h u\<rparr>"

lemma drift_loop_at:
  assumes "distinct (map al_ID as)" "a \<in> set as" "de_markFault e (al_ID a) = None" "al_ID a \<in> set (map al_ID (pt_rows t))"
  shows "pt_cols (fst (post_loop (\<lambda>a t. (drift_processOne decode c e a t, [])) as t)) (al_ID a) =
    drift_set (de_now e) (driftOne decode c e a) (pt_cols t (al_ID a))"
  using assms
proof (induction as arbitrary: t)
  case (Cons b as)
  let ?f = "\<lambda>a t. (drift_processOne decode c e a t, [] :: post_event list)"
  let ?t = "drift_processOne decode c e b t"
  have rest: "pt_cols (fst (post_loop ?f as t)) i = pt_cols t i" if "i \<notin> set (map al_ID as)" for as t i
    using that by (induction as arbitrary: t) (auto simp: drift_processOne_other split: prod.splits)
  have ids: "map al_ID (pt_rows ?t) = map al_ID (pt_rows t)" by (rule post_core_ids) simp
  show ?case
  proof (cases "a = b")
    case True
    have "pt_cols (fst (post_loop ?f as ?t)) (al_ID a) = pt_cols ?t (al_ID a)"
      using Cons.prems(1) True by (intro rest) simp
    then show ?thesis
      using True Cons.prems(3,4)
      by (auto simp: drift_processOne_def MarkDrift_def drift_id set_cols_same drift_set_def split: prod.splits)
  next
    case False
    then have "a \<in> set as" "al_ID b \<notin> al_ID ` set as" using Cons.prems(1,2) by auto
    then have "al_ID a \<noteq> al_ID b" by (metis imageI)
    then have "pt_cols (fst (post_loop ?f as ?t)) (al_ID a) = drift_set (de_now e) (driftOne decode c e a) (pt_cols t (al_ID a))"
      using Cons.IH [of ?t] Cons.prems False by (simp add: ids drift_processOne_other del: set_map)
    then show ?thesis by (auto split: prod.splits)
  qed
qed simp

text \<open>
  An alert listed by a drift tick that runs when 15 minutes have passed since its trade, but not yet
  an hour, and that finds a price for the first window.
\<close>

definition drift_early :: "(string \<Rightarrow> Finding option) \<Rightarrow> drift_Config \<Rightarrow> drift_env \<Rightarrow> PostTable \<Rightarrow> Alert \<Rightarrow> int \<Rightarrow> Finding
    \<Rightarrow> TradeRef \<Rightarrow> float64 \<Rightarrow> bool" where
  "drift_early decode c e t a m f tr later \<longleftrightarrow>
     de_listFault e = None \<and> de_markFault e (al_ID a) = None \<and>
     a \<in> set (take (de_live e) (ListSentForDrift (de_now e) (15 * Minute) (dg_ClaimLimit c) t)) \<and>
     al_MarketID a = Some m \<and> decode (al_Payload a) = Some f \<and> fi_Trade f = Some tr \<and> drift_token f \<noteq> '''' \<and>
     \<not> tf_Price tr \<le> 0 \<and> 15 * Minute \<le> t_sub (de_clock e (al_ID a) 0) (tf_At tr) \<and>
     list_all (\<lambda>n. t_sub (de_clock e (al_ID a) n) (tf_At tr) < Hour) [1, 2, 3] \<and>
     de_priceFault e m (tf_At tr + 15 * Minute) = None \<and>
     TradePriceAtOrAfter (de_trades e) m (drift_token f) (tf_At tr + 15 * Minute) = Some later"

lemma driftOne_early:
  assumes "drift_early decode c e t a m f tr later"
  shows "driftOne decode c e a =
    \<lparr>du_AlertID = al_ID a, du_Status = DriftAvailable, du_CLV15m = Some (favorableDrift (tf_Side tr) (tf_Price tr) later),
     du_CLV1h = None, du_CLV6h = None, du_CLV24h = None\<rparr>"
proof -
  have w: "window_drift e a m token tr n win = None" if "t_sub (de_clock e (al_ID a) n) (tf_At tr) < Hour" "Hour \<le> win" for token n win
    using that by (simp add: window_drift_def)
  have "enumerate 0 drift_windows = [(0, 15 * Minute), (1, Hour), (2, 6 * Hour), (3, 24 * Hour)]"
    by (simp add: drift_windows_def eval_nat_numeral)
  moreover have "window_drift e a m (drift_token f) tr 0 (15 * Minute) = Some (favorableDrift (tf_Side tr) (tf_Price tr) later)"
    using assms by (simp add: window_drift_def drift_early_def)
  moreover have "window_drift e a m (drift_token f) tr 1 Hour = None" "window_drift e a m (drift_token f) tr 2 (6 * Hour) = None"
    "window_drift e a m (drift_token f) tr 3 (24 * Hour) = None"
    using assms by (auto simp: drift_early_def intro!: w)
  ultimately have "drift_loop e a m (drift_token f) tr = [Some (favorableDrift (tf_Side tr) (tf_Price tr) later), None, None, None]"
    by (simp only: drift_loop_def list.map prod.case)
  then show ?thesis using assms by (simp add: driftOne_def drift_early_def decideStatus_def Let_def)
qed

lemma drift_early_tick:
  assumes "al_inv (pt_alerts t)" "drift_early decode c e t a m f tr later"
  shows "pt_cols (drift_tick decode c e t) (al_ID a) = drift_set (de_now e) (driftOne decode c e a) (pt_cols t (al_ID a))"
proof -
  note l = listed_drift [OF assms(1), of "de_live e" "de_now e" "15 * Minute" "dg_ClaimLimit c"]
  have "a \<in> set (pt_rows t)"
    using l assms(2) unfolding drift_early_def list_all_iff by blast
  then have "al_ID a \<in> set (map al_ID (pt_rows t))" by simp
  then show ?thesis
    using assms(2) l drift_loop_at [where t = t] by (simp add: drift_tick_def drift_early_def del: set_map)
qed

text \<open>C7. An alert whose 15-minute drift is measured within the hour never gets another window measured:
  the tick sets its drift to available, no later tick lists it again, and whatever follows, the
  drifts of one, six and twenty-four hours stay NULL.\<close>

theorem drift_longer_windows_lost:
  assumes "drift_early decode (drift_applyDefaults c) e (post_run decode ss post_empty) a m f tr later"
  shows "pt_cols (post_run decode (ss @ Drift c e # ss') post_empty) (al_ID a) =
    (pt_cols (post_run decode (ss @ Drift c e # ss') post_empty) (al_ID a))
      \<lparr>px_DriftStatus := DriftAvailable, px_Clv15m := Some (favorableDrift (tf_Side tr) (tf_Price tr) later),
       px_Clv1h := None, px_Clv6h := None, px_Clv24h := None\<rparr>"
proof -
  let ?t = "post_run decode ss post_empty"
  let ?t1 = "drift_tick decode (drift_applyDefaults c) e ?t"
  have inv: "al_inv (pt_alerts ?t)" using post_run_le [OF post_empty_inv] by blast
  have "pt_cols ?t1 (al_ID a) = drift_set (de_now e) (driftOne decode (drift_applyDefaults c) e a) (pt_cols ?t (al_ID a))"
    by (rule drift_early_tick [OF inv assms])
  moreover have "al_inv (pt_alerts ?t1)" using drift_tick_ok [OF inv] by (simp add: tick_ok_def)
  moreover have "post_run decode (ss @ Drift c e # ss') post_empty = post_run decode ss' ?t1"
    by (simp add: post_run_def)
  ultimately have "drift_kept (drift_set (de_now e) (driftOne decode (drift_applyDefaults c) e a) (pt_cols ?t (al_ID a)))
      (pt_cols (post_run decode (ss @ Drift c e # ss') post_empty) (al_ID a))"
    using post_run_le [of ?t1 decode ss' "al_ID a"] by (simp add: cols_le_def)
  then show ?thesis by (simp add: drift_kept_def drift_set_def driftOne_early [OF assms])
qed

text \<open>An accumulation alert sent at the time of its trade, a drift tick twenty minutes later, and one
  more after thirty hours, when trades exist for every window.\<close>

definition dr_trade :: TradeRef where
  "dr_trade = \<lparr>tf_ID = ''t'', tf_TxHash = '''', tf_Wallet = ''w'', tf_Market = ''c'', tf_Slug = '''', tf_Question = '''',
     tf_Outcome = ''Yes'', tf_Side = ''BUY'', tf_SizeShares = Fin 100, tf_Price = Fin (1 / 2), tf_Odds = Fin 2,
     tf_NotionalUSD = Fin 50, tf_At = Hour\<rparr>"

definition dr_line :: AccumulationRef where
  "dr_line = \<lparr>ar_Wallet = ''w'', ar_MarketID = ''c'', ar_OutcomeToken = ''tok'', ar_Outcome = ''Yes'', ar_Side = ''BUY'',
     ar_TradeCount = 3, ar_TotalNotionalUSD = Fin 50, ar_MeanNotionalUSD = 0, ar_MedianNotionalUSD = 0,
     ar_MaxNotionalUSD = 0, ar_AvgOdds = 0, ar_MaxOdds = 0, ar_Span = 0, ar_MarketMultiplier = 0,
     ar_TraderMultiplier = 0, ar_Score = 0, ar_Confidence = 0, ar_Reasons = [], ar_SizePath = '''', ar_Window = ''''\<rparr>"

definition dr_finding :: Finding where
  "dr_finding = zero_finding\<lparr>fi_Trade := Some dr_trade, fi_Accumulation := Some dr_line\<rparr>"

definition dr_decode :: "string \<Rightarrow> Finding option" where
  "dr_decode payload = (if payload = ''p'' then Some dr_finding else None)"

definition dr_new :: NewAlert where
  "dr_new = \<lparr>na_DedupKey = ''k'', na_StrategyVersion = ''v'', na_Kind = ''accumulation'', na_Reason = ''r'',
     na_Severity = ''warning'', na_MarketID = Some 1, na_TraderID = None, na_TradeID = None, na_Payload = ''p''\<rparr>"

definition dr_sent :: "post_stmt list" where
  "dr_sent = [Queue (QCreate Hour dr_new), Queue (QClaim Hour 1 {}), Queue (QSent Hour 1 77)]"

definition dr_price :: "time \<Rightarrow> TradeRow" where
  "dr_price t = new_row t 1 ''d''
     \<lparr>it_MarketID = 1, it_TraderID = None, it_OutcomeToken = ''tok'', it_Side = ''BUY'', it_Price = Fin (3 / 4),
      it_SizeShares = Fin 1, it_NotionalUSD = Fin 1, it_TradedAt = t, it_ExternalID = '''', it_TxHash = ''''\<rparr>"

definition dr_env :: "time \<Rightarrow> drift_env" where
  "dr_env now = \<lparr>de_now = now, de_live = 10, de_listFault = None, de_markFault = (\<lambda>i. None), de_priceFault = (\<lambda>m t. None),
     de_trades = [dr_price (Hour + 15 * Minute), dr_price (40 * Hour)], de_clock = (\<lambda>i n. now)\<rparr>"

definition dr_cfg :: drift_Config where
  "dr_cfg = \<lparr>dg_ClaimLimit = 64, dg_LongestWindow = 24 * Hour\<rparr>"

definition dr_row :: Alert where
  "dr_row = \<lparr>al_ID = 1, al_DedupKey = ''k'', al_StrategyVersion = ''v'', al_Kind = ''accumulation'', al_Reason = ''r'',
     al_Severity = ''warning'', al_MarketID = Some 1, al_TraderID = None, al_TradeID = None, al_Payload = ''p'',
     al_Status = AlertSent, al_TelegramMessageID = Some 77, al_SendAttempts = 0, al_LastSendError = None,
     al_NextRetryAt = None, al_LastAttemptAt = Some Hour, al_SentAt = Some Hour, al_CreatedAt = Hour, al_UpdatedAt = Hour\<rparr>"

lemma dr_sent_run:
  "post_run dr_decode dr_sent post_empty = \<lparr>pt_alerts = \<lparr>at_rows = [dr_row], at_next = 2\<rparr>, pt_cols = (\<lambda>i. px_default)\<rparr>"
  by (simp add: post_run_def dr_sent_def post_empty_def TryCreatePending_def dr_new_def Let_def ClaimPending_def al_batch_def
      al_claimable_def al_update_def al_claim_def MarkSent_def dr_row_def)

lemma dr_early:
  "drift_early dr_decode (drift_applyDefaults dr_cfg) (dr_env (Hour + 20 * Minute)) (post_run dr_decode dr_sent post_empty)
     dr_row 1 dr_finding dr_trade (Fin (3 / 4))"
proof -
  have l: "ListSentForDrift (Hour + 20 * Minute) (15 * Minute) 64 (post_run dr_decode dr_sent post_empty) = [dr_row]"
    unfolding dr_sent_run by (simp add: ListSentForDrift_def pt_rows_def dr_row_def px_default_def)
  have p: "TradePriceAtOrAfter (de_trades (dr_env now)) 1 ''tok'' (Hour + 15 * Minute) = Some (Fin (3 / 4))" for now
    by (simp add: TradePriceAtOrAfter_def dr_env_def dr_price_def new_row_def tsFromTime_def IsZero_def zero_time_def)
  show ?thesis
    using l p
    by (simp add: drift_early_def dr_env_def dr_cfg_def drift_applyDefaults_def Let_def dr_decode_def dr_finding_def
        drift_token_def dr_line_def dr_trade_def t_sub_def sat64_def)
      (simp add: dr_row_def)
qed

theorem drift_longer_windows_lost_witness:
  "px_Clv15m (pt_cols (post_run dr_decode (dr_sent @ Drift dr_cfg (dr_env (Hour + 20 * Minute)) #
       [Drift dr_cfg (dr_env (31 * Hour))]) post_empty) 1) = Some (Fin (1 / 2)) \<and>
   px_Clv1h (pt_cols (post_run dr_decode (dr_sent @ Drift dr_cfg (dr_env (Hour + 20 * Minute)) #
       [Drift dr_cfg (dr_env (31 * Hour))]) post_empty) 1) = None"
proof -
  have i: "al_ID dr_row = 1" by (simp add: dr_row_def)
  have f: "favorableDrift (tf_Side dr_trade) (tf_Price dr_trade) (Fin (3 / 4)) = Fin (1 / 2)" by code_simp
  let ?c = "pt_cols (post_run dr_decode (dr_sent @ Drift dr_cfg (dr_env (Hour + 20 * Minute)) #
       [Drift dr_cfg (dr_env (31 * Hour))]) post_empty) 1"
  have "?c = ?c\<lparr>px_DriftStatus := DriftAvailable, px_Clv15m := Some (Fin (1 / 2)), px_Clv1h := None, px_Clv6h := None,
      px_Clv24h := None\<rparr>"
    using drift_longer_windows_lost [OF dr_early, of "[Drift dr_cfg (dr_env (31 * Hour))]"] unfolding i f .
  then obtain d where "?c = d\<lparr>px_DriftStatus := DriftAvailable, px_Clv15m := Some (Fin (1 / 2)), px_Clv1h := None,
      px_Clv6h := None, px_Clv24h := None\<rparr>" by blast
  then show ?thesis by simp
qed

end
