(* ===== verification/TelegramRouter.thy ===== *)
theory TelegramRouter
  imports TelegramBot
begin

text \<open>
  The routing of outgoing messages (package telegram): the guard (\<open>guard.go\<close>), which inspects the
  body and suppresses disabled surfaces, and the router (\<open>router.go\<close>), which maps a typed surface
  to a chat. Both work over the interface \<open>html_sender\<close>, which the bot and the guard provide.
\<close>

subsection \<open>Surfaces\<close>

definition SurfaceWatchtowerStats :: Surface where "SurfaceWatchtowerStats = ''watchtower_stats''"
definition SurfacePredictionUpdate :: Surface where "SurfacePredictionUpdate = ''prediction_update''"
definition SurfacePredictionStateTransition :: Surface where
  "SurfacePredictionStateTransition = ''prediction_state_transition''"
definition SurfacePredictionBlocked :: Surface where "SurfacePredictionBlocked = ''prediction_blocked''"
definition SurfaceFlowAlert :: Surface where "SurfaceFlowAlert = ''flow_alert''"
definition SurfaceAccumulationAlert :: Surface where "SurfaceAccumulationAlert = ''accumulation_alert''"
definition SurfaceClusterAlert :: Surface where "SurfaceClusterAlert = ''cluster_alert''"
definition SurfaceOwnershipAlert :: Surface where "SurfaceOwnershipAlert = ''ownership_alert''"
definition SurfaceNewsIntelActionable :: Surface where "SurfaceNewsIntelActionable = ''news_intel_actionable''"
definition SurfaceOutcomeFollowup :: Surface where "SurfaceOutcomeFollowup = ''outcome_followup''"
definition SurfaceSignalQualityReport :: Surface where "SurfaceSignalQualityReport = ''signal_quality_report''"
definition SurfaceStrategyScorecard :: Surface where "SurfaceStrategyScorecard = ''strategy_scorecard''"
definition SurfaceOperationalHealth :: Surface where "SurfaceOperationalHealth = ''operational_health''"
definition SurfaceBudgetReport :: Surface where "SurfaceBudgetReport = ''budget_report''"
definition SurfaceSuppressionReport :: Surface where "SurfaceSuppressionReport = ''suppression_report''"
definition SurfaceMarketCloseReview :: Surface where "SurfaceMarketCloseReview = ''market_close_review''"
definition SurfaceGenericMarketIntel :: Surface where "SurfaceGenericMarketIntel = ''generic_market_intel''"
definition SurfaceDailyPoliticalIntel :: Surface where "SurfaceDailyPoliticalIntel = ''daily_political_intel''"
definition SurfaceNoEdge :: Surface where "SurfaceNoEdge = ''no_edge''"

lemmas surface_defs = SurfaceWatchtowerStats_def SurfacePredictionUpdate_def SurfacePredictionStateTransition_def
  SurfacePredictionBlocked_def SurfaceFlowAlert_def SurfaceAccumulationAlert_def SurfaceClusterAlert_def
  SurfaceOwnershipAlert_def SurfaceNewsIntelActionable_def SurfaceOutcomeFollowup_def
  SurfaceSignalQualityReport_def SurfaceStrategyScorecard_def SurfaceOperationalHealth_def
  SurfaceBudgetReport_def SurfaceSuppressionReport_def SurfaceMarketCloseReview_def
  SurfaceGenericMarketIntel_def SurfaceDailyPoliticalIntel_def SurfaceNoEdge_def

definition IsSignalSurface :: "Surface \<Rightarrow> bool" where
  "IsSignalSurface s \<longleftrightarrow> s \<in> {SurfaceFlowAlert, SurfaceAccumulationAlert, SurfaceClusterAlert,
     SurfaceOwnershipAlert, SurfaceNewsIntelActionable, SurfaceOutcomeFollowup}"

definition IsAdminSurface :: "Surface \<Rightarrow> bool" where
  "IsAdminSurface s \<longleftrightarrow> s \<in> {SurfaceSignalQualityReport, SurfaceWatchtowerStats, SurfaceStrategyScorecard,
     SurfaceOperationalHealth, SurfaceBudgetReport, SurfaceSuppressionReport, SurfaceMarketCloseReview}"

definition IsBlockedSurface :: "Surface \<Rightarrow> bool" where
  "IsBlockedSurface s \<longleftrightarrow> s \<in> {SurfaceGenericMarketIntel, SurfaceDailyPoliticalIntel, SurfaceNoEdge,
     SurfacePredictionUpdate, SurfacePredictionStateTransition, SurfacePredictionBlocked}"

text \<open>The three classes do not overlap, so the order in which \<open>Route\<close> tests them is irrelevant.\<close>

lemma surface_classes_disjoint:
  "IsSignalSurface s \<Longrightarrow> \<not> IsAdminSurface s" "IsSignalSurface s \<Longrightarrow> \<not> IsBlockedSurface s"
  "IsAdminSurface s \<Longrightarrow> \<not> IsBlockedSurface s" "IsAdminSurface s \<Longrightarrow> \<not> IsSignalSurface s"
  by (auto simp: IsSignalSurface_def IsAdminSurface_def IsBlockedSurface_def surface_defs)

subsection \<open>The guard\<close>

record GuardConfig =
  gc_WatchtowerStatsEnabled :: bool
  gc_PredictionUpdateEnabled :: bool
  gc_PredictionStateTransitionEnabled :: bool
  gc_PredictionBlockedEnabled :: bool
  gc_SignalChatID :: string

definition AllDisabled :: "GuardConfig \<Rightarrow> bool" where
  "AllDisabled c \<longleftrightarrow> \<not> gc_WatchtowerStatsEnabled c \<and> \<not> gc_PredictionUpdateEnabled c \<and>
     \<not> gc_PredictionStateTransitionEnabled c \<and> \<not> gc_PredictionBlockedEnabled c"

definition adminMarkers :: "string list" where
  "adminMarkers = [''<b>Signal quality '' @ middot @ '' '', ''Signal quality '' @ middot @ '' Daily '',
     ''Signal quality '' @ middot @ '' Weekly '', ''Signal quality '' @ middot @ '' Monthly '',
     ''Signal quality '' @ middot @ '' Quarterly '', ''Signal quality '' @ middot @ '' Yearly '']"

definition isAdminMarkerBody :: "string \<Rightarrow> bool" where
  "isAdminMarkerBody body \<longleftrightarrow> list_ex (\<lambda>marker. Contains body marker) adminMarkers"

definition isPredictionBlocked :: "string \<Rightarrow> bool" where
  "isPredictionBlocked body \<longleftrightarrow>
     Contains body (''PREDICTION UPDATE</b> '' @ middot @ '' blocked'') \<or>
     Contains body (''PREDICTION UPDATE '' @ middot @ '' blocked'') \<or>
     Contains body ''active catalyst blocks repricing'' \<or>
     Contains body (bullet @ '' blocked until:'')"

definition isPredictionStateTransition :: "string \<Rightarrow> bool" where
  "isPredictionStateTransition body \<longleftrightarrow>
     Contains body ''state: '' \<and> (Contains body ('' '' @ arrow @ '' '') \<or> Contains body '' -> '') \<or>
     Contains body ''state_transition:''"

text \<open>\<open>Classify\<close> and \<open>classifyForChat\<close>: the surface and reason of a suppression, if any.\<close>

definition Classify :: "GuardConfig \<Rightarrow> string \<Rightarrow> (Surface \<times> string) option" where
  "Classify cfg body =
     (if (Contains body (''<b>Watchtower stats '' @ emdash @ '' uptime'') \<or>
          Contains body (''Watchtower stats '' @ emdash @ '' uptime'')) \<and> \<not> gc_WatchtowerStatsEnabled cfg
      then Some (SurfaceWatchtowerStats, ''config_disabled'')
      else if isPredictionBlocked body \<and> \<not> gc_PredictionBlockedEnabled cfg
      then Some (SurfacePredictionBlocked, ''config_disabled'')
      else if isPredictionStateTransition body \<and> \<not> gc_PredictionStateTransitionEnabled cfg
      then Some (SurfacePredictionStateTransition, ''config_disabled'')
      else if Contains body ''PREDICTION UPDATE'' \<and> \<not> gc_PredictionUpdateEnabled cfg
      then Some (SurfacePredictionUpdate, ''config_disabled'')
      else None)"

definition classifyForChat :: "GuardConfig \<Rightarrow> string \<Rightarrow> string \<Rightarrow> (Surface \<times> string) option" where
  "classifyForChat cfg chatID body =
     (if gc_SignalChatID cfg \<noteq> '''' \<and> chatID = gc_SignalChatID cfg \<and> isAdminMarkerBody body
      then Some (SurfaceSignalQualityReport, ''admin_marker_on_signal_chat'')
      else Classify cfg body)"

definition guard_SendHTML :: "GuardConfig \<Rightarrow> html_sender \<Rightarrow> html_sender" where
  "guard_SendHTML cfg inner chatID body =
     (case classifyForChat cfg chatID body of
        Some (surface, reason) \<Rightarrow> ([EvGuardSuppressed surface reason], zero_result, None)
      | None \<Rightarrow> inner chatID body)"

subsection \<open>The router\<close>

definition DestinationSignal :: string where "DestinationSignal = ''signal''"
definition DestinationAdmin :: string where "DestinationAdmin = ''admin''"
definition DestinationBlocked :: string where "DestinationBlocked = ''blocked''"
definition DestinationSuppressed :: string where "DestinationSuppressed = ''suppressed''"

lemmas destination_defs [simp] = DestinationSignal_def DestinationAdmin_def DestinationBlocked_def
  DestinationSuppressed_def

record RouteDecision =
  rd_Surface :: Surface
  rd_Destination :: string
  rd_ChatID :: string
  rd_Enabled :: bool
  rd_SuppressionReason :: string

record RouterConfig =
  rc_SignalEnabled :: bool
  rc_SignalChatID :: string
  rc_AdminEnabled :: bool
  rc_AdminChatID :: string
  rc_AllowSameChat :: bool
  rc_AdminSignalQualityReports :: bool
  rc_AdminStats :: bool
  rc_AdminStrategyScorecard :: bool
  rc_AdminOperationalHealth :: bool
  rc_AdminBudgetReports :: bool
  rc_AdminSuppressionReports :: bool

definition rc_Validate :: "RouterConfig \<Rightarrow> string option" where
  "rc_Validate c =
     (if rc_AdminEnabled c \<and> TrimSpace (rc_AdminChatID c) = ''''
      then Some ''telegram router: TELEGRAM_ADMIN_ENABLED=true requires TELEGRAM_ADMIN_CHAT_ID''
      else if rc_AdminChatID c \<noteq> '''' \<and> rc_SignalChatID c \<noteq> '''' \<and> rc_AdminChatID c = rc_SignalChatID c \<and>
              \<not> rc_AllowSameChat c
      then Some (''telegram router: TELEGRAM_ADMIN_CHAT_ID ('' @ rc_AdminChatID c @
             '') must not equal TELEGRAM_CHAT_ID; set TELEGRAM_ALLOW_SAME_CHAT_FOR_ADMIN=true to override'')
      else None)"

definition adminSurfaceEnabled :: "RouterConfig \<Rightarrow> Surface \<Rightarrow> bool" where
  "adminSurfaceEnabled c s =
     (if s = SurfaceSignalQualityReport then rc_AdminSignalQualityReports c
      else if s = SurfaceWatchtowerStats then rc_AdminStats c
      else if s = SurfaceStrategyScorecard then rc_AdminStrategyScorecard c
      else if s = SurfaceOperationalHealth then rc_AdminOperationalHealth c
      else if s = SurfaceBudgetReport then rc_AdminBudgetReports c
      else if s = SurfaceSuppressionReport then rc_AdminSuppressionReports c
      else if s = SurfaceMarketCloseReview then rc_AdminSignalQualityReports c
      else False)"

definition Route :: "RouterConfig \<Rightarrow> Surface \<Rightarrow> RouteDecision" where
  "Route c s =
     (let dec = \<lparr>rd_Surface = s, rd_Destination = '''', rd_ChatID = '''', rd_Enabled = False, rd_SuppressionReason = ''''\<rparr>;
          suppressed = (\<lambda>reason. dec\<lparr>rd_Destination := DestinationSuppressed, rd_SuppressionReason := reason\<rparr>)
      in if IsBlockedSurface s
         then dec\<lparr>rd_Destination := DestinationBlocked, rd_SuppressionReason := ''legacy_surface''\<rparr>
         else if IsSignalSurface s then
           if \<not> rc_SignalEnabled c then suppressed ''signal_disabled''
           else if TrimSpace (rc_SignalChatID c) = '''' then suppressed ''signal_chat_missing''
           else dec\<lparr>rd_Destination := DestinationSignal, rd_ChatID := rc_SignalChatID c, rd_Enabled := True\<rparr>
         else if IsAdminSurface s then
           if \<not> rc_AdminEnabled c then suppressed ''admin_disabled''
           else if TrimSpace (rc_AdminChatID c) = '''' then suppressed ''admin_chat_missing''
           else if \<not> adminSurfaceEnabled c s then suppressed ''admin_surface_disabled''
           else dec\<lparr>rd_Destination := DestinationAdmin, rd_ChatID := rc_AdminChatID c, rd_Enabled := True\<rparr>
         else dec\<lparr>rd_Destination := DestinationBlocked, rd_SuppressionReason := ''unknown_surface''\<rparr>)"

definition routeDecisionLabel :: "RouteDecision \<Rightarrow> string" where
  "routeDecisionLabel d =
     (if rd_Destination d = DestinationSignal \<or> rd_Destination d = DestinationAdmin then ''allowed''
      else if rd_Destination d = DestinationBlocked then ''blocked''
      else if rd_Destination d = DestinationSuppressed then ''suppressed''
      else ''unknown'')"

record Message =
  ms_Surface :: Surface
  ms_HTML :: string
  ms_DisablePreview :: bool
  ms_Metadata :: "string \<rightharpoonup> string"

record Router =
  ro_cfg :: RouterConfig
  ro_inner :: html_sender

definition NewRouter :: "RouterConfig \<Rightarrow> html_sender \<Rightarrow> Router" where
  "NewRouter cfg inner = \<lparr>ro_cfg = cfg, ro_inner = inner\<rparr>"

definition router_Send :: "Router \<Rightarrow> Message \<Rightarrow> tg_event list \<times> SendResult \<times> tg_error option" where
  "router_Send r msg =
     (let dec = Route (ro_cfg r) (ms_Surface msg);
          evs = [EvRoute (ms_Surface msg) (rd_Destination dec) (routeDecisionLabel dec)]
      in if rd_Destination dec = DestinationBlocked
         then (evs @ [EvSuppressed (ms_Surface msg) (rd_Destination dec) (rd_SuppressionReason dec)], zero_result, None)
         else if rd_Destination dec = DestinationSuppressed
         then (evs @ [EvSuppressed (ms_Surface msg) (rd_Destination dec) (rd_SuppressionReason dec)], zero_result, None)
         else if \<not> rd_Enabled dec \<or> rd_ChatID dec = ''''
         then (evs @ [EvSuppressed (ms_Surface msg) (rd_Destination dec) ''decision_unreachable''], zero_result, None)
         else
           (case ro_inner r (rd_ChatID dec) (ms_HTML msg) of
              (sent, res, Some err) \<Rightarrow>
                (evs @ sent @ [EvSendFailed (ms_Surface msg) (rd_Destination dec) (classifySendErr err)], res, Some err)
            | (sent, res, None) \<Rightarrow>
                (evs @ sent @ [EvSent (ms_Surface msg) (rd_Destination dec) ''ok''], res, None)))"

subsection \<open>The transport as an interface\<close>

text \<open>
  What the router needs from the sender below it: every request goes to the chat named in the call
  and carries its text, and nothing is posted that the sender blocks.
\<close>

locale html_transport =
  fixes send :: html_sender
    and blocks :: "string \<Rightarrow> string \<Rightarrow> bool"
  assumes sends_to: "EvRequest rq \<in> set (fst (send c t)) \<Longrightarrow>
      rq_method rq = SendMessage \<and> rq_chat rq = chat_ref c \<and> rq_text rq = t"
    and sends_unblocked: "EvRequest rq \<in> set (fst (send c t)) \<Longrightarrow> \<not> blocks c t"
begin

text \<open>A guard in front of a transport is a transport that also blocks what it classifies.\<close>

lemma guarded:
  "html_transport (guard_SendHTML g send) (\<lambda>c t. blocks c t \<or> classifyForChat g c t \<noteq> None)"
  by unfold_locales
    (auto simp: guard_SendHTML_def split: option.splits dest: sends_to sends_unblocked)

lemma router_requests:
  assumes "EvRequest rq \<in> set (fst (router_Send (NewRouter cfg send) msg))"
  shows "rd_Enabled (Route cfg (ms_Surface msg)) \<and> rq_chat rq = chat_ref (rd_ChatID (Route cfg (ms_Surface msg))) \<and>
    rq_text rq = ms_HTML msg \<and> \<not> blocks (rd_ChatID (Route cfg (ms_Surface msg))) (ms_HTML msg)"
proof -
  let ?c = "rd_ChatID (Route cfg (ms_Surface msg))"
  have "rd_Enabled (Route cfg (ms_Surface msg))" "EvRequest rq \<in> set (fst (send ?c (ms_HTML msg)))"
    using assms by (auto simp: router_Send_def NewRouter_def Let_def split: if_splits prod.splits option.splits)
  then show ?thesis using sends_to sends_unblocked by blast
qed

end

lemma SendHTML_events:
  "fst (SendHTML b c t) = (if TrimSpace c = '''' then []
     else [EvRequest \<lparr>rq_endpoint = endpoint b ''sendMessage'', rq_method = SendMessage, rq_chat = chat_ref c,
                      rq_message_id = 0, rq_text = t\<rparr>])"
  by (simp add: SendHTML_def Let_def)

interpretation bot: html_transport "SendHTML b" "\<lambda>c t. TrimSpace c = ''''" for b
  by unfold_locales (auto simp: SendHTML_events split: if_splits)

interpretation guarded_bot: html_transport "guard_SendHTML g (SendHTML b)"
    "\<lambda>c t. TrimSpace c = '''' \<or> classifyForChat g c t \<noteq> None" for g b
  by (rule bot.guarded)

subsection \<open>What the routing table says\<close>

lemma Route_enabled:
  "rd_Enabled (Route c s) \<Longrightarrow>
     IsSignalSurface s \<and> rc_SignalEnabled c \<and> TrimSpace (rc_SignalChatID c) \<noteq> '''' \<and>
       rd_ChatID (Route c s) = rc_SignalChatID c \<and> rd_Destination (Route c s) = DestinationSignal \<or>
     IsAdminSurface s \<and> rc_AdminEnabled c \<and> TrimSpace (rc_AdminChatID c) \<noteq> '''' \<and> adminSurfaceEnabled c s \<and>
       rd_ChatID (Route c s) = rc_AdminChatID c \<and> rd_Destination (Route c s) = DestinationAdmin"
  by (simp add: Route_def Let_def split: if_splits)

lemma Route_disabled:
  "\<not> rd_Enabled (Route c s) \<Longrightarrow> rd_Destination (Route c s) \<in> {DestinationBlocked, DestinationSuppressed}"
  by (auto simp: Route_def Let_def split: if_splits)

lemma TrimSpace_Nil [simp]: "TrimSpace '''' = ''''"
  by (simp add: TrimSpace_def TrimLeft_def TrimRight_def)

lemma TrimSpace_not_Nil: "TrimSpace s \<noteq> '''' \<Longrightarrow> s \<noteq> ''''"
  by (cases s) (simp_all add: TrimSpace_def TrimLeft_def TrimRight_def)

text \<open>The transport the application wires: the guard around the bot, told the signal chat.\<close>

definition wired :: "RouterConfig \<Rightarrow> GuardConfig \<Rightarrow> Bot \<Rightarrow> Router" where
  "wired cfg g b = NewRouter cfg (guard_SendHTML (g\<lparr>gc_SignalChatID := rc_SignalChatID cfg\<rparr>) (SendHTML b))"

text \<open>C9. The two chats stay apart. Under a configuration that passes \<open>Validate\<close>, with the chats
  required to differ and their identifiers written canonically, a request that leaves the process
  carries the message unchanged, and either its surface is a signal surface, it goes to the signal
  chat and its body carries no admin marker, or its surface is an admin surface switched on in the
  configuration and it goes to the admin chat, which is another chat. No other surface is sent.\<close>

theorem chats_stay_apart:
  assumes "EvRequest rq \<in> set (fst (router_Send (wired cfg g b) msg))"
    and "rc_Validate cfg = None" "\<not> rc_AllowSameChat cfg"
    and "canonical_chat (rc_SignalChatID cfg)" "canonical_chat (rc_AdminChatID cfg)"
  shows "rq_text rq = ms_HTML msg \<and>
    (IsSignalSurface (ms_Surface msg) \<and> rq_chat rq = chat_ref (rc_SignalChatID cfg) \<and>
       \<not> isAdminMarkerBody (ms_HTML msg) \<or>
     IsAdminSurface (ms_Surface msg) \<and> rc_AdminEnabled cfg \<and> adminSurfaceEnabled cfg (ms_Surface msg) \<and>
       rq_chat rq = chat_ref (rc_AdminChatID cfg) \<and>
       (rc_SignalChatID cfg \<noteq> '''' \<longrightarrow> rq_chat rq \<noteq> chat_ref (rc_SignalChatID cfg)))"
proof -
  let ?g = "g\<lparr>gc_SignalChatID := rc_SignalChatID cfg\<rparr>" and ?d = "Route cfg (ms_Surface msg)"
  have r: "rd_Enabled ?d" "rq_chat rq = chat_ref (rd_ChatID ?d)" "rq_text rq = ms_HTML msg"
    "classifyForChat ?g (rd_ChatID ?d) (ms_HTML msg) = None"
    using guarded_bot.router_requests [of rq cfg ?g b msg] assms(1) by (simp_all add: wired_def del: not_None_eq)
  from Route_enabled [OF r(1)] show ?thesis
  proof (elim disjE conjE)
    assume s: "IsSignalSurface (ms_Surface msg)" "TrimSpace (rc_SignalChatID cfg) \<noteq> ''''" "rd_ChatID ?d = rc_SignalChatID cfg"
    then have "\<not> isAdminMarkerBody (ms_HTML msg)"
      using r(4) TrimSpace_not_Nil [OF s(2)] by (simp add: classifyForChat_def split: if_splits)
    then show ?thesis using s r by simp
  next
    assume a: "IsAdminSurface (ms_Surface msg)" "rc_AdminEnabled cfg" "TrimSpace (rc_AdminChatID cfg) \<noteq> ''''"
      "adminSurfaceEnabled cfg (ms_Surface msg)" "rd_ChatID ?d = rc_AdminChatID cfg"
    then have "rc_SignalChatID cfg \<noteq> '''' \<Longrightarrow> rc_AdminChatID cfg \<noteq> rc_SignalChatID cfg"
      using assms(2,3) TrimSpace_not_Nil [OF a(3)] by (auto simp: rc_Validate_def split: if_splits)
    then show ?thesis using a r chat_ref_inj [OF assms(5,4)] by auto
  qed
qed

definition ex_router_cfg :: "string \<Rightarrow> RouterConfig" where
  "ex_router_cfg admin = \<lparr>rc_SignalEnabled = True, rc_SignalChatID = ''-100'', rc_AdminEnabled = True,
     rc_AdminChatID = admin, rc_AllowSameChat = False, rc_AdminSignalQualityReports = True, rc_AdminStats = True,
     rc_AdminStrategyScorecard = False, rc_AdminOperationalHealth = True, rc_AdminBudgetReports = True,
     rc_AdminSuppressionReports = True\<rparr>"

definition ex_guard_cfg :: GuardConfig where
  "ex_guard_cfg = \<lparr>gc_WatchtowerStatsEnabled = False, gc_PredictionUpdateEnabled = False,
     gc_PredictionStateTransitionEnabled = False, gc_PredictionBlockedEnabled = False, gc_SignalChatID = ''''\<rparr>"

definition ex_bot :: Bot where
  "ex_bot = \<lparr>bot_cfg = \<lparr>tc_BotToken = ''t'', tc_BaseURL = ''https://h/'', tc_Timeout = Second\<rparr>,
     bot_do = (\<lambda>rq. Inr (200, ''{}'')), bot_decode = (\<lambda>s. Some 17)\<rparr>"

definition ex_report :: Message where
  "ex_report = \<lparr>ms_Surface = ''signal_quality_report'',
     ms_HTML = ''<b>Signal quality '' @ middot @ '' Daily </b>'', ms_DisablePreview = True, ms_Metadata = Map.empty\<rparr>"

definition ex_request :: "string \<Rightarrow> TgRequest" where
  "ex_request chat = \<lparr>rq_endpoint = ''https://h/bott/sendMessage'', rq_method = SendMessage, rq_chat = chat_ref chat,
     rq_message_id = 0, rq_text = ms_HTML ex_report\<rparr>"

lemma ex_report_sent:
  "EvRequest (ex_request ''-200'') \<in> set (fst (router_Send (wired (ex_router_cfg ''-200'') ex_guard_cfg ex_bot) ex_report))"
  by code_simp

theorem chats_stay_apart_witness:
  "rq_chat (ex_request ''-200'') \<noteq> chat_ref ''-100''"
proof -
  have "rc_Validate (ex_router_cfg ''-200'') = None" "\<not> rc_AllowSameChat (ex_router_cfg ''-200'')"
    "canonical_chat (rc_SignalChatID (ex_router_cfg ''-200''))" "canonical_chat (rc_AdminChatID (ex_router_cfg ''-200''))"
    "\<not> IsSignalSurface (ms_Surface ex_report)" "rc_SignalChatID (ex_router_cfg ''-200'') = ''-100''"
    by code_simp+
  then show ?thesis using chats_stay_apart [OF ex_report_sent] by auto
qed

text \<open>The chats are compared as strings but the bot sends a number when the identifier parses as
  one, so two spellings of one number pass \<open>Validate\<close> although the operator asked for different
  chats, and an admin report is posted to the signal chat: neither the router nor the guard's
  tripwire, which also compares strings, stops it.\<close>

theorem two_spellings_one_chat:
  "\<exists>cfg. rc_Validate cfg = None \<and> \<not> rc_AllowSameChat cfg \<and> rc_SignalChatID cfg \<noteq> rc_AdminChatID cfg \<and>
     isAdminMarkerBody (ms_HTML ex_report) \<and> IsAdminSurface (ms_Surface ex_report) \<and>
     (\<exists>rq. EvRequest rq \<in> set (fst (router_Send (wired cfg ex_guard_cfg ex_bot) ex_report)) \<and>
           rq_chat rq = chat_ref (rc_SignalChatID cfg))"
proof (intro exI conjI)
  show "EvRequest (ex_request ''-0100'') \<in>
      set (fst (router_Send (wired (ex_router_cfg ''-0100'') ex_guard_cfg ex_bot) ex_report))" by code_simp
qed code_simp+

text \<open>The router over the guard over the bot, on every branch: it posts exactly one request when
  the surface is routed and the guard does not recognise a disabled body, none otherwise; when it
  posts nothing it reports success with message id 0, so the caller cannot tell a dropped message
  from a delivered one by its error.\<close>

theorem router_delivery:
  "let d = Route cfg (ms_Surface msg);
       g' = g\<lparr>gc_SignalChatID := rc_SignalChatID cfg\<rparr>;
       out = router_Send (wired cfg g b) msg;
       rqs = [rq. EvRequest rq \<leftarrow> fst out]
   in if rd_Enabled d \<and> classifyForChat g' (rd_ChatID d) (ms_HTML msg) = None
      then length rqs = 1 \<and> rq_chat (hd rqs) = chat_ref (rd_ChatID d) \<and> rq_text (hd rqs) = ms_HTML msg \<and>
           snd out = snd (SendHTML b (rd_ChatID d) (ms_HTML msg))
      else rqs = [] \<and> snd out = (zero_result, None)"
proof (cases "rd_Enabled (Route cfg (ms_Surface msg))")
  case False
  then show ?thesis using Route_disabled [OF False] by (auto simp: router_Send_def wired_def NewRouter_def Let_def)
next
  case True
  let ?d = "Route cfg (ms_Surface msg)"
  have d: "rd_Destination ?d \<noteq> DestinationBlocked" "rd_Destination ?d \<noteq> DestinationSuppressed"
    "TrimSpace (rd_ChatID ?d) \<noteq> ''''"
    using Route_enabled [OF True] by auto
  obtain evs res err where s: "SendHTML b (rd_ChatID ?d) (ms_HTML msg) = (evs, res, err)"
    by (cases "SendHTML b (rd_ChatID ?d) (ms_HTML msg)") auto
  have "evs = fst (SendHTML b (rd_ChatID ?d) (ms_HTML msg))" by (simp add: s)
  then have e: "evs = [EvRequest \<lparr>rq_endpoint = endpoint b ''sendMessage'', rq_method = SendMessage,
      rq_chat = chat_ref (rd_ChatID ?d), rq_message_id = 0, rq_text = ms_HTML msg\<rparr>]"
    using d(3) by (simp add: SendHTML_events)
  show ?thesis using True d s TrimSpace_not_Nil [OF d(3)]
    by (cases err) (auto simp: router_Send_def wired_def NewRouter_def Let_def guard_SendHTML_def e split: option.split)
qed

end
