(* ===== verification/IngestProps.thy ===== *)
theory IngestProps
  imports Ingest
begin

text \<open>
  What the pull loop promises: the pages of the client against the feed they are cut from, and the
  pulls of a market against the trades that appear in its feed.
\<close>

subsection \<open>Paging\<close>

text \<open>The server answers the queries of one client call from one feed, without a value filter.\<close>

definition serves :: "trades_get \<Rightarrow> string \<Rightarrow> int \<Rightarrow> dataTrade list \<Rightarrow> bool" where
  "serves get market ps feed \<longleftrightarrow>
     (\<forall>off. 0 \<le> off \<longrightarrow> off \<le> MaxUpstreamOffset \<longrightarrow>
        get [(''market'', market), (''limit'', fmt_d ps), (''offset'', fmt_d off)] = Inr (take (nat ps) (drop (nat off) feed)))"

definition newest_first :: "dataTrade list \<Rightarrow> bool" where
  "newest_first feed \<longleftrightarrow> sorted_wrt (\<lambda>a b. dx_Timestamp b \<le> dx_Timestamp a) feed"

definition feed_server :: "string \<Rightarrow> dataTrade list \<Rightarrow> trades_get" where
  "feed_server market feed q =
     (case map_of q ''market'' of None \<Rightarrow> Inl ''market''
      | Some m \<Rightarrow> if m \<noteq> market then Inl ''market''
                  else Inr (take (undigits (the (map_of q ''limit''))) (drop (undigits (the (map_of q ''offset''))) feed)))"

lemma newest_first_append: "newest_first (a @ b) \<longleftrightarrow> newest_first a \<and> newest_first b \<and>
   (\<forall>x \<in> set a. \<forall>y \<in> set b. dx_Timestamp y \<le> dx_Timestamp x)"
  by (auto simp: newest_first_def sorted_wrt_append)

lemma early_mono: "dx_Timestamp b \<le> dx_Timestamp a \<Longrightarrow> too_early opts a \<Longrightarrow> too_early opts b"
  by (auto simp: too_early_def dx_time_def)

text \<open>Once a page holds an early trade, nothing after it counts.\<close>

lemma early_rest:
  assumes "newest_first (batch @ rest)" "list_ex (too_early opts) batch"
  shows "filter (\<lambda>t. \<not> too_early opts t) rest = []"
  using assms early_mono by (fastforce simp: newest_first_append filter_empty_conv list_ex_iff)

definition pages :: "int \<Rightarrow> nat" where
  "pages ps = nat (MaxUpstreamOffset div ps) + 1"

lemma pages_cap:
  assumes "0 < p"
  shows "MaxUpstreamOffset < int (i * p) \<longleftrightarrow> pages (int p) \<le> i"
proof -
  have "3000 < i * p \<longleftrightarrow> 3000 div p < i" using assms by (simp add: div_less_iff_less_mult)
  moreover have "nat (3000 div int p) = 3000 div p" by (simp add: nat_div_distrib)
  moreover have "3000 < int (i * p) \<longleftrightarrow> 3000 < i * p" by linarith
  ultimately show ?thesis by (auto simp: pages_def MaxUpstreamOffset_def)
qed

lemma list_pages_eq:
  assumes "serves get (lo_Market opts) (int p) feed" "newest_first feed" "lo_MinValue opts = None" "0 < p"
  shows "list_pages get ff opts (int p) n (int (i * p)) out =
     Inr (out @ map (to_trade (lo_Market opts)) (filter (\<lambda>t. \<not> too_early opts t)
            (take (min n (pages (int p) - i) * p) (drop (i * p) feed))))"
proof (induction n arbitrary: i out)
  case (Suc n)
  note cap = pages_cap [OF assms(4), of i]
  show ?case
  proof (cases "pages (int p) \<le> i")
    case True
    then show ?thesis by (simp add: cap del: of_nat_mult)
  next
    case False
    define batch where "batch = take p (drop (i * p) feed)"
    define rest where "rest = drop (Suc i * p) feed"
    have split: "drop (i * p) feed = batch @ rest"
      unfolding batch_def rest_def by (metis append_take_drop_id drop_drop mult_Suc)
    have nf: "newest_first (batch @ rest)"
      unfolding split [symmetric] using assms(2) by (metis append_take_drop_id newest_first_append)
    have q: "get [(''market'', lo_Market opts), (''limit'', fmt_d (int p)), (''offset'', fmt_d (int (i * p)))] = Inr batch"
      using assms(1) False cap by (simp add: serves_def batch_def del: of_nat_mult)
    define k where "k = min n (pages (int p) - Suc i)"
    have "min (Suc n) (pages (int p) - i) = Suc k" using False by (simp add: k_def)
    then have T: "take (min (Suc n) (pages (int p) - i) * p) (drop (i * p) feed) = batch @ take (k * p) rest"
      by (simp add: take_add batch_def rest_def add.commute)
    have short: "rest = []" if "length batch < p" using that by (simp add: batch_def rest_def)
    have early: "filter (\<lambda>t. \<not> too_early opts t) (take (k * p) rest) = []" if "list_ex (too_early opts) batch"
      using early_rest [OF nf that] by (auto simp: filter_empty_conv dest: in_set_takeD)
    have off: "int (i * p) + int p = int (Suc i * p)" by simp
    have restE: "drop (p + i * p) feed = rest" by (simp add: rest_def)
    have full: "length batch = p" if "\<not> length batch < p" using that by (simp add: batch_def)
    show ?thesis
      unfolding T list_pages.simps buildTradesQuery_def Let_def assms(3) option.case sum.case q off Suc.IH
      using False cap short early full assms(4) restE
      by (auto simp: k_def simp del: of_nat_mult)
  qed
qed simp

text \<open>The paging client: over a feed served newest first and without a value filter, one call returns the
  trades not older than the cut-off among the first maxPages pages that lie below the offset cap,
  in the order of the feed. With the default options this is the newest 3,100 trades: what lies
  behind them is dropped without an error.\<close>

theorem ListTradesSince_spec:
  assumes "serves get (lo_Market opts) (page_size (lo_Limit opts)) feed" "newest_first feed" "lo_MinValue opts = None"
    and "lo_Market opts \<noteq> ''''"
  shows "ListTradesSince get ff opts = Inr (map (to_trade (lo_Market opts)) (filter (\<lambda>t. \<not> too_early opts t)
      (take (min (nat (if lo_MaxPages opts \<le> 0 then defaultMaxPages else lo_MaxPages opts)) (pages (page_size (lo_Limit opts)))
         * nat (page_size (lo_Limit opts))) feed)))"
proof -
  have pos: "0 < page_size (lo_Limit opts)"
    by (simp add: page_size_def defaultPageSize_def maxPageSize_def Let_def)
  then have p: "int (nat (page_size (lo_Limit opts))) = page_size (lo_Limit opts)" by simp
  show ?thesis
    using list_pages_eq [of get opts "nat (page_size (lo_Limit opts))" feed ff _ 0 "[]"] assms pos
    by (simp add: ListTradesSince_def p Let_def)
qed

definition feed_trade :: "string \<Rightarrow> int \<Rightarrow> dataTrade" where
  "feed_trade i secs = \<lparr>dx_TransactionHash = ''0x'' @ i, dx_ConditionID = ''c'', dx_Asset = ''yes'', dx_Side = ''BUY'',
     dx_Size = fl 100, dx_Price = fl 0.5, dx_Timestamp = secs, dx_ProxyWallet = ''w'', dx_ID = i\<rparr>"

definition small_feed :: "dataTrade list" where
  "small_feed = [feed_trade ''d'' 40, feed_trade ''c'' 30, feed_trade ''b'' 20, feed_trade ''a'' 10]"

definition small_opts :: ListTradesOpts where
  "small_opts = \<lparr>lo_Market = ''c'', lo_Since = 20 * Second, lo_Limit = 2, lo_MaxPages = 0, lo_MinValue = None\<rparr>"

lemma feed_server_serves: "0 < ps \<Longrightarrow> serves (feed_server m feed) m ps feed"
  by (auto simp: serves_def feed_server_def fmt_d_def undigits_digits)

lemma ListTradesSince_spec_witness:
  "ListTradesSince (feed_server ''c'' small_feed) (\<lambda>x. []) small_opts =
     Inr (map (to_trade ''c'') [feed_trade ''d'' 40, feed_trade ''c'' 30, feed_trade ''b'' 20])"
proof -
  have o: "lo_Market small_opts = ''c''" "lo_MinValue small_opts = None" "page_size (lo_Limit small_opts) = 2"
    by (simp_all add: small_opts_def page_size_def maxPageSize_def Let_def)
  have "serves (feed_server ''c'' small_feed) ''c'' 2 small_feed" "newest_first small_feed"
    by (simp_all add: feed_server_serves newest_first_def small_feed_def feed_trade_def)
  then show ?thesis
    using ListTradesSince_spec [of "feed_server ''c'' small_feed" small_opts small_feed] unfolding o
    by (simp add: pages_def MaxUpstreamOffset_def small_opts_def defaultMaxPages_def)
       (simp add: small_feed_def too_early_def feed_trade_def dx_time_def IsZero_def zero_time_def)
qed


subsection \<open>Pulls\<close>

text \<open>The database works, with \<open>tid\<close> the ids the trader upsert returns.\<close>

definition db_fine :: "(string \<Rightarrow> int) \<Rightarrow> persist_env \<Rightarrow> bool" where
  "db_fine tid pe \<longleftrightarrow> pe_lookupOK pe \<and> pe_cursorErr pe = None \<and> (\<forall>k. pe_fault pe k = None) \<and>
     (\<forall>ws. pe_traders pe ws = Inr (map (\<lambda>w. (w, tid w)) ws))"

definition feed_input :: "(string \<Rightarrow> int) \<Rightarrow> int \<Rightarrow> string \<Rightarrow> dataTrade \<Rightarrow> InsertTradeInput" where
  "feed_input tid mid market t = insert_input mid (\<lambda>w. if w = '''' then None else Some (tid w)) (to_trade market t)"

definition tt_keys :: "TradeTable \<Rightarrow> string set" where
  "tt_keys tbl = tx_DedupKey ` set (tt_rows tbl)"

lemma upsert_loop_stores:
  assumes "\<forall>t \<in> set ts. trade_valid t" "\<forall>k. fault k = None"
  shows "\<exists>tbl' n'. upsert_loop now fault dedup ts n tbl = (tbl', n', None) \<and> tt_keys tbl' = tt_keys tbl \<union> dedup ` set ts"
  using assms(1)
proof (induction ts arbitrary: n tbl)
  case (Cons t ts)
  have "\<exists>tbl1 b. InsertTrade now (fault (dedup t)) (dedup t) t tbl = (tbl1, Inr b) \<and> tt_keys tbl1 = insert (dedup t) (tt_keys tbl)"
    using Cons.prems assms(2)
    by (auto simp: InsertTrade_def Let_def tt_keys_def new_row_def intro: rev_image_eqI)
  then obtain tbl1 b where i: "InsertTrade now (fault (dedup t)) (dedup t) t tbl = (tbl1, Inr b)"
    "tt_keys tbl1 = insert (dedup t) (tt_keys tbl)" by blast
  show ?case
    using Cons.IH [of "if b then n + 1 else n" tbl1] Cons.prems i
    by (cases b) (auto simp: Let_def)
qed simp

lemma unique_wallets_set: "set (unique_wallets seen ts) = td_Taker ` set ts - set seen - {''''}"
  by (induction seen ts rule: unique_wallets.induct) auto

lemma foldl_ids: "foldl (\<lambda>f tr. f(fst tr \<mapsto> snd tr)) g (map (\<lambda>w. (w, tid w)) ws) w =
   (if w \<in> set ws then Some (tid w) else g w)"
  by (induction ws arbitrary: g) auto

text \<open>The wallet map of a batch, and what storing a batch of valid trades does.\<close>

definition wallet_ids :: "(string \<Rightarrow> int) \<Rightarrow> Trade list \<Rightarrow> string \<rightharpoonup> int" where
  "wallet_ids tid ts = foldl (\<lambda>f tr. f(fst tr \<mapsto> snd tr)) Map.empty (map (\<lambda>w. (w, tid w)) (unique_wallets [] ts))"

lemma wallet_ids_input:
  "t \<in> set ts \<Longrightarrow> insert_input mid (wallet_ids tid ts) t = insert_input mid (\<lambda>w. if w = '''' then None else Some (tid w)) t"
  unfolding wallet_ids_def insert_input_def foldl_ids unique_wallets_set by simp

lemma batch_stored:
  assumes "db_fine tid pe" "set ts = to_trade market ` set new" "\<And>t. t \<in> set new \<Longrightarrow> trade_valid (feed_input tid mid market t)"
  shows "\<exists>tbl' res. UpsertBatch (pe_dbNow pe) (pe_fault pe) (DedupKeyForTrade (pe_digest pe))
      (map (insert_input mid (wallet_ids tid ts)) ts) tbl = (tbl', res, None) \<and>
    tt_keys tbl' = tt_keys tbl \<union> (\<lambda>t. DedupKeyForTrade (pe_digest pe) (feed_input tid mid market t)) ` set new"
proof -
  let ?ins = "map (insert_input mid (wallet_ids tid ts)) ts"
  have ins: "set ?ins = feed_input tid mid market ` set new"
    unfolding set_map using assms(2) by (auto simp: wallet_ids_input feed_input_def image_iff)
  then have v: "\<forall>t \<in> set ?ins. trade_valid t" using assms(3) by auto
  have f: "\<forall>k. pe_fault pe k = None" using assms(1) by (simp add: db_fine_def)
  obtain tbl' n where "upsert_loop (pe_dbNow pe) (pe_fault pe) (DedupKeyForTrade (pe_digest pe)) ?ins 0 tbl = (tbl', n, None)"
    "tt_keys tbl' = tt_keys tbl \<union> DedupKeyForTrade (pe_digest pe) ` set ?ins"
    using upsert_loop_stores [OF v f, where now = "pe_dbNow pe" and dedup = "DedupKeyForTrade (pe_digest pe)" and n = 0 and tbl = tbl]
    by blast
  then show ?thesis unfolding ins by (simp add: UpsertBatch_def image_image)
qed

lemma newest_max: "newest ts = Max (insert zero_time (td_Timestamp ` set ts))"
proof -
  have "foldl (\<lambda>n t. if n < td_Timestamp t then td_Timestamp t else n) z ts = Max (insert z (td_Timestamp ` set ts))" for z
  proof (induction ts arbitrary: z)
    case (Cons t ts)
    have "Max (insert (max z (td_Timestamp t)) (td_Timestamp ` set ts)) = Max (insert z (td_Timestamp ` set (t # ts)))"
      by (cases "ts = []") (simp_all add: max.assoc)
    moreover have "(if z < td_Timestamp t then td_Timestamp t else z) = max z (td_Timestamp t)" by (simp add: max_def)
    ultimately show ?case using Cons.IH by simp
  qed simp
  then show ?thesis by (simp add: newest_def)
qed

text \<open>The id and the cursor of a market in the table.\<close>

definition mkt_id :: "IngestDB \<Rightarrow> string \<Rightarrow> int option" where
  "mkt_id db c = map_option mr_ID (mt_lookup c (in_markets db))"

definition mkt_cursor :: "IngestDB \<Rightarrow> int \<Rightarrow> time option" where
  "mkt_cursor db mid = (case mt_find mid (in_markets db) of None \<Rightarrow> None | Some r \<Rightarrow> mr_LastCollectTradedAt r)"

lemma GetByConditionID_id: "mkt_id db c = Some mid \<Longrightarrow> \<exists>dm. GetByConditionID c (in_markets db) = Some dm \<and> dm_ID dm = mid"
  by (auto simp: mkt_id_def GetByConditionID_def marketFromSQLC_def)

lemma LatestTradedAt_cursor:
  "db_fine tid pe \<Longrightarrow> mkt_id db c = Some mid \<Longrightarrow> mkt_cursor db mid = Some t \<Longrightarrow> LatestTradedAt pe c db = Inr t"
  using GetByConditionID_id [of db c mid]
  by (auto simp: LatestTradedAt_def db_fine_def CollectCursor_def mkt_cursor_def tsTime_def split: option.splits)

lemma UpdateCollectCursor_keeps:
  assumes "mkt_cursor db mid = Some c" "c < t" "0 < t"
  shows "mkt_cursor (db\<lparr>in_trades := tbl, in_markets := UpdateCollectCursor now mid t (in_markets db)\<rparr>) mid = Some t"
    "mkt_id (db\<lparr>in_trades := tbl, in_markets := UpdateCollectCursor now mid t (in_markets db)\<rparr>) m = mkt_id db m"
proof -
  have u: "UpdateCollectCursor now mid t (in_markets db) = mt_update (\<lambda>r. mr_ID r = mid \<and>
      (case mr_LastCollectTradedAt r of None \<Rightarrow> True | Some c \<Rightarrow> c < t)) (\<lambda>r. r\<lparr>mr_LastCollectTradedAt := Some t, mr_UpdatedAt := now\<rparr>) (in_markets db)"
    using assms(3) by (simp add: UpdateCollectCursor_def IsZero_def zero_time_def)
  obtain r where r: "mt_find mid (in_markets db) = Some r" "mr_LastCollectTradedAt r = Some c"
    using assms(1) by (auto simp: mkt_cursor_def split: option.splits)
  moreover have "mr_ID r = mid" using r(1) by (auto simp: mt_find_def find_Some_iff)
  ultimately show "mkt_cursor (db\<lparr>in_trades := tbl, in_markets := UpdateCollectCursor now mid t (in_markets db)\<rparr>) mid = Some t"
    using assms(2) by (simp add: u mkt_cursor_def mt_find_def mt_update_def find_key_map)
  show "mkt_id (db\<lparr>in_trades := tbl, in_markets := UpdateCollectCursor now mid t (in_markets db)\<rparr>) m = mkt_id db m"
    by (cases "mt_lookup m (in_markets db)") (auto simp: u mkt_id_def mt_lookup_def mt_update_def find_key_map)
qed

text \<open>One write-through of valid trades stores all of them and moves the cursor to the newest.\<close>

lemma PersistTrades_stores:
  assumes fine: "db_fine tid pe" and mid: "mkt_id db (mk_ID m) = Some mid" and c: "0 < c"
    and ts: "set ts = to_trade (mk_ID m) ` set new" "new \<noteq> []" "newest_first new" "c < dx_time (hd new)"
    and valid: "\<And>t. t \<in> set new \<Longrightarrow> trade_valid (feed_input tid mid (mk_ID m) t)"
  shows "\<exists>tbl. fst (PersistTrades pe m ts db) =
      db\<lparr>in_trades := tbl, in_markets := UpdateCollectCursor (pe_dbNow pe) mid (dx_time (hd new)) (in_markets db)\<rparr> \<and>
    tt_keys tbl = tt_keys (in_trades db) \<union> (\<lambda>t. DedupKeyForTrade (pe_digest pe) (feed_input tid mid (mk_ID m) t)) ` set new"
proof -
  obtain tbl res where u: "UpsertBatch (pe_dbNow pe) (pe_fault pe) (DedupKeyForTrade (pe_digest pe))
      (map (insert_input mid (wallet_ids tid ts)) ts) (in_trades db) = (tbl, res, None)"
    and keys: "tt_keys tbl = tt_keys (in_trades db) \<union> (\<lambda>t. DedupKeyForTrade (pe_digest pe) (feed_input tid mid (mk_ID m) t)) ` set new"
    using batch_stored [OF fine ts(1), of mid "in_trades db"] valid by blast
  have top: "dx_time t \<le> dx_time (hd new)" if "t \<in> set new" for t
    using that ts(2,3) by (cases new) (auto simp: newest_first_def dx_time_def)
  have "newest ts = dx_time (hd new)"
    unfolding newest_max ts(1) using ts(2,4) top c
    by (intro Max_eqI) (auto simp: to_trade_def zero_time_def image_iff intro: bexI [of _ "hd new"])
  moreover have "ts \<noteq> []" using ts(1,2) by auto
  ultimately have "fst (PersistTrades pe m ts db) =
      db\<lparr>in_trades := tbl, in_markets := UpdateCollectCursor (pe_dbNow pe) mid (dx_time (hd new)) (in_markets db)\<rparr>"
    using fine GetByConditionID_id [OF mid] ts(4) c u
    by (auto simp: PersistTrades_def db_fine_def ps_uniqueWallets_def wallet_ids_def [symmetric] IsZero_def zero_time_def Let_def)
  with keys show ?thesis by blast
qed

text \<open>
  The rounds of one market: before each pull the trades \<open>new\<close> have appeared on top of the feed, in
  strictly later seconds than what was there, valid, and at most as many as one pull can read.
\<close>

fun rounds_ok :: "(string \<Rightarrow> int) \<Rightarrow> (int \<Rightarrow> string \<Rightarrow> int option \<Rightarrow> time \<Rightarrow> float64 \<Rightarrow> float64 \<Rightarrow> string \<Rightarrow> string) \<Rightarrow> int \<Rightarrow> string
    \<Rightarrow> dataTrade list \<Rightarrow> (pull_env \<times> dataTrade list) list \<Rightarrow> bool" where
  "rounds_ok tid dg mid market old [] = True"
| "rounds_ok tid dg mid market old ((pu, new) # rs) =
     (serves (pu_get pu) market 100 (new @ old) \<and> newest_first new \<and> length new \<le> 3100 \<and>
      (\<forall>n \<in> set new. trade_valid (feed_input tid mid market n) \<and> (\<forall>t \<in> set old. dx_Timestamp t < dx_Timestamp n)) \<and>
      db_fine tid (pu_pe pu) \<and> pe_digest (pu_pe pu) = dg \<and> rounds_ok tid dg mid market (new @ old) rs)"

definition feed_after :: "dataTrade list \<Rightarrow> (pull_env \<times> dataTrade list) list \<Rightarrow> dataTrade list" where
  "feed_after old rs = foldl (\<lambda>f r. snd r @ f) old rs"

definition pulls :: "'s col_Loop \<Rightarrow> Market \<Rightarrow> (pull_env \<times> dataTrade list) list \<Rightarrow> IngestDB \<times> 's \<Rightarrow> IngestDB \<times> 's" where
  "pulls l m rs st = foldl (\<lambda>st r. pull l (fst r) m st) st rs"

definition all_stored :: "(string \<Rightarrow> int) \<Rightarrow> (int \<Rightarrow> string \<Rightarrow> int option \<Rightarrow> time \<Rightarrow> float64 \<Rightarrow> float64 \<Rightarrow> string \<Rightarrow> string) \<Rightarrow> int
    \<Rightarrow> string \<Rightarrow> dataTrade list \<Rightarrow> IngestDB \<Rightarrow> bool" where
  "all_stored tid dg mid market feed db \<longleftrightarrow>
     (\<forall>t \<in> set feed. DedupKeyForTrade dg (feed_input tid mid market t) \<in> tt_keys (in_trades db))"

text \<open>A feed the cursor is in step with: everything in it is stored and the cursor is its newest second.\<close>

definition in_step :: "(string \<Rightarrow> int) \<Rightarrow> (int \<Rightarrow> string \<Rightarrow> int option \<Rightarrow> time \<Rightarrow> float64 \<Rightarrow> float64 \<Rightarrow> string \<Rightarrow> string) \<Rightarrow> int
    \<Rightarrow> string \<Rightarrow> dataTrade list \<Rightarrow> IngestDB \<Rightarrow> bool" where
  "in_step tid dg mid market feed db \<longleftrightarrow> market \<noteq> '''' \<and> feed \<noteq> [] \<and> newest_first feed \<and> 0 < dx_Timestamp (hd feed) \<and>
     mkt_id db market = Some mid \<and> mkt_cursor db mid = Some (dx_time (hd feed)) \<and> all_stored tid dg mid market feed db"

lemma pull_reads:
  assumes "serves get market 100 (new @ old)" "newest_first (new @ old)" "length new \<le> 3100" "market \<noteq> ''''"
    and "old \<noteq> []" "0 < dx_Timestamp (hd old)" "\<forall>n \<in> set new. \<forall>t \<in> set old. dx_Timestamp t < dx_Timestamp n"
  shows "ListTradesSince get ff \<lparr>lo_Market = market, lo_Since = dx_time (hd old) + Second, lo_Limit = 0, lo_MaxPages = 0,
      lo_MinValue = None\<rparr> = Inr (map (to_trade market) new)"
proof -
  let ?o = "\<lparr>lo_Market = market, lo_Since = dx_time (hd old) + Second, lo_Limit = 0, lo_MaxPages = 0, lo_MinValue = None\<rparr>"
  have late: "\<not> too_early ?o t" if "t \<in> set new" for t
  proof -
    have "dx_Timestamp (hd old) < dx_Timestamp t" using assms(5,7) that by simp
    then show ?thesis by (simp add: too_early_def dx_time_def)
  qed
  have early: "too_early ?o t" if "t \<in> set old" for t
  proof -
    have "dx_Timestamp t \<le> dx_Timestamp (hd old)"
      using assms(2,5) that by (cases old) (auto simp: newest_first_def sorted_wrt_append)
    then show ?thesis using assms(6) by (simp add: too_early_def dx_time_def IsZero_def zero_time_def)
  qed
  have "filter (\<lambda>t. \<not> too_early ?o t) (take 3100 (new @ old)) = new"
    using assms(3) late early by (auto simp: filter_empty_conv dest: in_set_takeD)
  moreover have ps: "page_size 0 = 100" by (simp add: page_size_def defaultPageSize_def maxPageSize_def)
  moreover have "list_pages get ff ?o (int 100) 50 (int (0 * 100)) [] = Inr ([] @ map (to_trade (lo_Market ?o))
      (filter (\<lambda>t. \<not> too_early ?o t) (take (min 50 (pages (int 100) - 0) * 100) (drop (0 * 100) (new @ old)))))"
    by (rule list_pages_eq) (use assms in simp_all)
  ultimately show ?thesis
    using assms(4) by (simp add: ListTradesSince_def defaultMaxPages_def pages_def MaxUpstreamOffset_def)
qed

lemma pull_in_step:
  assumes "co_Persist l" "in_step tid dg mid (mk_ID m) old (fst st)" "rounds_ok tid dg mid (mk_ID m) old ((pu, new) # rs)"
  shows "in_step tid dg mid (mk_ID m) (new @ old) (fst (pull l pu m st))"
proof -
  let ?db = "fst st"
  have fine: "db_fine tid (pu_pe pu)" and dg: "pe_digest (pu_pe pu) = dg" and valid: "\<forall>n \<in> set new. trade_valid (feed_input tid mid (mk_ID m) n)"
    and later: "\<forall>n \<in> set new. \<forall>t \<in> set old. dx_Timestamp t < dx_Timestamp n"
    and old: "old \<noteq> []" "0 < dx_Timestamp (hd old)" "mkt_id ?db (mk_ID m) = Some mid" "mkt_cursor ?db mid = Some (dx_time (hd old))"
    and nf: "newest_first new"
    using assms(2,3) by (simp_all add: in_step_def)
  have nf2: "newest_first (new @ old)" using assms(2,3) by (force simp: in_step_def newest_first_append)
  have look: "lookback l pu m ?db = dx_time (hd old) + Second"
    using assms(1) old(2) by (simp add: lookback_def LatestTradedAt_cursor [OF fine old(3,4)] IsZero_def zero_time_def dx_time_def)
  have read: "ListTradesSince (pu_get pu) (pu_ff pu) \<lparr>lo_Market = mk_ID m, lo_Since = lookback l pu m ?db, lo_Limit = 0, lo_MaxPages = 0,
      lo_MinValue = None\<rparr> = Inr (map (to_trade (mk_ID m)) new)"
    unfolding look by (rule pull_reads) (use assms(2,3) nf2 in \<open>simp_all add: in_step_def\<close>)
  show ?thesis
  proof (cases "new = []")
    case True
    then show ?thesis using assms(2) read by (simp add: pull_def)
  next
    case False
    let ?ts = "sort_key td_Timestamp (map (to_trade (mk_ID m)) new)"
    have hd: "dx_time (hd old) < dx_time (hd new)" "0 < dx_time (hd old)"
      using later old False by (simp_all add: dx_time_def)
    have ts: "set ?ts = to_trade (mk_ID m) ` set new" by simp
    have v: "\<And>t. t \<in> set new \<Longrightarrow> trade_valid (feed_input tid mid (mk_ID m) t)" using valid by blast
    obtain tbl where p: "fst (PersistTrades (pu_pe pu) m ?ts ?db) =
        ?db\<lparr>in_trades := tbl, in_markets := UpdateCollectCursor (pe_dbNow (pu_pe pu)) mid (dx_time (hd new)) (in_markets ?db)\<rparr>"
      "tt_keys tbl = tt_keys (in_trades ?db) \<union> (\<lambda>t. DedupKeyForTrade dg (feed_input tid mid (mk_ID m) t)) ` set new"
      using PersistTrades_stores [OF fine old(3) hd(2) ts False nf hd(1) v] unfolding dg by blast
    have "fst (pull l pu m st) =
        ?db\<lparr>in_trades := tbl, in_markets := UpdateCollectCursor (pe_dbNow (pu_pe pu)) mid (dx_time (hd new)) (in_markets ?db)\<rparr>"
      using read False assms(1) p(1) by (simp add: pull_def Let_def)
    moreover have "0 < dx_time (hd new)" using hd by simp
    ultimately show ?thesis
      using assms(2) False nf2 p(2) UpdateCollectCursor_keeps [OF old(4) hd(1)] by (auto simp: in_step_def all_stored_def dx_time_def)
  qed
qed

text \<open>C13. No trade is lost while the assumptions of the cursor hold: if before every pull the new trades of a
  market lie in strictly later seconds than the older ones, satisfy the checks of the table and are
  at most 3,100, and the database answers, then after any number of pulls every trade of the feed is
  in the table under its dedup key and the cursor stands at the newest one.\<close>

theorem no_trade_lost:
  assumes "co_Persist l" "in_step tid dg mid (mk_ID m) old (fst st)" "rounds_ok tid dg mid (mk_ID m) old rs"
  shows "all_stored tid dg mid (mk_ID m) (feed_after old rs) (fst (pulls l m rs st)) \<and>
    mkt_cursor (fst (pulls l m rs st)) mid = Some (dx_time (hd (feed_after old rs)))"
proof -
  have "in_step tid dg mid (mk_ID m) (feed_after old rs) (fst (pulls l m rs st))"
    using assms(2,3)
  proof (induction rs arbitrary: old st)
    case (Cons r rs)
    obtain pu new where r: "r = (pu, new)" by fastforce
    have "in_step tid dg mid (mk_ID m) (new @ old) (fst (pull l pu m st))"
      using pull_in_step [OF assms(1)] Cons.prems r by blast
    moreover have "rounds_ok tid dg mid (mk_ID m) (new @ old) rs" using Cons.prems(2) r by simp
    ultimately show ?case using Cons.IH r by (simp add: feed_after_def pulls_def)
  qed (simp add: feed_after_def pulls_def)
  then show ?thesis by (simp add: in_step_def)
qed

definition ingest_market :: Market where
  "ingest_market = market_2024\<lparr>mk_ID := ''c''\<rparr>"

definition ingest_loop :: "unit col_Loop" where
  "ingest_loop = co_New 0 0 True None"

definition ingest_digest :: "int \<Rightarrow> string \<Rightarrow> int option \<Rightarrow> time \<Rightarrow> float64 \<Rightarrow> float64 \<Rightarrow> string \<Rightarrow> string" where
  "ingest_digest mid tok tr ts p s side = tok"

definition ingest_env :: "dataTrade list \<Rightarrow> pull_env" where
  "ingest_env feed =
     \<lparr>pu_now = 100 * Second, pu_get = feed_server ''c'' feed, pu_ff = (\<lambda>x. []),
      pu_pe = \<lparr>pe_lookupOK = True, pe_traders = (\<lambda>ws. Inr (map (\<lambda>w. (w, 7)) ws)), pe_dbNow = 100 * Second,
        pe_fault = (\<lambda>k. None), pe_cursorErr = None, pe_digest = ingest_digest\<rparr>\<rparr>"

definition ingest_old :: "dataTrade list" where
  "ingest_old = [feed_trade ''a'' 10]"

definition ingest_db :: IngestDB where
  "ingest_db = \<lparr>in_markets = UpdateCollectCursor 0 1 (10 * Second) (fst (UpsertMarket 0
        \<lparr>um_ConditionID = ''c'', um_Slug = [], um_Question = [], um_EventSlug = [], um_EventTitle = [], um_StartDate = zero_time,
         um_EndDate = zero_time, um_Closed = False, um_CategoryIDs = []\<rparr>
        \<lparr>mt_rows = [], mt_next = 1, mt_links = [], mt_outcomes = Map.empty\<rparr>)),
     in_trades = fst (InsertTrade 0 None ''ext:a'' (feed_input (\<lambda>w. 7) 1 ''c'' (feed_trade ''a'' 10)) \<lparr>tt_rows = [], tt_next = 1\<rparr>)\<rparr>"

lemma feed_trade_valid: "trade_valid (feed_input tid mid m (feed_trade i s)) \<longleftrightarrow> s * Second \<noteq> zero_time"
proof -
  have "0 < fl 0.5" "fl 0.5 < 1" "0 < fl 100" "0 \<le> fl 100 * fl 0.5" by code_simp+
  then show ?thesis
    by (simp add: trade_valid_def feed_input_def insert_input_def to_trade_def feed_trade_def mapSide_def NotionalUSD_def
      IsZero_def dx_time_def)
qed

lemma ingest_db_in_step: "in_step (\<lambda>w. 7) ingest_digest 1 ''c'' ingest_old ingest_db"
proof -
  have "mkt_id ingest_db ''c'' = Some 1" "mkt_cursor ingest_db 1 = Some (10 * Second)" by code_simp+
  then show ?thesis
    by (simp add: in_step_def ingest_old_def newest_first_def all_stored_def dx_time_def)
       (simp add: ingest_db_def InsertTrade_def feed_trade_valid tt_keys_def new_row_def zero_time_def,
        simp add: feed_trade_def DedupKeyForTrade_def feed_input_def insert_input_def to_trade_def)
qed

lemma ingest_env_fine: "db_fine (\<lambda>w. 7) (pu_pe (ingest_env feed))" "pe_digest (pu_pe (ingest_env feed)) = ingest_digest"
  "serves (pu_get (ingest_env feed)) ''c'' 100 feed"
  by (simp_all add: db_fine_def ingest_env_def feed_server_serves)

lemma no_trade_lost_witness:
  "all_stored (\<lambda>w. 7) ingest_digest 1 ''c'' small_feed (fst (pulls ingest_loop ingest_market
     [(ingest_env (drop 1 small_feed), [feed_trade ''c'' 30, feed_trade ''b'' 20]), (ingest_env (drop 1 small_feed), []),
      (ingest_env small_feed, [feed_trade ''d'' 40])] (ingest_db, ())))"
proof -
  let ?rs = "[(ingest_env (drop 1 small_feed), [feed_trade ''c'' 30, feed_trade ''b'' 20]), (ingest_env (drop 1 small_feed), []),
      (ingest_env small_feed, [feed_trade ''d'' 40])]"
  have c: "mk_ID ingest_market = ''c''" by (simp add: ingest_market_def)
  have "rounds_ok (\<lambda>w. 7) ingest_digest 1 ''c'' ingest_old ?rs"
    using ingest_env_fine [of "drop 1 small_feed"] ingest_env_fine [of small_feed]
    by (simp add: feed_trade_valid zero_time_def small_feed_def ingest_old_def newest_first_def)
       (simp add: feed_trade_def)
  moreover have "feed_after ingest_old ?rs = small_feed" by (simp add: feed_after_def ingest_old_def small_feed_def)
  moreover have "co_Persist ingest_loop" by (simp add: ingest_loop_def co_New_def)
  ultimately show ?thesis
    using no_trade_lost [of ingest_loop "\<lambda>w. 7" ingest_digest 1 ingest_market ingest_old "(ingest_db, ())" ?rs] ingest_db_in_step
    unfolding c by simp
qed

text \<open>A trade that becomes visible in the second of the cursor is lost: the next pull starts one second
  after the newest stored trade, so a later page that shows a second trade of that second never
  stores it, and neither does any pull after it.\<close>

theorem same_second_trade_lost:
  "let feed = [feed_trade ''b'' 10, feed_trade ''a'' 10];
       st = pulls ingest_loop ingest_market (replicate 3 (ingest_env feed, feed)) (ingest_db, ())
   in feed_input (\<lambda>w. 7) 1 ''c'' (feed_trade ''b'' 10) \<noteq> feed_input (\<lambda>w. 7) 1 ''c'' (feed_trade ''a'' 10) \<and>
      trade_valid (feed_input (\<lambda>w. 7) 1 ''c'' (feed_trade ''b'' 10)) \<and>
      map tx_DedupKey (tt_rows (in_trades (fst st))) = [''ext:a'']"
  by code_simp

text \<open>The sorted batch starts with a trade older than all others.\<close>

lemma sort_key_least: "\<forall>x \<in> set xs. f b < f x \<Longrightarrow> sort_key f (xs @ [b]) = b # sort_key f xs"
  by (induction xs) (auto simp: sort_key_def)

text \<open>The rounds of a market while one invalid trade \<open>bad\<close> lies directly above the stored ones.\<close>

definition stuck_round :: "(string \<Rightarrow> int) \<Rightarrow> string \<Rightarrow> dataTrade \<Rightarrow> dataTrade list \<Rightarrow> pull_env \<times> dataTrade list \<Rightarrow> bool" where
  "stuck_round tid market bad old r \<longleftrightarrow> serves (pu_get (fst r)) market 100 (snd r @ bad # old) \<and> newest_first (snd r) \<and>
     length (snd r) < 3100 \<and> (\<forall>n \<in> set (snd r). dx_Timestamp bad < dx_Timestamp n) \<and> db_fine tid (pu_pe (fst r))"

definition unmoved :: "int \<Rightarrow> IngestDB \<Rightarrow> IngestDB \<Rightarrow> bool" where
  "unmoved mid db db' \<longleftrightarrow> tt_keys (in_trades db') = tt_keys (in_trades db) \<and> mkt_cursor db' mid = mkt_cursor db mid \<and>
     in_markets db' = in_markets db"

lemma pull_stuck:
  assumes "co_Persist l" "in_step tid dg mid (mk_ID m) old (fst st)" "stuck_round tid (mk_ID m) bad old (pu, news)"
    and "\<not> trade_valid (feed_input tid mid (mk_ID m) bad)" "\<forall>t \<in> set old. dx_Timestamp t < dx_Timestamp bad"
  shows "unmoved mid (fst st) (fst (pull l pu m st))"
proof -
  let ?db = "fst st" and ?ts = "map (to_trade (mk_ID m)) (news @ [bad])"
  have fine: "db_fine tid (pu_pe pu)" and nw: "\<forall>n \<in> set news. dx_Timestamp bad < dx_Timestamp n" and nf: "newest_first news"
    and old: "old \<noteq> []" "0 < dx_Timestamp (hd old)" "mkt_id ?db (mk_ID m) = Some mid" "mkt_cursor ?db mid = Some (dx_time (hd old))"
    using assms(2,3) by (simp_all add: in_step_def stuck_round_def)
  have nf2: "newest_first ((news @ [bad]) @ old)" using assms(2,5) nw nf
    by (force simp: in_step_def newest_first_append newest_first_def sorted_wrt_append)
  have look: "lookback l pu m ?db = dx_time (hd old) + Second"
    using assms(1) old(2) by (simp add: lookback_def LatestTradedAt_cursor [OF fine old(3,4)] IsZero_def zero_time_def dx_time_def)
  have read: "ListTradesSince (pu_get pu) (pu_ff pu) \<lparr>lo_Market = mk_ID m, lo_Since = lookback l pu m ?db, lo_Limit = 0, lo_MaxPages = 0,
      lo_MinValue = None\<rparr> = Inr ?ts"
    unfolding look by (rule pull_reads) (use assms(2,3,5) nf2 nw in \<open>auto simp: in_step_def stuck_round_def dest: less_trans\<close>)
  let ?rest = "sort_key td_Timestamp (map (to_trade (mk_ID m)) news)"
  have sorted: "sort_key td_Timestamp ?ts = to_trade (mk_ID m) bad # ?rest"
    unfolding map_append list.map by (rule sort_key_least) (use nw in \<open>simp add: to_trade_def dx_time_def\<close>)
  define ts where "ts = sort_key td_Timestamp ?ts"
  obtain rest where ins: "map (insert_input mid (wallet_ids tid ts)) ts = feed_input tid mid (mk_ID m) bad # rest" and ne: "ts \<noteq> []"
    unfolding ts_def sorted by (simp add: wallet_ids_input feed_input_def)
  have "\<exists>tbl res e. UpsertBatch (pe_dbNow (pu_pe pu)) (pe_fault (pu_pe pu)) (DedupKeyForTrade (pe_digest (pu_pe pu)))
      (feed_input tid mid (mk_ID m) bad # rest) (in_trades ?db) = (tbl, res, Some e) \<and> tt_keys tbl = tt_keys (in_trades ?db)"
    using fine assms(4) by (simp add: UpsertBatch_def InsertTrade_def db_fine_def tt_keys_def Let_def)
  then obtain tbl res e where "UpsertBatch (pe_dbNow (pu_pe pu)) (pe_fault (pu_pe pu)) (DedupKeyForTrade (pe_digest (pu_pe pu)))
      (map (insert_input mid (wallet_ids tid ts)) ts) (in_trades ?db) = (tbl, res, Some e)" "tt_keys tbl = tt_keys (in_trades ?db)"
    unfolding ins by blast
  then have "unmoved mid ?db (fst (PersistTrades (pu_pe pu) m ts ?db))"
    using fine GetByConditionID_id [OF old(3)] ne
    by (auto simp: PersistTrades_def db_fine_def ps_uniqueWallets_def wallet_ids_def [symmetric] unmoved_def mkt_cursor_def Let_def)
  then show ?thesis using read assms(1) by (simp add: pull_def ts_def Let_def)
qed

text \<open>A trade the table refuses blocks its market: while it is the oldest trade above the stored ones (a
  price of exactly 1, say), every pull stops at it, nothing newer of the market is stored, and the
  cursor never moves, however many pulls run.\<close>

theorem poison_trade_blocks:
  assumes "co_Persist l" "in_step tid dg mid (mk_ID m) old (fst st)"
    and "\<not> trade_valid (feed_input tid mid (mk_ID m) bad)" "list_all (\<lambda>t. dx_Timestamp t < dx_Timestamp bad) old"
    and "list_all (stuck_round tid (mk_ID m) bad old) rs"
  shows "unmoved mid (fst st) (fst (pulls l m rs st))"
  using assms(2,5)
proof (induction rs arbitrary: st)
  case Nil
  then show ?case by (simp add: pulls_def unmoved_def)
next
  case (Cons r rs)
  have one: "unmoved mid (fst st) (fst (pull l (fst r) m st))"
    using pull_stuck [OF assms(1) Cons.prems(1), of bad "fst r" "snd r"] assms(3,4) Cons.prems(2) by (simp add: list_all_iff)
  then have "in_step tid dg mid (mk_ID m) old (fst (pull l (fst r) m st))"
    using Cons.prems(1) by (simp add: in_step_def unmoved_def all_stored_def mkt_id_def)
  then have "unmoved mid (fst (pull l (fst r) m st)) (fst (pulls l m rs (pull l (fst r) m st)))"
    using Cons.IH Cons.prems(2) by simp
  then show ?case using one by (simp add: pulls_def unmoved_def)
qed

lemma poison_trade_blocks_witness:
  "let bad = (feed_trade ''x'' 20)\<lparr>dx_Price := 1\<rparr>; feed = [feed_trade ''c'' 30, bad] @ ingest_old
   in unmoved 1 ingest_db (fst (pulls ingest_loop ingest_market (replicate 5 (ingest_env feed, [feed_trade ''c'' 30])) (ingest_db, ())))"
proof -
  let ?bad = "(feed_trade ''x'' 20)\<lparr>dx_Price := 1\<rparr>"
  let ?feed = "[feed_trade ''c'' 30, ?bad] @ ingest_old"
  have c: "mk_ID ingest_market = ''c''" by (simp add: ingest_market_def)
  have "\<not> trade_valid (feed_input (\<lambda>w. 7) 1 ''c'' ?bad)"
    by (simp add: trade_valid_def feed_input_def insert_input_def to_trade_def)
  moreover have "list_all (\<lambda>t. dx_Timestamp t < dx_Timestamp ?bad) ingest_old" by (simp add: ingest_old_def feed_trade_def)
  moreover have "stuck_round (\<lambda>w. 7) ''c'' ?bad ingest_old (ingest_env ?feed, [feed_trade ''c'' 30])"
    using ingest_env_fine [of ?feed] by (simp add: stuck_round_def newest_first_def feed_trade_def)
  moreover have "co_Persist ingest_loop" by (simp add: ingest_loop_def co_New_def)
  ultimately show ?thesis
    using poison_trade_blocks [of ingest_loop "\<lambda>w. 7" ingest_digest 1 ingest_market ingest_old "(ingest_db, ())" ?bad
      "replicate 5 (ingest_env ?feed, [feed_trade ''c'' 30])"] ingest_db_in_step
    unfolding c by (simp add: list_all_iff)
qed

end
