(* ===== verification/Backfill.thy ===== *)
theory Backfill
  imports IngestProps MarketLife
begin

text \<open>
  The backfill worker (package backfill): it takes the markets listed for the backfill and walks the
  pages of their history, each stored before the next is read. The environment gives per page the
  state of the context, the HTTP exchange and what the database answers; per market which of its two
  status updates succeed.
\<close>

subsection \<open>The worker\<close>

record bf_Config =
  bf_Interval :: duration
  bf_BatchSize :: int
  bf_Concurrency :: int
  bf_PageSize :: int
  bf_StaleAfter :: duration
  bf_PartialRetryAfter :: duration

definition bf_New :: "bf_Config \<Rightarrow> bf_Config" where
  "bf_New cfg =
     (let cfg = (if bf_Interval cfg \<le> 0 then cfg\<lparr>bf_Interval := Minute\<rparr> else cfg);
          cfg = (if bf_BatchSize cfg \<le> 0 then cfg\<lparr>bf_BatchSize := 4\<rparr> else cfg);
          cfg = (if bf_Concurrency cfg \<le> 0 then cfg\<lparr>bf_Concurrency := 2\<rparr> else cfg);
          cfg = (if bf_PageSize cfg \<le> 0 \<or> 500 < bf_PageSize cfg then cfg\<lparr>bf_PageSize := 500\<rparr> else cfg);
          cfg = (if bf_StaleAfter cfg \<le> 0 then cfg\<lparr>bf_StaleAfter := 15 * Minute\<rparr> else cfg);
          cfg = (if bf_PartialRetryAfter cfg \<le> 0 then cfg\<lparr>bf_PartialRetryAfter := 6 * Hour\<rparr> else cfg)
      in cfg)"

record bf_page =
  bp_ctxDone :: bool
  bp_get :: trades_get
  bp_pe :: persist_env

text \<open>An error of a run: the context's own, or one with a text.\<close>

datatype bf_error = CtxErr | PageErr string

definition bf_uniqueWallets :: "Trade list \<Rightarrow> string list" where
  "bf_uniqueWallets trades = (if trades = [] then [] else unique_wallets [] trades)"

definition page_oldest :: "Trade list \<Rightarrow> time" where
  "page_oldest page = foldl (\<lambda>acc t. if IsZero acc \<or> td_Timestamp t < acc then td_Timestamp t else acc) zero_time page"

definition persistPage :: "persist_env \<Rightarrow> int \<Rightarrow> Trade list \<Rightarrow> TradeTable \<Rightarrow> TradeTable \<times> (string + time \<times> time)" where
  "persistPage pe mid page tbl =
     (case pe_traders pe (bf_uniqueWallets page) of
        Inl e \<Rightarrow> (tbl, Inl (''upsert traders: '' @ e))
      | Inr traders \<Rightarrow>
          (let idByWallet = foldl (\<lambda>f tr. f(fst tr \<mapsto> snd tr)) Map.empty traders
           in case UpsertBatch (pe_dbNow pe) (pe_fault pe) (DedupKeyForTrade (pe_digest pe))
                     (map (insert_input mid idByWallet) page) tbl of
                (tbl, res, Some e) \<Rightarrow> (tbl, Inl (''upsert trades: '' @ e))
              | (tbl, res, None) \<Rightarrow> (tbl, Inr (page_oldest page, newest page))))"

partial_function (option) run_pages :: "int \<Rightarrow> (nat \<Rightarrow> bf_page) \<Rightarrow> string \<Rightarrow> int \<Rightarrow> nat \<Rightarrow> int \<Rightarrow> time \<Rightarrow> time \<Rightarrow> TradeTable
    \<Rightarrow> (TradeTable \<times> time \<times> time \<times> (bf_error + string)) option" where
  "run_pages ps env cond mid k offset oldest latest tbl =
     (if bp_ctxDone (env k) then Some (tbl, oldest, latest, Inl CtxErr)
      else case ListTradesPage (bp_get (env k)) cond offset ps of
             Inl e \<Rightarrow> Some (tbl, oldest, latest,
                        if e = ErrOffsetCapExceeded then Inr BackfillPartialAPILimit else Inl (PageErr e))
           | Inr page \<Rightarrow>
               if page = [] then Some (tbl, oldest, latest, Inr BackfillCompleted)
               else
                 (case persistPage (bp_pe (env k)) mid page tbl of
                    (tbl, Inl e) \<Rightarrow> Some (tbl, oldest, latest, Inl (PageErr (''persist page offset='' @ fmt_d offset @ '': '' @ e)))
                  | (tbl, Inr (pOldest, pNewest)) \<Rightarrow>
                      (let oldest = (if IsZero oldest \<or> pOldest < oldest then pOldest else oldest);
                           latest = (if latest < pNewest then pNewest else latest)
                       in if int (length page) < ps then Some (tbl, oldest, latest, Inr BackfillCompleted)
                          else run_pages ps env cond mid (Suc k) (offset + ps) oldest latest tbl)))"

declare run_pages.simps [code]

definition runPages :: "bf_Config \<Rightarrow> (nat \<Rightarrow> bf_page) \<Rightarrow> db_Market \<Rightarrow> TradeTable
    \<Rightarrow> (TradeTable \<times> time \<times> time \<times> (bf_error + string)) option" where
  "runPages cfg env m tbl = run_pages (bf_PageSize cfg) env (dm_ConditionID m) (dm_ID m) 0 0 zero_time zero_time tbl"

text \<open>\<open>be_isCancel\<close> is the test for a cancelled or expired context inside an error.\<close>

record bf_env =
  be_beginOK :: bool
  be_beginNow :: time
  be_pages :: "nat \<Rightarrow> bf_page"
  be_isCancel :: "string \<Rightarrow> bool"
  be_endOK :: bool
  be_endNow :: time

definition backfillOne :: "bf_Config \<Rightarrow> bf_env \<Rightarrow> db_Market \<Rightarrow> IngestDB \<Rightarrow> IngestDB option" where
  "backfillOne cfg e m db =
     (if \<not> be_beginOK e then Some db
      else
        (let db = db\<lparr>in_markets := BeginBackfill (be_beginNow e) (dm_ID m) (in_markets db)\<rparr>
         in case runPages cfg (be_pages e) m (in_trades db) of
              None \<Rightarrow> None
            | Some (tbl, oldest, latest, res) \<Rightarrow>
                (let db = db\<lparr>in_trades := tbl\<rparr>
                 in Some (case res of
                      Inl CtxErr \<Rightarrow> db
                    | Inl (PageErr err) \<Rightarrow>
                        if be_isCancel e err \<or> \<not> be_endOK e then db
                        else db\<lparr>in_markets := FailBackfill (be_endNow e) (dm_ID m) err (in_markets db)\<rparr>
                    | Inr status \<Rightarrow>
                        if \<not> be_endOK e then db
                        else db\<lparr>in_markets := CompleteBackfill (be_endNow e) (dm_ID m) status oldest latest (in_markets db)\<rparr>))))"

text \<open>One tick: the candidates run one after the other, each with its state of the context.\<close>

fun backfill_all :: "bf_Config \<Rightarrow> (bool \<times> bf_env) list \<Rightarrow> db_Market list \<Rightarrow> IngestDB \<Rightarrow> IngestDB option" where
  "backfill_all cfg ((ctxDone, e) # es) (m # ms) db =
     (if ctxDone then Some db
      else case backfillOne cfg e m db of None \<Rightarrow> None | Some db \<Rightarrow> backfill_all cfg es ms db)"
| "backfill_all cfg _ _ db = Some db"

definition bf_tick :: "bf_Config \<Rightarrow> time \<Rightarrow> time \<Rightarrow> bool \<Rightarrow> bool \<Rightarrow> (bool \<times> bf_env) list \<Rightarrow> IngestDB \<Rightarrow> IngestDB option" where
  "bf_tick cfg now dbNow resetOK listOK envs db =
     (let db = (if resetOK then db\<lparr>in_markets := ResetStaleRunning dbNow (now - bf_StaleAfter cfg) (in_markets db)\<rparr> else db)
      in if \<not> listOK then Some db
         else backfill_all cfg envs (ListActiveForBackfill dbNow (bf_BatchSize cfg) (bf_PartialRetryAfter cfg) (in_markets db)) db)"

subsection \<open>A run ends\<close>

lemma run_pages_returns:
  assumes "0 < ps"
  shows "(run_pages ps env cond mid k offset oldest latest tbl = None) = False"
proof (induction "nat (MaxUpstreamOffset + ps - offset)" arbitrary: k offset oldest latest tbl rule: less_induct)
  case less
  show ?case
  proof (cases "offset \<le> MaxUpstreamOffset")
    case True
    then have "nat (MaxUpstreamOffset + ps - (offset + ps)) < nat (MaxUpstreamOffset + ps - offset)"
      using assms by simp
    note IH = less [OF this]
    show ?thesis
    proof (cases "ListTradesPage (bp_get (env k)) cond offset ps")
      case (Inl e)
      then show ?thesis by (subst run_pages.simps) simp
    next
      case (Inr page)
      obtain tbl' res where p: "persistPage (bp_pe (env k)) mid page tbl = (tbl', res)" by fastforce
      show ?thesis by (cases res; subst run_pages.simps; simp add: Inr p IH Let_def split: prod.split del: not_None_eq)
    qed
  next
    case False
    then have "\<exists>e. ListTradesPage (bp_get (env k)) cond offset ps = Inl e"
      by (auto simp: ListTradesPage_def)
    then obtain e where "ListTradesPage (bp_get (env k)) cond offset ps = Inl e" by blast
    then show ?thesis by (subst run_pages.simps) simp
  qed
qed

text \<open>C31. Every tick of the backfill ends, whatever the API and the database answer: the walk of a market stops at
  an error, at a short or empty page, or at the offset cap.\<close>

theorem backfill_terminates:
  "\<exists>db'. bf_tick (bf_New cfg) now dbNow resetOK listOK envs db = Some db'"
proof -
  have ps: "0 < bf_PageSize (bf_New cfg)" by (simp add: bf_New_def Let_def)
  have one: "\<exists>db'. backfillOne (bf_New cfg) e m db = Some db'" for e m db
  proof -
    obtain r where "runPages (bf_New cfg) (be_pages e) m (in_trades db) = Some r"
      using run_pages_returns [OF ps] unfolding runPages_def by (metis option.exhaust)
    then show ?thesis by (simp add: backfillOne_def Let_def split: prod.split)
  qed
  have "\<exists>db'. backfill_all (bf_New cfg) envs ms db = Some db'" for ms db
    by (induction "bf_New cfg" envs ms db rule: backfill_all.induct) (use one in \<open>fastforce split: option.splits\<close>)+
  then show ?thesis by (simp add: bf_tick_def Let_def)
qed

subsection \<open>What a run stores\<close>

text \<open>All pages of a run are cut from one feed by a working API, and the database answers.\<close>

definition history_served :: "(string \<Rightarrow> int) \<Rightarrow> (int \<Rightarrow> string \<Rightarrow> int option \<Rightarrow> time \<Rightarrow> float64 \<Rightarrow> float64 \<Rightarrow> string \<Rightarrow> string)
    \<Rightarrow> string \<Rightarrow> int \<Rightarrow> dataTrade list \<Rightarrow> (nat \<Rightarrow> bf_page) \<Rightarrow> bool" where
  "history_served tid dg market ps feed env \<longleftrightarrow>
     (\<forall>k. \<not> bp_ctxDone (env k) \<and> serves (bp_get (env k)) market ps feed \<and> db_fine tid (bp_pe (env k)) \<and> pe_digest (bp_pe (env k)) = dg)"

definition feed_keys :: "(string \<Rightarrow> int) \<Rightarrow> (int \<Rightarrow> string \<Rightarrow> int option \<Rightarrow> time \<Rightarrow> float64 \<Rightarrow> float64 \<Rightarrow> string \<Rightarrow> string) \<Rightarrow> int
    \<Rightarrow> string \<Rightarrow> dataTrade list \<Rightarrow> string set" where
  "feed_keys tid dg mid market feed = (\<lambda>t. DedupKeyForTrade dg (feed_input tid mid market t)) ` set feed"

lemma ListTradesPage_serves:
  assumes "serves get market (int p) feed" "market \<noteq> ''''" "0 < p" "p \<le> 500"
  shows "ListTradesPage get market (int (i * p)) (int p) =
     (if MaxUpstreamOffset < int (i * p) then Inl ErrOffsetCapExceeded else Inr (map (to_trade market) (take p (drop (i * p) feed))))"
proof -
  have ps: "page_size (int p) = int p" using assms(3,4) by (simp add: page_size_def maxPageSize_def)
  show ?thesis using assms(1,2) by (simp add: ListTradesPage_def ps serves_def del: of_nat_mult)
qed

lemma persistPage_stores:
  assumes "db_fine tid pe" "page \<noteq> []" "\<And>t. t \<in> set page \<Longrightarrow> trade_valid (feed_input tid mid market t)"
  shows "\<exists>tbl' lo hi. persistPage pe mid (map (to_trade market) page) tbl = (tbl', Inr (lo, hi)) \<and>
     tt_keys tbl' = tt_keys tbl \<union> feed_keys tid (pe_digest pe) mid market page"
proof -
  let ?ts = "map (to_trade market) page"
  obtain tbl' res where "UpsertBatch (pe_dbNow pe) (pe_fault pe) (DedupKeyForTrade (pe_digest pe))
      (map (insert_input mid (wallet_ids tid ?ts)) ?ts) tbl = (tbl', res, None)"
    "tt_keys tbl' = tt_keys tbl \<union> feed_keys tid (pe_digest pe) mid market page"
    using batch_stored [OF assms(1), of ?ts market page mid tbl] assms(3) unfolding feed_keys_def by auto
  then show ?thesis using assms(1,2)
    by (simp add: persistPage_def db_fine_def bf_uniqueWallets_def wallet_ids_def [symmetric] Let_def)
qed

lemma feed_keys_append: "feed_keys tid dg mid market (a @ b) = feed_keys tid dg mid market a \<union> feed_keys tid dg mid market b"
  by (simp add: feed_keys_def image_Un)

text \<open>From page \<open>i\<close> on, a run stores what is left of the reachable feed.\<close>

lemma run_pages_stores:
  assumes "history_served tid dg market (int p) feed env" "market \<noteq> ''''" "0 < p" "p \<le> 500"
    and "list_all (\<lambda>t. trade_valid (feed_input tid mid market t)) (take (pages (int p) * p) feed)"
    and "i \<le> pages (int p)" "i * p \<le> length feed"
  shows "\<exists>tbl' lo hi. run_pages (int p) env market mid k (int (i * p)) oldest latest tbl =
     Some (tbl', lo, hi, Inr (if length feed < pages (int p) * p then BackfillCompleted else BackfillPartialAPILimit)) \<and>
     tt_keys tbl' = tt_keys tbl \<union> feed_keys tid dg mid market (take ((pages (int p) - i) * p) (drop (i * p) feed))"
  using assms(6,7)
proof (induction "pages (int p) - i" arbitrary: i k oldest latest tbl)
  case 0
  then have i: "i = pages (int p)" by simp
  then have "MaxUpstreamOffset < int (i * p)" using pages_cap [of p i] assms(3) by simp
  moreover have "\<not> length feed < pages (int p) * p" using "0.prems" i by simp
  ultimately show ?case
    by (subst run_pages.simps)
       (use assms(1) ListTradesPage_serves [OF _ assms(2,3,4), of "bp_get (env k)" feed i] i in
        \<open>simp add: history_served_def feed_keys_def del: of_nat_mult\<close>)
next
  case (Suc d)
  then have less: "i < pages (int p)" by simp
  then have cap: "\<not> MaxUpstreamOffset < int (i * p)" using pages_cap [of p i] assms(3) by simp
  define page where "page = take p (drop (i * p) feed)"
  have env: "\<not> bp_ctxDone (env k)" "ListTradesPage (bp_get (env k)) market (int (i * p)) (int p) = Inr (map (to_trade market) page)"
    "db_fine tid (bp_pe (env k))" "pe_digest (bp_pe (env k)) = dg"
    using assms(1) ListTradesPage_serves [OF _ assms(2,3,4), of "bp_get (env k)" feed i] cap
    by (simp_all add: history_served_def page_def)
  have T: "take ((pages (int p) - i) * p) (drop (i * p) feed) = page @ take (d * p) (drop (Suc i * p) feed)"
    using Suc.hyps(2) by (simp add: page_def take_add add.commute flip: Suc.hyps(2))
  have reach: "Suc i * p \<le> pages (int p) * p" using less by (intro mult_right_mono) simp_all
  show ?case
  proof (cases "page = []")
    case True
    then have "length feed = i * p" using Suc.prems(2) assms(3) by (simp add: page_def)
    moreover have "i * p < pages (int p) * p" using less assms(3) by simp
    ultimately show ?thesis using True env T by (subst run_pages.simps) (simp add: feed_keys_def)
  next
    case False
    have "set page \<subseteq> set (take (pages (int p) * p) feed)"
      unfolding page_def using reach by (metis add.commute mult_Suc order.trans set_drop_subset set_take_subset_set_take take_drop)
    then have "\<And>t. t \<in> set page \<Longrightarrow> trade_valid (feed_input tid mid market t)" using assms(5) by (auto simp: list_all_iff)
    from persistPage_stores [OF env(3) False this, of tbl] obtain tbl1 lo hi where
      s: "persistPage (bp_pe (env k)) mid (map (to_trade market) page) tbl = (tbl1, Inr (lo, hi))"
      "tt_keys tbl1 = tt_keys tbl \<union> feed_keys tid dg mid market page" unfolding env(4) by blast
    show ?thesis
    proof (cases "length page < p")
      case True
      then have "drop (Suc i * p) feed = []" "length feed < Suc i * p" by (auto simp: page_def)
      then show ?thesis using True env(1,2) s T reach False
        by (subst run_pages.simps) (simp add: Let_def less_le_trans del: mult_Suc)
    next
      case False
      then have full: "Suc i * p \<le> length feed" using assms(3) by (simp add: page_def min_def split: if_splits)
      let ?lo = "if IsZero oldest \<or> lo < oldest then lo else oldest" and ?hi = "if latest < hi then hi else latest"
      have "run_pages (int p) env market mid k (int (i * p)) oldest latest tbl =
          run_pages (int p) env market mid (Suc k) (int (Suc i * p)) ?lo ?hi tbl1"
        using False env(1,2) s(1) \<open>page \<noteq> []\<close> by (subst run_pages.simps) (simp add: Let_def algebra_simps)
      moreover have d: "pages (int p) - Suc i = d" "Suc i \<le> pages (int p)" using Suc.hyps(2) less by simp_all
      ultimately show ?thesis
        using Suc.hyps(1) [of "Suc i" "Suc k" ?lo ?hi tbl1, OF d(1) [symmetric] d(2) full] s(2)
        unfolding T d(1) feed_keys_append by (simp only: Un_assoc)
    qed
  qed
qed

lemma bf_New_page_size: "bf_PageSize (bf_New cfg) = (if bf_PageSize cfg \<le> 0 \<or> 500 < bf_PageSize cfg then 500 else bf_PageSize cfg)"
  by (simp add: bf_New_def Let_def)

text \<open>How much of a feed the pages below the offset cap reach (3,500 trades with the largest page).\<close>

definition reach :: "int \<Rightarrow> nat" where
  "reach ps = pages ps * nat ps"

text \<open>C15. A backfill run with a working API and database: every trade of the reachable history is in the table
  afterwards and nothing else was added, and the market is completed when the whole history was
  reachable and partial_api_limit when the offset cap cut it off.\<close>

theorem backfill_stores_history:
  assumes "mt_find (dm_ID m) (in_markets db) = Some r" "be_beginOK e" "be_endOK e" "dm_ConditionID m \<noteq> ''''"
    and "history_served tid dg (dm_ConditionID m) (bf_PageSize (bf_New cfg)) feed (be_pages e)"
    and "list_all (\<lambda>t. trade_valid (feed_input tid (dm_ID m) (dm_ConditionID m) t)) (take (reach (bf_PageSize (bf_New cfg))) feed)"
  shows "\<exists>db' r'. backfillOne (bf_New cfg) e m db = Some db' \<and> mt_find (dm_ID m) (in_markets db') = Some r' \<and>
     mr_BackfillStatus r' = (if length feed < reach (bf_PageSize (bf_New cfg)) then BackfillCompleted else BackfillPartialAPILimit) \<and>
     tt_keys (in_trades db') = tt_keys (in_trades db) \<union>
       feed_keys tid dg (dm_ID m) (dm_ConditionID m) (take (reach (bf_PageSize (bf_New cfg))) feed)"
proof -
  let ?ps = "bf_PageSize (bf_New cfg)"
  have "0 < ?ps" "?ps \<le> 500" unfolding bf_New_page_size by auto
  then obtain p where p: "?ps = int p" "0 < p" "p \<le> 500" using that [of "nat ?ps"] by simp
  have N: "reach ?ps = pages (int p) * p" by (simp add: reach_def p(1))
  obtain tbl lo hi where run: "runPages (bf_New cfg) (be_pages e) m (in_trades db) =
      Some (tbl, lo, hi, Inr (if length feed < reach ?ps then BackfillCompleted else BackfillPartialAPILimit))"
    and keys: "tt_keys tbl = tt_keys (in_trades db) \<union> feed_keys tid dg (dm_ID m) (dm_ConditionID m) (take (reach ?ps) feed)"
    using run_pages_stores [OF assms(5) [unfolded p(1)] assms(4) p(2,3) assms(6) [unfolded N], of 0 0 zero_time zero_time "in_trades db"]
    unfolding runPages_def using N unfolding p(1) by auto
  have "\<exists>r'. mt_find (dm_ID m) (CompleteBackfill (be_endNow e) (dm_ID m) st lo hi (BeginBackfill (be_beginNow e) (dm_ID m) (in_markets db)))
      = Some r' \<and> mr_BackfillStatus r' = st" for st
    using assms(1) mt_find_Some [OF assms(1)] by (simp add: CompleteBackfill_def BeginBackfill_def mt_find_update)
  then show ?thesis using assms(2,3) run keys by (simp add: backfillOne_def Let_def)
qed

definition bf_cfg :: bf_Config where
  "bf_cfg = \<lparr>bf_Interval = 0, bf_BatchSize = 0, bf_Concurrency = 0, bf_PageSize = 2, bf_StaleAfter = 0, bf_PartialRetryAfter = 0\<rparr>"

definition bf_test_env :: bf_env where
  "bf_test_env = \<lparr>be_beginOK = True, be_beginNow = 50 * Second,
     be_pages = (\<lambda>k. \<lparr>bp_ctxDone = False, bp_get = feed_server ''c'' small_feed, bp_pe = pu_pe (ingest_env [])\<rparr>),
     be_isCancel = (\<lambda>e. False), be_endOK = True, be_endNow = 60 * Second\<rparr>"

lemma backfill_stores_history_witness:
  "\<exists>m db' r'. GetByConditionID ''c'' (in_markets ingest_db) = Some m \<and> backfillOne (bf_New bf_cfg) bf_test_env m ingest_db = Some db' \<and>
     mt_find 1 (in_markets db') = Some r' \<and> mr_BackfillStatus r' = BackfillCompleted \<and>
     tt_keys (in_trades db') = {''ext:a'', ''ext:b'', ''ext:c'', ''ext:d''}"
proof -
  have "map_option dm_ID (GetByConditionID ''c'' (in_markets ingest_db)) = Some 1 \<and>
      map_option dm_ConditionID (GetByConditionID ''c'' (in_markets ingest_db)) = Some ''c'' \<and>
      map_option mr_ID (mt_find 1 (in_markets ingest_db)) = Some 1 \<and> map tx_DedupKey (tt_rows (in_trades ingest_db)) = [''ext:a'']"
    by code_simp
  then obtain m r where m: "GetByConditionID ''c'' (in_markets ingest_db) = Some m" "dm_ID m = 1" "dm_ConditionID m = ''c''"
    and r: "mt_find 1 (in_markets ingest_db) = Some r" and k: "map tx_DedupKey (tt_rows (in_trades ingest_db)) = [''ext:a'']" by auto
  have k0: "tt_keys (in_trades ingest_db) = {''ext:a''}" unfolding tt_keys_def set_map [symmetric] k by simp
  have ps: "bf_PageSize (bf_New bf_cfg) = 2" by (simp add: bf_New_def bf_cfg_def Let_def)
  have N: "reach 2 = 3002" by (simp add: reach_def pages_def MaxUpstreamOffset_def)
  have h: "history_served (\<lambda>w. 7) ingest_digest ''c'' 2 small_feed (be_pages bf_test_env)"
    using ingest_env_fine [of "[]"] by (simp add: history_served_def bf_test_env_def feed_server_serves)
  have fk: "feed_keys (\<lambda>w. 7) ingest_digest 1 ''c'' small_feed = {''ext:a'', ''ext:b'', ''ext:c'', ''ext:d''}"
    by (simp add: feed_keys_def small_feed_def feed_trade_def DedupKeyForTrade_def feed_input_def insert_input_def to_trade_def) blast
  have "\<exists>db' r'. backfillOne (bf_New bf_cfg) bf_test_env m ingest_db = Some db' \<and> mt_find (dm_ID m) (in_markets db') = Some r' \<and>
     mr_BackfillStatus r' = (if length small_feed < reach (bf_PageSize (bf_New bf_cfg)) then BackfillCompleted else BackfillPartialAPILimit) \<and>
     tt_keys (in_trades db') = tt_keys (in_trades ingest_db) \<union>
       feed_keys (\<lambda>w. 7) ingest_digest (dm_ID m) (dm_ConditionID m) (take (reach (bf_PageSize (bf_New bf_cfg))) small_feed)"
    by (rule backfill_stores_history) (use h r in \<open>simp_all add: m ps N bf_test_env_def small_feed_def feed_trade_valid zero_time_def\<close>)
  then show ?thesis unfolding m ps N using m by (auto simp: small_feed_def k0 fk [unfolded small_feed_def])
qed

text \<open>
  The two updates that end a run do not look at the state they leave: when a run outlives the stale
  limit, a second worker can complete the market and the first one's late failure then buries it -
  failed markets are never listed again.
\<close>

lemma late_failure_buries_completed:
  "let tbl = mt_run [MoUpsert 0 None (sweep_input ''c''), MoBegin 1 1, MoReset (20 * Minute) (5 * Minute), MoBegin (20 * Minute) 1,
       MoComplete (21 * Minute) 1 False Second Second, MoFail (22 * Minute) 1 ''timeout'']
   in map_option mr_BackfillStatus (mt_find 1 tbl) = Some BackfillFailed \<and> ListActiveForBackfill (99 * Hour) 4 0 tbl = []"
  by code_simp

end
