(* ===== verification/Discovery.thy ===== *)
theory Discovery
  imports Gamma MarketLife
begin

text \<open>
  The discovery loop: one tick of \<open>usecase/discover\<close> from the Gamma pages to the snapshot, the category
  table (\<open>category_repository.go\<close> with \<open>db/queries/categories.sql\<close>), and the write-through of a sweep
  (\<open>PersistDiscovery\<close> of \<open>usecase/persist\<close>). The timestamps of category rows, which nothing reads, are
  left out; a map that the code iterates is used as a set.
\<close>

subsection \<open>The category table\<close>

record CategoryRow =
  cr_ID :: int
  cr_ExternalID :: string
  cr_Slug :: string
  cr_Name :: string
  cr_Enabled :: bool
  cr_Active :: bool

record CategoryTable =
  cg_rows :: "CategoryRow list"
  cg_next :: int

record db_Category =
  dc_ID :: int
  dc_ExternalID :: string
  dc_Slug :: string
  dc_Name :: string
  dc_Enabled :: bool
  dc_Active :: bool

definition categoryFromSQLC :: "CategoryRow \<Rightarrow> db_Category" where
  "categoryFromSQLC r =
     \<lparr>dc_ID = cr_ID r, dc_ExternalID = cr_ExternalID r, dc_Slug = cr_Slug r, dc_Name = cr_Name r,
      dc_Enabled = cr_Enabled r, dc_Active = cr_Active r\<rparr>"

definition cg_update :: "(CategoryRow \<Rightarrow> bool) \<Rightarrow> (CategoryRow \<Rightarrow> CategoryRow) \<Rightarrow> CategoryTable \<Rightarrow> CategoryTable" where
  "cg_update P f tbl = tbl\<lparr>cg_rows := map (\<lambda>r. if P r then f r else r) (cg_rows tbl)\<rparr>"

text \<open>The upsert keeps \<open>enabled\<close>; a conflict consumes an id as well.\<close>

definition UpsertCategory :: "string \<Rightarrow> string \<Rightarrow> string \<Rightarrow> CategoryTable \<Rightarrow> CategoryTable \<times> CategoryRow" where
  "UpsertCategory ext slug nm tbl =
     (case find (\<lambda>r. cr_ExternalID r = ext) (cg_rows tbl) of
        None \<Rightarrow> (let r = \<lparr>cr_ID = cg_next tbl, cr_ExternalID = ext, cr_Slug = slug, cr_Name = nm, cr_Enabled = False, cr_Active = True\<rparr>
                 in (tbl\<lparr>cg_rows := cg_rows tbl @ [r], cg_next := cg_next tbl + 1\<rparr>, r))
      | Some r \<Rightarrow>
          (let f = (\<lambda>r. r\<lparr>cr_Slug := slug, cr_Name := nm, cr_Active := True\<rparr>)
           in ((cg_update (\<lambda>r. cr_ExternalID r = ext) f tbl)\<lparr>cg_next := cg_next tbl + 1\<rparr>, f r)))"

fun cat_UpsertSeen :: "(string \<Rightarrow> string option) \<Rightarrow> db_Category list \<Rightarrow> db_Category list \<Rightarrow> CategoryTable
    \<Rightarrow> CategoryTable \<times> (string + db_Category list)" where
  "cat_UpsertSeen fault [] out tbl = (tbl, Inr out)"
| "cat_UpsertSeen fault (c # cs) out tbl =
     (case fault (dc_ExternalID c) of
        Some e \<Rightarrow> (tbl, Inl (''upsert category '' @ fmt_q (dc_ExternalID c) @ '': '' @ e))
      | None \<Rightarrow> (case UpsertCategory (dc_ExternalID c) (dc_Slug c) (dc_Name c) tbl of
                   (tbl, r) \<Rightarrow> cat_UpsertSeen fault cs (out @ [categoryFromSQLC r]) tbl))"

definition cat_MarkSeenInactive :: "string list \<Rightarrow> CategoryTable \<Rightarrow> CategoryTable" where
  "cat_MarkSeenInactive seen = cg_update (\<lambda>r. cr_Active r \<and> cr_ExternalID r \<notin> set seen) (\<lambda>r. r\<lparr>cr_Active := False\<rparr>)"

definition MarkCategoryEnabled :: "int \<Rightarrow> bool \<Rightarrow> CategoryTable \<Rightarrow> CategoryTable" where
  "MarkCategoryEnabled i b = cg_update (\<lambda>r. cr_ID r = i) (\<lambda>r. r\<lparr>cr_Enabled := b\<rparr>)"

definition ListEnabled :: "CategoryTable \<Rightarrow> db_Category list" where
  "ListEnabled tbl = map categoryFromSQLC (sort_key cr_ID (filter (\<lambda>r. cr_Enabled r \<and> cr_Active r) (cg_rows tbl)))"

definition normaliseTokens :: "string list \<Rightarrow> string list" where
  "normaliseTokens raw = filter (\<lambda>n. n \<noteq> '''') (map (\<lambda>t. TrimSpace (ToLower t)) raw)"

definition tokenMatches :: "string list \<Rightarrow> string \<Rightarrow> string \<Rightarrow> bool" where
  "tokenMatches tokens slug nm =
     (if tokens = [] then False
      else (let haystack = ToLower slug @ '' '' @ ToLower nm in list_ex (\<lambda>t. Contains haystack t) tokens))"

fun whitelist_loop :: "(int \<Rightarrow> string option) \<Rightarrow> string list \<Rightarrow> CategoryRow list \<Rightarrow> db_Category list \<Rightarrow> CategoryTable
    \<Rightarrow> CategoryTable \<times> (string + db_Category list)" where
  "whitelist_loop fault tokens [] out tbl = (tbl, Inr out)"
| "whitelist_loop fault tokens (row # rows) out tbl =
     (let match = tokenMatches tokens (cr_Slug row) (cr_Name row);
          out' = (if match then out @ [categoryFromSQLC (row\<lparr>cr_Enabled := True\<rparr>)] else out)
      in if cr_Enabled row \<noteq> match then
           (case fault (cr_ID row) of
              Some e \<Rightarrow> (tbl, Inl (''mark category '' @ fmt_d (cr_ID row) @ '' enabled='' @ (if match then ''true'' else ''false'') @ '': '' @ e))
            | None \<Rightarrow> whitelist_loop fault tokens rows out' (MarkCategoryEnabled (cr_ID row) match tbl))
         else whitelist_loop fault tokens rows out' tbl)"

definition ApplyWhitelist :: "string option \<Rightarrow> (int \<Rightarrow> string option) \<Rightarrow> string list \<Rightarrow> CategoryTable
    \<Rightarrow> CategoryTable \<times> (string + db_Category list)" where
  "ApplyWhitelist listFault fault whitelist tbl =
     (case listFault of
        Some e \<Rightarrow> (tbl, Inl (''list categories: '' @ e))
      | None \<Rightarrow> whitelist_loop fault (normaliseTokens whitelist) (sort_key cr_ID (cg_rows tbl)) [] tbl)"

subsection \<open>The write-through of a sweep\<close>

record DiscoveryDB =
  dv_cats :: CategoryTable
  dv_markets :: MarketTable

text \<open>What the database answers: the error of each statement, if any, and the time.\<close>

record dv_faults =
  dv_now :: time
  df_cat :: "string \<Rightarrow> string option"
  df_list :: "string option"
  df_mark :: "int \<Rightarrow> string option"
  df_market :: "string \<Rightarrow> string option"
  df_outcome :: "string \<Rightarrow> string \<Rightarrow> string option"
  df_inactive :: "string option"

definition repo_category :: "Category \<Rightarrow> db_Category" where
  "repo_category c = \<lparr>dc_ID = 0, dc_ExternalID = fmt_d (ct_ID c), dc_Slug = ct_Slug c, dc_Name = ct_Label c,
     dc_Enabled = False, dc_Active = False\<rparr>"

text \<open>The category rows a market is linked to: enabled, and persisted by this sweep.\<close>

definition link_ids :: "db_Category list \<Rightarrow> db_Category list \<Rightarrow> Market \<Rightarrow> int list" where
  "link_ids enabled persisted m =
     concat (map (\<lambda>catID. let ext = fmt_d catID in
        case fill_map dc_ExternalID enabled ext of
          None \<Rightarrow> []
        | Some _ \<Rightarrow> (case fill_map dc_ExternalID persisted ext of None \<Rightarrow> [] | Some c \<Rightarrow> [dc_ID c])) (mk_Categories m))"

definition market_input :: "db_Category list \<Rightarrow> db_Category list \<Rightarrow> Market \<Rightarrow> UpsertMarketInput" where
  "market_input enabled persisted m =
     \<lparr>um_ConditionID = mk_ID m, um_Slug = mk_Slug m, um_Question = mk_Question m, um_EventSlug = mk_EventSlug m,
      um_EventTitle = mk_EventTitle m, um_StartDate = mk_StartDate m, um_EndDate = mk_EndDate m, um_Closed = mk_Closed m,
      um_CategoryIDs = link_ids enabled persisted m\<rparr>"

definition market_inputs :: "db_Category list \<Rightarrow> db_Category list \<Rightarrow> Market list \<Rightarrow> UpsertMarketInput list" where
  "market_inputs enabled persisted markets =
     filter (\<lambda>i. um_CategoryIDs i \<noteq> []) (map (market_input enabled persisted) markets)"

text \<open>The outcomes of one market: a token without a label gets the empty one, an empty token none.\<close>

fun outcome_loop :: "(string \<Rightarrow> string option) \<Rightarrow> string \<Rightarrow> int \<Rightarrow> string list \<Rightarrow> nat \<Rightarrow> string list \<Rightarrow> MarketTable
    \<Rightarrow> MarketTable \<times> string option" where
  "outcome_loop fault cid mid outs i [] tbl = (tbl, None)"
| "outcome_loop fault cid mid outs i (tok # toks) tbl =
     (if tok = '''' then outcome_loop fault cid mid outs (Suc i) toks tbl
      else case fault tok of
             Some e \<Rightarrow> (tbl, Some (''upsert outcome market='' @ cid @ '' token='' @ tok @ '': '' @ e))
           | None \<Rightarrow> outcome_loop fault cid mid outs (Suc i) toks
                      (UpsertOutcome mid tok (if i < length outs then outs ! i else '''') tbl))"

fun upsertMarketOutcomes :: "(string \<Rightarrow> string \<Rightarrow> string option) \<Rightarrow> db_Market list \<Rightarrow> Market list \<Rightarrow> MarketTable
    \<Rightarrow> MarketTable \<times> string option" where
  "upsertMarketOutcomes fault persisted [] tbl = (tbl, None)"
| "upsertMarketOutcomes fault persisted (m # ms) tbl =
     (case fill_map dm_ConditionID persisted (mk_ID m) of
        None \<Rightarrow> upsertMarketOutcomes fault persisted ms tbl
      | Some p \<Rightarrow>
          (case outcome_loop (fault (mk_ID m)) (mk_ID m) (dm_ID p) (mk_Outcomes m) 0 (mk_TokenIDs m) tbl of
             (tbl, Some e) \<Rightarrow> (tbl, Some e)
           | (tbl, None) \<Rightarrow> upsertMarketOutcomes fault persisted ms tbl))"

definition PersistDiscovery :: "dv_faults \<Rightarrow> string list \<Rightarrow> Category list \<Rightarrow> Market list \<Rightarrow> DiscoveryDB
    \<Rightarrow> DiscoveryDB \<times> string option" where
  "PersistDiscovery flt whitelist cats markets db =
     (case cat_UpsertSeen (df_cat flt) (map repo_category cats) [] (dv_cats db) of
        (ctbl, Inl e) \<Rightarrow> (db\<lparr>dv_cats := ctbl\<rparr>, Some (''upsert categories: '' @ e))
      | (ctbl, Inr persisted) \<Rightarrow>
     (case ApplyWhitelist (df_list flt) (df_mark flt) whitelist ctbl of
        (ctbl, Inl e) \<Rightarrow> (db\<lparr>dv_cats := ctbl\<rparr>, Some (''apply whitelist: '' @ e))
      | (ctbl, Inr enabled) \<Rightarrow>
     (let inputs = market_inputs enabled persisted markets
      in case UpsertSeen (dv_now flt) (df_market flt) inputs [] (dv_markets db) of
        (mtbl, out, Some e) \<Rightarrow> (\<lparr>dv_cats = ctbl, dv_markets = mtbl\<rparr>, Some (''upsert markets: '' @ e))
      | (mtbl, out, None) \<Rightarrow>
     (case upsertMarketOutcomes (df_outcome flt) out markets mtbl of
        (mtbl, Some e) \<Rightarrow> (\<lparr>dv_cats = ctbl, dv_markets = mtbl\<rparr>, Some (''upsert outcomes: '' @ e))
      | (mtbl, None) \<Rightarrow>
     (case df_inactive flt of
        Some e \<Rightarrow> (\<lparr>dv_cats = ctbl, dv_markets = mtbl\<rparr>, Some (''mark inactive: '' @ e))
      | None \<Rightarrow>
          (\<lparr>dv_cats = ctbl,
            dv_markets = fst (MarkSeenInactive (dv_now flt) (map um_ConditionID inputs) (map dc_ID enabled) mtbl)\<rparr>, None))))))"

subsection \<open>The tick\<close>

definition dedup :: "'a list \<Rightarrow> 'a list" where
  "dedup xs = foldl (\<lambda>out v. if v \<in> set out then out else out @ [v]) [] xs"

record discover_Config =
  dl_SafetyMaxMarkets :: int
  dl_ActiveOnly :: bool
  dl_OrderBy :: string

record 'db discover_Loop =
  dl_cfg :: discover_Config
  dl_filter :: cat_filter
  dl_persist :: "(Category list \<Rightarrow> Market list \<Rightarrow> 'db \<Rightarrow> 'db \<times> string option) option"

definition discover_New :: "discover_Config \<Rightarrow> cat_filter option
    \<Rightarrow> (Category list \<Rightarrow> Market list \<Rightarrow> 'db \<Rightarrow> 'db \<times> string option) option \<Rightarrow> 'db discover_Loop" where
  "discover_New cfg f persist =
     \<lparr>dl_cfg = cfg, dl_filter = (case f of None \<Rightarrow> NewFilter [] | Some f \<Rightarrow> f), dl_persist = persist\<rparr>"

text \<open>What the upstream answers during one tick.\<close>

record gamma_up =
  gu_parse :: gamma_parse
  gu_tags :: "gammaTag gamma_get"
  gu_events :: "gammaEvent gamma_get"
  gu_markets :: "gammaMarket gamma_get"

definition list_opts :: "discover_Config \<Rightarrow> ListMarketsOpts" where
  "list_opts c = \<lparr>lm_ActiveOnly = dl_ActiveOnly c, lm_OrderBy = dl_OrderBy c, lm_MaxRows = dl_SafetyMaxMarkets c\<rparr>"

definition assign_categories :: "(string \<rightharpoonup> int list) \<Rightarrow> int list \<Rightarrow> Market \<Rightarrow> Market" where
  "assign_categories tags denied m =
     (case tags (mk_ID m) of
        None \<Rightarrow> m
      | Some ids \<Rightarrow> m\<lparr>mk_Categories := filter (\<lambda>i. i \<notin> set denied) (dedup ids)\<rparr>)"

text \<open>The new snapshot and database, and the error of the tick; the error of the write-through is only logged.\<close>

definition discover_tick :: "'db discover_Loop \<Rightarrow> gamma_up \<Rightarrow> Cache \<times> 'db \<Rightarrow> (Cache \<times> 'db) \<times> string option" where
  "discover_tick l up st =
     (case ListTags (gu_tags up) of
        Inl e \<Rightarrow> (st, Some e)
      | Inr cats \<Rightarrow>
     (case ListEvents (gu_events up) (list_opts (dl_cfg l)) of
        Inl e \<Rightarrow> (st, Some e)
      | Inr events \<Rightarrow>
     (case ListMarkets (gu_parse up) (gu_markets up) (list_opts (dl_cfg l)) of
        Inl e \<Rightarrow> (st, Some e)
      | Inr markets \<Rightarrow>
          (let ok = (\<lambda>c. Allowed (dl_filter l) (ct_Slug c) (ct_Label c));
               denied = map ct_ID (filter (\<lambda>c. \<not> ok c) cats);
               kept = filter ok cats;
               markets = map (assign_categories (MapEventsToMarketCategories events) denied) markets;
               cache = fst (Replace (fst st) markets kept)
           in ((cache, case dl_persist l of None \<Rightarrow> snd st | Some persist \<Rightarrow> fst (persist kept markets (snd st))), None)))))"

subsection \<open>One matcher\<close>

lemma TrimSpace_token:
  assumes "TrimSpace t = t" "t \<noteq> []"
  shows "\<not> is_space (hd t)"
proof -
  have "hd (TrimLeft is_space t) = hd t"
    using assms TrimRight_prefix [of is_space "TrimLeft is_space t"]
    by (metis TrimSpace_def append_is_Nil_conv hd_append2 prefix_def)
  moreover have "TrimLeft is_space t \<noteq> []"
    using assms TrimRight_prefix [of is_space "TrimLeft is_space t"] by (auto simp: TrimSpace_def)
  ultimately show ?thesis using TrimLeft_hd [of is_space t] by simp
qed

lemma TrimSpace_blank: "TrimSpace s = '''' \<Longrightarrow> c \<in> set s \<Longrightarrow> is_space c"
  by (auto simp: TrimSpace_def TrimRight_def TrimLeft_def dropWhile_eq_Nil_conv)
    (metis Un_iff rev_is_Nil_conv set_append set_dropWhileD set_rev takeWhile_dropWhile_id set_takeWhileD)

lemma blank_no_token:
  assumes "TrimSpace s = ''''" "TrimSpace t = t" "t \<noteq> ''''"
  shows "\<not> Contains s t"
proof
  assume "Contains s t"
  then obtain a b where "s = a @ t @ b" by (auto simp: Contains_iff sublist_def)
  then have "hd t \<in> set s" using assms(3) by simp
  then show False using TrimSpace_blank assms TrimSpace_token by blast
qed

text \<open>The two copies of the whitelist agree: the filter of the discovery loop and the matcher of the category
  table decide alike on every category, except that a whitelist with no entry left lets everything
  through in the loop and enables nothing in the table; and neither depends on case, blanks around the
  entries or empty entries.\<close>

theorem whitelist_matchers_agree:
  "Allowed (NewFilter ws) slug label = (NewFilter ws = [] \<or> tokenMatches (normaliseTokens ws) slug label) \<and>
   tokenMatches (normaliseTokens (map ToUpper ws @ [''  ''])) (ToUpper slug) (ToLower label) = tokenMatches (normaliseTokens ws) slug label \<and>
   normaliseTokens (map TrimSpace ws) = normaliseTokens ws"
proof (intro conjI)
  have tok: "TrimSpace t = t" "t \<noteq> ''''" if "t \<in> set (NewFilter ws)" for t
    using that by (auto simp: NewFilter_def)
  have n: "normaliseTokens ws = NewFilter ws" by (simp add: normaliseTokens_def NewFilter_def)
  show "Allowed (NewFilter ws) slug label = (NewFilter ws = [] \<or> tokenMatches (normaliseTokens ws) slug label)"
    unfolding Allowed_def tokenMatches_def n Let_def
    using blank_no_token tok by (auto simp: list_ex_iff)
  have "TrimSpace (ToLower ''  '') = ''''" by code_simp
  then have "normaliseTokens (map ToUpper ws @ [''  '']) = normaliseTokens ws" by (simp add: normaliseTokens_def comp_def)
  then show "tokenMatches (normaliseTokens (map ToUpper ws @ [''  ''])) (ToUpper slug) (ToLower label) = tokenMatches (normaliseTokens ws) slug label"
    by (simp add: tokenMatches_def)
  show "normaliseTokens (map TrimSpace ws) = normaliseTokens ws"
    by (simp add: normaliseTokens_def comp_def flip: ToLower_TrimSpace)
qed

subsection \<open>The category table after a sweep\<close>

definition cg_lookup :: "string \<Rightarrow> CategoryTable \<Rightarrow> CategoryRow option" where
  "cg_lookup ext tbl = find (\<lambda>r. cr_ExternalID r = ext) (cg_rows tbl)"

definition cg_inv :: "CategoryTable \<Rightarrow> bool" where
  "cg_inv tbl \<longleftrightarrow> distinct (map cr_ID (cg_rows tbl)) \<and> distinct (map cr_ExternalID (cg_rows tbl)) \<and>
     (\<forall>r \<in> set (cg_rows tbl). cr_ID r < cg_next tbl)"

lemma cg_lookup_Some: "cg_lookup ext tbl = Some r \<Longrightarrow> r \<in> set (cg_rows tbl) \<and> cr_ExternalID r = ext"
  by (auto simp: cg_lookup_def find_Some_iff)

lemma cg_lookup_mem: "cg_inv tbl \<Longrightarrow> r \<in> set (cg_rows tbl) \<Longrightarrow> cg_lookup (cr_ExternalID r) tbl = Some r"
  by (simp add: cg_inv_def cg_lookup_def find_key_mem)

definition category_of :: "db_Category \<Rightarrow> CategoryRow option \<Rightarrow> CategoryRow \<Rightarrow> bool" where
  "category_of c old r \<longleftrightarrow> cr_ExternalID r = dc_ExternalID c \<and> cr_Slug r = dc_Slug c \<and> cr_Name r = dc_Name c \<and> cr_Active r \<and>
     (case old of None \<Rightarrow> \<not> cr_Enabled r | Some o' \<Rightarrow> cr_ID r = cr_ID o' \<and> cr_Enabled r = cr_Enabled o')"

lemma find_append: "find P (xs @ ys) = (case find P xs of None \<Rightarrow> find P ys | Some x \<Rightarrow> Some x)"
  by (induction xs) auto

lemma UpsertCategory_spec:
  assumes "cg_inv tbl" "UpsertCategory (dc_ExternalID c) (dc_Slug c) (dc_Name c) tbl = (tbl', r)"
  shows "cg_inv tbl' \<and> category_of c (cg_lookup (dc_ExternalID c) tbl) r \<and>
    (\<forall>ext. cg_lookup ext tbl' = (if ext = dc_ExternalID c then Some r else cg_lookup ext tbl))"
proof (cases "cg_lookup (dc_ExternalID c) tbl")
  case None
  then have new: "dc_ExternalID c \<notin> cr_ExternalID ` set (cg_rows tbl)"
    by (auto simp: cg_lookup_def find_None_iff)
  let ?r = "\<lparr>cr_ID = cg_next tbl, cr_ExternalID = dc_ExternalID c, cr_Slug = dc_Slug c, cr_Name = dc_Name c,
    cr_Enabled = False, cr_Active = True\<rparr>"
  have e: "r = ?r" "tbl' = tbl\<lparr>cg_rows := cg_rows tbl @ [?r], cg_next := cg_next tbl + 1\<rparr>"
    using assms(2) None by (auto simp: UpsertCategory_def cg_lookup_def Let_def)
  have "cg_inv tbl'" using assms(1) new by (auto simp: e cg_inv_def less_le)
  moreover have "cg_lookup ext tbl' = (if ext = dc_ExternalID c then Some r else cg_lookup ext tbl)" for ext
  proof (cases "cg_lookup ext tbl")
    case (Some s)
    then have "ext \<noteq> dc_ExternalID c" using None by auto
    then show ?thesis using Some by (simp add: e cg_lookup_def find_append_Some)
  next
    case none: None
    then show ?thesis by (simp add: e cg_lookup_def find_append)
  qed
  ultimately show ?thesis using None by (simp add: category_of_def e)
next
  case (Some s)
  then have s: "cr_ExternalID s = dc_ExternalID c" by (simp add: cg_lookup_Some)
  let ?f = "\<lambda>r. r\<lparr>cr_Slug := dc_Slug c, cr_Name := dc_Name c, cr_Active := True\<rparr>"
  define g :: "CategoryRow \<Rightarrow> CategoryRow" where "g = (\<lambda>r. if cr_ExternalID r = dc_ExternalID c then ?f r else r)"
  have e: "r = ?f s" "tbl' = tbl\<lparr>cg_rows := map g (cg_rows tbl), cg_next := cg_next tbl + 1\<rparr>"
    using assms(2) Some by (auto simp: UpsertCategory_def cg_lookup_def cg_update_def g_def Let_def)
  have k: "cr_ID (g r) = cr_ID r" "cr_ExternalID (g r) = cr_ExternalID r" for r by (simp_all add: g_def)
  have "cg_inv tbl'" using assms(1) by (force simp: e cg_inv_def k comp_def)
  moreover have "cg_lookup ext tbl' = (if ext = dc_ExternalID c then Some r else cg_lookup ext tbl)" for ext
  proof -
    have "cg_lookup ext tbl' = map_option g (cg_lookup ext tbl)"
      unfolding e(2) cg_lookup_def g_def by (simp add: find_key_map)
    then show ?thesis using Some s cg_lookup_Some [of ext tbl] e(1) by (cases "cg_lookup ext tbl") (auto simp: g_def)
  qed
  ultimately show ?thesis using Some s by (simp add: category_of_def e)
qed

lemma cat_UpsertSeen_spec:
  assumes "cg_inv tbl" "\<forall>ext. fault ext = None"
  shows "\<exists>tbl' ps. cat_UpsertSeen fault cs out tbl = (tbl', Inr (out @ ps)) \<and> cg_inv tbl' \<and>
    map dc_ExternalID ps = map dc_ExternalID cs \<and>
    (\<forall>ext. case find (\<lambda>c. dc_ExternalID c = ext) (rev cs) of
       None \<Rightarrow> cg_lookup ext tbl' = cg_lookup ext tbl
     | Some c \<Rightarrow> (\<exists>r. cg_lookup ext tbl' = Some r \<and> category_of c (cg_lookup ext tbl) r)) \<and>
    (\<forall>p \<in> set ps. map_option cr_ID (cg_lookup (dc_ExternalID p) tbl') = Some (dc_ID p))"
  using assms(1)
proof (induction cs arbitrary: out tbl)
  case (Cons c cs)
  obtain t1 r where u: "UpsertCategory (dc_ExternalID c) (dc_Slug c) (dc_Name c) tbl = (t1, r)" by fastforce
  note s = UpsertCategory_spec [OF Cons.prems u]
  let ?p = "categoryFromSQLC r"
  obtain t2 ps where t2: "cat_UpsertSeen fault cs (out @ [?p]) t1 = (t2, Inr ((out @ [?p]) @ ps))" "cg_inv t2"
      "map dc_ExternalID ps = map dc_ExternalID cs"
      "\<forall>ext. case find (\<lambda>c. dc_ExternalID c = ext) (rev cs) of
         None \<Rightarrow> cg_lookup ext t2 = cg_lookup ext t1
       | Some c \<Rightarrow> (\<exists>r. cg_lookup ext t2 = Some r \<and> category_of c (cg_lookup ext t1) r)"
      "\<forall>p \<in> set ps. map_option cr_ID (cg_lookup (dc_ExternalID p) t2) = Some (dc_ID p)"
    using Cons.IH [of t1 "out @ [?p]"] s by blast
  have ext: "dc_ExternalID ?p = dc_ExternalID c" "dc_ID ?p = cr_ID r"
    using s by (simp_all add: categoryFromSQLC_def category_of_def)
  have final: "case find (\<lambda>c. dc_ExternalID c = ext) (rev (c # cs)) of
         None \<Rightarrow> cg_lookup ext t2 = cg_lookup ext tbl
       | Some c \<Rightarrow> (\<exists>r. cg_lookup ext t2 = Some r \<and> category_of c (cg_lookup ext tbl) r)" for ext
  proof (cases "find (\<lambda>c. dc_ExternalID c = ext) (rev cs)")
    case None
    then show ?thesis using t2(4) [rule_format, of ext] s by (auto simp: find_append)
  next
    case (Some d)
    then obtain r' where r': "cg_lookup ext t2 = Some r'" "category_of d (cg_lookup ext t1) r'"
      using t2(4) [rule_format, of ext] by auto
    have "category_of d (cg_lookup ext tbl) r'"
    proof (cases "ext = dc_ExternalID c")
      case True
      then show ?thesis using r'(2) s by (auto simp: category_of_def split: option.splits)
    next
      case False
      then show ?thesis using r'(2) s by simp
    qed
    then show ?thesis using Some r'(1) by (simp add: find_append)
  qed
  have "map_option cr_ID (cg_lookup (dc_ExternalID c) t2) = Some (cr_ID r)"
    using t2(4) [rule_format, of "dc_ExternalID c"] s by (auto simp: category_of_def split: option.splits)
  then have ids: "\<forall>p \<in> set (?p # ps). map_option cr_ID (cg_lookup (dc_ExternalID p) t2) = Some (dc_ID p)"
    using t2(5) ext by simp
  have "cat_UpsertSeen fault (c # cs) out tbl = (t2, Inr (out @ ?p # ps))" using u t2(1) assms(2) by simp
  then show ?case using final ids t2(2,3) ext(1)
    by (intro exI [of _ t2] exI [of _ "?p # ps"]) (simp only: list.map simp_thms)
qed simp

definition judged :: "string list \<Rightarrow> CategoryRow \<Rightarrow> CategoryRow" where
  "judged tokens r = r\<lparr>cr_Enabled := tokenMatches tokens (cr_Slug r) (cr_Name r)\<rparr>"

lemma judged_same: "cr_Enabled r = tokenMatches tokens (cr_Slug r) (cr_Name r) \<Longrightarrow> judged tokens r = r"
  by (simp add: judged_def)

lemma whitelist_loop_spec:
  assumes "\<forall>i. fault i = None" "distinct (map cr_ID (cg_rows tbl))" "distinct (map cr_ID rows)" "set rows \<subseteq> set (cg_rows tbl)"
  shows "whitelist_loop fault tokens rows out tbl =
    (tbl\<lparr>cg_rows := map (\<lambda>r. if r \<in> set rows then judged tokens r else r) (cg_rows tbl)\<rparr>,
     Inr (out @ map categoryFromSQLC (filter cr_Enabled (map (judged tokens) rows))))"
  using assms(2-)
proof (induction rows arbitrary: out tbl)
  case (Cons row rows)
  let ?m = "tokenMatches tokens (cr_Slug row) (cr_Name row)"
  let ?out = "if ?m then out @ [categoryFromSQLC (row\<lparr>cr_Enabled := True\<rparr>)] else out"
  define t1 where "t1 = (if cr_Enabled row \<noteq> ?m then MarkCategoryEnabled (cr_ID row) ?m tbl else tbl)"
  have same: "r = row" if "r \<in> set (cg_rows tbl)" "cr_ID r = cr_ID row" for r
    using that Cons.prems(1,3) by (auto simp: distinct_map dest: inj_onD)
  have t1: "t1 = tbl\<lparr>cg_rows := map (\<lambda>r. if r = row then judged tokens r else r) (cg_rows tbl)\<rparr>"
  proof (cases "cr_Enabled row = ?m")
    case True
    then have "map (\<lambda>r. if r = row then judged tokens r else r) (cg_rows tbl) = cg_rows tbl"
      by (intro map_idI) (simp add: judged_same)
    then show ?thesis using True by (simp add: t1_def)
  next
    case False
    have "map (\<lambda>r. if cr_ID r = cr_ID row then r\<lparr>cr_Enabled := ?m\<rparr> else r) (cg_rows tbl) =
        map (\<lambda>r. if r = row then judged tokens r else r) (cg_rows tbl)"
      using same by (intro map_cong) (auto simp: judged_def)
    then show ?thesis using False by (simp add: t1_def MarkCategoryEnabled_def cg_update_def)
  qed
  have step: "whitelist_loop fault tokens (row # rows) out tbl = whitelist_loop fault tokens rows ?out t1"
    using assms(1) by (simp add: t1_def Let_def)
  have notin: "row \<notin> set rows" "cr_ID row \<notin> cr_ID ` set rows" using Cons.prems(2) by auto
  have d1: "distinct (map cr_ID (cg_rows t1))"
  proof -
    have "map cr_ID (cg_rows t1) = map cr_ID (cg_rows tbl)" by (auto simp: t1 judged_def)
    then show ?thesis using Cons.prems(1) by simp
  qed
  have sub: "set rows \<subseteq> set (cg_rows t1)" using Cons.prems(3) notin by (auto simp: t1 image_iff)
  have "judged tokens row \<notin> set rows" using notin by (metis image_eqI judged_def CategoryRow.select_convs(1) CategoryRow.update_convs(5) CategoryRow.surjective)
  then have "map (\<lambda>r. if r \<in> set rows then judged tokens r else r) (cg_rows t1) =
      map (\<lambda>r. if r \<in> set (row # rows) then judged tokens r else r) (cg_rows tbl)"
    using notin by (auto simp: t1)
  then have "t1\<lparr>cg_rows := map (\<lambda>r. if r \<in> set rows then judged tokens r else r) (cg_rows t1)\<rparr> =
      tbl\<lparr>cg_rows := map (\<lambda>r. if r \<in> set (row # rows) then judged tokens r else r) (cg_rows tbl)\<rparr>"
    by (simp add: t1)
  moreover have "?out @ map categoryFromSQLC (filter cr_Enabled (map (judged tokens) rows)) =
      out @ map categoryFromSQLC (filter cr_Enabled (map (judged tokens) (row # rows)))"
    by (simp add: judged_def)
  ultimately show ?case using Cons.IH [OF d1 _ sub, of ?out] Cons.prems(2) unfolding step by simp
qed simp

lemma ApplyWhitelist_spec:
  assumes "\<forall>i. fault i = None" "cg_inv tbl"
  shows "ApplyWhitelist None fault ws tbl =
    (tbl\<lparr>cg_rows := map (judged (normaliseTokens ws)) (cg_rows tbl)\<rparr>,
     Inr (map categoryFromSQLC (filter cr_Enabled (map (judged (normaliseTokens ws)) (sort_key cr_ID (cg_rows tbl))))))"
proof -
  have d: "distinct (map cr_ID (cg_rows tbl))" using assms(2) by (simp add: cg_inv_def)
  moreover have "distinct (map cr_ID (sort_key cr_ID (cg_rows tbl)))"
    using d by (simp add: distinct_map)
  moreover have "map (\<lambda>r. if r \<in> set (sort_key cr_ID (cg_rows tbl)) then judged (normaliseTokens ws) r else r) (cg_rows tbl) =
      map (judged (normaliseTokens ws)) (cg_rows tbl)" by simp
  ultimately show ?thesis
    unfolding ApplyWhitelist_def using whitelist_loop_spec [OF assms(1), of tbl "sort_key cr_ID (cg_rows tbl)"] by simp
qed

subsection \<open>The market table after a sweep\<close>

definition linked_to :: "MarketTable \<Rightarrow> int \<Rightarrow> int set" where
  "linked_to tbl i = {k. (i, k) \<in> set (mt_links tbl)}"

lemma set_relink: "set (relink mid cats links) = {(m, k) \<in> set links. m \<noteq> mid} \<union> {mid} \<times> set cats"
proof -
  have "set (foldl (\<lambda>ls c. if (mid, c) \<in> set ls then ls else ls @ [(mid, c)]) links cats) = set links \<union> {mid} \<times> set cats" for links
    by (induction cats arbitrary: links) auto
  then show ?thesis by (auto simp: relink_def)
qed

lemma mt_lookup_Some: "mt_lookup c tbl = Some r \<Longrightarrow> r \<in> set (mt_rows tbl) \<and> mr_ConditionID r = c"
  by (auto simp: mt_lookup_def find_Some_iff)

lemma mt_ids: "mt_inv tbl \<Longrightarrow> r \<in> set (mt_rows tbl) \<Longrightarrow> s \<in> set (mt_rows tbl) \<Longrightarrow> mr_ID r = mr_ID s \<Longrightarrow> r = s"
  by (auto simp: mt_inv_def distinct_map dest: inj_onD)

text \<open>What an upsert makes of the row it finds.\<close>

definition upserted :: "time \<Rightarrow> UpsertMarketInput \<Rightarrow> MarketRow option \<Rightarrow> MarketRow \<Rightarrow> bool" where
  "upserted now m old r \<longleftrightarrow> (case old of None \<Rightarrow> r = new_market_row now (mr_ID r) m | Some s \<Rightarrow> r = seen_row now m s)"

lemma seen_again [simp]: "seen_row now m (seen_row now m' r) = seen_row now m r"
  "um_ConditionID m = um_ConditionID m' \<Longrightarrow> seen_row now m (new_market_row now i m') = new_market_row now i m"
  "mr_ID (seen_row now m r) = mr_ID r" "mr_ConditionID (seen_row now m r) = mr_ConditionID r"
  "mr_ID (new_market_row now i m) = i" "mr_ConditionID (new_market_row now i m) = um_ConditionID m"
  by (simp_all add: seen_row_def new_market_row_def)

lemma upserted_trans: "um_ConditionID m = um_ConditionID m' \<Longrightarrow> upserted now m' old s \<Longrightarrow> upserted now m (Some s) r \<Longrightarrow> upserted now m old r"
  unfolding upserted_def by (cases old) (simp_all, metis seen_again(2,5))

lemma upsertOne_spec:
  assumes inv: "mt_inv tbl" and u: "upsertOne now None m tbl = (tbl', x)"
  shows "\<exists>r. x = Inr (marketFromSQLC r) \<and> upserted now m (mt_lookup (um_ConditionID m) tbl) r \<and> mr_ConditionID r = um_ConditionID m \<and>
    (\<forall>c. mt_lookup c tbl' = (if c = um_ConditionID m then Some r else mt_lookup c tbl)) \<and>
    (\<forall>i. linked_to tbl' i = (if i = mr_ID r then set (um_CategoryIDs m) else linked_to tbl i)) \<and>
    (\<forall>s \<in> set (mt_rows tbl). mr_ConditionID s \<noteq> um_ConditionID m \<longrightarrow> mr_ID s \<noteq> mr_ID r)"
proof (cases "mt_lookup (um_ConditionID m) tbl")
  case None
  define r where "r = new_market_row now (mt_next tbl) m"
  have e: "x = Inr (marketFromSQLC r)" "mt_rows tbl' = mt_rows tbl @ [r]" "mt_links tbl' = relink (mr_ID r) (um_CategoryIDs m) (mt_links tbl)"
    using u None by (auto simp: upsertOne_def UpsertMarket_def r_def Let_def)
  have "mt_lookup c tbl' = (if c = um_ConditionID m then Some r else mt_lookup c tbl)" for c
    using None by (auto simp: mt_lookup_def e(2) find_append r_def split: option.splits)
  moreover have "mr_ID s \<noteq> mr_ID r" if "s \<in> set (mt_rows tbl)" for s
    using inv that by (auto simp: mt_inv_def r_def)
  moreover have "linked_to tbl' i = (if i = mr_ID r then set (um_CategoryIDs m) else linked_to tbl i)" for i
    by (auto simp: linked_to_def e(3) set_relink)
  ultimately show ?thesis using None e(1) by (intro exI [of _ r]) (simp add: upserted_def r_def)
next
  case (Some s)
  define r where "r = seen_row now m s"
  have s: "s \<in> set (mt_rows tbl)" "mr_ConditionID s = um_ConditionID m" using Some mt_lookup_Some by blast+
  have e: "x = Inr (marketFromSQLC r)" "mt_links tbl' = relink (mr_ID r) (um_CategoryIDs m) (mt_links tbl)"
    "mt_rows tbl' = mt_rows (mt_update (\<lambda>r. mr_ConditionID r = um_ConditionID m) (seen_row now m) tbl)"
    using u Some by (auto simp: upsertOne_def UpsertMarket_def r_def mt_update_def Let_def)
  have "mt_lookup c tbl' = (if c = um_ConditionID m then Some r else mt_lookup c tbl)" for c
  proof -
    have "mt_lookup c tbl' = map_option (\<lambda>r. if mr_ConditionID r = um_ConditionID m then seen_row now m r else r) (mt_lookup c tbl)"
      by (simp add: mt_lookup_def e(3) mt_update_def find_key_map)
    then show ?thesis using Some r_def mt_lookup_Some [of c tbl] by (cases "mt_lookup c tbl") auto
  qed
  moreover have "mr_ID s' \<noteq> mr_ID r" if "s' \<in> set (mt_rows tbl)" "mr_ConditionID s' \<noteq> um_ConditionID m" for s'
    using mt_ids [OF inv that(1) s(1)] s(2) that by (auto simp: r_def)
  moreover have "linked_to tbl' i = (if i = mr_ID r then set (um_CategoryIDs m) else linked_to tbl i)" for i
    by (auto simp: linked_to_def e(2) set_relink)
  ultimately show ?thesis using Some e(1) s(2) by (intro exI [of _ r]) (simp add: upserted_def r_def)
qed

definition last_input :: "string \<Rightarrow> UpsertMarketInput list \<Rightarrow> UpsertMarketInput option" where
  "last_input c ms = find (\<lambda>m. um_ConditionID m = c) (rev ms)"

lemma last_input_Cons: "last_input c (m # ms) = (case last_input c ms of Some x \<Rightarrow> Some x | None \<Rightarrow> if um_ConditionID m = c then Some m else None)"
  by (simp add: last_input_def find_append split: option.splits)

lemma last_input_id: "last_input c ms = Some m \<Longrightarrow> um_ConditionID m = c \<and> m \<in> set ms"
  by (auto simp: last_input_def find_Some_iff) (metis nth_mem set_rev length_rev)

text \<open>The rows and links after the upserts of a sweep.\<close>

definition swept :: "time \<Rightarrow> UpsertMarketInput list \<Rightarrow> MarketTable \<Rightarrow> MarketTable \<Rightarrow> bool" where
  "swept now ms tbl tbl' \<longleftrightarrow>
     (\<forall>c. case last_input c ms of
        None \<Rightarrow> mt_lookup c tbl' = mt_lookup c tbl \<and> (\<forall>r. mt_lookup c tbl = Some r \<longrightarrow> linked_to tbl' (mr_ID r) = linked_to tbl (mr_ID r))
      | Some m \<Rightarrow> (\<exists>r. mt_lookup c tbl' = Some r \<and> upserted now m (mt_lookup c tbl) r \<and>
                       linked_to tbl' (mr_ID r) = set (um_CategoryIDs m)))"

lemma UpsertSeen_spec:
  assumes "mt_inv tbl" "\<forall>c. fault c = None"
  shows "\<exists>tbl' rs. UpsertSeen now fault ms out tbl = (tbl', out @ rs, None) \<and> mt_inv tbl' \<and> swept now ms tbl tbl'"
  using assms(1)
proof (induction ms arbitrary: out tbl)
  case Nil
  then show ?case by (simp add: swept_def last_input_def)
next
  case (Cons m ms)
  obtain t1 x where u: "upsertOne now None m tbl = (t1, x)" by fastforce
  then obtain r where r: "x = Inr (marketFromSQLC r)" "upserted now m (mt_lookup (um_ConditionID m) tbl) r"
      "mr_ConditionID r = um_ConditionID m"
      "\<And>c. mt_lookup c t1 = (if c = um_ConditionID m then Some r else mt_lookup c tbl)"
      "\<And>i. linked_to t1 i = (if i = mr_ID r then set (um_CategoryIDs m) else linked_to tbl i)"
      "\<And>s. s \<in> set (mt_rows tbl) \<Longrightarrow> mr_ConditionID s \<noteq> um_ConditionID m \<Longrightarrow> mr_ID s \<noteq> mr_ID r"
    using upsertOne_spec [OF Cons.prems u] by blast
  have "mt_inv t1" using upsertOne_keeps [OF Cons.prems, of now None m] u by simp
  then obtain t2 rs where t2: "UpsertSeen now fault ms (out @ [marketFromSQLC r]) t1 = (t2, (out @ [marketFromSQLC r]) @ rs, None)"
      "mt_inv t2" "swept now ms t1 t2"
    using Cons.IH [of t1 "out @ [marketFromSQLC r]"] by blast
  have "case last_input c (m # ms) of
        None \<Rightarrow> mt_lookup c t2 = mt_lookup c tbl \<and> (\<forall>r. mt_lookup c tbl = Some r \<longrightarrow> linked_to t2 (mr_ID r) = linked_to tbl (mr_ID r))
      | Some m' \<Rightarrow> (\<exists>r. mt_lookup c t2 = Some r \<and> upserted now m' (mt_lookup c tbl) r \<and>
                       linked_to t2 (mr_ID r) = set (um_CategoryIDs m'))" for c
  proof (cases "last_input c ms")
    case None
    have n: "mt_lookup c t2 = mt_lookup c t1" "\<And>r. mt_lookup c t1 = Some r \<Longrightarrow> linked_to t2 (mr_ID r) = linked_to t1 (mr_ID r)"
      using t2(3) [unfolded swept_def, rule_format, of c] None by auto
    show ?thesis
    proof (cases "um_ConditionID m = c")
      case True
      then show ?thesis using None n r(2,4,5) by (simp add: last_input_Cons)
    next
      case False
      then have "linked_to t2 (mr_ID s) = linked_to tbl (mr_ID s)" if "mt_lookup c tbl = Some s" for s
        using that n(2) [of s] r(4-6) mt_lookup_Some [OF that] by simp
      then show ?thesis using None n(1) r(4) False by (simp add: last_input_Cons)
    qed
  next
    case (Some m')
    then obtain r' where r': "mt_lookup c t2 = Some r'" "upserted now m' (mt_lookup c t1) r'" "linked_to t2 (mr_ID r') = set (um_CategoryIDs m')"
      using t2(3) [unfolded swept_def, rule_format, of c] by auto
    have "upserted now m' (mt_lookup c tbl) r'"
    proof (cases "um_ConditionID m = c")
      case True
      then show ?thesis using upserted_trans [OF _ r(2), of m' r'] r'(2) r(4) last_input_id [OF Some] by simp
    next
      case False
      then show ?thesis using r'(2) r(4) by simp
    qed
    then show ?thesis using Some r' by (simp add: last_input_Cons)
  qed
  then have "swept now (m # ms) tbl t2" by (simp add: swept_def)
  moreover have "UpsertSeen now fault (m # ms) out tbl = (t2, out @ marketFromSQLC r # rs, None)"
    using u r(1) t2(1) assms(2) by simp
  ultimately show ?case using t2(2) by blast
qed

lemma outcome_loop_rows:
  "\<exists>oc. outcome_loop (\<lambda>tok. None) cid mid outs i toks tbl = (tbl\<lparr>mt_outcomes := oc\<rparr>, None)"
proof (induction toks arbitrary: i tbl)
  case Nil
  show ?case by (intro exI [of _ "mt_outcomes tbl"]) simp
next
  case (Cons tok toks)
  show ?case
    using Cons.IH [of "Suc i" tbl] Cons.IH [of "Suc i" "UpsertOutcome mid tok (if i < length outs then outs ! i else [])  tbl"]
    by (cases "tok = []") (auto simp: UpsertOutcome_def)
qed

lemma upsertMarketOutcomes_rows:
  "\<exists>oc. upsertMarketOutcomes (\<lambda>c tok. None) ps ms tbl = (tbl\<lparr>mt_outcomes := oc\<rparr>, None)"
proof (induction ms arbitrary: tbl)
  case Nil
  show ?case by (intro exI [of _ "mt_outcomes tbl"]) simp
next
  case (Cons m ms)
  show ?case
  proof (cases "fill_map dm_ConditionID ps (mk_ID m)")
    case None
    then show ?thesis using Cons by simp
  next
    case (Some p)
    obtain oc where "outcome_loop (\<lambda>tok. None) (mk_ID m) (dm_ID p) (mk_Outcomes m) 0 (mk_TokenIDs m) tbl = (tbl\<lparr>mt_outcomes := oc\<rparr>, None)"
      using outcome_loop_rows by blast
    then show ?thesis using Some Cons.IH [of "tbl\<lparr>mt_outcomes := oc\<rparr>"] by simp
  qed
qed

subsection \<open>A sweep\<close>

definition no_faults :: "dv_faults \<Rightarrow> bool" where
  "no_faults flt \<longleftrightarrow> df_cat flt = (\<lambda>_. None) \<and> df_list flt = None \<and> df_mark flt = (\<lambda>_. None) \<and> df_market flt = (\<lambda>_. None) \<and>
     df_outcome flt = (\<lambda>_ _. None) \<and> df_inactive flt = None"

text \<open>The rows of the enabled categories of a market, among those of the sweep.\<close>

definition sweep_links :: "CategoryTable \<Rightarrow> Category list \<Rightarrow> Market \<Rightarrow> int list" where
  "sweep_links ctbl cats m =
     concat (map (\<lambda>i. if i \<in> ct_ID ` set cats
                      then (case cg_lookup (fmt_d i) ctbl of None \<Rightarrow> [] | Some r \<Rightarrow> if cr_Enabled r then [cr_ID r] else [])
                      else []) (mk_Categories m))"

definition swept_input :: "CategoryTable \<Rightarrow> Category list \<Rightarrow> Market \<Rightarrow> UpsertMarketInput" where
  "swept_input ctbl cats m = (market_input [] [] m)\<lparr>um_CategoryIDs := sweep_links ctbl cats m\<rparr>"

definition swept_inputs :: "CategoryTable \<Rightarrow> Category list \<Rightarrow> Market list \<Rightarrow> UpsertMarketInput list" where
  "swept_inputs ctbl cats markets = filter (\<lambda>i. um_CategoryIDs i \<noteq> []) (map (swept_input ctbl cats) markets)"

definition enabled_ids :: "CategoryTable \<Rightarrow> int set" where
  "enabled_ids ctbl = cr_ID ` {r \<in> set (cg_rows ctbl). cr_Enabled r}"

definition soft_deleted :: "time \<Rightarrow> MarketRow \<Rightarrow> MarketRow" where
  "soft_deleted now r = r\<lparr>mr_Active := False, mr_DeletedAt := (case mr_DeletedAt r of None \<Rightarrow> Some now | Some d \<Rightarrow> Some d), mr_UpdatedAt := now\<rparr>"

text \<open>The category table after a sweep of \<open>cats\<close> under the whitelist \<open>ws\<close>.\<close>

definition cats_swept :: "string list \<Rightarrow> Category list \<Rightarrow> CategoryTable \<Rightarrow> CategoryTable \<Rightarrow> bool" where
  "cats_swept ws cats ctbl ctbl' \<longleftrightarrow> cg_inv ctbl' \<and>
     (\<forall>r \<in> set (cg_rows ctbl'). cr_Enabled r = tokenMatches (normaliseTokens ws) (cr_Slug r) (cr_Name r)) \<and>
     (\<forall>ext. case find (\<lambda>c. fmt_d (ct_ID c) = ext) (rev cats) of
        None \<Rightarrow> cg_lookup ext ctbl' = map_option (judged (normaliseTokens ws)) (cg_lookup ext ctbl)
      | Some c \<Rightarrow> (\<exists>r. cg_lookup ext ctbl' = Some r \<and> cr_Slug r = ct_Slug c \<and> cr_Name r = ct_Label c \<and> cr_Active r \<and>
                      (\<forall>old. cg_lookup ext ctbl = Some old \<longrightarrow> cr_ID r = cr_ID old)))"

text \<open>The market table after it: last seen wins, unseen rows of an enabled category go, others stay.\<close>

definition markets_swept :: "time \<Rightarrow> int set \<Rightarrow> UpsertMarketInput list \<Rightarrow> MarketTable \<Rightarrow> MarketTable \<Rightarrow> bool" where
  "markets_swept now scope ms tbl tbl' \<longleftrightarrow>
     (\<forall>c. case last_input c ms of
        None \<Rightarrow> mt_lookup c tbl' = map_option (\<lambda>r. if mr_Active r \<and> linked_to tbl (mr_ID r) \<inter> scope \<noteq> {} then soft_deleted now r else r) (mt_lookup c tbl)
      | Some m \<Rightarrow> (\<exists>r. mt_lookup c tbl' = Some r \<and> upserted now m (mt_lookup c tbl) r \<and> mr_Active r \<and> mr_DeletedAt r = None \<and>
                       linked_to tbl' (mr_ID r) = set (um_CategoryIDs m)))"

lemma fill_map_None: "fill_map key xs k = None \<longleftrightarrow> k \<notin> key ` set xs"
  using fill_map_dom [of key xs] by (auto simp: domIff)

lemma judged_keys [simp]: "cr_ExternalID (judged ts r) = cr_ExternalID r" "cr_ID (judged ts r) = cr_ID r"
  "cr_Slug (judged ts r) = cr_Slug r" "cr_Name (judged ts r) = cr_Name r" "cr_Active (judged ts r) = cr_Active r"
  "cr_Enabled (judged ts r) = tokenMatches ts (cr_Slug r) (cr_Name r)"
  by (simp_all add: judged_def)

lemma cg_lookup_judged: "cg_lookup ext (tbl\<lparr>cg_rows := map (judged ts) (cg_rows tbl)\<rparr>) = map_option (judged ts) (cg_lookup ext tbl)"
  using find_key_map [of cr_ExternalID "judged ts" ext "\<lambda>_. True" "cg_rows tbl"] by (simp add: cg_lookup_def)

lemma find_map: "find P (map f xs) = map_option f (find (\<lambda>x. P (f x)) xs)"
  by (induction xs) auto

lemma PersistDiscovery_cats:
  assumes "cg_inv ctbl"
  shows "\<exists>t1 ps es. cat_UpsertSeen (\<lambda>_. None) (map repo_category cats) [] ctbl = (t1, Inr ps) \<and>
    ApplyWhitelist None (\<lambda>_. None) ws t1 = (t1\<lparr>cg_rows := map (judged (normaliseTokens ws)) (cg_rows t1)\<rparr>, Inr es) \<and>
    cats_swept ws cats ctbl (t1\<lparr>cg_rows := map (judged (normaliseTokens ws)) (cg_rows t1)\<rparr>) \<and>
    dc_ID ` set es = enabled_ids (t1\<lparr>cg_rows := map (judged (normaliseTokens ws)) (cg_rows t1)\<rparr>) \<and>
    (\<forall>m. link_ids es ps m = sweep_links (t1\<lparr>cg_rows := map (judged (normaliseTokens ws)) (cg_rows t1)\<rparr>) cats m)"
proof -
  let ?ts = "normaliseTokens ws" and ?cs = "map repo_category cats"
  obtain t1 ps where up: "cat_UpsertSeen (\<lambda>_. None) ?cs [] ctbl = (t1, Inr ps)" and inv: "cg_inv t1"
    and exts: "map dc_ExternalID ps = map dc_ExternalID ?cs"
    and look: "\<And>ext. case find (\<lambda>c. dc_ExternalID c = ext) (rev ?cs) of
       None \<Rightarrow> cg_lookup ext t1 = cg_lookup ext ctbl
     | Some c \<Rightarrow> (\<exists>r. cg_lookup ext t1 = Some r \<and> category_of c (cg_lookup ext ctbl) r)"
    and ids: "\<And>p. p \<in> set ps \<Longrightarrow> map_option cr_ID (cg_lookup (dc_ExternalID p) t1) = Some (dc_ID p)"
    using cat_UpsertSeen_spec [OF assms, of "\<lambda>_. None" ?cs "[]"] by auto
  define t2 where "t2 = t1\<lparr>cg_rows := map (judged ?ts) (cg_rows t1)\<rparr>"
  define es where "es = map categoryFromSQLC (filter cr_Enabled (map (judged ?ts) (sort_key cr_ID (cg_rows t1))))"
  have ap: "ApplyWhitelist None (\<lambda>_. None) ws t1 = (t2, Inr es)"
    using ApplyWhitelist_spec [OF _ inv, of "\<lambda>_. None" ws] by (simp add: t2_def es_def)
  have inv2: "cg_inv t2" using inv by (auto simp: t2_def cg_inv_def comp_def)
  have look2: "cg_lookup ext t2 = map_option (judged ?ts) (cg_lookup ext t1)" for ext
    by (simp add: t2_def cg_lookup_judged)
  have en: "set es = categoryFromSQLC ` {r \<in> set (cg_rows t2). cr_Enabled r}" by (auto simp: es_def t2_def)
  have find_cats: "find (\<lambda>c. dc_ExternalID c = ext) (rev ?cs) = map_option repo_category (find (\<lambda>c. fmt_d (ct_ID c) = ext) (rev cats))" for ext
    by (simp add: rev_map find_map comp_def repo_category_def)
  have swept: "cats_swept ws cats ctbl t2"
    unfolding cats_swept_def
  proof (intro conjI allI)
    show "cg_inv t2" by (rule inv2)
    show "\<forall>r \<in> set (cg_rows t2). cr_Enabled r = tokenMatches ?ts (cr_Slug r) (cr_Name r)" by (auto simp: t2_def)
    fix ext
    show "case find (\<lambda>c. fmt_d (ct_ID c) = ext) (rev cats) of
        None \<Rightarrow> cg_lookup ext t2 = map_option (judged ?ts) (cg_lookup ext ctbl)
      | Some c \<Rightarrow> (\<exists>r. cg_lookup ext t2 = Some r \<and> cr_Slug r = ct_Slug c \<and> cr_Name r = ct_Label c \<and> cr_Active r \<and>
                      (\<forall>old. cg_lookup ext ctbl = Some old \<longrightarrow> cr_ID r = cr_ID old))"
    proof (cases "find (\<lambda>c. fmt_d (ct_ID c) = ext) (rev cats)")
      case None
      then show ?thesis using look [of ext] look2 find_cats [of ext] by simp
    next
      case (Some c)
      then obtain r where "cg_lookup ext t1 = Some r" "category_of (repo_category c) (cg_lookup ext ctbl) r"
        using look [of ext] find_cats [of ext] by auto
      then show ?thesis using Some look2 [of ext] by (auto simp: category_of_def repo_category_def split: option.splits)
    qed
  qed
  have link: "link_ids es ps m = sweep_links t2 cats m" for m
  proof -
    have "(case fill_map dc_ExternalID es (fmt_d i) of None \<Rightarrow> []
        | Some _ \<Rightarrow> (case fill_map dc_ExternalID ps (fmt_d i) of None \<Rightarrow> [] | Some c \<Rightarrow> [dc_ID c])) =
      (if i \<in> ct_ID ` set cats
       then (case cg_lookup (fmt_d i) t2 of None \<Rightarrow> [] | Some r \<Rightarrow> if cr_Enabled r then [cr_ID r] else []) else [])" for i
    proof (cases "fill_map dc_ExternalID ps (fmt_d i)")
      case None
      have "dc_ExternalID ` set ps = (\<lambda>c. fmt_d (ct_ID c)) ` set cats"
        using arg_cong [OF exts, of set] by (simp add: image_image repo_category_def)
      then have "i \<notin> ct_ID ` set cats" using None by (auto simp: fill_map_None)
      then show ?thesis using None by (simp split: option.splits)
    next
      case (Some p)
      then have p: "p \<in> set ps" "dc_ExternalID p = fmt_d i" by (auto simp: fill_map_eq find_Some_iff) (metis nth_mem set_rev length_rev)+
      have "dc_ExternalID p \<in> (\<lambda>c. fmt_d (ct_ID c)) ` set cats"
        using p(1) arg_cong [OF exts, of set] by (auto simp: image_image repo_category_def)
      then have i: "i \<in> ct_ID ` set cats" using p(2) fmt_d_inj by auto
      obtain r where r: "cg_lookup (fmt_d i) t1 = Some r" "cr_ID r = dc_ID p" using ids [OF p(1)] p(2) by auto
      then have r2: "cg_lookup (fmt_d i) t2 = Some (judged ?ts r)" by (simp add: look2)
      have "fill_map dc_ExternalID es (fmt_d i) \<noteq> None \<longleftrightarrow> cr_Enabled (judged ?ts r)"
        unfolding fill_map_None en
        using r2 cg_lookup_Some [OF r2] cg_lookup_mem [OF inv2] by (force simp: categoryFromSQLC_def)
      then show ?thesis using Some i r(2) r2 by (auto split: option.splits)
    qed
    then show ?thesis by (simp add: link_ids_def sweep_links_def Let_def)
  qed
  have "dc_ID ` set es = enabled_ids t2" by (simp add: en enabled_ids_def image_image categoryFromSQLC_def)
  with up ap swept link show ?thesis unfolding t2_def by blast
qed

lemma marked_inactive:
  "mt_lookup c (fst (MarkSeenInactive now seen scope tbl)) =
     map_option (\<lambda>r. if mr_Active r \<and> c \<notin> set seen \<and> linked_to tbl (mr_ID r) \<inter> set scope \<noteq> {} then soft_deleted now r else r)
       (mt_lookup c tbl)"
proof -
  have "list_ex (\<lambda>(m, k). m = mr_ID r \<and> k \<in> set scope) (mt_links tbl) \<longleftrightarrow> linked_to tbl (mr_ID r) \<inter> set scope \<noteq> {}" for r
    by (auto simp: list_ex_iff linked_to_def)
  then show ?thesis
    using mt_lookup_Some [of c tbl]
    by (cases "mt_lookup c tbl") (auto simp: MarkSeenInactive_def mt_lookup_def mt_update_def find_key_map soft_deleted_def Let_def)
qed

lemma upserted_live: "upserted now m old r \<Longrightarrow> mr_Active r \<and> mr_DeletedAt r = None"
proof (cases old)
  case None
  assume "upserted now m old r"
  then obtain i where r: "r = new_market_row now i m" using None by (simp add: upserted_def)
  show ?thesis unfolding r by (simp add: new_market_row_def)
qed (simp add: upserted_def seen_row_def)

lemma PersistDiscovery_sweep:
  assumes "cg_inv (dv_cats db)" "mt_inv (dv_markets db)" "no_faults flt"
    and "PersistDiscovery flt ws cats markets db = (db', err)"
  shows "err = None \<and> cats_swept ws cats (dv_cats db) (dv_cats db') \<and> mt_inv (dv_markets db') \<and>
    markets_swept (dv_now flt) (enabled_ids (dv_cats db')) (swept_inputs (dv_cats db') cats markets) (dv_markets db) (dv_markets db')"
proof -
  obtain t1 t2 ps es where t: "cat_UpsertSeen (\<lambda>_. None) (map repo_category cats) [] (dv_cats db) = (t1, Inr ps)"
      "ApplyWhitelist None (\<lambda>_. None) ws t1 = (t2, Inr es)" "cats_swept ws cats (dv_cats db) t2"
      "dc_ID ` set es = enabled_ids t2" "\<And>m. link_ids es ps m = sweep_links t2 cats m"
    using PersistDiscovery_cats [OF assms(1), of cats ws] by blast
  let ?ms = "swept_inputs t2 cats markets" and ?now = "dv_now flt"
  have inputs: "market_inputs es ps markets = ?ms"
  proof -
    have "market_input es ps = swept_input t2 cats" by (rule ext) (simp add: market_input_def swept_input_def t(5))
    then show ?thesis by (simp add: market_inputs_def swept_inputs_def)
  qed
  obtain mtbl rs where m: "UpsertSeen ?now (\<lambda>_. None) ?ms [] (dv_markets db) = (mtbl, rs, None)" "mt_inv mtbl"
      "swept ?now ?ms (dv_markets db) mtbl"
    using UpsertSeen_spec [OF assms(2), of "\<lambda>_. None" ?now ?ms "[]"] by auto
  obtain oc where oc: "upsertMarketOutcomes (\<lambda>c tok. None) rs markets mtbl = (mtbl\<lparr>mt_outcomes := oc\<rparr>, None)"
    using upsertMarketOutcomes_rows by blast
  define m2 where "m2 = mtbl\<lparr>mt_outcomes := oc\<rparr>"
  have m2: "mt_lookup c m2 = mt_lookup c mtbl" "linked_to m2 i = linked_to mtbl i" "mt_inv m2" for c i
    using m(2) by (simp_all add: m2_def mt_lookup_def linked_to_def)
  define m3 where "m3 = fst (MarkSeenInactive ?now (map um_ConditionID ?ms) (map dc_ID es) m2)"
  have r: "db' = \<lparr>dv_cats = t2, dv_markets = m3\<rparr>" "err = None"
    using assms(3,4) t(1,2) m(1) oc by (auto simp: PersistDiscovery_def no_faults_def inputs m3_def m2_def Let_def)
  have inv: "mt_inv m3"
    using mt_step_keeps [OF m2(3), of "MoInactive ?now (map um_ConditionID ?ms) (map dc_ID es)"] by (simp add: m3_def)
  have l3: "linked_to m3 i = linked_to mtbl i" for i
    using m2(2) by (simp add: m3_def MarkSeenInactive_def mt_update_def linked_to_def Let_def)
  have look: "mt_lookup c m3 = map_option (\<lambda>r. if mr_Active r \<and> c \<notin> um_ConditionID ` set ?ms \<and>
      linked_to mtbl (mr_ID r) \<inter> enabled_ids t2 \<noteq> {} then soft_deleted ?now r else r) (mt_lookup c mtbl)" for c
    using marked_inactive [of c ?now "map um_ConditionID ?ms" "map dc_ID es" m2] m2(1,2) t(4) by (simp add: m3_def)
  have "markets_swept ?now (enabled_ids t2) ?ms (dv_markets db) m3"
    unfolding markets_swept_def
  proof (rule allI)
    fix c
    note s = m(3) [unfolded swept_def, rule_format, of c]
    show "case last_input c ?ms of
        None \<Rightarrow> mt_lookup c m3 = map_option (\<lambda>r. if mr_Active r \<and> linked_to (dv_markets db) (mr_ID r) \<inter> enabled_ids t2 \<noteq> {} then soft_deleted ?now r else r)
          (mt_lookup c (dv_markets db))
      | Some m \<Rightarrow> (\<exists>r. mt_lookup c m3 = Some r \<and> upserted ?now m (mt_lookup c (dv_markets db)) r \<and> mr_Active r \<and> mr_DeletedAt r = None \<and>
                       linked_to m3 (mr_ID r) = set (um_CategoryIDs m))"
    proof (cases "last_input c ?ms")
      case None
      then have "c \<notin> um_ConditionID ` set ?ms" by (auto simp: last_input_def find_None_iff)
      then show ?thesis using None s look [of c] by (cases "mt_lookup c (dv_markets db)") auto
    next
      case (Some m)
      then have "c \<in> um_ConditionID ` set ?ms" using last_input_id by blast
      then show ?thesis using Some s look [of c] l3 upserted_live by fastforce
    qed
  qed
  then show ?thesis using r inv t(3) by simp
qed

text \<open>C34. A discovery sweep, with a working database: the category table holds every category of the sweep under its
  latest slug and label with its id kept, and its enabled flags are exactly the verdicts of the whitelist
  (a category the sweep did not bring keeps its active flag: \<open>MarkSeenInactive\<close>, documented to be
  called at the end of a sweep, is called by none); of
  the markets, each that is linked to an enabled category of the sweep gets or keeps its row, live and
  linked to exactly those categories, the last occurrence winning; each active row the sweep did not
  bring and that was linked to an enabled category is soft-deleted, keeping an earlier deletion time;
  and every other row stays as it was.\<close>

theorem discovery_sweep:
  assumes "cg_inv (dv_cats db)" "mt_inv (dv_markets db)" "no_faults flt"
    and "PersistDiscovery flt ws cats markets db = (db', err)"
  shows "err = None \<and> cats_swept ws cats (dv_cats db) (dv_cats db') \<and> mt_inv (dv_markets db') \<and>
    markets_swept (dv_now flt) (enabled_ids (dv_cats db')) (swept_inputs (dv_cats db') cats markets) (dv_markets db) (dv_markets db')"
  using PersistDiscovery_sweep [OF assms] .

definition fine_db :: "time \<Rightarrow> dv_faults" where
  "fine_db now = \<lparr>dv_now = now, df_cat = (\<lambda>_. None), df_list = None, df_mark = (\<lambda>_. None), df_market = (\<lambda>_. None),
     df_outcome = (\<lambda>_ _. None), df_inactive = None\<rparr>"

definition db_start :: DiscoveryDB where
  "db_start = \<lparr>dv_cats = \<lparr>cg_rows = [], cg_next = 1\<rparr>, dv_markets = mt_empty\<rparr>"

definition two_categories :: "Category list" where
  "two_categories = [\<lparr>ct_ID = 7, ct_Slug = ''us-politics'', ct_Label = ''US Politics''\<rparr>, \<lparr>ct_ID = 9, ct_Slug = ''nba'', ct_Label = ''NBA''\<rparr>]"

definition market_in :: "string \<Rightarrow> int list \<Rightarrow> Market" where
  "market_in c cats = market_2024\<lparr>mk_ID := c, mk_ConditionID := c, mk_Categories := cats\<rparr>"

definition first_sweep :: "DiscoveryDB \<times> string option" where
  "first_sweep = PersistDiscovery (fine_db 100) [''Politics''] two_categories [market_in ''0xa'' [7], market_in ''0xb'' [7, 9], market_in ''0xc'' [9]] db_start"

definition second_sweep :: "DiscoveryDB \<times> string option" where
  "second_sweep = PersistDiscovery (fine_db 200) [''Politics''] two_categories [market_in ''0xb'' [7, 9], market_in ''0xc'' [9]] (fst first_sweep)"

lemma discovery_sweep_witness:
  "map (\<lambda>r. (mr_ConditionID r, mr_Active r, mr_DeletedAt r)) (mt_rows (dv_markets (fst second_sweep))) =
     [(''0xa'', False, Some 200), (''0xb'', True, None)] \<and>
   markets_swept 200 (enabled_ids (dv_cats (fst second_sweep)))
     (swept_inputs (dv_cats (fst second_sweep)) two_categories [market_in ''0xb'' [7, 9], market_in ''0xc'' [9]])
     (dv_markets (fst first_sweep)) (dv_markets (fst second_sweep))"
proof
  show "map (\<lambda>r. (mr_ConditionID r, mr_Active r, mr_DeletedAt r)) (mt_rows (dv_markets (fst second_sweep))) =
     [(''0xa'', False, Some 200), (''0xb'', True, None)]" by code_simp
  have "cg_inv (dv_cats (fst first_sweep))" by code_simp
  moreover have "mt_inv (dv_markets (fst first_sweep))" by code_simp
  moreover have "no_faults (fine_db 200)" by (simp add: no_faults_def fine_db_def)
  ultimately show "markets_swept 200 (enabled_ids (dv_cats (fst second_sweep)))
     (swept_inputs (dv_cats (fst second_sweep)) two_categories [market_in ''0xb'' [7, 9], market_in ''0xc'' [9]])
     (dv_markets (fst first_sweep)) (dv_markets (fst second_sweep))"
    using discovery_sweep [of "fst first_sweep" "fine_db 200" "[''Politics'']" two_categories
        "[market_in ''0xb'' [7, 9], market_in ''0xc'' [9]]" "fst second_sweep" "snd second_sweep"]
    by (simp add: second_sweep_def fine_db_def)
qed

text \<open>A whitelist without entries: the loop then watches every category, but the table enables none, so a sweep
  stores no market and touches no row, whatever it brings.\<close>

theorem empty_whitelist_stores_nothing:
  assumes "cg_inv (dv_cats db)" "mt_inv (dv_markets db)" "no_faults flt"
    and "PersistDiscovery flt ws cats markets db = (db', err)" "normaliseTokens ws = []"
  shows "filter (\<lambda>c. Allowed (NewFilter ws) (ct_Slug c) (ct_Label c)) cats = cats \<and>
    (\<forall>c. mt_lookup c (dv_markets db') = mt_lookup c (dv_markets db))"
proof
  have "NewFilter ws = []" using assms(5) by (simp add: NewFilter_def normaliseTokens_def)
  then show "filter (\<lambda>c. Allowed (NewFilter ws) (ct_Slug c) (ct_Label c)) cats = cats" by (simp add: Allowed_def)
  note s = PersistDiscovery_sweep [OF assms(1-4)]
  then have off: "\<not> cr_Enabled r" if "r \<in> set (cg_rows (dv_cats db'))" for r
    using that assms(5) by (auto simp: cats_swept_def tokenMatches_def)
  then have none: "enabled_ids (dv_cats db') = {}" by (auto simp: enabled_ids_def)
  have "sweep_links (dv_cats db') cats m = []" for m
    using off cg_lookup_Some [of _ "dv_cats db'"] by (auto simp: sweep_links_def split: option.splits)
  then have "swept_inputs (dv_cats db') cats markets = []" by (simp add: swept_inputs_def swept_input_def)
  then show "\<forall>c. mt_lookup c (dv_markets db') = mt_lookup c (dv_markets db)"
    using s none by (auto simp: markets_swept_def last_input_def option.map_ident)
qed

lemma empty_whitelist_stores_nothing_witness:
  "mt_lookup ''0xa'' (dv_markets (fst (PersistDiscovery (fine_db 100) ['' ''] two_categories [market_in ''0xa'' [7]] db_start))) = None"
proof -
  have "cg_inv (dv_cats db_start)" "mt_inv (dv_markets db_start)" by code_simp+
  moreover have "no_faults (fine_db 100)" by (simp add: no_faults_def fine_db_def)
  moreover have "normaliseTokens ['' ''] = []" by code_simp
  ultimately show ?thesis
    using empty_whitelist_stores_nothing [of db_start "fine_db 100" "['' '']" two_categories "[market_in ''0xa'' [7]]"
        "fst (PersistDiscovery (fine_db 100) ['' ''] two_categories [market_in ''0xa'' [7]] db_start)"
        "snd (PersistDiscovery (fine_db 100) ['' ''] two_categories [market_in ''0xa'' [7]] db_start)"]
    by (simp add: db_start_def mt_empty_def mt_lookup_def)
qed

subsection \<open>The snapshot\<close>

definition disc_run :: "'db discover_Loop \<Rightarrow> gamma_up list \<Rightarrow> Cache \<times> 'db \<Rightarrow> Cache \<times> 'db" where
  "disc_run l ups st = foldl (\<lambda>st up. fst (discover_tick l up st)) st ups"

definition cache_ok :: "cat_filter \<Rightarrow> Cache \<Rightarrow> bool" where
  "cache_ok f c \<longleftrightarrow> (\<forall>k ct. ca_categories c k = Some ct \<longrightarrow> ct_ID ct = k \<and> Allowed f (ct_Slug ct) (ct_Label ct)) \<and>
     (\<forall>k m. ca_markets c k = Some m \<longrightarrow> mk_ID m = k \<and> mk_ID m \<noteq> '''' \<and> distinct (mk_Categories m))"

text \<open>A failed tick changes nothing; after another no market carries a category that its tags deny.\<close>

definition tick_result :: "'db discover_Loop \<Rightarrow> gamma_up \<Rightarrow> Cache \<times> 'db \<Rightarrow> (Cache \<times> 'db) \<times> string option \<Rightarrow> bool" where
  "tick_result l up st r \<longleftrightarrow> (case snd r of
       Some e \<Rightarrow> fst r = st
     | None \<Rightarrow> (\<exists>cats. ListTags (gu_tags up) = Inr cats \<and>
         (\<forall>c \<in> set cats. \<forall>k m. \<not> Allowed (dl_filter l) (ct_Slug c) (ct_Label c) \<longrightarrow>
            ca_markets (fst (fst r)) k = Some m \<longrightarrow> ct_ID c \<notin> set (mk_Categories m))))"

lemma dedup_distinct: "distinct (dedup xs) \<and> set (dedup xs) = set xs"
  unfolding dedup_def by (induction xs rule: rev_induct) auto

lemma page_walk_inv:
  assumes "\<forall>out page. P out \<longrightarrow> P (fst (step out page))"
  shows "P out \<Longrightarrow> page_walk get q what step offset out = Inr r \<Longrightarrow> P r"
  using assms
proof (induction get q what step offset out rule: page_walk.induct)
  case (1 get q what step offset out)
  show ?case
  proof (cases "MaxListOffset \<le> offset")
    case True
    then show ?thesis using "1.prems"(1,2) by (simp add: page_walk.simps)
  next
    case low: False
    show ?thesis
    proof (cases "get (q offset)")
      case (Inl e)
      then show ?thesis using "1.prems"(1,2) low by (auto simp: page_walk.simps [of get q what step offset] split: if_splits)
    next
      case (Inr page)
      obtain out' stop where s: "step out page = (out', stop)" by fastforce
      then have "P out'" using "1.prems"(1,3) by (metis fst_conv)
      then show ?thesis
        using "1.IH" [OF low Inr s [symmetric]] "1.prems"(2,3) low Inr s
        by (auto simp: page_walk.simps [of get q what step offset] split: if_splits)
    qed
  qed
qed

definition mapped_ok :: "Market list \<Rightarrow> bool" where
  "mapped_ok ms \<longleftrightarrow> (\<forall>m \<in> set ms. mk_ID m \<noteq> '''' \<and> mk_Categories m = [])"

lemma add_markets_ok: "mapped_ok out \<Longrightarrow> mapped_ok (fst (add_markets P n out ms))"
proof (induction ms arbitrary: out)
  case (Cons m ms)
  show ?case
  proof (cases "mapMarket P m")
    case (Inr dm)
    then have "mapped_ok (out @ [dm])"
      using Cons.prems by (auto simp: mapped_ok_def mapMarket_def Let_def split: if_splits)
    then show ?thesis using Cons.IH [of "out @ [dm]"] Inr by (simp add: Let_def)
  qed (simp add: Cons)
qed simp

lemma ListMarkets_ok: "ListMarkets P get opts = Inr ms \<Longrightarrow> mapped_ok ms"
  unfolding ListMarkets_def by (rule page_walk_inv [where P = mapped_ok and out = "[]"]) (auto simp: add_markets_ok mapped_ok_def [of "[]"])

lemma fill_map_Some: "fill_map key xs k = Some x \<Longrightarrow> x \<in> set xs \<and> key x = k"
  by (auto simp: fill_map_eq find_Some_iff) (metis nth_mem set_rev length_rev)

text \<open>The tick, seen from its result.\<close>

lemma tick_cases:
  obtains (failed) e where "discover_tick l up st = (st, Some e)"
    | (fresh) cats events markets db where "ListTags (gu_tags up) = Inr cats" "mapped_ok markets"
      "discover_tick l up st =
        ((fst (Replace (fst st)
            (map (assign_categories (MapEventsToMarketCategories events)
                (map ct_ID (filter (\<lambda>c. \<not> Allowed (dl_filter l) (ct_Slug c) (ct_Label c)) cats))) markets)
            (filter (\<lambda>c. Allowed (dl_filter l) (ct_Slug c) (ct_Label c)) cats)), db), None)"
proof (cases "ListTags (gu_tags up)")
  case (Inl e)
  then show thesis by (intro failed [of e]) (simp add: discover_tick_def)
next
  case tags: (Inr cats)
  show thesis
  proof (cases "ListEvents (gu_events up) (list_opts (dl_cfg l))")
    case (Inl e)
    then show thesis using tags by (intro failed [of e]) (simp add: discover_tick_def)
  next
    case events: (Inr evs)
    show thesis
    proof (cases "ListMarkets (gu_parse up) (gu_markets up) (list_opts (dl_cfg l))")
      case (Inl e)
      then show thesis using tags events by (intro failed [of e]) (simp add: discover_tick_def)
    next
      case (Inr ms)
      show thesis
        by (rule fresh [OF tags ListMarkets_ok [OF Inr], of evs]) (simp add: discover_tick_def tags events Inr Let_def)
    qed
  qed
qed

lemma assign_categories_keys: "mk_ID (assign_categories tags denied m) = mk_ID m"
  "mk_Categories m = [] \<Longrightarrow> distinct (mk_Categories (assign_categories tags denied m)) \<and>
     set (mk_Categories (assign_categories tags denied m)) \<inter> set denied = {}"
  by (auto simp: assign_categories_def dedup_distinct split: option.splits)

lemma tick_keeps:
  assumes "cache_ok (dl_filter l) (fst st)"
  shows "cache_ok (dl_filter l) (fst (fst (discover_tick l up st))) \<and> tick_result l up st (discover_tick l up st)"
proof (cases rule: tick_cases [of l up st])
  case (failed e)
  then show ?thesis using assms by (simp add: tick_result_def)
next
  case (fresh cats events markets db)
  let ?A = "\<lambda>c. Allowed (dl_filter l) (ct_Slug c) (ct_Label c)"
  let ?a = "assign_categories (MapEventsToMarketCategories events) (map ct_ID (filter (\<lambda>c. \<not> ?A c) cats))"
  have c: "fst (Replace (fst st) ms cs) = \<lparr>ca_markets = fill_map mk_ID ms, ca_categories = fill_map ct_ID cs\<rparr>" for ms cs
    by (simp add: Replace_def Let_def)
  have m: "\<exists>m'. m = ?a m' \<and> mk_ID m = k \<and> mk_ID m' \<noteq> '''' \<and> mk_Categories m' = []" if "fill_map mk_ID (map ?a markets) k = Some m" for k m
    using fill_map_Some [OF that] fresh(2) by (auto simp: mapped_ok_def)
  have "cache_ok (dl_filter l) (fst (fst (discover_tick l up st)))"
    unfolding cache_ok_def fresh(3) c fst_conv Cache.select_convs
  proof (intro conjI allI impI)
    fix k ct
    assume "fill_map ct_ID (filter ?A cats) k = Some ct"
    from fill_map_Some [OF this] show "ct_ID ct = k" "Allowed (dl_filter l) (ct_Slug ct) (ct_Label ct)" by simp_all
  next
    fix k mk
    assume "fill_map mk_ID (map ?a markets) k = Some mk"
    from m [OF this] show "mk_ID mk = k" "mk_ID mk \<noteq> ''''" "distinct (mk_Categories mk)"
      using assign_categories_keys by auto
  qed
  moreover have "ct_ID ct \<notin> set (mk_Categories mk)"
    if "fill_map mk_ID (map ?a markets) k = Some mk" "ct \<in> set cats" "\<not> ?A ct" for k mk ct
  proof -
    note mm = m [OF that(1)]
    then obtain m' where "mk = ?a m'" "mk_Categories m' = []" by blast
    then have "set (mk_Categories mk) \<inter> set (map ct_ID (filter (\<lambda>c. \<not> ?A c) cats)) = {}" using assign_categories_keys(2) by blast
    then show ?thesis using that(2,3) by auto
  qed
  then have "tick_result l up st (discover_tick l up st)"
    unfolding tick_result_def fresh(3) c fst_conv snd_conv option.case Cache.select_convs using fresh(1) by blast
  ultimately show ?thesis by blast
qed

text \<open>The snapshot: after any number of ticks, whatever the upstream answered in each, it holds only categories the
  whitelist allows and markets with an id under that id and without repeated categories; and each
  tick either fails and leaves snapshot and database as they were, or leaves no market carrying a
  category that its tag list names and the whitelist denies.\<close>

theorem snapshot_whitelisted:
  "cache_ok (dl_filter l) (fst (disc_run l ups (mc_New, db))) \<and>
   tick_result l up (disc_run l ups (mc_New, db)) (discover_tick l up (disc_run l ups (mc_New, db)))"
proof -
  have "cache_ok (dl_filter l) (fst (disc_run l ups (mc_New, db)))"
  proof (induction ups rule: rev_induct)
    case Nil
    show ?case by (simp add: disc_run_def cache_ok_def mc_New_def)
  next
    case (snoc u ups)
    then show ?case using tick_keeps [of l "disc_run l ups (mc_New, db)" u] by (simp add: disc_run_def)
  qed
  then show ?thesis using tick_keeps by blast
qed

text \<open>
  A sweep acts on the market table by the steps of MarketLife, whatever fails in it, so
  the invariants of that theory hold through it.
\<close>

lemma UpsertSeen_steps: "\<exists>ops. fst (UpsertSeen now fault ms out tbl) = foldl mt_step tbl ops"
proof (induction ms arbitrary: out tbl)
  case Nil
  show ?case by (intro exI [of _ "[]"]) simp
next
  case (Cons m ms)
  let ?op = "MoUpsert now (fault (um_ConditionID m)) m"
  obtain t1 x where u: "upsertOne now (fault (um_ConditionID m)) m tbl = (t1, x)" by fastforce
  show ?case
  proof (cases x)
    case (Inl e)
    then show ?thesis using u by (intro exI [of _ "[?op]"]) simp
  next
    case (Inr r)
    obtain ops where "fst (UpsertSeen now fault ms (out @ [r]) t1) = foldl mt_step t1 ops" using Cons.IH by blast
    then show ?thesis using u Inr by (intro exI [of _ "?op # ops"]) simp
  qed
qed

lemma outcome_loop_steps: "\<exists>ops. fst (outcome_loop fault cid mid outs i toks tbl) = foldl mt_step tbl ops"
proof (induction toks arbitrary: i tbl)
  case Nil
  show ?case by (intro exI [of _ "[]"]) simp
next
  case (Cons tok toks)
  let ?l = "if i < length outs then outs ! i else []"
  obtain ops where "fst (outcome_loop fault cid mid outs (Suc i) toks (UpsertOutcome mid tok ?l tbl)) =
      foldl mt_step (mt_step tbl (MoOutcome mid tok ?l)) ops"
    using Cons.IH by fastforce
  then have "\<exists>ops. fst (outcome_loop fault cid mid outs (Suc i) toks (UpsertOutcome mid tok ?l tbl)) = foldl mt_step tbl ops"
    by (intro exI [of _ "MoOutcome mid tok ?l # ops"]) simp
  moreover have "\<exists>ops. tbl = foldl mt_step tbl ops" by (intro exI [of _ "[]"]) simp
  ultimately show ?case using Cons.IH [of "Suc i" tbl] by (auto split: option.splits)
qed

lemma upsertMarketOutcomes_steps: "\<exists>ops. fst (upsertMarketOutcomes fault ps ms tbl) = foldl mt_step tbl ops"
proof (induction ms arbitrary: tbl)
  case Nil
  show ?case by (intro exI [of _ "[]"]) simp
next
  case (Cons m ms)
  show ?case
  proof (cases "fill_map dm_ConditionID ps (mk_ID m)")
    case None
    then show ?thesis using Cons.IH by simp
  next
    case (Some p)
    obtain t1 x where t1: "outcome_loop (fault (mk_ID m)) (mk_ID m) (dm_ID p) (mk_Outcomes m) 0 (mk_TokenIDs m) tbl = (t1, x)"
      by fastforce
    obtain ops where o1: "t1 = foldl mt_step tbl ops"
      using outcome_loop_steps [of "fault (mk_ID m)" "mk_ID m" "dm_ID p" "mk_Outcomes m" 0 "mk_TokenIDs m" tbl] t1 by auto
    obtain ops' where "fst (upsertMarketOutcomes fault ps ms t1) = foldl mt_step t1 ops'" using Cons.IH by blast
    then have "\<exists>ops. fst (upsertMarketOutcomes fault ps ms t1) = foldl mt_step tbl ops"
      by (intro exI [of _ "ops @ ops'"]) (simp add: o1)
    moreover have "\<exists>ops. t1 = foldl mt_step tbl ops" using o1 by blast
    ultimately show ?thesis using Some t1 by (cases x) auto
  qed
qed

lemma PersistDiscovery_steps: "\<exists>ops. dv_markets (fst (PersistDiscovery flt ws cats markets db)) = foldl mt_step (dv_markets db) ops"
proof -
  have chain: "\<exists>ops. fst (MarkSeenInactive n seen scope (fst (upsertMarketOutcomes fo out ms (fst (UpsertSeen n' fm ins o' tbl))))) = foldl mt_step tbl ops"
    "\<exists>ops. fst (upsertMarketOutcomes fo out ms (fst (UpsertSeen n' fm ins o' tbl))) = foldl mt_step tbl ops" for n seen scope fo out ms n' fm ins o' tbl
  proof -
    obtain a where a: "fst (UpsertSeen n' fm ins o' tbl) = foldl mt_step tbl a" using UpsertSeen_steps by blast
    obtain b where "fst (upsertMarketOutcomes fo out ms (foldl mt_step tbl a)) = foldl mt_step (foldl mt_step tbl a) b"
      using upsertMarketOutcomes_steps by blast
    with a have b: "fst (upsertMarketOutcomes fo out ms (fst (UpsertSeen n' fm ins o' tbl))) = foldl mt_step tbl (a @ b)" by simp
    then show "\<exists>ops. fst (upsertMarketOutcomes fo out ms (fst (UpsertSeen n' fm ins o' tbl))) = foldl mt_step tbl ops" by blast
    show "\<exists>ops. fst (MarkSeenInactive n seen scope (fst (upsertMarketOutcomes fo out ms (fst (UpsertSeen n' fm ins o' tbl))))) = foldl mt_step tbl ops"
      unfolding b by (intro exI [of _ "a @ b @ [MoInactive n seen scope]"]) simp
  qed
  have id: "\<exists>ops. dv_markets db = foldl mt_step (dv_markets db) ops" by (intro exI [of _ "[]"]) simp
  show ?thesis
    unfolding PersistDiscovery_def Let_def
    by (auto split: prod.splits sum.splits option.splits intro!: id)
      (metis (no_types) UpsertSeen_steps chain fst_conv)+
qed

end
