(* ===== verification/Spec2Isabelle.thy ===== *)
theory Spec2Isabelle
  imports Score Cluster Accumulation FlowContext System StrategyPromotion StrategyShadow StrategyValue StagedFlow Outcomes TradeReads TelegramRouter Backfill Discovery
begin

text \<open>
  A model of polymarket-watchtower, a Go service that watches the prediction markets of Polymarket
  and sends alerts about unusual trades to Telegram. Paths below are relative to \<open>src/internal\<close>;
  \<open>usecase/\<close> stands for \<open>app/usecase/\<close>.

  The program. A discovery loop keeps the universe of markets and categories in memory and in
  Postgres. A collect loop and a backfill worker read trades from the Data API and write them to the
  trade table. A detection worker leases stored trades and hands each to the detect loop, which
  reads baselines, runs the single-trade scorer, the cluster window, the accumulation and ownership
  detectors and their vetoes, and creates at most one pending alert row per dedup key. The alert
  sender claims pending rows and delivers them, with retries, through the Telegram router, its guard
  and the bot. Next to this a strategy bus records the decisions of experimental detectors, and a
  promotion worker decides from their measured outcomes whether a strategy may write live rows.

  Ground. Prelude has the machine arithmetic of \<open>int\<close> and \<open>time.Duration\<close> (nanoseconds, wrapping at
  64 bits), times as integers of nanoseconds, and shared list lemmas. Float64 is IEEE binary64 with
  rounding to nearest even, infinities and NaN (one zero; the sign of zero is never observed by the
  program). GoString and GoFmt are package strings and the verbs of \<open>fmt.Sprintf\<close> on byte strings.

  Parts and theories.
  \<^item> Anomaly, Market, Finding: \<open>domain/model/\<close>, that is severities, thresholds, markets, trades,
    buckets and the finding envelope.
  \<^item> Baseline, Score, Cluster, Accumulation, FlowContext: the detectors of \<open>usecase/analytics/\<close>
    (baseline, score, cluster, accumulation, and ownership, quietmarket, mmfilter). Each has the
    package's records, one definition per function, and its functional specification, ranges or
    invariants: the rings are a bounded list with a running total, the ladder of accumulation is
    compared with one whose gates are spelled out, and the cool-down of a category holds until it is
    forgotten.
  \<^item> Catalog, Concentration: the category whitelist, the market cache, and the concentration gate.
  \<^item> TradeTable: \<open>infra/repository/trade_repository.go\<close> and \<open>db/queries/trades.sql\<close>, insertion with
    dedup keys and the detection queue kept in the columns of the table. A table is the list of its
    rows with the id sequence; a statement is a function on it. Its lemmas show that leases exclude
    each other and what no statement can change.
  \<^item> MarketTable, MarketLife: \<open>infra/repository/market_repository.go\<close> with \<open>db/queries/markets.sql\<close>,
    every statement, the life of a row under all of them, and the reaper of \<open>usecase/sanity\<close>.
  \<^item> Ingest, IngestProps: the paging client \<open>infra/polymarket/dataapi\<close>, \<open>usecase/persist\<close> and
    \<open>usecase/collect\<close>; what the pulls of a market store, and when they lose a trade.
  \<^item> HttpClient: \<open>infra/polymarket/httpx\<close>, the retrying JSON client under the feeds.
  \<^item> Gamma, Discovery: \<open>infra/polymarket/gamma\<close>, \<open>infra/repository/category_repository.go\<close>, \<open>usecase/discover\<close>
    and the sweep of \<open>usecase/persist\<close>; ids, paging, what a sweep makes of the tables, the snapshot.
  \<^item> Backfill: \<open>usecase/backfill\<close>, the page walk (\<open>partial_function\<close>, shown to end) and what it stores.
  \<^item> Detect, DetectProps: \<open>usecase/detect/detect.go\<close>, \<open>Observe\<close> with every path it calls. The gates
    of a finding are stated over what the scorer, the cluster window and the line and share detectors
    say of the trade itself; a finding has passed those of its kind and leaves at most once per key.
  \<^item> Detection: \<open>usecase/detection\<close>, the worker that drains the queue; which trades the observer is
    given, what each row then bears, and that a drain ends.
  \<^item> AlertQueue, AlertSender: \<open>infra/repository/alert_repository.go\<close> and \<open>usecase/alertsender\<close>, the
    queue, the sender over any store that meets the interface \<open>alert_store\<close>. Every request to Telegram
    is logged with its fate: recorded as sent, counted as a failed attempt, or lost (its context
    ended, or the write of its outcome failed), and whether the message landed is a choice of the
    outside. Nothing follows a recorded delivery; lost ones come on top of the retry budget.
  \<^item> TelegramBot, TelegramRouter: \<open>infra/telegram\<close>, the client, the guard and the router.
  \<^item> StrategyBus, StrategyPromotion: shadow decisions, the bus, and the promotion worker, whose
    answer the bus uses through the interface \<open>promotion_gate\<close>.
  \<^item> BookSignals, PeerSignals, TextRisk: the nine second-generation detectors of \<open>usecase/analytics/\<close>
    (conflictresolve, cheaptail, repricinglag, bookvacuum, catalystwindow, walletcohort, holderdelta,
    rulesrisk, marketregime), each a pure function of its configuration and input: evidence, bounds
    of boosts and risks, ties.
  \<^item> StrategyShadow: \<open>usecase/detect/strategy_shadow.go\<close>, the hook that feeds those detectors from staged
    inputs on a fresh alert and hands their rows to the bus, with the flags of \<open>app/strategy_phase_b.go\<close>;
    one row per strategy, the cap, and the strategies that cannot fire as wired.
  \<^item> StrategyValue: the table of shadow decisions (\<open>infra/repository/shadow_decisions_repository.go\<close>),
    \<open>usecase/strategyvalue\<close> and \<open>usecase/strategyoutcome\<close>, which fill its columns, and the aggregates
    the promotion worker judges; runs of the whole loop of deciding, measuring and reviewing.
  \<^item> StagedTables: the tables between the input workers and those strategies (market links, catalysts,
    repricing windows, risk scores, wallet graph, thesis lines, holder snapshots, book bars) with their
    statements of \<open>db/queries/strategy_shadow.sql\<close>.
  \<^item> Repricing, InputWorkers, MarketFeeds: the workers that fill them, with the adapters of
    \<open>app/strategy_phase_c.go\<close> and \<open>strategy_phase_f.go\<close>: \<open>usecase/repricing\<close>; \<open>marketlinks\<close>, \<open>thesislines\<close>,
    \<open>walletgraph\<close>, \<open>riskscore\<close>; \<open>bookbars\<close>, \<open>holdersync\<close>, \<open>workerbudget\<close> and the order book client
    \<open>infra/polymarket/clob\<close>.
  \<^item> StagedInputs: \<open>usecase/stagedinputs\<close>, the cached readers that hand the tables to the hook.
  \<^item> StagedFlow: runs of all the workers and readers; the shape the tables keep, and the two strategies
    that never get their data.
  \<^item> Outcomes: the outcome, drift and reaction columns of the alerts with their statements,
    \<open>usecase/outcomes\<close> and \<open>usecase/drift\<close>: verdicts match the bets and are final, reactions follow them,
    and the drift of the longer windows is lost.
  \<^item> PgAggregates, TradeReads: sums, percentiles and extrema of Postgres; the read side of
    \<open>trade_repository.go\<close> and \<open>trader_repository.go\<close> with its queries, the baseline providers
    \<open>usecase/analytics/dbbaseline\<close> and \<open>traderbaseline\<close>, and their wiring into the detect loop: id caches are
    transparent, reported idle times are real, and what the loop takes for a new wallet.
  \<^item> System: detect loop, sender and restarts over one alert table; from a delivered message back to
    the trade that caused it.

  Interfaces. The locales are \<open>severity_order\<close> (three private severity orders), \<open>bounded_buffer\<close> (the
  ring buffer implements a bounded list), \<open>alert_store\<close> (what the sender needs of the queue),
  \<open>alert_creator\<close> (what the detect loop needs of it), \<open>html_transport\<close> (what the router needs of the
  bot, with or without the guard), \<open>promotion_gate\<close>, \<open>unique_table\<close> (a table whose rows are upserted
  under a unique key) and \<open>staged_reader\<close> (a reader behind the cache). Each is interpreted on the model of its provider.

  Environment. What the program calls but this repository does not contain is an argument: the clock,
  the HTTP exchange as a function from the request to an error or a decoded body, the random draw,
  SHA-256, \<open>strconv.FormatFloat\<close>, and whether each database call succeeds. Postgres is modelled by
  the statements of \<open>db/queries\<close> on lists of rows, each statement atomic; rows that the statement
  leaves unordered are taken in table order. Goroutines of one tick are the order of their
  steps; where the code interleaves workers on shared tables (detection queue, alert queue, market
  rows) the theorems quantify over all sequences of statements.

  Bounds. \<open>drainLoop\<close> takes fuel; \<open>drain_terminates\<close> says how much is enough. The retry loop of the
  sender and the page loops recurse on their own bounds. Nothing else needs fuel.

  Not modelled. Wiring (\<open>app.go\<close>, \<open>config.go\<close>, \<open>cmd/\<close>), metrics, logs and ticker loops, which only
  schedule what is modelled; the generated \<open>sqlc\<close> code, of which the queries are modelled where the
  program depends on them; the language-model services (\<open>infra/ai\<close>, news and market intelligence,
  outcome comments) and the event-page scraper, whose substance is text from outside; the
  websocket feed; message layout (\<open>infra/alerting\<close>); and the
  package \<open>analytics/thesisaccum\<close>, which nothing calls: the hook has its own copy of the rule.
\<close>

end
